(* ===== verification/Prelude.thy ===== *)
theory Prelude
  imports Main "HOL-Library.Multiset"
begin

text \<open>
  Shared vocabulary of the development: Rust's \<open>Result\<close> as a sum, the checked and saturating
  operations of the unsigned integer types as functions on \<open>nat\<close> with the width written out, and
  the generic list lemmas that the component theories use. Heights are \<open>u32\<close> values, amounts are
  \<open>u64\<close> values in zatoshi, indices are \<open>usize\<close> values; all are \<open>nat\<close> here, and every operation of
  the source that can leave the width is one of the checked operations below.
\<close>

section \<open>Names of the machine types\<close>

type_synonym u32 = nat
type_synonym u64 = nat
type_synonym usize = nat

named_theorems arith_defs "definitions of the checked and saturating operations"
named_theorems const_defs "definitions of the numeric constants of the source"

section \<open>Results\<close>

text \<open>\<open>Result<T, E>\<close>: \<open>Inl\<close> is \<open>Err\<close>, \<open>Inr\<close> is \<open>Ok\<close>. The question-mark operator is \<open>rbind\<close>.\<close>

definition rbind :: "'e + 'a \<Rightarrow> ('a \<Rightarrow> 'e + 'b) \<Rightarrow> 'e + 'b" where
  "rbind r f = (case r of Inl e \<Rightarrow> Inl e | Inr x \<Rightarrow> f x)"

definition ok_or :: "'e \<Rightarrow> 'a option \<Rightarrow> 'e + 'a" where
  "ok_or e m = (case m of None \<Rightarrow> Inl e | Some x \<Rightarrow> Inr x)"

text \<open>\<open>iter.map(f).collect::<Result<Vec<_>, _>>()\<close>: left to right, the first error wins.\<close>

fun collect_results :: "('a \<Rightarrow> 'e + 'b) \<Rightarrow> 'a list \<Rightarrow> 'e + 'b list" where
  "collect_results f [] = Inr []"
| "collect_results f (x # xs) =
     rbind (f x) (\<lambda>y. rbind (collect_results f xs) (\<lambda>ys. Inr (y # ys)))"

text \<open>\<open>try_fold\<close> over a list with a fallible accumulator.\<close>

fun try_fold :: "('s \<Rightarrow> 'a \<Rightarrow> 'e + 's) \<Rightarrow> 's \<Rightarrow> 'a list \<Rightarrow> 'e + 's" where
  "try_fold f s [] = Inr s"
| "try_fold f s (x # xs) = rbind (f s x) (\<lambda>s'. try_fold f s' xs)"

lemma rbind_simps [simp]: "rbind (Inl e) f = Inl e" "rbind (Inr x) f = f x"
  by (simp_all add: rbind_def)

lemma rbind_cong [fundef_cong]:
  "r = r' \<Longrightarrow> (\<And>x. r' = Inr x \<Longrightarrow> f x = f' x) \<Longrightarrow> rbind r f = rbind r' f'"
  by (cases r') simp_all

lemma rbind_eq_Inr [simp]: "rbind r f = Inr y \<longleftrightarrow> (\<exists>x. r = Inr x \<and> f x = Inr y)"
  by (cases r) auto

lemma rbind_eq_Inl: "rbind r f = Inl e \<longleftrightarrow> r = Inl e \<or> (\<exists>x. r = Inr x \<and> f x = Inl e)"
  by (cases r) auto

lemma ok_or_simps [simp]: "ok_or e None = Inl e" "ok_or e (Some x) = Inr x"
  by (simp_all add: ok_or_def)

lemma ok_or_eq_Inr [simp]: "ok_or e m = Inr x \<longleftrightarrow> m = Some x"
  by (cases m) auto

lemma collect_results_Inr_iff:
  "collect_results f xs = Inr ys \<longleftrightarrow> list_all2 (\<lambda>x y. f x = Inr y) xs ys"
proof (induction xs arbitrary: ys)
  case Nil
  show ?case by auto
next
  case (Cons x xs)
  then show ?case by (cases ys) auto
qed

lemma collect_results_total:
  "(\<And>x. x \<in> set xs \<Longrightarrow> f x = Inr (g x)) \<Longrightarrow> collect_results f xs = Inr (map g xs)"
  by (induction xs) auto

lemma collect_results_length: "collect_results f xs = Inr ys \<Longrightarrow> length ys = length xs"
  by (auto simp: collect_results_Inr_iff dest: list_all2_lengthD)

lemma try_fold_invariant:
  assumes "try_fold f s xs = Inr s'" and "P s"
    and "\<And>s x s'. x \<in> set xs \<Longrightarrow> P s \<Longrightarrow> f s x = Inr s' \<Longrightarrow> P s'"
  shows "P s'"
  using assms by (induction xs arbitrary: s) auto

section \<open>Checked and saturating arithmetic\<close>

definition checked_add :: "nat \<Rightarrow> nat \<Rightarrow> nat \<Rightarrow> nat option" where
  [arith_defs]: "checked_add w a b = (if a + b < 2 ^ w then Some (a + b) else None)"

definition checked_sub :: "nat \<Rightarrow> nat \<Rightarrow> nat option" where
  [arith_defs]: "checked_sub a b = (if b \<le> a then Some (a - b) else None)"

definition checked_mul :: "nat \<Rightarrow> nat \<Rightarrow> nat \<Rightarrow> nat option" where
  [arith_defs]: "checked_mul w a b = (if a * b < 2 ^ w then Some (a * b) else None)"

definition saturating_add :: "nat \<Rightarrow> nat \<Rightarrow> nat \<Rightarrow> nat" where
  [arith_defs]: "saturating_add w a b = min (a + b) (2 ^ w - 1)"

definition saturating_sub :: "nat \<Rightarrow> nat \<Rightarrow> nat" where
  [arith_defs]: "saturating_sub a b = a - b"

lemma checked_add_eq_Some [simp]: "checked_add w a b = Some c \<longleftrightarrow> c = a + b \<and> a + b < 2 ^ w"
  by (auto simp: checked_add_def)

lemma checked_add_eq_None [simp]: "checked_add w a b = None \<longleftrightarrow> 2 ^ w \<le> a + b"
  by (auto simp: checked_add_def)

lemma checked_sub_eq_Some [simp]: "checked_sub a b = Some c \<longleftrightarrow> b \<le> a \<and> c = a - b"
  by (auto simp: checked_sub_def)

lemma checked_sub_eq_None [simp]: "checked_sub a b = None \<longleftrightarrow> a < b"
  by (auto simp: checked_sub_def)

lemma checked_mul_eq_Some [simp]: "checked_mul w a b = Some c \<longleftrightarrow> c = a * b \<and> a * b < 2 ^ w"
  by (auto simp: checked_mul_def)

lemma checked_mul_eq_None [simp]: "checked_mul w a b = None \<longleftrightarrow> 2 ^ w \<le> a * b"
  by (auto simp: checked_mul_def)

text \<open>The checked sum of a list of \<open>u64\<close> values, with one error for an overflow anywhere.\<close>

definition checked_sum :: "'e \<Rightarrow> u64 list \<Rightarrow> 'e + u64" where
  "checked_sum e xs = try_fold (\<lambda>total v. ok_or e (checked_add 64 total v)) 0 xs"

lemma try_fold_checked_add:
  "try_fold (\<lambda>total v. ok_or e (checked_add w total v)) s xs =
     (if xs = [] \<or> s + sum_list xs < 2 ^ w then Inr (s + sum_list xs) else Inl e)"
proof (induction xs arbitrary: s)
  case Nil
  show ?case by simp
next
  case (Cons x xs)
  show ?case
  proof (cases "s + x < 2 ^ w")
    case True
    then show ?thesis
      using Cons.IH [of "s + x"] by (auto simp: checked_add_def add.assoc)
  next
    case False
    then have "\<not> s + (x + sum_list xs) < 2 ^ w" by arith
    with False show ?thesis by (simp add: checked_add_def)
  qed
qed

lemma checked_sum_eq:
  "checked_sum e xs = (if sum_list xs < 2 ^ 64 then Inr (sum_list xs) else Inl e)"
  by (auto simp: checked_sum_def try_fold_checked_add)

section \<open>Lists\<close>

text \<open>\<open>slice.get(i)\<close>.\<close>

definition slice_get :: "'a list \<Rightarrow> usize \<Rightarrow> 'a option" where
  "slice_get xs i = (if i < length xs then Some (xs ! i) else None)"

lemma slice_get_eq_Some [simp]: "slice_get xs i = Some x \<longleftrightarrow> i < length xs \<and> x = xs ! i"
  by (auto simp: slice_get_def)

lemma slice_get_eq_None [simp]: "slice_get xs i = None \<longleftrightarrow> length xs \<le> i"
  by (auto simp: slice_get_def)

text \<open>\<open>sort_unstable_by(|a, b| b.cmp(a))\<close> on integers: the descending sort.\<close>

definition sort_desc :: "nat list \<Rightarrow> nat list" where
  "sort_desc xs = rev (sort xs)"

definition non_increasing :: "nat list \<Rightarrow> bool" where
  "non_increasing xs \<longleftrightarrow> sorted_wrt (\<ge>) xs"

lemma mset_sort_desc [simp]: "mset (sort_desc xs) = mset xs"
  by (simp add: sort_desc_def)

lemma set_sort_desc [simp]: "set (sort_desc xs) = set xs"
  by (simp add: sort_desc_def)

lemma length_sort_desc [simp]: "length (sort_desc xs) = length xs"
  by (simp add: sort_desc_def)

lemma sum_list_sort_desc [simp]: "sum_list (sort_desc xs) = sum_list xs"
  by (metis mset_sort_desc sum_mset_sum_list)

lemma non_increasing_sort_desc [simp]: "non_increasing (sort_desc xs)"
  by (simp add: non_increasing_def sort_desc_def sorted_wrt_rev)

lemma sort_desc_cong: "mset xs = mset ys \<Longrightarrow> sort_desc xs = sort_desc ys"
  by (metis properties_for_sort mset_sort sort_desc_def sorted_sort)

lemma sort_desc_id: "non_increasing xs \<Longrightarrow> sort_desc xs = xs"
proof -
  assume "non_increasing xs"
  then have "sorted (rev xs)"
    by (simp add: non_increasing_def sorted_wrt_rev)
  then have "sort (rev xs) = rev xs"
    by (rule sorted_sort_id)
  moreover have "sort (rev xs) = sort xs"
    by (rule properties_for_sort) simp_all
  ultimately show ?thesis by (simp add: sort_desc_def)
qed

lemma sorted_le_last: "sorted xs \<Longrightarrow> x \<in> set xs \<Longrightarrow> x \<le> last xs"
  by (induction xs) auto

lemma sum_list_mset_cong: "mset xs = mset ys \<Longrightarrow> sum_list xs = sum_list (ys :: nat list)"
  by (metis sum_mset_sum_list)

lemma sum_list_filter_pos: "sum_list (filter (\<lambda>v. 0 < v) xs) = sum_list (xs :: nat list)"
  by (induction xs) auto

lemma member_le_sum_list_nat: "x \<in> set xs \<Longrightarrow> x \<le> sum_list (xs :: nat list)"
  by (induction xs) auto

lemma sum_list_mono_mset: "mset xs \<subseteq># mset ys \<Longrightarrow> sum_list xs \<le> sum_list (ys :: nat list)"
proof -
  assume "mset xs \<subseteq># mset ys"
  then obtain zs where "mset ys = mset xs + mset zs"
    by (metis ex_mset mset_subset_eq_exists_conv)
  then have "sum_list ys = sum_list xs + sum_list zs"
    by (metis mset_append sum_list_append sum_list_mset_cong)
  then show ?thesis by simp
qed

lemma sum_list_map_add_const:
  "sum_list (map (\<lambda>x. x + c) xs) = sum_list xs + c * length (xs :: nat list)"
  by (induction xs) (auto simp: algebra_simps)

text \<open>Pieces that carry the index they come from are distinct when put together.\<close>

lemma distinct_concat_enumerate:
  assumes "\<And>i x. distinct (f (i, x))" and "\<And>i x y. y \<in> set (f (i, x)) \<Longrightarrow> key y = i"
  shows "distinct (concat (map f (enumerate n xs)))
     \<and> (\<forall>y \<in> set (concat (map f (enumerate n xs))). n \<le> key y \<and> key y < n + length xs)"
proof (induction xs arbitrary: n)
  case (Cons x xs)
  have "set (f (n, x)) \<inter> set (concat (map f (enumerate (Suc n) xs))) = {}"
    using Cons.IH [of "Suc n"] assms(2) by fastforce
  then show ?case using Cons.IH [of "Suc n"] assms by fastforce
qed simp

lemma set_concat_enumerate:
  "set (concat (map f (enumerate 0 xs))) = (\<Union>i < length xs. set (f (i, xs ! i)))"
proof -
  have "set (enumerate 0 xs) = (\<lambda>i. (i, xs ! i)) ` {..< length xs}"
    by (auto simp: in_set_enumerate_eq image_iff)
  then show ?thesis by simp
qed

lemma distinct_submultiset: "mset xs \<subseteq># mset ys \<Longrightarrow> distinct ys \<Longrightarrow> distinct xs"
proof -
  assume "mset xs \<subseteq># mset ys" and "distinct ys"
  then obtain zs where "mset ys = mset (xs @ zs)"
    by (metis ex_mset mset_append mset_subset_eq_exists_conv)
  with \<open>distinct ys\<close> have "distinct (xs @ zs)" using mset_eq_imp_distinct_iff by blast
  then show ?thesis by simp
qed

lemma submultiset_split:
  assumes "A + B \<subseteq># P"
  shows "A \<subseteq># P" and "B \<subseteq># P - A" and "B \<subseteq># P"
proof -
  from assms obtain C where P: "P = A + B + C" by (auto simp: mset_subset_eq_exists_conv)
  show "A \<subseteq># P" "B \<subseteq># P - A" "B \<subseteq># P" by (simp_all add: P union_assoc)
qed

lemma sum_list_concat_nat: "sum_list (concat xss) = sum_list (map sum_list (xss :: nat list list))"
  by (induction xss) auto

end
