(* ===== verification/Wallet_Network.thy ===== *)
theory Wallet_Network
  imports Prelude
begin

text \<open>
  The wallet's network parameters (\<open>rust/src/wallet/network.rs\<close>) over the consensus tables of the
  vendored \<open>zcash_protocol\<close> crate (\<open>rust/vendor/zcash_protocol/src/consensus.rs\<close>): network
  selection, activation heights and branch identifiers. The two build-time switches of the source,
  the cargo feature \<open>wcash\<close> and the cfg \<open>ironwood_masquerade\<close>, are the fields of
  \<open>build_flavor\<close>; the process-wide atomic that holds the regtest activation height is an argument.
\<close>

datatype wallet_network = Main | Test | Regtest

datatype network_upgrade =
  Overwinter | Sapling | Blossom | Heartwood | Canopy | Nu5 | Nu6 | Nu6_1 | Nu6_2 | Nu6_3

datatype branch_id =
  B_Sprout | B_Overwinter | B_Sapling | B_Blossom | B_Heartwood | B_Canopy | B_Nu5 | B_Nu6
  | B_Nu6_1 | B_Nu6_2 | B_Nu6_3 | WcashTestnetV1 | WcashRegtestV1

record build_flavor =
  wcash :: bool
  ironwood_masquerade :: bool

section \<open>Selecting a network\<close>

definition network_from_str :: "build_flavor \<Rightarrow> string \<Rightarrow> wallet_network option" where
  "network_from_str flavor s =
     (if s = ''main'' \<and> \<not> wcash flavor then Some Main
      else if s = ''test'' then Some Test
      else if s = ''regtest'' then Some Regtest
      else None)"

datatype network_error = RegtestActivationTooLow

definition DEFAULT_REGTEST_NU6_3_ACTIVATION_HEIGHT :: u32 where
  [const_defs]: "DEFAULT_REGTEST_NU6_3_ACTIVATION_HEIGHT = 4294967295"

text \<open>The setter returns the new value of the atomic, or the error and leaves it alone.\<close>

definition configure_regtest_nu6_3_activation_height :: "u32 \<Rightarrow> network_error + u32" where
  "configure_regtest_nu6_3_activation_height height =
     (if height < 2 then Inl RegtestActivationTooLow else Inr height)"

section \<open>Activation heights\<close>

fun main_network_activation_height :: "network_upgrade \<Rightarrow> u32 option" where
  "main_network_activation_height Overwinter = Some 347500"
| "main_network_activation_height Sapling = Some 419200"
| "main_network_activation_height Blossom = Some 653600"
| "main_network_activation_height Heartwood = Some 903000"
| "main_network_activation_height Canopy = Some 1046400"
| "main_network_activation_height Nu5 = Some 1687104"
| "main_network_activation_height Nu6 = Some 2726400"
| "main_network_activation_height Nu6_1 = Some 3146400"
| "main_network_activation_height Nu6_2 = Some 3364600"
| "main_network_activation_height Nu6_3 = Some 3428143"

fun test_network_activation_height :: "network_upgrade \<Rightarrow> u32 option" where
  "test_network_activation_height Overwinter = Some 207500"
| "test_network_activation_height Sapling = Some 280000"
| "test_network_activation_height Blossom = Some 584000"
| "test_network_activation_height Heartwood = Some 903800"
| "test_network_activation_height Canopy = Some 1028500"
| "test_network_activation_height Nu5 = Some 1842420"
| "test_network_activation_height Nu6 = Some 2976000"
| "test_network_activation_height Nu6_1 = Some 3536500"
| "test_network_activation_height Nu6_2 = Some 4052000"
| "test_network_activation_height Nu6_3 = Some 4134000"

fun ironwood_masquerade_activation_height :: "network_upgrade \<Rightarrow> u32 option" where
  "ironwood_masquerade_activation_height Nu5 = Some 2"
| "ironwood_masquerade_activation_height Nu6 = Some 3"
| "ironwood_masquerade_activation_height Nu6_1 = Some 4"
| "ironwood_masquerade_activation_height Nu6_2 = Some 5"
| "ironwood_masquerade_activation_height Nu6_3 = Some 5000"
| "ironwood_masquerade_activation_height _ = Some 1"

definition wcash_activation_height :: "network_upgrade \<Rightarrow> u32 option" where
  "wcash_activation_height nu = Some 1"

definition activation_height ::
    "build_flavor \<Rightarrow> u32 \<Rightarrow> wallet_network \<Rightarrow> network_upgrade \<Rightarrow> u32 option" where
  "activation_height flavor regtest_nu6_3 network nu =
     (if wcash flavor
      then (case network of
              Main \<Rightarrow> None
            | Test \<Rightarrow> wcash_activation_height nu
            | Regtest \<Rightarrow> wcash_activation_height nu)
      else (case network of
              Main \<Rightarrow> (if ironwood_masquerade flavor
                        then ironwood_masquerade_activation_height nu
                        else main_network_activation_height nu)
            | Test \<Rightarrow> test_network_activation_height nu
            | Regtest \<Rightarrow> (if nu = Nu6_3 then Some regtest_nu6_3 else Some 1)))"

section \<open>Branch identifiers\<close>

fun nu_branch_id :: "network_upgrade \<Rightarrow> branch_id" where
  "nu_branch_id Overwinter = B_Overwinter"
| "nu_branch_id Sapling = B_Sapling"
| "nu_branch_id Blossom = B_Blossom"
| "nu_branch_id Heartwood = B_Heartwood"
| "nu_branch_id Canopy = B_Canopy"
| "nu_branch_id Nu5 = B_Nu5"
| "nu_branch_id Nu6 = B_Nu6"
| "nu_branch_id Nu6_1 = B_Nu6_1"
| "nu_branch_id Nu6_2 = B_Nu6_2"
| "nu_branch_id Nu6_3 = B_Nu6_3"

fun branch_id_to_u32 :: "branch_id \<Rightarrow> u32" where
  "branch_id_to_u32 B_Sprout = 0"
| "branch_id_to_u32 B_Overwinter = 0x5ba81b19"
| "branch_id_to_u32 B_Sapling = 0x76b809bb"
| "branch_id_to_u32 B_Blossom = 0x2bb40e60"
| "branch_id_to_u32 B_Heartwood = 0xf5b9230b"
| "branch_id_to_u32 B_Canopy = 0xe9ff75a6"
| "branch_id_to_u32 B_Nu5 = 0xc2d6d0b4"
| "branch_id_to_u32 B_Nu6 = 0xc8e71055"
| "branch_id_to_u32 B_Nu6_1 = 0x4dec4df0"
| "branch_id_to_u32 B_Nu6_2 = 0x5437f330"
| "branch_id_to_u32 B_Nu6_3 = 0x37a5165b"
| "branch_id_to_u32 WcashTestnetV1 = 0xb3cfd27e"
| "branch_id_to_u32 WcashRegtestV1 = 0xc3a6678a"

definition branch_id_try_from :: "u32 \<Rightarrow> branch_id option" where
  "branch_id_try_from v =
     (if v = 0 then Some B_Sprout
      else if v = 0x5ba81b19 then Some B_Overwinter
      else if v = 0x76b809bb then Some B_Sapling
      else if v = 0x2bb40e60 then Some B_Blossom
      else if v = 0xf5b9230b then Some B_Heartwood
      else if v = 0xe9ff75a6 then Some B_Canopy
      else if v = 0xc2d6d0b4 then Some B_Nu5
      else if v = 0xc8e71055 then Some B_Nu6
      else if v = 0x4dec4df0 then Some B_Nu6_1
      else if v = 0x5437f330 then Some B_Nu6_2
      else if v = 0x37a5165b then Some B_Nu6_3
      else if v = 0xb3cfd27e then Some WcashTestnetV1
      else if v = 0xc3a6678a then Some WcashRegtestV1
      else None)"

definition branch_id_for_upgrade ::
    "build_flavor \<Rightarrow> wallet_network \<Rightarrow> network_upgrade \<Rightarrow> branch_id" where
  "branch_id_for_upgrade flavor network nu =
     (if wcash flavor \<and> nu = Nu6_3
      then (case network of
              Main \<Rightarrow> nu_branch_id nu
            | Test \<Rightarrow> WcashTestnetV1
            | Regtest \<Rightarrow> WcashRegtestV1)
      else nu_branch_id nu)"

definition UPGRADES_IN_ORDER :: "network_upgrade list" where
  "UPGRADES_IN_ORDER =
     [Overwinter, Sapling, Blossom, Heartwood, Canopy, Nu5, Nu6, Nu6_1, Nu6_2, Nu6_3]"

definition is_nu_active ::
    "build_flavor \<Rightarrow> u32 \<Rightarrow> wallet_network \<Rightarrow> network_upgrade \<Rightarrow> u32 \<Rightarrow> bool" where
  "is_nu_active flavor regtest_nu6_3 network nu height =
     (case activation_height flavor regtest_nu6_3 network nu of
        None \<Rightarrow> False | Some h \<Rightarrow> h \<le> height)"

text \<open>The loop of \<open>BranchId::for_height\<close> returns at the first active upgrade, newest first.\<close>

definition branch_for_height ::
    "build_flavor \<Rightarrow> u32 \<Rightarrow> wallet_network \<Rightarrow> u32 \<Rightarrow> branch_id" where
  "branch_for_height flavor regtest_nu6_3 network height =
     (case find (\<lambda>nu. is_nu_active flavor regtest_nu6_3 network nu height)
                (rev UPGRADES_IN_ORDER) of
        None \<Rightarrow> B_Sprout
      | Some nu \<Rightarrow> branch_id_for_upgrade flavor network nu)"

section \<open>Properties\<close>

lemma branch_id_try_from_to_u32: "branch_id_try_from (branch_id_to_u32 b) = Some b"
  by (cases b) (simp_all add: branch_id_try_from_def)

lemma branch_id_to_u32_inj: "branch_id_to_u32 a = branch_id_to_u32 b \<Longrightarrow> a = b"
  by (metis branch_id_try_from_to_u32 option.inject)

lemma nu_branch_id_not_wcash:
  "nu_branch_id nu \<noteq> WcashTestnetV1" "nu_branch_id nu \<noteq> WcashRegtestV1"
  by (cases nu; simp)+

lemma wcash_branch_for_height:
  assumes "wcash flavor"
  shows "branch_for_height flavor r network height =
           (case network of
              Main \<Rightarrow> B_Sprout
            | Test \<Rightarrow> (if 1 \<le> height then WcashTestnetV1 else B_Sprout)
            | Regtest \<Rightarrow> (if 1 \<le> height then WcashRegtestV1 else B_Sprout))"
  using assms
  by (cases network)
     (simp_all add: branch_for_height_def UPGRADES_IN_ORDER_def is_nu_active_def
        activation_height_def wcash_activation_height_def branch_id_for_upgrade_def)

lemma zcash_branch_for_height_not_wcash:
  assumes "\<not> wcash flavor"
  shows "branch_for_height flavor r network height \<notin> {WcashTestnetV1, WcashRegtestV1}"
  using assms
  by (auto simp: branch_for_height_def branch_id_for_upgrade_def nu_branch_id_not_wcash
           split: option.splits)

text \<open>
  A Wcash build signs in transaction domains of its own: whatever branch identifier a Zcash
  build of the same wallet selects, for any network and height, a Wcash build on its test or
  regtest network selects a different one at every height from 1 on.
\<close>

theorem wcash_domain_separation:
  assumes "wcash f" and "\<not> wcash g" and "network \<noteq> Main" and "1 \<le> height"
  shows "branch_id_to_u32 (branch_for_height f r network height) \<noteq>
           branch_id_to_u32 (branch_for_height g r' network' height')"
proof
  assume eq: "branch_id_to_u32 (branch_for_height f r network height) =
                branch_id_to_u32 (branch_for_height g r' network' height')"
  then have "branch_for_height f r network height = branch_for_height g r' network' height'"
    by (rule branch_id_to_u32_inj)
  moreover have "branch_for_height f r network height \<in> {WcashTestnetV1, WcashRegtestV1}"
    using assms by (cases network) (auto simp: wcash_branch_for_height)
  ultimately show False
    using zcash_branch_for_height_not_wcash [OF assms(2), of r' network' height'] by simp
qed

theorem wcash_domain_separation_witness:
  "branch_id_to_u32 (branch_for_height \<lparr>wcash = True, ironwood_masquerade = False\<rparr> 2 Test 1) \<noteq>
     branch_id_to_u32
       (branch_for_height \<lparr>wcash = False, ironwood_masquerade = False\<rparr> 2 Test 4134000)"
  by (rule wcash_domain_separation) simp_all

end
