(* ===== verification/Timing_Policy.thy ===== *)
theory Timing_Policy
  imports Wallet_Network
begin

text \<open>
  Timing policies of a pool migration: \<open>migration/policy.rs\<close> and the parameter part of
  \<open>migration/preparation_policy.rs\<close>. The process-wide switch
  \<open>FAST_TESTNET_MIGRATION_ENABLED\<close> is the boolean argument \<open>fast\<close>.
\<close>

section \<open>Constants\<close>

definition ZATOSHIS_PER_ZEC :: u64 where
  [const_defs]: "ZATOSHIS_PER_ZEC = 100000000"

definition ZIP318_MAX_RESIDUAL_VALUE_ZATOSHI :: u64 where
  [const_defs]: "ZIP318_MAX_RESIDUAL_VALUE_ZATOSHI = ZATOSHIS_PER_ZEC div 100"

definition ZIP318_MAX_MIGRATION_DENOMINATION_ZATOSHI :: u64 where
  [const_defs]: "ZIP318_MAX_MIGRATION_DENOMINATION_ZATOSHI = 10000 * ZATOSHIS_PER_ZEC"

definition ZIP318_ANCHOR_BUCKET_MODULUS :: u32 where
  [const_defs]: "ZIP318_ANCHOR_BUCKET_MODULUS = 144"

definition REGTEST_ANCHOR_BUCKET_MODULUS :: u32 where
  [const_defs]: "REGTEST_ANCHOR_BUCKET_MODULUS = 1"

definition ZIP318_ANCHOR_AGE_CAP :: u32 where
  [const_defs]: "ZIP318_ANCHOR_AGE_CAP = 4"

definition ZIP318_EXPIRY_MODULUS :: u32 where
  [const_defs]: "ZIP318_EXPIRY_MODULUS = 34560"

definition ZIP318_TRANSFER_MEAN_DELAY_BLOCKS :: u32 where
  [const_defs]: "ZIP318_TRANSFER_MEAN_DELAY_BLOCKS = 144"

definition ZIP318_TRANSFER_MAX_DELAY_BLOCKS :: u32 where
  [const_defs]: "ZIP318_TRANSFER_MAX_DELAY_BLOCKS = 576"

definition NINETY_MINUTE_TRANSFER_MEAN_DELAY_BLOCKS :: u32 where
  [const_defs]: "NINETY_MINUTE_TRANSFER_MEAN_DELAY_BLOCKS = 66"

definition REGTEST_TRANSFER_MEAN_DELAY_BLOCKS :: u32 where
  [const_defs]: "REGTEST_TRANSFER_MEAN_DELAY_BLOCKS = 1"

definition REGTEST_TRANSFER_MAX_DELAY_BLOCKS :: u32 where
  [const_defs]: "REGTEST_TRANSFER_MAX_DELAY_BLOCKS = 4"

definition FAST_TESTNET_TRANSFER_MEAN_DELAY_BLOCKS :: u32 where
  [const_defs]: "FAST_TESTNET_TRANSFER_MEAN_DELAY_BLOCKS = 12"

definition FAST_TESTNET_TRANSFER_MAX_DELAY_BLOCKS :: u32 where
  [const_defs]: "FAST_TESTNET_TRANSFER_MAX_DELAY_BLOCKS = 48"

definition FAST_TESTNET_ANCHOR_BUCKET_MODULUS :: u32 where
  [const_defs]: "FAST_TESTNET_ANCHOR_BUCKET_MODULUS = 12"

definition MIN_IRONWOOD_MIGRATION_OUTPUT_ZATOSHI :: u64 where
  [const_defs]: "MIN_IRONWOOD_MIGRATION_OUTPUT_ZATOSHI = 1"

definition DENSE_MIGRATION_PART_THRESHOLD :: usize where
  [const_defs]: "DENSE_MIGRATION_PART_THRESHOLD = 10"

definition MIGRATION_STATUS_FEE_ESTIMATE_ZATOSHI :: u64 where
  [const_defs]: "MIGRATION_STATUS_FEE_ESTIMATE_ZATOSHI = 15000"

definition DENOMINATION_SPLIT_STATUS_FEE_ESTIMATE_ZATOSHI :: u64 where
  [const_defs]: "DENOMINATION_SPLIT_STATUS_FEE_ESTIMATE_ZATOSHI = 80000"

section \<open>The migration timing policy\<close>

datatype migration_timing_policy =
  Standard | Standard90Minutes | Standard90MinutesLatestAnchor | FastTestnet

datatype policy_error =
  UnsupportedTimingPolicy string | UnsupportedPreparationTimingPolicy string

fun timing_policy_as_str :: "migration_timing_policy \<Rightarrow> string" where
  "timing_policy_as_str Standard = ''standard''"
| "timing_policy_as_str Standard90Minutes = ''standard_90m''"
| "timing_policy_as_str Standard90MinutesLatestAnchor = ''standard_90m_latest_anchor''"
| "timing_policy_as_str FastTestnet = ''fast_testnet''"

definition timing_policy_from_str :: "string \<Rightarrow> policy_error + migration_timing_policy" where
  "timing_policy_from_str value =
     (if value = ''standard'' then Inr Standard
      else if value = ''standard_90m'' then Inr Standard90Minutes
      else if value = ''standard_90m_latest_anchor'' then Inr Standard90MinutesLatestAnchor
      else if value = ''fast_testnet'' then Inr FastTestnet
      else Inl (UnsupportedTimingPolicy value))"

definition configured_timing_policy :: "bool \<Rightarrow> wallet_network \<Rightarrow> migration_timing_policy" where
  "configured_timing_policy fast network =
     (if (network = Test \<or> network = Regtest) \<and> fast then FastTestnet
      else if network = Regtest then Standard
      else Standard90Minutes)"

fun schedule_parameters_with_policy ::
    "wallet_network \<Rightarrow> migration_timing_policy \<Rightarrow> u32 \<times> u32" where
  "schedule_parameters_with_policy Regtest p =
     (if p = FastTestnet
      then (FAST_TESTNET_TRANSFER_MEAN_DELAY_BLOCKS, FAST_TESTNET_TRANSFER_MAX_DELAY_BLOCKS)
      else (REGTEST_TRANSFER_MEAN_DELAY_BLOCKS, REGTEST_TRANSFER_MAX_DELAY_BLOCKS))"
| "schedule_parameters_with_policy network p =
     (if network = Test \<and> p = FastTestnet
      then (FAST_TESTNET_TRANSFER_MEAN_DELAY_BLOCKS, FAST_TESTNET_TRANSFER_MAX_DELAY_BLOCKS)
      else if p = Standard90Minutes \<or> p = Standard90MinutesLatestAnchor
      then (NINETY_MINUTE_TRANSFER_MEAN_DELAY_BLOCKS, ZIP318_TRANSFER_MAX_DELAY_BLOCKS)
      else (ZIP318_TRANSFER_MEAN_DELAY_BLOCKS, ZIP318_TRANSFER_MAX_DELAY_BLOCKS))"

definition schedule_parameters_with_policy_for_part_count ::
    "wallet_network \<Rightarrow> migration_timing_policy \<Rightarrow> usize \<Rightarrow> u32 \<times> u32" where
  "schedule_parameters_with_policy_for_part_count network p part_count =
     (let (mean_delay_blocks, max_delay_blocks) = schedule_parameters_with_policy network p;
          effective_mean =
            (if part_count > DENSE_MIGRATION_PART_THRESHOLD
             then max (mean_delay_blocks div 2) 1 else mean_delay_blocks)
      in (effective_mean, max_delay_blocks))"

definition schedule_parameters :: "bool \<Rightarrow> wallet_network \<Rightarrow> u32 \<times> u32" where
  "schedule_parameters fast network =
     schedule_parameters_with_policy network (configured_timing_policy fast network)"

definition schedule_parameters_for_part_count ::
    "bool \<Rightarrow> wallet_network \<Rightarrow> usize \<Rightarrow> u32 \<times> u32" where
  "schedule_parameters_for_part_count fast network part_count =
     schedule_parameters_with_policy_for_part_count network
       (configured_timing_policy fast network) part_count"

section \<open>The preparation timing policy\<close>

definition ZIP318_PREPARATION_MEAN_DELAY_BLOCKS :: u32 where
  [const_defs]: "ZIP318_PREPARATION_MEAN_DELAY_BLOCKS = 16"

definition ZIP318_PREPARATION_MAX_DELAY_BLOCKS :: u32 where
  [const_defs]: "ZIP318_PREPARATION_MAX_DELAY_BLOCKS = 96"

definition REGTEST_PREPARATION_MEAN_DELAY_BLOCKS :: u32 where
  [const_defs]: "REGTEST_PREPARATION_MEAN_DELAY_BLOCKS = 1"

definition REGTEST_PREPARATION_MAX_DELAY_BLOCKS :: u32 where
  [const_defs]: "REGTEST_PREPARATION_MAX_DELAY_BLOCKS = 4"

definition FAST_TESTNET_PREPARATION_MEAN_DELAY_BLOCKS :: u32 where
  [const_defs]: "FAST_TESTNET_PREPARATION_MEAN_DELAY_BLOCKS = 4"

definition FAST_TESTNET_PREPARATION_MAX_DELAY_BLOCKS :: u32 where
  [const_defs]: "FAST_TESTNET_PREPARATION_MAX_DELAY_BLOCKS = 16"

definition DENSE_PREPARATION_TRANSACTION_THRESHOLD :: usize where
  [const_defs]: "DENSE_PREPARATION_TRANSACTION_THRESHOLD = 3"

datatype preparation_timing_policy = Immediate | Zip318Spaced

definition from_spacing_enabled :: "bool \<Rightarrow> preparation_timing_policy" where
  "from_spacing_enabled enabled = (if enabled then Zip318Spaced else Immediate)"

fun preparation_policy_as_str :: "preparation_timing_policy \<Rightarrow> string" where
  "preparation_policy_as_str Immediate = ''immediate''"
| "preparation_policy_as_str Zip318Spaced = ''zip318_spaced''"

definition preparation_policy_from_str ::
    "string \<Rightarrow> policy_error + preparation_timing_policy" where
  "preparation_policy_from_str value =
     (if value = ''immediate'' then Inr Immediate
      else if value = ''zip318_spaced'' then Inr Zip318Spaced
      else Inl (UnsupportedPreparationTimingPolicy value))"

fun preparation_schedule_parameters ::
    "wallet_network \<Rightarrow> migration_timing_policy \<Rightarrow> u32 \<times> u32" where
  "preparation_schedule_parameters Regtest p =
     (if p = FastTestnet
      then (FAST_TESTNET_PREPARATION_MEAN_DELAY_BLOCKS, FAST_TESTNET_PREPARATION_MAX_DELAY_BLOCKS)
      else (REGTEST_PREPARATION_MEAN_DELAY_BLOCKS, REGTEST_PREPARATION_MAX_DELAY_BLOCKS))"
| "preparation_schedule_parameters network p =
     (if network = Test \<and> p = FastTestnet
      then (FAST_TESTNET_PREPARATION_MEAN_DELAY_BLOCKS, FAST_TESTNET_PREPARATION_MAX_DELAY_BLOCKS)
      else (ZIP318_PREPARATION_MEAN_DELAY_BLOCKS, ZIP318_PREPARATION_MAX_DELAY_BLOCKS))"

definition preparation_schedule_parameters_for_transaction_count ::
    "wallet_network \<Rightarrow> migration_timing_policy \<Rightarrow> usize \<Rightarrow> u32 \<times> u32" where
  "preparation_schedule_parameters_for_transaction_count network p transaction_count =
     (let (mean_delay_blocks, max_delay_blocks) = preparation_schedule_parameters network p;
          effective_mean =
            (if transaction_count > DENSE_PREPARATION_TRANSACTION_THRESHOLD
             then max (mean_delay_blocks div 2) 1 else mean_delay_blocks)
      in (effective_mean, max_delay_blocks))"

datatype preparation_error =
  PreparationSpacingEstimateOverflow
  | PreparationMissingLayer nat
  | PreparationScheduledHeightOverflow
  | PreparationLayerHeightOverflow
  | PreparationCatchUpHeightOverflow
  | PreparationCatchUpCountOverflow

definition estimated_preparation_spacing_delay_blocks ::
    "bool \<Rightarrow> wallet_network \<Rightarrow> preparation_timing_policy \<Rightarrow> u32 \<Rightarrow> preparation_error + u32" where
  "estimated_preparation_spacing_delay_blocks fast network policy transaction_count =
     (if policy = Immediate then Inr 0
      else ok_or PreparationSpacingEstimateOverflow
             (checked_mul 32
               (fst (preparation_schedule_parameters_for_transaction_count network
                       (configured_timing_policy fast network) transaction_count))
               transaction_count))"

section \<open>Facts about the parameters\<close>

lemma timing_policy_from_str_as_str: "timing_policy_from_str (timing_policy_as_str p) = Inr p"
  by (cases p) (simp_all add: timing_policy_from_str_def)

lemma preparation_policy_from_str_as_str:
  "preparation_policy_from_str (preparation_policy_as_str p) = Inr p"
  by (cases p) (simp_all add: preparation_policy_from_str_def)

lemma timing_policy_from_str_Inr: "timing_policy_from_str s = Inr p \<Longrightarrow> s = timing_policy_as_str p"
  by (auto simp: timing_policy_from_str_def split: if_splits)

lemma schedule_parameters_cases:
  "schedule_parameters_with_policy network p \<in> {(12, 48), (1, 4), (66, 576), (144, 576)}"
  by (cases network) (simp_all add: const_defs)

lemma schedule_parameters_valid:
  assumes "schedule_parameters_with_policy network p = (mean, mx)"
  shows "0 < mean" and "mean < mx" and "mx \<le> 576"
  using schedule_parameters_cases [of network p] assms by auto

lemma schedule_parameters_for_part_count_valid:
  assumes "schedule_parameters_with_policy_for_part_count network p n = (mean, mx)"
  shows "0 < mean" and "mean < mx" and "mx = snd (schedule_parameters_with_policy network p)"
  using schedule_parameters_cases [of network p] assms
  by (auto simp: schedule_parameters_with_policy_for_part_count_def split: if_splits)

lemma preparation_parameters_cases:
  "preparation_schedule_parameters network p \<in> {(4, 16), (1, 4), (16, 96)}"
  by (cases network) (simp_all add: const_defs)

lemma preparation_parameters_valid:
  assumes "preparation_schedule_parameters_for_transaction_count network p n = (mean, mx)"
  shows "0 < mean" and "mean < mx" and "mx \<le> 96"
  using preparation_parameters_cases [of network p] assms
  by (auto simp: preparation_schedule_parameters_for_transaction_count_def split: if_splits)

end
