(* ===== verification/Denominations.thy ===== *)
theory Denominations
  imports Timing_Policy
begin

text \<open>
  Canonical ZIP 318 denominations and the greedy denomination plan
  (\<open>migration/denomination_policy.rs\<close>, first part, and the balance test of \<open>migration.rs\<close> that
  uses it). Amounts are zatoshi.
\<close>

section \<open>Canonical denominations\<close>

text \<open>
  The inner loop over the multipliers 1, 2 and 5: a product that leaves \<open>u64\<close> is skipped, a product
  within the two bounds replaces the best one so far.
\<close>

definition best_multiple :: "u64 \<Rightarrow> u64 \<Rightarrow> u64 option \<Rightarrow> u64 option" where
  "best_multiple value_zatoshi magnitude best =
     fold (\<lambda>multiplier b.
             case checked_mul 64 magnitude multiplier of
               None \<Rightarrow> b
             | Some denomination \<Rightarrow>
                 (if denomination \<le> value_zatoshi
                     \<and> denomination \<le> ZIP318_MAX_MIGRATION_DENOMINATION_ZATOSHI
                  then Some denomination else b))
          [1, 2, 5] best"

text \<open>
  The outer loop multiplies the magnitude by ten until it reaches the largest denomination. It starts
  at a positive magnitude; the first branch only makes the recursion total at zero, which the loop
  never sees.
\<close>

function largest_denomination_loop :: "u64 \<Rightarrow> u64 \<Rightarrow> u64 option \<Rightarrow> u64 option" where
  "largest_denomination_loop value_zatoshi magnitude best =
     (if magnitude = 0 then None
      else let best' = best_multiple value_zatoshi magnitude best in
        if magnitude \<ge> ZIP318_MAX_MIGRATION_DENOMINATION_ZATOSHI then best'
        else case checked_mul 64 magnitude 10 of
               None \<Rightarrow> None
             | Some magnitude' \<Rightarrow> largest_denomination_loop value_zatoshi magnitude' best')"
  by pat_completeness auto
termination
  by (relation "measure (\<lambda>(v, m, b). ZIP318_MAX_MIGRATION_DENOMINATION_ZATOSHI - m)") auto

declare largest_denomination_loop.simps [simp del]

definition largest_zip318_denomination_at_or_below :: "u64 \<Rightarrow> u64 option" where
  "largest_zip318_denomination_at_or_below value_zatoshi =
     (if value_zatoshi < ZIP318_MAX_RESIDUAL_VALUE_ZATOSHI then None
      else largest_denomination_loop value_zatoshi ZIP318_MAX_RESIDUAL_VALUE_ZATOSHI None)"

definition is_zip318_canonical_denomination :: "u64 \<Rightarrow> bool" where
  "is_zip318_canonical_denomination value_zatoshi \<longleftrightarrow>
     largest_zip318_denomination_at_or_below value_zatoshi = Some value_zatoshi"

section \<open>The denomination plan\<close>

record denomination_plan =
  dp_migration_outputs :: "u64 list"
  dp_orchard_change :: "u64 option"
  dp_split_fee_zatoshi :: u64
  dp_migration_fee_zatoshi :: u64
  dp_total_input_zatoshi :: u64
  dp_total_migratable_zatoshi :: u64

datatype denomination_error =
  DenominationSplitFeeUnderflow | CanonicalDenominationFeeUnderflow | MigratableTotalOverflow

text \<open>
  The reference set of denominations, used to state what the loop computes: 1, 2 and 5 times the
  powers of ten from 0.01 to 1,000 ZEC, and 10,000 ZEC.
\<close>

definition zip318_denominations :: "u64 list" where
  "zip318_denominations =
     [1000000, 2000000, 5000000, 10000000, 20000000, 50000000, 100000000, 200000000, 500000000,
      1000000000, 2000000000, 5000000000, 10000000000, 20000000000, 50000000000, 100000000000,
      200000000000, 500000000000, 1000000000000]"

definition last_at_or_below :: "u64 list \<Rightarrow> u64 \<Rightarrow> u64 option" where
  "last_at_or_below ds v =
     (let fs = filter (\<lambda>d. d \<le> v) ds in if fs = [] then None else Some (last fs))"

lemma fold_best_eq:
  "fold (\<lambda>d b. if d \<le> v then Some d else b) ds b =
     (case last_at_or_below ds v of None \<Rightarrow> b | Some d \<Rightarrow> Some d)"
  by (induction ds arbitrary: b) (auto simp: last_at_or_below_def Let_def)

lemma best_multiple_in_range:
  assumes "m * 5 \<le> ZIP318_MAX_MIGRATION_DENOMINATION_ZATOSHI"
  shows "best_multiple v m b = fold (\<lambda>d b. if d \<le> v then Some d else b) [m, m * 2, m * 5] b"
  using assms by (simp add: best_multiple_def const_defs checked_mul_def)

lemma best_multiple_top:
  "best_multiple v 1000000000000 b = (if 1000000000000 \<le> v then Some 1000000000000 else b)"
  by (simp add: best_multiple_def const_defs checked_mul_def)

lemma largest_denomination_loop_step:
  assumes "0 < m" and "m * 10 \<le> ZIP318_MAX_MIGRATION_DENOMINATION_ZATOSHI"
  shows "largest_denomination_loop v m b =
           largest_denomination_loop v (m * 10)
             (fold (\<lambda>d b. if d \<le> v then Some d else b) [m, m * 2, m * 5] b)"
  using assms
  by (subst largest_denomination_loop.simps)
     (simp add: best_multiple_in_range Let_def checked_mul_def const_defs)

lemma largest_denomination_loop_top:
  "largest_denomination_loop v 1000000000000 b =
     (if 1000000000000 \<le> v then Some 1000000000000 else b)"
  by (subst largest_denomination_loop.simps) (simp add: best_multiple_top const_defs)

lemma largest_denomination_loop_eq_fold:
  "largest_denomination_loop v 1000000 None =
     fold (\<lambda>d b. if d \<le> v then Some d else b) zip318_denominations None"
  by (simp add: largest_denomination_loop_step largest_denomination_loop_top const_defs
        zip318_denominations_def del: One_nat_def)

lemma last_at_or_below_none: "\<forall>d \<in> set ds. v < d \<Longrightarrow> last_at_or_below ds v = None"
  by (induction ds) (auto simp: last_at_or_below_def Let_def)

lemma largest_eq_last:
  "largest_zip318_denomination_at_or_below v = last_at_or_below zip318_denominations v"
proof (cases "v < 1000000")
  case True
  then have "\<forall>d \<in> set zip318_denominations. v < d"
    by (simp add: zip318_denominations_def)
  with True show ?thesis
    by (simp add: largest_zip318_denomination_at_or_below_def const_defs last_at_or_below_none)
next
  case False
  then show ?thesis
    by (simp add: largest_zip318_denomination_at_or_below_def const_defs
          largest_denomination_loop_eq_fold fold_best_eq split: option.splits)
qed

lemma last_at_or_below_SomeD:
  assumes "sorted ds" and "last_at_or_below ds v = Some d"
  shows "d \<in> set ds" and "d \<le> v" and "e \<in> set ds \<Longrightarrow> e \<le> v \<Longrightarrow> e \<le> d"
proof -
  let ?fs = "filter (\<lambda>d. d \<le> v) ds"
  from assms have fs: "?fs \<noteq> []" "d = last ?fs"
    by (auto simp: last_at_or_below_def Let_def split: if_splits)
  then have "d \<in> set ?fs" by (metis last_in_set)
  then show "d \<in> set ds" and "d \<le> v" by auto
  assume "e \<in> set ds" and "e \<le> v"
  then have "e \<in> set ?fs" by simp
  moreover have "sorted ?fs"
    using assms(1) by (rule sorted_wrt_filter)
  ultimately show "e \<le> d"
    using fs(2) sorted_le_last [of ?fs e] by (simp only:)
qed

lemma sorted_zip318_denominations: "sorted zip318_denominations"
  by (simp add: zip318_denominations_def)

lemma zip318_denominations_bounds:
  "d \<in> set zip318_denominations \<Longrightarrow> 1000000 \<le> d \<and> d \<le> 1000000000000"
  by (auto simp: zip318_denominations_def)

lemmas largest_SomeD =
  last_at_or_below_SomeD [OF sorted_zip318_denominations, folded largest_eq_last]

lemma largest_Some_iff:
  "(\<exists>d. largest_zip318_denomination_at_or_below v = Some d) \<longleftrightarrow> 1000000 \<le> v"
  by (auto simp: largest_eq_last last_at_or_below_def Let_def zip318_denominations_def
           split: if_splits)

lemma largest_None_iff: "largest_zip318_denomination_at_or_below v = None \<longleftrightarrow> v < 1000000"
  using largest_Some_iff [of v] by (cases "largest_zip318_denomination_at_or_below v") auto

lemma canonical_iff_member: "is_zip318_canonical_denomination v \<longleftrightarrow> v \<in> set zip318_denominations"
proof
  assume "is_zip318_canonical_denomination v"
  then show "v \<in> set zip318_denominations"
    unfolding is_zip318_canonical_denomination_def by (rule largest_SomeD(1))
next
  assume v: "v \<in> set zip318_denominations"
  then have "1000000 \<le> v" using zip318_denominations_bounds by blast
  then obtain d where d: "largest_zip318_denomination_at_or_below v = Some d"
    using largest_Some_iff by blast
  have "v \<le> d" using largest_SomeD(3) [OF d v] by simp
  moreover have "d \<le> v" by (rule largest_SomeD(2) [OF d])
  ultimately show "is_zip318_canonical_denomination v"
    using d by (simp add: is_zip318_canonical_denomination_def)
qed

lemma largest_bounds:
  assumes "largest_zip318_denomination_at_or_below v = Some d"
  shows "0 < d" and "1000000 \<le> d" and "d \<le> 1000000000000" and "d \<le> v"
    and "is_zip318_canonical_denomination d"
  using largest_SomeD(1,2) [OF assms] zip318_denominations_bounds [of d]
  by (auto simp: canonical_iff_member)

lemma largest_mono:
  assumes "largest_zip318_denomination_at_or_below v = Some d"
    and "largest_zip318_denomination_at_or_below w = Some e" and "v \<le> w"
  shows "d \<le> e"
  using largest_SomeD(3) [OF assms(2) largest_SomeD(1) [OF assms(1)]]
    largest_SomeD(2) [OF assms(1)] assms(3) by simp


section \<open>Planning\<close>

text \<open>The loop of \<open>plan_denominations\<close>: the remaining value and the outputs pushed so far.\<close>

function denomination_loop ::
    "u64 \<Rightarrow> u64 \<Rightarrow> u64 list \<Rightarrow> denomination_error + (u64 \<times> u64 list)" where
  "denomination_loop migration_fee_zatoshi remaining outputs =
     (case checked_sub remaining migration_fee_zatoshi of
        None \<Rightarrow> Inr (remaining, outputs)
      | Some spendable_after_fee \<Rightarrow>
          (case largest_zip318_denomination_at_or_below spendable_after_fee of
             None \<Rightarrow> Inr (remaining, outputs)
           | Some denomination \<Rightarrow>
               (case Option.bind (checked_sub remaining denomination)
                       (\<lambda>value. checked_sub value migration_fee_zatoshi) of
                  None \<Rightarrow> Inl CanonicalDenominationFeeUnderflow
                | Some remaining' \<Rightarrow>
                    denomination_loop migration_fee_zatoshi remaining'
                      (outputs @ [denomination]))))"
  by pat_completeness auto
termination
  by (relation "measure (\<lambda>(f, r, out). r)")
     (auto simp: checked_sub_def split: bind_splits if_splits dest: largest_bounds)

declare denomination_loop.simps [simp del]

definition plan_denominations ::
    "u64 \<Rightarrow> u64 \<Rightarrow> u64 \<Rightarrow> u64 \<Rightarrow> denomination_error + denomination_plan" where
  "plan_denominations total_input_zatoshi split_fee_zatoshi migration_fee_zatoshi
       minimum_output_zatoshi =
     (if total_input_zatoshi \<le> split_fee_zatoshi then
        Inr \<lparr>dp_migration_outputs = [],
             dp_orchard_change = None,
             dp_split_fee_zatoshi = total_input_zatoshi,
             dp_migration_fee_zatoshi = migration_fee_zatoshi,
             dp_total_input_zatoshi = total_input_zatoshi,
             dp_total_migratable_zatoshi = 0\<rparr>
      else
        rbind (ok_or DenominationSplitFeeUnderflow
                 (checked_sub total_input_zatoshi split_fee_zatoshi)) (\<lambda>start.
        rbind (denomination_loop migration_fee_zatoshi start []) (\<lambda>(remaining, outputs).
        rbind (checked_sum MigratableTotalOverflow outputs) (\<lambda>total_migratable.
        Inr \<lparr>dp_migration_outputs = outputs,
             dp_orchard_change =
               (if remaining \<ge> minimum_output_zatoshi then Some remaining else None),
             dp_split_fee_zatoshi = split_fee_zatoshi,
             dp_migration_fee_zatoshi = migration_fee_zatoshi,
             dp_total_input_zatoshi = total_input_zatoshi,
             dp_total_migratable_zatoshi = total_migratable\<rparr>))))"

text \<open>
  The specification of the loop: from \<open>remaining\<close> it peels canonical denominations, each with one
  fee, in non-increasing order, until what is left cannot pay for the smallest one.
\<close>

definition greedy_run :: "u64 \<Rightarrow> u64 \<Rightarrow> u64 \<Rightarrow> u64 list \<Rightarrow> bool" where
  "greedy_run fee remaining rest ds \<longleftrightarrow>
     remaining = rest + sum_list ds + fee * length ds
     \<and> (\<forall>d \<in> set ds. is_zip318_canonical_denomination d)
     \<and> non_increasing ds
     \<and> (\<forall>d \<in> set ds. d + fee \<le> remaining)
     \<and> rest < fee + 1000000"

lemma denomination_loop_correct:
  "\<exists>rest ds. denomination_loop fee remaining out = Inr (rest, out @ ds)
     \<and> greedy_run fee remaining rest ds
     \<and> (\<forall>d \<in> set ds. \<exists>e. largest_zip318_denomination_at_or_below (remaining - fee) = Some e \<and> d \<le> e)"
proof (induction fee remaining out rule: denomination_loop.induct)
  case (1 fee remaining out)
  show ?case
  proof (cases "remaining < fee + 1000000")
    case True
    then have "checked_sub remaining fee = None
        \<or> largest_zip318_denomination_at_or_below (remaining - fee) = None"
      by (auto simp: largest_None_iff)
    then have "denomination_loop fee remaining out = Inr (remaining, out @ [])"
      by (subst denomination_loop.simps) (auto split: option.splits)
    moreover have "greedy_run fee remaining remaining []"
      using True by (simp add: greedy_run_def non_increasing_def)
    ultimately show ?thesis by fastforce
  next
    case False
    then have sub: "checked_sub remaining fee = Some (remaining - fee)" by simp
    obtain d where d: "largest_zip318_denomination_at_or_below (remaining - fee) = Some d"
      using False largest_Some_iff [of "remaining - fee"] by auto
    note db = largest_bounds [OF d]
    let ?r = "remaining - d - fee"
    have step: "Option.bind (checked_sub remaining d) (\<lambda>v. checked_sub v fee) = Some ?r"
    proof -
      have "d + fee \<le> remaining" using db(4) False by linarith
      then show ?thesis by (simp add: checked_sub_def)
    qed
    obtain rest ds where ih: "denomination_loop fee ?r (out @ [d]) = Inr (rest, (out @ [d]) @ ds)"
        "greedy_run fee ?r rest ds"
        "\<forall>e \<in> set ds. \<exists>e'. largest_zip318_denomination_at_or_below (?r - fee) = Some e' \<and> e \<le> e'"
      using "1.IH" [OF sub d step] by blast
    have le: "\<forall>e \<in> set ds. e \<le> d"
    proof
      fix e assume "e \<in> set ds"
      then obtain e' where "largest_zip318_denomination_at_or_below (?r - fee) = Some e'" "e \<le> e'"
        using ih(3) by blast
      then show "e \<le> d"
        using largest_mono [OF _ d, of "?r - fee" e'] db by fastforce
    qed
    have "denomination_loop fee remaining out = Inr (rest, out @ (d # ds))"
      using ih(1) by (subst denomination_loop.simps) (simp add: sub d step)
    moreover have "greedy_run fee remaining rest (d # ds)"
      using ih(2) le db False
      by (auto simp: greedy_run_def non_increasing_def)
    ultimately show ?thesis using d le by fastforce
  qed
qed

lemma plan_denominations_spec:
  assumes "bal < 2 ^ 64"
  obtains (covered_by_fee) "bal \<le> split_fee"
      "plan_denominations bal split_fee fee minimum =
         Inr \<lparr>dp_migration_outputs = [], dp_orchard_change = None, dp_split_fee_zatoshi = bal,
              dp_migration_fee_zatoshi = fee, dp_total_input_zatoshi = bal,
              dp_total_migratable_zatoshi = 0\<rparr>"
    | (planned) rest ds where "split_fee < bal" "greedy_run fee (bal - split_fee) rest ds"
      "plan_denominations bal split_fee fee minimum =
         Inr \<lparr>dp_migration_outputs = ds,
              dp_orchard_change = (if rest \<ge> minimum then Some rest else None),
              dp_split_fee_zatoshi = split_fee, dp_migration_fee_zatoshi = fee,
              dp_total_input_zatoshi = bal, dp_total_migratable_zatoshi = sum_list ds\<rparr>"
proof (cases "bal \<le> split_fee")
  case True
  then show ?thesis by (intro covered_by_fee) (simp_all add: plan_denominations_def)
next
  case False
  obtain rest ds where loop: "denomination_loop fee (bal - split_fee) [] = Inr (rest, ds)"
      and run: "greedy_run fee (bal - split_fee) rest ds"
    using denomination_loop_correct [of fee "bal - split_fee" "[]"] by auto
  have "bal - split_fee = rest + sum_list ds + fee * length ds"
    using run unfolding greedy_run_def by blast
  then have "sum_list ds \<le> bal" by linarith
  with assms have "sum_list ds < 2 ^ 64" by linarith
  with False loop run show ?thesis
    by (intro planned [of rest ds]) (simp_all add: plan_denominations_def checked_sub_def checked_sum_eq)
qed

text \<open>
  C29. The greedy plan never fails and never loses a zatoshi: for every \<open>u64\<close> balance it returns a plan
  whose denominations are canonical and non-increasing, whose declared total is their sum, and whose
  outputs, fees and remainder add up to the balance; the remainder is too small to fund another
  denomination. A balance above the split fee pays that fee, and the remainder is reported as change
  exactly when it reaches the minimum output. A balance up to the split fee goes to the fee as a whole:
  no output, no remainder and no change, whatever the minimum.
\<close>

theorem plan_denominations_correct:
  assumes "bal < 2 ^ 64"
  shows "\<exists>p rest. plan_denominations bal split_fee fee minimum = Inr p
           \<and> bal = dp_split_fee_zatoshi p + dp_total_migratable_zatoshi p
                      + fee * length (dp_migration_outputs p) + rest
           \<and> dp_total_migratable_zatoshi p = sum_list (dp_migration_outputs p)
           \<and> (\<forall>d \<in> set (dp_migration_outputs p). is_zip318_canonical_denomination d)
           \<and> non_increasing (dp_migration_outputs p)
           \<and> dp_split_fee_zatoshi p = min bal split_fee
           \<and> (if split_fee < bal
              then dp_orchard_change p = (if minimum \<le> rest then Some rest else None)
                \<and> rest < fee + ZIP318_MAX_RESIDUAL_VALUE_ZATOSHI
              else dp_migration_outputs p = [] \<and> rest = 0 \<and> dp_orchard_change p = None)"
  using assms
proof (cases rule: plan_denominations_spec [of bal split_fee fee minimum])
  case covered_by_fee
  show ?thesis
    unfolding covered_by_fee(2)
    by (intro exI [of _ 0] exI conjI, rule refl) (use covered_by_fee(1) in \<open>simp_all add: non_increasing_def\<close>)
next
  case (planned rest ds)
  have "bal - split_fee = rest + sum_list ds + fee * length ds"
    using planned(2) unfolding greedy_run_def by blast
  then have bal: "bal = split_fee + sum_list ds + fee * length ds + rest"
    using planned(1) by linarith
  note run = planned(2) [unfolded greedy_run_def]
  show ?thesis
    unfolding planned(3)
    by (intro exI [of _ rest] exI conjI, rule refl) (use run bal planned(1) in \<open>simp_all add: const_defs\<close>)
qed

theorem plan_denominations_correct_witness:
  "\<exists>p rest. plan_denominations 123456789 80000 15000 1 = Inr p
     \<and> 123456789 = dp_split_fee_zatoshi p + dp_total_migratable_zatoshi p
                      + 15000 * length (dp_migration_outputs p) + rest
     \<and> rest < 15000 + ZIP318_MAX_RESIDUAL_VALUE_ZATOSHI"
  using plan_denominations_correct [of 123456789 80000 15000 1] by auto

text \<open>
  \<open>largest_zip318_denomination_at_or_below\<close> is the greatest canonical denomination that does not
  exceed the value, where the canonical denominations are exactly 1, 2 and 5 times a power of ten
  between 0.01 and 10,000 ZEC; it is absent exactly below 0.01 ZEC.
\<close>

theorem largest_denomination_is_greatest:
  "largest_zip318_denomination_at_or_below v =
     (if v < 1000000 then None
      else Some (Max {d. d \<le> v \<and> d \<le> 1000000000000 \<and>
                         (\<exists>m \<in> {1, 2, 5}. \<exists>k \<in> {6..12::nat}. d = m * 10 ^ k)}))"
proof (cases "v < 1000000")
  case True
  then show ?thesis by (simp add: largest_None_iff)
next
  case False
  then obtain d where d: "largest_zip318_denomination_at_or_below v = Some d"
    using largest_Some_iff [of v] by auto
  let ?S = "{d. d \<le> v \<and> d \<le> 1000000000000 \<and>
              (\<exists>m \<in> {1, 2, 5}. \<exists>k \<in> {6..12::nat}. d = m * 10 ^ k)}"
  have range: "{6..12::nat} = {6, 7, 8, 9, 10, 11, 12}" by auto
  have S: "?S = {e \<in> set zip318_denominations. e \<le> v}"
    unfolding range by (auto simp: zip318_denominations_def)
  have "Max ?S = d"
    unfolding S using largest_SomeD [OF d] by (intro Max_eqI) auto
  with False d show ?thesis by simp
qed

section \<open>Balance test and expiry heights\<close>

text \<open>\<open>orchard_balance_can_create_migration_output\<close> of \<open>migration.rs\<close>.\<close>

definition orchard_balance_can_create_migration_output :: "u64 \<Rightarrow> denomination_error + bool" where
  "orchard_balance_can_create_migration_output orchard_spendable =
     (if orchard_spendable = 0 then Inr False
      else rbind (plan_denominations orchard_spendable
                    DENOMINATION_SPLIT_STATUS_FEE_ESTIMATE_ZATOSHI
                    MIGRATION_STATUS_FEE_ESTIMATE_ZATOSHI
                    MIN_IRONWOOD_MIGRATION_OUTPUT_ZATOSHI)
             (\<lambda>plan. Inr (dp_migration_outputs plan \<noteq> [])))"

datatype height_error =
  ExpiryWindowOverflow | CanonicalExpiryHeightOverflow | ProofReadinessHeightOverflow
  | AnchorBoundaryOverflow | ProofRetryHeightOverflow

definition zip318_canonical_migration_expiry_height :: "u32 \<Rightarrow> height_error + u32" where
  "zip318_canonical_migration_expiry_height scheduled_height =
     (let boundary = scheduled_height - scheduled_height mod ZIP318_EXPIRY_MODULUS in
      rbind (ok_or ExpiryWindowOverflow (checked_mul 32 ZIP318_EXPIRY_MODULUS 2)) (\<lambda>window.
      ok_or CanonicalExpiryHeightOverflow (checked_add 32 boundary window)))"

lemma greedy_run_nonempty: "greedy_run fee r rest ds \<Longrightarrow> ds \<noteq> [] \<longleftrightarrow> fee + 1000000 \<le> r"
proof
  assume run: "greedy_run fee r rest ds" and "ds \<noteq> []"
  then obtain d where "d \<in> set ds" by (cases ds) auto
  with run have "d + fee \<le> r" and "d \<in> set zip318_denominations"
    by (auto simp: greedy_run_def canonical_iff_member)
  then show "fee + 1000000 \<le> r" using zip318_denominations_bounds [of d] by simp
next
  assume "greedy_run fee r rest ds" and "fee + 1000000 \<le> r"
  then show "ds \<noteq> []" by (auto simp: greedy_run_def)
qed

text \<open>
  The status balance test answers without error for every \<open>u64\<close> balance, and answers yes exactly
  when the balance covers one split fee, one migration fee and the smallest denomination.
\<close>

theorem balance_test_threshold:
  assumes "orchard_spendable < 2 ^ 64"
  shows "orchard_balance_can_create_migration_output orchard_spendable =
           Inr (80000 + 15000 + 1000000 \<le> orchard_spendable)"
  using assms
proof (cases rule: plan_denominations_spec [of orchard_spendable 80000 15000 1])
  case covered_by_fee
  then show ?thesis
    by (simp add: orchard_balance_can_create_migration_output_def const_defs)
next
  case (planned rest ds)
  then show ?thesis
    using greedy_run_nonempty [OF planned(2)]
    by (auto simp: orchard_balance_can_create_migration_output_def const_defs)
qed

theorem balance_test_threshold_witness:
  "orchard_balance_can_create_migration_output 1094999 = Inr False
     \<and> orchard_balance_can_create_migration_output 1095000 = Inr True"
  using balance_test_threshold [of 1094999] balance_test_threshold [of 1095000] by simp

text \<open>
  A canonical expiry height is a multiple of the expiry modulus and lies more than one and at most
  two moduli after the scheduled height; the computation fails exactly when that multiple is not a
  \<open>u32\<close>.
\<close>

theorem canonical_expiry_window:
  "zip318_canonical_migration_expiry_height h =
     (if (h div 34560 + 2) * 34560 < 2 ^ 32 then Inr ((h div 34560 + 2) * 34560)
      else Inl CanonicalExpiryHeightOverflow)
   \<and> h + 34560 < (h div 34560 + 2) * 34560 \<and> (h div 34560 + 2) * 34560 \<le> h + 2 * 34560"
proof -
  have eq: "h - h mod 34560 + 69120 = (h div 34560 + 2) * 34560"
    by (simp add: minus_mod_eq_div_mult add_mult_distrib)
  have "zip318_canonical_migration_expiry_height h =
      ok_or CanonicalExpiryHeightOverflow (checked_add 32 (h - h mod 34560) 69120)"
    by (simp add: zip318_canonical_migration_expiry_height_def const_defs checked_mul_def)
  then show ?thesis
    unfolding checked_add_def eq
    using div_mult_mod_eq [of h 34560] mod_less_divisor [of 34560 h] by auto
qed

end
