(* ===== verification/Anchor_Policy.thy ===== *)
theory Anchor_Policy
  imports Denominations
begin

text \<open>
  ZIP 318 anchor boundaries (\<open>migration/denomination_policy.rs\<close>, second part): which block heights
  may anchor a migration proof, when a note becomes provable, when to retry, and the weighted draw.
  The number of trusted confirmations comes from \<open>ConfirmationsPolicy::default().trusted()\<close> of
  \<open>zcash_client_backend\<close> and is the argument \<open>trusted\<close>; the operating system's random draw
  \<open>OsRng.gen_range(0..n)\<close> is the argument \<open>gen_range\<close>.
\<close>

section \<open>Definitions\<close>

fun anchor_bucket_modulus :: "wallet_network \<Rightarrow> migration_timing_policy \<Rightarrow> u32" where
  "anchor_bucket_modulus Regtest p =
     (if p = FastTestnet then FAST_TESTNET_ANCHOR_BUCKET_MODULUS
      else REGTEST_ANCHOR_BUCKET_MODULUS)"
| "anchor_bucket_modulus network p =
     (if network = Test \<and> p = FastTestnet then FAST_TESTNET_ANCHOR_BUCKET_MODULUS
      else ZIP318_ANCHOR_BUCKET_MODULUS)"

fun anchor_bucket_min_age :: "wallet_network \<Rightarrow> migration_timing_policy \<Rightarrow> u32" where
  "anchor_bucket_min_age Regtest p = (if p = FastTestnet then 1 else 0)"
| "anchor_bucket_min_age network p =
     (if network = Test \<and> p = FastTestnet then 1
      else if p = Standard90MinutesLatestAnchor then 0
      else 1)"

definition confirmation_lag :: "u32 \<Rightarrow> u32" where
  "confirmation_lag trusted = saturating_sub trusted 1"

definition anchor_boundary_containing_note_with_policy ::
    "wallet_network \<Rightarrow> migration_timing_policy \<Rightarrow> u32 \<Rightarrow> height_error + u32" where
  "anchor_boundary_containing_note_with_policy network p mined_height =
     (let modulus = anchor_bucket_modulus network p; remainder = mined_height mod modulus in
      if remainder = 0 then Inr mined_height
      else ok_or AnchorBoundaryOverflow (checked_add 32 mined_height (modulus - remainder)))"

definition proof_ready_height_for_note_mined_height ::
    "u32 \<Rightarrow> wallet_network \<Rightarrow> migration_timing_policy \<Rightarrow> u32 \<Rightarrow> height_error + u32" where
  "proof_ready_height_for_note_mined_height trusted network p mined_height =
     (let modulus = anchor_bucket_modulus network p; lag = confirmation_lag trusted in
      rbind (anchor_boundary_containing_note_with_policy network p mined_height)
        (\<lambda>containing_boundary.
      rbind (ok_or ProofReadinessHeightOverflow
               (checked_mul 32 modulus (anchor_bucket_min_age network p))) (\<lambda>aging_blocks.
      ok_or ProofReadinessHeightOverflow
        (Option.bind (checked_add 32 containing_boundary aging_blocks)
           (\<lambda>height. checked_add 32 height lag)))))"

definition estimated_proof_ready_height ::
    "bool \<Rightarrow> u32 \<Rightarrow> wallet_network \<Rightarrow> u32 \<Rightarrow> height_error + u32" where
  "estimated_proof_ready_height fast trusted network estimated_mined_height =
     proof_ready_height_for_note_mined_height trusted network
       (configured_timing_policy fast network) estimated_mined_height"

definition next_anchor_retry_height_after ::
    "u32 \<Rightarrow> wallet_network \<Rightarrow> migration_timing_policy \<Rightarrow> u32 \<Rightarrow> height_error + u32" where
  "next_anchor_retry_height_after trusted network p fully_scanned_height =
     (let modulus = anchor_bucket_modulus network p;
          lag = confirmation_lag trusted;
          boundary_reference =
            (if anchor_bucket_min_age network p > 0
             then saturating_sub fully_scanned_height lag else fully_scanned_height);
          distance = modulus - boundary_reference mod modulus
      in ok_or ProofRetryHeightOverflow
           (Option.bind (checked_add 32 boundary_reference distance)
              (\<lambda>boundary. checked_add 32 boundary lag)))"

definition zip318_anchor_boundary_at_or_before_with_policy ::
    "wallet_network \<Rightarrow> migration_timing_policy \<Rightarrow> u32 \<Rightarrow> u32 option" where
  "zip318_anchor_boundary_at_or_before_with_policy network p height =
     (let modulus = anchor_bucket_modulus network p; boundary = height - height mod modulus in
      if boundary > 0 then Some boundary else None)"

definition zip318_anchor_boundary_age ::
    "wallet_network \<Rightarrow> migration_timing_policy \<Rightarrow> u32 \<Rightarrow> u32 \<Rightarrow> u32 option" where
  "zip318_anchor_boundary_age network p latest_boundary anchor_boundary =
     (if anchor_boundary > latest_boundary then None
      else case checked_sub latest_boundary anchor_boundary of
             None \<Rightarrow> None
           | Some delta \<Rightarrow>
               let modulus = anchor_bucket_modulus network p in
               if delta mod modulus \<noteq> 0 then None
               else let age = delta div modulus in
                 if anchor_bucket_min_age network p \<le> age \<and> age \<le> ZIP318_ANCHOR_AGE_CAP
                 then Some age else None)"

text \<open>The candidate loop over the ages, with its three \<open>break\<close>s.\<close>

fun candidate_loop :: "u32 \<Rightarrow> u32 \<Rightarrow> u32 \<Rightarrow> u32 list \<Rightarrow> u32 list" where
  "candidate_loop modulus latest_boundary lower_bound [] = []"
| "candidate_loop modulus latest_boundary lower_bound (age # ages) =
     (case checked_mul 32 age modulus of
        None \<Rightarrow> []
      | Some distance \<Rightarrow>
          (case checked_sub latest_boundary distance of
             None \<Rightarrow> []
           | Some boundary \<Rightarrow>
               (if boundary < lower_bound then []
                else boundary # candidate_loop modulus latest_boundary lower_bound ages)))"

definition zip318_anchor_candidate_boundaries_with_policy ::
    "wallet_network \<Rightarrow> migration_timing_policy \<Rightarrow> u32 \<Rightarrow> u32 \<Rightarrow> u32 \<Rightarrow> u32 list" where
  "zip318_anchor_candidate_boundaries_with_policy network p observed_anchor_height
       note_mined_height nu6_3_activation_height =
     (case zip318_anchor_boundary_at_or_before_with_policy network p observed_anchor_height of
        None \<Rightarrow> []
      | Some latest_boundary \<Rightarrow>
          (let lower_bound = max note_mined_height (saturating_add 32 nu6_3_activation_height 1) in
           candidate_loop (anchor_bucket_modulus network p) latest_boundary lower_bound
             [anchor_bucket_min_age network p ..< Suc ZIP318_ANCHOR_AGE_CAP]))"

definition zip318_anchor_boundary_is_candidate_with_policy ::
    "wallet_network \<Rightarrow> migration_timing_policy \<Rightarrow> u32 \<Rightarrow> u32 \<Rightarrow> u32 \<Rightarrow> u32 \<Rightarrow> bool" where
  "zip318_anchor_boundary_is_candidate_with_policy network p anchor_boundary
       observed_anchor_height note_mined_height nu6_3_activation_height =
     (if anchor_boundary = 0 \<or> anchor_boundary mod anchor_bucket_modulus network p \<noteq> 0 then False
      else if anchor_boundary < note_mined_height \<or> anchor_boundary \<le> nu6_3_activation_height
      then False
      else case zip318_anchor_boundary_at_or_before_with_policy network p observed_anchor_height of
             None \<Rightarrow> False
           | Some latest_boundary \<Rightarrow>
               zip318_anchor_boundary_age network p latest_boundary anchor_boundary \<noteq> None)"

text \<open>
  The weighted draw: the weights in a first loop, then the walk that subtracts weights from the draw.
\<close>

fun weigh_candidates ::
    "wallet_network \<Rightarrow> migration_timing_policy \<Rightarrow> u32 \<Rightarrow> u32 list \<Rightarrow> u32 \<Rightarrow>
     (u32 \<times> (u32 \<times> u32) list) option" where
  "weigh_candidates network p latest_boundary [] total_weight = Some (total_weight, [])"
| "weigh_candidates network p latest_boundary (boundary # boundaries) total_weight =
     Option.bind (zip318_anchor_boundary_age network p latest_boundary boundary) (\<lambda>age.
       let weight = 2 ^ (ZIP318_ANCHOR_AGE_CAP - age) in
       Option.bind (checked_add 32 total_weight weight) (\<lambda>total_weight'.
         map_option (\<lambda>(t, weighted). (t, (boundary, weight) # weighted))
           (weigh_candidates network p latest_boundary boundaries total_weight')))"

fun pick_weighted :: "(u32 \<times> u32) list \<Rightarrow> u32 \<Rightarrow> u32 option" where
  "pick_weighted [] draw = None"
| "pick_weighted ((boundary, weight) # weighted) draw =
     (if draw < weight then Some boundary else pick_weighted weighted (draw - weight))"

definition zip318_draw_anchor_boundary_from_available_with_policy ::
    "(u32 \<Rightarrow> u32) \<Rightarrow> wallet_network \<Rightarrow> migration_timing_policy \<Rightarrow> u32 \<Rightarrow> u32 list \<Rightarrow> u32 option" where
  "zip318_draw_anchor_boundary_from_available_with_policy gen_range network p
       observed_anchor_height available_candidates =
     (case zip318_anchor_boundary_at_or_before_with_policy network p observed_anchor_height of
        None \<Rightarrow> None
      | Some latest_boundary \<Rightarrow>
          (if available_candidates = [] then None
           else case weigh_candidates network p latest_boundary available_candidates 0 of
                  None \<Rightarrow> None
                | Some (total_weight, weighted) \<Rightarrow>
                    (if total_weight = 0 then None
                     else pick_weighted weighted (gen_range total_weight))))"

section \<open>Moduli, ages and boundaries\<close>

lemma modulus_cases: "anchor_bucket_modulus network p \<in> {1, 12, 144}"
  by (cases network) (simp_all add: const_defs)

lemma modulus_pos [simp]: "0 < anchor_bucket_modulus network p"
  using modulus_cases [of network p] by auto

lemma modulus_le: "anchor_bucket_modulus network p \<le> 144"
  using modulus_cases [of network p] by auto

lemma min_age_le: "anchor_bucket_min_age network p \<le> 1"
  by (cases network) simp_all

lemma aging_blocks:
  "checked_mul 32 (anchor_bucket_modulus network p) (anchor_bucket_min_age network p) =
     Some (anchor_bucket_modulus network p * anchor_bucket_min_age network p)"
proof -
  have "anchor_bucket_modulus network p * anchor_bucket_min_age network p \<le> 144 * 1"
    by (rule mult_le_mono [OF modulus_le min_age_le])
  then show ?thesis by simp
qed

text \<open>The next multiple at or above a height.\<close>

definition round_up :: "nat \<Rightarrow> nat \<Rightarrow> nat" where
  "round_up m h = (if h mod m = 0 then h else h + (m - h mod m))"

lemma round_up_dvd: "0 < m \<Longrightarrow> m dvd round_up m h"
proof (cases "h mod m = 0")
  case False
  assume "0 < m"
  then have "h mod m < m" by simp
  then have "h + (m - h mod m) = h div m * m + m"
    using div_mult_mod_eq [of h m] by linarith
  with False show ?thesis by (simp add: round_up_def)
qed (auto simp: round_up_def)

lemma round_up_ge: "h \<le> round_up m h"
  by (simp add: round_up_def)

lemma round_up_least:
  assumes "0 < m" and "m dvd b" and "h \<le> b"
  shows "round_up m h \<le> b"
proof (cases "h mod m = 0")
  case True
  then show ?thesis using assms(3) by (simp add: round_up_def)
next
  case False
  obtain k where k: "b = m * k" using assms(2) by blast
  have "h div m < k"
  proof (rule ccontr)
    assume "\<not> h div m < k"
    then have "m * k \<le> m * (h div m)" by simp
    moreover have "m * (h div m) + h mod m = h" by simp
    ultimately show False using assms(3) k False by linarith
  qed
  then have "m * (h div m) + m \<le> b"
    using k by (metis Suc_leI mult_Suc_right mult_le_mono2 add.commute)
  moreover have "h mod m < m" using assms(1) by simp
  moreover have "m * (h div m) + h mod m = h" by simp
  ultimately have "h + (m - h mod m) \<le> b" by linarith
  with False show ?thesis by (simp add: round_up_def)
qed

lemma containing_boundary_Inr:
  "anchor_boundary_containing_note_with_policy network p h = Inr b \<Longrightarrow>
     b = round_up (anchor_bucket_modulus network p) h"
  by (auto simp: anchor_boundary_containing_note_with_policy_def round_up_def Let_def
           split: if_splits)

lemma latest_boundary_Some_iff:
  "zip318_anchor_boundary_at_or_before_with_policy network p h = Some l \<longleftrightarrow>
     l = h - h mod anchor_bucket_modulus network p \<and> 0 < l"
  by (auto simp: zip318_anchor_boundary_at_or_before_with_policy_def Let_def)

lemma latest_boundary_None_iff:
  "zip318_anchor_boundary_at_or_before_with_policy network p h = None \<longleftrightarrow>
     h < anchor_bucket_modulus network p"
proof -
  let ?m = "anchor_bucket_modulus network p"
  have "h - h mod ?m = 0 \<longleftrightarrow> h < ?m"
    by (metis minus_mod_eq_div_mult mult_eq_0_iff div_eq_0_iff not_gr_zero modulus_pos)
  then show ?thesis
    by (auto simp: zip318_anchor_boundary_at_or_before_with_policy_def Let_def
             simp del: diff_is_0_eq zero_less_diff)
qed

lemma boundary_age_Some_iff:
  "zip318_anchor_boundary_age network p latest b = Some age \<longleftrightarrow>
     latest = b + age * anchor_bucket_modulus network p
     \<and> anchor_bucket_min_age network p \<le> age \<and> age \<le> ZIP318_ANCHOR_AGE_CAP"
proof -
  let ?m = "anchor_bucket_modulus network p"
  have "(latest - b) mod ?m = 0 \<and> (latest - b) div ?m = age \<longleftrightarrow> latest = b + age * ?m"
    if "b \<le> latest"
  proof -
    have "(latest - b) mod ?m = 0 \<and> (latest - b) div ?m = age \<longleftrightarrow> latest - b = age * ?m"
    proof
      assume "(latest - b) mod ?m = 0 \<and> (latest - b) div ?m = age"
      then show "latest - b = age * ?m" using div_mult_mod_eq [of "latest - b" ?m] by simp
    next
      assume "latest - b = age * ?m"
      then show "(latest - b) mod ?m = 0 \<and> (latest - b) div ?m = age"
        using modulus_pos [of network p] by simp
    qed
    then show ?thesis using that by auto
  qed
  then show ?thesis
    by (auto simp: zip318_anchor_boundary_age_def checked_sub_def Let_def split: if_splits)
qed

section \<open>Candidates\<close>

lemma candidate_loop_set:
  assumes "0 < m" and "m \<le> 144" and "n \<le> 5"
  shows "set (candidate_loop m latest lower [a ..< n]) =
           {latest - age * m | age. a \<le> age \<and> age < n \<and> lower + age * m \<le> latest}"
proof (induction "n - a" arbitrary: a)
  case 0
  then show ?case by auto
next
  case (Suc k)
  then have an: "a < n" by simp
  then have upt: "[a ..< n] = a # [Suc a ..< n]" by (rule upt_conv_Cons)
  have ih: "set (candidate_loop m latest lower [Suc a ..< n]) =
      {latest - age * m | age. Suc a \<le> age \<and> age < n \<and> lower + age * m \<le> latest}"
    using Suc by simp
  have "a * m \<le> 5 * 144" using an assms by (intro mult_le_mono) auto
  then have mul: "checked_mul 32 a m = Some (a * m)" by simp
  show ?case
  proof (cases "lower + a * m \<le> latest")
    case True
    then have "candidate_loop m latest lower [a ..< n] =
        (latest - a * m) # candidate_loop m latest lower [Suc a ..< n]"
      by (simp add: upt mul checked_sub_def)
    then show ?thesis using ih True an by (auto simp: Suc_le_eq le_less)
  next
    case False
    then have "candidate_loop m latest lower [a ..< n] = []"
      by (auto simp: upt mul checked_sub_def)
    moreover have "\<not> lower + age * m \<le> latest" if "a \<le> age" for age
      using False mult_le_mono1 [OF that, of m] by linarith
    ultimately show ?thesis by auto
  qed
qed

lemma candidates_set:
  assumes "nu < 2 ^ 32 - 1"
    and "zip318_anchor_boundary_at_or_before_with_policy network p observed = Some latest"
  shows "set (zip318_anchor_candidate_boundaries_with_policy network p observed mined nu) =
           {latest - age * anchor_bucket_modulus network p | age.
              anchor_bucket_min_age network p \<le> age \<and> age \<le> ZIP318_ANCHOR_AGE_CAP
              \<and> max mined (Suc nu) + age * anchor_bucket_modulus network p \<le> latest}"
proof -
  have "saturating_add 32 nu 1 = Suc nu" using assms(1) by (simp add: saturating_add_def)
  then have "zip318_anchor_candidate_boundaries_with_policy network p observed mined nu =
      candidate_loop (anchor_bucket_modulus network p) latest (max mined (Suc nu))
        [anchor_bucket_min_age network p ..< 5]"
    using assms(2)
    by (simp add: zip318_anchor_candidate_boundaries_with_policy_def const_defs Let_def del: upt_Suc)
  moreover have "age < 5 \<longleftrightarrow> age \<le> ZIP318_ANCHOR_AGE_CAP" for age
    by (auto simp: const_defs)
  ultimately show ?thesis
    by (simp add: candidate_loop_set modulus_le)
qed

text \<open>
  C39. The two implementations of the anchor rule agree: the list of candidate boundaries built by the
  loop holds exactly the heights that the boundary test accepts, for every network, policy, observed
  height and note, and every activation height below the largest \<open>u32\<close>.
\<close>

theorem candidates_agree_with_test:
  assumes "nu < 2 ^ 32 - 1"
  shows "b \<in> set (zip318_anchor_candidate_boundaries_with_policy network p observed mined nu) \<longleftrightarrow>
           zip318_anchor_boundary_is_candidate_with_policy network p b observed mined nu"
proof (cases "zip318_anchor_boundary_at_or_before_with_policy network p observed")
  case None
  then show ?thesis
    by (simp add: zip318_anchor_candidate_boundaries_with_policy_def
          zip318_anchor_boundary_is_candidate_with_policy_def)
next
  case (Some latest)
  let ?m = "anchor_bucket_modulus network p"
  have dvd_latest: "?m dvd latest"
    using Some by (auto simp: latest_boundary_Some_iff minus_mod_eq_mult_div)
  have "b \<in> set (zip318_anchor_candidate_boundaries_with_policy network p observed mined nu) \<longleftrightarrow>
      (\<exists>age. latest = b + age * ?m \<and> anchor_bucket_min_age network p \<le> age
         \<and> age \<le> ZIP318_ANCHOR_AGE_CAP \<and> mined \<le> b \<and> nu < b)"
  proof -
    have "b = latest - age * ?m \<and> lo + age * ?m \<le> latest \<longleftrightarrow> latest = b + age * ?m \<and> lo \<le> b"
      for age lo by auto
    from this [of _ "max mined (Suc nu)"] show ?thesis
      unfolding candidates_set [OF assms Some] by (auto simp: Suc_le_eq)
  qed
  also have "\<dots> \<longleftrightarrow> (?m dvd b \<and> 0 < b \<and> mined \<le> b \<and> nu < b
      \<and> (\<exists>age. zip318_anchor_boundary_age network p latest b = Some age))"
    unfolding boundary_age_Some_iff
    using dvd_latest by (auto simp: dvd_add_left_iff)
  also have "\<dots> \<longleftrightarrow> zip318_anchor_boundary_is_candidate_with_policy network p b observed mined nu"
    by (auto simp: zip318_anchor_boundary_is_candidate_with_policy_def Some mod_eq_0_iff_dvd)
  finally show ?thesis .
qed

theorem candidates_agree_with_test_witness:
  "(2880 \<in> set (zip318_anchor_candidate_boundaries_with_policy Test Standard90Minutes 3030 2800 1))
     = zip318_anchor_boundary_is_candidate_with_policy Test Standard90Minutes 2880 3030 2800 1
   \<and> zip318_anchor_boundary_is_candidate_with_policy Test Standard90Minutes 2880 3030 2800 1"
proof -
  have "zip318_anchor_boundary_is_candidate_with_policy Test Standard90Minutes 2880 3030 2800 1"
    by (simp add: zip318_anchor_boundary_is_candidate_with_policy_def const_defs
          zip318_anchor_boundary_at_or_before_with_policy_def zip318_anchor_boundary_age_def
          checked_sub_def Let_def)
  then show ?thesis
    using candidates_agree_with_test [of 1 2880 Test Standard90Minutes 3030 2800] by simp
qed

section \<open>When a note becomes provable\<close>

lemma proof_ready_height_Inr_iff:
  "proof_ready_height_for_note_mined_height trusted network p mined = Inr ready \<longleftrightarrow>
     (\<exists>b. anchor_boundary_containing_note_with_policy network p mined = Inr b
        \<and> ready = b + anchor_bucket_modulus network p * anchor_bucket_min_age network p
                    + confirmation_lag trusted
        \<and> ready < 2 ^ 32)"
  by (auto simp: proof_ready_height_for_note_mined_height_def Let_def aging_blocks
           Option.bind_eq_Some_conv)

lemma candidates_nonempty_iff:
  assumes "nu < mined" and "mined < 2 ^ 32"
  shows "zip318_anchor_candidate_boundaries_with_policy network p observed mined nu \<noteq> [] \<longleftrightarrow>
           round_up (anchor_bucket_modulus network p) mined
             + anchor_bucket_modulus network p * anchor_bucket_min_age network p \<le> observed"
    (is "?cands \<noteq> [] \<longleftrightarrow> round_up ?m mined + ?m * ?a \<le> observed")
proof (cases "zip318_anchor_boundary_at_or_before_with_policy network p observed")
  case None
  then have lt: "observed < ?m" by (simp add: latest_boundary_None_iff)
  have "?m \<le> round_up ?m mined"
    using assms(1) round_up_dvd [of ?m mined] round_up_ge [of mined ?m]
    by (intro dvd_imp_le) auto
  with None lt show ?thesis
    by (simp add: zip318_anchor_candidate_boundaries_with_policy_def)
next
  case (Some latest)
  then have latest: "latest = observed - observed mod ?m" by (simp add: latest_boundary_Some_iff)
  have dvd: "?m dvd latest" by (simp add: latest minus_mod_eq_mult_div)
  have nu: "nu < 2 ^ 32 - 1" using assms by simp
  have mono: "?a * ?m \<le> age * ?m" if "?a \<le> age" for age using that by simp
  have "?cands \<noteq> [] \<longleftrightarrow> set ?cands \<noteq> {}" by simp
  also have "\<dots> \<longleftrightarrow> mined + ?a * ?m \<le> latest"
  proof -
    have "max mined (Suc nu) = mined" using assms(1) by simp
    then have "set ?cands \<noteq> {} \<longleftrightarrow>
        (\<exists>age. ?a \<le> age \<and> age \<le> ZIP318_ANCHOR_AGE_CAP \<and> mined + age * ?m \<le> latest)"
      by (auto simp: candidates_set [OF nu Some] set_eq_iff)
    also have "\<dots> \<longleftrightarrow> mined + ?a * ?m \<le> latest"
    proof
      assume "\<exists>age. ?a \<le> age \<and> age \<le> ZIP318_ANCHOR_AGE_CAP \<and> mined + age * ?m \<le> latest"
      then obtain age where "?a \<le> age" and "mined + age * ?m \<le> latest" by blast
      with mono [of age] show "mined + ?a * ?m \<le> latest" by linarith
    next
      assume "mined + ?a * ?m \<le> latest"
      moreover have "?a \<le> ZIP318_ANCHOR_AGE_CAP"
        using min_age_le [of network p] by (simp add: const_defs)
      ultimately show "\<exists>age. ?a \<le> age \<and> age \<le> ZIP318_ANCHOR_AGE_CAP \<and> mined + age * ?m \<le> latest"
        by blast
    qed
    finally show ?thesis .
  qed
  also have "\<dots> \<longleftrightarrow> round_up ?m mined + ?m * ?a \<le> latest"
  proof
    assume le: "mined + ?a * ?m \<le> latest"
    have "round_up ?m mined \<le> latest - ?a * ?m"
      using le dvd by (intro round_up_least) auto
    then show "round_up ?m mined + ?m * ?a \<le> latest" using le by (simp add: mult.commute)
  next
    assume "round_up ?m mined + ?m * ?a \<le> latest"
    then show "mined + ?a * ?m \<le> latest"
      using round_up_ge [of mined ?m] by (simp add: mult.commute)
  qed
  also have "\<dots> \<longleftrightarrow> round_up ?m mined + ?m * ?a \<le> observed"
  proof
    assume le: "round_up ?m mined + ?m * ?a \<le> observed"
    obtain k where k: "round_up ?m mined + ?m * ?a = ?m * k"
      using dvd_add [OF round_up_dvd [of ?m mined] dvd_triv_left [of ?m ?a]] modulus_pos
      by (auto elim: dvdE)
    then have "k \<le> observed div ?m"
      using le modulus_pos [of network p] by (simp add: less_eq_div_iff_mult_less_eq mult.commute)
    then have "?m * k \<le> ?m * (observed div ?m)" by simp
    then show "round_up ?m mined + ?m * ?a \<le> latest"
      by (simp add: k latest minus_mod_eq_mult_div)
  qed (simp add: latest)
  finally show ?thesis .
qed

text \<open>
  The proof-readiness height of a note is exact: with the trusted anchor lying one confirmation lag
  behind the scanned height, the note has an anchor candidate at a scanned height if and only if that
  height has reached the computed readiness height. The scheduler neither proves too early nor waits
  longer than needed.
\<close>

theorem proof_ready_height_exact:
  assumes "proof_ready_height_for_note_mined_height trusted network p mined = Inr ready"
    and "nu < mined" and "confirmation_lag trusted \<le> scanned"
  shows "zip318_anchor_candidate_boundaries_with_policy network p
             (scanned - confirmation_lag trusted) mined nu \<noteq> [] \<longleftrightarrow> ready \<le> scanned"
proof -
  obtain b where b: "anchor_boundary_containing_note_with_policy network p mined = Inr b"
      and ready: "ready = b + anchor_bucket_modulus network p * anchor_bucket_min_age network p
                    + confirmation_lag trusted" "ready < 2 ^ 32"
    using assms(1) by (auto simp: proof_ready_height_Inr_iff)
  have up: "b = round_up (anchor_bucket_modulus network p) mined"
    using b by (rule containing_boundary_Inr)
  have "mined < 2 ^ 32"
    using ready up round_up_ge [of mined "anchor_bucket_modulus network p"] by linarith
  then show ?thesis
    using assms(3) ready(1) up by (auto simp: candidates_nonempty_iff [OF assms(2)])
qed

theorem proof_ready_height_exact_witness:
  "proof_ready_height_for_note_mined_height 3 Test Standard90Minutes 3000 = Inr 3170
   \<and> (zip318_anchor_candidate_boundaries_with_policy Test Standard90Minutes
        (3170 - confirmation_lag 3) 3000 2 \<noteq> [])"
proof -
  have r: "proof_ready_height_for_note_mined_height 3 Test Standard90Minutes 3000 = Inr 3170"
    by (simp add: proof_ready_height_Inr_iff anchor_boundary_containing_note_with_policy_def
          confirmation_lag_def arith_defs const_defs Let_def)
  have "confirmation_lag 3 \<le> 3170" by (simp add: confirmation_lag_def arith_defs)
  then show ?thesis using r proof_ready_height_exact [OF r, of 2 3170] by simp
qed

section \<open>Retrying\<close>

lemma next_multiple:
  assumes "0 < (m :: nat)"
  shows "m dvd h + (m - h mod m)" and "h < h + (m - h mod m)"
    and "m dvd b \<Longrightarrow> h < b \<Longrightarrow> h + (m - h mod m) \<le> b"
proof -
  have lt: "h mod m < m" using assms by simp
  then have eq: "h + (m - h mod m) = m * (h div m) + m"
    using mult_div_mod_eq [of m h] by linarith
  then show "m dvd h + (m - h mod m)" by simp
  show "h < h + (m - h mod m)" using lt by simp
  assume "m dvd b" and hb: "h < b"
  then obtain k where k: "b = m * k" by blast
  have "h div m < k"
    using hb k assms by (simp add: div_less_iff_less_mult mult.commute)
  then have "m * (h div m) + m \<le> m * k"
    by (metis Suc_leI add.commute mult_Suc_right mult_le_mono2)
  then show "h + (m - h mod m) \<le> b" using eq k by simp
qed

text \<open>
  The retry height for policies that skip the newest boundary is exact: it is later than the
  scanned height, its trusted anchor is a boundary, and no boundary becomes trusted strictly between
  the trusted anchor of the scanned height and that one, so a retry never skips a boundary.
\<close>

theorem retry_height_exact:
  assumes "next_anchor_retry_height_after trusted network p scanned = Inr retry"
    and "0 < anchor_bucket_min_age network p"
  shows "scanned < retry \<and> retry < 2 ^ 32 \<and> confirmation_lag trusted \<le> retry
    \<and> anchor_bucket_modulus network p dvd (retry - confirmation_lag trusted)
    \<and> (\<forall>b. anchor_bucket_modulus network p dvd b \<and> scanned - confirmation_lag trusted < b \<longrightarrow>
            retry - confirmation_lag trusted \<le> b)"
proof -
  let ?m = "anchor_bucket_modulus network p" and ?lag = "confirmation_lag trusted"
  let ?ref = "scanned - ?lag"
  have retry: "retry = ?ref + (?m - ?ref mod ?m) + ?lag" "retry < 2 ^ 32"
    using assms by (auto simp: next_anchor_retry_height_after_def Let_def saturating_sub_def
        Option.bind_eq_Some_conv)
  have nm: "?m dvd ?ref + (?m - ?ref mod ?m)" "?ref < ?ref + (?m - ?ref mod ?m)"
    "\<And>b. ?m dvd b \<Longrightarrow> ?ref < b \<Longrightarrow> ?ref + (?m - ?ref mod ?m) \<le> b"
    using next_multiple [OF modulus_pos, where h = ?ref] by blast+
  have "scanned < retry" using nm(2) retry(1) by linarith
  moreover have eq: "retry - ?lag = ?ref + (?m - ?ref mod ?m)" "?lag \<le> retry"
    using retry(1) by (simp_all only: diff_add_inverse2 le_add2)
  ultimately show ?thesis using retry(2) nm unfolding eq(1) by blast
qed

theorem retry_height_exact_witness:
  "next_anchor_retry_height_after 3 Main Standard90Minutes 3169 = Inr 3170 \<and> (3169::nat) < 3170"
proof -
  have r: "next_anchor_retry_height_after 3 Main Standard90Minutes 3169 = Inr 3170"
    by (simp add: next_anchor_retry_height_after_def confirmation_lag_def arith_defs const_defs Let_def)
  show ?thesis using r retry_height_exact [OF r] by simp
qed

section \<open>The weighted draw\<close>

lemma weigh_candidates_total:
  "weigh_candidates network p latest bs t = Some (total', ws) \<Longrightarrow>
     total' = t + sum_list (map snd ws) \<and> map fst ws = bs
     \<and> (\<forall>(b, w) \<in> set ws. \<exists>age. zip318_anchor_boundary_age network p latest b = Some age
            \<and> w = 2 ^ (ZIP318_ANCHOR_AGE_CAP - age))"
proof (induction bs arbitrary: t ws)
  case Nil
  then show ?case by auto
next
  case (Cons b bs)
  then obtain age ws' where "zip318_anchor_boundary_age network p latest b = Some age"
      "weigh_candidates network p latest bs (t + 2 ^ (ZIP318_ANCHOR_AGE_CAP - age)) = Some (total', ws')"
      "ws = (b, 2 ^ (ZIP318_ANCHOR_AGE_CAP - age)) # ws'"
    by (auto simp: Option.bind_eq_Some_conv Let_def)
  with Cons.IH [of _ ws'] show ?case by fastforce
qed

lemma pick_weighted_total:
  "draw < sum_list (map snd ws) \<Longrightarrow> \<exists>b. pick_weighted ws draw = Some b \<and> b \<in> fst ` set ws"
proof (induction ws draw rule: pick_weighted.induct)
  case (2 b w ws draw)
  show ?case
  proof (cases "draw < w")
    case False
    then have "draw - w < sum_list (map snd ws)" using "2.prems" by simp
    then obtain c where "pick_weighted ws (draw - w) = Some c" "c \<in> fst ` set ws"
      using "2.IH" False by blast
    with False show ?thesis by simp
  qed simp
qed simp

lemma pick_weighted_share:
  assumes "distinct (map fst ws)" and "(b, w) \<in> set ws"
  shows "card {draw. draw < sum_list (map snd ws) \<and> pick_weighted ws draw = Some b} = w"
  using assms
proof (induction ws)
  case (Cons x ws)
  obtain c v where x: "x = (c, v)" by (cases x)
  let ?D = "\<lambda>ws. {draw. draw < sum_list (map snd ws) \<and> pick_weighted ws draw = Some b}"
  show ?case
  proof (cases "c = b")
    case True
    have notin: "b \<notin> fst ` set ws" using Cons.prems(1) x True by auto
    then have "w = v" using Cons.prems(2) x True by force
    moreover have "?D (x # ws) = {..< v}"
    proof -
      have "pick_weighted ws d \<noteq> Some b" for d
        using notin by (induction ws d rule: pick_weighted.induct) auto
      then show ?thesis using x True by auto
    qed
    ultimately show ?thesis by simp
  next
    case False
    then have mem: "(b, w) \<in> set ws" using Cons.prems(2) x by auto
    have "?D (x # ws) = (\<lambda>d. d + v) ` ?D ws"
    proof (intro set_eqI iffI)
      fix d assume "d \<in> ?D (x # ws)"
      then have "d - v \<in> ?D ws" and "d = (d - v) + v"
        using x False by (auto split: if_splits)
      then show "d \<in> (\<lambda>d. d + v) ` ?D ws" by blast
    qed (use x False in auto)
    then show ?thesis
      using Cons.IH Cons.prems(1) mem x by (simp add: card_image)
  qed
qed simp

text \<open>
  The weighted draw is sound and has the intended distribution: over distinct available candidates
  every draw in range selects one of them, and the number of draws that select a candidate of age
  \<open>a\<close> is \<open>2\<close> to the power of four minus \<open>a\<close>.
\<close>

theorem weighted_draw_distribution:
  assumes "weigh_candidates network p latest bs 0 = Some (total_weight, ws)"
    and "distinct bs" and "b \<in> set bs"
    and "zip318_anchor_boundary_age network p latest b = Some age"
  shows "(\<forall>draw < total_weight. \<exists>c \<in> set bs. pick_weighted ws draw = Some c)
     \<and> card {draw. draw < total_weight \<and> pick_weighted ws draw = Some b}
         = 2 ^ (ZIP318_ANCHOR_AGE_CAP - age)"
proof -
  from weigh_candidates_total [OF assms(1)]
  have tot: "total_weight = sum_list (map snd ws)" and fst: "map fst ws = bs"
    and weights: "\<forall>(b, w) \<in> set ws. \<exists>age. zip318_anchor_boundary_age network p latest b = Some age
            \<and> w = 2 ^ (ZIP318_ANCHOR_AGE_CAP - age)" by auto
  have set: "fst ` set ws = set bs" using fst by (metis set_map)
  then obtain w where w: "(b, w) \<in> set ws" using assms(3) by force
  then have "w = 2 ^ (ZIP318_ANCHOR_AGE_CAP - age)" using weights assms(4) by fastforce
  then show ?thesis
    using pick_weighted_share [OF _ w] pick_weighted_total [of _ ws] assms(2) tot fst set by auto
qed

theorem weighted_draw_distribution_witness:
  "weigh_candidates Test Standard90Minutes 2880 [2736, 2592] 0 = Some (12, [(2736, 8), (2592, 4)])
   \<and> card {draw. draw < 12 \<and> pick_weighted [(2736, 8), (2592, 4)] draw = Some 2592} = 2 ^ (4 - 2)"
proof -
  have age: "zip318_anchor_boundary_age Test Standard90Minutes 2880 2592 = Some 2"
    by (simp add: boundary_age_Some_iff const_defs)
  have "zip318_anchor_boundary_age Test Standard90Minutes 2880 2736 = Some 1"
    by (simp add: boundary_age_Some_iff const_defs)
  with age have w: "weigh_candidates Test Standard90Minutes 2880 [2736, 2592] 0 =
      Some (12, [(2736, 8), (2592, 4)])"
    by (simp add: const_defs checked_add_def)
  show ?thesis
    using w weighted_draw_distribution [OF w _ _ age] by (simp add: const_defs)
qed

end
