(* ===== verification/Random_Source.thy ===== *)
theory Random_Source
  imports Complex_Main Timing_Policy
begin

text \<open>
  The random and floating-point primitives that the schedulers call, and the rejection sampler of
  \<open>migration/schedule.rs\<close> that both schedulers use.

  The generator state is an abstract type \<open>'g\<close>. The record \<open>sampler\<close> holds what is not code of the
  repository: \<open>next_u64\<close> of \<open>rand_core\<close>, the permutation that \<open>SliceRandom::shuffle\<close> of \<open>rand\<close>
  applies to a slice of a given length, and the two inexact \<open>f64\<close> operations of the sampler,
  \<open>-uniform.ln() * f64::from(mean)\<close> and the addition of one half. Everything else of the sampler is
  exact in \<open>f64\<close>: a draw shifted right by eleven bits is a 53-bit integer, its product with
  \<open>2^-53\<close> and the difference from one are representable.
\<close>

record 'g sampler =
  next_u64 :: "'g \<Rightarrow> u64 \<times> 'g"
  shuffle_perm :: "nat \<Rightarrow> 'g \<Rightarrow> nat list \<times> 'g"
  neg_ln_scaled :: "rat \<Rightarrow> u32 \<Rightarrow> rat"
  add_half :: "rat \<Rightarrow> rat"

text \<open>What is relied on of \<open>shuffle\<close>: it permutes the slice.\<close>

definition shuffles :: "'g sampler \<Rightarrow> bool" where
  "shuffles env \<longleftrightarrow> (\<forall>n g. mset (fst (shuffle_perm env n g)) = mset [0 ..< n])"

definition apply_perm :: "nat list \<Rightarrow> 'a list \<Rightarrow> 'a list" where
  "apply_perm perm xs = map (\<lambda>i. xs ! i) perm"

definition draw_unit_left_open :: "u64 \<Rightarrow> rat" where
  "draw_unit_left_open draw = 1 - of_nat (draw div 2 ^ 11) * (1 / 2 ^ 53)"

text \<open>
  \<open>(value + 0.5) as u64 as u32\<close>: the cast to \<open>u64\<close> truncates and saturates, the cast to \<open>u32\<close> wraps.
\<close>

definition round_nonnegative_to_u32 :: "'g sampler \<Rightarrow> rat \<Rightarrow> u32" where
  "round_nonnegative_to_u32 env v = min (nat \<lfloor>add_half env v\<rfloor>) (2 ^ 64 - 1) mod 2 ^ 32"

definition sampled_delay :: "'g sampler \<Rightarrow> u32 \<Rightarrow> u64 \<Rightarrow> u32" where
  "sampled_delay env mean_delay_blocks draw =
     round_nonnegative_to_u32 env
       (neg_ln_scaled env (draw_unit_left_open draw) mean_delay_blocks)"

text \<open>The rejection loop: \<open>None\<close> is a generator that is never accepted.\<close>

partial_function (option) draw_delay ::
    "'g sampler \<Rightarrow> u32 \<Rightarrow> u32 \<Rightarrow> 'g \<Rightarrow> (u32 \<times> 'g) option" where
  "draw_delay env mean_delay_blocks max_delay_blocks g =
     (let (draw, g') = next_u64 env g; sampled = sampled_delay env mean_delay_blocks draw in
      if sampled \<le> max_delay_blocks then Some (sampled, g')
      else draw_delay env mean_delay_blocks max_delay_blocks g')"

text \<open>
  \<open>random_schedule_block_offsets_with_rng\<close>. The loop runs over the delay source it draws from. A
  failed \<open>assert!\<close> aborts the call, so it has no result either.
\<close>

type_synonym 'g delay_source = "'g \<Rightarrow> (u32 \<times> 'g) option"

fun offsets_loop :: "'g delay_source \<Rightarrow> nat \<Rightarrow> u32 \<Rightarrow> 'g \<Rightarrow> (u32 list \<times> 'g) option" where
  "offsets_loop delay 0 elapsed_blocks g = Some ([], g)"
| "offsets_loop delay (Suc n) elapsed_blocks g =
     Option.bind (delay g) (\<lambda>(d, g').
       let elapsed' = saturating_add 32 elapsed_blocks d in
       map_option (\<lambda>(offsets, g''). (elapsed' # offsets, g''))
         (offsets_loop delay n elapsed' g'))"

definition random_schedule_block_offsets ::
    "'g sampler \<Rightarrow> nat \<Rightarrow> u32 \<Rightarrow> u32 \<Rightarrow> 'g \<Rightarrow> (u32 list \<times> 'g) option" where
  "random_schedule_block_offsets env n mean mx g =
     (if mean = 0 \<or> mx = 0 then None else offsets_loop (draw_delay env mean mx) n 0 g)"

section \<open>The unit draw\<close>

lemma draw_unit_bounds:
  assumes "draw < 2 ^ 64"
  shows "0 < draw_unit_left_open draw" and "draw_unit_left_open draw \<le> 1"
proof -
  have "draw div 2 ^ 11 < 2 ^ 53" using assms by (simp add: less_mult_imp_div_less)
  then have "(of_nat (draw div 2 ^ 11) :: rat) < of_nat (2 ^ 53)" by (simp only: of_nat_less_iff)
  then show "0 < draw_unit_left_open draw" by (simp add: draw_unit_left_open_def)
  show "draw_unit_left_open draw \<le> 1" by (simp add: draw_unit_left_open_def)
qed

section \<open>The rejection loop\<close>

text \<open>The generator state after \<open>k\<close> draws, and the value sampled from it.\<close>

fun state_after :: "'g sampler \<Rightarrow> nat \<Rightarrow> 'g \<Rightarrow> 'g" where
  "state_after env 0 g = g"
| "state_after env (Suc k) g = state_after env k (snd (next_u64 env g))"

definition sample_at :: "'g sampler \<Rightarrow> u32 \<Rightarrow> nat \<Rightarrow> 'g \<Rightarrow> u32" where
  "sample_at env mean k g = sampled_delay env mean (fst (next_u64 env (state_after env k g)))"

lemma draw_delay_unfold:
  "draw_delay env mean mx g =
     (if sample_at env mean 0 g \<le> mx then Some (sample_at env mean 0 g, state_after env 1 g)
      else draw_delay env mean mx (state_after env 1 g))"
  by (subst draw_delay.simps) (simp add: sample_at_def split: prod.splits)

lemma draw_delay_first_accepted:
  assumes "sample_at env mean k g \<le> mx" and "\<forall>j < k. \<not> sample_at env mean j g \<le> mx"
  shows "draw_delay env mean mx g = Some (sample_at env mean k g, state_after env (Suc k) g)"
  using assms
proof (induction k arbitrary: g)
  case 0
  then show ?case by (subst draw_delay_unfold) simp
next
  case (Suc k)
  let ?g = "state_after env 1 g"
  have shift: "sample_at env mean (Suc j) g = sample_at env mean j ?g" for j
    by (simp add: sample_at_def)
  have "\<forall>j < k. \<not> sample_at env mean j ?g \<le> mx"
    using Suc.prems(2) shift by (metis Suc_mono)
  then have "draw_delay env mean mx ?g = Some (sample_at env mean k ?g, state_after env (Suc k) ?g)"
    using Suc.IH [of ?g] Suc.prems(1) shift by simp
  moreover have "\<not> sample_at env mean 0 g \<le> mx" using Suc.prems(2) by blast
  ultimately show ?case by (subst draw_delay_unfold) (simp add: shift)
qed

lemma draw_delay_le:
  assumes ret: "draw_delay env mean mx g = Some (d, g')"
  shows "d \<le> mx"
proof (rule draw_delay.raw_induct
         [where P = "\<lambda>env mean mx g r. fst r \<le> mx", OF _ ret, simplified fst_conv])
  fix f :: "'g sampler \<Rightarrow> u32 \<Rightarrow> u32 \<Rightarrow> 'g \<Rightarrow> (u32 \<times> 'g) option"
  fix env mean mx g r
  assume "\<And>env mean mx g r. f env mean mx g = Some r \<Longrightarrow> fst r \<le> mx"
    and "(let (draw, g') = next_u64 env g; sampled = sampled_delay env mean draw
          in if sampled \<le> mx then Some (sampled, g') else f env mean mx g') = Some r"
  then show "fst r \<le> mx" by (auto simp: Let_def split: prod.splits if_splits)
qed

text \<open>The generator accepts again and again from every state: the condition for liveness.\<close>

definition always_accepts :: "'g sampler \<Rightarrow> u32 \<Rightarrow> u32 \<Rightarrow> bool" where
  "always_accepts env mean mx \<longleftrightarrow> (\<forall>g. \<exists>k. sample_at env mean k g \<le> mx)"

lemma draw_delay_returns:
  assumes "sample_at env mean k g \<le> mx"
  shows "\<exists>r. draw_delay env mean mx g = Some r"
proof -
  let ?k = "LEAST k. sample_at env mean k g \<le> mx"
  have "sample_at env mean ?k g \<le> mx" using assms by (rule LeastI)
  moreover have "\<forall>j < ?k. \<not> sample_at env mean j g \<le> mx" using not_less_Least by blast
  ultimately show ?thesis by (blast dest: draw_delay_first_accepted)
qed

text \<open>A delay source that returns from every state.\<close>

definition delay_returns :: "'g delay_source \<Rightarrow> bool" where
  "delay_returns delay \<longleftrightarrow> (\<forall>g. \<exists>d g'. delay g = Some (d, g'))"

lemma draw_delay_live: "always_accepts env mean mx \<Longrightarrow> delay_returns (draw_delay env mean mx)"
  unfolding always_accepts_def delay_returns_def using draw_delay_returns by fast

lemma offsets_loop_returns:
  assumes "delay_returns delay"
  shows "\<exists>r. offsets_loop delay n elapsed g = Some r"
proof (induction n arbitrary: elapsed g)
  case (Suc n)
  obtain d g' where "delay g = Some (d, g')" using assms unfolding delay_returns_def by blast
  then show ?case using Suc.IH [of "saturating_add 32 elapsed d" g'] by (auto simp: Let_def)
qed simp

section \<open>Cumulative offsets\<close>

text \<open>Each offset is at least the one before it and at most \<open>mx\<close> blocks later.\<close>

fun gaps_within :: "u32 \<Rightarrow> u32 \<Rightarrow> u32 list \<Rightarrow> bool" where
  "gaps_within mx previous [] = True"
| "gaps_within mx previous (x # xs) = (previous \<le> x \<and> x \<le> previous + mx \<and> gaps_within mx x xs)"

lemma gaps_within_sorted: "gaps_within mx previous xs \<Longrightarrow> sorted (previous # xs)"
  by (induction mx previous xs rule: gaps_within.induct) auto

lemma gaps_within_bound:
  "gaps_within mx previous xs \<Longrightarrow> x \<in> set xs \<Longrightarrow> x \<le> previous + mx * length xs"
proof (induction mx previous xs rule: gaps_within.induct)
  case (2 mx previous y ys)
  then have "x \<le> y + mx * length ys" and "y \<le> previous + mx" by auto
  then show ?case by simp
qed simp

section \<open>Bounded delay sources\<close>

text \<open>
  The contract between a scheduler and the sampler it draws from: no delay exceeds the policy's
  maximum. The transfer scheduler relies on it here, the preparation scheduler and the catch-up of
  late preparation broadcasts rely on it in their own theories.
\<close>

locale bounded_delay =
  fixes delay :: "'g delay_source" and mx :: u32
  assumes delay_le: "delay g = Some (d, g') \<Longrightarrow> d \<le> mx"
begin

lemma offsets_gaps:
  assumes "offsets_loop delay n elapsed g = Some (offsets, g')" and "elapsed < 2 ^ 32"
  shows "length offsets = n \<and> gaps_within mx elapsed offsets \<and> (\<forall>x \<in> set offsets. x < 2 ^ 32)"
  using assms
proof (induction n arbitrary: elapsed g offsets)
  case (Suc n)
  then obtain d g1 os where d: "delay g = Some (d, g1)"
      and os: "offsets_loop delay n (saturating_add 32 elapsed d) g1 = Some (os, g')"
      and eq: "offsets = saturating_add 32 elapsed d # os"
    by (auto simp: Option.bind_eq_Some_conv Let_def)
  have "saturating_add 32 elapsed d < 2 ^ 32" by (simp add: saturating_add_def)
  with Suc.IH [OF os] show ?case
    using delay_le [OF d] Suc.prems(2) by (auto simp: eq saturating_add_def)
qed simp

end

interpretation transfer_delay: bounded_delay "draw_delay env mean mx" mx for env mean mx
  by unfold_locales (rule draw_delay_le)

lemma random_offsets_gaps:
  assumes "random_schedule_block_offsets env n mean mx g = Some (offsets, g')"
  shows "length offsets = n" and "gaps_within mx 0 offsets" and "\<forall>x \<in> set offsets. x < 2 ^ 32"
  using assms transfer_delay.offsets_gaps [of env mean mx n 0 g offsets g']
  by (auto simp: random_schedule_block_offsets_def split: if_splits)

lemma random_offsets_return:
  assumes "always_accepts env mean mx" and "0 < mean" and "0 < mx"
  shows "\<exists>offsets g'. random_schedule_block_offsets env n mean mx g = Some (offsets, g')"
  using offsets_loop_returns [OF draw_delay_live [OF assms(1)], of n 0 g] assms(2,3)
  by (auto simp: random_schedule_block_offsets_def)

section \<open>Shuffling\<close>

lemma apply_perm_mset:
  assumes "mset perm = mset [0 ..< length xs]"
  shows "mset (apply_perm perm xs) = mset xs"
proof -
  have "mset (apply_perm perm xs) = image_mset (\<lambda>i. xs ! i) (mset [0 ..< length xs])"
    using assms by (simp add: apply_perm_def)
  also have "\<dots> = mset (map (\<lambda>i. xs ! i) [0 ..< length xs])" by simp
  also have "\<dots> = mset xs" by (simp only: map_nth)
  finally show ?thesis .
qed

lemma shuffles_mset:
  "shuffles env \<Longrightarrow> mset (apply_perm (fst (shuffle_perm env (length xs) g)) xs) = mset xs"
  by (rule apply_perm_mset) (simp add: shuffles_def)

lemma shuffles_perm:
  assumes "shuffles env" and "shuffle_perm env n g = (perm, g')"
  shows "mset perm = mset [0 ..< n]" and "length perm = n" and "distinct perm"
    and "set perm = {0 ..< n}"
proof -
  show m: "mset perm = mset [0 ..< n]" using assms by (metis shuffles_def fst_conv)
  then show "length perm = n" by (metis size_mset length_upt diff_zero)
  show "distinct perm" using m distinct_upt mset_eq_imp_distinct_iff by blast
  show "set perm = {0 ..< n}" using m by (metis atLeast_upt set_mset_mset atLeast0LessThan)
qed

section \<open>A concrete sampler\<close>

text \<open>A counter as generator, no reordering, every sample at the mean: the witnesses run on it.\<close>

definition counter_sampler :: "nat sampler" where
  "counter_sampler =
     \<lparr>next_u64 = (\<lambda>g. (g mod 2 ^ 64, Suc g)), shuffle_perm = (\<lambda>n g. ([0 ..< n], g)),
      neg_ln_scaled = (\<lambda>u mean. of_nat mean), add_half = (\<lambda>v. v + 1 / 2)\<rparr>"

lemma counter_sampler_shuffles: "shuffles counter_sampler"
  by (simp add: shuffles_def counter_sampler_def)

lemma counter_sampler_perm: "shuffle_perm counter_sampler n g = ([0 ..< n], g)"
  by (simp add: counter_sampler_def)

lemma counter_sampler_delay:
  assumes "mean < 2 ^ 32"
  shows "sampled_delay counter_sampler mean draw = mean"
proof -
  have "\<lfloor>(of_nat mean + 1 / 2 :: rat)\<rfloor> = int mean" by (simp add: floor_eq_iff)
  then show ?thesis
    using assms by (simp add: sampled_delay_def round_nonnegative_to_u32_def counter_sampler_def)
qed

lemma counter_sampler_draw:
  assumes "mean \<le> mx" and "mean < 2 ^ 32"
  shows "draw_delay counter_sampler mean mx g = Some (mean, Suc g)"
  using assms
  by (subst draw_delay.simps) (simp add: counter_sampler_delay, simp add: counter_sampler_def)

lemma counter_sampler_accepts: "mean \<le> mx \<Longrightarrow> mean < 2 ^ 32 \<Longrightarrow> always_accepts counter_sampler mean mx"
  by (simp add: always_accepts_def sample_at_def counter_sampler_delay)

end
