(* ===== verification/Schedule.thy ===== *)
theory Schedule
  imports Random_Source
begin

text \<open>
  The broadcast schedule of a migration run (\<open>migration/schedule.rs\<close>, and
  \<open>schedule_block_offset_for_part\<close> of \<open>migration.rs\<close>): drawing a schedule for the migration parts,
  drawing fresh offsets for rebuilt parts, and validating an approved schedule.
\<close>

section \<open>Data and operations\<close>

record schedule_entry =
  se_part_index :: "u32 option"
  se_value_zatoshi :: u64
  se_block_offset :: u32

datatype schedule_error =
  ScheduleMissingRecoveryChild
  | ScheduleCountChanged
  | ScheduleValuesChanged
  | ScheduleNotOrdered
  | ScheduleDelayOutsidePolicy
  | SchedulePartsNotIdentified
  | SchedulePartIndexesIncomplete
  | SchedulePartIndexOutsidePlan
  | SchedulePartIndexDuplicated
  | SchedulePartValueChanged

definition make_entry :: "u32 \<times> u64 \<Rightarrow> u32 \<Rightarrow> schedule_entry" where
  "make_entry part block_offset =
     \<lparr>se_part_index = Some (fst part), se_value_zatoshi = snd part,
      se_block_offset = block_offset\<rparr>"

definition planned_transfer_schedule_for_parts_with_policy ::
    "'g sampler \<Rightarrow> (u32 \<times> u64) list \<Rightarrow> wallet_network \<Rightarrow> migration_timing_policy \<Rightarrow> 'g \<Rightarrow>
     (schedule_entry list \<times> 'g) option" where
  "planned_transfer_schedule_for_parts_with_policy env parts network timing_policy g =
     (let (perm, g1) = shuffle_perm env (length parts) g;
          parts' = apply_perm perm parts;
          (mean_delay_blocks, max_delay_blocks) =
            schedule_parameters_with_policy_for_part_count network timing_policy (length parts')
      in map_option (\<lambda>(offsets, g2). (map2 make_entry parts' offsets, g2))
           (random_schedule_block_offsets env (length parts') mean_delay_blocks
              max_delay_blocks g1))"

text \<open>\<open>enumerate()\<close> with the cast \<open>part_index as u32\<close>, which wraps.\<close>

definition enumerate_parts :: "u64 list \<Rightarrow> (u32 \<times> u64) list" where
  "enumerate_parts values = map (\<lambda>(i, v). (i mod 2 ^ 32, v)) (enumerate 0 values)"

definition planned_transfer_schedule_with_policy ::
    "'g sampler \<Rightarrow> u64 list \<Rightarrow> wallet_network \<Rightarrow> migration_timing_policy \<Rightarrow> 'g \<Rightarrow>
     (schedule_entry list \<times> 'g) option" where
  "planned_transfer_schedule_with_policy env values network timing_policy g =
     planned_transfer_schedule_for_parts_with_policy env (enumerate_parts values) network
       timing_policy g"

definition planned_transfer_schedule ::
    "'g sampler \<Rightarrow> bool \<Rightarrow> u64 list \<Rightarrow> wallet_network \<Rightarrow> 'g \<Rightarrow>
     (schedule_entry list \<times> 'g) option" where
  "planned_transfer_schedule env fast values network g =
     planned_transfer_schedule_for_parts_with_policy env (enumerate_parts values) network
       (configured_timing_policy fast network) g"

definition schedule_block_offset_for_part ::
    "schedule_entry list \<Rightarrow> u64 list \<Rightarrow> u32 \<Rightarrow> u64 \<Rightarrow> u32 option" where
  "schedule_block_offset_for_part schedule target_values part_index value_zatoshi =
     (if list_all (\<lambda>e. se_part_index e \<noteq> None) schedule
      then map_option se_block_offset
             (find (\<lambda>e. se_part_index e = Some part_index \<and> se_value_zatoshi e = value_zatoshi)
                schedule)
      else if \<not> (part_index < length target_values \<and> target_values ! part_index = value_zatoshi)
      then None
      else let equal_value_rank =
                 length (filter (\<lambda>v. v = value_zatoshi) (take part_index target_values));
               same = filter (\<lambda>e. se_value_zatoshi e = value_zatoshi) schedule
           in if equal_value_rank < length same
              then Some (se_block_offset (same ! equal_value_rank)) else None)"

text \<open>
  The recovery offsets: every recovered part must be in the approved schedule; the fresh cumulative
  offsets are handed out to the parts in a shuffled order.
\<close>

fun assign_slots :: "u32 list \<Rightarrow> (nat \<times> u32) list \<Rightarrow> u32 list" where
  "assign_slots assigned [] = assigned"
| "assign_slots assigned ((slot, offset) # rest) = assign_slots (assigned[slot := offset]) rest"

definition rebuild_schedule_block_offsets ::
    "'g sampler \<Rightarrow> schedule_entry list \<Rightarrow> u64 list \<Rightarrow> (u32 \<times> u64) list \<Rightarrow> wallet_network \<Rightarrow>
     migration_timing_policy \<Rightarrow> 'g \<Rightarrow> (schedule_error + (u32 list \<times> 'g)) option" where
  "rebuild_schedule_block_offsets env schedule target_values recoveries network timing_policy g =
     (case collect_results
             (\<lambda>(part_index, value_zatoshi).
                ok_or ScheduleMissingRecoveryChild
                  (schedule_block_offset_for_part schedule target_values part_index value_zatoshi))
             recoveries of
        Inl e \<Rightarrow> Some (Inl e)
      | Inr _ \<Rightarrow>
          (let (mean_delay_blocks, max_delay_blocks) =
                 schedule_parameters_with_policy network timing_policy
           in Option.bind
                (random_schedule_block_offsets env (length recoveries) mean_delay_blocks
                   max_delay_blocks g) (\<lambda>(offsets, g1).
                let (slots, g2) = shuffle_perm env (length recoveries) g1 in
                Some (Inr (assign_slots (replicate (length recoveries) 0) (zip slots offsets), g2)))))"

subsection \<open>Reading a schedule back\<close>

fun place_targets :: "u64 option list \<Rightarrow> schedule_entry list \<Rightarrow> schedule_error + u64 option list" where
  "place_targets slots [] = Inr slots"
| "place_targets slots (entry # entries) =
     (case se_part_index entry of
        None \<Rightarrow> Inl SchedulePartIndexesIncomplete
      | Some part_index \<Rightarrow>
          (if part_index \<ge> length slots then Inl SchedulePartIndexOutsidePlan
           else if slots ! part_index \<noteq> None then Inl SchedulePartIndexDuplicated
           else place_targets (slots[part_index := Some (se_value_zatoshi entry)]) entries))"

definition target_values_from_schedule :: "schedule_entry list \<Rightarrow> schedule_error + u64 list" where
  "target_values_from_schedule schedule =
     (if schedule = [] then Inr []
      else if list_all (\<lambda>e. se_part_index e = None) schedule then Inl SchedulePartsNotIdentified
      else if list_ex (\<lambda>e. se_part_index e = None) schedule
      then Inl SchedulePartIndexesIncomplete
      else rbind (place_targets (replicate (length schedule) None) schedule)
             (collect_results (ok_or SchedulePartIndexesIncomplete)))"

subsection \<open>Validation\<close>

fun check_part_indexes ::
    "u64 list \<Rightarrow> u32 set \<Rightarrow> schedule_entry list \<Rightarrow> schedule_error + unit" where
  "check_part_indexes target_values seen [] = Inr ()"
| "check_part_indexes target_values seen (entry # entries) =
     (case se_part_index entry of
        None \<Rightarrow> Inl SchedulePartIndexesIncomplete
      | Some part_index \<Rightarrow>
          (if part_index \<ge> length target_values then Inl SchedulePartIndexOutsidePlan
           else if part_index \<in> seen then Inl SchedulePartIndexDuplicated
           else if target_values ! part_index \<noteq> se_value_zatoshi entry
           then Inl SchedulePartValueChanged
           else check_part_indexes target_values (insert part_index seen) entries))"

definition validate_schedule_part_indexes ::
    "schedule_entry list \<Rightarrow> u64 list \<Rightarrow> schedule_error + unit" where
  "validate_schedule_part_indexes schedule target_values =
     (if list_all (\<lambda>e. se_part_index e = None) schedule then Inr ()
      else if list_ex (\<lambda>e. se_part_index e = None) schedule
      then Inl SchedulePartIndexesIncomplete
      else check_part_indexes target_values {} schedule)"

fun check_gaps :: "u32 \<Rightarrow> u32 \<Rightarrow> schedule_entry list \<Rightarrow> schedule_error + unit" where
  "check_gaps max_delay_blocks previous_offset [] = Inr ()"
| "check_gaps max_delay_blocks previous_offset (entry # entries) =
     rbind (ok_or ScheduleNotOrdered (checked_sub (se_block_offset entry) previous_offset)) (\<lambda>gap.
       if gap > max_delay_blocks then Inl ScheduleDelayOutsidePolicy
       else check_gaps max_delay_blocks (se_block_offset entry) entries)"

definition validate_schedule_with_policy ::
    "schedule_entry list \<Rightarrow> u64 list \<Rightarrow> wallet_network \<Rightarrow> migration_timing_policy \<Rightarrow>
     schedule_error + unit" where
  "validate_schedule_with_policy schedule target_values network timing_policy =
     (if length schedule \<noteq> length target_values then Inl ScheduleCountChanged
      else if sort (map se_value_zatoshi schedule) \<noteq> sort target_values
      then Inl ScheduleValuesChanged
      else rbind (validate_schedule_part_indexes schedule target_values) (\<lambda>_.
             check_gaps (snd (schedule_parameters_with_policy network timing_policy)) 0 schedule))"

definition validate_schedule ::
    "bool \<Rightarrow> schedule_entry list \<Rightarrow> u64 list \<Rightarrow> wallet_network \<Rightarrow> schedule_error + unit" where
  "validate_schedule fast schedule target_values network =
     validate_schedule_with_policy schedule target_values network
       (configured_timing_policy fast network)"

section \<open>What validation establishes\<close>

text \<open>The part indexes are a bijection onto the targets and carry the target's value.\<close>

definition indexes_targets :: "schedule_entry list \<Rightarrow> u64 list \<Rightarrow> bool" where
  "indexes_targets schedule target_values \<longleftrightarrow>
     (\<forall>e \<in> set schedule. \<exists>i. se_part_index e = Some i \<and> i < length target_values
         \<and> target_values ! i = se_value_zatoshi e)
     \<and> distinct (map se_part_index schedule)"

lemma check_gaps_iff:
  "check_gaps mx previous es = Inr () \<longleftrightarrow> gaps_within mx previous (map se_block_offset es)"
  by (induction mx previous es rule: check_gaps.induct)
     (auto simp: checked_sub_def split: if_splits)

lemma check_part_indexes_iff:
  "check_part_indexes targets seen es = Inr () \<longleftrightarrow>
     indexes_targets es targets \<and> Some ` seen \<inter> se_part_index ` set es = {}"
proof (induction targets seen es rule: check_part_indexes.induct)
  case (2 targets seen e es)
  show ?case
  proof (cases "se_part_index e")
    case None
    then show ?thesis by (auto simp: indexes_targets_def)
  next
    case (Some i)
    show ?thesis
    proof (cases "i < length targets \<and> i \<notin> seen \<and> targets ! i = se_value_zatoshi e")
      case True
      then have "check_part_indexes targets seen (e # es) = Inr () \<longleftrightarrow>
          indexes_targets es targets \<and> Some ` insert i seen \<inter> se_part_index ` set es = {}"
        using "2.IH" [OF Some] Some by auto
      with True Some show ?thesis by (auto simp: indexes_targets_def)
    next
      case False
      with Some show ?thesis by (auto simp: indexes_targets_def)
    qed
  qed
qed (simp add: indexes_targets_def)

lemma sort_eq_iff_mset: "sort xs = sort ys \<longleftrightarrow> mset xs = mset (ys :: nat list)"
  by (metis mset_sort properties_for_sort sorted_sort)

lemma validate_schedule_iff:
  "validate_schedule_with_policy schedule targets network p = Inr () \<longleftrightarrow>
     length schedule = length targets
     \<and> mset (map se_value_zatoshi schedule) = mset targets
     \<and> ((\<forall>e \<in> set schedule. se_part_index e = None) \<or> indexes_targets schedule targets)
     \<and> gaps_within (snd (schedule_parameters_with_policy network p)) 0
         (map se_block_offset schedule)"
proof -
  have "validate_schedule_part_indexes schedule targets = Inr () \<longleftrightarrow>
      (\<forall>e \<in> set schedule. se_part_index e = None) \<or> indexes_targets schedule targets"
    unfolding validate_schedule_part_indexes_def
    by (force simp: check_part_indexes_iff list_all_iff list_ex_iff indexes_targets_def)
  then show ?thesis
    by (auto simp: validate_schedule_with_policy_def sort_eq_iff_mset check_gaps_iff
        simp del: mset_map)
qed

lemma indexes_targets_covers:
  assumes "indexes_targets schedule targets" and "length schedule = length targets"
    and "i < length targets"
  obtains e where "e \<in> set schedule" "se_part_index e = Some i" "se_value_zatoshi e = targets ! i"
proof -
  let ?I = "se_part_index ` set schedule"
  have sub: "?I \<subseteq> Some ` {..< length targets}"
    using assms(1) by (fastforce simp: indexes_targets_def)
  have "card ?I = length targets"
    using assms(1,2) distinct_card [of "map se_part_index schedule"]
    by (simp add: indexes_targets_def)
  then have "?I = Some ` {..< length targets}"
    using sub by (intro card_subset_eq) (auto simp: card_image)
  then obtain e where e: "e \<in> set schedule" "se_part_index e = Some i"
    using assms(3) by (metis (no_types, lifting) imageE imageI lessThan_iff)
  moreover have "se_value_zatoshi e = targets ! i"
    using assms(1) e by (fastforce simp: indexes_targets_def)
  ultimately show ?thesis by (rule that)
qed

section \<open>Every approved part has a broadcast offset\<close>

lemma rank_less_count:
  assumes "i < length xs"
  shows "length (filter (\<lambda>v. v = xs ! i) (take i xs)) < length (filter (\<lambda>v. v = xs ! i) xs)"
proof -
  have "xs = take i xs @ xs ! i # drop (Suc i) xs" using assms by (rule id_take_nth_drop)
  then have "length (filter (\<lambda>v. v = xs ! i) xs) =
      length (filter (\<lambda>v. v = xs ! i) (take i xs @ xs ! i # drop (Suc i) xs))" by simp
  then show ?thesis by simp
qed

lemma count_values_eq:
  assumes "mset (map f es) = mset xs"
  shows "length (filter (\<lambda>e. f e = v) es) = length (filter (\<lambda>x. x = v) xs)"
proof -
  have "length (filter (\<lambda>e. f e = v) es) = length (filter (\<lambda>x. x = v) (map f es))"
    by (simp add: filter_map comp_def)
  also have "\<dots> = length (filter (\<lambda>x. x = v) xs)"
    using assms by (metis mset_filter size_mset)
  finally show ?thesis .
qed

text \<open>
  A schedule that passes validation serves every migration part: whether it identifies its parts
  or is a legacy schedule without part indexes, the lookup of the broadcast offset succeeds for each
  target part at its target value.
\<close>

theorem validated_schedule_covers_parts:
  assumes "validate_schedule_with_policy schedule targets network p = Inr ()"
    and "i < length targets"
  shows "\<exists>offset. schedule_block_offset_for_part schedule targets i (targets ! i) = Some offset"
proof (cases "list_all (\<lambda>e. se_part_index e \<noteq> None) schedule")
  case True
  note v = assms(1) [unfolded validate_schedule_iff]
  have "schedule \<noteq> []" using v assms(2) by auto
  then have "indexes_targets schedule targets"
    using v True by (auto simp: list_all_iff neq_Nil_conv)
  then obtain e where "e \<in> set schedule" "se_part_index e = Some i" "se_value_zatoshi e = targets ! i"
    using v assms(2) by (auto elim: indexes_targets_covers)
  then have "find (\<lambda>e. se_part_index e = Some i \<and> se_value_zatoshi e = targets ! i) schedule \<noteq> None"
    by (auto simp: find_None_iff)
  with True show ?thesis by (auto simp: schedule_block_offset_for_part_def)
next
  case False
  have "mset (map se_value_zatoshi schedule) = mset targets"
    using assms(1) unfolding validate_schedule_iff by blast
  then have "length (filter (\<lambda>e. se_value_zatoshi e = targets ! i) schedule) =
      length (filter (\<lambda>v. v = targets ! i) targets)"
    by (rule count_values_eq)
  with False rank_less_count [OF assms(2)] assms(2) show ?thesis
    unfolding schedule_block_offset_for_part_def Let_def by simp
qed

theorem validated_schedule_covers_parts_witness:
  "validate_schedule_with_policy
       [\<lparr>se_part_index = None, se_value_zatoshi = 5000000, se_block_offset = 10\<rparr>,
        \<lparr>se_part_index = None, se_value_zatoshi = 1000000, se_block_offset = 70\<rparr>]
       [1000000, 5000000] Main Standard = Inr ()
   \<and> (\<exists>offset. schedule_block_offset_for_part
       [\<lparr>se_part_index = None, se_value_zatoshi = 5000000, se_block_offset = 10\<rparr>,
        \<lparr>se_part_index = None, se_value_zatoshi = 1000000, se_block_offset = 70\<rparr>]
       [1000000, 5000000] 1 5000000 = Some offset)"
proof -
  have v: "validate_schedule_with_policy
       [\<lparr>se_part_index = None, se_value_zatoshi = 5000000, se_block_offset = 10\<rparr>,
        \<lparr>se_part_index = None, se_value_zatoshi = 1000000, se_block_offset = 70\<rparr>]
       [1000000, 5000000] Main Standard = Inr ()"
    by (simp add: validate_schedule_iff const_defs add_mset_commute)
  show ?thesis using v validated_schedule_covers_parts [OF v, of 1] by simp
qed

section \<open>Reading the targets back\<close>

lemma place_targets_ok:
  assumes "\<forall>e \<in> set es. \<exists>i. se_part_index e = Some i \<and> i < length slots \<and> slots ! i = None"
    and "distinct (map se_part_index es)"
  shows "\<exists>slots'. place_targets slots es = Inr slots' \<and> length slots' = length slots
     \<and> (\<forall>e \<in> set es. \<forall>i. se_part_index e = Some i \<longrightarrow> slots' ! i = Some (se_value_zatoshi e))
     \<and> (\<forall>j < length slots. Some j \<notin> se_part_index ` set es \<longrightarrow> slots' ! j = slots ! j)"
  using assms
proof (induction es arbitrary: slots)
  case (Cons e es)
  then obtain i where i: "se_part_index e = Some i" "i < length slots" "slots ! i = None" by auto
  let ?s = "slots[i := Some (se_value_zatoshi e)]"
  have "Some i \<notin> se_part_index ` set es" using Cons.prems(2) i(1) by (metis distinct.simps(2) list.set_map list.simps(9))
  moreover have "\<forall>e' \<in> set es. \<exists>j. se_part_index e' = Some j \<and> j < length ?s \<and> ?s ! j = None"
  proof
    fix e' assume e': "e' \<in> set es"
    then obtain j where j: "se_part_index e' = Some j" "j < length slots" "slots ! j = None"
      using Cons.prems(1) by (metis list.set_intros(2))
    moreover have "j \<noteq> i" using e' j(1) \<open>Some i \<notin> se_part_index ` set es\<close> by force
    ultimately show "\<exists>j. se_part_index e' = Some j \<and> j < length ?s \<and> ?s ! j = None" by simp
  qed
  ultimately obtain slots' where "place_targets ?s es = Inr slots'" "length slots' = length ?s"
      "\<forall>e \<in> set es. \<forall>i. se_part_index e = Some i \<longrightarrow> slots' ! i = Some (se_value_zatoshi e)"
      "\<forall>j < length ?s. Some j \<notin> se_part_index ` set es \<longrightarrow> slots' ! j = ?s ! j"
    using Cons.IH [of ?s] Cons.prems(2) by auto
  with i \<open>Some i \<notin> se_part_index ` set es\<close> show ?case
    by (intro exI [of _ slots']) (auto simp: nth_list_update)
qed simp

lemma target_values_from_indexed_schedule:
  assumes "indexes_targets schedule targets" and "length schedule = length targets"
  shows "target_values_from_schedule schedule = Inr targets"
proof (cases "schedule = []")
  case True
  then show ?thesis using assms(2) by (simp add: target_values_from_schedule_def)
next
  case False
  let ?slots = "replicate (length schedule) None :: u64 option list"
  have "\<exists>slots'. place_targets ?slots schedule = Inr slots' \<and> length slots' = length ?slots
     \<and> (\<forall>e \<in> set schedule. \<forall>i. se_part_index e = Some i \<longrightarrow> slots' ! i = Some (se_value_zatoshi e))
     \<and> (\<forall>j < length ?slots. Some j \<notin> se_part_index ` set schedule \<longrightarrow> slots' ! j = ?slots ! j)"
    by (rule place_targets_ok) (use assms in \<open>auto simp: indexes_targets_def\<close>)
  then obtain slots' where slots': "place_targets ?slots schedule = Inr slots'"
      "length slots' = length targets"
      "\<forall>e \<in> set schedule. \<forall>i. se_part_index e = Some i \<longrightarrow> slots' ! i = Some (se_value_zatoshi e)"
    using assms(2) by auto
  have "slots' = map Some targets"
  proof (rule nth_equalityI)
    fix i assume "i < length slots'"
    then have "i < length targets" using slots'(2) by simp
    then obtain e where "e \<in> set schedule" "se_part_index e = Some i" "se_value_zatoshi e = targets ! i"
      using assms by (auto elim: indexes_targets_covers)
    with slots'(3) \<open>i < length targets\<close> show "slots' ! i = map Some targets ! i" by simp
  qed (simp add: slots'(2))
  moreover have "collect_results (ok_or er) (map Some vs) = Inr vs" for er :: schedule_error and vs
    by (induction vs) auto
  moreover have "\<exists>e \<in> set schedule. se_part_index e \<noteq> None" "\<forall>e \<in> set schedule. se_part_index e \<noteq> None"
    using False assms(1) by (auto simp: indexes_targets_def neq_Nil_conv)
  ultimately show ?thesis
    using False slots'(1)
    by (auto simp: target_values_from_schedule_def list_all_iff list_ex_iff)
qed

section \<open>A drawn schedule is a valid schedule\<close>

lemma enumerate_parts_id: "length vs \<le> 2 ^ 32 \<Longrightarrow> enumerate_parts vs = enumerate 0 vs"
  unfolding enumerate_parts_def
  by (rule map_idI) (auto simp: in_set_enumerate_eq)

lemma drawn_schedule_valid:
  assumes "shuffles env" and "length values \<le> 2 ^ 32"
    and "planned_transfer_schedule_with_policy env values network p g = Some (schedule, g')"
  shows "length schedule = length values" and "indexes_targets schedule values"
    and "mset (map se_value_zatoshi schedule) = mset values"
    and "gaps_within (snd (schedule_parameters_with_policy network p)) 0 (map se_block_offset schedule)"
proof -
  obtain perm g1 where perm: "shuffle_perm env (length values) g = (perm, g1)" by fastforce
  define parts where "parts = apply_perm perm (enumerate 0 values)"
  obtain mean mx where par:
      "schedule_parameters_with_policy_for_part_count network p (length parts) = (mean, mx)"
    by fastforce
  have mp: "mset parts = mset (enumerate 0 values)"
    unfolding parts_def using shuffles_perm(1) [OF assms(1) perm] by (intro apply_perm_mset) simp
  then have len: "length parts = length values" by (metis size_mset length_enumerate)
  obtain offsets where offs:
      "random_schedule_block_offsets env (length parts) mean mx g1 = Some (offsets, g')"
      and sched: "schedule = map2 make_entry parts offsets"
    using assms(2,3) perm par
    by (auto simp: planned_transfer_schedule_with_policy_def enumerate_parts_id
        planned_transfer_schedule_for_parts_with_policy_def parts_def Let_def)
  note gaps = random_offsets_gaps [OF offs]
  have offs_eq: "map se_block_offset schedule = offsets"
    using gaps(1) by (simp add: sched make_entry_def comp_def case_prod_unfold map_snd_zip)
  have parts_eq: "map (\<lambda>e. (se_part_index e, se_value_zatoshi e)) schedule =
      map (\<lambda>(i, v). (Some i, v)) parts"
    using gaps(1) by (auto simp: sched make_entry_def case_prod_unfold intro!: nth_equalityI)
  have idx: "map se_part_index schedule = map (Some \<circ> fst) parts"
    and val: "map se_value_zatoshi schedule = map snd parts"
    using arg_cong [OF parts_eq, of "map fst"] arg_cong [OF parts_eq, of "map snd"]
    by (simp_all add: comp_def case_prod_unfold)
  show "length schedule = length values" using len gaps(1) by (simp add: sched)
  show "gaps_within (snd (schedule_parameters_with_policy network p)) 0 (map se_block_offset schedule)"
    using gaps(2) schedule_parameters_for_part_count_valid(3) [OF par] by (simp add: offs_eq)
  show "mset (map se_value_zatoshi schedule) = mset values"
    unfolding val using arg_cong [OF mp, of "image_mset snd"]
    by (simp del: mset_map add: mset_map [symmetric])
  have "distinct (map fst parts)"
    using arg_cong [OF mp, of "image_mset fst"]
    by (metis distinct_upt map_fst_enumerate mset_eq_imp_distinct_iff mset_map)
  then have "distinct (map se_part_index schedule)"
    unfolding idx by (simp add: distinct_map comp_inj_on_iff inj_on_def)
  moreover have "\<exists>i. se_part_index e = Some i \<and> i < length values \<and> values ! i = se_value_zatoshi e"
    if "e \<in> set schedule" for e
  proof -
    have "(se_part_index e, se_value_zatoshi e) \<in> set (map (\<lambda>(i, v). (Some i, v)) parts)"
      using that parts_eq by (metis (mono_tags, lifting) image_eqI list.set_map)
    then obtain i v where "(i, v) \<in> set parts" "se_part_index e = Some i" "se_value_zatoshi e = v"
      by auto
    moreover have "set parts = set (enumerate 0 values)" using mp by (metis set_mset_mset)
    ultimately show ?thesis by (simp add: in_set_enumerate_eq)
  qed
  ultimately show "indexes_targets schedule values" by (simp add: indexes_targets_def)
qed

text \<open>
  C38. A schedule that the wallet draws is one that the wallet accepts, and loses nothing: for up to
  \<open>2^32\<close> parts the drawn schedule passes validation against its own target values under the same
  policy, and reading the targets back from it returns them in part order.
\<close>

theorem drawn_schedule_round_trip:
  assumes "shuffles env" and "length values \<le> 2 ^ 32"
    and "planned_transfer_schedule_with_policy env values network p g = Some (schedule, g')"
  shows "validate_schedule_with_policy schedule values network p = Inr ()
     \<and> target_values_from_schedule schedule = Inr values"
  using drawn_schedule_valid [OF assms]
  by (auto simp: validate_schedule_iff target_values_from_indexed_schedule simp del: mset_map)

lemma counter_sampler_schedule:
  "planned_transfer_schedule_with_policy counter_sampler [5000000, 1000000] Main
     Standard90Minutes 0 =
   Some ([\<lparr>se_part_index = Some 0, se_value_zatoshi = 5000000, se_block_offset = 66\<rparr>,
          \<lparr>se_part_index = Some 1, se_value_zatoshi = 1000000, se_block_offset = 132\<rparr>], 2)"
  by (simp add: planned_transfer_schedule_with_policy_def enumerate_parts_def
        planned_transfer_schedule_for_parts_with_policy_def random_schedule_block_offsets_def
        schedule_parameters_with_policy_for_part_count_def const_defs
        counter_sampler_draw counter_sampler_perm saturating_add_def make_entry_def apply_perm_def upt_rec Let_def)

theorem drawn_schedule_round_trip_witness:
  "\<exists>schedule g'. planned_transfer_schedule_with_policy counter_sampler [5000000, 1000000] Main
       Standard90Minutes 0 = Some (schedule, g')
     \<and> validate_schedule_with_policy schedule [5000000, 1000000] Main Standard90Minutes = Inr ()
     \<and> target_values_from_schedule schedule = Inr [5000000, 1000000]"
  using drawn_schedule_round_trip [OF counter_sampler_shuffles _ counter_sampler_schedule]
    counter_sampler_schedule by simp

section \<open>Rescheduling recovered parts\<close>

lemma assign_slots_length [simp]: "length (assign_slots assigned ps) = length assigned"
  by (induction assigned ps rule: assign_slots.induct) auto

lemma assign_slots_untouched:
  "i \<notin> fst ` set ps \<Longrightarrow> assign_slots assigned ps ! i = assigned ! i"
  by (induction assigned ps rule: assign_slots.induct) auto

lemma assign_slots_at:
  assumes "distinct (map fst ps)" and "(i, x) \<in> set ps" and "i < length assigned"
  shows "assign_slots assigned ps ! i = x"
  using assms
proof (induction assigned ps rule: assign_slots.induct)
  case (2 assigned slot offset rest)
  show ?case
  proof (cases "slot = i")
    case True
    then have "i \<notin> fst ` set rest" and "x = offset" using "2.prems"(1,2) by force+
    with True "2.prems"(3) show ?thesis by (simp add: assign_slots_untouched)
  qed (use 2 in auto)
qed simp

lemma assign_slots_mset:
  assumes "mset slots = mset [0 ..< n]" and "length offsets = n"
  shows "mset (assign_slots (replicate n 0) (zip slots offsets)) = mset offsets"
proof -
  let ?a = "assign_slots (replicate n 0) (zip slots offsets)"
  have len: "length slots = n" using assms(1) by (metis size_mset length_upt diff_zero)
  have d: "distinct slots" using assms(1) distinct_upt mset_eq_imp_distinct_iff by blast
  have s: "set slots = {0 ..< n}" using assms(1) by (metis set_mset_mset set_upt)
  have "map (\<lambda>i. ?a ! i) slots = offsets"
  proof (rule nth_equalityI)
    fix k assume "k < length (map (\<lambda>i. ?a ! i) slots)"
    then have k: "k < n" using len by simp
    then have "(slots ! k, offsets ! k) \<in> set (zip slots offsets)"
      using len assms(2) by (auto simp: set_zip)
    moreover have "slots ! k < n" using s k len by (metis atLeastLessThan_iff nth_mem)
    ultimately have "?a ! (slots ! k) = offsets ! k"
      using d len assms(2) by (intro assign_slots_at) simp_all
    then show "map (\<lambda>i. ?a ! i) slots ! k = offsets ! k" using k len by simp
  qed (simp add: len assms(2))
  then have "mset offsets = image_mset (\<lambda>i. ?a ! i) (mset [0 ..< n])"
    using assms(1) by (metis mset_map)
  also have "\<dots> = mset (apply_perm [0 ..< length ?a] ?a)" by (simp add: apply_perm_def)
  also have "\<dots> = mset ?a" by (rule apply_perm_mset) simp
  finally show ?thesis by simp
qed

text \<open>
  Rescheduling of recovered parts returns when the sampler keeps accepting, and its result is a
  fresh schedule for them: one offset per recovered part, and in increasing order the offsets start
  at most one maximum delay after the rebuild and are at most one maximum delay apart. It fails
  exactly when a recovered part is not in the approved schedule.
\<close>

theorem rebuilt_offsets_fresh:
  assumes "shuffles env"
    and "schedule_parameters_with_policy network p = (mean, mx)" and "always_accepts env mean mx"
  shows "(if \<exists>(i, v) \<in> set recoveries. schedule_block_offset_for_part schedule targets i v = None
     then rebuild_schedule_block_offsets env schedule targets recoveries network p g =
            Some (Inl ScheduleMissingRecoveryChild)
     else \<exists>offsets g'. rebuild_schedule_block_offsets env schedule targets recoveries network p g =
            Some (Inr (offsets, g'))
        \<and> length offsets = length recoveries \<and> gaps_within mx 0 (sort offsets))"
proof -
  let ?look = "\<lambda>(i, v). ok_or ScheduleMissingRecoveryChild
      (schedule_block_offset_for_part schedule targets i v)"
  have missing: "collect_results ?look rs = Inl ScheduleMissingRecoveryChild"
    if "\<exists>(i, v) \<in> set rs. schedule_block_offset_for_part schedule targets i v = None" for rs
    using that by (induction rs) (auto simp: rbind_eq_Inl ok_or_def split: option.splits)
  have present: "\<exists>ys. collect_results ?look rs = Inr ys"
    if "\<forall>(i, v) \<in> set rs. schedule_block_offset_for_part schedule targets i v \<noteq> None" for rs
    using that by (induction rs) auto
  let ?n = "length recoveries"
  have "0 < mean" "0 < mx" using schedule_parameters_valid [OF assms(2)] by simp_all
  then obtain offs g1 where offs: "random_schedule_block_offsets env ?n mean mx g = Some (offs, g1)"
    using random_offsets_return [OF assms(3)] by blast
  obtain slots g2 where slots: "shuffle_perm env ?n g1 = (slots, g2)" by fastforce
  let ?a = "assign_slots (replicate ?n 0) (zip slots offs)"
  note offs' = random_offsets_gaps [OF offs]
  have m: "mset ?a = mset offs"
    by (rule assign_slots_mset [OF shuffles_perm(1) [OF assms(1) slots] offs'(1)])
  have "sorted offs" using gaps_within_sorted [OF offs'(2)] by simp
  then have "sort ?a = offs" using m by (metis properties_for_sort)
  then show ?thesis
    using missing [of recoveries] present [of recoveries] offs offs' slots
    by (auto simp: rebuild_schedule_block_offsets_def assms(2) case_prod_unfold)
qed

theorem rebuilt_offsets_fresh_witness:
  "\<exists>offsets g'. rebuild_schedule_block_offsets counter_sampler
       [\<lparr>se_part_index = Some 0, se_value_zatoshi = 5000000, se_block_offset = 66\<rparr>]
       [5000000] [(0, 5000000)] Main Standard90Minutes 0 = Some (Inr (offsets, g'))
     \<and> length offsets = 1 \<and> gaps_within 576 0 (sort offsets)"
  using rebuilt_offsets_fresh [OF counter_sampler_shuffles _ counter_sampler_accepts,
      of Main Standard90Minutes 66 576 "[(0, 5000000)]"
        "[\<lparr>se_part_index = Some 0, se_value_zatoshi = 5000000, se_block_offset = 66\<rparr>]"
        "[5000000]" 0]
  by (simp add: const_defs schedule_block_offset_for_part_def)

end
