(* ===== verification/Preparation_Schedule.thy ===== *)
theory Preparation_Schedule
  imports Random_Source
begin

text \<open>
  The broadcast heights of the preparation transactions (\<open>migration/preparation_policy.rs\<close>, the
  functions \<open>preparation_delay_with_rng\<close> and \<open>planned_preparation_scheduled_heights\<close>, and
  \<open>denomination_confirmations_required\<close> of \<open>migration.rs\<close>). Stages are grouped into layers; a layer
  starts after the one before it has had time to confirm.
\<close>

section \<open>Operations\<close>

text \<open>
  \<open>ConfirmationsPolicy::default().trusted()\<close> is a \<open>NonZeroU32\<close> of the client library; its value is
  the parameter \<open>trusted\<close>.
\<close>

definition denomination_confirmations_required :: "u32 \<Rightarrow> u32" where
  "denomination_confirmations_required trusted = trusted"

definition preparation_delay ::
    "'g sampler \<Rightarrow> wallet_network \<Rightarrow> migration_timing_policy \<Rightarrow> usize \<Rightarrow> 'g delay_source" where
  "preparation_delay env network timing_policy transaction_count g =
     (let (mean_delay_blocks, max_delay_blocks) =
            preparation_schedule_parameters_for_transaction_count network timing_policy
              transaction_count
      in draw_delay env mean_delay_blocks max_delay_blocks g)"

text \<open>The inner loop: the stages of one layer, in the order they are broadcast.\<close>

fun assign_layer ::
    "'g delay_source \<Rightarrow> preparation_timing_policy \<Rightarrow> nat list \<Rightarrow> u32 \<Rightarrow> u32 list \<Rightarrow> 'g \<Rightarrow>
     (preparation_error + u32 \<times> u32 list \<times> 'g) option" where
  "assign_layer delay policy [] scheduled_height heights g =
     Some (Inr (scheduled_height, heights, g))"
| "assign_layer delay policy (stage # rest) scheduled_height heights g =
     (if policy = Zip318Spaced
      then Option.bind (delay g) (\<lambda>(d, g').
             case checked_add 32 scheduled_height d of
               None \<Rightarrow> Some (Inl PreparationScheduledHeightOverflow)
             | Some h \<Rightarrow> assign_layer delay policy rest h (heights[stage := h]) g')
      else assign_layer delay policy rest scheduled_height (heights[stage := scheduled_height]) g)"

definition layer_stages :: "usize list \<Rightarrow> usize \<Rightarrow> nat list" where
  "layer_stages stage_layers layer_index =
     filter (\<lambda>i. stage_layers ! i = layer_index) [0 ..< length stage_layers]"

text \<open>The stages of a layer, in whatever order the layer is broadcast.\<close>

definition layer_order ::
    "'g sampler \<Rightarrow> preparation_timing_policy \<Rightarrow> nat list \<Rightarrow> 'g \<Rightarrow> nat list \<times> 'g" where
  "layer_order env policy stages g =
     (if policy = Zip318Spaced
      then (let (perm, g') = shuffle_perm env (length stages) g in (apply_perm perm stages, g'))
      else (stages, g))"

text \<open>The outer loop, over the layer indices still to do.\<close>

fun layers_loop ::
    "'g sampler \<Rightarrow> 'g delay_source \<Rightarrow> u32 \<Rightarrow> preparation_timing_policy \<Rightarrow> usize list \<Rightarrow>
     nat list \<Rightarrow> u32 \<Rightarrow> u32 list \<Rightarrow> 'g \<Rightarrow> (preparation_error + u32 list \<times> 'g) option" where
  "layers_loop env delay trusted policy stage_layers [] layer_base heights g =
     Some (Inr (heights, g))"
| "layers_loop env delay trusted policy stage_layers (layer # layers) layer_base heights g =
     (let stages = layer_stages stage_layers layer in
      if stages = [] then Some (Inl (PreparationMissingLayer layer))
      else
        let (stages', g') = layer_order env policy stages g
        in Option.bind (assign_layer delay policy stages' layer_base heights g') (\<lambda>r.
             case r of
               Inl e \<Rightarrow> Some (Inl e)
             | Inr (scheduled_height, heights', g'') \<Rightarrow>
                 (case checked_add 32 scheduled_height
                         (denomination_confirmations_required trusted) of
                    None \<Rightarrow> Some (Inl PreparationLayerHeightOverflow)
                  | Some base' \<Rightarrow>
                      layers_loop env delay trusted policy stage_layers layers base' heights' g'')))"

definition planned_preparation_scheduled_heights ::
    "'g sampler \<Rightarrow> u32 \<Rightarrow> wallet_network \<Rightarrow> preparation_timing_policy \<Rightarrow>
     migration_timing_policy \<Rightarrow> u32 \<Rightarrow> usize list \<Rightarrow> 'g \<Rightarrow>
     (preparation_error + u32 list \<times> 'g) option" where
  "planned_preparation_scheduled_heights env trusted network preparation_policy timing_policy
       target_height stage_layers g =
     (if stage_layers = [] then Some (Inr ([], g))
      else layers_loop env
             (preparation_delay env network timing_policy (length stage_layers)) trusted
             preparation_policy stage_layers [0 ..< Suc (Max (set stage_layers))]
             (saturating_sub target_height 1) (replicate (length stage_layers) 0) g)"

section \<open>The delays of preparation transactions\<close>

lemma preparation_delay_le:
  "preparation_delay env network p n g = Some (d, g') \<Longrightarrow> d \<le> 96"
  using preparation_parameters_valid(3) [of network p n]
  by (auto simp: preparation_delay_def split: prod.splits dest: draw_delay_le)

interpretation preparation_delays: bounded_delay "preparation_delay env network p n" 96
  for env network p n
  by unfold_locales (rule preparation_delay_le)

section \<open>One layer\<close>

lemma layer_stages_set: "set (layer_stages ls layer) = {i. i < length ls \<and> ls ! i = layer}"
  by (auto simp: layer_stages_def)

lemma layer_stages_distinct: "distinct (layer_stages ls layer)"
  by (simp add: layer_stages_def)

text \<open>
  What one layer does to the heights: its stages lie between the base and the last height used, in
  the policy's distance, and the other stages keep their heights.
\<close>

definition layer_assigned :: "u32 \<Rightarrow> nat set \<Rightarrow> u32 \<Rightarrow> u32 list \<Rightarrow> u32 \<Rightarrow> u32 list \<Rightarrow> bool" where
  "layer_assigned step stages base heights final heights' \<longleftrightarrow>
     length heights' = length heights \<and> base \<le> final \<and> final \<le> base + step * card stages
     \<and> (\<forall>i \<in> stages. base \<le> heights' ! i \<and> heights' ! i \<le> final)
     \<and> (\<forall>i. i \<notin> stages \<longrightarrow> heights' ! i = heights ! i)"

context bounded_delay
begin

lemma assign_layer_spaced:
  assumes "assign_layer delay Zip318Spaced stages base heights g = Some (Inr (final, heights', g'))"
    and "distinct stages" and "set stages \<subseteq> {..< length heights}"
  shows "layer_assigned mx (set stages) base heights final heights'"
  using assms
proof (induction stages arbitrary: base heights g)
  case Nil
  then show ?case by (simp add: layer_assigned_def)
next
  case (Cons s stages)
  then obtain d g1 where d: "delay g = Some (d, g1)"
      and rest: "assign_layer delay Zip318Spaced stages (base + d) (heights[s := base + d]) g1 =
        Some (Inr (final, heights', g'))"
    by (auto simp: Option.bind_eq_Some_conv split: option.splits)
  have IH: "layer_assigned mx (set stages) (base + d) (heights[s := base + d]) final heights'"
    using Cons.IH [OF rest] Cons.prems(2,3) by simp
  have "s \<notin> set stages" and "s < length heights" using Cons.prems(2,3) by auto
  then have "heights' ! s = base + d" using IH by (simp add: layer_assigned_def)
  with IH \<open>s \<notin> set stages\<close> show ?case
    using delay_le [OF d] by (force simp: layer_assigned_def)
qed

end

lemma assign_layer_immediate:
  assumes "assign_layer delay Immediate stages base heights g = Some (Inr (final, heights', g'))"
    and "distinct stages" and "set stages \<subseteq> {..< length heights}"
  shows "layer_assigned 0 (set stages) base heights final heights'"
  using assms
proof (induction stages arbitrary: heights)
  case (Cons s stages)
  have "layer_assigned 0 (set stages) base (heights[s := base]) final heights'"
    using Cons.IH [of "heights[s := base]"] Cons.prems by simp
  moreover have "s \<notin> set stages" and "s < length heights" using Cons.prems(2,3) by auto
  ultimately show ?case by (force simp: layer_assigned_def)
qed (simp add: layer_assigned_def)

definition policy_step :: "preparation_timing_policy \<Rightarrow> u32 \<Rightarrow> u32" where
  "policy_step policy mx = (if policy = Zip318Spaced then mx else 0)"

section \<open>All layers\<close>

text \<open>
  The state between two layers: every stage of a finished layer is at least \<open>trusted\<close> below the next
  base, any two finished layers are at least \<open>trusted\<close> apart, and no height is later than the delays
  drawn so far explain.
\<close>

definition stages_below :: "usize list \<Rightarrow> nat \<Rightarrow> nat set" where
  "stages_below ls k = {i. i < length ls \<and> ls ! i < k}"

definition layers_done ::
    "u32 \<Rightarrow> u32 \<Rightarrow> usize list \<Rightarrow> u32 \<Rightarrow> nat \<Rightarrow> u32 \<Rightarrow> u32 list \<Rightarrow> bool" where
  "layers_done trusted step ls start k base heights \<longleftrightarrow>
     length heights = length ls
     \<and> start + trusted * k \<le> base \<and> base \<le> start + trusted * k + step * card (stages_below ls k)
     \<and> (\<forall>i \<in> stages_below ls k. start + trusted * (ls ! i) \<le> heights ! i
          \<and> heights ! i \<le> start + trusted * (ls ! i) + step * length ls
          \<and> heights ! i + trusted \<le> base)
     \<and> (\<forall>i \<in> stages_below ls k. \<forall>j \<in> stages_below ls k. ls ! i < ls ! j \<longrightarrow>
          heights ! i + trusted \<le> heights ! j)"

lemma stages_below_finite [simp]: "finite (stages_below ls k)"
  by (simp add: stages_below_def)

lemma stages_below_card: "card (stages_below ls k) \<le> length ls"
  using card_mono [of "{..< length ls}" "stages_below ls k"] by (auto simp: stages_below_def)

lemma stages_below_Suc: "stages_below ls (Suc k) = stages_below ls k \<union> set (layer_stages ls k)"
  by (auto simp: stages_below_def layer_stages_set less_Suc_eq)

lemma card_stages_below_Suc:
  "card (stages_below ls (Suc k)) = card (stages_below ls k) + card (set (layer_stages ls k))"
  unfolding stages_below_Suc
  by (rule card_Un_disjoint) (auto simp: stages_below_def layer_stages_set)

lemma layers_done_step:
  assumes inv: "layers_done trusted step ls start k base heights"
    and new: "layer_assigned step (set (layer_stages ls k)) base heights final heights'"
  shows "layers_done trusted step ls start (Suc k) (final + trusted) heights'"
proof -
  let ?B = "stages_below ls k" and ?S = "set (layer_stages ls k)"
  have len: "length heights' = length ls"
    and base: "start + trusted * k \<le> base" "base \<le> start + trusted * k + step * card ?B"
      "base \<le> final" "final \<le> base + step * card ?S"
    using inv new by (auto simp: layers_done_def layer_assigned_def)
  have fin: "final \<le> start + trusted * k + step * card (stages_below ls (Suc k))"
    using base by (simp add: card_stages_below_Suc algebra_simps)
  have fin': "final \<le> start + trusted * k + step * length ls"
    using fin mult_le_mono2 [OF stages_below_card, of step ls "Suc k"] by linarith
  have old: "heights' ! i = heights ! i" if "i \<in> ?B" for i
    using new that by (auto simp: layer_assigned_def stages_below_def layer_stages_set)
  have fresh: "base \<le> heights' ! i" "heights' ! i \<le> final" "ls ! i = k" if "i \<in> ?S" for i
    using new that by (auto simp: layer_assigned_def layer_stages_set)
  have one: "start + trusted * (ls ! i) \<le> heights' ! i
      \<and> heights' ! i \<le> start + trusted * (ls ! i) + step * length ls
      \<and> heights' ! i + trusted \<le> final + trusted" if "i \<in> ?B \<union> ?S" for i
  proof (cases "i \<in> ?S")
    case True
    then show ?thesis using fresh [OF True] base fin' by simp
  next
    case False
    then have "i \<in> ?B" using that by simp
    then show ?thesis using inv old base(3) by (force simp: layers_done_def)
  qed
  have two: "heights' ! i + trusted \<le> heights' ! j"
    if "i \<in> ?B \<union> ?S" "j \<in> ?B \<union> ?S" "ls ! i < ls ! j" for i j
  proof -
    have i: "i \<in> ?B" using that by (auto simp: stages_below_def layer_stages_set)
    show ?thesis
    proof (cases "j \<in> ?S")
      case True
      then show ?thesis using fresh(1) [OF True] inv old [OF i] i by (force simp: layers_done_def)
    next
      case False
      then show ?thesis using that i inv old by (auto simp: layers_done_def)
    qed
  qed
  show ?thesis
    unfolding layers_done_def stages_below_Suc
    using len base fin one two by (simp add: stages_below_Suc)
qed

lemma layer_order_mset:
  assumes "shuffles env" and "layer_order env policy stages g = (stages', g')"
  shows "mset stages' = mset stages"
  using assms shuffles_mset [OF assms(1), of stages g]
  by (auto simp: layer_order_def split: if_splits prod.splits)

lemma layer_order_stages:
  assumes "shuffles env" and "layer_order env policy (layer_stages ls k) g = (stages, g')"
  shows "distinct stages" and "set stages = set (layer_stages ls k)"
proof -
  have m: "mset stages = mset (layer_stages ls k)" using assms by (rule layer_order_mset)
  show "distinct stages" using m layer_stages_distinct mset_eq_imp_distinct_iff by blast
  show "set stages = set (layer_stages ls k)" using m by (metis set_mset_mset)
qed

lemma policy_cases: "policy = Zip318Spaced \<or> policy = Immediate"
  by (cases policy) simp_all

context bounded_delay
begin

lemma assign_layer_assigned:
  assumes "assign_layer delay policy stages base heights g = Some (Inr (final, heights', g'))"
    and "distinct stages" and "set stages \<subseteq> {..< length heights}"
  shows "layer_assigned (policy_step policy mx) (set stages) base heights final heights'"
  using policy_cases [of policy] assms assign_layer_spaced assign_layer_immediate
  by (auto simp: policy_step_def)

lemma assign_layer_succeeds:
  assumes "delay_returns delay" and "base + policy_step policy mx * length stages < 2 ^ 32"
  shows "\<exists>r. assign_layer delay policy stages base heights g = Some (Inr r)"
  using assms(2)
proof (induction stages arbitrary: base heights g)
  case (Cons s stages)
  obtain d g' where d: "delay g = Some (d, g')" using assms(1) unfolding delay_returns_def by blast
  have "policy_step policy mx = mx" if "policy = Zip318Spaced" using that by (simp add: policy_step_def)
  then show ?case using Cons.IH Cons.prems d delay_le [OF d] by (auto split: option.splits)
qed simp

lemma layers_loop_done:
  assumes "shuffles env" and "k \<le> n"
    and "layers_done trusted (policy_step policy mx) ls start k base heights"
    and "layers_loop env delay trusted policy ls [k ..< n] base heights g = Some (Inr (heights', g'))"
  shows "\<exists>base'. layers_done trusted (policy_step policy mx) ls start n base' heights'"
  using assms(2-4)
proof (induction "n - k" arbitrary: k base heights g)
  case (Suc m)
  then have upt: "[k ..< n] = k # [Suc k ..< n]" by (simp add: upt_conv_Cons)
  obtain stages g1 where ord: "layer_order env policy (layer_stages ls k) g = (stages, g1)"
    by fastforce
  obtain final h g2 where al: "assign_layer delay policy stages base heights g1 = Some (Inr (final, h, g2))"
      and rest: "layers_loop env delay trusted policy ls [Suc k ..< n] (final + trusted) h g2 =
        Some (Inr (heights', g'))"
    using Suc.prems(3) unfolding upt
    by (cases "assign_layer delay policy stages base heights g1")
       (auto simp: ord Let_def denomination_confirmations_required_def
        split: if_splits sum.split_asm option.split_asm)
  note st = layer_order_stages [OF assms(1) ord]
  have "set stages \<subseteq> {..< length heights}"
    using st(2) Suc.prems(2) by (auto simp: layer_stages_set layers_done_def)
  from layers_done_step [OF Suc.prems(2)] assign_layer_assigned [OF al st(1) this]
  have "layers_done trusted (policy_step policy mx) ls start (Suc k) (final + trusted) h"
    by (simp add: st(2))
  with rest Suc.hyps show ?case by (intro Suc.hyps(1) [of "Suc k"]) auto
qed auto

lemma layers_loop_total:
  assumes "shuffles env" and "delay_returns delay" and "k \<le> n"
    and "layers_done trusted (policy_step policy mx) ls start k base heights"
    and "start + trusted * n + policy_step policy mx * length ls < 2 ^ 32"
  shows "\<exists>r. layers_loop env delay trusted policy ls [k ..< n] base heights g = Some r
     \<and> (case r of Inl e \<Rightarrow> \<exists>m. e = PreparationMissingLayer m \<and> k \<le> m \<and> m < n \<and> m \<notin> set ls
                        \<and> {k ..< m} \<subseteq> set ls
        | Inr _ \<Rightarrow> {k ..< n} \<subseteq> set ls)"
  using assms(3,4)
proof (induction "n - k" arbitrary: k base heights g)
  case (Suc m)
  let ?step = "policy_step policy mx" and ?S = "layer_stages ls k"
  from Suc have upt: "[k ..< n] = k # [Suc k ..< n]" and "k < n" by (simp_all add: upt_conv_Cons)
  show ?case
  proof (cases "?S = []")
    case True
    then have "k \<notin> set ls" using layer_stages_set [of ls k] by (auto simp: in_set_conv_nth)
    with True \<open>k < n\<close> show ?thesis by (simp add: upt)
  next
    case False
    then obtain i where "i \<in> set ?S" by (cases ?S) auto
    then have here: "k \<in> set ls" by (auto simp: layer_stages_set)
    obtain stages g1 where ord: "layer_order env policy ?S g = (stages, g1)" by fastforce
    note st = layer_order_stages [OF assms(1) ord]
    have len: "length stages = card (set ?S)" using st by (metis distinct_card)
    have "trusted * Suc k \<le> trusted * n" using \<open>k < n\<close> by (intro mult_le_mono2) simp
    moreover have "?step * card (stages_below ls (Suc k)) \<le> ?step * length ls"
      by (intro mult_le_mono2 stages_below_card)
    ultimately have room: "base + ?step * length stages + trusted < 2 ^ 32"
      using Suc.prems(2) assms(5) by (simp add: layers_done_def card_stages_below_Suc len algebra_simps)
    then obtain final h g2 where
        al: "assign_layer delay policy stages base heights g1 = Some (Inr (final, h, g2))"
      using assign_layer_succeeds [OF assms(2), of base policy stages heights g1] by auto
    have sub: "set stages \<subseteq> {..< length heights}"
      using st(2) Suc.prems(2) by (auto simp: layer_stages_set layers_done_def)
    have la: "layer_assigned ?step (set ?S) base heights final h"
      using assign_layer_assigned [OF al st(1) sub] by (simp add: st(2))
    then have "final + trusted < 2 ^ 32" using room len by (simp add: layer_assigned_def)
    then have loop: "layers_loop env delay trusted policy ls [k ..< n] base heights g =
        layers_loop env delay trusted policy ls [Suc k ..< n] (final + trusted) h g2"
      using False by (simp add: upt ord al checked_add_def denomination_confirmations_required_def)
    have "{k ..< j} = insert k {Suc k ..< j}" if "k < j" for j using that by auto
    then show ?thesis
      using Suc.hyps(1) [of "Suc k" "final + trusted" h g2] Suc.hyps(2) \<open>k < n\<close>
        layers_done_step [OF Suc.prems(2) la] here
      unfolding loop by (fastforce split: sum.splits)
  qed
qed (auto intro: exI [of _ "Inr (heights, g)"])

end

section \<open>The schedule of a preparation\<close>

lemma layers_done_start:
  "layers_done trusted step ls start 0 start (replicate (length ls) 0)"
  by (simp add: layers_done_def stages_below_def)

lemma all_stages_below: "i < length ls \<Longrightarrow> i \<in> stages_below ls (Suc (Max (set ls)))"
  by (simp add: stages_below_def less_Suc_eq_le)

text \<open>
  C40. The drawn heights respect the layers: one height per stage, a stage of a later layer at least
  the required confirmations after every stage of an earlier layer, and every stage between the start
  of its layer, \<open>target_height - 1\<close> plus the confirmations of the layers before it, and that start plus
  96 blocks per transaction. With the immediate policy the height is exactly the start of the layer.
\<close>

theorem preparation_heights_layered:
  assumes "shuffles env"
    and "planned_preparation_scheduled_heights env trusted network policy p target stage_layers g =
           Some (Inr (heights, g'))"
  shows "length heights = length stage_layers
     \<and> (\<forall>i < length stage_layers. \<forall>j < length stage_layers. stage_layers ! i < stage_layers ! j \<longrightarrow>
          heights ! i + denomination_confirmations_required trusted \<le> heights ! j)
     \<and> (\<forall>i < length stage_layers.
          let start = target - 1 + denomination_confirmations_required trusted * (stage_layers ! i)
          in start \<le> heights ! i
             \<and> heights ! i \<le> start + (if policy = Immediate then 0 else 96 * length stage_layers))"
proof (cases "stage_layers = []")
  case True
  then show ?thesis using assms(2) by (simp add: planned_preparation_scheduled_heights_def)
next
  case False
  let ?n = "Suc (Max (set stage_layers))"
  have "layers_loop env (preparation_delay env network p (length stage_layers)) trusted policy
      stage_layers [0 ..< ?n] (target - 1) (replicate (length stage_layers) 0) g =
      Some (Inr (heights, g'))"
    using assms(2) False
    by (simp add: planned_preparation_scheduled_heights_def saturating_sub_def del: upt_Suc)
  from preparation_delays.layers_loop_done [OF assms(1) _ layers_done_start this]
  obtain base where "layers_done trusted (policy_step policy 96) stage_layers (target - 1) ?n base heights"
    by auto
  then show ?thesis
    using all_stages_below [of _ stage_layers] policy_cases [of policy]
    by (auto simp: layers_done_def denomination_confirmations_required_def policy_step_def Let_def)
qed

text \<open>
  Drawing the heights returns whenever the sampler keeps accepting and the heights cannot leave
  \<open>u32\<close>: the result is a schedule when every layer up to the last one has a stage, and otherwise the
  error that names the first layer with none.
\<close>

theorem preparation_heights_returns:
  assumes "shuffles env"
    and "preparation_schedule_parameters_for_transaction_count network p (length stage_layers) = (mean, mx)"
    and "always_accepts env mean mx"
    and "target + denomination_confirmations_required trusted * Suc (Max (set stage_layers))
           + 96 * length stage_layers < 2 ^ 32"
  shows "\<exists>r. planned_preparation_scheduled_heights env trusted network policy p target stage_layers g =
       Some r
     \<and> (case r of Inl e \<Rightarrow> \<exists>m < Max (set stage_layers). e = PreparationMissingLayer m
             \<and> m \<notin> set stage_layers \<and> {0 ..< m} \<subseteq> set stage_layers
        | Inr _ \<Rightarrow> stage_layers = [] \<or> {0 .. Max (set stage_layers)} \<subseteq> set stage_layers)"
proof (cases "stage_layers = []")
  case True
  then show ?thesis by (simp add: planned_preparation_scheduled_heights_def)
next
  case False
  let ?d = "preparation_delay env network p (length stage_layers)"
  let ?n = "Suc (Max (set stage_layers))"
  have live: "delay_returns ?d"
    using draw_delay_live [OF assms(3)] by (simp add: delay_returns_def preparation_delay_def assms(2))
  have room: "target - 1 + trusted * ?n + policy_step policy 96 * length stage_layers < 2 ^ 32"
    using assms(4) by (auto simp: policy_step_def denomination_confirmations_required_def)
  have "Max (set stage_layers) \<in> set stage_layers" using False by simp
  then have last: "m < Max (set stage_layers)" if "m \<notin> set stage_layers" "m < ?n" for m
    using that by (cases "m = Max (set stage_layers)") auto
  have "{0 ..< ?n} = {0 .. Max (set stage_layers)}" by auto
  with preparation_delays.layers_loop_total [OF assms(1) live _ layers_done_start room, of g]
  show ?thesis using False last
    by (fastforce simp: planned_preparation_scheduled_heights_def saturating_sub_def
        simp del: upt_Suc split: sum.splits)
qed

text \<open>Two layers of stages on the main network, drawn with the concrete sampler.\<close>

lemma counter_sampler_preparation:
  "planned_preparation_scheduled_heights counter_sampler 3 Main Zip318Spaced Standard 100 [0, 1, 0] 0 =
     Some (Inr ([115, 150, 131], 3))"
  by (simp add: planned_preparation_scheduled_heights_def layer_order_def layer_stages_def
      preparation_delay_def preparation_schedule_parameters_for_transaction_count_def const_defs
      counter_sampler_draw counter_sampler_perm apply_perm_def saturating_sub_def checked_add_def
      denomination_confirmations_required_def upt_rec Let_def)

theorem preparation_heights_layered_witness:
  "shuffles counter_sampler
   \<and> planned_preparation_scheduled_heights counter_sampler 3 Main Zip318Spaced Standard 100 [0, 1, 0] 0 =
       Some (Inr ([115, 150, 131], 3))
   \<and> [115, 150, 131] ! 2 + denomination_confirmations_required 3 \<le> [115, 150, 131] ! 1
   \<and> 99 + denomination_confirmations_required 3 * 1 \<le> [115, 150, 131] ! 1
   \<and> [115, 150, 131] ! 1 \<le> 99 + denomination_confirmations_required 3 * 1 + 96 * 3"
  using preparation_heights_layered [OF counter_sampler_shuffles counter_sampler_preparation]
    counter_sampler_shuffles counter_sampler_preparation
  by (simp add: Let_def denomination_confirmations_required_def)

theorem preparation_heights_returns_witness:
  "\<exists>r. planned_preparation_scheduled_heights counter_sampler 3 Main Zip318Spaced Standard 100
       [0, 2, 0] 0 = Some r
     \<and> (case r of Inl e \<Rightarrow> \<exists>m < Max (set [0, 2, 0]). e = PreparationMissingLayer m
             \<and> m \<notin> set [0, 2, 0] \<and> {0 ..< m} \<subseteq> set [0, 2, 0]
        | Inr _ \<Rightarrow> [0, 2, 0] = ([] :: nat list) \<or> {0 .. Max (set [0, 2, 0])} \<subseteq> set [0, 2, 0 :: nat])"
proof (rule preparation_heights_returns [OF counter_sampler_shuffles])
  show "preparation_schedule_parameters_for_transaction_count Main Standard (length [0, 2, 0 :: nat]) =
      (16, 96)"
    by (simp add: preparation_schedule_parameters_for_transaction_count_def const_defs)
qed (simp_all add: counter_sampler_accepts denomination_confirmations_required_def)

end
