(* ===== verification/Preparation_Plan.thy ===== *)
theory Preparation_Plan
  imports Prelude
begin

text \<open>
  The note-preparation planner (\<open>migration/preparation_plan.rs\<close>): the transactions that turn the
  wallet's notes into the requested funding notes. Values are zatoshi amounts. The conversion \<open>zat\<close>
  to \<open>Zatoshis\<close>, which panics above the money supply, is left out: amounts stay plain numbers here, and
  that those of a plan that is returned are in range is a theorem of \<open>Preparation_Value\<close>. The sums of
  amounts are not reduced to 64 bits; \<open>subtree_cost_fits\<close> of \<open>Preparation_Complete\<close> shows that for the
  fees in use the largest of them fits.
\<close>

section \<open>Data\<close>

definition MAX_MONEY :: u64 where
  [const_defs]: "MAX_MONEY = 21000000 * 100000000"

definition PREP_TX_ACTIONS :: usize where
  [const_defs]: "PREP_TX_ACTIONS = 16"

definition FUNDING_OUTPUTS_PER_TX :: usize where
  [const_defs]: "FUNDING_OUTPUTS_PER_TX = PREP_TX_ACTIONS - 2"

definition CONSOLIDATION_INPUTS_PER_TX :: usize where
  [const_defs]: "CONSOLIDATION_INPUTS_PER_TX = PREP_TX_ACTIONS - 1"

datatype prep_input =
  is_Wallet: Wallet (wallet_index: usize) (input_value: u64)
  | is_Prior: Prior (prior_layer: usize) (prior_transaction: usize) (prior_output: usize) (input_value: u64)

datatype prep_output =
  Funding (output_value: u64) | Intermediate (output_value: u64)
  | is_Change: Change (output_value: u64)

datatype parse_prep_output_error = ParsePrepOutputError

definition prep_output_from_role ::
    "string \<Rightarrow> u64 \<Rightarrow> parse_prep_output_error + prep_output" where
  "prep_output_from_role role v =
     (if role = ''funding'' then Inr (Funding v)
      else if role = ''intermediate'' then Inr (Intermediate v)
      else if role = ''change'' then Inr (Change v)
      else Inl ParsePrepOutputError)"

fun prep_output_role :: "prep_output \<Rightarrow> string" where
  "prep_output_role (Funding v) = ''funding''"
| "prep_output_role (Intermediate v) = ''intermediate''"
| "prep_output_role (Change v) = ''change''"

record prep_transaction =
  inputs :: "prep_input list"
  outputs :: "prep_output list"

definition prep_tx :: "prep_input list \<Rightarrow> prep_output list \<Rightarrow> prep_transaction" where
  "prep_tx ins outs = \<lparr>inputs = ins, outputs = outs\<rparr>"

definition action_count :: "prep_transaction \<Rightarrow> usize" where
  "action_count tx = length (inputs tx) + length (outputs tx)"

record preparation_plan =
  layers :: "prep_transaction list list"
  direct_funding :: "(usize \<times> u64) list"

definition plan_from_parts ::
    "prep_transaction list list \<Rightarrow> (usize \<times> u64) list \<Rightarrow> preparation_plan" where
  "plan_from_parts ls direct = \<lparr>layers = ls, direct_funding = direct\<rparr>"

definition layer_count :: "preparation_plan \<Rightarrow> usize" where
  "layer_count plan = length (layers plan)"

definition transaction_count :: "preparation_plan \<Rightarrow> usize" where
  "transaction_count plan = sum_list (map length (layers plan))"

definition all_outputs :: "prep_transaction list list \<Rightarrow> prep_output list" where
  "all_outputs ls = concat (map outputs (concat ls))"

fun funding_value :: "prep_output \<Rightarrow> u64 list" where
  "funding_value (Funding v) = [v]"
| "funding_value _ = []"

fun change_value :: "prep_output \<Rightarrow> u64 list" where
  "change_value (Change v) = [v]"
| "change_value _ = []"

definition funding_notes :: "preparation_plan \<Rightarrow> u64 list" where
  "funding_notes plan =
     concat (map funding_value (all_outputs (layers plan))) @ map snd (direct_funding plan)"

definition residual_notes :: "preparation_plan \<Rightarrow> u64 list" where
  "residual_notes plan = concat (map change_value (all_outputs (layers plan)))"

definition residual_count :: "preparation_plan \<Rightarrow> usize" where
  "residual_count plan = length (residual_notes plan)"

datatype prep_error = InsufficientFunds | BalanceInvalid

section \<open>Sorting notes\<close>

text \<open>
  \<open>sort_unstable_by_key(|n| Reverse(n.value()))\<close> leaves the order of notes of equal value open. The
  argument \<open>pick\<close> stands for the library's choice: any function is allowed, and its answer is used
  whenever it is a descending rearrangement; so a statement for every \<open>pick\<close> covers every order that
  the sort may produce.
\<close>

type_synonym note_order = "prep_input list \<Rightarrow> prep_input list"

definition descending :: "prep_input list \<Rightarrow> bool" where
  "descending xs \<longleftrightarrow> sorted_wrt (\<lambda>a b. input_value b \<le> input_value a) xs"

definition sort_unstable_desc :: "note_order \<Rightarrow> prep_input list \<Rightarrow> prep_input list" where
  "sort_unstable_desc pick xs =
     (let ys = pick xs in
      if mset ys = mset xs \<and> descending ys then ys else rev (sort_key input_value (rev xs)))"

text \<open>The contract of the sort, which is all that the planner's correctness rests on.\<close>

locale note_sort =
  fixes srt :: "prep_input list \<Rightarrow> prep_input list"
  assumes srt_mset [simp]: "mset (srt xs) = mset xs" and srt_descending: "descending (srt xs)"
begin

lemma srt_set [simp]: "set (srt xs) = set xs"
  using arg_cong [OF srt_mset [of xs], of set_mset] by (simp only: set_mset_mset)

lemma srt_length [simp]: "length (srt xs) = length xs"
  using arg_cong [OF srt_mset [of xs], of size] by (simp only: size_mset)

lemma srt_Nil_iff [simp]: "srt xs = [] \<longleftrightarrow> xs = []"
  using srt_length [of xs] by (metis length_0_conv)

lemma srt_head_max:
  assumes "srt xs = y # ys" and "x \<in> set xs"
  shows "input_value x \<le> input_value y"
proof -
  have "x \<in> set (y # ys)" using assms by (metis srt_set)
  then show ?thesis using srt_descending [of xs] assms(1) by (auto simp: descending_def)
qed

end

lemma descending_stable: "descending (rev (sort_key input_value xs))"
  using sorted_sort_key [of input_value xs]
  by (simp add: descending_def sorted_wrt_rev sorted_map)

interpretation note_sorting: note_sort "sort_unstable_desc pick" for pick
  by unfold_locales (simp_all add: sort_unstable_desc_def Let_def descending_stable)

section \<open>Direct funding\<close>

text \<open>\<open>position\<close> over the unused indices.\<close>

definition find_unused :: "u64 list \<Rightarrow> bool list \<Rightarrow> u64 \<Rightarrow> usize option" where
  "find_unused available used funding =
     find (\<lambda>i. \<not> used ! i \<and> available ! i = funding) [0 ..< length available]"

text \<open>The \<open>retain\<close> closure: the used flags, the values kept and the direct funding notes.\<close>

fun retain_unfunded ::
    "u64 list \<Rightarrow> bool list \<Rightarrow> u64 list \<Rightarrow> bool list \<times> u64 list \<times> (usize \<times> u64) list" where
  "retain_unfunded available used [] = (used, [], [])"
| "retain_unfunded available used (funding # rest) =
     (case find_unused available used funding of
        Some index \<Rightarrow>
          (let (used', kept, direct) = retain_unfunded available (used[index := True]) rest
           in (used', kept, (index, funding) # direct))
      | None \<Rightarrow>
          (let (used', kept, direct) = retain_unfunded available used rest
           in (used', funding # kept, direct)))"

definition extract_direct_funding ::
    "u64 list \<Rightarrow> u64 list \<Rightarrow> bool list \<times> u64 list \<times> (usize \<times> u64) list" where
  "extract_direct_funding available remaining =
     retain_unfunded available (replicate (length available) False) remaining"

section \<open>Consolidation\<close>

function consolidation_batch_sizes :: "usize \<Rightarrow> usize list" where
  "consolidation_batch_sizes n =
     (if n = 0 then []
      else let take = (if n \<le> CONSOLIDATION_INPUTS_PER_TX then n
                       else if n - CONSOLIDATION_INPUTS_PER_TX = 1
                       then CONSOLIDATION_INPUTS_PER_TX - 1
                       else CONSOLIDATION_INPUTS_PER_TX)
           in take # consolidation_batch_sizes (n - take))"

  by pat_completeness auto
termination
  by (relation "measure id") (auto simp: const_defs)

declare consolidation_batch_sizes.simps [simp del]

text \<open>
  The batches of one consolidation: the transactions so far (their number is the next transaction
  index), the feeders and the notes left over.
\<close>

fun consolidate_batches ::
    "usize \<Rightarrow> u64 \<Rightarrow> usize list \<Rightarrow> prep_input list \<Rightarrow> prep_transaction list \<Rightarrow> prep_input list \<Rightarrow>
     prep_input list \<Rightarrow> prep_transaction list \<times> prep_input list \<times> prep_input list" where
  "consolidate_batches layer fee [] pool txs next leftover = (txs, next, leftover)"
| "consolidate_batches layer fee (sz # sizes) pool txs next leftover =
     (let batch = take sz pool; pool' = drop sz pool;
          total_in = sum_list (map input_value batch)
      in if total_in \<le> fee then consolidate_batches layer fee sizes pool' txs next (leftover @ batch)
         else let feeder = total_in - fee
              in consolidate_batches layer fee sizes pool'
                   (txs @ [prep_tx batch [Intermediate feeder]])
                   (next @ [Prior layer (length txs) 0 feeder]) leftover)"

definition consolidate ::
    "note_order \<Rightarrow> prep_input list \<Rightarrow> usize \<Rightarrow> u64 \<Rightarrow> prep_transaction list \<Rightarrow> prep_input list \<Rightarrow>
     prep_transaction list \<times> prep_input list \<times> prep_input list" where
  "consolidate pick pool layer fee txs next =
     (if length pool < 2 then (txs, next, pool)
      else consolidate_batches layer fee (consolidation_batch_sizes (length pool))
             (sort_unstable_desc pick pool) txs next [])"

section \<open>Feeders\<close>

text \<open>The feeder references of one transaction, one layer and the whole schedule.\<close>

fun output_feeder :: "usize \<Rightarrow> usize \<Rightarrow> usize \<times> prep_output \<Rightarrow> prep_input list" where
  "output_feeder li ti (oi, Intermediate v) = [Prior li ti oi v]"
| "output_feeder li ti (oi, _) = []"

definition tx_feeders :: "usize \<Rightarrow> usize \<Rightarrow> prep_transaction \<Rightarrow> prep_input list" where
  "tx_feeders li ti tx = concat (map (output_feeder li ti) (enumerate 0 (outputs tx)))"

definition layer_feeders :: "usize \<Rightarrow> prep_transaction list \<Rightarrow> prep_input list" where
  "layer_feeders li txs = concat (map (\<lambda>(ti, tx). tx_feeders li ti tx) (enumerate 0 txs))"

definition all_feeders :: "prep_transaction list list \<Rightarrow> prep_input list" where
  "all_feeders ls = concat (map (\<lambda>(li, txs). layer_feeders li txs) (enumerate 0 ls))"

fun input_ref :: "prep_input \<Rightarrow> (usize \<times> usize \<times> usize) list" where
  "input_ref (Wallet i v) = []"
| "input_ref (Prior l t oi v) = [(l, t, oi)]"

definition all_inputs :: "prep_transaction list list \<Rightarrow> prep_input list" where
  "all_inputs ls = concat (map inputs (concat ls))"

definition spent_refs :: "prep_transaction list list \<Rightarrow> (usize \<times> usize \<times> usize) list" where
  "spent_refs ls = concat (map input_ref (all_inputs ls))"

definition unconsumed_feeders :: "prep_transaction list list \<Rightarrow> prep_input list" where
  "unconsumed_feeders ls =
     (let spent = spent_refs ls in
      filter (\<lambda>f. (prior_layer f, prior_transaction f, prior_output f) \<notin> set spent)
        (all_feeders ls))"

text \<open>The final pass: a feeder that nothing spends is change.\<close>

fun relabel_output ::
    "(usize \<times> usize \<times> usize) list \<Rightarrow> usize \<Rightarrow> usize \<Rightarrow> usize \<times> prep_output \<Rightarrow> prep_output" where
  "relabel_output spent li ti (oi, Intermediate v) =
     (if (li, ti, oi) \<in> set spent then Intermediate v else Change v)"
| "relabel_output spent li ti (oi, out) = out"

definition relabel_tx ::
    "(usize \<times> usize \<times> usize) list \<Rightarrow> usize \<Rightarrow> usize \<times> prep_transaction \<Rightarrow> prep_transaction" where
  "relabel_tx spent li itx =
     (snd itx)\<lparr>outputs := map (relabel_output spent li (fst itx)) (enumerate 0 (outputs (snd itx)))\<rparr>"

definition relabel_change :: "prep_transaction list list \<Rightarrow> prep_transaction list list" where
  "relabel_change ls =
     (let spent = spent_refs ls in
      map (\<lambda>(li, txs). map (relabel_tx spent li) (enumerate 0 txs)) (enumerate 0 ls))"

section \<open>The balanced split\<close>

definition subtree_capacity :: "usize \<Rightarrow> usize" where
  "subtree_capacity depth = FUNDING_OUTPUTS_PER_TX ^ depth"

lemma subtree_capacity_gt: "n < subtree_capacity n"
  unfolding subtree_capacity_def by (rule power_gt_expt) (simp add: const_defs)

function split_depth_loop :: "usize \<Rightarrow> usize \<Rightarrow> usize" where
  "split_depth_loop n depth =
     (if subtree_capacity depth < n then split_depth_loop n (depth + 1) else depth)"
  by pat_completeness auto
termination
proof (relation "measure (\<lambda>(n, depth). n - depth)")
  fix n depth :: usize
  assume "subtree_capacity depth < n"
  then have "depth < n" using subtree_capacity_gt [of depth] by simp
  then show "((n, depth + 1), (n, depth)) \<in> measure (\<lambda>(n, depth). n - depth)" by simp
qed simp

declare split_depth_loop.simps [simp del]

definition split_depth :: "usize \<Rightarrow> usize" where
  "split_depth n = (if n = 0 then 0 else split_depth_loop n 1)"

definition even_group_sizes :: "usize \<Rightarrow> usize \<Rightarrow> usize list" where
  "even_group_sizes len g =
     (let base = len div g; extra = len mod g
      in map (\<lambda>i. base + (if i < extra then 1 else 0)) [0 ..< g])"

definition div_ceil :: "nat \<Rightarrow> nat \<Rightarrow> nat" where
  "div_ceil a b = (if a mod b > 0 then a div b + 1 else a div b)"

text \<open>The consecutive slices \<open>targets[start..start + size]\<close> for a list of sizes.\<close>

fun slices :: "usize list \<Rightarrow> 'a list \<Rightarrow> 'a list list" where
  "slices [] xs = []"
| "slices (sz # sizes) xs = take sz xs # slices sizes (drop sz xs)"

definition split_groups :: "u64 list \<Rightarrow> u64 list list" where
  "split_groups targets =
     (let child_cap = subtree_capacity (split_depth (length targets) - 1);
          g = div_ceil (length targets) child_cap
      in slices (even_group_sizes (length targets) g) targets)"

lemma subtree_capacity_pos [simp]: "0 < subtree_capacity d"
  by (simp add: subtree_capacity_def const_defs)

lemma subtree_capacity_1 [simp]: "subtree_capacity (Suc 0) = 14"
  by (simp add: subtree_capacity_def const_defs)

lemma subtree_capacity_Suc: "subtree_capacity (Suc d) = 14 * subtree_capacity d"
  by (simp add: subtree_capacity_def const_defs)

lemma split_depth_loop_spec:
  "depth \<le> split_depth_loop n depth \<and> n \<le> subtree_capacity (split_depth_loop n depth)
   \<and> (\<forall>d. depth \<le> d \<longrightarrow> d < split_depth_loop n depth \<longrightarrow> subtree_capacity d < n)"
proof (induction n depth rule: split_depth_loop.induct)
  case (1 n depth)
  show ?case
  proof (cases "subtree_capacity depth < n")
    case True
    then have eq: "split_depth_loop n depth = split_depth_loop n (depth + 1)"
      by (subst split_depth_loop.simps) simp
    have "subtree_capacity d < n" if "depth \<le> d" "d < split_depth_loop n depth" for d
      using "1.IH" [OF True] True that eq by (cases "d = depth") auto
    then show ?thesis using "1.IH" [OF True] eq by auto
  next
    case False
    then have "split_depth_loop n depth = depth" by (subst split_depth_loop.simps) simp
    with False show ?thesis by auto
  qed
qed

lemma split_depth_capacity: "n \<le> subtree_capacity (split_depth n)"
  using split_depth_loop_spec [of 1 n] by (simp add: split_depth_def)

lemma split_depth_minimal: "0 < d \<Longrightarrow> d < split_depth n \<Longrightarrow> subtree_capacity d < n"
  using split_depth_loop_spec [of 1 n] by (auto simp: split_depth_def split: if_splits)

lemma split_depth_le_1_iff: "split_depth n \<le> 1 \<longleftrightarrow> n \<le> 14"
proof
  assume "split_depth n \<le> 1"
  then have "split_depth n = 0 \<or> split_depth n = Suc 0" by auto
  then show "n \<le> 14"
    using split_depth_capacity [of n] by (auto simp: subtree_capacity_def const_defs)
next
  assume "n \<le> 14"
  then show "split_depth n \<le> 1" using split_depth_minimal [of 1 n] by fastforce
qed

lemma even_group_sizes_sum: "0 < g \<Longrightarrow> sum_list (even_group_sizes len g) = len"
proof -
  assume g: "0 < g"
  have count: "sum_list (map (\<lambda>i. if i < e then 1 else 0 :: nat) [0 ..< g]) = min e g" for e
    by (induction g) (auto simp: min_def)
  have "sum_list (even_group_sizes len g) =
      g * (len div g) + sum_list (map (\<lambda>i. if i < len mod g then 1 else 0) [0 ..< g])"
    by (simp add: even_group_sizes_def Let_def sum_list_addf sum_list_triv)
  also have "sum_list (map (\<lambda>i. if i < len mod g then 1 else 0 :: nat) [0 ..< g]) = len mod g"
    using g by (simp add: count)
  finally show ?thesis by simp
qed

lemma even_group_sizes_length [simp]: "length (even_group_sizes len g) = g"
  by (simp add: even_group_sizes_def Let_def)

lemma div_ceil_bounds:
  assumes "0 < b"
  shows "a \<le> div_ceil a b * b" and "0 < a \<Longrightarrow> 0 < div_ceil a b" and "b < a \<Longrightarrow> 1 < div_ceil a b"
    and "a \<le> c * b \<Longrightarrow> div_ceil a b \<le> c"
proof -
  have split: "a = a div b * b + a mod b" by simp
  show "a \<le> div_ceil a b * b"
  proof (cases "a mod b = 0")
    case True
    then have "div_ceil a b * b = a div b * b" by (simp add: div_ceil_def)
    with True split show ?thesis by linarith
  next
    case False
    then have "div_ceil a b * b = a div b * b + b" by (simp add: div_ceil_def)
    with split mod_less_divisor [OF assms, of a] show ?thesis by linarith
  qed
  show "0 < a \<Longrightarrow> 0 < div_ceil a b"
    using split by (auto simp: div_ceil_def)
  show "1 < div_ceil a b" if "b < a"
  proof -
    have "1 \<le> a div b" using that assms by (simp add: Suc_le_eq div_greater_zero_iff)
    moreover have "a div b \<noteq> 1 \<or> 0 < a mod b"
      using split that by (metis add_0_right mult_1 less_irrefl neq0_conv)
    ultimately show ?thesis by (auto simp: div_ceil_def)
  qed
  show "div_ceil a b \<le> c" if "a \<le> c * b"
  proof (cases "a mod b = 0")
    case True
    then show ?thesis using that assms split by (metis div_ceil_def mult_le_cancel2 add.right_neutral less_irrefl)
  next
    case False
    then have "a div b * b < c * b" using that split by linarith
    then show ?thesis using False by (simp add: div_ceil_def)
  qed
qed

lemma even_group_sizes_bounds:
  assumes "0 < g" and "s \<in> set (even_group_sizes len g)"
  shows "len \<le> g * cap \<Longrightarrow> s \<le> cap" and "g \<le> len \<Longrightarrow> 0 < s"
    and "1 < g \<Longrightarrow> 1 < len \<Longrightarrow> s < len"
proof -
  have s: "s = len div g \<or> (0 < len mod g \<and> s = len div g + 1)"
    using assms(2) by (auto simp: even_group_sizes_def Let_def split: if_splits)
  have split: "len = len div g * g + len mod g" by simp
  show "s \<le> cap" if "len \<le> g * cap"
  proof -
    have "len div g \<le> cap" using that assms(1) by (metis div_le_mono nonzero_mult_div_cancel_left less_numeral_extra(3))
    moreover have "len div g \<noteq> cap" if "0 < len mod g"
      using that split \<open>len \<le> g * cap\<close> by (metis add.commute le_add2 le_antisym less_add_same_cancel1 mult.commute not_less_iff_gr_or_eq linorder_not_le)
    ultimately show ?thesis using s by auto
  qed
  show "0 < s" if "g \<le> len" using s that assms(1) by (auto simp: div_greater_zero_iff)
  show "s < len" if "1 < g" "1 < len"
  proof -
    have "len div g < len" using that by (intro div_less_dividend) simp_all
    moreover have "len div g + 1 < len" if "0 < len mod g"
    proof -
      have "len div g * 2 \<le> len div g * g" using \<open>1 < g\<close> by (intro mult_le_mono2) simp
      then have "2 * (len div g) + 1 \<le> len" using split that by linarith
      then show ?thesis using \<open>1 < len\<close> by (cases "len div g") linarith+
    qed
    ultimately show ?thesis using s by auto
  qed
qed

lemma slices_concat: "sum_list sizes = length xs \<Longrightarrow> concat (slices sizes xs) = xs"
  by (induction sizes xs rule: slices.induct) auto

lemma slices_lengths: "sum_list sizes \<le> length xs \<Longrightarrow> map length (slices sizes xs) = sizes"
  by (induction sizes xs rule: slices.induct) auto

lemma split_groups_spec:
  assumes "1 < split_depth (length targets)"
  shows "concat (split_groups targets) = targets"
    and "length (split_groups targets) \<le> 14"
    and "\<And>grp. grp \<in> set (split_groups targets) \<Longrightarrow>
           0 < length grp \<and> length grp < length targets
           \<and> length grp \<le> subtree_capacity (split_depth (length targets) - 1)"
proof -
  let ?n = "length targets" and ?d = "split_depth (length targets)"
  let ?cap = "subtree_capacity (?d - 1)"
  let ?g = "div_ceil ?n ?cap"
  have cap: "?cap < ?n" by (rule split_depth_minimal) (use assms in auto)
  have d: "?d = Suc (?d - 1)" using assms by simp
  have n: "?n \<le> 14 * ?cap" using split_depth_capacity [of ?n] subtree_capacity_Suc [of "?d - 1"] d by simp
  have g: "1 < ?g" "?g \<le> 14" "?n \<le> ?g * ?cap"
    using div_ceil_bounds(1,3) [of ?cap ?n] div_ceil_bounds(4) [of ?cap ?n 14] cap n by simp_all
  have sum: "sum_list (even_group_sizes ?n ?g) = ?n" using g by (intro even_group_sizes_sum) simp
  have eq: "split_groups targets = slices (even_group_sizes ?n ?g) targets"
    by (simp add: split_groups_def Let_def)
  show "concat (split_groups targets) = targets" unfolding eq by (rule slices_concat) (rule sum)
  have lens: "map length (split_groups targets) = even_group_sizes ?n ?g"
    unfolding eq by (rule slices_lengths, rule eq_imp_le, rule sum)
  from arg_cong [OF lens, of length] g show "length (split_groups targets) \<le> 14" by simp
  have "?g \<le> ?n"
    by (rule div_ceil_bounds(4)) (simp_all add: Suc_leI)
  moreover have "1 < ?n" using cap subtree_capacity_pos [of "?d - 1"] by linarith
  moreover fix grp assume "grp \<in> set (split_groups targets)"
  then have "length grp \<in> set (even_group_sizes ?n ?g)" using lens by (metis image_eqI list.set_map)
  ultimately show "0 < length grp \<and> length grp < ?n \<and> length grp \<le> ?cap"
    using even_group_sizes_bounds [of ?g "length grp" ?n] g by auto
qed

text \<open>
  The cost of a subtree (transactions, value), and the balanced split. \<open>layers\<close> grows by at most the
  layer written to.
\<close>

function subtree_cost :: "u64 list \<Rightarrow> u64 \<Rightarrow> u64 \<times> u64" where
  "subtree_cost targets fee =
     (if split_depth (length targets) \<le> 1 then (1, sum_list targets + fee)
      else let costs = map (\<lambda>grp. subtree_cost grp fee) (split_groups targets)
           in (1 + sum_list (map fst costs), fee + sum_list (map snd costs)))"
  by pat_completeness auto
termination
  by (relation "measure (length \<circ> fst)") (auto simp: split_groups_spec(3))

declare subtree_cost.simps [simp del]

definition pad_layers :: "usize \<Rightarrow> prep_transaction list list \<Rightarrow> prep_transaction list list" where
  "pad_layers layer ls = ls @ replicate (Suc layer - length ls) []"

definition push_tx ::
    "usize \<Rightarrow> prep_transaction \<Rightarrow> prep_transaction list list \<Rightarrow> prep_transaction list list" where
  "push_tx layer tx ls = (pad_layers layer ls)[layer := pad_layers layer ls ! layer @ [tx]]"

definition with_leftover :: "prep_output list \<Rightarrow> u64 \<Rightarrow> prep_output list" where
  "with_leftover outs leftover = (if leftover > 0 then outs @ [Intermediate leftover] else outs)"

function build_split ::
    "prep_input \<Rightarrow> u64 \<Rightarrow> u64 list \<Rightarrow> u64 \<Rightarrow> usize \<Rightarrow> prep_transaction list list \<Rightarrow>
     prep_transaction list list" where
  "build_split source source_value targets fee layer ls =
     (let tx_index = length (pad_layers layer ls ! layer) in
      if split_depth (length targets) \<le> 1
      then let leftover = source_value - fee - sum_list targets
           in push_tx layer (prep_tx [source] (with_leftover (map Funding targets) leftover)) ls
      else
        let groups = split_groups targets;
            child_values = map (\<lambda>grp. snd (subtree_cost grp fee)) groups;
            leftover = source_value - fee - sum_list child_values
        in fold (\<lambda>(output, grp) ls'.
                   let cv = snd (subtree_cost grp fee)
                   in build_split (Prior layer tx_index output cv) cv grp fee (layer + 1) ls')
             (enumerate 0 groups)
             (push_tx layer
                (prep_tx [source] (with_leftover (map Intermediate child_values) leftover)) ls))"
  by pat_completeness auto
termination
  by (relation "measure (\<lambda>(_, _, targets, _). length targets)")
     (auto simp: split_groups_spec(3) in_set_enumerate_eq)

declare build_split.simps [simp del]

section \<open>The layered greedy\<close>

text \<open>
  The inner \<open>while\<close>: the values assigned to a note, the values that remain and the amount used. The
  second argument is the number assigned so far.
\<close>

fun assign_funding :: "u64 \<Rightarrow> usize \<Rightarrow> u64 \<Rightarrow> u64 list \<Rightarrow> u64 list \<times> u64 list \<times> u64" where
  "assign_funding budget n used [] = ([], [], used)"
| "assign_funding budget n used (r # rs) =
     (if n \<ge> FUNDING_OUTPUTS_PER_TX then ([], r # rs, used)
      else if used + r \<le> budget
      then let (assigned, remaining, used') = assign_funding budget (n + 1) (used + r) rs
           in (r # assigned, remaining, used')
      else let (assigned, remaining, used') = assign_funding budget n used rs
           in (assigned, r # remaining, used'))"

text \<open>
  Pass 1 over the notes of the layer: the partial transactions (note, funding values, leftover), the
  notes to consolidate and the funding values that remain.
\<close>

fun pass1 ::
    "u64 \<Rightarrow> prep_input list \<Rightarrow> u64 list \<Rightarrow>
     (prep_input \<times> u64 list \<times> u64) list \<times> prep_input list \<times> u64 list" where
  "pass1 fee [] remaining = ([], [], remaining)"
| "pass1 fee (note # notes) remaining =
     (if remaining = [] then pass1 fee notes remaining
      else
        let v = input_value note; smallest = last remaining in
        if v \<le> fee \<or> v - fee < smallest
        then let (partial, consolidatable, remaining') = pass1 fee notes remaining
             in (partial, note # consolidatable, remaining')
        else
          let budget = v - fee;
              (assigned, remaining1, used) = assign_funding budget 0 0 remaining;
              (partial, consolidatable, remaining') = pass1 fee notes remaining1
          in ((note, assigned, budget - used) # partial, consolidatable, remaining'))"

text \<open>Pass 2: the transactions and the feeders, with the transaction index as argument.\<close>

definition partial_tx :: "prep_input \<times> u64 list \<times> u64 \<Rightarrow> prep_transaction" where
  "partial_tx p =
     (case p of (note, assigned, leftover) \<Rightarrow>
        prep_tx [note] (with_leftover (map Funding assigned) leftover))"

fun pass2_feeders :: "usize \<Rightarrow> usize \<Rightarrow> (prep_input \<times> u64 list \<times> u64) list \<Rightarrow> prep_input list" where
  "pass2_feeders layer ti [] = []"
| "pass2_feeders layer ti ((note, assigned, leftover) # ps) =
     (if leftover > 0 then [Prior layer ti (length assigned) leftover] else [])
     @ pass2_feeders layer (ti + 1) ps"

text \<open>One iteration of the layer loop: the layer's transactions, its feeders, what remains.\<close>

definition greedy_layer ::
    "note_order \<Rightarrow> u64 \<Rightarrow> usize \<Rightarrow> prep_input list \<Rightarrow> u64 list \<Rightarrow>
     prep_transaction list \<times> prep_input list \<times> u64 list" where
  "greedy_layer pick fee layer current remaining =
     (let (partial, consolidatable, remaining') =
            pass1 fee (sort_unstable_desc pick current) remaining;
          (txs, next, _) =
            consolidate pick consolidatable layer fee (map partial_tx partial)
              (pass2_feeders layer 0 partial)
      in (txs, next, remaining'))"

subsection \<open>Termination of the layer loop\<close>

lemma consolidation_batch_sizes_0 [simp]: "consolidation_batch_sizes 0 = []"
  by (subst consolidation_batch_sizes.simps) simp

lemma consolidation_batch_sizes_spec:
  "1 < n \<Longrightarrow> sum_list (consolidation_batch_sizes n) = n
     \<and> (\<forall>s \<in> set (consolidation_batch_sizes n). 2 \<le> s \<and> s \<le> CONSOLIDATION_INPUTS_PER_TX)"
proof (induction n rule: less_induct)
  case (less n)
  define t where "t = (if n \<le> 15 then n else if n - 15 = 1 then 14 else 15)"
  have eq: "consolidation_batch_sizes n = t # consolidation_batch_sizes (n - t)"
    using less.prems by (subst consolidation_batch_sizes.simps) (simp add: const_defs Let_def t_def)
  have t: "2 \<le> t" "t \<le> 15" "t \<le> n" "n - t = 0 \<or> 1 < n - t"
    using less.prems by (auto simp: t_def)
  then have "sum_list (consolidation_batch_sizes (n - t)) = n - t
      \<and> (\<forall>s \<in> set (consolidation_batch_sizes (n - t)). 2 \<le> s \<and> s \<le> CONSOLIDATION_INPUTS_PER_TX)"
    using less.IH [of "n - t"] less.prems by auto
  with t show ?case unfolding eq by (simp add: const_defs)
qed

lemma assign_funding_mset:
  assumes "assign_funding budget n used rs = (assigned, remaining, used')"
  shows "mset assigned + mset remaining = mset rs \<and> used' = used + sum_list assigned
     \<and> (used \<le> budget \<longrightarrow> used' \<le> budget) \<and> n + length assigned \<le> max n FUNDING_OUTPUTS_PER_TX"
  using assms
proof (induction rs arbitrary: n used assigned remaining used')
  case (Cons r rs)
  consider "n \<ge> FUNDING_OUTPUTS_PER_TX" | "n < FUNDING_OUTPUTS_PER_TX" "used + r \<le> budget"
    | "n < FUNDING_OUTPUTS_PER_TX" "\<not> used + r \<le> budget" by linarith
  then show ?case
  proof cases
    case 1
    then show ?thesis using Cons.prems by auto
  next
    case 2
    obtain as rem u where rec: "assign_funding budget (n + 1) (used + r) rs = (as, rem, u)"
      by (metis prod_cases3)
    then have "assigned = r # as" "remaining = rem" "used' = u" using 2 Cons.prems by simp_all
    with Cons.IH [OF rec] 2 show ?thesis by (simp add: max_def)
  next
    case 3
    obtain as rem u where rec: "assign_funding budget n used rs = (as, rem, u)"
      by (metis prod_cases3)
    then have "assigned = as" "remaining = r # rem" "used' = u" using 3 Cons.prems by simp_all
    with Cons.IH [OF rec] show ?thesis by auto
  qed
qed simp

lemma assign_funding_progress:
  assumes "rs \<noteq> []" and "last rs \<le> budget" and "n < FUNDING_OUTPUTS_PER_TX"
    and "assign_funding budget n 0 rs = (assigned, remaining, used)"
  shows "assigned \<noteq> []"
  using assms
proof (induction rs arbitrary: assigned remaining used)
  case (Cons r rs)
  show ?case
  proof (cases "r \<le> budget")
    case True
    obtain as rem u where "assign_funding budget (n + 1) r rs = (as, rem, u)" by (metis prod_cases3)
    with True Cons.prems show ?thesis by auto
  next
    case False
    obtain as rem u where rec: "assign_funding budget n 0 rs = (as, rem, u)" by (metis prod_cases3)
    have "rs \<noteq> []" using False Cons.prems(2) by auto
    then have "as \<noteq> []" using Cons.IH [OF _ _ Cons.prems(3) rec] Cons.prems(2) by simp
    with rec False Cons.prems(3,4) show ?thesis by auto
  qed
qed simp

text \<open>What pass 1 gives each partial transaction.\<close>

definition partial_ok :: "u64 \<Rightarrow> prep_input \<times> u64 list \<times> u64 \<Rightarrow> bool" where
  "partial_ok fee p \<longleftrightarrow>
     (case p of (note, assigned, leftover) \<Rightarrow>
        input_value note = sum_list assigned + leftover + fee
        \<and> assigned \<noteq> [] \<and> length assigned \<le> FUNDING_OUTPUTS_PER_TX)"

lemma assigned_partial_ok:
  assumes "remaining \<noteq> []" and "\<not> (input_value note \<le> fee \<or> input_value note - fee < last remaining)"
    and "assign_funding (input_value note - fee) 0 0 remaining = (assigned, remaining1, used)"
  shows "partial_ok fee (note, assigned, input_value note - fee - used)"
  using assign_funding_mset [OF assms(3)] assign_funding_progress [OF assms(1) _ _ assms(3)] assms(2)
  by (auto simp: partial_ok_def const_defs)

definition partial_notes :: "(prep_input \<times> u64 list \<times> u64) list \<Rightarrow> prep_input list" where
  "partial_notes = map fst"

definition partial_values :: "(prep_input \<times> u64 list \<times> u64) list \<Rightarrow> u64 list" where
  "partial_values ps = concat (map (fst \<circ> snd) ps)"

lemma pass1_spec:
  assumes "pass1 fee xs remaining = (partial, consolidatable, remaining')"
  shows "mset (partial_notes partial) + mset consolidatable \<subseteq># mset xs
     \<and> mset (partial_values partial) + mset remaining' = mset remaining
     \<and> (\<forall>p \<in> set partial. partial_ok fee p)
     \<and> (partial = [] \<longrightarrow> remaining' = remaining)"
  using assms
proof (induction xs arbitrary: remaining partial consolidatable)
  case Nil
  then show ?case by (auto simp: partial_notes_def partial_values_def)
next
  case (Cons nt xs)
  let ?v = "input_value nt"
  consider "remaining = []" | "remaining \<noteq> []" "?v \<le> fee \<or> ?v - fee < last remaining"
    | "remaining \<noteq> []" "\<not> (?v \<le> fee \<or> ?v - fee < last remaining)" by blast
  then show ?case
  proof cases
    case 1
    with Cons.IH [of remaining partial consolidatable] Cons.prems
    have "mset (partial_notes partial) + mset consolidatable \<subseteq># mset xs" and
      "mset (partial_values partial) + mset remaining' = mset remaining
       \<and> (\<forall>p \<in> set partial. partial_ok fee p) \<and> (partial = [] \<longrightarrow> remaining' = remaining)" by auto
    moreover have "mset xs \<subseteq># mset (nt # xs)" by simp
    ultimately show ?thesis by (meson subset_mset.order_trans)
  next
    case 2
    obtain ps cs rem where rec: "pass1 fee xs remaining = (ps, cs, rem)" by (metis prod_cases3)
    then have "partial = ps" "consolidatable = nt # cs" "remaining' = rem"
      using 2 Cons.prems by (simp_all add: Let_def)
    with Cons.IH [OF rec [folded \<open>remaining' = rem\<close>]] show ?thesis by simp
  next
    case 3
    obtain as rem1 used where as: "assign_funding (?v - fee) 0 0 remaining = (as, rem1, used)"
      by (metis prod_cases3)
    obtain ps cs rem where rec: "pass1 fee xs rem1 = (ps, cs, rem)" by (metis prod_cases3)
    have eq: "partial = (nt, as, ?v - fee - used) # ps" "consolidatable = cs" "remaining' = rem"
      using 3 Cons.prems as rec by (simp_all add: Let_def)
    have "mset as + mset rem1 = mset remaining" using assign_funding_mset [OF as] by blast
    with Cons.IH [OF rec [folded eq(3)]] assigned_partial_ok [OF 3 as] show ?thesis
      unfolding eq by (auto simp: partial_notes_def partial_values_def union_assoc)
  qed
qed

text \<open>What consolidation adds to a layer, for transactions numbered from \<open>ti\<close>.\<close>

definition consolidation_ok :: "u64 \<Rightarrow> prep_transaction \<Rightarrow> bool" where
  "consolidation_ok fee tx \<longleftrightarrow>
     (\<exists>feeder > 0. outputs tx = [Intermediate feeder]
        \<and> sum_list (map input_value (inputs tx)) = feeder + fee)
     \<and> 2 \<le> length (inputs tx) \<and> length (inputs tx) \<le> CONSOLIDATION_INPUTS_PER_TX"

definition feeders_from :: "usize \<Rightarrow> usize \<Rightarrow> prep_transaction list \<Rightarrow> prep_input list" where
  "feeders_from layer ti txs = concat (map (\<lambda>(i, tx). tx_feeders layer i tx) (enumerate ti txs))"

lemma feeders_from_simps [simp]:
  "feeders_from layer ti [] = []"
  "feeders_from layer ti (tx # txs) = tx_feeders layer ti tx @ feeders_from layer (Suc ti) txs"
  by (simp_all add: feeders_from_def)

lemma consolidate_batches_spec:
  assumes "consolidate_batches layer fee sizes pool txs next leftover = (txs', next', leftover')"
    and "sum_list sizes = length pool"
    and "\<forall>s \<in> set sizes. 2 \<le> s \<and> s \<le> CONSOLIDATION_INPUTS_PER_TX"
  shows "\<exists>new. txs' = txs @ new \<and> (\<forall>tx \<in> set new. consolidation_ok fee tx)
     \<and> next' = next @ feeders_from layer (length txs) new \<and> length next' = length next + length new
     \<and> mset (concat (map inputs new)) + mset leftover' = mset pool + mset leftover"
  using assms
proof (induction sizes arbitrary: pool txs "next" leftover)
  case (Cons s sizes)
  let ?batch = "take s pool" and ?pool = "drop s pool"
  let ?sum = "sum_list (map input_value ?batch)"
  have len: "length ?batch = s" "sum_list sizes = length ?pool" using Cons.prems(2) by auto
  have split: "mset ?batch + mset ?pool = mset pool" by (metis append_take_drop_id mset_append)
  show ?case
  proof (cases "?sum \<le> fee")
    case True
    then obtain new where "txs' = txs @ new" "\<forall>tx \<in> set new. consolidation_ok fee tx"
        "next' = next @ feeders_from layer (length txs) new" "length next' = length next + length new"
        "mset (concat (map inputs new)) + mset leftover' = mset ?pool + mset (leftover @ ?batch)"
      using Cons.IH [of ?pool txs "next" "leftover @ ?batch"] Cons.prems len by (auto simp: Let_def)
    then show ?thesis by (intro exI [of _ new]) (simp add: split [symmetric])
  next
    case False
    let ?tx = "prep_tx ?batch [Intermediate (?sum - fee)]"
    let ?f = "Prior layer (length txs) 0 (?sum - fee)"
    have ok: "consolidation_ok fee ?tx"
      using False Cons.prems(3) len(1) by (auto simp: consolidation_ok_def prep_tx_def)
    have f: "tx_feeders layer (length txs) ?tx = [?f]" by (simp add: tx_feeders_def prep_tx_def)
    from False obtain new where "txs' = (txs @ [?tx]) @ new" "\<forall>tx \<in> set new. consolidation_ok fee tx"
        "next' = (next @ [?f]) @ feeders_from layer (length (txs @ [?tx])) new"
        "length next' = length (next @ [?f]) + length new"
        "mset (concat (map inputs new)) + mset leftover' = mset ?pool + mset leftover"
      using Cons.IH [of ?pool "txs @ [?tx]" "next @ [?f]" leftover] Cons.prems len
      by (auto simp: Let_def)
    then show ?thesis
      using ok f by (intro exI [of _ "?tx # new"]) (simp add: split [symmetric] prep_tx_def)
  qed
qed simp

lemma consolidate_spec:
  assumes "consolidate pick pool layer fee txs next = (txs', next', leftover')"
  shows "\<exists>new. txs' = txs @ new \<and> (\<forall>tx \<in> set new. consolidation_ok fee tx)
     \<and> next' = next @ feeders_from layer (length txs) new \<and> length next' = length next + length new
     \<and> mset (concat (map inputs new)) + mset leftover' = mset pool"
proof (cases "length pool < 2")
  case True
  then show ?thesis using assms by (intro exI [of _ "[]"]) (simp add: consolidate_def)
next
  case False
  then have n: "1 < length pool" by simp
  have "consolidate_batches layer fee (consolidation_batch_sizes (length pool))
      (sort_unstable_desc pick pool) txs next [] = (txs', next', leftover')"
    using assms False by (simp add: consolidate_def)
  from consolidate_batches_spec [OF this] consolidation_batch_sizes_spec [OF n]
  show ?thesis by simp
qed

lemma consolidation_shrinks:
  assumes "\<forall>tx \<in> set new. consolidation_ok fee tx" and "mset (concat (map inputs new)) \<subseteq># mset pool"
  shows "2 * length new \<le> length pool"
proof -
  have "2 * length new \<le> length (concat (map inputs new))"
    using assms(1) by (induction new) (auto simp: consolidation_ok_def)
  then show ?thesis using size_mset_mono [OF assms(2)] by simp
qed

text \<open>One layer of the greedy, seen from outside.\<close>

lemma greedy_layer_spec:
  assumes "greedy_layer pick fee layer current remaining = (txs, next, remaining')"
  obtains partial new where "txs = map partial_tx partial @ new"
    and "next = pass2_feeders layer 0 partial @ feeders_from layer (length partial) new"
    and "\<forall>p \<in> set partial. partial_ok fee p" and "\<forall>tx \<in> set new. consolidation_ok fee tx"
    and "mset (partial_notes partial) + mset (concat (map inputs new)) \<subseteq># mset current"
    and "mset (partial_values partial) + mset remaining' = mset remaining"
    and "partial = [] \<Longrightarrow> remaining' = remaining" and "length next \<le> length partial + length new"
proof -
  obtain partial cs where p1: "pass1 fee (sort_unstable_desc pick current) remaining =
      (partial, cs, remaining')"
    and c: "fst (consolidate pick cs layer fee (map partial_tx partial) (pass2_feeders layer 0 partial)) = txs"
      "fst (snd (consolidate pick cs layer fee (map partial_tx partial) (pass2_feeders layer 0 partial))) = next"
    using assms by (auto simp: greedy_layer_def Let_def split: prod.splits)
  obtain left where c': "consolidate pick cs layer fee (map partial_tx partial)
      (pass2_feeders layer 0 partial) = (txs, next, left)" using c by (metis prod.collapse)
  from consolidate_spec [OF c'] obtain new where new: "txs = map partial_tx partial @ new"
      "\<forall>tx \<in> set new. consolidation_ok fee tx"
      "next = pass2_feeders layer 0 partial @ feeders_from layer (length partial) new"
      "length next = length (pass2_feeders layer 0 partial) + length new"
      "mset (concat (map inputs new)) + mset left = mset cs" by auto
  have len: "length (pass2_feeders layer ti ps) \<le> length ps" for ti ps
    by (induction layer ti ps rule: pass2_feeders.induct) auto
  note p = pass1_spec [OF p1]
  have "mset (concat (map inputs new)) \<subseteq># mset cs" using new(5) by (metis mset_subset_eq_add_left)
  then have "mset (partial_notes partial) + mset (concat (map inputs new)) \<subseteq># mset current"
    using p by (metis note_sorting.srt_mset subset_mset.add_left_mono subset_mset.order_trans)
  with new p len [of 0 partial] show thesis by (intro that [of partial new]) auto
qed

lemma greedy_layer_decreases:
  assumes "greedy_layer pick fee layer current remaining = (txs, next, remaining')" and "txs \<noteq> []"
  shows "length remaining' < length remaining
     \<or> (remaining' = remaining \<and> length next < length current)"
  using assms(1)
proof (rule greedy_layer_spec)
  fix partial new
  assume txs: "txs = map partial_tx partial @ new"
    and ok: "\<forall>p \<in> set partial. partial_ok fee p" "\<forall>tx \<in> set new. consolidation_ok fee tx"
    and sub: "mset (partial_notes partial) + mset (concat (map inputs new)) \<subseteq># mset current"
    and vals: "mset (partial_values partial) + mset remaining' = mset remaining"
    and none: "partial = [] \<Longrightarrow> remaining' = remaining"
    and len: "length next \<le> length partial + length new"
  show ?thesis
  proof (cases partial)
    case Nil
    have "mset (concat (map inputs new)) \<subseteq># mset current"
      using sub by (metis mset_subset_eq_add_right subset_mset.order_trans)
    then have "2 * length new \<le> length current" by (rule consolidation_shrinks [OF ok(2)])
    moreover have "new \<noteq> []" using txs assms(2) Nil by simp
    ultimately show ?thesis using none Nil len by (cases new) auto
  next
    case (Cons p ps)
    then have "partial_values partial \<noteq> []"
      using ok(1) by (auto simp: partial_values_def partial_ok_def)
    moreover have "length (partial_values partial) + length remaining' = length remaining"
      using arg_cong [OF vals, of size] by simp
    ultimately show ?thesis by (cases "partial_values partial") auto
  qed
qed

function greedy_loop ::
    "note_order \<Rightarrow> u64 \<Rightarrow> prep_input list \<Rightarrow> u64 list \<Rightarrow> prep_transaction list list \<Rightarrow>
     prep_error + prep_transaction list list" where
  "greedy_loop pick fee current remaining ls =
     (if remaining = [] then Inr ls
      else if current = [] then Inl InsufficientFunds
      else let (txs, next, remaining') = greedy_layer pick fee (length ls) current remaining
           in if txs = [] then Inl InsufficientFunds
              else greedy_loop pick fee next remaining' (ls @ [txs]))"
  by pat_completeness auto
termination
proof (relation "measures [\<lambda>(_, _, _, remaining, _). length remaining,
                           \<lambda>(_, _, current, _). length current]")
  fix pick fee current remaining and ls :: "prep_transaction list list"
  fix x txs y "next" remaining'
  assume "remaining \<noteq> []" "current \<noteq> []"
    and "x = greedy_layer pick fee (length ls) current remaining" "(txs, y) = x"
      "(next, remaining') = y" and "txs \<noteq> []"
  then have "greedy_layer pick fee (length ls) current remaining = (txs, next, remaining')" by simp
  from greedy_layer_decreases [OF this \<open>txs \<noteq> []\<close>]
  show "((pick, fee, next, remaining', ls @ [txs]), (pick, fee, current, remaining, ls))
      \<in> measures [\<lambda>(_, _, _, remaining, _). length remaining,
                  \<lambda>(_, _, current, _). length current]" by auto
qed simp

declare greedy_loop.simps [simp del]

section \<open>The residual pool\<close>

lemma tx_feeders_distinct:
  "distinct (tx_feeders li ti tx)" and tx_feeders_ref: "f \<in> set (tx_feeders li ti tx) \<Longrightarrow>
     is_Prior f \<and> prior_layer f = li \<and> prior_transaction f = ti"
proof -
  have k: "is_Prior f \<and> prior_layer f = li \<and> prior_transaction f = ti \<and> prior_output f = oi"
    if "f \<in> set (output_feeder li ti (oi, out))" for f oi out
    using that by (cases out) auto
  show "distinct (tx_feeders li ti tx)"
    using distinct_concat_enumerate [of "output_feeder li ti" prior_output] k
    unfolding tx_feeders_def by (metis distinct.simps distinct_singleton output_feeder.elims)
  show "f \<in> set (tx_feeders li ti tx) \<Longrightarrow> is_Prior f \<and> prior_layer f = li \<and> prior_transaction f = ti"
    using k by (auto simp: tx_feeders_def)
qed

lemma layer_feeders_eq: "layer_feeders li txs = feeders_from li 0 txs"
  by (simp add: layer_feeders_def feeders_from_def)

lemma feeders_from_distinct:
  "distinct (feeders_from li ti txs)" and feeders_from_ref: "f \<in> set (feeders_from li ti txs) \<Longrightarrow>
     is_Prior f \<and> prior_layer f = li"
proof -
  let ?f = "\<lambda>(ti, tx). tx_feeders li ti tx"
  show "distinct (feeders_from li ti txs)"
  proof -
    have "distinct (concat (map ?f (enumerate ti txs)))
        \<and> (\<forall>f \<in> set (concat (map ?f (enumerate ti txs))).
              ti \<le> prior_transaction f \<and> prior_transaction f < ti + length txs)"
      by (rule distinct_concat_enumerate)
         (auto simp: tx_feeders_distinct dest: tx_feeders_ref)
    then show ?thesis by (simp add: feeders_from_def)
  qed
  show "f \<in> set (feeders_from li ti txs) \<Longrightarrow> is_Prior f \<and> prior_layer f = li"
    using tx_feeders_ref by (auto simp: feeders_from_def)
qed

lemma all_feeders_distinct: "distinct (all_feeders ls)"
  and all_feeders_Prior: "f \<in> set (all_feeders ls) \<Longrightarrow> is_Prior f \<and> prior_layer f < length ls"
proof -
  let ?f = "\<lambda>(li, txs). layer_feeders li txs"
  have d: "distinct (concat (map ?f (enumerate 0 ls)))
      \<and> (\<forall>f \<in> set (concat (map ?f (enumerate 0 ls))). 0 \<le> prior_layer f \<and> prior_layer f < 0 + length ls)"
    by (rule distinct_concat_enumerate)
       (auto simp: layer_feeders_eq feeders_from_distinct dest: feeders_from_ref)
  then show "distinct (all_feeders ls)" by (simp add: all_feeders_def)
  show "is_Prior f \<and> prior_layer f < length ls" if f: "f \<in> set (all_feeders ls)"
  proof
    show "prior_layer f < length ls" using d f by (auto simp: all_feeders_def simp del: set_concat)
    show "is_Prior f"
      using f feeders_from_ref by (fastforce simp: all_feeders_def layer_feeders_eq)
  qed
qed

lemma mem_tx_feeders:
  "Prior l t oi v \<in> set (tx_feeders li ti tx) \<longleftrightarrow>
     l = li \<and> t = ti \<and> oi < length (outputs tx) \<and> outputs tx ! oi = Intermediate v"
proof -
  have "Prior l t oi v \<in> set (output_feeder li ti (k, out)) \<longleftrightarrow>
      l = li \<and> t = ti \<and> oi = k \<and> out = Intermediate v" for k out
    by (cases out) auto
  then show ?thesis by (fastforce simp: tx_feeders_def in_set_enumerate_eq)
qed

lemma mem_layer_feeders:
  "Prior l t oi v \<in> set (layer_feeders li txs) \<longleftrightarrow>
     l = li \<and> t < length txs \<and> oi < length (outputs (txs ! t))
     \<and> outputs (txs ! t) ! oi = Intermediate v"
  by (auto simp: layer_feeders_def set_concat_enumerate mem_tx_feeders simp del: set_concat)

lemma mem_all_feeders:
  "Prior l t oi v \<in> set (all_feeders ls) \<longleftrightarrow>
     l < length ls \<and> t < length (ls ! l) \<and> oi < length (outputs (ls ! l ! t))
     \<and> outputs (ls ! l ! t) ! oi = Intermediate v"
  by (auto simp: all_feeders_def set_concat_enumerate mem_layer_feeders simp del: set_concat)

lemma all_feeders_append [simp]:
  "all_feeders (ls @ [txs]) = all_feeders ls @ layer_feeders (length ls) txs"
  by (simp add: all_feeders_def enumerate_append_eq)

lemma all_inputs_append [simp]: "all_inputs (ls @ [txs]) = all_inputs ls @ concat (map inputs txs)"
  by (simp add: all_inputs_def)

lemma unconsumed_feeders_distinct: "distinct (unconsumed_feeders ls)"
  by (simp add: unconsumed_feeders_def Let_def all_feeders_distinct)

lemma spent_refs_mem:
  assumes "f \<in> set (all_inputs ls)" and "is_Prior f"
  shows "(prior_layer f, prior_transaction f, prior_output f) \<in> set (spent_refs ls)"
proof -
  have "(prior_layer f, prior_transaction f, prior_output f) \<in> set (input_ref f)"
    using assms(2) by (cases f) simp_all
  with assms(1) show ?thesis by (auto simp: spent_refs_def)
qed

lemma unconsumed_feeders_append:
  assumes "mset (concat (map inputs txs)) \<subseteq># mset (unconsumed_feeders ls)"
  shows "length (unconsumed_feeders (ls @ [txs])) + length (concat (map inputs txs))
     \<le> length (unconsumed_feeders ls) + length (layer_feeders (length ls) txs)"
proof -
  let ?ref = "\<lambda>f. (prior_layer f, prior_transaction f, prior_output f)"
  let ?ins = "concat (map inputs txs)" and ?U = "unconsumed_feeders ls"
  let ?keep = "\<lambda>f. ?ref f \<notin> set (spent_refs (ls @ [txs]))"
  have sub: "set ?ins \<subseteq> set ?U" using set_mset_mono [OF assms] by (simp only: set_mset_mset)
  have prior: "is_Prior f" if "f \<in> set ?ins" for f
    using that sub all_feeders_Prior by (auto simp: unconsumed_feeders_def Let_def)
  have "?ref f \<in> set (spent_refs (ls @ [txs]))" if "f \<in> set ?ins" for f
    using that prior [OF that] by (intro spent_refs_mem) simp_all
  then have "set (filter ?keep (all_feeders ls)) \<subseteq> set ?U - set ?ins"
    by (auto simp: unconsumed_feeders_def Let_def spent_refs_def)
  then have "card (set (filter ?keep (all_feeders ls))) \<le> card (set ?U - set ?ins)"
    by (intro card_mono) simp_all
  also have "\<dots> = length ?U - length ?ins"
    using sub distinct_submultiset [OF assms unconsumed_feeders_distinct] unconsumed_feeders_distinct
    by (simp add: card_Diff_subset distinct_card del: set_concat)
  finally have "length (filter ?keep (all_feeders ls)) \<le> length ?U - length ?ins"
    by (simp add: distinct_card all_feeders_distinct del: set_filter)
  moreover have "length ?ins \<le> length ?U" using size_mset_mono [OF assms] by simp
  moreover have "length (filter ?keep (layer_feeders (length ls) txs))
      \<le> length (layer_feeders (length ls) txs)" by (rule length_filter_le)
  moreover have eq: "unconsumed_feeders (ls @ [txs]) =
      filter ?keep (all_feeders ls) @ filter ?keep (layer_feeders (length ls) txs)"
    by (simp add: unconsumed_feeders_def Let_def)
  ultimately show ?thesis unfolding eq length_append by linarith
qed

lemma consolidation_feeders:
  "\<forall>tx \<in> set txs. consolidation_ok fee tx \<Longrightarrow> length (feeders_from li ti txs) = length txs"
  by (induction txs arbitrary: ti) (auto simp: consolidation_ok_def tx_feeders_def)

function residual_loop ::
    "note_order \<Rightarrow> u64 \<Rightarrow> prep_transaction list list \<Rightarrow> prep_transaction list list" where
  "residual_loop pick fee ls =
     (let pool = unconsumed_feeders ls in
      if length pool \<le> 1 then ls
      else let (txs, _, _) = consolidate pick pool (length ls) fee [] []
           in if txs = [] then ls else residual_loop pick fee (ls @ [txs]))"
  by pat_completeness auto
termination
proof (relation "measure (\<lambda>(_, _, ls). length (unconsumed_feeders ls))")
  fix pick fee and ls :: "prep_transaction list list"
  fix pool x txs y a b
  assume "pool = unconsumed_feeders ls" and x: "x = consolidate pick pool (length ls) fee [] []"
    "(txs, y) = x" "(a, b) = y" and "txs \<noteq> []"
  then have "consolidate pick pool (length ls) fee [] [] = (txs, a, b)" by simp
  from consolidate_spec [OF this]
  have ok: "\<forall>tx \<in> set txs. consolidation_ok fee tx"
    and sub: "mset (concat (map inputs txs)) \<subseteq># mset (unconsumed_feeders ls)"
    using \<open>pool = unconsumed_feeders ls\<close> by (auto, metis mset_subset_eq_add_left)
  have "2 * length txs \<le> length (concat (map inputs txs))"
    using consolidation_shrinks [OF ok subset_mset.order_refl] .
  moreover have "length (layer_feeders (length ls) txs) = length txs"
    unfolding layer_feeders_eq using ok by (rule consolidation_feeders)
  moreover have "0 < length txs" using \<open>txs \<noteq> []\<close> by simp
  ultimately have "length (unconsumed_feeders (ls @ [txs])) < length (unconsumed_feeders ls)"
    using unconsumed_feeders_append [OF sub] by linarith
  then show "((pick, fee, ls @ [txs]), (pick, fee, ls))
      \<in> measure (\<lambda>(_, _, ls). length (unconsumed_feeders ls))" by simp
qed simp

declare residual_loop.simps [simp del]

section \<open>The plan\<close>

text \<open>\<open>max_by_key\<close> over indexed values: the last of the largest.\<close>

definition max_by_value :: "(usize \<times> u64) list \<Rightarrow> (usize \<times> u64) option" where
  "max_by_value ps =
     foldl (\<lambda>best p. case best of None \<Rightarrow> Some p
                        | Some b \<Rightarrow> (if snd b \<le> snd p then Some p else Some b)) None ps"

definition unused_notes :: "u64 list \<Rightarrow> bool list \<Rightarrow> (usize \<times> u64) list" where
  "unused_notes available used = filter (\<lambda>(i, _). \<not> used ! i) (enumerate 0 available)"

definition wallet_input :: "usize \<times> u64 \<Rightarrow> prep_input" where
  "wallet_input p = Wallet (fst p) (snd p)"

definition plan_preparation_greedy ::
    "note_order \<Rightarrow> u64 list \<Rightarrow> u64 list \<Rightarrow> u64 \<Rightarrow> prep_error + preparation_plan" where
  "plan_preparation_greedy pick available funding fee_per_tx =
     (if sum_list available > MAX_MONEY then Inl BalanceInvalid
      else if sum_list funding > MAX_MONEY then Inl BalanceInvalid
      else
        let (used, remaining, direct) =
              extract_direct_funding available (sort_desc (filter (\<lambda>v. v > 0) funding))
        in if remaining = [] then Inr (plan_from_parts [] direct)
           else
             let (ls, remaining') =
                   (case max_by_value (unused_notes available used) of
                      Some (idx, big) \<Rightarrow>
                        (if big \<ge> snd (subtree_cost remaining fee_per_tx)
                         then (build_split (Wallet idx big) big remaining fee_per_tx 0 [], [])
                         else ([], remaining))
                    | None \<Rightarrow> ([], remaining));
                 current = map wallet_input (unused_notes available used)
             in rbind (greedy_loop pick fee_per_tx current remaining' ls) (\<lambda>ls'.
                  Inr (plan_from_parts (relabel_change (residual_loop pick fee_per_tx ls')) direct)))"

function consolidation_loop ::
    "note_order \<Rightarrow> u64 \<Rightarrow> prep_input list \<Rightarrow> prep_transaction list list \<Rightarrow>
     prep_error + prep_input list \<times> prep_transaction list list" where
  "consolidation_loop pick fee current ls =
     (if length current \<le> 1 then Inr (current, ls)
      else let (txs, next, leftover) = consolidate pick current (length ls) fee [] []
           in if txs = [] then Inl InsufficientFunds
              else consolidation_loop pick fee (next @ leftover) (ls @ [txs]))"
  by pat_completeness auto
termination
proof (relation "measure (\<lambda>(_, _, current, _). length current)")
  fix pick fee current and ls :: "prep_transaction list list"
  fix x txs y "next" leftover
  assume "x = consolidate pick current (length ls) fee [] []" "(txs, y) = x" "(next, leftover) = y"
    and "txs \<noteq> []"
  then have "consolidate pick current (length ls) fee [] [] = (txs, next, leftover)" by simp
  from consolidate_spec [OF this]
  have ok: "\<forall>tx \<in> set txs. consolidation_ok fee tx" and len: "length next = length txs"
    and acc: "mset (concat (map inputs txs)) + mset leftover = mset current" by auto
  have "2 * length txs \<le> length (concat (map inputs txs))"
    using consolidation_shrinks [OF ok subset_mset.order_refl] .
  moreover have "length (concat (map inputs txs)) + length leftover = length current"
    using arg_cong [OF acc, of size] by simp
  moreover have "0 < length txs" using \<open>txs \<noteq> []\<close> by simp
  ultimately have "length next + length leftover < length current" using len by linarith
  then show "((pick, fee, next @ leftover, ls @ [txs]), (pick, fee, current, ls))
      \<in> measure (\<lambda>(_, _, current, _). length current)" by simp
qed simp

declare consolidation_loop.simps [simp del]

definition plan_preparation_via_consolidation ::
    "note_order \<Rightarrow> u64 list \<Rightarrow> u64 list \<Rightarrow> u64 \<Rightarrow> prep_error + preparation_plan" where
  "plan_preparation_via_consolidation pick available funding fee =
     (if sum_list available > MAX_MONEY then Inl BalanceInvalid
      else if sum_list funding > MAX_MONEY then Inl BalanceInvalid
      else
        let (used, targets, direct) =
              extract_direct_funding available (sort_desc (filter (\<lambda>v. v > 0) funding))
        in if targets = [] then Inr (plan_from_parts [] direct)
           else
             let current = map wallet_input
                   (filter (\<lambda>(_, v). v > 0) (unused_notes available used))
             in if current = [] then Inl InsufficientFunds
                else rbind (consolidation_loop pick fee current []) (\<lambda>(current', ls).
                  let source = last current'; source_value = input_value source in
                  if source_value < snd (subtree_cost targets fee) then Inl InsufficientFunds
                  else Inr (plan_from_parts
                         (relabel_change
                            (build_split source source_value targets fee (length ls) ls)) direct)))"

definition plan_preparation ::
    "note_order \<Rightarrow> u64 list \<Rightarrow> u64 list \<Rightarrow> u64 \<Rightarrow> prep_error + preparation_plan" where
  "plan_preparation pick available funding fee_per_tx =
     (case plan_preparation_greedy pick available funding fee_per_tx of
        Inr plan \<Rightarrow> Inr plan
      | Inl InsufficientFunds \<Rightarrow>
          plan_preparation_via_consolidation pick available funding fee_per_tx
      | Inl e \<Rightarrow> Inl e)"

end
