(* ===== verification/Preparation_Steps.thy ===== *)
theory Preparation_Steps
  imports Preparation_Plan
begin

text \<open>
  The abstract specification of a preparation schedule. A state is the layers scheduled so far and the
  multiset of notes that nothing spends yet. A step appends one transaction to a layer: it spends
  notes of the pool that exist before that layer, it balances up to the fee, it stays in the action
  budget and mints no empty note. The theory proves the invariant of the reachable states; the planner
  is shown to move along these steps in the next theory.
\<close>

section \<open>The step relation\<close>

definition balanced :: "u64 \<Rightarrow> prep_transaction \<Rightarrow> bool" where
  "balanced fee tx \<longleftrightarrow>
     sum_list (map input_value (inputs tx)) = sum_list (map output_value (outputs tx)) + fee"

definition tx_ok :: "u64 \<Rightarrow> prep_transaction \<Rightarrow> bool" where
  "tx_ok fee tx \<longleftrightarrow> balanced fee tx \<and> action_count tx \<le> PREP_TX_ACTIONS
     \<and> (\<forall>out \<in> set (outputs tx). 0 < output_value out)"

text \<open>While the schedule is built no output is labelled as change.\<close>

definition draft_ok :: "u64 \<Rightarrow> prep_transaction \<Rightarrow> bool" where
  "draft_ok fee tx \<longleftrightarrow> tx_ok fee tx \<and> (\<forall>out \<in> set (outputs tx). \<not> is_Change out)"

type_synonym prep_state = "prep_transaction list list \<times> prep_input multiset"

definition next_index :: "usize \<Rightarrow> prep_transaction list list \<Rightarrow> usize" where
  "next_index k ls = length (pad_layers k ls ! k)"

inductive prep_step :: "u64 \<Rightarrow> prep_state \<Rightarrow> prep_state \<Rightarrow> bool" for fee where
  schedule: "prep_step fee (ls, pool)
      (push_tx k tx ls, pool - mset (inputs tx) + mset (tx_feeders k (next_index k ls) tx))"
  if "mset (inputs tx) \<subseteq># pool" "\<forall>f \<in> set (inputs tx). is_Prior f \<longrightarrow> prior_layer f < k"
    "k \<le> length ls" "draft_ok fee tx"

inductive_cases prep_stepE: "prep_step fee s s'"

definition prep_reach :: "u64 \<Rightarrow> prep_input list \<Rightarrow> prep_state \<Rightarrow> bool" where
  "prep_reach fee notes s \<longleftrightarrow> (prep_step fee)\<^sup>*\<^sup>* ([], mset notes) s"

lemma prep_reach_start: "prep_reach fee ns ([], mset ns)"
  by (simp add: prep_reach_def)

lemma prep_reach_step: "prep_reach fee ns s \<Longrightarrow> prep_step fee s s' \<Longrightarrow> prep_reach fee ns s'"
  by (simp add: prep_reach_def)

section \<open>Appending a transaction\<close>

lemma push_tx_new: "push_tx (length ls) tx ls = ls @ [[tx]]"
  by (simp add: push_tx_def pad_layers_def)

lemma push_tx_old: "k < length ls \<Longrightarrow> push_tx k tx ls = ls[k := ls ! k @ [tx]]"
  by (simp add: push_tx_def pad_layers_def nth_append list_update_append)

lemma next_index_new: "next_index (length ls) ls = 0"
  by (simp add: next_index_def pad_layers_def)

lemma next_index_old: "k < length ls \<Longrightarrow> next_index k ls = length (ls ! k)"
  by (simp add: next_index_def pad_layers_def nth_append)

lemma push_tx_cases:
  assumes "k \<le> length ls"
  obtains "k = length ls" "push_tx k tx ls = ls @ [[tx]]" "next_index k ls = 0"
    | "k < length ls" "push_tx k tx ls = ls[k := ls ! k @ [tx]]" "next_index k ls = length (ls ! k)"
proof (cases "k = length ls")
  case True
  then show ?thesis by (intro that(1)) (simp_all add: push_tx_new next_index_new)
next
  case False
  then have "k < length ls" using assms by simp
  then show ?thesis by (intro that(2)) (simp_all add: push_tx_old next_index_old)
qed

lemma length_push_tx: "k \<le> length ls \<Longrightarrow> length (push_tx k tx ls) = max (length ls) (Suc k)"
  by (rule push_tx_cases [of k ls tx]) auto

lemma mset_concat_update:
  "k < length xss \<Longrightarrow> mset (concat (xss[k := xss ! k @ [x]])) = add_mset x (mset (concat xss))"
  by (induction xss arbitrary: k) (auto split: nat.splits)

lemma mset_push_tx: "k \<le> length ls \<Longrightarrow> mset (concat (push_tx k tx ls)) = add_mset tx (mset (concat ls))"
  by (rule push_tx_cases [of k ls tx]) (auto simp: mset_concat_update)

lemma mset_concat_map: "mset (concat (map f xs)) = (\<Sum>x \<in># mset xs. mset (f x))"
  by (induction xs) auto

lemma mset_all_inputs_push:
  "k \<le> length ls \<Longrightarrow> mset (all_inputs (push_tx k tx ls)) = mset (all_inputs ls) + mset (inputs tx)"
  by (simp add: all_inputs_def mset_concat_map mset_push_tx)

lemma mset_all_outputs_push:
  "k \<le> length ls \<Longrightarrow> mset (all_outputs (push_tx k tx ls)) = mset (all_outputs ls) + mset (outputs tx)"
  by (simp add: all_outputs_def mset_concat_map mset_push_tx)

lemma mset_concat_enumerate_update:
  "k < length xs \<Longrightarrow> mset (concat (map f (enumerate n (xs[k := y])))) + mset (f (n + k, xs ! k)) =
     mset (concat (map f (enumerate n xs))) + mset (f (n + k, y))"
proof (induction xs arbitrary: k n)
  case (Cons x xs)
  then show ?case
    using Cons.IH [of "k - 1" "Suc n"] by (cases k) (auto simp: ac_simps)
qed simp

lemma feeders_from_append:
  "feeders_from li ti (txs @ [tx]) = feeders_from li ti txs @ tx_feeders li (ti + length txs) tx"
  by (simp add: feeders_from_def enumerate_append_eq)

lemma mset_all_feeders_push:
  assumes "k \<le> length ls"
  shows "mset (all_feeders (push_tx k tx ls)) =
     mset (all_feeders ls) + mset (tx_feeders k (next_index k ls) tx)"
  using assms
proof (rule push_tx_cases [of k ls tx])
  assume "k = length ls" "push_tx k tx ls = ls @ [[tx]]" "next_index k ls = 0"
  then show ?thesis by (simp add: layer_feeders_eq)
next
  assume k: "k < length ls" "push_tx k tx ls = ls[k := ls ! k @ [tx]]"
      "next_index k ls = length (ls ! k)"
  have "mset (all_feeders (ls[k := ls ! k @ [tx]])) + mset (layer_feeders k (ls ! k)) =
      mset (all_feeders ls) + mset (layer_feeders k (ls ! k @ [tx]))"
    unfolding all_feeders_def
    using mset_concat_enumerate_update [OF k(1), of "\<lambda>(li, txs). layer_feeders li txs" 0] by simp
  then show ?thesis by (simp add: k(2,3) layer_feeders_eq feeders_from_append)
qed

lemma nth_push_tx:
  assumes "k \<le> length ls" and "j < length (push_tx k tx ls)" and "t \<in> set (push_tx k tx ls ! j)"
  shows "(j < length ls \<and> t \<in> set (ls ! j)) \<or> (j = k \<and> t = tx)"
  using assms(1)
proof (rule push_tx_cases [of k ls tx])
  assume "k = length ls" "push_tx k tx ls = ls @ [[tx]]" "next_index k ls = 0"
  with assms(2,3) show ?thesis by (cases "j = k") (auto simp: nth_append)
next
  assume "k < length ls" "push_tx k tx ls = ls[k := ls ! k @ [tx]]" "next_index k ls = length (ls ! k)"
  with assms(2,3) show ?thesis by (cases "j = k") auto
qed

section \<open>The invariant of reachable states\<close>

definition layers_ordered :: "prep_transaction list list \<Rightarrow> bool" where
  "layers_ordered ls \<longleftrightarrow> (\<forall>k < length ls. \<forall>tx \<in> set (ls ! k). \<forall>f \<in> set (inputs tx).
     is_Prior f \<longrightarrow> prior_layer f < k)"

definition prep_inv :: "u64 \<Rightarrow> prep_input list \<Rightarrow> prep_state \<Rightarrow> bool" where
  "prep_inv fee ns s \<longleftrightarrow>
     (case s of (ls, pool) \<Rightarrow>
        (\<forall>tx \<in> set (concat ls). draft_ok fee tx) \<and> layers_ordered ls
        \<and> mset (all_inputs ls) + pool = mset ns + mset (all_feeders ls))"

lemma prep_inv_step:
  assumes "prep_inv fee ns s" and "prep_step fee s s'"
  shows "prep_inv fee ns s'"
  using assms(2)
proof (cases rule: prep_step.cases)
  case (schedule tx pool k ls)
  note inv = assms(1) [unfolded schedule(1) prep_inv_def prod.case]
  have "set (concat (push_tx k tx ls)) = insert tx (set (concat ls))"
    using mset_push_tx [OF schedule(5), of tx] by (metis set_mset_add_mset_insert set_mset_mset)
  then have "\<forall>t \<in> set (concat (push_tx k tx ls)). draft_ok fee t" using inv schedule(6) by simp
  moreover have "layers_ordered (push_tx k tx ls)"
    using inv schedule(4) nth_push_tx [OF schedule(5)] unfolding layers_ordered_def by blast
  moreover have "mset (all_inputs ls) + mset (inputs tx) + (pool - mset (inputs tx)) =
      mset ns + mset (all_feeders ls)"
    using inv schedule(3) by (simp add: union_assoc)
  ultimately show ?thesis
    by (simp add: prep_inv_def schedule(2) mset_all_inputs_push mset_all_feeders_push schedule(5)
        union_assoc [symmetric])
qed

lemma prep_inv_reach: "prep_reach fee ns s \<Longrightarrow> prep_inv fee ns s"
  unfolding prep_reach_def
proof (induction rule: rtranclp_induct)
  case base
  show ?case
    by (simp add: prep_inv_def layers_ordered_def all_inputs_def all_feeders_def)
qed (rule prep_inv_step)

text \<open>The wallet notes a plan starts from.\<close>

definition wallet_notes :: "prep_input list \<Rightarrow> bool" where
  "wallet_notes ns \<longleftrightarrow> (\<forall>n \<in> set ns. is_Wallet n) \<and> distinct ns"

lemma reach_account:
  "prep_reach fee ns (ls, pool) \<Longrightarrow> mset (all_inputs ls) + pool = mset ns + mset (all_feeders ls)"
  by (drule prep_inv_reach) (simp add: prep_inv_def)

lemma reach_member:
  assumes "prep_reach fee ns (ls, pool)" and "wallet_notes ns"
    and "f \<in> set (all_inputs ls) \<or> f \<in># pool"
  shows "if is_Wallet f then f \<in> set ns else f \<in> set (all_feeders ls)"
proof -
  have "f \<in># mset (all_inputs ls) + pool" using assms(3) by auto
  then have "f \<in># mset ns + mset (all_feeders ls)" unfolding reach_account [OF assms(1)] .
  then show ?thesis
    using assms(2) all_feeders_Prior [of f ls] by (cases f) (auto simp: wallet_notes_def)
qed

lemma reach_pool_layer:
  assumes "prep_reach fee ns (ls, pool)" and "wallet_notes ns" and "f \<in># pool" and "is_Prior f"
  shows "prior_layer f < length ls"
  using reach_member [OF assms(1,2), of f] assms(3,4) all_feeders_Prior [of f ls] by (cases f) auto

text \<open>Nothing is spent twice.\<close>

lemma reach_distinct:
  assumes "prep_reach fee ns (ls, pool)" and "wallet_notes ns"
  shows "distinct (all_inputs ls)"
proof -
  have "distinct (ns @ all_feeders ls)"
    using assms(2) all_feeders_distinct [of ls]
    by (auto simp: wallet_notes_def dest!: all_feeders_Prior)
  moreover have "mset (all_inputs ls) \<subseteq># mset (ns @ all_feeders ls)"
    unfolding mset_append reach_account [OF assms(1), symmetric] by simp
  ultimately show ?thesis by (rule distinct_submultiset [rotated])
qed

text \<open>The feeders that the planner finds unspent are exactly those of the pool.\<close>

lemma reach_unconsumed:
  assumes "prep_reach fee ns (ls, pool)" and "wallet_notes ns"
  shows "mset (unconsumed_feeders ls) \<subseteq># pool"
    and "f \<in># pool \<Longrightarrow> is_Prior f \<Longrightarrow> f \<in> set (unconsumed_feeders ls)"
proof -
  let ?ref = "\<lambda>f. (prior_layer f, prior_transaction f, prior_output f)"
  have spent: "?ref f \<in> set (spent_refs ls) \<longleftrightarrow> f \<in> set (all_inputs ls)"
    if fa: "f \<in> set (all_feeders ls)" for f
  proof
    assume "?ref f \<in> set (spent_refs ls)"
    then obtain g where g: "g \<in> set (all_inputs ls)" "?ref f \<in> set (input_ref g)"
      by (auto simp: spent_refs_def)
    then obtain l t oi v where gp: "g = Prior l t oi v" and ref: "?ref f = (l, t, oi)"
      by (cases g rule: prep_input.exhaust) simp_all
    have "g \<in> set (all_feeders ls)" using reach_member [OF assms, of g] g(1) gp by simp
    moreover obtain w where "f = Prior l t oi w"
      using all_feeders_Prior [OF fa] ref by (cases f rule: prep_input.exhaust) simp_all
    ultimately have "f = g" using fa gp by (simp add: mem_all_feeders)
    with g(1) show "f \<in> set (all_inputs ls)" by simp
  next
    assume "f \<in> set (all_inputs ls)"
    then show "?ref f \<in> set (spent_refs ls)"
      using all_feeders_Prior [OF fa] by (intro spent_refs_mem) auto
  qed
  have acc: "count (mset (all_inputs ls)) f + count pool f = count (mset ns) f + count (mset (all_feeders ls)) f"
    for f using arg_cong [OF reach_account [OF assms(1)], of "\<lambda>m. count m f"] by simp
  show "mset (unconsumed_feeders ls) \<subseteq># pool"
  proof (rule mset_subset_eqI)
    fix f
    show "count (mset (unconsumed_feeders ls)) f \<le> count pool f"
    proof (cases "f \<in> set (unconsumed_feeders ls)")
      case True
      then have f: "f \<in> set (all_feeders ls)" "f \<notin> set (all_inputs ls)"
        using spent by (auto simp: unconsumed_feeders_def Let_def)
      then have "count (mset (all_feeders ls)) f = 1"
        using all_feeders_distinct [of ls] by (simp add: distinct_count_atmost_1)
      moreover have "count (mset (unconsumed_feeders ls)) f = 1"
        using True unconsumed_feeders_distinct [of ls] by (simp add: distinct_count_atmost_1)
      moreover have "count (mset (all_inputs ls)) f = 0" using f(2) by (simp add: count_mset_0_iff)
      ultimately show ?thesis using acc [of f] by linarith
    next
      case False
      then have "count (mset (unconsumed_feeders ls)) f = 0" by (simp add: count_mset_0_iff)
      then show ?thesis by linarith
    qed
  qed
  show "f \<in> set (unconsumed_feeders ls)" if "f \<in># pool" "is_Prior f"
  proof -
    have f: "f \<in> set (all_feeders ls)"
      using reach_member [OF assms, of f] that by (cases f) auto
    have "f \<notin> set ns" using assms(2) that(2) by (cases f) (auto simp: wallet_notes_def)
    then have "count (mset (all_inputs ls)) f + count pool f = 1"
      using acc [of f] f all_feeders_distinct [of ls]
      by (simp add: distinct_count_atmost_1 count_mset_0_iff)
    moreover have "0 < count pool f" using that(1) by simp
    ultimately have "count (mset (all_inputs ls)) f = 0" by linarith
    then have "f \<notin> set (all_inputs ls)" by (simp add: count_mset_0_iff)
    with f spent show ?thesis by (auto simp: unconsumed_feeders_def Let_def)
  qed
qed

section \<open>Appending a layer\<close>

lemma reach_append_layer:
  assumes reach: "prep_reach fee ns (ls, pool)" and ns: "wallet_notes ns"
    and "txs \<noteq> []" and "\<forall>tx \<in> set txs. draft_ok fee tx" and "mset (concat (map inputs txs)) \<subseteq># pool"
  shows "prep_reach fee ns (ls @ [txs],
     pool - mset (concat (map inputs txs)) + mset (layer_feeders (length ls) txs))"
  using assms(3-5)
proof (induction txs rule: rev_induct)
  case (snoc tx txs)
  let ?k = "length ls"
  have sub: "mset (inputs tx) \<subseteq># pool - mset (concat (map inputs txs))"
    "mset (concat (map inputs txs)) \<subseteq># pool"
    using snoc.prems(3) by (auto dest: submultiset_split)
  have early: "\<forall>f \<in> set (inputs tx). is_Prior f \<longrightarrow> prior_layer f < ?k"
  proof (intro ballI impI)
    fix f assume "f \<in> set (inputs tx)" "is_Prior f"
    moreover from this(1) have "f \<in># pool" using mset_subset_eqD [OF sub(1)] in_diffD by fastforce
    ultimately show "prior_layer f < ?k" by (intro reach_pool_layer [OF reach ns])
  qed
  have ok: "draft_ok fee tx" using snoc.prems(2) by simp
  show ?case
  proof (cases "txs = []")
    case True
    have "prep_step fee (ls, pool) (push_tx ?k tx ls,
        pool - mset (inputs tx) + mset (tx_feeders ?k (next_index ?k ls) tx))"
      using sub(1) True early ok by (intro schedule) simp_all
    from prep_reach_step [OF reach this] True show ?thesis
      by (simp add: push_tx_new next_index_new layer_feeders_eq)
  next
    case False
    let ?s = "(ls @ [txs], pool - mset (concat (map inputs txs)) + mset (layer_feeders ?k txs))"
    have r: "prep_reach fee ns ?s" using snoc.IH False snoc.prems(2) sub(2) by simp
    have "prep_step fee ?s (push_tx ?k tx (ls @ [txs]), snd ?s - mset (inputs tx)
        + mset (tx_feeders ?k (next_index ?k (ls @ [txs])) tx))"
      unfolding snd_conv using sub(1) early ok
      by (intro schedule) (simp_all add: subset_mset.add_increasing2)
    moreover have "P + F - I = P - I + F" if "I \<subseteq># P" for P F I :: "prep_input multiset"
      using that by (simp add: subset_mset.add_diff_assoc2)
    ultimately show ?thesis
      using prep_reach_step [OF r] sub(1)
      by (simp add: push_tx_old next_index_old layer_feeders_eq feeders_from_append union_assoc)
  qed
qed simp

end
