(* ===== verification/Preparation_Correct.thy ===== *)
theory Preparation_Correct
  imports Preparation_Steps
begin

text \<open>
  The planner of \<open>migration/preparation_plan.rs\<close> refines the abstract preparation steps: the layers it
  builds are reachable, whatever order the unstable sort leaves equal notes in. From the invariant of
  reachable states follow the properties of a finished plan: every transaction balances within the
  action budget, spends are valid and never repeated, exactly the requested funding notes are minted,
  value is conserved, and at most one residual note is worth a fee.
\<close>

section \<open>Transactions that the planner builds\<close>

definition funding_values :: "prep_transaction list list \<Rightarrow> u64 list" where
  "funding_values ls = concat (map funding_value (all_outputs ls))"

lemma mset_funding_push:
  "k \<le> length ls \<Longrightarrow> mset (funding_values (push_tx k tx ls)) =
     mset (funding_values ls) + mset (concat (map funding_value (outputs tx)))"
  by (simp add: funding_values_def mset_concat_map mset_all_outputs_push)

lemma funding_values_append:
  "mset (funding_values (ls @ [txs])) =
     mset (funding_values ls) + mset (concat (map funding_value (concat (map outputs txs))))"
  by (simp add: funding_values_def all_outputs_def)

lemma with_leftover_simps [simp]:
  "sum_list (map output_value (with_leftover outs v)) = sum_list (map output_value outs) + v"
  "length (with_leftover outs v) \<le> Suc (length outs)"
  "concat (map funding_value (with_leftover outs v)) = concat (map funding_value outs)"
  "(\<forall>out \<in> set (with_leftover outs v). 0 < output_value out) \<longleftrightarrow>
     (\<forall>out \<in> set outs. 0 < output_value out)"
  "(\<forall>out \<in> set (with_leftover outs v). \<not> is_Change out) \<longleftrightarrow> (\<forall>out \<in> set outs. \<not> is_Change out)"
  by (auto simp: with_leftover_def)

lemma funding_value_maps [simp]:
  "concat (map funding_value (map Funding vs)) = vs"
  "concat (map funding_value (map Intermediate vs)) = []"
  "map output_value (map Funding vs) = vs" "map output_value (map Intermediate vs) = vs"
  by (induction vs) auto

lemma funding_value_comp [simp]:
  "concat (map (\<lambda>v. funding_value (Funding v)) vs) = vs"
  "concat (map (funding_value \<circ> Funding) vs) = vs"
  by (induction vs) auto

lemma partial_tx_ok:
  assumes "partial_ok fee p" and "\<forall>v \<in> set (fst (snd p)). 0 < v"
  shows "draft_ok fee (partial_tx p)"
proof -
  obtain nt as lo where p: "p = (nt, as, lo)" by (metis prod_cases3)
  have "length (with_leftover (map Funding as) lo) \<le> 15"
    using with_leftover_simps(2) [of "map Funding as" lo] assms(1)
    by (simp add: p partial_ok_def const_defs)
  with assms show ?thesis
    by (auto simp: p partial_ok_def partial_tx_def draft_ok_def tx_ok_def balanced_def
        action_count_def prep_tx_def const_defs comp_def)
qed

lemma partial_tx_feeders:
  "tx_feeders li ti (partial_tx (nt, as, lo)) = (if lo > 0 then [Prior li ti (length as) lo] else [])"
proof -
  have "concat (map (output_feeder li ti) (enumerate n (map Funding as))) = []" for n
    by (induction as arbitrary: n) auto
  then show ?thesis
    by (simp add: tx_feeders_def partial_tx_def prep_tx_def with_leftover_def enumerate_append_eq)
qed

lemma pass2_feeders_eq: "pass2_feeders li ti ps = feeders_from li ti (map partial_tx ps)"
  by (induction li ti ps rule: pass2_feeders.induct) (simp_all add: partial_tx_feeders)

lemma partial_tx_simps [simp]:
  "inputs (partial_tx p) = [fst p]"
  "concat (map funding_value (outputs (partial_tx p))) = fst (snd p)"
  by (auto simp: partial_tx_def prep_tx_def split: prod.splits)

lemma partial_txs_inputs: "concat (map inputs (map partial_tx ps)) = partial_notes ps"
  by (induction ps) (auto simp: partial_notes_def)

lemma partial_txs_funding:
  "concat (map funding_value (concat (map outputs (map partial_tx ps)))) = partial_values ps"
  by (induction ps) (auto simp: partial_values_def)

lemma consolidation_tx_ok: "consolidation_ok fee tx \<Longrightarrow> draft_ok fee tx"
  by (auto simp: consolidation_ok_def draft_ok_def tx_ok_def balanced_def action_count_def const_defs)

lemma consolidation_funding:
  "\<forall>tx \<in> set txs. consolidation_ok fee tx \<Longrightarrow>
     concat (map funding_value (concat (map outputs txs))) = []"
  by (induction txs) (auto simp: consolidation_ok_def)

section \<open>The layered greedy\<close>

lemma greedy_layer_step:
  assumes reach: "prep_reach fee ns (ls, pool)" and ns: "wallet_notes ns"
    and layer: "greedy_layer pick fee (length ls) current remaining = (txs, next, remaining')"
    and "txs \<noteq> []" and cur: "mset current \<subseteq># pool" and pos: "\<forall>v \<in> set remaining. 0 < v"
  shows "\<exists>pool'. prep_reach fee ns (ls @ [txs], pool') \<and> mset next \<subseteq># pool'
     \<and> mset (funding_values (ls @ [txs])) + mset remaining' = mset (funding_values ls) + mset remaining
     \<and> (\<forall>v \<in> set remaining'. 0 < v)"
  using layer
proof (rule greedy_layer_spec)
  fix partial new
  assume txs: "txs = map partial_tx partial @ new"
    and nxt: "next = pass2_feeders (length ls) 0 partial @ feeders_from (length ls) (length partial) new"
    and ok: "\<forall>p \<in> set partial. partial_ok fee p" "\<forall>tx \<in> set new. consolidation_ok fee tx"
    and sub: "mset (partial_notes partial) + mset (concat (map inputs new)) \<subseteq># mset current"
    and vals: "mset (partial_values partial) + mset remaining' = mset remaining"
  have vset: "set (partial_values partial) \<union> set remaining' = set remaining"
    using arg_cong [OF vals, of set_mset] by simp
  have "set (fst (snd p)) \<subseteq> set (partial_values partial)" if "p \<in> set partial" for p
    using that by (auto simp: partial_values_def)
  then have "\<forall>p \<in> set partial. \<forall>v \<in> set (fst (snd p)). 0 < v" using vset pos by blast
  then have txok: "\<forall>tx \<in> set txs. draft_ok fee tx"
    using ok by (auto simp: txs partial_tx_ok consolidation_tx_ok)
  have ins: "mset (concat (map inputs txs)) = mset (partial_notes partial) + mset (concat (map inputs new))"
    by (simp only: txs map_append concat_append mset_append partial_txs_inputs)
  have "mset (concat (map inputs txs)) \<subseteq># pool"
    unfolding ins using sub cur by (rule subset_mset.order_trans)
  note r = reach_append_layer [OF reach ns \<open>txs \<noteq> []\<close> txok this]
  have "layer_feeders (length ls) txs = next"
    by (simp add: layer_feeders_eq txs nxt pass2_feeders_eq feeders_from_def enumerate_append_eq)
  then have "mset next \<subseteq># pool - mset (concat (map inputs txs)) + mset (layer_feeders (length ls) txs)"
    by simp
  moreover have "concat (map funding_value (concat (map outputs txs))) = partial_values partial"
    using partial_txs_funding [of partial] consolidation_funding [OF ok(2)]
    by (simp only: txs map_append concat_append append_Nil2)
  then have "mset (funding_values (ls @ [txs])) + mset remaining' = mset (funding_values ls) + mset remaining"
    by (simp add: funding_values_append vals [symmetric] union_assoc)
  moreover have "\<forall>v \<in> set remaining'. 0 < v" using vset pos by auto
  ultimately show ?thesis using r by blast
qed

lemma greedy_loop_reach:
  assumes "prep_reach fee ns (ls, pool)" and "wallet_notes ns" and "mset current \<subseteq># pool"
    and "\<forall>v \<in> set remaining. 0 < v" and "greedy_loop pick fee current remaining ls = Inr ls'"
  shows "\<exists>pool'. prep_reach fee ns (ls', pool')
     \<and> mset (funding_values ls') = mset (funding_values ls) + mset remaining"
  using assms
proof (induction pick fee current remaining ls arbitrary: pool rule: greedy_loop.induct)
  case (1 pick fee current remaining ls)
  show ?case
  proof (cases "remaining = []")
    case True
    then have "ls' = ls" using "1.prems"(5) by (subst (asm) greedy_loop.simps) simp
    with True "1.prems"(1) show ?thesis by auto
  next
    case False
    obtain txs nxt rem where layer: "greedy_layer pick fee (length ls) current remaining = (txs, nxt, rem)"
      by (metis prod_cases3)
    have cur: "current \<noteq> []" "txs \<noteq> []"
      and rec: "greedy_loop pick fee nxt rem (ls @ [txs]) = Inr ls'"
      using "1.prems"(5) False layer by (subst (asm) greedy_loop.simps, simp split: if_splits)+
    obtain pool' where p: "prep_reach fee ns (ls @ [txs], pool')" "mset nxt \<subseteq># pool'"
        "mset (funding_values (ls @ [txs])) + mset rem = mset (funding_values ls) + mset remaining"
        "\<forall>v \<in> set rem. 0 < v"
      using greedy_layer_step [OF "1.prems"(1,2) layer cur(2) "1.prems"(3,4)] by blast
    from "1.IH" [OF False cur(1) layer [symmetric] refl refl cur(2) p(1) "1.prems"(2) p(2,4) rec] p(3)
    show ?thesis by simp
  qed
qed

section \<open>Consolidation\<close>

lemma consolidate_reach:
  assumes reach: "prep_reach fee ns (ls, pool)" and ns: "wallet_notes ns"
    and c: "consolidate pick notes (length ls) fee [] [] = (txs, nxt, leftover)"
    and "txs \<noteq> []" and sub: "mset notes \<subseteq># pool"
  shows "prep_reach fee ns (ls @ [txs], pool - mset (concat (map inputs txs)) + mset nxt)"
    and "mset (concat (map inputs txs)) + mset leftover = mset notes"
    and "mset nxt + mset leftover \<subseteq># pool - mset (concat (map inputs txs)) + mset nxt"
    and "mset (funding_values (ls @ [txs])) = mset (funding_values ls)"
proof -
  from consolidate_spec [OF c] have ok: "\<forall>tx \<in> set txs. consolidation_ok fee tx"
    and nxt: "nxt = feeders_from (length ls) 0 txs"
    and acc: "mset (concat (map inputs txs)) + mset leftover = mset notes" by auto
  have "mset (concat (map inputs txs)) \<subseteq># pool"
    using sub [folded acc] by (rule submultiset_split)
  from reach_append_layer [OF reach ns \<open>txs \<noteq> []\<close> _ this] ok
  show "prep_reach fee ns (ls @ [txs], pool - mset (concat (map inputs txs)) + mset nxt)"
    by (simp add: consolidation_tx_ok layer_feeders_eq nxt)
  show "mset (concat (map inputs txs)) + mset leftover = mset notes" by (rule acc)
  have "mset leftover \<subseteq># pool - mset (concat (map inputs txs))"
    using sub [folded acc] by (rule submultiset_split)
  then show "mset nxt + mset leftover \<subseteq># pool - mset (concat (map inputs txs)) + mset nxt"
    by (simp add: union_commute)
  show "mset (funding_values (ls @ [txs])) = mset (funding_values ls)"
    using consolidation_funding [OF ok] by (simp add: funding_values_append)
qed

lemma residual_loop_reach:
  assumes "prep_reach fee ns (ls, pool)" and "wallet_notes ns"
  shows "\<exists>pool'. prep_reach fee ns (residual_loop pick fee ls, pool')
     \<and> mset (funding_values (residual_loop pick fee ls)) = mset (funding_values ls)"
  using assms
proof (induction pick fee ls arbitrary: pool rule: residual_loop.induct)
  case (1 pick fee ls)
  let ?U = "unconsumed_feeders ls"
  obtain txs nxt lo where c: "consolidate pick ?U (length ls) fee [] [] = (txs, nxt, lo)"
    by (metis prod_cases3)
  show ?case
  proof (cases "length ?U \<le> 1 \<or> txs = []")
    case True
    then have "residual_loop pick fee ls = ls"
      by (subst residual_loop.simps) (auto simp: c Let_def)
    with "1.prems"(1) show ?thesis by auto
  next
    case False
    then have eq: "residual_loop pick fee ls = residual_loop pick fee (ls @ [txs])"
      by (subst residual_loop.simps) (simp add: c Let_def)
    have ne: "\<not> length ?U \<le> 1" "txs \<noteq> []" using False by auto
    note r = consolidate_reach [OF "1.prems" c ne(2) reach_unconsumed(1) [OF "1.prems"]]
    from "1.IH" [OF refl ne(1) refl c [symmetric] refl ne(2) r(1) "1.prems"(2)] r(4)
    show ?thesis unfolding eq by auto
  qed
qed

lemma reach_feeder_pos:
  assumes "prep_reach fee ns (ls, pool)" and "f \<in> set (all_feeders ls)"
  shows "0 < input_value f"
proof -
  obtain l t oi v where f: "f = Prior l t oi v" using all_feeders_Prior [OF assms(2)]
    by (cases f rule: prep_input.exhaust) auto
  with assms(2) have m: "l < length ls" "t < length (ls ! l)" "oi < length (outputs (ls ! l ! t))"
      "outputs (ls ! l ! t) ! oi = Intermediate v" by (simp_all add: mem_all_feeders)
  then have "ls ! l ! t \<in> set (concat ls)" "Intermediate v \<in> set (outputs (ls ! l ! t))"
    by (auto, metis nth_mem, metis nth_mem)
  with prep_inv_reach [OF assms(1)] f show ?thesis
    by (fastforce simp: prep_inv_def draft_ok_def tx_ok_def)
qed

text \<open>When no batch is worth a fee, no note of the pool is.\<close>

lemma less_batch_sum:
  assumes "f \<in> set xs" and "2 \<le> length xs" and "\<forall>x \<in> set xs. 0 < input_value x"
  shows "input_value f < sum_list (map input_value xs)"
proof -
  have "sum_list (map input_value xs) = input_value f + sum_list (map input_value (remove1 f xs))"
    using assms(1) by (simp add: sum_list_map_remove1)
  moreover obtain g where "g \<in> set (remove1 f xs)"
    using assms(1,2) by (cases "remove1 f xs") (auto simp: length_remove1 dest: arg_cong [of _ _ length])
  then have "0 < sum_list (map input_value (remove1 f xs))"
    using assms(3) member_le_sum_list_nat [of "input_value g" "map input_value (remove1 f xs)"]
    by (metis (no_types, lifting) image_eqI le_zero_eq list.set_map not_gr_zero notin_set_remove1)
  ultimately show ?thesis by simp
qed

lemma consolidate_batches_none_Cons:
  assumes "fst (consolidate_batches layer fee (s # sizes) pool [] [] leftover) = []"
    and "sum_list (s # sizes) = length pool"
    and "\<forall>s \<in> set sizes. 2 \<le> s \<and> s \<le> CONSOLIDATION_INPUTS_PER_TX"
  shows "sum_list (map input_value (take s pool)) \<le> fee"
    and "fst (consolidate_batches layer fee sizes (drop s pool) [] [] (leftover @ take s pool)) = []"
    and "sum_list sizes = length (drop s pool)"
proof -
  let ?batch = "take s pool" and ?sum = "sum_list (map input_value (take s pool))"
  show len: "sum_list sizes = length (drop s pool)" using assms(2) by simp
  show le: "?sum \<le> fee"
  proof (rule ccontr)
    assume gt: "\<not> ?sum \<le> fee"
    let ?r = "consolidate_batches layer fee sizes (drop s pool)
        [prep_tx ?batch [Intermediate (?sum - fee)]] [Prior layer 0 0 (?sum - fee)] leftover"
    have "fst ?r = []" using assms(1) gt by (simp add: Let_def)
    moreover obtain a b c where r: "?r = (a, b, c)" by (metis prod_cases3)
    moreover have "a \<noteq> []" using consolidate_batches_spec [OF r len assms(3)] by auto
    ultimately show False by simp
  qed
  show "fst (consolidate_batches layer fee sizes (drop s pool) [] [] (leftover @ ?batch)) = []"
    using assms(1) le by (simp add: Let_def)
qed

lemma consolidate_batches_none:
  assumes "fst (consolidate_batches layer fee sizes pool [] [] leftover) = []"
    and "sum_list sizes = length pool" and "\<forall>s \<in> set sizes. 2 \<le> s \<and> s \<le> CONSOLIDATION_INPUTS_PER_TX"
    and "\<forall>x \<in> set pool. 0 < input_value x" and "f \<in> set pool"
  shows "input_value f < fee"
  using assms
proof (induction sizes arbitrary: pool leftover)
  case (Cons s sizes)
  have "\<forall>s \<in> set sizes. 2 \<le> s \<and> s \<le> CONSOLIDATION_INPUTS_PER_TX" using Cons.prems(3) by simp
  note step = consolidate_batches_none_Cons [OF Cons.prems(1,2) this]
  show ?case
  proof (cases "f \<in> set (take s pool)")
    case True
    then have "input_value f < sum_list (map input_value (take s pool))"
      using Cons.prems(2-4) by (intro less_batch_sum) (auto dest: in_set_takeD)
    with step(1) show ?thesis by simp
  next
    case False
    then have "f \<in> set (drop s pool)" using Cons.prems(5) by (metis Un_iff append_take_drop_id set_append)
    moreover have "\<forall>x \<in> set (drop s pool). 0 < input_value x"
      using Cons.prems(4) by (blast dest: in_set_dropD)
    ultimately show ?thesis using Cons.IH [OF step(2,3)] Cons.prems(3) by simp
  qed
qed simp

lemma consolidate_batches_none_sum:
  assumes "fst (consolidate_batches layer fee sizes pool [] [] leftover) = []"
    and "sum_list sizes = length pool" and "\<forall>s \<in> set sizes. 2 \<le> s \<and> s \<le> CONSOLIDATION_INPUTS_PER_TX"
  shows "sum_list (map input_value pool) \<le> fee * length sizes"
  using assms
proof (induction sizes arbitrary: pool leftover)
  case (Cons s sizes)
  have "\<forall>s \<in> set sizes. 2 \<le> s \<and> s \<le> CONSOLIDATION_INPUTS_PER_TX" using Cons.prems(3) by simp
  note step = consolidate_batches_none_Cons [OF Cons.prems(1,2) this]
  have "sum_list (map input_value pool) =
      sum_list (map input_value (take s pool)) + sum_list (map input_value (drop s pool))"
    by (metis append_take_drop_id map_append sum_list_append)
  then show ?case using Cons.IH [OF step(2,3) \<open>\<forall>s \<in> set sizes. _ s\<close>] step(1) by simp
qed simp

definition residual_ok :: "u64 \<Rightarrow> prep_transaction list list \<Rightarrow> bool" where
  "residual_ok fee ls \<longleftrightarrow>
     length (filter (\<lambda>f. fee \<le> input_value f) (unconsumed_feeders ls)) \<le> 1"

lemma residual_ok_short: "length (unconsumed_feeders ls) \<le> 1 \<Longrightarrow> residual_ok fee ls"
  unfolding residual_ok_def using length_filter_le le_trans by blast

lemma residual_ok_none:
  assumes "prep_reach fee ns (ls, pool)" and "1 < length (unconsumed_feeders ls)"
    and "fst (consolidate pick (unconsumed_feeders ls) (length ls) fee [] []) = []"
  shows "residual_ok fee ls"
proof -
  let ?U = "unconsumed_feeders ls"
  have "\<forall>f \<in> set ?U. 0 < input_value f"
    using reach_feeder_pos [OF assms(1)] by (auto simp: unconsumed_feeders_def Let_def)
  moreover have "fst (consolidate_batches (length ls) fee (consolidation_batch_sizes (length ?U))
      (sort_unstable_desc pick ?U) [] [] []) = []" using assms(2,3) by (simp add: consolidate_def)
  ultimately have "input_value f < fee" if "f \<in> set ?U" for f
    using consolidate_batches_none [of "length ls" fee "consolidation_batch_sizes (length ?U)"
        "sort_unstable_desc pick ?U" "[]" f] consolidation_batch_sizes_spec [OF assms(2)] that by simp
  then have "filter (\<lambda>f. fee \<le> input_value f) ?U = []" by (auto simp: filter_empty_conv not_le)
  then show ?thesis by (simp add: residual_ok_def)
qed

lemma residual_loop_end:
  assumes "prep_reach fee ns (ls, pool)" and "wallet_notes ns"
  shows "residual_ok fee (residual_loop pick fee ls)"
  using assms
proof (induction pick fee ls arbitrary: pool rule: residual_loop.induct)
  case (1 pick fee ls)
  let ?U = "unconsumed_feeders ls"
  obtain txs nxt lo where c: "consolidate pick ?U (length ls) fee [] [] = (txs, nxt, lo)"
    by (metis prod_cases3)
  consider "length ?U \<le> 1" | "\<not> length ?U \<le> 1" "txs = []" | "\<not> length ?U \<le> 1" "txs \<noteq> []" by blast
  then show ?case
  proof cases
    case 1
    then show ?thesis
      by (subst residual_loop.simps) (simp add: Let_def residual_ok_short)
  next
    case 2
    then have "residual_loop pick fee ls = ls" by (subst residual_loop.simps) (simp add: Let_def c)
    then show ?thesis using residual_ok_none [OF "1.prems"(1), of pick] 2 c by simp
  next
    case 3
    then have "residual_loop pick fee ls = residual_loop pick fee (ls @ [txs])"
      by (subst residual_loop.simps) (simp add: c Let_def)
    moreover note r = consolidate_reach [OF "1.prems" c 3(2) reach_unconsumed(1) [OF "1.prems"]]
    ultimately show ?thesis
      using "1.IH" [OF refl 3(1) refl c [symmetric] refl 3(2) r(1) "1.prems"(2)] by simp
  qed
qed

lemma consolidation_loop_reach:
  assumes "prep_reach fee ns (ls, pool)" and "wallet_notes ns" and "mset current \<subseteq># pool"
    and "consolidation_loop pick fee current ls = Inr (current', ls')"
  shows "\<exists>pool'. prep_reach fee ns (ls', pool') \<and> mset current' \<subseteq># pool'
     \<and> mset (funding_values ls') = mset (funding_values ls) \<and> length current' \<le> 1
     \<and> (current \<noteq> [] \<longrightarrow> current' \<noteq> []) \<and> (mset current = pool \<longrightarrow> mset current' = pool')"
  using assms
proof (induction pick fee current ls arbitrary: pool rule: consolidation_loop.induct)
  case (1 pick fee current ls)
  obtain txs nxt lo where c: "consolidate pick current (length ls) fee [] [] = (txs, nxt, lo)"
    by (metis prod_cases3)
  show ?case
  proof (cases "length current \<le> 1")
    case True
    then have "current' = current" "ls' = ls"
      using "1.prems"(4) by (subst (asm) consolidation_loop.simps, simp)+
    with True "1.prems"(1,3) show ?thesis by auto
  next
    case False
    have ne: "txs \<noteq> []" and rec: "consolidation_loop pick fee (nxt @ lo) (ls @ [txs]) = Inr (current', ls')"
      using "1.prems"(4) False c by (subst (asm) consolidation_loop.simps, simp split: if_splits)+
    note r = consolidate_reach [OF "1.prems"(1,2) c ne "1.prems"(3)]
    have "nxt \<noteq> []" using consolidate_spec [OF c] ne by auto
    moreover have "mset (nxt @ lo) = pool - mset (concat (map inputs txs)) + mset nxt"
      if "mset current = pool" unfolding that [symmetric] r(2) [symmetric] by simp
    ultimately show ?thesis
      using "1.IH" [OF False c [symmetric] refl refl ne r(1) "1.prems"(2) _ rec] r(3,4) by auto
  qed
qed

section \<open>The balanced split\<close>

lemma subtree_cost_value: "snd (subtree_cost ts fee) = sum_list ts + fee * fst (subtree_cost ts fee)"
proof (induction ts rule: length_induct)
  case (1 ts)
  show ?case
  proof (cases "split_depth (length ts) \<le> 1")
    case True
    then show ?thesis by (subst (1 2) subtree_cost.simps) simp
  next
    case False
    then have d: "1 < split_depth (length ts)" by simp
    let ?c = "\<lambda>grp. subtree_cost grp fee"
    have "sum_list (map (snd \<circ> ?c) (split_groups ts)) =
        sum_list (map (\<lambda>grp. sum_list grp + fee * fst (?c grp)) (split_groups ts))"
      using 1 split_groups_spec(3) [OF d] by (intro arg_cong [of _ _ sum_list] map_cong) auto
    also have "\<dots> = sum_list (map sum_list (split_groups ts))
        + fee * sum_list (map (fst \<circ> ?c) (split_groups ts))"
      by (simp add: sum_list_addf sum_list_const_mult comp_def)
    also have "sum_list (map sum_list (split_groups ts)) = sum_list ts"
      using split_groups_spec(1) [OF d] by (metis sum_list_concat_nat)
    finally show ?thesis
      using False by (subst (1 2) subtree_cost.simps) (simp add: Let_def comp_def algebra_simps)
  qed
qed

definition cost :: "u64 \<Rightarrow> u64 list \<Rightarrow> u64" where
  "cost fee ts = snd (subtree_cost ts fee)"

lemma cost_leaf: "split_depth (length ts) \<le> 1 \<Longrightarrow> cost fee ts = sum_list ts + fee"
  unfolding cost_def by (subst subtree_cost.simps) simp

lemma cost_node:
  "\<not> split_depth (length ts) \<le> 1 \<Longrightarrow> cost fee ts = fee + sum_list (map (cost fee) (split_groups ts))"
  unfolding cost_def by (subst subtree_cost.simps) (simp add: Let_def comp_def cost_def [abs_def])

lemma cost_ge: "sum_list ts \<le> cost fee ts"
  by (simp add: cost_def subtree_cost_value)

lemma node_feeders:
  "tx_feeders li ti (prep_tx [source] (with_leftover (map Intermediate vs) lo)) =
     map (\<lambda>(oi, v). Prior li ti oi v) (enumerate 0 vs)
     @ (if lo > 0 then [Prior li ti (length vs) lo] else [])"
proof -
  have "concat (map (output_feeder li ti) (enumerate n (map Intermediate vs))) =
      map (\<lambda>(oi, v). Prior li ti oi v) (enumerate n vs)" for n
    by (induction vs arbitrary: n) auto
  then show ?thesis
    by (simp add: tx_feeders_def prep_tx_def with_leftover_def enumerate_append_eq)
qed

text \<open>What one call of the split promises, as used for each child.\<close>

definition split_promise ::
    "u64 \<Rightarrow> prep_input list \<Rightarrow> u64 list \<Rightarrow> bool" where
  "split_promise fee ns ts \<longleftrightarrow>
     (\<forall>source layer ls pool. prep_reach fee ns (ls, pool) \<longrightarrow> source \<in># pool \<longrightarrow>
        (is_Prior source \<longrightarrow> prior_layer source < layer) \<longrightarrow> layer \<le> length ls \<longrightarrow>
        cost fee ts \<le> input_value source \<longrightarrow>
        (let ls' = build_split source (input_value source) ts fee layer ls in
         \<exists>rest. prep_reach fee ns (ls', pool - {#source#} + mset rest)
           \<and> (cost fee ts = input_value source \<longrightarrow> rest = []) \<and> length rest \<le> 1
           \<and> mset (funding_values ls') = mset (funding_values ls) + mset ts
           \<and> length ls \<le> length ls' \<and> layer < length ls'))"

abbreviation child :: "u64 \<Rightarrow> usize \<Rightarrow> usize \<Rightarrow> usize \<times> u64 list \<Rightarrow> prep_input" where
  "child fee layer ti og \<equiv> Prior layer ti (fst og) (cost fee (snd og))"

lemma children_reach:
  assumes "\<forall>grp \<in> set groups. split_promise fee ns grp"
    and "prep_reach fee ns (ls, pool)" and "Suc layer \<le> length ls"
    and "mset (map (child fee layer ti) (enumerate n groups)) \<subseteq># pool"
  shows "let ls' = fold (\<lambda>og ls. build_split (child fee layer ti og) (cost fee (snd og)) (snd og) fee
              (Suc layer) ls) (enumerate n groups) ls
     in prep_reach fee ns (ls', pool - mset (map (child fee layer ti) (enumerate n groups)))
        \<and> mset (funding_values ls') = mset (funding_values ls) + mset (concat groups)
        \<and> length ls \<le> length ls'"
  using assms
proof (induction groups arbitrary: n ls pool)
  case (Cons grp groups)
  let ?src = "child fee layer ti (n, grp)"
  let ?ls = "build_split ?src (cost fee grp) grp fee (Suc layer) ls"
  let ?rest = "mset (map (child fee layer ti) (enumerate (Suc n) groups))"
  have sub: "{#?src#} + ?rest \<subseteq># pool" using Cons.prems(4) by simp
  have "?src \<in># pool" using submultiset_split(1) [OF sub] by simp
  with Cons.prems(1-3) have r: "prep_reach fee ns (?ls, pool - {#?src#})"
      "mset (funding_values ?ls) = mset (funding_values ls) + mset grp" "length ls \<le> length ?ls"
    by (auto simp: split_promise_def Let_def dest!: spec [of _ ?src])
  from Cons.IH [OF _ r(1) _ submultiset_split(2) [OF sub]] Cons.prems(1,3) r(2,3)
  show ?case by (auto simp: Let_def union_assoc diff_add_mset_swap)
qed simp

lemma build_split_leaf:
  "split_depth (length ts) \<le> 1 \<Longrightarrow>
     build_split source v ts fee layer ls =
       push_tx layer (prep_tx [source] (with_leftover (map Funding ts) (v - cost fee ts))) ls"
  by (subst build_split.simps) (simp add: cost_leaf Let_def diff_diff_eq add.commute)

lemma build_split_node:
  assumes "\<not> split_depth (length ts) \<le> 1"
  shows "build_split source v ts fee layer ls =
     fold (\<lambda>og ls'. build_split (child fee layer (next_index layer ls) og) (cost fee (snd og)) (snd og)
             fee (Suc layer) ls')
       (enumerate 0 (split_groups ts))
       (push_tx layer (prep_tx [source] (with_leftover
          (map Intermediate (map (cost fee) (split_groups ts))) (v - cost fee ts))) ls)"
proof -
  have "v - snd (subtree_cost ts fee) =
      v - fee - sum_list (map (\<lambda>grp. snd (subtree_cost grp fee)) (split_groups ts))"
    using cost_node [OF assms, of fee] by (simp add: cost_def [abs_def])
  with assms show ?thesis
    by (subst build_split.simps)
       (simp add: Let_def case_prod_unfold next_index_def cost_def [abs_def] comp_def del: diff_diff_left)
qed

lemma cost_pos: "ts \<noteq> [] \<Longrightarrow> \<forall>v \<in> set ts. 0 < v \<Longrightarrow> 0 < cost fee ts"
  using cost_ge [of ts fee] by (cases ts) auto

lemma split_tx_ok:
  assumes "length outs \<le> 14" and "\<forall>out \<in> set outs. 0 < output_value out \<and> \<not> is_Change out"
    and "input_value source = sum_list (map output_value outs) + lo + fee"
  shows "draft_ok fee (prep_tx [source] (with_leftover outs lo))"
proof -
  have "length (with_leftover outs lo) \<le> 15"
    using with_leftover_simps(2) [of outs lo] assms(1) by linarith
  with assms show ?thesis
    by (simp add: draft_ok_def tx_ok_def balanced_def action_count_def prep_tx_def const_defs)
qed

lemma split_push_reach:
  assumes "prep_reach fee ns (ls, pool)" and "source \<in># pool"
    and "is_Prior source \<longrightarrow> prior_layer source < layer" and "layer \<le> length ls"
    and "draft_ok fee (prep_tx [source] outs)"
  shows "prep_reach fee ns (push_tx layer (prep_tx [source] outs) ls,
     pool - {#source#} + mset (tx_feeders layer (next_index layer ls) (prep_tx [source] outs)))"
proof -
  let ?tx = "prep_tx [source] outs"
  have "prep_step fee (ls, pool) (push_tx layer ?tx ls,
      pool - mset (inputs ?tx) + mset (tx_feeders layer (next_index layer ls) ?tx))"
    using assms(2-5) by (intro schedule) (simp_all add: prep_tx_def)
  from prep_reach_step [OF assms(1) this] show ?thesis by (simp add: prep_tx_def)
qed

lemma split_promise_leaf:
  assumes "split_depth (length ts) \<le> 1" and "\<forall>v \<in> set ts. 0 < v"
  shows "split_promise fee ns ts"
  unfolding split_promise_def Let_def
proof (intro allI impI)
  fix source layer ls pool
  assume reach: "prep_reach fee ns (ls, pool)" and src: "source \<in># pool"
    and early: "is_Prior source \<longrightarrow> prior_layer source < layer" and layer: "layer \<le> length ls"
    and v: "cost fee ts \<le> input_value source"
  let ?lo = "input_value source - cost fee ts" and ?ti = "next_index layer ls"
  let ?outs = "with_leftover (map Funding ts) ?lo"
  have "draft_ok fee (prep_tx [source] ?outs)"
    using assms v split_depth_le_1_iff [of "length ts"]
    by (intro split_tx_ok) (auto simp: cost_leaf comp_def)
  note r = split_push_reach [OF reach src early layer this]
  have f: "tx_feeders layer ?ti (prep_tx [source] ?outs) =
      (if 0 < ?lo then [Prior layer ?ti (length ts) ?lo] else [])"
    using partial_tx_feeders [of layer ?ti source ts ?lo] by (simp add: partial_tx_def)
  show "\<exists>rest. prep_reach fee ns (build_split source (input_value source) ts fee layer ls,
          pool - {#source#} + mset rest)
      \<and> (cost fee ts = input_value source \<longrightarrow> rest = []) \<and> length rest \<le> 1
      \<and> mset (funding_values (build_split source (input_value source) ts fee layer ls)) =
          mset (funding_values ls) + mset ts
      \<and> length ls \<le> length (build_split source (input_value source) ts fee layer ls)
      \<and> layer < length (build_split source (input_value source) ts fee layer ls)"
    unfolding build_split_leaf [OF assms(1)]
    using r [unfolded f] layer
    by (intro exI [of _ "if 0 < ?lo then [Prior layer ?ti (length ts) ?lo] else []"])
       (auto simp: length_push_tx mset_funding_push prep_tx_def)
qed

lemma split_promise_node:
  assumes node: "\<not> split_depth (length ts) \<le> 1" and pos: "\<forall>v \<in> set ts. 0 < v"
    and children: "\<forall>grp \<in> set (split_groups ts). split_promise fee ns grp"
  shows "split_promise fee ns ts"
  unfolding split_promise_def Let_def
proof (intro allI impI)
  fix source layer ls pool
  assume reach: "prep_reach fee ns (ls, pool)" and src: "source \<in># pool"
    and early: "is_Prior source \<longrightarrow> prior_layer source < layer" and layer: "layer \<le> length ls"
    and v: "cost fee ts \<le> input_value source"
  let ?lo = "input_value source - cost fee ts" and ?ti = "next_index layer ls"
  let ?groups = "split_groups ts" and ?G = "enumerate 0 (split_groups ts)"
  let ?outs = "with_leftover (map Intermediate (map (cost fee) ?groups)) ?lo"
  let ?tx = "prep_tx [source] ?outs"
  have spec: "concat ?groups = ts" "length ?groups \<le> 14"
    using node split_groups_spec(1,2) [of ts] by simp_all
  have "0 < cost fee grp" if "grp \<in> set ?groups" for grp
  proof (rule cost_pos)
    show "grp \<noteq> []" using that node split_groups_spec(3) [of ts grp] by auto
    show "\<forall>v \<in> set grp. 0 < v" using that pos spec(1) by (metis UN_I set_concat)
  qed
  then have "draft_ok fee ?tx"
    using spec(2) v by (intro split_tx_ok) (auto simp: cost_node [OF node] comp_def)
  note r = split_push_reach [OF reach src early layer this]
  let ?rest = "if 0 < ?lo then [Prior layer ?ti (length ?groups) ?lo] else []"
  have "map (\<lambda>(oi, v). Prior layer ?ti oi v) (enumerate 0 (map (cost fee) ?groups)) =
      map (child fee layer ?ti) ?G"
    by (simp add: enumerate_map_upt [symmetric] enumerate_eq_zip zip_map2 case_prod_unfold comp_def)
  then have f: "mset (tx_feeders layer ?ti ?tx) = mset (map (child fee layer ?ti) ?G) + mset ?rest"
    unfolding node_feeders by (simp only: mset_append length_map)
  have "mset (map (child fee layer ?ti) ?G) \<subseteq># pool - {#source#} + mset (tx_feeders layer ?ti ?tx)"
    unfolding f by simp
  from children_reach [OF children r _ this] layer spec(1)
  show "\<exists>rest. prep_reach fee ns (build_split source (input_value source) ts fee layer ls,
          pool - {#source#} + mset rest)
      \<and> (cost fee ts = input_value source \<longrightarrow> rest = []) \<and> length rest \<le> 1
      \<and> mset (funding_values (build_split source (input_value source) ts fee layer ls)) =
          mset (funding_values ls) + mset ts
      \<and> length ls \<le> length (build_split source (input_value source) ts fee layer ls)
      \<and> layer < length (build_split source (input_value source) ts fee layer ls)"
    unfolding build_split_node [OF node] f
    by (intro exI [of _ ?rest]) (auto simp: Let_def length_push_tx mset_funding_push prep_tx_def
        union_assoc)
qed

lemma split_promise_holds: "\<forall>v \<in> set ts. 0 < v \<Longrightarrow> split_promise fee ns ts"
proof (induction ts rule: length_induct)
  case (1 ts)
  show ?case
  proof (cases "split_depth (length ts) \<le> 1")
    case False
    have "split_promise fee ns grp" if "grp \<in> set (split_groups ts)" for grp
    proof -
      have "length grp < length ts" "set grp \<subseteq> set ts"
        using that False split_groups_spec(1,3) [of ts] by (auto, metis UN_I set_concat)
      with 1 show ?thesis by blast
    qed
    with False 1(2) show ?thesis by (intro split_promise_node) auto
  qed (use 1(2) in \<open>auto intro: split_promise_leaf\<close>)
qed

end
