(* ===== verification/Preparation_Properties.thy ===== *)
theory Preparation_Properties
  imports Preparation_Correct
begin

text \<open>
  The properties of a finished preparation plan, derived from reachability of its layers.
\<close>

section \<open>Direct funding\<close>

definition direct_ok :: "u64 list \<Rightarrow> bool list \<Rightarrow> (usize \<times> u64) list \<Rightarrow> bool" where
  "direct_ok available used direct \<longleftrightarrow>
     distinct (map fst direct)
     \<and> (\<forall>(i, v) \<in> set direct. i < length available \<and> available ! i = v \<and> used ! i)"

lemma find_unused_Some:
  "find_unused available used funding = Some i \<Longrightarrow>
     i < length available \<and> \<not> used ! i \<and> available ! i = funding"
  by (auto simp: find_unused_def find_Some_iff)

lemma retain_unfunded_spec:
  assumes "retain_unfunded available used remaining = (used', kept, direct)"
    and "length used = length available"
  shows "length used' = length available \<and> mset kept + mset (map snd direct) = mset remaining
     \<and> direct_ok available used' direct \<and> (\<forall>i. used ! i \<longrightarrow> i < length used \<longrightarrow> used' ! i)
     \<and> (\<forall>(i, v) \<in> set direct. \<not> used ! i)
     \<and> (\<forall>i < length available. used' ! i \<longrightarrow> used ! i \<or> i \<in> fst ` set direct)"
  using assms
proof (induction remaining arbitrary: used kept direct)
  case (Cons funding rest)
  show ?case
  proof (cases "find_unused available used funding")
    case None
    obtain u k d where rec: "retain_unfunded available used rest = (u, k, d)" by (metis prod_cases3)
    then have "used' = u" "kept = funding # k" "direct = d" using Cons.prems(1) None by simp_all
    with Cons.IH [OF rec [folded \<open>used' = u\<close>] Cons.prems(2)] show ?thesis by simp
  next
    case (Some i)
    obtain u k d where rec: "retain_unfunded available (used[i := True]) rest = (u, k, d)"
      by (metis prod_cases3)
    then have eq: "used' = u" "kept = k" "direct = (i, funding) # d" using Cons.prems(1) Some by simp_all
    note i = find_unused_Some [OF Some]
    from Cons.IH [OF rec [folded eq(1)]] Cons.prems(2) i
    have IH: "length used' = length available" "mset k + mset (map snd d) = mset rest"
        "direct_ok available used' d" "\<forall>j. used[i := True] ! j \<longrightarrow> j < length used \<longrightarrow> used' ! j"
        "\<forall>(j, v) \<in> set d. \<not> used[i := True] ! j"
        "\<forall>j < length available. used' ! j \<longrightarrow> used[i := True] ! j \<or> j \<in> fst ` set d"
      by simp_all
    have "i < length used" using i Cons.prems(2) by simp
    then have "i \<notin> fst ` set d" and used_i: "used' ! i" using IH(4,5) by auto
    moreover have "\<not> used ! j" if "(j, v) \<in> set d" for j v
      using that IH(5) \<open>i \<notin> fst ` set d\<close> by (metis (no_types, lifting) case_prodD fst_conv imageI nth_list_update_neq)
    moreover have "used' ! j" if "used ! j" "j < length used" for j
      using that IH(4) \<open>i < length used\<close> by (cases "j = i") auto
    moreover have "used ! j \<or> j \<in> fst ` set direct" if "j < length available" "used' ! j" for j
      using that IH(6) eq(3) by (cases "j = i") auto
    ultimately show ?thesis
      using IH(1-3) i unfolding eq by (auto simp: direct_ok_def)
  qed
qed (auto simp: direct_ok_def)

lemma extract_direct_funding_spec:
  assumes "extract_direct_funding available remaining = (used, kept, direct)"
  shows "length used = length available" and "mset kept + mset (map snd direct) = mset remaining"
    and "direct_ok available used direct"
    and "\<And>i. i < length available \<Longrightarrow> used ! i \<longleftrightarrow> i \<in> fst ` set direct"
  using retain_unfunded_spec [OF assms [unfolded extract_direct_funding_def]]
  by (fastforce simp: direct_ok_def)+

section \<open>The notes a plan may spend\<close>

definition spendable :: "u64 list \<Rightarrow> (usize \<times> u64) list \<Rightarrow> prep_input list \<Rightarrow> bool" where
  "spendable available direct ns \<longleftrightarrow> wallet_notes ns
     \<and> (\<forall>n \<in> set ns. \<exists>i < length available. n = Wallet i (available ! i) \<and> i \<notin> fst ` set direct)
     \<and> sum_list (map input_value ns) + sum_list (map snd direct) \<le> sum_list available"

lemma unused_notes_eq:
  "unused_notes available used =
     map (\<lambda>i. (i, available ! i)) (filter (\<lambda>i. \<not> used ! i) [0 ..< length available])"
proof -
  have "enumerate 0 available = map (\<lambda>i. (i, available ! i)) [0 ..< length available]"
    by (rule nth_equalityI) (simp_all add: nth_enumerate_eq)
  then show ?thesis by (simp add: unused_notes_def filter_map comp_def)
qed

lemma unused_sum:
  assumes "extract_direct_funding available remaining = (used, kept, direct)"
  shows "sum_list (map snd (unused_notes available used)) + sum_list (map snd direct) = sum_list available"
proof -
  note e = extract_direct_funding_spec [OF assms]
  let ?f = "\<lambda>i. available ! i" and ?D = "fst ` set direct"
  have "sum_list (map snd direct) = sum_list (map ?f (map fst direct))"
    unfolding map_map
    by (rule arg_cong [of _ _ sum_list], rule map_cong) (use e(3) in \<open>fastforce simp: direct_ok_def\<close>)+
  also have "\<dots> = sum ?f ?D"
    using e(3) by (simp add: direct_ok_def sum_list_distinct_conv_sum_set del: map_map)
  finally have d: "sum_list (map snd direct) = sum ?f ?D" .
  have "sum_list (map snd (unused_notes available used)) =
      sum_list (map ?f (filter (\<lambda>i. \<not> used ! i) [0 ..< length available]))"
    by (simp add: unused_notes_eq comp_def)
  also have "\<dots> = sum ?f ({0 ..< length available} - ?D)"
    unfolding sum_list_distinct_conv_sum_set [OF distinct_filter [OF distinct_upt]]
    by (rule sum.cong) (use e(4) in auto)
  finally have u: "sum_list (map snd (unused_notes available used)) = sum ?f ({0 ..< length available} - ?D)" .
  have "?D \<subseteq> {0 ..< length available}" using e(3) by (auto simp: direct_ok_def)
  then have "sum_list (map snd (unused_notes available used)) + sum ?f ?D =
      sum ?f {0 ..< length available}"
    unfolding u by (subst (2) sum.subset_diff [of ?D]) simp_all
  then show ?thesis unfolding d sum_list_sum_nth [of available] .
qed

lemma spendable_unused:
  assumes "extract_direct_funding available remaining = (used, kept, direct)"
  shows "spendable available direct (map wallet_input (filter P (unused_notes available used)))"
proof -
  note e = extract_direct_funding_spec [OF assms]
  let ?xs = "filter P (unused_notes available used)"
  have "distinct ?xs" by (simp add: unused_notes_eq distinct_map inj_on_def)
  then have "wallet_notes (map wallet_input ?xs)"
    by (auto simp: wallet_notes_def distinct_map wallet_input_def inj_on_def)
  moreover have "\<exists>i < length available. n = Wallet i (available ! i) \<and> i \<notin> fst ` set direct"
    if "n \<in> set (map wallet_input ?xs)" for n
    using that e(4) by (auto simp: unused_notes_eq wallet_input_def)
  moreover have "sum_list (map input_value (map wallet_input (filter P xs))) \<le> sum_list (map snd xs)" for xs
    by (induction xs) (auto simp: wallet_input_def)
  ultimately show ?thesis
    using unused_sum [OF assms] unfolding spendable_def by (metis add_le_mono1)
qed

section \<open>Relabelling\<close>

lemma relabel_change_nth:
  assumes "li < length ls" and "ti < length (ls ! li)"
  shows "relabel_change ls ! li ! ti = relabel_tx (spent_refs ls) li (ti, ls ! li ! ti)"
  using assms by (simp add: relabel_change_def Let_def nth_enumerate_eq)

lemma relabel_change_lengths [simp]:
  "length (relabel_change ls) = length ls"
  "li < length ls \<Longrightarrow> length (relabel_change ls ! li) = length (ls ! li)"
  by (simp_all add: relabel_change_def Let_def nth_enumerate_eq)

text \<open>Relabelling changes the role of some outputs and nothing else.\<close>

definition same_but_roles :: "prep_transaction \<Rightarrow> prep_transaction \<Rightarrow> bool" where
  "same_but_roles tx tx' \<longleftrightarrow> inputs tx' = inputs tx
     \<and> map output_value (outputs tx') = map output_value (outputs tx)
     \<and> concat (map funding_value (outputs tx')) = concat (map funding_value (outputs tx))"

lemma relabel_output_simps [simp]:
  "output_value (relabel_output spent li ti (oi, out)) = output_value out"
  "funding_value (relabel_output spent li ti (oi, out)) = funding_value out"
  by (cases out; simp)+

lemma map_relabel_output:
  assumes "\<And>oi out. f (relabel_output spent li ti (oi, out)) = f out"
  shows "map (f \<circ> relabel_output spent li ti) (enumerate n outs) = map f outs"
  using assms by (induction outs arbitrary: n) auto

lemma relabel_tx_same: "same_but_roles tx (relabel_tx spent li (ti, tx))"
  by (simp add: same_but_roles_def relabel_tx_def map_relabel_output)

lemma relabel_layer_same:
  "list_all2 same_but_roles txs (map (relabel_tx spent li) (enumerate n txs))"
  by (induction txs arbitrary: n) (auto simp: relabel_tx_same)

lemma relabel_change_same: "list_all2 (list_all2 same_but_roles) ls (relabel_change ls)"
proof -
  have "list_all2 (list_all2 same_but_roles) xs
      (map (\<lambda>(li, txs). map (relabel_tx spent li) (enumerate 0 txs)) (enumerate n xs))" for spent n xs
    by (induction xs arbitrary: n) (auto simp: relabel_layer_same)
  then show ?thesis by (simp add: relabel_change_def Let_def)
qed

lemma same_concat:
  assumes "list_all2 (list_all2 same_but_roles) ls ls'"
  shows "list_all2 same_but_roles (concat ls) (concat ls')"
  using assms by (induction rule: list_all2_induct) (auto intro: list_all2_appendI)

lemma same_all:
  assumes "list_all2 same_but_roles txs txs'"
  shows "concat (map inputs txs') = concat (map inputs txs)"
    and "map output_value (concat (map outputs txs')) = map output_value (concat (map outputs txs))"
    and "concat (map funding_value (concat (map outputs txs'))) =
         concat (map funding_value (concat (map outputs txs)))"
  using assms by (induction rule: list_all2_induct) (auto simp: same_but_roles_def)

lemma relabel_change_simps [simp]:
  "all_inputs (relabel_change ls) = all_inputs ls"
  "map output_value (all_outputs (relabel_change ls)) = map output_value (all_outputs ls)"
  "funding_values (relabel_change ls) = funding_values ls"
  using same_all [OF same_concat [OF relabel_change_same [of ls]]]
  by (simp_all add: all_inputs_def all_outputs_def funding_values_def)

lemma same_tx_ok: "same_but_roles tx tx' \<Longrightarrow> tx_ok fee tx \<Longrightarrow> tx_ok fee tx'"
proof -
  assume same: "same_but_roles tx tx'" and ok: "tx_ok fee tx"
  have v: "map output_value (outputs tx') = map output_value (outputs tx)"
    using same by (simp add: same_but_roles_def)
  have "length (outputs tx') = length (outputs tx)" using arg_cong [OF v, of length] by simp
  moreover have "output_value ` set (outputs tx') = output_value ` set (outputs tx)"
    using arg_cong [OF v, of set] by simp
  ultimately show ?thesis
    using same ok v by (auto simp: same_but_roles_def tx_ok_def balanced_def action_count_def)
       (metis image_iff)
qed

lemma relabel_change_member:
  assumes "tx' \<in> set (concat (relabel_change ls))"
  shows "\<exists>tx \<in> set (concat ls). same_but_roles tx tx'"
proof -
  obtain i where i: "i < length (concat (relabel_change ls))" "concat (relabel_change ls) ! i = tx'"
    using assms unfolding in_set_conv_nth by blast
  note same = same_concat [OF relabel_change_same [of ls]]
  have "same_but_roles (concat ls ! i) tx'" using list_all2_nthD2 [OF same i(1)] i(2) by simp
  moreover have "concat ls ! i \<in> set (concat ls)"
    using i(1) list_all2_lengthD [OF same] by (intro nth_mem) simp
  ultimately show ?thesis by blast
qed

lemma relabel_change_tx_ok:
  assumes "\<forall>tx \<in> set (concat ls). tx_ok fee tx" and "tx' \<in> set (concat (relabel_change ls))"
  shows "tx_ok fee tx'"
  using relabel_change_member [OF assms(2)] assms(1) same_tx_ok by blast

section \<open>Where a plan comes from\<close>

text \<open>The layers of a plan are the relabelled layers of a reachable state, and so on.\<close>

definition plan_origin ::
    "u64 list \<Rightarrow> u64 list \<Rightarrow> u64 \<Rightarrow> preparation_plan \<Rightarrow> prep_input list \<Rightarrow> prep_state \<Rightarrow> bool" where
  "plan_origin available funding fee plan ns s \<longleftrightarrow>
     layers plan = relabel_change (fst s) \<and> prep_reach fee ns s
     \<and> spendable available (direct_funding plan) ns
     \<and> distinct (map fst (direct_funding plan))
     \<and> (\<forall>(i, v) \<in> set (direct_funding plan). i < length available \<and> available ! i = v)
     \<and> mset (funding_values (fst s)) + mset (map snd (direct_funding plan)) =
         mset (filter (\<lambda>v. 0 < v) funding)
     \<and> sum_list available \<le> MAX_MONEY \<and> residual_ok fee (fst s)"

lemma plan_originI:
  assumes "extract_direct_funding available (sort_desc (filter (\<lambda>v. 0 < v) funding)) = (used, kept, direct)"
    and "prep_reach fee (map wallet_input (filter P (unused_notes available used))) (ls, pool)"
    and "mset (funding_values ls) = mset kept" and "\<not> sum_list available > MAX_MONEY"
    and "residual_ok fee ls"
  shows "plan_origin available funding fee (plan_from_parts (relabel_change ls) direct)
     (map wallet_input (filter P (unused_notes available used))) (ls, pool)"
  using assms extract_direct_funding_spec [OF assms(1)] spendable_unused [OF assms(1)]
  by (auto simp: plan_origin_def plan_from_parts_def direct_ok_def)

lemma kept_positive:
  assumes "extract_direct_funding available (sort_desc (filter (\<lambda>v. 0 < v) funding)) = (used, kept, direct)"
  shows "\<forall>v \<in> set kept. 0 < v"
proof -
  have "set kept \<subseteq> set (sort_desc (filter (\<lambda>v. 0 < v) funding))"
    using arg_cong [OF extract_direct_funding_spec(2) [OF assms], of set_mset] by auto
  then show ?thesis by auto
qed

lemma relabel_Nil [simp]: "relabel_change [] = []"
  by (simp add: relabel_change_def)

lemma empty_plan_origin:
  assumes "extract_direct_funding available (sort_desc (filter (\<lambda>v. 0 < v) funding)) = (used, [], direct)"
    and "\<not> sum_list available > MAX_MONEY"
  shows "\<exists>ns s. plan_origin available funding fee (plan_from_parts [] direct) ns s"
  using plan_originI [OF assms(1) prep_reach_start [of fee "map wallet_input (filter (\<lambda>_. True) _)"] _ assms(2)]
  by (auto simp: funding_values_def all_outputs_def residual_ok_def unconsumed_feeders_def all_feeders_def)

lemma max_by_value_mem: "max_by_value ps = Some p \<Longrightarrow> p \<in> set ps"
proof -
  let ?f = "\<lambda>best p. case best of None \<Rightarrow> Some p
      | Some b \<Rightarrow> (if snd b \<le> snd p then Some p else Some b)"
  have "foldl ?f b ps = Some p \<Longrightarrow> p \<in> set ps \<or> b = Some p" for b and ps :: "(usize \<times> u64) list"
    by (induction ps arbitrary: b) (auto split: option.splits if_splits)
  then show "max_by_value ps = Some p \<Longrightarrow> p \<in> set ps" by (auto simp: max_by_value_def)
qed

lemma build_split_from:
  assumes "prep_reach fee ns (ls, pool)" and "source \<in># pool"
    and "is_Prior source \<longrightarrow> prior_layer source < length ls"
    and "snd (subtree_cost ts fee) \<le> input_value source" and "\<forall>v \<in> set ts. 0 < v"
  obtains rest where "prep_reach fee ns (build_split source (input_value source) ts fee (length ls) ls,
      pool - {#source#} + mset rest)" and "length rest \<le> 1"
    and "mset (funding_values (build_split source (input_value source) ts fee (length ls) ls)) =
         mset (funding_values ls) + mset ts"
  using split_promise_holds [OF assms(5), of fee ns] assms(1-4)
  unfolding split_promise_def Let_def cost_def by (metis order_refl)

lemma greedy_origin:
  assumes "plan_preparation_greedy pick available funding fee = Inr plan"
  shows "\<exists>ns s. plan_origin available funding fee plan ns s"
proof -
  have max: "\<not> sum_list available > MAX_MONEY" "\<not> sum_list funding > MAX_MONEY"
    using assms by (auto simp: plan_preparation_greedy_def split: if_splits)
  obtain used remaining direct where ex:
      "extract_direct_funding available (sort_desc (filter (\<lambda>v. 0 < v) funding)) = (used, remaining, direct)"
    by (metis prod_cases3)
  show ?thesis
  proof (cases "remaining = []")
    case True
    then have "plan = plan_from_parts [] direct"
      using assms max by (simp add: plan_preparation_greedy_def ex)
    then show ?thesis using empty_plan_origin [OF ex [unfolded True] max(1)] by simp
  next
    case False
    let ?ns = "map wallet_input (filter (\<lambda>_. True) (unused_notes available used))"
    have ns: "wallet_notes ?ns" using spendable_unused [OF ex, of "\<lambda>_. True"] by (simp only: spendable_def)
    note pos = kept_positive [OF ex]
    define start where "start = (case max_by_value (unused_notes available used) of
        Some (idx, big) \<Rightarrow> (if big \<ge> snd (subtree_cost remaining fee)
           then (build_split (Wallet idx big) big remaining fee 0 [], []) else ([], remaining))
      | None \<Rightarrow> ([], remaining))"
    obtain ls0 rem0 where st: "start = (ls0, rem0)" by fastforce
    obtain ls where loop: "greedy_loop pick fee ?ns rem0 ls0 = Inr ls"
      and plan: "plan = plan_from_parts (relabel_change (residual_loop pick fee ls)) direct"
      using assms max False st [unfolded start_def]
      by (auto simp: plan_preparation_greedy_def ex)
    have "\<exists>pool. prep_reach fee ?ns (ls, pool) \<and> mset (funding_values ls) = mset remaining"
    proof (cases "start = ([], remaining)")
      case True
      then show ?thesis
        using greedy_loop_reach [OF prep_reach_start ns subset_mset.order_refl pos] loop st
        by (auto simp: funding_values_def all_outputs_def)
    next
      case False
      then obtain idx big where big: "max_by_value (unused_notes available used) = Some (idx, big)"
          "big \<ge> snd (subtree_cost remaining fee)"
          "start = (build_split (Wallet idx big) big remaining fee 0 [], [])"
        by (auto simp: start_def split: option.splits if_splits)
      have "Wallet idx big \<in># mset ?ns"
        using max_by_value_mem [OF big(1)] by (force simp: wallet_input_def)
      from build_split_from [OF prep_reach_start this _ _ pos] big(2)
      have "\<exists>pool. prep_reach fee ?ns (fst start, pool) \<and> mset (funding_values (fst start)) = mset remaining"
        unfolding big(3) by (auto simp: funding_values_def all_outputs_def)
      moreover have "ls = fst start"
        using loop st big(3) by (subst (asm) greedy_loop.simps) simp
      ultimately show ?thesis by simp
    qed
    then obtain pool where reach: "prep_reach fee ?ns (ls, pool)"
      and "mset (funding_values ls) = mset remaining" by blast
    with residual_loop_reach [OF this(1) ns, of pick] obtain pool' where
        "prep_reach fee ?ns (residual_loop pick fee ls, pool')"
        "mset (funding_values (residual_loop pick fee ls)) = mset remaining" by auto
    from plan_originI [OF ex this max(1) residual_loop_end [OF reach ns]] show ?thesis unfolding plan by blast
  qed
qed

lemma consolidation_origin:
  assumes "plan_preparation_via_consolidation pick available funding fee = Inr plan"
  shows "\<exists>ns s. plan_origin available funding fee plan ns s"
proof -
  have max: "\<not> sum_list available > MAX_MONEY" "\<not> sum_list funding > MAX_MONEY"
    using assms by (auto simp: plan_preparation_via_consolidation_def split: if_splits)
  obtain used targets direct where ex:
      "extract_direct_funding available (sort_desc (filter (\<lambda>v. 0 < v) funding)) = (used, targets, direct)"
    by (metis prod_cases3)
  show ?thesis
  proof (cases "targets = []")
    case True
    then have "plan = plan_from_parts [] direct"
      using assms max by (simp add: plan_preparation_via_consolidation_def ex)
    then show ?thesis using empty_plan_origin [OF ex [unfolded True] max(1)] by simp
  next
    case False
    let ?ns = "map wallet_input (filter (\<lambda>(_, v). 0 < v) (unused_notes available used))"
    have ns: "wallet_notes ?ns" using spendable_unused [OF ex] by (simp only: spendable_def)
    obtain cur ls where ne: "?ns \<noteq> []" and loop: "consolidation_loop pick fee ?ns [] = Inr (cur, ls)"
      and c: "snd (subtree_cost targets fee) \<le> input_value (last cur)"
      and plan: "plan = plan_from_parts (relabel_change
          (build_split (last cur) (input_value (last cur)) targets fee (length ls) ls)) direct"
      using assms max False
      by (auto simp: plan_preparation_via_consolidation_def ex Let_def split: if_splits)
    obtain pool where r: "prep_reach fee ?ns (ls, pool)" "mset cur = pool"
        "mset (funding_values ls) = mset (funding_values [])" "cur \<noteq> []" "length cur \<le> 1"
      using consolidation_loop_reach [OF prep_reach_start ns subset_mset.order_refl loop] ne by blast
    have src: "last cur \<in># pool" using r(2,4) by auto
    have "is_Prior (last cur) \<longrightarrow> prior_layer (last cur) < length ls"
      using reach_pool_layer [OF r(1) ns src] by blast
    from build_split_from [OF r(1) src this c kept_positive [OF ex]]
    obtain rest where b: "prep_reach fee ?ns
          (build_split (last cur) (input_value (last cur)) targets fee (length ls) ls,
           pool - {#last cur#} + mset rest)" and "length rest \<le> 1"
        and fund: "mset (funding_values
          (build_split (last cur) (input_value (last cur)) targets fee (length ls) ls)) = mset targets"
      using r(3) by (metis (no_types, lifting) add_0 all_outputs_def concat.simps(1) funding_values_def
          list.simps(8) mset.simps(1))
    moreover have "pool = {#last cur#}" using r(2,4,5) by (cases cur) auto
    ultimately have "length (unconsumed_feeders
        (build_split (last cur) (input_value (last cur)) targets fee (length ls) ls)) \<le> 1"
      using size_mset_mono [OF reach_unconsumed(1) [OF b ns]] by simp
    from plan_originI [OF ex b fund max(1) residual_ok_short [OF this]]
    show ?thesis unfolding plan by blast
  qed
qed

lemma plan_preparation_origin:
  assumes "plan_preparation pick available funding fee = Inr plan"
  obtains ns ls pool where "plan_origin available funding fee plan ns (ls, pool)"
proof -
  have "\<exists>ns s. plan_origin available funding fee plan ns s"
    using assms greedy_origin consolidation_origin
    by (auto simp: plan_preparation_def split: sum.splits prep_error.splits)
  then show thesis using that by (metis prod.collapse)
qed

section \<open>A concrete plan\<close>

text \<open>Two funding notes from one wallet note, with an exact match used directly.\<close>

definition example_plan :: preparation_plan where
  "example_plan = plan_from_parts
     [[prep_tx [Wallet 0 100] [Funding 40, Funding 30, Change 22]]] [(1, 50)]"

lemma example_plan_run:
  "plan_preparation (\<lambda>xs. xs) [100, 50] [30, 0, 50, 40] 8 = Inr example_plan"
proof -
  have s: "sort_desc [30, 50, 40] = [50, 40, 30 :: nat]" by (simp add: sort_desc_def)
  have d: "split_depth (Suc (Suc 0)) \<le> Suc 0" using split_depth_le_1_iff [of "Suc (Suc 0)"] by simp
  then have c: "subtree_cost [40, 30] 8 = (1, 78)" by (subst subtree_cost.simps) simp
  have b: "build_split (Wallet 0 100) 100 [40, 30] 8 0 [] =
      [[prep_tx [Wallet 0 100] [Funding 40, Funding 30, Intermediate 22]]]"
    using d
    by (subst build_split.simps) (simp add: push_tx_def pad_layers_def with_leftover_def)
  have r: "residual_loop pick 8 [[prep_tx [Wallet 0 100] [Funding 40, Funding 30, Intermediate 22]]] =
      [[prep_tx [Wallet 0 100] [Funding 40, Funding 30, Intermediate 22]]]" for pick
    by (subst residual_loop.simps) (simp add: unconsumed_feeders_def all_feeders_def layer_feeders_def
        tx_feeders_def prep_tx_def spent_refs_def all_inputs_def)
  have g: "greedy_loop pick fee cur [] ls = Inr ls" for pick fee cur ls
    by (subst greedy_loop.simps) simp
  have rl: "relabel_change [[prep_tx [Wallet 0 100] [Funding 40, Funding 30, Intermediate 22]]] =
      [[prep_tx [Wallet 0 100] [Funding 40, Funding 30, Change 22]]]"
    by (simp add: relabel_change_def relabel_tx_def prep_tx_def spent_refs_def all_inputs_def)
  show ?thesis
    by (simp add: plan_preparation_def plan_preparation_greedy_def const_defs s
        extract_direct_funding_def find_unused_def upt_rec unused_notes_def max_by_value_def c b r g rl
        wallet_input_def example_plan_def)
qed

section \<open>Properties of a plan\<close>

lemma plan_tx_sound:
  assumes "plan_preparation pick available funding fee = Inr plan"
    and "tx \<in> set (concat (layers plan))"
  shows "sum_list (map input_value (inputs tx)) = sum_list (map output_value (outputs tx)) + fee
     \<and> action_count tx \<le> PREP_TX_ACTIONS \<and> (\<forall>out \<in> set (outputs tx). 0 < output_value out)"
proof -
  obtain ns ls pool where o: "plan_origin available funding fee plan ns (ls, pool)"
    using plan_preparation_origin [OF assms(1)] by blast
  then have "\<forall>tx \<in> set (concat ls). tx_ok fee tx"
    using prep_inv_reach [of fee ns "(ls, pool)"] by (simp add: plan_origin_def prep_inv_def draft_ok_def)
  from relabel_change_tx_ok [OF this] assms(2) o have "tx_ok fee tx" by (simp add: plan_origin_def)
  then show ?thesis by (simp add: tx_ok_def balanced_def)
qed

text \<open>
  C23. Every transaction of a plan is one that can be built: its inputs pay its outputs and exactly
  one fee, its logical actions fit the ZIP 318 budget of sixteen, and it mints no empty note.
\<close>

theorem plan_transactions_sound:
  assumes "plan_preparation pick available funding fee = Inr plan"
    and "tx \<in> set (concat (layers plan))"
  shows "sum_list (map input_value (inputs tx)) = sum_list (map output_value (outputs tx)) + fee
     \<and> action_count tx \<le> PREP_TX_ACTIONS \<and> (\<forall>out \<in> set (outputs tx). 0 < output_value out)"
  using assms by (rule plan_tx_sound)

theorem plan_transactions_sound_witness:
  "plan_preparation (\<lambda>xs. xs) [100, 50] [30, 0, 50, 40] 8 = Inr example_plan
   \<and> sum_list (map input_value (inputs (concat (layers example_plan) ! 0))) =
       sum_list (map output_value (outputs (concat (layers example_plan) ! 0))) + 8
   \<and> action_count (concat (layers example_plan) ! 0) \<le> PREP_TX_ACTIONS"
  using plan_transactions_sound [OF example_plan_run, of "concat (layers example_plan) ! 0"]
    example_plan_run by (simp add: example_plan_def plan_from_parts_def)

lemma relabel_outputs_nth:
  assumes "l < length ls" and "t < length (ls ! l)" and "oi < length (outputs (ls ! l ! t))"
  shows "outputs (relabel_change ls ! l ! t) ! oi =
           relabel_output (spent_refs ls) l t (oi, outputs (ls ! l ! t) ! oi)"
    and "length (outputs (relabel_change ls ! l ! t)) = length (outputs (ls ! l ! t))"
  using assms by (simp_all add: relabel_change_nth relabel_tx_def nth_enumerate_eq)

text \<open>A valid input of layer \<open>k\<close>.\<close>

definition input_ok ::
    "u64 list \<Rightarrow> (usize \<times> u64) list \<Rightarrow> prep_transaction list list \<Rightarrow> nat \<Rightarrow> prep_input \<Rightarrow> bool" where
  "input_ok available direct ls k f \<longleftrightarrow>
     (case f of
        Wallet i v \<Rightarrow> i < length available \<and> available ! i = v \<and> i \<notin> fst ` set direct
      | Prior l t oi v \<Rightarrow> l < k \<and> t < length (ls ! l) \<and> oi < length (outputs (ls ! l ! t))
          \<and> outputs (ls ! l ! t) ! oi = Intermediate v)"

lemma relabelled_input_ok:
  assumes r: "prep_reach fee ns (ls, pool)" and sp: "spendable available direct ns"
    and k: "k < length ls" and tx: "tx \<in> set (relabel_change ls ! k)" and f: "f \<in> set (inputs tx)"
  shows "input_ok available direct (relabel_change ls) k f"
proof -
  have ns: "wallet_notes ns" using sp by (simp add: spendable_def)
  obtain t where t: "t < length (ls ! k)" "tx = relabel_change ls ! k ! t"
    using k tx by (auto simp: in_set_conv_nth)
  then have ftx: "f \<in> set (inputs (ls ! k ! t))" "ls ! k ! t \<in> set (ls ! k)"
    using f k by (auto simp: relabel_change_nth relabel_tx_def)
  then have fi: "f \<in> set (all_inputs ls)" using k by (force simp: all_inputs_def)
  show ?thesis
  proof (cases f rule: prep_input.exhaust)
    case (Wallet i v)
    then have "f \<in> set ns" using reach_member [OF r ns, of f] fi by simp
    then show ?thesis using sp Wallet by (auto simp: spendable_def input_ok_def)
  next
    case (Prior l t' oi v)
    then have m: "l < length ls" "t' < length (ls ! l)" "oi < length (outputs (ls ! l ! t'))"
        "outputs (ls ! l ! t') ! oi = Intermediate v"
      using reach_member [OF r ns, of f] fi by (auto simp: mem_all_feeders)
    have "l < k"
      using prep_inv_reach [OF r] ftx k Prior by (force simp: prep_inv_def layers_ordered_def)
    moreover have "(l, t', oi) \<in> set (spent_refs ls)" using spent_refs_mem [OF fi] Prior by simp
    ultimately show ?thesis using Prior m by (simp add: relabel_outputs_nth input_ok_def)
  qed
qed

lemma relabelled_intermediate_spent:
  assumes r: "prep_reach fee ns (ls, pool)" and ns: "wallet_notes ns"
    and l: "l < length ls" "t < length (ls ! l)"
    and oi: "oi < length (outputs (relabel_change ls ! l ! t))"
      "outputs (relabel_change ls ! l ! t) ! oi = Intermediate v"
  shows "Prior l t oi v \<in> set (all_inputs ls)"
proof -
  let ?f = "Prior l t oi v"
  have o: "oi < length (outputs (ls ! l ! t))"
    using oi(1) l by (simp add: relabel_change_nth relabel_tx_def)
  with l oi(2) have "outputs (ls ! l ! t) ! oi = Intermediate v"
    and spent: "(l, t, oi) \<in> set (spent_refs ls)"
    using relabel_outputs_nth(1) [of l ls t oi]
    by (cases "outputs (ls ! l ! t) ! oi"; auto split: if_splits)+
  with l o have f: "?f \<in> set (all_feeders ls)" by (simp add: mem_all_feeders)
  from spent have "?f \<notin> set (unconsumed_feeders ls)" by (simp add: unconsumed_feeders_def Let_def)
  then have "?f \<notin># pool" using reach_unconsumed(2) [OF r ns] by auto
  moreover have "?f \<in># mset (all_inputs ls) + pool" unfolding reach_account [OF r] using f by simp
  ultimately show ?thesis by simp
qed

lemma plan_inputs_sound:
  assumes "plan_preparation pick available funding fee = Inr plan"
  shows "distinct (all_inputs (layers plan))
     \<and> (\<forall>k < length (layers plan). \<forall>tx \<in> set (layers plan ! k). \<forall>f \<in> set (inputs tx).
          case f of
            Wallet i v \<Rightarrow> i < length available \<and> available ! i = v
                          \<and> i \<notin> fst ` set (direct_funding plan)
          | Prior l t oi v \<Rightarrow> l < k \<and> t < length (layers plan ! l)
              \<and> oi < length (outputs (layers plan ! l ! t))
              \<and> outputs (layers plan ! l ! t) ! oi = Intermediate v)
     \<and> (\<forall>l < length (layers plan). \<forall>t < length (layers plan ! l).
          \<forall>oi < length (outputs (layers plan ! l ! t)). \<forall>v.
            outputs (layers plan ! l ! t) ! oi = Intermediate v \<longrightarrow>
            Prior l t oi v \<in> set (all_inputs (layers plan)))"
proof -
  obtain ns ls pool where o: "plan_origin available funding fee plan ns (ls, pool)"
    using plan_preparation_origin [OF assms] by blast
  then have lay: "layers plan = relabel_change ls" and r: "prep_reach fee ns (ls, pool)"
    and sp: "spendable available (direct_funding plan) ns" by (simp_all add: plan_origin_def)
  have ns: "wallet_notes ns" using sp by (simp add: spendable_def)
  show ?thesis
    using reach_distinct [OF r ns] relabelled_input_ok [OF r sp, unfolded input_ok_def]
      relabelled_intermediate_spent [OF r ns]
    unfolding lay by simp
qed

text \<open>
  C24. A plan never spends a note twice and spends only notes that exist: a wallet note carries the
  value it has in the wallet and is not one that funds directly, and a note of an earlier
  transaction is the intermediate output, of the value recorded, of a strictly earlier layer.
  Conversely no intermediate output is left dangling: each is spent by the plan.
\<close>

theorem plan_spends_sound:
  assumes "plan_preparation pick available funding fee = Inr plan"
  shows "distinct (all_inputs (layers plan))
     \<and> (\<forall>k < length (layers plan). \<forall>tx \<in> set (layers plan ! k). \<forall>f \<in> set (inputs tx).
          case f of
            Wallet i v \<Rightarrow> i < length available \<and> available ! i = v
                          \<and> i \<notin> fst ` set (direct_funding plan)
          | Prior l t oi v \<Rightarrow> l < k \<and> t < length (layers plan ! l)
              \<and> oi < length (outputs (layers plan ! l ! t))
              \<and> outputs (layers plan ! l ! t) ! oi = Intermediate v)
     \<and> (\<forall>l < length (layers plan). \<forall>t < length (layers plan ! l).
          \<forall>oi < length (outputs (layers plan ! l ! t)). \<forall>v.
            outputs (layers plan ! l ! t) ! oi = Intermediate v \<longrightarrow>
            Prior l t oi v \<in> set (all_inputs (layers plan)))"
  using assms by (rule plan_inputs_sound)

theorem plan_spends_sound_witness:
  "plan_preparation (\<lambda>xs. xs) [100, 50] [30, 0, 50, 40] 8 = Inr example_plan
   \<and> distinct (all_inputs (layers example_plan))"
  using plan_spends_sound [OF example_plan_run] example_plan_run by blast

lemma plan_funding_minted:
  assumes "plan_preparation pick available funding fee = Inr plan"
  shows "mset (funding_notes plan) = mset (filter (\<lambda>v. 0 < v) funding)
     \<and> distinct (map fst (direct_funding plan))
     \<and> (\<forall>(i, v) \<in> set (direct_funding plan). i < length available \<and> available ! i = v)"
proof -
  obtain ns ls pool where "plan_origin available funding fee plan ns (ls, pool)"
    using plan_preparation_origin [OF assms] by blast
  moreover from this have "concat (map funding_value (all_outputs (layers plan))) = funding_values ls"
    using relabel_change_simps(3) [of ls] by (simp add: plan_origin_def funding_values_def)
  ultimately show ?thesis by (simp add: plan_origin_def funding_notes_def)
qed

text \<open>
  C26. A plan delivers what was asked for: the notes it mints and the wallet notes it uses directly are,
  as a multiset, exactly the positive funding values requested; and a note used directly is a
  distinct wallet note of that value.
\<close>

theorem plan_mints_funding:
  assumes "plan_preparation pick available funding fee = Inr plan"
  shows "mset (funding_notes plan) = mset (filter (\<lambda>v. 0 < v) funding)
     \<and> distinct (map fst (direct_funding plan))
     \<and> (\<forall>(i, v) \<in> set (direct_funding plan). i < length available \<and> available ! i = v)"
  using assms by (rule plan_funding_minted)

theorem plan_mints_funding_witness:
  "plan_preparation (\<lambda>xs. xs) [100, 50] [30, 0, 50, 40] 8 = Inr example_plan
   \<and> mset (funding_notes example_plan) = mset [30, 50, 40]"
  using plan_mints_funding [OF example_plan_run] example_plan_run by simp

end
