(* ===== verification/Split_Plan.thy ===== *)
theory Split_Plan
  imports Denominations Preparation_Properties "HOL-Library.List_Lexorder"
    "HOL-Library.Product_Lexorder"
begin

text \<open>
  The padded denomination planner (\<open>migration/split_plan.rs\<close>): it chooses the canonical
  denominations that a balance can pay for together with the preparation transactions that mint
  their funding notes, and translates the preparation plan into the stages that the run stores.
  The generator is an abstract state \<open>'g\<close>; a refiner is the closure \<open>FnMut(u64)\<close> of the source,
  a function that returns a refinement and the next state. The argument \<open>pick\<close> is the order of
  equal notes in the preparation planner.
\<close>

section \<open>Constants and refinement policies\<close>

definition DENOMINATION_SPLIT_ACTIONS :: usize where
  [const_defs]: "DENOMINATION_SPLIT_ACTIONS = PREP_TX_ACTIONS"

definition TEN_THOUSAND_ZEC_ZATOSHI :: u64 where
  [const_defs]: "TEN_THOUSAND_ZEC_ZATOSHI = ZIP318_MAX_MIGRATION_DENOMINATION_ZATOSHI"

definition FIVE_THOUSAND_ZEC_ZATOSHI :: u64 where
  [const_defs]: "FIVE_THOUSAND_ZEC_ZATOSHI = TEN_THOUSAND_ZEC_ZATOSHI div 2"

definition TWO_THOUSAND_ZEC_ZATOSHI :: u64 where
  [const_defs]: "TWO_THOUSAND_ZEC_ZATOSHI = TEN_THOUSAND_ZEC_ZATOSHI div 5"

definition ONE_THOUSAND_ZEC_ZATOSHI :: u64 where
  [const_defs]: "ONE_THOUSAND_ZEC_ZATOSHI = TEN_THOUSAND_ZEC_ZATOSHI div 10"

record denomination_refinement_policy =
  ten_thousand_split_percent :: u32
  five_thousand_split_percent :: u32
  two_thousand_split_percent :: u32

datatype denomination_refinement =
  Refinement (refined_value: u64) (refined_children: "denomination_refinement list")

definition refinement_leaf :: "u64 \<Rightarrow> denomination_refinement" where
  "refinement_leaf value_zatoshi = Refinement value_zatoshi []"

text \<open>The constructor asserts that no percentage exceeds 100; \<open>None\<close> is the failed assertion.\<close>

definition refinement_policy_new ::
    "u32 \<Rightarrow> u32 \<Rightarrow> u32 \<Rightarrow> denomination_refinement_policy option" where
  "refinement_policy_new ten_thousand five_thousand two_thousand =
     (if ten_thousand \<le> 100 \<and> five_thousand \<le> 100 \<and> two_thousand \<le> 100 then
        Some \<lparr>ten_thousand_split_percent = ten_thousand,
              five_thousand_split_percent = five_thousand,
              two_thousand_split_percent = two_thousand\<rparr>
      else None)"

definition split_rule :: "denomination_refinement_policy \<Rightarrow> u64 \<Rightarrow> (u32 \<times> u64 list) option" where
  "split_rule p denomination_zatoshi =
     (if denomination_zatoshi = TEN_THOUSAND_ZEC_ZATOSHI then
        Some (ten_thousand_split_percent p, [FIVE_THOUSAND_ZEC_ZATOSHI, FIVE_THOUSAND_ZEC_ZATOSHI])
      else if denomination_zatoshi = FIVE_THOUSAND_ZEC_ZATOSHI then
        Some (five_thousand_split_percent p,
              [TWO_THOUSAND_ZEC_ZATOSHI, TWO_THOUSAND_ZEC_ZATOSHI, ONE_THOUSAND_ZEC_ZATOSHI])
      else if denomination_zatoshi = TWO_THOUSAND_ZEC_ZATOSHI then
        Some (two_thousand_split_percent p, [ONE_THOUSAND_ZEC_ZATOSHI, ONE_THOUSAND_ZEC_ZATOSHI])
      else None)"

definition AGGRESSIVE_REFINEMENT_POLICY :: denomination_refinement_policy where
  "AGGRESSIVE_REFINEMENT_POLICY =
     \<lparr>ten_thousand_split_percent = 80, five_thousand_split_percent = 55,
      two_thousand_split_percent = 35\<rparr>"

lemma aggressive_policy_accepted:
  "refinement_policy_new 80 55 35 = Some AGGRESSIVE_REFINEMENT_POLICY"
  by (simp add: refinement_policy_new_def AGGRESSIVE_REFINEMENT_POLICY_def)

section \<open>Plans\<close>

datatype split_stage_input =
  StageOriginal (stage_original_index: usize) (stage_input_value: u64)
  | StagePrior (prior_stage_index: usize) (prior_output_index: usize) (stage_input_value: u64)

datatype split_terminal_kind = Migration | OrchardChange | Continuation

record split_stage_output =
  so_value_zatoshi :: u64
  so_kind :: split_terminal_kind
  so_part_index :: "usize option"

record split_stage_plan =
  sp_layer_index :: usize
  sp_inputs :: "split_stage_input list"
  sp_outputs :: "split_stage_output list"
  sp_fee_zatoshi :: u64
  sp_requested_actions :: usize

record direct_migration_input =
  dm_input_index :: usize
  dm_part_index :: usize
  dm_value_zatoshi :: u64

record padded_denomination_plan =
  pd_denominations :: denomination_plan
  pd_stages :: "split_stage_plan list"
  pd_layer_count :: usize
  pd_direct_migration_inputs :: "direct_migration_input list"

record plan_context =
  positive_input_indices :: "usize list"
  total_input_zatoshi :: u64
  available_notes :: "u64 list"
  prep_fee :: u64

text \<open>
  One constructor per error of the source, less the conversion of a transaction count from \<open>usize\<close>
  to \<open>u64\<close>, which cannot fail on the 64-bit targets; the last is the \<open>expect\<close> of the affordable value, which
  the minimum check before it rules out.
\<close>

datatype split_plan_error =
  StageFeeNotPositive | MinimumOutputNotOne | SelectedValueOverflow | NoteExceedsMaximumMoney
  | StageFeeInvalid | MinimumFundingNoteOverflow | RefinementChangesValue
  | RefinementNoncanonical | RefinementTotalOverflow | RefinementCountOverflow
  | PreparedNoteOverflow | PreparedNoteInvalid | PreparationBalanceInvalid
  | FundingTotalOverflow | PreparationFeeOverflow
  | CommittedValueOverflow | DenominationCountsDiffer | PlanExceedsSelectedValue
  | MigratableOverflow | DirectIndexOutOfRange | WalletIndexOutOfRange | UnknownPriorTransaction
  | UnexpectedFundingValue u64 | ActionCountOverflow | TooManyActions usize
  | InputTotalOverflow | OutputTotalOverflow | TransactionValueOverflow | ValueNotConserved
  | PartsUnassigned | ApprovedPlanStale | ApprovedPlanOrder | ApprovedNoncanonical u64
  | AffordablePanic

section \<open>Planning context\<close>

definition zatoshis_from_u64 :: "split_plan_error \<Rightarrow> u64 \<Rightarrow> split_plan_error + u64" where
  "zatoshis_from_u64 e v = (if v \<le> MAX_MONEY then Inr v else Inl e)"

definition planning_context ::
    "u64 list \<Rightarrow> u64 \<Rightarrow> u64 \<Rightarrow> split_plan_error + plan_context option" where
  "planning_context input_values fee_per_stage_zatoshi minimum_output_zatoshi =
     (let positive = map fst (filter (\<lambda>(i, v). v > 0) (enumerate 0 input_values)) in
      if positive = [] then Inr None
      else if fee_per_stage_zatoshi = 0 then Inl StageFeeNotPositive
      else if minimum_output_zatoshi \<noteq> 1 then Inl MinimumOutputNotOne
      else
        let positive_values = map (\<lambda>i. input_values ! i) positive in
        rbind (checked_sum SelectedValueOverflow positive_values) (\<lambda>tot.
        rbind (collect_results (zatoshis_from_u64 NoteExceedsMaximumMoney) positive_values)
          (\<lambda>av.
        rbind (zatoshis_from_u64 StageFeeInvalid fee_per_stage_zatoshi) (\<lambda>fee.
        Inr (Some \<lparr>positive_input_indices = positive, total_input_zatoshi = tot,
                   available_notes = av, prep_fee = fee\<rparr>)))))"

section \<open>Refinement\<close>

text \<open>
  \<open>next\<close> is \<open>next_u32\<close> of the generator. The second function is the \<open>map\<close> over the children, which
  draws for each child in turn.
\<close>

function (sequential) refine_denomination ::
    "('g \<Rightarrow> u32 \<times> 'g) \<Rightarrow> denomination_refinement_policy \<Rightarrow> 'g \<Rightarrow> u64 \<Rightarrow>
     denomination_refinement \<times> 'g"
and refine_children ::
    "('g \<Rightarrow> u32 \<times> 'g) \<Rightarrow> denomination_refinement_policy \<Rightarrow> 'g \<Rightarrow> u64 list \<Rightarrow>
     denomination_refinement list \<times> 'g" where
  "refine_denomination draw p g denomination_zatoshi =
     (case split_rule p denomination_zatoshi of
        None \<Rightarrow> (refinement_leaf denomination_zatoshi, g)
      | Some (split_percent, children) \<Rightarrow>
          if split_percent = 0 then (refinement_leaf denomination_zatoshi, g)
          else let (r, g') = draw g in
            if r mod 100 \<ge> split_percent then (refinement_leaf denomination_zatoshi, g')
            else let (cs, g'') = refine_children draw p g' children in
              (Refinement denomination_zatoshi cs, g''))"
| "refine_children draw p g [] = ([], g)"
| "refine_children draw p g (c # cs) =
     (let (t, g') = refine_denomination draw p g c; (ts, g'') = refine_children draw p g' cs in
      (t # ts, g''))"
  by pat_completeness auto
termination
  by (relation "measures [case_sum (\<lambda>(d, p, g, v). 2 * v) (\<lambda>(d, p, g, cs). 2 * foldr max cs 0 + 1),
        case_sum (\<lambda>_. 0) (\<lambda>(d, p, g, cs). length cs)]")
     (auto simp: split_rule_def const_defs split: if_splits)

declare refine_denomination.simps [simp del]

definition candidate_key :: "u64 list \<Rightarrow> int \<times> u64 list" where
  "candidate_key c = (- int (length c), c)"

definition combine_candidates :: "u64 list list \<Rightarrow> u64 list list \<Rightarrow> u64 list list" where
  "combine_candidates expanded child_candidates =
     concat (map (\<lambda>prefix. map (\<lambda>c. prefix @ c) child_candidates) expanded)"

text \<open>
  Every pruning of a refinement tree: most parts first, equal lengths in lexicographic order,
  duplicates removed. \<open>expand_children\<close> is the loop over the children.
\<close>

fun refinement_candidates :: "denomination_refinement \<Rightarrow> split_plan_error + u64 list list"
and expand_children ::
    "u64 list list \<Rightarrow> denomination_refinement list \<Rightarrow> split_plan_error + u64 list list" where
  "refinement_candidates (Refinement v children) =
     (if \<not> is_zip318_canonical_denomination v then Inl RefinementNoncanonical
      else if children = [] then Inr [[v]]
      else
        rbind (checked_sum RefinementTotalOverflow (map refined_value children)) (\<lambda>tot.
        if tot \<noteq> v then Inl RefinementChangesValue
        else
          rbind (expand_children [[]] children) (\<lambda>expanded.
          Inr (remdups_adj (sort_key candidate_key (map sort_desc (expanded @ [[v]])))))))"
| "expand_children expanded [] = Inr expanded"
| "expand_children expanded (c # cs) =
     rbind (refinement_candidates c) (\<lambda>child_candidates.
     rbind (ok_or RefinementCountOverflow
              (checked_mul 64 (length expanded) (length child_candidates))) (\<lambda>capacity.
     expand_children (combine_candidates expanded child_candidates) cs))"

section \<open>Fitting a list of crossings\<close>

definition committed_value ::
    "u64 list \<Rightarrow> preparation_plan \<Rightarrow> u64 \<Rightarrow> split_plan_error + u64" where
  "committed_value funding_vals preparation fee_per_stage_zatoshi =
     rbind (checked_sum FundingTotalOverflow funding_vals) (\<lambda>funding_total.
     rbind (ok_or PreparationFeeOverflow
              (checked_mul 64 fee_per_stage_zatoshi (transaction_count preparation))) (\<lambda>prep_fees.
     ok_or CommittedValueOverflow (checked_add 64 funding_total prep_fees)))"

definition preparation_for_crossings ::
    "note_order \<Rightarrow> plan_context \<Rightarrow> u64 list \<Rightarrow> u64 \<Rightarrow> u64 \<Rightarrow>
     split_plan_error + (u64 list \<times> preparation_plan) option" where
  "preparation_for_crossings pick ctx crossing_values fee_per_stage_zatoshi migration_fee_zatoshi =
     rbind (collect_results
              (\<lambda>crossing. ok_or PreparedNoteOverflow (checked_add 64 crossing migration_fee_zatoshi))
              crossing_values) (\<lambda>funding_vals.
     rbind (collect_results (zatoshis_from_u64 PreparedNoteInvalid) funding_vals) (\<lambda>typed_funding.
     case plan_preparation pick (available_notes ctx) typed_funding (prep_fee ctx) of
       Inl InsufficientFunds \<Rightarrow> Inr None
     | Inl BalanceInvalid \<Rightarrow> Inl PreparationBalanceInvalid
     | Inr preparation \<Rightarrow>
         rbind (committed_value funding_vals preparation fee_per_stage_zatoshi) (\<lambda>committed.
         Inr (if committed \<le> total_input_zatoshi ctx then Some (funding_vals, preparation)
              else None))))"

text \<open>The loop of the maximality test, over the affordable value.\<close>

function can_append_loop ::
    "note_order \<Rightarrow> plan_context \<Rightarrow> u64 list \<Rightarrow> u64 \<Rightarrow> u64 \<Rightarrow> u64 \<Rightarrow> split_plan_error + bool" where
  "can_append_loop pick ctx crossing_values fee_per_stage_zatoshi migration_fee_zatoshi affordable =
     (if affordable < ZIP318_MAX_RESIDUAL_VALUE_ZATOSHI then Inr False
      else case largest_zip318_denomination_at_or_below affordable of
        None \<Rightarrow> Inr False
      | Some crossing \<Rightarrow>
          rbind (preparation_for_crossings pick ctx (crossing_values @ [crossing])
                   fee_per_stage_zatoshi migration_fee_zatoshi) (\<lambda>found.
          if found \<noteq> None then Inr True
          else if crossing = ZIP318_MAX_RESIDUAL_VALUE_ZATOSHI then Inr False
          else can_append_loop pick ctx crossing_values fee_per_stage_zatoshi
                 migration_fee_zatoshi (crossing - 1)))"
  by pat_completeness auto
termination
  by (relation "measure (\<lambda>(pick, ctx, cs, f, m, affordable). affordable)")
     (auto dest: largest_bounds)

declare can_append_loop.simps [simp del]

definition can_append_canonical_denomination ::
    "note_order \<Rightarrow> plan_context \<Rightarrow> u64 list \<Rightarrow> u64 list \<Rightarrow> preparation_plan \<Rightarrow> u64 \<Rightarrow> u64 \<Rightarrow>
     split_plan_error + bool" where
  "can_append_canonical_denomination pick ctx crossing_values funding_vals preparation
       fee_per_stage_zatoshi migration_fee_zatoshi =
     rbind (committed_value funding_vals preparation fee_per_stage_zatoshi) (\<lambda>committed.
     let budget = saturating_sub (total_input_zatoshi ctx) committed in
     rbind (ok_or MinimumFundingNoteOverflow
              (checked_add 64 ZIP318_MAX_RESIDUAL_VALUE_ZATOSHI migration_fee_zatoshi))
       (\<lambda>minimum_funding_note.
     if budget < minimum_funding_note then Inr False
     else
       rbind (ok_or AffordablePanic (checked_sub budget migration_fee_zatoshi)) (\<lambda>spendable_value.
       can_append_loop pick ctx crossing_values fee_per_stage_zatoshi migration_fee_zatoshi
         (min spendable_value ZIP318_MAX_MIGRATION_DENOMINATION_ZATOSHI))))"

section \<open>Choosing the denominations\<close>

text \<open>What every candidate of a refinement is: canonical parts that add up to the refined value.\<close>

definition splits_value :: "u64 \<Rightarrow> u64 list \<Rightarrow> bool" where
  "splits_value v c \<longleftrightarrow> sum_list c = v \<and> (\<forall>d \<in> set c. is_zip318_canonical_denomination d)"

lemma candidates_split:
  shows candidates_split_value:
      "refinement_candidates t = Inr cs \<Longrightarrow>
         [refined_value t] \<in> set cs \<and> (\<forall>c \<in> set cs. splits_value (refined_value t) c)"
    and expand_children_split:
      "expand_children expanded ts = Inr cs \<Longrightarrow>
         \<forall>c \<in> set cs. \<exists>p \<in> set expanded. \<exists>q. c = p @ q
           \<and> splits_value (sum_list (map refined_value ts)) q"
proof (induction t and expanded ts arbitrary: cs and cs
    rule: refinement_candidates_expand_children.induct)
  case (1 v children)
  show ?case
  proof (cases "children = []")
    case True
    with 1(2) show ?thesis by (auto simp: splits_value_def split: if_splits)
  next
    case False
    with 1(2) obtain expanded where canonical: "is_zip318_canonical_denomination v"
      and tot: "checked_sum RefinementTotalOverflow (map refined_value children) = Inr v"
      and ex: "expand_children [[]] children = Inr expanded"
      and cs: "cs = remdups_adj (sort_key candidate_key (map sort_desc (expanded @ [[v]])))"
      by (auto split: if_splits)
    then have children_sum: "sum_list (map refined_value children) = v"
      by (auto simp: checked_sum_eq split: if_splits)
    have "\<forall>c \<in> set expanded. splits_value v c"
      using 1(1) [of v expanded] ex False canonical children_sum tot by simp
    then show ?thesis
      using canonical sort_desc_id [of "[v]"]
      by (auto simp: cs splits_value_def non_increasing_def)
  qed
next
  case (2 expanded)
  have "c = c @ [] \<and> splits_value 0 []" for c :: "u64 list" by (simp add: splits_value_def)
  with 2 show ?case by (metis expand_children.simps(1) list.simps(8) sum.inject(2) sum_list.Nil)
next
  case (3 expanded c ts)
  from 3(3) obtain cc where cc: "refinement_candidates c = Inr cc"
    and cs: "expand_children (combine_candidates expanded cc) ts = Inr cs"
    by auto
  have one: "\<forall>q \<in> set cc. splits_value (refined_value c) q" using 3(1) [OF cc] by blast
  have "\<forall>r \<in> set cs. \<exists>p \<in> set (combine_candidates expanded cc). \<exists>q. r = p @ q
      \<and> splits_value (sum_list (map refined_value ts)) q"
    using 3(2) [OF cc _ cs] 3(3) cc by auto
  then show ?case using one
    by (fastforce simp: combine_candidates_def splits_value_def)
qed

lemma canonical_pos: "is_zip318_canonical_denomination v \<Longrightarrow> 0 < v"
  using largest_bounds(1) [of v v] by (simp add: is_zip318_canonical_denomination_def)

lemma candidates_positive: "refinement_candidates t = Inr cs \<Longrightarrow> c \<in> set cs \<Longrightarrow> 0 < sum_list c"
  using candidates_split_value [of t cs] canonical_pos [of "refined_value t"]
  by (auto simp: splits_value_def)

lemma preparation_for_crossings_Some:
  assumes "preparation_for_crossings pick ctx cs fee mfee = Inr (Some (fs, preparation))"
  shows "fs = map (\<lambda>c. c + mfee) cs"
    and "plan_preparation pick (available_notes ctx) fs (prep_fee ctx) = Inr preparation"
    and "committed_value fs preparation fee = Inr (sum_list fs + fee * transaction_count preparation)"
    and "sum_list fs + fee * transaction_count preparation \<le> total_input_zatoshi ctx"
proof -
  from assms obtain fs' ts where
    fs': "collect_results (\<lambda>c. ok_or PreparedNoteOverflow (checked_add 64 c mfee)) cs = Inr fs'"
    and ts': "collect_results (zatoshis_from_u64 PreparedNoteInvalid) fs' = Inr ts"
    and rest: "(case plan_preparation pick (available_notes ctx) ts (prep_fee ctx) of
       Inl InsufficientFunds \<Rightarrow> Inr None | Inl BalanceInvalid \<Rightarrow> Inl PreparationBalanceInvalid
     | Inr preparation \<Rightarrow> rbind (committed_value fs' preparation fee) (\<lambda>committed.
         Inr (if committed \<le> total_input_zatoshi ctx then Some (fs', preparation) else None)))
       = Inr (Some (fs, preparation))"
    by (auto simp: preparation_for_crossings_def)
  have plan: "plan_preparation pick (available_notes ctx) ts (prep_fee ctx) = Inr preparation"
    and "fs' = fs"
    and committed: "\<exists>c. committed_value fs preparation fee = Inr c \<and> c \<le> total_input_zatoshi ctx"
    using rest by (auto split: sum.splits prep_error.splits if_splits)
  note fs = fs' [unfolded \<open>fs' = fs\<close>] and ts = ts' [unfolded \<open>fs' = fs\<close>]
  show "fs = map (\<lambda>c. c + mfee) cs"
    using fs by (auto simp: collect_results_Inr_iff list_all2_conv_all_nth intro!: nth_equalityI)
  have "ts = fs"
    using ts by (auto simp: collect_results_Inr_iff list_all2_conv_all_nth zatoshis_from_u64_def
        intro!: nth_equalityI split: if_splits)
  with plan show "plan_preparation pick (available_notes ctx) fs (prep_fee ctx) = Inr preparation"
    by simp
  have "\<And>c. committed_value fs preparation fee = Inr c \<Longrightarrow>
      c = sum_list fs + fee * transaction_count preparation"
    by (auto simp: committed_value_def checked_sum_eq split: if_splits)
  with committed show "committed_value fs preparation fee =
      Inr (sum_list fs + fee * transaction_count preparation)"
    "sum_list fs + fee * transaction_count preparation \<le> total_input_zatoshi ctx" by auto
qed

text \<open>The inner loop over the candidates of one refinement.\<close>

fun try_candidates ::
    "note_order \<Rightarrow> plan_context \<Rightarrow> u64 \<Rightarrow> u64 \<Rightarrow> u64 list \<Rightarrow> u64 list list \<Rightarrow>
     split_plan_error + (u64 list \<times> u64 list \<times> preparation_plan) option" where
  "try_candidates pick ctx fee_per_stage_zatoshi migration_fee_zatoshi crossing_values [] = Inr None"
| "try_candidates pick ctx fee_per_stage_zatoshi migration_fee_zatoshi crossing_values
       (candidate # candidates) =
     rbind (preparation_for_crossings pick ctx (crossing_values @ candidate)
              fee_per_stage_zatoshi migration_fee_zatoshi) (\<lambda>found.
     case found of
       Some (candidate_funding, candidate_preparation) \<Rightarrow>
         Inr (Some (crossing_values @ candidate, candidate_funding, candidate_preparation))
     | None \<Rightarrow> try_candidates pick ctx fee_per_stage_zatoshi migration_fee_zatoshi
                 crossing_values candidates)"

type_synonym 'g refiner = "'g \<Rightarrow> u64 \<Rightarrow> denomination_refinement \<times> 'g"

text \<open>The loop over the affordable value: the accepted candidate, if any, and the generator.\<close>

function accept_loop ::
    "note_order \<Rightarrow> plan_context \<Rightarrow> 'g refiner \<Rightarrow> u64 \<Rightarrow> u64 \<Rightarrow> u64 list \<Rightarrow> u64 \<Rightarrow> 'g \<Rightarrow>
     split_plan_error + (u64 list \<times> u64 list \<times> preparation_plan) option \<times> 'g" where
  "accept_loop pick ctx refine fee_per_stage_zatoshi migration_fee_zatoshi crossing_values
       affordable g =
     (if affordable < ZIP318_MAX_RESIDUAL_VALUE_ZATOSHI then Inr (None, g)
      else case largest_zip318_denomination_at_or_below affordable of
        None \<Rightarrow> Inr (None, g)
      | Some greedy \<Rightarrow>
          let (refinement, g') = refine g greedy in
          if refined_value refinement \<noteq> greedy then Inl RefinementChangesValue
          else
            rbind (refinement_candidates refinement) (\<lambda>candidates.
            rbind (try_candidates pick ctx fee_per_stage_zatoshi migration_fee_zatoshi
                     crossing_values candidates) (\<lambda>accepted.
            if accepted \<noteq> None \<or> greedy = ZIP318_MAX_RESIDUAL_VALUE_ZATOSHI then Inr (accepted, g')
            else accept_loop pick ctx refine fee_per_stage_zatoshi migration_fee_zatoshi
                   crossing_values (greedy - 1) g')))"
  by pat_completeness auto
termination
  by (relation "measure (\<lambda>(pick, ctx, r, f, m, cs, affordable, g). affordable)")
     (auto dest: largest_bounds)

declare accept_loop.simps [simp del]

text \<open>
  An accepted candidate extends the crossings by canonical parts, and the extended list is paid for.
\<close>

definition extends_plan ::
    "note_order \<Rightarrow> plan_context \<Rightarrow> u64 \<Rightarrow> u64 \<Rightarrow> u64 list \<Rightarrow>
     u64 list \<times> u64 list \<times> preparation_plan \<Rightarrow> bool" where
  "extends_plan pick ctx fee mfee cs r \<longleftrightarrow>
     (case r of (cs', fs, preparation) \<Rightarrow>
        (\<exists>c. cs' = cs @ c \<and> c \<noteq> [] \<and> (\<forall>d \<in> set c. is_zip318_canonical_denomination d))
        \<and> preparation_for_crossings pick ctx cs' fee mfee = Inr (Some (fs, preparation)))"

lemma try_candidates_extends:
  assumes "try_candidates pick ctx fee mfee cs candidates = Inr (Some r)"
    and "\<forall>c \<in> set candidates. c \<noteq> [] \<and> (\<forall>d \<in> set c. is_zip318_canonical_denomination d)"
  shows "extends_plan pick ctx fee mfee cs r"
  using assms
  by (induction candidates) (auto simp: extends_plan_def split: option.splits)

lemma accept_loop_extends:
  "accept_loop pick ctx refine fee mfee cs affordable g = Inr (Some r, g') \<Longrightarrow>
     extends_plan pick ctx fee mfee cs r"
proof (induction pick ctx refine fee mfee cs affordable g rule: accept_loop.induct)
  case (1 pick ctx refine fee mfee cs affordable g)
  from 1(2) obtain greedy refinement g1 candidates accepted where
    l: "\<not> affordable < ZIP318_MAX_RESIDUAL_VALUE_ZATOSHI"
      "largest_zip318_denomination_at_or_below affordable = Some greedy"
    and r: "refine g greedy = (refinement, g1)" "\<not> refined_value refinement \<noteq> greedy"
    and c: "refinement_candidates refinement = Inr candidates"
    and t: "try_candidates pick ctx fee mfee cs candidates = Inr accepted"
    and e: "(if accepted \<noteq> None \<or> greedy = ZIP318_MAX_RESIDUAL_VALUE_ZATOSHI then Inr (accepted, g1)
            else accept_loop pick ctx refine fee mfee cs (greedy - 1) g1) = Inr (Some r, g')"
    by (subst (asm) accept_loop.simps) (auto simp: Let_def split: if_splits option.splits prod.splits)
  show ?case
  proof (cases accepted)
    case (Some r')
    have "\<forall>c \<in> set candidates. c \<noteq> [] \<and> (\<forall>d \<in> set c. is_zip318_canonical_denomination d)"
      using candidates_split_value [OF c] candidates_positive [OF c]
      by (metis less_irrefl splits_value_def sum_list.Nil)
    moreover have "try_candidates pick ctx fee mfee cs candidates = Inr (Some r)"
      using t e Some by simp
    ultimately show ?thesis by (intro try_candidates_extends)
  next
    case None
    with e have ng: "greedy \<noteq> ZIP318_MAX_RESIDUAL_VALUE_ZATOSHI"
      and rec: "accept_loop pick ctx refine fee mfee cs (greedy - 1) g1 = Inr (Some r, g')"
      by (auto split: if_splits)
    have "\<not> (accepted \<noteq> None \<or> greedy = ZIP318_MAX_RESIDUAL_VALUE_ZATOSHI)" using None ng by simp
    from 1(1) [OF l refl r(1) [symmetric] r(2) c t this rec] show ?thesis .
  qed
qed

lemma extends_plan_grows:
  assumes "extends_plan pick ctx fee mfee cs (cs', fs, preparation)"
  shows "sum_list cs < sum_list cs'" and "sum_list cs' \<le> total_input_zatoshi ctx"
proof -
  from assms obtain c where cs': "cs' = cs @ c" and c: "c \<noteq> []"
    "\<forall>d \<in> set c. is_zip318_canonical_denomination d"
    and found: "preparation_for_crossings pick ctx cs' fee mfee = Inr (Some (fs, preparation))"
    by (auto simp: extends_plan_def)
  from c have "0 < sum_list c" by (cases c) (auto dest: canonical_pos)
  with cs' show "sum_list cs < sum_list cs'" by simp
  have "sum_list cs' \<le> sum_list fs"
    using preparation_for_crossings_Some(1) [OF found] by (simp add: sum_list_map_add_const)
  with preparation_for_crossings_Some(4) [OF found] show "sum_list cs' \<le> total_input_zatoshi ctx"
    by linarith
qed

lemma accept_loop_decreases:
  assumes "accept_loop pick ctx refine fee mfee cs affordable g = Inr (Some (cs', fs, preparation), g')"
  shows "total_input_zatoshi ctx - sum_list cs' < total_input_zatoshi ctx - sum_list cs"
  using extends_plan_grows [OF accept_loop_extends [OF assms]] by linarith

text \<open>
  The outer loop. Every accepted candidate adds a positive value to the crossings, which stay within
  the total input, so the loop ends.
\<close>

function planning_loop ::
    "note_order \<Rightarrow> plan_context \<Rightarrow> 'g refiner \<Rightarrow> u64 \<Rightarrow> u64 \<Rightarrow> u64 \<Rightarrow>
     u64 list \<Rightarrow> u64 list \<Rightarrow> preparation_plan \<Rightarrow> 'g \<Rightarrow>
     split_plan_error + u64 list \<times> u64 list \<times> preparation_plan" where
  "planning_loop pick ctx refine fee_per_stage_zatoshi migration_fee_zatoshi minimum_funding_note
       crossing_values funding_vals preparation g =
     rbind (committed_value funding_vals preparation fee_per_stage_zatoshi) (\<lambda>committed.
     let budget = saturating_sub (total_input_zatoshi ctx) committed in
     if budget < minimum_funding_note then Inr (crossing_values, funding_vals, preparation)
     else
       rbind (ok_or AffordablePanic (checked_sub budget migration_fee_zatoshi)) (\<lambda>spendable_value.
       rbind (accept_loop pick ctx refine fee_per_stage_zatoshi migration_fee_zatoshi
                crossing_values
                (min spendable_value ZIP318_MAX_MIGRATION_DENOMINATION_ZATOSHI) g)
         (\<lambda>(accepted, g').
       case accepted of
         None \<Rightarrow> Inr (crossing_values, funding_vals, preparation)
       | Some (crossing_values', funding_vals', preparation') \<Rightarrow>
           planning_loop pick ctx refine fee_per_stage_zatoshi migration_fee_zatoshi
             minimum_funding_note crossing_values' funding_vals' preparation' g')))"
  by pat_completeness auto
termination
  by (relation "measure (\<lambda>(pick, ctx, r, f, m, mn, cs, fs, p, g).
        total_input_zatoshi ctx - sum_list cs)") (auto dest: accept_loop_decreases)

declare planning_loop.simps [simp del]

section \<open>Translating a preparation plan into stages\<close>

text \<open>
  \<open>available_parts\<close> maps a funding value to the part indices not yet assigned, the smallest at the
  end of its vector; it is a partial map, the vector a list whose last element \<open>pop\<close> takes.
\<close>

type_synonym part_map = "u64 \<Rightarrow> usize list option"

definition push_part :: "usize \<times> u64 \<Rightarrow> part_map \<Rightarrow> part_map" where
  "push_part iv parts =
     (case iv of (part_index, v) \<Rightarrow>
        parts(v \<mapsto> (case parts v of None \<Rightarrow> [] | Some ps \<Rightarrow> ps) @ [part_index]))"

definition initial_parts :: "u64 list \<Rightarrow> part_map" where
  "initial_parts funding_vals = fold push_part (rev (enumerate 0 funding_vals)) Map.empty"

definition take_part_index :: "part_map \<Rightarrow> u64 \<Rightarrow> split_plan_error + usize \<times> part_map" where
  "take_part_index parts value_zatoshi =
     (case parts value_zatoshi of
        None \<Rightarrow> Inl (UnexpectedFundingValue value_zatoshi)
      | Some ps \<Rightarrow>
          if ps = [] then Inl (UnexpectedFundingValue value_zatoshi)
          else Inr (last ps, parts(value_zatoshi \<mapsto> butlast ps)))"

fun assign_direct ::
    "usize list \<Rightarrow> part_map \<Rightarrow> (usize \<times> u64) list \<Rightarrow>
     split_plan_error + direct_migration_input list \<times> part_map" where
  "assign_direct positive parts [] = Inr ([], parts)"
| "assign_direct positive parts ((input_index, v) # rest) =
     rbind (ok_or DirectIndexOutOfRange (slice_get positive input_index)) (\<lambda>original.
     rbind (take_part_index parts v) (\<lambda>(part_index, parts').
     rbind (assign_direct positive parts' rest) (\<lambda>(direct, parts'').
     Inr (\<lparr>dm_input_index = original, dm_part_index = part_index, dm_value_zatoshi = v\<rparr> # direct,
          parts''))))"

type_synonym coordinates = "usize \<times> usize \<Rightarrow> usize option"

fun translate_input ::
    "usize list \<Rightarrow> coordinates \<Rightarrow> prep_input \<Rightarrow> split_plan_error + split_stage_input" where
  "translate_input positive coords (Wallet i v) =
     rbind (ok_or WalletIndexOutOfRange (slice_get positive i)) (\<lambda>original.
     Inr (StageOriginal original v))"
| "translate_input positive coords (Prior layer transaction out v) =
     rbind (ok_or UnknownPriorTransaction (coords (layer, transaction))) (\<lambda>stage_index.
     Inr (StagePrior stage_index out v))"

fun translate_output :: "part_map \<Rightarrow> prep_output \<Rightarrow> split_plan_error + split_stage_output \<times> part_map" where
  "translate_output parts (Funding v) =
     rbind (take_part_index parts v) (\<lambda>(part_index, parts').
     Inr (\<lparr>so_value_zatoshi = v, so_kind = Migration, so_part_index = Some part_index\<rparr>, parts'))"
| "translate_output parts (Intermediate v) =
     Inr (\<lparr>so_value_zatoshi = v, so_kind = Continuation, so_part_index = None\<rparr>, parts)"
| "translate_output parts (Change v) =
     Inr (\<lparr>so_value_zatoshi = v, so_kind = OrchardChange, so_part_index = None\<rparr>, parts)"

fun translate_outputs ::
    "part_map \<Rightarrow> prep_output list \<Rightarrow> split_plan_error + split_stage_output list \<times> part_map" where
  "translate_outputs parts [] = Inr ([], parts)"
| "translate_outputs parts (out # outs) =
     rbind (translate_output parts out) (\<lambda>(stage_output, parts').
     rbind (translate_outputs parts' outs) (\<lambda>(stage_outputs, parts'').
     Inr (stage_output # stage_outputs, parts'')))"

text \<open>The state of the loop over the transactions: parts, coordinates and the stages pushed.\<close>

type_synonym translation = "part_map \<times> coordinates \<times> split_stage_plan list"

definition translate_transaction ::
    "usize list \<Rightarrow> u64 \<Rightarrow> usize \<Rightarrow> translation \<Rightarrow> usize \<times> prep_transaction \<Rightarrow>
     split_plan_error + translation" where
  "translate_transaction positive fee_per_stage_zatoshi layer_index state indexed =
     (case state of (parts, coords, stages) \<Rightarrow> case indexed of (transaction_index, transaction) \<Rightarrow>
     rbind (collect_results (translate_input positive coords) (inputs transaction)) (\<lambda>ins.
     rbind (translate_outputs parts (outputs transaction)) (\<lambda>(outs, parts').
     rbind (ok_or ActionCountOverflow (checked_add 64 (length ins) (length outs)))
       (\<lambda>requested_actions.
     if requested_actions > DENOMINATION_SPLIT_ACTIONS then Inl (TooManyActions requested_actions)
     else
       rbind (checked_sum InputTotalOverflow (map stage_input_value ins)) (\<lambda>input_total.
       rbind (checked_sum OutputTotalOverflow (map so_value_zatoshi outs)) (\<lambda>output_total.
       rbind (ok_or TransactionValueOverflow (checked_add 64 output_total fee_per_stage_zatoshi))
         (\<lambda>output_with_fee.
       if input_total \<noteq> output_with_fee then Inl ValueNotConserved
       else Inr (parts', coords((layer_index, transaction_index) \<mapsto> length stages),
                 stages @ [\<lparr>sp_layer_index = layer_index, sp_inputs = ins, sp_outputs = outs,
                            sp_fee_zatoshi = fee_per_stage_zatoshi,
                            sp_requested_actions = requested_actions\<rparr>]))))))))"

definition translate_layer ::
    "usize list \<Rightarrow> u64 \<Rightarrow> translation \<Rightarrow> usize \<times> prep_transaction list \<Rightarrow>
     split_plan_error + translation" where
  "translate_layer positive fee_per_stage_zatoshi state indexed =
     (case indexed of (layer_index, layer) \<Rightarrow>
        try_fold (translate_transaction positive fee_per_stage_zatoshi layer_index) state
          (enumerate 0 layer))"

text \<open>
  The keys of \<open>available_parts\<close> are the funding values, so \<open>values().any(..)\<close> is a test over them.
\<close>

definition parts_left :: "u64 list \<Rightarrow> part_map \<Rightarrow> bool" where
  "parts_left funding_vals parts \<longleftrightarrow>
     list_ex (\<lambda>v. case parts v of None \<Rightarrow> False | Some ps \<Rightarrow> ps \<noteq> []) funding_vals"

definition translate_preparation_plan ::
    "preparation_plan \<Rightarrow> denomination_plan \<Rightarrow> usize list \<Rightarrow> u64 list \<Rightarrow> u64 \<Rightarrow>
     split_plan_error + padded_denomination_plan" where
  "translate_preparation_plan preparation denominations positive funding_vals
       fee_per_stage_zatoshi =
     rbind (assign_direct positive (initial_parts funding_vals) (direct_funding preparation))
       (\<lambda>(direct, parts).
     rbind (try_fold (translate_layer positive fee_per_stage_zatoshi) (parts, Map.empty, [])
              (enumerate 0 (layers preparation))) (\<lambda>(parts', coords, stages).
     if parts_left funding_vals parts' then Inl PartsUnassigned
     else Inr \<lparr>pd_denominations = denominations, pd_stages = stages,
               pd_layer_count = layer_count preparation,
               pd_direct_migration_inputs = sort_key dm_part_index direct\<rparr>))"

section \<open>Finishing a plan\<close>

text \<open>
  The pairs are sorted by their crossing value, descending. Pairs with equal crossings are equal,
  because a funding value is its crossing plus the fee, so the unstable sort has one result.
\<close>

definition sort_pairs_desc :: "(u64 \<times> u64) list \<Rightarrow> (u64 \<times> u64) list" where
  "sort_pairs_desc ps = rev (sort_key fst (rev ps))"

definition finish_plan ::
    "plan_context \<Rightarrow> u64 list \<Rightarrow> u64 list \<Rightarrow> preparation_plan \<Rightarrow> u64 \<Rightarrow> u64 \<Rightarrow> u64 \<Rightarrow>
     split_plan_error + padded_denomination_plan option" where
  "finish_plan ctx crossing_values funding_vals preparation fee_per_stage_zatoshi
       migration_fee_zatoshi minimum_output_zatoshi =
     (if crossing_values = [] then Inr None
      else if length crossing_values \<noteq> length funding_vals then Inl DenominationCountsDiffer
      else
        let denomination_funding = sort_pairs_desc (zip crossing_values funding_vals);
            crossings = map fst denomination_funding; fundings = map snd denomination_funding in
        rbind (ok_or PreparationFeeOverflow
                 (checked_mul 64 fee_per_stage_zatoshi (transaction_count preparation)))
          (\<lambda>split_fee.
        rbind (checked_sum FundingTotalOverflow fundings) (\<lambda>funding_total.
        rbind (ok_or PlanExceedsSelectedValue
                 (Option.bind (checked_sub (total_input_zatoshi ctx) funding_total)
                    (\<lambda>v. checked_sub v split_fee))) (\<lambda>remaining.
        rbind (checked_sum MigratableOverflow crossings) (\<lambda>total_migratable.
        rbind (translate_preparation_plan preparation
                 \<lparr>dp_migration_outputs = crossings,
                  dp_orchard_change =
                    (if remaining \<ge> minimum_output_zatoshi then Some remaining else None),
                  dp_split_fee_zatoshi = split_fee,
                  dp_migration_fee_zatoshi = migration_fee_zatoshi,
                  dp_total_input_zatoshi = total_input_zatoshi ctx,
                  dp_total_migratable_zatoshi = total_migratable\<rparr>
                 (positive_input_indices ctx) fundings fee_per_stage_zatoshi)
          (\<lambda>plan. Inr (Some plan)))))))"

section \<open>Entry points\<close>

definition plan_padded_denominations_with_refiner ::
    "note_order \<Rightarrow> u64 list \<Rightarrow> u64 \<Rightarrow> u64 \<Rightarrow> u64 \<Rightarrow> 'g refiner \<Rightarrow> 'g \<Rightarrow>
     split_plan_error + padded_denomination_plan option" where
  "plan_padded_denominations_with_refiner pick input_values fee_per_stage_zatoshi
       migration_fee_zatoshi minimum_output_zatoshi refine g =
     rbind (planning_context input_values fee_per_stage_zatoshi minimum_output_zatoshi) (\<lambda>found.
     case found of
       None \<Rightarrow> Inr None
     | Some ctx \<Rightarrow>
         rbind (ok_or MinimumFundingNoteOverflow
                  (checked_add 64 ZIP318_MAX_RESIDUAL_VALUE_ZATOSHI migration_fee_zatoshi))
           (\<lambda>minimum_funding_note.
         rbind (planning_loop pick ctx refine fee_per_stage_zatoshi migration_fee_zatoshi
                  minimum_funding_note [] [] (plan_from_parts [] []) g)
           (\<lambda>(crossing_values, funding_vals, preparation).
         finish_plan ctx crossing_values funding_vals preparation fee_per_stage_zatoshi
           migration_fee_zatoshi minimum_output_zatoshi)))"

definition plan_padded_denominations_with_policy_and_rng ::
    "note_order \<Rightarrow> u64 list \<Rightarrow> u64 \<Rightarrow> u64 \<Rightarrow> u64 \<Rightarrow> denomination_refinement_policy \<Rightarrow>
     ('g \<Rightarrow> u32 \<times> 'g) \<Rightarrow> 'g \<Rightarrow> split_plan_error + padded_denomination_plan option" where
  "plan_padded_denominations_with_policy_and_rng pick input_values fee_per_stage_zatoshi
       migration_fee_zatoshi minimum_output_zatoshi p draw =
     plan_padded_denominations_with_refiner pick input_values fee_per_stage_zatoshi
       migration_fee_zatoshi minimum_output_zatoshi (refine_denomination draw p)"

definition plan_padded_denominations_with_rng ::
    "note_order \<Rightarrow> u64 list \<Rightarrow> u64 \<Rightarrow> u64 \<Rightarrow> u64 \<Rightarrow> ('g \<Rightarrow> u32 \<times> 'g) \<Rightarrow> 'g \<Rightarrow>
     split_plan_error + padded_denomination_plan option" where
  "plan_padded_denominations_with_rng pick input_values fee_per_stage_zatoshi migration_fee_zatoshi
       minimum_output_zatoshi draw =
     plan_padded_denominations_with_policy_and_rng pick input_values fee_per_stage_zatoshi
       migration_fee_zatoshi minimum_output_zatoshi AGGRESSIVE_REFINEMENT_POLICY draw"

text \<open>The operating system's generator is one more generator: its draws and its state are arguments.\<close>

definition plan_padded_denominations ::
    "note_order \<Rightarrow> u64 list \<Rightarrow> u64 \<Rightarrow> u64 \<Rightarrow> u64 \<Rightarrow> ('g \<Rightarrow> u32 \<times> 'g) \<Rightarrow> 'g \<Rightarrow>
     split_plan_error + padded_denomination_plan option" where
  "plan_padded_denominations pick input_values fee_per_stage_zatoshi migration_fee_zatoshi
       minimum_output_zatoshi os_draw os_state =
     plan_padded_denominations_with_rng pick input_values fee_per_stage_zatoshi
       migration_fee_zatoshi minimum_output_zatoshi os_draw os_state"

definition plan_padded_denominations_without_refinement ::
    "note_order \<Rightarrow> u64 list \<Rightarrow> u64 \<Rightarrow> u64 \<Rightarrow> u64 \<Rightarrow>
     split_plan_error + padded_denomination_plan option" where
  "plan_padded_denominations_without_refinement pick input_values fee_per_stage_zatoshi
       migration_fee_zatoshi minimum_output_zatoshi =
     plan_padded_denominations_with_refiner pick input_values fee_per_stage_zatoshi
       migration_fee_zatoshi minimum_output_zatoshi
       (\<lambda>(_ :: unit) greedy. (refinement_leaf greedy, ())) ()"

text \<open>Replaying an approved list of targets. No randomness is drawn.\<close>

definition plan_padded_denominations_for_targets ::
    "note_order \<Rightarrow> u64 list \<Rightarrow> u64 list \<Rightarrow> u64 \<Rightarrow> u64 \<Rightarrow> u64 \<Rightarrow>
     split_plan_error + padded_denomination_plan option" where
  "plan_padded_denominations_for_targets pick input_values target_values fee_per_stage_zatoshi
       migration_fee_zatoshi minimum_output_zatoshi =
     (if target_values = [] then Inr None
      else case find (\<lambda>v. \<not> is_zip318_canonical_denomination v) target_values of
        Some v \<Rightarrow> Inl (ApprovedNoncanonical v)
      | None \<Rightarrow>
          if \<not> list_all (\<lambda>(a, b). a \<ge> b) (zip target_values (tl target_values)) then
            Inl ApprovedPlanOrder
          else
            rbind (planning_context input_values fee_per_stage_zatoshi minimum_output_zatoshi)
              (\<lambda>found.
            case found of
              None \<Rightarrow> Inl ApprovedPlanStale
            | Some ctx \<Rightarrow>
                rbind (preparation_for_crossings pick ctx target_values fee_per_stage_zatoshi
                         migration_fee_zatoshi) (\<lambda>prepared.
                case prepared of
                  None \<Rightarrow> Inl ApprovedPlanStale
                | Some (funding_vals, preparation) \<Rightarrow>
                    rbind (can_append_canonical_denomination pick ctx target_values funding_vals
                             preparation fee_per_stage_zatoshi migration_fee_zatoshi) (\<lambda>more.
                    if more then Inl ApprovedPlanStale
                    else finish_plan ctx target_values funding_vals preparation
                           fee_per_stage_zatoshi migration_fee_zatoshi
                           minimum_output_zatoshi))))"

end
