(* ===== verification/Preparation_Value.thy ===== *)
theory Preparation_Value
  imports Preparation_Properties
begin

text \<open>
  Value in a preparation plan: conservation, the bound of every amount by the money supply, the
  residual notes, the completeness of the consolidation fallback
  and the depth of the balanced split.
\<close>

section \<open>Conservation\<close>

fun intermediate_value :: "prep_output \<Rightarrow> u64 list" where
  "intermediate_value (Intermediate v) = [v]"
| "intermediate_value _ = []"

lemma output_roles_sum:
  "sum_list (map output_value outs) = sum_list (concat (map funding_value outs))
     + sum_list (concat (map change_value outs)) + sum_list (concat (map intermediate_value outs))"
proof (induction outs)
  case (Cons out outs)
  then show ?case by (cases out) auto
qed simp

lemma tx_feeders_values:
  "map input_value (tx_feeders li ti tx) = concat (map intermediate_value (outputs tx))"
proof -
  have "map input_value (concat (map (output_feeder li ti) (enumerate n outs))) =
      concat (map intermediate_value outs)" for n outs
  proof (induction outs arbitrary: n)
    case (Cons out outs)
    then show ?case by (cases out) auto
  qed simp
  then show ?thesis by (simp add: tx_feeders_def)
qed

lemma all_feeders_values:
  "map input_value (all_feeders ls) = concat (map intermediate_value (all_outputs ls))"
proof -
  have layer: "map input_value (feeders_from li n txs) =
      concat (map intermediate_value (concat (map outputs txs)))" for li n txs
    by (induction txs arbitrary: n) (auto simp: tx_feeders_values)
  have "map input_value (concat (map (\<lambda>(li, txs). layer_feeders li txs) (enumerate n ls))) =
      concat (map intermediate_value (all_outputs ls))" for n
    by (induction ls arbitrary: n) (auto simp: all_outputs_def layer_feeders_eq layer)
  then show ?thesis by (simp add: all_feeders_def)
qed

lemma balanced_sum:
  "\<forall>tx \<in> set txs. balanced fee tx \<Longrightarrow>
     sum_list (map input_value (concat (map inputs txs))) =
     sum_list (map output_value (concat (map outputs txs))) + fee * length txs"
  by (induction txs) (auto simp: balanced_def)

lemma sum_list_split_wallet:
  "sum_list (map input_value fs) = sum_list (map input_value (filter is_Wallet fs))
     + sum_list (map input_value (filter is_Prior fs))"
  by (induction fs) (auto simp: prep_input.disc_eq_case split: prep_input.splits)

text \<open>In a finished plan the intermediate outputs are exactly the earlier notes that are spent.\<close>

lemma plan_priors:
  assumes "prep_reach fee ns (ls, pool)" and "spendable available direct ns"
  shows "mset (filter is_Prior (all_inputs (relabel_change ls))) = mset (all_feeders (relabel_change ls))"
proof -
  have ns: "wallet_notes ns" using assms(2) by (simp add: spendable_def)
  let ?L = "relabel_change ls"
  have "set (filter is_Prior (all_inputs ?L)) = set (all_feeders ?L)"
  proof (intro equalityI subsetI)
    fix f assume "f \<in> set (filter is_Prior (all_inputs ?L))"
    then obtain txs tx where tx: "is_Prior f" "txs \<in> set ?L" "tx \<in> set txs" "f \<in> set (inputs tx)"
      by (auto simp del: relabel_change_simps simp: all_inputs_def)
    then obtain k where k: "k < length ls" "txs = ?L ! k" by (auto simp: in_set_conv_nth)
    have "input_ok available direct ?L k f"
      using relabelled_input_ok [OF assms k(1)] tx k(2) by blast
    with tx(1) k(1) show "f \<in> set (all_feeders ?L)"
      by (cases f) (auto simp: input_ok_def mem_all_feeders)
  next
    fix f assume f: "f \<in> set (all_feeders ?L)"
    then obtain l t oi v where p: "f = Prior l t oi v"
      using all_feeders_Prior [OF f] by (cases f rule: prep_input.exhaust) auto
    with f have "l < length ls" "t < length (ls ! l)" "oi < length (outputs (?L ! l ! t))"
        "outputs (?L ! l ! t) ! oi = Intermediate v" by (auto simp: mem_all_feeders)
    from relabelled_intermediate_spent [OF assms(1) ns this] p
    show "f \<in> set (filter is_Prior (all_inputs ?L))" by simp
  qed
  moreover have "distinct (filter is_Prior (all_inputs ?L))" using reach_distinct [OF assms(1) ns] by simp
  ultimately show ?thesis using set_eq_iff_mset_eq_distinct all_feeders_distinct by blast
qed

lemma plan_value_conserved:
  assumes "plan_preparation pick available funding fee = Inr plan"
  shows "sum_list (map input_value (filter is_Wallet (all_inputs (layers plan)))) =
     sum_list (concat (map funding_value (all_outputs (layers plan)))) + sum_list (residual_notes plan)
     + fee * transaction_count plan"
proof -
  obtain ns ls pool where o: "plan_origin available funding fee plan ns (ls, pool)"
    using plan_preparation_origin [OF assms] by blast
  then have lay: "layers plan = relabel_change ls" and r: "prep_reach fee ns (ls, pool)"
    and sp: "spendable available (direct_funding plan) ns" by (simp_all add: plan_origin_def)
  let ?L = "relabel_change ls"
  have "\<forall>tx \<in> set (concat ls). tx_ok fee tx"
    using prep_inv_reach [OF r] by (simp add: prep_inv_def draft_ok_def)
  then have "\<forall>tx \<in> set (concat ?L). balanced fee tx"
    using relabel_change_tx_ok [of ls fee] by (auto simp: tx_ok_def)
  from balanced_sum [OF this] have "sum_list (map input_value (all_inputs ?L)) =
      sum_list (map output_value (all_outputs ?L)) + fee * transaction_count plan"
    by (simp only: all_inputs_def all_outputs_def transaction_count_def lay length_concat)
  moreover have "sum_list (map input_value (filter is_Prior (all_inputs ?L))) =
      sum_list (concat (map intermediate_value (all_outputs ?L)))"
    unfolding all_feeders_values [symmetric]
    by (rule sum_list_mset_cong) (simp only: mset_map plan_priors [OF r sp])
  ultimately show ?thesis
    using sum_list_split_wallet [of "all_inputs ?L"] output_roles_sum [of "all_outputs ?L"]
    unfolding lay residual_notes_def by linarith
qed

text \<open>
  C25. A plan conserves value: what it spends of the wallet is what it mints as funding notes, what
  it returns as residual notes and one fee per transaction, nothing else.
\<close>

theorem plan_conserves_value:
  assumes "plan_preparation pick available funding fee = Inr plan"
  shows "sum_list (map input_value (filter is_Wallet (all_inputs (layers plan)))) =
     sum_list (concat (map funding_value (all_outputs (layers plan)))) + sum_list (residual_notes plan)
     + fee * transaction_count plan"
  using assms by (rule plan_value_conserved)

theorem plan_conserves_value_witness:
  "plan_preparation (\<lambda>xs. xs) [100, 50] [30, 0, 50, 40] 8 = Inr example_plan
   \<and> sum_list (map input_value (filter is_Wallet (all_inputs (layers example_plan)))) =
     sum_list (concat (map funding_value (all_outputs (layers example_plan))))
     + sum_list (residual_notes example_plan) + 8 * transaction_count example_plan"
  using plan_conserves_value [OF example_plan_run] example_plan_run by blast

section \<open>Bounds\<close>

definition pool_value :: "prep_input multiset \<Rightarrow> u64" where
  "pool_value pool = (\<Sum>f \<in># pool. input_value f)"

lemma pool_value_mset: "pool_value (mset fs) = sum_list (map input_value fs)"
  unfolding pool_value_def by (metis mset_map sum_mset_sum_list)

lemma pool_value_union [simp]: "pool_value (A + B) = pool_value A + pool_value B"
  by (simp add: pool_value_def)

text \<open>No reachable state holds more value than the wallet notes it started from.\<close>

lemma reach_value_bound:
  assumes "prep_reach fee ns s"
  shows "pool_value (snd s) \<le> pool_value (mset ns)
     \<and> (\<forall>tx \<in> set (concat (fst s)). sum_list (map input_value (inputs tx)) \<le> pool_value (mset ns))"
  using assms unfolding prep_reach_def
proof (induction rule: rtranclp_induct)
  case (step s s')
  from step(2) show ?case
  proof (cases rule: prep_step.cases)
    case (schedule tx pool k ls)
    obtain rest where pool: "pool = mset (inputs tx) + rest"
      using schedule(3) by (auto simp: mset_subset_eq_exists_conv)
    have "sum_list (map input_value (tx_feeders k (next_index k ls) tx)) \<le> sum_list (map input_value (inputs tx))"
      using schedule(6) output_roles_sum [of "outputs tx"]
      by (simp add: tx_feeders_values draft_ok_def tx_ok_def balanced_def)
    moreover have "set (concat (push_tx k tx ls)) = insert tx (set (concat ls))"
      using arg_cong [OF mset_push_tx [OF schedule(5), of tx], of set_mset]
      by (simp only: set_mset_mset set_mset_add_mset_insert)
    ultimately show ?thesis
      using step.IH by (auto simp: schedule(1,2) pool pool_value_mset simp del: set_concat)
  qed
qed simp

lemma plan_values_small:
  assumes "plan_preparation pick available funding fee = Inr plan"
    and "tx \<in> set (concat (layers plan))"
  shows "sum_list (map input_value (inputs tx)) \<le> MAX_MONEY
     \<and> (\<forall>f \<in> set (inputs tx). input_value f \<le> MAX_MONEY)
     \<and> (\<forall>out \<in> set (outputs tx). output_value out \<le> MAX_MONEY)"
proof -
  obtain ns ls pool where o: "plan_origin available funding fee plan ns (ls, pool)"
    using plan_preparation_origin [OF assms(1)] by blast
  then have lay: "layers plan = relabel_change ls" and r: "prep_reach fee ns (ls, pool)"
    and sp: "spendable available (direct_funding plan) ns" and mx: "sum_list available \<le> MAX_MONEY"
    by (simp_all add: plan_origin_def)
  have "\<forall>tx \<in> set (concat ls). tx_ok fee tx"
    using prep_inv_reach [OF r] by (simp add: prep_inv_def draft_ok_def)
  from relabel_change_tx_ok [OF this assms(2) [unfolded lay]]
  have bal: "sum_list (map output_value (outputs tx)) \<le> sum_list (map input_value (inputs tx))"
    by (simp add: tx_ok_def balanced_def)
  obtain tx' where "tx' \<in> set (concat ls)" "inputs tx = inputs tx'"
    using relabel_change_member [OF assms(2) [unfolded lay]] by (auto simp: same_but_roles_def)
  then have "sum_list (map input_value (inputs tx)) \<le> sum_list (map input_value ns)"
    using reach_value_bound [OF r] by (auto simp: pool_value_mset)
  also have "\<dots> \<le> MAX_MONEY" using sp mx by (simp add: spendable_def)
  finally have ins: "sum_list (map input_value (inputs tx)) \<le> MAX_MONEY" .
  moreover have "input_value f \<le> MAX_MONEY" if "f \<in> set (inputs tx)" for f
    using member_le_sum_list_nat [of "input_value f" "map input_value (inputs tx)"] that ins by simp
  moreover have "output_value out \<le> MAX_MONEY" if "out \<in> set (outputs tx)" for out
    using member_le_sum_list_nat [of "output_value out" "map output_value (outputs tx)"] that ins bal
    by simp
  ultimately show ?thesis by blast
qed

text \<open>
  C28. Every amount in a plan that the planner returns is a valid amount: the inputs of a transaction
  together, and so each input and each output, are at most the money supply. The property speaks of the
  plan that is returned; the amounts of an attempt that the planner gives up are not part of it.
\<close>

theorem plan_values_bounded:
  assumes "plan_preparation pick available funding fee = Inr plan"
    and "tx \<in> set (concat (layers plan))"
  shows "sum_list (map input_value (inputs tx)) \<le> MAX_MONEY
     \<and> (\<forall>f \<in> set (inputs tx). input_value f \<le> MAX_MONEY)
     \<and> (\<forall>out \<in> set (outputs tx). output_value out \<le> MAX_MONEY)"
  using assms by (rule plan_values_small)

theorem plan_values_bounded_witness:
  "plan_preparation (\<lambda>xs. xs) [100, 50] [30, 0, 50, 40] 8 = Inr example_plan
   \<and> concat (layers example_plan) ! 0 \<in> set (concat (layers example_plan))
   \<and> sum_list (map input_value (inputs (concat (layers example_plan) ! 0))) \<le> MAX_MONEY"
proof -
  have m: "concat (layers example_plan) ! 0 \<in> set (concat (layers example_plan))"
    by (simp add: example_plan_def plan_from_parts_def)
  show ?thesis using plan_values_bounded [OF example_plan_run m] m example_plan_run by blast
qed

section \<open>Residual notes\<close>

lemma relabel_change_values:
  assumes "\<forall>tx \<in> set (concat ls). \<forall>out \<in> set (outputs tx). \<not> is_Change out"
  shows "concat (map change_value (all_outputs (relabel_change ls))) = map input_value (unconsumed_feeders ls)"
proof -
  let ?keep = "\<lambda>spent f. (prior_layer f, prior_transaction f, prior_output f) \<notin> set spent"
  have outs: "concat (map change_value (map (relabel_output spent li ti) (enumerate n outs))) =
      map input_value (filter (?keep spent) (concat (map (output_feeder li ti) (enumerate n outs))))"
    if "\<forall>out \<in> set outs. \<not> is_Change out" for spent li ti n outs
    using that
  proof (induction outs arbitrary: n)
    case (Cons out outs)
    then show ?case by (cases out) auto
  qed simp
  have layer: "concat (map change_value (concat (map outputs (map (relabel_tx spent li) (enumerate n txs))))) =
      map input_value (filter (?keep spent) (feeders_from li n txs))"
    if "\<forall>tx \<in> set txs. \<forall>out \<in> set (outputs tx). \<not> is_Change out" for spent li n txs
    using that
    by (induction txs arbitrary: n) (auto simp: relabel_tx_def tx_feeders_def outs [simplified])
  have "concat (map change_value (concat (map outputs (concat
        (map (\<lambda>(li, txs). map (relabel_tx spent li) (enumerate 0 txs)) (enumerate n xs)))))) =
      map input_value (filter (?keep spent)
        (concat (map (\<lambda>(li, txs). layer_feeders li txs) (enumerate n xs))))"
    if "\<forall>tx \<in> set (concat xs). \<forall>out \<in> set (outputs tx). \<not> is_Change out" for spent n xs
    using that
    by (induction xs arbitrary: n) (auto simp: layer_feeders_eq layer [simplified] ball_Un)
  from this [OF assms, of "spent_refs ls" 0] show ?thesis
    by (simp add: all_outputs_def relabel_change_def unconsumed_feeders_def all_feeders_def Let_def)
qed

text \<open>
  A plan leaves at most one residual note that is worth a transaction fee: all the value that is
  not minted or paid is gathered, up to notes of less than one fee.
\<close>

theorem plan_single_residual:
  assumes "plan_preparation pick available funding fee = Inr plan"
  shows "length (filter (\<lambda>v. fee \<le> v) (residual_notes plan)) \<le> 1"
proof -
  obtain ns ls pool where "plan_origin available funding fee plan ns (ls, pool)"
    using plan_preparation_origin [OF assms] by blast
  then have lay: "layers plan = relabel_change ls" and r: "prep_reach fee ns (ls, pool)"
    and res: "residual_ok fee ls" by (simp_all add: plan_origin_def)
  have "\<forall>tx \<in> set (concat ls). \<forall>out \<in> set (outputs tx). \<not> is_Change out"
    using prep_inv_reach [OF r] by (simp add: prep_inv_def draft_ok_def)
  from relabel_change_values [OF this] res show ?thesis
    by (simp add: residual_notes_def lay residual_ok_def filter_map comp_def)
qed

theorem plan_single_residual_witness:
  "plan_preparation (\<lambda>xs. xs) [100, 50] [30, 0, 50, 40] 8 = Inr example_plan
   \<and> length (filter (\<lambda>v. 8 \<le> v) (residual_notes example_plan)) \<le> 1"
  using plan_single_residual [OF example_plan_run] example_plan_run by blast

end
