(* ===== verification/Split_Refinement.thy ===== *)
theory Split_Refinement
  imports Split_Plan Preparation_Value
begin

text \<open>
  Refinement trees and their candidates: which trees the refiner can return, and that every
  candidate of such a tree keeps the value and uses canonical denominations only.
\<close>

section \<open>The trees of the refiner\<close>

definition tree_two :: "denomination_refinement list" where
  "tree_two = [Refinement TWO_THOUSAND_ZEC_ZATOSHI [],
     Refinement TWO_THOUSAND_ZEC_ZATOSHI
       [Refinement ONE_THOUSAND_ZEC_ZATOSHI [], Refinement ONE_THOUSAND_ZEC_ZATOSHI []]]"

definition tree_five :: "denomination_refinement list" where
  "tree_five = Refinement FIVE_THOUSAND_ZEC_ZATOSHI [] #
     [Refinement FIVE_THOUSAND_ZEC_ZATOSHI [a, b, Refinement ONE_THOUSAND_ZEC_ZATOSHI []].
        a \<leftarrow> tree_two, b \<leftarrow> tree_two]"

definition tree_ten :: "denomination_refinement list" where
  "tree_ten = Refinement TEN_THOUSAND_ZEC_ZATOSHI [] #
     [Refinement TEN_THOUSAND_ZEC_ZATOSHI [a, b]. a \<leftarrow> tree_five, b \<leftarrow> tree_five]"

text \<open>The values are distinct, so each rule of the policy applies to its own value only.\<close>

lemma zec_values:
  "TEN_THOUSAND_ZEC_ZATOSHI = 1000000000000" "FIVE_THOUSAND_ZEC_ZATOSHI = 500000000000"
  "TWO_THOUSAND_ZEC_ZATOSHI = 200000000000" "ONE_THOUSAND_ZEC_ZATOSHI = 100000000000"
  by (simp_all add: const_defs)

lemma split_rule_values:
  "split_rule p TEN_THOUSAND_ZEC_ZATOSHI =
     Some (ten_thousand_split_percent p, [FIVE_THOUSAND_ZEC_ZATOSHI, FIVE_THOUSAND_ZEC_ZATOSHI])"
  "split_rule p FIVE_THOUSAND_ZEC_ZATOSHI =
     Some (five_thousand_split_percent p,
           [TWO_THOUSAND_ZEC_ZATOSHI, TWO_THOUSAND_ZEC_ZATOSHI, ONE_THOUSAND_ZEC_ZATOSHI])"
  "split_rule p TWO_THOUSAND_ZEC_ZATOSHI =
     Some (two_thousand_split_percent p, [ONE_THOUSAND_ZEC_ZATOSHI, ONE_THOUSAND_ZEC_ZATOSHI])"
  "split_rule p ONE_THOUSAND_ZEC_ZATOSHI = None"
  by (simp_all add: split_rule_def zec_values)

lemma refine_one: "refine_denomination draw p g ONE_THOUSAND_ZEC_ZATOSHI =
    (Refinement ONE_THOUSAND_ZEC_ZATOSHI [], g)"
  by (simp add: refine_denomination.simps split_rule_values refinement_leaf_def)

lemma refine_two: "fst (refine_denomination draw p g TWO_THOUSAND_ZEC_ZATOSHI) \<in> set tree_two"
  by (auto simp: refine_denomination.simps(1) [of _ _ _ TWO_THOUSAND_ZEC_ZATOSHI] split_rule_values
      refinement_leaf_def tree_two_def refine_one Let_def split: prod.splits)

lemma refine_five: "fst (refine_denomination draw p g FIVE_THOUSAND_ZEC_ZATOSHI) \<in> set tree_five"
proof -
  have two: "t \<in> set tree_two" if "refine_denomination draw p h TWO_THOUSAND_ZEC_ZATOSHI = (t, h')"
    for h t h'
    using refine_two [of draw p h] that by simp
  show ?thesis
    by (auto simp: refine_denomination.simps(1) [of _ _ _ FIVE_THOUSAND_ZEC_ZATOSHI]
        split_rule_values refinement_leaf_def tree_five_def refine_one Let_def
        split: prod.splits dest!: two)
qed

lemma refine_ten: "fst (refine_denomination draw p g TEN_THOUSAND_ZEC_ZATOSHI) \<in> set tree_ten"
proof -
  have five: "t \<in> set tree_five" if "refine_denomination draw p h FIVE_THOUSAND_ZEC_ZATOSHI = (t, h')"
    for h t h'
    using refine_five [of draw p h] that by simp
  show ?thesis
    by (auto simp: refine_denomination.simps(1) [of _ _ _ TEN_THOUSAND_ZEC_ZATOSHI]
        split_rule_values refinement_leaf_def tree_ten_def Let_def split: prod.splits dest!: five)
qed

lemma refine_tree:
  "fst (refine_denomination draw p g v) \<in> {Refinement v []} \<union> set tree_two \<union> set tree_five \<union> set tree_ten"
proof (cases "split_rule p v")
  case None
  then show ?thesis by (simp add: refine_denomination.simps refinement_leaf_def)
next
  case (Some r)
  then have "v = TEN_THOUSAND_ZEC_ZATOSHI \<or> v = FIVE_THOUSAND_ZEC_ZATOSHI \<or> v = TWO_THOUSAND_ZEC_ZATOSHI"
    by (auto simp: split_rule_def split: if_splits)
  then show ?thesis using refine_two refine_five refine_ten by fast
qed

lemma refine_value: "refined_value (fst (refine_denomination draw p g v)) = v"
  by (auto simp: refine_denomination.simps refinement_leaf_def Let_def split: option.splits prod.splits)

section \<open>Their candidates\<close>

text \<open>
  A tree that the checks of \<open>refinement_candidates\<close> accept, and the number of its prunings before
  duplicates are removed.
\<close>

fun tree_ok :: "denomination_refinement \<Rightarrow> bool" where
  "tree_ok (Refinement v children) \<longleftrightarrow>
     is_zip318_canonical_denomination v
     \<and> (children \<noteq> [] \<longrightarrow> sum_list (map refined_value children) = v)
     \<and> (\<forall>c \<in> set children. tree_ok c)"

fun prunings :: "denomination_refinement \<Rightarrow> nat" where
  "prunings (Refinement v children) =
     (if children = [] then 1 else prod_list (map prunings children) + 1)"

lemma prunings_pos [simp]: "0 < prunings t"
  by (cases t) simp

lemma prod_prunings_pos [simp]: "0 < prod_list (map prunings ts)"
  by (induction ts) simp_all

lemma length_combine [simp]:
  "length (combine_candidates expanded cc) = length expanded * length cc"
  by (induction expanded) (simp_all add: combine_candidates_def)

lemma canonical_bound: "is_zip318_canonical_denomination v \<Longrightarrow> v < 2 ^ 64"
  using zip318_denominations_bounds [of v] by (simp add: canonical_iff_member)

lemma candidates_exist:
  shows candidates_exist_tree:
      "tree_ok t \<Longrightarrow> prunings t < 2 ^ 64 \<Longrightarrow>
         \<exists>cs. refinement_candidates t = Inr cs \<and> length cs \<le> prunings t"
    and candidates_exist_children:
      "\<forall>t \<in> set ts. tree_ok t \<Longrightarrow> length expanded * prod_list (map prunings ts) < 2 ^ 64 \<Longrightarrow>
         0 < length expanded \<Longrightarrow>
         \<exists>cs. expand_children expanded ts = Inr cs
           \<and> length cs \<le> length expanded * prod_list (map prunings ts)"
proof (induction t and expanded ts rule: refinement_candidates_expand_children.induct)
  case (1 v children)
  show ?case
  proof (cases "children = []")
    case True
    with 1(2) show ?thesis by simp
  next
    case False
    have v: "is_zip318_canonical_denomination v" and tot: "sum_list (map refined_value children) = v"
      using 1(2) False by auto
    have cs: "checked_sum RefinementTotalOverflow (map refined_value children) = Inr v"
      using canonical_bound [OF v] tot by (simp add: checked_sum_eq)
    obtain ex where ex: "expand_children [[]] children = Inr ex"
        "length ex \<le> prod_list (map prunings children)"
      using 1(1) [of v] 1(2,3) v False cs by auto
    have "length (remdups_adj (sort_key candidate_key (map sort_desc (ex @ [[v]])))) \<le> Suc (length ex)"
      by (rule order_trans [OF remdups_adj_length]) simp
    then show ?thesis using v cs ex tot False by simp
  qed
next
  case (2 expanded)
  then show ?case by simp
next
  case (3 expanded c ts)
  let ?P = "prod_list (map prunings ts)"
  have le: "length expanded * prunings c * ?P < 2 ^ 64" using 3(4) by (simp add: mult.assoc)
  have one: "1 \<le> length expanded" "1 \<le> ?P" "1 \<le> prunings c"
    using 3(5) prod_prunings_pos [of ts] prunings_pos [of c] by linarith+
  have "length expanded * prunings c \<le> length expanded * prunings c * ?P" using one by simp
  moreover have "prunings c \<le> length expanded * prunings c" using one by simp
  ultimately have "prunings c < 2 ^ 64" "length expanded * prunings c < 2 ^ 64"
    using le by linarith+
  then obtain cc where cc: "refinement_candidates c = Inr cc" "length cc \<le> prunings c"
    using 3(1) 3(3) by auto
  have "0 < length cc" using candidates_split_value [OF cc(1)] by auto
  have m: "length expanded * length cc \<le> length expanded * prunings c"
    using cc(2) by simp
  have mul: "checked_mul 64 (length expanded) (length cc) = Some (length expanded * length cc)"
    using le_less_trans [OF m \<open>length expanded * prunings c < 2 ^ 64\<close>] by simp
  have m2: "length expanded * length cc * ?P \<le> length expanded * prunings c * ?P"
    using m mult_le_mono1 by blast
  have ok: "\<forall>t \<in> set ts. tree_ok t" and le2: "length (combine_candidates expanded cc) * ?P < 2 ^ 64"
    and pos: "0 < length (combine_candidates expanded cc)"
    using 3(3) le_less_trans [OF m2 le] \<open>0 < length cc\<close> 3(5) by auto
  have cap: "ok_or RefinementCountOverflow (checked_mul 64 (length expanded) (length cc)) =
      Inr (length expanded * length cc)"
    by (simp only: mul ok_or_simps)
  obtain cs where cs: "expand_children (combine_candidates expanded cc) ts = Inr cs"
      "length cs \<le> length expanded * length cc * ?P"
    using 3(2) [OF cc(1) cap ok le2 pos] by auto
  have "length cs \<le> length expanded * (prunings c * ?P)"
    using order_trans [OF cs(2) m2] by (simp only: mult.assoc)
  then show ?case using cc(1) cap cs(1) by simp
qed

lemma zec_canonical:
  "is_zip318_canonical_denomination TEN_THOUSAND_ZEC_ZATOSHI"
  "is_zip318_canonical_denomination FIVE_THOUSAND_ZEC_ZATOSHI"
  "is_zip318_canonical_denomination TWO_THOUSAND_ZEC_ZATOSHI"
  "is_zip318_canonical_denomination ONE_THOUSAND_ZEC_ZATOSHI"
  by (simp_all add: canonical_iff_member zec_values zip318_denominations_def)

lemma tree_two_ok: "t \<in> set tree_two \<Longrightarrow>
    tree_ok t \<and> prunings t \<le> 2 \<and> refined_value t = TWO_THOUSAND_ZEC_ZATOSHI"
  by (auto simp: tree_two_def zec_canonical) (simp add: zec_values)

lemma tree_five_ok:
  assumes "t \<in> set tree_five"
  shows "tree_ok t \<and> prunings t \<le> 5 \<and> refined_value t = FIVE_THOUSAND_ZEC_ZATOSHI"
proof (cases "t = Refinement FIVE_THOUSAND_ZEC_ZATOSHI []")
  case True
  then show ?thesis by (simp add: zec_canonical)
next
  case False
  with assms obtain a b where ab: "a \<in> set tree_two" "b \<in> set tree_two"
    and t: "t = Refinement FIVE_THOUSAND_ZEC_ZATOSHI [a, b, Refinement ONE_THOUSAND_ZEC_ZATOSHI []]"
    by (auto simp: tree_five_def)
  have "prunings a * prunings b \<le> 4"
    using mult_le_mono [of "prunings a" 2 "prunings b" 2] tree_two_ok [OF ab(1)]
      tree_two_ok [OF ab(2)] by simp
  moreover have "2 * TWO_THOUSAND_ZEC_ZATOSHI + ONE_THOUSAND_ZEC_ZATOSHI = FIVE_THOUSAND_ZEC_ZATOSHI"
    by (simp add: zec_values)
  ultimately show ?thesis
    using tree_two_ok [OF ab(1)] tree_two_ok [OF ab(2)] by (simp add: t zec_canonical)
qed

lemma tree_ten_ok:
  assumes "t \<in> set tree_ten"
  shows "tree_ok t \<and> prunings t \<le> 26 \<and> refined_value t = TEN_THOUSAND_ZEC_ZATOSHI"
proof (cases "t = Refinement TEN_THOUSAND_ZEC_ZATOSHI []")
  case True
  then show ?thesis by (simp add: zec_canonical)
next
  case False
  with assms obtain a b where ab: "a \<in> set tree_five" "b \<in> set tree_five"
    and t: "t = Refinement TEN_THOUSAND_ZEC_ZATOSHI [a, b]"
    by (auto simp: tree_ten_def)
  have "prunings a * prunings b \<le> 25"
    using mult_le_mono [of "prunings a" 5 "prunings b" 5] tree_five_ok [OF ab(1)]
      tree_five_ok [OF ab(2)] by simp
  moreover have "2 * FIVE_THOUSAND_ZEC_ZATOSHI = TEN_THOUSAND_ZEC_ZATOSHI"
    by (simp add: zec_values)
  ultimately show ?thesis
    using tree_five_ok [OF ab(1)] tree_five_ok [OF ab(2)] by (simp add: t zec_canonical)
qed

lemma refine_tree_ok:
  assumes "is_zip318_canonical_denomination v"
  shows "tree_ok (fst (refine_denomination draw p g v))"
    and "prunings (fst (refine_denomination draw p g v)) \<le> 26"
  using refine_tree [of draw p g v] tree_two_ok tree_five_ok tree_ten_ok assms by fastforce+

section \<open>The list of candidates\<close>

lemma sorted_remdups_adj_distinct: "sorted xs \<Longrightarrow> distinct (remdups_adj (xs :: 'a :: linorder list))"
  by (induction xs rule: remdups_adj.induct) force+

lemma sorted_candidates:
  assumes "refinement_candidates t = Inr cs"
  shows "sorted (map candidate_key cs)" and "distinct cs" and "\<forall>c \<in> set cs. non_increasing c"
proof -
  obtain v children where t: "t = Refinement v children" by (cases t)
  have "\<exists>xs. cs = remdups_adj (sort_key candidate_key (map sort_desc xs))"
  proof (cases "children = []")
    case True
    with assms t have "cs = remdups_adj (sort_key candidate_key (map sort_desc [[v]]))"
      using sort_desc_id [of "[v]"] by (auto simp: non_increasing_def split: if_splits)
    then show ?thesis by blast
  next
    case False
    with assms t obtain expanded where
      "cs = remdups_adj (sort_key candidate_key (map sort_desc (expanded @ [[v]])))"
      by (auto split: if_splits)
    then show ?thesis by blast
  qed
  then obtain xs where cs: "cs = remdups_adj (sort_key candidate_key (map sort_desc xs))" ..
  have key: "map candidate_key (remdups_adj ys) = remdups_adj (map candidate_key ys)" for ys
    by (rule remdups_adj_map_injective [symmetric]) (simp add: inj_on_def candidate_key_def)
  have s: "sorted (map candidate_key (sort_key candidate_key (map sort_desc xs)))" by simp
  then show "sorted (map candidate_key cs)" unfolding cs key by (rule sorted_remdups_adj)
  have "distinct (map candidate_key cs)"
    unfolding cs key using s by (rule sorted_remdups_adj_distinct)
  then show "distinct cs" by (simp add: distinct_map)
  show "\<forall>c \<in> set cs. non_increasing c" by (auto simp: cs)
qed

lemma candidate_key_length: "candidate_key a \<le> candidate_key b \<Longrightarrow> length b \<le> length a"
  by (auto simp: candidate_key_def less_eq_prod_def)

lemma candidates_by_length:
  assumes "refinement_candidates t = Inr cs"
  shows "sorted_wrt (\<lambda>a b. length b \<le> length a) cs"
  using sorted_candidates(1) [OF assms]
  unfolding sorted_map by (rule sorted_wrt_mono_rel [rotated]) (rule candidate_key_length)

lemma singleton_sum: "0 < v \<Longrightarrow> length c \<le> 1 \<Longrightarrow> sum_list c = (v :: nat) \<Longrightarrow> c = [v]"
  by (cases c) auto

lemma candidates_last:
  assumes "refinement_candidates t = Inr cs"
  shows "cs \<noteq> []" and "last cs = [refined_value t]"
proof -
  let ?v = "refined_value t"
  have v: "[?v] \<in> set cs" and all: "\<forall>c \<in> set cs. splits_value ?v c"
    using candidates_split_value [OF assms] by auto
  then show ne: "cs \<noteq> []" by auto
  have "sorted_wrt (\<lambda>a b. length b \<le> length a) (butlast cs @ [last cs])"
    using candidates_by_length [OF assms] ne by simp
  then have "\<forall>c \<in> set (butlast cs). length (last cs) \<le> length c"
    by (simp add: sorted_wrt_append)
  moreover have "[?v] \<in> set (butlast cs @ [last cs])" using v ne by simp
  ultimately have "length (last cs) \<le> length [?v]"
    by (metis Un_iff empty_iff empty_set order_refl set_ConsD set_append)
  then have "length (last cs) \<le> 1" by simp
  moreover have "0 < ?v" using candidates_positive [OF assms v] by simp
  moreover have "sum_list (last cs) = ?v" using all last_in_set [OF ne] by (auto simp: splits_value_def)
  ultimately show "last cs = [?v]" by (intro singleton_sum)
qed

text \<open>
  C30. For a canonical denomination, whatever the policy and whatever the generator draws, the
  refinement yields a list of candidates without an error: at most the 26 that the source announces,
  no two equal, those with most parts first and the unsplit denomination last, each in descending
  order, made of canonical denominations and worth the denomination refined.
\<close>

theorem refinement_candidates_sound:
  assumes "is_zip318_canonical_denomination v"
  shows "\<exists>cs. refinement_candidates (fst (refine_denomination draw p g v)) = Inr cs
     \<and> length cs \<le> 26 \<and> distinct cs \<and> cs \<noteq> [] \<and> last cs = [v]
     \<and> sorted_wrt (\<lambda>a b. length b \<le> length a) cs
     \<and> (\<forall>c \<in> set cs. non_increasing c \<and> sum_list c = v
          \<and> (\<forall>d \<in> set c. is_zip318_canonical_denomination d))"
proof -
  let ?t = "fst (refine_denomination draw p g v)"
  note ok = refine_tree_ok [OF assms, of draw p g]
  then have "prunings ?t < 2 ^ 64" by simp
  then obtain cs where cs: "refinement_candidates ?t = Inr cs" "length cs \<le> prunings ?t"
    using candidates_exist_tree ok(1) by blast
  have "\<forall>c \<in> set cs. splits_value v c"
    using candidates_split_value [OF cs(1)] by (simp add: refine_value)
  then show ?thesis
    using cs ok(2) sorted_candidates(2,3) [OF cs(1)] candidates_by_length [OF cs(1)]
      candidates_last [OF cs(1)]
    by (auto simp: refine_value splits_value_def)
qed

theorem refinement_candidates_sound_witness:
  "is_zip318_canonical_denomination TEN_THOUSAND_ZEC_ZATOSHI
   \<and> (\<exists>cs. refinement_candidates (fst (refine_denomination (\<lambda>g. (g, g + 30))
        AGGRESSIVE_REFINEMENT_POLICY (0 :: nat) TEN_THOUSAND_ZEC_ZATOSHI)) = Inr cs
      \<and> length cs \<le> 26 \<and> last cs = [TEN_THOUSAND_ZEC_ZATOSHI])"
  using refinement_candidates_sound [OF zec_canonical(1), of "\<lambda>g. (g, g + 30)"
      AGGRESSIVE_REFINEMENT_POLICY "0 :: nat"] zec_canonical(1) by blast

end
