(* ===== verification/Split_Translation.thy ===== *)
theory Split_Translation
  imports Split_Plan Preparation_Value
begin

text \<open>
  The translation of a preparation plan into stages: what it needs to succeed, and how the stages
  correspond to the transactions of the plan. Every transaction becomes one stage, in order; every
  funding output and every directly spent note gets a part index of its value, each index once.
\<close>

section \<open>Part indices\<close>

definition part_list :: "part_map \<Rightarrow> u64 \<Rightarrow> usize list" where
  "part_list parts v = (case parts v of None \<Rightarrow> [] | Some ps \<Rightarrow> ps)"

text \<open>The indices left for each value are as many as the occurrences of the value still to come.\<close>

definition parts_fit :: "part_map \<Rightarrow> u64 list \<Rightarrow> bool" where
  "parts_fit parts vs \<longleftrightarrow> (\<forall>v. length (part_list parts v) = count (mset vs) v)"

text \<open>What was taken between two states: pairs of an index and the value it was taken for.\<close>

definition takes :: "part_map \<Rightarrow> (usize \<times> u64) list \<Rightarrow> part_map \<Rightarrow> bool" where
  "takes parts ps parts' \<longleftrightarrow>
     (\<forall>v. mset (part_list parts v) =
            mset (part_list parts' v) + mset (map fst (filter (\<lambda>p. snd p = v) ps)))"

lemma takes_Nil [simp]: "takes parts [] parts"
  by (simp add: takes_def)

lemma takes_append:
  "takes parts ps parts' \<Longrightarrow> takes parts' qs parts'' \<Longrightarrow> takes parts (ps @ qs) parts''"
  by (simp add: takes_def)

lemma take_part_fit:
  assumes "parts_fit parts (v # vs)"
  shows "\<exists>i parts'. take_part_index parts v = Inr (i, parts') \<and> parts_fit parts' vs
     \<and> takes parts [(i, v)] parts'"
proof -
  have "part_list parts v \<noteq> []"
    using assms by (metis count_add_mset length_0_conv mset.simps(2) nat.distinct(1) parts_fit_def)
  then obtain ps where ps: "parts v = Some ps" "ps \<noteq> []"
    by (auto simp: part_list_def split: option.splits)
  let ?parts' = "parts(v \<mapsto> butlast ps)"
  have lists: "part_list ?parts' v = butlast ps" "part_list parts v = butlast ps @ [last ps]"
    "\<And>w. w \<noteq> v \<Longrightarrow> part_list ?parts' w = part_list parts w"
    using ps by (simp_all add: part_list_def)
  have "take_part_index parts v = Inr (last ps, ?parts')"
    using ps by (simp add: take_part_index_def)
  moreover have "takes parts [(last ps, v)] ?parts'"
    unfolding takes_def
  proof
    fix w
    show "mset (part_list parts w) = mset (part_list ?parts' w)
        + mset (map fst (filter (\<lambda>p. snd p = w) [(last ps, v)]))"
      using lists by (cases "w = v") auto
  qed
  moreover have "parts_fit ?parts' vs"
    unfolding parts_fit_def
  proof
    fix w
    have "length (part_list parts w) = count (mset (v # vs)) w"
      using assms by (simp add: parts_fit_def)
    then show "length (part_list ?parts' w) = count (mset vs) w"
      by (cases "w = v") (simp_all add: lists)
  qed
  ultimately show ?thesis by blast
qed

text \<open>The initial map: the indices of a value, the smallest last.\<close>

lemma part_list_push:
  "part_list (push_part (i, v) parts) w = part_list parts w @ (if v = w then [i] else [])"
  by (auto simp: push_part_def part_list_def split: option.splits)

lemma part_list_fold_push:
  "part_list (fold push_part ps parts) v = part_list parts v @ map fst (filter (\<lambda>p. snd p = v) ps)"
  by (induction ps arbitrary: parts) (auto simp: part_list_push)

lemma part_list_initial:
  "part_list (initial_parts fs) v = rev (map fst (filter (\<lambda>p. snd p = v) (enumerate 0 fs)))"
proof -
  have "part_list Map.empty v = []" by (simp add: part_list_def)
  then show ?thesis
    by (simp add: initial_parts_def part_list_fold_push rev_filter [symmetric] rev_map)
qed

lemma length_filter_enumerate:
  "length (filter (\<lambda>p. snd p = v) (enumerate n fs)) = count (mset fs) v"
  by (induction fs arbitrary: n) simp_all

lemma initial_parts_fit: "mset vs = mset fs \<Longrightarrow> parts_fit (initial_parts fs) vs"
  by (simp add: parts_fit_def part_list_initial length_filter_enumerate)

lemma parts_fit_Nil: "parts_fit parts [] \<Longrightarrow> \<not> parts_left fs parts"
  by (auto simp: parts_fit_def parts_left_def part_list_def list_ex_iff split: option.splits
      dest: spec)

text \<open>When all indices are taken, the pairs taken are the indexed funding values.\<close>

lemma filter_snd_mset:
  "mset (map fst (filter (\<lambda>p. snd p = v) ps)) = image_mset fst (filter_mset (\<lambda>p. snd p = v) (mset ps))"
  by simp

lemma count_by_snd:
  "count (mset ps) (i, v) = count (mset (map fst (filter (\<lambda>p. snd p = v) ps))) i"
  by (induction ps) auto

lemma takes_all:
  assumes "takes (initial_parts fs) ps parts" and "parts_fit parts []"
  shows "mset ps = mset (enumerate 0 fs)"
proof (rule multiset_eqI)
  fix p :: "usize \<times> u64"
  obtain i v where p: "p = (i, v)" by force
  have "part_list parts v = []" using assms(2) by (simp add: parts_fit_def)
  then have "mset (map fst (filter (\<lambda>p. snd p = v) (enumerate 0 fs))) =
      mset (map fst (filter (\<lambda>p. snd p = v) ps))"
    using assms(1) part_list_initial [of fs v] unfolding takes_def by (metis add_0 mset.simps(1) mset_rev)
  then show "count (mset ps) p = count (mset (enumerate 0 fs)) p"
    unfolding p count_by_snd by simp
qed

section \<open>One transaction\<close>

text \<open>The position of a transaction among all, which is its stage index.\<close>

definition stage_pos :: "prep_transaction list list \<Rightarrow> nat \<Rightarrow> nat \<Rightarrow> nat" where
  "stage_pos ls l t = sum_list (map length (take l ls)) + t"

fun input_matches ::
    "usize list \<Rightarrow> prep_transaction list list \<Rightarrow> prep_input \<Rightarrow> split_stage_input \<Rightarrow> bool" where
  "input_matches positive ls (Wallet i v) s \<longleftrightarrow> i < length positive \<and> s = StageOriginal (positive ! i) v"
| "input_matches positive ls (Prior l t out v) s \<longleftrightarrow> s = StagePrior (stage_pos ls l t) out v"

fun output_matches :: "prep_output \<Rightarrow> split_stage_output \<Rightarrow> bool" where
  "output_matches (Funding v) s \<longleftrightarrow>
     so_value_zatoshi s = v \<and> so_kind s = Migration \<and> so_part_index s \<noteq> None"
| "output_matches (Intermediate v) s \<longleftrightarrow>
     s = \<lparr>so_value_zatoshi = v, so_kind = Continuation, so_part_index = None\<rparr>"
| "output_matches (Change v) s \<longleftrightarrow>
     s = \<lparr>so_value_zatoshi = v, so_kind = OrchardChange, so_part_index = None\<rparr>"

definition stage_matches ::
    "usize list \<Rightarrow> prep_transaction list list \<Rightarrow> u64 \<Rightarrow> usize \<Rightarrow> prep_transaction \<Rightarrow> split_stage_plan \<Rightarrow>
     bool" where
  "stage_matches positive ls fee layer_index tx s \<longleftrightarrow>
     sp_layer_index s = layer_index \<and> sp_fee_zatoshi s = fee
     \<and> sp_requested_actions s = action_count tx
     \<and> list_all2 (input_matches positive ls) (inputs tx) (sp_inputs s)
     \<and> list_all2 output_matches (outputs tx) (sp_outputs s)"

text \<open>The part indices that the outputs of a stage carry, with their values.\<close>

definition output_part :: "split_stage_output \<Rightarrow> (usize \<times> u64) list" where
  "output_part s = (case so_part_index s of None \<Rightarrow> [] | Some p \<Rightarrow> [(p, so_value_zatoshi s)])"

definition stage_parts :: "split_stage_plan \<Rightarrow> (usize \<times> u64) list" where
  "stage_parts s = concat (map output_part (sp_outputs s))"

lemma translate_outputs_total:
  assumes "parts_fit parts (concat (map funding_value outs) @ rest)"
  shows "\<exists>souts parts'. translate_outputs parts outs = Inr (souts, parts')
     \<and> list_all2 output_matches outs souts \<and> parts_fit parts' rest
     \<and> takes parts (concat (map output_part souts)) parts'"
  using assms
proof (induction outs arbitrary: parts)
  case (Cons out outs)
  have "\<exists>s parts1. translate_output parts out = Inr (s, parts1) \<and> output_matches out s
      \<and> parts_fit parts1 (concat (map funding_value outs) @ rest) \<and> takes parts (output_part s) parts1"
  proof (cases out)
    case (Funding v)
    then show ?thesis
      using take_part_fit [of parts v "concat (map funding_value outs) @ rest"] Cons.prems
      by (auto simp: output_part_def)
  qed (use Cons.prems in \<open>simp_all add: output_part_def\<close>)
  then obtain s parts1 where s: "translate_output parts out = Inr (s, parts1)" "output_matches out s"
      "parts_fit parts1 (concat (map funding_value outs) @ rest)" "takes parts (output_part s) parts1"
    by blast
  obtain souts parts' where r: "translate_outputs parts1 outs = Inr (souts, parts')"
      "list_all2 output_matches outs souts" "parts_fit parts' rest"
      "takes parts1 (concat (map output_part souts)) parts'"
    using Cons.IH [OF s(3)] by blast
  have "translate_outputs parts (out # outs) = Inr (s # souts, parts')" using s(1) r(1) by simp
  moreover have "takes parts (concat (map output_part (s # souts))) parts'"
    using takes_append [OF s(4) r(4)] by simp
  ultimately show ?case using s(2) r(2,3) by blast
qed simp

text \<open>The coordinates know every transaction of the layers before.\<close>

definition coords_know :: "coordinates \<Rightarrow> prep_transaction list list \<Rightarrow> nat \<Rightarrow> bool" where
  "coords_know coords ls k \<longleftrightarrow>
     (\<forall>l < k. \<forall>t < length (ls ! l). coords (l, t) = Some (stage_pos ls l t))"

definition inputs_known :: "usize list \<Rightarrow> prep_transaction list list \<Rightarrow> nat \<Rightarrow> prep_input \<Rightarrow> bool" where
  "inputs_known positive ls k f \<longleftrightarrow>
     (case f of Wallet i v \<Rightarrow> i < length positive | Prior l t out v \<Rightarrow> l < k \<and> t < length (ls ! l))"

lemma translate_inputs_total:
  assumes "coords_know coords ls k" and "\<forall>f \<in> set ins. inputs_known positive ls k f"
  shows "\<exists>sins. collect_results (translate_input positive coords) ins = Inr sins
     \<and> list_all2 (input_matches positive ls) ins sins"
  using assms(2)
proof (induction ins)
  case (Cons f ins)
  have "\<exists>s. translate_input positive coords f = Inr s \<and> input_matches positive ls f s"
    using Cons.prems assms(1) by (cases f) (auto simp: inputs_known_def coords_know_def)
  then show ?case using Cons by fastforce
qed simp

lemma list_all2_map_eq:
  assumes "list_all2 P xs ys" and "\<And>x y. P x y \<Longrightarrow> g y = f x"
  shows "map g ys = map f xs"
  using assms(1) by (induction rule: list_all2_induct) (simp_all add: assms(2))

lemma input_matches_value: "input_matches positive ls f s \<Longrightarrow> stage_input_value s = input_value f"
  by (cases f) auto

lemma output_matches_value: "output_matches out s \<Longrightarrow> so_value_zatoshi s = output_value out"
  by (cases out) auto

lemma matches_values:
  shows "list_all2 (input_matches positive ls) ins sins \<Longrightarrow>
           map stage_input_value sins = map input_value ins"
    and "list_all2 output_matches outs souts \<Longrightarrow> map so_value_zatoshi souts = map output_value outs"
  by (erule list_all2_map_eq, erule input_matches_value)
     (erule list_all2_map_eq, erule output_matches_value)

text \<open>A transaction that the planner may produce.\<close>

definition tx_fits :: "usize list \<Rightarrow> prep_transaction list list \<Rightarrow> u64 \<Rightarrow> nat \<Rightarrow> prep_transaction \<Rightarrow> bool" where
  "tx_fits positive ls fee k tx \<longleftrightarrow>
     (\<forall>f \<in> set (inputs tx). inputs_known positive ls k f)
     \<and> sum_list (map input_value (inputs tx)) = sum_list (map output_value (outputs tx)) + fee
     \<and> sum_list (map input_value (inputs tx)) < 2 ^ 64 \<and> action_count tx \<le> PREP_TX_ACTIONS"

lemma translate_transaction_total:
  assumes "coords_know coords ls k" and "tx_fits positive ls fee k tx"
    and "parts_fit parts (concat (map funding_value (outputs tx)) @ rest)"
  shows "\<exists>s parts'. translate_transaction positive fee k (parts, coords, stages) (t, tx) =
       Inr (parts', coords((k, t) \<mapsto> length stages), stages @ [s])
     \<and> stage_matches positive ls fee k tx s \<and> parts_fit parts' rest
     \<and> takes parts (stage_parts s) parts'"
proof -
  obtain sins where sins: "collect_results (translate_input positive coords) (inputs tx) = Inr sins"
      "list_all2 (input_matches positive ls) (inputs tx) sins"
    using translate_inputs_total [OF assms(1), of "inputs tx" positive] assms(2)
    by (auto simp: tx_fits_def)
  obtain souts parts' where souts: "translate_outputs parts (outputs tx) = Inr (souts, parts')"
      "list_all2 output_matches (outputs tx) souts" "parts_fit parts' rest"
      "takes parts (concat (map output_part souts)) parts'"
    using translate_outputs_total [OF assms(3)] by blast
  have len: "length sins + length souts = action_count tx"
    using list_all2_lengthD [OF sins(2)] list_all2_lengthD [OF souts(2)] by (simp add: action_count_def)
  have small: "action_count tx \<le> 16" using assms(2) by (simp add: tx_fits_def const_defs)
  have ins_sum: "sum_list (map stage_input_value sins) = sum_list (map input_value (inputs tx))"
    and outs_sum: "sum_list (map so_value_zatoshi souts) = sum_list (map output_value (outputs tx))"
    using matches_values(1) [OF sins(2)] matches_values(2) [OF souts(2)] by simp_all
  have vals: "sum_list (map stage_input_value sins) = sum_list (map so_value_zatoshi souts) + fee"
      "sum_list (map stage_input_value sins) < 2 ^ 64"
    using assms(2) ins_sum outs_sum by (simp_all add: tx_fits_def)
  let ?s = "\<lparr>sp_layer_index = k, sp_inputs = sins, sp_outputs = souts, sp_fee_zatoshi = fee,
      sp_requested_actions = length sins + length souts\<rparr>"
  have "ok_or ActionCountOverflow (checked_add 64 (length sins) (length souts)) =
      Inr (length sins + length souts)"
    using len small by simp
  moreover have "checked_sum InputTotalOverflow (map stage_input_value sins) =
      Inr (sum_list (map stage_input_value sins))"
    "checked_sum OutputTotalOverflow (map so_value_zatoshi souts) =
      Inr (sum_list (map so_value_zatoshi souts))"
    "ok_or TransactionValueOverflow (checked_add 64 (sum_list (map so_value_zatoshi souts)) fee) =
      Inr (sum_list (map so_value_zatoshi souts) + fee)"
    using vals by (simp_all add: checked_sum_eq)
  moreover have "\<not> DENOMINATION_SPLIT_ACTIONS < length sins + length souts"
    using len small by (simp add: const_defs)
  ultimately have "translate_transaction positive fee k (parts, coords, stages) (t, tx) =
      Inr (parts', coords((k, t) \<mapsto> length stages), stages @ [?s])"
    using vals(1) by (simp add: translate_transaction_def sins(1) souts(1))
  moreover have "stage_matches positive ls fee k tx ?s"
    using sins(2) souts(2) len by (simp add: stage_matches_def)
  moreover have "takes parts (stage_parts ?s) parts'" using souts(4) by (simp add: stage_parts_def)
  ultimately show ?thesis using souts(3) by blast
qed

section \<open>Layers\<close>

definition layer_funding :: "prep_transaction list \<Rightarrow> u64 list" where
  "layer_funding txs = concat (map funding_value (concat (map outputs txs)))"

lemma layer_funding_simps [simp]:
  "layer_funding [] = []"
  "layer_funding (tx # txs) = concat (map funding_value (outputs tx)) @ layer_funding txs"
  "layer_funding (txs @ txs') = layer_funding txs @ layer_funding txs'"
  by (simp_all add: layer_funding_def)

definition layer_coords :: "nat \<Rightarrow> nat \<Rightarrow> nat \<Rightarrow> nat \<Rightarrow> coordinates \<Rightarrow> coordinates" where
  "layer_coords k n m base coords =
     (\<lambda>(l, t). if l = k \<and> n \<le> t \<and> t < n + m then Some (base + (t - n)) else coords (l, t))"

lemma layer_coords_0: "layer_coords k n 0 base coords = coords"
  by (rule ext) (auto simp: layer_coords_def)

lemma layer_coords_Suc:
  "layer_coords k (Suc n) m (Suc base) (coords((k, n) \<mapsto> base)) = layer_coords k n (Suc m) base coords"
  by (rule ext) (auto simp: layer_coords_def fun_upd_def)

lemma coords_know_update:
  "coords_know coords ls k \<Longrightarrow> coords_know (coords((k, n) \<mapsto> i)) ls k"
  by (simp add: coords_know_def)

lemma translate_layer_total:
  assumes "coords_know coords ls k" and "\<forall>tx \<in> set txs. tx_fits positive ls fee k tx"
    and "parts_fit parts (layer_funding txs @ rest)"
  shows "\<exists>new parts'. try_fold (translate_transaction positive fee k) (parts, coords, stages)
         (enumerate n txs) =
       Inr (parts', layer_coords k n (length txs) (length stages) coords, stages @ new)
     \<and> list_all2 (stage_matches positive ls fee k) txs new \<and> parts_fit parts' rest
     \<and> takes parts (concat (map stage_parts new)) parts'"
  using assms
proof (induction txs arbitrary: n parts coords stages)
  case Nil
  then show ?case by (simp add: layer_coords_0)
next
  case (Cons tx txs)
  obtain s parts1 where s:
      "translate_transaction positive fee k (parts, coords, stages) (n, tx) =
         Inr (parts1, coords((k, n) \<mapsto> length stages), stages @ [s])"
      "stage_matches positive ls fee k tx s" "parts_fit parts1 (layer_funding txs @ rest)"
      "takes parts (stage_parts s) parts1"
    using translate_transaction_total [OF Cons.prems(1), of positive fee tx parts
        "layer_funding txs @ rest" stages n] Cons.prems(2,3) by auto
  obtain new parts' where r:
      "try_fold (translate_transaction positive fee k)
         (parts1, coords((k, n) \<mapsto> length stages), stages @ [s]) (enumerate (Suc n) txs) =
       Inr (parts', layer_coords k (Suc n) (length txs) (length (stages @ [s]))
                      (coords((k, n) \<mapsto> length stages)), (stages @ [s]) @ new)"
      "list_all2 (stage_matches positive ls fee k) txs new" "parts_fit parts' rest"
      "takes parts1 (concat (map stage_parts new)) parts'"
    using Cons.IH [OF coords_know_update [OF Cons.prems(1)] _ s(3)] Cons.prems(2) by fastforce
  have "try_fold (translate_transaction positive fee k) (parts, coords, stages)
      (enumerate n (tx # txs)) =
     Inr (parts', layer_coords k n (length (tx # txs)) (length stages) coords, stages @ s # new)"
    using s(1) r(1) by (simp add: layer_coords_Suc)
  moreover have "takes parts (concat (map stage_parts (s # new))) parts'"
    using takes_append [OF s(4) r(4)] by simp
  ultimately show ?case using s(2) r(2,3) by (intro exI [of _ "s # new"] exI [of _ parts']) simp
qed

text \<open>The transactions of a plan with the indices of their layers, in the order of the stages.\<close>

definition indexed_txs :: "nat \<Rightarrow> prep_transaction list list \<Rightarrow> (nat \<times> prep_transaction) list" where
  "indexed_txs k ls = concat (map (\<lambda>(li, txs). map (Pair li) txs) (enumerate k ls))"

lemma indexed_txs_simps [simp]:
  "indexed_txs k [] = []" "indexed_txs k (txs # ls) = map (Pair k) txs @ indexed_txs (Suc k) ls"
  by (simp_all add: indexed_txs_def)

lemma map_snd_indexed_txs: "map snd (indexed_txs k ls) = concat ls"
  by (induction ls arbitrary: k) (simp_all add: comp_def)

lemma list_all2_map_Pair: "list_all2 (\<lambda>(k, x) y. P k x y) (map (Pair k) xs) ys = list_all2 (P k) xs ys"
  by (simp add: list_all2_map1)

lemma coords_know_layer:
  assumes "coords_know coords ls k" and "base = stage_pos ls k 0"
  shows "coords_know (layer_coords k 0 (length (ls ! k)) base coords) ls (Suc k)"
  using assms by (auto simp: coords_know_def layer_coords_def stage_pos_def less_Suc_eq)

lemma translate_layers_total:
  assumes "drop k ls = xs" and "coords_know coords ls k" and "length stages = stage_pos ls k 0"
    and "\<forall>j < length xs. \<forall>tx \<in> set (xs ! j). tx_fits positive ls fee (k + j) tx"
    and "parts_fit parts (layer_funding (concat xs) @ rest)"
  shows "\<exists>new parts' coords'. try_fold (translate_layer positive fee) (parts, coords, stages)
         (enumerate k xs) = Inr (parts', coords', stages @ new)
     \<and> list_all2 (\<lambda>(li, tx) s. stage_matches positive ls fee li tx s) (indexed_txs k xs) new
     \<and> parts_fit parts' rest \<and> takes parts (concat (map stage_parts new)) parts'"
  using assms
proof (induction xs arbitrary: k parts coords stages)
  case Nil
  then show ?case by simp
next
  case (Cons txs xs)
  have k: "k < length ls" "ls ! k = txs" "drop (Suc k) ls = xs"
    using Cons.prems(1) by (metis drop_eq_Nil linorder_not_less list.distinct(1),
        metis Cons_nth_drop_Suc drop_eq_Nil linorder_not_less list.distinct(1) list.sel(1),
        metis drop_Suc list.sel(3) tl_drop)
  have fits: "\<forall>tx \<in> set txs. tx_fits positive ls fee k tx"
    "\<forall>j < length xs. \<forall>tx \<in> set (xs ! j). tx_fits positive ls fee (Suc k + j) tx"
    using Cons.prems(4) by (fastforce, metis Suc_less_eq add_Suc_shift length_Cons nth_Cons_Suc)
  have fit: "parts_fit parts (layer_funding txs @ layer_funding (concat xs) @ rest)"
    using Cons.prems(5) by simp
  obtain new parts1 where l:
      "try_fold (translate_transaction positive fee k) (parts, coords, stages) (enumerate 0 txs) =
       Inr (parts1, layer_coords k 0 (length txs) (length stages) coords, stages @ new)"
      "list_all2 (stage_matches positive ls fee k) txs new"
      "parts_fit parts1 (layer_funding (concat xs) @ rest)"
      "takes parts (concat (map stage_parts new)) parts1"
    using translate_layer_total [OF Cons.prems(2) fits(1) fit] by blast
  have len: "length (stages @ new) = stage_pos ls (Suc k) 0"
    using Cons.prems(3) list_all2_lengthD [OF l(2)] k(1,2)
    by (simp add: stage_pos_def take_Suc_conv_app_nth)
  have know: "coords_know (layer_coords k 0 (length txs) (length stages) coords) ls (Suc k)"
    using coords_know_layer [OF Cons.prems(2,3)] k(2) by simp
  obtain new' parts' coords' where r:
      "try_fold (translate_layer positive fee)
         (parts1, layer_coords k 0 (length txs) (length stages) coords, stages @ new)
         (enumerate (Suc k) xs) = Inr (parts', coords', (stages @ new) @ new')"
      "list_all2 (\<lambda>(li, tx) s. stage_matches positive ls fee li tx s) (indexed_txs (Suc k) xs) new'"
      "parts_fit parts' rest" "takes parts1 (concat (map stage_parts new')) parts'"
    using Cons.IH [OF k(3) know len fits(2) l(3)] by blast
  have "try_fold (translate_layer positive fee) (parts, coords, stages) (enumerate k (txs # xs)) =
      Inr (parts', coords', stages @ new @ new')"
    using l(1) r(1) by (simp add: translate_layer_def)
  moreover have "list_all2 (\<lambda>(li, tx) s. stage_matches positive ls fee li tx s)
      (indexed_txs k (txs # xs)) (new @ new')"
    using l(2) r(2) by (simp add: list_all2_appendI list_all2_map_Pair)
  moreover have "takes parts (concat (map stage_parts (new @ new'))) parts'"
    using takes_append [OF l(4) r(4)] by simp
  ultimately show ?case using r(3) by blast
qed

section \<open>The whole translation\<close>

definition direct_part :: "direct_migration_input \<Rightarrow> usize \<times> u64" where
  "direct_part d = (dm_part_index d, dm_value_zatoshi d)"

definition direct_matches :: "usize list \<Rightarrow> usize \<times> u64 \<Rightarrow> direct_migration_input \<Rightarrow> bool" where
  "direct_matches positive iv d \<longleftrightarrow>
     dm_input_index d = positive ! fst iv \<and> dm_value_zatoshi d = snd iv"

lemma assign_direct_total:
  assumes "\<forall>(i, v) \<in> set ds. i < length positive" and "parts_fit parts (map snd ds @ rest)"
  shows "\<exists>direct parts'. assign_direct positive parts ds = Inr (direct, parts')
     \<and> list_all2 (direct_matches positive) ds direct \<and> parts_fit parts' rest
     \<and> takes parts (map direct_part direct) parts'"
  using assms
proof (induction ds arbitrary: parts)
  case (Cons iv ds)
  obtain i v where iv: "iv = (i, v)" by force
  obtain p parts1 where p: "take_part_index parts v = Inr (p, parts1)"
      "parts_fit parts1 (map snd ds @ rest)" "takes parts [(p, v)] parts1"
    using take_part_fit [of parts v "map snd ds @ rest"] Cons.prems(2) iv by auto
  obtain direct parts' where r: "assign_direct positive parts1 ds = Inr (direct, parts')"
      "list_all2 (direct_matches positive) ds direct" "parts_fit parts' rest"
      "takes parts1 (map direct_part direct) parts'"
    using Cons.IH [OF _ p(2)] Cons.prems(1) by auto
  let ?d = "\<lparr>dm_input_index = positive ! i, dm_part_index = p, dm_value_zatoshi = v\<rparr>"
  have "assign_direct positive parts (iv # ds) = Inr (?d # direct, parts')"
    using p(1) r(1) Cons.prems(1) iv by simp
  moreover have "takes parts (map direct_part (?d # direct)) parts'"
    using takes_append [OF p(3) r(4)] by (simp add: direct_part_def)
  moreover have "direct_matches positive iv ?d" by (simp add: direct_matches_def iv)
  ultimately show ?case using r(2,3) by blast
qed simp

text \<open>What a translated plan is, in terms of the preparation plan.\<close>

definition plan_translated ::
    "preparation_plan \<Rightarrow> usize list \<Rightarrow> u64 list \<Rightarrow> u64 \<Rightarrow> split_stage_plan list \<Rightarrow>
     direct_migration_input list \<Rightarrow> bool" where
  "plan_translated prep positive fs fee stages direct \<longleftrightarrow>
     list_all2 (\<lambda>(li, tx) s. stage_matches positive (layers prep) fee li tx s)
       (indexed_txs 0 (layers prep)) stages
     \<and> (\<exists>ds. mset ds = mset direct \<and> list_all2 (direct_matches positive) (direct_funding prep) ds)
     \<and> sorted (map dm_part_index direct)
     \<and> mset (map direct_part direct @ concat (map stage_parts stages)) = mset (enumerate 0 fs)"

lemma layer_funding_concat: "layer_funding (concat ls) = concat (map funding_value (all_outputs ls))"
  by (simp add: layer_funding_def all_outputs_def)

lemma translate_total:
  assumes plan: "plan_preparation pick available funding fee = Inr prep"
    and fs: "mset (filter (\<lambda>v. 0 < v) funding) = mset fs"
    and len: "length positive = length available"
  shows "\<exists>stages direct. (\<forall>d. translate_preparation_plan prep d positive fs fee =
       Inr \<lparr>pd_denominations = d, pd_stages = stages, pd_layer_count = layer_count prep,
            pd_direct_migration_inputs = direct\<rparr>)
     \<and> plan_translated prep positive fs fee stages direct"
proof -
  let ?ls = "layers prep" and ?rest = "layer_funding (concat (layers prep))"
  have ins: "\<And>k tx f. k < length ?ls \<Longrightarrow> tx \<in> set (?ls ! k) \<Longrightarrow> f \<in> set (inputs tx) \<Longrightarrow>
      inputs_known positive ?ls k f"
    using plan_inputs_sound [OF plan] len by (fastforce simp: inputs_known_def split: prep_input.splits)
  have fits: "\<forall>j < length ?ls. \<forall>tx \<in> set (?ls ! j). tx_fits positive ?ls fee (0 + j) tx"
  proof (intro allI impI ballI)
    fix j tx assume j: "j < length ?ls" and tx: "tx \<in> set (?ls ! j)"
    then have "tx \<in> set (concat ?ls)" by (auto intro: nth_mem)
    then show "tx_fits positive ?ls fee (0 + j) tx"
      using plan_tx_sound [OF plan] plan_values_small [OF plan] ins [OF j tx]
      by (fastforce simp: tx_fits_def MAX_MONEY_def)
  qed
  have "mset (map snd (direct_funding prep) @ ?rest) = mset fs"
    using plan_funding_minted [OF plan] fs
    by (simp add: funding_notes_def layer_funding_concat add.commute)
  from initial_parts_fit [OF this]
  have fit: "parts_fit (initial_parts fs) (map snd (direct_funding prep) @ ?rest)" .
  have inr: "\<forall>(i, v) \<in> set (direct_funding prep). i < length positive"
    using plan_funding_minted [OF plan] len by auto
  obtain ds parts where a: "assign_direct positive (initial_parts fs) (direct_funding prep) = Inr (ds, parts)"
      "list_all2 (direct_matches positive) (direct_funding prep) ds" "parts_fit parts ?rest"
      "takes (initial_parts fs) (map direct_part ds) parts"
    using assign_direct_total [OF inr fit] by blast
  obtain stages parts' coords' where b:
      "try_fold (translate_layer positive fee) (parts, Map.empty, []) (enumerate 0 ?ls) =
         Inr (parts', coords', [] @ stages)"
      "list_all2 (\<lambda>(li, tx) s. stage_matches positive ?ls fee li tx s) (indexed_txs 0 ?ls) stages"
      "parts_fit parts' []" "takes parts (concat (map stage_parts stages)) parts'"
    using translate_layers_total [of 0 ?ls ?ls Map.empty "[]" positive fee parts "[]"] fits a(3)
    by (auto simp: coords_know_def stage_pos_def)
  let ?direct = "sort_key dm_part_index ds"
  have "\<forall>d. translate_preparation_plan prep d positive fs fee =
      Inr \<lparr>pd_denominations = d, pd_stages = stages, pd_layer_count = layer_count prep,
           pd_direct_migration_inputs = ?direct\<rparr>"
    using a(1) b(1) parts_fit_Nil [OF b(3)] by (simp add: translate_preparation_plan_def)
  moreover have "mset (map direct_part ds @ concat (map stage_parts stages)) = mset (enumerate 0 fs)"
    using takes_all [OF takes_append [OF a(4) b(4)] b(3)] .
  then have "mset (map direct_part ?direct @ concat (map stage_parts stages)) = mset (enumerate 0 fs)"
    by simp
  then have "plan_translated prep positive fs fee stages ?direct"
    using a(2) b(2) unfolding plan_translated_def by (intro conjI exI [of _ ds]) simp_all
  ultimately show ?thesis by blast
qed

end
