(* ===== verification/Split_Search.thy ===== *)
theory Split_Search
  imports Split_Refinement Split_Translation
begin

text \<open>
  The search for denominations: what the planning context is, that the outcome of a trial depends on
  the multiset of crossings only, and what holds when the outer loop stops: the crossings are
  canonical and paid for, and no further denomination can be appended.
\<close>

section \<open>The planning context\<close>

lemma positive_values:
  "map (\<lambda>i. xs ! i) (map fst (filter (\<lambda>(i, v). 0 < v) (enumerate 0 xs))) = filter (\<lambda>v. 0 < v) (xs :: nat list)"
proof -
  have "map (\<lambda>i. xs ! i) (map fst (filter (\<lambda>(i, v). 0 < v) (enumerate 0 xs))) =
      map snd (filter (\<lambda>(i, v). 0 < v) (enumerate 0 xs))"
    by (auto simp: in_set_enumerate_eq)
  also have "map snd (filter (\<lambda>(i, v). 0 < v) (enumerate n xs)) = filter (\<lambda>v. 0 < v) xs" for n
    by (induction xs arbitrary: n) auto
  finally show ?thesis .
qed

lemma collect_zatoshis:
  "collect_results (zatoshis_from_u64 e) xs =
     (if \<forall>x \<in> set xs. x \<le> MAX_MONEY then Inr xs else Inl e)"
  by (induction xs) (auto simp: zatoshis_from_u64_def)

definition positive_indices :: "u64 list \<Rightarrow> usize list" where
  "positive_indices ins = map fst (filter (\<lambda>(i, v). 0 < v) (enumerate 0 ins))"

lemma positive_indices_nth:
  assumes "i < length (positive_indices ins)"
  shows "positive_indices ins ! i < length ins" and "0 < ins ! (positive_indices ins ! i)"
proof -
  have "positive_indices ins ! i \<in> set (positive_indices ins)" using assms by simp
  then show "positive_indices ins ! i < length ins" "0 < ins ! (positive_indices ins ! i)"
    unfolding positive_indices_def by (auto simp: in_set_enumerate_eq)
qed

lemma planning_context_eq:
  "planning_context ins fee mn =
     (if filter (\<lambda>v. 0 < v) ins = [] then Inr None
      else if fee = 0 then Inl StageFeeNotPositive
      else if mn \<noteq> 1 then Inl MinimumOutputNotOne
      else if 2 ^ 64 \<le> sum_list ins then Inl SelectedValueOverflow
      else if \<not> (\<forall>x \<in> set ins. x \<le> MAX_MONEY) then Inl NoteExceedsMaximumMoney
      else if MAX_MONEY < fee then Inl StageFeeInvalid
      else Inr (Some \<lparr>positive_input_indices = positive_indices ins,
             total_input_zatoshi = sum_list ins, available_notes = filter (\<lambda>v. 0 < v) ins,
             prep_fee = fee\<rparr>))"
proof -
  have e: "(map fst (filter (\<lambda>(i, v). 0 < v) (enumerate 0 ins)) = []) = (filter (\<lambda>v. 0 < v) ins = [])"
    using arg_cong [OF positive_values [of ins], of length] by (metis length_0_conv length_map)
  have m: "(\<forall>x \<in> set (filter (\<lambda>v. 0 < v) ins). x \<le> MAX_MONEY) = (\<forall>x \<in> set ins. x \<le> MAX_MONEY)"
    by fastforce
  show ?thesis
    unfolding planning_context_def Let_def positive_values e
    unfolding checked_sum_eq sum_list_filter_pos collect_zatoshis m
    by (simp add: zatoshis_from_u64_def positive_indices_def)
qed

lemma planning_context_SomeD:
  assumes "planning_context ins fee mn = Inr (Some ctx)"
  shows "total_input_zatoshi ctx = sum_list ins" and "available_notes ctx = filter (\<lambda>v. 0 < v) ins"
    and "prep_fee ctx = fee" and "positive_input_indices ctx = positive_indices ins"
    and "mn = 1" and "0 < fee" and "sum_list ins < 2 ^ 64"
    and "length (positive_input_indices ctx) = length (available_notes ctx)"
    and "map (\<lambda>i. ins ! i) (positive_input_indices ctx) = available_notes ctx"
proof -
  show c: "total_input_zatoshi ctx = sum_list ins" "available_notes ctx = filter (\<lambda>v. 0 < v) ins"
    "prep_fee ctx = fee" "positive_input_indices ctx = positive_indices ins" "mn = 1" "0 < fee"
    "sum_list ins < 2 ^ 64"
    using assms by (auto simp: planning_context_eq split: if_splits)
  show "map (\<lambda>i. ins ! i) (positive_input_indices ctx) = available_notes ctx"
    unfolding c(2,4) positive_indices_def by (rule positive_values)
  from arg_cong [OF this, of length]
  show "length (positive_input_indices ctx) = length (available_notes ctx)" by simp
qed

section \<open>Permuted crossings\<close>

lemma plan_preparation_mset:
  assumes "mset fs = mset fs'"
  shows "plan_preparation pick available fs fee = plan_preparation pick available fs' fee"
proof -
  have s: "sum_list fs = sum_list fs'" using assms by (rule sum_list_mset_cong)
  have "mset (filter (\<lambda>v. 0 < v) fs) = mset (filter (\<lambda>v. 0 < v) fs')" using assms by simp
  note d = sort_desc_cong [OF this]
  show ?thesis
    unfolding plan_preparation_def plan_preparation_greedy_def plan_preparation_via_consolidation_def
      s d by (rule refl)
qed

lemma collect_add_fee:
  "collect_results (\<lambda>c. ok_or e (checked_add 64 c m)) cs =
     (if \<forall>c \<in> set cs. c + m < 2 ^ 64 then Inr (map (\<lambda>c. c + m) cs) else Inl e)"
  by (induction cs) (auto simp: checked_add_def)

lemma committed_value_mset:
  "mset fs = mset fs' \<Longrightarrow> committed_value fs p fee = committed_value fs' p fee"
  unfolding committed_value_def checked_sum_eq by (drule sum_list_mset_cong) simp

lemma preparation_for_crossings_mset:
  assumes "mset cs = mset cs'"
  shows "preparation_for_crossings pick ctx cs' fee mfee =
     (case preparation_for_crossings pick ctx cs fee mfee of
        Inl e \<Rightarrow> Inl e
      | Inr None \<Rightarrow> Inr None
      | Inr (Some (fs, p)) \<Rightarrow> Inr (Some (map (\<lambda>c. c + mfee) cs', p)))"
proof -
  let ?fs = "map (\<lambda>c. c + mfee) cs" and ?fs' = "map (\<lambda>c. c + mfee) cs'"
  have f: "mset ?fs = mset ?fs'" using assms by simp
  have s: "set cs = set cs'" "set ?fs = set ?fs'" using assms f by (metis set_mset_mset)+
  have p: "plan_preparation pick (available_notes ctx) ?fs (prep_fee ctx) =
      plan_preparation pick (available_notes ctx) ?fs' (prep_fee ctx)"
    by (rule plan_preparation_mset [OF f])
  have c: "committed_value ?fs p fee = committed_value ?fs' p fee" for p
    by (rule committed_value_mset [OF f])
  have unfold: "preparation_for_crossings pick ctx xs fee mfee =
     (if \<not> (\<forall>c \<in> set xs. c + mfee < 2 ^ 64) then Inl PreparedNoteOverflow
      else if \<not> (\<forall>x \<in> set (map (\<lambda>c. c + mfee) xs). x \<le> MAX_MONEY) then Inl PreparedNoteInvalid
      else case plan_preparation pick (available_notes ctx) (map (\<lambda>c. c + mfee) xs) (prep_fee ctx) of
         Inl InsufficientFunds \<Rightarrow> Inr None
       | Inl BalanceInvalid \<Rightarrow> Inl PreparationBalanceInvalid
       | Inr preparation \<Rightarrow>
           rbind (committed_value (map (\<lambda>c. c + mfee) xs) preparation fee) (\<lambda>committed.
           Inr (if committed \<le> total_input_zatoshi ctx
                then Some (map (\<lambda>c. c + mfee) xs, preparation) else None)))" for xs
    unfolding preparation_for_crossings_def collect_add_fee collect_zatoshis by simp
  show ?thesis
    unfolding unfold s p c
    by (auto split: sum.splits prep_error.splits option.splits simp: rbind_def)
qed

lemma preparation_for_crossings_mset_None:
  "mset cs = mset cs' \<Longrightarrow> preparation_for_crossings pick ctx cs fee mfee = Inr None \<Longrightarrow>
     preparation_for_crossings pick ctx cs' fee mfee = Inr None"
  by (simp add: preparation_for_crossings_mset [of cs cs'])

section \<open>The search stops only when nothing more can be appended\<close>

lemma try_candidates_None:
  assumes "try_candidates pick ctx fee mfee cs candidates = Inr None" and "c \<in> set candidates"
  shows "preparation_for_crossings pick ctx (cs @ c) fee mfee = Inr None"
  using assms
proof (induction candidates)
  case (Cons a candidates)
  then obtain found where "preparation_for_crossings pick ctx (cs @ a) fee mfee = Inr found" by auto
  with Cons show ?case by (cases found) auto
qed simp

lemma accept_loop_None:
  assumes "accept_loop pick ctx refine fee mfee cs affordable g = Inr (None, g')"
  shows "can_append_loop pick ctx cs fee mfee affordable = Inr False"
  using assms
proof (induction pick ctx refine fee mfee cs affordable g rule: accept_loop.induct)
  case (1 pick ctx refine fee mfee cs affordable g)
  show ?case
  proof (cases "affordable < ZIP318_MAX_RESIDUAL_VALUE_ZATOSHI
      \<or> largest_zip318_denomination_at_or_below affordable = None")
    case True
    then show ?thesis by (subst can_append_loop.simps) (auto split: option.splits)
  next
    case False
    then obtain greedy where l: "\<not> affordable < ZIP318_MAX_RESIDUAL_VALUE_ZATOSHI"
        "largest_zip318_denomination_at_or_below affordable = Some greedy" by auto
    obtain refinement g1 where r: "refine g greedy = (refinement, g1)" by force
    have "accept_loop pick ctx refine fee mfee cs affordable g =
        (if refined_value refinement \<noteq> greedy then Inl RefinementChangesValue
         else rbind (refinement_candidates refinement) (\<lambda>candidates.
              rbind (try_candidates pick ctx fee mfee cs candidates) (\<lambda>accepted.
              if accepted \<noteq> None \<or> greedy = ZIP318_MAX_RESIDUAL_VALUE_ZATOSHI then Inr (accepted, g1)
              else accept_loop pick ctx refine fee mfee cs (greedy - 1) g1)))"
      using l r by (subst accept_loop.simps) simp
    note eq = this [unfolded "1.prems", symmetric]
    then have v: "\<not> refined_value refinement \<noteq> greedy" by (auto split: if_splits)
    with eq obtain candidates accepted where
      c: "refinement_candidates refinement = Inr candidates"
      and t: "try_candidates pick ctx fee mfee cs candidates = Inr accepted"
      and e: "(if accepted \<noteq> None \<or> greedy = ZIP318_MAX_RESIDUAL_VALUE_ZATOSHI then Inr (accepted, g1)
            else accept_loop pick ctx refine fee mfee cs (greedy - 1) g1) = Inr (None, g')"
      by (auto simp del: not_None_eq)
    have none: "accepted = None" using e by (cases accepted) simp_all
    have "[greedy] \<in> set candidates" using candidates_split_value [OF c] v by auto
    with t none have p: "preparation_for_crossings pick ctx (cs @ [greedy]) fee mfee = Inr None"
      using try_candidates_None by blast
    show ?thesis
    proof (cases "greedy = ZIP318_MAX_RESIDUAL_VALUE_ZATOSHI")
      case True
      then show ?thesis using l p by (subst can_append_loop.simps) simp
    next
      case ng: False
      with e none have rec: "accept_loop pick ctx refine fee mfee cs (greedy - 1) g1 = Inr (None, g')"
        by simp
      have "\<not> (accepted \<noteq> None \<or> greedy = ZIP318_MAX_RESIDUAL_VALUE_ZATOSHI)" using none ng by simp
      from "1.IH" [OF l refl r [symmetric] v c t this rec]
      show ?thesis using l p ng by (subst can_append_loop.simps) simp
    qed
  qed
qed

text \<open>The state of the outer loop: nothing chosen yet, or canonical crossings that are paid for.\<close>

definition search_state ::
    "note_order \<Rightarrow> plan_context \<Rightarrow> u64 \<Rightarrow> u64 \<Rightarrow> u64 list \<Rightarrow> u64 list \<Rightarrow> preparation_plan \<Rightarrow> bool" where
  "search_state pick ctx fee mfee cs fs prep \<longleftrightarrow>
     (\<forall>c \<in> set cs. is_zip318_canonical_denomination c)
     \<and> (cs = [] \<and> fs = [] \<and> prep = plan_from_parts [] []
        \<or> preparation_for_crossings pick ctx cs fee mfee = Inr (Some (fs, prep)))"

lemma planning_loop_result:
  assumes "planning_loop pick ctx refine fee mfee mfn cs fs prep g = Inr (cs', fs', prep')"
    and "search_state pick ctx fee mfee cs fs prep"
    and "checked_add 64 ZIP318_MAX_RESIDUAL_VALUE_ZATOSHI mfee = Some mfn"
  shows "search_state pick ctx fee mfee cs' fs' prep'
     \<and> can_append_canonical_denomination pick ctx cs' fs' prep' fee mfee = Inr False"
  using assms
proof (induction pick ctx refine fee mfee mfn cs fs prep g rule: planning_loop.induct)
  case (1 pick ctx refine fee mfee mfn cs fs prep g)
  note eq = "1.prems"(1) [unfolded planning_loop.simps [of pick ctx refine fee mfee mfn cs fs prep g]]
  from eq obtain committed where cv: "committed_value fs prep fee = Inr committed" by auto
  let ?budget = "saturating_sub (total_input_zatoshi ctx) committed"
  have mfn: "ok_or MinimumFundingNoteOverflow
      (checked_add 64 ZIP318_MAX_RESIDUAL_VALUE_ZATOSHI mfee) = Inr mfn"
    by (simp only: "1.prems"(3) ok_or_simps)
  show ?case
  proof (cases "?budget < mfn")
    case True
    with eq cv have "cs' = cs" "fs' = fs" "prep' = prep" by (simp_all add: Let_def)
    then show ?thesis
      using "1.prems"(2) True cv mfn by (simp add: can_append_canonical_denomination_def Let_def)
  next
    case False
    then have sub: "ok_or AffordablePanic (checked_sub ?budget mfee) = Inr (?budget - mfee)"
      using "1.prems"(3) by auto
    let ?a = "min (?budget - mfee) ZIP318_MAX_MIGRATION_DENOMINATION_ZATOSHI"
    from eq cv False sub obtain accepted g' where
      acc: "accept_loop pick ctx refine fee mfee cs ?a g = Inr (accepted, g')"
      by (auto simp: Let_def)
    show ?thesis
    proof (cases accepted)
      case None
      with eq cv False sub acc have "cs' = cs" "fs' = fs" "prep' = prep" by (simp_all add: Let_def)
      then show ?thesis
        using "1.prems"(2) False cv mfn sub accept_loop_None [OF acc [unfolded None]]
        by (simp add: can_append_canonical_denomination_def Let_def)
    next
      case (Some r)
      obtain cs1 fs1 prep1 where r: "r = (cs1, fs1, prep1)" by (cases r)
      from eq cv False sub acc Some r have rec:
        "planning_loop pick ctx refine fee mfee mfn cs1 fs1 prep1 g' = Inr (cs', fs', prep')"
        by (simp add: Let_def)
      have "extends_plan pick ctx fee mfee cs (cs1, fs1, prep1)"
        by (rule accept_loop_extends [OF acc [unfolded Some r]])
      then have "search_state pick ctx fee mfee cs1 fs1 prep1"
        using "1.prems"(2) by (auto simp: search_state_def extends_plan_def)
      from "1.IH" [OF cv refl False sub acc refl Some r [symmetric] refl rec this "1.prems"(3)]
      show ?thesis .
    qed
  qed
qed

end
