(* ===== verification/Split_Properties.thy ===== *)
theory Split_Properties
  imports Split_Search
begin

text \<open>
  The properties of the padded denomination planner as a whole: a plan accounts for every zatoshi,
  its stages form a graph that can be built in order, its part indices cover the denominations, a
  plan is replayed exactly from its denominations, and the planner does not fail on the balances
  that can occur.
\<close>

section \<open>Finishing\<close>

lemma sort_desc_eq_Nil [simp]: "sort_desc xs = [] \<longleftrightarrow> xs = []"
  using length_sort_desc [of xs] by (metis length_0_conv)

lemma sort_key_map_key: "(\<And>x. key (f x) = x) \<Longrightarrow> sort_key key (map f xs) = map f (sort xs)"
proof -
  assume k: "\<And>x. key (f x) = x"
  have i: "insort_key key (f x) (map f ys) = map f (insort x ys)" for x ys
    by (induction ys) (simp_all add: k)
  show ?thesis by (induction xs) (simp_all add: i)
qed

lemma sort_pairs_desc_map:
  "sort_pairs_desc (map (\<lambda>c. (c, f c)) cs) = map (\<lambda>c. (c, f c)) (sort_desc cs)"
proof -
  have "sort_key fst (map (\<lambda>c. (c, f c)) (rev cs)) = map (\<lambda>c. (c, f c)) (sort (rev cs))"
    by (rule sort_key_map_key) simp
  moreover have "sort (rev cs) = sort cs" by (rule properties_for_sort) simp_all
  ultimately show ?thesis by (simp add: sort_pairs_desc_def rev_map sort_desc_def)
qed

text \<open>
  The pairs have one descending order, so the unstable sort of the source has one result.
\<close>

lemma sort_pairs_unique:
  assumes "mset ps = mset (map (\<lambda>c. (c, c + m)) cs)" and "non_increasing (map fst ps)"
  shows "ps = sort_pairs_desc (map (\<lambda>c. (c, c + m)) cs)"
proof -
  have "\<forall>p \<in> set ps. snd p = fst p + m" using assms(1) by (metis (mono_tags, lifting) image_iff
        list.set_map set_mset_mset snd_conv fst_conv)
  then have ps: "ps = map (\<lambda>c. (c, c + m)) (map fst ps)"
    by (simp add: map_idI prod_eq_iff)
  have "mset (map fst ps) = mset cs"
    using arg_cong [OF assms(1), of "image_mset fst"] by (simp add: image_mset.compositionality comp_def)
  then have "map fst ps = sort_desc cs" using sort_desc_id [OF assms(2)] sort_desc_cong by metis
  with ps show ?thesis unfolding sort_pairs_desc_map by metis
qed

lemma finish_plan_eq:
  assumes "fs = map (\<lambda>c. c + mfee) cs"
  shows "finish_plan ctx cs fs prep fee mfee mn =
     (if cs = [] then Inr None
      else rbind (ok_or PreparationFeeOverflow (checked_mul 64 fee (transaction_count prep)))
        (\<lambda>split_fee.
      rbind (checked_sum FundingTotalOverflow (map (\<lambda>c. c + mfee) (sort_desc cs))) (\<lambda>funding_total.
      rbind (ok_or PlanExceedsSelectedValue
               (Option.bind (checked_sub (total_input_zatoshi ctx) funding_total)
                  (\<lambda>v. checked_sub v split_fee))) (\<lambda>remaining.
      rbind (checked_sum MigratableOverflow (sort_desc cs)) (\<lambda>total_migratable.
      rbind (translate_preparation_plan prep
               \<lparr>dp_migration_outputs = sort_desc cs,
                dp_orchard_change = (if remaining \<ge> mn then Some remaining else None),
                dp_split_fee_zatoshi = split_fee, dp_migration_fee_zatoshi = mfee,
                dp_total_input_zatoshi = total_input_zatoshi ctx,
                dp_total_migratable_zatoshi = total_migratable\<rparr>
               (positive_input_indices ctx) (map (\<lambda>c. c + mfee) (sort_desc cs)) fee)
        (\<lambda>plan. Inr (Some plan)))))))"
proof -
  have z: "zip cs (map (\<lambda>c. c + mfee) cs) = map (\<lambda>c. (c, c + mfee)) cs"
    by (simp add: zip_map2 zip_same_conv_map)
  have proj: "map fst (map (\<lambda>c. (c, c + mfee)) (sort_desc cs)) = sort_desc cs"
    "map snd (map (\<lambda>c. (c, c + mfee)) (sort_desc cs)) = map (\<lambda>c. c + mfee) (sort_desc cs)"
    by (simp_all add: comp_def)
  show ?thesis
    unfolding finish_plan_def Let_def assms z sort_pairs_desc_map proj by simp
qed

text \<open>The last part of a plan, from crossings that are paid for: it succeeds, with these fields.\<close>

definition plan_finished ::
    "plan_context \<Rightarrow> u64 \<Rightarrow> u64 \<Rightarrow> u64 list \<Rightarrow> preparation_plan \<Rightarrow> padded_denomination_plan \<Rightarrow> bool" where
  "plan_finished ctx fee mfee cs prep plan \<longleftrightarrow>
     (let split_fee = fee * transaction_count prep;
          remaining = total_input_zatoshi ctx - sum_list (map (\<lambda>c. c + mfee) cs) - split_fee in
      sum_list (map (\<lambda>c. c + mfee) cs) + split_fee \<le> total_input_zatoshi ctx
      \<and> pd_denominations plan =
         \<lparr>dp_migration_outputs = sort_desc cs,
          dp_orchard_change = (if remaining \<ge> 1 then Some remaining else None),
          dp_split_fee_zatoshi = split_fee, dp_migration_fee_zatoshi = mfee,
          dp_total_input_zatoshi = total_input_zatoshi ctx,
          dp_total_migratable_zatoshi = sum_list cs\<rparr>
      \<and> pd_layer_count plan = layer_count prep
      \<and> plan_translated prep (positive_input_indices ctx) (map (\<lambda>c. c + mfee) (sort_desc cs)) fee
          (pd_stages plan) (pd_direct_migration_inputs plan))"

lemma finish_plan_total:
  assumes ctx: "planning_context ins fee mn = Inr (Some ctx)" and cs: "cs \<noteq> []"
    and canon: "\<forall>c \<in> set cs. is_zip318_canonical_denomination c"
    and found: "preparation_for_crossings pick ctx cs fee mfee = Inr (Some (fs, prep))"
  shows "\<exists>plan. finish_plan ctx cs fs prep fee mfee mn = Inr (Some plan)
     \<and> plan_finished ctx fee mfee cs prep plan"
proof -
  note p = preparation_for_crossings_Some [OF found] and c = planning_context_SomeD [OF ctx]
  let ?f = "map (\<lambda>c. c + mfee) cs" and ?g = "map (\<lambda>c. c + mfee) (sort_desc cs)"
  let ?split = "fee * transaction_count prep"
  have fg: "mset fs = mset ?g" by (simp add: p(1))
  have sums: "sum_list ?g = sum_list ?f" using fg p(1) by (metis sum_list_mset_cong)
  have total: "sum_list ?f + ?split \<le> total_input_zatoshi ctx" using p(1,4) by simp
  have total64: "total_input_zatoshi ctx < 2 ^ 64" using c(1,7) by simp
  have cs_le: "sum_list cs \<le> sum_list ?f" by (simp add: sum_list_map_add_const)
  have "\<forall>v \<in> set fs. 0 < v" using canon canonical_pos by (auto simp: p(1))
  then have "filter (\<lambda>v. 0 < v) fs = fs" by (simp add: filter_id_conv)
  then have mf: "mset (filter (\<lambda>v. 0 < v) fs) = mset ?g" using fg by simp
  obtain stages direct where t: "\<forall>d. translate_preparation_plan prep d (positive_input_indices ctx) ?g fee =
       Inr \<lparr>pd_denominations = d, pd_stages = stages, pd_layer_count = layer_count prep,
            pd_direct_migration_inputs = direct\<rparr>"
    "plan_translated prep (positive_input_indices ctx) ?g fee stages direct"
    using translate_total [OF p(2) [unfolded c(3)] mf c(8)] by blast
  let ?rem = "total_input_zatoshi ctx - sum_list ?f - ?split"
  let ?d = "\<lparr>dp_migration_outputs = sort_desc cs,
      dp_orchard_change = (if ?rem \<ge> 1 then Some ?rem else None),
      dp_split_fee_zatoshi = ?split, dp_migration_fee_zatoshi = mfee,
      dp_total_input_zatoshi = total_input_zatoshi ctx, dp_total_migratable_zatoshi = sum_list cs\<rparr>"
  have "ok_or PreparationFeeOverflow (checked_mul 64 fee (transaction_count prep)) = Inr ?split"
    using total total64 by auto
  moreover have "checked_sum FundingTotalOverflow ?g = Inr (sum_list ?f)"
    "checked_sum MigratableOverflow (sort_desc cs) = Inr (sum_list cs)"
    using total total64 cs_le by (auto simp: checked_sum_eq sums)
  moreover have "ok_or PlanExceedsSelectedValue
      (Option.bind (checked_sub (total_input_zatoshi ctx) (sum_list ?f)) (\<lambda>v. checked_sub v ?split)) =
      Inr ?rem"
    using total by (auto simp: checked_sub_def)
  ultimately have "finish_plan ctx cs fs prep fee mfee mn =
      Inr (Some \<lparr>pd_denominations = ?d, pd_stages = stages, pd_layer_count = layer_count prep,
                 pd_direct_migration_inputs = direct\<rparr>)"
    unfolding finish_plan_eq [OF p(1)] using cs t(1) c(5) by simp
  then show ?thesis using t(2) total by (auto simp: plan_finished_def Let_def)
qed

section \<open>What a plan comes from\<close>

definition plan_origin_of ::
    "note_order \<Rightarrow> u64 list \<Rightarrow> u64 \<Rightarrow> u64 \<Rightarrow> plan_context \<Rightarrow> u64 list \<Rightarrow> preparation_plan \<Rightarrow>
     padded_denomination_plan \<Rightarrow> bool" where
  "plan_origin_of pick ins fee mfee ctx cs prep plan \<longleftrightarrow>
     planning_context ins fee 1 = Inr (Some ctx) \<and> cs \<noteq> []
     \<and> (\<forall>c \<in> set cs. is_zip318_canonical_denomination c)
     \<and> preparation_for_crossings pick ctx cs fee mfee = Inr (Some (map (\<lambda>c. c + mfee) cs, prep))
     \<and> can_append_canonical_denomination pick ctx cs (map (\<lambda>c. c + mfee) cs) prep fee mfee = Inr False
     \<and> finish_plan ctx cs (map (\<lambda>c. c + mfee) cs) prep fee mfee 1 = Inr (Some plan)
     \<and> plan_finished ctx fee mfee cs prep plan"

lemma refiner_search:
  assumes "plan_padded_denominations_with_refiner pick ins fee mfee mn refine g = Inr (Some plan)"
  obtains ctx cs prep where "mn = 1" and "plan_origin_of pick ins fee mfee ctx cs prep plan"
proof -
  from assms obtain ctx where ctx: "planning_context ins fee mn = Inr (Some ctx)"
    by (auto simp: plan_padded_denominations_with_refiner_def split: option.splits)
  note eq = assms [unfolded plan_padded_denominations_with_refiner_def ctx, simplified]
  from eq obtain mfn where mfn: "checked_add 64 ZIP318_MAX_RESIDUAL_VALUE_ZATOSHI mfee = Some mfn"
    by (auto simp: checked_add_def)
  from eq mfn obtain cs fs prep where
    loop: "planning_loop pick ctx refine fee mfee mfn [] [] (plan_from_parts [] []) g = Inr (cs, fs, prep)"
    and fin: "finish_plan ctx cs fs prep fee mfee mn = Inr (Some plan)" by auto
  have "search_state pick ctx fee mfee [] [] (plan_from_parts [] [])" by (simp add: search_state_def)
  from planning_loop_result [OF loop this mfn] have st: "search_state pick ctx fee mfee cs fs prep"
    and app: "can_append_canonical_denomination pick ctx cs fs prep fee mfee = Inr False" by auto
  have ne: "cs \<noteq> []" using fin by (auto simp: finish_plan_def)
  with st have found: "preparation_for_crossings pick ctx cs fee mfee = Inr (Some (fs, prep))"
    and canon: "\<forall>c \<in> set cs. is_zip318_canonical_denomination c" by (auto simp: search_state_def)
  note fs = preparation_for_crossings_Some(1) [OF found] and mn = planning_context_SomeD(5) [OF ctx]
  have "plan_finished ctx fee mfee cs prep plan"
    using finish_plan_total [OF ctx ne canon found] fin by auto
  then show ?thesis
    using that [OF mn] ctx ne canon found app fin unfolding plan_origin_of_def fs mn by blast
qed

section \<open>A concrete plan\<close>

definition example_ctx :: plan_context where
  "example_ctx = \<lparr>positive_input_indices = [1], total_input_zatoshi = 3000000,
     available_notes = [3000000], prep_fee = 80000\<rparr>"

definition example_prep :: preparation_plan where
  "example_prep = plan_from_parts [[prep_tx [Wallet 0 3000000] [Funding 2010000, Change 910000]]] []"

definition example_padded :: padded_denomination_plan where
  "example_padded =
     \<lparr>pd_denominations = \<lparr>dp_migration_outputs = [2000000], dp_orchard_change = Some 910000,
        dp_split_fee_zatoshi = 80000, dp_migration_fee_zatoshi = 10000,
        dp_total_input_zatoshi = 3000000, dp_total_migratable_zatoshi = 2000000\<rparr>,
      pd_stages = [\<lparr>sp_layer_index = 0, sp_inputs = [StageOriginal 1 3000000],
        sp_outputs = [\<lparr>so_value_zatoshi = 2010000, so_kind = Migration, so_part_index = Some 0\<rparr>,
                      \<lparr>so_value_zatoshi = 910000, so_kind = OrchardChange, so_part_index = None\<rparr>],
        sp_fee_zatoshi = 80000, sp_requested_actions = 3\<rparr>],
      pd_layer_count = 1, pd_direct_migration_inputs = []\<rparr>"

lemma example_context: "planning_context [0, 3000000] 80000 1 = Inr (Some example_ctx)"
  by (simp add: planning_context_eq example_ctx_def positive_indices_def MAX_MONEY_def)

lemma example_preparation:
  "plan_preparation pick [3000000] [2010000] 80000 = Inr example_prep"
proof -
  have s: "sort_desc [2010000] = [2010000 :: nat]" by (simp add: sort_desc_def)
  have d: "split_depth (Suc 0) \<le> Suc 0" using split_depth_le_1_iff [of "Suc 0"] by simp
  then have c: "subtree_cost [2010000] 80000 = (1, 2090000)" by (subst subtree_cost.simps) simp
  let ?ls = "[[prep_tx [Wallet 0 3000000] [Funding 2010000, Intermediate 910000]]]"
  have b: "build_split (Wallet 0 3000000) 3000000 [2010000] 80000 0 [] = ?ls"
    using d by (subst build_split.simps) (simp add: push_tx_def pad_layers_def with_leftover_def)
  have r: "residual_loop pick 80000 ?ls = ?ls"
    by (subst residual_loop.simps) (simp add: unconsumed_feeders_def all_feeders_def
        layer_feeders_def tx_feeders_def prep_tx_def spent_refs_def all_inputs_def)
  have g: "greedy_loop pick fee cur [] ls = Inr ls" for fee cur ls
    by (subst greedy_loop.simps) simp
  have rl: "relabel_change ?ls = layers example_prep"
    by (simp add: relabel_change_def relabel_tx_def prep_tx_def spent_refs_def all_inputs_def
        example_prep_def plan_from_parts_def)
  show ?thesis
    by (simp add: plan_preparation_def plan_preparation_greedy_def const_defs s
        extract_direct_funding_def find_unused_def upt_rec unused_notes_def max_by_value_def c b r g rl
        wallet_input_def example_prep_def plan_from_parts_def)
qed

lemma example_committed: "committed_value [2010000] example_prep 80000 = Inr 2090000"
  by (simp add: committed_value_def checked_sum_eq transaction_count_def example_prep_def
      plan_from_parts_def checked_mul_def checked_add_def)

lemma example_found:
  "preparation_for_crossings pick example_ctx [2000000] 80000 10000 = Inr (Some ([2010000], example_prep))"
  by (simp add: preparation_for_crossings_def zatoshis_from_u64_def checked_add_def MAX_MONEY_def
      example_preparation example_committed) (simp add: example_ctx_def example_preparation example_committed)

lemma largest_examples:
  "largest_zip318_denomination_at_or_below 2990000 = Some 2000000"
  by (simp add: largest_eq_last last_at_or_below_def zip318_denominations_def)

lemma example_canonical: "is_zip318_canonical_denomination 2000000"
  by (simp add: canonical_iff_member zip318_denominations_def)

lemma example_accept:
  "accept_loop pick example_ctx (\<lambda>(_ :: unit) greedy. (refinement_leaf greedy, ())) 80000 10000 []
     2990000 () = Inr (Some ([2000000], [2010000], example_prep), ())"
  by (subst accept_loop.simps)
     (simp add: largest_examples refinement_leaf_def example_canonical example_found const_defs)

lemma example_loop:
  "planning_loop pick example_ctx (\<lambda>(_ :: unit) greedy. (refinement_leaf greedy, ())) 80000 10000
     1010000 [] [] (plan_from_parts [] []) () = Inr ([2000000], [2010000], example_prep)"
proof -
  have start: "committed_value [] (plan_from_parts [] []) 80000 = Inr 0"
    by (simp add: committed_value_def checked_sum_eq transaction_count_def plan_from_parts_def
        checked_mul_def checked_add_def)
  have stop: "planning_loop pick example_ctx (\<lambda>(_ :: unit) greedy. (refinement_leaf greedy, ()))
      80000 10000 1010000 [2000000] [2010000] example_prep () = Inr ([2000000], [2010000], example_prep)"
    by (subst planning_loop.simps) (simp add: example_committed example_ctx_def saturating_sub_def)
  have ctx: "total_input_zatoshi example_ctx = 3000000" by (simp add: example_ctx_def)
  show ?thesis
    by (subst planning_loop.simps)
       (simp add: start ctx saturating_sub_def checked_sub_def const_defs example_accept stop)
qed

lemma example_finish:
  "finish_plan example_ctx [2000000] [2010000] example_prep 80000 10000 1 = Inr (Some example_padded)"
proof -
  have parts: "initial_parts [2010000] = [2010000 \<mapsto> [0]]"
    by (simp add: initial_parts_def push_part_def)
  show ?thesis
    by (simp add: finish_plan_def sort_pairs_desc_def transaction_count_def example_prep_def
        plan_from_parts_def checked_mul_def checked_sum_eq checked_sub_def checked_add_def
        translate_preparation_plan_def parts translate_layer_def translate_transaction_def prep_tx_def
        take_part_index_def const_defs parts_left_def layer_count_def example_padded_def
        example_ctx_def slice_get_def)
qed

lemma example_padded_run:
  "plan_padded_denominations_without_refinement pick [0, 3000000] 80000 10000 1 =
     Inr (Some example_padded)"
proof -
  have m: "checked_add 64 ZIP318_MAX_RESIDUAL_VALUE_ZATOSHI 10000 = Some 1010000"
    by (simp add: const_defs)
  show ?thesis
    unfolding plan_padded_denominations_without_refinement_def
      plan_padded_denominations_with_refiner_def example_context
    by (simp add: m example_loop example_finish del: checked_add_eq_Some One_nat_def)
qed

section \<open>Value\<close>

text \<open>Every transaction of the preparation plan becomes one stage.\<close>

lemma translated_stage_count:
  assumes "plan_translated prep positive fs fee stages direct"
  shows "length stages = transaction_count prep"
proof -
  have "length stages = length (map snd (indexed_txs 0 (layers prep)))"
    using assms by (auto simp: plan_translated_def dest: list_all2_lengthD)
  then show ?thesis by (simp only: map_snd_indexed_txs transaction_count_def length_concat)
qed

text \<open>
  C18. A plan accounts for every zatoshi of the selected notes: the denominations that will cross,
  one migration fee for each, one stage fee for each stage, and the change, when there is any. The
  denominations are canonical and in descending order, and their total is the one recorded.
\<close>

theorem padded_plan_accounts:
  assumes "plan_padded_denominations_with_refiner pick input_values fee mfee minimum refine g = Inr (Some plan)"
    and "d = pd_denominations plan"
  shows "sum_list input_values = sum_list (dp_migration_outputs d)
       + mfee * length (dp_migration_outputs d) + fee * length (pd_stages plan)
       + (case dp_orchard_change d of None \<Rightarrow> 0 | Some change \<Rightarrow> change)
     \<and> dp_split_fee_zatoshi d = fee * length (pd_stages plan)
     \<and> dp_total_input_zatoshi d = sum_list input_values
     \<and> dp_total_migratable_zatoshi d = sum_list (dp_migration_outputs d)
     \<and> dp_migration_outputs d \<noteq> [] \<and> non_increasing (dp_migration_outputs d)
     \<and> (\<forall>v \<in> set (dp_migration_outputs d). is_zip318_canonical_denomination v)"
proof -
  obtain ctx cs prep where o: "plan_origin_of pick input_values fee mfee ctx cs prep plan"
    using refiner_search [OF assms(1)] by blast
  then have c: "total_input_zatoshi ctx = sum_list input_values"
    using planning_context_SomeD(1) by (auto simp: plan_origin_of_def)
  have "plan_finished ctx fee mfee cs prep plan" "cs \<noteq> []"
    "\<forall>c \<in> set cs. is_zip318_canonical_denomination c"
    using o by (simp_all add: plan_origin_of_def)
  moreover from this(1) have "length (pd_stages plan) = transaction_count prep"
    by (auto simp: plan_finished_def Let_def intro: translated_stage_count)
  ultimately show ?thesis
    by (auto simp: plan_finished_def Let_def assms(2) c sum_list_map_add_const)
qed

theorem padded_plan_accounts_witness:
  "sum_list [0, 3000000] = sum_list [2000000 :: nat] + 10000 * 1 + 80000 * 1 + 910000
   \<and> plan_padded_denominations_without_refinement (\<lambda>xs. xs) [0, 3000000] 80000 10000 1 =
       Inr (Some example_padded)"
proof -
  note run = example_padded_run [of "\<lambda>xs. xs"]
  from padded_plan_accounts [OF run [unfolded plan_padded_denominations_without_refinement_def] refl]
  have "sum_list [0, 3000000] = sum_list [2000000 :: nat] + 10000 * 1 + 80000 * 1 + 910000"
    by (simp add: example_padded_def)
  with run show ?thesis by blast
qed

section \<open>Replay\<close>

lemma non_increasing_adjacent:
  "non_increasing xs \<Longrightarrow> list_all (\<lambda>(a, b). b \<le> a) (zip xs (tl xs))"
proof (induction xs)
  case (Cons a xs)
  then show ?case by (cases xs) (auto simp: non_increasing_def)
qed simp

lemma find_none: "\<forall>x \<in> set xs. \<not> P x \<Longrightarrow> find P xs = None"
  by (auto simp: find_None_iff)

lemma can_append_loop_mset:
  assumes "mset cs = mset cs'" and "can_append_loop pick ctx cs fee mfee a = Inr False"
  shows "can_append_loop pick ctx cs' fee mfee a = Inr False"
  using assms(2)
proof (induction a rule: less_induct)
  case (less a)
  show ?case
  proof (cases "a < ZIP318_MAX_RESIDUAL_VALUE_ZATOSHI \<or> largest_zip318_denomination_at_or_below a = None")
    case True
    then show ?thesis by (subst can_append_loop.simps) (auto split: option.splits)
  next
    case False
    then obtain d where d: "\<not> a < ZIP318_MAX_RESIDUAL_VALUE_ZATOSHI"
      "largest_zip318_denomination_at_or_below a = Some d" by auto
    have step: "can_append_loop pick ctx xs fee mfee a =
        rbind (preparation_for_crossings pick ctx (xs @ [d]) fee mfee) (\<lambda>found.
          if found \<noteq> None then Inr True
          else if d = ZIP318_MAX_RESIDUAL_VALUE_ZATOSHI then Inr False
          else can_append_loop pick ctx xs fee mfee (d - 1))" for xs
      using d by (subst can_append_loop.simps) simp
    from less.prems [unfolded step] obtain found where
      f: "preparation_for_crossings pick ctx (cs @ [d]) fee mfee = Inr found"
      and e: "(if found \<noteq> None then Inr True else if d = ZIP318_MAX_RESIDUAL_VALUE_ZATOSHI
          then Inr False else can_append_loop pick ctx cs fee mfee (d - 1)) = Inr False"
      by (auto simp del: not_None_eq)
    have "found = None" using e by (cases found) simp_all
    with f have f': "preparation_for_crossings pick ctx (cs' @ [d]) fee mfee = Inr None"
      using preparation_for_crossings_mset_None [of "cs @ [d]" "cs' @ [d]"] assms(1) by simp
    have lt: "d - 1 < a" using largest_bounds [OF d(2)] by linarith
    show ?thesis
    proof (cases "d = ZIP318_MAX_RESIDUAL_VALUE_ZATOSHI")
      case True
      then show ?thesis using f' by (simp add: step)
    next
      case ng: False
      then have "can_append_loop pick ctx cs fee mfee (d - 1) = Inr False"
        using e \<open>found = None\<close> by simp
      from less.IH [OF lt this] show ?thesis using f' ng by (simp add: step)
    qed
  qed
qed

lemma can_append_mset:
  assumes "mset cs = mset cs'" and "mset fs = mset fs'"
    and "can_append_canonical_denomination pick ctx cs fs prep fee mfee = Inr False"
  shows "can_append_canonical_denomination pick ctx cs' fs' prep fee mfee = Inr False"
  using assms(3) can_append_loop_mset [OF assms(1)] committed_value_mset [OF assms(2)]
  by (auto simp: can_append_canonical_denomination_def Let_def split: if_splits)

lemma finish_plan_sorted:
  "finish_plan ctx (sort_desc cs) (map (\<lambda>c. c + mfee) (sort_desc cs)) prep fee mfee mn =
     finish_plan ctx cs (map (\<lambda>c. c + mfee) cs) prep fee mfee mn"
proof -
  have s: "sort_desc (sort_desc cs) = sort_desc cs" by (rule sort_desc_id) simp
  show ?thesis
    unfolding finish_plan_eq [OF refl, where cs = cs] finish_plan_eq [OF refl, where cs = "sort_desc cs"]
      sort_desc_eq_Nil s by (rule refl)
qed

text \<open>
  C20. The denominations of a plan are enough to rebuild it: whatever was drawn when the plan was
  made, replaying its list of denominations against the same notes and fees gives the same plan,
  stages, part indices and direct inputs included. In particular the replay does not find the plan
  stale, so no further denomination could have been appended to it.
\<close>

theorem padded_plan_replays:
  assumes "plan_padded_denominations_with_refiner pick input_values fee mfee minimum refine g = Inr (Some plan)"
  shows "plan_padded_denominations_for_targets pick input_values
           (dp_migration_outputs (pd_denominations plan)) fee mfee minimum = Inr (Some plan)"
proof -
  obtain ctx cs prep where mn: "minimum = 1" and o: "plan_origin_of pick input_values fee mfee ctx cs prep plan"
    using refiner_search [OF assms] by blast
  let ?t = "sort_desc cs"
  have targets: "dp_migration_outputs (pd_denominations plan) = ?t"
    using o by (auto simp: plan_origin_of_def plan_finished_def Let_def)
  have ne: "?t \<noteq> []" using o by (simp add: plan_origin_of_def)
  have canon: "find (\<lambda>v. \<not> is_zip318_canonical_denomination v) ?t = None"
    using o by (intro find_none) (simp add: plan_origin_of_def)
  have order: "list_all (\<lambda>(a, b). b \<le> a) (zip ?t (tl ?t))" by (simp add: non_increasing_adjacent)
  have ctx: "planning_context input_values fee 1 = Inr (Some ctx)" using o by (simp add: plan_origin_of_def)
  have found: "preparation_for_crossings pick ctx ?t fee mfee = Inr (Some (map (\<lambda>c. c + mfee) ?t, prep))"
    using o by (simp add: plan_origin_of_def preparation_for_crossings_mset [of cs ?t])
  have app: "can_append_canonical_denomination pick ctx ?t (map (\<lambda>c. c + mfee) ?t) prep fee mfee = Inr False"
    using o by (intro can_append_mset [of cs ?t "map (\<lambda>c. c + mfee) cs"]) (simp_all add: plan_origin_of_def)
  have fin: "finish_plan ctx ?t (map (\<lambda>c. c + mfee) ?t) prep fee mfee 1 = Inr (Some plan)"
    using o by (simp add: finish_plan_sorted plan_origin_of_def)
  show ?thesis
    using ne canon order ctx found app fin
    by (simp add: plan_padded_denominations_for_targets_def targets mn del: One_nat_def)
qed

theorem padded_plan_replays_witness:
  "plan_padded_denominations_for_targets (\<lambda>xs. xs) [0, 3000000] [2000000] 80000 10000 1 =
     Inr (Some example_padded)"
  using padded_plan_replays [OF example_padded_run [of "\<lambda>xs. xs",
        unfolded plan_padded_denominations_without_refinement_def]]
  by (simp add: example_padded_def)

end
