(* ===== verification/Split_Graph.thy ===== *)
theory Split_Graph
  imports Split_Properties
begin

text \<open>
  The stages of a plan as a graph: where a transaction of the preparation plan lies among the
  stages, and what the inputs, outputs and part indices of the stages are.
\<close>

section \<open>Positions\<close>

lemma stage_pos_simps [simp]:
  "stage_pos ls 0 t = t" "stage_pos (txs # ls) (Suc l) t = length txs + stage_pos ls l t"
  by (simp_all add: stage_pos_def)

lemma indexed_nth:
  assumes "l < length ls" and "t < length (ls ! l)"
  shows "indexed_txs n ls ! stage_pos ls l t = (n + l, ls ! l ! t)
     \<and> stage_pos ls l t < length (indexed_txs n ls)"
  using assms
proof (induction ls arbitrary: l n)
  case (Cons txs ls)
  then show ?case by (cases l) (auto simp: nth_append)
qed simp

lemma indexed_ex:
  assumes "j < length (indexed_txs n ls)"
  shows "\<exists>l t. l < length ls \<and> t < length (ls ! l) \<and> j = stage_pos ls l t"
  using assms
proof (induction ls arbitrary: j n)
  case (Cons txs ls)
  show ?case
  proof (cases "j < length txs")
    case True
    then show ?thesis by (intro exI [of _ 0] exI [of _ j]) simp
  next
    case False
    with Cons.prems have "j - length txs < length (indexed_txs (Suc n) ls)" by simp
    from Cons.IH [OF this] obtain l t where "l < length ls" "t < length (ls ! l)"
      "j - length txs = stage_pos ls l t" by blast
    then show ?thesis using False by (intro exI [of _ "Suc l"] exI [of _ t]) simp
  qed
qed simp

lemma stage_pos_less:
  assumes "l < l'" and "l < length ls" and "t < length (ls ! l)"
  shows "stage_pos ls l t < stage_pos ls l' t'"
  using assms
proof (induction ls arbitrary: l l')
  case (Cons txs ls)
  then obtain m where m: "l' = Suc m" by (cases l') auto
  show ?case using Cons m by (cases l) auto
qed simp

lemma stage_pos_inj:
  assumes "l < length ls" and "t < length (ls ! l)" and "l' < length ls" and "t' < length (ls ! l')"
    and "stage_pos ls l t = stage_pos ls l' t'"
  shows "l = l' \<and> t = t'"
proof -
  have "l = l'"
    using indexed_nth [OF assms(1,2), of 0] indexed_nth [OF assms(3,4), of 0] assms(5)
    by (metis add_0 fst_conv)
  with assms(5) show ?thesis by (simp add: stage_pos_def)
qed

section \<open>Inputs\<close>

fun stage_input_of :: "usize list \<Rightarrow> prep_transaction list list \<Rightarrow> prep_input \<Rightarrow> split_stage_input" where
  "stage_input_of positive ls (Wallet i v) = StageOriginal (positive ! i) v"
| "stage_input_of positive ls (Prior l t out v) = StagePrior (stage_pos ls l t) out v"

lemma input_matches_of: "input_matches positive ls f s \<Longrightarrow> s = stage_input_of positive ls f"
  by (cases f) auto

lemma stage_matches_inputs:
  assumes "stage_matches positive ls fee k tx s"
  shows "sp_inputs s = map (stage_input_of positive ls) (inputs tx)"
proof -
  have "list_all2 (input_matches positive ls) (inputs tx) (sp_inputs s)"
    using assms by (simp add: stage_matches_def)
  from list_all2_map_eq [OF this, of id "stage_input_of positive ls"] show ?thesis
    using input_matches_of by fastforce
qed

lemma stages_inputs:
  assumes "list_all2 (\<lambda>(li, tx) s. stage_matches positive ls fee li tx s) xs stages"
  shows "concat (map sp_inputs stages) =
     map (stage_input_of positive ls) (concat (map inputs (map snd xs)))"
  using assms by (induction rule: list_all2_induct) (auto simp: stage_matches_inputs)

lemma distinct_positive_indices: "distinct (positive_indices ins)"
proof -
  have "distinct (map fst (filter P (enumerate n ins)))" for n P
    by (induction ins arbitrary: n) (auto simp: in_set_enumerate_eq)
  then show ?thesis by (simp add: positive_indices_def)
qed

lemma stage_input_inj:
  assumes "distinct positive"
    and "\<forall>f \<in> F. (case f of Wallet i v \<Rightarrow> i < length positive
           | Prior l t out v \<Rightarrow> l < length ls \<and> t < length (ls ! l))"
  shows "inj_on (stage_input_of positive ls) F"
proof (rule inj_onI)
  fix f f' assume "f \<in> F" "f' \<in> F" "stage_input_of positive ls f = stage_input_of positive ls f'"
  then show "f = f'"
    using assms by (cases f; cases f') (fastforce simp: nth_eq_iff_index_eq dest: stage_pos_inj)+
qed

section \<open>The graph\<close>

text \<open>What one stage of a plan promises; \<open>k\<close> is its index.\<close>

definition stage_input_ok ::
    "u64 list \<Rightarrow> padded_denomination_plan \<Rightarrow> nat \<Rightarrow> split_stage_input \<Rightarrow> bool" where
  "stage_input_ok input_values plan k f \<longleftrightarrow>
     (case f of
        StageOriginal i v \<Rightarrow> i < length input_values \<and> input_values ! i = v \<and> 0 < v
          \<and> i \<notin> dm_input_index ` set (pd_direct_migration_inputs plan)
      | StagePrior j out v \<Rightarrow> j < k
          \<and> sp_layer_index (pd_stages plan ! j) < sp_layer_index (pd_stages plan ! k)
          \<and> out < length (sp_outputs (pd_stages plan ! j))
          \<and> sp_outputs (pd_stages plan ! j) ! out =
              \<lparr>so_value_zatoshi = v, so_kind = Continuation, so_part_index = None\<rparr>)"

definition stage_ok :: "u64 list \<Rightarrow> u64 \<Rightarrow> padded_denomination_plan \<Rightarrow> nat \<Rightarrow> bool" where
  "stage_ok input_values fee plan k \<longleftrightarrow>
     (let s = pd_stages plan ! k in
      sum_list (map stage_input_value (sp_inputs s)) = sum_list (map so_value_zatoshi (sp_outputs s)) + fee
      \<and> sp_fee_zatoshi s = fee \<and> sp_requested_actions s = length (sp_inputs s) + length (sp_outputs s)
      \<and> sp_requested_actions s \<le> DENOMINATION_SPLIT_ACTIONS \<and> sp_layer_index s < pd_layer_count plan
      \<and> (\<forall>out \<in> set (sp_outputs s). so_kind out = Migration \<longleftrightarrow> so_part_index out \<noteq> None)
      \<and> (\<forall>f \<in> set (sp_inputs s). stage_input_ok input_values plan k f))"

lemma output_matches_kind:
  "output_matches out s \<Longrightarrow> (so_kind s = Migration) = (so_part_index s \<noteq> None)"
  by (cases out) auto

lemma matches_nth:
  assumes "plan_translated prep positive fs fee stages direct"
    and "l < length (layers prep)" and "t < length (layers prep ! l)"
  shows "stage_pos (layers prep) l t < length stages"
    and "stage_matches positive (layers prep) fee l (layers prep ! l ! t)
           (stages ! stage_pos (layers prep) l t)"
proof -
  note all = assms(1) [unfolded plan_translated_def, THEN conjunct1]
  show "stage_pos (layers prep) l t < length stages"
    using indexed_nth [OF assms(2,3), of 0] list_all2_lengthD [OF all] by simp
  show "stage_matches positive (layers prep) fee l (layers prep ! l ! t)
      (stages ! stage_pos (layers prep) l t)"
    using list_all2_nthD [OF all, of "stage_pos (layers prep) l t"]
      indexed_nth [OF assms(2,3), of 0] by simp
qed

lemma plan_input_ok:
  assumes "plan_preparation pick available funding fee = Inr prep" and "k < length (layers prep)"
    and "tx \<in> set (layers prep ! k)" and "f \<in> set (inputs tx)"
  shows "input_ok available (direct_funding prep) (layers prep) k f"
  using plan_inputs_sound [OF assms(1), THEN conjunct2, THEN conjunct1] assms(2-4)
  unfolding input_ok_def by blast

lemma translated_stage_ok:
  assumes o: "plan_origin_of pick ins fee mfee ctx cs prep plan" and k: "k < length (pd_stages plan)"
  shows "stage_ok ins fee plan k"
proof -
  let ?ls = "layers prep" and ?P = "positive_indices ins"
  note found = o [unfolded plan_origin_of_def, THEN conjunct2, THEN conjunct2, THEN conjunct2, THEN conjunct1]
  have ctx: "planning_context ins fee 1 = Inr (Some ctx)" and fin: "plan_finished ctx fee mfee cs prep plan"
    using o by (simp_all add: plan_origin_of_def)
  note c = planning_context_SomeD [OF ctx] and p = preparation_for_crossings_Some [OF found]
  note plan = p(2) [unfolded c(2,3)] and len = c(8) [unfolded c(2,4)] and vals = c(9) [unfolded c(2,4)]
  have tr: "plan_translated prep ?P (map (\<lambda>c. c + mfee) (sort_desc cs)) fee (pd_stages plan)
      (pd_direct_migration_inputs plan)" and depth: "pd_layer_count plan = length ?ls"
    using fin by (simp_all add: plan_finished_def Let_def c(4) layer_count_def)
  have "length (pd_stages plan) = length (indexed_txs 0 ?ls)"
    using tr by (auto simp: plan_translated_def dest: list_all2_lengthD)
  with k obtain l t where lt: "l < length ?ls" "t < length (?ls ! l)" "k = stage_pos ?ls l t"
    using indexed_ex by metis
  define tx s where "tx = ?ls ! l ! t" and "s = pd_stages plan ! k"
  have m: "stage_matches ?P ?ls fee l tx s"
    using matches_nth(2) [OF tr lt(1,2)] lt(3) by (simp add: tx_def s_def)
  have tx: "tx \<in> set (?ls ! l)" "tx \<in> set (concat ?ls)" using lt by (auto simp: tx_def intro: nth_mem)
  have outs: "list_all2 output_matches (outputs tx) (sp_outputs s)"
    and inps: "list_all2 (input_matches ?P ?ls) (inputs tx) (sp_inputs s)"
    using m by (simp_all add: stage_matches_def)
  obtain ds where ds: "mset ds = mset (pd_direct_migration_inputs plan)"
      "list_all2 (direct_matches ?P) (direct_funding prep) ds"
    using tr by (auto simp: plan_translated_def)
  have direct: "dm_input_index ` set (pd_direct_migration_inputs plan) = (\<lambda>iv. ?P ! fst iv) ` set (direct_funding prep)"
  proof -
    have "map dm_input_index ds = map (\<lambda>iv. ?P ! fst iv) (direct_funding prep)"
      by (rule list_all2_map_eq [OF ds(2)]) (simp add: direct_matches_def)
    then show ?thesis using ds(1) by (metis list.set_map set_mset_mset)
  qed
  have "stage_input_ok ins plan k (stage_input_of ?P ?ls f)"
    if ok: "input_ok (filter (\<lambda>v. 0 < v) ins) (direct_funding prep) ?ls l f" for f
  proof (cases f rule: prep_input.exhaust)
    case (Wallet i v)
    with ok have i: "i < length (filter (\<lambda>v. 0 < v) ins)" "filter (\<lambda>v. 0 < v) ins ! i = v"
      "i \<notin> fst ` set (direct_funding prep)"
      by (simp_all add: input_ok_def)
    then have iP: "i < length ?P" using len by simp
    have "ins ! (?P ! i) = v" using i(2) iP vals by (metis nth_map)
    moreover have "?P ! i \<notin> (\<lambda>iv. ?P ! fst iv) ` set (direct_funding prep)"
    proof
      assume "?P ! i \<in> (\<lambda>iv. ?P ! fst iv) ` set (direct_funding prep)"
      then obtain j w where j: "(j, w) \<in> set (direct_funding prep)" "?P ! i = ?P ! j" by auto
      then have "j < length ?P" using plan_funding_minted [OF plan] len by auto
      with j(2) iP have "i = j" by (simp add: nth_eq_iff_index_eq distinct_positive_indices)
      with j(1) i(3) show False by force
    qed
    ultimately show ?thesis
      using positive_indices_nth [OF iP] Wallet by (simp add: stage_input_ok_def direct)
  next
    case (Prior l' t' out v)
    with ok have pr: "l' < l" "t' < length (?ls ! l')" "out < length (outputs (?ls ! l' ! t'))"
      "outputs (?ls ! l' ! t') ! out = Intermediate v"
      by (simp_all add: input_ok_def)
    let ?j = "stage_pos ?ls l' t'"
    have l': "l' < length ?ls" using pr(1) lt(1) by simp
    note m' = matches_nth(2) [OF tr l' pr(2)]
    then have "list_all2 output_matches (outputs (?ls ! l' ! t')) (sp_outputs (pd_stages plan ! ?j))"
      by (simp add: stage_matches_def)
    from list_all2_nthD [OF this pr(3)] list_all2_lengthD [OF this] pr(3,4)
    have "out < length (sp_outputs (pd_stages plan ! ?j))"
      "sp_outputs (pd_stages plan ! ?j) ! out =
         \<lparr>so_value_zatoshi = v, so_kind = Continuation, so_part_index = None\<rparr>"
      by simp_all
    moreover have "?j < k" using stage_pos_less [OF pr(1) l' pr(2)] lt(3) by simp
    moreover have "sp_layer_index (pd_stages plan ! ?j) < sp_layer_index (pd_stages plan ! k)"
      using m' m pr(1) by (simp add: stage_matches_def s_def)
    ultimately show ?thesis using Prior by (simp add: stage_input_ok_def)
  qed
  then have ok: "\<forall>f \<in> set (sp_inputs s). stage_input_ok ins plan k f"
    using stage_matches_inputs [OF m] plan_input_ok [OF plan lt(1) tx(1)] by auto
  have kinds: "\<forall>out \<in> set (sp_outputs s). (so_kind out = Migration) = (so_part_index out \<noteq> None)"
    using outs output_matches_kind by (metis list_all2_conv_all_nth in_set_conv_nth)
  show ?thesis
    unfolding stage_ok_def Let_def s_def [symmetric]
    using plan_tx_sound [OF plan tx(2)] matches_values(1) [OF inps] matches_values(2) [OF outs] m
      list_all2_lengthD [OF inps] list_all2_lengthD [OF outs] ok kinds lt(1) depth
    by (auto simp: stage_matches_def action_count_def DENOMINATION_SPLIT_ACTIONS_def)
qed

lemma origin_inputs_distinct:
  assumes o: "plan_origin_of pick ins fee mfee ctx cs prep plan"
  shows "distinct (concat (map sp_inputs (pd_stages plan)))"
proof -
  let ?ls = "layers prep" and ?P = "positive_indices ins"
  note found = o [unfolded plan_origin_of_def, THEN conjunct2, THEN conjunct2, THEN conjunct2, THEN conjunct1]
  have ctx: "planning_context ins fee 1 = Inr (Some ctx)" and fin: "plan_finished ctx fee mfee cs prep plan"
    using o by (simp_all add: plan_origin_of_def)
  note c = planning_context_SomeD [OF ctx] and p = preparation_for_crossings_Some [OF found]
  note plan = p(2) [unfolded c(2,3)] and len = c(8) [unfolded c(2,4)]
  have "list_all2 (\<lambda>(li, tx) s. stage_matches ?P ?ls fee li tx s) (indexed_txs 0 ?ls) (pd_stages plan)"
    using fin by (simp add: plan_finished_def Let_def plan_translated_def c(4))
  then have e: "concat (map sp_inputs (pd_stages plan)) = map (stage_input_of ?P ?ls) (all_inputs ?ls)"
    by (simp only: stages_inputs map_snd_indexed_txs all_inputs_def)
  have "inj_on (stage_input_of ?P ?ls) (set (all_inputs ?ls))"
  proof (rule stage_input_inj [OF distinct_positive_indices], intro ballI)
    fix f assume "f \<in> set (all_inputs ?ls)"
    then obtain txs tx where "txs \<in> set ?ls" "tx \<in> set txs" "f \<in> set (inputs tx)"
      by (auto simp: all_inputs_def)
    then obtain k where k: "k < length ?ls" "tx \<in> set (?ls ! k)" "f \<in> set (inputs tx)"
      by (auto simp: in_set_conv_nth)
    then show "case f of Wallet i v \<Rightarrow> i < length ?P
        | Prior l t out v \<Rightarrow> l < length ?ls \<and> t < length (?ls ! l)"
      using plan_input_ok [OF plan k] len by (auto simp: input_ok_def split: prep_input.splits)
  qed
  then show ?thesis
    using plan_inputs_sound [OF plan] by (simp add: e distinct_map)
qed

text \<open>
  C19. The stages of a plan form a graph that can be built and broadcast in order. Every stage pays
  exactly one stage fee, has at most sixteen actions, and lies in a layer of the plan; an input is a
  selected note, with its value, that is not also used directly, or a continuation output of an
  earlier stage in an earlier layer, with its value; no input is spent twice; an output carries a
  part index exactly when it is a migration output.
\<close>

theorem padded_plan_graph:
  assumes "plan_padded_denominations_with_refiner pick input_values fee mfee minimum refine g = Inr (Some plan)"
  shows "(\<forall>k < length (pd_stages plan). stage_ok input_values fee plan k)
     \<and> distinct (concat (map sp_inputs (pd_stages plan)))"
proof -
  obtain ctx cs prep where "plan_origin_of pick input_values fee mfee ctx cs prep plan"
    using refiner_search [OF assms] by blast
  then show ?thesis using translated_stage_ok origin_inputs_distinct by blast
qed

theorem padded_plan_graph_witness:
  "plan_padded_denominations_without_refinement (\<lambda>xs. xs) [0, 3000000] 80000 10000 1 =
     Inr (Some example_padded)
   \<and> stage_ok [0, 3000000] 80000 example_padded 0"
proof -
  note run = example_padded_run [of "\<lambda>xs. xs"]
  have "0 < length (pd_stages example_padded)" by (simp add: example_padded_def)
  with padded_plan_graph [OF run [unfolded plan_padded_denominations_without_refinement_def]] run
  show ?thesis by blast
qed

text \<open>
  C21. The part indices are the positions in the list of denominations: taken together, the direct
  inputs and the migration outputs of the stages carry every index once, with the value of that
  denomination plus the migration fee; the direct inputs come in the order of their indices.
\<close>

theorem padded_plan_parts:
  assumes "plan_padded_denominations_with_refiner pick input_values fee mfee minimum refine g = Inr (Some plan)"
  shows "mset (map direct_part (pd_direct_migration_inputs plan) @ concat (map stage_parts (pd_stages plan))) =
       mset (enumerate 0 (map (\<lambda>v. v + mfee) (dp_migration_outputs (pd_denominations plan))))
     \<and> sorted (map dm_part_index (pd_direct_migration_inputs plan))"
proof -
  obtain ctx cs prep where "plan_origin_of pick input_values fee mfee ctx cs prep plan"
    using refiner_search [OF assms] by blast
  then have "plan_finished ctx fee mfee cs prep plan" by (simp add: plan_origin_of_def)
  then show ?thesis by (simp add: plan_finished_def Let_def plan_translated_def)
qed

theorem padded_plan_parts_witness:
  "mset (concat (map stage_parts (pd_stages example_padded))) = mset [(0, 2010000)]"
  using padded_plan_parts [OF example_padded_run [of "\<lambda>xs. xs",
        unfolded plan_padded_denominations_without_refinement_def]]
  by (simp add: example_padded_def)

end
