(* ===== verification/Preparation_Complete.thy ===== *)
theory Preparation_Complete
  imports Preparation_Value
begin

text \<open>
  When the planner succeeds and how deep its schedule is: the consolidation fallback finds a plan
  whenever the notes pay for their own consolidation and the balanced split, and a single large note
  is split in the fewest layers that the action budget allows.
\<close>

section \<open>The consolidation fallback\<close>

lemma consolidation_values:
  "\<forall>tx \<in> set txs. consolidation_ok fee tx \<Longrightarrow>
     sum_list (map input_value (concat (map inputs txs))) =
     sum_list (map input_value (feeders_from li n txs)) + fee * length txs"
  by (induction txs arbitrary: n) (auto simp: consolidation_ok_def tx_feeders_values)

text \<open>The value of a pool less a fee for every merge it needs.\<close>

definition merge_value :: "u64 \<Rightarrow> prep_input list \<Rightarrow> int" where
  "merge_value fee fs = int (sum_list (map input_value fs)) - int fee * (int (length fs) - 1)"

lemma consolidate_progress:
  assumes "1 < length pool" and "0 < merge_value fee pool"
  shows "fst (consolidate pick pool layer fee [] []) \<noteq> []"
proof
  assume none: "fst (consolidate pick pool layer fee [] []) = []"
  let ?sizes = "consolidation_batch_sizes (length pool)" and ?sorted = "sort_unstable_desc pick pool"
  note sz = consolidation_batch_sizes_spec [OF assms(1)]
  have "sum_list (map input_value ?sorted) \<le> fee * length ?sizes"
    using none assms(1) sz by (intro consolidate_batches_none_sum) (simp_all add: consolidate_def)
  moreover have "sum_list (map input_value ?sorted) = sum_list (map input_value pool)"
    by (rule sum_list_mset_cong) simp
  moreover have "\<forall>x \<in> set xs. 2 \<le> x \<Longrightarrow> 2 * length xs \<le> sum_list xs" for xs :: "nat list"
    by (induction xs) auto
  then have "2 * length ?sizes \<le> length pool" using sz by fastforce
  then have "fee * length ?sizes \<le> fee * (length pool - 1)"
    using assms(1) by (intro mult_le_mono2) linarith
  ultimately have "sum_list (map input_value pool) \<le> fee * (length pool - 1)" by linarith
  then have "int (sum_list (map input_value pool)) \<le> int (fee * (length pool - 1))"
    by (simp only: of_nat_le_iff)
  also have "\<dots> = int fee * (int (length pool) - 1)" using assms(1) by (simp add: of_nat_diff)
  finally show False using assms(2) by (simp add: merge_value_def)
qed

lemma consolidate_merge_value:
  assumes "consolidate pick pool layer fee [] [] = (txs, nxt, leftover)"
  shows "merge_value fee pool \<le> merge_value fee (nxt @ leftover)"
proof -
  from consolidate_spec [OF assms] have ok: "\<forall>tx \<in> set txs. consolidation_ok fee tx"
    and nxt: "nxt = feeders_from layer 0 txs" and len: "length nxt = length txs"
    and acc: "mset (concat (map inputs txs)) + mset leftover = mset pool" by auto
  let ?ins = "concat (map inputs txs)"
  have "sum_list (map input_value pool) = sum_list (map input_value (?ins @ leftover))"
    using acc by (intro sum_list_mset_cong) (simp only: mset_map mset_append)
  then have v: "sum_list (map input_value pool) =
      sum_list (map input_value (nxt @ leftover)) + fee * length txs"
    using consolidation_values [OF ok, of layer 0] nxt by simp
  have "2 * length txs \<le> length ?ins" using consolidation_shrinks [OF ok subset_mset.order_refl] .
  moreover have "length ?ins + length leftover = length pool" using arg_cong [OF acc, of size] by simp
  ultimately have "length txs + length (nxt @ leftover) \<le> length pool" using len by simp
  then have "int fee * (int (length txs) + int (length (nxt @ leftover))) \<le> int fee * int (length pool)"
    by (intro mult_left_mono) linarith+
  then show ?thesis unfolding merge_value_def v by (simp add: algebra_simps)
qed

lemma consolidation_loop_succeeds:
  assumes "current \<noteq> []" and "0 < merge_value fee current"
  shows "\<exists>source ls'. consolidation_loop pick fee current ls = Inr ([source], ls')
     \<and> merge_value fee current \<le> int (input_value source)"
  using assms
proof (induction pick fee current ls rule: consolidation_loop.induct)
  case (1 pick fee current ls)
  show ?case
  proof (cases "length current \<le> 1")
    case True
    then obtain source where "current = [source]"
      using "1.prems"(1) by (cases current) auto
    then show ?thesis by (subst consolidation_loop.simps) (simp add: merge_value_def)
  next
    case False
    obtain txs nxt lo where c: "consolidate pick current (length ls) fee [] [] = (txs, nxt, lo)"
      by (metis prod_cases3)
    have ne: "txs \<noteq> []" using consolidate_progress [of current fee pick "length ls"] False "1.prems"(2) c by simp
    have "nxt @ lo \<noteq> []" using consolidate_spec [OF c] ne by auto
    moreover note mv = consolidate_merge_value [OF c]
    moreover have "consolidation_loop pick fee current ls = consolidation_loop pick fee (nxt @ lo) (ls @ [txs])"
      using False ne by (subst consolidation_loop.simps) (simp add: c)
    ultimately show ?thesis
      using "1.IH" [OF False c [symmetric] refl refl ne] "1.prems"(2) by fastforce
  qed
qed

lemma greedy_loop_error: "greedy_loop pick fee current remaining ls = Inl e \<Longrightarrow> e = InsufficientFunds"
proof (induction pick fee current remaining ls rule: greedy_loop.induct)
  case (1 pick fee current remaining ls)
  obtain txs nxt rem where layer: "greedy_layer pick fee (length ls) current remaining = (txs, nxt, rem)"
    by (metis prod_cases3)
  show ?case
  proof (cases "remaining = [] \<or> current = [] \<or> txs = []")
    case True
    then show ?thesis
      using "1.prems" by (subst (asm) greedy_loop.simps) (auto simp: layer split: if_splits)
  next
    case False
    then have "greedy_loop pick fee nxt rem (ls @ [txs]) = Inl e"
      using "1.prems" by (subst (asm) greedy_loop.simps) (simp add: layer)
    with "1.IH" [OF _ _ layer [symmetric] refl refl] False show ?thesis by blast
  qed
qed

lemma via_consolidation_found:
  assumes "sum_list available \<le> MAX_MONEY" and "sum_list funding \<le> MAX_MONEY"
    and ex: "extract_direct_funding available (sort_desc (filter (\<lambda>v. 0 < v) funding)) = (used, targets, direct)"
    and vs: "vs = filter (\<lambda>v. 0 < v) (map snd (unused_notes available used))"
    and room: "cost fee targets + fee * (length vs - 1) \<le> sum_list vs"
  shows "\<exists>plan. plan_preparation_via_consolidation pick available funding fee = Inr plan"
proof (cases "targets = []")
  case True
  then show ?thesis
    using assms(1,2) ex by (simp add: plan_preparation_via_consolidation_def not_less)
next
  case False
  let ?current = "map wallet_input (filter (\<lambda>(_, v). 0 < v) (unused_notes available used))"
  have vals: "map input_value ?current = vs"
    unfolding vs by (simp add: filter_map comp_def wallet_input_def case_prod_unfold)
  then have len: "length ?current = length vs" by (metis length_map)
  have c: "0 < cost fee targets" using cost_pos [OF False kept_positive [OF ex]] .
  have "vs \<noteq> []" using room c by auto
  then have ne: "?current \<noteq> []" using len by auto
  have "int (cost fee targets) + int fee * (int (length vs) - 1) \<le> int (sum_list vs)"
  proof -
    have "int (cost fee targets + fee * (length vs - 1)) \<le> int (sum_list vs)" using room by (simp only: of_nat_le_iff)
    moreover have "int (length vs - 1) = int (length vs) - 1" using \<open>vs \<noteq> []\<close> by (cases vs) simp_all
    ultimately show ?thesis by simp
  qed
  then have mv: "int (cost fee targets) \<le> merge_value fee ?current"
    unfolding merge_value_def vals len by simp
  then obtain source ls where "consolidation_loop pick fee ?current [] = Inr ([source], ls)"
      "int (cost fee targets) \<le> int (input_value source)"
    using consolidation_loop_succeeds [OF ne, of fee pick "[]"] c by fastforce
  then show ?thesis
    using assms(1,2) ex False ne
    by (simp add: plan_preparation_via_consolidation_def not_less Let_def cost_def del: map_is_Nil_conv)
qed

text \<open>
  C27. The planner is complete up to the cost of consolidation: with valid totals, if the positive
  wallet notes that are not used directly cover the balanced split of the remaining funding values
  plus one fee for each merge down to a single note, then a plan is found. (The merges number one less
  than the notes.)
\<close>

theorem plan_found_when_affordable:
  assumes "sum_list available \<le> MAX_MONEY" and "sum_list funding \<le> MAX_MONEY"
    and "extract_direct_funding available (sort_desc (filter (\<lambda>v. 0 < v) funding)) = (used, targets, direct)"
    and "vs = filter (\<lambda>v. 0 < v) (map snd (unused_notes available used))"
    and "snd (subtree_cost targets fee) + fee * (length vs - 1) \<le> sum_list vs"
  shows "\<exists>plan. plan_preparation pick available funding fee = Inr plan"
proof (cases "plan_preparation_greedy pick available funding fee")
  case (Inl e)
  then have "e = InsufficientFunds"
    using assms(1-3) greedy_loop_error
    by (fastforce simp: plan_preparation_greedy_def not_less rbind_eq_Inl split: if_splits prod.splits)
  with Inl via_consolidation_found [OF assms(1-4)] assms(5) show ?thesis
    by (simp add: plan_preparation_def cost_def)
qed (simp add: plan_preparation_def)

theorem plan_found_when_affordable_witness:
  "\<exists>plan. plan_preparation (\<lambda>xs. xs) [60, 60] [30, 50] 8 = Inr plan"
proof (rule plan_found_when_affordable)
  show "extract_direct_funding [60, 60] (sort_desc (filter (\<lambda>v. 0 < v) [30, 50])) =
      ([False, False], [50, 30], [])"
    by (simp add: extract_direct_funding_def find_unused_def sort_desc_def upt_rec)
  have "split_depth (Suc (Suc 0)) \<le> Suc 0" using split_depth_le_1_iff [of "Suc (Suc 0)"] by simp
  then have "subtree_cost [50, 30] 8 = (1, 88)" by (subst subtree_cost.simps) simp
  then show "snd (subtree_cost [50, 30] 8) + 8 * (length [60, 60 :: nat] - 1) \<le> sum_list [60, 60]"
    by simp
qed (simp_all add: const_defs unused_notes_def)

section \<open>The shape of the balanced split\<close>

lemma length_push_tx_max: "length (push_tx k tx ls) = max (length ls) (Suc k)"
  by (simp add: push_tx_def pad_layers_def max_def)

definition tree_depth :: "u64 list \<Rightarrow> nat" where
  "tree_depth ts = max 1 (split_depth (length ts))"

lemma split_depth_le: "0 < d \<Longrightarrow> n \<le> subtree_capacity d \<Longrightarrow> split_depth n \<le> d"
  using split_depth_minimal [of d n] by (meson leD leI)

lemma groups_depth_le:
  assumes "1 < split_depth (length ts)" and "grp \<in> set (split_groups ts)"
  shows "tree_depth grp \<le> split_depth (length ts) - 1"
  using split_groups_spec(3) [OF assms] split_depth_le [of "split_depth (length ts) - 1" "length grp"] assms(1)
  by (simp add: tree_depth_def)

lemma groups_depth_attained:
  assumes "1 < split_depth (length ts)"
  shows "\<exists>grp \<in> set (split_groups ts). tree_depth grp = split_depth (length ts) - 1"
proof (rule ccontr)
  let ?d = "split_depth (length ts)"
  assume none: "\<not> ?thesis"
  have small: "length grp \<le> subtree_capacity (?d - 2)" "2 < ?d" if "grp \<in> set (split_groups ts)" for grp
  proof -
    have lt: "tree_depth grp < ?d - 1"
      using none that groups_depth_le [OF assms that] by fastforce
    then show "2 < ?d" by (simp add: tree_depth_def) linarith
    have "split_depth (length grp) \<le> ?d - 2" using lt by (simp add: tree_depth_def) linarith
    then have "subtree_capacity (split_depth (length grp)) \<le> subtree_capacity (?d - 2)"
      unfolding subtree_capacity_def by (intro power_increasing) (simp_all add: const_defs)
    with split_depth_capacity [of "length grp"] show "length grp \<le> subtree_capacity (?d - 2)" by simp
  qed
  have ne: "split_groups ts \<noteq> []" using split_groups_spec(1) [OF assms] assms by (auto simp: split_depth_def)
  then have d: "?d - 1 = Suc (?d - 2)" using small(2) [of "hd (split_groups ts)"] by simp
  have "length ts = sum_list (map length (split_groups ts))"
    using split_groups_spec(1) [OF assms] by (metis length_concat)
  also have "\<dots> \<le> sum_list (map (\<lambda>_. subtree_capacity (?d - 2)) (split_groups ts))"
    by (rule sum_list_mono) (use small in auto)
  also have "\<dots> = length (split_groups ts) * subtree_capacity (?d - 2)" by (simp add: sum_list_triv)
  also have "\<dots> \<le> subtree_capacity (?d - 1)"
    unfolding d subtree_capacity_Suc using split_groups_spec(2) [OF assms] by (intro mult_le_mono1)
  finally show False using split_depth_minimal [of "?d - 1" "length ts"] assms by simp
qed

lemma children_length:
  assumes "\<forall>grp \<in> set groups. \<forall>source v ls. length (build_split source v grp fee (Suc layer) ls) =
      max (length ls) (Suc layer + tree_depth grp)"
    and "\<forall>grp \<in> set groups. tree_depth grp \<le> d"
  shows "let ls' = fold (\<lambda>og ls. build_split (child fee layer ti og) (cost fee (snd og)) (snd og) fee
           (Suc layer) ls) (enumerate n groups) ls
     in length ls \<le> length ls' \<and> length ls' \<le> max (length ls) (Suc layer + d)
        \<and> (\<forall>grp \<in> set groups. Suc layer + tree_depth grp \<le> length ls')"
  using assms
proof (induction groups arbitrary: n ls)
  case (Cons grp groups)
  let ?ls = "build_split (child fee layer ti (n, grp)) (cost fee grp) grp fee (Suc layer) ls"
  have "length ?ls = max (length ls) (Suc layer + tree_depth grp)" "tree_depth grp \<le> d"
    using Cons.prems by simp_all
  with Cons.IH [where ls = ?ls and n = "Suc n"] Cons.prems show ?case by (fastforce simp: Let_def)
qed simp

lemma build_split_length:
  "length (build_split source v ts fee layer ls) = max (length ls) (layer + tree_depth ts)"
proof (induction ts arbitrary: source v layer ls rule: length_induct)
  case (1 ts)
  show ?case
  proof (cases "split_depth (length ts) \<le> 1")
    case True
    then show ?thesis by (simp add: build_split_leaf length_push_tx_max tree_depth_def)
  next
    case False
    then have d: "1 < split_depth (length ts)" by simp
    let ?ls = "push_tx layer (prep_tx [source] (with_leftover
        (map Intermediate (map (cost fee) (split_groups ts))) (v - cost fee ts))) ls"
    have "\<forall>grp \<in> set (split_groups ts). \<forall>source v ls. length (build_split source v grp fee (Suc layer) ls) =
        max (length ls) (Suc layer + tree_depth grp)"
      using 1 split_groups_spec(3) [OF d] by blast
    from children_length [OF this, of "split_depth (length ts) - 1" "next_index layer ls" 0 ?ls]
    show ?thesis
      using groups_depth_le [OF d] groups_depth_attained [OF d] d
      unfolding build_split_node [OF False] Let_def length_push_tx_max
      by (auto simp: tree_depth_def max_def split: if_splits)
  qed
qed

text \<open>The number of transactions of a split, and so the cost, is linear in the number of targets.\<close>

lemma subtree_transactions: "ts \<noteq> [] \<Longrightarrow> fst (subtree_cost ts fee) < 2 * length ts"
proof (induction ts rule: length_induct)
  case (1 ts)
  show ?case
  proof (cases "split_depth (length ts) \<le> 1")
    case True
    then show ?thesis using 1(2) by (subst subtree_cost.simps) (cases ts, simp_all)
  next
    case False
    then have d: "1 < split_depth (length ts)" by simp
    note spec = split_groups_spec [OF d]
    let ?tx = "\<lambda>grp. fst (subtree_cost grp fee)"
    have "?tx grp + 1 \<le> 2 * length grp" if "grp \<in> set (split_groups ts)" for grp
      using 1(1) spec(3) [OF that] by fastforce
    then have "sum_list (map (\<lambda>grp. ?tx grp + 1) (split_groups ts)) \<le>
        sum_list (map (\<lambda>grp. 2 * length grp) (split_groups ts))" by (intro sum_list_mono) blast
    also have "\<dots> = 2 * length ts"
      using arg_cong [OF spec(1), of length] by (simp add: sum_list_const_mult length_concat)
    finally have "sum_list (map ?tx (split_groups ts)) + length (split_groups ts) \<le> 2 * length ts"
      by (simp only: sum_list_addf sum_list_triv of_nat_id mult_1_right)
    moreover have "1 < length (split_groups ts)"
    proof (rule ccontr)
      assume "\<not> 1 < length (split_groups ts)"
      then consider "split_groups ts = []" | grp where "split_groups ts = [grp]"
        by (cases "split_groups ts") auto
      then show False using spec(1) spec(3) 1(2) by cases auto
    qed
    ultimately show ?thesis
      using False by (subst subtree_cost.simps) (simp add: Let_def comp_def)
  qed
qed

text \<open>
  The cost that the planner compares with a note fits its integer type: for at most \<open>2^32\<close>
  funding values of a total within the money supply, and a fee of at most one million zatoshi, the
  value of the balanced split is the total plus one fee per transaction, there are fewer than twice
  as many transactions as funding values, and the sum is below \<open>2^64\<close>.
\<close>

theorem subtree_cost_fits:
  assumes "ts \<noteq> []" and "length ts \<le> 2 ^ 32" and "sum_list ts \<le> MAX_MONEY" and "fee \<le> 1000000"
  shows "snd (subtree_cost ts fee) = sum_list ts + fee * fst (subtree_cost ts fee)
     \<and> fst (subtree_cost ts fee) < 2 * length ts \<and> snd (subtree_cost ts fee) < 2 ^ 64"
proof -
  have tx: "fst (subtree_cost ts fee) < 2 * length ts" using subtree_transactions [OF assms(1)] .
  then have "fee * fst (subtree_cost ts fee) \<le> 1000000 * (2 * 2 ^ 32)"
    using assms(2,4) by (intro mult_le_mono) simp_all
  with assms(3) tx show ?thesis by (simp add: subtree_cost_value const_defs)
qed

theorem subtree_cost_fits_witness: "snd (subtree_cost [50, 30] 8) < 2 ^ 64"
  using subtree_cost_fits [of "[50, 30]" 8] by (simp add: const_defs)

lemma retain_unfunded_none:
  "v \<notin> set ts \<Longrightarrow> retain_unfunded [v] [False] ts = ([False], ts, [])"
  by (induction ts) (auto simp: find_unused_def)

text \<open>
  A single note is split as flat as the action budget allows: when the wallet's only note covers
  the balanced split and matches no funding value itself, the plan has exactly \<open>split_depth n\<close> layers
  for the \<open>n\<close> positive funding values, which is the least depth \<open>d\<close> with \<open>n \<le> 14^d\<close>.
\<close>

theorem single_note_depth:
  assumes "v \<le> MAX_MONEY" and "sum_list funding \<le> MAX_MONEY" and "v \<notin> set funding"
    and "ts = sort_desc (filter (\<lambda>v. 0 < v) funding)" and "ts \<noteq> []"
    and "snd (subtree_cost ts fee) \<le> v"
  shows "\<exists>plan. plan_preparation pick [v] funding fee = Inr plan
     \<and> layer_count plan = split_depth (length ts)
     \<and> length ts \<le> FUNDING_OUTPUTS_PER_TX ^ layer_count plan
     \<and> (\<forall>d. 0 < d \<longrightarrow> length ts \<le> FUNDING_OUTPUTS_PER_TX ^ d \<longrightarrow> layer_count plan \<le> d)"
proof -
  have "v \<notin> set ts" using assms(3,4) by simp
  then have ex: "extract_direct_funding [v] ts = ([False], ts, [])"
    by (simp add: extract_direct_funding_def retain_unfunded_none)
  let ?ls = "build_split (Wallet 0 v) v ts fee 0 []"
  have pos: "\<forall>v \<in> set ts. 0 < v" using assms(4) by simp
  have ns: "wallet_notes [Wallet 0 v]" by (simp add: wallet_notes_def)
  obtain rest where "prep_reach fee [Wallet 0 v] (?ls, mset rest)" "length rest \<le> 1"
    using build_split_from [OF prep_reach_start [of fee "[Wallet 0 v]"], of "Wallet 0 v" ts] pos assms(6)
    by auto
  then have "length (unconsumed_feeders ?ls) \<le> 1"
    using size_mset_mono [OF reach_unconsumed(1) [OF _ ns]] by fastforce
  then have "residual_loop pick fee ?ls = ?ls" by (subst residual_loop.simps) (simp add: Let_def)
  moreover have "greedy_loop pick fee cur [] ?ls = Inr ?ls" for cur by (subst greedy_loop.simps) simp
  ultimately have "plan_preparation pick [v] funding fee = Inr (plan_from_parts (relabel_change ?ls) [])"
    using assms ex
    by (simp add: plan_preparation_def plan_preparation_greedy_def unused_notes_def max_by_value_def)
  moreover have "0 < split_depth (length ts)"
    using split_depth_capacity [of "length ts"] split_depth_loop_spec [of 1 "length ts"] assms(5)
    by (simp add: split_depth_def)
  then have "layer_count (plan_from_parts (relabel_change ?ls) []) = split_depth (length ts)"
    by (simp add: layer_count_def plan_from_parts_def build_split_length tree_depth_def)
  ultimately show ?thesis
    using split_depth_capacity [of "length ts"] split_depth_le [of _ "length ts"]
    by (simp add: subtree_capacity_def)
qed

theorem single_note_depth_witness:
  "\<exists>plan. plan_preparation (\<lambda>xs. xs) [100] [30, 50] 8 = Inr plan
     \<and> layer_count plan = split_depth 2"
proof -
  have "split_depth (Suc (Suc 0)) \<le> Suc 0" using split_depth_le_1_iff [of "Suc (Suc 0)"] by simp
  then have "subtree_cost [50, 30] 8 = (1, 88)" by (subst subtree_cost.simps) simp
  with single_note_depth [of 100 "[30, 50]" "[50, 30]" 8 "\<lambda>xs. xs"] show ?thesis
    by (auto simp: const_defs sort_desc_def numeral_2_eq_2)
qed

end
