(* ===== verification/Split_Total.thy ===== *)
theory Split_Total
  imports Split_Properties Preparation_Complete
begin

text \<open>
  The planner does not fail: for a balance within the money supply it returns a plan, or the answer
  that nothing can be migrated, whatever the generator draws.
\<close>

section \<open>The preparation planner\<close>

lemma consolidation_loop_error:
  "consolidation_loop pick fee current ls = Inl e \<Longrightarrow> e = InsufficientFunds"
proof (induction pick fee current ls rule: consolidation_loop.induct)
  case (1 pick fee current ls)
  obtain txs nxt leftover where c: "consolidate pick current (length ls) fee [] [] = (txs, nxt, leftover)"
    by (cases "consolidate pick current (length ls) fee [] []")
  show ?case
    using "1.prems" "1.IH" [OF _ c [symmetric] refl refl]
    by (subst (asm) consolidation_loop.simps) (auto simp: c split: if_splits)
qed

lemma plan_preparation_balance:
  assumes "sum_list available \<le> MAX_MONEY" and "sum_list funding \<le> MAX_MONEY"
    and "plan_preparation pick available funding fee = Inl e"
  shows "e = InsufficientFunds"
proof -
  have "plan_preparation_via_consolidation pick available funding fee = Inl e' \<Longrightarrow>
      e' = InsufficientFunds" for e'
    using assms(1,2)
    by (auto simp: plan_preparation_via_consolidation_def Let_def rbind_eq_Inl
        dest!: consolidation_loop_error split: if_splits prod.splits)
  moreover have "plan_preparation_greedy pick available funding fee = Inl e' \<Longrightarrow>
      e' = InsufficientFunds" for e'
    using assms(1,2)
    by (auto simp: plan_preparation_greedy_def Let_def rbind_eq_Inl
        dest!: greedy_loop_error split: if_splits prod.splits)
  ultimately show ?thesis
    using assms(3) by (auto simp: plan_preparation_def split: sum.splits prep_error.splits)
qed

lemma wallet_sum_le:
  assumes "distinct fs" and "\<forall>f \<in> set fs. \<exists>i < length available. f = Wallet i (available ! i)"
  shows "sum_list (map input_value fs) \<le> sum_list available"
proof -
  let ?w = "\<lambda>i. Wallet i (available ! i)"
  have "sum_list (map input_value fs) = sum input_value (set fs)"
    by (rule sum_list_distinct_conv_sum_set [OF assms(1)])
  also have "\<dots> \<le> sum input_value (?w ` {..< length available})"
    using assms(2) by (intro sum_mono2) auto
  also have "\<dots> = sum (\<lambda>i. available ! i) {..< length available}"
    by (subst sum.reindex) (auto simp: inj_on_def)
  also have "\<dots> = sum_list available" by (simp add: sum_list_sum_nth atLeast0LessThan)
  finally show ?thesis .
qed

lemma plan_fees_le:
  assumes plan: "plan_preparation pick available funding fee = Inr prep"
  shows "fee * transaction_count prep \<le> sum_list available"
proof -
  have "\<exists>i < length available. f = Wallet i (available ! i)"
    if "f \<in> set (filter is_Wallet (all_inputs (layers prep)))" for f
  proof -
    from that obtain txs tx where "txs \<in> set (layers prep)" "tx \<in> set txs" "f \<in> set (inputs tx)"
      and w: "is_Wallet f" by (auto simp: all_inputs_def)
    then obtain k where "k < length (layers prep)" "tx \<in> set (layers prep ! k)" "f \<in> set (inputs tx)"
      by (auto simp: in_set_conv_nth)
    then have "input_ok available (direct_funding prep) (layers prep) k f"
      using plan_inputs_sound [OF plan, THEN conjunct2, THEN conjunct1] unfolding input_ok_def by blast
    with w show ?thesis by (cases f rule: prep_input.exhaust) (auto simp: input_ok_def)
  qed
  moreover have "distinct (filter is_Wallet (all_inputs (layers prep)))"
    using plan_inputs_sound [OF plan] by simp
  ultimately have "sum_list (map input_value (filter is_Wallet (all_inputs (layers prep)))) \<le> sum_list available"
    by (intro wallet_sum_le) blast+
  then show ?thesis using plan_value_conserved [OF plan] by linarith
qed

section \<open>Trials\<close>

lemma preparation_for_crossings_total:
  assumes "sum_list (available_notes ctx) \<le> MAX_MONEY" and "prep_fee ctx = fee"
    and "sum_list (map (\<lambda>c. c + mfee) cs) \<le> MAX_MONEY"
  shows "\<exists>r. preparation_for_crossings pick ctx cs fee mfee = Inr r"
proof -
  let ?fs = "map (\<lambda>c. c + mfee) cs"
  have le: "\<forall>v \<in> set ?fs. v \<le> MAX_MONEY" using member_le_sum_list_nat assms(3) le_trans by blast
  then have "\<forall>c \<in> set cs. c + mfee < 2 ^ 64" by (auto simp: MAX_MONEY_def)
  then have a: "collect_results (\<lambda>c. ok_or PreparedNoteOverflow (checked_add 64 c mfee)) cs = Inr ?fs"
    "collect_results (zatoshis_from_u64 PreparedNoteInvalid) ?fs = Inr ?fs"
    using le by (simp_all add: collect_add_fee collect_zatoshis)
  show ?thesis
  proof (cases "plan_preparation pick (available_notes ctx) ?fs (prep_fee ctx)")
    case (Inl e)
    then show ?thesis
      using plan_preparation_balance [OF assms(1,3) Inl] a by (auto simp: preparation_for_crossings_def)
  next
    case (Inr prep)
    have "fee * transaction_count prep \<le> MAX_MONEY"
      using plan_fees_le [OF Inr] assms(1,2) by simp
    then have "\<exists>c. committed_value ?fs prep fee = Inr c"
      using assms(3) by (simp add: committed_value_def checked_sum_eq checked_mul_def checked_add_def MAX_MONEY_def)
    then show ?thesis using a Inr by (auto simp: preparation_for_crossings_def)
  qed
qed

lemma try_candidates_total:
  assumes "\<And>c. c \<in> set candidates \<Longrightarrow> \<exists>r. preparation_for_crossings pick ctx (cs @ c) fee mfee = Inr r"
  shows "\<exists>r. try_candidates pick ctx fee mfee cs candidates = Inr r"
  using assms
proof (induction candidates)
  case (Cons c candidates)
  obtain found where "preparation_for_crossings pick ctx (cs @ c) fee mfee = Inr found"
    using Cons.prems by (metis list.set_intros(1))
  moreover have "\<exists>r. try_candidates pick ctx fee mfee cs candidates = Inr r"
    using Cons.IH Cons.prems by simp
  ultimately show ?case by (cases found) auto
qed simp

section \<open>The number of parts of a candidate\<close>

fun leaves :: "denomination_refinement \<Rightarrow> nat" where
  "leaves (Refinement v children) = (if children = [] then 1 else sum_list (map leaves children))"

lemma leaves_pos: "0 < leaves t"
proof (induction t)
  case (Refinement v children)
  then show ?case by (cases children) auto
qed

lemma sum_leaves_pos: "ts \<noteq> [] \<Longrightarrow> 0 < sum_list (map leaves ts)"
  by (cases ts) (auto simp: leaves_pos)

lemma candidates_length:
  shows candidates_length_tree:
      "refinement_candidates t = Inr cs \<Longrightarrow> \<forall>c \<in> set cs. length c \<le> leaves t"
    and candidates_length_children:
      "expand_children expanded ts = Inr cs \<Longrightarrow>
         \<forall>c \<in> set cs. \<exists>p \<in> set expanded. length c \<le> length p + sum_list (map leaves ts)"
proof (induction t and expanded ts arbitrary: cs and cs
    rule: refinement_candidates_expand_children.induct)
  case (1 v children)
  show ?case
  proof (cases "children = []")
    case True
    with 1(2) show ?thesis by (auto split: if_splits)
  next
    case False
    with 1(2) obtain expanded where canonical: "\<not> \<not> is_zip318_canonical_denomination v"
      and tot: "checked_sum RefinementTotalOverflow (map refined_value children) = Inr v"
      and ex: "expand_children [[]] children = Inr expanded"
      and cs: "cs = remdups_adj (sort_key candidate_key (map sort_desc (expanded @ [[v]])))"
      by (auto split: if_splits)
    have "\<forall>c \<in> set expanded. length c \<le> sum_list (map leaves children)"
      using 1(1) [OF canonical False tot _ ex] by simp
    then show ?thesis using False sum_leaves_pos [OF False] by (auto simp: cs)
  qed
next
  case (2 expanded)
  then show ?case by auto
next
  case (3 expanded c ts)
  from 3(3) obtain cc where cc: "refinement_candidates c = Inr cc"
    and cap: "ok_or RefinementCountOverflow (checked_mul 64 (length expanded) (length cc)) =
      Inr (length expanded * length cc)"
    and cs: "expand_children (combine_candidates expanded cc) ts = Inr cs"
    by auto
  have one: "\<forall>q \<in> set cc. length q \<le> leaves c" by (rule 3(1) [OF cc])
  show ?case
  proof
    fix r assume "r \<in> set cs"
    with 3(2) [OF cc cap cs] obtain pq where pq: "pq \<in> set (combine_candidates expanded cc)"
      "length r \<le> length pq + sum_list (map leaves ts)" by blast
    then obtain pre q where "pre \<in> set expanded" "q \<in> set cc" "pq = pre @ q"
      by (auto simp: combine_candidates_def)
    with pq(2) one show "\<exists>p \<in> set expanded. length r \<le> length p + sum_list (map leaves (c # ts))"
      by (intro bexI [of _ pre]) fastforce+
  qed
qed

lemma refine_leaves: "leaves (fst (refine_denomination draw p g v)) \<le> 10"
proof -
  have two: "leaves t \<le> 2" if "t \<in> set tree_two" for t
    using that by (auto simp: tree_two_def)
  have five: "leaves t \<le> 5" if "t \<in> set tree_five" for t
    using that by (auto simp: tree_five_def dest!: two)
  have "leaves t \<le> 10" if "t \<in> set tree_ten" for t
    using that by (auto simp: tree_ten_def dest!: five)
  then show ?thesis using refine_tree [of draw p g v] two five by fastforce
qed

section \<open>The loops\<close>

lemma accept_loop_total:
  assumes "sum_list (available_notes ctx) \<le> MAX_MONEY" and "prep_fee ctx = fee"
    and "sum_list (map (\<lambda>c. c + mfee) cs) + affordable + 10 * mfee \<le> MAX_MONEY"
  shows "\<exists>r. accept_loop pick ctx (refine_denomination draw p) fee mfee cs affordable g = Inr r"
  using assms(3)
proof (induction affordable arbitrary: g rule: less_induct)
  case (less a)
  show ?case
  proof (cases "a < ZIP318_MAX_RESIDUAL_VALUE_ZATOSHI \<or> largest_zip318_denomination_at_or_below a = None")
    case True
    then show ?thesis by (subst accept_loop.simps) (auto split: option.splits)
  next
    case False
    then obtain d where d: "\<not> a < ZIP318_MAX_RESIDUAL_VALUE_ZATOSHI"
      "largest_zip318_denomination_at_or_below a = Some d" by auto
    note db = largest_bounds [OF d(2)]
    obtain t g1 where t: "refine_denomination draw p g d = (t, g1)" by force
    have tv: "refined_value t = d" and tok: "tree_ok t" "prunings t \<le> 26" and tl: "leaves t \<le> 10"
      using refine_value [of draw p g d] refine_tree_ok [OF db(5), of draw p g] refine_leaves [of draw p g d]
        t by simp_all
    have "prunings t < 2 ^ 64" using tok(2) by simp
    then obtain candidates where c: "refinement_candidates t = Inr candidates"
      using candidates_exist_tree tok(1) by blast
    have "\<exists>r. preparation_for_crossings pick ctx (cs @ q) fee mfee = Inr r" if q: "q \<in> set candidates" for q
    proof (rule preparation_for_crossings_total [OF assms(1,2)])
      have "sum_list q = d" using candidates_split_value [OF c] q tv by (auto simp: splits_value_def)
      moreover have "mfee * length q \<le> 10 * mfee"
        using candidates_length_tree [OF c] q tl by (metis le_trans mult.commute mult_le_mono1)
      ultimately show "sum_list (map (\<lambda>c. c + mfee) (cs @ q)) \<le> MAX_MONEY"
        using less.prems db(4) unfolding map_append sum_list_append sum_list_map_add_const by linarith
    qed
    then obtain accepted where acc: "try_candidates pick ctx fee mfee cs candidates = Inr accepted"
      using try_candidates_total [of candidates pick ctx cs fee mfee] by blast
    have rec: "\<exists>r. accept_loop pick ctx (refine_denomination draw p) fee mfee cs (d - 1) g1 = Inr r"
      using less.IH [of "d - 1" g1] less.prems db by simp
    have "accept_loop pick ctx (refine_denomination draw p) fee mfee cs a g =
        (if accepted \<noteq> None \<or> d = ZIP318_MAX_RESIDUAL_VALUE_ZATOSHI then Inr (accepted, g1)
         else accept_loop pick ctx (refine_denomination draw p) fee mfee cs (d - 1) g1)"
      using d t tv c acc by (subst accept_loop.simps) (simp del: not_None_eq)
    then show ?thesis using rec by (simp del: not_None_eq)
  qed
qed

lemma planning_loop_total:
  assumes "search_state pick ctx fee mfee cs fs prep"
    and "sum_list (available_notes ctx) \<le> MAX_MONEY" and "prep_fee ctx = fee"
    and "checked_add 64 ZIP318_MAX_RESIDUAL_VALUE_ZATOSHI mfee = Some mfn"
    and "total_input_zatoshi ctx + 9 * mfee \<le> MAX_MONEY"
  shows "\<exists>r. planning_loop pick ctx (refine_denomination draw p) fee mfee mfn cs fs prep g = Inr r"
  using assms(1)
proof (induction "total_input_zatoshi ctx - sum_list cs" arbitrary: cs fs prep g rule: less_induct)
  case less
  have "\<exists>committed. committed_value fs prep fee = Inr committed
      \<and> sum_list (map (\<lambda>c. c + mfee) cs) \<le> committed \<and> committed \<le> total_input_zatoshi ctx"
    using less.prems unfolding search_state_def
  proof (elim conjE disjE)
    assume "cs = []" "fs = []" "prep = plan_from_parts [] []"
    then show ?thesis
      by (simp add: committed_value_def checked_sum_eq checked_mul_def checked_add_def
          transaction_count_def plan_from_parts_def)
  next
    assume "preparation_for_crossings pick ctx cs fee mfee = Inr (Some (fs, prep))"
    from preparation_for_crossings_Some [OF this] show ?thesis by simp
  qed
  then obtain committed where cv: "committed_value fs prep fee = Inr committed"
    and low: "sum_list (map (\<lambda>c. c + mfee) cs) \<le> committed" and high: "committed \<le> total_input_zatoshi ctx"
    by blast
  let ?budget = "saturating_sub (total_input_zatoshi ctx) committed"
  show ?case
  proof (cases "?budget < mfn")
    case True
    then show ?thesis by (subst planning_loop.simps) (simp add: cv Let_def)
  next
    case False
    then have m: "mfee \<le> ?budget" using assms(4) by auto
    then have sub: "ok_or AffordablePanic (checked_sub ?budget mfee) = Inr (?budget - mfee)" by simp
    let ?a = "min (?budget - mfee) ZIP318_MAX_MIGRATION_DENOMINATION_ZATOSHI"
    have "sum_list (map (\<lambda>c. c + mfee) cs) + ?a + 10 * mfee \<le> MAX_MONEY"
      using low high m assms(5) by (simp add: saturating_sub_def)
    from accept_loop_total [OF assms(2,3) this] obtain accepted g' where
      acc: "accept_loop pick ctx (refine_denomination draw p) fee mfee cs ?a g = Inr (accepted, g')"
      by (metis surj_pair)
    have step: "planning_loop pick ctx (refine_denomination draw p) fee mfee mfn cs fs prep g =
        (case accepted of None \<Rightarrow> Inr (cs, fs, prep)
         | Some (cs', fs', prep') \<Rightarrow>
             planning_loop pick ctx (refine_denomination draw p) fee mfee mfn cs' fs' prep' g')"
      using False by (subst planning_loop.simps) (simp add: cv Let_def sub acc)
    show ?thesis
    proof (cases accepted)
      case None
      then show ?thesis by (simp add: step)
    next
      case (Some r)
      obtain cs1 fs1 prep1 where r: "r = (cs1, fs1, prep1)" by (cases r)
      note acc' = acc [unfolded Some r]
      have ext: "extends_plan pick ctx fee mfee cs (cs1, fs1, prep1)" by (rule accept_loop_extends [OF acc'])
      then have "search_state pick ctx fee mfee cs1 fs1 prep1"
        using less.prems by (auto simp: search_state_def extends_plan_def)
      from less.hyps [OF accept_loop_decreases [OF acc'] this] show ?thesis
        by (simp add: step Some r)
    qed
  qed
qed

text \<open>
  C22. The planner does not fail. When the notes are worth at most the money supply, less nine
  migration fees for the funding notes that a refinement adds, and the fees are the ones the callers
  use, planning returns a plan or the answer that nothing can be migrated, never an error: no sum
  overflows, no refinement is rejected, and the translation assigns every part. This holds for every
  policy and every sequence of draws.
\<close>

theorem padded_planner_total:
  assumes "sum_list input_values + 9 * mfee \<le> MAX_MONEY" and "0 < fee" and "fee \<le> MAX_MONEY"
    and "minimum = 1" and "mfee \<le> MAX_MONEY"
  shows "\<exists>r. plan_padded_denominations_with_policy_and_rng pick input_values fee mfee minimum p draw g = Inr r"
proof (cases "filter (\<lambda>v. 0 < v) input_values = []")
  case True
  then show ?thesis
    by (simp add: plan_padded_denominations_with_policy_and_rng_def
        plan_padded_denominations_with_refiner_def planning_context_eq)
next
  case False
  have small: "\<forall>x \<in> set input_values. x \<le> MAX_MONEY"
    using member_le_sum_list_nat assms(1) by (meson add_leD1 le_trans)
  then obtain ctx where ctx: "planning_context input_values fee 1 = Inr (Some ctx)"
    using False assms(1,2,3) by (auto simp: planning_context_eq MAX_MONEY_def)
  note c = planning_context_SomeD [OF ctx]
  have mfn: "checked_add 64 ZIP318_MAX_RESIDUAL_VALUE_ZATOSHI mfee = Some (ZIP318_MAX_RESIDUAL_VALUE_ZATOSHI + mfee)"
    using assms(5) by (simp add: const_defs)
  have start: "search_state pick ctx fee mfee [] [] (plan_from_parts [] [])" by (simp add: search_state_def)
  have "sum_list (available_notes ctx) \<le> MAX_MONEY" using assms(1) by (simp add: c(2) sum_list_filter_pos)
  from planning_loop_total [OF start this c(3) mfn] obtain cs fs prep where
    loop: "planning_loop pick ctx (refine_denomination draw p) fee mfee
       (ZIP318_MAX_RESIDUAL_VALUE_ZATOSHI + mfee) [] [] (plan_from_parts [] []) g = Inr (cs, fs, prep)"
    using assms(1) c(1) by (metis surj_pair)
  have st: "search_state pick ctx fee mfee cs fs prep" using planning_loop_result [OF loop start mfn] by blast
  have "\<exists>r. finish_plan ctx cs fs prep fee mfee 1 = Inr r"
  proof (cases "cs = []")
    case True
    then show ?thesis by (simp add: finish_plan_def)
  next
    case ne: False
    then have "preparation_for_crossings pick ctx cs fee mfee = Inr (Some (fs, prep))"
      "\<forall>c \<in> set cs. is_zip318_canonical_denomination c"
      using st by (simp_all add: search_state_def)
    with finish_plan_total [OF ctx ne] show ?thesis by blast
  qed
  then show ?thesis
    using loop ctx mfn
    by (simp add: plan_padded_denominations_with_policy_and_rng_def
        plan_padded_denominations_with_refiner_def assms(4) del: checked_add_eq_Some One_nat_def)
qed

theorem padded_planner_total_witness:
  "\<exists>r. plan_padded_denominations_with_policy_and_rng (\<lambda>xs. xs) [0, 3000000] 80000 10000 1
     AGGRESSIVE_REFINEMENT_POLICY (\<lambda>g. (g, g + 30)) (0 :: nat) = Inr r"
  by (rule padded_planner_total) (simp_all add: MAX_MONEY_def)

end
