(* ===== verification/Compact_Sigs.thy ===== *)
theory Compact_Sigs
  imports Prelude "HOL-Library.Word"
begin

text \<open>
  The compact signature blob of \<open>keystone.rs\<close>: a little-endian count and one 69-byte record per
  signature. The stage store encrypts this blob. Bytes are \<open>8 word\<close>; a signature's array of 64 bytes
  is a list whose length is part of \<open>sig_ok\<close>.
\<close>

type_synonym byte = "8 word"

definition ZCASH_SIG_LEN :: usize where
  [const_defs]: "ZCASH_SIG_LEN = 64"

definition COMPACT_ACTION_SIG_LEN :: usize where
  [const_defs]: "COMPACT_ACTION_SIG_LEN = 1 + 4 + ZCASH_SIG_LEN"

definition ZCASH_SIGN_BATCH_MAX_SIGNATURES :: usize where
  [const_defs]: "ZCASH_SIGN_BATCH_MAX_SIGNATURES = 96"

datatype value_pool = Orchard | Ironwood

record spend_auth_signature =
  sig_value_pool :: value_pool
  sig_action_index :: usize
  sig_signature :: "byte list"

datatype compact_sig_error =
  TooManySignatures | BlobLengthOverflow | ActionIndexTooLarge | BlobTooShort
  | SignatureLimitExceeded | BodyLengthMismatch usize usize usize | UnsupportedPool u32

definition u32_to_le_bytes :: "u32 \<Rightarrow> byte list" where
  "u32_to_le_bytes n =
     [word_of_nat n, word_of_nat (n div 256), word_of_nat (n div 256 ^ 2), word_of_nat (n div 256 ^ 3)]"

definition u32_from_le_bytes :: "byte \<Rightarrow> byte \<Rightarrow> byte \<Rightarrow> byte \<Rightarrow> u32" where
  "u32_from_le_bytes a b c d = unat a + 256 * unat b + 256 ^ 2 * unat c + 256 ^ 3 * unat d"

fun encode_signature_pool :: "value_pool \<Rightarrow> byte" where
  "encode_signature_pool Orchard = 0"
| "encode_signature_pool Ironwood = 1"

definition decode_signature_pool :: "u32 \<Rightarrow> compact_sig_error + value_pool" where
  "decode_signature_pool pool =
     (if pool = 0 then Inr Orchard else if pool = 1 then Inr Ironwood else Inl (UnsupportedPool pool))"

definition try_u32 :: "'e \<Rightarrow> usize \<Rightarrow> 'e + u32" where
  "try_u32 e n = (if n < 2 ^ 32 then Inr n else Inl e)"

text \<open>The record of one signature, and the loop body that appends it.\<close>

definition encode_sig_record :: "spend_auth_signature \<Rightarrow> compact_sig_error + byte list" where
  "encode_sig_record s =
     rbind (try_u32 ActionIndexTooLarge (sig_action_index s)) (\<lambda>action_index.
     Inr ([encode_signature_pool (sig_value_pool s)] @ u32_to_le_bytes action_index
          @ sig_signature s))"

definition encode_compact_action_sigs ::
    "spend_auth_signature list \<Rightarrow> compact_sig_error + byte list" where
  "encode_compact_action_sigs sigs =
     rbind (try_u32 TooManySignatures (length sigs)) (\<lambda>sig_count.
     rbind (ok_or BlobLengthOverflow
              (Option.bind (checked_mul 64 (length sigs) COMPACT_ACTION_SIG_LEN)
                 (\<lambda>body_len. checked_add 64 body_len 4))) (\<lambda>capacity.
     rbind (collect_results encode_sig_record sigs) (\<lambda>records.
     Inr (u32_to_le_bytes sig_count @ concat records))))"

text \<open>\<open>chunks_exact\<close>: the full chunks, a shorter rest is dropped.\<close>

function chunks_exact :: "nat \<Rightarrow> 'a list \<Rightarrow> 'a list list" where
  "chunks_exact n xs =
     (if n = 0 \<or> length xs < n then [] else take n xs # chunks_exact n (drop n xs))"
  by pat_completeness auto
termination by (relation "measure (\<lambda>(n, xs). length xs)") auto

declare chunks_exact.simps [simp del]

definition decode_sig_record :: "byte list \<Rightarrow> compact_sig_error + spend_auth_signature" where
  "decode_sig_record record =
     rbind (decode_signature_pool (unat (record ! 0))) (\<lambda>pool.
     Inr \<lparr>sig_value_pool = pool,
          sig_action_index = u32_from_le_bytes (record ! 1) (record ! 2) (record ! 3) (record ! 4),
          sig_signature = drop 5 record\<rparr>)"

definition decode_compact_action_sigs ::
    "byte list \<Rightarrow> compact_sig_error + spend_auth_signature list" where
  "decode_compact_action_sigs bytes =
     (if length bytes < 4 then Inl BlobTooShort
      else
        let sig_count = u32_from_le_bytes (bytes ! 0) (bytes ! 1) (bytes ! 2) (bytes ! 3) in
        if sig_count > ZCASH_SIGN_BATCH_MAX_SIGNATURES then Inl SignatureLimitExceeded
        else
          let body = drop 4 bytes in
          rbind (ok_or BlobLengthOverflow (checked_mul 64 sig_count COMPACT_ACTION_SIG_LEN))
            (\<lambda>expected.
          if length body \<noteq> expected then Inl (BodyLengthMismatch (length body) expected sig_count)
          else collect_results decode_sig_record (chunks_exact COMPACT_ACTION_SIG_LEN body)))"

section \<open>Round trip\<close>

definition sig_ok :: "spend_auth_signature \<Rightarrow> bool" where
  "sig_ok s \<longleftrightarrow> sig_action_index s < 2 ^ 32 \<and> length (sig_signature s) = ZCASH_SIG_LEN"

lemma base_256_sum:
  "n = m * 256 + r0 \<Longrightarrow> m = k * 256 + r1 \<Longrightarrow> k = j * 256 + r2 \<Longrightarrow>
     r0 + 256 * r1 + 256 ^ 2 * r2 + 256 ^ 3 * j = (n :: nat)"
  by simp

lemma le_digits:
  "n mod 256 + 256 * (n div 256 mod 256) + 256 ^ 2 * (n div 256 ^ 2 mod 256)
     + 256 ^ 3 * (n div 256 ^ 3) = (n :: nat)"
proof -
  have "n div 256 ^ 2 = n div 256 div 256" "n div 256 ^ 3 = n div 256 div 256 div 256"
    by (simp_all add: div_mult2_eq [symmetric])
  then show ?thesis
    by (simp only: base_256_sum [OF div_mult_mod_eq [symmetric] div_mult_mod_eq [symmetric]
          div_mult_mod_eq [symmetric]])
qed

lemma le_bytes_round_trip:
  assumes "n < 2 ^ 32" and "u32_to_le_bytes n = [a, b, c, d]"
  shows "u32_from_le_bytes a b c d = n"
proof -
  have "a = word_of_nat n" "b = word_of_nat (n div 256)" "c = word_of_nat (n div 256 ^ 2)"
    "d = word_of_nat (n div 256 ^ 3)"
    using assms(2) by (simp_all add: u32_to_le_bytes_def)
  moreover have "n div 256 ^ 3 mod 256 = n div 256 ^ 3" using assms(1) by simp
  ultimately show ?thesis
    using le_digits [of n] by (simp add: u32_from_le_bytes_def unsigned_of_nat take_bit_eq_mod)
qed

lemma decode_pool_encode [simp]:
  "decode_signature_pool (unat (encode_signature_pool p)) = Inr p"
  by (cases p) (simp_all add: decode_signature_pool_def)

lemma sig_record_round_trip:
  assumes "sig_ok s"
  shows "\<exists>r. encode_sig_record s = Inr r \<and> length r = COMPACT_ACTION_SIG_LEN
     \<and> decode_sig_record r = Inr s"
proof -
  obtain a b c d where le: "u32_to_le_bytes (sig_action_index s) = [a, b, c, d]"
    by (simp add: u32_to_le_bytes_def)
  have "u32_from_le_bytes a b c d = sig_action_index s"
    using le_bytes_round_trip [OF _ le] assms by (simp add: sig_ok_def)
  then show ?thesis
    using assms le
    by (auto simp: encode_sig_record_def decode_sig_record_def sig_ok_def try_u32_def const_defs)
qed

lemma chunks_exact_concat:
  "\<forall>r \<in> set rs. length r = n \<Longrightarrow> 0 < n \<Longrightarrow> chunks_exact n (concat rs) = rs"
  by (induction rs) (auto simp: chunks_exact.simps)

lemma length_concat_const: "\<forall>r \<in> set rs. length r = n \<Longrightarrow> length (concat rs) = length rs * n"
  by (induction rs) auto

lemma records_round_trip:
  assumes "\<forall>s \<in> set sigs. sig_ok s"
  shows "\<exists>rs. collect_results encode_sig_record sigs = Inr rs \<and> length rs = length sigs
     \<and> (\<forall>r \<in> set rs. length r = COMPACT_ACTION_SIG_LEN)
     \<and> collect_results decode_sig_record rs = Inr sigs"
  using assms
proof (induction sigs)
  case (Cons s sigs)
  then obtain rs where "collect_results encode_sig_record sigs = Inr rs" "length rs = length sigs"
    "\<forall>r \<in> set rs. length r = COMPACT_ACTION_SIG_LEN" "collect_results decode_sig_record rs = Inr sigs"
    by auto
  moreover obtain r where "encode_sig_record s = Inr r" "length r = COMPACT_ACTION_SIG_LEN"
    "decode_sig_record r = Inr s"
    using sig_record_round_trip [of s] Cons.prems by auto
  ultimately show ?case by (auto intro!: exI [of _ "r # rs"])
qed simp

lemma compact_sigs_decode_encode:
  assumes "\<forall>s \<in> set sigs. sig_ok s" and "length sigs \<le> ZCASH_SIGN_BATCH_MAX_SIGNATURES"
  shows "\<exists>blob. encode_compact_action_sigs sigs = Inr blob
     \<and> length blob = 4 + length sigs * COMPACT_ACTION_SIG_LEN
     \<and> decode_compact_action_sigs blob = Inr sigs"
proof -
  obtain rs where rs: "collect_results encode_sig_record sigs = Inr rs" "length rs = length sigs"
    "\<forall>r \<in> set rs. length r = COMPACT_ACTION_SIG_LEN" "collect_results decode_sig_record rs = Inr sigs"
    using records_round_trip [OF assms(1)] by blast
  obtain a b c d where le: "u32_to_le_bytes (length sigs) = [a, b, c, d]"
    by (simp add: u32_to_le_bytes_def)
  have sig_count: "u32_from_le_bytes a b c d = length sigs"
    using le_bytes_round_trip [OF _ le] assms(2) by (simp add: const_defs)
  have body: "length (concat rs) = length sigs * COMPACT_ACTION_SIG_LEN"
    using length_concat_const [OF rs(3)] rs(2) by simp
  have fits: "Option.bind (checked_mul 64 (length sigs) COMPACT_ACTION_SIG_LEN)
      (\<lambda>body_len. checked_add 64 body_len 4) = Some (length sigs * COMPACT_ACTION_SIG_LEN + 4)"
    "checked_mul 64 (length sigs) COMPACT_ACTION_SIG_LEN =
      Some (length sigs * COMPACT_ACTION_SIG_LEN)"
    using assms(2) by (simp_all add: const_defs arith_defs)
  have positive: "0 < COMPACT_ACTION_SIG_LEN" by (simp add: const_defs)
  have "encode_compact_action_sigs sigs = Inr ([a, b, c, d] @ concat rs)"
    using assms(2) rs(1) le
    by (simp add: encode_compact_action_sigs_def try_u32_def ZCASH_SIGN_BATCH_MAX_SIGNATURES_def
        fits(1))
  moreover have "decode_compact_action_sigs ([a, b, c, d] @ concat rs) = Inr sigs"
    using assms(2) sig_count body rs(4) chunks_exact_concat [OF rs(3)] positive
    by (simp add: decode_compact_action_sigs_def Let_def fits(2))
  ultimately show ?thesis using body by auto
qed

section \<open>A blob that decodes is the encoding of what it decodes to\<close>

lemma le_digits_unique:
  assumes "a < 256" "b < 256" "c < 256" "d < (256 :: nat)"
    and "n = a + 256 * b + 256 ^ 2 * c + 256 ^ 3 * d"
  shows "n mod 256 = a" "n div 256 mod 256 = b" "n div 256 ^ 2 mod 256 = c" "n div 256 ^ 3 = d"
    "n < 2 ^ 32"
proof -
  have n: "n = a + 256 * (b + 256 * (c + 256 * d))" using assms(5) by simp
  have step: "n div 256 ^ 2 = n div 256 div 256" "n div 256 ^ 3 = n div 256 div 256 div 256"
    by (simp_all add: div_mult2_eq [symmetric])
  have one: "n div 256 = b + 256 * (c + 256 * d)" using assms(1) by (simp add: n)
  have two: "n div 256 ^ 2 = c + 256 * d" unfolding step(1) one using assms(2) by simp
  have three: "n div 256 ^ 3 = d" unfolding step(2) one using assms(2,3) by simp
  show "n mod 256 = a" unfolding n mod_mult_self2 using assms(1) by (rule mod_less)
  show "n div 256 mod 256 = b" unfolding one mod_mult_self2 using assms(2) by (rule mod_less)
  show "n div 256 ^ 2 mod 256 = c" unfolding two mod_mult_self2 using assms(3) by (rule mod_less)
  show "n div 256 ^ 3 = d" by (rule three)
  show "n < 2 ^ 32" using assms(1-4) by (simp add: n)
qed

lemma byte_of_nat_eq: "n mod 256 = unat a \<Longrightarrow> word_of_nat n = (a :: byte)"
  by (rule word_unat_eq_iff [THEN iffD2]) (simp add: unsigned_of_nat take_bit_eq_mod)

lemma le_bytes_of_value:
  fixes a b c d :: byte
  defines "n \<equiv> u32_from_le_bytes a b c d"
  shows "u32_to_le_bytes n = [a, b, c, d]" and "n < 2 ^ 32"
proof -
  have bytes: "unat a < 256" "unat b < 256" "unat c < 256" "unat d < 256"
    using unsigned_less [of a] unsigned_less [of b] unsigned_less [of c] unsigned_less [of d] by simp_all
  note digits = le_digits_unique [OF bytes, of n, unfolded n_def, OF u32_from_le_bytes_def]
  show "u32_to_le_bytes n = [a, b, c, d]"
    using digits(1-4) bytes by (simp add: u32_to_le_bytes_def n_def byte_of_nat_eq)
  show "n < 2 ^ 32" using digits(5) by (simp add: n_def)
qed

lemma encode_pool_decode: "decode_signature_pool (unat (w :: byte)) = Inr p \<Longrightarrow> encode_signature_pool p = w"
proof -
  have "w = word_of_nat n" if "unat w = n" for n using that by auto
  from this [of 0] this [of 1] show "decode_signature_pool (unat w) = Inr p \<Longrightarrow> encode_signature_pool p = w"
    by (auto simp: decode_signature_pool_def split: if_splits)
qed

lemma encode_decoded_record:
  assumes "decode_sig_record r = Inr s" and "length r = COMPACT_ACTION_SIG_LEN"
  shows "encode_sig_record s = Inr r \<and> sig_ok s"
proof -
  from assms(2) obtain w a b c d sig where r: "r = w # a # b # c # d # sig" "length sig = ZCASH_SIG_LEN"
    by (auto simp: COMPACT_ACTION_SIG_LEN_def length_Suc_conv eval_nat_numeral)
  then show ?thesis
    using assms(1) encode_pool_decode [of w] le_bytes_of_value [of a b c d]
    by (auto simp: decode_sig_record_def encode_sig_record_def try_u32_def sig_ok_def)
qed

lemma encode_decoded_records:
  assumes "collect_results decode_sig_record rs = Inr sigs"
    and "\<forall>r \<in> set rs. length r = COMPACT_ACTION_SIG_LEN"
  shows "collect_results encode_sig_record sigs = Inr rs \<and> list_all sig_ok sigs"
  using assms
proof (induction rs arbitrary: sigs)
  case (Cons r rs)
  then show ?case using encode_decoded_record [of r] by (cases sigs) auto
qed simp

lemma chunks_exact_whole:
  assumes "0 < n" and "length xs = k * n"
  shows "concat (chunks_exact n xs) = xs \<and> length (chunks_exact n xs) = k
     \<and> (\<forall>r \<in> set (chunks_exact n xs). length r = n)"
  using assms(2)
proof (induction k arbitrary: xs)
  case 0
  then show ?case using assms(1) by (simp add: chunks_exact.simps)
next
  case (Suc k)
  then have "chunks_exact n xs = take n xs # chunks_exact n (drop n xs)"
    using assms(1) by (subst chunks_exact.simps) simp
  then show ?case using Suc.IH [of "drop n xs"] Suc.prems by simp
qed

lemma encode_decoded_blob:
  assumes "decode_compact_action_sigs blob = Inr sigs"
  shows "encode_compact_action_sigs sigs = Inr blob \<and> list_all sig_ok sigs
     \<and> length sigs \<le> ZCASH_SIGN_BATCH_MAX_SIGNATURES"
proof -
  from assms have "4 \<le> length blob" by (simp add: decode_compact_action_sigs_def split: if_splits)
  then obtain a b c d body where blob: "blob = a # b # c # d # body"
    by (auto simp: numeral_eq_Suc Suc_le_length_iff)
  let ?n = "u32_from_le_bytes a b c d"
  from assms have n: "?n \<le> ZCASH_SIGN_BATCH_MAX_SIGNATURES"
      "length body = ?n * COMPACT_ACTION_SIG_LEN"
      "collect_results decode_sig_record (chunks_exact COMPACT_ACTION_SIG_LEN body) = Inr sigs"
    by (auto simp: decode_compact_action_sigs_def blob Let_def split: if_splits)
  have positive: "0 < COMPACT_ACTION_SIG_LEN" by (simp add: const_defs)
  note chunks = chunks_exact_whole [OF positive n(2)]
  have k: "length sigs = ?n" using collect_results_length [OF n(3)] chunks by simp
  have fits: "Option.bind (checked_mul 64 ?n COMPACT_ACTION_SIG_LEN)
      (\<lambda>body_len. checked_add 64 body_len 4) = Some (?n * COMPACT_ACTION_SIG_LEN + 4)"
    using n(1) by (simp add: const_defs arith_defs)
  show ?thesis
    using encode_decoded_records [OF n(3)] chunks n(1) le_bytes_of_value [of a b c d]
    by (simp add: encode_compact_action_sigs_def try_u32_def k fits blob)
qed

text \<open>
  C37. The signature blob is canonical and lossless: a blob decodes to a list of signatures exactly
  when it is the encoding of that list, the list is within the batch limit, and every action index
  and signature has its width. So no two blobs decode to the same signatures, and a stored blob
  gives back what was signed.
\<close>

theorem compact_sigs_round_trip:
  "decode_compact_action_sigs blob = Inr sigs \<longleftrightarrow>
     encode_compact_action_sigs sigs = Inr blob \<and> list_all sig_ok sigs
     \<and> length sigs \<le> ZCASH_SIGN_BATCH_MAX_SIGNATURES"
  using encode_decoded_blob [of blob sigs] compact_sigs_decode_encode [of sigs]
  by (auto simp: list_all_iff)

end
