(* ===== verification/Stage_Store.thy ===== *)
theory Stage_Store
  imports Compact_Sigs "HOL-Library.Product_Lexorder"
begin

text \<open>
  The store of denomination stages (\<open>migration/stages.rs\<close>): three SQL tables, the validation of a
  batch of stages, the queries and the guarded updates.

  A table is the list of its rows, with the columns of the schema; the current schema is assumed,
  so that \<open>ensure_schema\<close> does nothing, and its \<open>CHECK\<close>, \<open>PRIMARY KEY\<close> and \<open>UNIQUE\<close> clauses are
  evaluated by the inserts and updates. A string is a list of bytes. The encryption of payloads
  (AES-GCM under a derived key), its random nonces \<open>'n\<close> and the base64 decoding of the salt are a
  parameter, the record \<open>payload_cipher\<close>.
\<close>

section \<open>Status and kind names\<close>

datatype denomination_stage_status = AwaitingInputs | Pending | Broadcasted | Confirmed

datatype denomination_stage_output_kind = MigrationOutput | ChangeOutput | ContinuationOutput

text \<open>One constructor per error of the source; a table that is missing is not an error of the model.\<close>

datatype stage_error =
  UnknownStatus string | UnknownKind string | RunIdEmpty | DuplicateStageIndex u32
  | InvalidHex | DuplicateExpectedTxid string | EmptyBasePczt u32 | NoRealInputs u32
  | NoRealOutputs u32 | AwaitingHasRaw u32 | EmptyRawTransaction u32 | PendingWithoutRaw u32
  | CannotInsertAs u32 denomination_stage_status | InputAssignedTwice string u32
  | PartIndexOnOutput u32 denomination_stage_output_kind | RepeatedOutputIndex u32 u32
  | SaltInvalid | EncryptFailed | DecryptFailed | SignatureBlob compact_sig_error
  | InputOrderOverflow | OutputOrderOverflow | SqlConversion | SqlConstraint
  | RawTransactionEmpty | NotAwaitingInputs u32 | UnsupportedTarget denomination_stage_status
  | StageNotFound string | CannotMove denomination_stage_status denomination_stage_status
  | DifferentInclusion string | MalformedInclusion string | CannotRecordInclusion string
  | CountOverflow

fun stage_status_as_str :: "denomination_stage_status \<Rightarrow> string" where
  "stage_status_as_str AwaitingInputs = ''awaiting_inputs''"
| "stage_status_as_str Pending = ''pending''"
| "stage_status_as_str Broadcasted = ''broadcasted''"
| "stage_status_as_str Confirmed = ''confirmed''"

definition stage_status_parse :: "string \<Rightarrow> stage_error + denomination_stage_status" where
  "stage_status_parse value =
     (if value = ''awaiting_inputs'' then Inr AwaitingInputs
      else if value = ''pending'' then Inr Pending
      else if value = ''broadcasted'' then Inr Broadcasted
      else if value = ''confirmed'' then Inr Confirmed
      else Inl (UnknownStatus value))"

fun output_kind_as_str :: "denomination_stage_output_kind \<Rightarrow> string" where
  "output_kind_as_str MigrationOutput = ''migration''"
| "output_kind_as_str ChangeOutput = ''change''"
| "output_kind_as_str ContinuationOutput = ''continuation''"

definition output_kind_parse :: "string \<Rightarrow> stage_error + denomination_stage_output_kind" where
  "output_kind_parse value =
     (if value = ''migration'' then Inr MigrationOutput
      else if value = ''change'' then Inr ChangeOutput
      else if value = ''continuation'' then Inr ContinuationOutput
      else Inl (UnknownKind value))"

section \<open>Records of the interface\<close>

record stage_input_ref =
  in_txid_hex :: string
  in_output_index :: u32
  in_value_zatoshi :: u64
  in_note_version :: nat
  in_nullifier_hex :: "string option"

record stage_output_ref =
  out_output_index :: u32
  out_value_zatoshi :: u64
  out_note_version :: nat
  out_kind :: denomination_stage_output_kind
  out_part_index :: "u32 option"

record denomination_stage_insert =
  si_stage_index :: u32
  si_base_pczt :: "byte list"
  si_sigs :: "spend_auth_signature list"
  si_raw_tx :: "byte list option"
  si_expected_txid_hex :: string
  si_target_height :: u32
  si_scheduled_height :: u32
  si_expiry_height :: u32
  si_fee_zatoshi :: u64
  si_status :: denomination_stage_status
  si_inputs :: "stage_input_ref list"
  si_outputs :: "stage_output_ref list"

record denomination_stage =
  ds_stage_index :: u32
  ds_base_pczt :: "byte list"
  ds_sigs :: "spend_auth_signature list"
  ds_raw_tx :: "byte list option"
  ds_expected_txid_hex :: string
  ds_target_height :: u32
  ds_scheduled_height :: u32
  ds_broadcast_not_before_height :: "u32 option"
  ds_expiry_height :: u32
  ds_fee_zatoshi :: u64
  ds_status :: denomination_stage_status
  ds_confirmed_mined_height :: "u32 option"
  ds_confirmed_block_hash :: "byte list option"
  ds_inputs :: "stage_input_ref list"
  ds_outputs :: "stage_output_ref list"

record pending_raw_denomination_stage =
  pr_stage_index :: u32
  pr_expected_txid_hex :: string
  pr_raw_tx :: "byte list"
  pr_target_height :: u32
  pr_scheduled_height :: u32
  pr_broadcast_not_before_height :: "u32 option"
  pr_expiry_height :: u32
  pr_fee_zatoshi :: u64

definition unwrap_or :: "'a \<Rightarrow> 'a option \<Rightarrow> 'a" where
  "unwrap_or d m = (case m of None \<Rightarrow> d | Some x \<Rightarrow> x)"

definition effective_broadcast_height :: "pending_raw_denomination_stage \<Rightarrow> u32" where
  "effective_broadcast_height p =
     max (unwrap_or 0 (pr_broadcast_not_before_height p)) (pr_scheduled_height p)"

record stage_status_counts =
  awaiting_inputs_count :: u32
  pending_count :: u32
  broadcasted_count :: u32
  confirmed_count :: u32
  total_count :: u32

record stage_chain_record =
  cr_stage_index :: u32
  cr_expected_txid_hex :: string
  cr_status :: denomination_stage_status
  cr_confirmed_mined_height :: "u32 option"
  cr_confirmed_block_hash :: "byte list option"
  cr_parent_txids :: "string list"
  cr_outputs :: "stage_output_ref list"

section \<open>Tables\<close>

record stage_row =
  sr_run_id :: string
  sr_stage_index :: u32
  sr_encrypted_base_pczt :: string
  sr_encrypted_compact_sigs :: string
  sr_encrypted_raw_tx :: "string option"
  sr_expected_txid_hex :: string
  sr_target_height :: u32
  sr_scheduled_height :: u32
  sr_broadcast_not_before_height :: "u32 option"
  sr_broadcast_attempted :: nat
  sr_expiry_height :: u32
  sr_fee_zatoshi :: u64
  sr_confirmed_mined_height :: "u32 option"
  sr_confirmed_block_hash :: "byte list option"
  sr_status :: string

record input_row =
  ir_run_id :: string
  ir_stage_index :: u32
  ir_input_order :: u32
  ir_txid_hex :: string
  ir_output_index :: u32
  ir_value_zatoshi :: u64
  ir_note_version :: nat
  ir_nullifier_hex :: "string option"

record output_row =
  or_run_id :: string
  or_stage_index :: u32
  or_output_order :: u32
  or_output_index :: u32
  or_value_zatoshi :: u64
  or_note_version :: nat
  or_kind :: string
  or_part_index :: "u32 option"

record stage_db =
  db_stages :: "stage_row list"
  db_inputs :: "input_row list"
  db_outputs :: "output_row list"

text \<open>The \<open>CHECK\<close> clauses of the stage table.\<close>

definition stage_row_check :: "stage_row \<Rightarrow> bool" where
  "stage_row_check r \<longleftrightarrow>
     sr_status r \<in> {''awaiting_inputs'', ''pending'', ''broadcasted'', ''confirmed''}
     \<and> (sr_status r = ''awaiting_inputs'' \<and> sr_encrypted_raw_tx r = None
        \<or> sr_status r \<in> {''pending'', ''broadcasted''} \<and> sr_encrypted_raw_tx r \<noteq> None
        \<or> sr_status r = ''confirmed'')
     \<and> (sr_status r \<noteq> ''confirmed'' \<and> sr_confirmed_mined_height r = None
           \<and> sr_confirmed_block_hash r = None
        \<or> sr_status r = ''confirmed'' \<and> sr_confirmed_mined_height r \<noteq> None
           \<and> (case sr_confirmed_block_hash r of None \<Rightarrow> False | Some h \<Rightarrow> length h = 32))"

definition output_row_check :: "output_row \<Rightarrow> bool" where
  "output_row_check r \<longleftrightarrow> or_kind r \<in> {''migration'', ''change'', ''continuation''}"

text \<open>
  \<open>INSERT\<close>: a violated \<open>CHECK\<close>, \<open>PRIMARY KEY\<close> or \<open>UNIQUE\<close> clause is an error, otherwise the row is
  added. An amount is bound as a 64-bit signed integer, so a value from \<open>2 ^ 63\<close> on is an error of
  the conversion. The parent row that the foreign keys name is inserted before its children.
\<close>

definition sql_u64 :: "u64 \<Rightarrow> stage_error + u64" where
  "sql_u64 v = (if v < 2 ^ 63 then Inr v else Inl SqlConversion)"

definition sql_insert_stage :: "stage_row \<Rightarrow> stage_db \<Rightarrow> stage_error + stage_db" where
  "sql_insert_stage r db =
     (if stage_row_check r
         \<and> list_all (\<lambda>q. sr_run_id q = sr_run_id r \<longrightarrow>
             sr_stage_index q \<noteq> sr_stage_index r \<and> sr_expected_txid_hex q \<noteq> sr_expected_txid_hex r)
           (db_stages db)
      then Inr (db\<lparr>db_stages := db_stages db @ [r]\<rparr>)
      else Inl SqlConstraint)"

definition sql_insert_input :: "input_row \<Rightarrow> stage_db \<Rightarrow> stage_error + stage_db" where
  "sql_insert_input r db =
     (if list_all (\<lambda>q. ir_run_id q = ir_run_id r \<longrightarrow>
           \<not> (ir_stage_index q = ir_stage_index r \<and> ir_input_order q = ir_input_order r)
           \<and> \<not> (ir_txid_hex q = ir_txid_hex r \<and> ir_output_index q = ir_output_index r))
         (db_inputs db)
      then Inr (db\<lparr>db_inputs := db_inputs db @ [r]\<rparr>)
      else Inl SqlConstraint)"

definition sql_insert_output :: "output_row \<Rightarrow> stage_db \<Rightarrow> stage_error + stage_db" where
  "sql_insert_output r db =
     (if output_row_check r
         \<and> list_all (\<lambda>q. or_run_id q = or_run_id r \<and> or_stage_index q = or_stage_index r \<longrightarrow>
             or_output_order q \<noteq> or_output_order r \<and> or_output_index q \<noteq> or_output_index r)
           (db_outputs db)
      then Inr (db\<lparr>db_outputs := db_outputs db @ [r]\<rparr>)
      else Inl SqlConstraint)"

text \<open>
  \<open>UPDATE\<close> of the stage table: the number of rows that match, and the table with these rows set.
  A row that would violate a \<open>CHECK\<close> clause makes the statement fail without effect. No update of
  the source sets a key column.
\<close>

definition sql_update_stages ::
    "(stage_row \<Rightarrow> bool) \<Rightarrow> (stage_row \<Rightarrow> stage_row) \<Rightarrow> stage_db \<Rightarrow> (stage_error + nat) \<times> stage_db" where
  "sql_update_stages P f db =
     (if list_all (\<lambda>r. P r \<longrightarrow> stage_row_check (f r)) (db_stages db)
      then (Inr (length (filter P (db_stages db))),
            db\<lparr>db_stages := map (\<lambda>r. if P r then f r else r) (db_stages db)\<rparr>)
      else (Inl SqlConstraint, db))"

section \<open>Validation\<close>

definition is_ascii_hexdigit :: "char \<Rightarrow> bool" where
  "is_ascii_hexdigit c \<longleftrightarrow>
     (let n = of_char c :: nat in (48 \<le> n \<and> n \<le> 57) \<or> (65 \<le> n \<and> n \<le> 70) \<or> (97 \<le> n \<and> n \<le> 102))"

definition ascii_lower :: "char \<Rightarrow> char" where
  "ascii_lower c = (let n = of_char c :: nat in if 65 \<le> n \<and> n \<le> 90 then char_of (n + 32) else c)"

definition to_ascii_lowercase :: "string \<Rightarrow> string" where
  "to_ascii_lowercase s = map ascii_lower s"

definition validate_hex_32 :: "string \<Rightarrow> stage_error + unit" where
  "validate_hex_32 value =
     (if length value \<noteq> 64 \<or> \<not> list_all is_ascii_hexdigit value then Inl InvalidHex else Inr ())"

definition validate_txid_hex :: "string \<Rightarrow> stage_error + unit" where
  "validate_txid_hex value = validate_hex_32 value"

definition validate_stage_status ::
    "u32 \<Rightarrow> denomination_stage_status \<Rightarrow> byte list option \<Rightarrow> stage_error + unit" where
  "validate_stage_status stage_index status raw_tx =
     (case status of
        AwaitingInputs \<Rightarrow> (case raw_tx of None \<Rightarrow> Inr () | Some _ \<Rightarrow> Inl (AwaitingHasRaw stage_index))
      | Pending \<Rightarrow>
          (case raw_tx of
             None \<Rightarrow> Inl (PendingWithoutRaw stage_index)
           | Some raw \<Rightarrow> if raw \<noteq> [] then Inr () else Inl (EmptyRawTransaction stage_index))
      | _ \<Rightarrow> Inl (CannotInsertAs stage_index status))"

fun validate_inputs ::
    "stage_input_ref list \<Rightarrow> (string \<times> u32) set \<Rightarrow> stage_error + (string \<times> u32) set" where
  "validate_inputs [] input_outpoints = Inr input_outpoints"
| "validate_inputs (i # is) input_outpoints =
     rbind (validate_txid_hex (in_txid_hex i)) (\<lambda>_.
     rbind (case in_nullifier_hex i of None \<Rightarrow> Inr () | Some nf \<Rightarrow> validate_hex_32 nf) (\<lambda>_.
     let outpoint = (to_ascii_lowercase (in_txid_hex i), in_output_index i) in
     if outpoint \<in> input_outpoints then Inl (InputAssignedTwice (in_txid_hex i) (in_output_index i))
     else validate_inputs is (insert outpoint input_outpoints)))"

fun validate_outputs :: "u32 \<Rightarrow> stage_output_ref list \<Rightarrow> u32 set \<Rightarrow> stage_error + unit" where
  "validate_outputs stage_index [] output_indices = Inr ()"
| "validate_outputs stage_index (out # outs) output_indices =
     (if out_kind out \<noteq> MigrationOutput \<and> out_part_index out \<noteq> None then
        Inl (PartIndexOnOutput stage_index (out_kind out))
      else if out_output_index out \<in> output_indices then
        Inl (RepeatedOutputIndex stage_index (out_output_index out))
      else validate_outputs stage_index outs (insert (out_output_index out) output_indices))"

type_synonym batch_seen = "u32 set \<times> string set \<times> (string \<times> u32) set"

definition validate_stage ::
    "batch_seen \<Rightarrow> denomination_stage_insert \<Rightarrow> stage_error + batch_seen" where
  "validate_stage seen stage =
     (case seen of (stage_indices, expected_txids, input_outpoints) \<Rightarrow>
      let index = si_stage_index stage; txid = to_ascii_lowercase (si_expected_txid_hex stage) in
      if index \<in> stage_indices then Inl (DuplicateStageIndex index)
      else
        rbind (validate_txid_hex (si_expected_txid_hex stage)) (\<lambda>_.
        if txid \<in> expected_txids then Inl (DuplicateExpectedTxid (si_expected_txid_hex stage))
        else if si_base_pczt stage = [] then Inl (EmptyBasePczt index)
        else if si_inputs stage = [] then Inl (NoRealInputs index)
        else if si_outputs stage = [] then Inl (NoRealOutputs index)
        else
          rbind (validate_stage_status index (si_status stage) (si_raw_tx stage)) (\<lambda>_.
          rbind (validate_inputs (si_inputs stage) input_outpoints) (\<lambda>input_outpoints'.
          rbind (validate_outputs index (si_outputs stage) {}) (\<lambda>_.
          Inr (insert index stage_indices, insert txid expected_txids, input_outpoints'))))))"

definition validate_stage_batch ::
    "string \<Rightarrow> denomination_stage_insert list \<Rightarrow> stage_error + unit" where
  "validate_stage_batch run_id stages =
     (if run_id = [] then Inl RunIdEmpty
      else rbind (try_fold validate_stage ({}, {}, {}) stages) (\<lambda>_. Inr ()))"

section \<open>Insertion\<close>

record 'n payload_cipher =
  decode_salt :: "string \<Rightarrow> byte list option"
  encrypt_payload :: "byte list \<Rightarrow> byte list \<Rightarrow> byte list \<Rightarrow> 'n \<Rightarrow> (string \<times> 'n) option"
  decrypt_payload :: "string \<Rightarrow> byte list \<Rightarrow> byte list \<Rightarrow> byte list option"

definition encrypt_optional ::
    "'n payload_cipher \<Rightarrow> byte list option \<Rightarrow> byte list \<Rightarrow> byte list \<Rightarrow> 'n \<Rightarrow>
     stage_error + string option \<times> 'n" where
  "encrypt_optional cipher m password salt n =
     (case m of
        None \<Rightarrow> Inr (None, n)
      | Some raw \<Rightarrow>
          rbind (ok_or EncryptFailed (encrypt_payload cipher raw password salt n))
            (\<lambda>(c, n'). Inr (Some c, n')))"

definition map_error :: "('e \<Rightarrow> 'f) \<Rightarrow> 'e + 'a \<Rightarrow> 'f + 'a" where
  "map_error f r = (case r of Inl e \<Rightarrow> Inl (f e) | Inr x \<Rightarrow> Inr x)"

definition insert_input ::
    "string \<Rightarrow> u32 \<Rightarrow> stage_db \<Rightarrow> usize \<times> stage_input_ref \<Rightarrow> stage_error + stage_db" where
  "insert_input run_id stage_index db indexed =
     (case indexed of (input_order, i) \<Rightarrow>
      rbind (try_u32 InputOrderOverflow input_order) (\<lambda>order.
      rbind (sql_u64 (in_value_zatoshi i)) (\<lambda>v.
      sql_insert_input
        \<lparr>ir_run_id = run_id, ir_stage_index = stage_index, ir_input_order = order,
         ir_txid_hex = to_ascii_lowercase (in_txid_hex i), ir_output_index = in_output_index i,
         ir_value_zatoshi = v, ir_note_version = in_note_version i,
         ir_nullifier_hex = map_option to_ascii_lowercase (in_nullifier_hex i)\<rparr> db)))"

definition insert_output ::
    "string \<Rightarrow> u32 \<Rightarrow> stage_db \<Rightarrow> usize \<times> stage_output_ref \<Rightarrow> stage_error + stage_db" where
  "insert_output run_id stage_index db indexed =
     (case indexed of (output_order, out) \<Rightarrow>
      rbind (try_u32 OutputOrderOverflow output_order) (\<lambda>order.
      rbind (sql_u64 (out_value_zatoshi out)) (\<lambda>v.
      sql_insert_output
        \<lparr>or_run_id = run_id, or_stage_index = stage_index, or_output_order = order,
         or_output_index = out_output_index out, or_value_zatoshi = v,
         or_note_version = out_note_version out, or_kind = output_kind_as_str (out_kind out),
         or_part_index = out_part_index out\<rparr> db)))"

text \<open>
  The columns that the insert does not name take their defaults: no broadcast height, no broadcast
  attempt, no confirmation.
\<close>

definition insert_stage ::
    "'n payload_cipher \<Rightarrow> string \<Rightarrow> byte list \<Rightarrow> byte list \<Rightarrow> stage_db \<times> 'n \<Rightarrow>
     denomination_stage_insert \<Rightarrow> stage_error + stage_db \<times> 'n" where
  "insert_stage cipher run_id password salt state stage =
     (case state of (db, n) \<Rightarrow>
      rbind (ok_or EncryptFailed (encrypt_payload cipher (si_base_pczt stage) password salt n))
        (\<lambda>(encrypted_base_pczt, n1).
      rbind (map_error SignatureBlob (encode_compact_action_sigs (si_sigs stage))) (\<lambda>sigs_blob.
      rbind (ok_or EncryptFailed (encrypt_payload cipher sigs_blob password salt n1))
        (\<lambda>(encrypted_compact_sigs, n2).
      rbind (encrypt_optional cipher (si_raw_tx stage) password salt n2)
        (\<lambda>(encrypted_raw_tx, n3).
      rbind (sql_u64 (si_fee_zatoshi stage)) (\<lambda>fee.
      rbind (sql_insert_stage
        \<lparr>sr_run_id = run_id, sr_stage_index = si_stage_index stage,
         sr_encrypted_base_pczt = encrypted_base_pczt,
         sr_encrypted_compact_sigs = encrypted_compact_sigs,
         sr_encrypted_raw_tx = encrypted_raw_tx,
         sr_expected_txid_hex = to_ascii_lowercase (si_expected_txid_hex stage),
         sr_target_height = si_target_height stage, sr_scheduled_height = si_scheduled_height stage,
         sr_broadcast_not_before_height = None, sr_broadcast_attempted = 0,
         sr_expiry_height = si_expiry_height stage, sr_fee_zatoshi = fee,
         sr_confirmed_mined_height = None, sr_confirmed_block_hash = None,
         sr_status = stage_status_as_str (si_status stage)\<rparr> db) (\<lambda>db1.
      rbind (try_fold (insert_input run_id (si_stage_index stage)) db1
               (enumerate 0 (si_inputs stage))) (\<lambda>db2.
      rbind (try_fold (insert_output run_id (si_stage_index stage)) db2
               (enumerate 0 (si_outputs stage))) (\<lambda>db3.
      Inr (db3, n3))))))))))"

text \<open>
  The whole batch under a savepoint: an error rolls the tables back to what they were. The nonce
  state of a failed call is not used again.
\<close>

definition insert_denomination_stages_with_tx ::
    "'n payload_cipher \<Rightarrow> stage_db \<Rightarrow> string \<Rightarrow> denomination_stage_insert list \<Rightarrow> byte list \<Rightarrow>
     string \<Rightarrow> 'n \<Rightarrow> (stage_error + unit) \<times> stage_db \<times> 'n" where
  "insert_denomination_stages_with_tx cipher db run_id stages password salt_base64 n =
     (case validate_stage_batch run_id stages of
        Inl e \<Rightarrow> (Inl e, db, n)
      | Inr _ \<Rightarrow>
          (case decode_salt cipher salt_base64 of
             None \<Rightarrow> (Inl SaltInvalid, db, n)
           | Some salt \<Rightarrow>
               (case try_fold (insert_stage cipher run_id password salt) (db, n) stages of
                  Inl e \<Rightarrow> (Inl e, db, n)
                | Inr (db', n') \<Rightarrow> (Inr (), db', n'))))"

section \<open>Queries\<close>

definition stage_inputs :: "stage_db \<Rightarrow> string \<Rightarrow> u32 \<Rightarrow> stage_input_ref list" where
  "stage_inputs db run_id stage_index =
     map (\<lambda>r. \<lparr>in_txid_hex = ir_txid_hex r, in_output_index = ir_output_index r,
               in_value_zatoshi = ir_value_zatoshi r, in_note_version = ir_note_version r,
               in_nullifier_hex = ir_nullifier_hex r\<rparr>)
       (sort_key ir_input_order
          (filter (\<lambda>r. ir_run_id r = run_id \<and> ir_stage_index r = stage_index) (db_inputs db)))"

definition output_of_row :: "output_row \<Rightarrow> stage_error + stage_output_ref" where
  "output_of_row r =
     rbind (output_kind_parse (or_kind r)) (\<lambda>kind.
     Inr \<lparr>out_output_index = or_output_index r, out_value_zatoshi = or_value_zatoshi r,
          out_note_version = or_note_version r, out_kind = kind, out_part_index = or_part_index r\<rparr>)"

definition stage_outputs :: "stage_db \<Rightarrow> string \<Rightarrow> u32 \<Rightarrow> stage_error + stage_output_ref list" where
  "stage_outputs db run_id stage_index =
     collect_results output_of_row
       (sort_key or_output_order
          (filter (\<lambda>r. or_run_id r = run_id \<and> or_stage_index r = stage_index) (db_outputs db)))"

text \<open>The rows of a run in stage order.\<close>

definition run_stages :: "stage_db \<Rightarrow> string \<Rightarrow> stage_row list" where
  "run_stages db run_id =
     sort_key sr_stage_index (filter (\<lambda>r. sr_run_id r = run_id) (db_stages db))"

definition decrypt_optional ::
    "'n payload_cipher \<Rightarrow> string option \<Rightarrow> byte list \<Rightarrow> byte list \<Rightarrow> stage_error + byte list option" where
  "decrypt_optional cipher m password salt =
     (case m of
        None \<Rightarrow> Inr None
      | Some c \<Rightarrow> rbind (ok_or DecryptFailed (decrypt_payload cipher c password salt)) (\<lambda>raw. Inr (Some raw)))"

definition stage_of_row ::
    "'n payload_cipher \<Rightarrow> stage_db \<Rightarrow> string \<Rightarrow> byte list \<Rightarrow> byte list \<Rightarrow> stage_row \<Rightarrow>
     stage_error + denomination_stage" where
  "stage_of_row cipher db run_id password salt r =
     rbind (ok_or DecryptFailed (decrypt_payload cipher (sr_encrypted_base_pczt r) password salt))
       (\<lambda>base_pczt.
     rbind (ok_or DecryptFailed (decrypt_payload cipher (sr_encrypted_compact_sigs r) password salt))
       (\<lambda>sigs_blob.
     rbind (decrypt_optional cipher (sr_encrypted_raw_tx r) password salt) (\<lambda>raw_tx.
     rbind (map_error SignatureBlob (decode_compact_action_sigs sigs_blob)) (\<lambda>sigs.
     rbind (stage_status_parse (sr_status r)) (\<lambda>status.
     rbind (stage_outputs db run_id (sr_stage_index r)) (\<lambda>outs.
     Inr \<lparr>ds_stage_index = sr_stage_index r, ds_base_pczt = base_pczt, ds_sigs = sigs,
          ds_raw_tx = raw_tx, ds_expected_txid_hex = sr_expected_txid_hex r,
          ds_target_height = sr_target_height r, ds_scheduled_height = sr_scheduled_height r,
          ds_broadcast_not_before_height = sr_broadcast_not_before_height r,
          ds_expiry_height = sr_expiry_height r, ds_fee_zatoshi = sr_fee_zatoshi r,
          ds_status = status, ds_confirmed_mined_height = sr_confirmed_mined_height r,
          ds_confirmed_block_hash = sr_confirmed_block_hash r,
          ds_inputs = stage_inputs db run_id (sr_stage_index r), ds_outputs = outs\<rparr>))))))"

definition denomination_stages_for_run ::
    "'n payload_cipher \<Rightarrow> stage_db \<Rightarrow> string \<Rightarrow> byte list \<Rightarrow> string \<Rightarrow>
     stage_error + denomination_stage list" where
  "denomination_stages_for_run cipher db run_id password salt_base64 =
     rbind (ok_or SaltInvalid (decode_salt cipher salt_base64)) (\<lambda>salt.
     collect_results (stage_of_row cipher db run_id password salt) (run_stages db run_id))"

definition count_to_u32 :: "nat \<Rightarrow> stage_error + u32" where
  "count_to_u32 n = try_u32 CountOverflow n"

definition count_stages :: "stage_db \<Rightarrow> (stage_row \<Rightarrow> bool) \<Rightarrow> nat" where
  "count_stages db P = length (filter P (db_stages db))"

definition expired_unbroadcast_denomination_stage_count ::
    "stage_db \<Rightarrow> string \<Rightarrow> u32 \<Rightarrow> stage_error + u32" where
  "expired_unbroadcast_denomination_stage_count db run_id observed_height =
     count_to_u32 (count_stages db (\<lambda>r. sr_run_id r = run_id
       \<and> sr_status r \<in> {''awaiting_inputs'', ''pending''}
       \<and> sr_expiry_height r > 0 \<and> sr_expiry_height r \<le> observed_height))"

definition expired_broadcasted_denomination_stage_count ::
    "stage_db \<Rightarrow> string \<Rightarrow> u32 \<Rightarrow> stage_error + u32" where
  "expired_broadcasted_denomination_stage_count db run_id observed_height =
     count_to_u32 (count_stages db (\<lambda>r. sr_run_id r = run_id \<and> sr_status r = ''broadcasted''
       \<and> sr_expiry_height r > 0 \<and> sr_expiry_height r \<le> observed_height))"

definition row_broadcast_key :: "stage_row \<Rightarrow> u32 \<times> u32" where
  "row_broadcast_key r =
     (max (sr_scheduled_height r) (unwrap_or 0 (sr_broadcast_not_before_height r)), sr_stage_index r)"

definition pending_of_row ::
    "'n payload_cipher \<Rightarrow> byte list \<Rightarrow> byte list \<Rightarrow> stage_row \<Rightarrow>
     stage_error + pending_raw_denomination_stage" where
  "pending_of_row cipher password salt r =
     rbind (ok_or DecryptFailed
              (Option.bind (sr_encrypted_raw_tx r) (\<lambda>c. decrypt_payload cipher c password salt)))
       (\<lambda>raw_tx.
     Inr \<lparr>pr_stage_index = sr_stage_index r, pr_expected_txid_hex = sr_expected_txid_hex r,
          pr_raw_tx = raw_tx, pr_target_height = sr_target_height r,
          pr_scheduled_height = sr_scheduled_height r,
          pr_broadcast_not_before_height = sr_broadcast_not_before_height r,
          pr_expiry_height = sr_expiry_height r, pr_fee_zatoshi = sr_fee_zatoshi r\<rparr>)"

definition pending_raw_denomination_stages ::
    "'n payload_cipher \<Rightarrow> stage_db \<Rightarrow> string \<Rightarrow> byte list \<Rightarrow> string \<Rightarrow>
     stage_error + pending_raw_denomination_stage list" where
  "pending_raw_denomination_stages cipher db run_id password salt_base64 =
     rbind (ok_or SaltInvalid (decode_salt cipher salt_base64)) (\<lambda>salt.
     collect_results (pending_of_row cipher password salt)
       (sort_key row_broadcast_key
          (filter (\<lambda>r. sr_run_id r = run_id \<and> sr_status r = ''pending''
                       \<and> sr_encrypted_raw_tx r \<noteq> None) (db_stages db))))"

definition denomination_stage_expected_txids :: "stage_db \<Rightarrow> string \<Rightarrow> string list" where
  "denomination_stage_expected_txids db run_id = map sr_expected_txid_hex (run_stages db run_id)"

definition chain_record_of_row :: "stage_db \<Rightarrow> string \<Rightarrow> stage_row \<Rightarrow> stage_error + stage_chain_record" where
  "chain_record_of_row db run_id r =
     rbind (case (sr_confirmed_mined_height r, sr_confirmed_block_hash r) of
              (None, None) \<Rightarrow> Inr ()
            | (Some _, Some hash) \<Rightarrow>
                if length hash = 32 then Inr () else Inl (MalformedInclusion (sr_expected_txid_hex r))
            | _ \<Rightarrow> Inl (MalformedInclusion (sr_expected_txid_hex r))) (\<lambda>_.
     rbind (stage_status_parse (sr_status r)) (\<lambda>status.
     rbind (stage_outputs db run_id (sr_stage_index r)) (\<lambda>outs.
     Inr \<lparr>cr_stage_index = sr_stage_index r, cr_expected_txid_hex = sr_expected_txid_hex r,
          cr_status = status, cr_confirmed_mined_height = sr_confirmed_mined_height r,
          cr_confirmed_block_hash = sr_confirmed_block_hash r,
          cr_parent_txids =
            map (\<lambda>i. to_ascii_lowercase (in_txid_hex i)) (stage_inputs db run_id (sr_stage_index r)),
          cr_outputs = outs\<rparr>)))"

definition denomination_stage_chain_records ::
    "stage_db \<Rightarrow> string \<Rightarrow> stage_error + stage_chain_record list" where
  "denomination_stage_chain_records db run_id =
     collect_results (chain_record_of_row db run_id) (run_stages db run_id)"

definition denomination_stage_status_counts ::
    "stage_db \<Rightarrow> string \<Rightarrow> stage_error + stage_status_counts" where
  "denomination_stage_status_counts db run_id =
     (let in_state = (\<lambda>st. count_stages db (\<lambda>r. sr_run_id r = run_id \<and> sr_status r = st)) in
      rbind (count_to_u32 (in_state ''awaiting_inputs'')) (\<lambda>a.
      rbind (count_to_u32 (in_state ''pending'')) (\<lambda>p.
      rbind (count_to_u32 (in_state ''broadcasted'')) (\<lambda>b.
      rbind (count_to_u32 (in_state ''confirmed'')) (\<lambda>c.
      rbind (count_to_u32 (count_stages db (\<lambda>r. sr_run_id r = run_id))) (\<lambda>t.
      Inr \<lparr>awaiting_inputs_count = a, pending_count = p, broadcasted_count = b,
           confirmed_count = c, total_count = t\<rparr>))))))"

text \<open>
  The locked outpoints. This query also runs on wallets that have no stage tables: each table is
  optional here.
\<close>

definition locked_denomination_stage_input_outpoints ::
    "input_row list option \<Rightarrow> stage_row list option \<Rightarrow> string \<Rightarrow> (string \<times> u32) set" where
  "locked_denomination_stage_input_outpoints inputs_table stages_table run_id =
     (case (inputs_table, stages_table) of
        (Some is, Some ss) \<Rightarrow>
          set (concat (map (\<lambda>i.
            map (\<lambda>s. (to_ascii_lowercase (ir_txid_hex i), ir_output_index i))
              (filter (\<lambda>s. sr_run_id s = ir_run_id i \<and> sr_stage_index s = ir_stage_index i
                           \<and> ir_run_id i = run_id \<and> sr_status s \<noteq> ''confirmed'') ss)) is))
      | _ \<Rightarrow> {})"

section \<open>Updates\<close>

text \<open>A block hash, \<open>[u8; 32]\<close>.\<close>

typedef hash32 = "{bytes :: byte list. length bytes = 32}"
  morphisms hash_bytes Hash32
  by (rule exI [of _ "replicate 32 0"]) simp

definition promote_row :: "string \<Rightarrow> stage_row \<Rightarrow> stage_row" where
  "promote_row encrypted_raw_tx r =
     r\<lparr>sr_encrypted_raw_tx := Some encrypted_raw_tx, sr_status := ''pending''\<rparr>"

definition promote_awaiting_denomination_stage ::
    "'n payload_cipher \<Rightarrow> stage_db \<Rightarrow> string \<Rightarrow> u32 \<Rightarrow> string \<Rightarrow> byte list \<Rightarrow> byte list \<Rightarrow> string \<Rightarrow>
     'n \<Rightarrow> (stage_error + unit) \<times> stage_db \<times> 'n" where
  "promote_awaiting_denomination_stage cipher db run_id stage_index expected_txid_hex raw_tx
       password salt_base64 n =
     (case validate_txid_hex expected_txid_hex of
        Inl e \<Rightarrow> (Inl e, db, n)
      | Inr _ \<Rightarrow>
          if raw_tx = [] then (Inl RawTransactionEmpty, db, n)
          else (case decode_salt cipher salt_base64 of
             None \<Rightarrow> (Inl SaltInvalid, db, n)
           | Some salt \<Rightarrow>
               (case encrypt_payload cipher raw_tx password salt n of
                  None \<Rightarrow> (Inl EncryptFailed, db, n)
                | Some (encrypted_raw_tx, n') \<Rightarrow>
                    (case sql_update_stages
                            (\<lambda>r. sr_run_id r = run_id \<and> sr_stage_index r = stage_index
                                 \<and> sr_expected_txid_hex r = to_ascii_lowercase expected_txid_hex
                                 \<and> sr_status r = ''awaiting_inputs'' \<and> sr_encrypted_raw_tx r = None)
                            (promote_row encrypted_raw_tx) db of
                       (Inl e, db') \<Rightarrow> (Inl e, db', n')
                     | (Inr updated, db') \<Rightarrow>
                         ((if updated = 1 then Inr () else Inl (NotAwaitingInputs stage_index)),
                          db', n')))))"

definition find_stage :: "stage_db \<Rightarrow> string \<Rightarrow> string \<Rightarrow> stage_row option" where
  "find_stage db run_id txid =
     find (\<lambda>r. sr_run_id r = run_id \<and> sr_expected_txid_hex r = txid) (db_stages db)"

definition set_status :: "denomination_stage_status \<Rightarrow> stage_row \<Rightarrow> stage_row" where
  "set_status target r = r\<lparr>sr_status := stage_status_as_str target\<rparr>"

definition transition_stage ::
    "stage_db \<Rightarrow> string \<Rightarrow> string \<Rightarrow> denomination_stage_status \<Rightarrow> (stage_error + unit) \<times> stage_db" where
  "transition_stage db run_id expected_txid_hex target =
     (case validate_txid_hex expected_txid_hex of
        Inl e \<Rightarrow> (Inl e, db)
      | Inr _ \<Rightarrow>
          let txid = to_ascii_lowercase expected_txid_hex in
          if target \<noteq> Broadcasted then (Inl (UnsupportedTarget target), db)
          else (case sql_update_stages
                       (\<lambda>r. sr_run_id r = run_id \<and> sr_expected_txid_hex r = txid
                            \<and> sr_status r = ''pending'') (set_status target) db of
             (Inl e, db') \<Rightarrow> (Inl e, db')
           | (Inr updated, db') \<Rightarrow>
               if updated = 1 then (Inr (), db')
               else (case find_stage db' run_id txid of
                  None \<Rightarrow> (Inl (StageNotFound txid), db')
                | Some r \<Rightarrow>
                    (rbind (stage_status_parse (sr_status r)) (\<lambda>current.
                       if current = target \<or> target = Broadcasted \<and> current = Confirmed then Inr ()
                       else Inl (CannotMove current target)), db'))))"

definition mark_denomination_stage_broadcasted ::
    "stage_db \<Rightarrow> string \<Rightarrow> string \<Rightarrow> (stage_error + unit) \<times> stage_db" where
  "mark_denomination_stage_broadcasted db run_id expected_txid_hex =
     transition_stage db run_id expected_txid_hex Broadcasted"

definition confirm_row :: "u32 \<Rightarrow> byte list \<Rightarrow> stage_row \<Rightarrow> stage_row" where
  "confirm_row mined_height block_hash r =
     r\<lparr>sr_confirmed_mined_height := Some mined_height, sr_confirmed_block_hash := Some block_hash,
       sr_status := ''confirmed''\<rparr>"

definition mark_denomination_stage_confirmed_at ::
    "stage_db \<Rightarrow> string \<Rightarrow> string \<Rightarrow> u32 \<Rightarrow> hash32 \<Rightarrow> (stage_error + unit) \<times> stage_db" where
  "mark_denomination_stage_confirmed_at db run_id expected_txid_hex mined_height block_hash =
     (case validate_txid_hex expected_txid_hex of
        Inl e \<Rightarrow> (Inl e, db)
      | Inr _ \<Rightarrow>
          let txid = to_ascii_lowercase expected_txid_hex in
          (case sql_update_stages
                  (\<lambda>r. sr_run_id r = run_id \<and> sr_expected_txid_hex r = txid
                       \<and> sr_status r \<in> {''pending'', ''broadcasted''})
                  (confirm_row mined_height (hash_bytes block_hash)) db of
             (Inl e, db') \<Rightarrow> (Inl e, db')
           | (Inr updated, db') \<Rightarrow>
               if updated = 1 then (Inr (), db')
               else (case find_stage db' run_id txid of
                  None \<Rightarrow> (Inl (StageNotFound txid), db')
                | Some r \<Rightarrow>
                    (rbind (stage_status_parse (sr_status r)) (\<lambda>current.
                       if current \<noteq> Confirmed then Inl (CannotMove current Confirmed)
                       else if sr_confirmed_mined_height r = Some mined_height
                               \<and> sr_confirmed_block_hash r = Some (hash_bytes block_hash) then Inr ()
                       else Inl (DifferentInclusion txid)), db'))))"

definition replace_denomination_stage_confirmation_identity ::
    "stage_db \<Rightarrow> string \<Rightarrow> string \<Rightarrow> u32 \<Rightarrow> hash32 \<Rightarrow> (stage_error + unit) \<times> stage_db" where
  "replace_denomination_stage_confirmation_identity db run_id expected_txid_hex mined_height
       block_hash =
     (case validate_txid_hex expected_txid_hex of
        Inl e \<Rightarrow> (Inl e, db)
      | Inr _ \<Rightarrow>
          (case sql_update_stages
                  (\<lambda>r. sr_run_id r = run_id
                       \<and> sr_expected_txid_hex r = to_ascii_lowercase expected_txid_hex
                       \<and> sr_status r \<in> {''awaiting_inputs'', ''pending'', ''broadcasted'', ''confirmed''})
                  (confirm_row mined_height (hash_bytes block_hash)) db of
             (Inl e, db') \<Rightarrow> (Inl e, db')
           | (Inr updated, db') \<Rightarrow>
               ((if updated = 1 then Inr () else Inl (CannotRecordInclusion expected_txid_hex)),
                db')))"

definition reset_row :: "stage_row \<Rightarrow> stage_row" where
  "reset_row r =
     r\<lparr>sr_encrypted_raw_tx := None, sr_confirmed_mined_height := None,
       sr_confirmed_block_hash := None, sr_status := ''awaiting_inputs''\<rparr>"

definition reset_denomination_stage_exact ::
    "stage_db \<Rightarrow> string \<Rightarrow> string \<Rightarrow> (stage_error + unit) \<times> stage_db" where
  "reset_denomination_stage_exact db run_id expected_txid_hex =
     (case validate_txid_hex expected_txid_hex of
        Inl e \<Rightarrow> (Inl e, db)
      | Inr _ \<Rightarrow>
          (case sql_update_stages
                  (\<lambda>r. sr_run_id r = run_id
                       \<and> sr_expected_txid_hex r = to_ascii_lowercase expected_txid_hex)
                  reset_row db of
             (Inl e, db') \<Rightarrow> (Inl e, db')
           | (Inr updated, db') \<Rightarrow>
               ((if updated = 1 then Inr () else Inl (StageNotFound expected_txid_hex)), db')))"

end
