(* ===== verification/Stage_Updates.thy ===== *)
theory Stage_Updates
  imports Stage_Store
begin

text \<open>
  The invariant of the stage tables, and the contract of a guarded update as a locale: an update
  that keeps the key and the recovery material of a row and respects the table's \<open>CHECK\<close> clauses.
  Every update of the store is an interpretation of it.
\<close>

section \<open>The invariant of the tables\<close>

definition stage_key :: "stage_row \<Rightarrow> string \<times> u32" where
  "stage_key r = (sr_run_id r, sr_stage_index r)"

definition stage_txid :: "stage_row \<Rightarrow> string \<times> string" where
  "stage_txid r = (sr_run_id r, sr_expected_txid_hex r)"

text \<open>What a reorg recovery needs: the signed transaction data and the terms that were signed.\<close>

definition stage_material :: "stage_row \<Rightarrow> string \<times> string \<times> u32 \<times> u32 \<times> u32 \<times> u64" where
  "stage_material r =
     (sr_encrypted_base_pczt r, sr_encrypted_compact_sigs r, sr_target_height r,
      sr_scheduled_height r, sr_expiry_height r, sr_fee_zatoshi r)"

definition same_stage :: "stage_row \<Rightarrow> stage_row \<Rightarrow> bool" where
  "same_stage r r' \<longleftrightarrow> stage_key r' = stage_key r \<and> stage_txid r' = stage_txid r
     \<and> stage_material r' = stage_material r"

text \<open>Transaction ids are 32 bytes of lower-case hex.\<close>

definition txid_normal :: "string \<Rightarrow> bool" where
  "txid_normal t \<longleftrightarrow> validate_txid_hex t = Inr () \<and> to_ascii_lowercase t = t"

definition stages_ok :: "stage_row list \<Rightarrow> bool" where
  "stages_ok ss \<longleftrightarrow> (\<forall>r \<in> set ss. stage_row_check r \<and> txid_normal (sr_expected_txid_hex r))
     \<and> distinct (map stage_key ss) \<and> distinct (map stage_txid ss)"

definition inputs_ok :: "input_row list \<Rightarrow> bool" where
  "inputs_ok is \<longleftrightarrow> distinct (map (\<lambda>i. (ir_run_id i, ir_stage_index i, ir_input_order i)) is)
     \<and> distinct (map (\<lambda>i. (ir_run_id i, ir_txid_hex i, ir_output_index i)) is)"

definition outputs_ok :: "output_row list \<Rightarrow> bool" where
  "outputs_ok os \<longleftrightarrow> (\<forall>r \<in> set os. output_row_check r)
     \<and> distinct (map (\<lambda>r. (or_run_id r, or_stage_index r, or_output_order r)) os)
     \<and> distinct (map (\<lambda>r. (or_run_id r, or_stage_index r, or_output_index r)) os)"

text \<open>The clauses of the schema: checks, keys, uniqueness, and the two foreign keys, with the normal
  form of the transaction ids.\<close>

definition db_ok :: "stage_db \<Rightarrow> bool" where
  "db_ok db \<longleftrightarrow> stages_ok (db_stages db) \<and> inputs_ok (db_inputs db) \<and> outputs_ok (db_outputs db)
     \<and> (\<forall>i \<in> set (db_inputs db). (ir_run_id i, ir_stage_index i) \<in> stage_key ` set (db_stages db))
     \<and> (\<forall>i \<in> set (db_outputs db). (or_run_id i, or_stage_index i) \<in> stage_key ` set (db_stages db))"

definition empty_db :: stage_db where
  "empty_db = \<lparr>db_stages = [], db_inputs = [], db_outputs = []\<rparr>"

lemma empty_db_ok [simp]: "db_ok empty_db"
  by (simp add: db_ok_def empty_db_def stages_ok_def inputs_ok_def outputs_ok_def)

text \<open>What survives every later operation: rows stay, with key, transaction and material.\<close>

definition db_keeps :: "stage_db \<Rightarrow> stage_db \<Rightarrow> bool" where
  "db_keeps db db' \<longleftrightarrow>
     length (db_stages db) \<le> length (db_stages db')
     \<and> list_all2 same_stage (db_stages db) (take (length (db_stages db)) (db_stages db'))
     \<and> (\<exists>is. db_inputs db' = db_inputs db @ is) \<and> (\<exists>os. db_outputs db' = db_outputs db @ os)"

section \<open>The contract of an update\<close>

locale guarded_update =
  fixes P :: "stage_row \<Rightarrow> bool" and f :: "stage_row \<Rightarrow> stage_row"
  assumes same: "same_stage r (f r)"
    and check: "P r \<Longrightarrow> stage_row_check r \<Longrightarrow> stage_row_check (f r)"
begin

lemma key [simp]: "stage_key (f r) = stage_key r" and txid [simp]: "stage_txid (f r) = stage_txid r"
  using same [of r] by (simp_all add: same_stage_def)

lemma expected_txid: "sr_expected_txid_hex (f r) = sr_expected_txid_hex r"
  using txid [of r] by (simp add: stage_txid_def del: txid)

text \<open>No \<open>CHECK\<close> clause can stop the update of a table that is in order.\<close>

lemma update_eq:
  assumes "db_ok db"
  shows "sql_update_stages P f db =
     (Inr (length (filter P (db_stages db))),
      db\<lparr>db_stages := map (\<lambda>r. if P r then f r else r) (db_stages db)\<rparr>)"
  using assms check
  by (auto simp: sql_update_stages_def list_all_iff db_ok_def stages_ok_def)

lemma update_ok:
  assumes "db_ok db"
  shows "db_ok (snd (sql_update_stages P f db))"
proof -
  let ?u = "\<lambda>r. if P r then f r else r"
  have u: "(\<lambda>r. stage_key (?u r)) = stage_key" "(\<lambda>r. stage_txid (?u r)) = stage_txid"
    by (rule ext, simp)+
  then have k: "map stage_key (map ?u ss) = map stage_key ss"
    and t: "map stage_txid (map ?u ss) = map stage_txid ss" for ss by (simp_all add: comp_def)
  have "stage_key ` ?u ` A = stage_key ` A" for A by (simp only: image_image u)
  moreover have "stages_ok (map ?u (db_stages db))"
    unfolding stages_ok_def k t using assms check by (auto simp: stages_ok_def db_ok_def expected_txid)
  ultimately show ?thesis
    using assms by (simp add: update_eq [OF assms] db_ok_def)
qed

lemma update_keeps: "db_keeps db (snd (sql_update_stages P f db))"
proof -
  have "same_stage r r" for r by (simp add: same_stage_def)
  then show ?thesis
    using same by (auto simp: sql_update_stages_def db_keeps_def list_all2_conv_all_nth)
qed

end

section \<open>Updates of one stage\<close>

lemma find_map_same: "(\<And>x. Q (u x) = Q x) \<Longrightarrow> find Q (map u xs) = map_option u (find Q xs)"
  by (induction xs) simp_all

lemma find_stage_Some:
  "find_stage db rid txid = Some r \<Longrightarrow>
     r \<in> set (db_stages db) \<and> sr_run_id r = rid \<and> sr_expected_txid_hex r = txid"
  by (auto simp: find_stage_def find_Some_iff)

lemma find_stage_None:
  "find_stage db rid txid = None \<longleftrightarrow>
     (\<forall>r \<in> set (db_stages db). \<not> (sr_run_id r = rid \<and> sr_expected_txid_hex r = txid))"
  by (auto simp: find_stage_def find_None_iff)

lemma keyed_count:
  assumes "distinct (map stage_txid ss)" and "r \<in> set ss" and "stage_txid r = (rid, txid)"
  shows "length (filter (\<lambda>r. sr_run_id r = rid \<and> sr_expected_txid_hex r = txid \<and> G r) ss) =
     (if G r then 1 else 0)"
  using assms
proof (induction ss)
  case (Cons s ss)
  show ?case
  proof (cases "s = r")
    case True
    with Cons.prems have "filter (\<lambda>r. sr_run_id r = rid \<and> sr_expected_txid_hex r = txid \<and> G r) ss = []"
      by (force simp: stage_txid_def filter_empty_conv image_iff)
    then show ?thesis using True Cons.prems(3) by (simp add: stage_txid_def)
  next
    case False
    with Cons.prems have "r \<in> set ss" by simp
    moreover from this have "stage_txid s \<noteq> stage_txid r" using Cons.prems(1) by force
    ultimately show ?thesis using Cons by (auto simp: stage_txid_def)
  qed
qed simp

text \<open>The state of a stage, less its encrypted columns.\<close>

datatype stage_state = SAwaiting | SPending | SBroadcasted | SConfirmed u32 "byte list"

definition row_state :: "stage_row \<Rightarrow> stage_state" where
  "row_state r =
     (if sr_status r = ''awaiting_inputs'' then SAwaiting
      else if sr_status r = ''pending'' then SPending
      else if sr_status r = ''broadcasted'' then SBroadcasted
      else SConfirmed (unwrap_or 0 (sr_confirmed_mined_height r)) (unwrap_or [] (sr_confirmed_block_hash r)))"

type_synonym stage_view = "string \<times> string \<Rightarrow> (u32 \<times> stage_state) option"

definition row_view :: "stage_row \<Rightarrow> u32 \<times> stage_state" where
  "row_view r = (sr_stage_index r, row_state r)"

definition view :: "stage_db \<Rightarrow> stage_view" where
  "view db = (\<lambda>(rid, txid). map_option row_view (find_stage db rid txid))"

text \<open>An update that names the run and the transaction of one stage, under a guard on its row.\<close>

locale keyed_update =
  fixes rid txid :: string and G :: "stage_row \<Rightarrow> bool" and f :: "stage_row \<Rightarrow> stage_row"
  assumes keyed_same: "same_stage r (f r)"
    and keyed_check: "G r \<Longrightarrow> stage_row_check r \<Longrightarrow> stage_row_check (f r)"

sublocale keyed_update \<subseteq> guarded_update
  "\<lambda>r. sr_run_id r = rid \<and> sr_expected_txid_hex r = txid \<and> G r" f
  by unfold_locales (auto simp: keyed_same intro: keyed_check)

context keyed_update begin

abbreviation upd :: "stage_db \<Rightarrow> (stage_error + nat) \<times> stage_db" where
  "upd \<equiv> sql_update_stages (\<lambda>r. sr_run_id r = rid \<and> sr_expected_txid_hex r = txid \<and> G r) f"

lemma hit:
  assumes ok: "db_ok db" and r: "find_stage db rid txid = Some r" "G r"
  shows "\<exists>db'. upd db = (Inr 1, db') \<and> view db' = (view db)((rid, txid) \<mapsto> row_view (f r))
     \<and> find_stage db' rid txid = Some (f r)"
proof -
  let ?u = "\<lambda>r. if sr_run_id r = rid \<and> sr_expected_txid_hex r = txid \<and> G r then f r else r"
  let ?db = "db\<lparr>db_stages := map ?u (db_stages db)\<rparr>"
  have k: "sr_run_id (f q) = sr_run_id q" "sr_expected_txid_hex (f q) = sr_expected_txid_hex q" for q
    using keyed_same [of q] by (simp_all add: same_stage_def stage_txid_def)
  have find: "find_stage ?db a b = map_option ?u (find_stage db a b)" for a b
    unfolding find_stage_def by (simp add: find_map_same k)
  have "view ?db (a, b) = ((view db)((rid, txid) \<mapsto> row_view (f r))) (a, b)" for a b
  proof (cases "find_stage db a b")
    case None
    then show ?thesis using r by (auto simp: view_def find)
  next
    case (Some q)
    then show ?thesis using r find_stage_Some [OF Some] by (auto simp: view_def find)
  qed
  moreover have "find_stage ?db rid txid = Some (f r)"
    using r find_stage_Some [OF r(1)] by (simp add: find)
  moreover have "upd db = (Inr 1, ?db)"
    using update_eq [OF ok] keyed_count [of "db_stages db" r rid txid G] ok r find_stage_Some [OF r(1)]
    by (simp add: db_ok_def stages_ok_def stage_txid_def)
  ultimately show ?thesis by fast
qed

lemma miss:
  assumes "\<And>r. find_stage db rid txid = Some r \<Longrightarrow> \<not> G r" and "db_ok db"
  shows "upd db = (Inr 0, db)"
proof -
  have "\<not> (sr_run_id r = rid \<and> sr_expected_txid_hex r = txid \<and> G r)" if "r \<in> set (db_stages db)" for r
  proof (cases "find_stage db rid txid")
    case None
    then show ?thesis using that by (auto simp: find_stage_None)
  next
    case (Some q)
    note q = find_stage_Some [OF Some]
    have "sr_run_id r = rid \<and> sr_expected_txid_hex r = txid \<longrightarrow> r = q"
    proof
      assume "sr_run_id r = rid \<and> sr_expected_txid_hex r = txid"
      then have "stage_txid r = stage_txid q" using q by (simp add: stage_txid_def)
      moreover have "inj_on stage_txid (set (db_stages db))"
        using assms(2) by (simp add: db_ok_def stages_ok_def distinct_map)
      ultimately show "r = q" using that q by (meson inj_onD)
    qed
    then show ?thesis using assms(1) [OF Some] by auto
  qed
  then have "map (\<lambda>r. if sr_run_id r = rid \<and> sr_expected_txid_hex r = txid \<and> G r then f r else r)
      (db_stages db) = db_stages db" and "filter (\<lambda>r. sr_run_id r = rid
      \<and> sr_expected_txid_hex r = txid \<and> G r) (db_stages db) = []"
    by (auto intro!: map_idI simp: filter_empty_conv)
  then show ?thesis by (simp add: update_eq [OF assms(2)])
qed

end

end
