(* ===== verification/Stage_Steps.thy ===== *)
theory Stage_Steps
  imports Stage_Updates
begin

text \<open>
  The store as a state machine: every operation that changes the stage tables is a step, the
  reachable stores are those that a run of steps makes of the empty tables. Each update is an
  interpretation of the contract of Stage_Updates. The statements of \<open>migration.rs\<close> that touch these
  tables are here too: the markers of a broadcast attempt, the catch-up height and the cleanup of a
  stopped run.
\<close>

section \<open>Updates of the stage tables outside the store\<close>

definition set_attempted :: "nat \<Rightarrow> stage_row \<Rightarrow> stage_row" where
  "set_attempted v r = r\<lparr>sr_broadcast_attempted := v\<rparr>"

datatype attempt_error = NoLongerPending string | AttemptSql stage_error

definition mark_denomination_broadcast_attempted ::
    "stage_db \<Rightarrow> string \<Rightarrow> string \<Rightarrow> (attempt_error + unit) \<times> stage_db" where
  "mark_denomination_broadcast_attempted db run_id txid_hex =
     (case sql_update_stages
             (\<lambda>r. sr_run_id r = run_id \<and> sr_expected_txid_hex r = txid_hex
                  \<and> sr_status r = ''pending'') (set_attempted 1) db of
        (Inl e, db') \<Rightarrow> (Inl (AttemptSql e), db')
      | (Inr updated, db') \<Rightarrow>
          ((if updated = 1 then Inr () else Inl (NoLongerPending txid_hex)), db'))"

definition clear_denomination_broadcast_attempted ::
    "stage_db \<Rightarrow> string \<Rightarrow> string \<Rightarrow> (attempt_error + unit) \<times> stage_db" where
  "clear_denomination_broadcast_attempted db run_id txid_hex =
     (case sql_update_stages
             (\<lambda>r. sr_run_id r = run_id \<and> sr_expected_txid_hex r = txid_hex
                  \<and> sr_status r = ''pending'') (set_attempted 0) db of
        (Inl e, db') \<Rightarrow> (Inl (AttemptSql e), db')
      | (Inr updated, db') \<Rightarrow> (Inr (), db'))"

text \<open>The statement of the catch-up loop: the operational height of one remaining stage.\<close>

definition set_not_before :: "u32 \<Rightarrow> stage_row \<Rightarrow> stage_row" where
  "set_not_before h r = r\<lparr>sr_broadcast_not_before_height := Some h\<rparr>"

definition reschedule_stage :: "string \<Rightarrow> u32 \<Rightarrow> u32 \<Rightarrow> stage_db \<Rightarrow> (stage_error + nat) \<times> stage_db" where
  "reschedule_stage run_id stage_index height =
     sql_update_stages
       (\<lambda>r. sr_run_id r = run_id \<and> sr_stage_index r = stage_index
            \<and> sr_status r \<in> {''awaiting_inputs'', ''pending''}) (set_not_before height)"

text \<open>The cleanup of a stopped run: inputs and outputs of the stages that were never submitted first.\<close>

definition unsubmitted_stage :: "stage_db \<Rightarrow> string \<Rightarrow> u32 \<Rightarrow> bool" where
  "unsubmitted_stage db run_id stage_index \<longleftrightarrow>
     list_ex (\<lambda>r. sr_run_id r = run_id \<and> sr_stage_index r = stage_index
                  \<and> sr_status r \<in> {''awaiting_inputs'', ''pending''}) (db_stages db)"

definition discard_unsubmitted_preparation_stages :: "stage_db \<Rightarrow> string \<Rightarrow> stage_db" where
  "discard_unsubmitted_preparation_stages db run_id =
     (let db1 = db\<lparr>db_inputs := filter (\<lambda>i. \<not> (ir_run_id i = run_id
                     \<and> unsubmitted_stage db run_id (ir_stage_index i))) (db_inputs db)\<rparr>;
          db2 = db1\<lparr>db_outputs := filter (\<lambda>i. \<not> (or_run_id i = run_id
                      \<and> unsubmitted_stage db1 run_id (or_stage_index i))) (db_outputs db1)\<rparr>
      in db2\<lparr>db_stages := filter (\<lambda>r. \<not> (sr_run_id r = run_id
               \<and> sr_status r \<in> {''awaiting_inputs'', ''pending''})) (db_stages db2)\<rparr>)"

section \<open>Every update keeps the contract\<close>

lemmas row_ops = promote_row_def set_status_def confirm_row_def reset_row_def set_attempted_def
  set_not_before_def

lemmas row_laws = row_ops same_stage_def stage_key_def stage_txid_def stage_material_def
  stage_row_check_def

lemma length_hash_bytes [simp]: "length (hash_bytes h) = 32"
  using hash_bytes [of h] by simp

interpretation promoting: keyed_update rid txid
  "\<lambda>r. sr_stage_index r = idx \<and> sr_status r = ''awaiting_inputs'' \<and> sr_encrypted_raw_tx r = None"
  "promote_row c" for rid txid idx c
  by unfold_locales (auto simp: row_laws)

interpretation broadcasting: keyed_update rid txid "\<lambda>r. sr_status r = ''pending''"
  "set_status Broadcasted" for rid txid
  by unfold_locales (auto simp: row_laws)

interpretation confirming: keyed_update rid txid
  "\<lambda>r. sr_status r \<in> {''pending'', ''broadcasted''}" "confirm_row h (hash_bytes b)" for rid txid h b
  by unfold_locales (auto simp: row_laws)

interpretation replacing: keyed_update rid txid
  "\<lambda>r. sr_status r \<in> {''awaiting_inputs'', ''pending'', ''broadcasted'', ''confirmed''}"
  "confirm_row h (hash_bytes b)" for rid txid h b
  by unfold_locales (auto simp: row_laws)

interpretation resetting: keyed_update rid txid "\<lambda>r. True" reset_row for rid txid
  by unfold_locales (auto simp: row_laws)

interpretation attempting: keyed_update rid txid "\<lambda>r. sr_status r = ''pending''"
  "set_attempted v" for rid txid v
  by unfold_locales (auto simp: row_laws)

interpretation rescheduling: guarded_update
  "\<lambda>r. sr_run_id r = rid \<and> sr_stage_index r = idx \<and> sr_status r \<in> {''awaiting_inputs'', ''pending''}"
  "set_not_before h" for rid idx h
  by unfold_locales (auto simp: row_laws)

section \<open>What an operation does to the tables\<close>

lemma promote_pred:
  "(\<lambda>r. sr_run_id r = rid \<and> sr_stage_index r = idx \<and> sr_expected_txid_hex r = txid
        \<and> sr_status r = st \<and> sr_encrypted_raw_tx r = None) =
   (\<lambda>r. sr_run_id r = rid \<and> sr_expected_txid_hex r = txid
        \<and> (sr_stage_index r = idx \<and> sr_status r = st \<and> sr_encrypted_raw_tx r = None))"
  by auto

definition updates_by :: "(stage_db \<Rightarrow> (stage_error + nat) \<times> stage_db) \<Rightarrow> stage_db \<Rightarrow> stage_db \<Rightarrow> bool" where
  "updates_by u db db' \<longleftrightarrow> db' = db \<or> db' = snd (u db)"

lemma promote_db:
  "\<exists>c. updates_by (promoting.upd run_id (to_ascii_lowercase expected_txid_hex) stage_index c) db
     (fst (snd (promote_awaiting_denomination_stage cipher db run_id stage_index expected_txid_hex
        raw_tx password salt_base64 n)))"
  by (auto simp: promote_awaiting_denomination_stage_def updates_by_def promote_pred
      split: sum.splits option.splits prod.splits) (drule arg_cong [where f = snd], force)+

lemma broadcast_db:
  "updates_by (broadcasting.upd run_id (to_ascii_lowercase expected_txid_hex)) db
     (snd (mark_denomination_stage_broadcasted db run_id expected_txid_hex))"
  by (auto simp: mark_denomination_stage_broadcasted_def transition_stage_def updates_by_def Let_def
      split: sum.splits option.splits prod.splits)

lemma confirm_db:
  "updates_by (confirming.upd run_id (to_ascii_lowercase expected_txid_hex) h b) db
     (snd (mark_denomination_stage_confirmed_at db run_id expected_txid_hex h b))"
  by (auto simp: mark_denomination_stage_confirmed_at_def updates_by_def Let_def
      split: sum.splits option.splits prod.splits)

lemma replace_db:
  "updates_by (replacing.upd run_id (to_ascii_lowercase expected_txid_hex) h b) db
     (snd (replace_denomination_stage_confirmation_identity db run_id expected_txid_hex h b))"
  by (auto simp: replace_denomination_stage_confirmation_identity_def updates_by_def
      split: sum.splits option.splits prod.splits)

lemma reset_db:
  "updates_by (resetting.upd run_id (to_ascii_lowercase expected_txid_hex)) db
     (snd (reset_denomination_stage_exact db run_id expected_txid_hex))"
  by (auto simp: reset_denomination_stage_exact_def updates_by_def
      split: sum.splits option.splits prod.splits)

text \<open>The relation of the tables before and after is reflexive and composes.\<close>

lemma same_stage_refl [simp]: "same_stage r r"
  by (simp add: same_stage_def)

lemma same_stage_trans: "same_stage a b \<Longrightarrow> same_stage b c \<Longrightarrow> same_stage a c"
  by (simp add: same_stage_def)

lemma db_keeps_iff:
  "db_keeps db db' \<longleftrightarrow>
     length (db_stages db) \<le> length (db_stages db')
     \<and> (\<forall>i < length (db_stages db). same_stage (db_stages db ! i) (db_stages db' ! i))
     \<and> (\<exists>is. db_inputs db' = db_inputs db @ is) \<and> (\<exists>os. db_outputs db' = db_outputs db @ os)"
  by (auto simp: db_keeps_def list_all2_conv_all_nth)

lemma db_keeps_refl [simp]: "db_keeps db db"
  by (simp add: db_keeps_iff)

lemma db_keeps_trans:
  assumes "db_keeps a b" and "db_keeps b c"
  shows "db_keeps a c"
proof -
  have "same_stage (db_stages a ! i) (db_stages c ! i)" if "i < length (db_stages a)" for i
    using assms that unfolding db_keeps_iff by (meson less_le_trans same_stage_trans)
  then show ?thesis using assms unfolding db_keeps_iff by auto
qed

context guarded_update begin

lemma updates_by_ok:
  "updates_by (sql_update_stages P f) db db' \<Longrightarrow> db_ok db \<Longrightarrow> db_ok db'"
  using update_ok by (auto simp: updates_by_def)

lemma updates_by_keeps: "updates_by (sql_update_stages P f) db db' \<Longrightarrow> db_keeps db db'"
  using update_keeps by (auto simp: updates_by_def)

end

section \<open>Insertion keeps the tables in order\<close>

lemma sql_insert_stage_ok:
  assumes "sql_insert_stage r db = Inr db'" and "db_ok db" and "txid_normal (sr_expected_txid_hex r)"
  shows "db_ok db' \<and> db_keeps db db' \<and> stage_key r \<in> stage_key ` set (db_stages db')"
  using assms
  by (auto simp: sql_insert_stage_def list_all_iff db_ok_def stages_ok_def stage_key_def stage_txid_def
      db_keeps_iff nth_append split: if_splits)
    blast+

lemma sql_insert_input_ok:
  assumes "sql_insert_input r db = Inr db'" and "db_ok db"
    and "(ir_run_id r, ir_stage_index r) \<in> stage_key ` set (db_stages db)"
  shows "db_ok db' \<and> db_keeps db db' \<and> db_stages db' = db_stages db"
  using assms
  by (auto simp: sql_insert_input_def list_all_iff db_ok_def inputs_ok_def db_keeps_iff split: if_splits)
    force+

lemma sql_insert_output_ok:
  assumes "sql_insert_output r db = Inr db'" and "db_ok db"
    and "(or_run_id r, or_stage_index r) \<in> stage_key ` set (db_stages db)"
  shows "db_ok db' \<and> db_keeps db db' \<and> db_stages db' = db_stages db"
  using assms
  by (auto simp: sql_insert_output_def list_all_iff db_ok_def outputs_ok_def db_keeps_iff split: if_splits)
    force+

lemma of_char_char_of: "n < 256 \<Longrightarrow> of_char (char_of (n :: nat)) = n"
  by simp

lemma ascii_lower_idem [simp]: "ascii_lower (ascii_lower c) = ascii_lower c"
  by (auto simp: ascii_lower_def Let_def of_char_char_of)

lemma lowercase_idem [simp]: "to_ascii_lowercase (to_ascii_lowercase s) = to_ascii_lowercase s"
  by (simp add: to_ascii_lowercase_def)

lemma hexdigit_lower: "is_ascii_hexdigit c \<Longrightarrow> is_ascii_hexdigit (ascii_lower c)"
  by (auto simp: is_ascii_hexdigit_def ascii_lower_def Let_def of_char_char_of)

lemma txid_normal_lower:
  "validate_txid_hex t = Inr () \<Longrightarrow> txid_normal (to_ascii_lowercase t)"
  by (auto simp: txid_normal_def validate_txid_hex_def validate_hex_32_def to_ascii_lowercase_def
      list_all_iff hexdigit_lower split: if_splits)

lemma batch_txids:
  assumes "validate_stage_batch rid stages = Inr u"
  shows "\<forall>s \<in> set stages. validate_txid_hex (si_expected_txid_hex s) = Inr ()"
proof -
  have "\<forall>s \<in> set stages. validate_txid_hex (si_expected_txid_hex s) = Inr ()"
    if "try_fold validate_stage seen stages = Inr seen'" for seen seen'
    using that
    by (induction stages arbitrary: seen) (auto simp: validate_stage_def Let_def split: prod.splits if_splits)
  then show ?thesis using assms by (auto simp: validate_stage_batch_def split: if_splits)
qed

text \<open>The state while the inputs and outputs of an inserted stage are added.\<close>

definition stage_filled :: "stage_db \<Rightarrow> string \<Rightarrow> u32 \<Rightarrow> stage_db \<Rightarrow> bool" where
  "stage_filled db rid idx db' \<longleftrightarrow>
     db_ok db' \<and> db_keeps db db' \<and> (rid, idx) \<in> stage_key ` set (db_stages db')"

lemma insert_input_filled:
  assumes "insert_input rid idx db1 x = Inr db2" and "stage_filled db rid idx db1"
  shows "stage_filled db rid idx db2"
proof -
  from assms(1) obtain r where r: "sql_insert_input r db1 = Inr db2"
      "ir_run_id r = rid" "ir_stage_index r = idx"
    by (cases x) (auto simp: insert_input_def)
  from sql_insert_input_ok [OF r(1)] assms(2) r show ?thesis
    using db_keeps_trans by (fastforce simp: stage_filled_def)
qed

lemma insert_output_filled:
  assumes "insert_output rid idx db1 x = Inr db2" and "stage_filled db rid idx db1"
  shows "stage_filled db rid idx db2"
proof -
  from assms(1) obtain r where r: "sql_insert_output r db1 = Inr db2"
      "or_run_id r = rid" "or_stage_index r = idx"
    by (cases x) (auto simp: insert_output_def)
  from sql_insert_output_ok [OF r(1)] assms(2) r show ?thesis
    using db_keeps_trans by (fastforce simp: stage_filled_def)
qed

lemma insert_stage_ok:
  assumes "insert_stage cipher rid password salt (db, n) stage = Inr (db', n')" and "db_ok db"
    and "validate_txid_hex (si_expected_txid_hex stage) = Inr ()"
  shows "db_ok db' \<and> db_keeps db db'"
proof -
  from assms(1) obtain r db1 db2 where
    r: "sql_insert_stage r db = Inr db1" "stage_key r = (rid, si_stage_index stage)"
      "sr_expected_txid_hex r = to_ascii_lowercase (si_expected_txid_hex stage)"
    and i: "try_fold (insert_input rid (si_stage_index stage)) db1
        (enumerate 0 (si_inputs stage)) = Inr db2"
    and out: "try_fold (insert_output rid (si_stage_index stage)) db2
        (enumerate 0 (si_outputs stage)) = Inr db'"
    by (auto simp: insert_stage_def stage_key_def split: prod.splits)
  from sql_insert_stage_ok [OF r(1) assms(2)] r(2,3) txid_normal_lower [OF assms(3)]
  have "stage_filled db rid (si_stage_index stage) db1" by (simp add: stage_filled_def)
  with i have "stage_filled db rid (si_stage_index stage) db2"
    by (rule try_fold_invariant) (rule insert_input_filled)
  with out have "stage_filled db rid (si_stage_index stage) db'"
    by (rule try_fold_invariant) (rule insert_output_filled)
  then show ?thesis by (simp add: stage_filled_def)
qed

lemma insert_stages_ok:
  assumes "db_ok db"
  shows "db_ok (fst (snd (insert_denomination_stages_with_tx cipher db rid stages password salt64 n)))
     \<and> db_keeps db (fst (snd (insert_denomination_stages_with_tx cipher db rid stages password salt64 n)))"
proof -
  have "db_ok (fst s') \<and> db_keeps db (fst s')"
    if "try_fold (insert_stage cipher rid password salt) (db, n) stages = Inr s'"
      and valid: "validate_stage_batch rid stages = Inr u" for salt s' u
    using that(1)
  proof (rule try_fold_invariant)
    fix s x s2
    assume "x \<in> set stages" and "db_ok (fst s) \<and> db_keeps db (fst s)"
      and "insert_stage cipher rid password salt s x = Inr s2"
    then show "db_ok (fst s2) \<and> db_keeps db (fst s2)"
      using insert_stage_ok [of cipher rid password salt "fst s" "snd s" x "fst s2" "snd s2"]
        db_keeps_trans batch_txids [OF valid] by auto
  qed (simp add: assms)
  then show ?thesis
    using assms
    by (fastforce simp: insert_denomination_stages_with_tx_def split: sum.splits option.splits)
qed

end
