(* ===== verification/Stage_Properties.thy ===== *)
theory Stage_Properties
  imports Stage_Steps
begin

text \<open>
  What the stage store promises: its tables stay in order and keep what a recovery needs, and the
  guarded updates implement a state machine per stage.
\<close>

section \<open>Steps of the store\<close>

inductive kept_step :: "'n payload_cipher \<Rightarrow> stage_db \<Rightarrow> stage_db \<Rightarrow> bool" for cipher where
  insert_batch: "kept_step cipher db (fst (snd
     (insert_denomination_stages_with_tx cipher db rid stages password salt64 n)))"
| promote: "kept_step cipher db (fst (snd
     (promote_awaiting_denomination_stage cipher db rid idx txid raw_tx password salt64 n)))"
| broadcast: "kept_step cipher db (snd (mark_denomination_stage_broadcasted db rid txid))"
| confirm: "kept_step cipher db (snd (mark_denomination_stage_confirmed_at db rid txid h b))"
| replace: "kept_step cipher db
     (snd (replace_denomination_stage_confirmation_identity db rid txid h b))"
| reset: "kept_step cipher db (snd (reset_denomination_stage_exact db rid txid))"
| attempt: "kept_step cipher db (snd (mark_denomination_broadcast_attempted db rid txid))"
| clear_attempt: "kept_step cipher db (snd (clear_denomination_broadcast_attempted db rid txid))"
| reschedule: "kept_step cipher db (snd (reschedule_stage rid idx h db))"

text \<open>Only the cleanup of a stopped run removes rows.\<close>

inductive store_step :: "'n payload_cipher \<Rightarrow> stage_db \<Rightarrow> stage_db \<Rightarrow> bool" for cipher where
  keep: "kept_step cipher db db' \<Longrightarrow> store_step cipher db db'"
| discard: "store_step cipher db (discard_unsubmitted_preparation_stages db rid)"

inductive_cases store_stepE: "store_step cipher db db'"

lemma attempt_db:
  "snd (mark_denomination_broadcast_attempted db rid txid) = snd (attempting.upd rid txid 1 db)"
  "snd (clear_denomination_broadcast_attempted db rid txid) = snd (attempting.upd rid txid 0 db)"
  by (auto simp: mark_denomination_broadcast_attempted_def clear_denomination_broadcast_attempted_def
      split: sum.splits prod.splits)

lemma kept_step_ok:
  assumes "kept_step cipher db db'" and "db_ok db"
  shows "db_ok db' \<and> db_keeps db db'"
  using assms
proof (induction rule: kept_step.induct)
  case insert_batch
  then show ?case by (rule insert_stages_ok)
next
  case (promote db rid idx txid raw_tx password salt64 n)
  obtain c where u: "updates_by (promoting.upd rid (to_ascii_lowercase txid) idx c) db (fst (snd
      (promote_awaiting_denomination_stage cipher db rid idx txid raw_tx password salt64 n)))"
    by (rule exE [OF promote_db])
  show ?case using promoting.updates_by_ok [OF u promote.prems] promoting.updates_by_keeps [OF u]
    by simp
next
  case (broadcast db rid txid)
  then show ?case
    using broadcasting.updates_by_ok [OF broadcast_db] broadcasting.updates_by_keeps [OF broadcast_db] by blast
next
  case (confirm db rid txid h b)
  then show ?case
    using confirming.updates_by_ok [OF confirm_db] confirming.updates_by_keeps [OF confirm_db] by blast
next
  case (replace db rid txid h b)
  then show ?case
    using replacing.updates_by_ok [OF replace_db] replacing.updates_by_keeps [OF replace_db] by blast
next
  case (reset db rid txid)
  then show ?case
    using resetting.updates_by_ok [OF reset_db] resetting.updates_by_keeps [OF reset_db] by blast
next
  case (attempt db rid txid)
  then show ?case by (simp only: attempt_db attempting.update_ok attempting.update_keeps)
next
  case (clear_attempt db rid txid)
  then show ?case by (simp only: attempt_db attempting.update_ok attempting.update_keeps)
next
  case (reschedule db rid idx h)
  then show ?case
    by (simp only: reschedule_stage_def rescheduling.update_ok rescheduling.update_keeps)
qed

lemma discard_ok:
  assumes "db_ok db"
  shows "db_ok (discard_unsubmitted_preparation_stages db rid)"
proof -
  have stage: "r \<in> set (db_stages (discard_unsubmitted_preparation_stages db rid))"
    if "r \<in> set (db_stages db)" "\<not> (sr_run_id r = rid \<and> unsubmitted_stage db rid (sr_stage_index r))"
    for r
    using that by (auto simp: discard_unsubmitted_preparation_stages_def Let_def
        unsubmitted_stage_def list_ex_iff)
  have un: "unsubmitted_stage (db\<lparr>db_inputs := x\<rparr>) = unsubmitted_stage db" for x
    by (intro ext) (simp add: unsubmitted_stage_def)
  have "(ir_run_id i, ir_stage_index i)
      \<in> stage_key ` set (db_stages (discard_unsubmitted_preparation_stages db rid))"
    if "i \<in> set (db_inputs db)" "\<not> (ir_run_id i = rid \<and> unsubmitted_stage db rid (ir_stage_index i))" for i
    using that assms stage by (fastforce simp: db_ok_def stage_key_def)
  moreover have "(or_run_id i, or_stage_index i)
      \<in> stage_key ` set (db_stages (discard_unsubmitted_preparation_stages db rid))"
    if "i \<in> set (db_outputs db)" "\<not> (or_run_id i = rid \<and> unsubmitted_stage db rid (or_stage_index i))" for i
    using that assms stage by (fastforce simp: db_ok_def stage_key_def)
  ultimately show ?thesis
    using assms unfolding db_ok_def stages_ok_def inputs_ok_def outputs_ok_def
    by (auto simp: discard_unsubmitted_preparation_stages_def Let_def un distinct_map_filter)
qed

lemma store_run_ok:
  assumes "(store_step cipher)\<^sup>*\<^sup>* db db'" and "db_ok db"
  shows "db_ok db'"
  using assms
  by (induction rule: rtranclp_induct) (auto elim!: store_stepE dest: kept_step_ok intro: discard_ok)

text \<open>
  C7. The tables are in order in every store that the operations can make of empty tables, in any
  order and with any arguments, failed calls included: every row satisfies the \<open>CHECK\<close> clauses (a
  confirmed stage has a block identity, a pending one its raw transaction, an awaiting one neither),
  transaction ids are 32 bytes of lower-case hex, stages of a run have distinct indices and distinct
  transactions, no outpoint is spent twice within
  a run, and every input and output belongs to a stage.
\<close>

theorem store_invariant:
  assumes "(store_step cipher)\<^sup>*\<^sup>* empty_db db"
  shows "db_ok db"
  using assms by (rule store_run_ok) (rule empty_db_ok)

text \<open>
  C35. Nothing that a recovery needs is ever lost or changed: whatever inserts and updates follow,
  every stage row keeps its place, run, index and transaction, its encrypted base transaction and
  signatures, its target, schedule and expiry heights and its fee, and the inputs and outputs
  stay what they were. Only the raw transaction, the broadcast height, the attempt marker, the status
  and the block identity change.
\<close>

theorem store_keeps_material:
  assumes "(kept_step cipher)\<^sup>*\<^sup>* db db'" and "db_ok db"
  shows "db_keeps db db'"
proof -
  from assms have "db_ok db' \<and> db_keeps db db'"
    by (induction rule: rtranclp_induct) (auto dest: kept_step_ok intro: db_keeps_trans)
  then show ?thesis ..
qed

section \<open>A concrete store\<close>

text \<open>A cipher that writes the bytes as characters, with a counter as nonce state.\<close>

definition plain_text :: "byte list \<Rightarrow> string" where
  "plain_text m = map (\<lambda>b. char_of (unat b)) m"

definition plain_cipher :: "nat payload_cipher" where
  "plain_cipher =
     \<lparr>decode_salt = \<lambda>s. Some [],
      encrypt_payload = \<lambda>m pw salt n. Some (plain_text m, Suc n),
      decrypt_payload = \<lambda>c pw salt. Some (map (\<lambda>c. word_of_nat (of_char c)) c)\<rparr>"

definition example_txid :: "char \<Rightarrow> string" where
  "example_txid c = replicate 64 c"

definition example_output :: "denomination_stage_output_kind \<Rightarrow> u32 option \<Rightarrow> stage_output_ref" where
  "example_output k p =
     \<lparr>out_output_index = 0, out_value_zatoshi = 100000000, out_note_version = 3, out_kind = k,
      out_part_index = p\<rparr>"

definition example_input :: "char \<Rightarrow> stage_input_ref" where
  "example_input c =
     \<lparr>in_txid_hex = example_txid c, in_output_index = 0, in_value_zatoshi = 100015000,
      in_note_version = 2, in_nullifier_hex = None\<rparr>"

definition example_insert :: "u32 \<Rightarrow> char \<Rightarrow> char \<Rightarrow> byte list option \<Rightarrow> denomination_stage_insert" where
  "example_insert idx txid parent raw =
     \<lparr>si_stage_index = idx, si_base_pczt = [1, 2], si_sigs = [], si_raw_tx = raw,
      si_expected_txid_hex = example_txid txid, si_target_height = 100, si_scheduled_height = 110 + idx,
      si_expiry_height = 34560, si_fee_zatoshi = 15000,
      si_status = (if raw = None then AwaitingInputs else Pending),
      si_inputs = [example_input parent],
      si_outputs = [example_output (if raw = None then MigrationOutput else ContinuationOutput)
        (if raw = None then Some 0 else None)]\<rparr>"

definition example_batch :: "denomination_stage_insert list" where
  "example_batch = [example_insert 0 CHR ''A'' CHR ''c'' (Some [7]), example_insert 1 CHR ''b'' CHR ''a'' None]"

definition example_row :: "u32 \<Rightarrow> char \<Rightarrow> byte list option \<Rightarrow> stage_row" where
  "example_row idx txid raw =
     \<lparr>sr_run_id = ''run'', sr_stage_index = idx,
      sr_encrypted_base_pczt = plain_text [1, 2],
      sr_encrypted_compact_sigs = plain_text [0, 0, 0, 0],
      sr_encrypted_raw_tx = map_option plain_text raw, sr_expected_txid_hex = example_txid txid, sr_target_height = 100,
      sr_scheduled_height = 110 + idx, sr_broadcast_not_before_height = None,
      sr_broadcast_attempted = 0, sr_expiry_height = 34560, sr_fee_zatoshi = 15000,
      sr_confirmed_mined_height = None, sr_confirmed_block_hash = None,
      sr_status = (if raw = None then ''awaiting_inputs'' else ''pending'')\<rparr>"

definition example_input_row :: "u32 \<Rightarrow> char \<Rightarrow> input_row" where
  "example_input_row idx c =
     \<lparr>ir_run_id = ''run'', ir_stage_index = idx, ir_input_order = 0, ir_txid_hex = example_txid c,
      ir_output_index = 0, ir_value_zatoshi = 100015000, ir_note_version = 2, ir_nullifier_hex = None\<rparr>"

definition example_output_row :: "u32 \<Rightarrow> string \<Rightarrow> u32 option \<Rightarrow> output_row" where
  "example_output_row idx k p =
     \<lparr>or_run_id = ''run'', or_stage_index = idx, or_output_order = 0, or_output_index = 0,
      or_value_zatoshi = 100000000, or_note_version = 3, or_kind = k, or_part_index = p\<rparr>"

definition example_store :: stage_db where
  "example_store =
     \<lparr>db_stages = [example_row 0 CHR ''a'' (Some [7]), example_row 1 CHR ''b'' None],
      db_inputs = [example_input_row 0 CHR ''c'', example_input_row 1 CHR ''a''],
      db_outputs = [example_output_row 0 ''continuation'' None, example_output_row 1 ''migration'' (Some 0)]\<rparr>"

lemma example_txid_inj [simp]: "example_txid c = example_txid d \<longleftrightarrow> c = d"
  by (simp add: example_txid_def)

lemma example_txid_lower [simp]: "to_ascii_lowercase (example_txid c) = example_txid (ascii_lower c)"
  by (simp add: example_txid_def to_ascii_lowercase_def)

lemma example_txid_valid [simp]:
  "validate_txid_hex (example_txid c) = (if is_ascii_hexdigit c then Inr () else Inl InvalidHex)"
  by (simp add: example_txid_def validate_txid_hex_def validate_hex_32_def list_all_iff)

lemma example_chars [simp]:
  "ascii_lower CHR ''A'' = CHR ''a''" "ascii_lower CHR ''a'' = CHR ''a''"
  "ascii_lower CHR ''b'' = CHR ''b''" "ascii_lower CHR ''c'' = CHR ''c''"
  "is_ascii_hexdigit CHR ''A''" "is_ascii_hexdigit CHR ''a''"
  "is_ascii_hexdigit CHR ''b''" "is_ascii_hexdigit CHR ''c''"
  by code_simp+

lemma example_batch_valid: "validate_stage_batch ''run'' example_batch = Inr ()"
  by (simp add: validate_stage_batch_def example_batch_def validate_stage_def example_insert_def
      validate_stage_status_def example_input_def example_output_def Let_def)

lemma empty_sigs: "encode_compact_action_sigs [] = Inr [0, 0, 0, 0]"
  by (simp add: encode_compact_action_sigs_def u32_to_le_bytes_def try_u32_def checked_mul_def
      checked_add_def)

lemmas example_rows = example_store_def example_row_def example_input_row_def example_output_row_def

lemma example_store_inserted:
  "insert_denomination_stages_with_tx plain_cipher empty_db ''run'' example_batch [1] ''salt'' 0 =
     (Inr (), example_store, 5)"
  unfolding insert_denomination_stages_with_tx_def example_batch_valid
  by (simp add: insert_stage_def
      plain_cipher_def example_batch_def example_insert_def empty_sigs
      encrypt_optional_def insert_input_def insert_output_def sql_u64_def sql_insert_stage_def
      sql_insert_input_def sql_insert_output_def example_input_def example_output_def
      empty_db_def stage_row_check_def output_row_check_def map_error_def try_u32_def example_rows)

lemma example_store_step: "kept_step plain_cipher empty_db example_store"
  using kept_step.insert_batch [of plain_cipher empty_db "''run''" example_batch "[1]" "''salt''" 0]
  by (simp add: example_store_inserted)

lemma example_store_reached: "(store_step plain_cipher)\<^sup>*\<^sup>* empty_db example_store"
  by (intro r_into_rtranclp store_step.keep example_store_step)

lemma example_store_ok: "db_ok example_store"
  by (rule store_run_ok [OF example_store_reached empty_db_ok])

theorem store_invariant_witness:
  "(store_step plain_cipher)\<^sup>*\<^sup>* empty_db example_store \<and> db_ok example_store
   \<and> length (db_stages example_store) = 2"
  using store_invariant [OF example_store_reached] example_store_reached
  by (simp add: example_store_def)

text \<open>A confirmation and a reset later the material of both stages is still there.\<close>

definition example_later :: stage_db where
  "example_later = snd (reset_denomination_stage_exact
     (snd (mark_denomination_stage_confirmed_at example_store ''run'' (example_txid CHR ''a'') 120
        (Hash32 (replicate 32 0)))) ''run'' (example_txid CHR ''a''))"

lemma example_later_run: "(kept_step plain_cipher)\<^sup>*\<^sup>* example_store example_later"
  unfolding example_later_def
  by (rule rtranclp.rtrancl_into_rtrancl, rule r_into_rtranclp) (rule kept_step.intros)+

theorem store_keeps_material_witness:
  "(kept_step plain_cipher)\<^sup>*\<^sup>* example_store example_later \<and> db_ok example_store
   \<and> db_keeps example_store example_later
   \<and> sr_encrypted_base_pczt (db_stages example_later ! 0) = plain_text [1, 2]"
  using store_keeps_material [OF example_later_run example_store_ok] example_later_run example_store_ok
  by (simp add: db_keeps_iff same_stage_def stage_material_def example_store_def example_row_def)

end
