(* ===== verification/Stage_Round_Trip.thy ===== *)
theory Stage_Round_Trip
  imports Stage_Properties
begin

text \<open>
  What a successful insertion writes, and what a load of the run reads back.
\<close>

section \<open>The rows of a batch\<close>

definition inserted_input :: "string \<Rightarrow> u32 \<Rightarrow> nat \<times> stage_input_ref \<Rightarrow> input_row" where
  "inserted_input rid idx = (\<lambda>(k, i).
     \<lparr>ir_run_id = rid, ir_stage_index = idx, ir_input_order = k,
      ir_txid_hex = to_ascii_lowercase (in_txid_hex i), ir_output_index = in_output_index i,
      ir_value_zatoshi = in_value_zatoshi i, ir_note_version = in_note_version i,
      ir_nullifier_hex = map_option to_ascii_lowercase (in_nullifier_hex i)\<rparr>)"

definition inserted_output :: "string \<Rightarrow> u32 \<Rightarrow> nat \<times> stage_output_ref \<Rightarrow> output_row" where
  "inserted_output rid idx = (\<lambda>(k, out).
     \<lparr>or_run_id = rid, or_stage_index = idx, or_output_order = k,
      or_output_index = out_output_index out, or_value_zatoshi = out_value_zatoshi out,
      or_note_version = out_note_version out, or_kind = output_kind_as_str (out_kind out),
      or_part_index = out_part_index out\<rparr>)"

abbreviation input_rows :: "string \<Rightarrow> denomination_stage_insert \<Rightarrow> input_row list" where
  "input_rows rid s \<equiv> map (inserted_input rid (si_stage_index s)) (enumerate 0 (si_inputs s))"

abbreviation output_rows :: "string \<Rightarrow> denomination_stage_insert \<Rightarrow> output_row list" where
  "output_rows rid s \<equiv> map (inserted_output rid (si_stage_index s)) (enumerate 0 (si_outputs s))"

text \<open>What is relied on of the cipher: a ciphertext decrypts to what was encrypted.\<close>

definition cipher_ok :: "'n payload_cipher \<Rightarrow> bool" where
  "cipher_ok cipher \<longleftrightarrow>
     (\<forall>m pw salt n c n'. encrypt_payload cipher m pw salt n = Some (c, n') \<longrightarrow>
        decrypt_payload cipher c pw salt = Some m)"

text \<open>A row that stores a stage: its encrypted columns decrypt to the payloads of the stage.\<close>

definition row_holds ::
    "'n payload_cipher \<Rightarrow> string \<Rightarrow> byte list \<Rightarrow> byte list \<Rightarrow> denomination_stage_insert \<Rightarrow> stage_row \<Rightarrow> bool" where
  "row_holds cipher rid pw salt s r \<longleftrightarrow>
     sr_run_id r = rid \<and> sr_stage_index r = si_stage_index s
     \<and> decrypt_payload cipher (sr_encrypted_base_pczt r) pw salt = Some (si_base_pczt s)
     \<and> (\<exists>blob. encode_compact_action_sigs (si_sigs s) = Inr blob
          \<and> decrypt_payload cipher (sr_encrypted_compact_sigs r) pw salt = Some blob)
     \<and> decrypt_optional cipher (sr_encrypted_raw_tx r) pw salt = Inr (si_raw_tx s)
     \<and> sr_expected_txid_hex r = to_ascii_lowercase (si_expected_txid_hex s)
     \<and> sr_target_height r = si_target_height s \<and> sr_scheduled_height r = si_scheduled_height s
     \<and> sr_broadcast_not_before_height r = None \<and> sr_expiry_height r = si_expiry_height s
     \<and> sr_fee_zatoshi r = si_fee_zatoshi s \<and> sr_confirmed_mined_height r = None
     \<and> sr_confirmed_block_hash r = None \<and> sr_status r = stage_status_as_str (si_status s)"

lemma cipher_okD:
  "cipher_ok cipher \<Longrightarrow> encrypt_payload cipher m pw salt n = Some (c, n') \<Longrightarrow>
     decrypt_payload cipher c pw salt = Some m"
  unfolding cipher_ok_def by blast

lemma insert_inputs_rows:
  assumes "try_fold (insert_input rid idx) db xs = Inr db'"
  shows "db' = db\<lparr>db_inputs := db_inputs db @ map (inserted_input rid idx) xs\<rparr>"
  using assms
proof (induction xs arbitrary: db)
  case (Cons x xs)
  then obtain db1 where "insert_input rid idx db x = Inr db1"
      and rest: "try_fold (insert_input rid idx) db1 xs = Inr db'" by auto
  then have "db1 = db\<lparr>db_inputs := db_inputs db @ [inserted_input rid idx x]\<rparr>"
    by (cases x) (auto simp: insert_input_def inserted_input_def try_u32_def sql_u64_def
        sql_insert_input_def split: if_splits)
  then show ?case using Cons.IH [OF rest] by simp
qed simp

lemma insert_outputs_rows:
  assumes "try_fold (insert_output rid idx) db xs = Inr db'"
  shows "db' = db\<lparr>db_outputs := db_outputs db @ map (inserted_output rid idx) xs\<rparr>"
  using assms
proof (induction xs arbitrary: db)
  case (Cons x xs)
  then obtain db1 where "insert_output rid idx db x = Inr db1"
      and rest: "try_fold (insert_output rid idx) db1 xs = Inr db'" by auto
  then have "db1 = db\<lparr>db_outputs := db_outputs db @ [inserted_output rid idx x]\<rparr>"
    by (cases x) (auto simp: insert_output_def inserted_output_def try_u32_def sql_u64_def
        sql_insert_output_def split: if_splits)
  then show ?case using Cons.IH [OF rest] by simp
qed simp

lemma encrypt_optional_decrypts:
  assumes "cipher_ok cipher" and "encrypt_optional cipher m pw salt n = Inr (c, n')"
  shows "decrypt_optional cipher c pw salt = Inr m"
  using assms
  by (fastforce simp: encrypt_optional_def decrypt_optional_def cipher_ok_def split: option.splits)

lemma insert_stage_rows:
  assumes "cipher_ok cipher" and "insert_stage cipher rid pw salt (db, n) s = Inr (db', n')"
  shows "\<exists>r. row_holds cipher rid pw salt s r
     \<and> db' = \<lparr>db_stages = db_stages db @ [r], db_inputs = db_inputs db @ input_rows rid s,
              db_outputs = db_outputs db @ output_rows rid s\<rparr>"
proof -
  from assms(2) obtain base n1 blob sigs n2 raw n3 r db1 db2 where
    enc: "encrypt_payload cipher (si_base_pczt s) pw salt n = Some (base, n1)"
      "encode_compact_action_sigs (si_sigs s) = Inr blob"
      "encrypt_payload cipher blob pw salt n1 = Some (sigs, n2)"
      "encrypt_optional cipher (si_raw_tx s) pw salt n2 = Inr (raw, n3)"
    and r: "sql_insert_stage r db = Inr db1"
      "r = \<lparr>sr_run_id = rid, sr_stage_index = si_stage_index s, sr_encrypted_base_pczt = base,
         sr_encrypted_compact_sigs = sigs, sr_encrypted_raw_tx = raw,
         sr_expected_txid_hex = to_ascii_lowercase (si_expected_txid_hex s),
         sr_target_height = si_target_height s, sr_scheduled_height = si_scheduled_height s,
         sr_broadcast_not_before_height = None, sr_broadcast_attempted = 0,
         sr_expiry_height = si_expiry_height s, sr_fee_zatoshi = si_fee_zatoshi s,
         sr_confirmed_mined_height = None, sr_confirmed_block_hash = None,
         sr_status = stage_status_as_str (si_status s)\<rparr>"
    and i: "try_fold (insert_input rid (si_stage_index s)) db1 (enumerate 0 (si_inputs s)) = Inr db2"
    and out: "try_fold (insert_output rid (si_stage_index s)) db2 (enumerate 0 (si_outputs s)) = Inr db'"
    by (auto simp: insert_stage_def map_error_def sql_u64_def split: prod.splits sum.splits if_splits)
  have "db1 = db\<lparr>db_stages := db_stages db @ [r]\<rparr>"
    using r(1) by (auto simp: sql_insert_stage_def split: if_splits)
  with insert_inputs_rows [OF i] insert_outputs_rows [OF out]
  have "db' = \<lparr>db_stages = db_stages db @ [r], db_inputs = db_inputs db @ input_rows rid s,
              db_outputs = db_outputs db @ output_rows rid s\<rparr>" by simp
  moreover have "row_holds cipher rid pw salt s r"
    using enc(2) encrypt_optional_decrypts [OF assms(1) enc(4)] cipher_okD [OF assms(1) enc(1)]
      cipher_okD [OF assms(1) enc(3)]
    by (simp add: row_holds_def r(2))
  ultimately show ?thesis by blast
qed

lemma insert_stages_rows:
  assumes "cipher_ok cipher"
    and "try_fold (insert_stage cipher rid pw salt) (db, n) ss = Inr (db', n')"
  shows "\<exists>rows. list_all2 (row_holds cipher rid pw salt) ss rows
     \<and> db' = \<lparr>db_stages = db_stages db @ rows,
              db_inputs = db_inputs db @ concat (map (input_rows rid) ss),
              db_outputs = db_outputs db @ concat (map (output_rows rid) ss)\<rparr>"
  using assms(2)
proof (induction ss arbitrary: db n)
  case (Cons s ss)
  then obtain db1 n1 where "insert_stage cipher rid pw salt (db, n) s = Inr (db1, n1)"
      and rest: "try_fold (insert_stage cipher rid pw salt) (db1, n1) ss = Inr (db', n')"
    by auto
  from insert_stage_rows [OF assms(1) this(1)] obtain r where
    r: "row_holds cipher rid pw salt s r" "db1 = \<lparr>db_stages = db_stages db @ [r],
       db_inputs = db_inputs db @ input_rows rid s, db_outputs = db_outputs db @ output_rows rid s\<rparr>"
    by blast
  from Cons.IH [OF rest] obtain rows where "list_all2 (row_holds cipher rid pw salt) ss rows"
    "db' = \<lparr>db_stages = db_stages db1 @ rows,
            db_inputs = db_inputs db1 @ concat (map (input_rows rid) ss),
            db_outputs = db_outputs db1 @ concat (map (output_rows rid) ss)\<rparr>" by blast
  then show ?case using r by (intro exI [of _ "r # rows"]) simp
qed simp

section \<open>Reading them back\<close>

lemma insort_key_map: "insort_key f (h x) (map h xs) = map h (insort_key (\<lambda>x. f (h x)) x xs)"
  by (induction xs) auto

lemma sort_key_map: "sort_key f (map h xs) = map h (sort_key (\<lambda>x. f (h x)) xs)"
  by (induction xs) (auto simp: insort_key_map)

lemma insort_key_cong: "(\<And>y. y \<in> set (x # xs) \<Longrightarrow> f y = g y) \<Longrightarrow> insort_key f x xs = insort_key g x xs"
  by (induction xs) auto

lemma sort_key_cong: "(\<And>x. x \<in> set xs \<Longrightarrow> f x = g x) \<Longrightarrow> sort_key f xs = sort_key g xs"
  by (induction xs) (auto intro: insort_key_cong)

lemma list_all2_sort_key:
  assumes "list_all2 R xs ys" and "\<And>x y. R x y \<Longrightarrow> f x = g y"
  shows "list_all2 R (sort_key f xs) (sort_key g ys)"
proof -
  have len: "length xs = length ys" using assms(1) by (rule list_all2_lengthD)
  let ?z = "zip xs ys"
  have R: "\<forall>p \<in> set ?z. R (fst p) (snd p)" using assms(1) by (auto simp: list_all2_iff)
  then have key: "f (fst p) = g (snd p)" if "p \<in> set ?z" for p using assms(2) that by blast
  have "sort_key f xs = map fst (sort_key (\<lambda>p. f (fst p)) ?z)"
    using len by (metis sort_key_map map_fst_zip)
  moreover have "sort_key g ys = map snd (sort_key (\<lambda>p. g (snd p)) ?z)"
    using len by (metis sort_key_map map_snd_zip)
  moreover have "sort_key (\<lambda>p. f (fst p)) ?z = sort_key (\<lambda>p. g (snd p)) ?z"
    by (rule sort_key_cong) (rule key)
  ultimately show ?thesis using R by (simp add: list_all2_map1 list_all2_map2 list_all2_same)
qed

lemma status_round_trip [simp]: "stage_status_parse (stage_status_as_str st) = Inr st"
  by (cases st) (simp_all add: stage_status_parse_def)

lemma kind_round_trip [simp]: "output_kind_parse (output_kind_as_str k) = Inr k"
  by (cases k) (simp_all add: output_kind_parse_def)

lemma indexed_rows_of_stage:
  assumes "distinct (map key ss)" and "s \<in> set ss"
    and "\<And>i k x. rkey (row i (k, x)) = i" and "\<And>i k x. P (row i (k, x))"
  shows "filter (\<lambda>r. P r \<and> rkey r = key s)
      (concat (map (\<lambda>s. map (row (key s)) (enumerate 0 (xs s))) ss)) =
    map (row (key s)) (enumerate 0 (xs s))"
  using assms(1,2)
proof (induction ss)
  case (Cons t ss)
  have own: "filter (\<lambda>r. P r \<and> rkey r = j) (map (row i) (enumerate 0 (xs t))) =
      (if i = j then map (row i) (enumerate 0 (xs t)) else [])" for i j t
    using assms(3,4) by (auto simp: filter_empty_conv filter_id_conv)
  show ?case
  proof (cases "s = t")
    case True
    then have "\<forall>u \<in> set ss. key u \<noteq> key s" using Cons.prems(1) by (auto simp: image_iff)
    then have "filter (\<lambda>r. P r \<and> rkey r = key s)
        (concat (map (\<lambda>s. map (row (key s)) (enumerate 0 (xs s))) ss)) = []"
      using assms(3) by (fastforce simp: filter_empty_conv)
    then show ?thesis using True by (simp add: own)
  next
    case False
    then have "s \<in> set ss" "key t \<noteq> key s" using Cons.prems by force+
    then show ?thesis using Cons by (simp add: own)
  qed
qed simp

lemma sorted_enumerate_rows:
  assumes "\<And>k x. order (row (k, x)) = k"
  shows "sort_key order (map row (enumerate n xs)) = map row (enumerate n xs)"
proof (rule sort_key_id_if_sorted)
  have "order (row p) = fst p" for p using assms by (cases p) simp
  then have "map order (map row (enumerate n xs)) = [n ..< n + length xs]"
    by (simp add: comp_def flip: map_fst_enumerate)
  then show "sorted (map order (map row (enumerate n xs)))" by (simp only: sorted_upt)
qed

definition loaded_input :: "stage_input_ref \<Rightarrow> stage_input_ref" where
  "loaded_input i = i\<lparr>in_txid_hex := to_ascii_lowercase (in_txid_hex i),
     in_nullifier_hex := map_option to_ascii_lowercase (in_nullifier_hex i)\<rparr>"

text \<open>What a load shows of a stage that was just inserted.\<close>

definition loaded_stage :: "denomination_stage_insert \<Rightarrow> denomination_stage" where
  "loaded_stage s =
     \<lparr>ds_stage_index = si_stage_index s, ds_base_pczt = si_base_pczt s, ds_sigs = si_sigs s,
      ds_raw_tx = si_raw_tx s, ds_expected_txid_hex = to_ascii_lowercase (si_expected_txid_hex s),
      ds_target_height = si_target_height s, ds_scheduled_height = si_scheduled_height s,
      ds_broadcast_not_before_height = None, ds_expiry_height = si_expiry_height s,
      ds_fee_zatoshi = si_fee_zatoshi s, ds_status = si_status s, ds_confirmed_mined_height = None,
      ds_confirmed_block_hash = None, ds_inputs = map loaded_input (si_inputs s),
      ds_outputs = si_outputs s\<rparr>"

definition run_is_new :: "stage_db \<Rightarrow> string \<Rightarrow> bool" where
  "run_is_new db rid \<longleftrightarrow>
     list_all (\<lambda>r. sr_run_id r \<noteq> rid) (db_stages db) \<and> list_all (\<lambda>r. ir_run_id r \<noteq> rid) (db_inputs db)
     \<and> list_all (\<lambda>r. or_run_id r \<noteq> rid) (db_outputs db)"

lemma filter_new: "list_all (\<lambda>r. rk r \<noteq> rid) xs \<Longrightarrow> filter (\<lambda>r. rk r = rid \<and> Q r) xs = []"
  by (auto simp: filter_empty_conv list_all_iff)

lemma loaded_inputs:
  assumes "distinct (map si_stage_index ss)" and "s \<in> set ss"
    and "list_all (\<lambda>r. ir_run_id r \<noteq> rid) (db_inputs db)"
    and "db_inputs db' = db_inputs db @ concat (map (input_rows rid) ss)"
  shows "stage_inputs db' rid (si_stage_index s) = map loaded_input (si_inputs s)"
proof -
  have "filter (\<lambda>r. ir_run_id r = rid \<and> ir_stage_index r = si_stage_index s)
      (concat (map (input_rows rid) ss)) = input_rows rid s"
    by (rule indexed_rows_of_stage [OF assms(1,2)]) (simp_all add: inserted_input_def)
  then have "filter (\<lambda>r. ir_run_id r = rid \<and> ir_stage_index r = si_stage_index s) (db_inputs db') =
      input_rows rid s"
    using filter_new [OF assms(3)] assms(4) by simp
  moreover have "sort_key ir_input_order (input_rows rid s) = input_rows rid s"
    by (rule sorted_enumerate_rows) (simp add: inserted_input_def)
  ultimately show ?thesis
    by (intro nth_equalityI)
      (simp_all add: stage_inputs_def inserted_input_def loaded_input_def nth_enumerate_eq)
qed

lemma loaded_outputs:
  assumes "distinct (map si_stage_index ss)" and "s \<in> set ss"
    and "list_all (\<lambda>r. or_run_id r \<noteq> rid) (db_outputs db)"
    and "db_outputs db' = db_outputs db @ concat (map (output_rows rid) ss)"
  shows "stage_outputs db' rid (si_stage_index s) = Inr (si_outputs s)"
proof -
  have "filter (\<lambda>r. or_run_id r = rid \<and> or_stage_index r = si_stage_index s)
      (concat (map (output_rows rid) ss)) = output_rows rid s"
    by (rule indexed_rows_of_stage [OF assms(1,2)]) (simp_all add: inserted_output_def)
  then have "filter (\<lambda>r. or_run_id r = rid \<and> or_stage_index r = si_stage_index s) (db_outputs db') =
      output_rows rid s"
    using filter_new [OF assms(3)] assms(4) by simp
  moreover have "sort_key or_output_order (output_rows rid s) = output_rows rid s"
    by (rule sorted_enumerate_rows) (simp add: inserted_output_def)
  moreover have "list_all2 (\<lambda>x y. output_of_row x = Inr y) (output_rows rid s) (si_outputs s)"
    by (simp add: list_all2_conv_all_nth output_of_row_def inserted_output_def nth_enumerate_eq)
  ultimately show ?thesis by (simp add: stage_outputs_def collect_results_Inr_iff)
qed

lemma row_loads:
  assumes "row_holds cipher rid pw salt s r" and "list_all sig_ok (si_sigs s)"
    and "length (si_sigs s) \<le> ZCASH_SIGN_BATCH_MAX_SIGNATURES"
    and "stage_inputs db rid (si_stage_index s) = map loaded_input (si_inputs s)"
    and "stage_outputs db rid (si_stage_index s) = Inr (si_outputs s)"
  shows "stage_of_row cipher db rid pw salt r = Inr (loaded_stage s)"
proof -
  obtain blob where "encode_compact_action_sigs (si_sigs s) = Inr blob"
      "decrypt_payload cipher (sr_encrypted_compact_sigs r) pw salt = Some blob"
    using assms(1) by (auto simp: row_holds_def)
  moreover have "decode_compact_action_sigs blob = Inr (si_sigs s)"
    using compact_sigs_decode_encode [of "si_sigs s"] assms(2,3) calculation(1) by (auto simp: list_all_iff)
  ultimately show ?thesis
    using assms(1,4,5)
    by (simp add: row_holds_def stage_of_row_def loaded_stage_def map_error_def)
qed

text \<open>
  C33. What is stored can be read back: after a successful insertion under a run id that no table
  names, a load of the run gives the stages of the batch in index order, with the base transaction,
  the signatures and the raw transaction decrypted and decoded to what was inserted, transaction and
  nullifier hex in lower case, and no confirmation, given a cipher that decrypts what it encrypts
  and signatures of the length and number the blob admits.
\<close>

theorem stages_load_back:
  assumes "cipher_ok cipher" and "db_ok db" and "run_is_new db rid"
    and "list_all (\<lambda>s. list_all sig_ok (si_sigs s)
           \<and> length (si_sigs s) \<le> ZCASH_SIGN_BATCH_MAX_SIGNATURES) stages"
    and "insert_denomination_stages_with_tx cipher db rid stages pw salt64 n = (Inr (), db', n')"
  shows "denomination_stages_for_run cipher db' rid pw salt64 =
     Inr (map loaded_stage (sort_key si_stage_index stages))"
proof -
  from assms(5) obtain salt where salt: "decode_salt cipher salt64 = Some salt"
      and "try_fold (insert_stage cipher rid pw salt) (db, n) stages = Inr (db', n')"
    by (auto simp: insert_denomination_stages_with_tx_def split: sum.splits option.splits)
  from insert_stages_rows [OF assms(1) this(2)] obtain rows where
    rows: "list_all2 (row_holds cipher rid pw salt) stages rows"
    and db': "db' = \<lparr>db_stages = db_stages db @ rows,
              db_inputs = db_inputs db @ concat (map (input_rows rid) stages),
              db_outputs = db_outputs db @ concat (map (output_rows rid) stages)\<rparr>" by blast
  have keys: "map sr_stage_index rows = map si_stage_index stages" "\<forall>r \<in> set rows. sr_run_id r = rid"
    using rows by (auto simp: list_all2_conv_all_nth row_holds_def in_set_conv_nth intro: nth_equalityI)
  have "db_ok db'"
    using insert_stages_ok [OF assms(2), of cipher rid stages pw salt64 n] assms(5) by simp
  then have "distinct (map stage_key rows)" by (simp add: db' db_ok_def stages_ok_def)
  moreover have "map stage_key rows = map (\<lambda>i. (rid, i)) (map sr_stage_index rows)"
    using keys(2) by (simp add: stage_key_def)
  ultimately have d: "distinct (map si_stage_index stages)"
    by (metis distinct_map keys(1))
  have run: "run_stages db' rid = sort_key sr_stage_index rows"
    using keys(2) filter_new [of sr_run_id rid "db_stages db" "\<lambda>r. True"] assms(3)
    by (simp add: run_stages_def db' run_is_new_def)
  have one: "stage_of_row cipher db' rid pw salt r = Inr (loaded_stage s)"
    if "row_holds cipher rid pw salt s r" "s \<in> set stages" for s r
  proof (rule row_loads [OF that(1)])
    show "list_all sig_ok (si_sigs s)" "length (si_sigs s) \<le> ZCASH_SIGN_BATCH_MAX_SIGNATURES"
      using assms(4) that(2) by (auto simp: list_all_iff)
    show "stage_inputs db' rid (si_stage_index s) = map loaded_input (si_inputs s)"
      using assms(3) by (intro loaded_inputs [OF d that(2), of rid db]) (simp_all add: run_is_new_def db')
    show "stage_outputs db' rid (si_stage_index s) = Inr (si_outputs s)"
      using assms(3) by (intro loaded_outputs [OF d that(2), of rid db]) (simp_all add: run_is_new_def db')
  qed
  have "list_all2 (row_holds cipher rid pw salt) (sort_key si_stage_index stages) (sort_key sr_stage_index rows)"
    using rows by (rule list_all2_sort_key) (simp add: row_holds_def)
  then have "list_all2 (\<lambda>r s. stage_of_row cipher db' rid pw salt r = Inr (loaded_stage s))
      (sort_key sr_stage_index rows) (sort_key si_stage_index stages)"
    using one by (auto simp: list_all2_conv_all_nth) (metis length_sort nth_mem set_sort)
  then show ?thesis
    by (simp add: denomination_stages_for_run_def salt run collect_results_Inr_iff list_all2_map2)
qed

lemma plain_text_round_trip: "map (\<lambda>c. word_of_nat (of_char c)) (plain_text m) = m"
proof -
  have "unat b < 256" for b :: byte using unsigned_less [of b] by simp
  then have "word_of_nat (of_char (char_of (unat b))) = (b :: byte)" for b
    by (simp add: mod_less)
  then show ?thesis by (simp add: plain_text_def comp_def)
qed

lemma plain_cipher_ok: "cipher_ok plain_cipher"
  by (auto simp: cipher_ok_def plain_cipher_def plain_text_round_trip)

theorem stages_load_back_witness:
  "cipher_ok plain_cipher \<and> db_ok empty_db \<and> run_is_new empty_db ''run''
   \<and> denomination_stages_for_run plain_cipher example_store ''run'' [1] ''salt'' =
       Inr [loaded_stage (example_insert 0 CHR ''A'' CHR ''c'' (Some [7])),
            loaded_stage (example_insert 1 CHR ''b'' CHR ''a'' None)]
   \<and> ds_expected_txid_hex (loaded_stage (example_insert 0 CHR ''A'' CHR ''c'' (Some [7]))) =
       example_txid CHR ''a''"
  using stages_load_back [OF plain_cipher_ok empty_db_ok _ _ example_store_inserted] plain_cipher_ok
    empty_db_ok [unfolded empty_db_def]
  by (simp add: run_is_new_def empty_db_def example_batch_def example_insert_def loaded_stage_def)

end
