(* ===== verification/Run_Store.thy ===== *)
theory Run_Store
  imports Stage_Steps Schedule Preparation_Schedule Anchor_Policy
begin

text \<open>
  The tables of a migration run (\<open>migration.rs\<close>, schema in \<open>migration/schema.rs\<close>) and the queries on
  the wallet's own tables that the run machine depends on: the chain inclusion of a transaction and
  its confirmation depth.

  A table is the list of its rows. A column that holds JSON is its decoded value, since the source
  writes it with the encoder it reads it with. A database call that can only fail in SQLite (a lock, a
  disk error) succeeds. The clock is an argument, and \<open>unhex\<close> stands for the \<open>hex\<close> library.
\<close>

section \<open>Phases\<close>

definition PHASE_NO_ORCHARD_FUNDS :: string where
  "PHASE_NO_ORCHARD_FUNDS = ''no_orchard_funds''"

definition PHASE_AWAITING_DENOMINATION_SIGNATURE :: string where
  "PHASE_AWAITING_DENOMINATION_SIGNATURE = ''awaiting_denomination_signature''"

definition PHASE_FAILED_RECOVERABLE :: string where
  "PHASE_FAILED_RECOVERABLE = ''failed_recoverable''"

definition PHASE_AWAITING_PREPARATION :: string where
  "PHASE_AWAITING_PREPARATION = ''awaiting_preparation''"

definition PHASE_WAITING_DENOM_CONFIRMATIONS :: string where
  "PHASE_WAITING_DENOM_CONFIRMATIONS = ''waiting_denom_confirmations''"

definition PHASE_READY_TO_MIGRATE :: string where
  "PHASE_READY_TO_MIGRATE = ''ready_to_migrate''"

definition PHASE_BROADCAST_SCHEDULED :: string where
  "PHASE_BROADCAST_SCHEDULED = ''broadcast_scheduled''"

definition PHASE_BROADCASTING :: string where
  "PHASE_BROADCASTING = ''broadcasting''"

definition PHASE_WAITING_MIGRATION_CONFIRMATIONS :: string where
  "PHASE_WAITING_MIGRATION_CONFIRMATIONS = ''waiting_migration_confirmations''"

definition PHASE_COMPLETE :: string where
  "PHASE_COMPLETE = ''complete''"

definition PHASE_FAILED_TERMINAL :: string where
  "PHASE_FAILED_TERMINAL = ''failed_terminal''"

definition PHASE_ABANDONED :: string where
  "PHASE_ABANDONED = ''abandoned''"

lemmas phase_defs = PHASE_AWAITING_PREPARATION_def PHASE_WAITING_DENOM_CONFIRMATIONS_def
  PHASE_READY_TO_MIGRATE_def PHASE_BROADCAST_SCHEDULED_def PHASE_BROADCASTING_def
  PHASE_WAITING_MIGRATION_CONFIRMATIONS_def PHASE_COMPLETE_def PHASE_FAILED_TERMINAL_def
  PHASE_ABANDONED_def PHASE_NO_ORCHARD_FUNDS_def PHASE_AWAITING_DENOMINATION_SIGNATURE_def
  PHASE_FAILED_RECOVERABLE_def

definition migration_phase_releases_wallet_locks :: "string \<Rightarrow> bool" where
  "migration_phase_releases_wallet_locks phase \<longleftrightarrow>
     phase \<in> {PHASE_COMPLETE, PHASE_FAILED_TERMINAL, PHASE_ABANDONED}"

section \<open>Tables\<close>

record orchard_note_ref =
  on_txid_hex :: string
  on_output_index :: u32
  on_value_zatoshi :: u64
  on_note_version :: nat
  on_nullifier_hex :: "string option"

record tx_metadata =
  md_tx_kind :: string
  md_funding_account_uuid :: string
  md_selected_note :: orchard_note_ref

record run_row =
  rr_run_id :: string
  rr_account_uuid :: string
  rr_network :: string
  rr_db_fingerprint :: string
  rr_phase :: string
  rr_created_at_ms :: int
  rr_updated_at_ms :: int
  rr_target_values :: "u64 list"
  rr_schedule :: "schedule_entry list"
  rr_timing_policy :: string
  rr_preparation_timing_policy :: string
  rr_proof_retry_height :: "u32 option"
  rr_signed_schedule_origin_height :: "u32 option"
  rr_initial_schedule_rebased_origin_height :: "u32 option"
  rr_last_error :: "string option"
  rr_recovery_schedule_origin_height :: "u32 option"
  rr_recovery_schedule_max_block_offset :: "u32 option"

record note_row =
  nr_run_id :: string
  nr_txid_hex :: string
  nr_output_index :: u32
  nr_value_zatoshi :: u64
  nr_note_version :: nat
  nr_nullifier_hex :: "string option"
  nr_lock_state :: string

record pending_row =
  pt_run_id :: string
  pt_txid_hex :: string
  pt_part_index :: "u32 option"
  pt_encrypted_raw_tx :: string
  pt_target_height :: u32
  pt_anchor_boundary_height :: "u32 option"
  pt_expiry_height :: u32
  pt_value_zatoshi :: u64
  pt_fee_zatoshi :: u64
  pt_selected_note_txid :: string
  pt_selected_note_output_index :: u32
  pt_selected_note_value :: u64
  pt_scheduled_at_ms :: int
  pt_schedule_start_height :: "u32 option"
  pt_scheduled_height :: u32
  pt_original_scheduled_height :: "u32 option"
  pt_broadcast_attempted :: nat
  pt_status :: string
  pt_metadata :: tx_metadata
  pt_rebuild_block_offset :: "u32 option"

record child_row =
  sc_run_id :: string
  sc_message_id :: string
  sc_child_index :: u32
  sc_encrypted_base_pczt :: string
  sc_encrypted_compact_sigs :: string
  sc_target_height :: u32
  sc_anchor_boundary_height :: "u32 option"
  sc_expiry_height :: u32
  sc_scheduled_height :: "u32 option"
  sc_value_zatoshi :: u64
  sc_fee_zatoshi :: u64
  sc_selected_note :: orchard_note_ref
  sc_metadata :: tx_metadata

record migration_db =
  mdb_runs :: "run_row list"
  mdb_notes :: "note_row list"
  mdb_pending :: "pending_row list"
  mdb_children :: "child_row list"
  mdb_stages :: stage_db

datatype run_error =
  RunRowMissing | RunNotFound string | RunPolicy policy_error | RunUnknownNetwork string
| BadTxidHex | TxidNot32Bytes | BlockHashNot32Bytes | NoBlockIdentities | NoScanSchema
| RunStage stage_error | RunHeight height_error | RunCountOverflow | CatchUpHeightOverflow
| CatchUpCountOverflow | RunDoesNotBelong | RunAlreadyTerminal string | RunPhaseChanged
| NoLongerScheduled string | RunPartCountOverflow | RunSignedCountOverflow | AssignedPartCountOverflow
| SplitStageCountOverflow | PendingStageCountOverflow | WalletLockFailed | LockPhaseUnstable

definition run_of :: "migration_db \<Rightarrow> string \<Rightarrow> run_error + run_row" where
  "run_of db run_id = ok_or RunRowMissing (find (\<lambda>r. rr_run_id r = run_id) (mdb_runs db))"

definition sql_update_runs ::
    "(run_row \<Rightarrow> bool) \<Rightarrow> (run_row \<Rightarrow> run_row) \<Rightarrow> migration_db \<Rightarrow> nat \<times> migration_db" where
  "sql_update_runs P f db =
     (length (filter P (mdb_runs db)),
      db\<lparr>mdb_runs := map (\<lambda>r. if P r then f r else r) (mdb_runs db)\<rparr>)"

definition preparation_timing_policy_for_run_with_conn ::
    "migration_db \<Rightarrow> string \<Rightarrow> run_error + preparation_timing_policy" where
  "preparation_timing_policy_for_run_with_conn db run_id =
     rbind (run_of db run_id) (\<lambda>r.
     map_error RunPolicy (preparation_policy_from_str (rr_preparation_timing_policy r)))"

definition timing_policy_for_run_with_conn ::
    "migration_db \<Rightarrow> string \<Rightarrow> run_error + migration_timing_policy" where
  "timing_policy_for_run_with_conn db run_id =
     rbind (run_of db run_id) (\<lambda>r. map_error RunPolicy (timing_policy_from_str (rr_timing_policy r)))"

definition run_phase :: "migration_db \<Rightarrow> string \<Rightarrow> run_error + string" where
  "run_phase db run_id = rbind (run_of db run_id) (\<lambda>r. Inr (rr_phase r))"

definition run_network :: "build_flavor \<Rightarrow> migration_db \<Rightarrow> string \<Rightarrow> run_error + wallet_network" where
  "run_network flavor db run_id =
     rbind (run_of db run_id) (\<lambda>r.
     ok_or (RunUnknownNetwork (rr_network r)) (network_from_str flavor (rr_network r)))"

definition count_for_run :: "nat \<Rightarrow> run_error + u32" where
  "count_for_run n = try_u32 RunCountOverflow n"

section \<open>The wallet's view of the chain\<close>

text \<open>
  The columns of the client library's tables that the queries read. A table that does not exist is
  \<open>None\<close>; \<open>wc_blocks\<close> is \<open>None\<close> too when the column \<open>transactions.block\<close> is missing. A scan range is
  its start, its end and its priority.
\<close>

record wallet_tx =
  wt_id :: nat
  wt_txid :: "byte list"
  wt_block :: "u32 option"
  wt_mined_height :: "u32 option"
  wt_raw :: "byte list option"

record received_note =
  rn_transaction_id :: nat
  rn_action_index :: u32
  rn_value :: u64
  rn_note_version :: nat
  rn_nf :: "byte list option"
  rn_commitment_tree_position :: "nat option"

record wallet_chain =
  wc_transactions :: "wallet_tx list option"
  wc_blocks :: "(u32 \<times> byte list) list option"
  wc_scan_queue :: "(u32 \<times> u32 \<times> nat) list option"
  wc_orchard_received_notes :: "received_note list option"
  wc_has_accounts :: bool

record chain_identity =
  ci_mined_height :: u32
  ci_block_hash :: hash32

definition txid_blob_variants ::
    "(string \<Rightarrow> byte list option) \<Rightarrow> string \<Rightarrow> run_error + byte list list" where
  "txid_blob_variants unhex txid_hex =
     rbind (ok_or BadTxidHex (unhex txid_hex)) (\<lambda>bytes.
     if length bytes \<noteq> 32 then Inl TxidNot32Bytes
     else Inr ([bytes] @ (if rev bytes \<noteq> bytes then [rev bytes] else [])))"

text \<open>The join of the transaction with the block that contains it.\<close>

definition included_in ::
    "wallet_tx list \<Rightarrow> (u32 \<times> byte list) list \<Rightarrow> byte list \<Rightarrow> (u32 \<times> byte list) list" where
  "included_in txs blocks txid =
     concat (map (\<lambda>t. case wt_block t of
        None \<Rightarrow> []
      | Some h \<Rightarrow> if wt_txid t = txid then filter (\<lambda>b. fst b = h) blocks else []) txs)"

fun first_inclusion ::
    "wallet_tx list \<Rightarrow> (u32 \<times> byte list) list \<Rightarrow> byte list list \<Rightarrow>
     run_error + chain_identity option" where
  "first_inclusion txs blocks [] = Inr None"
| "first_inclusion txs blocks (txid # txids) =
     (case included_in txs blocks txid of
        [] \<Rightarrow> first_inclusion txs blocks txids
      | (mined_height, block_hash) # _ \<Rightarrow>
          if length block_hash = 32
          then Inr (Some \<lparr>ci_mined_height = mined_height, ci_block_hash = Hash32 block_hash\<rparr>)
          else Inl BlockHashNot32Bytes)"

definition local_denomination_chain_identity ::
    "(string \<Rightarrow> byte list option) \<Rightarrow> wallet_chain \<Rightarrow> string \<Rightarrow> run_error + chain_identity option" where
  "local_denomination_chain_identity unhex chain txid_hex =
     (case wc_transactions chain of
        None \<Rightarrow> Inr None
      | Some txs \<Rightarrow>
          (case wc_blocks chain of
             None \<Rightarrow> Inl NoBlockIdentities
           | Some blocks \<Rightarrow>
               rbind (txid_blob_variants unhex txid_hex) (first_inclusion txs blocks)))"

text \<open>
  The confirmation depth: the widest scanned range around the height counts when its last block is
  still there, up to the depth that the policy asks for.
\<close>

definition scanned_range :: "(u32 \<times> u32 \<times> nat) list \<Rightarrow> u32 \<Rightarrow> (u32 \<times> u32) option" where
  "scanned_range queue height =
     (let rows = filter (\<lambda>(s, e, p). p = 10 \<and> s \<le> height \<and> e > height) queue in
      case rev (sort_key (\<lambda>(s, e, p). e) rows) of [] \<Rightarrow> None | (s, e, p) # _ \<Rightarrow> Some (s, e))"

definition synced_orchard_confirmation_count ::
    "u32 \<Rightarrow> wallet_chain \<Rightarrow> u32 \<Rightarrow> run_error + u32" where
  "synced_orchard_confirmation_count trusted chain height =
     (case (wc_has_accounts chain, wc_scan_queue chain, wc_blocks chain) of
        (True, Some queue, Some blocks) \<Rightarrow>
          (case scanned_range queue height of
             None \<Rightarrow> Inr 0
           | Some (range_start, range_end) \<Rightarrow>
               if range_start > height \<or> range_end \<le> height then Inr 0
               else
                 let scanned_through_height = range_end - 1 in
                 if \<not> list_ex (\<lambda>b. fst b = scanned_through_height) blocks then Inr 0
                 else Inr (min (case checked_sub scanned_through_height height of
                                  None \<Rightarrow> 0 | Some depth \<Rightarrow> saturating_add 32 depth 1)
                               (denomination_confirmations_required trusted)))
      | _ \<Rightarrow> Inl NoScanSchema)"

section \<open>Catching up after a missed preparation broadcast\<close>

definition remaining_stages :: "stage_db \<Rightarrow> string \<Rightarrow> stage_row list" where
  "remaining_stages db run_id =
     sort_key row_broadcast_key
       (filter (\<lambda>r. sr_run_id r = run_id \<and> sr_status r \<in> {''awaiting_inputs'', ''pending''})
          (db_stages db))"

fun catch_up_loop ::
    "'g delay_source \<Rightarrow> string \<Rightarrow> stage_row list \<Rightarrow> u32 \<Rightarrow> stage_db \<Rightarrow> 'g \<Rightarrow>
     (run_error + stage_db \<times> 'g) option" where
  "catch_up_loop delay run_id [] preceding_height db g = Some (Inr (db, g))"
| "catch_up_loop delay run_id (r # rest) preceding_height db g =
     Option.bind (delay g) (\<lambda>(d, g').
       case checked_add 32 preceding_height d of
         None \<Rightarrow> Some (Inl CatchUpHeightOverflow)
       | Some randomized_height \<Rightarrow>
           (let effective_height =
              max (max randomized_height (sr_scheduled_height r))
                (unwrap_or 0 (sr_broadcast_not_before_height r)) in
            case reschedule_stage run_id (sr_stage_index r) effective_height db of
              (Inl e, db') \<Rightarrow> Some (Inl (RunStage e))
            | (Inr _, db') \<Rightarrow> catch_up_loop delay run_id rest effective_height db' g'))"

definition rerandomize_remaining_preparation_broadcast_heights ::
    "'g sampler \<Rightarrow> migration_db \<Rightarrow> string \<Rightarrow> wallet_network \<Rightarrow> u32 \<Rightarrow> 'g \<Rightarrow>
     (run_error + u32 \<times> migration_db \<times> 'g) option" where
  "rerandomize_remaining_preparation_broadcast_heights env db run_id network chain_tip_height g =
     (case preparation_timing_policy_for_run_with_conn db run_id of
        Inl e \<Rightarrow> Some (Inl e)
      | Inr Immediate \<Rightarrow> Some (Inr (0, db, g))
      | Inr Zip318Spaced \<Rightarrow>
          (case rbind (timing_policy_for_run_with_conn db run_id) (\<lambda>timing_policy.
                rbind (count_for_run (count_stages (mdb_stages db) (\<lambda>r. sr_run_id r = run_id)))
                  (\<lambda>transaction_count. Inr (timing_policy, transaction_count))) of
             Inl e \<Rightarrow> Some (Inl e)
           | Inr (timing_policy, transaction_count) \<Rightarrow>
               (let remaining = remaining_stages (mdb_stages db) run_id in
                Option.bind
                  (catch_up_loop (preparation_delay env network timing_policy transaction_count)
                     run_id remaining chain_tip_height (mdb_stages db) g) (\<lambda>r.
                Some (rbind r (\<lambda>(stages, g').
                  rbind (try_u32 CatchUpCountOverflow (length remaining)) (\<lambda>n.
                  Inr (n, db\<lparr>mdb_stages := stages\<rparr>, g'))))))))"

end
