(* ===== verification/Chain_Reconcile.thy ===== *)
theory Chain_Reconcile
  imports Run_Store "HOL-Library.Char_ord" "HOL-Library.List_Lexorder"
begin

text \<open>
  Reconciling the denomination stages with the scanned chain
  (\<open>reconcile_denomination_stage_chain_state\<close> and
  \<open>reset_migration_children_for_reorged_denominations\<close> of \<open>migration.rs\<close>).

  A \<open>BTreeSet\<close> is a set, a \<open>BTreeMap\<close> a map; where the source iterates over one, the model takes the
  sorted list of its keys. The phases of the call are separate transactions in the source; the model
  runs them one after the other, with no other writer in between and the wallet's chain tables as
  they are at the call.
\<close>

section \<open>What the chain says of the stages\<close>

type_synonym identities = "string \<Rightarrow> chain_identity option"

definition current_identities ::
    "(string \<Rightarrow> run_error + chain_identity option) \<Rightarrow> stage_chain_record list \<Rightarrow> run_error + identities" where
  "current_identities identity records =
     try_fold (\<lambda>m record.
         rbind (identity (cr_expected_txid_hex record)) (\<lambda>i.
         Inr (m(to_ascii_lowercase (cr_expected_txid_hex record) := i))))
       (\<lambda>_. None) records"

definition record_txid :: "stage_chain_record \<Rightarrow> string" where
  "record_txid record = to_ascii_lowercase (cr_expected_txid_hex record)"

definition stored_matches :: "stage_chain_record \<Rightarrow> chain_identity \<Rightarrow> bool" where
  "stored_matches record identity \<longleftrightarrow>
     cr_confirmed_mined_height record = Some (ci_mined_height identity)
     \<and> cr_confirmed_block_hash record = Some (hash_bytes (ci_block_hash identity))"

record chain_findings =
  cf_affected :: "string set"
  cf_invalid_stages :: "string set"
  cf_identities_to_record :: "string \<Rightarrow> chain_identity option"
  cf_recovered_pending :: "string set"

definition no_findings :: chain_findings where
  "no_findings = \<lparr>cf_affected = {}, cf_invalid_stages = {}, cf_identities_to_record = (\<lambda>_. None),
     cf_recovered_pending = {}\<rparr>"

text \<open>The match on the status of a record and its current identity.\<close>

definition classify_record :: "identities \<Rightarrow> stage_chain_record \<Rightarrow> chain_findings \<Rightarrow> chain_findings" where
  "classify_record current record f =
     (let txid = record_txid record in
      case (cr_status record, current txid) of
        (AwaitingInputs, Some identity) \<Rightarrow>
          f\<lparr>cf_identities_to_record := (cf_identities_to_record f)(txid \<mapsto> identity)\<rparr>
      | (Pending, Some identity) \<Rightarrow>
          f\<lparr>cf_recovered_pending := insert txid (cf_recovered_pending f),
            cf_identities_to_record := (cf_identities_to_record f)(txid \<mapsto> identity)\<rparr>
      | (Broadcasted, Some identity) \<Rightarrow>
          f\<lparr>cf_identities_to_record := (cf_identities_to_record f)(txid \<mapsto> identity)\<rparr>
      | (Confirmed, None) \<Rightarrow>
          f\<lparr>cf_affected := insert txid (cf_affected f),
            cf_invalid_stages := insert txid (cf_invalid_stages f)\<rparr>
      | (Confirmed, Some identity) \<Rightarrow>
          if \<not> stored_matches record identity
          then f\<lparr>cf_affected := insert txid (cf_affected f),
                 cf_identities_to_record := (cf_identities_to_record f)(txid \<mapsto> identity)\<rparr>
          else f
      | _ \<Rightarrow> f)"

text \<open>One pass of the propagation over all records, with the sets updated in place.\<close>

definition sweep_record ::
    "identities \<Rightarrow> stage_chain_record \<Rightarrow> string set \<times> string set \<Rightarrow> string set \<times> string set" where
  "sweep_record current record sets =
     (case sets of (affected, invalid) \<Rightarrow>
        if list_ex (\<lambda>parent. parent \<in> affected) (cr_parent_txids record)
        then (insert (record_txid record) affected,
              if current (record_txid record) = None then insert (record_txid record) invalid else invalid)
        else (affected, invalid))"

definition sweep ::
    "identities \<Rightarrow> stage_chain_record list \<Rightarrow> string set \<times> string set \<Rightarrow> string set \<times> string set" where
  "sweep current records sets = fold (sweep_record current) records sets"

lemma sweep_record_grows: "fst sets \<subseteq> fst (sweep_record current record sets)"
  by (auto simp: sweep_record_def split: prod.splits)

lemma sweep_record_bound: "fst (sweep_record current record sets) \<subseteq> insert (record_txid record) (fst sets)"
  by (auto simp: sweep_record_def split: prod.splits)

lemma sweep_Cons: "sweep current (r # rs) sets = sweep current rs (sweep_record current r sets)"
  by (simp add: sweep_def)

lemma sweep_grows: "fst sets \<subseteq> fst (sweep current records sets)"
proof (induction records arbitrary: sets)
  case (Cons r rs)
  then show ?case unfolding sweep_Cons using sweep_record_grows by (metis subset_trans)
qed (simp add: sweep_def)

lemma sweep_bound: "fst (sweep current records sets) \<subseteq> fst sets \<union> record_txid ` set records"
proof (induction records arbitrary: sets)
  case (Cons r rs)
  show ?case
    unfolding sweep_Cons using Cons.IH [of "sweep_record current r sets"] sweep_record_bound [of current r sets]
    by auto
qed (simp add: sweep_def)

text \<open>The loop: passes until one adds nothing.\<close>

function propagate ::
    "identities \<Rightarrow> stage_chain_record list \<Rightarrow> string set \<times> string set \<Rightarrow> string set \<times> string set" where
  "propagate current records sets =
     (let sets' = sweep current records sets in
      if card (fst sets') = card (fst sets) then sets' else propagate current records sets')"
  by pat_completeness auto

lemma sweep_progress:
  assumes "card (fst (sweep current records sets)) \<noteq> card (fst sets)"
  shows "card (record_txid ` set records - fst (sweep current records sets)) <
     card (record_txid ` set records - fst sets)"
proof (rule psubset_card_mono)
  let ?A = "fst sets" and ?A' = "fst (sweep current records sets)" and ?T = "record_txid ` set records"
  have "?A \<noteq> ?A'" using assms by auto
  then obtain t where "t \<in> ?A'" "t \<notin> ?A" "t \<in> ?T" using sweep_grows [of sets current records] sweep_bound [of current records sets] by blast
  then show "?T - ?A' \<subset> ?T - ?A" using sweep_grows [of sets current records] by blast
qed simp

termination propagate
  by (relation "measure (\<lambda>(current, records, sets). card (record_txid ` set records - fst sets))")
    (auto dest: sweep_progress)

declare propagate.simps [simp del]

section \<open>Resetting the migration children\<close>

definition children_of :: "migration_db \<Rightarrow> string \<Rightarrow> string \<Rightarrow> (string \<times> u32) list" where
  "children_of db run_id txid =
     map (\<lambda>p. (pt_txid_hex p, pt_selected_note_output_index p))
       (filter (\<lambda>p. pt_run_id p = run_id \<and> to_ascii_lowercase (pt_selected_note_txid p) = txid)
          (mdb_pending db))"

definition delete_pending :: "string \<Rightarrow> string \<Rightarrow> migration_db \<Rightarrow> migration_db" where
  "delete_pending run_id txid db =
     db\<lparr>mdb_pending := filter (\<lambda>p. \<not> (pt_run_id p = run_id \<and> pt_txid_hex p = txid)) (mdb_pending db)\<rparr>"

fun reset_child_rows ::
    "(string \<Rightarrow> run_error + chain_identity option) \<Rightarrow> string \<Rightarrow> (string \<times> u32) list \<Rightarrow>
     u32 set \<times> bool \<times> migration_db \<Rightarrow> run_error + u32 set \<times> bool \<times> migration_db" where
  "reset_child_rows identity run_id [] state = Inr state"
| "reset_child_rows identity run_id ((child_txid, output_index) # rows) (included, reset_any, db) =
     rbind (identity child_txid) (\<lambda>i.
     if i \<noteq> None then reset_child_rows identity run_id rows (insert output_index included, reset_any, db)
     else reset_child_rows identity run_id rows (included, True, delete_pending run_id child_txid db))"

definition note_indices :: "migration_db \<Rightarrow> string \<Rightarrow> string \<Rightarrow> u32 list" where
  "note_indices db run_id txid =
     map nr_output_index
       (filter (\<lambda>n. nr_run_id n = run_id \<and> to_ascii_lowercase (nr_txid_hex n) = txid) (mdb_notes db))"

definition reset_note :: "string \<Rightarrow> string \<Rightarrow> u32 \<Rightarrow> migration_db \<Rightarrow> migration_db" where
  "reset_note run_id txid output_index db =
     db\<lparr>mdb_notes := map (\<lambda>n.
        if nr_run_id n = run_id \<and> to_ascii_lowercase (nr_txid_hex n) = txid
           \<and> nr_output_index n = output_index
        then n\<lparr>nr_nullifier_hex := None, nr_lock_state := ''locked''\<rparr> else n) (mdb_notes db)\<rparr>"

definition reset_notes ::
    "string \<Rightarrow> string \<Rightarrow> u32 set \<Rightarrow> u32 list \<Rightarrow> bool \<times> migration_db \<Rightarrow> bool \<times> migration_db" where
  "reset_notes run_id txid included indices state =
     fold (\<lambda>output_index (reset_any, db).
         if output_index \<in> included then (reset_any, db)
         else (True, reset_note run_id txid output_index db)) indices state"

definition reset_children_of ::
    "(string \<Rightarrow> run_error + chain_identity option) \<Rightarrow> string \<Rightarrow> bool \<times> migration_db \<Rightarrow> string \<Rightarrow>
     run_error + bool \<times> migration_db" where
  "reset_children_of identity run_id state denomination_txid =
     (case state of (reset_any, db) \<Rightarrow>
      let txid = to_ascii_lowercase denomination_txid in
      rbind (reset_child_rows identity run_id (children_of db run_id txid) ({}, reset_any, db))
        (\<lambda>(included, reset_any', db').
      Inr (reset_notes run_id txid included (note_indices db' run_id txid) (reset_any', db'))))"

definition await_denominations :: "int \<Rightarrow> bool \<Rightarrow> run_row \<Rightarrow> run_row" where
  "await_denominations now clear_retry r =
     (let r' = r\<lparr>rr_phase := PHASE_WAITING_DENOM_CONFIRMATIONS, rr_updated_at_ms := now,
                 rr_last_error := None\<rparr>
      in if clear_retry then r'\<lparr>rr_proof_retry_height := None\<rparr> else r')"

definition open_run :: "string \<Rightarrow> run_row \<Rightarrow> bool" where
  "open_run run_id r \<longleftrightarrow>
     rr_run_id r = run_id \<and> rr_phase r \<notin> {PHASE_COMPLETE, PHASE_FAILED_TERMINAL, PHASE_ABANDONED}"

text \<open>One transaction: an error leaves the tables as they were.\<close>

definition reset_migration_children_for_reorged_denominations ::
    "(string \<Rightarrow> run_error + chain_identity option) \<Rightarrow> int \<Rightarrow> migration_db \<Rightarrow> string \<Rightarrow> string set \<Rightarrow>
     (run_error + bool) \<times> migration_db" where
  "reset_migration_children_for_reorged_denominations identity now db run_id denomination_txids =
     (if denomination_txids = {} then (Inr False, db)
      else
        (case run_phase db run_id of
           Inl e \<Rightarrow> (Inl e, db)
         | Inr phase \<Rightarrow>
             if migration_phase_releases_wallet_locks phase then (Inr False, db)
             else
               (case try_fold (reset_children_of identity run_id) (False, db)
                       (sorted_list_of_set denomination_txids) of
                  Inl e \<Rightarrow> (Inl e, db)
                | Inr (reset_any, db') \<Rightarrow>
                    if reset_any
                    then (Inr True, snd (sql_update_runs (open_run run_id) (await_denominations now True) db'))
                    else (Inr False, db'))))"

section \<open>The reconciliation\<close>

definition chain_findings_of :: "identities \<Rightarrow> stage_chain_record list \<Rightarrow> chain_findings" where
  "chain_findings_of current records =
     (let f = fold (classify_record current) records no_findings;
          (affected, invalid) = propagate current records (cf_affected f, cf_invalid_stages f)
      in f\<lparr>cf_affected := affected, cf_invalid_stages := invalid\<rparr>)"

text \<open>The network and chain tip that a catch-up needs, read only when one can be due.\<close>

definition recovery_context ::
    "build_flavor \<Rightarrow> (run_error + u32) \<Rightarrow> migration_db \<Rightarrow> string \<Rightarrow> string set \<Rightarrow>
     run_error + (wallet_network \<times> u32) option" where
  "recovery_context flavor chain_tip db run_id recovered =
     (if recovered = {} then Inr None
      else
        rbind (preparation_timing_policy_for_run_with_conn db run_id) (\<lambda>policy.
        if policy = Immediate then Inr None
        else
          rbind (run_network flavor db run_id) (\<lambda>network.
          rbind chain_tip (\<lambda>tip. Inr (Some (network, tip))))))"

definition still_pending :: "migration_db \<Rightarrow> string \<Rightarrow> bool \<Rightarrow> string \<Rightarrow> run_error + bool" where
  "still_pending db run_id recovered_pending_stage txid =
     rbind (ok_or RunRowMissing (find_stage (mdb_stages db) run_id txid)) (\<lambda>r.
     Inr (recovered_pending_stage \<or> sr_status r = ''pending''))"

text \<open>A store call inside the transaction: its error ends the transaction.\<close>

definition in_tx :: "(stage_error + unit) \<times> stage_db \<Rightarrow> run_error + stage_db" where
  "in_tx r = (case r of (Inl e, s) \<Rightarrow> Inl (RunStage e) | (Inr _, s) \<Rightarrow> Inr s)"

definition reset_invalid :: "string \<Rightarrow> string set \<Rightarrow> stage_db \<Rightarrow> run_error + stage_db" where
  "reset_invalid run_id invalid s =
     try_fold (\<lambda>s txid. in_tx (reset_denomination_stage_exact s run_id txid)) s
       (sorted_list_of_set invalid)"

definition record_identities ::
    "string \<Rightarrow> string set \<Rightarrow> (string \<Rightarrow> chain_identity option) \<Rightarrow> stage_db \<Rightarrow> run_error + stage_db" where
  "record_identities run_id invalid identities s =
     try_fold (\<lambda>s txid.
         if txid \<in> invalid then Inr s
         else
           (case identities txid of
              None \<Rightarrow> Inr s
            | Some i \<Rightarrow>
                in_tx (replace_denomination_stage_confirmation_identity s run_id txid
                  (ci_mined_height i) (ci_block_hash i)))) s
       (sorted_list_of_set (dom identities))"

text \<open>The stage transaction: \<open>None\<close> is a run that has released its locks, which ends the call.\<close>

definition apply_findings ::
    "'g sampler \<Rightarrow> migration_db \<Rightarrow> string \<Rightarrow> chain_findings \<Rightarrow> (wallet_network \<times> u32) option \<Rightarrow> 'g \<Rightarrow>
     (run_error + migration_db option) option" where
  "apply_findings env db run_id f context g =
     (case rbind (run_phase db run_id) (\<lambda>phase.
           if migration_phase_releases_wallet_locks phase then Inr None
           else
             rbind (try_fold (still_pending db run_id) False (sorted_list_of_set (cf_recovered_pending f)))
               (\<lambda>recovered_pending_stage.
             rbind (reset_invalid run_id (cf_invalid_stages f) (mdb_stages db)) (\<lambda>s1.
             rbind (record_identities run_id (cf_invalid_stages f) (cf_identities_to_record f) s1) (\<lambda>s2.
             Inr (Some (recovered_pending_stage, db\<lparr>mdb_stages := s2\<rparr>)))))) of
        Inl e \<Rightarrow> Some (Inl e)
      | Inr None \<Rightarrow> Some (Inr None)
      | Inr (Some (recovered_pending_stage, db')) \<Rightarrow>
          (case (recovered_pending_stage, context) of
             (True, Some (network, chain_tip_height)) \<Rightarrow>
               map_option (\<lambda>r. rbind r (\<lambda>(n, db'', g'). Inr (Some db'')))
                 (rerandomize_remaining_preparation_broadcast_heights env db' run_id network
                    chain_tip_height g)
           | _ \<Rightarrow> Some (Inr (Some db'))))"

definition reconcile_denomination_stage_chain_state ::
    "'g sampler \<Rightarrow> build_flavor \<Rightarrow> (string \<Rightarrow> run_error + chain_identity option) \<Rightarrow> (run_error + u32) \<Rightarrow>
     int \<Rightarrow> migration_db \<Rightarrow> string \<Rightarrow> 'g \<Rightarrow> ((run_error + unit) \<times> migration_db) option" where
  "reconcile_denomination_stage_chain_state env flavor identity chain_tip now db run_id g =
     (case map_error RunStage (denomination_stage_chain_records (mdb_stages db) run_id) of
        Inl e \<Rightarrow> Some (Inl e, db)
      | Inr records \<Rightarrow>
          if records = [] then Some (Inr (), db)
          else
            (case rbind (current_identities identity records) (\<lambda>current.
                  let f = chain_findings_of current records in
                  rbind (recovery_context flavor chain_tip db run_id (cf_recovered_pending f)) (\<lambda>context.
                  Inr (f, context))) of
               Inl e \<Rightarrow> Some (Inl e, db)
             | Inr (f, context) \<Rightarrow>
                 (case (if cf_affected f \<noteq> {}
                        then reset_migration_children_for_reorged_denominations identity now db run_id
                               (cf_affected f)
                        else (Inr False, db)) of
                    (Inl e, db1) \<Rightarrow> Some (Inl e, db1)
                  | (Inr _, db1) \<Rightarrow>
                      Option.bind
                        (if cf_invalid_stages f \<noteq> {} \<or> dom (cf_identities_to_record f) \<noteq> {}
                         then apply_findings env db1 run_id f context g
                         else Some (Inr (Some db1))) (\<lambda>r.
                      Some (case r of
                         Inl e \<Rightarrow> (Inl e, db1)
                       | Inr None \<Rightarrow> (Inr (), db1)
                       | Inr (Some db2) \<Rightarrow>
                           (Inr (),
                            if cf_affected f \<noteq> {}
                            then snd (sql_update_runs (open_run run_id) (await_denominations now False) db2)
                            else db2))))))"

end
