(* ===== verification/Stage_Refinement.thy ===== *)
theory Stage_Refinement
  imports Stage_Properties
begin

text \<open>
  The guarded updates of the store refine a state machine: per stage of a run its index and its
  state, and the nonces of the encryption. The machine has no tables, no columns and no row counts.
\<close>

section \<open>The state machine\<close>

datatype stage_op =
  OpPromote u32 "byte list" "byte list" string | OpBroadcast | OpConfirm u32 hash32
| OpReplace u32 hash32 | OpReset

text \<open>
  The errors carry what the source's messages carry; \<open>txid\<close> is the transaction as the caller spelled
  it.
\<close>

fun spec_move :: "stage_op \<Rightarrow> string \<Rightarrow> (u32 \<times> stage_state) option \<Rightarrow> (stage_error + unit) \<times> (u32 \<times> stage_state) option" where
  "spec_move (OpPromote idx raw_tx password salt64) txid s =
     (case s of
        Some (i, SAwaiting) \<Rightarrow> if i = idx then (Inr (), Some (i, SPending)) else (Inl (NotAwaitingInputs idx), s)
      | _ \<Rightarrow> (Inl (NotAwaitingInputs idx), s))"
| "spec_move OpBroadcast txid s =
     (case s of
        None \<Rightarrow> (Inl (StageNotFound (to_ascii_lowercase txid)), s)
      | Some (i, SAwaiting) \<Rightarrow> (Inl (CannotMove AwaitingInputs Broadcasted), s)
      | Some (i, SPending) \<Rightarrow> (Inr (), Some (i, SBroadcasted))
      | Some (i, SBroadcasted) \<Rightarrow> (Inr (), s)
      | Some (i, SConfirmed h b) \<Rightarrow> (Inr (), s))"
| "spec_move (OpConfirm h b) txid s =
     (case s of
        None \<Rightarrow> (Inl (StageNotFound (to_ascii_lowercase txid)), s)
      | Some (i, SAwaiting) \<Rightarrow> (Inl (CannotMove AwaitingInputs Confirmed), s)
      | Some (i, SConfirmed h' b') \<Rightarrow>
          if h' = h \<and> b' = hash_bytes b then (Inr (), s)
          else (Inl (DifferentInclusion (to_ascii_lowercase txid)), s)
      | Some (i, _) \<Rightarrow> (Inr (), Some (i, SConfirmed h (hash_bytes b))))"
| "spec_move (OpReplace h b) txid s =
     (case s of
        None \<Rightarrow> (Inl (CannotRecordInclusion txid), s)
      | Some (i, _) \<Rightarrow> (Inr (), Some (i, SConfirmed h (hash_bytes b))))"
| "spec_move OpReset txid s =
     (case s of
        None \<Rightarrow> (Inl (StageNotFound txid), s)
      | Some (i, _) \<Rightarrow> (Inr (), Some (i, SAwaiting)))"

definition spec_op :: "string \<times> string \<times> stage_op \<Rightarrow> stage_view \<Rightarrow> (stage_error + unit) \<times> stage_view" where
  "spec_op call v =
     (case call of (rid, txid, op) \<Rightarrow>
        (case validate_txid_hex txid of
           Inl e \<Rightarrow> (Inl e, v)
         | Inr _ \<Rightarrow>
             (let key = (rid, to_ascii_lowercase txid); (r, s) = spec_move op txid (v key)
              in (r, v(key := s)))))"

text \<open>
  What an operation needs before it may move a stage: a promotion needs bytes, a salt and a cipher that
  takes them, and uses up a nonce; a refused promotion moves nothing.
\<close>

definition sealing :: "'n payload_cipher \<Rightarrow> stage_op \<Rightarrow> 'n \<Rightarrow> stage_error + 'n" where
  "sealing cipher op n =
     (case op of
        OpPromote idx raw_tx password salt64 \<Rightarrow>
          if raw_tx = [] then Inl RawTransactionEmpty
          else
            rbind (ok_or SaltInvalid (decode_salt cipher salt64)) (\<lambda>salt.
            rbind (ok_or EncryptFailed (encrypt_payload cipher raw_tx password salt n)) (\<lambda>(c, n'). Inr n'))
      | _ \<Rightarrow> Inr n)"

definition machine_op ::
    "'n payload_cipher \<Rightarrow> string \<times> string \<times> stage_op \<Rightarrow> stage_view \<times> 'n \<Rightarrow> (stage_error + unit) \<times> stage_view \<times> 'n" where
  "machine_op cipher call state =
     (case (call, state) of ((rid, txid, op), (v, n)) \<Rightarrow>
        (case rbind (validate_txid_hex txid) (\<lambda>_. sealing cipher op n) of
           Inl e \<Rightarrow> (Inl e, v, n)
         | Inr n' \<Rightarrow> (let (r, v') = spec_op call v in (r, v', n'))))"

section \<open>The store\<close>

text \<open>One call on the store; a promotion encrypts with the nonce state at hand.\<close>

definition store_op ::
    "'n payload_cipher \<Rightarrow> string \<times> string \<times> stage_op \<Rightarrow> stage_db \<times> 'n \<Rightarrow>
     (stage_error + unit) \<times> stage_db \<times> 'n" where
  "store_op cipher call state =
     (case (call, state) of ((rid, txid, op), (db, n)) \<Rightarrow>
        (case op of
           OpPromote idx raw_tx password salt64 \<Rightarrow>
             promote_awaiting_denomination_stage cipher db rid idx txid raw_tx password salt64 n
         | OpBroadcast \<Rightarrow> (let (r, db') = mark_denomination_stage_broadcasted db rid txid in (r, db', n))
         | OpConfirm h b \<Rightarrow> (let (r, db') = mark_denomination_stage_confirmed_at db rid txid h b in (r, db', n))
         | OpReplace h b \<Rightarrow>
             (let (r, db') = replace_denomination_stage_confirmation_identity db rid txid h b
              in (r, db', n))
         | OpReset \<Rightarrow> (let (r, db') = reset_denomination_stage_exact db rid txid in (r, db', n))))"

text \<open>A sequence of calls, with the result of each.\<close>

fun run_calls :: "('c \<Rightarrow> 's \<Rightarrow> 'r \<times> 's) \<Rightarrow> 'c list \<Rightarrow> 's \<Rightarrow> 'r list \<times> 's" where
  "run_calls step [] s = ([], s)"
| "run_calls step (c # cs) s =
     (let (r, s') = step c s; (rs, s'') = run_calls step cs s' in (r # rs, s''))"

section \<open>Rows and states\<close>

lemma row_state_ops [simp]:
  "row_state (promote_row c r) = SPending"
  "row_state (set_status Broadcasted r) = SBroadcasted"
  "row_state (confirm_row h b r) = SConfirmed h b"
  "row_state (reset_row r) = SAwaiting"
  by (simp_all add: row_state_def row_ops unwrap_or_def)

lemma row_index_ops [simp]:
  "sr_stage_index (promote_row c r) = sr_stage_index r"
  "sr_stage_index (set_status s r) = sr_stage_index r"
  "sr_stage_index (confirm_row h b r) = sr_stage_index r"
  "sr_stage_index (reset_row r) = sr_stage_index r"
  by (simp_all add: row_ops)

text \<open>The states of a checked row, with what each says of the columns.\<close>

lemma row_state_cases:
  assumes "stage_row_check r"
  obtains
    (awaiting) "sr_status r = ''awaiting_inputs''" "row_state r = SAwaiting" "sr_encrypted_raw_tx r = None"
  | (pending) "sr_status r = ''pending''" "row_state r = SPending"
  | (broadcasted) "sr_status r = ''broadcasted''" "row_state r = SBroadcasted"
  | (confirmed) h b where "sr_status r = ''confirmed''" "row_state r = SConfirmed h b"
      "sr_confirmed_mined_height r = Some h" "sr_confirmed_block_hash r = Some b"
  using assms by (auto simp: stage_row_check_def row_state_def unwrap_or_def split: option.splits)

lemma view_find:
  "view db (rid, txid) = map_option (\<lambda>r. (sr_stage_index r, row_state r)) (find_stage db rid txid)"
  by (simp add: view_def row_view_def [abs_def])

lemma found_row_check: "db_ok db \<Longrightarrow> find_stage db rid txid = Some r \<Longrightarrow> stage_row_check r"
  using find_stage_Some by (fastforce simp: db_ok_def stages_ok_def)

lemma view_unchanged: "view db key = s \<Longrightarrow> (view db)(key := s) = view db"
  by auto

section \<open>One call refines one move\<close>

lemmas spec_simps = spec_op_def view_find view_unchanged Let_def stage_status_parse_def row_view_def

lemma refine_broadcast:
  assumes ok: "db_ok db"
  shows "map_prod id view (mark_denomination_stage_broadcasted db rid txid) =
     spec_op (rid, txid, OpBroadcast) (view db)"
proof (cases "validate_txid_hex txid")
  case (Inr u)
  let ?t = "to_ascii_lowercase txid"
  note defs = mark_denomination_stage_broadcasted_def transition_stage_def spec_simps Inr
  show ?thesis
  proof (cases "find_stage db rid ?t")
    case None
    then show ?thesis using broadcasting.miss [of db rid ?t] ok by (simp add: defs)
  next
    case (Some r)
    from found_row_check [OF ok Some] show ?thesis
    proof (cases rule: row_state_cases)
      case pending
      then show ?thesis using broadcasting.hit [OF ok Some] Some by (auto simp: defs)
    qed (use broadcasting.miss [of db rid ?t] ok Some in \<open>simp_all add: defs\<close>)
  qed
qed (simp add: mark_denomination_stage_broadcasted_def transition_stage_def spec_op_def)

lemma refine_confirm:
  assumes ok: "db_ok db"
  shows "map_prod id view (mark_denomination_stage_confirmed_at db rid txid h b) =
     spec_op (rid, txid, OpConfirm h b) (view db)"
proof (cases "validate_txid_hex txid")
  case (Inr u)
  let ?t = "to_ascii_lowercase txid"
  note defs = mark_denomination_stage_confirmed_at_def spec_simps Inr
  show ?thesis
  proof (cases "find_stage db rid ?t")
    case None
    then show ?thesis using confirming.miss [of db rid ?t h b] ok by (simp add: defs)
  next
    case (Some r)
    from found_row_check [OF ok Some] show ?thesis
    proof (cases rule: row_state_cases)
      case pending
      then show ?thesis using confirming.hit [OF ok Some, of h b] Some by (auto simp: defs)
    next
      case broadcasted
      then show ?thesis using confirming.hit [OF ok Some, of h b] Some by (auto simp: defs)
    qed (use confirming.miss [of db rid ?t h b] ok Some in \<open>simp_all add: defs\<close>)
  qed
qed (simp add: mark_denomination_stage_confirmed_at_def spec_op_def)

lemma refine_replace:
  assumes ok: "db_ok db"
  shows "map_prod id view (replace_denomination_stage_confirmation_identity db rid txid h b) =
     spec_op (rid, txid, OpReplace h b) (view db)"
proof (cases "validate_txid_hex txid")
  case (Inr u)
  let ?t = "to_ascii_lowercase txid"
  note defs = replace_denomination_stage_confirmation_identity_def spec_simps Inr
  show ?thesis
  proof (cases "find_stage db rid ?t")
    case None
    then show ?thesis using replacing.miss [of db rid ?t h b] ok by (simp add: defs)
  next
    case (Some r)
    from found_row_check [OF ok Some] show ?thesis
      by (cases rule: row_state_cases)
        (use replacing.hit [OF ok Some, of h b] Some in \<open>auto simp: defs\<close>)
  qed
qed (simp add: replace_denomination_stage_confirmation_identity_def spec_op_def)

lemma refine_reset:
  assumes ok: "db_ok db"
  shows "map_prod id view (reset_denomination_stage_exact db rid txid) =
     spec_op (rid, txid, OpReset) (view db)"
proof (cases "validate_txid_hex txid")
  case (Inr u)
  let ?t = "to_ascii_lowercase txid"
  note defs = reset_denomination_stage_exact_def spec_simps Inr
  show ?thesis
  proof (cases "find_stage db rid ?t")
    case None
    then show ?thesis using resetting.miss [of db rid ?t] ok by (simp add: defs)
  next
    case (Some r)
    then show ?thesis using resetting.hit [OF ok Some] by (auto simp: defs)
  qed
qed (simp add: reset_denomination_stage_exact_def spec_op_def)

lemma refine_promote:
  assumes ok: "db_ok db"
  shows "map_prod id (map_prod view id)
       (promote_awaiting_denomination_stage cipher db rid idx txid raw_tx password salt64 n) =
     machine_op cipher (rid, txid, OpPromote idx raw_tx password salt64) (view db, n)"
proof (cases "rbind (validate_txid_hex txid) (\<lambda>_. sealing cipher (OpPromote idx raw_tx password salt64) n)")
  case (Inl e)
  then show ?thesis
    by (cases "validate_txid_hex txid"; cases "decode_salt cipher salt64")
      (auto simp: promote_awaiting_denomination_stage_def machine_op_def sealing_def ok_or_def split: if_splits option.splits)
next
  case (Inr n')
  let ?t = "to_ascii_lowercase txid"
  obtain u where u: "validate_txid_hex txid = Inr u" using Inr by (cases "validate_txid_hex txid") auto
  with Inr have "sealing cipher (OpPromote idx raw_tx password salt64) n = Inr n'" by simp
  then obtain salt c where e: "raw_tx \<noteq> []" "decode_salt cipher salt64 = Some salt"
      "encrypt_payload cipher raw_tx password salt n = Some (c, n')"
    by (auto simp: sealing_def ok_or_def split: if_splits option.splits)
  have machine: "machine_op cipher (rid, txid, OpPromote idx raw_tx password salt64) (view db, n) =
      (let (r, v') = spec_op (rid, txid, OpPromote idx raw_tx password salt64) (view db) in (r, v', n'))"
    using Inr by (simp add: machine_op_def)
  note defs = promote_awaiting_denomination_stage_def promote_pred spec_simps machine u e
  show ?thesis
  proof (cases "find_stage db rid ?t")
    case None
    then show ?thesis using promoting.miss [of db rid ?t idx c] ok by (simp add: defs)
  next
    case (Some r)
    from found_row_check [OF ok Some] show ?thesis
    proof (cases rule: row_state_cases)
      case awaiting
      show ?thesis
      proof (cases "sr_stage_index r = idx")
        case True
        then show ?thesis using promoting.hit [OF ok Some, of idx c] awaiting Some by (auto simp: defs)
      qed (use promoting.miss [of db rid ?t idx c] ok awaiting Some in \<open>simp add: defs\<close>)
    qed (use promoting.miss [of db rid ?t idx c] ok Some in \<open>simp_all add: defs\<close>)
  qed
qed

text \<open>The other operations use no nonce.\<close>

lemma machine_op_quiet:
  "sealing cipher op n = Inr n \<Longrightarrow>
     machine_op cipher (rid, txid, op) (v, n) = (let (r, v') = spec_op (rid, txid, op) v in (r, v', n))"
  by (cases "validate_txid_hex txid") (simp_all add: machine_op_def spec_op_def)

lemma quiet_refines:
  assumes "map_prod id view f = spec_op (rid, txid, op) v" and "sealing cipher op n = Inr n"
  shows "map_prod id (map_prod view id) (let (r, db') = f in (r, db', n)) = machine_op cipher (rid, txid, op) (v, n)"
  unfolding machine_op_quiet [OF assms(2)] assms(1) [symmetric] by (cases f) simp

section \<open>Runs of calls\<close>

lemma refine_op:
  assumes "db_ok db"
  shows "map_prod id (map_prod view id) (store_op cipher call (db, n)) = machine_op cipher call (view db, n)"
proof (cases call rule: prod_cases3)
  case (fields rid txid op)
  show ?thesis
  proof (cases op)
    case OpPromote
    then show ?thesis using refine_promote [OF assms] by (simp add: fields store_op_def)
  next
    case OpBroadcast
    then show ?thesis using quiet_refines [OF refine_broadcast [OF assms, of rid txid], of cipher n] by (simp add: fields store_op_def sealing_def)
  next
    case (OpConfirm h b)
    then show ?thesis using quiet_refines [OF refine_confirm [OF assms, of rid txid h b], of cipher n] by (simp add: fields store_op_def sealing_def)
  next
    case (OpReplace h b)
    then show ?thesis using quiet_refines [OF refine_replace [OF assms, of rid txid h b], of cipher n] by (simp add: fields store_op_def sealing_def)
  next
    case OpReset
    then show ?thesis using quiet_refines [OF refine_reset [OF assms, of rid txid], of cipher n] by (simp add: fields store_op_def sealing_def)
  qed
qed

lemma store_op_kept: "kept_step cipher db (fst (snd (store_op cipher call (db, n))))"
proof (cases call rule: prod_cases3)
  case (fields rid txid op)
  show ?thesis
    by (cases op) (simp_all add: fields store_op_def Let_def split_beta kept_step.intros)
qed

lemma run_calls_Cons:
  "run_calls step (c # cs) s =
     (let (r, s') = step c s in (r # fst (run_calls step cs s'), snd (run_calls step cs s')))"
  by (simp add: Let_def split_beta)

declare run_calls.simps(2) [simp del]

lemma run_calls_refine:
  assumes "db_ok db" and "run_calls (store_op cipher) calls (db, n) = (results, db', n')"
  shows "run_calls (machine_op cipher) calls (view db, n) = (results, view db', n') \<and> db_ok db'"
  using assms
proof (induction calls arbitrary: db n results)
  case (Cons call calls)
  obtain r db1 n1 where step: "store_op cipher call (db, n) = (r, db1, n1)" by (metis prod_cases3)
  obtain rs where rs: "run_calls (store_op cipher) calls (db1, n1) = (rs, db', n')" "results = r # rs"
    using Cons.prems(2) step by (cases "run_calls (store_op cipher) calls (db1, n1)") (simp add: run_calls_Cons)
  have "machine_op cipher call (view db, n) = (r, view db1, n1)"
    using refine_op [OF Cons.prems(1), of cipher call n] step by simp
  moreover have "db_ok db1"
    using kept_step_ok [OF store_op_kept Cons.prems(1), of cipher call n] step by simp
  ultimately show ?case using Cons.IH [OF _ rs(1)] rs(2) by (simp add: run_calls_Cons)
qed simp

text \<open>
  C3. The guarded updates refine the stage machine: from tables that are in order, any sequence of
  promotions, broadcasts, confirmations, replacements and resets, with any run, transaction and
  arguments and any cipher, returns call by call the result the machine returns, error values included,
  and leaves every stage in the machine's state and the tables in order. A promotion whose bytes are
  missing, whose salt cannot be decoded or whose bytes cannot be encrypted is refused with the machine's
  error and moves no stage.
\<close>

theorem store_refines_machine:
  assumes "db_ok db" and "run_calls (store_op cipher) calls (db, n) = (results, db', n')"
  shows "run_calls (machine_op cipher) calls (view db, n) = (results, view db', n') \<and> db_ok db'"
  using assms by (rule run_calls_refine)

section \<open>Progress\<close>

fun state_rank :: "stage_state \<Rightarrow> nat" where
  "state_rank SAwaiting = 0"
| "state_rank SPending = 1"
| "state_rank SBroadcasted = 2"
| "state_rank (SConfirmed h b) = 3"

definition forward_op :: "stage_op \<Rightarrow> bool" where
  "forward_op op \<longleftrightarrow> (\<forall>h b. op \<noteq> OpReplace h b) \<and> op \<noteq> OpReset"

definition advanced :: "(u32 \<times> stage_state) option \<Rightarrow> (u32 \<times> stage_state) option \<Rightarrow> bool" where
  "advanced s s' \<longleftrightarrow>
     (case (s, s') of
        (None, None) \<Rightarrow> True
      | (Some (i, a), Some (i', a')) \<Rightarrow>
          i' = i \<and> (a' = a \<or> state_rank a < state_rank a')
      | _ \<Rightarrow> False)"

lemma advanced_refl [simp]: "advanced s s"
  by (simp add: advanced_def split: option.splits)

lemma advanced_trans: "advanced a b \<Longrightarrow> advanced b c \<Longrightarrow> advanced a c"
  by (auto simp: advanced_def split: option.splits)

lemma spec_move_advanced: "forward_op op \<Longrightarrow> advanced s (snd (spec_move op txid s))"
  by (cases op) (auto simp: forward_op_def advanced_def split: option.splits stage_state.splits)

lemma spec_op_advanced: "forward_op (snd (snd call)) \<Longrightarrow> advanced (v key) (snd (spec_op call v) key)"
  using spec_move_advanced
  by (auto simp: spec_op_def Let_def split: prod.splits sum.splits) (metis snd_conv)

lemma machine_op_advanced:
  "forward_op (snd (snd call)) \<Longrightarrow> advanced (v key) (fst (snd (machine_op cipher call (v, n))) key)"
  using spec_op_advanced [of call v key]
  by (auto simp: machine_op_def Let_def split: prod.splits sum.splits)

lemma run_machine_advanced:
  "\<forall>call \<in> set calls. forward_op (snd (snd call)) \<Longrightarrow>
     advanced (fst s key) (fst (snd (run_calls (machine_op cipher) calls s)) key)"
proof (induction calls arbitrary: s)
  case (Cons call calls)
  have "advanced (fst s key) (fst (snd (machine_op cipher call s)) key)"
    using Cons.prems machine_op_advanced [of call "fst s" key cipher "snd s"] by simp
  moreover have "advanced (fst (snd (machine_op cipher call s)) key)
      (fst (snd (run_calls (machine_op cipher) calls (snd (machine_op cipher call s)))) key)"
    using Cons by simp
  ultimately show ?case by (auto simp: run_calls_Cons split_beta intro: advanced_trans)
qed simp

text \<open>
  C34. Without the two operations of a reorg a stage only moves forward: a sequence of promotions,
  broadcasts and confirmations, whatever their arguments and whether they succeed or fail, loses no
  stage and changes no index, a state changes only to a later one of awaiting, pending, broadcasted,
  confirmed, and the block identity of a confirmed stage does not change.
\<close>

theorem stages_only_advance:
  assumes "db_ok db" and "\<forall>call \<in> set calls. forward_op (snd (snd call))"
    and "run_calls (store_op cipher) calls (db, n) = (results, db', n')"
    and "view db (rid, txid) = Some (idx, st)"
  shows "\<exists>st'. view db' (rid, txid) = Some (idx, st')
     \<and> (st' = st \<or> state_rank st < state_rank st') \<and> (\<forall>h b. st = SConfirmed h b \<longrightarrow> st' = st)"
proof -
  have "advanced (view db (rid, txid)) (view db' (rid, txid))"
    using run_machine_advanced [OF assms(2), of "(view db, n)" "(rid, txid)" cipher] run_calls_refine [OF assms(1,3)] by simp
  then obtain st' where "view db' (rid, txid) = Some (idx, st')"
      "st' = st \<or> state_rank st < state_rank st'"
    by (auto simp: advanced_def assms(4) split: option.splits)
  moreover have "state_rank st' \<le> 3" by (cases st') simp_all
  ultimately show ?thesis by auto
qed

section \<open>A concrete run\<close>

definition example_calls :: "(string \<times> string \<times> stage_op) list" where
  "example_calls =
     [(''run'', example_txid CHR ''A'', OpBroadcast),
      (''run'', example_txid CHR ''a'', OpConfirm 120 (Hash32 (replicate 32 0))),
      (''run'', example_txid CHR ''a'', OpConfirm 121 (Hash32 (replicate 32 0))),
      (''run'', example_txid CHR ''b'', OpPromote 1 [] [1] ''salt''),
      (''run'', example_txid CHR ''b'', OpPromote 1 [9] [1] ''salt''),
      (''run'', example_txid CHR ''c'', OpBroadcast)]"

definition example_results :: "(stage_error + unit) list" where
  "example_results =
     [Inr (), Inr (), Inl (DifferentInclusion (example_txid CHR ''a'')), Inl RawTransactionEmpty, Inr (),
      Inl (StageNotFound (example_txid CHR ''c''))]"

lemma example_view:
  "view example_store (''run'', example_txid CHR ''a'') = Some (0, SPending)"
  "view example_store (''run'', example_txid CHR ''b'') = Some (1, SAwaiting)"
  "view example_store (''run'', example_txid CHR ''c'') = None"
  by (simp_all add: view_find find_stage_def example_store_def example_row_def row_state_def)

lemma example_calls_machine:
  "fst (run_calls (machine_op plain_cipher) example_calls (view example_store, 5)) = example_results"
  by (simp add: example_calls_def run_calls_Cons machine_op_def sealing_def plain_cipher_def ok_or_def spec_op_def Let_def
      example_view example_results_def)

lemma example_calls_forward: "\<forall>call \<in> set example_calls. forward_op (snd (snd call))"
  by (simp add: example_calls_def forward_op_def)

theorem store_refines_machine_witness:
  "\<exists>db' n'. run_calls (store_op plain_cipher) example_calls (example_store, 5) = (example_results, db', n')
     \<and> db_ok example_store
     \<and> run_calls (machine_op plain_cipher) example_calls (view example_store, 5) = (example_results, view db', n') \<and> db_ok db'"
proof -
  obtain results db' n' where run: "run_calls (store_op plain_cipher) example_calls (example_store, 5) =
      (results, db', n')" by (rule prod_cases3)
  from store_refines_machine [OF example_store_ok run]
  have "results = example_results" using example_calls_machine by simp
  then show ?thesis
    using store_refines_machine [OF example_store_ok run] run example_store_ok by simp
qed

theorem stages_only_advance_witness:
  "\<exists>results db' n'. run_calls (store_op plain_cipher) example_calls (example_store, 5) = (results, db', n')
     \<and> view example_store (''run'', example_txid CHR ''a'') = Some (0, SPending)
     \<and> (\<exists>st'. view db' (''run'', example_txid CHR ''a'') = Some (0, st')
          \<and> (st' = SPending \<or> state_rank SPending < state_rank st'))"
proof -
  obtain results db' n' where run: "run_calls (store_op plain_cipher) example_calls (example_store, 5) =
      (results, db', n')" by (rule prod_cases3)
  from stages_only_advance [OF example_store_ok example_calls_forward run example_view(1)]
  show ?thesis using run example_view(1) by blast
qed

end
