(* ===== verification/Chain_Properties.thy ===== *)
theory Chain_Properties
  imports Chain_Reconcile Stage_Refinement
begin

text \<open>
  What the reconciliation with the chain achieves: the propagation is the closure of the spending
  relation, and a successful call leaves every stage in the state the chain says.
\<close>

section \<open>The propagation\<close>

definition record_edges :: "stage_chain_record list \<Rightarrow> (string \<times> string) set" where
  "record_edges records = {(p, record_txid r) | p r. r \<in> set records \<and> p \<in> set (cr_parent_txids r)}"

lemma sweep_record_inside:
  assumes "r \<in> set records" and "fst sets \<subseteq> (record_edges records)\<^sup>* `` A"
  shows "fst (sweep_record current r sets) \<subseteq> (record_edges records)\<^sup>* `` A"
proof (cases "\<exists>p \<in> set (cr_parent_txids r). p \<in> fst sets")
  case True
  then obtain p where "p \<in> set (cr_parent_txids r)" "p \<in> (record_edges records)\<^sup>* `` A"
    using assms(2) by blast
  moreover from this have "(p, record_txid r) \<in> record_edges records"
    using assms(1) by (auto simp: record_edges_def)
  ultimately obtain a where "a \<in> A" "(a, p) \<in> (record_edges records)\<^sup>*"
      "(p, record_txid r) \<in> record_edges records" by blast
  then have "record_txid r \<in> (record_edges records)\<^sup>* `` A" by (meson ImageI rtrancl.rtrancl_into_rtrancl)
  then show ?thesis using assms(2) sweep_record_bound [of current r sets] by blast
next
  case False
  then show ?thesis using assms(2) by (auto simp: sweep_record_def list_ex_iff split: prod.splits)
qed

lemma sweep_inside:
  assumes "set rs \<subseteq> set records" and "fst sets \<subseteq> (record_edges records)\<^sup>* `` A"
  shows "fst (sweep current rs sets) \<subseteq> (record_edges records)\<^sup>* `` A"
  using assms
proof (induction rs arbitrary: sets)
  case (Cons r rs)
  then have "fst (sweep_record current r sets) \<subseteq> (record_edges records)\<^sup>* `` A"
    using sweep_record_inside [of r records sets A current] by simp
  then show ?case unfolding sweep_Cons using Cons by auto
qed (simp add: sweep_def)

lemma sweep_closes:
  assumes "r \<in> set rs" and "p \<in> set (cr_parent_txids r)" and "p \<in> fst sets"
  shows "record_txid r \<in> fst (sweep current rs sets)"
  using assms(1,3)
proof (induction rs arbitrary: sets)
  case (Cons q rs)
  show ?case
  proof (cases "r = q")
    case True
    then have "record_txid r \<in> fst (sweep_record current q sets)"
      using assms(2) Cons.prems(2) by (auto simp: sweep_record_def list_ex_iff split: prod.splits)
    then show ?thesis unfolding sweep_Cons using sweep_grows by blast
  next
    case False
    then have "p \<in> fst (sweep_record current q sets)" "r \<in> set rs"
      using Cons.prems sweep_record_grows [of sets current q] by auto
    then show ?thesis unfolding sweep_Cons using Cons.IH by blast
  qed
qed simp

text \<open>A stage is invalid exactly when it was so at first or is off the chain below an affected one.\<close>

definition spoils :: "identities \<Rightarrow> stage_chain_record list \<Rightarrow> string set \<Rightarrow> string set" where
  "spoils current records affected =
     {record_txid r | r. r \<in> set records \<and> current (record_txid r) = None
        \<and> (\<exists>p \<in> set (cr_parent_txids r). p \<in> affected)}"

lemma sweep_invalid_grows: "snd sets \<subseteq> snd (sweep current rs sets)"
proof (induction rs arbitrary: sets)
  case (Cons r rs)
  have "snd sets \<subseteq> snd (sweep_record current r sets)" by (auto simp: sweep_record_def split: prod.splits)
  then show ?case unfolding sweep_Cons using Cons.IH by blast
qed (simp add: sweep_def)

lemma sweep_invalid_bound:
  assumes "set rs \<subseteq> set records"
  shows "snd (sweep current rs sets) \<subseteq> snd sets \<union> spoils current records (fst (sweep current rs sets))"
  using assms
proof (induction rs arbitrary: sets)
  case (Cons r rs)
  let ?s = "sweep_record current r sets"
  have "snd ?s \<subseteq> snd sets \<union> spoils current records (fst sets)"
    using Cons.prems by (auto simp: sweep_record_def spoils_def list_ex_iff split: prod.splits)
  moreover have "fst sets \<subseteq> fst (sweep current rs ?s)"
    using sweep_grows [of ?s] sweep_record_grows by blast
  ultimately show ?case
    unfolding sweep_Cons using Cons.IH [of ?s] Cons.prems by (fastforce simp: spoils_def)
qed (simp add: sweep_def)

lemma sweep_spoils: "spoils current rs (fst sets) \<subseteq> snd (sweep current rs sets)"
proof (induction rs arbitrary: sets)
  case (Cons r rs)
  let ?s = "sweep_record current r sets"
  have "spoils current (r # rs) (fst sets) \<subseteq> snd ?s \<union> spoils current rs (fst ?s)"
    by (auto simp: spoils_def sweep_record_def list_ex_iff split: prod.splits)
  then show ?case unfolding sweep_Cons using Cons.IH [of ?s] sweep_invalid_grows [of ?s] by blast
qed (simp add: spoils_def)

lemma propagate_inside:
  assumes "fst sets \<subseteq> (record_edges records)\<^sup>* `` A"
  shows "fst (propagate current records sets) \<subseteq> (record_edges records)\<^sup>* `` A"
  using assms
proof (induction current records sets rule: propagate.induct)
  case (1 current records sets)
  then show ?case using sweep_inside [of records records sets A current]
    by (subst propagate.simps) (simp add: Let_def)
qed

text \<open>The loop stops at a pass that adds nothing.\<close>

lemma propagate_last_pass:
  assumes "finite (fst sets)"
  shows "\<exists>s. fst sets \<subseteq> fst s \<and> snd sets \<subseteq> snd s
     \<and> snd s \<subseteq> snd sets \<union> spoils current records (fst s)
     \<and> propagate current records sets = sweep current records s
     \<and> fst (sweep current records s) = fst s"
  using assms
proof (induction current records sets rule: propagate.induct)
  case (1 current records sets)
  let ?n = "sweep current records sets"
  have fin: "finite (fst ?n)"
    using sweep_bound [of current records sets] 1(2) by (meson finite_Un finite_imageI finite_set finite_subset)
  show ?case
  proof (cases "card (fst ?n) = card (fst sets)")
    case True
    then have "fst ?n = fst sets" using card_subset_eq [OF fin sweep_grows] by simp
    then show ?thesis using True by (intro exI [of _ sets]) (subst propagate.simps, simp add: Let_def)
  next
    case False
    then obtain s where s: "fst ?n \<subseteq> fst s" "snd ?n \<subseteq> snd s" "snd s \<subseteq> snd ?n \<union> spoils current records (fst s)"
        "propagate current records ?n = sweep current records s" "fst (sweep current records s) = fst s"
      using 1(1) [OF refl _ fin] by blast
    moreover have "snd ?n \<subseteq> snd sets \<union> spoils current records (fst ?n)"
      by (rule sweep_invalid_bound) simp
    moreover have "spoils current records (fst ?n) \<subseteq> spoils current records (fst s)"
      using s(1) by (fastforce simp: spoils_def)
    moreover have "propagate current records sets = propagate current records ?n"
      using False by (subst propagate.simps) (simp add: Let_def)
    ultimately show ?thesis
      using sweep_grows [of sets current records] sweep_invalid_grows [of sets current records]
      by (intro exI [of _ s]) auto
  qed
qed

lemma propagate_closure:
  assumes "finite A"
  shows "propagate current records (A, I) =
     ((record_edges records)\<^sup>* `` A,
      I \<union> spoils current records ((record_edges records)\<^sup>* `` A))"
proof -
  let ?C = "(record_edges records)\<^sup>* `` A" and ?p = "propagate current records (A, I)"
  obtain s where s: "A \<subseteq> fst s" "I \<subseteq> snd s" "snd s \<subseteq> I \<union> spoils current records (fst s)"
      "?p = sweep current records s" "fst (sweep current records s) = fst s"
    using propagate_last_pass [of "(A, I)" current records] assms by auto
  have step: "t \<in> fst s" if "(p, t) \<in> record_edges records" "p \<in> fst s" for p t
    using that sweep_closes [of _ records p s current] s(5) by (auto simp: record_edges_def)
  have "t \<in> fst s" if "(a, t) \<in> (record_edges records)\<^sup>*" "a \<in> A" for a t
    using that by (induction rule: rtrancl_induct) (use s(1) step in auto)
  then have "?C \<subseteq> fst s" by blast
  moreover have "fst ?p \<subseteq> ?C" by (rule propagate_inside) auto
  ultimately have one: "fst s = ?C" using s(4,5) by auto
  have "snd ?p \<subseteq> I \<union> spoils current records ?C"
    using sweep_invalid_bound [of records records current s] s(3,4,5) one by auto
  moreover have "I \<union> spoils current records ?C \<subseteq> snd ?p"
    using sweep_spoils [of current records s] sweep_invalid_grows [of s current records] s(2,4) one by auto
  ultimately have "snd ?p = I \<union> spoils current records ?C" by (rule equalityI)
  then show ?thesis using one s(4,5) by (simp add: prod_eq_iff)
qed

text \<open>
  C17. The propagation loop ends, for any records, and what it computes does not depend on their
  order: the affected transactions are those that the first ones reach along the spending relation of
  the plan, cycles included, and the invalid ones are the first ones and every transaction off the
  chain with an affected parent.
\<close>

theorem propagate_is_closure:
  assumes "finite affected"
  shows "propagate current records (affected, invalid) =
     ((record_edges records)\<^sup>* `` affected,
      invalid \<union> spoils current records ((record_edges records)\<^sup>* `` affected))"
  using assms by (rule propagate_closure)

definition example_spend :: "string \<Rightarrow> string list \<Rightarrow> stage_chain_record" where
  "example_spend txid parents =
     \<lparr>cr_stage_index = 0, cr_expected_txid_hex = txid, cr_status = Broadcasted,
      cr_confirmed_mined_height = None, cr_confirmed_block_hash = None, cr_parent_txids = parents, cr_outputs = []\<rparr>"

lemma example_spend_fields [simp]:
  "record_txid (example_spend txid parents) = to_ascii_lowercase txid"
  "cr_parent_txids (example_spend txid parents) = parents"
  by (simp_all add: example_spend_def record_txid_def)

lemma example_lower [simp]: "to_ascii_lowercase [c] = [ascii_lower c]"
  by (simp add: to_ascii_lowercase_def)

lemma record_edges_Un:
  "record_edges [] = {}"
  "record_edges (r # rs) = (\<lambda>p. (p, record_txid r)) ` set (cr_parent_txids r) \<union> record_edges rs"
  by (auto simp: record_edges_def)

lemma spoils_Un:
  "spoils current [] A = {}"
  "spoils current (r # rs) A =
     (if current (record_txid r) = None \<and> set (cr_parent_txids r) \<inter> A \<noteq> {} then {record_txid r} else {})
       \<union> spoils current rs A"
  by (auto simp: spoils_def)

lemma example_letters [simp]:
  "ascii_lower CHR ''a'' = CHR ''a''" "ascii_lower CHR ''b'' = CHR ''b''" "ascii_lower CHR ''d'' = CHR ''d''"
  by (simp_all add: ascii_lower_def)

text \<open>A cycle of two transactions and a third below it, in an order that needs several sweeps.\<close>

theorem propagate_is_closure_witness:
  "propagate (\<lambda>_. None) [example_spend ''b'' [''a''], example_spend ''a'' [''b''], example_spend ''d'' [''c'']]
       ({''b''}, {''b''}) = ({''a'', ''b''}, {''a'', ''b''})"
proof -
  let ?rs = "[example_spend ''b'' [''a''], example_spend ''a'' [''b''], example_spend ''d'' [''c'']]"
  have edges: "record_edges ?rs = {(''a'', ''b''), (''b'', ''a''), (''c'', ''d'')}"
    by (auto simp: record_edges_Un)
  have closed: "(record_edges ?rs)\<^sup>* `` {''b''} = {''a'', ''b''}"
  proof (intro equalityI subsetI)
    fix t assume "t \<in> (record_edges ?rs)\<^sup>* `` {''b''}"
    then have "(''b'', t) \<in> (record_edges ?rs)\<^sup>*" by simp
    then show "t \<in> {''a'', ''b''}" by (induction rule: rtrancl_induct) (auto simp: edges)
  next
    fix t :: string assume "t \<in> {''a'', ''b''}"
    moreover have "(''b'', ''a'') \<in> (record_edges ?rs)\<^sup>*" by (rule r_into_rtrancl) (simp add: edges)
    ultimately show "t \<in> (record_edges ?rs)\<^sup>* `` {''b''}" by blast
  qed
  have "spoils (\<lambda>_. None) ?rs {''a'', ''b''} = {''a'', ''b''}"
    by (auto simp: spoils_Un)
  then show ?thesis using propagate_is_closure [of "{''b''}" "\<lambda>_. None" ?rs "{''b''}"] closed by auto
qed

section \<open>Store calls over a set of stages\<close>

lemma spec_of_normal:
  "txid_normal t \<Longrightarrow> spec_op (rid, t, op) v =
     (let (r, s) = spec_move op t (v (rid, t)) in (r, v((rid, t) := s)))"
  by (simp add: spec_op_def txid_normal_def Let_def)

lemma reset_stage_view:
  assumes "db_ok s" and "txid_normal t" and "view s (rid, t) = Some (i, st)"
  shows "\<exists>s'. in_tx (reset_denomination_stage_exact s rid t) = Inr s' \<and> db_ok s'
     \<and> view s' = (view s)((rid, t) \<mapsto> (i, SAwaiting))"
proof -
  obtain r s' where run: "reset_denomination_stage_exact s rid t = (r, s')" by fastforce
  have "map_prod id view (r, s') = (Inr (), (view s)((rid, t) \<mapsto> (i, SAwaiting)))"
    using refine_reset [OF assms(1), of rid t] assms(3) by (simp add: run spec_of_normal [OF assms(2)])
  moreover have "db_ok s'"
    using kept_step_ok [OF kept_step.reset [of undefined s rid t] assms(1)] by (simp add: run)
  ultimately show ?thesis by (simp add: run in_tx_def)
qed

lemma replace_stage_view:
  assumes "db_ok s" and "txid_normal t" and "view s (rid, t) = Some (i, st)"
  shows "\<exists>s'. in_tx (replace_denomination_stage_confirmation_identity s rid t h b) = Inr s' \<and> db_ok s'
     \<and> view s' = (view s)((rid, t) \<mapsto> (i, SConfirmed h (hash_bytes b)))"
proof -
  obtain r s' where run: "replace_denomination_stage_confirmation_identity s rid t h b = (r, s')"
    by fastforce
  have "map_prod id view (r, s') = (Inr (), (view s)((rid, t) \<mapsto> (i, SConfirmed h (hash_bytes b))))"
    using refine_replace [OF assms(1), of rid t h b] assms(3) by (simp add: run spec_of_normal [OF assms(2)])
  moreover have "db_ok s'"
    using kept_step_ok [OF kept_step.replace [of undefined s rid t h b] assms(1)] by (simp add: run)
  ultimately show ?thesis by (simp add: run in_tx_def)
qed

lemma fold_states:
  assumes "\<And>s t. t \<in> set ts \<Longrightarrow> db_ok s \<Longrightarrow> view s (rid, t) \<noteq> None \<Longrightarrow>
      \<exists>s'. op s t = Inr s' \<and> db_ok s'
        \<and> view s' = (view s)((rid, t) := map_option (apsnd (f t)) (view s (rid, t)))"
    and "distinct ts" and "db_ok s" and "\<forall>t \<in> set ts. view s (rid, t) \<noteq> None"
  shows "\<exists>s'. try_fold op s ts = Inr s' \<and> db_ok s'
     \<and> (\<forall>a t. view s' (a, t) =
          (if a = rid \<and> t \<in> set ts then map_option (apsnd (f t)) (view s (a, t)) else view s (a, t)))"
  using assms
proof (induction ts arbitrary: s)
  case (Cons t ts)
  have "\<exists>s1. op s t = Inr s1 \<and> db_ok s1
      \<and> view s1 = (view s)((rid, t) := map_option (apsnd (f t)) (view s (rid, t)))"
    by (rule Cons.prems(1)) (use Cons.prems(3,4) in simp_all)
  then obtain s1 where s1: "op s t = Inr s1" "db_ok s1"
      "view s1 = (view s)((rid, t) := map_option (apsnd (f t)) (view s (rid, t)))" by blast
  have "\<forall>u \<in> set ts. view s1 (rid, u) \<noteq> None" using Cons.prems(2,4) s1(3) by auto
  then obtain s' where "try_fold op s1 ts = Inr s'" "db_ok s'"
      "\<forall>a t. view s' (a, t) =
        (if a = rid \<and> t \<in> set ts then map_option (apsnd (f t)) (view s1 (a, t)) else view s1 (a, t))"
    using Cons.IH [of s1] Cons.prems(1,2) s1(2) by (metis distinct.simps(2) list.set_intros(2))
  then show ?case using s1 Cons.prems(2) by (intro exI [of _ s']) auto
qed simp

lemma reset_invalid_view:
  assumes "db_ok s" and "finite invalid" and "\<forall>t \<in> invalid. txid_normal t \<and> view s (rid, t) \<noteq> None"
  shows "\<exists>s'. reset_invalid rid invalid s = Inr s' \<and> db_ok s'
     \<and> (\<forall>a t. view s' (a, t) =
          (if a = rid \<and> t \<in> invalid then map_option (apsnd (\<lambda>_. SAwaiting)) (view s (a, t))
           else view s (a, t)))"
proof -
  have "\<exists>s'. in_tx (reset_denomination_stage_exact s rid t) = Inr s' \<and> db_ok s'
      \<and> view s' = (view s)((rid, t) := map_option (apsnd (\<lambda>_. SAwaiting)) (view s (rid, t)))"
    if "t \<in> set (sorted_list_of_set invalid)" "db_ok s" "view s (rid, t) \<noteq> None" for s t
  proof -
    from that(3) obtain k st where "view s (rid, t) = Some (k, st)" by auto
    then show ?thesis using reset_stage_view [OF that(2), of t rid k st] that(1) assms(2,3) by auto
  qed
  then show ?thesis
    using fold_states [of "sorted_list_of_set invalid" rid
        "\<lambda>s txid. in_tx (reset_denomination_stage_exact s rid txid)" "\<lambda>t _. SAwaiting" s] assms
    unfolding reset_invalid_def by (auto simp del: not_None_eq)
qed

definition confirmed_by :: "chain_identity \<Rightarrow> stage_state" where
  "confirmed_by i = SConfirmed (ci_mined_height i) (hash_bytes (ci_block_hash i))"

lemma record_identities_view:
  assumes "db_ok s" and "finite (dom ids)" and "invalid \<inter> dom ids = {}"
    and "\<forall>t \<in> dom ids. txid_normal t \<and> view s (rid, t) \<noteq> None"
  shows "\<exists>s'. record_identities rid invalid ids s = Inr s' \<and> db_ok s'
     \<and> (\<forall>a t. view s' (a, t) =
          (if a = rid \<and> t \<in> dom ids then map_option (apsnd (\<lambda>_. confirmed_by (the (ids t)))) (view s (a, t))
           else view s (a, t)))"
proof -
  let ?op = "\<lambda>s txid. if txid \<in> invalid then Inr s
     else (case ids txid of None \<Rightarrow> Inr s
       | Some i \<Rightarrow> in_tx (replace_denomination_stage_confirmation_identity s rid txid
           (ci_mined_height i) (ci_block_hash i)))"
  have "\<exists>s'. ?op s t = Inr s' \<and> db_ok s'
      \<and> view s' = (view s)((rid, t) := map_option (apsnd (\<lambda>_. confirmed_by (the (ids t)))) (view s (rid, t)))"
    if "t \<in> set (sorted_list_of_set (dom ids))" "db_ok s" "view s (rid, t) \<noteq> None" for s t
  proof -
    from that assms(2,3) obtain i where i: "ids t = Some i" "t \<notin> invalid" by auto
    from that(3) obtain k st where "view s (rid, t) = Some (k, st)" by auto
    then show ?thesis
      using replace_stage_view [OF that(2), of t rid k st "ci_mined_height i" "ci_block_hash i"] assms(4) i
      by (auto simp: confirmed_by_def)
  qed
  then show ?thesis
    using fold_states [of "sorted_list_of_set (dom ids)" rid ?op "\<lambda>t _. confirmed_by (the (ids t))" s] assms
    unfolding record_identities_def by (auto simp del: not_None_eq)
qed

end
