(* ===== verification/Catch_Up.thy ===== *)
theory Catch_Up
  imports Run_Store Stage_Properties
begin

text \<open>
  The catch-up after a missed preparation broadcast: the loop returns, it keeps the order of the
  remaining stages, and it never moves a broadcast forward in time.
\<close>

definition broadcast_floor :: "stage_row \<Rightarrow> u32" where
  "broadcast_floor r = max (sr_scheduled_height r) (unwrap_or 0 (sr_broadcast_not_before_height r))"

lemma row_broadcast_key_eq: "row_broadcast_key r = (broadcast_floor r, sr_stage_index r)"
  by (simp add: row_broadcast_key_def broadcast_floor_def)

definition remaining_row :: "string \<Rightarrow> stage_row \<Rightarrow> bool" where
  "remaining_row rid r \<longleftrightarrow> sr_run_id r = rid \<and> sr_status r \<in> {''awaiting_inputs'', ''pending''}"

text \<open>The tables with new heights for the remaining stages of a run, by stage index.\<close>

definition reheighted :: "string \<Rightarrow> (u32 \<times> u32) list \<Rightarrow> stage_row \<Rightarrow> stage_row" where
  "reheighted rid hs r =
     (if remaining_row rid r
      then (case map_of hs (sr_stage_index r) of None \<Rightarrow> r | Some h \<Rightarrow> set_not_before h r)
      else r)"

text \<open>Each height is at least the one before it and its own floor, at most a delay above them.\<close>

fun spaced :: "u32 \<Rightarrow> u32 \<Rightarrow> stage_row list \<Rightarrow> u32 list \<Rightarrow> bool" where
  "spaced mx prev [] [] = True"
| "spaced mx prev (r # rs) (h # hs) =
     (max prev (broadcast_floor r) \<le> h \<and> h \<le> max (prev + mx) (broadcast_floor r) \<and> spaced mx h rs hs)"
| "spaced mx prev rs hs = False"

lemma spaced_sorted: "spaced mx prev rs hs \<Longrightarrow> sorted (prev # hs) \<and> length hs = length rs"
  by (induction mx prev rs hs rule: spaced.induct) fastforce+

lemma spaced_floor: "spaced mx prev rs hs \<Longrightarrow> i < length rs \<Longrightarrow> broadcast_floor (rs ! i) \<le> hs ! i"
proof (induction mx prev rs hs arbitrary: i rule: spaced.induct)
  case (2 mx prev r rs h hs)
  then show ?case by (cases i) auto
qed auto

lemma spaced_upper:
  assumes "spaced mx prev rs hs" and "prev \<le> B" and "\<forall>r \<in> set rs. broadcast_floor r \<le> B"
  shows "\<forall>h \<in> set hs. h \<le> B + mx * length rs"
  using assms
proof (induction mx prev rs hs arbitrary: B rule: spaced.induct)
  case (2 mx prev r rs h hs)
  then have "h \<le> B + mx" by auto
  then have "\<forall>h \<in> set hs. h \<le> (B + mx) + mx * length rs" using 2 by force
  then show ?case using \<open>h \<le> B + mx\<close> by auto
qed auto

lemma reheighted_keys [simp]:
  "sr_run_id (reheighted rid hs r) = sr_run_id r"
  "sr_stage_index (reheighted rid hs r) = sr_stage_index r"
  "sr_status (reheighted rid hs r) = sr_status r"
  by (auto simp: reheighted_def set_not_before_def split: option.splits)

lemma reschedule_stage_eq:
  assumes "db_ok db"
  shows "\<exists>n. reschedule_stage rid idx h db =
     (Inr n, db\<lparr>db_stages := map (reheighted rid [(idx, h)]) (db_stages db)\<rparr>)"
proof -
  have "(\<lambda>r. if sr_run_id r = rid \<and> sr_stage_index r = idx
      \<and> sr_status r \<in> {''awaiting_inputs'', ''pending''} then set_not_before h r else r) =
    reheighted rid [(idx, h)]"
    by (rule ext) (auto simp: reheighted_def remaining_row_def)
  then show ?thesis
    using rescheduling.update_eq [OF assms, of rid idx h] unfolding reschedule_stage_def by simp
qed

lemma reschedule_stage_ok: "db_ok db \<Longrightarrow> db_ok (snd (reschedule_stage rid idx h db))"
  unfolding reschedule_stage_def by (rule rescheduling.update_ok)

lemma reheighted_step:
  assumes "idx \<notin> fst ` set hs"
  shows "reheighted rid hs (reheighted rid [(idx, h)] r) = reheighted rid ((idx, h) # hs) r"
proof -
  have "map_of hs idx = None" using assms by (simp add: map_of_eq_None_iff)
  moreover have "remaining_row rid (set_not_before h r) = remaining_row rid r"
    and "sr_stage_index (set_not_before h r) = sr_stage_index r"
    by (simp_all add: remaining_row_def set_not_before_def)
  ultimately show ?thesis
    by (cases "remaining_row rid r"; cases "sr_stage_index r = idx") (simp_all add: reheighted_def)
qed

lemma reheighted_nil [simp]: "map (reheighted rid []) rs = rs"
  by (simp add: reheighted_def map_idI)

context bounded_delay
begin

lemma catch_up_loop_total:
  assumes "delay_returns delay" and "db_ok db" and "distinct (map sr_stage_index rows)"
    and "prev \<le> B" and "\<forall>r \<in> set rows. broadcast_floor r \<le> B" and "B + mx * length rows < 2 ^ 32"
  shows "\<exists>hs g'. catch_up_loop delay rid rows prev db g =
       Some (Inr (db\<lparr>db_stages := map (reheighted rid (zip (map sr_stage_index rows) hs)) (db_stages db)\<rparr>, g'))
     \<and> spaced mx prev rows hs"
  using assms(2-)
proof (induction rows arbitrary: db prev B g)
  case Nil
  then show ?case by (intro exI [of _ "[]"]) auto
next
  case (Cons r rows)
  obtain d g1 where d: "delay g = Some (d, g1)" using assms(1) unfolding delay_returns_def by blast
  let ?h = "max (max (prev + d) (sr_scheduled_height r)) (unwrap_or 0 (sr_broadcast_not_before_height r))"
  let ?db = "db\<lparr>db_stages := map (reheighted rid [(sr_stage_index r, ?h)]) (db_stages db)\<rparr>"
  have le: "d \<le> mx" by (rule delay_le [OF d])
  have fit: "prev + d < 2 ^ 32" using le Cons.prems(3,5) by simp
  obtain n where step: "reschedule_stage rid (sr_stage_index r) ?h db = (Inr n, ?db)"
    using reschedule_stage_eq [OF Cons.prems(1)] by blast
  have h: "?h \<le> B + mx" "max prev (broadcast_floor r) \<le> ?h" "?h \<le> max (prev + mx) (broadcast_floor r)"
    using le Cons.prems(3,4) by (auto simp: broadcast_floor_def)
  have "db_ok ?db" using reschedule_stage_ok [OF Cons.prems(1)] step by (metis snd_conv)
  moreover have "\<forall>r \<in> set rows. broadcast_floor r \<le> B + mx" using Cons.prems(4) by fastforce
  ultimately obtain hs g' where
    rest: "catch_up_loop delay rid rows ?h ?db g1 =
      Some (Inr (?db\<lparr>db_stages := map (reheighted rid (zip (map sr_stage_index rows) hs)) (db_stages ?db)\<rparr>, g'))"
      "spaced mx ?h rows hs"
    using Cons.IH [of ?db ?h "B + mx" g1] Cons.prems(2,5) h(1) by auto
  have new: "sr_stage_index r \<notin> fst ` set (zip (map sr_stage_index rows) hs)"
    using Cons.prems(2) by (auto dest: set_zip_leftD)
  have "catch_up_loop delay rid (r # rows) prev db g = catch_up_loop delay rid rows ?h ?db g1"
    using d fit step by (simp add: checked_add_def Let_def)
  then show ?case
    using rest h(2,3) by (intro exI [of _ "?h # hs"] exI [of _ g']) (simp add: reheighted_step [OF new] comp_def)
qed

end

lemma remaining_indices_distinct:
  assumes "db_ok db"
  shows "distinct (map sr_stage_index (remaining_stages db rid))"
proof -
  let ?rows = "filter (\<lambda>r. sr_run_id r = rid \<and> sr_status r \<in> {''awaiting_inputs'', ''pending''}) (db_stages db)"
  have "distinct (map stage_key ?rows)"
    using assms by (intro distinct_map_filter) (simp add: db_ok_def stages_ok_def)
  then have "distinct (map sr_stage_index ?rows)"
    by (auto simp: distinct_map inj_on_def stage_key_def)
  moreover have "mset (map sr_stage_index (remaining_stages db rid)) = mset (map sr_stage_index ?rows)"
    by (simp add: remaining_stages_def)
  ultimately show ?thesis using mset_eq_imp_distinct_iff by blast
qed

text \<open>
  C36. The catch-up after a missed broadcast follows the preparation policy of the run. Under the
  immediate policy it changes nothing and returns zero. Under the spaced policy every remaining stage gets
  a new height: the call returns for a
  sampler that keeps accepting when the heights cannot leave \<open>u32\<close>; the new heights are in the order
  in which the stages were to be broadcast, none is before the chain tip, before the signed schedule
  or before an earlier postponement, and the last is at most 96 blocks per remaining stage after the
  latest of these; nothing but the operational height of awaiting and pending stages of the run
  changes, and the count of them is returned.
\<close>

theorem catch_up_heights:
  assumes "db_ok (mdb_stages db)" and "run_of db rid = Inr run"
    and "preparation_policy_from_str (rr_preparation_timing_policy run) = Inr q"
    and "timing_policy_from_str (rr_timing_policy run) = Inr p"
    and "preparation_schedule_parameters_for_transaction_count network p
           (count_stages (mdb_stages db) (\<lambda>r. sr_run_id r = rid)) = (mean, mx)"
    and "always_accepts env mean mx"
    and "count_stages (mdb_stages db) (\<lambda>r. sr_run_id r = rid) < 2 ^ 32"
    and "rows = remaining_stages (mdb_stages db) rid"
    and "tip \<le> B" and "\<forall>r \<in> set rows. broadcast_floor r \<le> B" and "B + 96 * length rows < 2 ^ 32"
  shows "case q of
       Immediate \<Rightarrow> rerandomize_remaining_preparation_broadcast_heights env db rid network tip g = Some (Inr (0, db, g))
     | Zip318Spaced \<Rightarrow>
         (\<exists>hs g'. rerandomize_remaining_preparation_broadcast_heights env db rid network tip g =
            Some (Inr (length rows, db\<lparr>mdb_stages := (mdb_stages db)\<lparr>db_stages :=
              map (reheighted rid (zip (map sr_stage_index rows) hs)) (db_stages (mdb_stages db))\<rparr>\<rparr>, g'))
          \<and> length hs = length rows \<and> sorted (tip # hs)
          \<and> (\<forall>i < length rows. broadcast_floor (rows ! i) \<le> hs ! i)
          \<and> (\<forall>h \<in> set hs. h \<le> B + 96 * length rows))"
proof (cases q)
  case Immediate
  then show ?thesis
    using assms(2,3)
    by (simp add: rerandomize_remaining_preparation_broadcast_heights_def
        preparation_timing_policy_for_run_with_conn_def map_error_def)
next
  case Zip318Spaced
  let ?count = "count_stages (mdb_stages db) (\<lambda>r. sr_run_id r = rid)"
  let ?d = "preparation_delay env network p ?count"
  have live: "delay_returns ?d"
    using draw_delay_live [OF assms(6)] by (simp add: delay_returns_def preparation_delay_def assms(5))
  have indices: "distinct (map sr_stage_index rows)"
    using remaining_indices_distinct [OF assms(1)] by (simp add: assms(8))
  obtain hs g' where loop: "catch_up_loop ?d rid rows tip (mdb_stages db) g =
       Some (Inr ((mdb_stages db)\<lparr>db_stages := map (reheighted rid (zip (map sr_stage_index rows) hs))
         (db_stages (mdb_stages db))\<rparr>, g'))" and sp: "spaced 96 tip rows hs"
    using preparation_delays.catch_up_loop_total [OF live assms(1) indices assms(9,10,11)] by blast
  have "rerandomize_remaining_preparation_broadcast_heights env db rid network tip g =
       Some (Inr (length rows, db\<lparr>mdb_stages := (mdb_stages db)\<lparr>db_stages :=
         map (reheighted rid (zip (map sr_stage_index rows) hs)) (db_stages (mdb_stages db))\<rparr>\<rparr>, g'))"
    using loop assms(2,3,4,7,11) Zip318Spaced
    by (simp add: rerandomize_remaining_preparation_broadcast_heights_def
        preparation_timing_policy_for_run_with_conn_def timing_policy_for_run_with_conn_def
        map_error_def count_for_run_def try_u32_def flip: assms(8))
  then show ?thesis
    using spaced_sorted [OF sp] spaced_floor [OF sp] spaced_upper [OF sp assms(9,10)] unfolding Zip318Spaced by simp blast
qed

definition example_run :: run_row where
  "example_run =
     \<lparr>rr_run_id = ''run'', rr_account_uuid = ''account'', rr_network = ''test'',
      rr_db_fingerprint = ''wallet.db'', rr_phase = PHASE_WAITING_DENOM_CONFIRMATIONS,
      rr_created_at_ms = 0, rr_updated_at_ms = 0,
      rr_target_values = [100000000], rr_schedule = [], rr_timing_policy = ''standard'',
      rr_preparation_timing_policy = ''zip318_spaced'', rr_proof_retry_height = None,
      rr_signed_schedule_origin_height = None, rr_initial_schedule_rebased_origin_height = None,
      rr_last_error = None, rr_recovery_schedule_origin_height = None,
      rr_recovery_schedule_max_block_offset = None\<rparr>"

definition example_db :: migration_db where
  "example_db =
     \<lparr>mdb_runs = [example_run], mdb_notes = [], mdb_pending = [], mdb_children = [],
      mdb_stages = example_store\<rparr>"

lemma example_remaining:
  "remaining_stages example_store ''run'' = [example_row 0 CHR ''a'' (Some [7]), example_row 1 CHR ''b'' None]"
  by (simp add: remaining_stages_def example_store_def example_row_def row_broadcast_key_def unwrap_or_def)

theorem catch_up_heights_witness:
  "\<exists>hs g'. rerandomize_remaining_preparation_broadcast_heights counter_sampler example_db ''run'' Test 200 0 =
       Some (Inr (2, example_db\<lparr>mdb_stages := example_store\<lparr>db_stages :=
         map (reheighted ''run'' (zip [0, 1] hs)) (db_stages example_store)\<rparr>\<rparr>, g'))
     \<and> length hs = 2 \<and> sorted (200 # hs) \<and> broadcast_floor (example_row 1 CHR ''b'' None) \<le> hs ! 1
     \<and> (\<forall>h \<in> set hs. h \<le> 392)"
proof -
  let ?rows = "[example_row 0 CHR ''a'' (Some [7]), example_row 1 CHR ''b'' None]"
  have stages: "mdb_stages example_db = example_store" by (simp add: example_db_def)
  have count: "count_stages example_store (\<lambda>r. sr_run_id r = ''run'') = 2"
    by (simp add: count_stages_def example_store_def example_row_def)
  have "preparation_schedule_parameters_for_transaction_count Test Standard 2 = (16, 96)"
    by (simp add: preparation_schedule_parameters_for_transaction_count_def const_defs)
  moreover have "run_of example_db ''run'' = Inr example_run"
    by (simp add: run_of_def example_db_def example_run_def)
  moreover have "\<forall>r \<in> set ?rows. broadcast_floor r \<le> 200"
    by (simp add: broadcast_floor_def example_row_def unwrap_or_def)
  moreover have "map sr_stage_index ?rows = [0, 1]" by (simp add: example_row_def)
  ultimately obtain hs g' where
    h: "rerandomize_remaining_preparation_broadcast_heights counter_sampler example_db ''run'' Test 200 0 =
         Some (Inr (length ?rows, example_db\<lparr>mdb_stages := example_store\<lparr>db_stages :=
           map (reheighted ''run'' (zip [0, 1] hs)) (db_stages example_store)\<rparr>\<rparr>, g'))"
      "length hs = length ?rows" "sorted (200 # hs)"
      "\<forall>i < length ?rows. broadcast_floor (?rows ! i) \<le> hs ! i"
      "\<forall>h \<in> set hs. h \<le> 200 + 96 * length ?rows"
    using catch_up_heights [of example_db "''run''" example_run Zip318Spaced Standard Test 16 96 counter_sampler ?rows 200 200 0,
        unfolded stages count example_remaining, OF example_store_ok] counter_sampler_accepts [of 16 96]
    by (auto simp: example_run_def preparation_policy_from_str_def timing_policy_from_str_def
        simp del: length_Cons sorted_simps)
  have "broadcast_floor (?rows ! 1) \<le> hs ! 1" by (rule h(4) [rule_format]) simp
  then show ?thesis using h(1,2,3,5) by (intro exI [of _ hs] exI [of _ g']) (simp add: numeral_2_eq_2)
qed

end
