(* ===== verification/Chain_Outcome.thy ===== *)
theory Chain_Outcome
  imports Chain_Properties Catch_Up
begin

text \<open>
  The outcome of a reconciliation for the stages of the run, from the records it reads to the states
  it leaves.
\<close>

section \<open>Records and states\<close>

lemma list_all2_left: "list_all2 R xs ys \<Longrightarrow> y \<in> set ys \<Longrightarrow> \<exists>x \<in> set xs. R x y"
  by (induction rule: list_all2_induct) auto

lemma list_all2_right: "list_all2 R xs ys \<Longrightarrow> x \<in> set xs \<Longrightarrow> \<exists>y \<in> set ys. R x y"
  by (induction rule: list_all2_induct) auto

definition record_state :: "stage_chain_record \<Rightarrow> stage_state" where
  "record_state r =
     (case cr_status r of
        AwaitingInputs \<Rightarrow> SAwaiting | Pending \<Rightarrow> SPending | Broadcasted \<Rightarrow> SBroadcasted
      | Confirmed \<Rightarrow> SConfirmed (unwrap_or 0 (cr_confirmed_mined_height r))
          (unwrap_or [] (cr_confirmed_block_hash r)))"

text \<open>A confirmed record has a complete block identity.\<close>

definition record_complete :: "stage_chain_record \<Rightarrow> bool" where
  "record_complete r \<longleftrightarrow>
     cr_status r = Confirmed \<longrightarrow> cr_confirmed_mined_height r \<noteq> None \<and> cr_confirmed_block_hash r \<noteq> None"

lemma chain_record_of_checked_row:
  assumes "stage_row_check row" and "chain_record_of_row s rid row = Inr r"
  shows "cr_stage_index r = sr_stage_index row \<and> cr_expected_txid_hex r = sr_expected_txid_hex row
     \<and> record_state r = row_state row \<and> record_complete r
     \<and> cr_parent_txids r =
         map (\<lambda>i. to_ascii_lowercase (in_txid_hex i)) (stage_inputs s rid (sr_stage_index row))"
proof -
  from assms(2) obtain status where st: "stage_status_parse (sr_status row) = Inr status"
      "cr_status r = status"
      "cr_confirmed_mined_height r = sr_confirmed_mined_height row"
      "cr_confirmed_block_hash r = sr_confirmed_block_hash row"
    and rest: "cr_stage_index r = sr_stage_index row" "cr_expected_txid_hex r = sr_expected_txid_hex row"
      "cr_parent_txids r =
         map (\<lambda>i. to_ascii_lowercase (in_txid_hex i)) (stage_inputs s rid (sr_stage_index row))"
    by (auto simp: chain_record_of_row_def)
  from assms(1) have "record_state r = row_state row \<and> record_complete r"
    by (cases rule: row_state_cases)
      (use st in \<open>auto simp: stage_status_parse_def record_state_def record_complete_def unwrap_or_def\<close>)
  with rest show ?thesis by simp
qed

lemma find_stage_row:
  assumes "db_ok s" and "row \<in> set (db_stages s)" and "sr_run_id row = rid"
  shows "find_stage s rid (sr_expected_txid_hex row) = Some row"
proof (cases "find_stage s rid (sr_expected_txid_hex row)")
  case None
  then show ?thesis using assms(2,3) by (auto simp: find_stage_None)
next
  case (Some q)
  note q = find_stage_Some [OF Some]
  have "inj_on stage_txid (set (db_stages s))"
    using assms(1) by (simp add: db_ok_def stages_ok_def distinct_map)
  moreover have "stage_txid q = stage_txid row" using q assms(3) by (simp add: stage_txid_def)
  ultimately have "q = row" using q assms(2) by (meson inj_onD)
  then show ?thesis using Some by simp
qed

definition stage_edges :: "stage_db \<Rightarrow> string \<Rightarrow> (string \<times> string) set" where
  "stage_edges s rid =
     {(to_ascii_lowercase (in_txid_hex i), sr_expected_txid_hex r) | i r.
        r \<in> set (db_stages s) \<and> sr_run_id r = rid \<and> i \<in> set (stage_inputs s rid (sr_stage_index r))}"

text \<open>What the records of a run say, in terms of the view.\<close>

definition records_show :: "stage_db \<Rightarrow> string \<Rightarrow> stage_chain_record list \<Rightarrow> bool" where
  "records_show s rid records \<longleftrightarrow>
     (\<forall>r \<in> set records. record_complete r \<and> txid_normal (cr_expected_txid_hex r)
        \<and> view s (rid, record_txid r) = Some (cr_stage_index r, record_state r))
     \<and> (\<forall>t. view s (rid, t) \<noteq> None \<longrightarrow> (\<exists>r \<in> set records. record_txid r = t))
     \<and> record_edges records = stage_edges s rid"

lemma run_stages_set: "set (run_stages s rid) = {r \<in> set (db_stages s). sr_run_id r = rid}"
  by (simp add: run_stages_def)

lemma record_txid_normal: "txid_normal (cr_expected_txid_hex r) \<Longrightarrow> record_txid r = cr_expected_txid_hex r"
  by (simp add: record_txid_def txid_normal_def)

lemma chain_records_show:
  assumes "db_ok s" and "denomination_stage_chain_records s rid = Inr records"
  shows "records_show s rid records"
proof -
  have all: "list_all2 (\<lambda>row r. chain_record_of_row s rid row = Inr r) (run_stages s rid) records"
    using assms(2) by (simp add: denomination_stage_chain_records_def collect_results_Inr_iff)
  have rows: "stage_row_check row \<and> txid_normal (sr_expected_txid_hex row)"
    if "row \<in> set (db_stages s)" for row
    using assms(1) that by (simp add: db_ok_def stages_ok_def)
  have of_record: "\<exists>row \<in> set (db_stages s). sr_run_id row = rid \<and> chain_record_of_row s rid row = Inr r"
    if "r \<in> set records" for r
    using list_all2_left [OF all that] by (auto simp: run_stages_set)
  have of_row: "\<exists>r \<in> set records. chain_record_of_row s rid row = Inr r"
    if "row \<in> set (db_stages s)" "sr_run_id row = rid" for row
    using list_all2_right [OF all, of row] that by (simp add: run_stages_set)
  have one: "record_complete r \<and> txid_normal (cr_expected_txid_hex r)
      \<and> view s (rid, record_txid r) = Some (cr_stage_index r, record_state r)" if "r \<in> set records" for r
  proof -
    obtain row where row: "row \<in> set (db_stages s)" "sr_run_id row = rid" "chain_record_of_row s rid row = Inr r"
      using of_record [OF \<open>r \<in> set records\<close>] by blast
    note facts = chain_record_of_checked_row [OF _ row(3)] rows [OF row(1)]
    then show ?thesis
      using find_stage_row [OF assms(1) row(1,2)] by (simp add: record_txid_normal view_find)
  qed
  moreover have "\<exists>r \<in> set records. record_txid r = t" if seen: "view s (rid, t) \<noteq> None" for t
  proof -
    obtain row where "find_stage s rid t = Some row" using seen by (auto simp: view_find)
    from find_stage_Some [OF this] have row: "row \<in> set (db_stages s)" "sr_run_id row = rid"
      "sr_expected_txid_hex row = t" by auto
    then obtain r where r: "r \<in> set records" "chain_record_of_row s rid row = Inr r" using of_row by blast
    have "cr_expected_txid_hex r = t"
      using chain_record_of_checked_row [OF _ r(2)] rows [OF row(1)] row(3) by simp
    moreover have "record_txid r = cr_expected_txid_hex r"
      using one [OF r(1)] by (simp add: record_txid_normal)
    ultimately show ?thesis using r(1) by blast
  qed
  moreover have "record_edges records = stage_edges s rid"
  proof (intro set_eqI iffI)
    fix e assume "e \<in> record_edges records"
    then obtain p r where e: "e = (p, record_txid r)" "r \<in> set records" "p \<in> set (cr_parent_txids r)"
      by (auto simp: record_edges_def)
    obtain row where "row \<in> set (db_stages s)" "sr_run_id row = rid" "chain_record_of_row s rid row = Inr r"
      using of_record [OF e(2)] by blast
    then show "e \<in> stage_edges s rid"
      using e chain_record_of_checked_row [of row s rid r] rows [of row] one [OF e(2)]
      by (auto simp: stage_edges_def record_txid_normal)
  next
    fix e assume "e \<in> stage_edges s rid"
    then obtain i row where e: "e = (to_ascii_lowercase (in_txid_hex i), sr_expected_txid_hex row)"
        "row \<in> set (db_stages s)" "sr_run_id row = rid" "i \<in> set (stage_inputs s rid (sr_stage_index row))"
      by (auto simp: stage_edges_def)
    then obtain r where r: "r \<in> set records" "chain_record_of_row s rid row = Inr r" using of_row by blast
    note facts = chain_record_of_checked_row [OF _ r(2)] rows [OF e(2)]
    then have "to_ascii_lowercase (in_txid_hex i) \<in> set (cr_parent_txids r)" using e(4) by simp
    moreover have "record_txid r = sr_expected_txid_hex row"
      using facts one [OF r(1)] by (simp add: record_txid_normal)
    moreover from this have "e = (to_ascii_lowercase (in_txid_hex i), record_txid r)" using e(1) by simp
    ultimately show "e \<in> record_edges records" using r(1) unfolding record_edges_def by blast
  qed
  ultimately show ?thesis by (simp add: records_show_def)
qed

section \<open>The findings\<close>

lemma current_identities_agree:
  assumes "current_identities identity records = Inr current"
    and "\<forall>r \<in> set records. txid_normal (cr_expected_txid_hex r)"
  shows "\<forall>r \<in> set records. identity (record_txid r) = Inr (current (record_txid r))"
proof -
  let ?f = "\<lambda>m record. rbind (identity (cr_expected_txid_hex record)) (\<lambda>i.
         Inr (m(to_ascii_lowercase (cr_expected_txid_hex record) := i)))"
  have "(\<forall>r \<in> set rs. identity (record_txid r) = Inr (m' (record_txid r)))
      \<and> (\<forall>t. identity t = Inr (m t) \<longrightarrow> identity t = Inr (m' t))"
    if "try_fold ?f m rs = Inr m'" "set rs \<subseteq> set records" for m m' rs
    using that
  proof (induction rs arbitrary: m)
    case (Cons r rs)
    from Cons.prems(1) obtain i where j: "identity (cr_expected_txid_hex r) = Inr i"
        "try_fold ?f (m(to_ascii_lowercase (cr_expected_txid_hex r) := i)) rs = Inr m'"
      by (auto simp del: fun_upd_apply)
    have "record_txid r = cr_expected_txid_hex r" "record_txid r = to_ascii_lowercase (cr_expected_txid_hex r)"
      using Cons.prems(2) assms(2) by (auto simp: record_txid_def txid_normal_def)
    with j have i: "identity (record_txid r) = Inr i" "try_fold ?f (m(record_txid r := i)) rs = Inr m'"
      by simp_all
    have "identity t = Inr ((m(record_txid r := i)) t)" if "identity t = Inr (m t)" for t
      using that i(1) by auto
    moreover have "identity (record_txid r) = Inr ((m(record_txid r := i)) (record_txid r))"
      using i(1) by simp
    ultimately show ?case using Cons.IH [OF i(2)] Cons.prems(2) by (metis set_subset_Cons set_ConsD subset_trans)
  qed simp
  then show ?thesis using assms(1) unfolding current_identities_def by blast
qed

definition moved_record :: "identities \<Rightarrow> stage_chain_record \<Rightarrow> bool" where
  "moved_record current r \<longleftrightarrow> cr_status r = Confirmed
     \<and> (\<forall>i. current (record_txid r) = Some i \<longrightarrow> \<not> stored_matches r i)"

definition needs_record :: "identities \<Rightarrow> stage_chain_record \<Rightarrow> chain_identity \<Rightarrow> bool" where
  "needs_record current r i \<longleftrightarrow> current (record_txid r) = Some i
     \<and> (cr_status r = Confirmed \<longrightarrow> \<not> stored_matches r i)"

lemma classify_all:
  defines "F current rs f \<equiv> fold (classify_record current) rs f"
  shows "cf_affected (F current rs f) = cf_affected f \<union> {record_txid r | r. r \<in> set rs \<and> moved_record current r}"
    and "cf_invalid_stages (F current rs f) = cf_invalid_stages f \<union>
      {record_txid r | r. r \<in> set rs \<and> cr_status r = Confirmed \<and> current (record_txid r) = None}"
    and "cf_identities_to_record (F current rs f) =
      (\<lambda>t. if \<exists>r \<in> set rs. record_txid r = t \<and> (\<exists>i. needs_record current r i) then current t
           else cf_identities_to_record f t)"
proof -
  have one: "cf_affected (classify_record current r f) =
        cf_affected f \<union> (if moved_record current r then {record_txid r} else {})"
    "cf_invalid_stages (classify_record current r f) = cf_invalid_stages f \<union>
        (if cr_status r = Confirmed \<and> current (record_txid r) = None then {record_txid r} else {})"
    "cf_identities_to_record (classify_record current r f) =
        (if \<exists>i. needs_record current r i
         then (cf_identities_to_record f)(record_txid r := current (record_txid r))
         else cf_identities_to_record f)" for r f
    by (cases "cr_status r"; cases "current (record_txid r)";
        auto simp: classify_record_def moved_record_def needs_record_def Let_def)+
  show "cf_affected (F current rs f) = cf_affected f \<union> {record_txid r | r. r \<in> set rs \<and> moved_record current r}"
    unfolding F_def by (induction rs arbitrary: f) (auto simp: one)
  show "cf_invalid_stages (F current rs f) = cf_invalid_stages f \<union>
      {record_txid r | r. r \<in> set rs \<and> cr_status r = Confirmed \<and> current (record_txid r) = None}"
    unfolding F_def by (induction rs arbitrary: f) (auto simp: one)
  show "cf_identities_to_record (F current rs f) =
      (\<lambda>t. if \<exists>r \<in> set rs. record_txid r = t \<and> (\<exists>i. needs_record current r i) then current t
           else cf_identities_to_record f t)"
    unfolding F_def by (induction rs arbitrary: f) (auto simp: one fun_eq_iff)
qed

section \<open>The states after the stage transaction\<close>

text \<open>Confirmed stages whose block is not the one that the chain names now.\<close>

definition moved_stages ::
    "(string \<Rightarrow> run_error + chain_identity option) \<Rightarrow> stage_db \<Rightarrow> string \<Rightarrow> string set" where
  "moved_stages identity s rid =
     {t. \<exists>k h b. view s (rid, t) = Some (k, SConfirmed h b)
        \<and> (\<forall>i. identity t = Inr (Some i) \<longrightarrow> confirmed_by i \<noteq> SConfirmed h b)}"

text \<open>The state a stage must have: what the chain says, or back to awaiting when the plan below a moved
  stage has to be proved again.\<close>

definition settled ::
    "(string \<Rightarrow> run_error + chain_identity option) \<Rightarrow> stage_db \<Rightarrow> string \<Rightarrow> string \<Rightarrow> stage_state \<Rightarrow> stage_state" where
  "settled identity s rid t st =
     (case identity t of
        Inr (Some i) \<Rightarrow> confirmed_by i
      | _ \<Rightarrow> if t \<in> (stage_edges s rid)\<^sup>* `` moved_stages identity s rid then SAwaiting else st)"

definition settled_view ::
    "(string \<Rightarrow> run_error + chain_identity option) \<Rightarrow> stage_db \<Rightarrow> string \<Rightarrow> stage_view" where
  "settled_view identity s rid =
     (\<lambda>(a, t). if a = rid then map_option (\<lambda>(k, st). (k, settled identity s rid t st)) (view s (a, t))
        else view s (a, t))"

lemma stored_matches_state:
  assumes "record_complete r" and "cr_status r = Confirmed"
  shows "stored_matches r i \<longleftrightarrow> record_state r = confirmed_by i"
  using assms
  by (auto simp: stored_matches_def record_state_def confirmed_by_def record_complete_def unwrap_or_def)

lemma record_state_confirmed: "(\<exists>h b. record_state r = SConfirmed h b) \<longleftrightarrow> cr_status r = Confirmed"
  by (cases "cr_status r") (auto simp: record_state_def)

lemma stage_state_confirmed_by: "\<exists>h b. confirmed_by i = SConfirmed h b"
  by (simp add: confirmed_by_def)

text \<open>The records and identities that the call reads.\<close>

definition chain_reading ::
    "stage_db \<Rightarrow> string \<Rightarrow> stage_chain_record list \<Rightarrow> (string \<Rightarrow> run_error + chain_identity option) \<Rightarrow>
     identities \<Rightarrow> bool" where
  "chain_reading s rid records identity current \<longleftrightarrow> records_show s rid records
     \<and> (\<forall>r \<in> set records. identity (record_txid r) = Inr (current (record_txid r)))"

lemma chain_readingD:
  assumes "chain_reading s rid records identity current"
  shows "records_show s rid records"
    and "\<forall>r \<in> set records. identity (record_txid r) = Inr (current (record_txid r))"
  using assms by (simp_all add: chain_reading_def)

lemma record_of:
  assumes reading: "chain_reading s rid records identity current"
    and v: "view s (rid, t) = Some (k, st)"
  obtains r where "r \<in> set records" "record_txid r = t" "record_state r = st" "record_complete r"
    "identity t = Inr (current t)"
proof -
  note show' = chain_readingD(1) [OF reading] and agree = chain_readingD(2) [OF reading]
  have "view s (rid, t) \<noteq> None" using v by simp
  then obtain r where r: "r \<in> set records" "record_txid r = t"
    using show' unfolding records_show_def by blast
  moreover from this have "record_state r = st" "record_complete r"
    using show' v unfolding records_show_def by auto
  moreover have "identity t = Inr (current t)" using agree r by blast
  ultimately show ?thesis using that by blast
qed

lemma moved_eq:
  assumes reading: "chain_reading s rid records identity current"
  shows "{record_txid r | r. r \<in> set records \<and> moved_record current r} = moved_stages identity s rid"
proof (intro set_eqI iffI)
  note show' = chain_readingD(1) [OF reading] and agree = chain_readingD(2) [OF reading]
  fix t assume "t \<in> {record_txid r | r. r \<in> set records \<and> moved_record current r}"
  then obtain r where r: "t = record_txid r" "r \<in> set records" "moved_record current r" by blast
  then have v: "view s (rid, t) = Some (cr_stage_index r, record_state r)" "record_complete r"
    using show' unfolding records_show_def by auto
  have c: "cr_status r = Confirmed" using r(3) by (simp add: moved_record_def)
  then obtain h b where hb: "record_state r = SConfirmed h b" using record_state_confirmed by blast
  have "confirmed_by i \<noteq> SConfirmed h b" if "identity t = Inr (Some i)" for i
    using that r agree stored_matches_state [OF v(2) c, of i] hb by (auto simp: moved_record_def)
  then show "t \<in> moved_stages identity s rid" using v(1) hb by (auto simp: moved_stages_def)
next
  fix t assume "t \<in> moved_stages identity s rid"
  then obtain k h b where t: "view s (rid, t) = Some (k, SConfirmed h b)"
      "\<forall>i. identity t = Inr (Some i) \<longrightarrow> confirmed_by i \<noteq> SConfirmed h b"
    by (auto simp: moved_stages_def)
  obtain r where r: "r \<in> set records" "record_txid r = t" "record_state r = SConfirmed h b" "record_complete r"
      "identity t = Inr (current t)" by (rule record_of [OF reading t(1)])
  have c: "cr_status r = Confirmed" using r(3) record_state_confirmed by blast
  have "\<not> stored_matches r i" if "current (record_txid r) = Some i" for i
    using that r t(2) stored_matches_state [OF r(4) c, of i] by auto
  then show "t \<in> {record_txid r | r. r \<in> set records \<and> moved_record current r}"
    using r c by (auto simp: moved_record_def)
qed

lemma findings_affected:
  assumes reading: "chain_reading s rid records identity current"
  shows "cf_affected (chain_findings_of current records) = (stage_edges s rid)\<^sup>* `` moved_stages identity s rid"
    and "cf_invalid_stages (chain_findings_of current records) =
     {record_txid r | r. r \<in> set records \<and> cr_status r = Confirmed \<and> current (record_txid r) = None}
     \<union> spoils current records ((stage_edges s rid)\<^sup>* `` moved_stages identity s rid)"
    and "cf_identities_to_record (chain_findings_of current records) =
     (\<lambda>t. if \<exists>r \<in> set records. record_txid r = t \<and> (\<exists>i. needs_record current r i) then current t else None)"
proof -
  note show' = chain_readingD(1) [OF reading] and agree = chain_readingD(2) [OF reading]
  have fin: "finite {record_txid r | r. r \<in> set records \<and> moved_record current r}" by simp
  have e: "record_edges records = stage_edges s rid" using show' by (simp add: records_show_def)
  show "cf_affected (chain_findings_of current records) = (stage_edges s rid)\<^sup>* `` moved_stages identity s rid"
    "cf_invalid_stages (chain_findings_of current records) =
     {record_txid r | r. r \<in> set records \<and> cr_status r = Confirmed \<and> current (record_txid r) = None}
     \<union> spoils current records ((stage_edges s rid)\<^sup>* `` moved_stages identity s rid)"
    using propagate_closure [OF fin, of current records]
    by (simp_all add: chain_findings_of_def Let_def classify_all no_findings_def moved_eq [OF reading] e)
  show "cf_identities_to_record (chain_findings_of current records) =
     (\<lambda>t. if \<exists>r \<in> set records. record_txid r = t \<and> (\<exists>i. needs_record current r i) then current t else None)"
    by (simp add: chain_findings_of_def Let_def split_beta classify_all no_findings_def cong: if_cong)
qed

text \<open>What the findings say of one stage.\<close>

lemma findings_of_stage:
  assumes reading: "chain_reading s rid records identity current"
    and v: "view s (rid, t) = Some (k, st)"
  shows "t \<in> cf_invalid_stages (chain_findings_of current records) \<longleftrightarrow>
       current t = None \<and> t \<in> (stage_edges s rid)\<^sup>* `` moved_stages identity s rid"
    and "cf_identities_to_record (chain_findings_of current records) t =
       (case current t of None \<Rightarrow> None | Some i \<Rightarrow> if st = confirmed_by i then None else Some i)"
proof -
  note show' = chain_readingD(1) [OF reading] and agree = chain_readingD(2) [OF reading]
  obtain r where r: "r \<in> set records" "record_txid r = t" "record_state r = st" "record_complete r"
      "identity t = Inr (current t)" by (rule record_of [OF reading v])
  have same: "record_state q = st \<and> record_complete q" if "q \<in> set records" "record_txid q = t" for q
    using that show' v unfolding records_show_def by auto
  let ?M = "moved_stages identity s rid" and ?E = "stage_edges s rid"
  have e: "record_edges records = ?E" using show' by (simp add: records_show_def)
  have edge: "(p, t) \<in> ?E \<longleftrightarrow> (\<exists>r \<in> set records. record_txid r = t \<and> p \<in> set (cr_parent_txids r))" for p
    unfolding e [symmetric] record_edges_def by blast
  have moved: "t \<in> ?M" if "cr_status r = Confirmed" "current t = None"
    using that r v record_state_confirmed [of r] by (auto simp: moved_stages_def)
  have conf: "cr_status r = Confirmed" if "t \<in> ?M"
    using that v r record_state_confirmed [of r] by (auto simp: moved_stages_def)
  have spoil: "t \<in> spoils current records (?E\<^sup>* `` ?M) \<longleftrightarrow> current t = None \<and> (\<exists>p \<in> ?E\<^sup>* `` ?M. (p, t) \<in> ?E)"
    by (auto simp: spoils_def edge)
  have closed: "t \<in> ?E\<^sup>* `` ?M \<longleftrightarrow> t \<in> ?M \<or> (\<exists>p \<in> ?E\<^sup>* `` ?M. (p, t) \<in> ?E)"
  proof
    assume "t \<in> ?E\<^sup>* `` ?M"
    then obtain a where a: "a \<in> ?M" "(a, t) \<in> ?E\<^sup>*" by blast
    from a(2,1) show "t \<in> ?M \<or> (\<exists>p \<in> ?E\<^sup>* `` ?M. (p, t) \<in> ?E)" by (cases rule: rtranclE) auto
  qed (auto intro: rtrancl_into_rtrancl)
  show "t \<in> cf_invalid_stages (chain_findings_of current records) \<longleftrightarrow>
       current t = None \<and> t \<in> ?E\<^sup>* `` ?M"
  proof
    assume "t \<in> cf_invalid_stages (chain_findings_of current records)"
    then consider q where "q \<in> set records" "record_txid q = t" "cr_status q = Confirmed" "current t = None"
      | "t \<in> spoils current records (?E\<^sup>* `` ?M)"
      unfolding findings_affected [OF reading] by blast
    then show "current t = None \<and> t \<in> ?E\<^sup>* `` ?M"
    proof cases
      case 1
      then have "record_state q = record_state r" using same r(3) by simp
      then have "cr_status r = Confirmed" using 1(3) record_state_confirmed by metis
      then show ?thesis using moved 1(4) closed by blast
    next
      case 2
      then show ?thesis using spoil closed by blast
    qed
  next
    assume t: "current t = None \<and> t \<in> ?E\<^sup>* `` ?M"
    then consider "t \<in> ?M" | "t \<in> spoils current records (?E\<^sup>* `` ?M)" using spoil closed by blast
    then show "t \<in> cf_invalid_stages (chain_findings_of current records)"
      unfolding findings_affected [OF reading] using conf r t by cases blast+
  qed
  have need: "(\<exists>i. needs_record current q i) \<longleftrightarrow> (\<exists>i. current t = Some i \<and> st \<noteq> confirmed_by i)"
    if "q \<in> set records" "record_txid q = t" for q
    using same [OF that] that(2) stored_matches_state [of q] record_state_confirmed [of q]
      stage_state_confirmed_by by (auto simp: needs_record_def)
  show "cf_identities_to_record (chain_findings_of current records) t =
       (case current t of None \<Rightarrow> None | Some i \<Rightarrow> if st = confirmed_by i then None else Some i)"
    unfolding findings_affected [OF reading] using need r(1,2) by (auto split: option.splits)
qed

text \<open>The two folds over the store put every stage in its settled state.\<close>

lemma settle_stages:
  assumes reading: "chain_reading s rid records identity current" and ok: "db_ok s"
  defines "f \<equiv> chain_findings_of current records"
  shows "\<exists>s1 s2. reset_invalid rid (cf_invalid_stages f) s = Inr s1
     \<and> record_identities rid (cf_invalid_stages f) (cf_identities_to_record f) s1 = Inr s2
     \<and> db_ok s2 \<and> view s2 = settled_view identity s rid"
proof -
  note show' = chain_readingD(1) [OF reading]
  have known: "txid_normal (record_txid r) \<and> view s (rid, record_txid r) \<noteq> None" if "r \<in> set records" for r
    using show' that unfolding records_show_def by (auto simp: record_txid_normal)
  have inv: "cf_invalid_stages f \<subseteq> record_txid ` set records"
    unfolding f_def findings_affected [OF reading] by (auto simp: spoils_def)
  have dom: "dom (cf_identities_to_record f) \<subseteq> record_txid ` set records"
    unfolding f_def findings_affected [OF reading] by (auto split: if_splits)
  have "finite (cf_invalid_stages f)" using inv by (rule finite_subset) simp
  from reset_invalid_view [OF ok this, of rid] obtain s1 where
    s1: "reset_invalid rid (cf_invalid_stages f) s = Inr s1" "db_ok s1"
      "\<And>a t. view s1 (a, t) = (if a = rid \<and> t \<in> cf_invalid_stages f
         then map_option (apsnd (\<lambda>_. SAwaiting)) (view s (a, t)) else view s (a, t))"
    using inv known by blast
  have "finite (dom (cf_identities_to_record f))" using dom by (rule finite_subset) simp
  moreover have "cf_invalid_stages f \<inter> dom (cf_identities_to_record f) = {}"
  proof -
    have "current t = None" if "t \<in> cf_invalid_stages f" for t
      using that unfolding f_def findings_affected [OF reading] by (auto simp: spoils_def)
    moreover have "current t \<noteq> None" if "t \<in> dom (cf_identities_to_record f)" for t
      using that unfolding f_def findings_affected [OF reading] by (auto split: if_splits)
    ultimately show ?thesis by blast
  qed
  moreover have "\<forall>t \<in> dom (cf_identities_to_record f). txid_normal t \<and> view s1 (rid, t) \<noteq> None"
    using dom known s1(3) by (auto simp: option.map_disc_iff)
  ultimately obtain s2 where
    s2: "record_identities rid (cf_invalid_stages f) (cf_identities_to_record f) s1 = Inr s2" "db_ok s2"
      "\<And>a t. view s2 (a, t) = (if a = rid \<and> t \<in> dom (cf_identities_to_record f)
         then map_option (apsnd (\<lambda>_. confirmed_by (the (cf_identities_to_record f t)))) (view s1 (a, t))
         else view s1 (a, t))"
    using record_identities_view [OF s1(2)] by blast
  have "view s2 (a, t) = settled_view identity s rid (a, t)" for a t
  proof (cases "a = rid \<and> view s (rid, t) \<noteq> None")
    case True
    then obtain k st where v: "a = rid" "view s (rid, t) = Some (k, st)" by auto
    obtain r where "identity t = Inr (current t)" by (rule record_of [OF reading v(2)])
    then show ?thesis
      using findings_of_stage [OF reading v(2)] s1(3) s2(3) v
      by (auto simp: settled_view_def settled_def f_def dom_def split: option.splits)
  next
    case False
    then consider "a \<noteq> rid" | "a = rid" "view s (a, t) = None" by blast
    then show ?thesis by cases (simp_all add: s1(3) s2(3) settled_view_def)
  qed
  then show ?thesis using s1(1) s2(1,2) by (auto simp: fun_eq_iff)
qed

section \<open>The other phases\<close>

lemma row_view_reheighted [simp]: "row_view (reheighted rid hs r) = row_view r"
  by (auto simp: row_view_def row_state_def reheighted_def set_not_before_def split: option.splits)

lemma view_reheighted:
  "view (s\<lparr>db_stages := map (reheighted rid hs) (db_stages s)\<rparr>) = view s"
proof -
  have "sr_expected_txid_hex (reheighted rid hs r) = sr_expected_txid_hex r" for r
    by (auto simp: reheighted_def set_not_before_def split: option.splits)
  then show ?thesis
    by (auto simp: view_def find_stage_def find_map_same option.map_comp comp_def intro!: ext)
qed

lemma catch_up_loop_view:
  assumes "catch_up_loop delay rid rows prev s g = Some (Inr (s', g'))" and "db_ok s"
  shows "view s' = view s \<and> db_ok s'"
  using assms
proof (induction rows arbitrary: prev s g)
  case (Cons r rows)
  from Cons.prems(1) obtain d g1 where d: "delay g = Some (d, g1)" "prev + d < 2 ^ 32"
    by (auto simp: Option.bind_eq_Some_conv checked_add_def split: if_splits)
  let ?h = "max (max (prev + d) (sr_scheduled_height r)) (unwrap_or 0 (sr_broadcast_not_before_height r))"
  have step: "catch_up_loop delay rid (r # rows) prev s g =
      (case reschedule_stage rid (sr_stage_index r) ?h s of
         (Inl e, db') \<Rightarrow> Some (Inl (RunStage e))
       | (Inr _, db') \<Rightarrow> catch_up_loop delay rid rows ?h db' g1)"
    using d by (simp add: checked_add_def Let_def)
  let ?s = "s\<lparr>db_stages := map (reheighted rid [(sr_stage_index r, ?h)]) (db_stages s)\<rparr>"
  obtain n where n: "reschedule_stage rid (sr_stage_index r) ?h s = (Inr n, ?s)"
    using reschedule_stage_eq [OF Cons.prems(2)] by blast
  then have "db_ok ?s" using reschedule_stage_ok [OF Cons.prems(2)] by (metis snd_conv)
  then show ?case
    using Cons.IH [of ?h ?s g1] Cons.prems(1) step n by (simp add: view_reheighted)
qed simp

lemma rerandomize_view:
  assumes "rerandomize_remaining_preparation_broadcast_heights env db rid network tip g = Some (Inr (n, db', g'))"
    and "db_ok (mdb_stages db)"
  shows "view (mdb_stages db') = view (mdb_stages db) \<and> db_ok (mdb_stages db')"
  using assms
  by (auto simp: rerandomize_remaining_preparation_broadcast_heights_def Let_def bind_eq_Some_conv
      split: sum.splits preparation_timing_policy.splits) (drule (1) catch_up_loop_view, simp)+

lemma child_rows_stages:
  "reset_child_rows identity rid rows (inc, any, db) = Inr (inc', any', db') \<Longrightarrow>
     mdb_stages db' = mdb_stages db \<and> mdb_runs db' = mdb_runs db"
proof (induction rows arbitrary: inc any db)
  case (Cons row rows)
  obtain child k where row: "row = (child, k)" by fastforce
  from Cons.prems obtain i where i: "identity child = Inr i" by (auto simp: row)
  show ?case
  proof (cases i)
    case None
    then have "reset_child_rows identity rid rows (inc, True, delete_pending rid child db) = Inr (inc', any', db')"
      using Cons.prems i by (simp add: row)
    from Cons.IH [OF this] show ?thesis by (simp add: delete_pending_def)
  next
    case (Some x)
    then have "reset_child_rows identity rid rows (insert k inc, any, db) = Inr (inc', any', db')"
      using Cons.prems i by (simp add: row)
    then show ?thesis by (rule Cons.IH)
  qed
qed simp

lemma reset_notes_stages:
  "mdb_stages (snd (reset_notes rid t inc is (any, db))) = mdb_stages db
   \<and> mdb_runs (snd (reset_notes rid t inc is (any, db))) = mdb_runs db"
  unfolding reset_notes_def by (induction "is" arbitrary: any db) (simp_all add: reset_note_def)

lemma reset_children_stages:
  "reset_children_of identity rid (any, db) t = Inr (any', db') \<Longrightarrow>
     mdb_stages db' = mdb_stages db \<and> mdb_runs db' = mdb_runs db"
  using reset_notes_stages child_rows_stages
  by (fastforce simp: reset_children_of_def Let_def prod_eq_iff)

lemma reset_migration_children_stages:
  assumes "reset_migration_children_for_reorged_denominations identity now db rid ts = (r, db')"
  shows "mdb_stages db' = mdb_stages db
     \<and> (\<forall>p. run_phase db rid = Inr p \<and> \<not> migration_phase_releases_wallet_locks p \<longrightarrow>
          (\<exists>p'. run_phase db' rid = Inr p' \<and> \<not> migration_phase_releases_wallet_locks p'))"
proof -
  have fold: "mdb_stages (snd s') = mdb_stages db \<and> mdb_runs (snd s') = mdb_runs db"
    if "try_fold (reset_children_of identity rid) (False, db) us = Inr s'" for us s'
    using that by (rule try_fold_invariant) (use reset_children_stages in \<open>fastforce+\<close>)
  have upd: "mdb_stages (snd (sql_update_runs P f d)) = mdb_stages d" for P f d
    by (simp add: sql_update_runs_def)
  have phase: "\<exists>p'. run_phase (snd (sql_update_runs (open_run rid) (await_denominations now b) d)) rid = Inr p'
      \<and> \<not> migration_phase_releases_wallet_locks p'"
    if "run_phase d rid = Inr p" "\<not> migration_phase_releases_wallet_locks p" for d p b
  proof -
    let ?u = "\<lambda>r. if open_run rid r then await_denominations now b r else r"
    have k: "rr_run_id (?u r) = rr_run_id r" for r by (simp add: await_denominations_def Let_def)
    from that(1) obtain r where r: "find (\<lambda>r. rr_run_id r = rid) (mdb_runs d) = Some r" "rr_phase r = p"
      by (auto simp: run_phase_def run_of_def)
    then have "find (\<lambda>r. rr_run_id r = rid) (map ?u (mdb_runs d)) = Some (?u r)"
      by (simp add: find_map_same k del: if_image_distrib)
    then show ?thesis
      using that(2) r(2)
      by (auto simp: run_phase_def run_of_def sql_update_runs_def await_denominations_def Let_def
          migration_phase_releases_wallet_locks_def phase_defs)
  qed
  have same: "run_phase d rid = run_phase db rid" if "mdb_runs d = mdb_runs db" for d
    using that by (simp add: run_phase_def run_of_def)
  let ?close = "\<lambda>any d. if any then snd (sql_update_runs (open_run rid) (await_denominations now True) d) else d"
  obtain any d where d: "mdb_stages d = mdb_stages db" "mdb_runs d = mdb_runs db" "db' = ?close any d"
  proof (cases "ts = {} \<or> (\<exists>e. run_phase db rid = Inl e)
      \<or> (\<exists>p. run_phase db rid = Inr p \<and> migration_phase_releases_wallet_locks p)
      \<or> (\<exists>e. try_fold (reset_children_of identity rid) (False, db) (sorted_list_of_set ts) = Inl e)")
    case True
    then have "db' = db" using assms by (auto simp: reset_migration_children_for_reorged_denominations_def
        split: sum.splits if_splits)
    then show ?thesis using that [of db False] by simp
  next
    case False
    obtain p where p: "run_phase db rid = Inr p" "\<not> migration_phase_releases_wallet_locks p"
      using False by (cases "run_phase db rid") auto
    obtain any d where t: "try_fold (reset_children_of identity rid) (False, db) (sorted_list_of_set ts) = Inr (any, d)"
      using False by (cases "try_fold (reset_children_of identity rid) (False, db) (sorted_list_of_set ts)") auto
    have "db' = ?close any d"
      using assms p t False by (cases any) (simp_all add: reset_migration_children_for_reorged_denominations_def)
    then show ?thesis using that [of d any] fold [OF t] by simp
  qed
  then show ?thesis using phase [of d] same [OF d(2)] upd by (cases any) simp_all
qed

end
