(* ===== verification/Chain_Settled.thy ===== *)
theory Chain_Settled
  imports Chain_Outcome
begin

text \<open>
  The reconciliation as a whole: it returns, an error leaves the stages alone, and success leaves
  every stage in the state that the chain and the plan determine.
\<close>

text \<open>The sampler keeps accepting for every policy of the preparation.\<close>

definition accepts_preparations :: "'g sampler \<Rightarrow> bool" where
  "accepts_preparations env \<longleftrightarrow>
     (\<forall>network p n. always_accepts env
        (fst (preparation_schedule_parameters_for_transaction_count network p n))
        (snd (preparation_schedule_parameters_for_transaction_count network p n)))"

lemma preparation_delay_live:
  "accepts_preparations env \<Longrightarrow> delay_returns (preparation_delay env network p n)"
  using draw_delay_live [of env]
  by (auto simp: accepts_preparations_def delay_returns_def preparation_delay_def split_beta)

lemma catch_up_loop_returns:
  "delay_returns delay \<Longrightarrow> \<exists>r. catch_up_loop delay rid rows prev s g = Some r"
proof (induction rows arbitrary: prev s g)
  case (Cons r rows)
  then obtain d g' where "delay g = Some (d, g')" unfolding delay_returns_def by blast
  then show ?case using Cons by (auto simp: Let_def split: option.splits prod.splits sum.splits)
qed simp

lemma rerandomize_returns:
  assumes "accepts_preparations env"
  shows "\<exists>r. rerandomize_remaining_preparation_broadcast_heights env db rid network tip g = Some r"
proof -
  have one: "\<exists>r. Option.bind (catch_up_loop (preparation_delay env network p n) rid rows tip s g) (\<lambda>r. Some (k r)) =
      Some r" for p n rows s and k :: "run_error + stage_db \<times> 'a \<Rightarrow> run_error + nat \<times> migration_db \<times> 'a"
    using catch_up_loop_returns [OF preparation_delay_live [OF assms], of network p n rid rows tip s g] by auto
  show ?thesis
    unfolding rerandomize_remaining_preparation_broadcast_heights_def Let_def
    by (auto split: sum.splits preparation_timing_policy.splits intro: one)
qed

lemma apply_findings_returns:
  assumes "accepts_preparations env"
  shows "\<exists>r. apply_findings env db rid f ctx g = Some r"
proof -
  have one: "\<exists>z. rerandomize_remaining_preparation_broadcast_heights env d rid network tip g = Some z"
    for d network tip
    using rerandomize_returns [OF assms] .
  show ?thesis
    unfolding apply_findings_def using one
    by (auto split: sum.splits option.splits prod.splits bool.splits)
qed

text \<open>The stage transaction of a run that holds its locks.\<close>

lemma apply_findings_settles:
  assumes reading: "chain_reading (mdb_stages db) rid records identity current" and ok: "db_ok (mdb_stages db)"
    and phase: "run_phase db rid = Inr p" "\<not> migration_phase_releases_wallet_locks p"
    and run: "apply_findings env db rid (chain_findings_of current records) ctx g = Some (Inr m)"
  shows "\<exists>db'. m = Some db' \<and> db_ok (mdb_stages db')
     \<and> view (mdb_stages db') = settled_view identity (mdb_stages db) rid"
proof -
  let ?f = "chain_findings_of current records"
  obtain s1 s2 where s: "reset_invalid rid (cf_invalid_stages ?f) (mdb_stages db) = Inr s1"
      "record_identities rid (cf_invalid_stages ?f) (cf_identities_to_record ?f) s1 = Inr s2"
      "db_ok s2" "view s2 = settled_view identity (mdb_stages db) rid"
    using settle_stages [OF reading ok] by blast
  let ?pending = "try_fold (still_pending db rid) False (sorted_list_of_set (cf_recovered_pending ?f))"
  obtain b where b: "?pending = Inr b"
    using run by (cases ?pending) (simp_all add: apply_findings_def phase)
  have eq: "apply_findings env db rid ?f ctx g =
      (case (b, ctx) of
         (True, Some (network, tip)) \<Rightarrow>
           map_option (\<lambda>r. rbind r (\<lambda>(n, db'', g'). Inr (Some db'')))
             (rerandomize_remaining_preparation_broadcast_heights env (db\<lparr>mdb_stages := s2\<rparr>) rid network tip g)
       | _ \<Rightarrow> Some (Inr (Some (db\<lparr>mdb_stages := s2\<rparr>))))"
    by (simp add: apply_findings_def phase b s(1,2))
  show ?thesis
  proof (cases "b \<and> ctx \<noteq> None")
    case False
    then have "m = Some (db\<lparr>mdb_stages := s2\<rparr>)" using run unfolding eq by (cases b; cases ctx) auto
    then show ?thesis using s(3,4) by simp
  next
    case True
    then obtain network tip where "ctx = Some (network, tip)" by auto
    with True run obtain n db2 g' where
      "rerandomize_remaining_preparation_broadcast_heights env (db\<lparr>mdb_stages := s2\<rparr>) rid network tip g =
        Some (Inr (n, db2, g'))" "m = Some db2"
      unfolding eq by (auto simp: rbind_eq_Inr)
    then show ?thesis using rerandomize_view s(3,4) by fastforce
  qed
qed

lemma settled_nothing:
  assumes "chain_reading s rid records identity current" and "db_ok s"
    and "cf_invalid_stages (chain_findings_of current records) = {}"
    and "dom (cf_identities_to_record (chain_findings_of current records)) = {}"
  shows "view s = settled_view identity s rid"
  using settle_stages [OF assms(1,2)] assms(3,4)
  by (simp add: reset_invalid_def record_identities_def)

lemma no_records_settled:
  assumes "records_show s rid []"
  shows "view s = settled_view identity s rid"
proof
  fix key :: "string \<times> string"
  obtain a t where key: "key = (a, t)" by fastforce
  show "view s key = settled_view identity s rid key"
  proof (cases "a = rid")
    case True
    then have "view s (a, t) = None" using assms unfolding records_show_def by (cases "view s (rid, t)") auto
    then show ?thesis using True by (simp add: key settled_view_def)
  qed (simp add: key settled_view_def)
qed

section \<open>The whole call\<close>

lemma await_phase_stages [simp]: "mdb_stages (snd (sql_update_runs P f db)) = mdb_stages db"
  by (simp add: sql_update_runs_def)

lemma reconcile_records:
  assumes live: "accepts_preparations env" and ok: "db_ok (mdb_stages db)"
    and phase: "run_phase db rid = Inr p" "\<not> migration_phase_releases_wallet_locks p"
    and reading: "chain_reading (mdb_stages db) rid records identity current"
    and reset: "reset_migration_children_for_reorged_denominations identity now db rid ts = (r, db1)
       \<or> db1 = db"
  shows "\<exists>m. apply_findings env db1 rid (chain_findings_of current records) ctx g = Some m
     \<and> mdb_stages db1 = mdb_stages db
     \<and> (\<forall>x. m = Inr x \<longrightarrow> (\<exists>db'. x = Some db' \<and> db_ok (mdb_stages db')
          \<and> view (mdb_stages db') = settled_view identity (mdb_stages db) rid))"
proof -
  have db1: "mdb_stages db1 = mdb_stages db"
      "\<exists>p'. run_phase db1 rid = Inr p' \<and> \<not> migration_phase_releases_wallet_locks p'"
    using reset reset_migration_children_stages phase by blast+
  then obtain p' where p': "run_phase db1 rid = Inr p'" "\<not> migration_phase_releases_wallet_locks p'" by blast
  obtain m where m: "apply_findings env db1 rid (chain_findings_of current records) ctx g = Some m"
    using apply_findings_returns [OF live] by blast
  have "\<exists>db'. x = Some db' \<and> db_ok (mdb_stages db')
      \<and> view (mdb_stages db') = settled_view identity (mdb_stages db) rid" if "m = Inr x" for x
    using apply_findings_settles [of db1 rid records identity current p' env ctx g x] reading ok p' m that db1(1)
    by simp
  then show ?thesis using m db1(1) by blast
qed

lemma reconcile_outcome:
  assumes live: "accepts_preparations env" and ok: "db_ok (mdb_stages db)"
    and phase: "run_phase db rid = Inr p" "\<not> migration_phase_releases_wallet_locks p"
  shows "\<exists>res db'. reconcile_denomination_stage_chain_state env flavor identity tip now db rid g = Some (res, db')
     \<and> (case res of Inl e \<Rightarrow> mdb_stages db' = mdb_stages db
        | Inr _ \<Rightarrow> db_ok (mdb_stages db')
            \<and> view (mdb_stages db') = settled_view identity (mdb_stages db) rid)"
proof (cases "denomination_stage_chain_records (mdb_stages db) rid")
  case (Inl e)
  then show ?thesis by (simp add: reconcile_denomination_stage_chain_state_def map_error_def)
next
  case (Inr records)
  note shown = chain_records_show [OF ok Inr]
  show ?thesis
  proof (cases "records = []")
    case True
    with no_records_settled shown have "view (mdb_stages db) = settled_view identity (mdb_stages db) rid" by simp
    then show ?thesis using Inr True ok
      by (simp add: reconcile_denomination_stage_chain_state_def map_error_def)
  next
    case False
    show ?thesis
    proof (cases "rbind (current_identities identity records) (\<lambda>current.
        let f = chain_findings_of current records in
        rbind (recovery_context flavor tip db rid (cf_recovered_pending f)) (\<lambda>ctx. Inr (f, ctx)))")
      case (Inl e)
      then show ?thesis using Inr False
        by (simp add: reconcile_denomination_stage_chain_state_def map_error_def)
    next
      case found: (Inr fc)
      then obtain current ctx where cur: "current_identities identity records = Inr current"
        "fc = (chain_findings_of current records, ctx)" by (auto simp: Let_def)
      let ?f = "chain_findings_of current records"
      have reading: "chain_reading (mdb_stages db) rid records identity current"
        using shown current_identities_agree [OF cur(1)] by (auto simp: chain_reading_def records_show_def)
      obtain r1 db1 where reset: "(if cf_affected ?f \<noteq> {}
            then reset_migration_children_for_reorged_denominations identity now db rid (cf_affected ?f)
            else (Inr False, db)) = (r1, db1)" by fastforce
      then have "reset_migration_children_for_reorged_denominations identity now db rid (cf_affected ?f) = (r1, db1)
          \<or> db1 = db" by (auto split: if_splits)
      from reconcile_records [OF live ok phase reading this, of ctx g] obtain m where
        m: "apply_findings env db1 rid ?f ctx g = Some m" "mdb_stages db1 = mdb_stages db"
          "\<And>x. m = Inr x \<Longrightarrow> \<exists>db'. x = Some db' \<and> db_ok (mdb_stages db')
            \<and> view (mdb_stages db') = settled_view identity (mdb_stages db) rid" by blast
      have eq: "reconcile_denomination_stage_chain_state env flavor identity tip now db rid g =
          (case r1 of
             Inl e \<Rightarrow> Some (Inl e, db1)
           | Inr _ \<Rightarrow>
              Option.bind
                (if cf_invalid_stages ?f \<noteq> {} \<or> dom (cf_identities_to_record ?f) \<noteq> {}
                 then Some m else Some (Inr (Some db1))) (\<lambda>r.
              Some (case r of
                 Inl e \<Rightarrow> (Inl e, db1)
               | Inr None \<Rightarrow> (Inr (), db1)
               | Inr (Some db2) \<Rightarrow>
                   (Inr (),
                    if cf_affected ?f \<noteq> {}
                    then snd (sql_update_runs (open_run rid) (await_denominations now False) db2)
                    else db2))))"
        unfolding reconcile_denomination_stage_chain_state_def Inr map_error_def sum.case
          found cur(2) prod.case reset m(1) using False by simp
      show ?thesis
      proof (cases r1)
        case (Inl e)
        then show ?thesis using eq m(2) by simp
      next
        case (Inr b)
        show ?thesis
        proof (cases "cf_invalid_stages ?f \<noteq> {} \<or> dom (cf_identities_to_record ?f) \<noteq> {}")
          case True
          then show ?thesis using eq Inr m(2,3) by (cases m) (auto split: if_splits)
        next
          case False
          then have "view (mdb_stages db) = settled_view identity (mdb_stages db) rid"
            using settled_nothing [OF reading ok] by simp
          then show ?thesis using eq Inr False m(2) ok by simp
        qed
      qed
    qed
  qed
qed

text \<open>
  C10. One reconciliation of a run that holds its locks always returns. When it reports an error the
  stage table is as it was; when it succeeds the table is well formed and every stage of the run is in
  the state the chain and the plan determine: confirmed with the identity of the block that holds its
  transaction, else awaiting its inputs if it spends, through any chain of stages, a confirmed stage
  that the chain moved, else as it was. The stages of other runs do not move.
\<close>

theorem reconcile_settles:
  assumes "accepts_preparations env" and "db_ok (mdb_stages db)"
    and "run_phase db rid = Inr p" and "\<not> migration_phase_releases_wallet_locks p"
  shows "\<exists>res db'. reconcile_denomination_stage_chain_state env flavor identity tip now db rid g = Some (res, db')
     \<and> (case res of Inl e \<Rightarrow> mdb_stages db' = mdb_stages db
        | Inr _ \<Rightarrow> db_ok (mdb_stages db')
            \<and> view (mdb_stages db') = settled_view identity (mdb_stages db) rid)"
  using assms by (rule reconcile_outcome)

definition example_identity :: chain_identity where
  "example_identity = \<lparr>ci_mined_height = 150, ci_block_hash = Hash32 (replicate 32 9)\<rparr>"

definition example_flavor :: build_flavor where
  "example_flavor = \<lparr>wcash = False, ironwood_masquerade = False\<rparr>"

definition example_chain :: "string \<Rightarrow> run_error + chain_identity option" where
  "example_chain t = Inr (if t = example_txid CHR ''a'' then Some example_identity else None)"

lemma counter_sampler_prepares: "accepts_preparations counter_sampler"
proof -
  have "always_accepts counter_sampler (fst q) (snd q)"
    if q: "q = preparation_schedule_parameters_for_transaction_count network p n" for q network p n
  proof -
    obtain mean mx where m: "q = (mean, mx)" by fastforce
    have "mean < mx" "mx \<le> 96" using preparation_parameters_valid [of network p n mean mx] m q by simp_all
    then show ?thesis using m by (auto intro!: counter_sampler_accepts)
  qed
  then show ?thesis unfolding accepts_preparations_def by blast
qed

theorem reconcile_settles_witness:
  "\<exists>res db'. reconcile_denomination_stage_chain_state counter_sampler example_flavor example_chain (Inr 200) 0 example_db
        ''run'' 0 = Some (res, db')
     \<and> (case res of Inl e \<Rightarrow> mdb_stages db' = mdb_stages example_db
        | Inr _ \<Rightarrow> view (mdb_stages db') (''run'', example_txid CHR ''a'') = Some (0, SConfirmed 150 (replicate 32 9)))"
proof -
  have "db_ok (mdb_stages example_db)" using example_store_ok by (simp add: example_db_def)
  moreover have "run_phase example_db ''run'' = Inr PHASE_WAITING_DENOM_CONFIRMATIONS"
    by (simp add: run_phase_def run_of_def example_db_def example_run_def)
  moreover have "\<not> migration_phase_releases_wallet_locks PHASE_WAITING_DENOM_CONFIRMATIONS"
    by (simp add: migration_phase_releases_wallet_locks_def phase_defs)
  ultimately obtain res db' where r:
    "reconcile_denomination_stage_chain_state counter_sampler example_flavor example_chain (Inr 200) 0 example_db
        ''run'' 0 = Some (res, db')"
    "case res of Inl e \<Rightarrow> mdb_stages db' = mdb_stages example_db
       | Inr _ \<Rightarrow> db_ok (mdb_stages db') \<and>
           view (mdb_stages db') = settled_view example_chain (mdb_stages example_db) ''run''"
    using reconcile_settles [OF counter_sampler_prepares,
        of example_db "''run''" PHASE_WAITING_DENOM_CONFIRMATIONS example_flavor example_chain "Inr 200" 0 0] by blast
  have "view example_store (''run'', example_txid CHR ''a'') = Some (0, SPending)"
    by (simp add: view_find find_stage_def example_store_def example_row_def row_view_def row_state_def)
  then have "settled_view example_chain (mdb_stages example_db) ''run'' (''run'', example_txid CHR ''a'') =
      Some (0, SConfirmed 150 (replicate 32 9))"
    by (simp add: settled_view_def settled_def example_chain_def example_db_def confirmed_by_def
        example_identity_def Hash32_inverse)
  then show ?thesis using r by (intro exI [of _ res] exI [of _ db']) (auto split: sum.splits)
qed

end
