(* ===== verification/Run_Confirmations.thy ===== *)
theory Run_Confirmations
  imports Chain_Reconcile
begin

text \<open>
  The confirmation bookkeeping of a run (\<open>migration.rs\<close>): counting its parts, following its
  migration transactions through the chain to the end of the run, and its denomination stages to the
  point where migration can start. The statements of these functions commit one by one, so an error
  leaves what the statements before it did; the two clock readings of a call are arguments.
\<close>

section \<open>Counting the parts of a run\<close>

definition pending_rows :: "migration_db \<Rightarrow> string \<Rightarrow> pending_row list" where
  "pending_rows db run_id = filter (\<lambda>p. pt_run_id p = run_id) (mdb_pending db)"

definition count_pending_with_status :: "migration_db \<Rightarrow> string \<Rightarrow> string \<Rightarrow> run_error + u32" where
  "count_pending_with_status db run_id status =
     try_u32 RunCountOverflow (length (filter (\<lambda>p. pt_status p = status) (pending_rows db run_id)))"

definition planned_part_count_with_conn :: "migration_db \<Rightarrow> string \<Rightarrow> run_error + u32" where
  "planned_part_count_with_conn db run_id =
     rbind (run_of db run_id) (\<lambda>r. try_u32 RunPartCountOverflow (length (rr_target_values r)))"

definition pending_migration_note_outpoints_with_conn :: "migration_db \<Rightarrow> string \<Rightarrow> (string \<times> u32) set" where
  "pending_migration_note_outpoints_with_conn db run_id =
     set (map (\<lambda>p. (to_ascii_lowercase (pt_selected_note_txid p), pt_selected_note_output_index p))
       (pending_rows db run_id))"

definition unpromoted_signed_child_note_outpoints_with_conn ::
    "migration_db \<Rightarrow> string \<Rightarrow> (string \<times> u32) list" where
  "unpromoted_signed_child_note_outpoints_with_conn db run_id =
     filter (\<lambda>outpoint. outpoint \<notin> pending_migration_note_outpoints_with_conn db run_id)
       (map (\<lambda>c. (to_ascii_lowercase (on_txid_hex (sc_selected_note c)), on_output_index (sc_selected_note c)))
         (filter (\<lambda>c. sc_run_id c = run_id) (mdb_children db)))"

definition unpromoted_signed_child_pczt_count_with_conn :: "migration_db \<Rightarrow> string \<Rightarrow> run_error + u32" where
  "unpromoted_signed_child_pczt_count_with_conn db run_id =
     try_u32 RunSignedCountOverflow (length (unpromoted_signed_child_note_outpoints_with_conn db run_id))"

definition migration_part_assignment_complete_with_conn :: "migration_db \<Rightarrow> string \<Rightarrow> run_error + bool" where
  "migration_part_assignment_complete_with_conn db run_id =
     rbind (planned_part_count_with_conn db run_id) (\<lambda>planned_count.
     rbind (count_for_run (length (pending_rows db run_id))) (\<lambda>pending_count.
     rbind (unpromoted_signed_child_pczt_count_with_conn db run_id) (\<lambda>signed_count.
     rbind (ok_or AssignedPartCountOverflow (checked_add 32 pending_count signed_count)) (\<lambda>assigned_count.
     Inr (planned_count > 0 \<and> assigned_count = planned_count)))))"

section \<open>Statements on the tables\<close>

definition sql_update_pending ::
    "(pending_row \<Rightarrow> bool) \<Rightarrow> (pending_row \<Rightarrow> pending_row) \<Rightarrow> migration_db \<Rightarrow> nat \<times> migration_db" where
  "sql_update_pending P f db =
     (length (filter P (mdb_pending db)),
      db\<lparr>mdb_pending := map (\<lambda>p. if P p then f p else p) (mdb_pending db)\<rparr>)"

definition move_run :: "string \<Rightarrow> int \<Rightarrow> string option \<Rightarrow> run_row \<Rightarrow> run_row" where
  "move_run phase now message r =
     r\<lparr>rr_phase := phase, rr_updated_at_ms := now, rr_last_error := message\<rparr>"

definition set_note_locks :: "string \<Rightarrow> string \<Rightarrow> migration_db \<Rightarrow> migration_db" where
  "set_note_locks run_id state db =
     db\<lparr>mdb_notes := map (\<lambda>n. if nr_run_id n = run_id then n\<lparr>nr_lock_state := state\<rparr> else n) (mdb_notes db)\<rparr>"

definition delete_children :: "string \<Rightarrow> migration_db \<Rightarrow> migration_db" where
  "delete_children run_id db =
     db\<lparr>mdb_children := filter (\<lambda>c. sc_run_id c \<noteq> run_id) (mdb_children db)\<rparr>"

text \<open>The subquery that an update of a pending row is guarded with.\<close>

definition run_is_open :: "migration_db \<Rightarrow> string \<Rightarrow> bool" where
  "run_is_open db run_id \<longleftrightarrow> list_ex (open_run run_id) (mdb_runs db)"

definition confirm_pending :: "string \<Rightarrow> string \<Rightarrow> migration_db \<Rightarrow> migration_db" where
  "confirm_pending run_id txid db =
     snd (sql_update_pending (\<lambda>p. pt_run_id p = run_id \<and> pt_txid_hex p = txid \<and> run_is_open db run_id)
       (\<lambda>p. p\<lparr>pt_status := ''confirmed''\<rparr>) db)"

definition reschedule_reorged :: "int \<Rightarrow> string \<Rightarrow> string \<Rightarrow> migration_db \<Rightarrow> migration_db" where
  "reschedule_reorged now run_id txid db =
     snd (sql_update_pending (\<lambda>p. pt_run_id p = run_id \<and> pt_txid_hex p = txid \<and> run_is_open db run_id)
       (\<lambda>p. p\<lparr>pt_status := ''scheduled'', pt_scheduled_at_ms := now,
          pt_schedule_start_height := Some (pt_target_height p),
          pt_scheduled_height := pt_target_height p\<rparr>) db)"

section \<open>Following the migration transactions\<close>

fun confirm_rows ::
    "(string \<Rightarrow> run_error + chain_identity option) \<Rightarrow> int \<Rightarrow> string \<Rightarrow> (string \<times> string) list \<Rightarrow>
     bool \<times> migration_db \<Rightarrow> (run_error + bool) \<times> migration_db" where
  "confirm_rows identity now run_id [] (rescheduled, db) = (Inr rescheduled, db)"
| "confirm_rows identity now run_id ((txid, status) # rows) (rescheduled, db) =
     (case identity txid of
        Inl e \<Rightarrow> (Inl e, db)
      | Inr (Some i) \<Rightarrow>
          confirm_rows identity now run_id rows
            (rescheduled, if status \<noteq> ''confirmed'' then confirm_pending run_id txid db else db)
      | Inr None \<Rightarrow>
          if status = ''confirmed''
          then confirm_rows identity now run_id rows (True, reschedule_reorged now run_id txid db)
          else confirm_rows identity now run_id rows (rescheduled, db))"

text \<open>Whether every transaction is on the chain at trusted depth.\<close>

fun all_trusted ::
    "u32 \<Rightarrow> (string \<Rightarrow> run_error + chain_identity option) \<Rightarrow> (u32 \<Rightarrow> run_error + u32) \<Rightarrow> string list \<Rightarrow>
     run_error + bool" where
  "all_trusted required identity depth [] = Inr True"
| "all_trusted required identity depth (txid # txids) =
     rbind (identity txid) (\<lambda>i. case i of
        None \<Rightarrow> Inr False
      | Some i \<Rightarrow>
          rbind (depth (ci_mined_height i)) (\<lambda>d.
          if d < required then Inr False else all_trusted required identity depth txids))"

text \<open>The run goes back to scheduling from waiting for confirmations.\<close>

definition resume_waiting :: "string \<Rightarrow> int \<Rightarrow> migration_db \<Rightarrow> migration_db" where
  "resume_waiting run_id now db =
     snd (sql_update_runs
       (\<lambda>r. rr_run_id r = run_id \<and> rr_phase r = PHASE_WAITING_MIGRATION_CONFIRMATIONS)
       (move_run PHASE_BROADCAST_SCHEDULED now None) db)"

definition complete_run :: "string \<Rightarrow> int \<Rightarrow> migration_db \<Rightarrow> migration_db" where
  "complete_run run_id now db =
     (case sql_update_runs (open_run run_id) (move_run PHASE_COMPLETE now None) db of
        (completed, db') \<Rightarrow>
          if completed \<noteq> 1 then db'
          else delete_children run_id (set_note_locks run_id ''unlocked'' db'))"

text \<open>The end of the call, after the phase has been read: \<open>current_phase\<close> is that reading.\<close>

definition finish_confirmations ::
    "u32 \<Rightarrow> (string \<Rightarrow> run_error + chain_identity option) \<Rightarrow> (u32 \<Rightarrow> run_error + u32) \<Rightarrow> int \<Rightarrow> int \<Rightarrow>
     string \<Rightarrow> string \<Rightarrow> u32 \<Rightarrow> migration_db \<Rightarrow> (run_error + unit) \<times> migration_db" where
  "finish_confirmations required identity depth now completed_at run_id current_phase unpromoted_count db =
     (case rbind (count_for_run (length (pending_rows db run_id))) (\<lambda>total_count.
           rbind (count_pending_with_status db run_id ''confirmed'') (\<lambda>confirmed_count.
           if 0 < total_count \<and> confirmed_count \<ge> total_count
           then rbind (planned_part_count_with_conn db run_id) (\<lambda>planned_count.
                Inr (Some (planned_count = 0 \<or> total_count \<noteq> planned_count \<or> unpromoted_count > 0)))
           else Inr None)) of
        Inl e \<Rightarrow> (Inl e, db)
      | Inr None \<Rightarrow> (Inr (), db)
      | Inr (Some True) \<Rightarrow>
          (Inr (), if current_phase = PHASE_WAITING_MIGRATION_CONFIRMATIONS
                   then resume_waiting run_id now db else db)
      | Inr (Some False) \<Rightarrow>
          (case all_trusted required identity depth (sort (map pt_txid_hex (pending_rows db run_id))) of
             Inl e \<Rightarrow> (Inl e, db)
           | Inr False \<Rightarrow> (Inr (), db)
           | Inr True \<Rightarrow> (Inr (), complete_run run_id completed_at db)))"

definition followed_statuses :: "string set" where
  "followed_statuses = {''scheduled'', ''broadcasted'', ''confirmed''}"

definition reconcile_run_confirmations ::
    "u32 \<Rightarrow> (string \<Rightarrow> byte list option) \<Rightarrow> wallet_chain \<Rightarrow> int \<Rightarrow> int \<Rightarrow> migration_db \<Rightarrow> string \<Rightarrow>
     (run_error + unit) \<times> migration_db" where
  "reconcile_run_confirmations trusted unhex chain now completed_at db run_id =
     (if wc_transactions chain = None then (Inr (), db)
      else
        (let identity = local_denomination_chain_identity unhex chain in
         case confirm_rows identity now run_id
             (map (\<lambda>p. (pt_txid_hex p, pt_status p))
               (filter (\<lambda>p. pt_status p \<in> followed_statuses) (pending_rows db run_id)))
             (False, db) of
           (Inl e, db1) \<Rightarrow> (Inl e, db1)
         | (Inr rescheduled, db1) \<Rightarrow>
             (let db2 = (if rescheduled
                then snd (sql_update_runs (open_run run_id) (move_run PHASE_BROADCAST_SCHEDULED now None) db1)
                else db1) in
              case rbind (run_phase db2 run_id) (\<lambda>current_phase.
                   rbind (unpromoted_signed_child_pczt_count_with_conn db2 run_id) (\<lambda>unpromoted_count.
                   Inr (current_phase, unpromoted_count))) of
                Inl e \<Rightarrow> (Inl e, db2)
              | Inr (current_phase, unpromoted_count) \<Rightarrow>
                  finish_confirmations (denomination_confirmations_required trusted) identity
                    (synced_orchard_confirmation_count trusted chain) now completed_at run_id
                    current_phase unpromoted_count
                    (if current_phase = PHASE_WAITING_MIGRATION_CONFIRMATIONS \<and> unpromoted_count > 0
                     then resume_waiting run_id now db2 else db2))))"

end
