(* ===== verification/Run_Completion.thy ===== *)
theory Run_Completion
  imports Run_Confirmations
begin

text \<open>
  What one pass over the migration transactions of a run does: the status every transaction gets, the
  phase the run goes to, and that a run completes exactly when it has earned it.
\<close>

section \<open>Keys\<close>

definition keys_ok :: "migration_db \<Rightarrow> bool" where
  "keys_ok db \<longleftrightarrow> distinct (map rr_run_id (mdb_runs db)) \<and> distinct (map pt_txid_hex (mdb_pending db))"

lemma run_of_iff:
  "distinct (map rr_run_id (mdb_runs db)) \<Longrightarrow>
     run_of db rid = Inr r \<longleftrightarrow> r \<in> set (mdb_runs db) \<and> rr_run_id r = rid"
proof -
  assume d: "distinct (map rr_run_id (mdb_runs db))"
  have "find (\<lambda>r. rr_run_id r = rid) rs = Some r \<longleftrightarrow> r \<in> set rs \<and> rr_run_id r = rid"
    if "distinct (map rr_run_id rs)" for rs
    using that by (induction rs) force+
  then show ?thesis using d by (simp add: run_of_def)
qed

lemma sql_update_runs_phase:
  assumes "distinct (map rr_run_id (mdb_runs db))" and "run_of db rid = Inr r"
    and "\<And>q. P q \<Longrightarrow> rr_run_id q = rid" and "\<And>q. rr_run_id (f q) = rr_run_id q"
  shows "run_of (snd (sql_update_runs P f db)) rid = Inr (if P r then f r else r)"
    and "fst (sql_update_runs P f db) = (if P r then 1 else 0)"
    and "distinct (map rr_run_id (mdb_runs (snd (sql_update_runs P f db))))"
proof -
  note r = run_of_iff [OF assms(1), THEN iffD1, OF assms(2)]
  have ids: "map rr_run_id (map (\<lambda>q. if P q then f q else q) rs) = map rr_run_id rs" for rs
    by (induction rs) (auto simp: assms(4))
  show d: "distinct (map rr_run_id (mdb_runs (snd (sql_update_runs P f db))))"
    using assms(1) ids by (simp add: sql_update_runs_def del: map_map)
  show "run_of (snd (sql_update_runs P f db)) rid = Inr (if P r then f r else r)"
    unfolding run_of_iff [OF d] using r by (auto simp: sql_update_runs_def assms(4) image_iff)
  have "length (filter P rs) = (if P r then 1 else 0)"
    if "distinct (map rr_run_id rs)" "r \<in> set rs" for rs
    using that
  proof (induction rs)
    case (Cons q rs)
    have "filter P rs = []" if "r \<notin> set rs \<or> q = r"
    proof (rule filter_False, rule ballI)
      fix x assume x: "x \<in> set rs"
      show "\<not> P x"
      proof
        assume "P x"
        then have "rr_run_id x = rr_run_id r" using assms(3) r by simp
        then show False using Cons.prems x that by (metis distinct.simps(2) list.set_intros(1,2) list.simps(9) image_eqI set_map distinct_map inj_onD set_ConsD)
      qed
    qed
    moreover have "\<not> P q" if "q \<noteq> r"
      using Cons.prems that r assms(3) by (metis distinct_map inj_onD list.set_intros(1))
    ultimately show ?case using Cons by (cases "q = r") auto
  qed simp
  then show "fst (sql_update_runs P f db) = (if P r then 1 else 0)"
    using assms(1) r by (simp add: sql_update_runs_def)
qed

section \<open>The pass over the transactions\<close>

text \<open>Where the pass leaves one transaction, given what the chain says of it.\<close>

definition follow_row ::
    "(string \<Rightarrow> run_error + chain_identity option) \<Rightarrow> int \<Rightarrow> pending_row \<Rightarrow> pending_row" where
  "follow_row identity now p =
     (case identity (pt_txid_hex p) of
        Inr (Some i) \<Rightarrow> p\<lparr>pt_status := ''confirmed''\<rparr>
      | Inr None \<Rightarrow>
          if pt_status p = ''confirmed''
          then p\<lparr>pt_status := ''scheduled'', pt_scheduled_at_ms := now,
                 pt_schedule_start_height := Some (pt_target_height p),
                 pt_scheduled_height := pt_target_height p\<rparr>
          else p
      | Inl e \<Rightarrow> p)"

lemma follow_row_simps [simp]:
  "pt_run_id (follow_row identity now p) = pt_run_id p"
  "pt_txid_hex (follow_row identity now p) = pt_txid_hex p"
  by (auto simp: follow_row_def split: sum.splits option.splits)

definition rows_read :: "string \<Rightarrow> (string \<times> string) list \<Rightarrow> pending_row list \<Rightarrow> bool" where
  "rows_read rid rows ps \<longleftrightarrow> distinct (map fst rows)
     \<and> (\<forall>(t, s) \<in> set rows. \<forall>p \<in> set ps. pt_run_id p = rid \<and> pt_txid_hex p = t \<longrightarrow> pt_status p = s)"

lemma confirm_rows_open:
  assumes "confirm_rows identity now rid rows (re, db) = (Inr re', db')"
    and "run_is_open db rid" and "rows_read rid rows (mdb_pending db)"
  shows "db' = db\<lparr>mdb_pending := map (\<lambda>p. if pt_run_id p = rid \<and> pt_txid_hex p \<in> fst ` set rows
             then follow_row identity now p else p) (mdb_pending db)\<rparr>
     \<and> (re' \<longleftrightarrow> re \<or> (\<exists>(t, s) \<in> set rows. s = ''confirmed'' \<and> identity t = Inr None))
     \<and> (\<forall>(t, s) \<in> set rows. \<exists>i. identity t = Inr i)"
  using assms
proof (induction rows arbitrary: re db)
  case Nil
  then show ?case by simp
next
  case (Cons row rows)
  obtain t s where row: "row = (t, s)" by fastforce
  let ?one = "\<lambda>p. if pt_run_id p = rid \<and> pt_txid_hex p = t then follow_row identity now p else p"
  let ?db = "db\<lparr>mdb_pending := map ?one (mdb_pending db)\<rparr>"
  obtain i where i: "identity t = Inr i" using Cons.prems(1) by (auto simp: row split: sum.splits)
  have status: "pt_status p = s" if "p \<in> set (mdb_pending db)" "pt_run_id p = rid" "pt_txid_hex p = t" for p
    using Cons.prems(3) that by (auto simp: rows_read_def row)
  have step: "confirm_rows identity now rid rows (re \<or> (s = ''confirmed'' \<and> i = None), ?db) = (Inr re', db')"
  proof (cases i)
    case (Some x)
    have "(if s \<noteq> ''confirmed'' then confirm_pending rid t db else db) = ?db"
      using status i Some Cons.prems(2)
      by (cases db) (auto simp: confirm_pending_def sql_update_pending_def follow_row_def cong: map_cong
          intro!: map_idI [symmetric])
    then show ?thesis using Cons.prems(1) i Some by (simp add: row)
  next
    case None
    have "(if s = ''confirmed'' then reschedule_reorged now rid t db else db) = ?db"
      using status i None Cons.prems(2)
      by (cases db) (auto simp: reschedule_reorged_def sql_update_pending_def follow_row_def cong: map_cong
          intro!: map_idI [symmetric])
    then show ?thesis using Cons.prems(1) i None by (auto simp: row split: if_splits)
  qed
  have t: "t \<notin> fst ` set rows" using Cons.prems(3) by (auto simp: rows_read_def row)
  have "run_is_open ?db rid" using Cons.prems(2) by (simp add: run_is_open_def)
  moreover have "rows_read rid rows (mdb_pending ?db)"
    unfolding rows_read_def
  proof (intro conjI ballI, goal_cases)
    case 1
    then show ?case using Cons.prems(3) by (simp add: rows_read_def)
  next
    case (2 q)
    obtain u v where q: "q = (u, v)" by fastforce
    then have "u \<noteq> t" using t 2 by force
    have st: "pt_status p = v" if "p \<in> set (mdb_pending db)" "pt_run_id p = rid" "pt_txid_hex p = u" for p
      using Cons.prems(3) 2 that unfolding rows_read_def q by fastforce
    have "pt_status (?one p) = v"
      if "p \<in> set (mdb_pending db)" "pt_run_id (?one p) = rid" "pt_txid_hex (?one p) = u" for p
    proof -
      have "pt_run_id p = rid" "pt_txid_hex p = u" using that(2,3) by (auto split: if_splits)
      then show ?thesis using st [OF that(1)] \<open>u \<noteq> t\<close> by simp
    qed
    then show ?case unfolding q prod.case by (simp del: if_image_distrib)
  qed
  ultimately have IH: "db' = ?db\<lparr>mdb_pending := map (\<lambda>p. if pt_run_id p = rid \<and> pt_txid_hex p \<in> fst ` set rows
             then follow_row identity now p else p) (mdb_pending ?db)\<rparr>"
     "re' \<longleftrightarrow> (re \<or> s = ''confirmed'' \<and> i = None)
        \<or> (\<exists>(t, s) \<in> set rows. s = ''confirmed'' \<and> identity t = Inr None)"
     "\<forall>(t, s) \<in> set rows. \<exists>i. identity t = Inr i"
    using Cons.IH [OF step] by blast+
  have "map (\<lambda>p. if pt_run_id p = rid \<and> pt_txid_hex p \<in> fst ` set rows
             then follow_row identity now p else p) (mdb_pending ?db) =
        map (\<lambda>p. if pt_run_id p = rid \<and> pt_txid_hex p \<in> fst ` set (row # rows)
             then follow_row identity now p else p) (mdb_pending db)"
    using t by (auto simp: row)
  then show ?case using IH i by (auto simp: row)
qed

lemma confirm_rows_closed:
  assumes "confirm_rows identity now rid rows (re, db) = (r, db')" and "\<not> run_is_open db rid"
  shows "db' = db"
  using assms
proof (induction rows arbitrary: re)
  case (Cons row rows)
  have same: "confirm_pending rid t db = db" "reschedule_reorged now rid t db = db" for t
    using assms(2) by (simp_all add: confirm_pending_def reschedule_reorged_def sql_update_pending_def)
  obtain t s where row: "row = (t, s)" by fastforce
  show ?case
    using Cons.prems Cons.IH
    by (auto simp: row same split: sum.splits option.splits if_splits)
qed simp

lemma all_trusted_True:
  "all_trusted required identity depth ts = Inr True \<longleftrightarrow>
     (\<forall>t \<in> set ts. \<exists>i d. identity t = Inr (Some i) \<and> depth (ci_mined_height i) = Inr d \<and> required \<le> d)"
proof (induction ts)
  case (Cons t ts)
  show ?case
  proof (cases "\<exists>i d. identity t = Inr (Some i) \<and> depth (ci_mined_height i) = Inr d")
    case True
    then obtain i d where "identity t = Inr (Some i)" "depth (ci_mined_height i) = Inr d" by blast
    then show ?thesis using Cons by simp
  next
    case False
    then show ?thesis by (cases "identity t") (auto simp: rbind_eq_Inr split: option.splits)
  qed
qed simp

section \<open>The whole call\<close>

text \<open>A transaction that the pass finds on the chain, and one that the chain has lost.\<close>

definition found_row :: "(string \<Rightarrow> run_error + chain_identity option) \<Rightarrow> pending_row \<Rightarrow> bool" where
  "found_row identity p \<longleftrightarrow> pt_status p \<in> followed_statuses
     \<and> (\<exists>i. identity (pt_txid_hex p) = Inr (Some i))"

definition lost_row :: "(string \<Rightarrow> run_error + chain_identity option) \<Rightarrow> pending_row \<Rightarrow> bool" where
  "lost_row identity p \<longleftrightarrow> pt_status p = ''confirmed'' \<and> identity (pt_txid_hex p) = Inr None"

definition trusted_row ::
    "u32 \<Rightarrow> (string \<Rightarrow> run_error + chain_identity option) \<Rightarrow> (u32 \<Rightarrow> run_error + u32) \<Rightarrow> pending_row \<Rightarrow> bool" where
  "trusted_row required identity depth p \<longleftrightarrow>
     (\<exists>i d. identity (pt_txid_hex p) = Inr (Some i) \<and> depth (ci_mined_height i) = Inr d \<and> required \<le> d)"

definition all_found :: "(string \<Rightarrow> run_error + chain_identity option) \<Rightarrow> pending_row list \<Rightarrow> bool" where
  "all_found identity ps \<longleftrightarrow> ps \<noteq> [] \<and> (\<forall>p \<in> set ps. found_row identity p)"

text \<open>
  The phase that the pass takes an open run to: back to scheduling when a transaction was lost, or
  when it waits for confirmations although parts are missing; complete when every planned part is on
  the chain at trusted depth and no signed part is left without its transaction.
\<close>

definition next_phase ::
    "u32 \<Rightarrow> (string \<Rightarrow> run_error + chain_identity option) \<Rightarrow> (u32 \<Rightarrow> run_error + u32) \<Rightarrow>
     migration_db \<Rightarrow> run_row \<Rightarrow> string" where
  "next_phase required identity depth db r =
     (let ps = pending_rows db (rr_run_id r);
          unpromoted = unpromoted_signed_child_note_outpoints_with_conn db (rr_run_id r) in
      if \<exists>p \<in> set ps. lost_row identity p then PHASE_BROADCAST_SCHEDULED
      else if unpromoted \<noteq> [] \<or> (all_found identity ps \<and> length ps \<noteq> length (rr_target_values r))
      then (if rr_phase r = PHASE_WAITING_MIGRATION_CONFIRMATIONS then PHASE_BROADCAST_SCHEDULED
            else rr_phase r)
      else if all_found identity ps \<and> (\<forall>p \<in> set ps. trusted_row required identity depth p)
      then PHASE_COMPLETE
      else rr_phase r)"

lemma phase_distinct [simp]:
  "PHASE_BROADCAST_SCHEDULED \<noteq> PHASE_WAITING_MIGRATION_CONFIRMATIONS"
  "PHASE_WAITING_MIGRATION_CONFIRMATIONS \<noteq> PHASE_BROADCAST_SCHEDULED"
  "PHASE_BROADCAST_SCHEDULED \<noteq> PHASE_COMPLETE" "PHASE_COMPLETE \<noteq> PHASE_BROADCAST_SCHEDULED"
  "PHASE_WAITING_MIGRATION_CONFIRMATIONS \<noteq> PHASE_COMPLETE"
  "\<not> migration_phase_releases_wallet_locks PHASE_BROADCAST_SCHEDULED"
  "\<not> migration_phase_releases_wallet_locks PHASE_WAITING_MIGRATION_CONFIRMATIONS"
  "migration_phase_releases_wallet_locks PHASE_COMPLETE"
  by (simp_all add: phase_defs migration_phase_releases_wallet_locks_def)

lemma open_run_iff: "open_run rid r \<longleftrightarrow> rr_run_id r = rid \<and> \<not> migration_phase_releases_wallet_locks (rr_phase r)"
  by (simp add: open_run_def migration_phase_releases_wallet_locks_def)

lemma run_is_open_iff:
  assumes "distinct (map rr_run_id (mdb_runs db))" and "run_of db rid = Inr r"
  shows "run_is_open db rid \<longleftrightarrow> \<not> migration_phase_releases_wallet_locks (rr_phase r)"
proof -
  note r = run_of_iff [OF assms(1), THEN iffD1, OF assms(2)]
  have "q = r" if "q \<in> set (mdb_runs db)" "rr_run_id q = rid" for q
    using that r assms(1) by (metis distinct_map inj_onD)
  then show ?thesis using r by (auto simp: run_is_open_def list_ex_iff open_run_iff)
qed

lemma run_of_pending [simp]: "run_of (db\<lparr>mdb_pending := ps\<rparr>) rid = run_of db rid"
  by (simp add: run_of_def)

text \<open>Moving the run to a phase under a guard on the run.\<close>

definition runs_moved :: "migration_db \<Rightarrow> migration_db \<Rightarrow> string \<Rightarrow> string \<Rightarrow> bool" where
  "runs_moved db db' rid phase \<longleftrightarrow>
     (\<exists>r'. run_of db' rid = Inr r' \<and> rr_phase r' = phase)
     \<and> (\<forall>q. rr_run_id q \<noteq> rid \<longrightarrow> q \<in> set (mdb_runs db') \<longleftrightarrow> q \<in> set (mdb_runs db))"

lemma sql_update_runs_tables [simp]:
  "mdb_pending (snd (sql_update_runs P f db)) = mdb_pending db"
  "mdb_children (snd (sql_update_runs P f db)) = mdb_children db"
  "mdb_notes (snd (sql_update_runs P f db)) = mdb_notes db"
  "mdb_stages (snd (sql_update_runs P f db)) = mdb_stages db"
  by (simp_all add: sql_update_runs_def)

lemma moved_update:
  assumes "distinct (map rr_run_id (mdb_runs db))" and "run_of db rid = Inr r"
    and "\<And>q. P q \<Longrightarrow> rr_run_id q = rid"
  shows "runs_moved db (snd (sql_update_runs P (move_run phase now m) db)) rid
     (if P r then phase else rr_phase r)"
proof -
  have "run_of (snd (sql_update_runs P (move_run phase now m) db)) rid =
      Inr (if P r then move_run phase now m r else r)"
    using sql_update_runs_phase(1) [OF assms(1,2), of P "move_run phase now m"] assms(3)
    by (simp add: move_run_def)
  moreover have "q \<in> set (map (\<lambda>r. if P r then move_run phase now m r else r) (mdb_runs db)) \<longleftrightarrow> q \<in> set (mdb_runs db)"
    if q: "rr_run_id q \<noteq> rid" for q
    using q assms(3) by (force simp: move_run_def image_iff)
  ultimately show "runs_moved db (snd (sql_update_runs P (move_run phase now m) db)) rid
     (if P r then phase else rr_phase r)"
    by (auto simp: runs_moved_def sql_update_runs_def move_run_def)
qed

lemma pending_rows_followed:
  "pending_rows (db\<lparr>mdb_pending := map (\<lambda>p. if pt_run_id p = rid \<and> P p then follow_row identity now p else p)
      (mdb_pending db)\<rparr>) rid =
   map (\<lambda>p. if P p then follow_row identity now p else p) (pending_rows db rid)"
proof -
  have "filter (\<lambda>p. pt_run_id p = rid) (map (\<lambda>p. if pt_run_id p = rid \<and> P p then follow_row identity now p else p) ps) =
      map (\<lambda>p. if P p then follow_row identity now p else p) (filter (\<lambda>p. pt_run_id p = rid) ps)" for ps
    by (induction ps) auto
  then show ?thesis by (simp add: pending_rows_def)
qed

lemma filter_all_iff: "length (filter P xs) \<ge> length xs \<longleftrightarrow> (\<forall>x \<in> set xs. P x)"
  by (metis filter_id_conv filter_False length_filter_less length_filter_le nle_le not_less order_refl)

lemma finish_cases:
  assumes "finish_confirmations required identity depth now done_at rid cur unpromoted db = (Inr (), db')"
    and "run_of db rid = Inr r"
  defines "ps \<equiv> pending_rows db rid"
  shows "db' =
     (if ps = [] \<or> (\<exists>p \<in> set ps. pt_status p \<noteq> ''confirmed'') then db
      else if unpromoted > 0 \<or> length ps \<noteq> length (rr_target_values r)
      then (if cur = PHASE_WAITING_MIGRATION_CONFIRMATIONS then resume_waiting rid now db else db)
      else if \<forall>p \<in> set ps. trusted_row required identity depth p then complete_run rid done_at db
      else db)"
proof (cases "ps = [] \<or> (\<exists>p \<in> set ps. pt_status p \<noteq> ''confirmed'')")
  case True
  then have "\<not> (0 < length ps \<and> length (filter (\<lambda>p. pt_status p = ''confirmed'') ps) \<ge> length ps)"
    unfolding filter_all_iff by auto
  then show ?thesis using assms(1) True
    unfolding finish_confirmations_def ps_def [symmetric] count_for_run_def count_pending_with_status_def
    by (auto simp: try_u32_def split: if_splits)
next
  case False
  then have all: "0 < length ps \<and> length (filter (\<lambda>p. pt_status p = ''confirmed'') ps) \<ge> length ps"
    unfolding filter_all_iff by auto
  have sizes: "length ps < 2 ^ 32" "length (rr_target_values r) < 2 ^ 32"
    using assms(1) all
    unfolding finish_confirmations_def ps_def [symmetric] count_for_run_def count_pending_with_status_def
    by (auto simp: try_u32_def planned_part_count_with_conn_def assms(2) split: if_splits)
  let ?gap = "length (rr_target_values r) = 0 \<or> length ps \<noteq> length (rr_target_values r) \<or> unpromoted > 0"
  have eq: "finish_confirmations required identity depth now done_at rid cur unpromoted db =
      (if ?gap then (Inr (), if cur = PHASE_WAITING_MIGRATION_CONFIRMATIONS then resume_waiting rid now db else db)
       else (case all_trusted required identity depth (sort (map pt_txid_hex ps)) of
             Inl e \<Rightarrow> (Inl e, db)
           | Inr False \<Rightarrow> (Inr (), db)
           | Inr True \<Rightarrow> (Inr (), complete_run rid done_at db)))"
    using sizes all order_le_less_trans [OF length_filter_le sizes(1)]
    unfolding finish_confirmations_def ps_def [symmetric] count_for_run_def count_pending_with_status_def
    by (simp add: try_u32_def planned_part_count_with_conn_def assms(2))
  show ?thesis
  proof (cases ?gap)
    case True
    then show ?thesis using eq assms(1) False all by auto
  next
    case no_gap: False
    obtain b where b: "all_trusted required identity depth (sort (map pt_txid_hex ps)) = Inr b"
      using eq assms(1) no_gap
      by (cases "all_trusted required identity depth (sort (map pt_txid_hex ps))") auto
    have "b \<longleftrightarrow> (\<forall>p \<in> set ps. trusted_row required identity depth p)"
      using all_trusted_True [of required identity depth "sort (map pt_txid_hex ps)"] b
      by (cases b) (auto simp: trusted_row_def)
    then show ?thesis using eq assms(1) no_gap b False by (cases b) auto
  qed
qed

lemma runs_moved_refl: "run_of db rid = Inr r \<Longrightarrow> runs_moved db db rid (rr_phase r)"
  by (simp add: runs_moved_def)

text \<open>What a pass does to the other tables, given the phase it ends in.\<close>

definition pass_result :: "(pending_row \<Rightarrow> pending_row) \<Rightarrow> string \<Rightarrow> string \<Rightarrow> migration_db \<Rightarrow> migration_db \<Rightarrow> bool" where
  "pass_result f rid phase db db' \<longleftrightarrow> runs_moved db db' rid phase
     \<and> mdb_pending db' = map f (mdb_pending db) \<and> mdb_stages db' = mdb_stages db
     \<and> mdb_notes db' = (if phase = PHASE_COMPLETE then mdb_notes (set_note_locks rid ''unlocked'' db)
          else mdb_notes db)
     \<and> mdb_children db' = (if phase = PHASE_COMPLETE then mdb_children (delete_children rid db)
          else mdb_children db)"

lemma pass_resume:
  assumes "distinct (map rr_run_id (mdb_runs db))" and "run_of db rid = Inr r"
    and "\<not> migration_phase_releases_wallet_locks (rr_phase r)"
    and "db1 = db\<lparr>mdb_pending := map f (mdb_pending db)\<rparr>"
  shows "pass_result f rid (if rr_phase r = PHASE_WAITING_MIGRATION_CONFIRMATIONS
            then PHASE_BROADCAST_SCHEDULED else rr_phase r) db (resume_waiting rid now db1)"
    and "pass_result f rid (rr_phase r) db db1"
    and "pass_result f rid PHASE_COMPLETE db (complete_run rid now db1)"
    and "pass_result f rid PHASE_BROADCAST_SCHEDULED db
       (snd (sql_update_runs (open_run rid) (move_run PHASE_BROADCAST_SCHEDULED now m) db1))"
proof -
  have d: "distinct (map rr_run_id (mdb_runs db1))" and r: "run_of db1 rid = Inr r" and id: "rr_run_id r = rid"
    using assms run_of_iff [OF assms(1)] by simp_all
  have lift: "runs_moved db db2 rid ph" if "runs_moved db1 db2 rid ph" for db2 ph
    using that assms(4) by (simp add: runs_moved_def)
  have not_complete: "rr_phase r \<noteq> PHASE_COMPLETE"
    using assms(3) by (auto simp: migration_phase_releases_wallet_locks_def)
  show "pass_result f rid (if rr_phase r = PHASE_WAITING_MIGRATION_CONFIRMATIONS
            then PHASE_BROADCAST_SCHEDULED else rr_phase r) db (resume_waiting rid now db1)"
    using lift [OF moved_update [OF d r, of "\<lambda>q. rr_run_id q = rid \<and> rr_phase q = PHASE_WAITING_MIGRATION_CONFIRMATIONS"
        PHASE_BROADCAST_SCHEDULED now None]] not_complete id assms(4)
    by (simp add: pass_result_def resume_waiting_def)
  show "pass_result f rid (rr_phase r) db db1"
    using lift [OF runs_moved_refl [OF r]] not_complete assms(4) by (simp add: pass_result_def)
  have op: "open_run rid r" using assms(3) id by (simp add: open_run_iff)
  have opid: "rr_run_id q = rid" if "open_run rid q" for q using that by (simp add: open_run_iff)
  have one: "fst (sql_update_runs (open_run rid) (move_run PHASE_COMPLETE now None) db1) = 1"
    using sql_update_runs_phase(2) [OF d r, of "open_run rid" "move_run PHASE_COMPLETE now None"] op opid
    by (simp add: move_run_def)
  have cr: "complete_run rid now db1 = delete_children rid (set_note_locks rid ''unlocked''
      (snd (sql_update_runs (open_run rid) (move_run PHASE_COMPLETE now None) db1)))"
    using one by (simp add: complete_run_def split_beta)
  have keep: "runs_moved db (x\<lparr>mdb_notes := ns, mdb_children := cs\<rparr>) rid ph = runs_moved db x rid ph" for x ph ns cs
    by (simp add: runs_moved_def run_of_def)
  show "pass_result f rid PHASE_COMPLETE db (complete_run rid now db1)"
    using lift [OF moved_update [OF d r, of "open_run rid" PHASE_COMPLETE now None]]
      op opid assms(4)
    unfolding cr pass_result_def
    by (simp add: delete_children_def set_note_locks_def keep)
  show "pass_result f rid PHASE_BROADCAST_SCHEDULED db
       (snd (sql_update_runs (open_run rid) (move_run PHASE_BROADCAST_SCHEDULED now m) db1))"
    using lift [OF moved_update [OF d r, of "open_run rid" PHASE_BROADCAST_SCHEDULED now m]]
      op opid assms(4)
    by (simp add: pass_result_def)
qed

text \<open>The rows that a pass reads, and what it makes of them.\<close>

definition follow_read ::
    "(string \<Rightarrow> run_error + chain_identity option) \<Rightarrow> int \<Rightarrow> string \<Rightarrow> pending_row \<Rightarrow> pending_row" where
  "follow_read identity now rid p =
     (if pt_run_id p = rid \<and> pt_status p \<in> followed_statuses then follow_row identity now p else p)"

lemma read_rows:
  fixes rid :: string
  assumes "keys_ok db"
  defines "rows \<equiv> map (\<lambda>p. (pt_txid_hex p, pt_status p))
    (filter (\<lambda>p. pt_status p \<in> followed_statuses) (pending_rows db rid))"
  shows "rows_read rid rows (mdb_pending db)"
    and "map (\<lambda>p. if pt_run_id p = rid \<and> pt_txid_hex p \<in> fst ` set rows then follow_row identity now p else p)
           (mdb_pending db) = map (follow_read identity now rid) (mdb_pending db)"
    and "(\<exists>(t, s) \<in> set rows. s = ''confirmed'' \<and> identity t = Inr None) \<longleftrightarrow>
           (\<exists>p \<in> set (pending_rows db rid). lost_row identity p)"
    and "(\<forall>(t, s) \<in> set rows. \<exists>i. identity t = Inr i) \<longleftrightarrow>
           (\<forall>p \<in> set (pending_rows db rid). pt_status p \<in> followed_statuses \<longrightarrow> (\<exists>i. identity (pt_txid_hex p) = Inr i))"
proof -
  have inj: "p = q" if "p \<in> set (mdb_pending db)" "q \<in> set (mdb_pending db)" "pt_txid_hex p = pt_txid_hex q" for p q
    using assms(1) that by (auto simp: keys_ok_def distinct_map dest: inj_onD)
  have rows: "(t, s) \<in> set rows \<longleftrightarrow>
      (\<exists>p \<in> set (mdb_pending db). pt_run_id p = rid \<and> pt_status p \<in> followed_statuses
         \<and> pt_txid_hex p = t \<and> pt_status p = s)" for t s
    by (auto simp: rows_def pending_rows_def)
  have "distinct (map fst rows)"
    using assms(1) by (simp add: rows_def keys_ok_def pending_rows_def comp_def distinct_map_filter)
  then show "rows_read rid rows (mdb_pending db)"
    unfolding rows_read_def using rows inj by blast
  show "map (\<lambda>p. if pt_run_id p = rid \<and> pt_txid_hex p \<in> fst ` set rows then follow_row identity now p else p)
           (mdb_pending db) = map (follow_read identity now rid) (mdb_pending db)"
  proof (rule map_cong [OF refl])
    fix p assume p: "p \<in> set (mdb_pending db)"
    have "pt_txid_hex p \<in> fst ` set rows \<longleftrightarrow> pt_status p \<in> followed_statuses" if "pt_run_id p = rid"
    proof
      assume "pt_txid_hex p \<in> fst ` set rows"
      then obtain s where "(pt_txid_hex p, s) \<in> set rows" by force
      then obtain q where "q \<in> set (mdb_pending db)" "pt_status q \<in> followed_statuses"
        "pt_txid_hex q = pt_txid_hex p" unfolding rows by blast
      then show "pt_status p \<in> followed_statuses" using inj [of q p] p by simp
    next
      assume "pt_status p \<in> followed_statuses"
      then have "(pt_txid_hex p, pt_status p) \<in> set rows" unfolding rows using p that by blast
      then show "pt_txid_hex p \<in> fst ` set rows" by force
    qed
    then show "(if pt_run_id p = rid \<and> pt_txid_hex p \<in> fst ` set rows then follow_row identity now p else p) =
        follow_read identity now rid p" by (auto simp: follow_read_def)
  qed
  have "''confirmed'' \<in> followed_statuses" by (simp add: followed_statuses_def)
  then show "(\<exists>(t, s) \<in> set rows. s = ''confirmed'' \<and> identity t = Inr None) \<longleftrightarrow>
           (\<exists>p \<in> set (pending_rows db rid). lost_row identity p)"
    by (auto simp: rows_def lost_row_def)
  show "(\<forall>(t, s) \<in> set rows. \<exists>i. identity t = Inr i) \<longleftrightarrow>
           (\<forall>p \<in> set (pending_rows db rid). pt_status p \<in> followed_statuses \<longrightarrow> (\<exists>i. identity (pt_txid_hex p) = Inr i))"
    by (auto simp: rows_def)
qed

lemma follow_read_confirmed:
  assumes "pt_run_id p = rid" and "pt_status p \<in> followed_statuses \<Longrightarrow> \<exists>i. identity (pt_txid_hex p) = Inr i"
  shows "pt_status (follow_read identity now rid p) = ''confirmed'' \<longleftrightarrow> found_row identity p"
proof (cases "pt_status p \<in> followed_statuses")
  case True
  then obtain i where "identity (pt_txid_hex p) = Inr i" using assms(2) by blast
  then show ?thesis using assms(1) True
    by (cases i) (auto simp: follow_read_def follow_row_def found_row_def)
next
  case False
  then show ?thesis by (auto simp: follow_read_def found_row_def followed_statuses_def)
qed

lemma follow_read_rows:
  "pending_rows (db\<lparr>mdb_pending := map (follow_read identity now rid) (mdb_pending db)\<rparr>) rid =
     map (follow_read identity now rid) (pending_rows db rid)"
proof -
  have "filter (\<lambda>p. pt_run_id p = rid) (map (follow_read identity now rid) ps) =
      map (follow_read identity now rid) (filter (\<lambda>p. pt_run_id p = rid) ps)" for ps
    by (induction ps) (auto simp: follow_read_def)
  then show ?thesis by (simp add: pending_rows_def)
qed

lemma follow_read_simps [simp]:
  "pt_run_id (follow_read identity now rid p) = pt_run_id p"
  "pt_txid_hex (follow_read identity now rid p) = pt_txid_hex p"
  "pt_selected_note_txid (follow_read identity now rid p) = pt_selected_note_txid p"
  "pt_selected_note_output_index (follow_read identity now rid p) = pt_selected_note_output_index p"
  by (auto simp: follow_read_def follow_row_def split: sum.splits option.splits)

text \<open>A run that has released its locks is left alone.\<close>

lemma reconcile_closed:
  assumes keys: "keys_ok db" and r: "run_of db rid = Inr r" and "migration_phase_releases_wallet_locks (rr_phase r)"
    and run: "reconcile_run_confirmations trusted unhex chain now done_at db rid = (res, db')"
  shows "db' = db"
proof -
  have d: "distinct (map rr_run_id (mdb_runs db))" using keys by (simp add: keys_ok_def)
  have closed: "\<not> run_is_open db rid" using run_is_open_iff [OF d r] assms(3) by simp
  have none: "snd (sql_update_runs (open_run rid) f db) = db" "fst (sql_update_runs (open_run rid) f db) = 0" for f
    using closed by (simp_all add: sql_update_runs_def run_is_open_def list_ex_iff map_idI filter_False)
  have rid: "rr_run_id r = rid" using run_of_iff [OF d] r by blast
  have not_waiting: "rr_phase r \<noteq> PHASE_WAITING_MIGRATION_CONFIRMATIONS" using assms(3) by auto
  have same: "complete_run rid x db = db" for x
    using none by (simp add: complete_run_def split_beta)
  have finish: "snd (finish_confirmations q i dp n e rid (rr_phase r) u db) = db" for q i dp n e u
    using not_waiting same by (auto simp: finish_confirmations_def split: sum.splits option.splits bool.splits)
  let ?rows = "map (\<lambda>p. (pt_txid_hex p, pt_status p))
    (filter (\<lambda>p. pt_status p \<in> followed_statuses) (pending_rows db rid))"
  obtain c db1 where c: "confirm_rows (local_denomination_chain_identity unhex chain) now rid ?rows (False, db) = (c, db1)"
    by fastforce
  then have "db1 = db" using confirm_rows_closed closed by blast
  with c have c: "confirm_rows (local_denomination_chain_identity unhex chain) now rid ?rows (False, db) = (c, db)" by simp
  show ?thesis
  proof (cases "wc_transactions chain = None \<or> (\<exists>e. c = Inl e)")
    case True
    then show ?thesis using run c by (auto simp: reconcile_run_confirmations_def Let_def split: if_splits)
  next
    case False
    then obtain re where re: "c = Inr re" by (cases c) auto
    have db2: "(if re then snd (sql_update_runs (open_run rid) (move_run PHASE_BROADCAST_SCHEDULED now None) db) else db) = db"
      using none by simp
    show ?thesis
      using run False not_waiting finish
      unfolding reconcile_run_confirmations_def Let_def c re db2 prod.case sum.case run_phase_def r
      by (cases "unpromoted_signed_child_pczt_count_with_conn db rid") (auto, metis snd_conv)
  qed
qed

lemma resume_waiting_run:
  assumes "distinct (map rr_run_id (mdb_runs db))" and "run_of db rid = Inr r"
    and "rr_phase r = PHASE_WAITING_MIGRATION_CONFIRMATIONS"
  shows "run_of (resume_waiting rid now db) rid = Inr (move_run PHASE_BROADCAST_SCHEDULED now None r)"
    and "resume_waiting rid now (resume_waiting rid now db) = resume_waiting rid now db"
proof -
  have rid: "rr_run_id r = rid" using run_of_iff [OF assms(1)] assms(2) by blast
  show "run_of (resume_waiting rid now db) rid = Inr (move_run PHASE_BROADCAST_SCHEDULED now None r)"
    using sql_update_runs_phase(1) [OF assms(1,2), of
        "\<lambda>q. rr_run_id q = rid \<and> rr_phase q = PHASE_WAITING_MIGRATION_CONFIRMATIONS"
        "move_run PHASE_BROADCAST_SCHEDULED now None"] assms(3) rid
    by (simp add: resume_waiting_def move_run_def)
  show "resume_waiting rid now (resume_waiting rid now db) = resume_waiting rid now db"
    by (cases db) (auto simp: resume_waiting_def sql_update_runs_def move_run_def)
qed

lemma resume_waiting_pending [simp]:
  "mdb_pending (resume_waiting rid now db) = mdb_pending db"
  "pending_rows (resume_waiting rid now db) a = pending_rows db a"
  by (simp_all add: resume_waiting_def pending_rows_def)

lemma reconcile_open:
  assumes keys: "keys_ok db" and r: "run_of db rid = Inr r"
    and op: "\<not> migration_phase_releases_wallet_locks (rr_phase r)" and "wc_transactions chain \<noteq> None"
    and run: "reconcile_run_confirmations trusted unhex chain now done_at db rid = (Inr (), db')"
  shows "pass_result (follow_read (local_denomination_chain_identity unhex chain) now rid) rid
     (next_phase (denomination_confirmations_required trusted) (local_denomination_chain_identity unhex chain)
        (synced_orchard_confirmation_count trusted chain) db r) db db'"
proof -
  let ?i = "local_denomination_chain_identity unhex chain"
    and ?d = "synced_orchard_confirmation_count trusted chain"
    and ?q = "denomination_confirmations_required trusted"
  let ?f = "follow_read ?i now rid"
  let ?rows = "map (\<lambda>p. (pt_txid_hex p, pt_status p))
    (filter (\<lambda>p. pt_status p \<in> followed_statuses) (pending_rows db rid))"
  let ?db1 = "db\<lparr>mdb_pending := map ?f (mdb_pending db)\<rparr>"
  have d: "distinct (map rr_run_id (mdb_runs db))" using keys by (simp add: keys_ok_def)
  have rid: "rr_run_id r = rid" using run_of_iff [OF d] r by blast
  have r1: "run_of ?db1 rid = Inr r" using r by simp
  obtain re db1 where c: "confirm_rows ?i now rid ?rows (False, db) = (Inr re, db1)"
    using run assms(4) unfolding reconcile_run_confirmations_def Let_def
    by (auto split: sum.splits prod.splits)
  note rows = confirm_rows_open [OF c run_is_open_iff [OF d r, THEN iffD2, OF op] read_rows(1) [OF keys]]
  have db1: "db1 = ?db1" using rows read_rows(2) [OF keys, of rid ?i now] by simp
  have re: "re \<longleftrightarrow> (\<exists>p \<in> set (pending_rows db rid). lost_row ?i p)"
    using rows read_rows(3) [OF keys, of rid ?i] by blast
  have known: "\<forall>p \<in> set (pending_rows db rid). pt_status p \<in> followed_statuses \<longrightarrow> (\<exists>j. ?i (pt_txid_hex p) = Inr j)"
    using rows read_rows(4) [OF keys, of rid ?i] by blast
  let ?ps = "pending_rows db rid"
  have ps1: "pending_rows ?db1 rid = map ?f ?ps" by (rule follow_read_rows)
  have conf: "pt_status (?f p) = ''confirmed'' \<longleftrightarrow> found_row ?i p" if "p \<in> set ?ps" for p
    using follow_read_confirmed [of p rid ?i now] known that by (auto simp: pending_rows_def)
  have all: "(map ?f ?ps = [] \<or> (\<exists>p \<in> set (map ?f ?ps). pt_status p \<noteq> ''confirmed'')) \<longleftrightarrow> \<not> all_found ?i ?ps"
    using conf by (auto simp: all_found_def)
  have trust: "(\<forall>p \<in> set (map ?f ?ps). trusted_row ?q ?i ?d p) \<longleftrightarrow> (\<forall>p \<in> set ?ps. trusted_row ?q ?i ?d p)"
    by (simp add: trusted_row_def)
  have unp: "unpromoted_signed_child_note_outpoints_with_conn ?db1 rid =
      unpromoted_signed_child_note_outpoints_with_conn db rid"
    by (simp add: unpromoted_signed_child_note_outpoints_with_conn_def ps1 comp_def
        pending_migration_note_outpoints_with_conn_def)
  let ?u = "unpromoted_signed_child_note_outpoints_with_conn db rid"
  note resume = pass_resume [OF d r op refl, of ?f]
  show ?thesis
  proof (cases re)
    case True
    then obtain p where p: "p \<in> set ?ps" "lost_row ?i p" using re by blast
    have "\<not> found_row ?i p" using p(2) by (auto simp: found_row_def lost_row_def)
    then have not_all: "\<not> all_found ?i ?ps" using p(1) by (auto simp: all_found_def)
    let ?move = "move_run PHASE_BROADCAST_SCHEDULED now None"
    let ?db2 = "snd (sql_update_runs (open_run rid) ?move ?db1)"
    have r2: "run_of ?db2 rid = Inr (?move r)"
      using sql_update_runs_phase(1) [of ?db1 rid r "open_run rid" ?move] d r1 op rid
      by (simp add: open_run_iff move_run_def)
    have moved: "rr_phase (?move r) = PHASE_BROADCAST_SCHEDULED" by (simp add: move_run_def)
    have ps2: "pending_rows ?db2 rid = map ?f ?ps" using ps1 by (simp add: pending_rows_def)
    obtain u where "finish_confirmations ?q ?i ?d now done_at rid PHASE_BROADCAST_SCHEDULED u ?db2 = (Inr (), db')"
      using run assms(4) True
      unfolding reconcile_run_confirmations_def Let_def c db1 prod.case sum.case
        run_phase_def if_True r2
      by (cases "unpromoted_signed_child_pczt_count_with_conn ?db2 rid")
        (auto simp: r2 moved)
    from finish_cases [OF this r2] have "db' = ?db2" using all not_all unfolding ps2 by simp
    moreover have "next_phase ?q ?i ?d db r = PHASE_BROADCAST_SCHEDULED"
      using p by (auto simp: next_phase_def rid Let_def)
    ultimately show ?thesis using resume(4) by simp
  next
    case False
    let ?n = "length ?u" and ?w = "rr_phase r = PHASE_WAITING_MIGRATION_CONFIRMATIONS"
    let ?db3 = "if ?w \<and> 0 < ?n then resume_waiting rid now ?db1 else ?db1"
    have fin: "finish_confirmations ?q ?i ?d now done_at rid (rr_phase r) ?n ?db3 = (Inr (), db')"
      using run assms(4) False r1
      unfolding reconcile_run_confirmations_def Let_def c db1 prod.case sum.case
        run_phase_def
        unpromoted_signed_child_pczt_count_with_conn_def
      by (auto simp: unp try_u32_def split: if_splits)
    obtain r3 where r3: "run_of ?db3 rid = Inr r3" "rr_target_values r3 = rr_target_values r"
    proof (cases "?w \<and> 0 < ?n")
      case True
      then show ?thesis
        using that resume_waiting_run(1) [of ?db1 rid r now] d r1 by (simp add: move_run_def)
    next
      case False
      then have e: "?db3 = ?db1" by (rule if_not_P)
      show ?thesis by (rule that [unfolded e, OF r1 refl])
    qed
    have ps3: "pending_rows ?db3 rid = map ?f ?ps" using ps1 by simp
    have idem: "?w \<and> 0 < ?n \<Longrightarrow> resume_waiting rid now ?db3 = ?db3"
      using resume_waiting_run(2) [of ?db1 rid r now] d r1 by simp
    have no_lost: "\<not> (\<exists>p \<in> set ?ps. lost_row ?i p)" using False re by blast
    note fin' = finish_cases [OF fin r3(1), unfolded ps3 all trust r3(2) length_map]
    show ?thesis
    proof (cases "?u = []")
      case True
      then have "db' =
         (if \<not> all_found ?i ?ps then ?db1
          else if length ?ps \<noteq> length (rr_target_values r) then (if ?w then resume_waiting rid now ?db1 else ?db1)
          else if \<forall>p \<in> set ?ps. trusted_row ?q ?i ?d p then complete_run rid done_at ?db1 else ?db1)"
        using fin' by simp
      then show ?thesis
        using resume(2) resume(1) [of now] resume(3) [of done_at] no_lost True
        by (auto simp: next_phase_def rid Let_def)
    next
      case nonempty: False
      then have "db' = (if ?w then resume_waiting rid now ?db1 else ?db1)" using fin' idem by auto
      then show ?thesis
        using resume(2) resume(1) [of now] no_lost nonempty
        by (auto simp: next_phase_def rid Let_def)
    qed
  qed
qed

lemma next_phase_complete:
  assumes "\<not> migration_phase_releases_wallet_locks (rr_phase r)"
  shows "next_phase required identity depth db r = PHASE_COMPLETE \<longleftrightarrow>
     (let ps = pending_rows db (rr_run_id r) in
      ps \<noteq> [] \<and> length ps = length (rr_target_values r)
      \<and> (\<forall>p \<in> set ps. found_row identity p \<and> trusted_row required identity depth p)
      \<and> unpromoted_signed_child_note_outpoints_with_conn db (rr_run_id r) = [])"
proof -
  have "rr_phase r \<noteq> PHASE_COMPLETE" using assms by (auto simp: migration_phase_releases_wallet_locks_def)
  moreover have "\<not> lost_row identity p" if "found_row identity p" for p
    using that by (auto simp: found_row_def lost_row_def)
  ultimately show ?thesis by (auto simp: next_phase_def Let_def all_found_def)
qed

text \<open>
  C8. Following the migration transactions of a run through the chain. A run that has released its
  locks is not touched. Otherwise, when the pass reports no error, every transaction that was scheduled,
  broadcast or confirmed is confirmed if the chain holds it and back to being scheduled at its target
  height if it was confirmed and the chain lost it; the run moves to the phase that these facts
  determine, and only its own rows change. It completes, releasing its notes and discarding its
  signed parts, exactly when it has as many transactions as planned parts, at least one, all on
  the chain at trusted depth, and no signed part without a transaction.
\<close>

theorem confirmations_followed:
  fixes trusted :: u32 and chain :: wallet_chain and unhex :: "string \<Rightarrow> byte list option"
  defines "identity \<equiv> local_denomination_chain_identity unhex chain"
    and "depth \<equiv> synced_orchard_confirmation_count trusted chain"
    and "required \<equiv> denomination_confirmations_required trusted"
  assumes "keys_ok db" and "run_of db rid = Inr r" and "wc_transactions chain \<noteq> None"
    and "reconcile_run_confirmations trusted unhex chain now done_at db rid = (Inr (), db')"
  shows "if migration_phase_releases_wallet_locks (rr_phase r) then db' = db
     else pass_result (follow_read identity now rid) rid (next_phase required identity depth db r) db db'
       \<and> (run_phase db' rid = Inr PHASE_COMPLETE \<longleftrightarrow>
            pending_rows db rid \<noteq> [] \<and> length (pending_rows db rid) = length (rr_target_values r)
            \<and> (\<forall>p \<in> set (pending_rows db rid). found_row identity p \<and> trusted_row required identity depth p)
            \<and> unpromoted_signed_child_note_outpoints_with_conn db rid = [])"
proof (cases "migration_phase_releases_wallet_locks (rr_phase r)")
  case True
  then show ?thesis using reconcile_closed [OF assms(4,5) True assms(7)] by simp
next
  case False
  note result = reconcile_open [OF assms(4,5) False assms(6,7), folded identity_def depth_def required_def]
  have rid: "rr_run_id r = rid" using assms(4,5) run_of_iff by (auto simp: keys_ok_def)
  have "run_phase db' rid = Inr (next_phase required identity depth db r)"
    using result by (auto simp: pass_result_def runs_moved_def run_phase_def)
  then show ?thesis
    using result False next_phase_complete [OF False, of required identity depth db] by (simp add: rid Let_def)
qed

text \<open>A run of one part whose transaction was mined in block 100 of a chain scanned up to block 149.\<close>

definition example_note_ref :: orchard_note_ref where
  "example_note_ref = \<lparr>on_txid_hex = ''n'', on_output_index = 0, on_value_zatoshi = 100015000,
     on_note_version = 2, on_nullifier_hex = None\<rparr>"

definition example_metadata :: tx_metadata where
  "example_metadata = \<lparr>md_tx_kind = ''migration'', md_funding_account_uuid = ''account'',
     md_selected_note = example_note_ref\<rparr>"

definition example_pending :: pending_row where
  "example_pending = \<lparr>pt_run_id = ''run'', pt_txid_hex = ''t'', pt_part_index = Some 0,
     pt_encrypted_raw_tx = [], pt_target_height = 90, pt_anchor_boundary_height = Some 0,
     pt_expiry_height = 69120, pt_value_zatoshi = 100000000, pt_fee_zatoshi = 15000,
     pt_selected_note_txid = ''n'', pt_selected_note_output_index = 0, pt_selected_note_value = 100015000,
     pt_scheduled_at_ms = 0, pt_schedule_start_height = Some 89, pt_scheduled_height = 95,
     pt_original_scheduled_height = Some 95, pt_broadcast_attempted = 1, pt_status = ''broadcasted'',
     pt_metadata = example_metadata, pt_rebuild_block_offset = None\<rparr>"

definition example_waiting_run :: run_row where
  "example_waiting_run =
     \<lparr>rr_run_id = ''run'', rr_account_uuid = ''account'', rr_network = ''test'',
      rr_db_fingerprint = ''wallet.db'', rr_phase = PHASE_WAITING_MIGRATION_CONFIRMATIONS,
      rr_created_at_ms = 0, rr_updated_at_ms = 0,
      rr_target_values = [100000000], rr_schedule = [], rr_timing_policy = ''standard'',
      rr_preparation_timing_policy = ''zip318_spaced'', rr_proof_retry_height = None,
      rr_signed_schedule_origin_height = None, rr_initial_schedule_rebased_origin_height = None,
      rr_last_error = None, rr_recovery_schedule_origin_height = None,
      rr_recovery_schedule_max_block_offset = None\<rparr>"

definition example_waiting_db :: migration_db where
  "example_waiting_db =
     \<lparr>mdb_runs = [example_waiting_run], mdb_notes = [], mdb_pending = [example_pending], mdb_children = [],
      mdb_stages = \<lparr>db_stages = [], db_inputs = [], db_outputs = []\<rparr>\<rparr>"

definition example_txid_bytes :: "byte list" where
  "example_txid_bytes = replicate 32 7"

definition example_unhex :: "string \<Rightarrow> byte list option" where
  "example_unhex s = (if s = ''t'' then Some example_txid_bytes else None)"

definition example_wallet :: wallet_chain where
  "example_wallet =
     \<lparr>wc_transactions = Some [\<lparr>wt_id = 1, wt_txid = example_txid_bytes, wt_block = Some 100,
        wt_mined_height = Some 100, wt_raw = None\<rparr>],
      wc_blocks = Some [(100, replicate 32 1), (149, replicate 32 2)],
      wc_scan_queue = Some [(50, 150, 10)], wc_orchard_received_notes = None, wc_has_accounts = True\<rparr>"

theorem confirmations_followed_witness:
  "\<exists>db'. reconcile_run_confirmations 3 example_unhex example_wallet 5 6 example_waiting_db ''run'' = (Inr (), db')
     \<and> run_phase db' ''run'' = Inr PHASE_COMPLETE"
proof -
  have identity: "local_denomination_chain_identity example_unhex example_wallet ''t'' =
      Inr (Some \<lparr>ci_mined_height = 100, ci_block_hash = Hash32 (replicate 32 1)\<rparr>)"
    by (simp add: local_denomination_chain_identity_def txid_blob_variants_def example_unhex_def
        example_wallet_def included_in_def example_txid_bytes_def)
  have depth: "synced_orchard_confirmation_count 3 example_wallet 100 = Inr 3"
    by (simp add: synced_orchard_confirmation_count_def example_wallet_def scanned_range_def
        denomination_confirmations_required_def saturating_add_def checked_sub_def)
  have required: "denomination_confirmations_required 3 = 3" by (simp add: denomination_confirmations_required_def)
  have rows: "pending_rows example_waiting_db ''run'' = [example_pending]"
    by (simp add: pending_rows_def example_waiting_db_def example_pending_def)
  have run: "run_of example_waiting_db ''run'' = Inr example_waiting_run"
    by (simp add: run_of_def example_waiting_db_def example_waiting_run_def)
  have keys: "keys_ok example_waiting_db" by (simp add: keys_ok_def example_waiting_db_def)
  have unp: "unpromoted_signed_child_note_outpoints_with_conn example_waiting_db ''run'' = []"
    by (simp add: unpromoted_signed_child_note_outpoints_with_conn_def example_waiting_db_def)
  have open_phase: "\<not> migration_phase_releases_wallet_locks (rr_phase example_waiting_run)"
    by (simp add: example_waiting_run_def)
  have txid: "pt_txid_hex example_pending = ''t''" "pt_status example_pending = ''broadcasted''"
    by (simp_all add: example_pending_def)
  have targets: "length (rr_target_values example_waiting_run) = 1" by (simp add: example_waiting_run_def)
  have scanned: "wc_transactions example_wallet \<noteq> None" by (simp add: example_wallet_def)
  let ?db1 = "confirm_pending ''run'' ''t'' example_waiting_db"
  have rows1: "pending_rows ?db1 ''run'' = [example_pending\<lparr>pt_status := ''confirmed''\<rparr>]"
    by (simp add: confirm_pending_def sql_update_pending_def run_is_open_def open_run_iff example_waiting_db_def
        example_waiting_run_def example_pending_def pending_rows_def)
  have run1: "run_of ?db1 ''run'' = Inr example_waiting_run"
    using run by (simp add: confirm_pending_def sql_update_pending_def)
  have unp1: "unpromoted_signed_child_note_outpoints_with_conn ?db1 ''run'' = []"
    by (simp add: unpromoted_signed_child_note_outpoints_with_conn_def confirm_pending_def
        sql_update_pending_def example_waiting_db_def)
  have "\<exists>db'. reconcile_run_confirmations 3 example_unhex example_wallet 5 6 example_waiting_db ''run'' = (Inr (), db')"
    using rows1 run1
    by (simp add: reconcile_run_confirmations_def rows txid identity depth required unp1 followed_statuses_def
        run_phase_def unpromoted_signed_child_pczt_count_with_conn_def try_u32_def finish_confirmations_def
        count_for_run_def count_pending_with_status_def planned_part_count_with_conn_def Let_def
        targets scanned del: not_None_eq)
  then obtain db' where db': "reconcile_run_confirmations 3 example_unhex example_wallet 5 6 example_waiting_db ''run'' =
      (Inr (), db')" by blast
  from confirmations_followed [OF keys run scanned db'] show ?thesis
    using db' open_phase rows unp txid identity depth required
    by (simp add: found_row_def trusted_row_def followed_statuses_def targets)
qed

end
