(* ===== verification/Run_Readiness.thy ===== *)
theory Run_Readiness
  imports Run_Completion Chain_Properties
begin

text \<open>
  The other half of the confirmation bookkeeping (\<open>migration.rs\<close>): the denomination notes and stages
  of a run, up to the point where migration can start, and the progress that is shown meanwhile.
\<close>

section \<open>The run as a status call sees it\<close>

record active_run =
  ar_run_id :: string
  ar_phase :: string
  ar_target_values_zatoshi :: "u64 list"
  ar_last_error :: "string option"

definition active_run_of_row :: "run_row \<Rightarrow> active_run" where
  "active_run_of_row r =
     \<lparr>ar_run_id = rr_run_id r, ar_phase = rr_phase r, ar_target_values_zatoshi = rr_target_values r,
      ar_last_error = rr_last_error r\<rparr>"

section \<open>The notes that the denomination transactions made\<close>

definition hex_digit :: "nat \<Rightarrow> char" where
  "hex_digit n = (if n < 10 then char_of (48 + n) else char_of (87 + n))"

text \<open>SQLite's \<open>lower(hex(b))\<close>.\<close>

definition lower_hex :: "byte list \<Rightarrow> string" where
  "lower_hex bs = concat (map (\<lambda>b. [hex_digit (unat b div 16), hex_digit (unat b mod 16)]) bs)"

text \<open>
  The join of the received note with the transaction that made it. Its rows have a nullifier, a mined
  height and a position in the commitment tree.
\<close>

definition spendable_notes ::
    "received_note list \<Rightarrow> wallet_tx list \<Rightarrow> byte list \<Rightarrow> note_row \<Rightarrow> (string \<times> u32) list" where
  "spendable_notes received txs txid_blob note_r =
     concat (map (\<lambda>n. concat (map (\<lambda>t.
         case (rn_nf n, wt_mined_height t) of
           (Some nf, Some mined_height) \<Rightarrow>
             if wt_id t = rn_transaction_id n \<and> wt_txid t = txid_blob
                \<and> rn_action_index n = nr_output_index note_r \<and> rn_value n = nr_value_zatoshi note_r
                \<and> rn_note_version n = nr_note_version note_r
                \<and> rn_commitment_tree_position n \<noteq> None
             then [(lower_hex nf, mined_height)] else []
         | _ \<Rightarrow> []) txs)) received)"

fun spendable_metadata ::
    "received_note list \<Rightarrow> wallet_tx list \<Rightarrow> byte list list \<Rightarrow> note_row \<Rightarrow> (string \<times> u32) option" where
  "spendable_metadata received txs [] note_r = None"
| "spendable_metadata received txs (txid_blob # blobs) note_r =
     (case spendable_notes received txs txid_blob note_r of
        metadata # _ \<Rightarrow> Some metadata
      | [] \<Rightarrow> spendable_metadata received txs blobs note_r)"

fun confirm_notes ::
    "(string \<Rightarrow> byte list option) \<Rightarrow> received_note list \<Rightarrow> wallet_tx list \<Rightarrow> note_row list \<Rightarrow>
     run_error + (string \<times> u32 \<times> string \<times> u32) list option" where
  "confirm_notes unhex received txs [] = Inr (Some [])"
| "confirm_notes unhex received txs (n # ns) =
     rbind (txid_blob_variants unhex (nr_txid_hex n)) (\<lambda>blobs.
     case spendable_metadata received txs blobs n of
       None \<Rightarrow> Inr None
     | Some (nf_hex, mined_height) \<Rightarrow>
         rbind (confirm_notes unhex received txs ns) (\<lambda>rest.
         Inr (map_option (\<lambda>cs. (nr_txid_hex n, nr_output_index n, nf_hex, mined_height) # cs) rest)))"

definition confirmed_prepared_denomination_notes ::
    "(string \<Rightarrow> byte list option) \<Rightarrow> wallet_chain \<Rightarrow> migration_db \<Rightarrow> string \<Rightarrow>
     run_error + (string \<times> u32 \<times> string \<times> u32) list option" where
  "confirmed_prepared_denomination_notes unhex chain db run_id =
     (case (wc_transactions chain, wc_orchard_received_notes chain) of
        (Some txs, Some received) \<Rightarrow>
          confirm_notes unhex received txs (filter (\<lambda>n. nr_run_id n = run_id) (mdb_notes db))
      | _ \<Rightarrow> Inr None)"

definition prepared_note_spend_metadata_available_for_run ::
    "(string \<Rightarrow> byte list option) \<Rightarrow> wallet_chain \<Rightarrow> migration_db \<Rightarrow> string \<Rightarrow> run_error + bool" where
  "prepared_note_spend_metadata_available_for_run unhex chain db run_id =
     rbind (confirmed_prepared_denomination_notes unhex chain db run_id) (\<lambda>c.
     Inr (case c of Some (n # ns) \<Rightarrow> True | _ \<Rightarrow> False))"

section \<open>From waiting to ready\<close>

fun trusted_identities ::
    "u32 \<Rightarrow> (string \<Rightarrow> run_error + chain_identity option) \<Rightarrow> (u32 \<Rightarrow> run_error + u32) \<Rightarrow> string list \<Rightarrow>
     run_error + (string \<times> chain_identity) list option" where
  "trusted_identities required identity depth [] = Inr (Some [])"
| "trusted_identities required identity depth (txid # txids) =
     rbind (identity txid) (\<lambda>i. case i of
        None \<Rightarrow> Inr None
      | Some i \<Rightarrow>
          rbind (depth (ci_mined_height i)) (\<lambda>d.
          if d < required then Inr None
          else rbind (trusted_identities required identity depth txids) (\<lambda>rest.
               Inr (map_option (\<lambda>is. (txid, i) # is) rest))))"

definition latest_proof_ready_height ::
    "u32 \<Rightarrow> wallet_network \<Rightarrow> migration_timing_policy \<Rightarrow> (string \<times> u32 \<times> string \<times> u32) list \<Rightarrow>
     run_error + u32" where
  "latest_proof_ready_height trusted network timing_policy confirmed =
     try_fold (\<lambda>ready_height (txid_hex, output_index, nf_hex, mined_height).
         map_error RunHeight
           (rbind (proof_ready_height_for_note_mined_height trusted network timing_policy mined_height)
             (\<lambda>height. Inr (max ready_height height)))) 0 confirmed"

definition set_nullifier :: "string \<Rightarrow> string \<times> u32 \<times> string \<times> u32 \<Rightarrow> migration_db \<Rightarrow> migration_db" where
  "set_nullifier run_id c db =
     (case c of (txid_hex, output_index, nf_hex, mined_height) \<Rightarrow>
        db\<lparr>mdb_notes := map (\<lambda>n.
          if nr_run_id n = run_id \<and> nr_txid_hex n = txid_hex \<and> nr_output_index n = output_index
          then n\<lparr>nr_nullifier_hex := Some nf_hex\<rparr> else n) (mdb_notes db)\<rparr>)"

fun confirm_stages ::
    "string \<Rightarrow> (string \<times> chain_identity) list \<Rightarrow> stage_db \<Rightarrow> (stage_error + unit) \<times> stage_db" where
  "confirm_stages run_id [] s = (Inr (), s)"
| "confirm_stages run_id ((txid, i) # rest) s =
     (case mark_denomination_stage_confirmed_at s run_id txid (ci_mined_height i) (ci_block_hash i) of
        (Inl e, s') \<Rightarrow> (Inl e, s')
      | (Inr _, s') \<Rightarrow> confirm_stages run_id rest s')"

definition ready_run :: "u32 \<Rightarrow> int \<Rightarrow> run_row \<Rightarrow> run_row" where
  "ready_run proof_ready_height now r =
     r\<lparr>rr_phase := PHASE_READY_TO_MIGRATE, rr_proof_retry_height := Some proof_ready_height,
       rr_updated_at_ms := now, rr_last_error := None\<rparr>"

text \<open>What the call reads before it writes: the notes, the stages' identities and the proof height.\<close>

definition readiness ::
    "u32 \<Rightarrow> build_flavor \<Rightarrow> (string \<Rightarrow> byte list option) \<Rightarrow> wallet_chain \<Rightarrow> migration_db \<Rightarrow> string \<Rightarrow>
     run_error + ((string \<times> u32 \<times> string \<times> u32) list \<times> (string \<times> chain_identity) list \<times> u32) option" where
  "readiness trusted flavor unhex chain db run_id =
     (let required = denomination_confirmations_required trusted;
          depth = synced_orchard_confirmation_count trusted chain in
      rbind (confirmed_prepared_denomination_notes unhex chain db run_id) (\<lambda>c.
      case c of
        None \<Rightarrow> Inr None
      | Some [] \<Rightarrow> Inr None
      | Some (n # ns) \<Rightarrow>
          let confirmed = n # ns in
          rbind (depth (Max (set (map (snd \<circ> snd \<circ> snd) confirmed)))) (\<lambda>d.
          if d < required then Inr None
          else
            rbind (trusted_identities required (local_denomination_chain_identity unhex chain) depth
                     (denomination_stage_expected_txids (mdb_stages db) run_id)) (\<lambda>is.
            case is of
              None \<Rightarrow> Inr None
            | Some stage_identities \<Rightarrow>
                rbind (run_network flavor db run_id) (\<lambda>network.
                rbind (timing_policy_for_run_with_conn db run_id) (\<lambda>timing_policy.
                rbind (latest_proof_ready_height trusted network timing_policy confirmed)
                  (\<lambda>proof_ready_height.
                Inr (Some (confirmed, stage_identities, proof_ready_height)))))))))"

definition reconcile_denomination_confirmations ::
    "u32 \<Rightarrow> build_flavor \<Rightarrow> (string \<Rightarrow> byte list option) \<Rightarrow> wallet_chain \<Rightarrow> int \<Rightarrow> migration_db \<Rightarrow>
     active_run \<Rightarrow> (run_error + unit) \<times> migration_db" where
  "reconcile_denomination_confirmations trusted flavor unhex chain now db run =
     (if ar_phase run \<noteq> PHASE_WAITING_DENOM_CONFIRMATIONS then (Inr (), db)
      else
        (case readiness trusted flavor unhex chain db (ar_run_id run) of
           Inl e \<Rightarrow> (Inl e, db)
         | Inr None \<Rightarrow> (Inr (), db)
         | Inr (Some (confirmed, stage_identities, proof_ready_height)) \<Rightarrow>
             (let db1 = fold (set_nullifier (ar_run_id run)) confirmed db in
              case confirm_stages (ar_run_id run) stage_identities (mdb_stages db1) of
                (Inl e, s) \<Rightarrow>
                  ((case e of DifferentInclusion t \<Rightarrow> Inr () | _ \<Rightarrow> Inl (RunStage e)), db1\<lparr>mdb_stages := s\<rparr>)
              | (Inr _, s) \<Rightarrow>
                  (Inr (),
                   snd (sql_update_runs
                     (\<lambda>r. rr_run_id r = ar_run_id run \<and> rr_phase r = PHASE_WAITING_DENOM_CONFIRMATIONS)
                     (ready_run proof_ready_height now) (db1\<lparr>mdb_stages := s\<rparr>))))))"

section \<open>Progress\<close>

record split_progress =
  frontier_confirmation_count :: u32
  completed_count :: u32
  split_total_count :: u32

text \<open>The frontier: the stages that are not trusted yet and whose planned parents all are.\<close>

definition on_frontier :: "string set \<Rightarrow> string set \<Rightarrow> stage_chain_record \<Rightarrow> bool" where
  "on_frontier planned trusted_txids stage \<longleftrightarrow>
     record_txid stage \<notin> trusted_txids
     \<and> list_all (\<lambda>parent. parent \<in> planned \<longrightarrow> parent \<in> trusted_txids)
         (map to_ascii_lowercase (cr_parent_txids stage))"

definition stage_confirmation_count ::
    "(string \<Rightarrow> run_error + chain_identity option) \<Rightarrow> (u32 \<Rightarrow> run_error + u32) \<Rightarrow> string \<Rightarrow> run_error + u32" where
  "stage_confirmation_count identity depth txid =
     rbind (identity txid) (\<lambda>i. case i of None \<Rightarrow> Inr 0 | Some i \<Rightarrow> depth (ci_mined_height i))"

definition denomination_split_progress_for_run ::
    "u32 \<Rightarrow> (string \<Rightarrow> byte list option) \<Rightarrow> wallet_chain \<Rightarrow> migration_db \<Rightarrow> string \<Rightarrow>
     run_error + split_progress" where
  "denomination_split_progress_for_run trusted unhex chain db run_id =
     (let required = denomination_confirmations_required trusted;
          identity = local_denomination_chain_identity unhex chain;
          depth = synced_orchard_confirmation_count trusted chain in
      rbind (map_error RunStage (denomination_stage_chain_records (mdb_stages db) run_id)) (\<lambda>stages.
      if stages = []
      then Inr \<lparr>frontier_confirmation_count = 0, completed_count = 0, split_total_count = 0\<rparr>
      else
        rbind (try_u32 SplitStageCountOverflow (length stages)) (\<lambda>total_stages.
        rbind (try_fold (\<lambda>counts stage.
              rbind (stage_confirmation_count identity depth (record_txid stage)) (\<lambda>n.
              Inr (counts(record_txid stage \<mapsto> n)))) Map.empty stages) (\<lambda>counts.
        (let planned = set (map record_txid stages);
             trusted_txids = {t \<in> planned. case counts t of Some n \<Rightarrow> n \<ge> required | None \<Rightarrow> False} in
         rbind (try_u32 SplitStageCountOverflow (card trusted_txids)) (\<lambda>completed.
         Inr \<lparr>frontier_confirmation_count =
                (if completed = total_stages then required
                 else (let frontier = map (\<lambda>stage. the (counts (record_txid stage)))
                              (filter (on_frontier planned trusted_txids) stages)
                       in if frontier = [] then 0 else Min (set frontier))),
              completed_count = completed, split_total_count = total_stages\<rparr>))))))"

definition pending_split_stage_count_for_run :: "migration_db \<Rightarrow> string \<Rightarrow> run_error + u32" where
  "pending_split_stage_count_for_run db run_id =
     rbind (map_error RunStage (denomination_stage_status_counts (mdb_stages db) run_id)) (\<lambda>staged.
     if run_phase db run_id = Inr PHASE_WAITING_DENOM_CONFIRMATIONS then Inr (total_count staged)
     else ok_or PendingStageCountOverflow (checked_add 32 (pending_count staged) (awaiting_inputs_count staged)))"

text \<open>
  The reconciliation of a staged run: the stages against the chain, then the step to readiness, and
  whether migration can go on.
\<close>

definition denominations_done ::
    "u32 \<Rightarrow> (string \<Rightarrow> byte list option) \<Rightarrow> wallet_chain \<Rightarrow> migration_db \<Rightarrow> string \<Rightarrow> run_error + bool" where
  "denominations_done trusted unhex chain db run_id =
     rbind (run_phase db run_id) (\<lambda>phase.
     if phase = PHASE_WAITING_DENOM_CONFIRMATIONS then Inr False
     else if phase = PHASE_READY_TO_MIGRATE then Inr True
     else if phase \<notin> {PHASE_BROADCAST_SCHEDULED, PHASE_BROADCASTING, PHASE_WAITING_MIGRATION_CONFIRMATIONS}
     then Inr False
     else rbind (denomination_split_progress_for_run trusted unhex chain db run_id) (\<lambda>progress.
          Inr (split_total_count progress = 0 \<or> completed_count progress = split_total_count progress)))"

definition reconcile_denomination_run ::
    "'g sampler \<Rightarrow> u32 \<Rightarrow> build_flavor \<Rightarrow> (string \<Rightarrow> byte list option) \<Rightarrow> wallet_chain \<Rightarrow> (run_error + u32) \<Rightarrow>
     int \<Rightarrow> int \<Rightarrow> migration_db \<Rightarrow> string \<Rightarrow> 'g \<Rightarrow> ((run_error + bool) \<times> migration_db) option" where
  "reconcile_denomination_run env trusted flavor unhex chain chain_tip now ready_at db run_id g =
     map_option (\<lambda>(r, db1).
         case r of
           Inl e \<Rightarrow> (Inl e, db1)
         | Inr _ \<Rightarrow>
             (case find (\<lambda>r. rr_run_id r = run_id) (mdb_runs db1) of
                None \<Rightarrow> (Inl (RunNotFound run_id), db1)
              | Some row \<Rightarrow>
                  (case reconcile_denomination_confirmations trusted flavor unhex chain ready_at db1
                          (active_run_of_row row) of
                     (Inl e, db2) \<Rightarrow> (Inl e, db2)
                   | (Inr _, db2) \<Rightarrow> (denominations_done trusted unhex chain db2 run_id, db2))))
       (reconcile_denomination_stage_chain_state env flavor (local_denomination_chain_identity unhex chain)
          chain_tip now db run_id g)"

end
