(* ===== verification/Run_Ready.thy ===== *)
theory Run_Ready
  imports Run_Readiness Chain_Settled
begin

text \<open>
  When a run is taken from waiting for its denominations to being ready to migrate, and what then holds
  of its stages, its notes and its proof height.
\<close>

section \<open>Confirming the stages\<close>

lemma confirm_stage_view:
  assumes "db_ok s" and "txid_normal t"
    and run: "mark_denomination_stage_confirmed_at s rid t h b = (r, s')"
  shows "db_ok s'" and "r = fst (spec_move (OpConfirm h b) t (view s (rid, t)))"
    and "view s' = (view s)((rid, t) := snd (spec_move (OpConfirm h b) t (view s (rid, t))))"
proof -
  have v: "map_prod id view (r, s') = spec_op (rid, t, OpConfirm h b) (view s)"
    using refine_confirm [OF assms(1), of rid t h b] by (simp add: run)
  show "db_ok s'"
    using kept_step_ok [OF kept_step.confirm [of undefined s rid t h b] assms(1)] by (simp add: run)
  show "r = fst (spec_move (OpConfirm h b) t (view s (rid, t)))"
    and "view s' = (view s)((rid, t) := snd (spec_move (OpConfirm h b) t (view s (rid, t))))"
    using v unfolding spec_of_normal [OF assms(2)] by (simp_all add: Let_def split_beta)
qed

definition confirmable :: "(u32 \<times> stage_state) option \<Rightarrow> chain_identity \<Rightarrow> bool" where
  "confirmable v i \<longleftrightarrow> (case v of
     Some (k, SPending) \<Rightarrow> True | Some (k, SBroadcasted) \<Rightarrow> True
   | Some (k, SConfirmed h b) \<Rightarrow> confirmed_by i = SConfirmed h b | _ \<Rightarrow> False)"

definition moved_elsewhere :: "(u32 \<times> stage_state) option \<Rightarrow> chain_identity \<Rightarrow> bool" where
  "moved_elsewhere v i \<longleftrightarrow> (\<exists>k h b. v = Some (k, SConfirmed h b) \<and> confirmed_by i \<noteq> SConfirmed h b)"

lemma confirm_move:
  "fst (spec_move (OpConfirm (ci_mined_height i) (ci_block_hash i)) t v) = Inr () \<longleftrightarrow> confirmable v i"
  "confirmable v i \<Longrightarrow> snd (spec_move (OpConfirm (ci_mined_height i) (ci_block_hash i)) t v) =
     map_option (\<lambda>(k, st). (k, confirmed_by i)) v"
  "fst (spec_move (OpConfirm (ci_mined_height i) (ci_block_hash i)) t v) = Inl e \<Longrightarrow>
     snd (spec_move (OpConfirm (ci_mined_height i) (ci_block_hash i)) t v) = v"
  "fst (spec_move (OpConfirm (ci_mined_height i) (ci_block_hash i)) t v) = Inl (DifferentInclusion u) \<longleftrightarrow>
     u = to_ascii_lowercase t \<and> moved_elsewhere v i"
  by (cases v; auto simp: moved_elsewhere_def confirmable_def confirmed_by_def split: stage_state.splits if_splits)+

lemma confirm_stages_result:
  assumes "db_ok s" and "distinct (map fst is)" and "\<forall>(t, i) \<in> set is. txid_normal t"
    and "confirm_stages rid is s = (r, s')"
  shows "db_ok s'"
    and "r = Inr () \<longleftrightarrow> (\<forall>(t, i) \<in> set is. confirmable (view s (rid, t)) i)"
    and "r = Inr () \<Longrightarrow> view s' = (\<lambda>(a, t). case map_of is t of
           Some i \<Rightarrow> if a = rid then map_option (\<lambda>(k, st). (k, confirmed_by i)) (view s (a, t)) else view s (a, t)
         | None \<Rightarrow> view s (a, t))"
    and "r = Inl (DifferentInclusion u) \<Longrightarrow>
       \<exists>t i. (t, i) \<in> set is \<and> moved_elsewhere (view s (rid, t)) i"
proof -
  have "db_ok s' \<and> (r = Inr () \<longleftrightarrow> (\<forall>(t, i) \<in> set is. confirmable (view s (rid, t)) i))
    \<and> (r = Inr () \<longrightarrow> view s' = (\<lambda>(a, t). case map_of is t of
           Some i \<Rightarrow> if a = rid then map_option (\<lambda>(k, st). (k, confirmed_by i)) (view s (a, t)) else view s (a, t)
         | None \<Rightarrow> view s (a, t)))
    \<and> (\<forall>u. r = Inl (DifferentInclusion u) \<longrightarrow>
       (\<exists>t i. (t, i) \<in> set is \<and> moved_elsewhere (view s (rid, t)) i))"
    using assms
  proof (induction "is" arbitrary: s)
    case Nil
    then show ?case by (auto simp: fun_eq_iff)
  next
    case (Cons ti rest)
    obtain t i where ti: "ti = (t, i)" by fastforce
    obtain r1 s1 where run1: "mark_denomination_stage_confirmed_at s rid t (ci_mined_height i) (ci_block_hash i) = (r1, s1)"
      by fastforce
    let ?fst = "fst (spec_move (OpConfirm (ci_mined_height i) (ci_block_hash i)) t (view s (rid, t)))"
    have nt: "txid_normal t" using Cons.prems(3) ti by simp
    note one = confirm_stage_view [OF Cons.prems(1) nt run1]
    have fresh: "t \<notin> fst ` set rest" using Cons.prems(2) ti by simp
    show ?case
    proof (cases r1)
      case (Inl e)
      then have "r = Inl e" "s' = s1" using Cons.prems(4) by (simp_all add: ti run1)
      moreover have "\<not> confirmable (view s (rid, t)) i" proof -
        have "?fst = Inl e" using one(2) Inl by (simp del: spec_move.simps)
        then show ?thesis using confirm_move(1) [of i t "view s (rid, t)"] by (simp del: spec_move.simps)
      qed
      moreover have "moved_elsewhere (view s (rid, t)) i"
        if "e = DifferentInclusion u" for u
        using that one(2) Inl confirm_move(4) [of i t "view s (rid, t)" u]
        by (metis (no_types, lifting))
      ultimately show ?thesis using one(1) by (auto simp: ti)
    next
      case (Inr x)
      then have rest: "confirm_stages rid rest s1 = (r, s')" using Cons.prems(4) by (simp add: ti run1)
      have ok: "confirmable (view s (rid, t)) i" using one(2) Inr confirm_move(1) [of i t "view s (rid, t)"]
        by (simp del: spec_move.simps)
      have v1: "view s1 = (view s)((rid, t) := map_option (\<lambda>(k, st). (k, confirmed_by i)) (view s (rid, t)))"
        using one(3) confirm_move(2) [OF ok, of t] by (simp del: spec_move.simps)
      have same: "view s1 (rid, u) = view s (rid, u)" if "(u, j) \<in> set rest" for u j
        using v1 fresh that by force
      have "distinct (map fst rest)" "\<forall>(t, i) \<in> set rest. txid_normal t" using Cons.prems(2,3) ti by simp_all
      note IH = Cons.IH [OF one(1) this rest]
      have "(\<forall>(t, i) \<in> set rest. confirmable (view s1 (rid, t)) i) \<longleftrightarrow> (\<forall>(t, i) \<in> set rest. confirmable (view s (rid, t)) i)"
        using same by (intro ball_cong refl) auto
      then have a: "r = Inr () \<longleftrightarrow> (\<forall>(t, i) \<in> set (ti # rest). confirmable (view s (rid, t)) i)"
        using IH ok by (simp add: ti)
      have b: "view s' = (\<lambda>(a, t). case map_of (ti # rest) t of
           Some i \<Rightarrow> if a = rid then map_option (\<lambda>(k, st). (k, confirmed_by i)) (view s (a, t)) else view s (a, t)
         | None \<Rightarrow> view s (a, t))" if "r = Inr ()"
      proof -
        have none: "map_of rest t = None" using fresh by (simp add: map_of_eq_None_iff)
        have "view s' = (\<lambda>(a, t). case map_of rest t of
           Some i \<Rightarrow> if a = rid then map_option (\<lambda>(k, st). (k, confirmed_by i)) (view s1 (a, t)) else view s1 (a, t)
         | None \<Rightarrow> view s1 (a, t))" using IH that by blast
        then show ?thesis using none by (auto simp: fun_eq_iff v1 ti split: option.splits)
      qed
      have c: "\<exists>t i. (t, i) \<in> set rest \<and> moved_elsewhere (view s (rid, t)) i"
        if "r = Inl (DifferentInclusion u)" for u
      proof -
        have "\<exists>u' j. (u', j) \<in> set rest \<and> moved_elsewhere (view s1 (rid, u')) j" using IH that by blast
        then obtain u' j where "(u', j) \<in> set rest" "moved_elsewhere (view s1 (rid, u')) j" by blast
        then show ?thesis using same [of u' j] by auto
      qed
      show ?thesis
      proof (intro conjI allI impI)
        show "db_ok s'" using IH by blast
      qed (use a in blast, use b in blast, use c in \<open>auto simp: ti\<close>)
    qed
  qed
  then show "db_ok s'"
    and "r = Inr () \<longleftrightarrow> (\<forall>(t, i) \<in> set is. confirmable (view s (rid, t)) i)"
    and "r = Inr () \<Longrightarrow> view s' = (\<lambda>(a, t). case map_of is t of
           Some i \<Rightarrow> if a = rid then map_option (\<lambda>(k, st). (k, confirmed_by i)) (view s (a, t)) else view s (a, t)
         | None \<Rightarrow> view s (a, t))"
    and "r = Inl (DifferentInclusion u) \<Longrightarrow>
       \<exists>t i. (t, i) \<in> set is \<and> moved_elsewhere (view s (rid, t)) i"
    by blast+
qed

section \<open>What the call reads\<close>

lemma trusted_identities_Some:
  "trusted_identities required identity depth ts = Inr (Some is) \<Longrightarrow>
     map fst is = ts
     \<and> (\<forall>(t, i) \<in> set is. identity t = Inr (Some i)
          \<and> (\<exists>d. depth (ci_mined_height i) = Inr d \<and> required \<le> d))"
proof (induction ts arbitrary: "is")
  case (Cons t ts)
  from Cons.prems obtain i d rest where i: "identity t = Inr (Some i)" "depth (ci_mined_height i) = Inr d"
    "required \<le> d" "trusted_identities required identity depth ts = Inr (Some rest)" "is = (t, i) # rest"
    by (auto simp: rbind_eq_Inr split: option.splits if_splits)
  then show ?case using Cons.IH [OF i(4)] by auto
qed simp

lemma latest_proof_ready:
  assumes "latest_proof_ready_height trusted network p confirmed = Inr h"
  defines "ready \<equiv> proof_ready_height_for_note_mined_height trusted network p \<circ> snd \<circ> snd \<circ> snd"
  shows "(\<forall>c \<in> set confirmed. \<exists>k \<le> h. ready c = Inr k) \<and> (confirmed \<noteq> [] \<longrightarrow> (\<exists>c \<in> set confirmed. ready c = Inr h))"
proof -
  let ?f = "\<lambda>ready_height (txid_hex :: string, output_index :: u32, nf_hex :: string, mined_height).
         map_error RunHeight
           (rbind (proof_ready_height_for_note_mined_height trusted network p mined_height)
             (\<lambda>height. Inr (max ready_height height)))"
  have "(\<forall>c \<in> set cs. \<exists>k \<le> h. ready c = Inr k) \<and> h0 \<le> h \<and> (h = h0 \<or> (\<exists>c \<in> set cs. ready c = Inr h))"
    if "try_fold ?f h0 cs = Inr h" for h0 cs
    using that
  proof (induction cs arbitrary: h0)
    case (Cons c cs)
    obtain t out nf m where c: "c = (t, out, nf, m)" by (metis prod_cases4)
    from Cons.prems obtain k where k: "proof_ready_height_for_note_mined_height trusted network p m = Inr k"
      by (cases "proof_ready_height_for_note_mined_height trusted network p m") (auto simp: c map_error_def)
    then have "try_fold ?f (max h0 k) cs = Inr h" using Cons.prems by (simp add: c map_error_def)
    from Cons.IH [OF this] k show ?case
      by (auto simp: ready_def c) (metis max_def, metis max_def)?
  qed simp
  from this [OF assms(1) [unfolded latest_proof_ready_height_def]]
  have all: "\<forall>c \<in> set confirmed. \<exists>k \<le> h. ready c = Inr k" and "h = 0 \<or> (\<exists>c \<in> set confirmed. ready c = Inr h)"
    by blast+
  moreover have "\<exists>c \<in> set confirmed. ready c = Inr h" if "h = 0" "confirmed \<noteq> []"
    using all that by (cases confirmed) auto
  ultimately show ?thesis by blast
qed

definition confirmed_key :: "string \<times> u32 \<times> string \<times> u32 \<Rightarrow> string \<times> u32" where
  "confirmed_key c = (fst c, fst (snd c))"

lemma confirm_notes_Some:
  "confirm_notes unhex received txs ns = Inr (Some cs) \<Longrightarrow>
     map confirmed_key cs = map (\<lambda>n. (nr_txid_hex n, nr_output_index n)) ns"
proof (induction ns arbitrary: cs)
  case (Cons n ns)
  then show ?case by (auto simp: rbind_eq_Inr confirmed_key_def split: option.splits prod.splits)
qed simp

lemma fold_set_nullifier:
  defines "key n \<equiv> (nr_txid_hex n, nr_output_index n)"
  shows "mdb_runs (fold (set_nullifier rid) cs db) = mdb_runs db"
    and "mdb_stages (fold (set_nullifier rid) cs db) = mdb_stages db"
    and "mdb_pending (fold (set_nullifier rid) cs db) = mdb_pending db"
    and "mdb_children (fold (set_nullifier rid) cs db) = mdb_children db"
    and "map nr_run_id (mdb_notes (fold (set_nullifier rid) cs db)) = map nr_run_id (mdb_notes db)"
    and "n' \<in> set (mdb_notes (fold (set_nullifier rid) cs db)) \<Longrightarrow>
       \<exists>n \<in> set (mdb_notes db). nr_run_id n' = nr_run_id n \<and> key n' = key n
         \<and> ((nr_run_id n = rid \<and> key n \<in> confirmed_key ` set cs) \<or> nr_nullifier_hex n \<noteq> None
              \<longrightarrow> nr_nullifier_hex n' \<noteq> None)"
proof -
  have one: "mdb_runs (set_nullifier rid c db) = mdb_runs db" "mdb_stages (set_nullifier rid c db) = mdb_stages db"
    "mdb_pending (set_nullifier rid c db) = mdb_pending db" "mdb_children (set_nullifier rid c db) = mdb_children db" for c db
    by (simp_all add: set_nullifier_def split: prod.splits)
  show "mdb_runs (fold (set_nullifier rid) cs db) = mdb_runs db"
    and "mdb_stages (fold (set_nullifier rid) cs db) = mdb_stages db"
    and "mdb_pending (fold (set_nullifier rid) cs db) = mdb_pending db"
    and "mdb_children (fold (set_nullifier rid) cs db) = mdb_children db"
    by (induction cs arbitrary: db) (simp_all add: one)
  have "map nr_run_id (mdb_notes (set_nullifier rid c db)) = map nr_run_id (mdb_notes db)" for c db
    by (simp add: set_nullifier_def split: prod.splits)
  then show "map nr_run_id (mdb_notes (fold (set_nullifier rid) cs db)) = map nr_run_id (mdb_notes db)"
    by (induction cs arbitrary: db) simp_all
  assume "n' \<in> set (mdb_notes (fold (set_nullifier rid) cs db))"
  then show "\<exists>n \<in> set (mdb_notes db). nr_run_id n' = nr_run_id n \<and> key n' = key n
         \<and> ((nr_run_id n = rid \<and> key n \<in> confirmed_key ` set cs) \<or> nr_nullifier_hex n \<noteq> None
              \<longrightarrow> nr_nullifier_hex n' \<noteq> None)"
  proof (induction cs arbitrary: db)
    case (Cons c cs)
    obtain t out nf m where c: "c = (t, out, nf, m)" by (metis prod_cases4)
    have ck: "confirmed_key c = (t, out)" by (simp add: c confirmed_key_def)
    obtain n1 where n1: "n1 \<in> set (mdb_notes (set_nullifier rid c db))" "nr_run_id n' = nr_run_id n1" "key n' = key n1"
      "(nr_run_id n1 = rid \<and> key n1 \<in> confirmed_key ` set cs) \<or> nr_nullifier_hex n1 \<noteq> None
              \<longrightarrow> nr_nullifier_hex n' \<noteq> None"
      using Cons.IH [of "set_nullifier rid c db"] Cons.prems unfolding fold.simps comp_apply by blast
    from n1(1) obtain n where "n \<in> set (mdb_notes db)" "n1 = (if nr_run_id n = rid \<and> nr_txid_hex n = t \<and> nr_output_index n = out
          then n\<lparr>nr_nullifier_hex := Some nf\<rparr> else n)"
      by (auto simp: set_nullifier_def c simp del: if_image_distrib)
    then show ?case using n1(2-4) by (intro bexI [of _ n]) (auto simp: key_def ck)
  qed auto
qed

section \<open>The step to readiness\<close>

lemma run_stages_view:
  assumes "db_ok s"
  shows "set (denomination_stage_expected_txids s rid) = {t. view s (rid, t) \<noteq> None}"
    and "distinct (denomination_stage_expected_txids s rid)"
    and "\<forall>t \<in> set (denomination_stage_expected_txids s rid). txid_normal t"
proof -
  have set: "set (run_stages s rid) = {r \<in> set (db_stages s). sr_run_id r = rid}" by (simp add: run_stages_def)
  have ok: "\<forall>r \<in> set (db_stages s). txid_normal (sr_expected_txid_hex r)" "inj_on stage_txid (set (db_stages s))"
    "distinct (map stage_txid (db_stages s))"
    using assms by (simp_all add: db_ok_def stages_ok_def distinct_map)
  show "set (denomination_stage_expected_txids s rid) = {t. view s (rid, t) \<noteq> None}"
  proof (intro set_eqI iffI)
    fix t assume "t \<in> set (denomination_stage_expected_txids s rid)"
    then show "t \<in> {t. view s (rid, t) \<noteq> None}"
      using find_stage_None [of s rid t] by (auto simp: denomination_stage_expected_txids_def set view_find)
  next
    fix t assume "t \<in> {t. view s (rid, t) \<noteq> None}"
    then obtain r where "find_stage s rid t = Some r" by (auto simp: view_find)
    from find_stage_Some [OF this] show "t \<in> set (denomination_stage_expected_txids s rid)"
      by (auto simp: denomination_stage_expected_txids_def set)
  qed
  show "\<forall>t \<in> set (denomination_stage_expected_txids s rid). txid_normal t"
    using ok(1) by (auto simp: denomination_stage_expected_txids_def set)
  have "distinct (run_stages s rid)" using ok(3) by (simp add: run_stages_def distinct_map)
  moreover have "inj_on sr_expected_txid_hex (set (run_stages s rid))"
    using ok(2) by (auto simp: set inj_on_def stage_txid_def)
  ultimately show "distinct (denomination_stage_expected_txids s rid)"
    by (simp add: denomination_stage_expected_txids_def distinct_map)
qed

text \<open>The evidence that a run is ready: every stage on the chain and trusted, every note with its nullifier.\<close>

definition stages_settled ::
    "u32 \<Rightarrow> (string \<Rightarrow> run_error + chain_identity option) \<Rightarrow> (u32 \<Rightarrow> run_error + u32) \<Rightarrow> stage_db \<Rightarrow> string \<Rightarrow> bool" where
  "stages_settled required identity depth s rid \<longleftrightarrow>
     (\<forall>t k st. view s (rid, t) = Some (k, st) \<longrightarrow>
        (\<exists>i d. identity t = Inr (Some i) \<and> st = confirmed_by i
           \<and> depth (ci_mined_height i) = Inr d \<and> required \<le> d))"

definition notes_settled :: "migration_db \<Rightarrow> string \<Rightarrow> bool" where
  "notes_settled db rid \<longleftrightarrow>
     (\<exists>n \<in> set (mdb_notes db). nr_run_id n = rid)
     \<and> (\<forall>n \<in> set (mdb_notes db). nr_run_id n = rid \<longrightarrow> nr_nullifier_hex n \<noteq> None)"

lemma readiness_Some:
  assumes "readiness trusted flavor unhex chain db rid = Inr (Some (confirmed, is, h))"
  defines "identity \<equiv> local_denomination_chain_identity unhex chain"
    and "depth \<equiv> synced_orchard_confirmation_count trusted chain"
    and "required \<equiv> denomination_confirmations_required trusted"
  shows "confirmed \<noteq> [] \<and> confirmed_prepared_denomination_notes unhex chain db rid = Inr (Some confirmed)
     \<and> map fst is = denomination_stage_expected_txids (mdb_stages db) rid
     \<and> (\<forall>(t, i) \<in> set is. identity t = Inr (Some i) \<and> (\<exists>d. depth (ci_mined_height i) = Inr d \<and> required \<le> d))
     \<and> map confirmed_key confirmed =
         map (\<lambda>n. (nr_txid_hex n, nr_output_index n)) (filter (\<lambda>n. nr_run_id n = rid) (mdb_notes db))
     \<and> (\<exists>network p. run_network flavor db rid = Inr network \<and> timing_policy_for_run_with_conn db rid = Inr p
          \<and> latest_proof_ready_height trusted network p confirmed = Inr h)"
proof -
  from assms(1) obtain c cs where c: "confirmed_prepared_denomination_notes unhex chain db rid = Inr (Some (c # cs))"
  proof (cases "confirmed_prepared_denomination_notes unhex chain db rid")
    case (Inr found)
    then show ?thesis using that assms(1)
      by (cases found; cases "the found") (simp_all add: readiness_def Let_def)
  qed (use assms(1) in \<open>simp add: readiness_def Let_def\<close>)
  from assms(1) c obtain network p where rest: "confirmed = c # cs"
      "trusted_identities required identity depth (denomination_stage_expected_txids (mdb_stages db) rid) = Inr (Some is)"
      "run_network flavor db rid = Inr network" "timing_policy_for_run_with_conn db rid = Inr p"
      "latest_proof_ready_height trusted network p confirmed = Inr h"
    unfolding identity_def depth_def required_def
    by (auto simp: readiness_def Let_def rbind_eq_Inr split: option.splits if_splits)
  from c obtain txs received where
    "confirm_notes unhex received txs (filter (\<lambda>n. nr_run_id n = rid) (mdb_notes db)) = Inr (Some (c # cs))"
    by (auto simp: confirmed_prepared_denomination_notes_def split: option.splits)
  from confirm_notes_Some [OF this] trusted_identities_Some [OF rest(2)] rest c show ?thesis by auto
qed

lemma ready_update:
  assumes d: "distinct (map rr_run_id (mdb_runs db))" and r: "run_of db rid = Inr r"
    and w: "rr_phase r = PHASE_WAITING_DENOM_CONFIRMATIONS"
  shows "run_of (snd (sql_update_runs (\<lambda>r. rr_run_id r = rid \<and> rr_phase r = PHASE_WAITING_DENOM_CONFIRMATIONS)
       (ready_run h now) db)) rid = Inr (ready_run h now r)"
proof -
  have "rr_run_id r = rid" using run_of_iff [OF d] r by blast
  then show ?thesis
    using sql_update_runs_phase(1) [OF d r, of "\<lambda>r. rr_run_id r = rid \<and> rr_phase r = PHASE_WAITING_DENOM_CONFIRMATIONS"
        "ready_run h now"] w by (simp add: ready_run_def)
qed

text \<open>
  C9. The step of a run from waiting for its denominations to being ready to migrate. When a call on a
  waiting run reports no error, the stage table stays in order and the run is ready or still waiting. It
  is ready exactly when all that the call reads is there, with no stage recorded under another block;
  and then every stage of the run is confirmed with the identity of the block that holds it, at trusted
  depth, there is at least one prepared note and each has its nullifier, and the height for the
  first proof is the latest of the heights at which these notes, by the blocks that the wallet found them
  in, are ready to be proved.
\<close>

theorem ready_when_trusted:
  fixes trusted :: u32 and chain :: wallet_chain and unhex :: "string \<Rightarrow> byte list option"
  defines "identity \<equiv> local_denomination_chain_identity unhex chain"
    and "depth \<equiv> synced_orchard_confirmation_count trusted chain"
    and "required \<equiv> denomination_confirmations_required trusted"
  assumes keys: "keys_ok db" and ok: "db_ok (mdb_stages db)" and r: "run_of db rid = Inr r"
    and waiting: "rr_phase r = PHASE_WAITING_DENOM_CONFIRMATIONS"
    and run: "reconcile_denomination_confirmations trusted flavor unhex chain now db (active_run_of_row r) = (Inr (), db')"
  shows "db_ok (mdb_stages db') \<and>
     (if \<exists>c is h. readiness trusted flavor unhex chain db rid = Inr (Some (c, is, h))
           \<and> (\<forall>(t, i) \<in> set is. \<not> moved_elsewhere (view (mdb_stages db) (rid, t)) i)
      then stages_settled required identity depth (mdb_stages db') rid \<and> notes_settled db' rid
        \<and> (\<exists>network p h c. run_network flavor db rid = Inr network \<and> timing_policy_for_run_with_conn db rid = Inr p
             \<and> run_of db' rid = Inr (ready_run h now r)
             \<and> confirmed_prepared_denomination_notes unhex chain db rid = Inr (Some c)
             \<and> map confirmed_key c = map (\<lambda>n. (nr_txid_hex n, nr_output_index n)) (filter (\<lambda>n. nr_run_id n = rid) (mdb_notes db))
             \<and> (\<forall>(t, i, nf, m) \<in> set c. \<exists>k \<le> h. proof_ready_height_for_note_mined_height trusted network p m = Inr k)
             \<and> (\<exists>(t, i, nf, m) \<in> set c. proof_ready_height_for_note_mined_height trusted network p m = Inr h))
      else run_phase db' rid = Inr PHASE_WAITING_DENOM_CONFIRMATIONS)"
proof -
  have d: "distinct (map rr_run_id (mdb_runs db))" using keys by (simp add: keys_ok_def)
  have rid: "rr_run_id r = rid" using run_of_iff [OF d] r by blast
  have ar: "ar_run_id (active_run_of_row r) = rid" "ar_phase (active_run_of_row r) = PHASE_WAITING_DENOM_CONFIRMATIONS"
    using rid waiting by (simp_all add: active_run_of_row_def)
  show ?thesis
  proof (cases "\<exists>c is h. readiness trusted flavor unhex chain db rid = Inr (Some (c, is, h))")
    case False
    then have "db' = db"
      using run ar by (auto simp: reconcile_denomination_confirmations_def split: sum.splits option.splits)
    then show ?thesis using False ok r waiting by (auto simp: run_phase_def)
  next
    case True
    then obtain c "is" h where e: "readiness trusted flavor unhex chain db rid = Inr (Some (c, is, h))" by blast
    note ev = readiness_Some [OF e, folded identity_def depth_def required_def]
    obtain network p where np: "run_network flavor db rid = Inr network" "timing_policy_for_run_with_conn db rid = Inr p"
      "latest_proof_ready_height trusted network p c = Inr h" using ev by blast
    let ?db1 = "fold (set_nullifier rid) c db"
    note same = fold_set_nullifier(1-4) [of rid c db]
    obtain res s where s: "confirm_stages rid is (mdb_stages db) = (res, s)" by fastforce
    have txids: "map fst is = denomination_stage_expected_txids (mdb_stages db) rid" using ev by blast
    have "distinct (map fst is)" "\<forall>t \<in> set (map fst is). txid_normal t"
      unfolding txids using run_stages_view(2,3) [OF ok, of rid] by blast+
    then have "distinct (map fst is)" "\<forall>(t, i) \<in> set is. txid_normal t" by auto
    note cs = confirm_stages_result [OF ok this s]
    have eq: "(case res of Inl e \<Rightarrow> ((case e of DifferentInclusion t \<Rightarrow> Inr () | _ \<Rightarrow> Inl (RunStage e)), ?db1\<lparr>mdb_stages := s\<rparr>)
        | Inr _ \<Rightarrow> (Inr (), snd (sql_update_runs
             (\<lambda>r. rr_run_id r = rid \<and> rr_phase r = PHASE_WAITING_DENOM_CONFIRMATIONS)
             (ready_run h now) (?db1\<lparr>mdb_stages := s\<rparr>)))) = (Inr (), db')"
      using run ar by (cases res) (simp_all add: reconcile_denomination_confirmations_def e Let_def same s)
    have r1: "run_of (?db1\<lparr>mdb_stages := s\<rparr>) rid = Inr r" using r by (simp add: run_of_def same)
    show ?thesis
    proof (cases res)
      case (Inl er)
      then obtain u where u: "er = DifferentInclusion u" "db' = ?db1\<lparr>mdb_stages := s\<rparr>"
        using eq by (cases er) auto
      then have "\<exists>t i. (t, i) \<in> set is \<and> moved_elsewhere (view (mdb_stages db) (rid, t)) i"
        using cs(4) Inl by blast
      moreover have "run_phase db' rid = Inr PHASE_WAITING_DENOM_CONFIRMATIONS"
        using u r1 waiting by (simp add: run_phase_def)
      ultimately show ?thesis using cs(1) u e by auto
    next
      case (Inr x)
      then have db': "db' = snd (sql_update_runs (\<lambda>r. rr_run_id r = rid \<and> rr_phase r = PHASE_WAITING_DENOM_CONFIRMATIONS)
             (ready_run h now) (?db1\<lparr>mdb_stages := s\<rparr>))" using eq by simp
      have ok_all: "\<forall>(t, i) \<in> set is. confirmable (view (mdb_stages db) (rid, t)) i" using cs(2) Inr by simp
      have still: "\<forall>(t, i) \<in> set is. \<not> moved_elsewhere (view (mdb_stages db) (rid, t)) i"
        using ok_all by (auto simp: confirmable_def moved_elsewhere_def)
      have new: "run_of db' rid = Inr (ready_run h now r)"
        unfolding db' using d by (intro ready_update [OF _ r1 waiting]) (simp add: same)
      have stages: "stages_settled required identity depth (mdb_stages db') rid"
        unfolding stages_settled_def
      proof (intro allI impI)
        fix t k st assume st: "view (mdb_stages db') (rid, t) = Some (k, st)"
        then have vs: "view s (rid, t) = Some (k, st)" by (simp add: db')
        have v: "view s (rid, t) = (case map_of is t of
           Some i \<Rightarrow> map_option (\<lambda>(k, st). (k, confirmed_by i)) (view (mdb_stages db) (rid, t))
         | None \<Rightarrow> view (mdb_stages db) (rid, t))"
          using cs(3) Inr by (cases "map_of is t") simp_all
        then obtain k0 st0 where v0: "view (mdb_stages db) (rid, t) = Some (k0, st0)"
          using vs by (cases "view (mdb_stages db) (rid, t)") (auto split: option.splits)
        then have "t \<in> fst ` set is" using txids run_stages_view(1) [OF ok, of rid]
          by (metis (mono_tags, lifting) list.set_map mem_Collect_eq option.distinct(1))
        then obtain i where i: "map_of is t = Some i" by (metis map_of_eq_None_iff not_None_eq)
        then have "st = confirmed_by i" using v vs v0 by simp
        moreover have "(t, i) \<in> set is" using i by (rule map_of_SomeD)
        ultimately show "\<exists>i d. identity t = Inr (Some i) \<and> st = confirmed_by i
           \<and> depth (ci_mined_height i) = Inr d \<and> required \<le> d" using ev by blast
      qed
      have keys': "(nr_txid_hex n, nr_output_index n) \<in> confirmed_key ` set c"
        if "n \<in> set (mdb_notes db)" "nr_run_id n = rid" for n
      proof -
        have "n \<in> set (filter (\<lambda>n. nr_run_id n = rid) (mdb_notes db))" using that by simp
        then have "(nr_txid_hex n, nr_output_index n) \<in>
            set (map (\<lambda>n. (nr_txid_hex n, nr_output_index n)) (filter (\<lambda>n. nr_run_id n = rid) (mdb_notes db)))"
          by (simp only: set_map image_eqI)
        then have "(nr_txid_hex n, nr_output_index n) \<in> set (map confirmed_key c)" using ev by metis
        then show ?thesis by simp
      qed
      have noted: "notes_settled db' rid"
      proof -
        have nn: "mdb_notes db' = mdb_notes ?db1" by (simp add: db')
        have "\<forall>n' \<in> set (mdb_notes ?db1). nr_run_id n' = rid \<longrightarrow> nr_nullifier_hex n' \<noteq> None"
          using fold_set_nullifier(6) [of _ rid c db] keys' by metis
        moreover have "\<exists>n \<in> set (mdb_notes ?db1). nr_run_id n = rid"
        proof -
          have "filter (\<lambda>n. nr_run_id n = rid) (mdb_notes db) \<noteq> []"
            using ev by (metis (no_types, lifting) list.map_disc_iff)
          then have "rid \<in> set (map nr_run_id (mdb_notes db))" by (force simp: filter_empty_conv)
          then have "rid \<in> set (map nr_run_id (mdb_notes ?db1))" by (simp only: fold_set_nullifier(5))
          then show ?thesis by auto
        qed
        ultimately show ?thesis unfolding notes_settled_def nn by blast
      qed
      have "mdb_stages db' = s" by (simp add: db')
      have below: "\<forall>(t, i, nf, m) \<in> set c. \<exists>k \<le> h. proof_ready_height_for_note_mined_height trusted network p m = Inr k"
        using latest_proof_ready [OF np(3)] by fastforce
      have latest: "\<exists>(t, i, nf, m) \<in> set c. proof_ready_height_for_note_mined_height trusted network p m = Inr h"
        using latest_proof_ready [OF np(3)] ev by fastforce
      have made: "confirmed_prepared_denomination_notes unhex chain db rid = Inr (Some c)"
        and keyed: "map confirmed_key c = map (\<lambda>n. (nr_txid_hex n, nr_output_index n)) (filter (\<lambda>n. nr_run_id n = rid) (mdb_notes db))"
        using ev by blast+
      have settled: "\<exists>c is h. readiness trusted flavor unhex chain db rid = Inr (Some (c, is, h))
           \<and> (\<forall>(t, i) \<in> set is. \<not> moved_elsewhere (view (mdb_stages db) (rid, t)) i)"
        using e still by blast
      have stage_table: "db_ok (mdb_stages db')" using cs(1) \<open>mdb_stages db' = s\<close> by simp
      show ?thesis unfolding if_P [OF settled]
        by (rule conjI exI stage_table stages noted np(1,2) new made keyed below latest)+
    qed
  qed
qed

text \<open>A run with one prepared note, mined in block 100, and no stages: its denominations were made by one call.\<close>

definition example_note :: note_row where
  "example_note = \<lparr>nr_run_id = ''run'', nr_txid_hex = ''t'', nr_output_index = 0, nr_value_zatoshi = 100015000,
     nr_note_version = 2, nr_nullifier_hex = None, nr_lock_state = ''locked''\<rparr>"

definition example_received :: received_note where
  "example_received = \<lparr>rn_transaction_id = 1, rn_action_index = 0, rn_value = 100015000, rn_note_version = 2,
     rn_nf = Some [18], rn_commitment_tree_position = Some 7\<rparr>"

definition example_denominating_db :: migration_db where
  "example_denominating_db = example_waiting_db
     \<lparr>mdb_runs := [example_waiting_run\<lparr>rr_phase := PHASE_WAITING_DENOM_CONFIRMATIONS\<rparr>],
      mdb_notes := [example_note], mdb_pending := []\<rparr>"

definition example_received_wallet :: wallet_chain where
  "example_received_wallet = example_wallet\<lparr>wc_orchard_received_notes := Some [example_received]\<rparr>"

theorem ready_when_trusted_witness:
  "\<exists>db' h. reconcile_denomination_confirmations 3 example_flavor example_unhex example_received_wallet 9
       example_denominating_db (active_run_of_row (example_waiting_run\<lparr>rr_phase := PHASE_WAITING_DENOM_CONFIRMATIONS\<rparr>))
       = (Inr (), db')
     \<and> run_of db' ''run'' = Inr (ready_run h 9 (example_waiting_run\<lparr>rr_phase := PHASE_WAITING_DENOM_CONFIRMATIONS\<rparr>))
     \<and> notes_settled db' ''run''"
proof -
  let ?db = example_denominating_db and ?w = example_received_wallet
  let ?r = "example_waiting_run\<lparr>rr_phase := PHASE_WAITING_DENOM_CONFIRMATIONS\<rparr>"
  have keys: "keys_ok ?db" by (simp add: keys_ok_def example_denominating_db_def)
  have ok: "db_ok (mdb_stages ?db)"
    using empty_db_ok by (simp add: example_denominating_db_def example_waiting_db_def empty_db_def)
  have run: "run_of ?db ''run'' = Inr ?r"
    by (simp add: run_of_def example_denominating_db_def example_waiting_run_def)
  have nf: "confirmed_prepared_denomination_notes example_unhex ?w ?db ''run'' = Inr (Some [(''t'', 0, ''12'', 100)])"
    by (simp add: confirmed_prepared_denomination_notes_def example_received_wallet_def example_wallet_def
        example_denominating_db_def example_note_def txid_blob_variants_def example_unhex_def
        example_txid_bytes_def spendable_notes_def example_received_def lower_hex_def hex_digit_def
        char_of_def bit_0)
  have depth: "synced_orchard_confirmation_count 3 ?w 100 = Inr 3"
    by (simp add: synced_orchard_confirmation_count_def example_received_wallet_def example_wallet_def
        scanned_range_def denomination_confirmations_required_def saturating_add_def checked_sub_def)
  have required: "denomination_confirmations_required 3 = 3" by (simp add: denomination_confirmations_required_def)
  have no_stages: "denomination_stage_expected_txids (mdb_stages ?db) ''run'' = []"
    by (simp add: denomination_stage_expected_txids_def run_stages_def example_denominating_db_def example_waiting_db_def)
  have names: "network_from_str example_flavor ''test'' = Some Test" "timing_policy_from_str ''standard'' = Inr Standard"
    by (simp_all add: network_from_str_def timing_policy_from_str_def)
  have "\<exists>h. proof_ready_height_for_note_mined_height 3 Test Standard 100 = Inr h"
    by (simp add: proof_ready_height_for_note_mined_height_def anchor_boundary_containing_note_with_policy_def
        Let_def const_defs checked_add_def confirmation_lag_def saturating_sub_def)
  then obtain h where "proof_ready_height_for_note_mined_height 3 Test Standard 100 = Inr h" by blast
  then have "\<exists>h. readiness 3 example_flavor example_unhex ?w ?db ''run'' = Inr (Some ([(''t'', 0, ''12'', 100)], [], h))"
    by (simp add: readiness_def nf depth required no_stages run_network_def timing_policy_for_run_with_conn_def run
        example_waiting_run_def names latest_proof_ready_height_def map_error_def Let_def)
  then obtain h where h: "readiness 3 example_flavor example_unhex ?w ?db ''run'' =
      Inr (Some ([(''t'', 0, ''12'', 100)], [], h))" by blast
  have "\<exists>db'. reconcile_denomination_confirmations 3 example_flavor example_unhex ?w 9 ?db (active_run_of_row ?r) = (Inr (), db')"
    by (simp add: reconcile_denomination_confirmations_def active_run_of_row_def example_waiting_run_def Let_def
        h [unfolded example_waiting_run_def])
  then obtain db' where db': "reconcile_denomination_confirmations 3 example_flavor example_unhex ?w 9 ?db
      (active_run_of_row ?r) = (Inr (), db')" by blast
  have waiting: "rr_phase ?r = PHASE_WAITING_DENOM_CONFIRMATIONS" by simp
  have "\<exists>c is h. readiness 3 example_flavor example_unhex ?w ?db ''run'' = Inr (Some (c, is, h))
           \<and> (\<forall>(t, i) \<in> set is. \<not> moved_elsewhere (view (mdb_stages ?db) (''run'', t)) i)"
    using h by auto
  then show ?thesis using ready_when_trusted [OF keys ok run waiting db'] db' by auto
qed

end
