(* ===== verification/Pending_Parts.thy ===== *)
theory Pending_Parts
  imports Run_Confirmations
begin

text \<open>
  The migration parts of a run on their way to the chain (\<open>migration.rs\<close>): the signed child
  transactions that wait for their proof, the one rebase of their schedule, and the pending
  transactions that they become. Every operation here is one database transaction that its caller
  rolls back on an error, so an error carries no tables. Encryption, its nonces \<open>'n\<close> and the base64
  decoding of the salt are the parameter \<open>payload_cipher\<close> of the stage store; the generator of a
  missing schedule is the sampler.
\<close>

section \<open>Data\<close>

record part_insert =
  pi_part_index :: u32
  pi_txid_hex :: string
  pi_raw_tx :: "byte list"
  pi_target_height :: u32
  pi_anchor_boundary_height :: "u32 option"
  pi_expiry_height :: u32
  pi_scheduled_height :: u32
  pi_value_zatoshi :: u64
  pi_fee_zatoshi :: u64
  pi_selected_note :: orchard_note_ref
  pi_metadata :: tx_metadata

record child_insert =
  ci_message_id :: string
  ci_child_index :: u32
  ci_base_pczt :: "byte list"
  ci_sigs :: "spend_auth_signature list"
  ci_target_height :: u32
  ci_anchor_boundary_height :: "u32 option"
  ci_expiry_height :: u32
  ci_scheduled_height :: u32
  ci_value_zatoshi :: u64
  ci_fee_zatoshi :: u64
  ci_selected_note :: orchard_note_ref
  ci_metadata :: tx_metadata

datatype signed_child_insert_mode = Initial | Replacement

datatype part_error =
  PartRun run_error | PartSchedule schedule_error | PartHeight height_error | PartSigs compact_sig_error
| PartIndexRepeated | PartNotInSchedule | LegacyHeightOverflow | ScheduleBelowZero | OriginImmutable
| OriginsDiffer | PartExpiryNotCanonical string | PartSaltInvalid | PartEncryptFailed | PartDecryptFailed
| PartTimeOverflow | PartRowTaken string | ChildExpiryNotCanonical string | ChildNotInSchedule
| RecoveryOriginMissing | NoSignedChildren | NotReadyForSignatures | ChildHeightMissing | ChildRowMissing
| TargetCountOverflow | RebaseNotOne | BatchesIncomplete

section \<open>Inserting pending transactions\<close>

definition schedule_entry_for_pending ::
    "schedule_entry list \<Rightarrow> u64 list \<Rightarrow> part_insert \<Rightarrow> schedule_entry option" where
  "schedule_entry_for_pending schedule target_values pending =
     (if list_all (\<lambda>e. se_part_index e \<noteq> None) schedule
      then find (\<lambda>e. se_part_index e = Some (pi_part_index pending)
                   \<and> se_value_zatoshi e = pi_value_zatoshi pending) schedule
      else if slice_get target_values (pi_part_index pending) \<noteq> Some (pi_value_zatoshi pending)
      then None
      else slice_get (filter (\<lambda>e. se_value_zatoshi e = pi_value_zatoshi pending) schedule)
             (length (filter (\<lambda>v. v = pi_value_zatoshi pending)
                       (take (pi_part_index pending) target_values))))"

text \<open>
  The height of a row from before the schedule was persisted: the marker is a scheduled height equal to
  the target height.
\<close>

definition recover_legacy_height :: "part_insert \<Rightarrow> u32 \<Rightarrow> part_error + part_insert" where
  "recover_legacy_height pending block_offset =
     (if pi_scheduled_height pending \<noteq> pi_target_height pending then Inr pending
      else
        rbind (map_error PartHeight (zip318_canonical_migration_expiry_height (pi_target_height pending)))
          (\<lambda>expiry.
        if pi_expiry_height pending \<noteq> expiry then Inr pending
        else
          rbind (ok_or LegacyHeightOverflow
              (checked_add 32 (saturating_sub (pi_target_height pending) 1) block_offset)) (\<lambda>legacy.
          rbind (map_error PartHeight (zip318_canonical_migration_expiry_height legacy)) (\<lambda>legacy_expiry.
          Inr (if pi_expiry_height pending = legacy_expiry
               then pending\<lparr>pi_scheduled_height := legacy\<rparr> else pending)))))"

definition retained_replacement :: "migration_db \<Rightarrow> string \<Rightarrow> part_insert \<Rightarrow> bool" where
  "retained_replacement db run_id pending \<longleftrightarrow>
     list_ex (\<lambda>c. sc_run_id c = run_id \<and> sc_child_index c = pi_part_index pending
        \<and> sc_scheduled_height c = Some (pi_scheduled_height pending)
        \<and> sc_expiry_height c = pi_expiry_height pending
        \<and> sc_value_zatoshi c = pi_value_zatoshi pending) (mdb_children db)"

text \<open>One absolute origin: the persisted one, or the one that the first part of the call brings.\<close>

definition accept_origin ::
    "migration_db \<Rightarrow> string \<Rightarrow> u32 option \<Rightarrow> u32 option \<Rightarrow> part_insert \<Rightarrow> u32 \<Rightarrow> part_error + u32 option" where
  "accept_origin db run_id persisted incoming pending schedule_origin =
     (case persisted of
        Some origin \<Rightarrow>
          if schedule_origin \<noteq> origin \<and> \<not> retained_replacement db run_id pending
          then Inl OriginImmutable else Inr incoming
      | None \<Rightarrow>
          (case incoming of
             Some origin \<Rightarrow> if schedule_origin \<noteq> origin then Inl OriginsDiffer else Inr incoming
           | None \<Rightarrow> Inr (Some schedule_origin)))"

fun check_parts ::
    "migration_db \<Rightarrow> string \<Rightarrow> schedule_entry list \<Rightarrow> u64 list \<Rightarrow> u32 option \<Rightarrow> u32 set \<Rightarrow> u32 option \<Rightarrow>
     part_insert list \<Rightarrow> part_error + u32 option \<times> (part_insert \<times> u32 \<times> u32) list" where
  "check_parts db run_id schedule target_values persisted seen incoming [] = Inr (incoming, [])"
| "check_parts db run_id schedule target_values persisted seen incoming (p # ps) =
     (if pi_part_index p \<in> seen then Inl PartIndexRepeated
      else
        rbind (ok_or PartNotInSchedule (schedule_entry_for_pending schedule target_values p)) (\<lambda>entry.
        rbind (recover_legacy_height p (se_block_offset entry)) (\<lambda>pending.
        rbind (ok_or ScheduleBelowZero (checked_sub (pi_scheduled_height pending) (se_block_offset entry)))
          (\<lambda>schedule_origin.
        rbind (accept_origin db run_id persisted incoming pending schedule_origin) (\<lambda>incoming'.
        rbind (map_error PartHeight (zip318_canonical_migration_expiry_height (pi_scheduled_height pending)))
          (\<lambda>canonical_expiry.
        if pi_expiry_height pending \<noteq> canonical_expiry then Inl (PartExpiryNotCanonical (pi_txid_hex pending))
        else
          rbind (check_parts db run_id schedule target_values persisted (insert (pi_part_index p) seen) incoming' ps)
            (\<lambda>(incoming'', rows). Inr (incoming'', (pending, se_block_offset entry, schedule_origin) # rows))))))))"

definition pending_row_of ::
    "string \<Rightarrow> string \<Rightarrow> int \<Rightarrow> u32 \<Rightarrow> part_insert \<Rightarrow> pending_row" where
  "pending_row_of run_id encrypted_raw_tx scheduled_at_ms schedule_origin p =
     \<lparr>pt_run_id = run_id, pt_txid_hex = pi_txid_hex p, pt_part_index = Some (pi_part_index p),
      pt_encrypted_raw_tx = encrypted_raw_tx, pt_target_height = pi_target_height p,
      pt_anchor_boundary_height = pi_anchor_boundary_height p, pt_expiry_height = pi_expiry_height p,
      pt_value_zatoshi = pi_value_zatoshi p, pt_fee_zatoshi = pi_fee_zatoshi p,
      pt_selected_note_txid = on_txid_hex (pi_selected_note p),
      pt_selected_note_output_index = on_output_index (pi_selected_note p),
      pt_selected_note_value = on_value_zatoshi (pi_selected_note p),
      pt_scheduled_at_ms = scheduled_at_ms, pt_schedule_start_height = Some schedule_origin,
      pt_scheduled_height = pi_scheduled_height p,
      pt_original_scheduled_height = Some (pi_scheduled_height p), pt_broadcast_attempted = 0,
      pt_status = ''scheduled'', pt_metadata = pi_metadata p, pt_rebuild_block_offset = None\<rparr>"

text \<open>The primary key of the table and its unique index on the run and the part.\<close>

definition insert_pending_row :: "pending_row \<Rightarrow> migration_db \<Rightarrow> part_error + migration_db" where
  "insert_pending_row p db =
     (if list_ex (\<lambda>q. pt_txid_hex q = pt_txid_hex p
            \<or> (pt_run_id q = pt_run_id p \<and> pt_part_index q = pt_part_index p \<and> pt_part_index p \<noteq> None))
          (mdb_pending db)
      then Inl (PartRowTaken (pt_txid_hex p))
      else Inr (db\<lparr>mdb_pending := mdb_pending db @ [p]\<rparr>))"

definition add_ms :: "int \<Rightarrow> u32 \<Rightarrow> int option" where
  "add_ms start block_offset =
     (let t = start + int block_offset * 1000 in if t < 2 ^ 63 then Some t else None)"

fun insert_part_rows ::
    "'n payload_cipher \<Rightarrow> byte list \<Rightarrow> byte list \<Rightarrow> int \<Rightarrow> string \<Rightarrow> (part_insert \<times> u32 \<times> u32) list \<Rightarrow>
     migration_db \<times> 'n \<Rightarrow> part_error + migration_db \<times> 'n" where
  "insert_part_rows cipher password salt start_ms run_id [] (db, n) = Inr (db, n)"
| "insert_part_rows cipher password salt start_ms run_id ((p, block_offset, schedule_origin) # ps) (db, n) =
     rbind (ok_or PartEncryptFailed (encrypt_payload cipher (pi_raw_tx p) password salt n))
       (\<lambda>(encrypted_raw_tx, n').
     rbind (ok_or PartTimeOverflow (add_ms start_ms block_offset)) (\<lambda>scheduled_at_ms.
     rbind (insert_pending_row (pending_row_of run_id encrypted_raw_tx scheduled_at_ms schedule_origin p) db)
       (\<lambda>db'. insert_part_rows cipher password salt start_ms run_id ps (db', n'))))"

text \<open>The schedule of the run, drawn and saved when it has none.\<close>

definition set_run_schedule :: "string \<Rightarrow> schedule_entry list \<Rightarrow> migration_db \<Rightarrow> migration_db" where
  "set_run_schedule run_id schedule db =
     snd (sql_update_runs (\<lambda>r. rr_run_id r = run_id) (\<lambda>r. r\<lparr>rr_schedule := schedule\<rparr>) db)"

definition ensure_run_schedule ::
    "'g sampler \<Rightarrow> wallet_network \<Rightarrow> migration_timing_policy \<Rightarrow> string \<Rightarrow> run_row \<Rightarrow> migration_db \<Rightarrow> 'g \<Rightarrow>
     (schedule_entry list \<times> migration_db \<times> 'g) option" where
  "ensure_run_schedule env network timing_policy run_id r db g =
     (if rr_schedule r = []
      then map_option (\<lambda>(schedule, g'). (schedule, set_run_schedule run_id schedule db, g'))
             (planned_transfer_schedule_with_policy env (rr_target_values r) network timing_policy g)
      else Some (rr_schedule r, db, g))"

definition set_schedule_origin :: "string \<Rightarrow> u32 option \<Rightarrow> migration_db \<Rightarrow> migration_db" where
  "set_schedule_origin run_id incoming db =
     (case incoming of
        None \<Rightarrow> db
      | Some origin \<Rightarrow>
          snd (sql_update_runs
            (\<lambda>r. rr_run_id r = run_id \<and> rr_signed_schedule_origin_height r = None)
            (\<lambda>r. r\<lparr>rr_signed_schedule_origin_height := Some origin\<rparr>) db))"

definition mark_scheduled :: "string \<Rightarrow> int \<Rightarrow> migration_db \<Rightarrow> migration_db" where
  "mark_scheduled run_id now db =
     snd (sql_update_runs (\<lambda>r. rr_run_id r = run_id) (move_run PHASE_BROADCAST_SCHEDULED now None) db)"

definition insert_pending_txs_with_tx ::
    "'g sampler \<Rightarrow> build_flavor \<Rightarrow> 'n payload_cipher \<Rightarrow> byte list \<Rightarrow> string \<Rightarrow> int \<Rightarrow> int \<Rightarrow> migration_db \<Rightarrow>
     string \<Rightarrow> part_insert list \<Rightarrow> 'n \<Rightarrow> 'g \<Rightarrow> (part_error + migration_db \<times> 'n \<times> 'g) option" where
  "insert_pending_txs_with_tx env flavor cipher password salt_base64 start_ms now db run_id parts n g =
     (case map_error PartRun
          (rbind (run_of db run_id) (\<lambda>r.
           rbind (run_network flavor db run_id) (\<lambda>network.
           rbind (timing_policy_for_run_with_conn db run_id) (\<lambda>timing_policy.
           Inr (r, network, timing_policy))))) of
        Inl e \<Rightarrow> Some (Inl e)
      | Inr (r, network, timing_policy) \<Rightarrow>
          map_option (\<lambda>(schedule, db1, g').
            rbind (map_error PartSchedule
                (validate_schedule_with_policy schedule (rr_target_values r) network timing_policy)) (\<lambda>_.
            rbind (check_parts db1 run_id schedule (rr_target_values r)
                (rr_signed_schedule_origin_height r) {} None parts) (\<lambda>(incoming, rows).
            rbind (ok_or PartSaltInvalid (decode_salt cipher salt_base64)) (\<lambda>salt.
            rbind (insert_part_rows cipher password salt start_ms run_id rows
                (if rr_signed_schedule_origin_height r = None
                 then set_schedule_origin run_id incoming db1 else db1, n)) (\<lambda>(db2, n').
            Inr (mark_scheduled run_id now db2, n', g'))))))
            (ensure_run_schedule env network timing_policy run_id r db g))"

definition insert_pending_txs ::
    "'g sampler \<Rightarrow> build_flavor \<Rightarrow> 'n payload_cipher \<Rightarrow> byte list \<Rightarrow> string \<Rightarrow> int \<Rightarrow> int \<Rightarrow> migration_db \<Rightarrow>
     string \<Rightarrow> part_insert list \<Rightarrow> 'n \<Rightarrow> 'g \<Rightarrow> (part_error + migration_db \<times> 'n \<times> 'g) option" where
  "insert_pending_txs env flavor cipher password salt_base64 start_ms now db run_id parts n g =
     (if parts = [] then Some (Inr (db, n, g))
      else insert_pending_txs_with_tx env flavor cipher password salt_base64 start_ms now db run_id parts n g)"

section \<open>Signed children\<close>

definition child_origin ::
    "signed_child_insert_mode \<Rightarrow> schedule_entry list \<Rightarrow> u64 list \<Rightarrow> u32 option \<Rightarrow> child_insert \<Rightarrow>
     part_error + u32 option" where
  "child_origin mode schedule target_values signed_schedule_origin child =
     (if schedule = [] then Inr signed_schedule_origin
      else
        rbind (ok_or ChildNotInSchedule
            (schedule_block_offset_for_part schedule target_values (ci_child_index child)
               (ci_value_zatoshi child))) (\<lambda>block_offset.
        if mode \<noteq> Initial then Inr signed_schedule_origin
        else
          rbind (ok_or ScheduleBelowZero (checked_sub (ci_scheduled_height child) block_offset)) (\<lambda>origin.
          case signed_schedule_origin of
            Some existing \<Rightarrow> if existing \<noteq> origin then Inl OriginsDiffer else Inr signed_schedule_origin
          | None \<Rightarrow> Inr (Some origin))))"

definition check_recovery_origin ::
    "signed_child_insert_mode \<Rightarrow> u32 option \<Rightarrow> child_insert \<Rightarrow> part_error + unit" where
  "check_recovery_origin mode recovery_origin child =
     (if mode \<noteq> Replacement then Inr ()
      else
        rbind (ok_or RecoveryOriginMissing recovery_origin) (\<lambda>origin.
        rbind (ok_or ScheduleBelowZero (checked_sub (ci_scheduled_height child) origin)) (\<lambda>_. Inr ())))"

text \<open>\<open>INSERT OR REPLACE\<close> on the primary key of the run and the message.\<close>

definition replace_child_row :: "child_row \<Rightarrow> migration_db \<Rightarrow> migration_db" where
  "replace_child_row c db =
     db\<lparr>mdb_children :=
       filter (\<lambda>d. \<not> (sc_run_id d = sc_run_id c \<and> sc_message_id d = sc_message_id c)) (mdb_children db) @ [c]\<rparr>"

definition child_row_of :: "string \<Rightarrow> string \<Rightarrow> string \<Rightarrow> child_insert \<Rightarrow> child_row" where
  "child_row_of run_id encrypted_base_pczt encrypted_compact_sigs c =
     \<lparr>sc_run_id = run_id, sc_message_id = ci_message_id c, sc_child_index = ci_child_index c,
      sc_encrypted_base_pczt = encrypted_base_pczt, sc_encrypted_compact_sigs = encrypted_compact_sigs,
      sc_target_height = ci_target_height c, sc_anchor_boundary_height = ci_anchor_boundary_height c,
      sc_expiry_height = ci_expiry_height c, sc_scheduled_height = Some (ci_scheduled_height c),
      sc_value_zatoshi = ci_value_zatoshi c, sc_fee_zatoshi = ci_fee_zatoshi c,
      sc_selected_note = ci_selected_note c, sc_metadata = ci_metadata c\<rparr>"

fun insert_children ::
    "'n payload_cipher \<Rightarrow> byte list \<Rightarrow> byte list \<Rightarrow> string \<Rightarrow> signed_child_insert_mode \<Rightarrow> schedule_entry list \<Rightarrow>
     u64 list \<Rightarrow> u32 option \<Rightarrow> child_insert list \<Rightarrow> u32 option \<times> migration_db \<times> 'n \<Rightarrow>
     part_error + u32 option \<times> migration_db \<times> 'n" where
  "insert_children cipher password salt run_id mode schedule target_values recovery_origin [] state = Inr state"
| "insert_children cipher password salt run_id mode schedule target_values recovery_origin (c # cs)
     (signed_schedule_origin, db, n) =
     rbind (map_error PartHeight (zip318_canonical_migration_expiry_height (ci_scheduled_height c)))
       (\<lambda>canonical_expiry.
     if ci_expiry_height c \<noteq> canonical_expiry then Inl (ChildExpiryNotCanonical (ci_message_id c))
     else
       rbind (child_origin mode schedule target_values signed_schedule_origin c) (\<lambda>origin.
       rbind (check_recovery_origin mode recovery_origin c) (\<lambda>_.
       rbind (ok_or PartEncryptFailed (encrypt_payload cipher (ci_base_pczt c) password salt n))
         (\<lambda>(encrypted_base_pczt, n1).
       rbind (map_error PartSigs (encode_compact_action_sigs (ci_sigs c))) (\<lambda>sigs.
       rbind (ok_or PartEncryptFailed (encrypt_payload cipher sigs password salt n1))
         (\<lambda>(encrypted_compact_sigs, n2).
       insert_children cipher password salt run_id mode schedule target_values recovery_origin cs
         (origin, replace_child_row (child_row_of run_id encrypted_base_pczt encrypted_compact_sigs c) db, n2)))))))"

definition insert_signed_child_pczts_with_tx ::
    "'n payload_cipher \<Rightarrow> byte list \<Rightarrow> string \<Rightarrow> migration_db \<Rightarrow> string \<Rightarrow> child_insert list \<Rightarrow>
     signed_child_insert_mode \<Rightarrow> 'n \<Rightarrow> part_error + migration_db \<times> 'n" where
  "insert_signed_child_pczts_with_tx cipher password salt_base64 db run_id signed_children mode n =
     (if signed_children = [] then Inr (db, n)
      else
        rbind (map_error PartRun (run_of db run_id)) (\<lambda>r.
        rbind (ok_or PartSaltInvalid (decode_salt cipher salt_base64)) (\<lambda>salt.
        rbind (insert_children cipher password salt run_id mode (rr_schedule r) (rr_target_values r)
            (rr_recovery_schedule_origin_height r) signed_children
            ((case mode of Initial \<Rightarrow> rr_signed_schedule_origin_height r | Replacement \<Rightarrow> None), db, n))
          (\<lambda>(signed_schedule_origin, db', n').
        Inr (if mode = Initial \<and> rr_signed_schedule_origin_height r = None
             then set_schedule_origin run_id signed_schedule_origin db' else db', n')))))"

definition persist_signed_child_pczts_for_run ::
    "'n payload_cipher \<Rightarrow> byte list \<Rightarrow> string \<Rightarrow> int \<Rightarrow> migration_db \<Rightarrow> string \<Rightarrow> child_insert list \<Rightarrow> 'n \<Rightarrow>
     part_error + migration_db \<times> 'n" where
  "persist_signed_child_pczts_for_run cipher password salt_base64 now db run_id signed_children n =
     (if signed_children = [] then Inl NoSignedChildren
      else
        rbind (insert_signed_child_pczts_with_tx cipher password salt_base64 db run_id signed_children Initial n)
          (\<lambda>(db1, n').
        case sql_update_runs (\<lambda>r. rr_run_id r = run_id \<and> rr_phase r = PHASE_READY_TO_MIGRATE)
               (\<lambda>r. r\<lparr>rr_updated_at_ms := now, rr_last_error := None\<rparr>) db1 of
          (updated, db2) \<Rightarrow> if updated \<noteq> 1 then Inl NotReadyForSignatures else Inr (db2, n')))"

section \<open>The one rebase of the signed schedule\<close>

datatype rebase_outcome = RebaseFrozen | RebaseSkipped | RebaseUpdates "(string \<times> u32) list"

definition mark_initial_schedule_rebased_with_tx :: "string \<Rightarrow> u32 \<Rightarrow> int \<Rightarrow> migration_db \<Rightarrow> migration_db" where
  "mark_initial_schedule_rebased_with_tx run_id old_origin now db =
     snd (sql_update_runs
       (\<lambda>r. rr_run_id r = run_id \<and> rr_initial_schedule_rebased_origin_height r = None)
       (\<lambda>r. r\<lparr>rr_initial_schedule_rebased_origin_height := Some old_origin, rr_updated_at_ms := now\<rparr>) db)"

text \<open>A child of the run as the query reads it: message, part, value, scheduled height, expiry height.\<close>

definition rebase_children :: "migration_db \<Rightarrow> string \<Rightarrow> part_error + (string \<times> u32 \<times> u64 \<times> u32 \<times> u32) list" where
  "rebase_children db run_id =
     collect_results (\<lambda>c. rbind (ok_or ChildHeightMissing (sc_scheduled_height c)) (\<lambda>height.
         Inr (sc_message_id c, sc_child_index c, sc_value_zatoshi c, height, sc_expiry_height c)))
       (sort_key (\<lambda>c. (sc_child_index c, sc_message_id c))
         (filter (\<lambda>c. sc_run_id c = run_id) (mdb_children db)))"

fun rebase_updates ::
    "schedule_entry list \<Rightarrow> u64 list \<Rightarrow> u32 \<Rightarrow> u32 \<Rightarrow> (string \<times> u32 \<times> u64 \<times> u32 \<times> u32) list \<Rightarrow>
     part_error + rebase_outcome" where
  "rebase_updates schedule target_values signed_schedule_origin new_origin [] = Inr (RebaseUpdates [])"
| "rebase_updates schedule target_values signed_schedule_origin new_origin
     ((message_id, child_index, value_zatoshi, scheduled_height, expiry_height) # rest) =
     (case schedule_block_offset_for_part schedule target_values child_index value_zatoshi of
        None \<Rightarrow> Inr RebaseFrozen
      | Some block_offset \<Rightarrow>
          (case checked_sub scheduled_height block_offset of
             None \<Rightarrow> Inr RebaseFrozen
           | Some expected_origin \<Rightarrow>
               if expected_origin \<noteq> signed_schedule_origin then Inr RebaseFrozen
               else
                 (case checked_add 32 new_origin block_offset of
                    None \<Rightarrow> Inr RebaseFrozen
                  | Some new_scheduled_height \<Rightarrow>
                      rbind (map_error PartHeight
                          (zip318_canonical_migration_expiry_height new_scheduled_height)) (\<lambda>new_expiry.
                      if new_expiry \<noteq> expiry_height then Inr RebaseSkipped
                      else
                        rbind (rebase_updates schedule target_values signed_schedule_origin new_origin rest)
                          (\<lambda>u. Inr (case u of
                             RebaseUpdates us \<Rightarrow> RebaseUpdates ((message_id, new_scheduled_height) # us)
                           | _ \<Rightarrow> u))))))"

definition set_child_height :: "string \<Rightarrow> string \<times> u32 \<Rightarrow> migration_db \<Rightarrow> part_error + migration_db" where
  "set_child_height run_id u db =
     (let hit = (\<lambda>c. sc_run_id c = run_id \<and> sc_message_id c = fst u) in
      if length (filter hit (mdb_children db)) \<noteq> 1 then Inl RebaseNotOne
      else Inr (db\<lparr>mdb_children :=
        map (\<lambda>c. if hit c then c\<lparr>sc_scheduled_height := Some (snd u)\<rparr> else c) (mdb_children db)\<rparr>))"

definition rebase_run :: "u32 \<Rightarrow> int \<Rightarrow> run_row \<Rightarrow> run_row" where
  "rebase_run new_origin now r =
     r\<lparr>rr_signed_schedule_origin_height := Some new_origin,
       rr_initial_schedule_rebased_origin_height := Some new_origin, rr_updated_at_ms := now\<rparr>"

definition rebase_ready :: "migration_db \<Rightarrow> string \<Rightarrow> u32 \<Rightarrow> run_row \<Rightarrow> part_error + u32 option" where
  "rebase_ready db run_id current_scanned_height r =
     (case (rr_initial_schedule_rebased_origin_height r, rr_proof_retry_height r,
            rr_signed_schedule_origin_height r) of
        (None, Some proof_retry_height, Some signed_schedule_origin) \<Rightarrow>
          if current_scanned_height < proof_retry_height then Inr None
          else
            rbind (map_error PartRun (count_for_run (length (pending_rows db run_id)))) (\<lambda>pending_count.
            Inr (if pending_count > 0 \<or> rr_schedule r = [] then None else Some signed_schedule_origin))
      | _ \<Rightarrow> Inr None)"

definition rebase_initial_signed_schedule_for_anchor_readiness_with_tx ::
    "int \<Rightarrow> migration_db \<Rightarrow> string \<Rightarrow> u32 \<Rightarrow> part_error + bool \<times> migration_db" where
  "rebase_initial_signed_schedule_for_anchor_readiness_with_tx now db run_id current_scanned_height =
     rbind (map_error PartRun (run_of db run_id)) (\<lambda>r.
     rbind (rebase_ready db run_id current_scanned_height r) (\<lambda>ready.
     case ready of
       None \<Rightarrow> Inr (False, db)
     | Some signed_schedule_origin \<Rightarrow>
         rbind (rebase_children db run_id) (\<lambda>children.
         if children = [] then Inr (False, db)
         else
           rbind (try_u32 TargetCountOverflow (length (rr_target_values r))) (\<lambda>planned_part_count.
           if set (map (\<lambda>(m, i, v, h, e). i) children) \<noteq> {0 ..< planned_part_count} then Inr (False, db)
           else
             (let new_origin = max signed_schedule_origin current_scanned_height;
                  frozen = mark_initial_schedule_rebased_with_tx run_id signed_schedule_origin now db in
              if new_origin = signed_schedule_origin then Inr (False, frozen)
              else
                rbind (rebase_updates (rr_schedule r) (rr_target_values r) signed_schedule_origin new_origin children)
                  (\<lambda>outcome.
                case outcome of
                  RebaseFrozen \<Rightarrow> Inr (False, frozen)
                | RebaseSkipped \<Rightarrow> Inr (False, db)
                | RebaseUpdates updates \<Rightarrow>
                    rbind (try_fold (\<lambda>d u. set_child_height run_id u d) db updates) (\<lambda>db1.
                    Inr (True, snd (sql_update_runs
                      (\<lambda>r. rr_run_id r = run_id \<and> rr_initial_schedule_rebased_origin_height r = None)
                      (rebase_run new_origin now) db1)))))))))"

section \<open>Promotion\<close>

definition child_schedule :: "migration_db \<Rightarrow> string \<Rightarrow> part_insert \<Rightarrow> part_error + part_insert" where
  "child_schedule db run_id p =
     rbind (ok_or ChildRowMissing
         (find (\<lambda>c. sc_run_id c = run_id \<and> sc_child_index c = pi_part_index p) (mdb_children db))) (\<lambda>c.
     rbind (ok_or ChildHeightMissing (sc_scheduled_height c)) (\<lambda>height.
     Inr (p\<lparr>pi_scheduled_height := height\<rparr>)))"

definition children_remain :: "migration_db \<Rightarrow> string \<Rightarrow> bool" where
  "children_remain db run_id \<longleftrightarrow>
     list_ex (\<lambda>c. sc_run_id c = run_id
        \<and> \<not> list_ex (\<lambda>p. pt_run_id p = run_id \<and> pt_part_index p = Some (sc_child_index c)) (mdb_pending db))
       (mdb_children db)"

definition set_retry_height :: "u32 option \<Rightarrow> int \<Rightarrow> run_row \<Rightarrow> run_row" where
  "set_retry_height height now r = r\<lparr>rr_proof_retry_height := height, rr_updated_at_ms := now\<rparr>"

definition promote_signed_child_pczts_to_pending_txs ::
    "'g sampler \<Rightarrow> build_flavor \<Rightarrow> 'n payload_cipher \<Rightarrow> byte list \<Rightarrow> string \<Rightarrow> int \<Rightarrow> int \<Rightarrow> int \<Rightarrow> int \<Rightarrow>
     migration_db \<Rightarrow> string \<Rightarrow> part_insert list \<Rightarrow> u32 \<Rightarrow> u32 \<Rightarrow> 'n \<Rightarrow> 'g \<Rightarrow>
     (part_error + migration_db \<times> 'n \<times> 'g) option" where
  "promote_signed_child_pczts_to_pending_txs env flavor cipher password salt_base64 rebase_ms start_ms now
       done_ms db run_id pending_txs current_scanned_height remaining_child_retry_height n g =
     (if pending_txs = [] then Some (Inr (db, n, g))
      else
        (case rbind (map_error PartRun (migration_part_assignment_complete_with_conn db run_id)) (\<lambda>assigned.
              if \<not> assigned then Inl BatchesIncomplete
              else
                rbind (rebase_initial_signed_schedule_for_anchor_readiness_with_tx rebase_ms db run_id
                         current_scanned_height) (\<lambda>(rebased, db1).
                rbind (collect_results (child_schedule db1 run_id) pending_txs) (\<lambda>parts.
                Inr (db1, parts)))) of
           Inl e \<Rightarrow> Some (Inl e)
         | Inr (db1, parts) \<Rightarrow>
             map_option (\<lambda>res. rbind res (\<lambda>(db2, n', g').
               Inr (snd (sql_update_runs (\<lambda>r. rr_run_id r = run_id)
                      (set_retry_height
                        (if children_remain db2 run_id then Some remaining_child_retry_height else None)
                        done_ms) db2), n', g')))
               (insert_pending_txs_with_tx env flavor cipher password salt_base64 start_ms now db1 run_id
                  parts n g)))"

end
