(* ===== verification/Pending_Broadcast.thy ===== *)
theory Pending_Broadcast
  imports Pending_Parts
begin

text \<open>
  The pending transactions of a run from their schedule to the network (\<open>migration.rs\<close>): the
  broadcast-attempt marker, the selection of a due transaction, the checks on the expiry height, the
  redraw of overdue heights, the receipt of a transaction that was sent outside the wallet, and the
  batch of transactions that is handed out for that.

  A call that is one database transaction returns its tables only when it succeeds. The calls that first
  follow the run through the chain (\<open>reconcile_run_confirmations\<close>) outside a transaction return the
  tables also with an error, since that part is committed.
\<close>

datatype broadcast_error =
  BcPart part_error | BcRun run_error | BcHeight height_error | BcSalt | BcDecrypt
| BcNoLongerScheduled string | DueNotCanonical string | ExpiredCountOverflow | RecoveryCountOverflow
| RescheduleOverflow | RescheduleTimeOverflow
| ReceiptWrongRun | ReceiptTxMissing | ReceiptStatus string | ReceiptSelf | ReceiptDuplicated string
| ReceiptStart string | ReceiptBackward string | ReceiptWindow string | ReceiptPeers
| ReceiptItemMissing string | ReceiptItemNotScheduled string
| ItemIndexMissing string | ItemAnchorMissing string | ItemStartMissing string | ItemAfterExpiry string
| ItemNotCanonical string

definition canonical_expiry :: "u32 \<Rightarrow> broadcast_error + u32" where
  "canonical_expiry h = map_error BcHeight (zip318_canonical_migration_expiry_height h)"

definition set_part_status :: "string \<Rightarrow> pending_row \<Rightarrow> pending_row" where
  "set_part_status status p = p\<lparr>pt_status := status\<rparr>"

definition needs_resign_message :: string where
  "needs_resign_message = ''Migration schedule crossed a ZIP 318 expiry boundary''"

section \<open>The broadcast-attempt marker\<close>

definition mark_pending_broadcast_attempted ::
    "migration_db \<Rightarrow> string \<Rightarrow> string \<Rightarrow> broadcast_error + migration_db" where
  "mark_pending_broadcast_attempted db run_id txid_hex =
     (case sql_update_pending
         (\<lambda>p. pt_run_id p = run_id \<and> pt_txid_hex p = txid_hex \<and> pt_status p = ''scheduled'')
         (\<lambda>p. p\<lparr>pt_broadcast_attempted := 1\<rparr>) db of
        (updated, db') \<Rightarrow> if updated = 1 then Inr db' else Inl (BcNoLongerScheduled txid_hex))"

section \<open>Expiry\<close>

text \<open>The raw bytes that the wallet stored for a transaction.\<close>

fun first_raw :: "wallet_tx list \<Rightarrow> byte list list \<Rightarrow> byte list option" where
  "first_raw txs [] = None"
| "first_raw txs (txid # txids) =
     (case List.map_filter wt_raw (filter (\<lambda>t. wt_txid t = txid) txs) of
        raw # _ \<Rightarrow> Some raw
      | [] \<Rightarrow> first_raw txs txids)"

definition local_transaction_raw ::
    "(string \<Rightarrow> byte list option) \<Rightarrow> wallet_chain \<Rightarrow> string \<Rightarrow> run_error + byte list option" where
  "local_transaction_raw unhex chain txid_hex =
     (case wc_transactions chain of
        None \<Rightarrow> Inr None
      | Some txs \<Rightarrow> rbind (txid_blob_variants unhex txid_hex) (\<lambda>txids. Inr (first_raw txs txids)))"

definition pending_row_is_expired_for_resign ::
    "(string \<Rightarrow> run_error + byte list option) \<Rightarrow> string \<Rightarrow> u32 \<Rightarrow> u32 \<Rightarrow> string \<Rightarrow> run_error + bool" where
  "pending_row_is_expired_for_resign raw status expiry_height chain_tip_height txid_hex =
     (if expiry_height = 0 \<or> expiry_height > chain_tip_height then Inr False
      else if status = ''scheduled'' then Inr True
      else if status = ''broadcasted'' then rbind (raw txid_hex) (\<lambda>r. Inr (r \<noteq> None))
      else Inr False)"

fun expired_txids ::
    "(string \<Rightarrow> run_error + byte list option) \<Rightarrow> u32 \<Rightarrow> pending_row list \<Rightarrow> run_error + string list" where
  "expired_txids raw chain_tip_height [] = Inr []"
| "expired_txids raw chain_tip_height (p # ps) =
     rbind (pending_row_is_expired_for_resign raw (pt_status p) (pt_expiry_height p) chain_tip_height
              (pt_txid_hex p)) (\<lambda>expired.
     rbind (expired_txids raw chain_tip_height ps) (\<lambda>rest.
     Inr (if expired then pt_txid_hex p # rest else rest)))"

definition expired_unconfirmed_pending_txids ::
    "(string \<Rightarrow> run_error + byte list option) \<Rightarrow> migration_db \<Rightarrow> string \<Rightarrow> u32 \<Rightarrow> run_error + string list" where
  "expired_unconfirmed_pending_txids raw db run_id chain_tip_height =
     expired_txids raw chain_tip_height
       (filter (\<lambda>p. pt_status p \<in> {''scheduled'', ''broadcasted''} \<and> pt_expiry_height p > 0
                  \<and> pt_expiry_height p \<le> chain_tip_height) (pending_rows db run_id))"

definition expired_unconfirmed_pending_count ::
    "u32 \<Rightarrow> (string \<Rightarrow> byte list option) \<Rightarrow> wallet_chain \<Rightarrow> int \<Rightarrow> int \<Rightarrow> migration_db \<Rightarrow> string \<Rightarrow> u32 \<Rightarrow>
     (broadcast_error + u32) \<times> migration_db" where
  "expired_unconfirmed_pending_count trusted unhex chain now done_at db run_id chain_tip_height =
     (case reconcile_run_confirmations trusted unhex chain now done_at db run_id of
        (Inl e, db1) \<Rightarrow> (Inl (BcRun e), db1)
      | (Inr _, db1) \<Rightarrow>
          (rbind (map_error BcRun
              (expired_unconfirmed_pending_txids (local_transaction_raw unhex chain) db1 run_id chain_tip_height))
            (\<lambda>expired. try_u32 ExpiredCountOverflow (length expired)), db1))"

fun resign_all :: "string \<Rightarrow> string list \<Rightarrow> nat \<times> migration_db \<Rightarrow> nat \<times> migration_db" where
  "resign_all run_id [] (updated, db) = (updated, db)"
| "resign_all run_id (txid # txids) (updated, db) =
     (case sql_update_pending
         (\<lambda>p. pt_run_id p = run_id \<and> pt_txid_hex p = txid \<and> pt_status p \<in> {''scheduled'', ''broadcasted''})
         (set_part_status ''needs_resign'') db of
        (n, db') \<Rightarrow> resign_all run_id txids (updated + n, db'))"

definition ready_for_signing :: "string \<Rightarrow> int \<Rightarrow> string \<Rightarrow> migration_db \<Rightarrow> migration_db" where
  "ready_for_signing run_id now message db =
     snd (sql_update_runs (\<lambda>r. rr_run_id r = run_id) (move_run PHASE_READY_TO_MIGRATE now (Some message)) db)"

definition expired_message :: string where
  "expired_message = ''Expired migration parts must be re-signed with fresh anchors and expiry heights.''"

definition mark_expired_pending_parts_for_resign ::
    "u32 \<Rightarrow> (string \<Rightarrow> byte list option) \<Rightarrow> wallet_chain \<Rightarrow> int \<Rightarrow> int \<Rightarrow> int \<Rightarrow> migration_db \<Rightarrow> string \<Rightarrow> u32 \<Rightarrow>
     (broadcast_error + u32) \<times> migration_db" where
  "mark_expired_pending_parts_for_resign trusted unhex chain now done_at later db run_id chain_tip_height =
     (case reconcile_run_confirmations trusted unhex chain now done_at db run_id of
        (Inl e, db1) \<Rightarrow> (Inl (BcRun e), db)
      | (Inr _, db1) \<Rightarrow>
          (case expired_unconfirmed_pending_txids (local_transaction_raw unhex chain) db1 run_id chain_tip_height of
             Inl e \<Rightarrow> (Inl (BcRun e), db)
           | Inr expired \<Rightarrow>
               (case resign_all run_id expired (0, db1) of
                  (updated, db2) \<Rightarrow>
                    (try_u32 ExpiredCountOverflow updated,
                     if updated > 0 then ready_for_signing run_id later expired_message db2 else db2))))"

definition height_message :: string where
  "height_message = ''Migration broadcast height crossed a ZIP 318 expiry boundary''"

definition mark_due_parts_with_noncanonical_broadcast_height_for_resign ::
    "u32 \<Rightarrow> (string \<Rightarrow> byte list option) \<Rightarrow> wallet_chain \<Rightarrow> int \<Rightarrow> int \<Rightarrow> int \<Rightarrow> migration_db \<Rightarrow> string \<Rightarrow> u32 \<Rightarrow>
     (broadcast_error + u32) \<times> migration_db" where
  "mark_due_parts_with_noncanonical_broadcast_height_for_resign trusted unhex chain now done_at later db
       run_id chain_tip_height =
     (case canonical_expiry chain_tip_height of
        Inl e \<Rightarrow> (Inl e, db)
      | Inr tip_expiry \<Rightarrow>
          (case reconcile_run_confirmations trusted unhex chain now done_at db run_id of
             (Inl e, db1) \<Rightarrow> (Inl (BcRun e), db)
           | (Inr _, db1) \<Rightarrow>
               (case sql_update_pending
                   (\<lambda>p. pt_run_id p = run_id \<and> pt_status p = ''scheduled''
                      \<and> pt_scheduled_height p \<le> chain_tip_height \<and> pt_expiry_height p \<noteq> tip_expiry)
                   (set_part_status ''needs_resign'') db1 of
                  (affected, db2) \<Rightarrow>
                    (try_u32 RecoveryCountOverflow affected,
                     if affected > 0 then ready_for_signing run_id later height_message db2 else db2))))"

section \<open>Due transactions\<close>

definition due_rows :: "migration_db \<Rightarrow> string \<Rightarrow> u32 \<Rightarrow> pending_row list" where
  "due_rows db run_id chain_tip_height =
     filter (\<lambda>p. pt_status p = ''scheduled'' \<and> pt_scheduled_height p \<le> chain_tip_height) (pending_rows db run_id)"

fun first_due ::
    "(string \<Rightarrow> run_error + chain_identity option) \<Rightarrow> 'n payload_cipher \<Rightarrow> byte list \<Rightarrow> byte list \<Rightarrow>
     pending_row list \<Rightarrow> broadcast_error + (string \<times> byte list) option" where
  "first_due identity cipher password salt [] = Inr None"
| "first_due identity cipher password salt (p # ps) =
     rbind (map_error BcRun (identity (pt_txid_hex p))) (\<lambda>i.
     if i \<noteq> None then first_due identity cipher password salt ps
     else
       rbind (canonical_expiry (pt_scheduled_height p)) (\<lambda>expiry.
       if pt_expiry_height p \<noteq> expiry then Inl (DueNotCanonical (pt_txid_hex p))
       else
         rbind (ok_or BcDecrypt (decrypt_payload cipher (pt_encrypted_raw_tx p) password salt)) (\<lambda>raw_tx.
         Inr (Some (pt_txid_hex p, raw_tx)))))"

definition due_pending_txs ::
    "u32 \<Rightarrow> (string \<Rightarrow> byte list option) \<Rightarrow> wallet_chain \<Rightarrow> 'n payload_cipher \<Rightarrow> int \<Rightarrow> int \<Rightarrow> migration_db \<Rightarrow>
     string \<Rightarrow> u32 \<Rightarrow> byte list \<Rightarrow> string \<Rightarrow> (broadcast_error + (string \<times> byte list) option) \<times> migration_db" where
  "due_pending_txs trusted unhex chain cipher now done_at db run_id chain_tip_height password salt_base64 =
     (case decode_salt cipher salt_base64 of
        None \<Rightarrow> (Inl BcSalt, db)
      | Some salt \<Rightarrow>
          (case reconcile_run_confirmations trusted unhex chain now done_at db run_id of
             (Inl e, db1) \<Rightarrow> (Inl (BcRun e), db1)
           | (Inr _, db1) \<Rightarrow>
               (first_due (local_denomination_chain_identity unhex chain) cipher password salt
                  (sort_key (\<lambda>p. (pt_scheduled_height p, pt_txid_hex p)) (due_rows db1 run_id chain_tip_height)),
                db1)))"

definition due_scheduled_pending_count ::
    "u32 \<Rightarrow> (string \<Rightarrow> byte list option) \<Rightarrow> wallet_chain \<Rightarrow> int \<Rightarrow> int \<Rightarrow> migration_db \<Rightarrow> string \<Rightarrow> u32 \<Rightarrow>
     (broadcast_error + u32) \<times> migration_db" where
  "due_scheduled_pending_count trusted unhex chain now done_at db run_id chain_tip_height =
     (case reconcile_run_confirmations trusted unhex chain now done_at db run_id of
        (Inl e, db1) \<Rightarrow> (Inl (BcRun e), db1)
      | (Inr _, db1) \<Rightarrow>
          (map_error BcRun (try_u32 RunCountOverflow (length (due_rows db1 run_id chain_tip_height))), db1))"

definition next_scheduled_height :: "migration_db \<Rightarrow> string \<Rightarrow> u32 option" where
  "next_scheduled_height db run_id =
     (case map pt_scheduled_height (filter (\<lambda>p. pt_status p = ''scheduled'') (pending_rows db run_id)) of
        [] \<Rightarrow> None
      | h # hs \<Rightarrow> Some (Min (set (h # hs))))"

definition set_proof_retry_height :: "int \<Rightarrow> string \<Rightarrow> u32 \<Rightarrow> migration_db \<Rightarrow> migration_db" where
  "set_proof_retry_height now run_id retry_height db =
     snd (sql_update_runs (\<lambda>r. rr_run_id r = run_id) (set_retry_height (Some retry_height) now) db)"

section \<open>Redrawing overdue heights\<close>

definition redraw_row :: "u32 \<Rightarrow> u32 \<Rightarrow> int \<Rightarrow> pending_row \<Rightarrow> pending_row" where
  "redraw_row scheduled_height chain_tip_height scheduled_at_ms p =
     p\<lparr>pt_scheduled_height := scheduled_height, pt_schedule_start_height := Some chain_tip_height,
       pt_scheduled_at_ms := scheduled_at_ms\<rparr>"

definition scheduled_row :: "string \<Rightarrow> string \<Rightarrow> pending_row \<Rightarrow> bool" where
  "scheduled_row run_id txid p \<longleftrightarrow> pt_run_id p = run_id \<and> pt_txid_hex p = txid \<and> pt_status p = ''scheduled''"

fun redraw_rows ::
    "int \<Rightarrow> string \<Rightarrow> u32 \<Rightarrow> u32 \<Rightarrow> ((string \<times> u32) \<times> u32) list \<Rightarrow> bool \<times> migration_db \<Rightarrow>
     broadcast_error + bool \<times> migration_db" where
  "redraw_rows start_ms run_id chain_tip_height minimum_delay_blocks [] state = Inr state"
| "redraw_rows start_ms run_id chain_tip_height minimum_delay_blocks (((txid, expiry_height), block_offset) # rest)
     (needs_resign, db) =
     (let effective_offset = max block_offset minimum_delay_blocks in
      rbind (ok_or RescheduleOverflow (checked_add 32 chain_tip_height effective_offset)) (\<lambda>scheduled_height.
      rbind (canonical_expiry scheduled_height) (\<lambda>expiry.
      if expiry \<noteq> expiry_height
      then redraw_rows start_ms run_id chain_tip_height minimum_delay_blocks rest
             (True, snd (sql_update_pending (scheduled_row run_id txid) (set_part_status ''needs_resign'') db))
      else
        rbind (ok_or RescheduleTimeOverflow (add_ms start_ms effective_offset)) (\<lambda>scheduled_at_ms.
        redraw_rows start_ms run_id chain_tip_height minimum_delay_blocks rest
          (needs_resign,
           snd (sql_update_pending (scheduled_row run_id txid)
             (redraw_row scheduled_height chain_tip_height scheduled_at_ms) db))))))"

definition overdue_txids :: "migration_db \<Rightarrow> string \<Rightarrow> u32 \<Rightarrow> string option \<Rightarrow> (string \<times> u32) list" where
  "overdue_txids db run_id chain_tip_height excluded_txid =
     filter (\<lambda>(txid, expiry). Some txid \<noteq> excluded_txid)
       (map (\<lambda>p. (pt_txid_hex p, pt_expiry_height p)) (due_rows db run_id chain_tip_height))"

definition reschedule_overdue_pending_txs_with_options ::
    "'g sampler \<Rightarrow> int \<Rightarrow> int \<Rightarrow> migration_db \<Rightarrow> string \<Rightarrow> wallet_network \<Rightarrow> u32 \<Rightarrow> u32 \<Rightarrow> string option \<Rightarrow> 'g \<Rightarrow>
     (broadcast_error + migration_db \<times> 'g) option" where
  "reschedule_overdue_pending_txs_with_options env start_ms now db run_id network chain_tip_height
       minimum_delay_blocks excluded_txid g =
     (let txids = overdue_txids db run_id chain_tip_height excluded_txid in
      if txids = [] then Some (Inr (db, g))
      else
        (let (perm, g1) = shuffle_perm env (length txids) g;
             shuffled = apply_perm perm txids in
         case map_error BcRun
             (rbind (timing_policy_for_run_with_conn db run_id) (\<lambda>timing_policy.
              rbind (planned_part_count_with_conn db run_id) (\<lambda>planned_part_count.
              Inr (timing_policy, planned_part_count)))) of
           Inl e \<Rightarrow> Some (Inl e)
         | Inr (timing_policy, planned_part_count) \<Rightarrow>
             (let (mean_delay_blocks, max_delay_blocks) =
                    schedule_parameters_with_policy_for_part_count network timing_policy planned_part_count
              in map_option (\<lambda>(offsets, g2).
                   rbind (redraw_rows start_ms run_id chain_tip_height minimum_delay_blocks
                            (zip shuffled offsets) (False, db)) (\<lambda>(needs_resign, db1).
                   Inr (if needs_resign then ready_for_signing run_id now needs_resign_message db1 else db1, g2)))
                 (random_schedule_block_offsets env (length shuffled) mean_delay_blocks max_delay_blocks g1))))"

definition reschedule_overdue_pending_txs ::
    "'g sampler \<Rightarrow> int \<Rightarrow> int \<Rightarrow> migration_db \<Rightarrow> string \<Rightarrow> wallet_network \<Rightarrow> u32 \<Rightarrow> 'g \<Rightarrow>
     (broadcast_error + migration_db \<times> 'g) option" where
  "reschedule_overdue_pending_txs env start_ms now db run_id network chain_tip_height g =
     reschedule_overdue_pending_txs_with_options env start_ms now db run_id network chain_tip_height 0 None g"

fun network_name :: "wallet_network \<Rightarrow> string" where
  "network_name Main = ''main''"
| "network_name Test = ''test''"
| "network_name Regtest = ''regtest''"

text \<open>The runs of the network with an overdue transaction, in the order of their ids.\<close>

definition overdue_runs :: "migration_db \<Rightarrow> wallet_network \<Rightarrow> u32 \<Rightarrow> string list" where
  "overdue_runs db network chain_tip_height =
     sort (remdups (map pt_run_id
       (filter (\<lambda>p. pt_status p = ''scheduled'' \<and> pt_scheduled_height p \<le> chain_tip_height
                  \<and> list_ex (\<lambda>r. rr_run_id r = pt_run_id p \<and> rr_network r = network_name network) (mdb_runs db))
         (mdb_pending db))))"

text \<open>Each run is redrawn in its own transaction, so an error keeps the runs before it.\<close>

fun reschedule_runs ::
    "'g sampler \<Rightarrow> int \<Rightarrow> int \<Rightarrow> wallet_network \<Rightarrow> u32 \<Rightarrow> (string \<times> string) option \<Rightarrow> string list \<Rightarrow>
     migration_db \<Rightarrow> 'g \<Rightarrow> ((broadcast_error + 'g) \<times> migration_db) option" where
  "reschedule_runs env start_ms now network chain_tip_height excluded [] db g = Some (Inr g, db)"
| "reschedule_runs env start_ms now network chain_tip_height excluded (run_id # run_ids) db g =
     (let excluded_txid = (case excluded of
            Some (excluded_run_id, txid) \<Rightarrow> if run_id = excluded_run_id then Some txid else None
          | None \<Rightarrow> None)
      in Option.bind
           (reschedule_overdue_pending_txs_with_options env start_ms now db run_id network chain_tip_height 1
              excluded_txid g)
           (\<lambda>res. case res of
              Inl e \<Rightarrow> Some (Inl e, db)
            | Inr (db', g') \<Rightarrow>
                reschedule_runs env start_ms now network chain_tip_height excluded run_ids db' g'))"

definition reschedule_wallet_overdue_pending_txs_with_exclusion ::
    "'g sampler \<Rightarrow> int \<Rightarrow> int \<Rightarrow> migration_db \<Rightarrow> wallet_network \<Rightarrow> u32 \<Rightarrow> (string \<times> string) option \<Rightarrow> 'g \<Rightarrow>
     ((broadcast_error + 'g) \<times> migration_db) option" where
  "reschedule_wallet_overdue_pending_txs_with_exclusion env start_ms now db network chain_tip_height excluded g =
     reschedule_runs env start_ms now network chain_tip_height excluded
       (overdue_runs db network chain_tip_height) db g"

definition reschedule_wallet_overdue_pending_txs ::
    "'g sampler \<Rightarrow> int \<Rightarrow> int \<Rightarrow> migration_db \<Rightarrow> wallet_network \<Rightarrow> u32 \<Rightarrow> 'g \<Rightarrow>
     ((broadcast_error + 'g) \<times> migration_db) option" where
  "reschedule_wallet_overdue_pending_txs env start_ms now db network chain_tip_height g =
     reschedule_wallet_overdue_pending_txs_with_exclusion env start_ms now db network chain_tip_height None g"

definition reschedule_wallet_overdue_pending_txs_after_accepted ::
    "'g sampler \<Rightarrow> int \<Rightarrow> int \<Rightarrow> migration_db \<Rightarrow> wallet_network \<Rightarrow> u32 \<Rightarrow> string \<Rightarrow> string \<Rightarrow> 'g \<Rightarrow>
     ((broadcast_error + 'g) \<times> migration_db) option" where
  "reschedule_wallet_overdue_pending_txs_after_accepted env start_ms now db network chain_tip_height
       accepted_run_id accepted_txid g =
     reschedule_wallet_overdue_pending_txs_with_exclusion env start_ms now db network chain_tip_height
       (Some (accepted_run_id, accepted_txid)) g"

end
