(* ===== verification/Pending_Receipt.thy ===== *)
theory Pending_Receipt
  imports Pending_Broadcast "HOL-Library.Option_ord"
begin

text \<open>
  What happens to the pending transactions of a run once one of them was sent (\<open>migration.rs\<close>): the
  phase of the run after a broadcast, the receipt of a transaction that was sent outside the wallet,
  and the batch that is handed out for that.
\<close>

section \<open>After a broadcast\<close>

definition next_phase_after_broadcast :: "u32 \<Rightarrow> u32 \<Rightarrow> bool \<Rightarrow> string" where
  "next_phase_after_broadcast needs_resign_remaining scheduled_remaining fully_materialized =
     (if needs_resign_remaining > 0 then PHASE_READY_TO_MIGRATE
      else if scheduled_remaining > 0 \<or> \<not> fully_materialized then PHASE_BROADCAST_SCHEDULED
      else PHASE_WAITING_MIGRATION_CONFIRMATIONS)"

definition update_run_after_pending_broadcast :: "int \<Rightarrow> migration_db \<Rightarrow> string \<Rightarrow> run_error + migration_db" where
  "update_run_after_pending_broadcast now db run_id =
     rbind (count_pending_with_status db run_id ''needs_resign'') (\<lambda>needs_resign_remaining.
     rbind (count_pending_with_status db run_id ''scheduled'') (\<lambda>scheduled_remaining.
     rbind (count_for_run (length (pending_rows db run_id))) (\<lambda>pending_count.
     rbind (planned_part_count_with_conn db run_id) (\<lambda>planned_count.
     rbind (unpromoted_signed_child_pczt_count_with_conn db run_id) (\<lambda>unpromoted_count.
     let fully_materialized = (planned_count > 0 \<and> pending_count = planned_count \<and> unpromoted_count = 0);
         next_phase = next_phase_after_broadcast needs_resign_remaining scheduled_remaining fully_materialized
     in Inr (snd (sql_update_runs (\<lambda>r. rr_run_id r = run_id)
          (\<lambda>r. if needs_resign_remaining > 0 then r\<lparr>rr_phase := next_phase, rr_updated_at_ms := now\<rparr>
               else move_run next_phase now None r) db)))))))"

definition mark_pending_broadcasted :: "int \<Rightarrow> migration_db \<Rightarrow> string \<Rightarrow> string \<Rightarrow> run_error + migration_db" where
  "mark_pending_broadcasted now db run_id txid_hex =
     update_run_after_pending_broadcast now
       (snd (sql_update_pending (\<lambda>p. pt_run_id p = run_id \<and> pt_txid_hex p = txid_hex)
              (set_part_status ''broadcasted'') db)) run_id"

fun missing_raw ::
    "(string \<Rightarrow> run_error + byte list option) \<Rightarrow> 'n payload_cipher \<Rightarrow> byte list \<Rightarrow> byte list \<Rightarrow> pending_row list \<Rightarrow>
     broadcast_error + (string \<times> byte list) list" where
  "missing_raw raw cipher password salt [] = Inr []"
| "missing_raw raw cipher password salt (p # ps) =
     rbind (map_error BcRun (raw (pt_txid_hex p))) (\<lambda>stored.
     if stored \<noteq> None then missing_raw raw cipher password salt ps
     else
       rbind (ok_or BcDecrypt (decrypt_payload cipher (pt_encrypted_raw_tx p) password salt)) (\<lambda>raw_tx.
       rbind (missing_raw raw cipher password salt ps) (\<lambda>rest. Inr ((pt_txid_hex p, raw_tx) # rest))))"

definition broadcasted_pending_txs_missing_local_identity ::
    "(string \<Rightarrow> byte list option) \<Rightarrow> wallet_chain \<Rightarrow> 'n payload_cipher \<Rightarrow> migration_db \<Rightarrow> string \<Rightarrow> byte list \<Rightarrow>
     string \<Rightarrow> broadcast_error + (string \<times> byte list) list" where
  "broadcasted_pending_txs_missing_local_identity unhex chain cipher db run_id password salt_base64 =
     rbind (ok_or BcSalt (decode_salt cipher salt_base64)) (\<lambda>salt.
     missing_raw (local_transaction_raw unhex chain) cipher password salt
       (sort_key (\<lambda>p. (pt_scheduled_height p, pt_txid_hex p))
         (filter (\<lambda>p. pt_status p = ''broadcasted'') (pending_rows db run_id))))"

section \<open>The receipt of a transaction sent outside the wallet\<close>

record schedule_update =
  su_item_id :: string
  su_scheduled_height :: u32
  su_schedule_start_height :: u32

definition migration_outbox_run_phase_with_conn ::
    "migration_db \<Rightarrow> string \<Rightarrow> wallet_network \<Rightarrow> string \<Rightarrow> broadcast_error + string" where
  "migration_outbox_run_phase_with_conn db account_uuid network run_id =
     ok_or ReceiptWrongRun
       (map_option rr_phase
         (find (\<lambda>r. rr_run_id r = run_id \<and> rr_account_uuid r = account_uuid
                  \<and> rr_network r = network_name network) (mdb_runs db)))"

text \<open>The rows of the run whose transaction id is the given one up to case.\<close>

definition same_txid :: "string \<Rightarrow> string \<Rightarrow> pending_row \<Rightarrow> bool" where
  "same_txid run_id txid p \<longleftrightarrow>
     pt_run_id p = run_id \<and> to_ascii_lowercase (pt_txid_hex p) = to_ascii_lowercase txid"

record outbox_tx_state =
  os_run_phase :: string
  os_status :: string
  os_expiry_height :: u32

definition migration_outbox_tx_state ::
    "migration_db \<Rightarrow> string \<Rightarrow> wallet_network \<Rightarrow> string \<Rightarrow> string \<Rightarrow> broadcast_error + outbox_tx_state" where
  "migration_outbox_tx_state db account_uuid network run_id txid_hex =
     rbind (migration_outbox_run_phase_with_conn db account_uuid network run_id) (\<lambda>run_phase.
     rbind (ok_or ReceiptTxMissing (find (same_txid run_id txid_hex) (mdb_pending db))) (\<lambda>p.
     Inr \<lparr>os_run_phase = run_phase, os_status = pt_status p, os_expiry_height = pt_expiry_height p\<rparr>))"

text \<open>The updates in the order they came: the heights rise from the receipt height in allowed steps.\<close>

fun check_updates ::
    "string \<Rightarrow> u32 \<Rightarrow> u32 \<Rightarrow> string set \<Rightarrow> u32 \<Rightarrow> schedule_update list \<Rightarrow> broadcast_error + unit" where
  "check_updates accepted_txid remote_height timing_max_blocks seen previous_height [] = Inr ()"
| "check_updates accepted_txid remote_height timing_max_blocks seen previous_height (u # us) =
     (let item_id = to_ascii_lowercase (su_item_id u) in
      if item_id = accepted_txid then Inl ReceiptSelf
      else if item_id \<in> seen then Inl (ReceiptDuplicated item_id)
      else if su_schedule_start_height u \<noteq> remote_height then Inl (ReceiptStart item_id)
      else
        rbind (ok_or (ReceiptBackward item_id) (checked_sub (su_scheduled_height u) previous_height))
          (\<lambda>incremental_delay.
        if incremental_delay = 0 \<or> incremental_delay > timing_max_blocks then Inl (ReceiptWindow item_id)
        else check_updates accepted_txid remote_height timing_max_blocks (insert item_id seen)
               (su_scheduled_height u) us))"

definition overdue_peers :: "migration_db \<Rightarrow> string \<Rightarrow> u32 \<Rightarrow> string \<Rightarrow> string set" where
  "overdue_peers db run_id remote_height txid_hex =
     (\<lambda>p. to_ascii_lowercase (pt_txid_hex p)) `
       set (filter (\<lambda>p. pt_status p = ''scheduled'' \<and> pt_scheduled_height p \<le> remote_height
              \<and> pt_expiry_height p > remote_height
              \<and> to_ascii_lowercase (pt_txid_hex p) \<noteq> to_ascii_lowercase txid_hex) (pending_rows db run_id))"

definition move_height :: "u32 \<Rightarrow> u32 \<Rightarrow> pending_row \<Rightarrow> pending_row" where
  "move_height scheduled_height schedule_start_height p =
     p\<lparr>pt_scheduled_height := scheduled_height, pt_schedule_start_height := Some schedule_start_height\<rparr>"

text \<open>One update on the row it names; the flag records a schedule that left its expiry window.\<close>

definition apply_update ::
    "string \<Rightarrow> schedule_update \<Rightarrow> bool \<times> migration_db \<Rightarrow> broadcast_error + bool \<times> migration_db" where
  "apply_update run_id u state =
     (let item_id = to_ascii_lowercase (su_item_id u); (crossed, db) = state in
      rbind (ok_or (ReceiptItemMissing item_id) (find (same_txid run_id item_id) (mdb_pending db))) (\<lambda>p.
      rbind (canonical_expiry (su_scheduled_height u)) (\<lambda>expiry.
      if pt_status p = ''scheduled''
      then
        (if expiry \<noteq> pt_expiry_height p
         then Inr (True, snd (sql_update_pending
                (\<lambda>q. same_txid run_id item_id q \<and> pt_status q = ''scheduled'') (set_part_status ''needs_resign'') db))
         else Inr (crossed, snd (sql_update_pending
                (\<lambda>q. same_txid run_id item_id q \<and> pt_status q = ''scheduled'')
                (move_height (su_scheduled_height u) (su_schedule_start_height u)) db)))
      else if pt_scheduled_height p \<noteq> su_scheduled_height u
              \<or> pt_schedule_start_height p \<noteq> Some (su_schedule_start_height u)
      then Inl (ReceiptItemNotScheduled item_id)
      else Inr (crossed, db))))"

text \<open>The updates are applied in the order of their item ids.\<close>

definition update_key :: "schedule_update \<Rightarrow> string" where
  "update_key u = to_ascii_lowercase (su_item_id u)"

definition apply_accepted_migration_outbox_receipt ::
    "int \<Rightarrow> int \<Rightarrow> migration_db \<Rightarrow> string \<Rightarrow> wallet_network \<Rightarrow> string \<Rightarrow> string \<Rightarrow> u32 \<Rightarrow> schedule_update list \<Rightarrow>
     broadcast_error + migration_db" where
  "apply_accepted_migration_outbox_receipt ready_at now db account_uuid network run_id txid_hex remote_height
       schedule_updates =
     rbind (migration_outbox_run_phase_with_conn db account_uuid network run_id) (\<lambda>_.
     rbind (ok_or ReceiptTxMissing (find (same_txid run_id txid_hex) (mdb_pending db))) (\<lambda>accepted.
     let accepted_status = pt_status accepted in
     if accepted_status \<notin> {''scheduled'', ''broadcasted'', ''confirmed'', ''needs_resign''}
     then Inl (ReceiptStatus accepted_status)
     else
       rbind (map_error BcRun (timing_policy_for_run_with_conn db run_id)) (\<lambda>timing_policy.
       rbind (check_updates (to_ascii_lowercase txid_hex) remote_height
           (snd (schedule_parameters_with_policy network timing_policy)) {} remote_height schedule_updates) (\<lambda>_.
       if accepted_status = ''scheduled''
          \<and> update_key ` set schedule_updates \<noteq> overdue_peers db run_id remote_height txid_hex
       then Inl ReceiptPeers
       else
         rbind (try_fold (\<lambda>state u. apply_update run_id u state) (False, db) (sort_key update_key schedule_updates))
           (\<lambda>(crossed, db1).
         let db2 = (if crossed then ready_for_signing run_id ready_at needs_resign_message db1 else db1) in
         if accepted_status \<in> {''scheduled'', ''needs_resign''}
         then map_error BcRun (update_run_after_pending_broadcast now
                (snd (sql_update_pending
                  (\<lambda>p. same_txid run_id txid_hex p \<and> pt_status p \<in> {''scheduled'', ''needs_resign''})
                  (set_part_status ''broadcasted'') db2)) run_id)
         else Inr db2)))))"

section \<open>The batch that is handed out\<close>

record outbox_item =
  oi_item_id :: string
  oi_part_index :: u32
  oi_txid_hex :: string
  oi_raw_tx :: "byte list"
  oi_anchor_boundary_height :: u32
  oi_scheduled_height :: u32
  oi_schedule_start_height :: u32
  oi_expiry_height :: u32

definition outbox_item_of ::
    "'n payload_cipher \<Rightarrow> byte list \<Rightarrow> byte list \<Rightarrow> pending_row \<Rightarrow> broadcast_error + outbox_item" where
  "outbox_item_of cipher password salt p =
     rbind (ok_or (ItemIndexMissing (pt_txid_hex p)) (pt_part_index p)) (\<lambda>part_index.
     rbind (ok_or (ItemAnchorMissing (pt_txid_hex p)) (pt_anchor_boundary_height p)) (\<lambda>anchor_boundary_height.
     rbind (ok_or (ItemStartMissing (pt_txid_hex p)) (pt_schedule_start_height p)) (\<lambda>schedule_start_height.
     if pt_scheduled_height p \<ge> pt_expiry_height p then Inl (ItemAfterExpiry (pt_txid_hex p))
     else
       rbind (canonical_expiry (pt_scheduled_height p)) (\<lambda>expiry.
       if pt_expiry_height p \<noteq> expiry then Inl (ItemNotCanonical (pt_txid_hex p))
       else
         rbind (ok_or BcDecrypt (decrypt_payload cipher (pt_encrypted_raw_tx p) password salt)) (\<lambda>raw_tx.
         Inr \<lparr>oi_item_id = to_ascii_lowercase (pt_txid_hex p), oi_part_index = part_index,
              oi_txid_hex = pt_txid_hex p, oi_raw_tx = raw_tx,
              oi_anchor_boundary_height = anchor_boundary_height,
              oi_scheduled_height = pt_scheduled_height p,
              oi_schedule_start_height = schedule_start_height,
              oi_expiry_height = pt_expiry_height p\<rparr>)))))"

text \<open>The items of a batch, from the query on (the call first marks due parts for signing).\<close>

definition outbox_items ::
    "'n payload_cipher \<Rightarrow> byte list \<Rightarrow> byte list \<Rightarrow> migration_db \<Rightarrow> string \<Rightarrow> broadcast_error + outbox_item list" where
  "outbox_items cipher password salt db run_id =
     collect_results (outbox_item_of cipher password salt)
       (sort_key (\<lambda>p. (pt_scheduled_height p, pt_part_index p, pt_txid_hex p))
         (filter (\<lambda>p. pt_status p = ''scheduled'') (pending_rows db run_id)))"

end
