(* ===== verification/Pending_Rebuild.thy ===== *)
theory Pending_Rebuild
  imports Pending_Receipt
begin

text \<open>
  Recovery of the parts that must be signed again (\<open>migration.rs\<close>): the shared ladder of recovery
  heights, and the replacement of a pending transaction by its rebuilt one. Both calls are one database
  transaction; an error carries no tables.
\<close>

datatype rebuild_error =
  RbPart part_error | RbRun run_error | RbSchedule schedule_error | RbHeight height_error | RbSalt | RbEncrypt
| RbPartIndexMissing | RbMetadataIncomplete | RbMaximumBelowOffset | RbOffsetOverflow | RbPartChanged | RbRunChanged
| RbScheduleMismatch | RbPartDisappeared | RbValueChanged | RbNoteChanged | RbNotCanonical | RbHeightOverflow
| RbOffsetMismatch | RbBelowZero | RbTimeOverflow

section \<open>Parts waiting for a signature\<close>

record part_recovery =
  rc_part_index :: u32
  rc_old_txid_hex :: string
  rc_value_zatoshi :: u64
  rc_fee_zatoshi :: u64
  rc_selected_note :: orchard_note_ref

definition resign_rows :: "migration_db \<Rightarrow> string \<Rightarrow> pending_row list" where
  "resign_rows db run_id =
     sort_key (\<lambda>p. (pt_scheduled_height p, pt_txid_hex p))
       (filter (\<lambda>p. pt_status p = ''needs_resign'') (pending_rows db run_id))"

definition pending_parts_needing_resign :: "migration_db \<Rightarrow> string \<Rightarrow> rebuild_error + part_recovery list" where
  "pending_parts_needing_resign db run_id =
     collect_results (\<lambda>p. rbind (ok_or RbPartIndexMissing (pt_part_index p)) (\<lambda>part_index.
         Inr \<lparr>rc_part_index = part_index, rc_old_txid_hex = pt_txid_hex p,
              rc_value_zatoshi = pt_value_zatoshi p, rc_fee_zatoshi = pt_fee_zatoshi p,
              rc_selected_note = md_selected_note (pt_metadata p)\<rparr>))
       (resign_rows db run_id)"

definition noncanonical_unconfirmed_fee_count :: "migration_db \<Rightarrow> string \<Rightarrow> u64 \<Rightarrow> run_error + u32" where
  "noncanonical_unconfirmed_fee_count db run_id canonical_fee_zatoshi =
     try_u32 RunCountOverflow (length (filter (\<lambda>p.
         pt_status p \<in> {''scheduled'', ''broadcasted'', ''needs_resign''}
         \<and> pt_fee_zatoshi p \<noteq> canonical_fee_zatoshi) (pending_rows db run_id)))"

section \<open>The ladder of recovery heights\<close>

record rebuild_schedule_generation =
  rg_origin_height :: u32
  rg_offsets_by_txid :: "string \<rightharpoonup> u32"

text \<open>A part to assign: transaction, part, value and the offset it had.\<close>

type_synonym rebuild_part = "string \<times> u32 \<times> u64 \<times> u32 option"

fun split_rebuild ::
    "u32 \<Rightarrow> pending_row list \<Rightarrow> rebuild_error + rebuild_part list \<times> (string \<rightharpoonup> u32) \<times> u32 list" where
  "split_rebuild elapsed_cursor [] = Inr ([], Map.empty, [])"
| "split_rebuild elapsed_cursor (p # ps) =
     rbind (ok_or RbPartIndexMissing (pt_part_index p)) (\<lambda>part_index.
     rbind (split_rebuild elapsed_cursor ps) (\<lambda>(to_assign, offsets, observed).
     case pt_rebuild_block_offset p of
       None \<Rightarrow> Inr ((pt_txid_hex p, part_index, pt_value_zatoshi p, None) # to_assign, offsets, observed)
     | Some block_offset \<Rightarrow>
         if block_offset < elapsed_cursor
         then Inr ((pt_txid_hex p, part_index, pt_value_zatoshi p, Some block_offset) # to_assign, offsets,
                   block_offset # observed)
         else Inr (to_assign,
                   (case offsets (to_ascii_lowercase (pt_txid_hex p)) of
                      None \<Rightarrow> offsets(to_ascii_lowercase (pt_txid_hex p) \<mapsto> block_offset) | Some later \<Rightarrow> offsets),
                   block_offset # observed)))"

definition persisted_base_offset :: "u32 option \<Rightarrow> u32 option \<Rightarrow> u32 list \<Rightarrow> rebuild_error + u32" where
  "persisted_base_offset persisted_origin persisted_max observed =
     (if persisted_origin = None \<and> (persisted_max \<noteq> None \<or> observed \<noteq> []) then Inl RbMetadataIncomplete
      else
        (let observed_max = Max (set (0 # observed)) in
         case persisted_max of
           None \<Rightarrow> Inr observed_max
         | Some max_offset \<Rightarrow> if max_offset \<ge> observed_max then Inr max_offset else Inl RbMaximumBelowOffset))"

fun assign_offsets ::
    "string \<Rightarrow> u32 \<Rightarrow> (rebuild_part \<times> u32) list \<Rightarrow> (u32 \<times> (string \<rightharpoonup> u32)) \<times> migration_db \<Rightarrow>
     rebuild_error + (u32 \<times> (string \<rightharpoonup> u32)) \<times> migration_db" where
  "assign_offsets run_id base_offset [] state = Inr state"
| "assign_offsets run_id base_offset (((txid, part_index, value_zatoshi, previous), fresh) # rest)
     ((generation_max, offsets), db) =
     rbind (ok_or RbOffsetOverflow (checked_add 32 base_offset fresh)) (\<lambda>assigned.
     case sql_update_pending
         (\<lambda>p. pt_run_id p = run_id \<and> pt_txid_hex p = txid \<and> pt_status p = ''needs_resign''
            \<and> pt_rebuild_block_offset p = previous)
         (\<lambda>p. p\<lparr>pt_rebuild_block_offset := Some assigned\<rparr>) db of
       (updated, db') \<Rightarrow>
         if updated \<noteq> 1 then Inl RbPartChanged
         else assign_offsets run_id base_offset rest
                ((max generation_max assigned, offsets(to_ascii_lowercase txid \<mapsto> assigned)), db'))"

definition recovery_run :: "u32 \<Rightarrow> u32 \<Rightarrow> run_row \<Rightarrow> run_row" where
  "recovery_run origin_height generation_max r =
     r\<lparr>rr_recovery_schedule_origin_height := Some origin_height,
       rr_recovery_schedule_max_block_offset := Some generation_max\<rparr>"

definition ensure_rebuild_schedule_generation ::
    "'g sampler \<Rightarrow> migration_db \<Rightarrow> string \<Rightarrow> wallet_network \<Rightarrow> u32 \<Rightarrow> 'g \<Rightarrow>
     (rebuild_error + rebuild_schedule_generation option \<times> migration_db \<times> 'g) option" where
  "ensure_rebuild_schedule_generation env db run_id network origin_candidate_height g =
     (let rows = resign_rows db run_id in
      if rows = [] then Some (Inr (None, db, g))
      else
        (case rbind (map_error RbRun (rbind (timing_policy_for_run_with_conn db run_id) (\<lambda>timing_policy.
                rbind (run_of db run_id) (\<lambda>r. Inr (timing_policy, r))))) (\<lambda>(timing_policy, r).
              let origin_height = unwrap_or origin_candidate_height (rr_recovery_schedule_origin_height r);
                  elapsed_cursor = saturating_sub origin_candidate_height origin_height in
              rbind (split_rebuild elapsed_cursor rows) (\<lambda>(to_assign, offsets, observed).
              rbind (persisted_base_offset (rr_recovery_schedule_origin_height r)
                  (rr_recovery_schedule_max_block_offset r) observed) (\<lambda>persisted_base.
              Inr (timing_policy, r, origin_height, to_assign, offsets, max persisted_base elapsed_cursor)))) of
           Inl e \<Rightarrow> Some (Inl e)
         | Inr (timing_policy, r, origin_height, to_assign, offsets, base_offset) \<Rightarrow>
             Option.bind
               (if to_assign = [] then Some (Inr ([], g))
                else rebuild_schedule_block_offsets env (rr_schedule r) (rr_target_values r)
                       (map (\<lambda>(txid, part_index, value_zatoshi, previous). (part_index, value_zatoshi)) to_assign)
                       network timing_policy g)
               (\<lambda>drawn. Some (
                  rbind (map_error RbSchedule drawn) (\<lambda>(fresh_offsets, g').
                  rbind (assign_offsets run_id base_offset (zip to_assign fresh_offsets)
                           ((base_offset, offsets), db)) (\<lambda>((generation_max, offsets'), db1).
                  case sql_update_runs (\<lambda>r. rr_run_id r = run_id) (recovery_run origin_height generation_max) db1 of
                    (updated, db2) \<Rightarrow>
                      if updated \<noteq> 1 then Inl RbRunChanged
                      else Inr (Some \<lparr>rg_origin_height = origin_height, rg_offsets_by_txid = offsets'\<rparr>, db2, g')))))))"

section \<open>Replacing rebuilt parts\<close>

record part_replacement =
  rp_old_txid_hex :: string
  rp_replacement :: part_insert

text \<open>\<open>Vec::swap_remove\<close> and \<open>Iterator::position\<close>.\<close>

definition swap_remove :: "'a list \<Rightarrow> nat \<Rightarrow> 'a list" where
  "swap_remove xs i = (if Suc i = length xs then butlast xs else (butlast xs)[i := last xs])"

definition position :: "('a \<Rightarrow> bool) \<Rightarrow> 'a list \<Rightarrow> nat option" where
  "position P xs = find (\<lambda>i. P (xs ! i)) [0 ..< length xs]"

definition entry_matches :: "schedule_entry \<Rightarrow> part_replacement \<Rightarrow> bool" where
  "entry_matches entry replacement \<longleftrightarrow>
     (case se_part_index entry of
        Some part_index \<Rightarrow> pi_part_index (rp_replacement replacement) = part_index
          \<and> pi_value_zatoshi (rp_replacement replacement) = se_value_zatoshi entry
      | None \<Rightarrow> pi_value_zatoshi (rp_replacement replacement) = se_value_zatoshi entry)"

fun match_replacements ::
    "schedule_entry list \<Rightarrow> part_replacement list \<Rightarrow> part_replacement list \<times> part_replacement list" where
  "match_replacements [] replacements = ([], replacements)"
| "match_replacements (entry # entries) replacements =
     (case position (entry_matches entry) replacements of
        None \<Rightarrow> match_replacements entries replacements
      | Some i \<Rightarrow>
          (let (scheduled, remaining) = match_replacements entries (swap_remove replacements i) in
           (replacements ! i # scheduled, remaining)))"

definition replacement_start :: "u32 option \<Rightarrow> u32 option \<Rightarrow> part_insert \<Rightarrow> rebuild_error + u32" where
  "replacement_start recovery_origin persisted_offset pending =
     (case (recovery_origin, persisted_offset) of
        (Some origin, Some block_offset) \<Rightarrow>
          rbind (ok_or RbHeightOverflow (checked_add 32 origin block_offset)) (\<lambda>height.
          if pi_scheduled_height pending \<noteq> height then Inl RbOffsetMismatch else Inr origin)
      | (None, None) \<Rightarrow> Inr (saturating_sub (pi_target_height pending) 1)
      | _ \<Rightarrow> Inl RbMetadataIncomplete)"

definition replacement_row ::
    "string \<Rightarrow> string \<Rightarrow> int \<Rightarrow> u32 \<Rightarrow> u32 option \<Rightarrow> part_insert \<Rightarrow> pending_row" where
  "replacement_row run_id encrypted_raw_tx scheduled_at_ms schedule_start_height original_scheduled_height p =
     (pending_row_of run_id encrypted_raw_tx scheduled_at_ms schedule_start_height p)
       \<lparr>pt_original_scheduled_height := original_scheduled_height\<rparr>"

definition delete_pending_row :: "string \<Rightarrow> string \<Rightarrow> migration_db \<Rightarrow> migration_db" where
  "delete_pending_row run_id txid db =
     db\<lparr>mdb_pending := filter (\<lambda>p. \<not> (pt_run_id p = run_id \<and> pt_txid_hex p = txid)) (mdb_pending db)\<rparr>"

definition replace_part ::
    "'n payload_cipher \<Rightarrow> byte list \<Rightarrow> byte list \<Rightarrow> int \<Rightarrow> u32 \<Rightarrow> string \<Rightarrow> u32 option \<Rightarrow> part_replacement \<Rightarrow>
     migration_db \<times> 'n \<Rightarrow> rebuild_error + migration_db \<times> 'n" where
  "replace_part cipher password salt start_ms chain_tip_height run_id recovery_origin replacement state =
     (let (db, n) = state; old = rp_old_txid_hex replacement; pending = rp_replacement replacement in
      rbind (ok_or RbPartDisappeared
          (find (\<lambda>p. pt_run_id p = run_id \<and> pt_txid_hex p = old \<and> pt_status p = ''needs_resign'')
             (mdb_pending db))) (\<lambda>original.
      if pt_value_zatoshi original \<noteq> pi_value_zatoshi pending then Inl RbValueChanged
      else if to_ascii_lowercase (pt_selected_note_txid original)
                \<noteq> to_ascii_lowercase (on_txid_hex (pi_selected_note pending))
              \<or> pt_selected_note_output_index original \<noteq> on_output_index (pi_selected_note pending)
      then Inl RbNoteChanged
      else
        rbind (map_error RbHeight (zip318_canonical_migration_expiry_height (pi_scheduled_height pending)))
          (\<lambda>expiry.
        if pi_expiry_height pending \<noteq> expiry then Inl RbNotCanonical
        else
          rbind (replacement_start recovery_origin (pt_rebuild_block_offset original) pending)
            (\<lambda>schedule_start_height.
          rbind (ok_or RbBelowZero (checked_sub (pi_scheduled_height pending) schedule_start_height)) (\<lambda>_.
          rbind (ok_or RbEncrypt (encrypt_payload cipher (pi_raw_tx pending) password salt n))
            (\<lambda>(encrypted_raw_tx, n').
          rbind (ok_or RbTimeOverflow
              (add_ms start_ms (saturating_sub (pi_scheduled_height pending) chain_tip_height)))
            (\<lambda>scheduled_at_ms.
          rbind (map_error RbPart (insert_pending_row
              (replacement_row run_id encrypted_raw_tx scheduled_at_ms schedule_start_height
                 (pt_original_scheduled_height original) pending)
              (delete_pending_row run_id old db))) (\<lambda>db'.
          Inr (db', n')))))))))"

definition replace_resigned_pending_parts ::
    "'n payload_cipher \<Rightarrow> byte list \<Rightarrow> string \<Rightarrow> int \<Rightarrow> int \<Rightarrow> migration_db \<Rightarrow> string \<Rightarrow> u32 \<Rightarrow>
     part_replacement list \<Rightarrow> child_insert list \<Rightarrow> 'n \<Rightarrow> rebuild_error + migration_db \<times> 'n" where
  "replace_resigned_pending_parts cipher password salt_base64 start_ms now db run_id chain_tip_height replacements
       signed_children n =
     (if replacements = [] then Inr (db, n)
      else
        rbind (map_error RbRun (run_of db run_id)) (\<lambda>r.
        rbind (ok_or RbSalt (decode_salt cipher salt_base64)) (\<lambda>salt.
        let (scheduled, remaining) = match_replacements (rr_schedule r) replacements in
        if remaining \<noteq> [] then Inl RbScheduleMismatch
        else
          rbind (try_fold (\<lambda>state replacement. replace_part cipher password salt start_ms chain_tip_height run_id
                    (rr_recovery_schedule_origin_height r) replacement state) (db, n) scheduled) (\<lambda>(db1, n1).
          rbind (map_error RbPart
              (insert_signed_child_pczts_with_tx cipher password salt_base64 db1 run_id signed_children
                 Replacement n1)) (\<lambda>(db2, n2).
          Inr (mark_scheduled run_id now db2, n2))))))"

end
