(* ===== verification/Pending_Invariant.thy ===== *)
theory Pending_Invariant
  imports Pending_Rebuild Run_Completion
begin

text \<open>
  What every operation keeps of the table of pending transactions: its keys, what a transaction is and
  spends, and the agreement of the scheduled height with the signed expiry height.
\<close>

section \<open>Rows that move\<close>

text \<open>A row without the columns that an update may change.\<close>

definition fixed :: "pending_row \<Rightarrow> pending_row" where
  "fixed p = p\<lparr>pt_scheduled_at_ms := 0, pt_schedule_start_height := None, pt_scheduled_height := 0,
     pt_broadcast_attempted := 0, pt_status := [], pt_rebuild_block_offset := None\<rparr>"

definition canonical_row :: "pending_row \<Rightarrow> bool" where
  "canonical_row p \<longleftrightarrow>
     zip318_canonical_migration_expiry_height (pt_scheduled_height p) = Inr (pt_expiry_height p)"

text \<open>
  The expiry height of a scheduled transaction is the canonical one of the height it is scheduled for,
  unless a chain reorganisation put it back to its target height.
\<close>

definition height_ok :: "pending_row \<Rightarrow> bool" where
  "height_ok p \<longleftrightarrow> pt_status p = ''scheduled'' \<longrightarrow> canonical_row p \<or> pt_scheduled_height p = pt_target_height p"

definition row_step :: "pending_row \<Rightarrow> pending_row \<Rightarrow> bool" where
  "row_step p q \<longleftrightarrow> fixed q = fixed p \<and> (height_ok p \<longrightarrow> height_ok q)"

definition rows_step :: "migration_db \<Rightarrow> migration_db \<Rightarrow> bool" where
  "rows_step db db' \<longleftrightarrow> list_all2 row_step (mdb_pending db) (mdb_pending db')"

lemma row_step_refl [simp]: "row_step p p" by (simp add: row_step_def)

lemma rows_step_pending [intro]: "mdb_pending db' = mdb_pending db \<Longrightarrow> rows_step db db'"
  by (simp add: rows_step_def list.rel_refl)

lemma rows_step_trans [trans]: "rows_step db db1 \<Longrightarrow> rows_step db1 db2 \<Longrightarrow> rows_step db db2"
  unfolding rows_step_def by (rule list_all2_trans [of row_step row_step]) (auto simp: row_step_def)

lemma rows_step_update:
  assumes "\<And>p. p \<in> set (mdb_pending db) \<Longrightarrow> P p \<Longrightarrow> row_step p (f p)"
  shows "rows_step db (snd (sql_update_pending P f db))"
  using assms by (auto simp: rows_step_def sql_update_pending_def list_all2_map2 intro!: list.rel_refl_strong)

lemma fixed_set_status [simp]: "fixed (set_part_status s p) = fixed p"
  by (simp add: fixed_def set_part_status_def)

lemma set_status_step [simp]: "s \<noteq> ''scheduled'' \<Longrightarrow> row_step p (set_part_status s p)"
  by (simp add: row_step_def height_ok_def) (simp add: set_part_status_def)

lemma set_status_fields [simp]: "pt_status (set_part_status s p) = s" "pt_run_id (set_part_status s p) = pt_run_id p"
  "pt_txid_hex (set_part_status s p) = pt_txid_hex p" "pt_scheduled_height (set_part_status s p) = pt_scheduled_height p"
  "pt_expiry_height (set_part_status s p) = pt_expiry_height p"
  by (simp_all add: set_part_status_def)

lemma sql_update_pending_tables [simp]:
  "mdb_runs (snd (sql_update_pending P f db)) = mdb_runs db"
  "mdb_notes (snd (sql_update_pending P f db)) = mdb_notes db"
  "mdb_children (snd (sql_update_pending P f db)) = mdb_children db"
  "mdb_stages (snd (sql_update_pending P f db)) = mdb_stages db"
  by (simp_all add: sql_update_pending_def)

lemma fixed_fields:
  assumes "fixed p = fixed q"
  shows "pt_run_id p = pt_run_id q" "pt_txid_hex p = pt_txid_hex q" "pt_part_index p = pt_part_index q"
    "pt_expiry_height p = pt_expiry_height q" "pt_target_height p = pt_target_height q"
    "pt_value_zatoshi p = pt_value_zatoshi q" "pt_encrypted_raw_tx p = pt_encrypted_raw_tx q"
  using assms by (cases p; cases q; simp add: fixed_def)+

lemma rows_step_origin:
  assumes "rows_step db db'" and "q \<in> set (mdb_pending db')"
  shows "\<exists>p \<in> set (mdb_pending db). row_step p q"
  using assms by (fastforce simp: rows_step_def list_all2_conv_all_nth in_set_conv_nth)

lemma rows_step_fixed: "rows_step db db' \<Longrightarrow> map fixed (mdb_pending db') = map fixed (mdb_pending db)"
  by (auto simp: rows_step_def row_step_def list_all2_conv_all_nth intro!: nth_equalityI)

text \<open>The key columns of the rows, in order.\<close>

definition part_keys :: "migration_db \<Rightarrow> (string \<times> string \<times> u32 option) list" where
  "part_keys db = map (\<lambda>p. (pt_run_id p, pt_txid_hex p, pt_part_index p)) (mdb_pending db)"

lemma rows_step_keys:
  assumes "rows_step db db'"
  shows "part_keys db' = part_keys db"
proof -
  have "part_keys d = map (\<lambda>p. (pt_run_id p, pt_txid_hex p, pt_part_index p)) (map fixed (mdb_pending d))" for d
    by (simp add: part_keys_def fixed_def comp_def)
  then show ?thesis using rows_step_fixed [OF assms] by metis
qed

definition keys_unique :: "(string \<times> string \<times> u32 option) list \<Rightarrow> bool" where
  "keys_unique ks \<longleftrightarrow> distinct (map (\<lambda>(r, t, i). t) ks)
     \<and> distinct (map (\<lambda>(r, t, i). (r, i)) (filter (\<lambda>(r, t, i). i \<noteq> None) ks))
     \<and> (\<forall>(r, t, i) \<in> set ks. to_ascii_lowercase t = t)"

definition pending_ok :: "migration_db \<Rightarrow> bool" where
  "pending_ok db \<longleftrightarrow> keys_unique (part_keys db) \<and> (\<forall>p \<in> set (mdb_pending db). height_ok p)"

lemma pending_ok_txids:
  assumes "pending_ok db"
  shows "distinct (map pt_txid_hex (mdb_pending db))"
    and "p \<in> set (mdb_pending db) \<Longrightarrow> to_ascii_lowercase (pt_txid_hex p) = pt_txid_hex p"
  using assms by (auto simp: pending_ok_def keys_unique_def part_keys_def comp_def)

lemma rows_step_ok: "rows_step db db' \<Longrightarrow> pending_ok db \<Longrightarrow> pending_ok db'"
  unfolding pending_ok_def using rows_step_keys rows_step_origin by (metis row_step_def)

section \<open>Following the chain\<close>

lemma confirm_pending_step: "rows_step db (confirm_pending rid t db)"
  unfolding confirm_pending_def by (rule rows_step_update) (simp add: row_step_def fixed_def height_ok_def)

lemma reschedule_reorged_step: "rows_step db (reschedule_reorged now rid t db)"
  unfolding reschedule_reorged_def by (rule rows_step_update) (simp add: row_step_def fixed_def height_ok_def)

lemma confirm_rows_step:
  "confirm_rows identity now rid rows (re, db) = (res, db') \<Longrightarrow> rows_step db db'"
proof (induction rows arbitrary: re db)
  case Nil
  then show ?case by (simp add: rows_step_pending)
next
  case (Cons row rows)
  obtain t s where row: "row = (t, s)" by fastforce
  consider "db' = db" | re1 db1 where "rows_step db db1" "confirm_rows identity now rid rows (re1, db1) = (res, db')"
    using Cons.prems confirm_pending_step [of db rid t] reschedule_reorged_step [of db now rid t] rows_step_pending [of db db]
    by (auto simp: row split: sum.splits option.splits if_splits)
  then show ?case
  proof cases
    case 2
    then show ?thesis using Cons.IH rows_step_trans by blast
  qed (simp add: rows_step_pending)
qed

lemma complete_run_pending [simp]: "mdb_pending (complete_run rid now db) = mdb_pending db"
  by (auto simp: complete_run_def set_note_locks_def delete_children_def sql_update_runs_def)

lemma finish_confirmations_pending:
  "finish_confirmations required identity depth now done_at rid phase n db = (res, db') \<Longrightarrow>
     mdb_pending db' = mdb_pending db"
  by (auto simp: finish_confirmations_def split: sum.splits option.splits bool.splits if_splits)

lemma reconcile_rows_step:
  assumes "reconcile_run_confirmations trusted unhex chain now done_at db rid = (res, db')"
  shows "rows_step db db'"
proof (cases "wc_transactions chain = None")
  case True
  then show ?thesis using assms by (auto simp: reconcile_run_confirmations_def)
next
  case False
  let ?i = "local_denomination_chain_identity unhex chain"
  let ?rows = "map (\<lambda>p. (pt_txid_hex p, pt_status p)) (filter (\<lambda>p. pt_status p \<in> followed_statuses) (pending_rows db rid))"
  obtain r1 db1 where c: "confirm_rows ?i now rid ?rows (False, db) = (r1, db1)" by fastforce
  note step = confirm_rows_step [OF c]
  show ?thesis
  proof (cases r1)
    case (Inl e)
    then show ?thesis using assms c False step by (auto simp: reconcile_run_confirmations_def Let_def)
  next
    case (Inr re)
    have "mdb_pending db' = mdb_pending db1"
      using assms c False Inr unfolding reconcile_run_confirmations_def Let_def
      by (auto split: sum.splits prod.splits if_splits dest!: finish_confirmations_pending)
    then show ?thesis using step rows_step_trans rows_step_pending by metis
  qed
qed

section \<open>Heights that are drawn again\<close>

lemma canonical_expiry_eq [simp]:
  "canonical_expiry h = Inr x \<longleftrightarrow> zip318_canonical_migration_expiry_height h = Inr x"
  by (auto simp: canonical_expiry_def map_error_def split: sum.splits)

lemma redraw_rows_step:
  assumes "redraw_rows start_ms rid tip min_delay txs (b, db) = Inr (b', db')"
    and "distinct (map pt_txid_hex (mdb_pending db))"
    and "\<forall>((t, e), d) \<in> set txs. \<forall>p \<in> set (mdb_pending db). pt_txid_hex p = t \<longrightarrow> pt_expiry_height p = e"
  shows "rows_step db db'"
  using assms
proof (induction txs arbitrary: b db)
  case (Cons tx txs)
  obtain t e d where tx: "tx = ((t, e), d)" by (metis prod.exhaust)
  obtain h x where h: "checked_add 32 tip (max d min_delay) = Some h" "canonical_expiry h = Inr x"
    using Cons.prems(1) by (auto simp: tx Let_def)
  have next_step: "rows_step db db1 \<and> (\<exists>b1. redraw_rows start_ms rid tip min_delay txs (b1, db1) = Inr (b', db'))"
    if "db1 = (if x \<noteq> e then snd (sql_update_pending (scheduled_row rid t) (set_part_status ''needs_resign'') db)
        else snd (sql_update_pending (scheduled_row rid t)
          (redraw_row h tip (the (add_ms start_ms (max d min_delay)))) db))" for db1
  proof (cases "x = e")
    case True
    have "row_step p (redraw_row h tip ms p)" if "p \<in> set (mdb_pending db)" "scheduled_row rid t p" for p ms
      using Cons.prems(3) that h(2) True
      by (auto simp: row_step_def fixed_def redraw_row_def height_ok_def canonical_row_def scheduled_row_def tx)
    then show ?thesis using that True Cons.prems(1) h by (auto simp: tx Let_def intro!: rows_step_update)
  next
    case False
    then show ?thesis using that Cons.prems(1) h by (auto simp: tx Let_def intro!: rows_step_update)
  qed
  define db1 where "db1 = (if x \<noteq> e then snd (sql_update_pending (scheduled_row rid t) (set_part_status ''needs_resign'') db)
        else snd (sql_update_pending (scheduled_row rid t)
          (redraw_row h tip (the (add_ms start_ms (max d min_delay)))) db))"
  from next_step [OF db1_def] obtain b1 where step: "rows_step db db1"
    and rest: "redraw_rows start_ms rid tip min_delay txs (b1, db1) = Inr (b', db')" by blast
  have "distinct (map (\<lambda>(r, t, i). t) (part_keys db1))"
    unfolding rows_step_keys [OF step] using Cons.prems(2) by (simp add: part_keys_def comp_def)
  then have "distinct (map pt_txid_hex (mdb_pending db1))" by (simp add: part_keys_def comp_def)
  moreover have "\<forall>((t, e), d) \<in> set txs. \<forall>p \<in> set (mdb_pending db1). pt_txid_hex p = t \<longrightarrow> pt_expiry_height p = e"
  proof -
    have "pt_expiry_height p = e'" if i: "((t', e'), d') \<in> set txs" "p \<in> set (mdb_pending db1)" "pt_txid_hex p = t'"
      for t' e' d' p
    proof -
      obtain q where q: "q \<in> set (mdb_pending db)" "fixed p = fixed q"
        using rows_step_origin [OF step i(2)] unfolding row_step_def by blast
      moreover have "pt_txid_hex q = t'" using fixed_fields(2) [OF q(2)] i(3) by simp
      moreover have "\<forall>p \<in> set (mdb_pending db). pt_txid_hex p = t' \<longrightarrow> pt_expiry_height p = e'"
        using Cons.prems(3) i(1) by fastforce
      ultimately show ?thesis using fixed_fields(4) by metis
    qed
    then show ?thesis by blast
  qed
  ultimately show ?case using Cons.IH [OF rest] step rows_step_trans by blast
qed (auto simp: rows_step_pending)

lemma reschedule_overdue_step:
  assumes "reschedule_overdue_pending_txs_with_options env start_ms now db rid network tip min_delay excluded g
      = Some (Inr (db', g'))"
    and "distinct (map pt_txid_hex (mdb_pending db))" and "shuffles env"
  shows "rows_step db db'"
proof (cases "overdue_txids db rid tip excluded = []")
  case True
  then show ?thesis using assms(1)
    by (auto simp: reschedule_overdue_pending_txs_with_options_def Let_def)
next
  case False
  let ?txs = "overdue_txids db rid tip excluded"
  obtain perm g1 where perm: "shuffle_perm env (length ?txs) g = (perm, g1)" by fastforce
  obtain offsets b db1 where r: "redraw_rows start_ms rid tip min_delay (zip (apply_perm perm ?txs) offsets) (False, db) = Inr (b, db1)"
    and db': "db' = (if b then ready_for_signing rid now needs_resign_message db1 else db1)"
    using assms(1) False
    by (auto simp: reschedule_overdue_pending_txs_with_options_def Let_def perm split: sum.splits prod.splits)
  have perm_set: "set perm = {0 ..< length ?txs}"
    using assms(3) perm unfolding shuffles_def by (metis fst_conv set_mset_mset atLeastLessThan_upt)
  have "pt_expiry_height p = e"
    if i: "((t, e), d) \<in> set (zip (apply_perm perm ?txs) offsets)" "p \<in> set (mdb_pending db)" "pt_txid_hex p = t"
    for t e d p
  proof -
    have "(t, e) \<in> set (apply_perm perm ?txs)" using i(1) by (rule set_zip_leftD)
    then have "(t, e) \<in> set ?txs" using perm_set by (auto simp: apply_perm_def)
    then obtain q where "q \<in> set (mdb_pending db)" "pt_txid_hex q = t" "pt_expiry_height q = e"
      by (auto simp: overdue_txids_def due_rows_def pending_rows_def)
    then show ?thesis using assms(2) i(2,3) by (metis distinct_map inj_onD)
  qed
  then have "\<forall>((t, e), d) \<in> set (zip (apply_perm perm ?txs) offsets). \<forall>p \<in> set (mdb_pending db).
      pt_txid_hex p = t \<longrightarrow> pt_expiry_height p = e" by blast
  from redraw_rows_step [OF r assms(2) this] show ?thesis
    unfolding db' using rows_step_trans [of db db1] rows_step_pending
    by (auto simp: ready_for_signing_def sql_update_runs_def)
qed

section \<open>The other updates\<close>

lemma ready_for_signing_pending [simp]: "mdb_pending (ready_for_signing rid now m db) = mdb_pending db"
  by (simp add: ready_for_signing_def sql_update_runs_def)

lemma resign_all_step: "resign_all rid ts (n, db) = (n', db') \<Longrightarrow> rows_step db db'"
proof (induction ts arbitrary: n db)
  case (Cons t ts)
  obtain m db1 where u: "sql_update_pending (\<lambda>p. pt_run_id p = rid \<and> pt_txid_hex p = t
      \<and> pt_status p \<in> {''scheduled'', ''broadcasted''}) (set_part_status ''needs_resign'') db = (m, db1)" by fastforce
  have "rows_step db (snd (sql_update_pending (\<lambda>p. pt_run_id p = rid \<and> pt_txid_hex p = t
      \<and> pt_status p \<in> {''scheduled'', ''broadcasted''}) (set_part_status ''needs_resign'') db))"
    by (rule rows_step_update) simp
  then have "rows_step db db1" unfolding u by simp
  moreover have "resign_all rid ts (n + m, db1) = (n', db')" using Cons.prems u by simp
  ultimately show ?case using Cons.IH rows_step_trans by blast
qed (simp add: rows_step_pending)

lemma mark_expired_step:
  "mark_expired_pending_parts_for_resign trusted unhex chain now done_at later db rid tip = (res, db') \<Longrightarrow>
     rows_step db db'"
proof -
  assume run: "mark_expired_pending_parts_for_resign trusted unhex chain now done_at later db rid tip = (res, db')"
  obtain r1 db1 where c: "reconcile_run_confirmations trusted unhex chain now done_at db rid = (r1, db1)" by fastforce
  note step = reconcile_rows_step [OF c]
  have "db' = db \<or> (\<exists>ts n db2. resign_all rid ts (0, db1) = (n, db2) \<and> mdb_pending db' = mdb_pending db2)"
    using run c unfolding mark_expired_pending_parts_for_resign_def
    by (auto split: sum.splits prod.splits if_splits) (metis ready_for_signing_pending | blast)+
  then show ?thesis
  proof
    assume "\<exists>ts n db2. resign_all rid ts (0, db1) = (n, db2) \<and> mdb_pending db' = mdb_pending db2"
    then obtain db2 where "rows_step db1 db2" "mdb_pending db' = mdb_pending db2" using resign_all_step by blast
    then show ?thesis using rows_step_trans [OF step] by (auto simp: rows_step_def)
  qed (simp add: rows_step_pending)
qed

lemma mark_due_step:
  "mark_due_parts_with_noncanonical_broadcast_height_for_resign trusted unhex chain now done_at later db rid tip
     = (res, db') \<Longrightarrow> rows_step db db'"
proof -
  assume run: "mark_due_parts_with_noncanonical_broadcast_height_for_resign trusted unhex chain now done_at later db rid tip
     = (res, db')"
  show ?thesis
  proof (cases "canonical_expiry tip")
    case (Inl e)
    then show ?thesis using run
      by (auto simp: mark_due_parts_with_noncanonical_broadcast_height_for_resign_def)
  next
    case (Inr x)
    obtain r1 db1 where c: "reconcile_run_confirmations trusted unhex chain now done_at db rid = (r1, db1)" by fastforce
    let ?P = "\<lambda>p. pt_run_id p = rid \<and> pt_status p = ''scheduled'' \<and> pt_scheduled_height p \<le> tip \<and> pt_expiry_height p \<noteq> x"
    have "rows_step db1 (snd (sql_update_pending ?P (set_part_status ''needs_resign'') db1))"
      by (rule rows_step_update) simp
    then have step: "rows_step db (snd (sql_update_pending ?P (set_part_status ''needs_resign'') db1))"
      using reconcile_rows_step [OF c] rows_step_trans by blast
    show ?thesis
    proof (cases r1)
      case (Inl e)
      then show ?thesis using run Inr c
        by (auto simp: mark_due_parts_with_noncanonical_broadcast_height_for_resign_def)
    next
      case (Inr u)
      then have "mdb_pending db' = mdb_pending (snd (sql_update_pending ?P (set_part_status ''needs_resign'') db1))"
        using run \<open>canonical_expiry tip = Inr x\<close> c
        by (auto simp: mark_due_parts_with_noncanonical_broadcast_height_for_resign_def split: prod.splits if_splits)
      then show ?thesis using step by (simp add: rows_step_def)
    qed
  qed
qed

lemma update_run_pending:
  "update_run_after_pending_broadcast now db rid = Inr db' \<Longrightarrow> mdb_pending db' = mdb_pending db"
  by (auto simp: update_run_after_pending_broadcast_def Let_def sql_update_runs_def)

lemma mark_broadcasted_step:
  "mark_pending_broadcasted now db rid t = Inr db' \<Longrightarrow> rows_step db db'"
proof -
  assume "mark_pending_broadcasted now db rid t = Inr db'"
  then have "mdb_pending db' = mdb_pending (snd (sql_update_pending (\<lambda>p. pt_run_id p = rid \<and> pt_txid_hex p = t)
      (set_part_status ''broadcasted'') db))"
    using update_run_pending by (auto simp: mark_pending_broadcasted_def)
  moreover have "rows_step db (snd (sql_update_pending (\<lambda>p. pt_run_id p = rid \<and> pt_txid_hex p = t)
      (set_part_status ''broadcasted'') db))" by (rule rows_step_update) simp
  ultimately show ?thesis by (simp add: rows_step_def)
qed

lemma mark_attempted_step:
  "mark_pending_broadcast_attempted db rid t = Inr db' \<Longrightarrow> rows_step db db'"
proof -
  assume run: "mark_pending_broadcast_attempted db rid t = Inr db'"
  have "rows_step db (snd (sql_update_pending
      (\<lambda>p. pt_run_id p = rid \<and> pt_txid_hex p = t \<and> pt_status p = ''scheduled'') (\<lambda>p. p\<lparr>pt_broadcast_attempted := 1\<rparr>) db))"
    by (rule rows_step_update) (simp add: row_step_def fixed_def height_ok_def canonical_row_def)
  then show ?thesis using run
    by (auto simp: mark_pending_broadcast_attempted_def split: prod.splits if_splits)
qed

section \<open>The receipt\<close>

lemma same_txid_unique:
  assumes "pending_ok db" and "p \<in> set (mdb_pending db)" and "q \<in> set (mdb_pending db)"
    and "same_txid rid t p" and "same_txid rid t q"
  shows "p = q"
  using pending_ok_txids [OF assms(1)] assms(2-5) unfolding same_txid_def
  by (metis distinct_map inj_onD)

lemma find_pending:
  "find P (mdb_pending db) = Some p \<Longrightarrow> p \<in> set (mdb_pending db) \<and> P p"
  by (auto simp: find_Some_iff)

lemma apply_update_step:
  assumes "apply_update rid u (c, db) = Inr (c', db')" and "pending_ok db"
  shows "rows_step db db'"
proof -
  let ?t = "to_ascii_lowercase (su_item_id u)"
  let ?P = "\<lambda>q. same_txid rid ?t q \<and> pt_status q = ''scheduled''"
  obtain p x where p: "find (same_txid rid ?t) (mdb_pending db) = Some p"
    "zip318_canonical_migration_expiry_height (su_scheduled_height u) = Inr x"
    using assms(1) by (auto simp: apply_update_def Let_def)
  note found = find_pending [OF p(1)]
  have move: "rows_step db (snd (sql_update_pending ?P (move_height (su_scheduled_height u) (su_schedule_start_height u)) db))"
    if "x = pt_expiry_height p"
  proof (rule rows_step_update)
    fix q assume "q \<in> set (mdb_pending db)" "?P q"
    then have "q = p" using same_txid_unique [OF assms(2)] found by blast
    then show "row_step q (move_height (su_scheduled_height u) (su_schedule_start_height u) q)"
      using p(2) that by (auto simp: row_step_def fixed_def move_height_def height_ok_def canonical_row_def)
  qed
  have resign: "rows_step db (snd (sql_update_pending ?P (set_part_status ''needs_resign'') db))"
    by (rule rows_step_update) simp
  show ?thesis
    using assms(1) p move resign by (auto simp: apply_update_def Let_def rows_step_pending split: if_splits)
qed

lemma apply_updates_step:
  assumes "try_fold (\<lambda>state u. apply_update rid u state) (c, db) us = Inr (c', db')" and "pending_ok db"
  shows "rows_step db db'"
  using assms
proof (induction us arbitrary: c db)
  case (Cons u us)
  then obtain c1 db1 where s: "apply_update rid u (c, db) = Inr (c1, db1)"
    "try_fold (\<lambda>state u. apply_update rid u state) (c1, db1) us = Inr (c', db')" by auto
  have "rows_step db db1" using apply_update_step s(1) Cons.prems(2) by blast
  then show ?case using Cons.IH [OF s(2)] rows_step_ok Cons.prems(2) rows_step_trans by blast
qed (simp add: rows_step_pending)

lemma receipt_step:
  assumes "apply_accepted_migration_outbox_receipt ready_at now db account network rid t height us = Inr db'"
    and "pending_ok db"
  shows "rows_step db db'"
proof -
  obtain c db1 where f: "try_fold (\<lambda>state u. apply_update rid u state) (False, db) (sort_key update_key us) = Inr (c, db1)"
    and rest: "let db2 = (if c then ready_for_signing rid ready_at needs_resign_message db1 else db1) in
      mdb_pending db' = mdb_pending db2 \<or> mdb_pending db' = mdb_pending (snd (sql_update_pending
                  (\<lambda>p. same_txid rid t p \<and> pt_status p \<in> {''scheduled'', ''needs_resign''})
                  (set_part_status ''broadcasted'') db2))"
    using assms(1) unfolding apply_accepted_migration_outbox_receipt_def Let_def
    by (auto simp: map_error_def split: if_splits sum.splits dest!: update_run_pending)
  define db2 where "db2 = (if c then ready_for_signing rid ready_at needs_resign_message db1 else db1)"
  have "rows_step db db1" by (rule apply_updates_step [OF f assms(2)])
  moreover have "mdb_pending db2 = mdb_pending db1" by (simp add: db2_def)
  ultimately have step: "rows_step db db2" by (simp add: rows_step_def)
  have "rows_step db2 (snd (sql_update_pending (\<lambda>p. same_txid rid t p \<and> pt_status p \<in> {''scheduled'', ''needs_resign''})
                  (set_part_status ''broadcasted'') db2))"
    by (rule rows_step_update) simp
  with step have "rows_step db (snd (sql_update_pending (\<lambda>p. same_txid rid t p \<and> pt_status p \<in> {''scheduled'', ''needs_resign''})
                  (set_part_status ''broadcasted'') db2))" by (rule rows_step_trans)
  then show ?thesis using step rest unfolding Let_def db2_def [symmetric] by (auto simp: rows_step_def)
qed

end
