(* ===== verification/Pending_Reach.thy ===== *)
theory Pending_Reach
  imports Pending_Invariant
begin

text \<open>
  The insertion and the replacement of pending transactions, and the invariant of their table under every
  sequence of the operations on it.
\<close>

section \<open>Insertion\<close>

lemma map_error_eq_Inr [simp]: "map_error f r = Inr x \<longleftrightarrow> r = Inr x"
  by (cases r) (auto simp: map_error_def)

text \<open>What the check of one part establishes: its schedule entry, its height, its origin and its expiry.\<close>

definition part_accepted ::
    "schedule_entry list \<Rightarrow> u64 list \<Rightarrow> part_insert \<Rightarrow> part_insert \<times> u32 \<times> u32 \<Rightarrow> bool" where
  "part_accepted schedule target_values p row \<longleftrightarrow>
     (\<exists>e q. schedule_entry_for_pending schedule target_values p = Some e
        \<and> recover_legacy_height p (se_block_offset e) = Inr q
        \<and> row = (q, se_block_offset e, pi_scheduled_height q - se_block_offset e)
        \<and> se_block_offset e \<le> pi_scheduled_height q
        \<and> zip318_canonical_migration_expiry_height (pi_scheduled_height q) = Inr (pi_expiry_height q))"

lemma check_parts_accepted:
  assumes "check_parts db rid schedule targets persisted seen incoming ps = Inr (incoming', rows)"
  shows "list_all2 (part_accepted schedule targets) ps rows"
    and "distinct (map pi_part_index ps)" and "set (map pi_part_index ps) \<inter> seen = {}"
proof -
  have "list_all2 (part_accepted schedule targets) ps rows
     \<and> distinct (map pi_part_index ps) \<and> set (map pi_part_index ps) \<inter> seen = {}"
    using assms
  proof (induction ps arbitrary: seen incoming rows)
    case (Cons p ps)
    from Cons.prems obtain e q i1 rest where fresh: "pi_part_index p \<notin> seen"
      and e: "schedule_entry_for_pending schedule targets p = Some e"
      and q: "recover_legacy_height p (se_block_offset e) = Inr q"
      and le: "se_block_offset e \<le> pi_scheduled_height q"
      and x: "map_error PartHeight (zip318_canonical_migration_expiry_height (pi_scheduled_height q)) = Inr (pi_expiry_height q)"
      and rec: "check_parts db rid schedule targets persisted (insert (pi_part_index p) seen) i1 ps = Inr (incoming', rest)"
      and rows: "rows = (q, se_block_offset e, pi_scheduled_height q - se_block_offset e) # rest"
      by (auto split: if_splits)
    have "zip318_canonical_migration_expiry_height (pi_scheduled_height q) = Inr (pi_expiry_height q)"
      using x by (auto simp: map_error_def split: sum.splits)
    then show ?case using Cons.IH [OF rec] fresh e q le rows by (auto simp: part_accepted_def)
  qed simp
  then show "list_all2 (part_accepted schedule targets) ps rows"
    and "distinct (map pi_part_index ps)" and "set (map pi_part_index ps) \<inter> seen = {}" by blast+
qed

text \<open>Recovering a legacy height changes nothing else of a part.\<close>

lemma recover_legacy_height_Inr:
  "recover_legacy_height p d = Inr q \<Longrightarrow> \<exists>h. q = p\<lparr>pi_scheduled_height := h\<rparr>"
proof -
  assume "recover_legacy_height p d = Inr q"
  then have "q = p \<or> (\<exists>h. q = p\<lparr>pi_scheduled_height := h\<rparr>)"
    by (auto simp: recover_legacy_height_def map_error_def split: if_splits sum.splits)
  moreover have "p = p\<lparr>pi_scheduled_height := pi_scheduled_height p\<rparr>" by simp
  ultimately show ?thesis by blast
qed

lemma insert_pending_row_ok:
  assumes "insert_pending_row p db = Inr db'" and "pending_ok db"
    and "to_ascii_lowercase (pt_txid_hex p) = pt_txid_hex p" and "height_ok p"
  shows "pending_ok db'" and "db' = db\<lparr>mdb_pending := mdb_pending db @ [p]\<rparr>"
proof -
  show db': "db' = db\<lparr>mdb_pending := mdb_pending db @ [p]\<rparr>"
    using assms(1) by (auto simp: insert_pending_row_def split: if_splits)
  have new: "\<forall>q \<in> set (mdb_pending db). pt_txid_hex q \<noteq> pt_txid_hex p
      \<and> \<not> (pt_run_id q = pt_run_id p \<and> pt_part_index q = pt_part_index p \<and> pt_part_index p \<noteq> None)"
    using assms(1) by (auto simp: insert_pending_row_def list_ex_iff split: if_splits)
  have "keys_unique (part_keys db @ [(pt_run_id p, pt_txid_hex p, pt_part_index p)])"
    using new assms(2,3) unfolding pending_ok_def keys_unique_def
    by (auto simp: part_keys_def image_iff)
  then show "pending_ok db'" using assms(2,4) by (auto simp: db' pending_ok_def part_keys_def)
qed

text \<open>The bytes of the part, encrypted.\<close>

definition sealed_part :: "'n payload_cipher \<Rightarrow> byte list \<Rightarrow> byte list \<Rightarrow> part_insert \<Rightarrow> pending_row \<Rightarrow> bool" where
  "sealed_part cipher password salt p q \<longleftrightarrow> pt_txid_hex q = pi_txid_hex p
     \<and> (\<exists>n n'. encrypt_payload cipher (pi_raw_tx p) password salt n = Some (pt_encrypted_raw_tx q, n'))"

definition row_made ::
    "'n payload_cipher \<Rightarrow> byte list \<Rightarrow> byte list \<Rightarrow> string \<Rightarrow> part_insert \<times> u32 \<times> u32 \<Rightarrow> pending_row \<Rightarrow> bool" where
  "row_made cipher password salt rid row p \<longleftrightarrow> sealed_part cipher password salt (fst row) p
     \<and> (\<exists>c ms. p = pending_row_of rid c ms (snd (snd row)) (fst row))"

lemma insert_part_rows_ok:
  assumes "insert_part_rows cipher password salt start_ms rid rows (db, n) = Inr (db', n')" and "pending_ok db"
    and "\<forall>(q, d, og) \<in> set rows. to_ascii_lowercase (pi_txid_hex q) = pi_txid_hex q
       \<and> zip318_canonical_migration_expiry_height (pi_scheduled_height q) = Inr (pi_expiry_height q)"
  shows "pending_ok db'"
    and "\<exists>new. db' = db\<lparr>mdb_pending := mdb_pending db @ new\<rparr>
       \<and> list_all2 (row_made cipher password salt rid) rows new"
proof -
  have "pending_ok db' \<and> (\<exists>new. db' = db\<lparr>mdb_pending := mdb_pending db @ new\<rparr>
       \<and> list_all2 (row_made cipher password salt rid) rows new)"
    using assms
  proof (induction rows arbitrary: db n)
    case Nil
    then show ?case by (auto intro!: exI [of _ "[]"])
  next
    case (Cons row rows)
    obtain q d og where row: "row = (q, d, og)" by (metis prod.exhaust)
    from Cons.prems(1) obtain c n1 ms db1 where
      enc: "encrypt_payload cipher (pi_raw_tx q) password salt n = Some (c, n1)" and
      "insert_pending_row (pending_row_of rid c ms og q) db = Inr db1"
      and rest: "insert_part_rows cipher password salt start_ms rid rows (db1, n1) = Inr (db', n')"
      by (auto simp: row)
    moreover have "height_ok (pending_row_of rid c ms og q)"
      using Cons.prems(3) by (auto simp: row height_ok_def canonical_row_def pending_row_of_def)
    moreover have "to_ascii_lowercase (pt_txid_hex (pending_row_of rid c ms og q)) = pt_txid_hex (pending_row_of rid c ms og q)"
      using Cons.prems(3) by (simp add: row pending_row_of_def)
    ultimately have ok1: "pending_ok db1" and db1: "db1 = db\<lparr>mdb_pending := mdb_pending db @ [pending_row_of rid c ms og q]\<rparr>"
      using insert_pending_row_ok Cons.prems(2) by blast+
    have "\<forall>(q, d, og) \<in> set rows. to_ascii_lowercase (pi_txid_hex q) = pi_txid_hex q
       \<and> zip318_canonical_migration_expiry_height (pi_scheduled_height q) = Inr (pi_expiry_height q)"
      using Cons.prems(3) by simp
    from Cons.IH [OF rest ok1 this] obtain new where "pending_ok db'"
      "db' = db1\<lparr>mdb_pending := mdb_pending db1 @ new\<rparr>"
      "list_all2 (row_made cipher password salt rid) rows new" by blast
    moreover have "row_made cipher password salt rid row (pending_row_of rid c ms og q)"
      using enc by (auto simp: row_made_def row sealed_part_def pending_row_of_def)
    ultimately show ?case
      by (intro conjI exI [of _ "pending_row_of rid c ms og q # new"]) (auto simp: db1)
  qed
  then show "pending_ok db'" and "\<exists>new. db' = db\<lparr>mdb_pending := mdb_pending db @ new\<rparr>
       \<and> list_all2 (row_made cipher password salt rid) rows new" by blast+
qed

text \<open>The run after an insertion: its schedule, the origin of the signed schedule, its phase.\<close>

definition inserted_run :: "schedule_entry list \<Rightarrow> u32 option \<Rightarrow> int \<Rightarrow> run_row \<Rightarrow> run_row" where
  "inserted_run schedule incoming now r =
     move_run PHASE_BROADCAST_SCHEDULED now None
       (r\<lparr>rr_schedule := schedule,
          rr_signed_schedule_origin_height :=
            (case rr_signed_schedule_origin_height r of None \<Rightarrow> incoming | Some origin \<Rightarrow> Some origin)\<rparr>)"

lemma insert_pending_txs_cases:
  assumes "insert_pending_txs_with_tx env flavor cipher password salt start_ms now db rid parts n g = Some (Inr (db', n', g'))"
    and "run_of db rid = Inr r"
  shows "\<exists>network policy schedule db1 db2 incoming rows salt_bytes.
     run_network flavor db rid = Inr network \<and> timing_policy_for_run_with_conn db rid = Inr policy
     \<and> ensure_run_schedule env network policy rid r db g = Some (schedule, db1, g')
     \<and> validate_schedule_with_policy schedule (rr_target_values r) network policy = Inr ()
     \<and> check_parts db1 rid schedule (rr_target_values r) (rr_signed_schedule_origin_height r) {} None parts = Inr (incoming, rows)
     \<and> decode_salt cipher salt = Some salt_bytes
     \<and> insert_part_rows cipher password salt_bytes start_ms rid rows
          (if rr_signed_schedule_origin_height r = None then set_schedule_origin rid incoming db1 else db1, n) = Inr (db2, n')
     \<and> db' = mark_scheduled rid now db2"
proof -
  obtain network policy where np: "run_network flavor db rid = Inr network" "timing_policy_for_run_with_conn db rid = Inr policy"
    using assms by (cases "run_network flavor db rid"; cases "timing_policy_for_run_with_conn db rid")
       (simp_all add: insert_pending_txs_with_tx_def map_error_def)
  obtain schedule db1 where e: "ensure_run_schedule env network policy rid r db g = Some (schedule, db1, g')"
    and res: "rbind (map_error PartSchedule
                (validate_schedule_with_policy schedule (rr_target_values r) network policy)) (\<lambda>_.
            rbind (check_parts db1 rid schedule (rr_target_values r)
                (rr_signed_schedule_origin_height r) {} None parts) (\<lambda>(incoming, rows).
            rbind (ok_or PartSaltInvalid (decode_salt cipher salt)) (\<lambda>salt.
            rbind (insert_part_rows cipher password salt start_ms rid rows
                (if rr_signed_schedule_origin_height r = None
                 then set_schedule_origin rid incoming db1 else db1, n)) (\<lambda>(db2, n').
            Inr (mark_scheduled rid now db2, n', g'))))) = Inr (db', n', g')"
    using assms(1) unfolding insert_pending_txs_with_tx_def assms(2) np map_error_def rbind_simps sum.case prod.case
    by (auto simp: map_error_def)
  from res obtain incoming rows salt_bytes db2 where
    "validate_schedule_with_policy schedule (rr_target_values r) network policy = Inr ()"
    "check_parts db1 rid schedule (rr_target_values r) (rr_signed_schedule_origin_height r) {} None parts = Inr (incoming, rows)"
    "insert_part_rows cipher password salt_bytes start_ms rid rows
          (if rr_signed_schedule_origin_height r = None then set_schedule_origin rid incoming db1 else db1, n) = Inr (db2, n')"
    "db' = mark_scheduled rid now db2" "decode_salt cipher salt = Some salt_bytes"
    by (auto split: prod.splits)
  with np e show ?thesis by blast
qed

lemma schedule_entry_offset:
  "map_option se_block_offset (schedule_entry_for_pending schedule targets p) =
     schedule_block_offset_for_part schedule targets (pi_part_index p) (pi_value_zatoshi p)"
  by (auto simp: schedule_entry_for_pending_def schedule_block_offset_for_part_def slice_get_def Let_def)

text \<open>A part that is in the schedule pays what was planned for its index.\<close>

lemma schedule_entry_value:
  assumes "validate_schedule_with_policy schedule targets network policy = Inr ()"
    and "schedule_entry_for_pending schedule targets p = Some e"
  shows "pi_part_index p < length targets \<and> targets ! pi_part_index p = pi_value_zatoshi p"
proof (cases "list_all (\<lambda>e. se_part_index e \<noteq> None) schedule")
  case True
  then have e: "e \<in> set schedule" "se_part_index e = Some (pi_part_index p)" "se_value_zatoshi e = pi_value_zatoshi p"
    using assms(2) by (auto simp: schedule_entry_for_pending_def find_Some_iff)
  then have "\<not> list_all (\<lambda>e. se_part_index e = None) schedule" by (auto simp: list_all_iff)
  moreover have "validate_schedule_part_indexes schedule targets = Inr ()"
    using assms(1) by (auto simp: validate_schedule_with_policy_def split: if_splits)
  moreover have "\<not> list_ex (\<lambda>e. se_part_index e = None) schedule"
    using True by (auto simp: list_all_iff list_ex_iff)
  ultimately have "indexes_targets schedule targets"
    by (simp add: validate_schedule_part_indexes_def check_part_indexes_iff)
  then show ?thesis using e by (auto simp: indexes_targets_def)
next
  case False
  then show ?thesis using assms(2) by (auto simp: schedule_entry_for_pending_def split: if_splits)
qed

definition scheduled_part :: "schedule_entry list \<Rightarrow> u64 list \<Rightarrow> string \<Rightarrow> part_insert \<Rightarrow> pending_row \<Rightarrow> bool" where
  "scheduled_part schedule targets rid p q \<longleftrightarrow>
     pt_run_id q = rid \<and> pt_txid_hex q = pi_txid_hex p \<and> pt_part_index q = Some (pi_part_index p)
     \<and> pt_status q = ''scheduled'' \<and> pt_broadcast_attempted q = 0
     \<and> pi_part_index p < length targets \<and> pt_value_zatoshi q = targets ! pi_part_index p
     \<and> pt_expiry_height q = pi_expiry_height p \<and> canonical_row q
     \<and> pt_original_scheduled_height q = Some (pt_scheduled_height q)
     \<and> (\<exists>d origin. schedule_block_offset_for_part schedule targets (pi_part_index p) (pi_value_zatoshi p) = Some d
          \<and> pt_schedule_start_height q = Some origin \<and> pt_scheduled_height q = origin + d)"

lemma scheduled_part_row:
  assumes "validate_schedule_with_policy schedule targets network policy = Inr ()"
    and "part_accepted schedule targets p (q, d, og)"
  shows "scheduled_part schedule targets rid p (pending_row_of rid c ms og q)"
proof -
  obtain e where e: "schedule_entry_for_pending schedule targets p = Some e"
    "recover_legacy_height p (se_block_offset e) = Inr q" "d = se_block_offset e"
    "og = pi_scheduled_height q - se_block_offset e" "se_block_offset e \<le> pi_scheduled_height q"
    "zip318_canonical_migration_expiry_height (pi_scheduled_height q) = Inr (pi_expiry_height q)"
    using assms(2) by (auto simp: part_accepted_def)
  obtain h where q: "q = p\<lparr>pi_scheduled_height := h\<rparr>" using recover_legacy_height_Inr [OF e(2)] by blast
  have "schedule_block_offset_for_part schedule targets (pi_part_index p) (pi_value_zatoshi p) = Some (se_block_offset e)"
    using schedule_entry_offset [of schedule targets p] e(1) by simp
  then show ?thesis
    using schedule_entry_value [OF assms(1) e(1)] e
    by (simp add: scheduled_part_def pending_row_of_def canonical_row_def q)
qed

lemma insert_part_rows_tables:
  "insert_part_rows cipher password salt start_ms rid rows (db, n) = Inr (db', n') \<Longrightarrow>
     mdb_runs db' = mdb_runs db \<and> mdb_notes db' = mdb_notes db \<and> mdb_children db' = mdb_children db
     \<and> mdb_stages db' = mdb_stages db"
proof (induction rows arbitrary: db n)
  case (Cons row rows)
  obtain q d og where row: "row = (q, d, og)" by (metis prod.exhaust)
  then obtain db1 n1 c ms where "insert_pending_row (pending_row_of rid c ms og q) db = Inr db1"
    "insert_part_rows cipher password salt start_ms rid rows (db1, n1) = Inr (db', n')"
    using Cons.prems by auto
  then show ?case using Cons.IH by (auto simp: insert_pending_row_def split: if_splits)
qed simp

lemma set_run_schedule_run:
  assumes "distinct (map rr_run_id (mdb_runs db))" and "run_of db rid = Inr r"
  shows "run_of (set_run_schedule rid schedule db) rid = Inr (r\<lparr>rr_schedule := schedule\<rparr>)"
    and "distinct (map rr_run_id (mdb_runs (set_run_schedule rid schedule db)))"
  using sql_update_runs_phase [OF assms, of "\<lambda>r. rr_run_id r = rid" "\<lambda>r. r\<lparr>rr_schedule := schedule\<rparr>"]
    run_of_iff [OF assms(1)] assms(2) by (auto simp: set_run_schedule_def)

lemma set_schedule_origin_run:
  assumes "distinct (map rr_run_id (mdb_runs db))" and "run_of db rid = Inr r"
  shows "run_of (set_schedule_origin rid incoming db) rid =
      Inr (r\<lparr>rr_signed_schedule_origin_height :=
        (case rr_signed_schedule_origin_height r of None \<Rightarrow> incoming | Some x \<Rightarrow> Some x)\<rparr>)"
    and "distinct (map rr_run_id (mdb_runs (set_schedule_origin rid incoming db)))"
proof -
  have rid: "rr_run_id r = rid" using run_of_iff [OF assms(1)] assms(2) by blast
  have same: "r\<lparr>rr_signed_schedule_origin_height := rr_signed_schedule_origin_height r\<rparr> = r" by simp
  show "run_of (set_schedule_origin rid incoming db) rid =
      Inr (r\<lparr>rr_signed_schedule_origin_height :=
        (case rr_signed_schedule_origin_height r of None \<Rightarrow> incoming | Some x \<Rightarrow> Some x)\<rparr>)"
  proof (cases incoming)
    case None
    then show ?thesis using assms(2) same
      by (cases "rr_signed_schedule_origin_height r") (simp_all add: set_schedule_origin_def)
  next
    case (Some origin)
    then show ?thesis
      using sql_update_runs_phase(1) [OF assms, of "\<lambda>r. rr_run_id r = rid \<and> rr_signed_schedule_origin_height r = None"
          "\<lambda>r. r\<lparr>rr_signed_schedule_origin_height := Some origin\<rparr>"] rid same
      by (cases "rr_signed_schedule_origin_height r") (simp_all add: set_schedule_origin_def)
  qed
  show "distinct (map rr_run_id (mdb_runs (set_schedule_origin rid incoming db)))"
    using sql_update_runs_phase(3) [OF assms, of "\<lambda>r. rr_run_id r = rid \<and> rr_signed_schedule_origin_height r = None"
          "\<lambda>r. r\<lparr>rr_signed_schedule_origin_height := incoming\<rparr>"] assms(1)
    by (cases incoming) (simp_all add: set_schedule_origin_def)
qed

lemma mark_scheduled_run:
  assumes "distinct (map rr_run_id (mdb_runs db))" and "run_of db rid = Inr r"
  shows "run_of (mark_scheduled rid now db) rid = Inr (move_run PHASE_BROADCAST_SCHEDULED now None r)"
  using sql_update_runs_phase(1) [OF assms, of "\<lambda>r. rr_run_id r = rid" "move_run PHASE_BROADCAST_SCHEDULED now None"]
    run_of_iff [OF assms(1)] assms(2) by (auto simp: mark_scheduled_def move_run_def)

lemma ensure_run_schedule_pending:
  "ensure_run_schedule env network policy rid r db g = Some (schedule, db', g') \<Longrightarrow>
     mdb_pending db' = mdb_pending db \<and> (rr_schedule r \<noteq> [] \<longrightarrow> schedule = rr_schedule r)"
  by (auto simp: ensure_run_schedule_def set_run_schedule_def split: if_splits)

lemma ensure_run_schedule_run:
  assumes "ensure_run_schedule env network policy rid r db g = Some (schedule, db', g')"
    and "distinct (map rr_run_id (mdb_runs db))" and "run_of db rid = Inr r"
  shows "run_of db' rid = Inr (r\<lparr>rr_schedule := schedule\<rparr>)" and "distinct (map rr_run_id (mdb_runs db'))"
proof -
  have same: "r\<lparr>rr_schedule := rr_schedule r\<rparr> = r" by simp
  show "run_of db' rid = Inr (r\<lparr>rr_schedule := schedule\<rparr>)" and "distinct (map rr_run_id (mdb_runs db'))"
    using assms set_run_schedule_run [OF assms(2,3)] same
    by (auto simp: ensure_run_schedule_def set_run_schedule_def split: if_splits)
qed

lemma set_schedule_origin_tables [simp]:
  "mdb_pending (set_schedule_origin rid incoming db) = mdb_pending db"
  "mdb_children (set_schedule_origin rid incoming db) = mdb_children db"
  "mdb_pending (mark_scheduled rid now db) = mdb_pending db"
  "mdb_children (mark_scheduled rid now db) = mdb_children db"
  by (simp_all add: set_schedule_origin_def mark_scheduled_def split: option.splits)

lemma pending_ok_cong: "mdb_pending db' = mdb_pending db \<Longrightarrow> pending_ok db' = pending_ok db"
  by (simp add: pending_ok_def part_keys_def)

text \<open>
  Where a row counts its schedule from: the origin stored with the run, the one the first part of the
  call brings when none is stored, or, for a part that replaces one whose signed child is kept with
  the same height, expiry and value, its own.
\<close>

definition retained_row :: "migration_db \<Rightarrow> pending_row \<Rightarrow> bool" where
  "retained_row db q \<longleftrightarrow>
     (\<exists>c \<in> set (mdb_children db). sc_run_id c = pt_run_id q \<and> pt_part_index q = Some (sc_child_index c)
        \<and> sc_scheduled_height c = Some (pt_scheduled_height q) \<and> sc_expiry_height c = pt_expiry_height q
        \<and> sc_value_zatoshi c = pt_value_zatoshi q)"

lemma check_parts_origins:
  "check_parts db rid schedule targets persisted seen incoming parts = Inr (incoming', rows) \<Longrightarrow>
     (persisted = None \<longrightarrow> incoming \<noteq> None \<longrightarrow> incoming' = incoming)
     \<and> (\<forall>(q, d, og) \<in> set rows. case persisted of
          None \<Rightarrow> incoming' = Some og | Some stored \<Rightarrow> og = stored \<or> retained_replacement db rid q)"
proof (induction parts arbitrary: seen incoming rows)
  case (Cons p ps)
  from Cons.prems obtain q d og incoming1 rest where rows: "rows = (q, d, og) # rest"
    and accept: "accept_origin db rid persisted incoming q og = Inr incoming1"
    and later: "check_parts db rid schedule targets persisted (insert (pi_part_index p) seen) incoming1 ps = Inr (incoming', rest)"
    by (auto split: if_splits prod.splits)
  note ih = Cons.IH [OF later]
  show ?case
  proof (cases persisted)
    case None
    then have "incoming1 = Some og" "incoming \<noteq> None \<longrightarrow> incoming1 = incoming"
      using accept by (auto simp: accept_origin_def split: option.splits if_splits)
    then show ?thesis using ih None by (auto simp: rows)
  next
    case (Some stored)
    then have "og = stored \<or> retained_replacement db rid q"
      using accept by (auto simp: accept_origin_def split: if_splits)
    then show ?thesis using ih Some by (auto simp: rows)
  qed
qed simp

lemma retained_row_of:
  "retained_replacement db rid p \<Longrightarrow> retained_row db (pending_row_of rid c ms og p)"
  by (auto simp: retained_replacement_def retained_row_def pending_row_of_def list_ex_iff)

definition from_origin :: "run_row \<Rightarrow> migration_db \<Rightarrow> u32 option \<Rightarrow> pending_row \<Rightarrow> bool" where
  "from_origin r db incoming q \<longleftrightarrow>
     (case rr_signed_schedule_origin_height r of
        None \<Rightarrow> pt_schedule_start_height q = incoming
      | Some stored \<Rightarrow> pt_schedule_start_height q = Some stored \<or> retained_row db q)"

text \<open>The whole insertion.\<close>

lemma insertion_rows:
  assumes "insert_pending_txs_with_tx env flavor cipher password salt start_ms now db rid parts n g = Some (Inr (db', n', g'))"
    and "run_of db rid = Inr r" and "pending_ok db"
    and "\<forall>p \<in> set parts. to_ascii_lowercase (pi_txid_hex p) = pi_txid_hex p"
  shows "\<exists>network policy schedule db1 incoming new sb.
     run_network flavor db rid = Inr network \<and> timing_policy_for_run_with_conn db rid = Inr policy
     \<and> ensure_run_schedule env network policy rid r db g = Some (schedule, db1, g')
     \<and> validate_schedule_with_policy schedule (rr_target_values r) network policy = Inr ()
     \<and> distinct (map pi_part_index parts) \<and> pending_ok db' \<and> mdb_pending db' = mdb_pending db @ new
     \<and> list_all2 (scheduled_part schedule (rr_target_values r) rid) parts new
     \<and> decode_salt cipher salt = Some sb \<and> list_all2 (sealed_part cipher password sb) parts new
     \<and> (\<forall>q \<in> set new. from_origin r db incoming q)
     \<and> mdb_runs db' = mdb_runs (mark_scheduled rid now
          (if rr_signed_schedule_origin_height r = None then set_schedule_origin rid incoming db1 else db1))"
proof -
  obtain network policy schedule db1 db2 incoming rows sb where c:
    "run_network flavor db rid = Inr network" "timing_policy_for_run_with_conn db rid = Inr policy"
    "ensure_run_schedule env network policy rid r db g = Some (schedule, db1, g')"
    "validate_schedule_with_policy schedule (rr_target_values r) network policy = Inr ()"
    "check_parts db1 rid schedule (rr_target_values r) (rr_signed_schedule_origin_height r) {} None parts = Inr (incoming, rows)"
    "insert_part_rows cipher password sb start_ms rid rows
          (if rr_signed_schedule_origin_height r = None then set_schedule_origin rid incoming db1 else db1, n) = Inr (db2, n')"
    "db' = mark_scheduled rid now db2" "decode_salt cipher salt = Some sb"
    using insert_pending_txs_cases [OF assms(1,2)] by blast
  let ?d = "if rr_signed_schedule_origin_height r = None then set_schedule_origin rid incoming db1 else db1"
  note e = ensure_run_schedule_pending [OF c(3)]
  note acc = check_parts_accepted [OF c(5)]
  have "\<forall>(q, d, og) \<in> set rows. to_ascii_lowercase (pi_txid_hex q) = pi_txid_hex q
       \<and> zip318_canonical_migration_expiry_height (pi_scheduled_height q) = Inr (pi_expiry_height q)"
  proof (rule ballI, clarify)
    fix q d og assume "(q, d, og) \<in> set rows"
    then obtain p where p: "p \<in> set parts" "part_accepted schedule (rr_target_values r) p (q, d, og)"
      using acc(1) by (metis list_all2_conv_all_nth in_set_conv_nth)
    then obtain x where "recover_legacy_height p x = Inr q" by (auto simp: part_accepted_def)
    from recover_legacy_height_Inr [OF this] have "pi_txid_hex q = pi_txid_hex p" by auto
    then show "to_ascii_lowercase (pi_txid_hex q) = pi_txid_hex q
       \<and> zip318_canonical_migration_expiry_height (pi_scheduled_height q) = Inr (pi_expiry_height q)"
      using p assms(4) by (auto simp: part_accepted_def)
  qed
  note rows = insert_part_rows_ok [OF c(6) _ this]
  have "pending_ok ?d" using assms(3) e pending_ok_cong [of ?d db] by simp
  note rows = rows [OF this]
  obtain new where new: "db2 = ?d\<lparr>mdb_pending := mdb_pending ?d @ new\<rparr>"
    "list_all2 (row_made cipher password sb rid) rows new" using rows(2) by blast
  have "list_all2 (scheduled_part schedule (rr_target_values r) rid) parts new"
  proof (rule list_all2_trans [OF _ acc(1) new(2)])
    fix p row q assume "part_accepted schedule (rr_target_values r) p row" and "row_made cipher password sb rid row q"
    then show "scheduled_part schedule (rr_target_values r) rid p q"
      using scheduled_part_row [OF c(4)] by (cases row) (auto simp: row_made_def)
  qed
  moreover have "list_all2 (sealed_part cipher password sb) parts new"
  proof (rule list_all2_trans [OF _ acc(1) new(2)])
    fix p row q assume "part_accepted schedule (rr_target_values r) p row" and "row_made cipher password sb rid row q"
    then show "sealed_part cipher password sb p q"
      by (fastforce simp: part_accepted_def row_made_def sealed_part_def dest!: recover_legacy_height_Inr)
  qed
  moreover have "from_origin r db incoming q" if q: "q \<in> set new" for q
  proof -
    obtain p d og where row: "(p, d, og) \<in> set rows" "row_made cipher password sb rid (p, d, og) q"
      using new(2) q unfolding list_all2_conv_all_nth by (metis in_set_conv_nth prod_cases3)
    then obtain x ms where made: "q = pending_row_of rid x ms og p" by (auto simp: row_made_def)
    have "retained_replacement db1 rid p = retained_replacement db rid p"
      using c(3) by (auto simp: retained_replacement_def ensure_run_schedule_def set_run_schedule_def split: if_splits)
    then show ?thesis
      using check_parts_origins [OF c(5)] row(1) retained_row_of [of db rid p x ms og]
      by (auto simp: from_origin_def made pending_row_of_def split: option.splits)
  qed
  moreover have "mdb_pending db' = mdb_pending db @ new" using c(7) new(1) e by simp
  moreover have "pending_ok db'" using rows(1) c(7) pending_ok_cong [of db' db2] by simp
  moreover have "mdb_runs db' = mdb_runs (mark_scheduled rid now ?d)"
    by (simp add: c(7) new(1) mark_scheduled_def sql_update_runs_def)
  ultimately show ?thesis using c(1-4,8) acc(2) by blast
qed

lemma insertion_result:
  assumes "insert_pending_txs_with_tx env flavor cipher password salt start_ms now db rid parts n g = Some (Inr (db', n', g'))"
    and "run_of db rid = Inr r" and "distinct (map rr_run_id (mdb_runs db))" and "pending_ok db"
    and "\<forall>p \<in> set parts. to_ascii_lowercase (pi_txid_hex p) = pi_txid_hex p"
  shows "pending_ok db' \<and> distinct (map pi_part_index parts)
     \<and> (\<exists>network policy schedule incoming new sb.
          run_network flavor db rid = Inr network \<and> timing_policy_for_run_with_conn db rid = Inr policy
          \<and> validate_schedule_with_policy schedule (rr_target_values r) network policy = Inr ()
          \<and> (rr_schedule r \<noteq> [] \<longrightarrow> schedule = rr_schedule r)
          \<and> mdb_pending db' = mdb_pending db @ new
          \<and> list_all2 (scheduled_part schedule (rr_target_values r) rid) parts new
          \<and> (\<forall>q \<in> set new. from_origin r db incoming q)
          \<and> decode_salt cipher salt = Some sb \<and> list_all2 (sealed_part cipher password sb) parts new
          \<and> run_of db' rid = Inr (inserted_run schedule incoming now r))"
proof -
  obtain network policy schedule db1 incoming new sb where c:
    "run_network flavor db rid = Inr network" "timing_policy_for_run_with_conn db rid = Inr policy"
    "ensure_run_schedule env network policy rid r db g = Some (schedule, db1, g')"
    "validate_schedule_with_policy schedule (rr_target_values r) network policy = Inr ()"
    "distinct (map pi_part_index parts)" "pending_ok db'" "mdb_pending db' = mdb_pending db @ new"
    "list_all2 (scheduled_part schedule (rr_target_values r) rid) parts new"
    "mdb_runs db' = mdb_runs (mark_scheduled rid now
          (if rr_signed_schedule_origin_height r = None then set_schedule_origin rid incoming db1 else db1))"
    "decode_salt cipher salt = Some sb" "list_all2 (sealed_part cipher password sb) parts new"
    "\<forall>q \<in> set new. from_origin r db incoming q"
    using insertion_rows [OF assms(1,2,4,5)] by blast
  let ?d = "if rr_signed_schedule_origin_height r = None then set_schedule_origin rid incoming db1 else db1"
  let ?r1 = "r\<lparr>rr_schedule := schedule\<rparr>"
  let ?r2 = "?r1\<lparr>rr_signed_schedule_origin_height :=
        (case rr_signed_schedule_origin_height r of None \<Rightarrow> incoming | Some x \<Rightarrow> Some x)\<rparr>"
  note e = ensure_run_schedule_run [OF c(3) assms(3,2)]
  have "?r1\<lparr>rr_signed_schedule_origin_height := rr_signed_schedule_origin_height r\<rparr> = ?r1" by simp
  then have "run_of ?d rid = Inr ?r2" and "distinct (map rr_run_id (mdb_runs ?d))"
    using set_schedule_origin_run [OF e(2,1), of incoming] e(1,2)
    by (cases "rr_signed_schedule_origin_height r"; simp)+
  then have "run_of (mark_scheduled rid now ?d) rid = Inr (inserted_run schedule incoming now r)"
    using mark_scheduled_run by (simp add: inserted_run_def)
  then have "run_of db' rid = Inr (inserted_run schedule incoming now r)" using c(9) by (simp add: run_of_def)
  then show ?thesis using c(1,2,4-8,10-12) ensure_run_schedule_pending [OF c(3)] by blast
qed

end
