(* ===== verification/Pending_Steps.thy ===== *)
theory Pending_Steps
  imports Pending_Reach Chain_Settled
begin

text \<open>
  The operations on the pending transactions as the steps of one relation, and the invariant that every
  sequence of them keeps.
\<close>

section \<open>Operations that leave the pending rows\<close>

lemma replace_child_row_tables [simp]: "mdb_pending (replace_child_row c db) = mdb_pending db"
  by (simp add: replace_child_row_def)

lemma insert_children_pending:
  "insert_children cipher password salt rid mode schedule targets recovery cs (og, db, n) = Inr (og', db', n') \<Longrightarrow>
     mdb_pending db' = mdb_pending db"
proof (induction cs arbitrary: og db n)
  case (Cons c cs)
  from Cons.prems obtain og1 e1 e2 n1 where
    "insert_children cipher password salt rid mode schedule targets recovery cs
       (og1, replace_child_row (child_row_of rid e1 e2 c) db, n1) = Inr (og', db', n')"
    by (auto split: if_splits prod.splits)
  from Cons.IH [OF this] show ?case by simp
qed simp

lemma insert_signed_children_pending:
  "insert_signed_child_pczts_with_tx cipher password salt db rid cs mode n = Inr (db', n') \<Longrightarrow>
     mdb_pending db' = mdb_pending db"
  by (auto simp: insert_signed_child_pczts_with_tx_def split: if_splits prod.splits dest!: insert_children_pending)

lemma persist_children_pending:
  "persist_signed_child_pczts_for_run cipher password salt now db rid cs n = Inr (db', n') \<Longrightarrow>
     mdb_pending db' = mdb_pending db"
  by (auto simp: persist_signed_child_pczts_for_run_def sql_update_runs_def
      split: if_splits prod.splits dest!: insert_signed_children_pending)

lemma set_child_heights_pending:
  "try_fold (\<lambda>d u. set_child_height rid u d) db us = Inr db' \<Longrightarrow> mdb_pending db' = mdb_pending db"
proof (induction us arbitrary: db)
  case (Cons u us)
  then obtain db1 where "set_child_height rid u db = Inr db1" "try_fold (\<lambda>d u. set_child_height rid u d) db1 us = Inr db'"
    by auto
  then show ?case using Cons.IH by (auto simp: set_child_height_def Let_def split: if_splits)
qed simp

lemma frozen_pending [simp]: "mdb_pending (mark_initial_schedule_rebased_with_tx rid h now db) = mdb_pending db"
  by (simp add: mark_initial_schedule_rebased_with_tx_def)

text \<open>The three ends of a rebase: nothing, the frozen marker, or every child moved.\<close>

definition rebased_to ::
    "migration_db \<Rightarrow> string \<Rightarrow> run_row \<Rightarrow> u32 \<Rightarrow> int \<Rightarrow> u32 \<Rightarrow> migration_db \<Rightarrow> bool" where
  "rebased_to db rid r height now origin db' \<longleftrightarrow>
     (\<exists>children updates db1. rebase_children db rid = Inr children
        \<and> set (map (\<lambda>(m, i, v, h, e). i) children) = {0 ..< length (rr_target_values r)}
        \<and> origin < height \<and> children \<noteq> []
        \<and> rebase_updates (rr_schedule r) (rr_target_values r) origin height children = Inr (RebaseUpdates updates)
        \<and> try_fold (\<lambda>d u. set_child_height rid u d) db updates = Inr db1
        \<and> db' = snd (sql_update_runs
             (\<lambda>r. rr_run_id r = rid \<and> rr_initial_schedule_rebased_origin_height r = None) (rebase_run height now) db1))"

lemma rebase_cases:
  assumes "rebase_initial_signed_schedule_for_anchor_readiness_with_tx now db rid height = Inr (b, db')"
    and "run_of db rid = Inr r"
  shows "\<not> b \<and> db' = db
    \<or> (\<exists>origin. rebase_ready db rid height r = Inr (Some origin)
         \<and> (\<not> b \<and> db' = mark_initial_schedule_rebased_with_tx rid origin now db
            \<or> b \<and> rebased_to db rid r height now origin db'))"
proof -
  let ?m = rebase_initial_signed_schedule_for_anchor_readiness_with_tx
  obtain ready where ready: "rebase_ready db rid height r = Inr ready"
    using assms by (auto simp: rebase_initial_signed_schedule_for_anchor_readiness_with_tx_def)
  show ?thesis
  proof (cases ready)
    case None
    then show ?thesis using assms ready
      by (simp add: rebase_initial_signed_schedule_for_anchor_readiness_with_tx_def)
  next
    case (Some origin)
    obtain children where ch: "rebase_children db rid = Inr children"
      using assms ready Some by (auto simp: rebase_initial_signed_schedule_for_anchor_readiness_with_tx_def)
    let ?set = "set (map (\<lambda>(m, i, v, h, e). i) children) = {0 ..< length (rr_target_values r)}"
    let ?frozen = "mark_initial_schedule_rebased_with_tx rid origin now db"
    have run: "children = [] \<and> \<not> b \<and> db' = db \<or> (children \<noteq> [] \<and> (\<not> ?set \<and> \<not> b \<and> db' = db
        \<or> ?set \<and> (if max origin height = origin then \<not> b \<and> db' = ?frozen
             else rbind (rebase_updates (rr_schedule r) (rr_target_values r) origin (max origin height) children)
               (\<lambda>outcome. case outcome of
                  RebaseFrozen \<Rightarrow> Inr (False, ?frozen)
                | RebaseSkipped \<Rightarrow> Inr (False, db)
                | RebaseUpdates updates \<Rightarrow>
                    rbind (try_fold (\<lambda>d u. set_child_height rid u d) db updates) (\<lambda>db1.
                    Inr (True, snd (sql_update_runs
                      (\<lambda>r. rr_run_id r = rid \<and> rr_initial_schedule_rebased_origin_height r = None)
                      (rebase_run (max origin height) now) db1)))) = Inr (b, db'))))"
      using assms ready Some ch
      by (auto simp: rebase_initial_signed_schedule_for_anchor_readiness_with_tx_def try_u32_def Let_def
          split: if_splits cong: rebase_outcome.case_cong)
    show ?thesis
    proof (cases "children \<noteq> [] \<and> ?set \<and> max origin height \<noteq> origin")
      case False
      then show ?thesis using run ready Some by auto
    next
      case True
      then have mx: "max origin height = height" "origin < height" by auto
      obtain outcome where o1: "rebase_updates (rr_schedule r) (rr_target_values r) origin height children = Inr outcome"
        using run True mx by auto
      show ?thesis
        using run True mx o1 ready Some ch by (cases outcome) (auto simp: rebased_to_def)
    qed
  qed
qed

lemma rebase_pending:
  assumes "rebase_initial_signed_schedule_for_anchor_readiness_with_tx now db rid height = Inr (b, db')"
  shows "mdb_pending db' = mdb_pending db"
proof -
  obtain r where "run_of db rid = Inr r"
    using assms by (auto simp: rebase_initial_signed_schedule_for_anchor_readiness_with_tx_def)
  from rebase_cases [OF assms this] show ?thesis
    by (auto simp: rebased_to_def dest!: set_child_heights_pending)
qed

section \<open>Recovery\<close>

lemma assign_offsets_step:
  "assign_offsets rid base parts (state, db) = Inr (state', db') \<Longrightarrow> rows_step db db'"
proof (induction parts arbitrary: state db)
  case (Cons part parts)
  obtain t i v prev d m offs where e: "part = ((t, i, v, prev), d)" "state = (m, offs)" by (metis prod.exhaust)
  let ?P = "\<lambda>p. pt_run_id p = rid \<and> pt_txid_hex p = t \<and> pt_status p = ''needs_resign'' \<and> pt_rebuild_block_offset p = prev"
  let ?f = "\<lambda>p. p\<lparr>pt_rebuild_block_offset := Some (base + d)\<rparr>"
  obtain k db1 where u: "sql_update_pending ?P ?f db = (k, db1)" by fastforce
  have "rows_step db (snd (sql_update_pending ?P ?f db))"
    by (rule rows_step_update) (simp add: row_step_def fixed_def height_ok_def)
  then have "rows_step db db1" by (simp add: u)
  moreover obtain state1 where "assign_offsets rid base parts (state1, db1) = Inr (state', db')"
    using Cons.prems by (cases "checked_add 32 base d") (auto simp: e u split: if_splits)
  ultimately show ?case using Cons.IH rows_step_trans by blast
qed (simp add: rows_step_pending)

lemma ladder_step:
  assumes "ensure_rebuild_schedule_generation env db rid network h g = Some (Inr (gen, db', g'))"
  shows "rows_step db db'"
proof -
  have "mdb_pending db' = mdb_pending db \<or> (\<exists>base parts state state' db1.
      assign_offsets rid base parts (state, db) = Inr (state', db1) \<and> mdb_pending db' = mdb_pending db1)"
    using assms unfolding ensure_rebuild_schedule_generation_def Let_def
    by (auto split: if_splits sum.splits prod.splits simp: Option.bind_eq_Some_conv sql_update_runs_def) blast+
  then show ?thesis using assign_offsets_step by (auto simp: rows_step_def list.rel_refl)
qed

lemma pending_ok_filter:
  assumes "pending_ok db"
  shows "pending_ok (db\<lparr>mdb_pending := filter P (mdb_pending db)\<rparr>)"
proof -
  let ?k = "\<lambda>p. (pt_run_id p, pt_txid_hex p, pt_part_index p)"
  have swap: "filter (\<lambda>p. pt_part_index p \<noteq> None) (filter P ps) = filter P (filter (\<lambda>p. pt_part_index p \<noteq> None) ps)" for ps
    by (induction ps) auto
  have "distinct (map pt_txid_hex (mdb_pending db))"
    "distinct (map (\<lambda>p. (pt_run_id p, pt_part_index p)) (filter (\<lambda>p. pt_part_index p \<noteq> None) (mdb_pending db)))"
    "\<forall>p \<in> set (mdb_pending db). to_ascii_lowercase (pt_txid_hex p) = pt_txid_hex p"
    using assms by (auto simp: pending_ok_def keys_unique_def part_keys_def comp_def filter_map simp del: not_None_eq)
  then have "distinct (map pt_txid_hex (filter P (mdb_pending db)))"
    "distinct (map (\<lambda>p. (pt_run_id p, pt_part_index p)) (filter (\<lambda>p. pt_part_index p \<noteq> None) (filter P (mdb_pending db))))"
    "\<forall>p \<in> set (filter P (mdb_pending db)). to_ascii_lowercase (pt_txid_hex p) = pt_txid_hex p"
    unfolding swap by (simp_all only: distinct_map_filter) auto
  then have "keys_unique (part_keys (db\<lparr>mdb_pending := filter P (mdb_pending db)\<rparr>))"
    by (auto simp: keys_unique_def part_keys_def comp_def filter_map simp del: not_None_eq filter_filter)
  then show ?thesis using assms by (auto simp: pending_ok_def)
qed

lemma replace_part_ok:
  assumes "replace_part cipher password salt start_ms tip rid recovery rp (db, n) = Inr (db', n')" and "pending_ok db"
    and "to_ascii_lowercase (pi_txid_hex (rp_replacement rp)) = pi_txid_hex (rp_replacement rp)"
  shows "pending_ok db'"
proof -
  let ?p = "rp_replacement rp"
  obtain c ms start orig where
    x: "zip318_canonical_migration_expiry_height (pi_scheduled_height ?p) = Inr (pi_expiry_height ?p)"
    and i: "insert_pending_row (replacement_row rid c ms start orig ?p) (delete_pending_row rid (rp_old_txid_hex rp) db) = Inr db'"
    using assms(1) by (auto simp: replace_part_def Let_def split: if_splits)
  have "pending_ok (delete_pending_row rid (rp_old_txid_hex rp) db)"
    unfolding delete_pending_row_def by (rule pending_ok_filter [OF assms(2)])
  moreover have "height_ok (replacement_row rid c ms start orig ?p)"
    using x by (simp add: height_ok_def canonical_row_def replacement_row_def pending_row_of_def)
  ultimately show ?thesis
    using insert_pending_row_ok(1) [OF i] assms(3) by (simp add: replacement_row_def pending_row_of_def)
qed

lemma position_nth: "position P xs = Some i \<Longrightarrow> i < length xs \<and> P (xs ! i)"
  by (auto simp: position_def find_Some_iff)

lemma set_swap_remove: "i < length xs \<Longrightarrow> set (swap_remove xs i) \<subseteq> set xs"
  by (auto simp: swap_remove_def dest!: set_update_subset_insert [THEN subsetD] in_set_butlastD intro!: last_in_set)

lemma match_replacements_subset:
  "set (fst (match_replacements es rs)) \<subseteq> set rs"
proof (induction es arbitrary: rs)
  case (Cons e es)
  show ?case
  proof (cases "position (entry_matches e) rs")
    case (Some i)
    then have i: "i < length rs" using position_nth by blast
    have "set (fst (match_replacements es (swap_remove rs i))) \<subseteq> set rs"
      using Cons.IH [of "swap_remove rs i"] set_swap_remove [OF i] by blast
    then show ?thesis using Some i by (auto split: prod.splits simp: Let_def)
  qed (use Cons in auto)
qed simp

lemma replacement_ok:
  assumes "replace_resigned_pending_parts cipher password salt start_ms now db rid tip rs cs n = Inr (db', n')"
    and "pending_ok db"
    and "\<forall>x \<in> set rs. to_ascii_lowercase (pi_txid_hex (rp_replacement x)) = pi_txid_hex (rp_replacement x)"
  shows "pending_ok db'"
proof (cases "rs = []")
  case True
  then show ?thesis using assms(1,2) by (simp add: replace_resigned_pending_parts_def)
next
  case False
  then obtain r where r: "run_of db rid = Inr r"
    using assms(1) by (auto simp: replace_resigned_pending_parts_def)
  obtain scheduled remaining where m: "match_replacements (rr_schedule r) rs = (scheduled, remaining)" by fastforce
  from False obtain sb db1 n1 db2 n2 where f: "try_fold (\<lambda>state rp. replace_part cipher password sb start_ms tip rid
                    (rr_recovery_schedule_origin_height r) rp state) (db, n) scheduled = Inr (db1, n1)"
    and ch: "insert_signed_child_pczts_with_tx cipher password salt db1 rid cs Replacement n1 = Inr (db2, n2)"
    and db': "db' = mark_scheduled rid now db2"
    using assms(1) r m by (auto simp: replace_resigned_pending_parts_def split: prod.splits if_splits)
  have sub: "set scheduled \<subseteq> set rs" using match_replacements_subset [of "rr_schedule r" rs] m by simp
  have "pending_ok (fst (db1, n1))"
  proof (rule try_fold_invariant [where P = "\<lambda>s. pending_ok (fst s)", OF f])
    show "pending_ok (fst (db, n))" using assms(2) by simp
    fix s rp s' assume "rp \<in> set scheduled" "pending_ok (fst s)"
      "replace_part cipher password sb start_ms tip rid (rr_recovery_schedule_origin_height r) rp s = Inr s'"
    then show "pending_ok (fst s')"
      using replace_part_ok [of cipher password sb start_ms tip rid _ rp "fst s" "snd s" "fst s'" "snd s'"] assms(3) sub by auto
  qed
  then show ?thesis
    using insert_signed_children_pending [OF ch] pending_ok_cong [of db' db1] by (simp add: db')
qed

lemma promote_ok:
  assumes "promote_signed_child_pczts_to_pending_txs env flavor cipher password salt t1 t2 t3 t4 db rid parts height
      retry n g = Some (Inr (db', n', g'))"
    and "pending_ok db" and "\<forall>p \<in> set parts. to_ascii_lowercase (pi_txid_hex p) = pi_txid_hex p"
  shows "pending_ok db'"
proof (cases "parts = []")
  case True
  then show ?thesis using assms(1,2) by (simp add: promote_signed_child_pczts_to_pending_txs_def)
next
  case False
  obtain b db1 qs where
    rb: "rebase_initial_signed_schedule_for_anchor_readiness_with_tx t1 db rid height = Inr (b, db1)"
    and qs: "collect_results (child_schedule db1 rid) parts = Inr qs"
    and assigned: "migration_part_assignment_complete_with_conn db rid = Inr True"
    using assms(1) False unfolding promote_signed_child_pczts_to_pending_txs_def
    by (auto simp: map_error_def split: sum.splits if_splits prod.splits)
  obtain db2 where i: "insert_pending_txs_with_tx env flavor cipher password salt t2 t3 db1 rid qs n g = Some (Inr (db2, n', g'))"
    and p: "mdb_pending db' = mdb_pending db2"
    using assms(1) False rb qs assigned unfolding promote_signed_child_pczts_to_pending_txs_def
    by (auto simp: map_error_def sql_update_runs_def)
  obtain r where r: "run_of db1 rid = Inr r"
    using i by (auto simp: insert_pending_txs_with_tx_def map_error_def split: sum.splits)
  have "pending_ok db1" using assms(2) rebase_pending [OF rb] pending_ok_cong by blast
  moreover have "to_ascii_lowercase (pi_txid_hex q) = pi_txid_hex q" if q: "q \<in> set qs" for q
  proof -
    obtain x where "x \<in> set parts" "child_schedule db1 rid x = Inr q"
      using qs q by (auto simp: collect_results_Inr_iff list_all2_conv_all_nth in_set_conv_nth) (metis nth_mem)
    then show ?thesis using assms(3) by (auto simp: child_schedule_def)
  qed
  ultimately have "pending_ok db2" using insertion_rows [OF i r] by blast
  then show ?thesis using p pending_ok_cong by blast
qed

section \<open>The operations as steps\<close>

text \<open>The operations that update rows without adding or removing any.\<close>

inductive pending_update ::
    "'g sampler \<Rightarrow> (string \<Rightarrow> byte list option) \<Rightarrow> u32 \<Rightarrow> migration_db \<Rightarrow> migration_db \<Rightarrow> bool"
  for env unhex trusted where
  attempted: "mark_pending_broadcast_attempted db rid txid = Inr db' \<Longrightarrow> pending_update env unhex trusted db db'"
| followed: "reconcile_run_confirmations trusted unhex chain now done_at db rid = (res, db') \<Longrightarrow>
     pending_update env unhex trusted db db'"
| expired: "mark_expired_pending_parts_for_resign trusted unhex chain now done_at later db rid tip = (res, db') \<Longrightarrow>
     pending_update env unhex trusted db db'"
| crossed: "mark_due_parts_with_noncanonical_broadcast_height_for_resign trusted unhex chain now done_at later db rid tip
       = (res, db') \<Longrightarrow> pending_update env unhex trusted db db'"
| retry: "db' = set_proof_retry_height now rid height db \<Longrightarrow> pending_update env unhex trusted db db'"
| redrawn: "shuffles env \<Longrightarrow>
     reschedule_overdue_pending_txs_with_options env start_ms now db rid network tip min_delay excluded g
       = Some (Inr (db', g')) \<Longrightarrow> pending_update env unhex trusted db db'"
| sent: "mark_pending_broadcasted now db rid txid = Inr db' \<Longrightarrow> pending_update env unhex trusted db db'"
| receipt: "apply_accepted_migration_outbox_receipt ready_at now db account network rid txid height updates = Inr db' \<Longrightarrow>
     pending_update env unhex trusted db db'"
| ladder: "ensure_rebuild_schedule_generation env db rid network height g = Some (Inr (gen, db', g')) \<Longrightarrow>
     pending_update env unhex trusted db db'"

lemma pending_update_rows:
  assumes "pending_update env unhex trusted db db'" and "pending_ok db"
  shows "rows_step db db'"
  using assms
proof (cases rule: pending_update.cases)
  case retry
  then show ?thesis by (simp add: set_proof_retry_height_def rows_step_pending)
next
  case redrawn
  show ?thesis by (rule reschedule_overdue_step [OF redrawn(2) pending_ok_txids(1) [OF assms(2)] redrawn(1)])
next
  case attempted
  show ?thesis by (rule mark_attempted_step [OF attempted])
next
  case followed
  show ?thesis by (rule reconcile_rows_step [OF followed])
next
  case expired
  show ?thesis by (rule mark_expired_step [OF expired])
next
  case crossed
  show ?thesis by (rule mark_due_step [OF crossed])
next
  case sent
  show ?thesis by (rule mark_broadcasted_step [OF sent])
next
  case receipt
  show ?thesis by (rule receipt_step [OF receipt assms(2)])
next
  case ladder
  show ?thesis by (rule ladder_step [OF ladder])
qed

lemma pending_updates_rows:
  assumes "(pending_update env unhex trusted)\<^sup>*\<^sup>* db db'" and "pending_ok db"
  shows "rows_step db db'"
  using assms(1)
proof (induction rule: rtranclp_induct)
  case (step y z)
  then show ?case using pending_update_rows rows_step_ok rows_step_trans assms(2) by metis
qed (simp add: rows_step_pending)

inductive pending_step ::
    "'g sampler \<Rightarrow> 'n payload_cipher \<Rightarrow> build_flavor \<Rightarrow> (string \<Rightarrow> byte list option) \<Rightarrow> u32 \<Rightarrow>
     migration_db \<Rightarrow> migration_db \<Rightarrow> bool"
  for env cipher flavor unhex trusted where
  update: "pending_update env unhex trusted db db' \<Longrightarrow> pending_step env cipher flavor unhex trusted db db'"
| insert: "insert_pending_txs env flavor cipher password salt start_ms now db rid parts n g = Some (Inr (db', n', g')) \<Longrightarrow>
     \<forall>p \<in> set parts. to_ascii_lowercase (pi_txid_hex p) = pi_txid_hex p \<Longrightarrow>
     pending_step env cipher flavor unhex trusted db db'"
| promote: "promote_signed_child_pczts_to_pending_txs env flavor cipher password salt t1 t2 t3 t4 db rid parts height
       retry n g = Some (Inr (db', n', g')) \<Longrightarrow>
     \<forall>p \<in> set parts. to_ascii_lowercase (pi_txid_hex p) = pi_txid_hex p \<Longrightarrow>
     pending_step env cipher flavor unhex trusted db db'"
| children: "persist_signed_child_pczts_for_run cipher password salt now db rid cs n = Inr (db', n') \<Longrightarrow>
     pending_step env cipher flavor unhex trusted db db'"
| replaced: "replace_resigned_pending_parts cipher password salt start_ms now db rid tip rs cs n = Inr (db', n') \<Longrightarrow>
     \<forall>x \<in> set rs. to_ascii_lowercase (pi_txid_hex (rp_replacement x)) = pi_txid_hex (rp_replacement x) \<Longrightarrow>
     pending_step env cipher flavor unhex trusted db db'"

lemma pending_step_ok:
  assumes "pending_step env cipher flavor unhex trusted db db'" and "pending_ok db"
  shows "pending_ok db'"
  using assms
proof (cases rule: pending_step.cases)
  case update
  show ?thesis by (rule rows_step_ok [OF pending_update_rows [OF update assms(2)] assms(2)])
next
  case (insert password salt start_ms now rid parts n g n' g')
  show ?thesis
  proof (cases "parts = []")
    case True
    then show ?thesis using insert assms(2) by (simp add: insert_pending_txs_def)
  next
    case False
    then have i: "insert_pending_txs_with_tx env flavor cipher password salt start_ms now db rid parts n g = Some (Inr (db', n', g'))"
      using insert(1) by (simp add: insert_pending_txs_def)
    then obtain r where "run_of db rid = Inr r"
      by (auto simp: insert_pending_txs_with_tx_def map_error_def split: sum.splits)
    then show ?thesis using insertion_rows [OF i] assms(2) insert(2) by blast
  qed
next
  case promote
  show ?thesis by (rule promote_ok [OF promote(1) assms(2) promote(2)])
next
  case children
  show ?thesis using persist_children_pending [OF children] pending_ok_cong assms(2) by blast
next
  case replaced
  show ?thesis by (rule replacement_ok [OF replaced(1) assms(2) replaced(2)])
qed

text \<open>
  C6. Whatever operations follow on the pending transactions of a wallet, in any order and whatever the
  chain does: the transaction ids stay distinct, no two transactions of a run take the same part, and
  a scheduled transaction carries the expiry height that is canonical for the height it is scheduled
  for, unless a reorganisation of the chain put it back to its target height.
\<close>

theorem pending_invariant:
  assumes "(pending_step env cipher flavor unhex trusted)\<^sup>*\<^sup>* db db'" and "pending_ok db"
  shows "pending_ok db'"
  using assms by (induction rule: rtranclp_induct) (auto intro: pending_step_ok)

text \<open>The transaction of the example run is marked as attempted and then as broadcast.\<close>

theorem pending_invariant_witness:
  "\<exists>db'. mark_pending_broadcasted 7 example_waiting_db ''run'' ''t'' = Inr db' \<and> pending_ok db'
     \<and> pending_ok example_waiting_db"
proof -
  have ok: "pending_ok example_waiting_db"
    by (simp add: pending_ok_def example_waiting_db_def example_pending_def part_keys_def keys_unique_def
        height_ok_def to_ascii_lowercase_def ascii_lower_def)
  have "\<exists>db'. mark_pending_broadcasted 7 example_waiting_db ''run'' ''t'' = Inr db'"
    by (simp add: mark_pending_broadcasted_def update_run_after_pending_broadcast_def sql_update_pending_def
        example_waiting_db_def example_pending_def example_waiting_run_def count_pending_with_status_def
        pending_rows_def set_part_status_def count_for_run_def planned_part_count_with_conn_def run_of_def
        unpromoted_signed_child_pczt_count_with_conn_def unpromoted_signed_child_note_outpoints_with_conn_def
        try_u32_def)
  then obtain db' where "mark_pending_broadcasted 7 example_waiting_db ''run'' ''t'' = Inr db'" by blast
  moreover from this have "(pending_step (counter_sampler) plain_cipher example_flavor example_unhex 3)\<^sup>*\<^sup>* example_waiting_db db'"
    by (intro r_into_rtranclp pending_step.update pending_update.sent)
  ultimately show ?thesis using pending_invariant ok by blast
qed

end
