(* ===== verification/Pending_Due.thy ===== *)
theory Pending_Due
  imports Pending_Steps
begin

text \<open>
  Which transaction a run sends next: the selection of a due transaction, the parts that are taken out of
  the selection because their expiry window has passed, and what a reorganisation can leave behind.
\<close>

section \<open>The selection\<close>

definition off_chain :: "(string \<Rightarrow> run_error + chain_identity option) \<Rightarrow> pending_row \<Rightarrow> bool" where
  "off_chain identity p \<longleftrightarrow> identity (pt_txid_hex p) = Inr None"

definition due_key :: "pending_row \<Rightarrow> u32 \<times> string" where
  "due_key p = (pt_scheduled_height p, pt_txid_hex p)"

text \<open>The answer for the earliest due transaction.\<close>

definition send_row ::
    "'n payload_cipher \<Rightarrow> byte list \<Rightarrow> byte list \<Rightarrow> pending_row \<Rightarrow> broadcast_error + (string \<times> byte list) option" where
  "send_row cipher password salt p =
     rbind (canonical_expiry (pt_scheduled_height p)) (\<lambda>expiry.
     if pt_expiry_height p \<noteq> expiry then Inl (DueNotCanonical (pt_txid_hex p))
     else rbind (ok_or BcDecrypt (decrypt_payload cipher (pt_encrypted_raw_tx p) password salt)) (\<lambda>raw_tx.
          Inr (Some (pt_txid_hex p, raw_tx))))"

lemma first_due_eq:
  assumes "\<forall>p \<in> set ps. \<exists>i. identity (pt_txid_hex p) = Inr i"
  shows "first_due identity cipher password salt ps =
     (case filter (off_chain identity) ps of [] \<Rightarrow> Inr None | p # _ \<Rightarrow> send_row cipher password salt p)"
  using assms
proof (induction ps)
  case (Cons p ps)
  then obtain i where i: "identity (pt_txid_hex p) = Inr i" by auto
  show ?case
  proof (cases i)
    case None
    then show ?thesis using i by (simp add: off_chain_def send_row_def map_error_def)
  next
    case (Some x)
    then show ?thesis using i Cons by (simp add: off_chain_def map_error_def)
  qed
qed simp

lemma send_row_eq:
  assumes "height_ok p" and "pt_status p = ''scheduled''"
  shows "canonical_row p \<Longrightarrow> send_row cipher password salt p =
       (case decrypt_payload cipher (pt_encrypted_raw_tx p) password salt of
          None \<Rightarrow> Inl BcDecrypt | Some raw_tx \<Rightarrow> Inr (Some (pt_txid_hex p, raw_tx)))"
    and "\<not> canonical_row p \<Longrightarrow> pt_scheduled_height p = pt_target_height p
       \<and> (\<exists>e. send_row cipher password salt p = Inl e)"
proof -
  assume "canonical_row p"
  then have "canonical_expiry (pt_scheduled_height p) = Inr (pt_expiry_height p)" by (simp add: canonical_row_def)
  then show "send_row cipher password salt p =
       (case decrypt_payload cipher (pt_encrypted_raw_tx p) password salt of
          None \<Rightarrow> Inl BcDecrypt | Some raw_tx \<Rightarrow> Inr (Some (pt_txid_hex p, raw_tx)))"
    by (simp add: send_row_def split: option.splits del: canonical_expiry_eq)
next
  assume n: "\<not> canonical_row p"
  show "pt_scheduled_height p = pt_target_height p \<and> (\<exists>e. send_row cipher password salt p = Inl e)"
  proof (intro conjI)
    show "pt_scheduled_height p = pt_target_height p" using assms n by (simp add: height_ok_def)
    show "\<exists>e. send_row cipher password salt p = Inl e"
      using n canonical_expiry_eq [of "pt_scheduled_height p" "pt_expiry_height p"]
      by (cases "canonical_expiry (pt_scheduled_height p)") (auto simp: send_row_def canonical_row_def simp del: canonical_expiry_eq)
  qed
qed

lemma hd_sort_key_filter:
  assumes "filter P (sort_key f xs) = p # ps" and "q \<in> set xs" and "P q"
  shows "p \<in> set xs" and "P p" and "f p \<le> (f q :: 'b :: linorder)"
proof -
  have "p \<in> set (filter P (sort_key f xs))" by (simp add: assms(1))
  then show "p \<in> set xs" and "P p" by auto
  have "sorted (map f (filter P (sort_key f xs)))" by (rule sorted_filter) simp
  moreover have "q \<in> set (filter P (sort_key f xs))" using assms(2,3) by simp
  ultimately show "f p \<le> f q" by (auto simp: assms(1))
qed

text \<open>
  C31. The transaction that a run sends next. After the run was followed through the chain, the answer is
  empty exactly when every due transaction is on the chain. Otherwise the earliest of the others is
  taken, by height and then by id: its bytes are returned when its expiry height is the canonical one
  of the height it is scheduled for. The call fails on any other, and then a reorganisation has put
  that transaction back to its target height.
\<close>

theorem due_selection:
  fixes chain :: wallet_chain and unhex :: "string \<Rightarrow> byte list option"
  defines "identity \<equiv> local_denomination_chain_identity unhex chain"
  assumes "pending_ok db" and "decode_salt cipher salt_base64 = Some salt"
    and "reconcile_run_confirmations trusted unhex chain now done_at db rid = (Inr (), db1)"
    and "\<forall>p \<in> set (due_rows db1 rid tip). \<exists>i. identity (pt_txid_hex p) = Inr i"
  shows "\<exists>res. due_pending_txs trusted unhex chain cipher now done_at db rid tip password salt_base64 = (res, db1)
     \<and> (if \<forall>p \<in> set (due_rows db1 rid tip). \<not> off_chain identity p then res = Inr None
        else \<exists>p \<in> set (due_rows db1 rid tip). off_chain identity p
           \<and> (\<forall>q \<in> set (due_rows db1 rid tip). off_chain identity q \<longrightarrow> due_key p \<le> due_key q)
           \<and> (if canonical_row p
              then res = (case decrypt_payload cipher (pt_encrypted_raw_tx p) password salt of
                     None \<Rightarrow> Inl BcDecrypt | Some raw_tx \<Rightarrow> Inr (Some (pt_txid_hex p, raw_tx)))
              else pt_scheduled_height p = pt_target_height p \<and> (\<exists>e. res = Inl e)))"
proof -
  let ?due = "due_rows db1 rid tip"
  let ?sorted = "sort_key due_key ?due"
  have res: "due_pending_txs trusted unhex chain cipher now done_at db rid tip password salt_base64 =
      (first_due identity cipher password salt ?sorted, db1)"
    by (simp add: due_pending_txs_def assms(3,4) identity_def due_key_def [abs_def])
  have ids: "\<forall>p \<in> set ?sorted. \<exists>i. identity (pt_txid_hex p) = Inr i" using assms(5) by simp
  note eq = first_due_eq [of ?sorted identity cipher password salt, OF ids]
  show ?thesis
  proof (cases "filter (off_chain identity) ?sorted")
    case Nil
    then have "\<forall>p \<in> set ?due. \<not> off_chain identity p" by (simp add: filter_empty_conv)
    then show ?thesis using res eq Nil by simp
  next
    case (Cons p ps)
    have "p \<in> set (filter (off_chain identity) ?sorted)" by (simp add: Cons)
    then have p: "p \<in> set ?due" "off_chain identity p" by simp_all
    have least: "\<forall>q \<in> set ?due. off_chain identity q \<longrightarrow> due_key p \<le> due_key q"
      using hd_sort_key_filter(3) [OF Cons] by blast
    have "pending_ok db1" using rows_step_ok [OF reconcile_rows_step [OF assms(4)] assms(2)] .
    then have ok: "height_ok p" "pt_status p = ''scheduled''"
      using p(1) by (auto simp: pending_ok_def due_rows_def pending_rows_def)
    have "first_due identity cipher password salt ?sorted = send_row cipher password salt p"
      using eq Cons by simp
    then show ?thesis
      using res p least send_row_eq [OF ok, of cipher password salt] by (auto intro!: bexI [of _ p])
  qed
qed

text \<open>The example run with its transaction back in the schedule, due at height 95 of a chain at height 100.\<close>

definition example_due_db :: migration_db where
  "example_due_db = example_waiting_db
     \<lparr>mdb_runs := [example_waiting_run\<lparr>rr_phase := PHASE_BROADCAST_SCHEDULED\<rparr>],
      mdb_pending := [example_pending\<lparr>pt_status := ''scheduled''\<rparr>]\<rparr>"

definition empty_wallet :: wallet_chain where
  "empty_wallet = example_wallet\<lparr>wc_transactions := Some []\<rparr>"

lemma empty_wallet_identity: "local_denomination_chain_identity example_unhex empty_wallet ''t'' = Inr None"
  by (simp add: local_denomination_chain_identity_def txid_blob_variants_def example_unhex_def empty_wallet_def
      example_wallet_def included_in_def example_txid_bytes_def)

text \<open>A run of one part that is not on the chain: what following it does.\<close>

lemma follow_one_part:
  assumes "mdb_runs db = [r]" and "rr_run_id r = ''run''" and "mdb_pending db = [p]" and "pt_run_id p = ''run''"
    and "pt_txid_hex p = ''t''" and "mdb_children db = []" and "rr_phase r = PHASE_BROADCAST_SCHEDULED"
  shows "pt_status p = ''scheduled'' \<Longrightarrow>
      reconcile_run_confirmations 3 example_unhex empty_wallet now done_at db ''run'' = (Inr (), db)"
    and "pt_status p = ''confirmed'' \<Longrightarrow>
      reconcile_run_confirmations 3 example_unhex empty_wallet now done_at db ''run'' =
        (Inr (), db\<lparr>mdb_runs := [move_run PHASE_BROADCAST_SCHEDULED now None r],
           mdb_pending := [p\<lparr>pt_status := ''scheduled'', pt_scheduled_at_ms := now,
             pt_schedule_start_height := Some (pt_target_height p), pt_scheduled_height := pt_target_height p\<rparr>]\<rparr>)"
proof -
  have scanned: "wc_transactions empty_wallet = Some []" by (simp add: empty_wallet_def)
  note defs = reconcile_run_confirmations_def pending_rows_def followed_statuses_def run_phase_def run_of_def
    unpromoted_signed_child_pczt_count_with_conn_def unpromoted_signed_child_note_outpoints_with_conn_def
    try_u32_def finish_confirmations_def count_for_run_def count_pending_with_status_def scanned
    empty_wallet_identity assms Let_def
  show "pt_status p = ''scheduled'' \<Longrightarrow>
      reconcile_run_confirmations 3 example_unhex empty_wallet now done_at db ''run'' = (Inr (), db)"
    by (simp add: defs)
  show "pt_status p = ''confirmed'' \<Longrightarrow>
      reconcile_run_confirmations 3 example_unhex empty_wallet now done_at db ''run'' =
        (Inr (), db\<lparr>mdb_runs := [move_run PHASE_BROADCAST_SCHEDULED now None r],
           mdb_pending := [p\<lparr>pt_status := ''scheduled'', pt_scheduled_at_ms := now,
             pt_schedule_start_height := Some (pt_target_height p), pt_scheduled_height := pt_target_height p\<rparr>]\<rparr>)"
    by (simp add: defs reschedule_reorged_def sql_update_pending_def run_is_open_def open_run_iff
        sql_update_runs_def move_run_def)
qed

theorem due_selection_witness:
  "due_pending_txs 3 example_unhex empty_wallet plain_cipher 5 6 example_due_db ''run'' 100 [1] ''salt'' =
     (Inr (Some (''t'', [])), example_due_db)"
proof -
  let ?p = "example_pending\<lparr>pt_status := ''scheduled''\<rparr>"
  have ok: "pending_ok example_due_db"
    by (simp add: pending_ok_def example_due_db_def example_pending_def part_keys_def keys_unique_def
        to_ascii_lowercase_def ascii_lower_def height_ok_def canonical_row_def
        zip318_canonical_migration_expiry_height_def const_defs checked_mul_def checked_add_def)
  have salt: "decode_salt plain_cipher ''salt'' = Some []" by (simp add: plain_cipher_def)
  have follow: "reconcile_run_confirmations 3 example_unhex empty_wallet 5 6 example_due_db ''run'' = (Inr (), example_due_db)"
    by (rule follow_one_part(1) [where r = "example_waiting_run\<lparr>rr_phase := PHASE_BROADCAST_SCHEDULED\<rparr>" and p = ?p])
       (simp_all add: example_due_db_def example_waiting_db_def example_waiting_run_def example_pending_def)
  have due: "due_rows example_due_db ''run'' 100 = [?p]"
    by (simp add: due_rows_def pending_rows_def example_due_db_def example_pending_def)
  have t: "pt_txid_hex ?p = ''t''" by (simp add: example_pending_def)
  have known: "\<forall>p \<in> set (due_rows example_due_db ''run'' 100).
      \<exists>i. local_denomination_chain_identity example_unhex empty_wallet (pt_txid_hex p) = Inr i"
    by (simp add: due t empty_wallet_identity)
  have "canonical_row ?p"
    by (simp add: canonical_row_def example_pending_def zip318_canonical_migration_expiry_height_def const_defs
        checked_mul_def checked_add_def)
  moreover have "decrypt_payload plain_cipher (pt_encrypted_raw_tx ?p) [1] [] = Some []"
    by (simp add: plain_cipher_def example_pending_def)
  moreover note sel = due_selection [OF ok salt follow known, where password = "[1]"]
  have "off_chain (local_denomination_chain_identity example_unhex empty_wallet) ?p"
    by (simp add: off_chain_def t empty_wallet_identity)
  ultimately show ?thesis using sel unfolding due by (simp add: t del: canonical_expiry_eq)
qed

section \<open>After a reorganisation\<close>

text \<open>
  A part that was built at height 34559 and sent at height 34600, in the next expiry window. The chain
  loses it and stands at 34700: the part is due again at its target height, the check of the broadcast
  height finds nothing to sign again, and the selection fails.
\<close>

definition example_reorged_part :: pending_row where
  "example_reorged_part = example_pending\<lparr>pt_target_height := 34559, pt_scheduled_height := 34600,
     pt_expiry_height := 103680, pt_status := ''confirmed''\<rparr>"

definition example_reorged_db :: migration_db where
  "example_reorged_db = example_waiting_db
     \<lparr>mdb_runs := [example_waiting_run\<lparr>rr_phase := PHASE_BROADCAST_SCHEDULED\<rparr>],
      mdb_pending := [example_reorged_part]\<rparr>"

lemma reorged_part_blocks_the_run:
  "\<exists>db1. pending_ok example_reorged_db
     \<and> mark_due_parts_with_noncanonical_broadcast_height_for_resign 3 example_unhex empty_wallet 5 6 7
         example_reorged_db ''run'' 34700 = (Inr 0, db1)
     \<and> due_pending_txs 3 example_unhex empty_wallet plain_cipher 5 6 db1 ''run'' 34700 [1] ''salt'' =
         (Inl (DueNotCanonical ''t''), db1)"
proof -
  let ?r = "example_waiting_run\<lparr>rr_phase := PHASE_BROADCAST_SCHEDULED\<rparr>"
  let ?q = "example_reorged_part\<lparr>pt_status := ''scheduled'', pt_scheduled_at_ms := 5,
             pt_schedule_start_height := Some 34559, pt_scheduled_height := 34559\<rparr>"
  let ?db1 = "example_reorged_db\<lparr>mdb_runs := [move_run PHASE_BROADCAST_SCHEDULED 5 None ?r], mdb_pending := [?q]\<rparr>"
  note ex = example_reorged_db_def example_reorged_part_def example_waiting_db_def example_waiting_run_def example_pending_def
  note canon = zip318_canonical_migration_expiry_height_def const_defs checked_mul_def checked_add_def
  have ok: "pending_ok example_reorged_db"
    by (simp add: pending_ok_def ex part_keys_def keys_unique_def to_ascii_lowercase_def ascii_lower_def height_ok_def)
  have "reconcile_run_confirmations 3 example_unhex empty_wallet 5 6 example_reorged_db ''run'' =
      (Inr (), example_reorged_db\<lparr>mdb_runs := [move_run PHASE_BROADCAST_SCHEDULED 5 None ?r],
         mdb_pending := [example_reorged_part\<lparr>pt_status := ''scheduled'', pt_scheduled_at_ms := 5,
             pt_schedule_start_height := Some (pt_target_height example_reorged_part),
             pt_scheduled_height := pt_target_height example_reorged_part\<rparr>]\<rparr>)"
    by (rule follow_one_part(2) [where r = ?r]) (simp_all add: ex)
  then have first: "reconcile_run_confirmations 3 example_unhex empty_wallet 5 6 example_reorged_db ''run'' = (Inr (), ?db1)"
    by (simp add: example_reorged_part_def)
  have tip: "canonical_expiry 34700 = Inr 103680" by (simp add: canon)
  have "pt_expiry_height ?q = 103680" by (simp add: example_reorged_part_def)
  then have mark: "mark_due_parts_with_noncanonical_broadcast_height_for_resign 3 example_unhex empty_wallet 5 6 7
         example_reorged_db ''run'' 34700 = (Inr 0, ?db1)"
    unfolding mark_due_parts_with_noncanonical_broadcast_height_for_resign_def tip first
    by (simp add: sql_update_pending_def try_u32_def)
  have second: "reconcile_run_confirmations 3 example_unhex empty_wallet 5 6 ?db1 ''run'' = (Inr (), ?db1)"
    by (rule follow_one_part(1) [where r = "move_run PHASE_BROADCAST_SCHEDULED 5 None ?r" and p = ?q])
       (simp_all add: ex move_run_def)
  have due: "due_rows ?db1 ''run'' 34700 = [?q]" by (simp add: due_rows_def pending_rows_def ex)
  have t: "pt_txid_hex ?q = ''t''" "pt_expiry_height ?q = 103680" "pt_scheduled_height ?q = 34559" by (simp_all add: ex)
  have salt: "decode_salt plain_cipher ''salt'' = Some []" by (simp add: plain_cipher_def)
  have "canonical_expiry 34559 = Inr 69120" by (simp add: canon)
  then have "first_due (local_denomination_chain_identity example_unhex empty_wallet) plain_cipher [1] [] [?q] =
      Inl (DueNotCanonical ''t'')"
    unfolding first_due.simps t by (simp add: empty_wallet_identity map_error_def del: canonical_expiry_eq)
  then have "due_pending_txs 3 example_unhex empty_wallet plain_cipher 5 6 ?db1 ''run'' 34700 [1] ''salt'' =
         (Inl (DueNotCanonical ''t''), ?db1)"
    unfolding due_pending_txs_def second using salt by (simp add: due del: first_due.simps)
  with ok mark show ?thesis by blast
qed

end
