(* ===== verification/Pending_Redraw.thy ===== *)
theory Pending_Redraw
  imports Pending_Due
begin

text \<open>
  One transfer per wallet open: after a transaction was sent, every other overdue transaction of the
  network gets a new height above the tip, or is to be signed again.
\<close>

section \<open>A row that is drawn again\<close>

definition due :: "u32 \<Rightarrow> pending_row \<Rightarrow> bool" where
  "due tip p \<longleftrightarrow> pt_status p = ''scheduled'' \<and> pt_scheduled_height p \<le> tip"

text \<open>
  The row after a height at least \<open>m\<close> blocks above the tip was drawn for it: the row moves there when
  the signed expiry height is canonical there, and otherwise has to be signed again.
\<close>

definition redrawn :: "u32 \<Rightarrow> u32 \<Rightarrow> pending_row \<Rightarrow> pending_row \<Rightarrow> bool" where
  "redrawn tip m p q \<longleftrightarrow>
     (\<exists>h x. tip + m \<le> h \<and> zip318_canonical_migration_expiry_height h = Inr x
        \<and> (if x = pt_expiry_height p then \<exists>ms. q = redraw_row h tip ms p else q = set_part_status ''needs_resign'' p))"

lemma redrawn_not_due: "redrawn tip 1 p q \<Longrightarrow> \<not> due tip q"
  by (auto simp: redrawn_def due_def redraw_row_def split: if_splits)

lemma redraw_row_fields [simp]: "pt_run_id (redraw_row h tip ms p) = pt_run_id p"
  "pt_txid_hex (redraw_row h tip ms p) = pt_txid_hex p" "pt_expiry_height (redraw_row h tip ms p) = pt_expiry_height p"
  "pt_status (redraw_row h tip ms p) = pt_status p"
  by (simp_all add: redraw_row_def)

lemma redrawn_fields: "redrawn tip m p q \<Longrightarrow> pt_run_id q = pt_run_id p \<and> pt_txid_hex q = pt_txid_hex p"
  by (auto simp: redrawn_def split: if_splits)

text \<open>The rows that satisfy \<open>P\<close> are drawn again, the others are as they were.\<close>

definition redraws :: "u32 \<Rightarrow> u32 \<Rightarrow> (pending_row \<Rightarrow> bool) \<Rightarrow> pending_row list \<Rightarrow> pending_row list \<Rightarrow> bool" where
  "redraws tip m P ps qs \<longleftrightarrow> list_all2 (\<lambda>p q. if P p then redrawn tip m p q else q = p) ps qs"

lemma redraws_none: "\<forall>p \<in> set ps. \<not> P p \<Longrightarrow> redraws tip m P ps ps"
  by (auto simp: redraws_def list_all2_same)

lemma redraws_cong: "\<forall>p \<in> set ps. P p = Q p \<Longrightarrow> redraws tip m P ps qs \<longleftrightarrow> redraws tip m Q ps qs"
  by (auto simp: redraws_def list_all2_conv_all_nth)

lemma redraws_compose:
  assumes "redraws tip m P ps qs" and "redraws tip m Q qs rs"
    and "\<And>p. p \<in> set ps \<Longrightarrow> P p \<Longrightarrow> \<not> Q p" and "\<And>p q. P p \<Longrightarrow> redrawn tip m p q \<Longrightarrow> \<not> Q q"
  shows "redraws tip m (\<lambda>p. P p \<or> Q p) ps rs"
  using assms unfolding redraws_def list_all2_conv_all_nth by (metis nth_mem)

lemma redraw_rows_result:
  assumes "redraw_rows start_ms rid tip m txs (b, db) = Inr (b', db')"
    and "distinct (map (fst \<circ> fst) txs)"
    and "\<forall>((t, e), d) \<in> set txs. \<forall>p \<in> set (mdb_pending db). pt_txid_hex p = t \<longrightarrow> pt_expiry_height p = e"
  shows "redraws tip m (\<lambda>p. pt_run_id p = rid \<and> pt_status p = ''scheduled'' \<and> pt_txid_hex p \<in> (fst \<circ> fst) ` set txs)
       (mdb_pending db) (mdb_pending db') \<and> mdb_runs db' = mdb_runs db"
  using assms
proof (induction txs arbitrary: b db)
  case Nil
  then show ?case by (simp add: redraws_none)
next
  case (Cons tx txs)
  obtain t e d where tx: "tx = ((t, e), d)" by (metis prod.exhaust)
  obtain h x where h: "checked_add 32 tip (max d m) = Some h" "zip318_canonical_migration_expiry_height h = Inr x"
    using Cons.prems(1) by (auto simp: tx Let_def)
  have above: "tip + m \<le> h" using h(1) by auto
  obtain f b1 where rest: "redraw_rows start_ms rid tip m txs (b1, snd (sql_update_pending (scheduled_row rid t) f db)) = Inr (b', db')"
    and f: "if x = e then \<exists>ms. f = redraw_row h tip ms else f = set_part_status ''needs_resign''"
    using Cons.prems(1) h by (cases "x = e") (auto simp: tx Let_def)
  have kept: "pt_run_id (f p) = pt_run_id p" "pt_txid_hex (f p) = pt_txid_hex p" "pt_expiry_height (f p) = pt_expiry_height p" for p
    using f by (auto split: if_splits)
  let ?F = "\<lambda>p. if scheduled_row rid t p then f p else p"
  let ?db1 = "snd (sql_update_pending (scheduled_row rid t) f db)"
  have F: "mdb_pending ?db1 = map ?F (mdb_pending db)" by (simp add: sql_update_pending_def)
  have first: "redraws tip m (scheduled_row rid t) (mdb_pending db) (mdb_pending ?db1)"
  proof -
    have "redrawn tip m p (f p)" if "p \<in> set (mdb_pending db)" "scheduled_row rid t p" for p
    proof -
      have "pt_expiry_height p = e" using Cons.prems(3) that by (auto simp: tx scheduled_row_def)
      moreover have "if x = e then \<exists>ms. f p = redraw_row h tip ms p else f p = set_part_status ''needs_resign'' p"
        using f by (auto split: if_splits)
      ultimately show ?thesis using h(2) above unfolding redrawn_def by (intro exI [of _ h] exI [of _ x]) simp
    qed
    then show ?thesis unfolding redraws_def F by (auto simp: list_all2_map2 list_all2_same)
  qed
  have dist: "distinct (map (fst \<circ> fst) txs)" and t: "t \<notin> (fst \<circ> fst) ` set txs" using Cons.prems(2) by (auto simp: tx comp_def)
  have same: "\<forall>((t, e), d) \<in> set txs. \<forall>p \<in> set (mdb_pending ?db1). pt_txid_hex p = t \<longrightarrow> pt_expiry_height p = e"
    using Cons.prems(3) by (auto simp: F kept)
  have later: "redraws tip m (\<lambda>p. pt_run_id p = rid \<and> pt_status p = ''scheduled'' \<and> pt_txid_hex p \<in> (fst \<circ> fst) ` set txs)
       (mdb_pending ?db1) (mdb_pending db')" and runs: "mdb_runs db' = mdb_runs db"
    using Cons.IH [OF rest dist same] by simp_all
  have "redraws tip m (\<lambda>p. scheduled_row rid t p \<or>
      (pt_run_id p = rid \<and> pt_status p = ''scheduled'' \<and> pt_txid_hex p \<in> (fst \<circ> fst) ` set txs)) (mdb_pending db) (mdb_pending db')"
    by (rule redraws_compose [OF first later]) (use t redrawn_fields in \<open>auto simp: scheduled_row_def\<close>)
  then have "redraws tip m (\<lambda>p. pt_run_id p = rid \<and> pt_status p = ''scheduled'' \<and> pt_txid_hex p \<in> (fst \<circ> fst) ` set (tx # txs))
      (mdb_pending db) (mdb_pending db')"
    by (rule redraws_cong [THEN iffD1, rotated]) (auto simp: tx scheduled_row_def)
  then show ?case using runs by simp
qed

section \<open>One run\<close>

definition excluded_tx :: "(string \<times> string) option \<Rightarrow> pending_row \<Rightarrow> bool" where
  "excluded_tx excluded p \<longleftrightarrow> excluded = Some (pt_run_id p, pt_txid_hex p)"

lemma apply_perm_set:
  assumes "shuffles env"
  shows "set (apply_perm (fst (shuffle_perm env (length xs) g)) xs) = set xs"
    and "length (apply_perm (fst (shuffle_perm env (length xs) g)) xs) = length xs"
    and "distinct (map f xs) \<Longrightarrow> distinct (map f (apply_perm (fst (shuffle_perm env (length xs) g)) xs))"
proof -
  have m: "mset (apply_perm (fst (shuffle_perm env (length xs) g)) xs) = mset xs"
    using assms by (intro apply_perm_mset) (simp add: shuffles_def)
  then show "set (apply_perm (fst (shuffle_perm env (length xs) g)) xs) = set xs" by (rule mset_eq_setD)
  show "length (apply_perm (fst (shuffle_perm env (length xs) g)) xs) = length xs" using m by (rule mset_eq_length)
  show "distinct (map f xs) \<Longrightarrow> distinct (map f (apply_perm (fst (shuffle_perm env (length xs) g)) xs))"
    using m by (metis mset_eq_imp_distinct_iff mset_map)
qed

lemma overdue_txids_set:
  assumes "distinct (map pt_txid_hex (mdb_pending db))"
  shows "distinct (map fst (overdue_txids db rid tip excluded))"
    and "p \<in> set (mdb_pending db) \<Longrightarrow> pt_txid_hex p \<in> fst ` set (overdue_txids db rid tip excluded) \<longleftrightarrow>
      pt_run_id p = rid \<and> due tip p \<and> Some (pt_txid_hex p) \<noteq> excluded"
    and "(t, e) \<in> set (overdue_txids db rid tip excluded) \<Longrightarrow> p \<in> set (mdb_pending db) \<Longrightarrow> pt_txid_hex p = t \<Longrightarrow>
      pt_expiry_height p = e"
proof -
  have eq: "overdue_txids db rid tip excluded = map (\<lambda>p. (pt_txid_hex p, pt_expiry_height p))
      (filter (\<lambda>p. pt_run_id p = rid \<and> due tip p \<and> Some (pt_txid_hex p) \<noteq> excluded) (mdb_pending db))"
    by (simp add: overdue_txids_def due_rows_def pending_rows_def due_def filter_map comp_def conj_ac)
  have inj: "inj_on pt_txid_hex (set (mdb_pending db))" using assms by (simp add: distinct_map)
  show "distinct (map fst (overdue_txids db rid tip excluded))"
    using assms by (simp add: eq comp_def distinct_map_filter)
  show "p \<in> set (mdb_pending db) \<Longrightarrow> pt_txid_hex p \<in> fst ` set (overdue_txids db rid tip excluded) \<longleftrightarrow>
      pt_run_id p = rid \<and> due tip p \<and> Some (pt_txid_hex p) \<noteq> excluded"
    using inj by (force simp: eq dest: inj_onD)
  show "(t, e) \<in> set (overdue_txids db rid tip excluded) \<Longrightarrow> p \<in> set (mdb_pending db) \<Longrightarrow> pt_txid_hex p = t \<Longrightarrow>
      pt_expiry_height p = e"
    using inj by (force simp: eq dest: inj_onD)
qed

lemma reschedule_overdue_result:
  assumes "reschedule_overdue_pending_txs_with_options env start_ms now db rid network tip m excluded g = Some (Inr (db', g'))"
    and "distinct (map pt_txid_hex (mdb_pending db))" and "shuffles env"
  shows "redraws tip m (\<lambda>p. pt_run_id p = rid \<and> due tip p \<and> Some (pt_txid_hex p) \<noteq> excluded) (mdb_pending db) (mdb_pending db')"
proof -
  let ?txs = "overdue_txids db rid tip excluded"
  note txids = overdue_txids_set [OF assms(2), where rid = rid and tip = tip and excluded = excluded]
  show ?thesis
  proof (cases "?txs = []")
    case True
    then have "db' = db" using assms(1) by (simp add: reschedule_overdue_pending_txs_with_options_def)
    moreover have "\<forall>p \<in> set (mdb_pending db). \<not> (pt_run_id p = rid \<and> due tip p \<and> Some (pt_txid_hex p) \<noteq> excluded)"
      using txids(2) True by auto
    ultimately show ?thesis by (simp add: redraws_none)
  next
    case False
    obtain perm g1 where perm: "shuffle_perm env (length ?txs) g = (perm, g1)" by fastforce
    note shuffled = apply_perm_set [OF assms(3), where xs = ?txs and g = g, unfolded perm fst_conv]
    obtain mean mx offsets g2 b db1 where o: "random_schedule_block_offsets env (length (apply_perm perm ?txs)) mean mx g1 = Some (offsets, g2)"
      and r: "redraw_rows start_ms rid tip m (zip (apply_perm perm ?txs) offsets) (False, db) = Inr (b, db1)"
      and db': "db' = (if b then ready_for_signing rid now needs_resign_message db1 else db1)"
      using assms(1) False
      by (auto simp: reschedule_overdue_pending_txs_with_options_def Let_def perm split: sum.splits prod.splits)
    have len: "length (apply_perm perm ?txs) = length offsets" using random_offsets_gaps(1) [OF o] by simp
    then have ids: "map (fst \<circ> fst) (zip (apply_perm perm ?txs) offsets) = map fst (apply_perm perm ?txs)"
      by (metis map_fst_zip map_map)
    have "distinct (map (fst \<circ> fst) (zip (apply_perm perm ?txs) offsets))"
      unfolding ids by (rule shuffled(3) [OF txids(1)])
    moreover have "\<forall>((t, e), d) \<in> set (zip (apply_perm perm ?txs) offsets). \<forall>p \<in> set (mdb_pending db).
        pt_txid_hex p = t \<longrightarrow> pt_expiry_height p = e"
      using txids(3) shuffled(1) by (fastforce dest: set_zip_leftD)
    ultimately have "redraws tip m (\<lambda>p. pt_run_id p = rid \<and> pt_status p = ''scheduled''
        \<and> pt_txid_hex p \<in> (fst \<circ> fst) ` set (zip (apply_perm perm ?txs) offsets)) (mdb_pending db) (mdb_pending db1)"
      using redraw_rows_result [OF r] by simp
    moreover have "(fst \<circ> fst) ` set (zip (apply_perm perm ?txs) offsets) = fst ` set ?txs"
      using arg_cong [OF ids, of set] by (simp add: shuffled(1))
    ultimately have "redraws tip m (\<lambda>p. pt_run_id p = rid \<and> pt_status p = ''scheduled'' \<and> pt_txid_hex p \<in> fst ` set ?txs)
        (mdb_pending db) (mdb_pending db1)" by simp
    then have "redraws tip m (\<lambda>p. pt_run_id p = rid \<and> due tip p \<and> Some (pt_txid_hex p) \<noteq> excluded)
        (mdb_pending db) (mdb_pending db1)"
      by (rule redraws_cong [THEN iffD1, rotated]) (use txids(2) in \<open>auto simp: due_def\<close>)
    then show ?thesis by (simp add: db')
  qed
qed

section \<open>All runs of the wallet\<close>

lemma list_all2_origin:
  assumes "list_all2 R ps qs" and "q \<in> set qs"
  obtains p where "p \<in> set ps" and "R p q"
  using assms by (force simp: in_set_conv_nth list_all2_conv_all_nth)

definition excluded_of :: "(string \<times> string) option \<Rightarrow> string \<Rightarrow> string option" where
  "excluded_of excluded rid = (case excluded of
     Some (excluded_run_id, txid) \<Rightarrow> if rid = excluded_run_id then Some txid else None | None \<Rightarrow> None)"

lemma excluded_of_eq: "Some (pt_txid_hex p) = excluded_of excluded (pt_run_id p) \<longleftrightarrow> excluded_tx excluded p"
  by (auto simp: excluded_of_def excluded_tx_def split: option.splits)

lemma redraws_txids:
  assumes "redraws tip m P ps qs"
  shows "map pt_txid_hex qs = map pt_txid_hex ps"
proof (rule nth_equalityI)
  show len: "length (map pt_txid_hex qs) = length (map pt_txid_hex ps)"
    using assms by (simp add: redraws_def list_all2_lengthD)
  show "map pt_txid_hex qs ! i = map pt_txid_hex ps ! i" if "i < length (map pt_txid_hex qs)" for i
    using assms that len redrawn_fields [of tip m "ps ! i" "qs ! i"]
    by (auto simp: redraws_def list_all2_conv_all_nth split: if_splits)
qed

text \<open>
  The runs are treated one after the other: on success all of them are, and on an error a part of the
  rows is.
\<close>

lemma reschedule_runs_result:
  assumes "reschedule_runs env start_ms now network tip excluded rids db g = Some (res, db')"
    and "distinct rids" and "distinct (map pt_txid_hex (mdb_pending db))" and "shuffles env"
  shows "\<exists>treated \<subseteq> set rids. (\<forall>g'. res = Inr g' \<longrightarrow> treated = set rids)
     \<and> redraws tip 1 (\<lambda>p. pt_run_id p \<in> treated \<and> due tip p \<and> \<not> excluded_tx excluded p) (mdb_pending db) (mdb_pending db')"
  using assms(1-3)
proof (induction rids arbitrary: db g)
  case Nil
  then show ?case by (auto intro: redraws_none)
next
  case (Cons rid rids)
  obtain out where out: "reschedule_overdue_pending_txs_with_options env start_ms now db rid network tip 1
      (excluded_of excluded rid) g = Some out"
    using Cons.prems(1) by (auto simp: excluded_of_def split: bind_splits)
  show ?case
  proof (cases out)
    case (Inl e)
    then have "db' = db" and "res = Inl e" using Cons.prems(1) out by (auto simp: excluded_of_def)
    then show ?thesis by (intro exI [of _ "{}"]) (simp add: redraws_none)
  next
    case (Inr x)
    obtain db1 g1 where x: "x = (db1, g1)" by fastforce
    have first: "redraws tip 1 (\<lambda>p. pt_run_id p = rid \<and> due tip p \<and> \<not> excluded_tx excluded p) (mdb_pending db) (mdb_pending db1)"
      using reschedule_overdue_result [OF out [unfolded Inr x] Cons.prems(3) assms(4)]
      by (rule redraws_cong [THEN iffD1, rotated]) (auto simp: excluded_of_eq)
    have "reschedule_runs env start_ms now network tip excluded rids db1 g1 = Some (res, db')"
      using Cons.prems(1) out by (simp add: Inr x excluded_of_def)
    moreover have "distinct (map pt_txid_hex (mdb_pending db1))" using redraws_txids [OF first] Cons.prems(3) by simp
    ultimately obtain treated' where d: "treated' \<subseteq> set rids" "\<forall>g'. res = Inr g' \<longrightarrow> treated' = set rids"
      and later: "redraws tip 1 (\<lambda>p. pt_run_id p \<in> treated' \<and> due tip p \<and> \<not> excluded_tx excluded p) (mdb_pending db1) (mdb_pending db')"
      using Cons.IH Cons.prems(2) by (metis distinct.simps(2))
    have rid: "rid \<notin> treated'" using d(1) Cons.prems(2) by auto
    have "redraws tip 1 (\<lambda>p. (pt_run_id p = rid \<and> due tip p \<and> \<not> excluded_tx excluded p)
        \<or> (pt_run_id p \<in> treated' \<and> due tip p \<and> \<not> excluded_tx excluded p)) (mdb_pending db) (mdb_pending db')"
      by (rule redraws_compose [OF first later]) (use rid redrawn_not_due in auto)
    then have "redraws tip 1 (\<lambda>p. pt_run_id p \<in> insert rid treated' \<and> due tip p \<and> \<not> excluded_tx excluded p)
        (mdb_pending db) (mdb_pending db')"
      by (rule redraws_cong [THEN iffD1, rotated]) auto
    then show ?thesis using d by (intro exI [of _ "insert rid treated'"]) auto
  qed
qed

definition run_on_network :: "migration_db \<Rightarrow> wallet_network \<Rightarrow> string \<Rightarrow> bool" where
  "run_on_network db network rid \<longleftrightarrow> (\<exists>r \<in> set (mdb_runs db). rr_run_id r = rid \<and> rr_network r = network_name network)"

lemma overdue_runs_set:
  "set (overdue_runs db network tip) = {pt_run_id p | p. p \<in> set (mdb_pending db) \<and> due tip p \<and> run_on_network db network (pt_run_id p)}"
  by (auto simp: overdue_runs_def due_def run_on_network_def list_ex_iff)

lemma reschedule_runs_returns:
  assumes "\<And>mean mx. 0 < mean \<Longrightarrow> mean < mx \<Longrightarrow> mx \<le> 576 \<Longrightarrow> always_accepts env mean mx"
  shows "\<exists>out. reschedule_runs env start_ms now network tip excluded rids db g = Some out"
proof (induction rids arbitrary: db g)
  case (Cons rid rids)
  have "\<exists>out. reschedule_overdue_pending_txs_with_options env start_ms now db rid network tip 1 ex g = Some out" for ex
  proof -
    have "\<exists>offsets g'. random_schedule_block_offsets env n mean mx g1 = Some (offsets, g')"
      if "schedule_parameters_with_policy_for_part_count network p k = (mean, mx)" for n mean mx g1 p k
    proof -
      note valid = schedule_parameters_for_part_count_valid [OF that]
      have "mx \<le> 576" using valid(3) schedule_parameters_valid(3) [of network p "fst (schedule_parameters_with_policy network p)" mx]
        by simp
      then have "always_accepts env mean mx" and "0 < mx" using assms valid(1,2) by simp_all
      from random_offsets_return [OF this(1) valid(1) this(2)] show ?thesis .
    qed
    then have "random_schedule_block_offsets env n (fst (schedule_parameters_with_policy_for_part_count network p k))
        (snd (schedule_parameters_with_policy_for_part_count network p k)) g1 \<noteq> None" for n g1 p k
      by (metis prod.collapse option.distinct(1))
    then have "reschedule_overdue_pending_txs_with_options env start_ms now db rid network tip 1 ex g \<noteq> None"
      unfolding reschedule_overdue_pending_txs_with_options_def Let_def case_prod_beta
      by (simp del: not_None_eq split: sum.split)
    then show ?thesis by blast
  qed
  then obtain out where out: "reschedule_overdue_pending_txs_with_options env start_ms now db rid network tip 1
      (excluded_of excluded rid) g = Some out" by blast
  show ?case
  proof (cases out)
    case (Inl e)
    then show ?thesis using out by (simp add: excluded_of_def)
  next
    case (Inr x)
    obtain db1 g1 where "x = (db1, g1)" by fastforce
    then show ?thesis using out Inr Cons.IH [of db1 g1] by (simp add: excluded_of_def)
  qed
qed simp

text \<open>
  C5. One transfer per wallet open. Redrawing the overdue transactions of a network always returns when
  the sampler keeps accepting. A transaction changes only if it was overdue, belongs to a run of the
  network and is not the one that was just accepted, and then it moves to a height above the tip for
  which its signed expiry height is canonical, or is marked to be signed again when the height that
  was drawn lies in another expiry window. When the call reports no error, no transaction of the
  network is left to be sent at the tip, the accepted one apart.
\<close>

theorem one_transfer_per_open:
  assumes "distinct (map pt_txid_hex (mdb_pending db))" and "shuffles env"
    and "\<forall>mean mx. 0 < mean \<and> mean < mx \<and> mx \<le> 576 \<longrightarrow> always_accepts env mean mx"
  shows "\<exists>res db'. reschedule_wallet_overdue_pending_txs_with_exclusion env start_ms now db network tip excluded g = Some (res, db')
     \<and> list_all2 (\<lambda>p q. q = p \<or> due tip p \<and> run_on_network db network (pt_run_id p) \<and> \<not> excluded_tx excluded p
          \<and> redrawn tip 1 p q) (mdb_pending db) (mdb_pending db')
     \<and> (\<forall>g'. res = Inr g' \<longrightarrow> (\<forall>q \<in> set (mdb_pending db').
          due tip q \<and> run_on_network db network (pt_run_id q) \<longrightarrow> excluded_tx excluded q))"
proof -
  let ?rids = "overdue_runs db network tip"
  obtain res db' where r: "reschedule_runs env start_ms now network tip excluded ?rids db g = Some (res, db')"
    using reschedule_runs_returns [of env start_ms now network tip excluded ?rids db g] assms(3) by auto
  have "distinct ?rids" by (simp add: overdue_runs_def)
  then obtain treated where d: "treated \<subseteq> set ?rids" "\<forall>g'. res = Inr g' \<longrightarrow> treated = set ?rids"
    and rows: "redraws tip 1 (\<lambda>p. pt_run_id p \<in> treated \<and> due tip p \<and> \<not> excluded_tx excluded p) (mdb_pending db) (mdb_pending db')"
    using reschedule_runs_result [OF r _ assms(1,2)] by blast
  have network: "run_on_network db network rid" if "rid \<in> set ?rids" for rid using that by (auto simp: overdue_runs_set)
  have changed: "list_all2 (\<lambda>p q. q = p \<or> due tip p \<and> run_on_network db network (pt_run_id p) \<and> \<not> excluded_tx excluded p
          \<and> redrawn tip 1 p q) (mdb_pending db) (mdb_pending db')"
    using rows unfolding redraws_def by (rule list_all2_mono) (use d(1) network in \<open>auto split: if_splits\<close>)
  have "excluded_tx excluded q" if s: "res = Inr g'" and q: "q \<in> set (mdb_pending db')" "due tip q"
    "run_on_network db network (pt_run_id q)" for g' q
  proof (rule ccontr)
    assume e: "\<not> excluded_tx excluded q"
    obtain p where p: "p \<in> set (mdb_pending db)"
      and pq: "if pt_run_id p \<in> treated \<and> due tip p \<and> \<not> excluded_tx excluded p then redrawn tip 1 p q else q = p"
      using rows q(1) unfolding redraws_def by (rule list_all2_origin)
    then have "q = p" and n: "\<not> (pt_run_id p \<in> treated \<and> due tip p \<and> \<not> excluded_tx excluded p)"
      using q(2) redrawn_not_due by (auto split: if_splits)
    then have "pt_run_id p \<in> set ?rids" using p q(2,3) by (auto simp: overdue_runs_set)
    then show False using n d(2) s q(2) e \<open>q = p\<close> by simp
  qed
  then show ?thesis using r changed by (auto simp: reschedule_wallet_overdue_pending_txs_with_exclusion_def)
qed

text \<open>The overdue transaction of the example wallet, with no transaction accepted.\<close>

theorem one_transfer_per_open_witness:
  "\<exists>res db'. reschedule_wallet_overdue_pending_txs_with_exclusion counter_sampler 5 6 example_due_db Test 100 None 0 = Some (res, db')
     \<and> length (mdb_pending db') = 1
     \<and> (\<forall>g'. res = Inr g' \<longrightarrow> (\<forall>q \<in> set (mdb_pending db'). pt_run_id q = ''run'' \<longrightarrow> \<not> due 100 q))"
proof -
  have ids: "distinct (map pt_txid_hex (mdb_pending example_due_db))" by (simp add: example_due_db_def)
  have accepts: "\<forall>mean mx. 0 < mean \<and> mean < mx \<and> mx \<le> 576 \<longrightarrow> always_accepts counter_sampler mean mx"
    using counter_sampler_accepts by simp
  have network: "run_on_network example_due_db Test ''run''"
    by (simp add: run_on_network_def example_due_db_def example_waiting_db_def example_waiting_run_def)
  obtain res db' where "reschedule_wallet_overdue_pending_txs_with_exclusion counter_sampler 5 6 example_due_db Test 100 None 0 = Some (res, db')"
    and rows: "list_all2 (\<lambda>p q. q = p \<or> due 100 p \<and> run_on_network example_due_db Test (pt_run_id p) \<and> \<not> excluded_tx None p
          \<and> redrawn 100 1 p q) (mdb_pending example_due_db) (mdb_pending db')"
    and fine: "\<forall>g'. res = Inr g' \<longrightarrow> (\<forall>q \<in> set (mdb_pending db').
          due 100 q \<and> run_on_network example_due_db Test (pt_run_id q) \<longrightarrow> excluded_tx None q)"
    using one_transfer_per_open [OF ids counter_sampler_shuffles accepts, where tip = 100 and network = Test and excluded = None
        and start_ms = 5 and now = 6 and g = 0] by blast
  moreover have "length (mdb_pending db') = 1" using list_all2_lengthD [OF rows] by (simp add: example_due_db_def)
  ultimately show ?thesis using network by (intro exI [of _ res] exI [of _ db']) (auto simp: excluded_tx_def)
qed

end
