(* ===== verification/Pending_Sent.thy ===== *)
theory Pending_Sent
  imports Pending_Redraw Stage_Round_Trip
begin

text \<open>
  From the insertion of signed transactions to the bytes that are sent: the rows an insertion adds, and
  what the selection later takes from them.
\<close>

section \<open>Insertion\<close>

text \<open>
  C32. The transactions of a run are scheduled as they were planned. When an insertion succeeds, the
  schedule is the one of the run, or one drawn for it, and serves the run's denominations; the parts of
  the call are distinct, and the rows that are added are one for each part, in order: a scheduled row
  with the id and the part, that pays the planned denomination, at its origin plus the offset that the
  schedule gives the part, under an expiry height that is canonical for that height, with the bytes of
  the part encrypted. All rows have the same origin: when the run had none, the call brings one and it is
  stored with the run; when the run had one, it is that, and only a part for which a signed child with
  the same height, expiry height and value is kept may have another. The other rows stay, the run
  waits for its broadcasts, and the tables are in order.
\<close>

theorem insertion_schedules_parts:
  assumes "insert_pending_txs_with_tx env flavor cipher password salt start_ms now db rid parts n g = Some (Inr (db', n', g'))"
    and "run_of db rid = Inr r" and "distinct (map rr_run_id (mdb_runs db))" and "pending_ok db"
    and "\<forall>p \<in> set parts. to_ascii_lowercase (pi_txid_hex p) = pi_txid_hex p"
  shows "pending_ok db' \<and> distinct (map pi_part_index parts)
     \<and> (\<exists>network policy schedule incoming new sb.
          run_network flavor db rid = Inr network \<and> timing_policy_for_run_with_conn db rid = Inr policy
          \<and> validate_schedule_with_policy schedule (rr_target_values r) network policy = Inr ()
          \<and> (rr_schedule r \<noteq> [] \<longrightarrow> schedule = rr_schedule r)
          \<and> mdb_pending db' = mdb_pending db @ new
          \<and> list_all2 (scheduled_part schedule (rr_target_values r) rid) parts new
          \<and> (\<forall>q \<in> set new. from_origin r db incoming q)
          \<and> decode_salt cipher salt = Some sb \<and> list_all2 (sealed_part cipher password sb) parts new
          \<and> run_of db' rid = Inr (inserted_run schedule incoming now r))"
  using assms by (rule insertion_result)

text \<open>A run of one part with its schedule, and the signed transaction of the part.\<close>

definition example_open_run :: run_row where
  "example_open_run = example_waiting_run
     \<lparr>rr_schedule := [\<lparr>se_part_index = Some 0, se_value_zatoshi = 100000000, se_block_offset = 6\<rparr>]\<rparr>"

definition example_open_db :: migration_db where
  "example_open_db = example_waiting_db\<lparr>mdb_runs := [example_open_run], mdb_pending := []\<rparr>"

definition example_part :: part_insert where
  "example_part = \<lparr>pi_part_index = 0, pi_txid_hex = ''t'', pi_raw_tx = [7, 8], pi_target_height = 90,
     pi_anchor_boundary_height = Some 0, pi_expiry_height = 69120, pi_scheduled_height = 95,
     pi_value_zatoshi = 100000000, pi_fee_zatoshi = 15000,
     pi_selected_note = example_note_ref,
     pi_metadata = example_metadata\<rparr>"

definition example_inserted_db :: migration_db where
  "example_inserted_db = example_open_db
     \<lparr>mdb_runs := [move_run PHASE_BROADCAST_SCHEDULED 6 None
        (example_open_run\<lparr>rr_signed_schedule_origin_height := Some 89\<rparr>)],
      mdb_pending := [pending_row_of ''run'' (plain_text [7, 8]) 6005 89 example_part]\<rparr>"

lemma example_insertion:
  "insert_pending_txs_with_tx counter_sampler example_flavor plain_cipher [1] ''salt'' 5 6 example_open_db ''run''
     [example_part] 0 0 = Some (Inr (example_inserted_db, 1, 0))"
proof -
  let ?s = "[\<lparr>se_part_index = Some 0, se_value_zatoshi = 100000000, se_block_offset = 6\<rparr>]"
  note ex = example_open_db_def example_open_run_def example_waiting_db_def example_waiting_run_def
  have run: "run_of example_open_db ''run'' = Inr example_open_run" by (simp add: run_of_def ex)
  have net: "run_network example_flavor example_open_db ''run'' = Inr Test"
    by (simp add: run_network_def run_of_def ex network_from_str_def example_flavor_def)
  have policy: "timing_policy_for_run_with_conn example_open_db ''run'' = Inr Standard"
    by (simp add: timing_policy_for_run_with_conn_def run_of_def ex timing_policy_from_str_def)
  have valid: "validate_schedule_with_policy ?s [100000000] Test Standard = Inr ()"
    by (simp add: validate_schedule_with_policy_def validate_schedule_part_indexes_def const_defs)
  have sched: "rr_schedule example_open_run = ?s" "rr_target_values example_open_run = [100000000]"
    "rr_signed_schedule_origin_height example_open_run = None" by (simp_all add: ex)
  have checked: "check_parts example_open_db ''run'' ?s [100000000] None {} None [example_part] =
      Inr (Some 89, [(example_part, 6, 89)])"
    by (simp add: example_part_def schedule_entry_for_pending_def recover_legacy_height_def accept_origin_def
        zip318_canonical_migration_expiry_height_def const_defs checked_mul_def checked_add_def checked_sub_def map_error_def)
  have salt: "decode_salt plain_cipher ''salt'' = Some []" by (simp add: plain_cipher_def)
  have enc: "encrypt_payload plain_cipher m pw st k = Some (plain_text m, Suc k)" for m pw st k by (simp add: plain_cipher_def)
  let ?db = "example_open_db\<lparr>mdb_runs := [example_open_run\<lparr>rr_signed_schedule_origin_height := Some 89\<rparr>]\<rparr>"
  let ?row = "pending_row_of ''run'' (plain_text [7, 8]) 6005 89 example_part"
  have origin: "set_schedule_origin ''run'' (Some 89) example_open_db = ?db"
    by (simp add: set_schedule_origin_def sql_update_runs_def ex)
  have raw: "pi_raw_tx example_part = [7, 8]" and pending: "mdb_pending example_open_db = []" by (simp_all add: example_part_def ex)
  have rows: "insert_part_rows plain_cipher [1] [] 5 ''run'' [(example_part, 6, 89)] (?db, 0) = Inr (?db\<lparr>mdb_pending := [?row]\<rparr>, 1)"
    by (simp add: enc raw add_ms_def insert_pending_row_def pending)
  have "mark_scheduled ''run'' 6 (?db\<lparr>mdb_pending := [?row]\<rparr>) = example_inserted_db"
    by (simp add: mark_scheduled_def sql_update_runs_def example_inserted_db_def) (simp add: ex)
  then show ?thesis
    unfolding insert_pending_txs_with_tx_def run net policy
    by (simp add: map_error_def sched ensure_run_schedule_def valid checked salt origin rows
        del: check_parts.simps insert_part_rows.simps)
qed

lemma example_open_ok: "pending_ok example_open_db" "run_of example_open_db ''run'' = Inr example_open_run"
  "distinct (map rr_run_id (mdb_runs example_open_db))"
  "\<forall>p \<in> set [example_part]. to_ascii_lowercase (pi_txid_hex p) = pi_txid_hex p"
  by (simp_all add: pending_ok_def keys_unique_def part_keys_def example_open_db_def run_of_def example_open_run_def
      example_waiting_run_def example_part_def to_ascii_lowercase_def ascii_lower_def)

theorem insertion_schedules_parts_witness:
  "pending_ok example_inserted_db
     \<and> (\<exists>schedule row. mdb_pending example_inserted_db = [row]
          \<and> scheduled_part schedule (rr_target_values example_open_run) ''run'' example_part row
          \<and> pt_schedule_start_height row = Some 89)"
proof -
  have stored: "rr_signed_schedule_origin_height example_open_run = None"
    by (simp add: example_open_run_def example_waiting_run_def)
  have "run_of example_inserted_db ''run'' = Inr (move_run PHASE_BROADCAST_SCHEDULED 6 None
      (example_open_run\<lparr>rr_signed_schedule_origin_height := Some 89\<rparr>))"
    by (simp add: run_of_def example_inserted_db_def example_open_run_def example_waiting_run_def move_run_def)
  then have "incoming = Some 89" if "run_of example_inserted_db ''run'' = Inr (inserted_run schedule incoming 6 example_open_run)"
    for schedule incoming
    using arg_cong [OF that, of "\<lambda>x. rr_signed_schedule_origin_height (projr x)"]
    by (simp add: inserted_run_def move_run_def stored)
  then show ?thesis
    using insertion_schedules_parts [OF example_insertion example_open_ok(2,3,1,4)]
    by (fastforce simp: example_open_db_def list_all2_Cons1 from_origin_def stored)
qed

section \<open>What is sent\<close>

lemma first_due_found:
  assumes "first_due identity cipher password salt ps = Inr (Some (t, raw))"
  shows "\<exists>p \<in> set ps. pt_txid_hex p = t \<and> identity t = Inr None
     \<and> decrypt_payload cipher (pt_encrypted_raw_tx p) password salt = Some raw"
  using assms
proof (induction ps)
  case (Cons p ps)
  show ?case
  proof (cases "identity (pt_txid_hex p)")
    case (Inr i)
    then show ?thesis
      using Cons by (cases i) (auto simp: map_error_def split: if_splits)
  qed (use Cons.prems in \<open>simp add: map_error_def\<close>)
qed simp

lemma due_pending_found:
  assumes "due_pending_txs trusted unhex chain cipher now done_at db rid tip password salt = (Inr (Some (t, raw)), db')"
  shows "\<exists>p sb. p \<in> set (mdb_pending db') \<and> pt_run_id p = rid \<and> pt_txid_hex p = t \<and> pt_status p = ''scheduled''
     \<and> pt_scheduled_height p \<le> tip \<and> decode_salt cipher salt = Some sb
     \<and> decrypt_payload cipher (pt_encrypted_raw_tx p) password sb = Some raw
     \<and> local_denomination_chain_identity unhex chain t = Inr None"
    and "rows_step db db'"
proof -
  obtain res db1 where r: "reconcile_run_confirmations trusted unhex chain now done_at db rid = (res, db1)" by fastforce
  then obtain sb where "res = Inr ()" and db1: "db' = db1" and salt: "decode_salt cipher salt = Some sb"
    and first: "first_due (local_denomination_chain_identity unhex chain) cipher password sb
        (sort_key (\<lambda>p. (pt_scheduled_height p, pt_txid_hex p)) (due_rows db1 rid tip)) = Inr (Some (t, raw))"
    using assms by (auto simp: due_pending_txs_def split: sum.splits option.splits)
  from first_due_found [OF first] obtain p where "p \<in> set (due_rows db1 rid tip)" "pt_txid_hex p = t"
    "local_denomination_chain_identity unhex chain t = Inr None"
    "decrypt_payload cipher (pt_encrypted_raw_tx p) password sb = Some raw" by auto
  then show "\<exists>p sb. p \<in> set (mdb_pending db') \<and> pt_run_id p = rid \<and> pt_txid_hex p = t \<and> pt_status p = ''scheduled''
     \<and> pt_scheduled_height p \<le> tip \<and> decode_salt cipher salt = Some sb
     \<and> decrypt_payload cipher (pt_encrypted_raw_tx p) password sb = Some raw
     \<and> local_denomination_chain_identity unhex chain t = Inr None"
    using salt db1 by (auto simp: due_rows_def pending_rows_def)
  show "rows_step db db'" using reconcile_rows_step [OF r] db1 by simp
qed

text \<open>
  C4. What is sent is what was signed. After an insertion, whatever updates follow on the tables, in any
  order and whatever the chain does: when the selection returns a transaction with the id of a part that
  was inserted, then it returns the bytes of that part, and the chain has no transaction of that id.
  What is relied on of the cipher is that it decrypts what it encrypted.
\<close>

theorem sent_bytes_are_inserted:
  assumes "cipher_ok cipher" and "pending_ok db"
    and "insert_pending_txs_with_tx env flavor cipher password salt start_ms now db rid parts n g = Some (Inr (db1, n', g'))"
    and "\<forall>p \<in> set parts. to_ascii_lowercase (pi_txid_hex p) = pi_txid_hex p"
    and "(pending_update env unhex trusted)\<^sup>*\<^sup>* db1 db2"
    and "due_pending_txs trusted unhex chain cipher later done_at db2 rid tip password salt = (Inr (Some (t, raw)), db3)"
    and "p \<in> set parts" and "pi_txid_hex p = t"
  shows "raw = pi_raw_tx p \<and> local_denomination_chain_identity unhex chain t = Inr None"
proof -
  obtain r where "run_of db rid = Inr r" using assms(3)
    by (auto simp: insert_pending_txs_with_tx_def map_error_def split: sum.splits)
  then obtain new sb where ok1: "pending_ok db1" and new: "mdb_pending db1 = mdb_pending db @ new"
    and sb: "decode_salt cipher salt = Some sb" and sealed: "list_all2 (sealed_part cipher password sb) parts new"
    using insertion_rows [OF assms(3) _ assms(2,4)] by blast
  obtain q where q: "q \<in> set (mdb_pending db1)" "sealed_part cipher password sb p q"
    using sealed assms(7) unfolding new list_all2_conv_all_nth by (metis UnCI in_set_conv_nth set_append)
  have steps: "rows_step db1 db3"
    using pending_updates_rows [OF assms(5) ok1] due_pending_found(2) [OF assms(6)] by (rule rows_step_trans)
  from due_pending_found(1) [OF assms(6)] obtain q3 where q3: "q3 \<in> set (mdb_pending db3)" "pt_txid_hex q3 = t"
    "decrypt_payload cipher (pt_encrypted_raw_tx q3) password sb = Some raw"
    "local_denomination_chain_identity unhex chain t = Inr None" using sb by auto
  obtain q1 where q1: "q1 \<in> set (mdb_pending db1)" "fixed q3 = fixed q1"
    using rows_step_origin [OF steps q3(1)] unfolding row_step_def by blast
  have "pt_txid_hex q1 = pt_txid_hex q"
    using fixed_fields(2) [OF q1(2)] q3(2) q(2) assms(8) by (simp add: sealed_part_def)
  then have "q1 = q" using pending_ok_txids(1) [OF ok1] q1(1) q(1) by (metis distinct_map inj_onD)
  then have "pt_encrypted_raw_tx q3 = pt_encrypted_raw_tx q" using fixed_fields(7) [OF q1(2)] by simp
  then have "raw = pi_raw_tx p" using q3(3) q(2) cipher_okD [OF assms(1)] by (auto simp: sealed_part_def)
  with q3(4) show ?thesis by simp
qed

theorem sent_bytes_are_inserted_witness:
  "insert_pending_txs_with_tx counter_sampler example_flavor plain_cipher [1] ''salt'' 5 6 example_open_db ''run''
     [example_part] 0 0 = Some (Inr (example_inserted_db, 1, 0))
   \<and> (\<exists>raw. due_pending_txs 3 example_unhex empty_wallet plain_cipher 7 8 example_inserted_db ''run'' 100 [1] ''salt'' =
        (Inr (Some (''t'', raw)), example_inserted_db) \<and> raw = [7, 8])"
proof -
  let ?p = "pending_row_of ''run'' (plain_text [7, 8]) 6005 89 example_part"
  have t: "pt_txid_hex ?p = ''t''" "pt_scheduled_height ?p = 95" "pt_expiry_height ?p = 69120"
    by (simp_all add: pending_row_of_def example_part_def)
  have follow: "reconcile_run_confirmations 3 example_unhex empty_wallet 7 8 example_inserted_db ''run'' = (Inr (), example_inserted_db)"
    by (rule follow_one_part(1) [where r = "move_run PHASE_BROADCAST_SCHEDULED 6 None
        (example_open_run\<lparr>rr_signed_schedule_origin_height := Some 89\<rparr>)" and p = ?p])
       (simp_all add: example_inserted_db_def example_open_db_def example_open_run_def example_waiting_db_def
         example_waiting_run_def example_part_def move_run_def pending_row_of_def)
  have due: "due_rows example_inserted_db ''run'' 100 = [?p]"
    by (simp add: due_rows_def pending_rows_def example_inserted_db_def pending_row_of_def example_part_def)
  have expiry: "canonical_expiry 95 = Inr 69120"
    by (simp add: zip318_canonical_migration_expiry_height_def const_defs checked_mul_def checked_add_def)
  obtain raw where d: "decrypt_payload plain_cipher (pt_encrypted_raw_tx ?p) [1] [] = Some raw"
    by (simp add: plain_cipher_def)
  have salt: "decode_salt plain_cipher ''salt'' = Some []" by (simp add: plain_cipher_def)
  have "first_due (local_denomination_chain_identity example_unhex empty_wallet) plain_cipher [1] [] [?p] = Inr (Some (''t'', raw))"
    unfolding first_due.simps t expiry by (simp add: empty_wallet_identity map_error_def d)
  then have sel: "due_pending_txs 3 example_unhex empty_wallet plain_cipher 7 8 example_inserted_db ''run'' 100 [1] ''salt'' =
        (Inr (Some (''t'', raw)), example_inserted_db)"
    unfolding due_pending_txs_def follow using salt by (simp add: due del: first_due.simps)
  have "raw = [7, 8]"
    using sent_bytes_are_inserted [OF plain_cipher_ok example_open_ok(1) example_insertion example_open_ok(4) rtranclp.rtrancl_refl sel,
        of example_part] by (simp add: example_part_def)
  then show ?thesis using sel example_insertion by blast
qed

end
