(* ===== verification/Wallet_Locks.thy ===== *)
theory Wallet_Locks
  imports Run_Store "HOL-Library.Product_Lexorder" "HOL-Library.List_Lexorder" "HOL-Library.Char_ord"
begin

text \<open>
  The locks that a migration run holds on the wallet's notes (\<open>migration_wallet_ops.rs\<close>), and their
  reconciliation with the durable state of the run (\<open>migration.rs\<close>).

  The lock table belongs to the wallet library. Its operations are the parameter \<open>lock_api\<close>, on a state
  of any type. A phase transition and a change of the locks are separate transactions, so the tables of
  the run may change between two reads of the reconciliation: each read is given its own tables.
\<close>

section \<open>The library's operations\<close>

record output_ref =
  or_txid :: "byte list"
  or_output_index :: u32

record unspent_note =
  un_output :: output_ref
  un_note_version :: nat

record 'w lock_api =
  la_sha256 :: "byte list \<Rightarrow> byte list"
  la_heights :: "'w \<Rightarrow> unit + (u32 \<times> u32) option"
  la_spendable :: "'w \<Rightarrow> output_ref \<Rightarrow> u32 \<Rightarrow> unit + bool"
  la_unspent :: "'w \<Rightarrow> string \<Rightarrow> u32 \<Rightarrow> unit + unspent_note list"
  la_lock :: "output_ref list \<Rightarrow> byte list \<Rightarrow> u32 \<Rightarrow> 'w \<Rightarrow> unit + 'w"
  la_unlock :: "output_ref \<Rightarrow> byte list \<Rightarrow> 'w \<Rightarrow> unit + 'w"

datatype lock_error =
  LockBadTxidHex | LockTxidNot32Bytes | LockHeights | LockResolve | LockOutputs | UnlockOutput
| SelectNotes | LockPhaseChanged

section \<open>Wallet operations of a run\<close>

definition select_spendable_orchard_v2_notes ::
    "'w lock_api \<Rightarrow> 'w \<Rightarrow> string \<Rightarrow> u32 \<Rightarrow> lock_error + unspent_note list" where
  "select_spendable_orchard_v2_notes api w account_id anchor_height =
     rbind (map_error (\<lambda>_. SelectNotes) (la_unspent api w account_id anchor_height)) (\<lambda>found.
     Inr (filter (\<lambda>n. un_note_version n = 2) found))"

definition string_bytes :: "string \<Rightarrow> byte list" where
  "string_bytes s = map (\<lambda>c. word_of_nat (of_char c)) s"

definition migration_lock_owner :: "'w lock_api \<Rightarrow> string \<Rightarrow> byte list" where
  "migration_lock_owner api run_id =
     la_sha256 api (string_bytes ''vizor-ironwood-migration-lock-v1'' @ string_bytes run_id)"

text \<open>The one variant of the library's policy that the wallet uses.\<close>

datatype locked_input_policy = PreferLocked "byte list set"

definition migration_locked_input_policy :: "'w lock_api \<Rightarrow> string \<Rightarrow> locked_input_policy" where
  "migration_locked_input_policy api run_id = PreferLocked {migration_lock_owner api run_id}"

definition orchard_output_ref ::
    "(string \<Rightarrow> byte list option) \<Rightarrow> string \<times> u32 \<Rightarrow> lock_error + output_ref" where
  "orchard_output_ref unhex candidate =
     rbind (ok_or LockBadTxidHex (unhex (fst candidate))) (\<lambda>txid_bytes.
     if length txid_bytes \<noteq> 32 then Inl LockTxidNot32Bytes
     else Inr \<lparr>or_txid = rev txid_bytes, or_output_index = snd candidate\<rparr>)"

text \<open>The candidates that exist as spendable notes, each once.\<close>

fun spendable_outputs ::
    "'w lock_api \<Rightarrow> 'w \<Rightarrow> u32 \<Rightarrow> output_ref set \<Rightarrow> output_ref list \<Rightarrow> lock_error + output_ref list" where
  "spendable_outputs api w target_height seen [] = Inr []"
| "spendable_outputs api w target_height seen (output # rest) =
     (if output \<in> seen then spendable_outputs api w target_height seen rest
      else
        rbind (map_error (\<lambda>_. LockResolve) (la_spendable api w output target_height)) (\<lambda>found.
        rbind (spendable_outputs api w target_height (insert output seen) rest) (\<lambda>outputs.
        Inr (if found then output # outputs else outputs))))"

text \<open>
  A call returns its result with the wallet. The answer is \<open>False\<close> when the wallet has no target height
  yet.
\<close>

definition ensure_orchard_migration_locks ::
    "'w lock_api \<Rightarrow> (string \<Rightarrow> byte list option) \<Rightarrow> string \<Rightarrow> (string \<times> u32) list \<Rightarrow> 'w \<Rightarrow>
     (lock_error + bool) \<times> 'w" where
  "ensure_orchard_migration_locks api unhex run_id candidates w =
     (if candidates = [] then (Inr True, w)
      else
        case rbind (collect_results (orchard_output_ref unhex) candidates) (\<lambda>refs.
             rbind (map_error (\<lambda>_. LockHeights) (la_heights api w)) (\<lambda>heights.
             case heights of
               None \<Rightarrow> Inr None
             | Some (target_height, _) \<Rightarrow>
                 rbind (spendable_outputs api w target_height {} refs) (\<lambda>outputs. Inr (Some outputs)))) of
          Inl e \<Rightarrow> (Inl e, w)
        | Inr None \<Rightarrow> (Inr False, w)
        | Inr (Some outputs) \<Rightarrow>
            if outputs = [] then (Inr True, w)
            else
              (case la_lock api outputs (migration_lock_owner api run_id) (2 ^ 32 - 1) w of
                 Inl _ \<Rightarrow> (Inl LockOutputs, w)
               | Inr w' \<Rightarrow> (Inr True, w')))"

text \<open>Each output is unlocked on its own, so an error keeps the outputs before it unlocked.\<close>

fun unlock_loop ::
    "'w lock_api \<Rightarrow> (string \<Rightarrow> byte list option) \<Rightarrow> byte list \<Rightarrow> (string \<times> u32) list \<Rightarrow> 'w \<Rightarrow>
     (lock_error + unit) \<times> 'w" where
  "unlock_loop api unhex owner [] w = (Inr (), w)"
| "unlock_loop api unhex owner (c # cs) w =
     (case orchard_output_ref unhex c of
        Inl e \<Rightarrow> (Inl e, w)
      | Inr output \<Rightarrow>
          (case la_unlock api output owner w of
             Inl _ \<Rightarrow> (Inl UnlockOutput, w)
           | Inr w' \<Rightarrow> unlock_loop api unhex owner cs w'))"

definition unlock_orchard_migration_outputs ::
    "'w lock_api \<Rightarrow> (string \<Rightarrow> byte list option) \<Rightarrow> string \<Rightarrow> (string \<times> u32) list \<Rightarrow> 'w \<Rightarrow>
     (lock_error + unit) \<times> 'w" where
  "unlock_orchard_migration_outputs api unhex run_id candidates w =
     (if candidates = [] then (Inr (), w)
      else unlock_loop api unhex (migration_lock_owner api run_id) candidates w)"

section \<open>Reconciliation\<close>

definition wallet_lock_candidates_with_conn :: "migration_db \<Rightarrow> string \<Rightarrow> (string \<times> u32) list" where
  "wallet_lock_candidates_with_conn db run_id =
     sort (remdups
       (map (\<lambda>n. (nr_txid_hex n, nr_output_index n)) (filter (\<lambda>n. nr_run_id n = run_id) (mdb_notes db))
        @ map (\<lambda>i. (ir_txid_hex i, ir_output_index i))
            (filter (\<lambda>i. ir_run_id i = run_id) (db_inputs (mdb_stages db)))))"

definition wallet_lock_reconciliation_is_stable :: "bool \<Rightarrow> bool \<Rightarrow> bool" where
  "wallet_lock_reconciliation_is_stable applied_release current_release \<longleftrightarrow> applied_release = current_release"

definition wallet_lock_reconciliation_snapshot ::
    "migration_db \<Rightarrow> string \<Rightarrow> (bool \<times> (string \<times> u32) list) option" where
  "wallet_lock_reconciliation_snapshot db run_id =
     map_option (\<lambda>r. (migration_phase_releases_wallet_locks (rr_phase r), wallet_lock_candidates_with_conn db run_id))
       (find (\<lambda>r. rr_run_id r = run_id) (mdb_runs db))"

text \<open>One change of the locks towards the phase that was read.\<close>

definition apply_disposition ::
    "'w lock_api \<Rightarrow> (string \<Rightarrow> byte list option) \<Rightarrow> string \<Rightarrow> bool \<Rightarrow> (string \<times> u32) list \<Rightarrow> 'w \<Rightarrow>
     (lock_error + bool) \<times> 'w" where
  "apply_disposition api unhex run_id release_locks candidates w =
     (if release_locks
      then (case unlock_orchard_migration_outputs api unhex run_id candidates w of
              (Inl e, w') \<Rightarrow> (Inl e, w') | (Inr _, w') \<Rightarrow> (Inr True, w'))
      else ensure_orchard_migration_locks api unhex run_id candidates w)"

text \<open>\<open>reads k\<close> are the tables at the \<open>k\<close>-th read; the first argument counts the rounds that are left.\<close>

fun reconcile_rounds ::
    "nat \<Rightarrow> 'w lock_api \<Rightarrow> (string \<Rightarrow> byte list option) \<Rightarrow> (nat \<Rightarrow> migration_db) \<Rightarrow> string \<Rightarrow> nat \<Rightarrow> 'w \<Rightarrow>
     (lock_error + bool) \<times> 'w" where
  "reconcile_rounds 0 api unhex reads run_id k w = (Inl LockPhaseChanged, w)"
| "reconcile_rounds (Suc rounds) api unhex reads run_id k w =
     (case wallet_lock_reconciliation_snapshot (reads k) run_id of
        None \<Rightarrow> (Inr True, w)
      | Some (release_locks, candidates) \<Rightarrow>
          (case apply_disposition api unhex run_id release_locks candidates w of
             (Inl e, w') \<Rightarrow> (Inl e, w')
           | (Inr completed, w') \<Rightarrow>
               (case wallet_lock_reconciliation_snapshot (reads (Suc k)) run_id of
                  None \<Rightarrow>
                    (case unlock_orchard_migration_outputs api unhex run_id candidates w' of
                       (Inl e, w'') \<Rightarrow> (Inl e, w'') | (Inr _, w'') \<Rightarrow> (Inr True, w''))
                | Some (current_release_locks, _) \<Rightarrow>
                    if wallet_lock_reconciliation_is_stable release_locks current_release_locks
                    then (Inr completed, w')
                    else reconcile_rounds rounds api unhex reads run_id (Suc (Suc k)) w')))"

definition reconcile_wallet_locks_for_run_inner ::
    "'w lock_api \<Rightarrow> (string \<Rightarrow> byte list option) \<Rightarrow> (nat \<Rightarrow> migration_db) \<Rightarrow> string \<Rightarrow> 'w \<Rightarrow>
     (lock_error + bool) \<times> 'w" where
  "reconcile_wallet_locks_for_run_inner api unhex reads run_id w = reconcile_rounds 8 api unhex reads run_id 0 w"

definition reconcile_wallet_locks_for_run_with_outcome ::
    "'w lock_api \<Rightarrow> (string \<Rightarrow> byte list option) \<Rightarrow> (nat \<Rightarrow> migration_db) \<Rightarrow> string \<Rightarrow> 'w \<Rightarrow>
     (lock_error + bool) \<times> 'w" where
  "reconcile_wallet_locks_for_run_with_outcome api unhex reads run_id w =
     reconcile_wallet_locks_for_run_inner api unhex reads run_id w"

definition reconcile_wallet_locks_for_run ::
    "'w lock_api \<Rightarrow> (string \<Rightarrow> byte list option) \<Rightarrow> (nat \<Rightarrow> migration_db) \<Rightarrow> string \<Rightarrow> 'w \<Rightarrow>
     (lock_error + unit) \<times> 'w" where
  "reconcile_wallet_locks_for_run api unhex reads run_id w =
     (case reconcile_wallet_locks_for_run_with_outcome api unhex reads run_id w of
        (Inl e, w') \<Rightarrow> (Inl e, w') | (Inr _, w') \<Rightarrow> (Inr (), w'))"

end
