(* ===== verification/Lock_Settling.thy ===== *)
theory Lock_Settling
  imports Wallet_Locks
begin

text \<open>
  What a reconciliation of the wallet locks achieves, whatever happens to the tables of the run between
  its reads.
\<close>

section \<open>What is relied on of the library\<close>

text \<open>
  \<open>locked w x\<close> is the owner of the lock on an output. Locking gives every output of the call to the
  owner, unlocking releases an output that the owner holds, and neither changes which notes exist: the
  notes are asked for without regard to locks.
\<close>

definition same_notes :: "'w lock_api \<Rightarrow> 'w \<Rightarrow> 'w \<Rightarrow> bool" where
  "same_notes api w w' \<longleftrightarrow> la_heights api w' = la_heights api w
     \<and> (\<forall>x h. la_spendable api w' x h = la_spendable api w x h)"

definition lock_laws :: "'w lock_api \<Rightarrow> ('w \<Rightarrow> output_ref \<Rightarrow> byte list option) \<Rightarrow> bool" where
  "lock_laws api locked \<longleftrightarrow>
     (\<forall>xs owner h w w'. la_lock api xs owner h w = Inr w' \<longrightarrow>
        (\<forall>x. locked w' x = (if x \<in> set xs then Some owner else locked w x)) \<and> same_notes api w w')
   \<and> (\<forall>x owner w w'. la_unlock api x owner w = Inr w' \<longrightarrow>
        (\<forall>y. locked w' y = (if y = x \<and> locked w x = Some owner then None else locked w y)) \<and> same_notes api w w')"

lemma lock_lawsD:
  assumes "lock_laws api locked"
  shows "la_lock api xs owner h w = Inr w' \<Longrightarrow>
      locked w' x = (if x \<in> set xs then Some owner else locked w x) \<and> same_notes api w w'"
    and "la_unlock api x owner w = Inr w' \<Longrightarrow>
      locked w' y = (if y = x \<and> locked w x = Some owner then None else locked w y) \<and> same_notes api w w'"
  using assms unfolding lock_laws_def by blast+

lemma map_error_ok: "map_error f r = Inr x \<longleftrightarrow> r = Inr x"
  by (cases r) (simp_all add: map_error_def)

lemma same_notes_refl [simp]: "same_notes api w w"
  by (simp add: same_notes_def)

lemma same_notes_trans: "same_notes api w w1 \<Longrightarrow> same_notes api w1 w2 \<Longrightarrow> same_notes api w w2"
  by (simp add: same_notes_def)

section \<open>One change of the locks\<close>

definition candidate_outputs :: "(string \<Rightarrow> byte list option) \<Rightarrow> (string \<times> u32) list \<Rightarrow> output_ref set" where
  "candidate_outputs unhex candidates = {x. \<exists>c \<in> set candidates. orchard_output_ref unhex c = Inr x}"

text \<open>
  The locks agree with a phase: no candidate is held by the run when the phase releases its locks, and
  otherwise every candidate that exists as a spendable note is.
\<close>

definition locks_agree ::
    "'w lock_api \<Rightarrow> ('w \<Rightarrow> output_ref \<Rightarrow> byte list option) \<Rightarrow> (string \<Rightarrow> byte list option) \<Rightarrow> string \<Rightarrow> bool \<Rightarrow>
     (string \<times> u32) list \<Rightarrow> 'w \<Rightarrow> bool" where
  "locks_agree api locked unhex run_id release candidates w \<longleftrightarrow>
     (if release then \<forall>x \<in> candidate_outputs unhex candidates. locked w x \<noteq> Some (migration_lock_owner api run_id)
      else \<forall>x \<in> candidate_outputs unhex candidates. \<forall>h a.
        la_heights api w = Inr (Some (h, a)) \<longrightarrow> la_spendable api w x h = Inr True \<longrightarrow>
        locked w x = Some (migration_lock_owner api run_id))"

text \<open>Only candidates change hands, and they go to the run or to nobody.\<close>

definition locks_moved ::
    "('w \<Rightarrow> output_ref \<Rightarrow> byte list option) \<Rightarrow> byte list \<Rightarrow> output_ref set \<Rightarrow> 'w \<Rightarrow> 'w \<Rightarrow> bool" where
  "locks_moved locked owner xs w w' \<longleftrightarrow>
     (\<forall>x. locked w' x \<noteq> locked w x \<longrightarrow> x \<in> xs \<and> locked w' x \<in> {None, Some owner})"

lemma locks_moved_refl [simp]: "locks_moved locked owner xs w w"
  by (simp add: locks_moved_def)

lemma locks_moved_trans:
  "locks_moved locked owner xs w w1 \<Longrightarrow> locks_moved locked owner ys w1 w2 \<Longrightarrow> xs \<subseteq> zs \<Longrightarrow> ys \<subseteq> zs \<Longrightarrow>
     locks_moved locked owner zs w w2"
  unfolding locks_moved_def by (metis subsetD)

lemma locks_moved_mono: "locks_moved locked owner xs w w' \<Longrightarrow> xs \<subseteq> ys \<Longrightarrow> locks_moved locked owner ys w w'"
  unfolding locks_moved_def by blast

text \<open>Only candidates that the owner held change hands, and they go to nobody.\<close>

definition locks_released ::
    "('w \<Rightarrow> output_ref \<Rightarrow> byte list option) \<Rightarrow> byte list \<Rightarrow> output_ref set \<Rightarrow> 'w \<Rightarrow> 'w \<Rightarrow> bool" where
  "locks_released locked owner xs w w' \<longleftrightarrow>
     (\<forall>x. locked w' x \<noteq> locked w x \<longrightarrow> x \<in> xs \<and> locked w x = Some owner \<and> locked w' x = None)"

lemma locks_released_refl [simp]: "locks_released locked owner xs w w"
  by (simp add: locks_released_def)

lemma locks_released_trans:
  "locks_released locked owner xs w w1 \<Longrightarrow> locks_released locked owner ys w1 w2 \<Longrightarrow> xs \<subseteq> zs \<Longrightarrow> ys \<subseteq> zs \<Longrightarrow>
     locks_released locked owner zs w w2"
  unfolding locks_released_def by (metis subsetD)

lemma locks_released_moved: "locks_released locked owner xs w w' \<Longrightarrow> locks_moved locked owner xs w w'"
  by (simp add: locks_released_def locks_moved_def)

text \<open>
  The library may refuse to lock an output that another owner holds. When it does, the locks of the other
  owners stay as they are.
\<close>

definition lock_exclusive :: "'w lock_api \<Rightarrow> ('w \<Rightarrow> output_ref \<Rightarrow> byte list option) \<Rightarrow> bool" where
  "lock_exclusive api locked \<longleftrightarrow>
     (\<forall>xs owner h w w'. la_lock api xs owner h w = Inr w' \<longrightarrow> (\<forall>x \<in> set xs. locked w x \<in> {None, Some owner}))"

definition others_locks_kept :: "('w \<Rightarrow> output_ref \<Rightarrow> byte list option) \<Rightarrow> byte list \<Rightarrow> 'w \<Rightarrow> 'w \<Rightarrow> bool" where
  "others_locks_kept locked owner w w' \<longleftrightarrow> (\<forall>x. locked w x \<notin> {None, Some owner} \<longrightarrow> locked w' x = locked w x)"

lemma others_locks_kept_refl [simp]: "others_locks_kept locked owner w w"
  by (simp add: others_locks_kept_def)

lemma others_locks_kept_trans:
  "others_locks_kept locked owner w w1 \<Longrightarrow> others_locks_kept locked owner w1 w2 \<Longrightarrow> others_locks_kept locked owner w w2"
  unfolding others_locks_kept_def by metis

lemma locks_released_others: "locks_released locked owner xs w w' \<Longrightarrow> others_locks_kept locked owner w w'"
  unfolding locks_released_def others_locks_kept_def by blast

lemma ensure_locks_others:
  assumes "ensure_orchard_migration_locks api unhex rid candidates w = (res, w')"
    and "lock_laws api locked" and "lock_exclusive api locked"
  shows "others_locks_kept locked (migration_lock_owner api rid) w w'"
proof -
  consider "w' = w" | outputs where "la_lock api outputs (migration_lock_owner api rid) (2 ^ 32 - 1) w = Inr w'"
    using assms(1)
    by (auto simp: ensure_orchard_migration_locks_def split: if_splits sum.splits option.splits)
  then show ?thesis
  proof cases
    case (2 outputs)
    then have "\<forall>x \<in> set outputs. locked w x \<in> {None, Some (migration_lock_owner api rid)}"
      using assms(3) unfolding lock_exclusive_def by blast
    then show ?thesis using lock_lawsD(1) [OF assms(2) 2] by (auto simp: others_locks_kept_def)
  qed simp
qed

lemma spendable_outputs_set:
  assumes "spendable_outputs api w h seen xs = Inr ys"
  shows "set ys = {x \<in> set xs - seen. la_spendable api w x h = Inr True}"
  using assms
proof (induction xs arbitrary: seen ys)
  case (Cons x xs)
  show ?case
  proof (cases "x \<in> seen")
    case True
    then show ?thesis using Cons by auto
  next
    case False
    then have "\<exists>found. la_spendable api w x h = Inr found" using Cons.prems
      by (cases "la_spendable api w x h") (simp_all add: map_error_def)
    then obtain found where found: "la_spendable api w x h = Inr found" ..
    have eq: "spendable_outputs api w h seen (x # xs) =
        rbind (spendable_outputs api w h (insert x seen) xs) (\<lambda>zs. Inr (if found then x # zs else zs))"
      by (simp add: False found map_error_def)
    have "\<exists>zs. spendable_outputs api w h (insert x seen) xs = Inr zs \<and> Inr (if found then x # zs else zs) = (Inr ys :: lock_error + _)"
      using Cons.prems unfolding eq rbind_eq_Inr .
    then obtain zs where zs: "spendable_outputs api w h (insert x seen) xs = Inr zs"
      and ys: "ys = (if found then x # zs else zs)" by blast
    have ih: "set zs = {y \<in> set xs - insert x seen. la_spendable api w y h = Inr True}" by (rule Cons.IH [OF zs])
    show ?thesis
    proof (cases found)
      case True
      then have "set ys = insert x {y \<in> set xs - insert x seen. la_spendable api w y h = Inr True}"
        and "la_spendable api w x h = Inr True" using ih found by (simp_all add: ys)
      then show ?thesis using False by auto
    next
      case f: False
      then have "set ys = {y \<in> set xs - insert x seen. la_spendable api w y h = Inr True}"
        and "la_spendable api w x h \<noteq> Inr True" using ih found by (simp_all add: ys)
      then show ?thesis by auto
    qed
  qed
qed simp

lemma collect_refs_set:
  assumes "collect_results (orchard_output_ref unhex) candidates = Inr refs"
  shows "set refs = candidate_outputs unhex candidates"
  using assms by (fastforce simp: collect_results_Inr_iff candidate_outputs_def list_all2_conv_all_nth in_set_conv_nth)

lemma ensure_locks_result:
  assumes "ensure_orchard_migration_locks api unhex rid candidates w = (res, w')" and "lock_laws api locked"
  shows "locks_moved locked (migration_lock_owner api rid) (candidate_outputs unhex candidates) w w'"
    and "same_notes api w w'"
    and "res = Inr completed \<Longrightarrow> locks_agree api locked unhex rid False candidates w'"
    and "res = Inr completed \<Longrightarrow> \<not> completed \<Longrightarrow> w' = w \<and> la_heights api w = Inr None"
proof -
  let ?owner = "migration_lock_owner api rid"
  consider (none) "w' = w" "candidates = []"
    | (error) e where "w' = w" "res = Inl e"
    | (early) "w' = w" "res = Inr False" "la_heights api w = Inr None"
    | (locked) refs outputs h a where "collect_results (orchard_output_ref unhex) candidates = Inr refs"
        "la_heights api w = Inr (Some (h, a))" "spendable_outputs api w h {} refs = Inr outputs" "res = Inr True"
        "if outputs = [] then w' = w else la_lock api outputs ?owner (2 ^ 32 - 1) w = Inr w'"
  proof (cases "candidates = []")
    case True
    then show ?thesis using none assms(1) by (simp add: ensure_orchard_migration_locks_def)
  next
    case False
    let ?pre = "rbind (collect_results (orchard_output_ref unhex) candidates) (\<lambda>refs.
             rbind (map_error (\<lambda>_. LockHeights) (la_heights api w)) (\<lambda>heights.
             case heights of
               None \<Rightarrow> Inr None
             | Some (target_height, _) \<Rightarrow>
                 rbind (spendable_outputs api w target_height {} refs) (\<lambda>outputs. Inr (Some outputs))))"
    note def = assms(1) [unfolded ensure_orchard_migration_locks_def if_not_P [OF False]]
    show ?thesis
    proof (cases ?pre)
      case (Inl e)
      then have "res = Inl e" and "w' = w" using def by auto
      then show ?thesis using error by blast
    next
      case (Inr found)
      then obtain refs heights where refs: "collect_results (orchard_output_ref unhex) candidates = Inr refs"
        and heights: "la_heights api w = Inr heights"
        and rest: "(case heights of None \<Rightarrow> Inr None
             | Some (target_height, _) \<Rightarrow>
                 rbind (spendable_outputs api w target_height {} refs) (\<lambda>outputs. Inr (Some outputs))) = Inr found"
        by (simp add: map_error_ok) blast
      show ?thesis
      proof (cases heights)
        case None
        then show ?thesis using early def [unfolded Inr] heights rest by simp
      next
        case (Some ha)
        obtain h a where ha: "ha = (h, a)" by fastforce
        obtain outputs where o: "spendable_outputs api w h {} refs = Inr outputs" "found = Some outputs"
          using rest Some ha by auto
        show ?thesis
        proof (cases "outputs = []")
          case True
          then show ?thesis using locked [OF refs _ o(1)] heights Some ha def [unfolded Inr] o(2) by simp
        next
          case False
          then show ?thesis
            using locked [OF refs _ o(1)] error heights Some ha def [unfolded Inr] o(2)
            by (cases "la_lock api outputs ?owner (2 ^ 32 - 1) w") auto
        qed
      qed
    qed
  qed
  then have "locks_moved locked ?owner (candidate_outputs unhex candidates) w w' \<and> same_notes api w w'
    \<and> (res = Inr completed \<longrightarrow> locks_agree api locked unhex rid False candidates w')
    \<and> (res = Inr completed \<longrightarrow> \<not> completed \<longrightarrow> w' = w \<and> la_heights api w = Inr None)"
  proof cases
    case none
    then show ?thesis using assms(1) by (auto simp: locks_agree_def candidate_outputs_def ensure_orchard_migration_locks_def)
  next
    case error
    then show ?thesis by simp
  next
    case early
    then show ?thesis by (simp add: locks_agree_def)
  next
    case (locked refs outputs h a)
    have outs: "set outputs = {x \<in> candidate_outputs unhex candidates. la_spendable api w x h = Inr True}"
      using spendable_outputs_set [OF locked(3)] collect_refs_set [OF locked(1)] by simp
    have "(\<forall>x. locked w' x = (if x \<in> set outputs then Some ?owner else locked w x)) \<and> same_notes api w w'"
      using locked(5) lock_lawsD(1) [OF assms(2)] by (cases "outputs = []") auto
    then show ?thesis
      using outs locked(2,4) by (auto simp: locks_moved_def locks_agree_def same_notes_def)
  qed
  then show "locks_moved locked ?owner (candidate_outputs unhex candidates) w w'" and "same_notes api w w'"
    and "res = Inr completed \<Longrightarrow> locks_agree api locked unhex rid False candidates w'"
    and "res = Inr completed \<Longrightarrow> \<not> completed \<Longrightarrow> w' = w \<and> la_heights api w = Inr None" by blast+
qed

lemma unlock_loop_result:
  assumes "unlock_loop api unhex owner cs w = (res, w')" and "lock_laws api locked"
  shows "locks_released locked owner (candidate_outputs unhex cs) w w' \<and> same_notes api w w'
    \<and> (res = Inr () \<longrightarrow> (\<forall>x \<in> candidate_outputs unhex cs. locked w' x \<noteq> Some owner))"
  using assms(1)
proof (induction cs arbitrary: w)
  case Nil
  then show ?case by (simp add: candidate_outputs_def)
next
  case (Cons c cs)
  let ?all = "candidate_outputs unhex (c # cs)"
  show ?case
  proof (cases "orchard_output_ref unhex c")
    case (Inl e)
    then show ?thesis using Cons.prems by auto
  next
    case (Inr x)
    show ?thesis
    proof (cases "la_unlock api x owner w")
      case (Inl e)
      then show ?thesis using Cons.prems Inr by auto
    next
      case r: (Inr w1)
      have law: "locked w1 y = (if y = x \<and> locked w x = Some owner then None else locked w y) \<and> same_notes api w w1" for y
        using lock_lawsD(2) [OF assms(2) r] .
      have rest: "unlock_loop api unhex owner cs w1 = (res, w')" using Cons.prems Inr r by simp
      note ih = Cons.IH [OF rest]
      have all: "?all = insert x (candidate_outputs unhex cs)" using Inr by (auto simp: candidate_outputs_def)
      have "locks_released locked owner {x} w w1" using law by (auto simp: locks_released_def)
      moreover have "locks_released locked owner (candidate_outputs unhex cs) w1 w'" using ih by blast
      ultimately have "locks_released locked owner ?all w w'" by (rule locks_released_trans) (auto simp: all)
      moreover have "same_notes api w w'" using same_notes_trans [of api w w1 w'] law ih by blast
      moreover have "locked w' x \<noteq> Some owner" using ih law unfolding locks_released_def by (metis option.distinct(1))
      ultimately show ?thesis using ih by (auto simp: all)
    qed
  qed
qed

lemma unlock_result:
  assumes "unlock_orchard_migration_outputs api unhex rid cs w = (res, w')" and "lock_laws api locked"
  shows "locks_moved locked (migration_lock_owner api rid) (candidate_outputs unhex cs) w w'"
    and "same_notes api w w'"
    and "res = Inr () \<Longrightarrow> locks_agree api locked unhex rid True cs w'"
    and "locks_released locked (migration_lock_owner api rid) (candidate_outputs unhex cs) w w'"
proof -
  have "locks_released locked (migration_lock_owner api rid) (candidate_outputs unhex cs) w w' \<and> same_notes api w w'
      \<and> (res = Inr () \<longrightarrow> locks_agree api locked unhex rid True cs w')"
  proof (cases "cs = []")
    case True
    then show ?thesis using assms(1) by (auto simp: unlock_orchard_migration_outputs_def locks_agree_def candidate_outputs_def)
  next
    case False
    then have "unlock_loop api unhex (migration_lock_owner api rid) cs w = (res, w')"
      using assms(1) by (simp add: unlock_orchard_migration_outputs_def)
    from unlock_loop_result [OF this assms(2)] show ?thesis by (simp add: locks_agree_def)
  qed
  then show "locks_moved locked (migration_lock_owner api rid) (candidate_outputs unhex cs) w w'"
    and "same_notes api w w'" and "res = Inr () \<Longrightarrow> locks_agree api locked unhex rid True cs w'"
    and "locks_released locked (migration_lock_owner api rid) (candidate_outputs unhex cs) w w'"
    by (blast intro: locks_released_moved)+
qed

lemma apply_disposition_result:
  assumes "apply_disposition api unhex rid release cs w = (res, w')" and "lock_laws api locked"
  shows "locks_moved locked (migration_lock_owner api rid) (candidate_outputs unhex cs) w w'"
    and "same_notes api w w'"
    and "res = Inr completed \<Longrightarrow> locks_agree api locked unhex rid release cs w'"
    and "res = Inr False \<Longrightarrow> \<not> release \<and> w' = w \<and> la_heights api w = Inr None"
    and "release \<Longrightarrow> locks_released locked (migration_lock_owner api rid) (candidate_outputs unhex cs) w w'"
proof -
  have "locks_moved locked (migration_lock_owner api rid) (candidate_outputs unhex cs) w w' \<and> same_notes api w w'
    \<and> (res = Inr completed \<longrightarrow> locks_agree api locked unhex rid release cs w')
    \<and> (res = Inr False \<longrightarrow> \<not> release \<and> w' = w \<and> la_heights api w = Inr None)
    \<and> (release \<longrightarrow> locks_released locked (migration_lock_owner api rid) (candidate_outputs unhex cs) w w')"
  proof (cases release)
    case True
    obtain r w1 where u: "unlock_orchard_migration_outputs api unhex rid cs w = (r, w1)" by fastforce
    then show ?thesis
      using assms(1) True unlock_result [OF u assms(2)] by (cases r) (auto simp: apply_disposition_def)
  next
    case False
    then have e: "ensure_orchard_migration_locks api unhex rid cs w = (res, w')" using assms(1) by (simp add: apply_disposition_def)
    show ?thesis using ensure_locks_result [OF e assms(2)] False by auto
  qed
  then show "locks_moved locked (migration_lock_owner api rid) (candidate_outputs unhex cs) w w'"
    and "same_notes api w w'" and "res = Inr completed \<Longrightarrow> locks_agree api locked unhex rid release cs w'"
    and "res = Inr False \<Longrightarrow> \<not> release \<and> w' = w \<and> la_heights api w = Inr None"
    and "release \<Longrightarrow> locks_released locked (migration_lock_owner api rid) (candidate_outputs unhex cs) w w'" by blast+
qed

lemma apply_disposition_others:
  assumes "apply_disposition api unhex rid release cs w = (res, w')" and "lock_laws api locked" and "lock_exclusive api locked"
  shows "others_locks_kept locked (migration_lock_owner api rid) w w'"
proof (cases release)
  case True
  show ?thesis by (rule locks_released_others [OF apply_disposition_result(5) [OF assms(1,2) True]])
next
  case False
  then show ?thesis using ensure_locks_others [OF _ assms(2,3)] assms(1) by (simp add: apply_disposition_def)
qed

end
