(* ===== verification/Lock_Reconcile.thy ===== *)
theory Lock_Reconcile
  imports Lock_Settling Run_Completion
begin

text \<open>
  The rounds of a reconciliation, and a lock table on which the laws hold.
\<close>

section \<open>Rounds\<close>

abbreviation run_candidates :: "(nat \<Rightarrow> migration_db) \<Rightarrow> string \<Rightarrow> nat \<Rightarrow> (string \<times> u32) list" where
  "run_candidates reads rid k \<equiv> wallet_lock_candidates_with_conn (reads k) rid"

lemma snapshot_eq_Some:
  "wallet_lock_reconciliation_snapshot db rid = Some (release, cs) \<longleftrightarrow>
     (\<exists>r. find (\<lambda>r. rr_run_id r = rid) (mdb_runs db) = Some r
        \<and> release = migration_phase_releases_wallet_locks (rr_phase r) \<and> cs = wallet_lock_candidates_with_conn db rid)"
  by (auto simp: wallet_lock_reconciliation_snapshot_def)

text \<open>
  The state that a call leaves behind when it reports no error: the run was gone at a read, or the locks
  agree with the phase that the last read found.
\<close>

definition settled ::
    "'w lock_api \<Rightarrow> ('w \<Rightarrow> output_ref \<Rightarrow> byte list option) \<Rightarrow> (string \<Rightarrow> byte list option) \<Rightarrow> (nat \<Rightarrow> migration_db) \<Rightarrow>
     string \<Rightarrow> nat \<Rightarrow> bool \<Rightarrow> 'w \<Rightarrow> bool" where
  "settled api locked unhex reads rid k completed w \<longleftrightarrow>
     (case find (\<lambda>r. rr_run_id r = rid) (mdb_runs (reads k)) of
        None \<Rightarrow> completed \<and> (odd k \<longrightarrow> locks_agree api locked unhex rid True (run_candidates reads rid (k - 1)) w)
      | Some r \<Rightarrow> odd k
          \<and> locks_agree api locked unhex rid (migration_phase_releases_wallet_locks (rr_phase r))
              (run_candidates reads rid (k - 1)) w
          \<and> (\<not> completed \<longrightarrow> \<not> migration_phase_releases_wallet_locks (rr_phase r) \<and> la_heights api w = Inr None))"

lemma reconcile_rounds_result:
  assumes "reconcile_rounds n api unhex reads rid k w = (res, w')" and "lock_laws api locked" and "even k"
  shows "locks_moved locked (migration_lock_owner api rid) (\<Union>j. candidate_outputs unhex (run_candidates reads rid j)) w w'
    \<and> (\<forall>completed. res = Inr completed \<longrightarrow> (\<exists>j < k + 2 * n. settled api locked unhex reads rid j completed w'))"
  using assms(1,3)
proof (induction n arbitrary: k w)
  case (Suc n)
  let ?owner = "migration_lock_owner api rid"
  let ?all = "\<Union>j. candidate_outputs unhex (run_candidates reads rid j)"
  show ?case
  proof (cases "wallet_lock_reconciliation_snapshot (reads k) rid")
    case None
    then have "res = Inr True" and "w' = w" using Suc.prems(1) by auto
    moreover have "settled api locked unhex reads rid k True w"
      using None Suc.prems(2) by (simp add: settled_def wallet_lock_reconciliation_snapshot_def)
    ultimately show ?thesis by (auto intro!: exI [of _ k])
  next
    case (Some rc)
    obtain release cs where rc: "rc = (release, cs)" by fastforce
    have cs: "cs = run_candidates reads rid k" using Some rc by (auto simp: snapshot_eq_Some)
    obtain r1 w1 where a: "apply_disposition api unhex rid release cs w = (r1, w1)" by fastforce
    note applied = apply_disposition_result [OF a assms(2)]
    have sub: "candidate_outputs unhex cs \<subseteq> ?all" by (auto simp: cs)
    have m1: "locks_moved locked ?owner ?all w w1" by (rule locks_moved_mono [OF applied(1) sub])
    show ?thesis
    proof (cases r1)
      case (Inl e)
      then have "res = Inl e" and "w' = w1" using Suc.prems(1) Some rc a by auto
      then show ?thesis using m1 by simp
    next
      case (Inr completed)
      have odd: "odd (Suc k)" and prev: "Suc k - 1 = k" using Suc.prems(2) by simp_all
      show ?thesis
      proof (cases "wallet_lock_reconciliation_snapshot (reads (Suc k)) rid")
        case None
        obtain r2 w2 where u: "unlock_orchard_migration_outputs api unhex rid cs w1 = (r2, w2)" by fastforce
        note unlocked = unlock_result [OF u assms(2)]
        have "locks_moved locked ?owner ?all w w2"
          by (rule locks_moved_trans [OF m1 unlocked(1)]) (use sub in auto)
        moreover have "w' = w2" and "res = (case r2 of Inl e \<Rightarrow> Inl e | Inr _ \<Rightarrow> Inr True)"
          using Suc.prems(1) Some rc a Inr None u by (auto split: sum.splits)
        moreover have "settled api locked unhex reads rid (Suc k) True w2" if "r2 = Inr ()"
          using unlocked(3) [OF that] None odd unfolding settled_def prev
          by (simp add: wallet_lock_reconciliation_snapshot_def cs)
        ultimately show ?thesis by (auto intro!: exI [of _ "Suc k"] split: sum.splits)
      next
        case s2: (Some rc2)
        obtain current cs2 where rc2: "rc2 = (current, cs2)" by fastforce
        show ?thesis
        proof (cases "release = current")
          case True
          then have eq: "res = Inr completed" "w' = w1"
            using Suc.prems(1) Some rc a Inr s2 rc2 by (auto simp: wallet_lock_reconciliation_is_stable_def)
          obtain r where r: "find (\<lambda>r. rr_run_id r = rid) (mdb_runs (reads (Suc k))) = Some r"
            "release = migration_phase_releases_wallet_locks (rr_phase r)"
            using s2 rc2 True by (auto simp: snapshot_eq_Some)
          have "\<not> completed \<longrightarrow> \<not> release \<and> la_heights api w1 = Inr None"
            using applied(4) Inr by (cases completed) auto
          then have "settled api locked unhex reads rid (Suc k) completed w1"
            using applied(3) [OF Inr] odd r unfolding settled_def prev by (simp add: cs)
          then show ?thesis using m1 eq by (auto intro!: exI [of _ "Suc k"])
        next
          case False
          then have rest: "reconcile_rounds n api unhex reads rid (Suc (Suc k)) w1 = (res, w')"
            using Suc.prems(1) Some rc a Inr s2 rc2 by (simp add: wallet_lock_reconciliation_is_stable_def)
          have "even (Suc (Suc k))" using Suc.prems(2) by simp
          note ih = Suc.IH [OF rest this]
          have "locks_moved locked ?owner ?all w w'" by (rule locks_moved_trans [OF m1 conjunct1 [OF ih]]) auto
          then show ?thesis using ih by auto
        qed
      qed
    qed
  qed
qed auto

text \<open>
  C16. The wallet locks follow the run, whatever happens to its tables between two reads. A reconciliation
  gives the candidates of the run to the run or to nobody and touches no other output. When it reports
  no error, at most sixteen reads were made, and either the run was gone at the last one, and then its
  locks of the last round are released, or the locks agree with the phase that the last read found: a
  run that is over holds none of the candidates, and any other run holds every candidate that exists as
  a spendable note, unless the wallet has no target height yet, which the answer says.
\<close>

theorem locks_settle:
  assumes "lock_laws api locked"
    and "reconcile_wallet_locks_for_run_with_outcome api unhex reads rid w = (res, w')"
  shows "locks_moved locked (migration_lock_owner api rid)
       (\<Union>j. candidate_outputs unhex (wallet_lock_candidates_with_conn (reads j) rid)) w w'
     \<and> (\<forall>completed. res = Inr completed \<longrightarrow> (\<exists>j < 16. settled api locked unhex reads rid j completed w'))"
  using reconcile_rounds_result [of 8 api unhex reads rid 0 w res w' locked] assms
  by (simp add: reconcile_wallet_locks_for_run_with_outcome_def reconcile_wallet_locks_for_run_inner_def)

text \<open>With nobody else at the tables one round is enough.\<close>

lemma reconcile_quiet:
  "reconcile_wallet_locks_for_run_with_outcome api unhex (\<lambda>_. db) rid w =
     (case wallet_lock_reconciliation_snapshot db rid of
        None \<Rightarrow> (Inr True, w)
      | Some (release, cs) \<Rightarrow> apply_disposition api unhex rid release cs w)"
proof -
  have "reconcile_rounds 8 api unhex (\<lambda>_. db) rid 0 w =
     (case wallet_lock_reconciliation_snapshot db rid of
        None \<Rightarrow> (Inr True, w)
      | Some (release, cs) \<Rightarrow> apply_disposition api unhex rid release cs w)"
    unfolding numeral_eq_Suc pred_numeral_simps reconcile_rounds.simps
    by (simp add: wallet_lock_reconciliation_is_stable_def split: option.split prod.split sum.split)
  then show ?thesis
    by (simp add: reconcile_wallet_locks_for_run_with_outcome_def reconcile_wallet_locks_for_run_inner_def)
qed

section \<open>A lock table\<close>

text \<open>The notes that exist, the height, and the owner of each lock.\<close>

record lock_table =
  lt_height :: "u32 option"
  lt_outputs :: "output_ref list"
  lt_locks :: "output_ref \<Rightarrow> byte list option"

definition table_api :: "lock_table lock_api" where
  "table_api =
     \<lparr>la_sha256 = \<lambda>bytes. bytes,
      la_heights = \<lambda>w. Inr (map_option (\<lambda>h. (h, h)) (lt_height w)),
      la_spendable = \<lambda>w x h. Inr (x \<in> set (lt_outputs w)),
      la_unspent = \<lambda>w account h. Inr (map (\<lambda>x. \<lparr>un_output = x, un_note_version = 2\<rparr>) (lt_outputs w)),
      la_lock = \<lambda>xs owner h w.
        if list_all (\<lambda>x. lt_locks w x \<in> {None, Some owner}) xs
        then Inr (w\<lparr>lt_locks := \<lambda>x. if x \<in> set xs then Some owner else lt_locks w x\<rparr>) else Inl (),
      la_unlock = \<lambda>x owner w.
        Inr (if lt_locks w x = Some owner then w\<lparr>lt_locks := (lt_locks w)(x := None)\<rparr> else w)\<rparr>"

lemma table_api_laws: "lock_laws table_api lt_locks"
  by (auto simp: lock_laws_def table_api_def same_notes_def)

lemma table_api_exclusive: "lock_exclusive table_api lt_locks"
  by (auto simp: lock_exclusive_def table_api_def list_all_iff split: if_splits)

text \<open>A run that has ended and still holds its note; a reconciliation releases it.\<close>

definition example_held :: output_ref where
  "example_held = \<lparr>or_txid = rev example_txid_bytes, or_output_index = 0\<rparr>"

definition example_ended_db :: migration_db where
  "example_ended_db = example_waiting_db
     \<lparr>mdb_runs := [example_waiting_run\<lparr>rr_phase := PHASE_COMPLETE\<rparr>],
      mdb_notes := [\<lparr>nr_run_id = ''run'', nr_txid_hex = ''t'', nr_output_index = 0, nr_value_zatoshi = 100015000,
        nr_note_version = 2, nr_nullifier_hex = None, nr_lock_state = ''unlocked''\<rparr>]\<rparr>"

definition example_lock_table :: lock_table where
  "example_lock_table = \<lparr>lt_height = Some 100, lt_outputs = [example_held],
     lt_locks = (\<lambda>_. None)(example_held := Some (migration_lock_owner table_api ''run''))\<rparr>"

theorem locks_settle_witness:
  "\<exists>w'. reconcile_wallet_locks_for_run_with_outcome table_api example_unhex (\<lambda>_. example_ended_db) ''run'' example_lock_table
       = (Inr True, w')
     \<and> locks_agree table_api lt_locks example_unhex ''run'' True [(''t'', 0)] w'"
proof -
  have cs: "wallet_lock_candidates_with_conn example_ended_db ''run'' = [(''t'', 0)]"
    by (simp add: wallet_lock_candidates_with_conn_def example_ended_db_def example_waiting_db_def)
  have run: "find (\<lambda>r. rr_run_id r = ''run'') (mdb_runs example_ended_db) = Some (example_waiting_run\<lparr>rr_phase := PHASE_COMPLETE\<rparr>)"
    by (simp add: example_ended_db_def example_waiting_run_def)
  have over: "migration_phase_releases_wallet_locks PHASE_COMPLETE" by (simp add: migration_phase_releases_wallet_locks_def)
  have snap: "wallet_lock_reconciliation_snapshot example_ended_db ''run'' = Some (True, [(''t'', 0)])"
    by (simp add: wallet_lock_reconciliation_snapshot_def run over cs)
  have ref: "orchard_output_ref example_unhex (''t'', 0) = Inr example_held"
    by (simp add: orchard_output_ref_def example_unhex_def example_txid_bytes_def example_held_def)
  obtain w' where r: "reconcile_wallet_locks_for_run_with_outcome table_api example_unhex (\<lambda>_. example_ended_db) ''run''
      example_lock_table = (Inr True, w')"
    by (simp add: reconcile_quiet snap apply_disposition_def unlock_orchard_migration_outputs_def ref table_api_def)
  then obtain j where "settled table_api lt_locks example_unhex (\<lambda>_. example_ended_db) ''run'' j True w'"
    using locks_settle [OF table_api_laws r] by blast
  then have "locks_agree table_api lt_locks example_unhex ''run'' True [(''t'', 0)] w'"
    by (simp add: settled_def run over cs)
  then show ?thesis using r by blast
qed

end
