(* ===== verification/Broadcast_Response.thy ===== *)
theory Broadcast_Response
  imports Stage_Store "HOL-Library.Sublist"
begin

text \<open>
  The reading of a node's answer to a broadcast (\<open>wallet/sync/broadcast.rs\<close>): an answer that says that
  the transaction is known already is a success.
\<close>

record send_response =
  rs_error_code :: int
  rs_error_message :: string

text \<open>A number as it is printed.\<close>

fun decimal :: "nat \<Rightarrow> string" where
  "decimal n = (if n < 10 then [char_of (48 + n)] else decimal (n div 10) @ [char_of (48 + n mod 10)])"

declare decimal.simps [simp del]

definition decimal_int :: "int \<Rightarrow> string" where
  "decimal_int i = (if i < 0 then ''-'' @ decimal (nat (- i)) else decimal (nat i))"

definition already_accepted_texts :: "string list" where
  "already_accepted_texts =
     [''transaction was committed to the best chain'', ''already in mempool'', ''already have transaction'',
      ''transaction already in block chain'', ''transaction is already in state'', ''transaction already exists'',
      ''txn-already-known'', ''txn-already-in-mempool'', ''already known'']"

definition send_rejection_is_already_accepted :: "string \<Rightarrow> bool" where
  "send_rejection_is_already_accepted message \<longleftrightarrow>
     list_ex (\<lambda>needle. sublist needle (to_ascii_lowercase message)) already_accepted_texts"

definition send_response_rejection_error :: "send_response \<Rightarrow> string option" where
  "send_response_rejection_error resp =
     (if rs_error_code resp = 0 \<or> send_rejection_is_already_accepted (rs_error_message resp) then None
      else Some (''Broadcast rejected: '' @ rs_error_message resp @ '' (code '' @ decimal_int (rs_error_code resp) @ '')''))"

text \<open>Any text around the known phrases, in any case, is a duplicate.\<close>

lemma duplicate_is_accepted:
  assumes "t \<in> set already_accepted_texts" and "to_ascii_lowercase m = t"
  shows "send_rejection_is_already_accepted (pre @ m @ post)"
proof -
  have "to_ascii_lowercase (pre @ m @ post) = to_ascii_lowercase pre @ t @ to_ascii_lowercase post"
    using assms(2) by (simp add: to_ascii_lowercase_def)
  then show ?thesis
    using assms(1) by (auto simp: send_rejection_is_already_accepted_def list_ex_iff intro!: bexI [of _ t])
qed

lemma empty_rejection_is_fatal: "\<not> send_rejection_is_already_accepted []"
  by (simp add: send_rejection_is_already_accepted_def already_accepted_texts_def to_ascii_lowercase_def)

end
