(* ===== verification/Run_Lifecycle.thy ===== *)
theory Run_Lifecycle
  imports Wallet_Locks Pending_Broadcast Run_Readiness Broadcast_Response
begin

text \<open>
  The life of a run (\<open>migration.rs\<close>): how it is created, drafted and activated, which run is the active
  one, how it is recovered, retired, stopped and deleted, and the pass over all runs that follows a
  synchronisation of the wallet.

  A handler works on the tables and on the wallet that keeps the locks. Each of its database
  transactions commits on its own, so an error keeps what was committed before it.
\<close>

section \<open>Which run is active\<close>

definition phase_is_inactive :: "string \<Rightarrow> bool" where
  "phase_is_inactive phase \<longleftrightarrow>
     phase \<in> {PHASE_NO_ORCHARD_FUNDS, PHASE_COMPLETE, PHASE_FAILED_TERMINAL, PHASE_ABANDONED}"

definition account_runs :: "migration_db \<Rightarrow> string \<Rightarrow> wallet_network \<Rightarrow> run_row list" where
  "account_runs db account_uuid network =
     filter (\<lambda>r. rr_account_uuid r = account_uuid \<and> rr_network r = network_name network) (mdb_runs db)"

text \<open>\<open>ORDER BY ... DESC LIMIT 1\<close>.\<close>

definition newest :: "(run_row \<Rightarrow> 'k :: linorder) \<Rightarrow> run_row list \<Rightarrow> run_row option" where
  "newest key rows = (case rev (sort_key key rows) of [] \<Rightarrow> None | r # _ \<Rightarrow> Some r)"

definition find_active_run :: "migration_db \<Rightarrow> string \<Rightarrow> wallet_network \<Rightarrow> active_run option" where
  "find_active_run db account_uuid network =
     map_option active_run_of_row
       (newest rr_created_at_ms (filter (\<lambda>r. \<not> phase_is_inactive (rr_phase r)) (account_runs db account_uuid network)))"

text \<open>The first argument is the error of the database, when it cannot be opened or read.\<close>

definition active_migration_run ::
    "string option \<Rightarrow> migration_db \<Rightarrow> string \<Rightarrow> wallet_network \<Rightarrow> string + active_run option" where
  "active_migration_run db_error db account_uuid network =
     (case db_error of Some e \<Rightarrow> Inl e | None \<Rightarrow> Inr (find_active_run db account_uuid network))"

definition latest_completed_run :: "migration_db \<Rightarrow> string \<Rightarrow> wallet_network \<Rightarrow> active_run option" where
  "latest_completed_run db account_uuid network =
     map_option active_run_of_row
       (newest (\<lambda>r. (rr_updated_at_ms r, rr_created_at_ms r))
         (filter (\<lambda>r. rr_phase r = PHASE_COMPLETE) (account_runs db account_uuid network)))"

definition latest_idempotent_broadcast_failure ::
    "migration_db \<Rightarrow> string \<Rightarrow> wallet_network \<Rightarrow> run_error + (string \<times> string) option" where
  "latest_idempotent_broadcast_failure db account_uuid network =
     (case newest rr_created_at_ms (account_runs db account_uuid network) of
        None \<Rightarrow> Inr None
      | Some r \<Rightarrow>
          (case rr_last_error r of
             None \<Rightarrow> Inr None
           | Some last_error \<Rightarrow>
               if rr_phase r \<noteq> PHASE_FAILED_TERMINAL \<or> \<not> send_rejection_is_already_accepted last_error then Inr None
               else
                 rbind (count_pending_with_status db (rr_run_id r) ''scheduled'') (\<lambda>scheduled_count.
                 Inr (if scheduled_count = 0 then None else Some (rr_run_id r, last_error)))))"

definition migration_reserves_orchard_inputs_in_snapshot ::
    "migration_db \<Rightarrow> string \<Rightarrow> wallet_network \<Rightarrow> run_error + bool" where
  "migration_reserves_orchard_inputs_in_snapshot db account_uuid network =
     (if find_active_run db account_uuid network \<noteq> None then Inr True
      else rbind (latest_idempotent_broadcast_failure db account_uuid network) (\<lambda>f. Inr (f \<noteq> None)))"

definition migration_reserves_orchard_inputs ::
    "migration_db \<Rightarrow> string \<Rightarrow> wallet_network \<Rightarrow> run_error + bool" where
  "migration_reserves_orchard_inputs db account_uuid network =
     migration_reserves_orchard_inputs_in_snapshot db account_uuid network"

section \<open>Creation\<close>

datatype life_error =
  LcRun run_error | LcPart part_error | LcStage stage_error | LcSchedule schedule_error | LcLock lock_error
| NoFundingNotes | AlreadyActive string | RunIdTaken string | PlanChanged | RecoveryPending
| DraftNotFound | DraftNotAwaiting | PlanMismatch | KeptForRecovery life_error lock_error
| UnlockedButKept life_error string | NoSuchRun string | WrongAccount | AlreadyTerminal string | PhaseChanged
| NoCanonicalHeight

definition is_private_migration_draft_phase :: "string \<Rightarrow> bool" where
  "is_private_migration_draft_phase phase \<longleftrightarrow>
     phase \<in> {PHASE_AWAITING_PREPARATION, PHASE_AWAITING_DENOMINATION_SIGNATURE}"

definition new_run_row ::
    "string \<Rightarrow> string \<Rightarrow> wallet_network \<Rightarrow> string \<Rightarrow> string \<Rightarrow> int \<Rightarrow> u64 list \<Rightarrow> migration_timing_policy \<Rightarrow>
     schedule_entry list \<Rightarrow> preparation_timing_policy \<Rightarrow> run_row" where
  "new_run_row run_id account_uuid network db_path phase now targets timing_policy schedule preparation_policy =
     \<lparr>rr_run_id = run_id, rr_account_uuid = account_uuid, rr_network = network_name network,
      rr_db_fingerprint = db_path, rr_phase = phase, rr_created_at_ms = now, rr_updated_at_ms = now,
      rr_target_values = targets, rr_schedule = schedule, rr_timing_policy = timing_policy_as_str timing_policy,
      rr_preparation_timing_policy = preparation_policy_as_str preparation_policy, rr_proof_retry_height = None,
      rr_signed_schedule_origin_height = None, rr_initial_schedule_rebased_origin_height = None,
      rr_last_error = None, rr_recovery_schedule_origin_height = None,
      rr_recovery_schedule_max_block_offset = None\<rparr>"

definition insert_run :: "run_row \<Rightarrow> migration_db \<Rightarrow> life_error + migration_db" where
  "insert_run r db =
     (if list_ex (\<lambda>q. rr_run_id q = rr_run_id r) (mdb_runs db) then Inl (RunIdTaken (rr_run_id r))
      else Inr (db\<lparr>mdb_runs := mdb_runs db @ [r]\<rparr>))"

definition prepared_note_row :: "string \<Rightarrow> bool \<Rightarrow> orchard_note_ref \<Rightarrow> note_row" where
  "prepared_note_row run_id locked n =
     \<lparr>nr_run_id = run_id, nr_txid_hex = on_txid_hex n, nr_output_index = on_output_index n,
      nr_value_zatoshi = on_value_zatoshi n, nr_note_version = on_note_version n,
      nr_nullifier_hex = on_nullifier_hex n, nr_lock_state = (if locked then ''locked'' else ''unlocked'')\<rparr>"

text \<open>\<open>INSERT OR REPLACE\<close> on the run, the transaction and the output.\<close>

definition replace_note_row :: "note_row \<Rightarrow> migration_db \<Rightarrow> migration_db" where
  "replace_note_row n db =
     db\<lparr>mdb_notes := filter (\<lambda>m. \<not> (nr_run_id m = nr_run_id n \<and> nr_txid_hex m = nr_txid_hex n
          \<and> nr_output_index m = nr_output_index n)) (mdb_notes db) @ [n]\<rparr>"

definition insert_prepared_notes_with_tx ::
    "migration_db \<Rightarrow> string \<Rightarrow> orchard_note_ref list \<Rightarrow> bool \<Rightarrow> migration_db" where
  "insert_prepared_notes_with_tx db run_id prepared locked =
     fold (\<lambda>n. replace_note_row (prepared_note_row run_id locked n)) prepared db"

text \<open>What a run is given when it starts: its notes, its preparation stages and its signed children.\<close>

definition insert_run_contents ::
    "'n payload_cipher \<Rightarrow> byte list \<Rightarrow> string \<Rightarrow> migration_db \<Rightarrow> string \<Rightarrow> orchard_note_ref list \<Rightarrow> child_insert list \<Rightarrow>
     denomination_stage_insert list \<Rightarrow> 'n \<Rightarrow> life_error + migration_db \<times> 'n" where
  "insert_run_contents cipher password salt_base64 db run_id prepared_notes signed_children denomination_stages n =
     (let db1 = insert_prepared_notes_with_tx db run_id prepared_notes True in
      case insert_denomination_stages_with_tx cipher (mdb_stages db1) run_id denomination_stages password salt_base64 n of
        (Inl e, _) \<Rightarrow> Inl (LcStage e)
      | (Inr _, stages, n') \<Rightarrow>
          map_error LcPart (insert_signed_child_pczts_with_tx cipher password salt_base64
            (db1\<lparr>mdb_stages := stages\<rparr>) run_id signed_children Initial n'))"

definition initial_phase :: "denomination_stage_insert list \<Rightarrow> string" where
  "initial_phase denomination_stages =
     (if denomination_stages = [] then PHASE_READY_TO_MIGRATE else PHASE_WAITING_DENOM_CONFIRMATIONS)"

definition initial_wallet_lock_candidates ::
    "orchard_note_ref list \<Rightarrow> denomination_stage_insert list \<Rightarrow> (string \<times> u32) list" where
  "initial_wallet_lock_candidates prepared_notes denomination_stages =
     sort (remdups (map (\<lambda>n. (on_txid_hex n, on_output_index n)) prepared_notes
       @ concat (map (\<lambda>s. map (\<lambda>i. (in_txid_hex i, in_output_index i)) (si_inputs s)) denomination_stages)))"

text \<open>The two closures of the source act on the state \<open>'s\<close>.\<close>

definition cleanup_failed_created_run ::
    "life_error \<Rightarrow> ('s \<Rightarrow> (lock_error + unit) \<times> 's) \<Rightarrow> ('s \<Rightarrow> (string + unit) \<times> 's) \<Rightarrow> 's \<Rightarrow> life_error \<times> 's" where
  "cleanup_failed_created_run reconciliation_error unlock delete_run s =
     (case unlock s of
        (Inl unlock_error, s1) \<Rightarrow> (KeptForRecovery reconciliation_error unlock_error, s1)
      | (Inr _, s1) \<Rightarrow>
          (case delete_run s1 of
             (Inl delete_error, s2) \<Rightarrow> (UnlockedButKept reconciliation_error delete_error, s2)
           | (Inr _, s2) \<Rightarrow> (reconciliation_error, s2)))"

definition delete_run_row :: "string \<Rightarrow> migration_db \<Rightarrow> migration_db" where
  "delete_run_row run_id db = db\<lparr>mdb_runs := filter (\<lambda>r. rr_run_id r \<noteq> run_id) (mdb_runs db)\<rparr>"

definition approve_schedule ::
    "schedule_entry list option \<Rightarrow> u64 list \<Rightarrow> wallet_network \<Rightarrow> migration_timing_policy \<Rightarrow>
     life_error + schedule_entry list" where
  "approve_schedule approved targets network timing_policy =
     (case approved of
        None \<Rightarrow> Inr []
      | Some schedule \<Rightarrow>
          rbind (map_error LcSchedule (validate_schedule_with_policy schedule targets network timing_policy))
            (\<lambda>_. Inr schedule))"

text \<open>The transaction that creates the run; \<open>run_id\<close> is the new random identifier.\<close>

definition created_run ::
    "'n payload_cipher \<Rightarrow> bool \<Rightarrow> byte list \<Rightarrow> string \<Rightarrow> int \<Rightarrow> string \<Rightarrow> string \<Rightarrow> string \<Rightarrow> wallet_network \<Rightarrow>
     denomination_plan \<Rightarrow> orchard_note_ref list \<Rightarrow> child_insert list \<Rightarrow> denomination_stage_insert list \<Rightarrow>
     schedule_entry list option \<Rightarrow> preparation_timing_policy \<Rightarrow> 'n \<Rightarrow> migration_db \<Rightarrow> life_error + migration_db \<times> 'n" where
  "created_run cipher fast password salt_base64 now run_id db_path account_uuid network plan prepared_notes
       signed_children denomination_stages approved_schedule preparation_policy n db =
     (if denomination_stages = [] \<and> prepared_notes = [] then Inl NoFundingNotes
      else
        case find_active_run db account_uuid network of
          Some run \<Rightarrow> Inl (AlreadyActive (ar_run_id run))
        | None \<Rightarrow>
            let timing_policy = configured_timing_policy fast network in
            rbind (approve_schedule approved_schedule (dp_migration_outputs plan) network timing_policy) (\<lambda>schedule.
            rbind (insert_run (new_run_row run_id account_uuid network db_path (initial_phase denomination_stages)
                now (dp_migration_outputs plan) timing_policy schedule preparation_policy) db) (\<lambda>db1.
            insert_run_contents cipher password salt_base64 db1 run_id prepared_notes signed_children
              denomination_stages n)))"

text \<open>\<open>delete_error\<close> is the error of the database, when it cannot delete the row of the run.\<close>

definition create_run_with_staged_denominations_and_signed_children ::
    "('w \<Rightarrow> string option) \<Rightarrow> 'n payload_cipher \<Rightarrow> 'w lock_api \<Rightarrow> (string \<Rightarrow> byte list option) \<Rightarrow> bool \<Rightarrow> byte list \<Rightarrow> string \<Rightarrow> int \<Rightarrow> string \<Rightarrow>
     string \<Rightarrow> string \<Rightarrow> wallet_network \<Rightarrow> denomination_plan \<Rightarrow> orchard_note_ref list \<Rightarrow> child_insert list \<Rightarrow>
     denomination_stage_insert list \<Rightarrow> schedule_entry list option \<Rightarrow> preparation_timing_policy \<Rightarrow> 'n \<Rightarrow>
     migration_db \<times> 'w \<Rightarrow> (life_error + string \<times> 'n) \<times> migration_db \<times> 'w" where
  "create_run_with_staged_denominations_and_signed_children delete_error cipher api unhex fast password salt_base64
       now run_id db_path account_uuid network plan prepared_notes signed_children denomination_stages approved_schedule
       preparation_policy n state =
     (case created_run cipher fast password salt_base64 now run_id db_path account_uuid network plan prepared_notes
             signed_children denomination_stages approved_schedule preparation_policy n (fst state) of
        Inl e \<Rightarrow> (Inl e, state)
      | Inr (db1, n') \<Rightarrow>
          (case reconcile_wallet_locks_for_run api unhex (\<lambda>_. db1) run_id (snd state) of
             (Inr _, w1) \<Rightarrow> (Inr (run_id, n'), db1, w1)
           | (Inl e, w1) \<Rightarrow>
               (case cleanup_failed_created_run (LcLock e)
                   (\<lambda>(db, w). case unlock_orchard_migration_outputs api unhex run_id
                       (initial_wallet_lock_candidates prepared_notes denomination_stages) w of
                     (r, w') \<Rightarrow> (r, db, w'))
                   (\<lambda>(db, w). case delete_error w of
                       Some e' \<Rightarrow> (Inl e', db, w)
                     | None \<Rightarrow> (Inr (), delete_run_row run_id db, w)) (db1, w1) of
                 (e', s) \<Rightarrow> (Inl e', s))))"

section \<open>Drafts\<close>

definition create_or_resume_private_migration_draft ::
    "bool \<Rightarrow> int \<Rightarrow> string \<Rightarrow> string \<Rightarrow> string \<Rightarrow> wallet_network \<Rightarrow> u64 list \<Rightarrow> schedule_entry list \<Rightarrow>
     preparation_timing_policy \<Rightarrow> migration_db \<Rightarrow> life_error + string \<times> migration_db" where
  "create_or_resume_private_migration_draft fast now run_id db_path account_uuid network target_values
       approved_schedule preparation_policy db =
     (case find_active_run db account_uuid network of
        Some run \<Rightarrow>
          if is_private_migration_draft_phase (ar_phase run)
          then if ar_target_values_zatoshi run \<noteq> target_values then Inl PlanChanged else Inr (ar_run_id run, db)
          else Inl (AlreadyActive (ar_run_id run))
      | None \<Rightarrow>
          rbind (map_error LcRun (latest_idempotent_broadcast_failure db account_uuid network)) (\<lambda>failure.
          if failure \<noteq> None then Inl RecoveryPending
          else
            let timing_policy = configured_timing_policy fast network in
            rbind (map_error LcSchedule
                (validate_schedule_with_policy approved_schedule target_values network timing_policy)) (\<lambda>_.
            rbind (insert_run (new_run_row run_id account_uuid network db_path PHASE_AWAITING_PREPARATION now
                target_values timing_policy approved_schedule preparation_policy) db) (\<lambda>db1.
            Inr (run_id, db1)))))"

text \<open>The activation of a draft: one transaction, and then the locks.\<close>

definition activated_draft ::
    "'n payload_cipher \<Rightarrow> byte list \<Rightarrow> string \<Rightarrow> int \<Rightarrow> string \<Rightarrow> string \<Rightarrow> wallet_network \<Rightarrow> denomination_plan \<Rightarrow>
     orchard_note_ref list \<Rightarrow> child_insert list \<Rightarrow> denomination_stage_insert list \<Rightarrow> 'n \<Rightarrow> migration_db \<Rightarrow>
     life_error + migration_db \<times> 'n" where
  "activated_draft cipher password salt_base64 now run_id account_uuid network plan prepared_notes signed_children
       denomination_stages n db =
     (if denomination_stages = [] \<and> prepared_notes = [] then Inl NoFundingNotes
      else
        rbind (ok_or DraftNotFound (find_active_run db account_uuid network)) (\<lambda>run.
        if ar_run_id run \<noteq> run_id \<or> \<not> is_private_migration_draft_phase (ar_phase run) then Inl DraftNotAwaiting
        else if ar_target_values_zatoshi run \<noteq> dp_migration_outputs plan then Inl PlanMismatch
        else
          rbind (insert_run_contents cipher password salt_base64 db run_id prepared_notes signed_children
              denomination_stages n) (\<lambda>(db1, n').
          Inr (snd (sql_update_runs (\<lambda>r. rr_run_id r = run_id \<and> is_private_migration_draft_phase (rr_phase r))
                 (move_run (initial_phase denomination_stages) now None) db1), n'))))"

definition finalize_private_migration_draft ::
    "'n payload_cipher \<Rightarrow> 'w lock_api \<Rightarrow> (string \<Rightarrow> byte list option) \<Rightarrow> byte list \<Rightarrow> string \<Rightarrow> int \<Rightarrow> string \<Rightarrow>
     string \<Rightarrow> wallet_network \<Rightarrow> denomination_plan \<Rightarrow> orchard_note_ref list \<Rightarrow> child_insert list \<Rightarrow>
     denomination_stage_insert list \<Rightarrow> 'n \<Rightarrow> migration_db \<times> 'w \<Rightarrow> (life_error + 'n) \<times> migration_db \<times> 'w" where
  "finalize_private_migration_draft cipher api unhex password salt_base64 now run_id account_uuid network plan
       prepared_notes signed_children denomination_stages n state =
     (case activated_draft cipher password salt_base64 now run_id account_uuid network plan prepared_notes
             signed_children denomination_stages n (fst state) of
        Inl e \<Rightarrow> (Inl e, state)
      | Inr (db1, n') \<Rightarrow>
          (case reconcile_wallet_locks_for_run api unhex (\<lambda>_. db1) run_id (snd state) of
             (Inl e, w1) \<Rightarrow> (Inl (LcLock e), db1, w1)
           | (Inr _, w1) \<Rightarrow> (Inr n', db1, w1)))"

section \<open>Phases\<close>

definition mark_run_phase :: "int \<Rightarrow> string \<Rightarrow> string \<Rightarrow> string option \<Rightarrow> migration_db \<Rightarrow> migration_db" where
  "mark_run_phase now run_id phase message db =
     snd (sql_update_runs (\<lambda>r. rr_run_id r = run_id) (move_run phase now message) db)"

definition retire_run_for_rebuild ::
    "'w lock_api \<Rightarrow> (string \<Rightarrow> byte list option) \<Rightarrow> int \<Rightarrow> string \<Rightarrow> string \<Rightarrow> migration_db \<times> 'w \<Rightarrow>
     (life_error + unit) \<times> migration_db \<times> 'w" where
  "retire_run_for_rebuild api unhex now run_id message state =
     (let db1 = set_note_locks run_id ''unlocked''
            (snd (sql_update_runs (\<lambda>r. rr_run_id r = run_id)
              (move_run PHASE_FAILED_TERMINAL now (Some message)) (fst state)))
      in case reconcile_wallet_locks_for_run api unhex (\<lambda>_. db1) run_id (snd state) of
           (Inl e, w1) \<Rightarrow> (Inl (LcLock e), db1, w1)
         | (Inr _, w1) \<Rightarrow> (Inr (), db1, w1))"

definition stopped_message :: string where
  "stopped_message = ''Migration stopped by the user.''"

definition delete_unsent_pending :: "string \<Rightarrow> migration_db \<Rightarrow> migration_db" where
  "delete_unsent_pending run_id db =
     db\<lparr>mdb_pending := filter (\<lambda>p. \<not> (pt_run_id p = run_id \<and> pt_status p \<in> {''scheduled'', ''needs_resign''}))
        (mdb_pending db)\<rparr>"

definition clear_recovery_schedule :: "string \<Rightarrow> migration_db \<Rightarrow> migration_db" where
  "clear_recovery_schedule run_id db =
     snd (sql_update_runs (\<lambda>r. rr_run_id r = run_id)
       (\<lambda>r. r\<lparr>rr_recovery_schedule_origin_height := None, rr_recovery_schedule_max_block_offset := None\<rparr>) db)"

text \<open>The transaction that stops the run whose row \<open>r\<close> was read.\<close>

definition stopped_run :: "int \<Rightarrow> string \<Rightarrow> run_row \<Rightarrow> migration_db \<Rightarrow> life_error + migration_db" where
  "stopped_run now run_id r db =
     (case sql_update_runs (\<lambda>q. rr_run_id q = run_id \<and> rr_phase q = rr_phase r)
             (move_run PHASE_ABANDONED now (Some stopped_message)) db of
        (transitioned, db1) \<Rightarrow>
          if transitioned \<noteq> 1 then Inl PhaseChanged
          else Inr (clear_recovery_schedule run_id
                 (set_note_locks run_id ''unlocked''
                   (delete_unsent_pending run_id (delete_children run_id db1)))))"

text \<open>The locks are released before the stage inputs, which may be their only record, are discarded.\<close>

definition release_stopped_run ::
    "'w lock_api \<Rightarrow> (string \<Rightarrow> byte list option) \<Rightarrow> string \<Rightarrow> migration_db \<times> 'w \<Rightarrow>
     (life_error + unit) \<times> migration_db \<times> 'w" where
  "release_stopped_run api unhex run_id state =
     (case reconcile_wallet_locks_for_run api unhex (\<lambda>_. fst state) run_id (snd state) of
        (Inl e, w1) \<Rightarrow> (Inl (LcLock e), fst state, w1)
      | (Inr _, w1) \<Rightarrow>
          (Inr (), (fst state)\<lparr>mdb_stages := discard_unsubmitted_preparation_stages (mdb_stages (fst state)) run_id\<rparr>, w1))"

definition abandon_run ::
    "'w lock_api \<Rightarrow> (string \<Rightarrow> byte list option) \<Rightarrow> int \<Rightarrow> string \<Rightarrow> wallet_network \<Rightarrow> string \<Rightarrow> migration_db \<times> 'w \<Rightarrow>
     (life_error + unit) \<times> migration_db \<times> 'w" where
  "abandon_run api unhex now account_uuid network expected_run_id state =
     (case find (\<lambda>r. rr_run_id r = expected_run_id) (mdb_runs (fst state)) of
        None \<Rightarrow> (Inl (NoSuchRun expected_run_id), state)
      | Some r \<Rightarrow>
          if rr_account_uuid r \<noteq> account_uuid \<or> rr_network r \<noteq> network_name network then (Inl WrongAccount, state)
          else if rr_phase r = PHASE_ABANDONED then release_stopped_run api unhex expected_run_id state
          else if rr_phase r \<in> {PHASE_COMPLETE, PHASE_FAILED_TERMINAL} then (Inl (AlreadyTerminal (rr_phase r)), state)
          else
            (case stopped_run now expected_run_id r (fst state) of
               Inl e \<Rightarrow> (Inl e, state)
             | Inr db1 \<Rightarrow> release_stopped_run api unhex expected_run_id (db1, snd state)))"

definition delete_account_migration_rows_with_tx :: "string \<Rightarrow> migration_db \<Rightarrow> migration_db" where
  "delete_account_migration_rows_with_tx account_uuid db =
     (let owned = (\<lambda>run_id. list_ex (\<lambda>r. rr_run_id r = run_id \<and> rr_account_uuid r = account_uuid) (mdb_runs db));
          s = mdb_stages db in
      db\<lparr>mdb_stages := \<lparr>db_stages = filter (\<lambda>x. \<not> owned (sr_run_id x)) (db_stages s),
             db_inputs = filter (\<lambda>x. \<not> owned (ir_run_id x)) (db_inputs s),
             db_outputs = filter (\<lambda>x. \<not> owned (or_run_id x)) (db_outputs s)\<rparr>,
         mdb_notes := filter (\<lambda>x. \<not> owned (nr_run_id x)) (mdb_notes db),
         mdb_pending := filter (\<lambda>x. \<not> owned (pt_run_id x)) (mdb_pending db),
         mdb_children := filter (\<lambda>x. \<not> owned (sc_run_id x)) (mdb_children db),
         mdb_runs := filter (\<lambda>r. rr_account_uuid r \<noteq> account_uuid) (mdb_runs db)\<rparr>)"

section \<open>Recovery\<close>

definition recover_latest_idempotent_broadcast_failure ::
    "int \<Rightarrow> string \<Rightarrow> wallet_network \<Rightarrow> migration_db \<Rightarrow> run_error + migration_db" where
  "recover_latest_idempotent_broadcast_failure now account_uuid network db =
     rbind (latest_idempotent_broadcast_failure db account_uuid network) (\<lambda>failure.
     case failure of
       None \<Rightarrow> Inr db
     | Some (run_id, last_error) \<Rightarrow>
         (case sql_update_runs (\<lambda>r. rr_run_id r = run_id \<and> rr_phase r = PHASE_FAILED_TERMINAL
                 \<and> rr_last_error r = Some last_error) (move_run PHASE_BROADCAST_SCHEDULED now None) db of
            (recovered, db1) \<Rightarrow> Inr (if recovered = 0 then db else set_note_locks run_id ''locked'' db1)))"

definition adopt_timing_policy_for_active_run ::
    "'g sampler \<Rightarrow> int \<Rightarrow> string \<Rightarrow> wallet_network \<Rightarrow> migration_timing_policy \<Rightarrow> migration_db \<Rightarrow> 'g \<Rightarrow>
     (run_error + migration_db) option" where
  "adopt_timing_policy_for_active_run env now account_uuid network desired_policy db g =
     (if network \<notin> {Test, Regtest} \<or> desired_policy \<noteq> FastTestnet then Some (Inr db)
      else
        case find_active_run db account_uuid network of
          None \<Rightarrow> Some (Inr db)
        | Some run \<Rightarrow>
            (case rbind (timing_policy_for_run_with_conn db (ar_run_id run)) (\<lambda>policy.
                  if policy = FastTestnet then Inr False
                  else rbind (count_for_run (length (pending_rows db (ar_run_id run)))) (\<lambda>pending_tx_count.
                       Inr (pending_tx_count = 0))) of
               Inl e \<Rightarrow> Some (Inl e)
             | Inr False \<Rightarrow> Some (Inr db)
             | Inr True \<Rightarrow>
                 map_option (\<lambda>(schedule, g').
                   Inr (snd (sql_update_runs
                     (\<lambda>r. rr_run_id r = ar_run_id run \<and> rr_timing_policy r \<noteq> ''fast_testnet'')
                     (\<lambda>r. r\<lparr>rr_timing_policy := timing_policy_as_str FastTestnet, rr_schedule := schedule,
                        rr_updated_at_ms := now\<rparr>) db)))
                   (planned_transfer_schedule_with_policy env (ar_target_values_zatoshi run) network FastTestnet g)))"

definition adopt_configured_timing_policy_for_active_run ::
    "'g sampler \<Rightarrow> bool \<Rightarrow> int \<Rightarrow> string \<Rightarrow> wallet_network \<Rightarrow> migration_db \<Rightarrow> 'g \<Rightarrow> (run_error + migration_db) option" where
  "adopt_configured_timing_policy_for_active_run env fast now account_uuid network db g =
     adopt_timing_policy_for_active_run env now account_uuid network (configured_timing_policy fast network) db g"

definition prepared_notes_proof_ready_height_with_conn ::
    "u32 \<Rightarrow> (string \<Rightarrow> run_error + chain_identity option) \<Rightarrow> migration_db \<Rightarrow> string \<Rightarrow> wallet_network \<Rightarrow>
     migration_timing_policy \<Rightarrow> run_error + u32 option" where
  "prepared_notes_proof_ready_height_with_conn trusted identity db run_id network timing_policy =
     (let txids = sort (remdups (map nr_txid_hex (filter (\<lambda>n. nr_run_id n = run_id) (mdb_notes db)))) in
      if txids = [] then Inr None
      else
        try_fold (\<lambda>ready txid. case ready of
            None \<Rightarrow> Inr None
          | Some ready_height \<Rightarrow>
              rbind (identity txid) (\<lambda>i. case i of
                None \<Rightarrow> Inr None
              | Some i \<Rightarrow>
                  rbind (map_error RunHeight (proof_ready_height_for_note_mined_height trusted network timing_policy
                      (ci_mined_height i))) (\<lambda>h. Inr (Some (max ready_height h))))) (Some 0) txids)"

definition backfill_ready_migration_proof_retry_height ::
    "u32 \<Rightarrow> build_flavor \<Rightarrow> (string \<Rightarrow> run_error + chain_identity option) \<Rightarrow> int \<Rightarrow> migration_db \<Rightarrow> string \<Rightarrow>
     life_error + migration_db" where
  "backfill_ready_migration_proof_retry_height trusted flavor identity now db run_id =
     rbind (map_error LcRun (run_of db run_id)) (\<lambda>r.
     if rr_phase r \<noteq> PHASE_READY_TO_MIGRATE \<or> rr_proof_retry_height r \<noteq> None then Inr db
     else
       rbind (map_error LcRun (unpromoted_signed_child_pczt_count_with_conn db run_id)) (\<lambda>unpromoted.
       if unpromoted = 0 then Inr db
       else
         rbind (map_error LcRun (run_network flavor db run_id)) (\<lambda>network.
         rbind (map_error LcRun (timing_policy_for_run_with_conn db run_id)) (\<lambda>timing_policy.
         rbind (map_error LcRun (prepared_notes_proof_ready_height_with_conn trusted identity db run_id network
             timing_policy)) (\<lambda>ready.
         rbind (ok_or NoCanonicalHeight ready) (\<lambda>ready_height.
         Inr (snd (sql_update_runs (\<lambda>r. rr_run_id r = run_id \<and> rr_proof_retry_height r = None)
                (\<lambda>r. r\<lparr>rr_proof_retry_height := Some ready_height, rr_updated_at_ms := now\<rparr>) db)))))))) "

end
