(* ===== verification/After_Sync.thy ===== *)
theory After_Sync
  imports Run_Lifecycle Chain_Settled
begin

text \<open>
  The pass over all runs of a network after a synchronisation
  (\<open>reconcile_wallet_locks_after_sync\<close> of \<open>migration.rs\<close>): it adopts the configured timing, restores a run
  whose failure was a duplicate broadcast, follows every active run through the chain, and brings the
  wallet locks in line with the phases.
\<close>

text \<open>What the pass reads of the rest of the wallet: the chain, the settings, the clock and the generator.\<close>

record 'g sync_context =
  sy_env :: "'g sampler"
  sy_flavor :: build_flavor
  sy_fast :: bool
  sy_trusted :: u32
  sy_unhex :: "string \<Rightarrow> byte list option"
  sy_chain :: wallet_chain
  sy_chain_tip :: "run_error + u32"
  sy_now :: int
  sy_random :: "string \<Rightarrow> 'g"

definition sync_identity :: "'g sync_context \<Rightarrow> string \<Rightarrow> run_error + chain_identity option" where
  "sync_identity cx = local_denomination_chain_identity (sy_unhex cx) (sy_chain cx)"

definition network_accounts :: "migration_db \<Rightarrow> wallet_network \<Rightarrow> string list" where
  "network_accounts db network =
     sort (remdups (map rr_account_uuid (filter (\<lambda>r. rr_network r = network_name network) (mdb_runs db))))"

fun recover_accounts ::
    "'g sync_context \<Rightarrow> wallet_network \<Rightarrow> string list \<Rightarrow> migration_db \<Rightarrow> ((life_error + unit) \<times> migration_db) option" where
  "recover_accounts cx network [] db = Some (Inr (), db)"
| "recover_accounts cx network (account # accounts) db =
     Option.bind (adopt_configured_timing_policy_for_active_run (sy_env cx) (sy_fast cx) (sy_now cx) account network db
         (sy_random cx account)) (\<lambda>adopted.
     case adopted of
       Inl e \<Rightarrow> Some (Inl (LcRun e), db)
     | Inr db1 \<Rightarrow>
         (case recover_latest_idempotent_broadcast_failure (sy_now cx) account network db1 of
            Inl e \<Rightarrow> Some (Inl (LcRun e), db1)
          | Inr db2 \<Rightarrow> recover_accounts cx network accounts db2))"

text \<open>One active run, followed through the chain.\<close>

definition follow_run ::
    "'g sync_context \<Rightarrow> string \<Rightarrow> migration_db \<Rightarrow> ((life_error + unit) \<times> migration_db) option" where
  "follow_run cx run_id db =
     Option.bind (reconcile_denomination_stage_chain_state (sy_env cx) (sy_flavor cx) (sync_identity cx)
         (sy_chain_tip cx) (sy_now cx) db run_id (sy_random cx run_id)) (\<lambda>staged.
     Some (case staged of
       (Inl e, db1) \<Rightarrow> (Inl (LcRun e), db1)
     | (Inr _, db1) \<Rightarrow>
         (case find (\<lambda>r. rr_run_id r = run_id) (mdb_runs db1) of
            None \<Rightarrow> (Inr (), db1)
          | Some r \<Rightarrow>
              if migration_phase_releases_wallet_locks (rr_phase r) then (Inr (), db1)
              else
                (case reconcile_denomination_confirmations (sy_trusted cx) (sy_flavor cx) (sy_unhex cx) (sy_chain cx)
                        (sy_now cx) db1 (active_run_of_row r) of
                   (Inl e, db2) \<Rightarrow> (Inl (LcRun e), db2)
                 | (Inr _, db2) \<Rightarrow>
                     (case reconcile_run_confirmations (sy_trusted cx) (sy_unhex cx) (sy_chain cx) (sy_now cx)
                             (sy_now cx) db2 run_id of
                        (Inl e, db3) \<Rightarrow> (Inl (LcRun e), db3)
                      | (Inr _, db3) \<Rightarrow>
                          (case backfill_ready_migration_proof_retry_height (sy_trusted cx) (sy_flavor cx)
                                  (sync_identity cx) (sy_now cx) db3 run_id of
                             Inl e \<Rightarrow> (Inl e, db3)
                           | Inr db4 \<Rightarrow> (Inr (), db4)))))))"

fun follow_runs ::
    "'g sync_context \<Rightarrow> string list \<Rightarrow> migration_db \<Rightarrow> ((life_error + unit) \<times> migration_db) option" where
  "follow_runs cx [] db = Some (Inr (), db)"
| "follow_runs cx (run_id # run_ids) db =
     Option.bind (follow_run cx run_id db) (\<lambda>res. case res of
       (Inl e, db1) \<Rightarrow> Some (Inl e, db1)
     | (Inr _, db1) \<Rightarrow> follow_runs cx run_ids db1)"

fun settle_locks ::
    "'w lock_api \<Rightarrow> (string \<Rightarrow> byte list option) \<Rightarrow> migration_db \<Rightarrow> string list \<Rightarrow> 'w \<Rightarrow> (life_error + unit) \<times> 'w" where
  "settle_locks api unhex db [] w = (Inr (), w)"
| "settle_locks api unhex db (run_id # run_ids) w =
     (case reconcile_wallet_locks_for_run_with_outcome api unhex (\<lambda>_. db) run_id w of
        (Inl e, w1) \<Rightarrow> (Inl (LcLock e), w1)
      | (Inr _, w1) \<Rightarrow> settle_locks api unhex db run_ids w1)"

definition network_run_ids :: "migration_db \<Rightarrow> wallet_network \<Rightarrow> string list" where
  "network_run_ids db network =
     map rr_run_id (sort_key rr_created_at_ms (filter (\<lambda>r. rr_network r = network_name network) (mdb_runs db)))"

definition reconcile_wallet_locks_after_sync ::
    "'g sync_context \<Rightarrow> 'w lock_api \<Rightarrow> wallet_network \<Rightarrow> migration_db \<times> 'w \<Rightarrow>
     ((life_error + unit) \<times> migration_db \<times> 'w) option" where
  "reconcile_wallet_locks_after_sync cx api network state =
     (let accounts = network_accounts (fst state) network in
      Option.bind (recover_accounts cx network accounts (fst state)) (\<lambda>recovered.
      case recovered of
        (Inl e, db1) \<Rightarrow> Some (Inl e, db1, snd state)
      | (Inr _, db1) \<Rightarrow>
          Option.bind (follow_runs cx
              (map ar_run_id (concat (map (\<lambda>a. case find_active_run db1 a network of None \<Rightarrow> [] | Some r \<Rightarrow> [r]) accounts)))
              db1) (\<lambda>followed.
          case followed of
            (Inl e, db2) \<Rightarrow> Some (Inl e, db2, snd state)
          | (Inr _, db2) \<Rightarrow>
              Some (case settle_locks api (sy_unhex cx) db2 (network_run_ids db2 network) (snd state) of
                (res, w1) \<Rightarrow> (res, db2, w1)))))"

end
