(* ===== verification/Run_Stopping.thy ===== *)
theory Run_Stopping
  imports Run_Lifecycle Lock_Reconcile
begin

text \<open>
  Stopping a run and creating one: what is left in the tables and in the wallet's locks when the call
  succeeds, and when it fails half way.
\<close>

section \<open>Tables of the other runs\<close>

text \<open>Everything that belongs to another run is as it was.\<close>

definition others_kept :: "string \<Rightarrow> migration_db \<Rightarrow> migration_db \<Rightarrow> bool" where
  "others_kept rid db db' \<longleftrightarrow>
     filter (\<lambda>r. rr_run_id r \<noteq> rid) (mdb_runs db') = filter (\<lambda>r. rr_run_id r \<noteq> rid) (mdb_runs db)
     \<and> filter (\<lambda>n. nr_run_id n \<noteq> rid) (mdb_notes db') = filter (\<lambda>n. nr_run_id n \<noteq> rid) (mdb_notes db)
     \<and> filter (\<lambda>p. pt_run_id p \<noteq> rid) (mdb_pending db') = filter (\<lambda>p. pt_run_id p \<noteq> rid) (mdb_pending db)
     \<and> filter (\<lambda>c. sc_run_id c \<noteq> rid) (mdb_children db') = filter (\<lambda>c. sc_run_id c \<noteq> rid) (mdb_children db)
     \<and> filter (\<lambda>s. sr_run_id s \<noteq> rid) (db_stages (mdb_stages db')) = filter (\<lambda>s. sr_run_id s \<noteq> rid) (db_stages (mdb_stages db))"

lemma others_kept_refl [simp]: "others_kept rid db db"
  by (simp add: others_kept_def)

lemma others_kept_trans: "others_kept rid db db1 \<Longrightarrow> others_kept rid db1 db2 \<Longrightarrow> others_kept rid db db2"
  by (simp add: others_kept_def)

lemma filter_map_other:
  assumes "\<And>x. P x \<Longrightarrow> K (f x) = K x" and "\<And>x. K x \<Longrightarrow> \<not> P x"
  shows "filter K (map (\<lambda>x. if P x then f x else x) xs) = filter K xs"
proof (induction xs)
  case (Cons x xs)
  then show ?case using assms by (cases "P x") auto
qed simp

lemma map_update_same: "(\<And>x. P x \<Longrightarrow> K (f x) = K x) \<Longrightarrow> map K (map (\<lambda>x. if P x then f x else x) xs) = map K xs"
  by (induction xs) auto

lemma filter_filter_other: "(\<And>x. K x \<Longrightarrow> \<not> P x) \<Longrightarrow> filter K (filter (\<lambda>x. \<not> P x) xs) = filter K xs"
  by (induction xs) auto

section \<open>The transaction that stops a run\<close>

lemma find_updated_run:
  assumes "find (\<lambda>r. rr_run_id r = rid) rs = Some r" and "\<And>q. P q \<Longrightarrow> rr_run_id (f q) = rr_run_id q" and "P r"
  shows "find (\<lambda>r. rr_run_id r = rid) (map (\<lambda>q. if P q then f q else q) rs) = Some (f r)"
  using assms(1)
proof (induction rs)
  case (Cons q rs)
  then show ?case using assms(2,3) by (cases "rr_run_id q = rid") (auto split: if_splits)
qed simp

text \<open>What the transaction leaves behind.\<close>

definition stopped_state :: "string \<Rightarrow> migration_db \<Rightarrow> migration_db \<Rightarrow> bool" where
  "stopped_state rid db db' \<longleftrightarrow>
     (\<exists>r. find (\<lambda>r. rr_run_id r = rid) (mdb_runs db') = Some r \<and> rr_phase r = PHASE_ABANDONED)
     \<and> (\<forall>c \<in> set (mdb_children db'). sc_run_id c \<noteq> rid)
     \<and> mdb_pending db' = filter (\<lambda>p. \<not> (pt_run_id p = rid \<and> pt_status p \<in> {''scheduled'', ''needs_resign''})) (mdb_pending db)
     \<and> (\<forall>n \<in> set (mdb_notes db'). nr_run_id n = rid \<longrightarrow> nr_lock_state n = ''unlocked'')
     \<and> wallet_lock_candidates_with_conn db' rid = wallet_lock_candidates_with_conn db rid
     \<and> mdb_stages db' = mdb_stages db"

lemma candidates_cong:
  assumes "map (\<lambda>n. (nr_run_id n, nr_txid_hex n, nr_output_index n)) (mdb_notes db') =
      map (\<lambda>n. (nr_run_id n, nr_txid_hex n, nr_output_index n)) (mdb_notes db)" and "mdb_stages db' = mdb_stages db"
  shows "wallet_lock_candidates_with_conn db' rid = wallet_lock_candidates_with_conn db rid"
proof -
  have keys: "map (\<lambda>n. (nr_txid_hex n, nr_output_index n)) (filter (\<lambda>n. nr_run_id n = rid) ns) =
      map snd (filter (\<lambda>k. fst k = rid) (map (\<lambda>n. (nr_run_id n, nr_txid_hex n, nr_output_index n)) ns))" for ns
    by (simp add: filter_map comp_def)
  show ?thesis unfolding wallet_lock_candidates_with_conn_def keys assms ..
qed

lemma stopped_run_state:
  assumes "stopped_run now rid r db = Inr db'" and "find (\<lambda>r. rr_run_id r = rid) (mdb_runs db) = Some r"
  shows "stopped_state rid db db'" and "others_kept rid db db'"
proof -
  let ?P = "\<lambda>q. rr_run_id q = rid \<and> rr_phase q = rr_phase r"
  let ?f = "move_run PHASE_ABANDONED now (Some stopped_message)"
  let ?g = "\<lambda>r. r\<lparr>rr_recovery_schedule_origin_height := None, rr_recovery_schedule_max_block_offset := None\<rparr>"
  let ?runs = "map (\<lambda>q. if rr_run_id q = rid then ?g q else q) (map (\<lambda>q. if ?P q then ?f q else q) (mdb_runs db))"
  let ?notes = "map (\<lambda>n. if nr_run_id n = rid then n\<lparr>nr_lock_state := ''unlocked''\<rparr> else n) (mdb_notes db)"
  have db': "db' = db\<lparr>mdb_runs := ?runs, mdb_notes := ?notes,
      mdb_pending := filter (\<lambda>p. \<not> (pt_run_id p = rid \<and> pt_status p \<in> {''scheduled'', ''needs_resign''})) (mdb_pending db),
      mdb_children := filter (\<lambda>c. sc_run_id c \<noteq> rid) (mdb_children db)\<rparr>"
    using assms(1) by (auto simp: stopped_run_def sql_update_runs_def clear_recovery_schedule_def set_note_locks_def
        delete_unsent_pending_def delete_children_def split: if_splits)
  have fields: "mdb_runs db' = ?runs" "mdb_notes db' = ?notes" "mdb_stages db' = mdb_stages db"
    "mdb_pending db' = filter (\<lambda>p. \<not> (pt_run_id p = rid \<and> pt_status p \<in> {''scheduled'', ''needs_resign''})) (mdb_pending db)"
    "mdb_children db' = filter (\<lambda>c. sc_run_id c \<noteq> rid) (mdb_children db)"
    unfolding db' by simp_all
  have rid: "rr_run_id r = rid" using assms(2) by (auto simp: find_Some_iff)
  have "find (\<lambda>r. rr_run_id r = rid) (map (\<lambda>q. if ?P q then ?f q else q) (mdb_runs db)) = Some (?f r)"
    by (rule find_updated_run [OF assms(2)]) (simp_all add: move_run_def rid)
  then have "find (\<lambda>r. rr_run_id r = rid) ?runs = Some (?g (?f r))"
    by (rule find_updated_run) (simp_all add: move_run_def rid)
  then have "\<exists>r. find (\<lambda>r. rr_run_id r = rid) (mdb_runs db') = Some r \<and> rr_phase r = PHASE_ABANDONED"
    unfolding fields by (intro exI [of _ "?g (?f r)"]) (simp add: move_run_def)
  moreover have "wallet_lock_candidates_with_conn db' rid = wallet_lock_candidates_with_conn db rid"
  proof (rule candidates_cong [OF _ fields(3)])
    show "map (\<lambda>n. (nr_run_id n, nr_txid_hex n, nr_output_index n)) (mdb_notes db') =
        map (\<lambda>n. (nr_run_id n, nr_txid_hex n, nr_output_index n)) (mdb_notes db)"
      unfolding fields(2) by (rule map_update_same) simp
  qed
  moreover have "\<forall>n \<in> set (mdb_notes db'). nr_run_id n = rid \<longrightarrow> nr_lock_state n = ''unlocked''"
  proof (intro ballI impI)
    fix n assume "n \<in> set (mdb_notes db')" and n: "nr_run_id n = rid"
    then obtain m where "n = (if nr_run_id m = rid then m\<lparr>nr_lock_state := ''unlocked''\<rparr> else m)"
      unfolding fields(2) set_map by blast
    then show "nr_lock_state n = ''unlocked''" using n by (cases "nr_run_id m = rid") simp_all
  qed
  moreover have "\<forall>c \<in> set (mdb_children db'). sc_run_id c \<noteq> rid" unfolding fields by simp
  ultimately show "stopped_state rid db db'" unfolding stopped_state_def using fields(3,4) by (intro conjI)
  have "filter (\<lambda>r. rr_run_id r \<noteq> rid) ?runs = filter (\<lambda>r. rr_run_id r \<noteq> rid) (mdb_runs db)"
    by (subst filter_map_other, simp, simp, rule filter_map_other) (auto simp: move_run_def)
  moreover have "filter (\<lambda>n. nr_run_id n \<noteq> rid) ?notes = filter (\<lambda>n. nr_run_id n \<noteq> rid) (mdb_notes db)"
    by (rule filter_map_other) auto
  ultimately show "others_kept rid db db'"
    unfolding others_kept_def fields by (simp del: map_map) (auto intro!: filter_cong)
qed

section \<open>Stopping\<close>

definition is_stopped :: "migration_db \<Rightarrow> string \<Rightarrow> bool" where
  "is_stopped db rid \<longleftrightarrow> (\<exists>r. find (\<lambda>r. rr_run_id r = rid) (mdb_runs db) = Some r \<and> rr_phase r = PHASE_ABANDONED)"

lemma reconcile_stopped:
  assumes "reconcile_wallet_locks_for_run api unhex (\<lambda>_. db) rid w = (res, w')" and "is_stopped db rid" and "lock_laws api locked"
  shows "locks_released locked (migration_lock_owner api rid) (candidate_outputs unhex (wallet_lock_candidates_with_conn db rid)) w w'"
    and "res = Inr () \<Longrightarrow> locks_agree api locked unhex rid True (wallet_lock_candidates_with_conn db rid) w'"
proof -
  let ?cs = "wallet_lock_candidates_with_conn db rid"
  have snap: "wallet_lock_reconciliation_snapshot db rid = Some (True, ?cs)"
    using assms(2) by (auto simp: is_stopped_def wallet_lock_reconciliation_snapshot_def migration_phase_releases_wallet_locks_def)
  obtain r1 w1 where a: "apply_disposition api unhex rid True ?cs w = (r1, w1)" by fastforce
  note applied = apply_disposition_result [OF a assms(3)]
  have "w' = w1 \<and> (res = Inr () \<longrightarrow> (\<exists>c. r1 = Inr c))"
    using assms(1) by (cases r1) (auto simp: reconcile_wallet_locks_for_run_def reconcile_quiet snap a)
  then show "locks_released locked (migration_lock_owner api rid) (candidate_outputs unhex ?cs) w w'"
    and "res = Inr () \<Longrightarrow> locks_agree api locked unhex rid True ?cs w'"
    using applied(3,5) by blast+
qed

text \<open>The stages that were not submitted are gone, the others stay.\<close>

definition unsubmitted :: "stage_row \<Rightarrow> bool" where
  "unsubmitted s \<longleftrightarrow> sr_status s \<in> {''awaiting_inputs'', ''pending''}"

lemma discard_stages:
  "db_stages (discard_unsubmitted_preparation_stages s rid) = filter (\<lambda>r. \<not> (sr_run_id r = rid \<and> unsubmitted r)) (db_stages s)"
  by (simp add: discard_unsubmitted_preparation_stages_def Let_def unsubmitted_def)

lemma release_stopped_result:
  assumes "release_stopped_run api unhex rid (db, w) = (res, db', w')" and "is_stopped db rid" and "lock_laws api locked"
  shows "locks_released locked (migration_lock_owner api rid) (candidate_outputs unhex (wallet_lock_candidates_with_conn db rid)) w w'"
    and "is_stopped db' rid" and "others_kept rid db db'" and "mdb_pending db' = mdb_pending db" and "mdb_children db' = mdb_children db"
    and "res = Inl e \<Longrightarrow> db' = db"
    and "res = Inr () \<Longrightarrow> locks_agree api locked unhex rid True (wallet_lock_candidates_with_conn db rid) w'
       \<and> (\<forall>s \<in> set (db_stages (mdb_stages db')). sr_run_id s = rid \<longrightarrow> \<not> unsubmitted s)"
proof -
  obtain r1 w1 where r: "reconcile_wallet_locks_for_run api unhex (\<lambda>_. db) rid w = (r1, w1)" by fastforce
  note rec = reconcile_stopped [OF r assms(2,3)]
  let ?d = "db\<lparr>mdb_stages := discard_unsubmitted_preparation_stages (mdb_stages db) rid\<rparr>"
  have eq: "w' = w1" "db' = (case r1 of Inl _ \<Rightarrow> db | Inr _ \<Rightarrow> ?d)"
    "res = (case r1 of Inl e \<Rightarrow> Inl (LcLock e) | Inr _ \<Rightarrow> Inr ())"
    using assms(1) r by (cases r1; simp add: release_stopped_run_def)+
  have runs: "mdb_runs db' = mdb_runs db" by (simp add: eq(2) split: sum.split)
  show "is_stopped db' rid" using assms(2) by (simp add: is_stopped_def runs)
  show "mdb_pending db' = mdb_pending db" and "mdb_children db' = mdb_children db" by (simp_all add: eq(2) split: sum.split)
  show "others_kept rid db db'"
    by (auto simp: eq(2) others_kept_def discard_stages intro!: filter_cong split: sum.split)
  show "locks_released locked (migration_lock_owner api rid) (candidate_outputs unhex (wallet_lock_candidates_with_conn db rid)) w w'"
    using rec(1) eq(1) by simp
  show "res = Inl e \<Longrightarrow> db' = db" using eq(2,3) by (auto split: sum.splits)
  show "res = Inr () \<Longrightarrow> locks_agree api locked unhex rid True (wallet_lock_candidates_with_conn db rid) w'
       \<and> (\<forall>s \<in> set (db_stages (mdb_stages db')). sr_run_id s = rid \<longrightarrow> \<not> unsubmitted s)"
    using rec(2) eq by (auto simp: discard_stages split: sum.splits)
qed

text \<open>What a stop leaves behind, whether it was refused, failed or succeeded.\<close>

lemma abandon_run_result:
  assumes "lock_laws api locked"
    and "abandon_run api unhex now account network rid (db, w) = (res, db', w')"
  shows "(\<exists>e. res = Inl e) \<and> db' = db \<and> w' = w
     \<or> is_stopped db' rid \<and> others_kept rid db db'
       \<and> filter (\<lambda>p. pt_status p \<notin> {''scheduled'', ''needs_resign''}) (mdb_pending db') =
           filter (\<lambda>p. pt_status p \<notin> {''scheduled'', ''needs_resign''}) (mdb_pending db)
       \<and> locks_released locked (migration_lock_owner api rid)
           (candidate_outputs unhex (wallet_lock_candidates_with_conn db rid)) w w'
       \<and> (case res of
            Inl e \<Rightarrow> wallet_lock_candidates_with_conn db' rid = wallet_lock_candidates_with_conn db rid
              \<and> mdb_stages db' = mdb_stages db
          | Inr _ \<Rightarrow> locks_agree api locked unhex rid True (wallet_lock_candidates_with_conn db rid) w'
              \<and> (\<forall>s \<in> set (db_stages (mdb_stages db')). sr_run_id s = rid \<longrightarrow> \<not> unsubmitted s))
       \<and> (\<not> is_stopped db rid \<longrightarrow> (\<forall>c \<in> set (mdb_children db'). sc_run_id c \<noteq> rid)
            \<and> (\<forall>p \<in> set (mdb_pending db'). pt_run_id p = rid \<longrightarrow> pt_status p \<notin> {''scheduled'', ''needs_resign''}))"
    (is "?refused \<or> ?stopped")
proof -
  let ?cs = "wallet_lock_candidates_with_conn db rid"
  consider (refused) ?refused
    | (again) "is_stopped db rid" "release_stopped_run api unhex rid (db, w) = (res, db', w')"
    | (stop) r db1 where "\<not> is_stopped db rid" "find (\<lambda>r. rr_run_id r = rid) (mdb_runs db) = Some r"
        "stopped_run now rid r db = Inr db1" "release_stopped_run api unhex rid (db1, w) = (res, db', w')"
  proof (cases "find (\<lambda>r. rr_run_id r = rid) (mdb_runs db)")
    case None
    then have ?refused using assms(2) by (auto simp: abandon_run_def)
    then show ?thesis by (rule refused)
  next
    case (Some r)
    show ?thesis
    proof (cases "rr_account_uuid r \<noteq> account \<or> rr_network r \<noteq> network_name network")
      case True
      then have ?refused using assms(2) Some by (auto simp: abandon_run_def)
      then show ?thesis by (rule refused)
    next
      case own: False
      show ?thesis
      proof (cases "rr_phase r = PHASE_ABANDONED")
        case True
        then show ?thesis using again assms(2) Some own by (simp add: abandon_run_def is_stopped_def)
      next
        case False
        then have n: "\<not> is_stopped db rid" using Some by (simp add: is_stopped_def)
        show ?thesis
        proof (cases "rr_phase r \<in> {PHASE_COMPLETE, PHASE_FAILED_TERMINAL}")
          case True
          then have ?refused using assms(2) Some own False by (auto simp: abandon_run_def)
          then show ?thesis by (rule refused)
        next
          case open_phase: False
          show ?thesis
          proof (cases "stopped_run now rid r db")
            case (Inl e)
            then have ?refused using assms(2) Some own False open_phase by (auto simp: abandon_run_def)
            then show ?thesis by (rule refused)
          next
            case (Inr db1)
            then show ?thesis using stop [OF n Some Inr] assms(2) Some own False open_phase by (simp add: abandon_run_def)
          qed
        qed
      qed
    qed
  qed
  then show ?thesis
  proof cases
    case refused
    then show ?thesis by blast
  next
    case again
    note rel = release_stopped_result [OF again(2,1) assms(1)]
    have ?stopped using again(1) rel by (cases res) auto
    then show ?thesis ..
  next
    case (stop r db1)
    note st = stopped_run_state [OF stop(3,2)]
    have s1: "is_stopped db1 rid" and cs: "wallet_lock_candidates_with_conn db1 rid = ?cs" and stages: "mdb_stages db1 = mdb_stages db"
      and children: "\<forall>c \<in> set (mdb_children db1). sc_run_id c \<noteq> rid"
      and pending: "mdb_pending db1 = filter (\<lambda>p. \<not> (pt_run_id p = rid \<and> pt_status p \<in> {''scheduled'', ''needs_resign''})) (mdb_pending db)"
      using st(1) by (auto simp: stopped_state_def is_stopped_def)
    note rel = release_stopped_result [OF stop(4) s1 assms(1), unfolded cs]
    have sent: "filter (\<lambda>p. pt_status p \<notin> {''scheduled'', ''needs_resign''}) (mdb_pending db') =
           filter (\<lambda>p. pt_status p \<notin> {''scheduled'', ''needs_resign''}) (mdb_pending db)"
      unfolding rel(4) pending by (auto intro!: filter_cong)
    have unsent: "\<forall>p \<in> set (mdb_pending db'). pt_run_id p = rid \<longrightarrow> pt_status p \<notin> {''scheduled'', ''needs_resign''}"
      unfolding rel(4) pending by simp
    have end_state: "case res of
            Inl e \<Rightarrow> wallet_lock_candidates_with_conn db' rid = ?cs \<and> mdb_stages db' = mdb_stages db
          | Inr _ \<Rightarrow> locks_agree api locked unhex rid True ?cs w'
              \<and> (\<forall>s \<in> set (db_stages (mdb_stages db')). sr_run_id s = rid \<longrightarrow> \<not> unsubmitted s)"
      using rel(6,7) cs stages by (cases res) auto
    have "\<forall>c \<in> set (mdb_children db'). sc_run_id c \<noteq> rid" unfolding rel(5) by (rule children)
    then have ?stopped using rel(1,2) others_kept_trans [OF st(2) rel(3)] sent unsent end_state by blast
    then show ?thesis ..
  qed
qed

lemma abandon_keeps_submitted:
  assumes "abandon_run api unhex now account network rid (db, w) = (res, db', w')"
    and "r \<in> set (db_stages (mdb_stages db))" and "\<not> unsubmitted r"
  shows "r \<in> set (db_stages (mdb_stages db'))"
proof -
  have release: "r \<in> set (db_stages (mdb_stages db2))"
    if "release_stopped_run api unhex rid (db1, w1) = (res2, db2, w2)" and "mdb_stages db1 = mdb_stages db" for db1 w1 res2 db2 w2
    using that assms(2,3) by (auto simp: release_stopped_run_def discard_stages split: sum.splits prod.splits)
  have stop: "mdb_stages db1 = mdb_stages db" if "stopped_run now rid r db = Inr db1"
      and "find (\<lambda>r. rr_run_id r = rid) (mdb_runs db) = Some r" for r db1
    using stopped_run_state(1) [OF that] by (simp add: stopped_state_def)
  show ?thesis
  proof (cases "find (\<lambda>r. rr_run_id r = rid) (mdb_runs db)")
    case None
    then show ?thesis using assms by (auto simp: abandon_run_def)
  next
    case (Some q)
    show ?thesis
    proof (cases "stopped_run now rid q db")
      case (Inl e)
      then show ?thesis using assms Some release by (auto simp: abandon_run_def split: if_splits)
    next
      case (Inr db1)
      then show ?thesis using assms Some release stop [OF Inr Some] by (auto simp: abandon_run_def split: if_splits)
    qed
  qed
qed

text \<open>
  C11. Stopping a run is safe at every point where it can fail. A call that is refused changes nothing.
  Any other call leaves the run stopped, the tables of the other runs as they were, and every
  transaction that is neither scheduled nor waiting to be signed again; a lock changes only on an output that the run may hold, and only from being
  held by the run to being free, so no lock is taken and no lock of another owner is released. When it reports
  an error, the notes and the stage inputs that say which outputs the run may hold are all still there,
  so that the next call can release them. When it succeeds, the run holds none of them, and no stage
  is left that was not submitted. A run that was not stopped before has no signed child and no
  transaction left that could still be sent.
\<close>

theorem stopping_is_resumable:
  assumes "lock_laws api locked"
    and "abandon_run api unhex now account network rid (db, w) = (res, db', w')"
  shows "(\<exists>e. res = Inl e) \<and> db' = db \<and> w' = w
     \<or> is_stopped db' rid \<and> others_kept rid db db'
       \<and> filter (\<lambda>p. pt_status p \<notin> {''scheduled'', ''needs_resign''}) (mdb_pending db') =
           filter (\<lambda>p. pt_status p \<notin> {''scheduled'', ''needs_resign''}) (mdb_pending db)
       \<and> locks_released locked (migration_lock_owner api rid)
           (candidate_outputs unhex (wallet_lock_candidates_with_conn db rid)) w w'
       \<and> (case res of
            Inl e \<Rightarrow> wallet_lock_candidates_with_conn db' rid = wallet_lock_candidates_with_conn db rid
              \<and> mdb_stages db' = mdb_stages db
          | Inr _ \<Rightarrow> locks_agree api locked unhex rid True (wallet_lock_candidates_with_conn db rid) w'
              \<and> (\<forall>s \<in> set (db_stages (mdb_stages db')). sr_run_id s = rid \<longrightarrow> \<not> unsubmitted s))
       \<and> (\<not> is_stopped db rid \<longrightarrow> (\<forall>c \<in> set (mdb_children db'). sc_run_id c \<noteq> rid)
            \<and> (\<forall>p \<in> set (mdb_pending db'). pt_run_id p = rid \<longrightarrow> pt_status p \<notin> {''scheduled'', ''needs_resign''}))"
  using assms by (rule abandon_run_result)

text \<open>A run that is ready to migrate and holds its note is stopped.\<close>

definition example_ready_db :: migration_db where
  "example_ready_db = example_ended_db\<lparr>mdb_runs := [example_waiting_run\<lparr>rr_phase := PHASE_READY_TO_MIGRATE\<rparr>]\<rparr>"

theorem stopping_is_resumable_witness:
  "\<exists>db' w'. abandon_run table_api example_unhex 5 ''account'' Test ''run'' (example_ready_db, example_lock_table) = (Inr (), db', w')
     \<and> is_stopped db' ''run'' \<and> locks_agree table_api lt_locks example_unhex ''run'' True [(''t'', 0)] w'"
proof -
  let ?r = "example_waiting_run\<lparr>rr_phase := PHASE_READY_TO_MIGRATE\<rparr>"
  have cs: "wallet_lock_candidates_with_conn example_ready_db ''run'' = [(''t'', 0)]"
    by (simp add: wallet_lock_candidates_with_conn_def example_ready_db_def example_ended_db_def example_waiting_db_def)
  have run: "find (\<lambda>r. rr_run_id r = ''run'') (mdb_runs example_ready_db) = Some ?r"
    by (simp add: example_ready_db_def example_waiting_run_def)
  have own: "rr_account_uuid ?r = ''account''" "rr_network ?r = network_name Test" "rr_phase ?r = PHASE_READY_TO_MIGRATE"
    by (simp_all add: example_waiting_run_def)
  have ref: "orchard_output_ref example_unhex (''t'', 0) = Inr example_held"
    by (simp add: orchard_output_ref_def example_unhex_def example_txid_bytes_def example_held_def)
  obtain db1 where stop: "stopped_run 5 ''run'' ?r example_ready_db = Inr db1"
    by (simp add: stopped_run_def sql_update_runs_def example_ready_db_def) (simp add: example_waiting_run_def)
  from stopped_run_state(1) [OF stop run] obtain r1 where r1: "find (\<lambda>r. rr_run_id r = ''run'') (mdb_runs db1) = Some r1"
    "rr_phase r1 = PHASE_ABANDONED" and cs1: "wallet_lock_candidates_with_conn db1 ''run'' = [(''t'', 0)]"
    using cs by (auto simp: stopped_state_def)
  have snap: "wallet_lock_reconciliation_snapshot db1 ''run'' = Some (True, [(''t'', 0)])"
    by (simp add: wallet_lock_reconciliation_snapshot_def r1 cs1 migration_phase_releases_wallet_locks_def)
  obtain w1 where u: "unlock_orchard_migration_outputs table_api example_unhex ''run'' [(''t'', 0)] example_lock_table = (Inr (), w1)"
    by (simp add: unlock_orchard_migration_outputs_def ref table_api_def)
  obtain db' w' where done_run: "abandon_run table_api example_unhex 5 ''account'' Test ''run'' (example_ready_db, example_lock_table)
      = (Inr (), db', w')"
  proof -
    have fresh: "PHASE_READY_TO_MIGRATE \<noteq> PHASE_ABANDONED" "PHASE_READY_TO_MIGRATE \<notin> {PHASE_COMPLETE, PHASE_FAILED_TERMINAL}"
      by (simp_all add: phase_defs)
    have "abandon_run table_api example_unhex 5 ''account'' Test ''run'' (example_ready_db, example_lock_table) =
        release_stopped_run table_api example_unhex ''run'' (db1, example_lock_table)"
      using fresh by (simp add: abandon_run_def run own stop)
    moreover have "\<exists>db' w'. release_stopped_run table_api example_unhex ''run'' (db1, example_lock_table) = (Inr (), db', w')"
      by (simp add: release_stopped_run_def reconcile_wallet_locks_for_run_def reconcile_quiet snap apply_disposition_def u)
    ultimately show ?thesis using that by auto
  qed
  have "is_stopped db' ''run'' \<and> locks_agree table_api lt_locks example_unhex ''run'' True [(''t'', 0)] w'"
    using stopping_is_resumable [OF table_api_laws done_run] by (simp add: cs)
  then show ?thesis using done_run by blast
qed

end
