(* ===== verification/Run_Creation.thy ===== *)
theory Run_Creation
  imports Run_Stopping Pending_Steps Stage_Round_Trip
begin

text \<open>
  The creation of a run: what the tables hold afterwards, and what a failed creation leaves behind.
\<close>

section \<open>What a run is given\<close>

definition note_keys :: "migration_db \<Rightarrow> (string \<times> string \<times> u32) set" where
  "note_keys db = (\<lambda>n. (nr_run_id n, nr_txid_hex n, nr_output_index n)) ` set (mdb_notes db)"

definition input_keys :: "migration_db \<Rightarrow> (string \<times> string \<times> u32) set" where
  "input_keys db = (\<lambda>i. (ir_run_id i, ir_txid_hex i, ir_output_index i)) ` set (db_inputs (mdb_stages db))"

lemma lock_candidates_set:
  "set (wallet_lock_candidates_with_conn db rid) = {c. (rid, c) \<in> note_keys db \<union> input_keys db}"
  by (auto simp: wallet_lock_candidates_with_conn_def note_keys_def input_keys_def)

lemma insert_notes_tables:
  "note_keys (insert_prepared_notes_with_tx db rid ns locked) =
     note_keys db \<union> (\<lambda>n. (rid, on_txid_hex n, on_output_index n)) ` set ns
   \<and> mdb_runs (insert_prepared_notes_with_tx db rid ns locked) = mdb_runs db
   \<and> mdb_stages (insert_prepared_notes_with_tx db rid ns locked) = mdb_stages db"
  unfolding insert_prepared_notes_with_tx_def
proof (induction ns arbitrary: db)
  case (Cons n ns)
  let ?db1 = "replace_note_row (prepared_note_row rid locked n) db"
  have "note_keys ?db1 = insert (rid, on_txid_hex n, on_output_index n) (note_keys db)"
    by (auto simp: note_keys_def replace_note_row_def prepared_note_row_def)
  then show ?case using Cons.IH [of ?db1] by (simp add: replace_note_row_def)
qed simp

lemma insert_children_tables:
  "insert_children cipher password salt rid mode schedule targets recovery cs (og, db, n) = Inr (og', db', n') \<Longrightarrow>
     mdb_notes db' = mdb_notes db \<and> mdb_stages db' = mdb_stages db \<and> mdb_runs db' = mdb_runs db"
proof (induction cs arbitrary: og db n)
  case (Cons c cs)
  from Cons.prems obtain og1 e1 e2 n1 where
    "insert_children cipher password salt rid mode schedule targets recovery cs
       (og1, replace_child_row (child_row_of rid e1 e2 c) db, n1) = Inr (og', db', n')"
    by (auto split: if_splits prod.splits)
  from Cons.IH [OF this] show ?case by (simp add: replace_child_row_def)
qed simp

lemma insert_signed_children_tables:
  assumes "insert_signed_child_pczts_with_tx cipher password salt db rid cs mode n = Inr (db', n')"
  shows "mdb_notes db' = mdb_notes db" and "mdb_stages db' = mdb_stages db"
    and "\<exists>x. mdb_runs db' = map (\<lambda>r. if rr_run_id r = rid \<and> rr_signed_schedule_origin_height r = None
           then r\<lparr>rr_signed_schedule_origin_height := x\<rparr> else r) (mdb_runs db)"
proof -
  have keep: "\<exists>x. rs = map (\<lambda>r. if rr_run_id r = rid \<and> rr_signed_schedule_origin_height r = None
           then r\<lparr>rr_signed_schedule_origin_height := x\<rparr> else r) rs" for rs :: "run_row list"
    by (rule exI [of _ None]) (induction rs; simp)
  have "mdb_notes db' = mdb_notes db \<and> mdb_stages db' = mdb_stages db
    \<and> (\<exists>x. mdb_runs db' = map (\<lambda>r. if rr_run_id r = rid \<and> rr_signed_schedule_origin_height r = None
           then r\<lparr>rr_signed_schedule_origin_height := x\<rparr> else r) (mdb_runs db))"
  proof (cases "cs = []")
    case True
    then show ?thesis using assms keep by (simp add: insert_signed_child_pczts_with_tx_def)
  next
    case False
    have "\<exists>(r :: run_row) sb og db1. insert_children cipher password sb rid mode (rr_schedule r) (rr_target_values r)
          (rr_recovery_schedule_origin_height r) cs
          ((case mode of Initial \<Rightarrow> rr_signed_schedule_origin_height r | Replacement \<Rightarrow> None), db, n) = Inr (og, db1, n')
        \<and> (db' = set_schedule_origin rid og db1 \<or> db' = db1)"
    proof -
      obtain r where r: "map_error PartRun (run_of db rid) = Inr r"
        using assms False by (cases "map_error PartRun (run_of db rid)") (simp_all add: insert_signed_child_pczts_with_tx_def)
      obtain sb where sb: "ok_or PartSaltInvalid (decode_salt cipher salt) = Inr sb"
        using assms False r by (cases "ok_or PartSaltInvalid (decode_salt cipher salt)") (simp_all add: insert_signed_child_pczts_with_tx_def)
      obtain x where x: "insert_children cipher password sb rid mode (rr_schedule r) (rr_target_values r)
          (rr_recovery_schedule_origin_height r) cs
          ((case mode of Initial \<Rightarrow> rr_signed_schedule_origin_height r | Replacement \<Rightarrow> None), db, n) = Inr x"
        using assms False r sb
        by (cases "insert_children cipher password sb rid mode (rr_schedule r) (rr_target_values r)
          (rr_recovery_schedule_origin_height r) cs
          ((case mode of Initial \<Rightarrow> rr_signed_schedule_origin_height r | Replacement \<Rightarrow> None), db, n)")
          (simp_all add: insert_signed_child_pczts_with_tx_def)
      obtain og db1 n1 where x3: "x = (og, db1, n1)" by (cases x)
      have "(if mode = Initial \<and> rr_signed_schedule_origin_height r = None then set_schedule_origin rid og db1 else db1) = db'
          \<and> n1 = n'"
        using assms False r sb x x3 by (simp add: insert_signed_child_pczts_with_tx_def)
      then have "n1 = n'" and "db' = set_schedule_origin rid og db1 \<or> db' = db1" by (auto split: if_splits)
      then show ?thesis using x unfolding x3
        by (intro exI [of _ r] exI [of _ sb] exI [of _ og] exI [of _ db1]) simp
    qed
    then obtain r :: run_row and sb og db1 where i: "insert_children cipher password sb rid mode (rr_schedule r) (rr_target_values r)
        (rr_recovery_schedule_origin_height r) cs
        ((case mode of Initial \<Rightarrow> rr_signed_schedule_origin_height r | Replacement \<Rightarrow> None), db, n) = Inr (og, db1, n')"
      and db': "db' = set_schedule_origin rid og db1 \<or> db' = db1" by blast
    note t = insert_children_tables [OF i]
    have "db' = db1 \<or> (\<exists>x. db' = snd (sql_update_runs (\<lambda>r. rr_run_id r = rid \<and> rr_signed_schedule_origin_height r = None)
        (\<lambda>r. r\<lparr>rr_signed_schedule_origin_height := Some x\<rparr>) db1))"
      using db' by (auto simp: set_schedule_origin_def split: option.splits)
    then show ?thesis
    proof
      assume same: "db' = db1"
      show ?thesis unfolding same using t keep [of "mdb_runs db"] by (intro conjI) simp_all
    next
      assume "\<exists>x. db' = snd (sql_update_runs (\<lambda>r. rr_run_id r = rid \<and> rr_signed_schedule_origin_height r = None)
        (\<lambda>r. r\<lparr>rr_signed_schedule_origin_height := Some x\<rparr>) db1)"
      then obtain x where x: "db' = snd (sql_update_runs (\<lambda>r. rr_run_id r = rid \<and> rr_signed_schedule_origin_height r = None)
        (\<lambda>r. r\<lparr>rr_signed_schedule_origin_height := Some x\<rparr>) db1)" by blast
      show ?thesis unfolding x using t
        by (intro conjI exI [of _ "Some x"]) (simp_all add: sql_update_runs_def)
    qed
  qed
  then show "mdb_notes db' = mdb_notes db" and "mdb_stages db' = mdb_stages db"
    and "\<exists>x. mdb_runs db' = map (\<lambda>r. if rr_run_id r = rid \<and> rr_signed_schedule_origin_height r = None
           then r\<lparr>rr_signed_schedule_origin_height := x\<rparr> else r) (mdb_runs db)" by blast+
qed

section \<open>The created run\<close>

lemma insert_stage_inputs:
  assumes "insert_stage cipher rid pw salt (db, n) s = Inr (db', n')"
  shows "db_inputs db' = db_inputs db @ input_rows rid s"
proof -
  from assms obtain r db1 db2 where "sql_insert_stage r db = Inr db1"
    and i: "try_fold (insert_input rid (si_stage_index s)) db1 (enumerate 0 (si_inputs s)) = Inr db2"
    and out: "try_fold (insert_output rid (si_stage_index s)) db2 (enumerate 0 (si_outputs s)) = Inr db'"
    by (auto simp: insert_stage_def map_error_def sql_u64_def split: prod.splits sum.splits if_splits)
  then show ?thesis
    using insert_inputs_rows [OF i] insert_outputs_rows [OF out] by (auto simp: sql_insert_stage_def split: if_splits)
qed

lemma insert_stages_inputs:
  "try_fold (insert_stage cipher rid pw salt) (db, n) ss = Inr (db', n') \<Longrightarrow>
     db_inputs db' = db_inputs db @ concat (map (input_rows rid) ss)"
proof (induction ss arbitrary: db n)
  case (Cons s ss)
  from Cons.prems obtain db1 n1 where s: "insert_stage cipher rid pw salt (db, n) s = Inr (db1, n1)"
      and rest: "try_fold (insert_stage cipher rid pw salt) (db1, n1) ss = Inr (db', n')" by auto
  show ?case using Cons.IH [OF rest] insert_stage_inputs [OF s] by simp
qed simp

lemma insert_denomination_stages_inputs:
  assumes "insert_denomination_stages_with_tx cipher db rid ss pw salt n = (Inr (), db', n')"
  shows "db_inputs db' = db_inputs db @ concat (map (input_rows rid) ss)"
proof -
  obtain sb where "try_fold (insert_stage cipher rid pw sb) (db, n) ss = Inr (db', n')"
    using assms by (cases "decode_salt cipher salt")
      (auto simp: insert_denomination_stages_with_tx_def split: sum.splits prod.splits)
  then show ?thesis by (rule insert_stages_inputs)
qed

text \<open>The inputs of the stages by key; an identifier is stored in lower case.\<close>

definition stage_keys :: "string \<Rightarrow> denomination_stage_insert list \<Rightarrow> (string \<times> string \<times> u32) set" where
  "stage_keys rid ss = (\<lambda>i. (rid, to_ascii_lowercase (in_txid_hex i), in_output_index i)) ` (\<Union>s \<in> set ss. set (si_inputs s))"

lemma input_rows_keys:
  "(\<lambda>i. (ir_run_id i, ir_txid_hex i, ir_output_index i)) ` set (concat (map (input_rows rid) ss)) = stage_keys rid ss"
proof -
  have one: "(\<lambda>i. (ir_run_id i, ir_txid_hex i, ir_output_index i)) ` set (input_rows rid s) = stage_keys rid [s]" for s
  proof -
    have "set (si_inputs s) = snd ` set (enumerate 0 (si_inputs s))"
      by (metis map_snd_enumerate set_map)
    then show ?thesis by (simp add: stage_keys_def inserted_input_def image_image case_prod_beta)
  qed
  show ?thesis
  proof (induction ss)
    case (Cons s ss)
    then show ?case using one [of s] by (simp add: image_Un stage_keys_def)
  qed (simp add: stage_keys_def)
qed

lemma insert_run_contents_tables:
  assumes "insert_run_contents cipher password salt db rid prepared cs ss n = Inr (db', n')"
  shows "note_keys db' = note_keys db \<union> (\<lambda>n. (rid, on_txid_hex n, on_output_index n)) ` set prepared"
    and "input_keys db' = input_keys db \<union> stage_keys rid ss"
    and "\<exists>x. mdb_runs db' = map (\<lambda>r. if rr_run_id r = rid \<and> rr_signed_schedule_origin_height r = None
           then r\<lparr>rr_signed_schedule_origin_height := x\<rparr> else r) (mdb_runs db)"
proof -
  let ?db1 = "insert_prepared_notes_with_tx db rid prepared True"
  obtain res stages n1 where st: "insert_denomination_stages_with_tx cipher (mdb_stages ?db1) rid ss password salt n = (res, stages, n1)"
    by (cases "insert_denomination_stages_with_tx cipher (mdb_stages ?db1) rid ss password salt n")
  then have res: "res = Inr ()" using assms by (cases res) (simp_all add: insert_run_contents_def Let_def)
  then have ch: "insert_signed_child_pczts_with_tx cipher password salt (?db1\<lparr>mdb_stages := stages\<rparr>) rid cs Initial n1 = Inr (db', n')"
    using assms st by (simp add: insert_run_contents_def Let_def map_error_eq_Inr)
  note t = insert_signed_children_tables [OF ch]
  note nt = insert_notes_tables [of db rid prepared True]
  show "note_keys db' = note_keys db \<union> (\<lambda>n. (rid, on_txid_hex n, on_output_index n)) ` set prepared"
    using nt t(1) by (simp add: note_keys_def)
  have "db_inputs (mdb_stages db') = db_inputs (mdb_stages db) @ concat (map (input_rows rid) ss)"
    using t(2) insert_denomination_stages_inputs [OF st [unfolded res]] nt by simp
  then show "input_keys db' = input_keys db \<union> stage_keys rid ss"
    by (simp only: input_keys_def set_append image_Un input_rows_keys)
  show "\<exists>x. mdb_runs db' = map (\<lambda>r. if rr_run_id r = rid \<and> rr_signed_schedule_origin_height r = None
           then r\<lparr>rr_signed_schedule_origin_height := x\<rparr> else r) (mdb_runs db)"
    using t(3) nt by simp
qed

text \<open>The row of a new run: everything it was created with, and whatever origin its children gave it.\<close>

definition stored_run :: "string \<Rightarrow> string \<Rightarrow> wallet_network \<Rightarrow> string \<Rightarrow> u64 list \<Rightarrow> migration_db \<Rightarrow> migration_db \<Rightarrow> bool" where
  "stored_run rid account network phase targets db db' \<longleftrightarrow>
     (\<exists>r. mdb_runs db' = mdb_runs db @ [r] \<and> rr_run_id r = rid \<and> rr_account_uuid r = account
        \<and> rr_network r = network_name network \<and> rr_phase r = phase \<and> rr_target_values r = targets)
     \<and> (\<forall>r \<in> set (mdb_runs db). rr_run_id r \<noteq> rid)"

lemma created_run_result:
  assumes "created_run cipher fast password salt now rid path account network plan prepared cs ss schedule policy n db = Inr (db', n')"
  shows "find_active_run db account network = None"
    and "stored_run rid account network (initial_phase ss) (dp_migration_outputs plan) db db'"
    and "note_keys db' = note_keys db \<union> (\<lambda>n. (rid, on_txid_hex n, on_output_index n)) ` set prepared"
    and "input_keys db' = input_keys db \<union> stage_keys rid ss"
proof -
  have active: "find_active_run db account network = None"
    using assms by (auto simp: created_run_def split: if_splits option.splits)
  have some: "\<not> (ss = [] \<and> prepared = [])" using assms by (auto simp: created_run_def)
  let ?policy = "configured_timing_policy fast network"
  obtain sch where sch: "approve_schedule schedule (dp_migration_outputs plan) network ?policy = Inr sch"
    using assms active some
    by (cases "approve_schedule schedule (dp_migration_outputs plan) network ?policy") (simp_all add: created_run_def Let_def)
  let ?r = "new_run_row rid account network path (initial_phase ss) now (dp_migration_outputs plan) ?policy sch policy"
  obtain db1 where ins: "insert_run ?r db = Inr db1"
    using assms active some sch by (cases "insert_run ?r db") (simp_all add: created_run_def Let_def)
  have fresh: "\<forall>q \<in> set (mdb_runs db). rr_run_id q \<noteq> rid" and db1: "db1 = db\<lparr>mdb_runs := mdb_runs db @ [?r]\<rparr>"
    using ins by (auto simp: insert_run_def new_run_row_def list_ex_iff split: if_splits)
  have con: "insert_run_contents cipher password salt db1 rid prepared cs ss n = Inr (db', n')"
    using assms active some sch ins by (simp add: created_run_def Let_def)
  note t = insert_run_contents_tables [OF con]
  show "find_active_run db account network = None" by (rule active)
  show "note_keys db' = note_keys db \<union> (\<lambda>n. (rid, on_txid_hex n, on_output_index n)) ` set prepared"
    and "input_keys db' = input_keys db \<union> stage_keys rid ss"
    using t(1,2) by (simp_all add: db1 note_keys_def input_keys_def)
  obtain x where runs: "mdb_runs db' = map (\<lambda>r. if rr_run_id r = rid \<and> rr_signed_schedule_origin_height r = None
           then r\<lparr>rr_signed_schedule_origin_height := x\<rparr> else r) (mdb_runs db @ [?r])"
    using t(3) by (auto simp: db1)
  have old: "map (\<lambda>r. if rr_run_id r = rid \<and> rr_signed_schedule_origin_height r = None
           then r\<lparr>rr_signed_schedule_origin_height := x\<rparr> else r) (mdb_runs db) = mdb_runs db"
    by (rule map_idI) (use fresh in simp)
  have "mdb_runs db' = mdb_runs db @ [?r\<lparr>rr_signed_schedule_origin_height := x\<rparr>]"
    by (simp only: runs map_append old) (simp add: new_run_row_def)
  then show "stored_run rid account network (initial_phase ss) (dp_migration_outputs plan) db db'"
    unfolding stored_run_def using fresh
    by (intro conjI exI [of _ "?r\<lparr>rr_signed_schedule_origin_height := x\<rparr>"]) (simp_all add: new_run_row_def)
qed

section \<open>The locks of a new run\<close>

abbreviation new_outputs :: "(string \<Rightarrow> byte list option) \<Rightarrow> orchard_note_ref list \<Rightarrow> denomination_stage_insert list \<Rightarrow> output_ref set" where
  "new_outputs unhex prepared ss \<equiv> candidate_outputs unhex (initial_wallet_lock_candidates prepared ss)"

text \<open>The hexadecimal decoder reads both cases alike.\<close>

definition case_blind :: "(string \<Rightarrow> byte list option) \<Rightarrow> bool" where
  "case_blind unhex \<longleftrightarrow> (\<forall>s. unhex (to_ascii_lowercase s) = unhex s)"

lemma output_ref_case: "case_blind unhex \<Longrightarrow> orchard_output_ref unhex (to_ascii_lowercase t, i) = orchard_output_ref unhex (t, i)"
  by (cases "unhex t") (simp_all add: case_blind_def orchard_output_ref_def)

lemma new_outputs_held:
  assumes "case_blind unhex"
    and "note_keys db' = note_keys db \<union> (\<lambda>n. (rid, on_txid_hex n, on_output_index n)) ` set prepared"
    and "input_keys db' = input_keys db \<union> stage_keys rid ss"
  shows "new_outputs unhex prepared ss \<subseteq> candidate_outputs unhex (wallet_lock_candidates_with_conn db' rid)"
proof
  fix x assume "x \<in> new_outputs unhex prepared ss"
  then obtain c where c: "c \<in> set (initial_wallet_lock_candidates prepared ss)" and x: "orchard_output_ref unhex c = Inr x"
    by (auto simp: candidate_outputs_def)
  from c consider n where "n \<in> set prepared" "c = (on_txid_hex n, on_output_index n)"
    | s i where "s \<in> set ss" "i \<in> set (si_inputs s)" "c = (in_txid_hex i, in_output_index i)"
    by (auto simp: initial_wallet_lock_candidates_def)
  then show "x \<in> candidate_outputs unhex (wallet_lock_candidates_with_conn db' rid)"
  proof cases
    case (1 n)
    then have "c \<in> set (wallet_lock_candidates_with_conn db' rid)" by (auto simp: lock_candidates_set assms(2))
    then show ?thesis using x by (auto simp: candidate_outputs_def)
  next
    case (2 s i)
    let ?c = "(to_ascii_lowercase (in_txid_hex i), in_output_index i)"
    have "(rid, ?c) \<in> stage_keys rid ss" using 2 by (auto simp: stage_keys_def)
    then have "?c \<in> set (wallet_lock_candidates_with_conn db' rid)" by (simp add: lock_candidates_set assms(3))
    moreover have "orchard_output_ref unhex ?c = Inr x" using x 2(3) output_ref_case [OF assms(1)] by simp
    ultimately show ?thesis unfolding candidate_outputs_def by blast
  qed
qed

lemma find_new_last: "\<forall>q \<in> set xs. \<not> P q \<Longrightarrow> P r \<Longrightarrow> find P (xs @ [r]) = Some r"
  by (induction xs) simp_all

lemma stored_run_snapshot:
  assumes "stored_run rid account network (initial_phase ss) targets db db'"
  shows "wallet_lock_reconciliation_snapshot db' rid = Some (False, wallet_lock_candidates_with_conn db' rid)"
proof -
  obtain r where r: "mdb_runs db' = mdb_runs db @ [r]" "rr_run_id r = rid" "rr_phase r = initial_phase ss"
    and fresh: "\<forall>q \<in> set (mdb_runs db). rr_run_id q \<noteq> rid"
    using assms by (auto simp: stored_run_def)
  have "find (\<lambda>q. rr_run_id q = rid) (mdb_runs db') = Some r"
    unfolding r(1) by (rule find_new_last) (use fresh r(2) in simp_all)
  then show ?thesis
    by (simp add: wallet_lock_reconciliation_snapshot_def r(3) initial_phase_def migration_phase_releases_wallet_locks_def phase_defs)
qed

lemma locks_agree_subset:
  assumes "locks_agree api locked unhex rid release cs w" and "candidate_outputs unhex ds \<subseteq> candidate_outputs unhex cs"
  shows "locks_agree api locked unhex rid release ds w"
  using assms by (cases release) (auto simp: locks_agree_def)

text \<open>
  C12. A run is created together with its locks, or it can be recovered. On success there was no active
  run of the account and the network before, the new run is stored under a fresh identifier in the
  phase its stages call for, and it holds every spendable note among its notes and stage inputs. On
  an error, either nothing was changed; or the run is not there, and it holds none of those outputs;
  or the locks could not be released, and the run is kept with a record of every output that it may
  hold; or the locks were released and the database could not delete the run, which is kept with the same
  record. In every case only locks on the outputs recorded for the run change, and these go to the run or
  become free; and if the library refuses to lock an output that another owner holds, no lock of
  another owner changes.
\<close>

theorem creation_all_or_recoverable:
  assumes "lock_laws api locked" and "case_blind unhex"
    and "create_run_with_staged_denominations_and_signed_children delete_error cipher api unhex fast password salt now rid path account
           network plan prepared cs ss schedule policy n (db, w) = (res, db', w')"
  shows "(case res of
       Inr (rid', n') \<Rightarrow> rid' = rid \<and> find_active_run db account network = None
         \<and> stored_run rid account network (initial_phase ss) (dp_migration_outputs plan) db db'
         \<and> locks_agree api locked unhex rid False (initial_wallet_lock_candidates prepared ss) w'
     | Inl e \<Rightarrow> db' = db \<and> w' = w
         \<or> mdb_runs db' = mdb_runs db \<and> locks_agree api locked unhex rid True (initial_wallet_lock_candidates prepared ss) w'
         \<or> (\<exists>e1 e2. e = KeptForRecovery e1 e2)
           \<and> stored_run rid account network (initial_phase ss) (dp_migration_outputs plan) db db'
           \<and> new_outputs unhex prepared ss \<subseteq> candidate_outputs unhex (wallet_lock_candidates_with_conn db' rid)
         \<or> (\<exists>e1 e2. e = UnlockedButKept e1 e2 \<and> delete_error w' = Some e2)
           \<and> stored_run rid account network (initial_phase ss) (dp_migration_outputs plan) db db'
           \<and> new_outputs unhex prepared ss \<subseteq> candidate_outputs unhex (wallet_lock_candidates_with_conn db' rid)
           \<and> locks_agree api locked unhex rid True (initial_wallet_lock_candidates prepared ss) w')
     \<and> locks_moved locked (migration_lock_owner api rid)
         (candidate_outputs unhex (wallet_lock_candidates_with_conn db' rid)) w w'
     \<and> (lock_exclusive api locked \<longrightarrow> others_locks_kept locked (migration_lock_owner api rid) w w')"
proof (cases "created_run cipher fast password salt now rid path account network plan prepared cs ss schedule policy n db")
  case (Inl e)
  then show ?thesis
    using assms(3) by (auto simp: create_run_with_staged_denominations_and_signed_children_def)
next
  case (Inr p)
  obtain db1 n1 where p: "p = (db1, n1)" by fastforce
  note made = created_run_result [OF Inr [unfolded p]]
  note held = new_outputs_held [OF assms(2) made(3,4)]
  let ?cs = "wallet_lock_candidates_with_conn db1 rid"
  note snap = stored_run_snapshot [OF made(2)]
  obtain r1 w1 where a: "apply_disposition api unhex rid False ?cs w = (r1, w1)" by fastforce
  note applied = apply_disposition_result [OF a assms(1)]
  have others: "lock_exclusive api locked \<longrightarrow> others_locks_kept locked (migration_lock_owner api rid) w w1"
    using apply_disposition_others [OF a assms(1)] by blast
  have rec: "reconcile_wallet_locks_for_run api unhex (\<lambda>_. db1) rid w = (case r1 of Inl e \<Rightarrow> Inl e | Inr _ \<Rightarrow> Inr (), w1)"
    by (simp add: reconcile_wallet_locks_for_run_def reconcile_quiet snap a split: sum.split)
  show ?thesis
  proof (cases r1)
    case done_locks: (Inr c)
    have out: "res = Inr (rid, n1) \<and> db' = db1 \<and> w' = w1"
      using assms(3) Inr p rec done_locks by (auto simp: create_run_with_staged_denominations_and_signed_children_def)
    moreover have "locks_agree api locked unhex rid False (initial_wallet_lock_candidates prepared ss) w1"
      by (rule locks_agree_subset [OF applied(3) [OF done_locks] held])
    ultimately show ?thesis using made(1,2) applied(1) others by simp
  next
    case failed: (Inl e)
    obtain r2 w2 where u: "unlock_orchard_migration_outputs api unhex rid (initial_wallet_lock_candidates prepared ss) w1 = (r2, w2)"
      by fastforce
    note unlocked = unlock_result [OF u assms(1)]
    have moved: "locks_moved locked (migration_lock_owner api rid) (candidate_outputs unhex ?cs) w w2"
      by (rule locks_moved_trans [OF applied(1) unlocked(1)]) (use held in blast)+
    have kept: "lock_exclusive api locked \<longrightarrow> others_locks_kept locked (migration_lock_owner api rid) w w2"
      using others others_locks_kept_trans [OF _ locks_released_others [OF unlocked(4)]] by blast
    show ?thesis
    proof (cases r2)
      case (Inl e2)
      then have "res = Inl (KeptForRecovery (LcLock e) e2) \<and> db' = db1 \<and> w' = w2"
        using assms(3) Inr p rec failed u
        by (auto simp: create_run_with_staged_denominations_and_signed_children_def cleanup_failed_created_run_def)
      then show ?thesis using made(2) held moved kept by simp
    next
      case released: (Inr x)
      note defs = create_run_with_staged_denominations_and_signed_children_def cleanup_failed_created_run_def
      show ?thesis
      proof (cases "delete_error w2")
        case (Some e3)
        then have "res = Inl (UnlockedButKept (LcLock e) e3) \<and> db' = db1 \<and> w' = w2"
          using assms(3) Inr p rec failed u released by (auto simp: defs)
        then show ?thesis using made(2) held moved kept unlocked(3) released Some by simp
      next
        case None
        have out: "res = Inl (LcLock e) \<and> db' = delete_run_row rid db1 \<and> w' = w2"
          using assms(3) Inr p rec failed u released None by (auto simp: defs)
        have "mdb_runs (delete_run_row rid db1) = mdb_runs db"
          using made(2) by (auto simp: stored_run_def delete_run_row_def)
        moreover have "wallet_lock_candidates_with_conn (delete_run_row rid db1) rid = ?cs"
          by (simp add: wallet_lock_candidates_with_conn_def delete_run_row_def)
        ultimately show ?thesis using out unlocked(3) released moved kept by simp
      qed
    qed
  qed
qed

text \<open>
  A failed creation deletes the row of the run only. The notes it had inserted stay, and the deletion of
  the account, which finds its rows through the runs, does not reach them.
\<close>

lemma failed_creation_leaves_notes:
  assumes "created_run cipher fast password salt now rid path account network plan prepared cs ss schedule policy n db = Inr (db1, n')"
    and "p \<in> set prepared"
  shows "(rid, on_txid_hex p, on_output_index p) \<in> note_keys (delete_account_migration_rows_with_tx a (delete_run_row rid db1))"
proof -
  note made = created_run_result [OF assms(1)]
  have "(rid, on_txid_hex p, on_output_index p) \<in> note_keys db1" using assms(2) by (auto simp: made(3))
  moreover have "\<not> list_ex (\<lambda>r. rr_run_id r = rid \<and> rr_account_uuid r = a) (mdb_runs (delete_run_row rid db1))"
    by (simp add: delete_run_row_def list_ex_iff)
  ultimately show ?thesis
    by (auto simp: note_keys_def delete_account_migration_rows_with_tx_def delete_run_row_def Let_def list_ex_iff)
qed

text \<open>A run over one prepared note, without a preparation.\<close>

definition example_blind_unhex :: "string \<Rightarrow> byte list option" where
  "example_blind_unhex s = (if to_ascii_lowercase s = ''t'' then Some example_txid_bytes else None)"

lemma lowercase_twice: "to_ascii_lowercase (to_ascii_lowercase s) = to_ascii_lowercase s"
proof -
  have "ascii_lower (ascii_lower c) = ascii_lower c" for c by (auto simp: ascii_lower_def Let_def)
  then show ?thesis by (simp add: to_ascii_lowercase_def)
qed

definition example_prepared_note :: orchard_note_ref where
  "example_prepared_note = \<lparr>on_txid_hex = ''t'', on_output_index = 0, on_value_zatoshi = 100015000,
     on_note_version = 2, on_nullifier_hex = None\<rparr>"

definition example_one_part_plan :: denomination_plan where
  "example_one_part_plan = \<lparr>dp_migration_outputs = [100000000], dp_orchard_change = None, dp_split_fee_zatoshi = 0,
     dp_migration_fee_zatoshi = 15000, dp_total_input_zatoshi = 100015000, dp_total_migratable_zatoshi = 100000000\<rparr>"

definition example_empty_db :: migration_db where
  "example_empty_db = example_waiting_db\<lparr>mdb_runs := []\<rparr>"

definition example_free_table :: lock_table where
  "example_free_table = \<lparr>lt_height = Some 100, lt_outputs = [example_held], lt_locks = (\<lambda>_. None)\<rparr>"

theorem creation_all_or_recoverable_witness:
  "\<exists>db' w'. create_run_with_staged_denominations_and_signed_children (\<lambda>_. None) plain_cipher table_api example_blind_unhex False [1]
       ''salt'' 5 ''new'' ''path'' ''account'' Test example_one_part_plan [example_prepared_note] [] [] None
       Immediate 0 (example_empty_db, example_free_table) = (Inr (''new'', 0), db', w')
     \<and> stored_run ''new'' ''account'' Test PHASE_READY_TO_MIGRATE [100000000] example_empty_db db'
     \<and> locks_agree table_api lt_locks example_blind_unhex ''new'' False [(''t'', 0)] w'
     \<and> others_locks_kept lt_locks (migration_lock_owner table_api ''new'') example_free_table w'"
proof -
  have blind: "case_blind example_blind_unhex" by (simp add: case_blind_def example_blind_unhex_def lowercase_twice)
  have salt: "decode_salt plain_cipher ''salt'' = Some []" by (simp add: plain_cipher_def)
  obtain db1 where made: "created_run plain_cipher False [1] ''salt'' 5 ''new'' ''path'' ''account'' Test example_one_part_plan
      [example_prepared_note] [] [] None Immediate 0 example_empty_db = Inr (db1, 0)"
    by (simp add: created_run_def find_active_run_def account_runs_def newest_def example_empty_db_def approve_schedule_def
        insert_run_def insert_run_contents_def insert_denomination_stages_with_tx_def validate_stage_batch_def salt
        insert_signed_child_pczts_with_tx_def example_waiting_db_def insert_prepared_notes_with_tx_def replace_note_row_def
        new_run_row_def prepared_note_row_def example_prepared_note_def)
  note r = created_run_result [OF made]
  have cs: "wallet_lock_candidates_with_conn db1 ''new'' = [(''t'', 0)]"
    using made by (auto simp: created_run_def find_active_run_def account_runs_def newest_def example_empty_db_def approve_schedule_def
        insert_run_def insert_run_contents_def insert_denomination_stages_with_tx_def validate_stage_batch_def salt
        insert_signed_child_pczts_with_tx_def example_waiting_db_def insert_prepared_notes_with_tx_def replace_note_row_def
        new_run_row_def prepared_note_row_def example_prepared_note_def wallet_lock_candidates_with_conn_def)
  have ref: "orchard_output_ref example_blind_unhex (''t'', 0) = Inr example_held"
    by (simp add: orchard_output_ref_def example_blind_unhex_def ascii_lower_def example_txid_bytes_def example_held_def)
  obtain w1 where ens: "apply_disposition table_api example_blind_unhex ''new'' False [(''t'', 0)] example_free_table = (Inr True, w1)"
    by (simp add: apply_disposition_def ensure_orchard_migration_locks_def ref table_api_def example_free_table_def map_error_def)
  have run: "create_run_with_staged_denominations_and_signed_children (\<lambda>_. None) plain_cipher table_api example_blind_unhex False [1]
       ''salt'' 5 ''new'' ''path'' ''account'' Test example_one_part_plan [example_prepared_note] [] [] None
       Immediate 0 (example_empty_db, example_free_table) = (Inr (''new'', 0), db1, w1)"
    by (simp add: create_run_with_staged_denominations_and_signed_children_def made reconcile_wallet_locks_for_run_def
        reconcile_quiet stored_run_snapshot [OF r(2)] cs ens)
  have new: "initial_wallet_lock_candidates [example_prepared_note] [] = [(''t'', 0)]"
    by (simp add: initial_wallet_lock_candidates_def example_prepared_note_def)
  show ?thesis
    using creation_all_or_recoverable [OF table_api_laws blind run] run table_api_exclusive
    by (simp add: new initial_phase_def example_one_part_plan_def)
qed

end
