(* ===== verification/Run_Queries.thy ===== *)
theory Run_Queries
  imports Run_Lifecycle Pending_Receipt Pending_Rebuild
begin

text \<open>
  The questions that the senders ask about a run (\<open>migration.rs\<close>): its signed children, its totals, the
  transactions that a stop has to account for, the inputs that were spent outside the run, and the
  batch that is handed to the system's background sender.
\<close>

datatype query_error =
  QuRun run_error | QuBc broadcast_error | QuSigs compact_sig_error | QuSchedule schedule_error | QuHeight height_error
| NeedsFreshSignatures string | SignedExpiryNotCanonical string | DuplicateSignedChild u32
| RunDisappeared | InvalidAttemptState nat | StopRunNotFound string | StopWrongAccount | StopTerminal string
| NoActiveRun | RecoveryRunChanged string | NothingUnconfirmed
| PendingValueOverflow | PendingFeeOverflow | BroadcastCountOverflow

section \<open>Small queries\<close>

text \<open>The first argument is the error of the database, when it cannot be opened or read.\<close>

definition prepared_notes_for_run :: "string option \<Rightarrow> migration_db \<Rightarrow> string \<Rightarrow> string + orchard_note_ref list" where
  "prepared_notes_for_run db_error db run_id =
     (case db_error of Some e \<Rightarrow> Inl e | None \<Rightarrow> Inr
       (map (\<lambda>n. \<lparr>on_txid_hex = nr_txid_hex n, on_output_index = nr_output_index n,
               on_value_zatoshi = nr_value_zatoshi n, on_note_version = nr_note_version n,
               on_nullifier_hex = nr_nullifier_hex n\<rparr>)
       (sort_key (\<lambda>n. (- int (nr_value_zatoshi n), nr_txid_hex n, nr_output_index n))
         (filter (\<lambda>n. nr_run_id n = run_id) (mdb_notes db)))))"

definition set_run_approved_schedule ::
    "migration_db \<Rightarrow> string \<Rightarrow> wallet_network \<Rightarrow> schedule_entry list \<Rightarrow> u64 list \<Rightarrow> query_error + migration_db" where
  "set_run_approved_schedule db run_id network schedule target_values =
     rbind (map_error QuRun (timing_policy_for_run_with_conn db run_id)) (\<lambda>timing_policy.
     rbind (map_error QuSchedule (validate_schedule_with_policy schedule target_values network timing_policy)) (\<lambda>_.
     case sql_update_runs (\<lambda>r. rr_run_id r = run_id \<and> rr_network r = network_name network)
            (\<lambda>r. r\<lparr>rr_schedule := schedule\<rparr>) db of
       (updated, db') \<Rightarrow> if updated \<noteq> 1 then Inl RunDisappeared else Inr db'))"

definition approved_schedule_for_run :: "migration_db \<Rightarrow> string \<Rightarrow> run_error + schedule_entry list" where
  "approved_schedule_for_run db run_id = rbind (run_of db run_id) (\<lambda>r. Inr (rr_schedule r))"

definition signed_schedule_origin_for_run :: "migration_db \<Rightarrow> string \<Rightarrow> run_error + u32 option" where
  "signed_schedule_origin_for_run db run_id = rbind (run_of db run_id) (\<lambda>r. Inr (rr_signed_schedule_origin_height r))"

definition proof_retry_height :: "migration_db \<Rightarrow> string \<Rightarrow> run_error + u32 option" where
  "proof_retry_height db run_id = rbind (run_of db run_id) (\<lambda>r. Inr (rr_proof_retry_height r))"

definition scheduled_pending_count :: "migration_db \<Rightarrow> string \<Rightarrow> run_error + u32" where
  "scheduled_pending_count db run_id = count_pending_with_status db run_id ''scheduled''"

definition signed_child_pczt_count :: "migration_db \<Rightarrow> string \<Rightarrow> run_error + u32" where
  "signed_child_pczt_count db run_id = unpromoted_signed_child_pczt_count_with_conn db run_id"

definition migration_part_assignment_complete :: "migration_db \<Rightarrow> string \<Rightarrow> run_error + bool" where
  "migration_part_assignment_complete db run_id = migration_part_assignment_complete_with_conn db run_id"

definition pending_migration_note_outpoints :: "migration_db \<Rightarrow> string \<Rightarrow> (string \<times> u32) set" where
  "pending_migration_note_outpoints db run_id = pending_migration_note_outpoints_with_conn db run_id"

section \<open>Signed children\<close>

text \<open>The children that have no transaction yet, in the order of their parts.\<close>

definition unpromoted_children :: "migration_db \<Rightarrow> string \<Rightarrow> child_row list" where
  "unpromoted_children db run_id =
     sort_key (\<lambda>c. (sc_child_index c, sc_message_id c))
       (filter (\<lambda>c. sc_run_id c = run_id
          \<and> \<not> list_ex (\<lambda>p. pt_run_id p = run_id \<and> pt_part_index p = Some (sc_child_index c)) (mdb_pending db))
         (mdb_children db))"

record signed_migration_pczt =
  sm_child_index :: u32
  sm_base_pczt :: "byte list"
  sm_sigs :: "spend_auth_signature list"
  sm_target_height :: u32
  sm_anchor_boundary_height :: "u32 option"
  sm_expiry_height :: u32
  sm_scheduled_height :: u32
  sm_value_zatoshi :: u64
  sm_fee_zatoshi :: u64
  sm_selected_note :: orchard_note_ref
  sm_metadata :: tx_metadata

definition signed_child_of_row ::
    "'n payload_cipher \<Rightarrow> byte list \<Rightarrow> byte list \<Rightarrow> child_row \<Rightarrow> query_error + signed_migration_pczt" where
  "signed_child_of_row cipher password salt c =
     rbind (ok_or (NeedsFreshSignatures (sc_message_id c)) (sc_scheduled_height c)) (\<lambda>scheduled_height.
     rbind (map_error QuHeight (zip318_canonical_migration_expiry_height scheduled_height)) (\<lambda>expiry.
     if sc_expiry_height c \<noteq> expiry then Inl (SignedExpiryNotCanonical (sc_message_id c))
     else
       rbind (ok_or (QuBc BcDecrypt) (decrypt_payload cipher (sc_encrypted_base_pczt c) password salt)) (\<lambda>base_pczt.
       rbind (ok_or (QuBc BcDecrypt) (decrypt_payload cipher (sc_encrypted_compact_sigs c) password salt)) (\<lambda>blob.
       rbind (map_error QuSigs (decode_compact_action_sigs blob)) (\<lambda>sigs.
       Inr \<lparr>sm_child_index = sc_child_index c, sm_base_pczt = base_pczt, sm_sigs = sigs,
            sm_target_height = sc_target_height c, sm_anchor_boundary_height = sc_anchor_boundary_height c,
            sm_expiry_height = sc_expiry_height c, sm_scheduled_height = scheduled_height,
            sm_value_zatoshi = sc_value_zatoshi c, sm_fee_zatoshi = sc_fee_zatoshi c,
            sm_selected_note = sc_selected_note c, sm_metadata = sc_metadata c\<rparr>)))))"

definition signed_child_pczts_for_run ::
    "'n payload_cipher \<Rightarrow> migration_db \<Rightarrow> string \<Rightarrow> byte list \<Rightarrow> string \<Rightarrow> query_error + signed_migration_pczt list" where
  "signed_child_pczts_for_run cipher db run_id password salt_base64 =
     rbind (ok_or (QuBc BcSalt) (decode_salt cipher salt_base64)) (\<lambda>salt.
     collect_results (signed_child_of_row cipher password salt) (unpromoted_children db run_id))"

definition signed_child_proof_candidates_for_run ::
    "migration_db \<Rightarrow> string \<Rightarrow> (orchard_note_ref \<times> u32 option) list" where
  "signed_child_proof_candidates_for_run db run_id =
     map (\<lambda>c. (sc_selected_note c, sc_anchor_boundary_height c)) (unpromoted_children db run_id)"

fun index_children :: "child_row list \<Rightarrow> (u32 \<rightharpoonup> string) \<Rightarrow> query_error + (u32 \<rightharpoonup> string)" where
  "index_children [] m = Inr m"
| "index_children (c # cs) m =
     (if m (sc_child_index c) \<noteq> None then Inl (DuplicateSignedChild (sc_child_index c))
      else index_children cs (m(sc_child_index c \<mapsto> sc_message_id c)))"

definition signed_child_message_ids_by_part :: "migration_db \<Rightarrow> string \<Rightarrow> query_error + (u32 \<rightharpoonup> string)" where
  "signed_child_message_ids_by_part db run_id =
     index_children
       (sort_key (\<lambda>c. (sc_child_index c, sc_message_id c)) (filter (\<lambda>c. sc_run_id c = run_id) (mdb_children db)))
       Map.empty"

section \<open>Totals\<close>

record pending_totals =
  to_txids :: "string list"
  to_value_zatoshi :: u64
  to_fee_zatoshi :: u64
  to_total_count :: u32
  to_broadcasted_count :: u32

definition add_to_totals :: "pending_totals \<Rightarrow> pending_row \<Rightarrow> query_error + pending_totals" where
  "add_to_totals t p =
     rbind (ok_or PendingValueOverflow (checked_add 64 (to_value_zatoshi t) (pt_value_zatoshi p))) (\<lambda>value.
     rbind (ok_or PendingFeeOverflow (checked_add 64 (to_fee_zatoshi t) (pt_fee_zatoshi p))) (\<lambda>fee.
     rbind (if pt_status p \<in> {''broadcasted'', ''confirmed''}
            then ok_or BroadcastCountOverflow (checked_add 32 (to_broadcasted_count t) 1)
            else Inr (to_broadcasted_count t)) (\<lambda>broadcasted_count.
     Inr (t\<lparr>to_txids := to_txids t @ [pt_txid_hex p], to_value_zatoshi := value, to_fee_zatoshi := fee,
            to_broadcasted_count := broadcasted_count\<rparr>))))"

text \<open>The number of rows is cast to \<open>u32\<close>.\<close>

definition pending_totals_for_run :: "migration_db \<Rightarrow> string \<Rightarrow> query_error + pending_totals" where
  "pending_totals_for_run db run_id =
     rbind (try_fold add_to_totals
         \<lparr>to_txids = [], to_value_zatoshi = 0, to_fee_zatoshi = 0, to_total_count = 0, to_broadcasted_count = 0\<rparr>
         (sort_key (\<lambda>p. (pt_scheduled_at_ms p, pt_txid_hex p)) (pending_rows db run_id))) (\<lambda>t.
     Inr (t\<lparr>to_total_count := length (to_txids t) mod 2 ^ 32\<rparr>))"

section \<open>What a stop and a recovery have to account for\<close>

datatype attempt_state = NotAttempted | Attempted | UnknownLegacy

definition attempt_state_from_db :: "nat \<Rightarrow> query_error + attempt_state" where
  "attempt_state_from_db value =
     (if value = 0 then Inr NotAttempted else if value = 1 then Inr Attempted
      else if value = 2 then Inr UnknownLegacy else Inl (InvalidAttemptState value))"

datatype stop_candidate_kind = MigrationTransaction | DenominationStage

record stop_candidate =
  st_kind :: stop_candidate_kind
  st_txid_hex :: string
  st_broadcast_height :: u32
  st_expiry_height :: u32
  st_attempt_state :: attempt_state

text \<open>A transaction that was sent and is stored needs nothing more.\<close>

fun pending_stop_candidates ::
    "(string \<Rightarrow> run_error + byte list option) \<Rightarrow> pending_row list \<Rightarrow> query_error + stop_candidate list" where
  "pending_stop_candidates raw [] = Inr []"
| "pending_stop_candidates raw (p # ps) =
     rbind (if pt_status p = ''broadcasted''
            then rbind (map_error QuRun (raw (pt_txid_hex p))) (\<lambda>stored.
                 Inr (if stored \<noteq> None then None else Some Attempted))
            else rbind (attempt_state_from_db (pt_broadcast_attempted p)) (\<lambda>a. Inr (Some a))) (\<lambda>state.
     rbind (pending_stop_candidates raw ps) (\<lambda>rest.
     Inr (case state of
            None \<Rightarrow> rest
          | Some a \<Rightarrow>
              \<lparr>st_kind = MigrationTransaction, st_txid_hex = pt_txid_hex p,
               st_broadcast_height = pt_scheduled_height p, st_expiry_height = pt_expiry_height p,
               st_attempt_state = a\<rparr> # rest)))"

definition stage_stop_candidate :: "stage_row \<Rightarrow> query_error + stop_candidate" where
  "stage_stop_candidate s =
     rbind (attempt_state_from_db (sr_broadcast_attempted s)) (\<lambda>a.
     Inr \<lparr>st_kind = DenominationStage, st_txid_hex = sr_expected_txid_hex s,
          st_broadcast_height = max (sr_scheduled_height s) (unwrap_or 0 (sr_broadcast_not_before_height s)),
          st_expiry_height = sr_expiry_height s, st_attempt_state = a\<rparr>)"

text \<open>The rows of the two queries; an absent part sorts first.\<close>

definition sendable_pending :: "migration_db \<Rightarrow> string \<Rightarrow> pending_row list" where
  "sendable_pending db run_id =
     sort_key (\<lambda>p. (pt_part_index p, pt_scheduled_height p, pt_txid_hex p))
       (filter (\<lambda>p. pt_status p \<in> {''scheduled'', ''broadcasted''}) (pending_rows db run_id))"

definition pending_stages :: "migration_db \<Rightarrow> string \<Rightarrow> stage_row list" where
  "pending_stages db run_id =
     sort_key sr_stage_index
       (filter (\<lambda>s. sr_run_id s = run_id \<and> sr_status s = ''pending'') (db_stages (mdb_stages db)))"

definition scheduled_migration_stop_candidates ::
    "(string \<Rightarrow> byte list option) \<Rightarrow> wallet_chain \<Rightarrow> migration_db \<Rightarrow> string \<Rightarrow> wallet_network \<Rightarrow> string \<Rightarrow>
     query_error + stop_candidate list" where
  "scheduled_migration_stop_candidates unhex chain db account_uuid network expected_run_id =
     rbind (ok_or (StopRunNotFound expected_run_id)
         (find (\<lambda>r. rr_run_id r = expected_run_id) (mdb_runs db))) (\<lambda>r.
     if rr_account_uuid r \<noteq> account_uuid \<or> rr_network r \<noteq> network_name network then Inl StopWrongAccount
     else if rr_phase r = PHASE_ABANDONED then Inr []
     else if rr_phase r \<in> {PHASE_COMPLETE, PHASE_FAILED_TERMINAL} then Inl (StopTerminal (rr_phase r))
     else
       rbind (pending_stop_candidates (local_transaction_raw unhex chain) (sendable_pending db expected_run_id)) (\<lambda>ps.
       rbind (collect_results stage_stop_candidate (pending_stages db expected_run_id)) (\<lambda>ss.
       Inr (ps @ ss))))"

record recovery_candidate =
  rc_txid_hex :: string
  rc_status :: string
  rc_scheduled_height :: u32

definition unbroadcast_migration_recovery_candidates ::
    "migration_db \<Rightarrow> string \<Rightarrow> wallet_network \<Rightarrow> string \<Rightarrow> query_error + recovery_candidate list" where
  "unbroadcast_migration_recovery_candidates db account_uuid network expected_run_id =
     rbind (ok_or NoActiveRun (find_active_run db account_uuid network)) (\<lambda>run.
     if ar_run_id run \<noteq> expected_run_id then Inl (RecoveryRunChanged (ar_run_id run))
     else
       let candidates = map (\<lambda>p. \<lparr>rc_txid_hex = pt_txid_hex p, rc_status = pt_status p,
              rc_scheduled_height = pt_scheduled_height p\<rparr>) (sendable_pending db expected_run_id)
       in if candidates = [] then Inl NothingUnconfirmed else Inr candidates)"

definition reconcile_run_pending_confirmations ::
    "u32 \<Rightarrow> (string \<Rightarrow> byte list option) \<Rightarrow> wallet_chain \<Rightarrow> int \<Rightarrow> int \<Rightarrow> migration_db \<Rightarrow> string \<Rightarrow>
     (run_error + unit) \<times> migration_db" where
  "reconcile_run_pending_confirmations trusted unhex chain now done_at db run_id =
     reconcile_run_confirmations trusted unhex chain now done_at db run_id"

section \<open>Inputs spent outside the run\<close>

text \<open>The wallet's own tables of notes and of their spends.\<close>

record wallet_note =
  wn_id :: nat
  wn_transaction_id :: nat
  wn_action_index :: u32
  wn_value :: u64

record wallet_spends =
  ws_notes :: "wallet_note list option"
  ws_spends :: "(nat \<times> nat) list option"

definition mined_spend_txids ::
    "wallet_note list \<Rightarrow> (nat \<times> nat) list \<Rightarrow> wallet_tx list \<Rightarrow> byte list \<Rightarrow> u32 \<Rightarrow> u64 \<Rightarrow> byte list list" where
  "mined_spend_txids ns spends txs source_txid output_index value =
     map wt_txid (concat (map (\<lambda>n. concat (map (\<lambda>source.
       if wt_id source = wn_transaction_id n \<and> wt_txid source = source_txid
          \<and> wn_action_index n = output_index \<and> wn_value n = value
       then concat (map (\<lambda>(note_id, spend_tx).
              if note_id = wn_id n then filter (\<lambda>t. wt_id t = spend_tx \<and> wt_mined_height t \<noteq> None) txs else []) spends)
       else []) txs)) ns))"

definition input_spent_elsewhere ::
    "(string \<Rightarrow> byte list option) \<Rightarrow> wallet_note list \<Rightarrow> (nat \<times> nat) list \<Rightarrow> wallet_tx list \<Rightarrow> pending_row \<Rightarrow>
     run_error + bool" where
  "input_spent_elsewhere unhex ns spends txs p =
     rbind (txid_blob_variants unhex (pt_txid_hex p)) (\<lambda>expected.
     rbind (txid_blob_variants unhex (pt_selected_note_txid p)) (\<lambda>sources.
     Inr (list_ex (\<lambda>source. list_ex (\<lambda>spend. spend \<notin> set expected)
            (mined_spend_txids ns spends txs source (pt_selected_note_output_index p) (pt_selected_note_value p))) sources)))"

fun spent_inputs ::
    "(string \<Rightarrow> byte list option) \<Rightarrow> wallet_note list \<Rightarrow> (nat \<times> nat) list \<Rightarrow> wallet_tx list \<Rightarrow> pending_row list \<Rightarrow>
     run_error + orchard_note_ref list" where
  "spent_inputs unhex ns spends txs [] = Inr []"
| "spent_inputs unhex ns spends txs (p # ps) =
     rbind (input_spent_elsewhere unhex ns spends txs p) (\<lambda>spent.
     rbind (spent_inputs unhex ns spends txs ps) (\<lambda>rest.
     Inr (if spent then md_selected_note (pt_metadata p) # rest else rest)))"

definition scheduled_inputs_spent_by_mined_transactions ::
    "(string \<Rightarrow> byte list option) \<Rightarrow> wallet_chain \<Rightarrow> wallet_spends \<Rightarrow> migration_db \<Rightarrow> string \<Rightarrow>
     run_error + orchard_note_ref list" where
  "scheduled_inputs_spent_by_mined_transactions unhex chain spends db run_id =
     (case (wc_transactions chain, ws_notes spends, ws_spends spends) of
        (Some txs, Some ns, Some ss) \<Rightarrow>
          spent_inputs unhex ns ss txs
            (filter (\<lambda>p. pt_status p \<in> {''scheduled'', ''broadcasted'', ''needs_resign''}) (pending_rows db run_id))
      | _ \<Rightarrow> Inr [])"

section \<open>The batch for the background sender\<close>

record outbox_batch =
  ob_run_id :: string
  ob_timing_mean_blocks :: u32
  ob_timing_max_blocks :: u32
  ob_next_proof_height :: "u32 option"
  ob_items :: "outbox_item list"

definition outbox_next_proof_height ::
    "u32 \<Rightarrow> (string \<Rightarrow> run_error + chain_identity option) \<Rightarrow> migration_db \<Rightarrow> string \<Rightarrow> wallet_network \<Rightarrow>
     migration_timing_policy \<Rightarrow> run_error + u32 option" where
  "outbox_next_proof_height trusted identity db run_id network timing_policy =
     rbind (unpromoted_signed_child_pczt_count_with_conn db run_id) (\<lambda>unmaterialized_count.
     if unmaterialized_count = 0 then Inr None
     else
       rbind (run_of db run_id) (\<lambda>r.
       rbind (prepared_notes_proof_ready_height_with_conn trusted identity db run_id network timing_policy) (\<lambda>ready.
       Inr (map_option (\<lambda>ready_height. max (unwrap_or ready_height (rr_proof_retry_height r)) ready_height) ready))))"

text \<open>
  The call first marks the due parts that left their expiry window, when the height of the chain is known;
  that part is committed also when the rest fails.
\<close>

definition export_scheduled_migration_outbox ::
    "u32 \<Rightarrow> (string \<Rightarrow> byte list option) \<Rightarrow> wallet_chain \<Rightarrow> 'n payload_cipher \<Rightarrow> u32 option \<Rightarrow> int \<Rightarrow> int \<Rightarrow> int \<Rightarrow>
     migration_db \<Rightarrow> string \<Rightarrow> wallet_network \<Rightarrow> byte list \<Rightarrow> string \<Rightarrow>
     (query_error + outbox_batch option) \<times> migration_db" where
  "export_scheduled_migration_outbox trusted unhex chain cipher chain_tip_height now done_at later db account_uuid
       network password salt_base64 =
     (let (marked, db1) =
        (case (chain_tip_height, find_active_run db account_uuid network) of
           (Some tip, Some run) \<Rightarrow>
             mark_due_parts_with_noncanonical_broadcast_height_for_resign trusted unhex chain now done_at later db
               (ar_run_id run) tip
         | _ \<Rightarrow> (Inr 0, db))
      in
      (rbind (map_error QuBc marked) (\<lambda>_.
       case find_active_run db1 account_uuid network of
         None \<Rightarrow> Inr None
       | Some run \<Rightarrow>
           rbind (map_error QuRun (timing_policy_for_run_with_conn db1 (ar_run_id run))) (\<lambda>timing_policy.
           let (mean_blocks, max_blocks) =
                 schedule_parameters_with_policy_for_part_count network timing_policy
                   (length (ar_target_values_zatoshi run)) in
           rbind (map_error QuRun (outbox_next_proof_height trusted (local_denomination_chain_identity unhex chain) db1
               (ar_run_id run) network timing_policy)) (\<lambda>next_proof_height.
           rbind (ok_or (QuBc BcSalt) (decode_salt cipher salt_base64)) (\<lambda>salt.
           rbind (map_error QuBc (outbox_items cipher password salt db1 (ar_run_id run))) (\<lambda>items.
           Inr (if items = [] \<and> next_proof_height = None then None
                else Some \<lparr>ob_run_id = ar_run_id run, ob_timing_mean_blocks = mean_blocks,
                   ob_timing_max_blocks = max_blocks, ob_next_proof_height = next_proof_height,
                   ob_items = items\<rparr>)))))), db1))"

end
