(* ===== verification/Transfer_Driver.thy ===== *)
theory Transfer_Driver
  imports Run_Queries
begin

text \<open>
  The sender of the scheduled transfers (\<open>send.rs\<close>): one due transaction is marked as attempted, handed to
  the network, stored in the wallet and recorded in the run, and the overdue peers are redrawn.

  A sender works on the migration tables and on the world outside them: the network, the wallet library
  with its store of transactions and its locks, the clock and the generator. The world is a parameter; a
  sender keeps a record of every transaction that it hands to the network.
\<close>

section \<open>The world\<close>

text \<open>
  The calls of the database whose failure the code treats differently from the failures around it: they
  may return an error of their own. The other calls are taken to be answered.
\<close>

datatype db_call = ReadActiveRun | ReadPreparedNotes | DeleteCreatedRun

record ('w, 'g, 'n) world =
  wo_trusted :: u32
  wo_flavor :: build_flavor
  wo_unhex :: "string \<Rightarrow> byte list option"
  wo_cipher :: "'n payload_cipher"
  wo_sampler :: "'g sampler"
  wo_locks :: "'w lock_api"
  wo_chain :: "'w \<Rightarrow> wallet_chain"
  wo_spends :: "'w \<Rightarrow> wallet_spends"
  wo_chain_tip :: "'w \<Rightarrow> unit + u32"
  wo_scanned :: "'w \<Rightarrow> unit + u32"
  wo_now :: "'w \<Rightarrow> int"
  wo_random :: "'w \<Rightarrow> 'g"
  wo_nonce :: "'w \<Rightarrow> 'n"
  wo_cancelled :: "'w \<Rightarrow> bool"
  wo_canonical_fee :: "wallet_network \<Rightarrow> u32 \<Rightarrow> unit + u64"
  wo_send :: "byte list \<Rightarrow> 'w \<Rightarrow> (string + send_response) \<times> 'w"
  wo_store :: "byte list \<Rightarrow> 'w \<Rightarrow> (string + unit) \<times> 'w"
  wo_db_error :: "db_call \<Rightarrow> 'w \<Rightarrow> string option"

record 'w sender =
  se_db :: migration_db
  se_world :: 'w
  se_sent :: "(string \<times> byte list) list"

datatype driver_error =
  DrRun run_error | DrBc broadcast_error | DrLife life_error | DrQuery query_error | DrStage stage_error
| DrAttempt attempt_error | DrProgress | DrTargetOverflow | DrFee | DrStillMissing nat
| DrCountOverflow | DrLock lock_error | DrNetwork string | DrStore string

text \<open>A fallible reading of the state, and a step on the tables.\<close>

definition with_db :: "migration_db \<Rightarrow> 'w sender \<Rightarrow> 'w sender" where
  "with_db db s = s\<lparr>se_db := db\<rparr>"

section \<open>Policies and results\<close>

record broadcast_policy =
  bp_max_per_step :: "usize option"
  bp_max_proofs_per_step :: "usize option"
  bp_defer_broadcast_after_proving :: bool
  bp_reschedule_wallet_overdue :: bool
  bp_wallet_overdue_redraw_floor :: "u32 option"
  bp_cancellable :: bool

definition FOREGROUND :: broadcast_policy where
  "FOREGROUND = \<lparr>bp_max_per_step = None, bp_max_proofs_per_step = None, bp_defer_broadcast_after_proving = False,
     bp_reschedule_wallet_overdue = False, bp_wallet_overdue_redraw_floor = None, bp_cancellable = False\<rparr>"

definition ONE_FOREGROUND :: broadcast_policy where
  "ONE_FOREGROUND = \<lparr>bp_max_per_step = Some 1, bp_max_proofs_per_step = None, bp_defer_broadcast_after_proving = False,
     bp_reschedule_wallet_overdue = True, bp_wallet_overdue_redraw_floor = None, bp_cancellable = False\<rparr>"

definition with_wallet_overdue_redraw_floor :: "u32 option \<Rightarrow> broadcast_policy \<Rightarrow> broadcast_policy" where
  "with_wallet_overdue_redraw_floor tip p = p\<lparr>bp_wallet_overdue_redraw_floor := tip\<rparr>"

definition background_preparation :: broadcast_policy where
  "background_preparation = \<lparr>bp_max_per_step = None, bp_max_proofs_per_step = None,
     bp_defer_broadcast_after_proving = False, bp_reschedule_wallet_overdue = False,
     bp_wallet_overdue_redraw_floor = None, bp_cancellable = True\<rparr>"

definition is_cancelled :: "('w, 'g, 'n) world \<Rightarrow> broadcast_policy \<Rightarrow> 'w sender \<Rightarrow> bool" where
  "is_cancelled W p s \<longleftrightarrow> bp_cancellable p \<and> wo_cancelled W (se_world s)"

definition step_limit :: "broadcast_policy \<Rightarrow> usize \<Rightarrow> usize" where
  "step_limit p n = min (unwrap_or n (bp_max_per_step p)) n"

definition proof_limit :: "broadcast_policy \<Rightarrow> usize \<Rightarrow> usize" where
  "proof_limit p n = min (unwrap_or n (bp_max_proofs_per_step p)) n"

definition should_defer_broadcast :: "broadcast_policy \<Rightarrow> usize \<Rightarrow> bool" where
  "should_defer_broadcast p proofs_created \<longleftrightarrow> bp_defer_broadcast_after_proving p \<and> proofs_created > 0"

text \<open>
  A result carries its message as text; where the source formats an internal error into it, the message
  carries that error.
\<close>

datatype result_message =
  NoMessage | Message string | AcceptedButFailed "string list" driver_error
| RedrawFailed string driver_error | NetworkMessage string string

record ironwood_result =
  im_txids :: "string list"
  im_status :: string
  im_broadcasted_count :: u32
  im_total_count :: u32
  im_message :: result_message
  im_fee_zatoshi :: u64
  im_migrated_zatoshi :: u64

record broadcast_advance =
  ba_result :: ironwood_result
  ba_accepted_txids :: "string list"

definition without_acceptance :: "ironwood_result \<Rightarrow> broadcast_advance" where
  "without_acceptance r = \<lparr>ba_result = r, ba_accepted_txids = []\<rparr>"

definition one_due_migration_result :: "broadcast_advance \<Rightarrow> ironwood_result" where
  "one_due_migration_result a = (ba_result a)\<lparr>im_txids := ba_accepted_txids a\<rparr>"

definition migration_result_from_pending_totals ::
    "pending_totals \<Rightarrow> string \<Rightarrow> result_message \<Rightarrow> u32 \<Rightarrow> u64 \<Rightarrow> ironwood_result" where
  "migration_result_from_pending_totals t status message fallback_total_count fallback_migrated_zatoshi =
     \<lparr>im_txids = to_txids t, im_status = status, im_broadcasted_count = to_broadcasted_count t,
      im_total_count = max (to_total_count t) fallback_total_count, im_message = message,
      im_fee_zatoshi = to_fee_zatoshi t,
      im_migrated_zatoshi = max (to_value_zatoshi t) fallback_migrated_zatoshi\<rparr>"

definition saturating_add32 :: "u32 \<Rightarrow> nat \<Rightarrow> u32" where
  "saturating_add32 a b = min (a + b) (2 ^ 32 - 1)"

definition accepted_migration_processing_failure_result ::
    "pending_totals \<Rightarrow> string list \<Rightarrow> driver_error \<Rightarrow> u32 \<Rightarrow> u64 \<Rightarrow> broadcast_advance" where
  "accepted_migration_processing_failure_result t accepted_txids error fallback_total_count fallback_migrated_zatoshi =
     \<lparr>ba_result =
        \<lparr>im_txids = to_txids t, im_status = PHASE_BROADCAST_SCHEDULED,
         im_broadcasted_count = saturating_add32 (to_broadcasted_count t) (length accepted_txids),
         im_total_count = max (to_total_count t) fallback_total_count,
         im_message = AcceptedButFailed accepted_txids error, im_fee_zatoshi = to_fee_zatoshi t,
         im_migrated_zatoshi = max (to_value_zatoshi t) fallback_migrated_zatoshi\<rparr>,
      ba_accepted_txids = accepted_txids\<rparr>"

section \<open>Messages that are stored\<close>

definition storage_retry_message :: "string \<Rightarrow> string \<Rightarrow> string \<Rightarrow> string" where
  "storage_retry_message tx_label txid_hex error =
     tx_label @ '' '' @ txid_hex @ '' was accepted by lightwalletd, but local wallet storage failed: '' @ error
       @ ''. Vizor will retry until local state is recorded.''"

definition rejected_message :: "string \<Rightarrow> string \<Rightarrow> string" where
  "rejected_message txid_hex error =
     ''Migration transaction '' @ txid_hex @ '' was rejected by the network. Review and approve a fresh schedule ''
       @ ''for the remaining Orchard balance. Error: '' @ error"

definition broadcast_failed_message :: "string \<Rightarrow> string \<Rightarrow> string" where
  "broadcast_failed_message txid_hex error = ''Migration broadcast failed for '' @ txid_hex @ ''. Error: '' @ error"

definition stopped_before_next_message :: string where
  "stopped_before_next_message = ''Background migration stopped before the next broadcast.''"

section \<open>The network\<close>

text \<open>One submission over an isolated connection, and what the answer means.\<close>

definition broadcast_raw_transaction_isolated ::
    "('w, 'g, 'n) world \<Rightarrow> string \<Rightarrow> byte list \<Rightarrow> 'w sender \<Rightarrow> (string + unit) \<times> 'w sender" where
  "broadcast_raw_transaction_isolated W txid raw_tx s =
     (case wo_send W raw_tx (se_world s) of
        (answer, w) \<Rightarrow>
          ((case answer of
              Inl e \<Rightarrow> Inl e
            | Inr resp \<Rightarrow> (case send_response_rejection_error resp of Some e \<Rightarrow> Inl e | None \<Rightarrow> Inr ())),
           s\<lparr>se_world := w, se_sent := se_sent s @ [(txid, raw_tx)]\<rparr>))"

definition broadcast_failure_requires_rebuild :: "string \<Rightarrow> bool" where
  "broadcast_failure_requires_rebuild error \<longleftrightarrow> prefix ''Broadcast rejected:'' error"

section \<open>Bookkeeping of a transaction the network accepted\<close>

definition run_totals :: "'w sender \<Rightarrow> string \<Rightarrow> driver_error + pending_totals" where
  "run_totals s run_id = map_error DrQuery (pending_totals_for_run (se_db s) run_id)"

definition stored_phase :: "'w sender \<Rightarrow> string \<Rightarrow> driver_error + string" where
  "stored_phase s run_id = map_error DrRun (run_phase (se_db s) run_id)"

definition mark_phase ::
    "('w, 'g, 'n) world \<Rightarrow> string \<Rightarrow> string \<Rightarrow> string option \<Rightarrow> 'w sender \<Rightarrow> 'w sender" where
  "mark_phase W run_id phase message s =
     with_db (mark_run_phase (wo_now W (se_world s)) run_id phase message (se_db s)) s"

definition mark_broadcasted ::
    "('w, 'g, 'n) world \<Rightarrow> string \<Rightarrow> string \<Rightarrow> 'w sender \<Rightarrow> (driver_error + unit) \<times> 'w sender" where
  "mark_broadcasted W run_id txid s =
     (case mark_pending_broadcasted (wo_now W (se_world s)) (se_db s) run_id txid of
        Inl e \<Rightarrow> (Inl (DrRun e), s)
      | Inr db \<Rightarrow> (Inr (), with_db db s))"

definition store_transaction ::
    "('w, 'g, 'n) world \<Rightarrow> byte list \<Rightarrow> 'w sender \<Rightarrow> (string + unit) \<times> 'w sender" where
  "store_transaction W raw_tx s =
     (case wo_store W raw_tx (se_world s) of (res, w) \<Rightarrow> (res, s\<lparr>se_world := w\<rparr>))"

definition record_accepted_scheduled_migration_tx ::
    "('w, 'g, 'n) world \<Rightarrow> string \<Rightarrow> string \<times> byte list \<Rightarrow> u32 \<Rightarrow> u64 \<Rightarrow> 'w sender \<Rightarrow>
     (driver_error + ironwood_result option) \<times> 'w sender" where
  "record_accepted_scheduled_migration_tx W run_id tx fallback_total_count fallback_migrated_zatoshi s =
     (case store_transaction W (snd tx) s of
        (Inl e, s1) \<Rightarrow>
          let message = storage_retry_message ''Migration transaction'' (fst tx) e in
          (case mark_broadcasted W run_id (fst tx) s1 of
             (Inl e, s2) \<Rightarrow> (Inl e, s2)
           | (Inr _, s2) \<Rightarrow>
               (case stored_phase s2 run_id of
                  Inl e \<Rightarrow> (Inl e, s2)
                | Inr phase \<Rightarrow>
                    let s3 = mark_phase W run_id phase (Some message) s2 in
                    (rbind (run_totals s3 run_id) (\<lambda>totals.
                     Inr (Some (migration_result_from_pending_totals totals phase (Message message)
                       fallback_total_count fallback_migrated_zatoshi))), s3)))
      | (Inr _, s1) \<Rightarrow>
          (case mark_broadcasted W run_id (fst tx) s1 of
             (Inl e, s2) \<Rightarrow> (Inl e, s2) | (Inr _, s2) \<Rightarrow> (Inr None, s2)))"

text \<open>
  A second attempt to store what the network accepted. The number of stored rows saturates; only whether
  it is positive matters.
\<close>

fun store_missing ::
    "('w, 'g, 'n) world \<Rightarrow> (string \<times> byte list) list \<Rightarrow> u32 \<Rightarrow> string option \<Rightarrow> 'w sender \<Rightarrow>
     (u32 \<times> string option) \<times> 'w sender" where
  "store_missing W [] stored last_failure s = ((stored, last_failure), s)"
| "store_missing W ((txid, raw_tx) # rest) stored last_failure s =
     (case store_transaction W raw_tx s of
        (Inr _, s1) \<Rightarrow> store_missing W rest (saturating_add32 stored 1) last_failure s1
      | (Inl e, s1) \<Rightarrow>
          store_missing W rest stored (Some (storage_retry_message ''Migration transaction'' txid e)) s1)"

definition missing_stored ::
    "('w, 'g, 'n) world \<Rightarrow> string \<Rightarrow> byte list \<Rightarrow> string \<Rightarrow> 'w sender \<Rightarrow> driver_error + (string \<times> byte list) list" where
  "missing_stored W run_id password salt_base64 s =
     map_error DrBc (broadcasted_pending_txs_missing_local_identity (wo_unhex W) (wo_chain W (se_world s))
       (wo_cipher W) (se_db s) run_id password salt_base64)"

text \<open>Replaces the message of the run and keeps its phase.\<close>

definition restamp ::
    "('w, 'g, 'n) world \<Rightarrow> string \<Rightarrow> string option \<Rightarrow> 'w sender \<Rightarrow> (driver_error + unit) \<times> 'w sender" where
  "restamp W run_id message s =
     (case stored_phase s run_id of
        Inl e \<Rightarrow> (Inl e, s)
      | Inr phase \<Rightarrow> (Inr (), mark_phase W run_id phase message s))"

definition retry_store_broadcasted_migration_txs_missing_local ::
    "('w, 'g, 'n) world \<Rightarrow> string \<Rightarrow> byte list \<Rightarrow> string \<Rightarrow> 'w sender \<Rightarrow> (driver_error + u32) \<times> 'w sender" where
  "retry_store_broadcasted_migration_txs_missing_local W run_id password salt_base64 s =
     (case missing_stored W run_id password salt_base64 s of
        Inl e \<Rightarrow> (Inl e, s)
      | Inr missing \<Rightarrow>
          (case store_missing W missing 0 None s of
             ((stored, last_failure), s1) \<Rightarrow>
               (case (if stored > 0 then restamp W run_id None s1 else (Inr (), s1)) of
                  (Inl e, s2) \<Rightarrow> (Inl e, s2)
                | (Inr _, s2) \<Rightarrow>
                    (case (case last_failure of None \<Rightarrow> (Inr (), s2)
                            | Some message \<Rightarrow> restamp W run_id (Some message) s2) of
                       (Inl e, s3) \<Rightarrow> (Inl e, s3)
                     | (Inr _, s3) \<Rightarrow> (Inr stored, s3)))))"

section \<open>Reasons to rebuild\<close>

definition stale_fee_message :: "nat \<Rightarrow> string" where
  "stale_fee_message n = decimal n @ '' migration transaction(s) use an outdated canonical fee. Review and approve ''
     @ ''a fresh schedule for the remaining Orchard balance.''"

definition spent_elsewhere_message :: "nat \<Rightarrow> string" where
  "spent_elsewhere_message n = decimal n @ '' scheduled migration input(s) were spent outside this run. Review and ''
     @ ''approve a revised schedule for the remaining Orchard balance.''"

definition pending_migration_policy_rebuild_message ::
    "('w, 'g, 'n) world \<Rightarrow> wallet_network \<Rightarrow> string \<Rightarrow> u32 \<Rightarrow> 'w sender \<Rightarrow> driver_error + string option" where
  "pending_migration_policy_rebuild_message W network run_id chain_tip_height s =
     rbind (ok_or DrTargetOverflow (checked_add 32 chain_tip_height 1)) (\<lambda>target.
     rbind (map_error (\<lambda>_. DrFee) (wo_canonical_fee W network target)) (\<lambda>canonical_fee.
     rbind (map_error DrRun (noncanonical_unconfirmed_fee_count (se_db s) run_id canonical_fee)) (\<lambda>stale_fee_count.
     if stale_fee_count > 0 then Inr (Some (stale_fee_message stale_fee_count))
     else
       rbind (map_error DrRun (scheduled_inputs_spent_by_mined_transactions (wo_unhex W) (wo_chain W (se_world s))
           (wo_spends W (se_world s)) (se_db s) run_id)) (\<lambda>externally_spent.
       Inr (if externally_spent \<noteq> [] then Some (spent_elsewhere_message (length externally_spent)) else None)))))"

definition retry_store_then_pending_migration_policy_rebuild_message ::
    "('w, 'g, 'n) world \<Rightarrow> wallet_network \<Rightarrow> string \<Rightarrow> u32 \<Rightarrow> byte list \<Rightarrow> string \<Rightarrow> 'w sender \<Rightarrow>
     (driver_error + string option) \<times> 'w sender" where
  "retry_store_then_pending_migration_policy_rebuild_message W network run_id chain_tip_height password salt_base64 s =
     (case retry_store_broadcasted_migration_txs_missing_local W run_id password salt_base64 s of
        (Inl e, s1) \<Rightarrow> (Inl e, s1)
      | (Inr _, s1) \<Rightarrow>
          (case reconcile_run_pending_confirmations (wo_trusted W) (wo_unhex W) (wo_chain W (se_world s1))
                  (wo_now W (se_world s1)) (wo_now W (se_world s1)) (se_db s1) run_id of
             (Inl e, db) \<Rightarrow> (Inl (DrRun e), with_db db s1)
           | (Inr _, db) \<Rightarrow>
               let s2 = with_db db s1 in
               (rbind (missing_stored W run_id password salt_base64 s2) (\<lambda>still_missing.
                if length still_missing > 0 then Inl (DrStillMissing (length still_missing))
                else pending_migration_policy_rebuild_message W network run_id chain_tip_height s2), s2)))"

section \<open>The due transfers\<close>

definition redraw_peers ::
    "('w, 'g, 'n) world \<Rightarrow> broadcast_policy \<Rightarrow> wallet_network \<Rightarrow> string \<Rightarrow> u32 \<Rightarrow> 'w sender \<Rightarrow>
     ((driver_error + unit) \<times> 'w sender) option" where
  "redraw_peers W policy network run_id chain_tip_height s =
     (let now = wo_now W (se_world s); g = wo_random W (se_world s);
          tip = (case bp_wallet_overdue_redraw_floor policy of None \<Rightarrow> chain_tip_height
                 | Some f \<Rightarrow> max chain_tip_height f) in
      if bp_reschedule_wallet_overdue policy
      then map_option (\<lambda>(res, db). (map_error DrBc (rbind res (\<lambda>_. Inr ())), with_db db s))
             (reschedule_wallet_overdue_pending_txs (wo_sampler W) now now (se_db s) network tip g)
      else map_option (\<lambda>res. case res of
               Inl e \<Rightarrow> (Inl (DrBc e), s) | Inr (db, _) \<Rightarrow> (Inr (), with_db db s))
             (reschedule_overdue_pending_txs (wo_sampler W) now now (se_db s) run_id network chain_tip_height g))"

definition redraw_peers_after_accepted ::
    "('w, 'g, 'n) world \<Rightarrow> broadcast_policy \<Rightarrow> wallet_network \<Rightarrow> string \<Rightarrow> u32 \<Rightarrow> string \<Rightarrow> 'w sender \<Rightarrow>
     ((driver_error + unit) \<times> 'w sender) option" where
  "redraw_peers_after_accepted W policy network run_id chain_tip_height txid s =
     (if \<not> bp_reschedule_wallet_overdue policy then Some (Inr (), s)
      else
        let now = wo_now W (se_world s); g = wo_random W (se_world s);
            tip = (case bp_wallet_overdue_redraw_floor policy of None \<Rightarrow> chain_tip_height
                   | Some f \<Rightarrow> max chain_tip_height f) in
        map_option (\<lambda>(res, db). (map_error DrBc (rbind res (\<lambda>_. Inr ())), with_db db s))
          (reschedule_wallet_overdue_pending_txs_after_accepted (wo_sampler W) now now (se_db s) network tip
             run_id txid g))"

definition message_text :: "result_message \<Rightarrow> string" where
  "message_text m = (case m of Message t \<Rightarrow> t | _ \<Rightarrow> [])"

text \<open>A rejected submission: the run is retired, or it stays and is tried again later.\<close>

definition rejected_submission ::
    "('w, 'g, 'n) world \<Rightarrow> string \<Rightarrow> string \<Rightarrow> string \<Rightarrow> u32 \<Rightarrow> u64 \<Rightarrow> 'w sender \<Rightarrow>
     (driver_error + broadcast_advance) \<times> 'w sender" where
  "rejected_submission W run_id txid e fallback_total_count fallback_migrated_zatoshi s =
     (let finish = (\<lambda>phase message s.
            (rbind (run_totals s run_id) (\<lambda>totals.
             Inr (without_acceptance (migration_result_from_pending_totals totals phase (Message message)
               fallback_total_count fallback_migrated_zatoshi))), s)) in
      if broadcast_failure_requires_rebuild e
      then
        (case retire_run_for_rebuild (wo_locks W) (wo_unhex W) (wo_now W (se_world s)) run_id
                (rejected_message txid e) (se_db s, se_world s) of
           (Inl err, db, w) \<Rightarrow> (Inl (DrLife err), s\<lparr>se_db := db, se_world := w\<rparr>)
         | (Inr _, db, w) \<Rightarrow>
             finish PHASE_FAILED_TERMINAL (rejected_message txid e) (s\<lparr>se_db := db, se_world := w\<rparr>))
      else
        let message = broadcast_failed_message txid e in
        finish PHASE_FAILED_RECOVERABLE message
          (mark_phase W run_id PHASE_FAILED_RECOVERABLE (Some message) s))"

text \<open>One transaction; the loop goes on with the list of those that were accepted.\<close>

datatype 'a step_end = Continue 'a | Finished broadcast_advance

definition accepted_submission ::
    "('w, 'g, 'n) world \<Rightarrow> broadcast_policy \<Rightarrow> wallet_network \<Rightarrow> string \<Rightarrow> u32 \<Rightarrow> pending_totals \<Rightarrow> u32 \<Rightarrow> u64 \<Rightarrow>
     string \<times> byte list \<Rightarrow> 'w sender \<Rightarrow> ((driver_error + unit step_end) \<times> 'w sender) option" where
  "accepted_submission W policy network run_id chain_tip_height totals_before fallback_total_count
       fallback_migrated_zatoshi tx s =
     (let failed = (\<lambda>e. Inr (Finished (accepted_migration_processing_failure_result totals_before [fst tx] e
            fallback_total_count fallback_migrated_zatoshi))) in
      case record_accepted_scheduled_migration_tx W run_id tx fallback_total_count fallback_migrated_zatoshi s of
        (Inl e, s1) \<Rightarrow> Some (failed e, s1)
      | (Inr (Some result), s1) \<Rightarrow>
          map_option (\<lambda>(res, s2).
            (Inr (Finished \<lparr>ba_result = (case res of
                 Inr _ \<Rightarrow> result
               | Inl e \<Rightarrow> result\<lparr>im_message := RedrawFailed (message_text (im_message result)) e\<rparr>),
               ba_accepted_txids = [fst tx]\<rparr>), s2))
            (redraw_peers_after_accepted W policy network run_id chain_tip_height (fst tx) s1)
      | (Inr None, s1) \<Rightarrow>
          map_option (\<lambda>(res, s2). (case res of Inl e \<Rightarrow> failed e | Inr _ \<Rightarrow> Inr (Continue ()), s2))
            (redraw_peers W policy network run_id chain_tip_height s1))"

fun broadcast_loop ::
    "('w, 'g, 'n) world \<Rightarrow> broadcast_policy \<Rightarrow> wallet_network \<Rightarrow> string \<Rightarrow> u32 \<Rightarrow> pending_totals \<Rightarrow> u32 \<Rightarrow> u64 \<Rightarrow>
     (string \<times> byte list) list \<Rightarrow> string list \<Rightarrow> 'w sender \<Rightarrow>
     ((driver_error + string list step_end) \<times> 'w sender) option" where
  "broadcast_loop W policy network run_id chain_tip_height totals_before fallback_total_count
     fallback_migrated_zatoshi [] accepted s = Some (Inr (Continue accepted), s)"
| "broadcast_loop W policy network run_id chain_tip_height totals_before fallback_total_count
     fallback_migrated_zatoshi (tx # txs) accepted s =
     (if is_cancelled W policy s
      then Some (Inr (Continue accepted),
             mark_phase W run_id PHASE_BROADCAST_SCHEDULED (Some stopped_before_next_message) s)
      else
        case mark_pending_broadcast_attempted (se_db s) run_id (fst tx) of
          Inl e \<Rightarrow> Some (Inl (DrBc e), s)
        | Inr db \<Rightarrow>
            (case broadcast_raw_transaction_isolated W (fst tx) (snd tx) (with_db db s) of
               (Inl e, s1) \<Rightarrow>
                 Some (case rejected_submission W run_id (fst tx) e fallback_total_count fallback_migrated_zatoshi s1 of
                   (res, s2) \<Rightarrow> (rbind res (\<lambda>a. Inr (Finished a)), s2))
             | (Inr _, s1) \<Rightarrow>
                 Option.bind (accepted_submission W policy network run_id chain_tip_height totals_before
                     fallback_total_count fallback_migrated_zatoshi tx s1) (\<lambda>(res, s2).
                 case res of
                   Inl e \<Rightarrow> Some (Inl e, s2)
                 | Inr (Finished a) \<Rightarrow> Some (Inr (Finished a), s2)
                 | Inr (Continue _) \<Rightarrow>
                     broadcast_loop W policy network run_id chain_tip_height totals_before fallback_total_count
                       fallback_migrated_zatoshi txs (accepted @ [fst tx]) s2)))"

definition after_broadcast_message :: "u32 \<Rightarrow> string \<Rightarrow> string" where
  "after_broadcast_message scheduled_remaining status =
     (if scheduled_remaining > 0 then ''Due migration transactions were submitted. More are scheduled.''
      else if status = PHASE_BROADCAST_SCHEDULED
      then ''Due migration transactions were submitted. More proofs remain to prepare.''
      else ''Migration transactions were broadcast on the saved schedule.'')"

definition after_broadcast ::
    "string \<Rightarrow> pending_totals \<Rightarrow> u32 \<Rightarrow> u64 \<Rightarrow> string list \<Rightarrow> 'w sender \<Rightarrow> driver_error + broadcast_advance" where
  "after_broadcast run_id totals_before fallback_total_count fallback_migrated_zatoshi accepted s =
     (case rbind (run_totals s run_id) (\<lambda>totals.
           rbind (map_error DrRun (scheduled_pending_count (se_db s) run_id)) (\<lambda>scheduled_remaining.
           rbind (stored_phase s run_id) (\<lambda>status. Inr (totals, scheduled_remaining, status)))) of
        Inl e \<Rightarrow>
          if accepted \<noteq> [] then Inr (accepted_migration_processing_failure_result totals_before accepted e
                fallback_total_count fallback_migrated_zatoshi)
          else Inl e
      | Inr (totals, scheduled_remaining, status) \<Rightarrow>
          Inr \<lparr>ba_result = migration_result_from_pending_totals totals status
                 (Message (after_broadcast_message scheduled_remaining status)) fallback_total_count
                 fallback_migrated_zatoshi,
               ba_accepted_txids = accepted\<rparr>)"

text \<open>From the selection of the due transaction on.\<close>

definition broadcast_selected ::
    "('w, 'g, 'n) world \<Rightarrow> broadcast_policy \<Rightarrow> wallet_network \<Rightarrow> string \<Rightarrow> byte list \<Rightarrow> string \<Rightarrow> u32 \<Rightarrow> pending_totals \<Rightarrow>
     u32 \<Rightarrow> u64 \<Rightarrow> 'w sender \<Rightarrow> ((driver_error + broadcast_advance) \<times> 'w sender) option" where
  "broadcast_selected W policy network run_id password salt_base64 chain_tip_height totals_before
       fallback_total_count fallback_migrated_zatoshi s =
     (let waiting = (\<lambda>status message s. Some (Inr (without_acceptance (migration_result_from_pending_totals
            totals_before status (Message message) fallback_total_count fallback_migrated_zatoshi)), s)) in
      case due_pending_txs (wo_trusted W) (wo_unhex W) (wo_chain W (se_world s)) (wo_cipher W)
             (wo_now W (se_world s)) (wo_now W (se_world s)) (se_db s) run_id chain_tip_height password salt_base64 of
        (Inl e, db) \<Rightarrow> Some (Inl (DrBc e), with_db db s)
      | (Inr None, db) \<Rightarrow>
          let s1 = with_db db s in
          (case stored_phase s1 run_id of
             Inl e \<Rightarrow> Some (Inl e, s1)
           | Inr status \<Rightarrow>
               waiting status
                 (if status = PHASE_BROADCAST_SCHEDULED \<and> next_scheduled_height db run_id = None
                  then ''Migration is waiting to prepare the next transaction.''
                  else ''Migration transactions are scheduled for delayed broadcast.'') s1)
      | (Inr (Some tx), db) \<Rightarrow>
          let s1 = with_db db s in
          if is_cancelled W policy s1 then waiting PHASE_BROADCAST_SCHEDULED stopped_before_next_message s1
          else
            Option.bind (broadcast_loop W policy network run_id chain_tip_height totals_before fallback_total_count
                fallback_migrated_zatoshi (take (step_limit policy (2 ^ 64 - 1)) [tx]) []
                (mark_phase W run_id PHASE_BROADCASTING None s1)) (\<lambda>(res, s2).
            case res of
              Inl e \<Rightarrow> Some (Inl e, s2)
            | Inr (Finished a) \<Rightarrow> Some (Inr a, s2)
            | Inr (Continue accepted) \<Rightarrow>
                Some (after_broadcast run_id totals_before fallback_total_count fallback_migrated_zatoshi accepted s2, s2)))"

definition expired_parts_message :: "nat \<Rightarrow> string" where
  "expired_parts_message n = decimal n @ '' migration transaction(s) expired before confirmation. Re-sign the ''
     @ ''affected denomination(s) with fresh anchors and expiry heights.''"

definition crossed_parts_message :: "nat \<Rightarrow> string" where
  "crossed_parts_message n = decimal n @ '' migration transaction(s) crossed a ZIP 318 expiry boundary and need ''
     @ ''fresh signatures.''"

text \<open>
  The parts that expired or left their window are marked first; only when there is none is a
  transaction selected.
\<close>

definition broadcast_unexpired ::
    "('w, 'g, 'n) world \<Rightarrow> broadcast_policy \<Rightarrow> wallet_network \<Rightarrow> string \<Rightarrow> byte list \<Rightarrow> string \<Rightarrow> u32 \<Rightarrow> pending_totals \<Rightarrow>
     u32 \<Rightarrow> u64 \<Rightarrow> 'w sender \<Rightarrow> ((driver_error + broadcast_advance) \<times> 'w sender) option" where
  "broadcast_unexpired W policy network run_id password salt_base64 chain_tip_height totals_before
       fallback_total_count fallback_migrated_zatoshi s =
     (let chain = wo_chain W (se_world s); now = wo_now W (se_world s);
          waiting = (\<lambda>totals message. without_acceptance (migration_result_from_pending_totals
            totals PHASE_READY_TO_MIGRATE (Message message) fallback_total_count fallback_migrated_zatoshi)) in
      case expired_unconfirmed_pending_count (wo_trusted W) (wo_unhex W) chain now now (se_db s) run_id chain_tip_height of
        (Inl e, db) \<Rightarrow> Some (Inl (DrBc e), with_db db s)
      | (Inr expired_count, db) \<Rightarrow>
          if expired_count > 0
          then
            (case mark_expired_pending_parts_for_resign (wo_trusted W) (wo_unhex W) chain now now now db run_id
                    chain_tip_height of
               (res, db1) \<Rightarrow>
                 Some (rbind (map_error DrBc res) (\<lambda>_.
                   Inr (waiting totals_before (expired_parts_message expired_count))), with_db db1 s))
          else
            (case mark_due_parts_with_noncanonical_broadcast_height_for_resign (wo_trusted W) (wo_unhex W) chain
                    now now now db run_id chain_tip_height of
               (Inl e, db1) \<Rightarrow> Some (Inl (DrBc e), with_db db1 s)
             | (Inr noncanonical_due_count, db1) \<Rightarrow>
                 let s1 = with_db db1 s in
                 if noncanonical_due_count > 0
                 then Some (rbind (run_totals s1 run_id) (\<lambda>totals.
                        Inr (waiting totals (crossed_parts_message noncanonical_due_count))), s1)
                 else broadcast_selected W policy network run_id password salt_base64 chain_tip_height
                        totals_before fallback_total_count fallback_migrated_zatoshi s1))"

definition broadcast_due_scheduled_migration_txs ::
    "('w, 'g, 'n) world \<Rightarrow> wallet_network \<Rightarrow> string \<Rightarrow> byte list \<Rightarrow> string \<Rightarrow> u32 \<Rightarrow> u64 \<Rightarrow> broadcast_policy \<Rightarrow>
     'w sender \<Rightarrow> ((driver_error + broadcast_advance) \<times> 'w sender) option" where
  "broadcast_due_scheduled_migration_txs W network run_id password salt_base64 fallback_total_count
       fallback_migrated_zatoshi policy s =
     (case run_totals s run_id of
        Inl e \<Rightarrow> Some (Inl e, s)
      | Inr totals_before \<Rightarrow>
          let waiting = (\<lambda>status message. without_acceptance (migration_result_from_pending_totals
                totals_before status (Message message) fallback_total_count fallback_migrated_zatoshi)) in
          if to_total_count totals_before = 0
          then Some (Inr (waiting PHASE_READY_TO_MIGRATE ''No signed migration transactions are scheduled yet.''), s)
          else
            case wo_chain_tip W (se_world s) of
              Inl _ \<Rightarrow> Some (Inl DrProgress, s)
            | Inr chain_tip_height \<Rightarrow>
                (case retry_store_then_pending_migration_policy_rebuild_message W network run_id chain_tip_height
                        password salt_base64 s of
                   (Inl e, s1) \<Rightarrow> Some (Inl e, s1)
                 | (Inr (Some message), s1) \<Rightarrow>
                     (case retire_run_for_rebuild (wo_locks W) (wo_unhex W) (wo_now W (se_world s1)) run_id message
                             (se_db s1, se_world s1) of
                        (res, db, w) \<Rightarrow>
                          Some (rbind (map_error DrLife res) (\<lambda>_. Inr (waiting PHASE_FAILED_TERMINAL message)),
                            s1\<lparr>se_db := db, se_world := w\<rparr>))
                 | (Inr None, s1) \<Rightarrow>
                     broadcast_unexpired W policy network run_id password salt_base64 chain_tip_height
                       totals_before fallback_total_count fallback_migrated_zatoshi s1))"

end
