(* ===== verification/Transfer_Sent.thy ===== *)
theory Transfer_Sent
  imports Transfer_Driver Pending_Due
begin

text \<open>
  What the sender of the scheduled transfers hands to the network, and what the tables say about it
  however the call ends.
\<close>

section \<open>Marks\<close>

text \<open>A step that forgets no attempt: a row keeps its key, its bytes and its mark, and none becomes scheduled.\<close>

definition marks_step :: "pending_row \<Rightarrow> pending_row \<Rightarrow> bool" where
  "marks_step p q \<longleftrightarrow> pt_run_id q = pt_run_id p \<and> pt_txid_hex q = pt_txid_hex p
     \<and> pt_encrypted_raw_tx q = pt_encrypted_raw_tx p \<and> pt_broadcast_attempted q = pt_broadcast_attempted p
     \<and> (pt_status q = ''scheduled'' \<longrightarrow> pt_status p = ''scheduled'')"

definition marks_kept :: "migration_db \<Rightarrow> migration_db \<Rightarrow> bool" where
  "marks_kept db db' \<longleftrightarrow> list_all2 marks_step (mdb_pending db) (mdb_pending db')"

lemma marks_step_refl [simp]: "marks_step p p" by (simp add: marks_step_def)

lemma marks_kept_pending: "mdb_pending db' = mdb_pending db \<Longrightarrow> marks_kept db db'"
  by (simp add: marks_kept_def list.rel_refl)

lemma marks_kept_trans: "marks_kept db db1 \<Longrightarrow> marks_kept db1 db2 \<Longrightarrow> marks_kept db db2"
  unfolding marks_kept_def by (erule (1) list_all2_trans [rotated 1]) (auto simp: marks_step_def)

lemma marks_kept_update:
  assumes "\<And>p. P p \<Longrightarrow> marks_step p (f p)"
  shows "marks_kept db (snd (sql_update_pending P f db))"
  using assms by (auto simp: marks_kept_def sql_update_pending_def list_all2_map2 intro!: list.rel_refl_strong)

text \<open>Every row of the transaction is marked as attempted, or is not to be sent any more.\<close>

definition attempt_recorded :: "string \<Rightarrow> string \<Rightarrow> migration_db \<Rightarrow> bool" where
  "attempt_recorded rid txid db \<longleftrightarrow>
     (\<forall>p \<in> set (mdb_pending db). pt_run_id p = rid \<and> pt_txid_hex p = txid \<longrightarrow>
        pt_broadcast_attempted p = 1 \<or> pt_status p \<noteq> ''scheduled'')"

lemma attempt_recorded_kept:
  assumes "attempt_recorded rid txid db" and "marks_kept db db'"
  shows "attempt_recorded rid txid db'"
proof -
  have "\<exists>p \<in> set (mdb_pending db). marks_step p q" if "q \<in> set (mdb_pending db')" for q
    using assms(2) that by (fastforce simp: marks_kept_def list_all2_conv_all_nth in_set_conv_nth)
  then show ?thesis using assms(1) unfolding attempt_recorded_def marks_step_def by metis
qed

lemma attempt_is_recorded:
  assumes "mark_pending_broadcast_attempted db rid txid = Inr db'"
  shows "attempt_recorded rid txid db'"
  unfolding attempt_recorded_def
proof (intro ballI impI)
  let ?P = "\<lambda>p. pt_run_id p = rid \<and> pt_txid_hex p = txid \<and> pt_status p = ''scheduled''"
  fix q assume q: "q \<in> set (mdb_pending db')" "pt_run_id q = rid \<and> pt_txid_hex q = txid"
  have "mdb_pending db' = map (\<lambda>p. if ?P p then p\<lparr>pt_broadcast_attempted := 1\<rparr> else p) (mdb_pending db)"
    using assms by (simp add: mark_pending_broadcast_attempted_def sql_update_pending_def split: if_split_asm)
      (drule sym, simp)
  then obtain p where "q = (if ?P p then p\<lparr>pt_broadcast_attempted := 1\<rparr> else p)"
    using q(1) by (auto simp only: set_map)
  then show "pt_broadcast_attempted q = 1 \<or> pt_status q \<noteq> ''scheduled''" using q(2) by (cases "?P p") auto
qed

section \<open>Steps that keep the marks\<close>

lemma mark_broadcasted_marks:
  assumes "mark_broadcasted W rid txid s = (res, s')"
  shows "marks_kept (se_db s) (se_db s') \<and> se_sent s' = se_sent s"
proof (cases "mark_pending_broadcasted (wo_now W (se_world s)) (se_db s) rid txid")
  case (Inl e)
  then show ?thesis using assms by (auto simp: mark_broadcasted_def marks_kept_pending)
next
  case (Inr db)
  have "mdb_pending db = mdb_pending (snd (sql_update_pending (\<lambda>p. pt_run_id p = rid \<and> pt_txid_hex p = txid)
      (set_part_status ''broadcasted'') (se_db s)))"
    using Inr by (auto simp: mark_pending_broadcasted_def dest!: update_run_pending)
  moreover have "marks_kept (se_db s) (snd (sql_update_pending (\<lambda>p. pt_run_id p = rid \<and> pt_txid_hex p = txid)
      (set_part_status ''broadcasted'') (se_db s)))"
    by (rule marks_kept_update) (simp add: marks_step_def set_part_status_def)
  ultimately show ?thesis using assms Inr by (auto simp: mark_broadcasted_def with_db_def marks_kept_def)
qed

lemma redraw_rows_marks:
  "redraw_rows start_ms rid tip min_delay txs (b, db) = Inr (b', db') \<Longrightarrow> marks_kept db db'"
proof (induction txs arbitrary: b db)
  case (Cons tx txs)
  obtain t e d where tx: "tx = ((t, e), d)" by (metis prod.exhaust)
  have resign: "marks_kept db (snd (sql_update_pending (scheduled_row rid t) (set_part_status ''needs_resign'') db))"
    by (rule marks_kept_update) (simp add: marks_step_def set_part_status_def)
  have redraw: "marks_kept db (snd (sql_update_pending (scheduled_row rid t) (redraw_row h tip ms) db))" for h ms
    by (rule marks_kept_update) (simp add: marks_step_def redraw_row_def scheduled_row_def)
  obtain h where h: "checked_add 32 tip (max d min_delay) = Some h" using Cons.prems by (auto simp: tx Let_def)
  obtain x where x: "canonical_expiry h = Inr x" using Cons.prems h by (auto simp: tx Let_def simp del: canonical_expiry_eq)
  show ?case
  proof (cases "x = e")
    case True
    obtain ms where "add_ms start_ms (max d min_delay) = Some ms"
      using Cons.prems h x True by (auto simp: tx Let_def simp del: canonical_expiry_eq)
    then have "redraw_rows start_ms rid tip min_delay txs
        (b, snd (sql_update_pending (scheduled_row rid t) (redraw_row h tip ms) db)) = Inr (b', db')"
      using Cons.prems h x True by (simp add: tx Let_def del: canonical_expiry_eq)
    from marks_kept_trans [OF redraw Cons.IH [OF this]] show ?thesis .
  next
    case False
    then have "redraw_rows start_ms rid tip min_delay txs
        (True, snd (sql_update_pending (scheduled_row rid t) (set_part_status ''needs_resign'') db)) = Inr (b', db')"
      using Cons.prems h x by (simp add: tx Let_def del: canonical_expiry_eq)
    from marks_kept_trans [OF resign Cons.IH [OF this]] show ?thesis .
  qed
qed (simp add: marks_kept_pending)

lemma reschedule_marks:
  assumes "reschedule_overdue_pending_txs_with_options env start_ms now db rid network tip min_delay excluded g
      = Some (Inr (db', g'))"
  shows "marks_kept db db'"
proof (cases "overdue_txids db rid tip excluded = []")
  case True
  then show ?thesis
    using assms by (simp add: reschedule_overdue_pending_txs_with_options_def marks_kept_pending)
next
  case False
  then have "db' = db \<or> (\<exists>txs b b' db1. redraw_rows start_ms rid tip min_delay txs (b, db) = Inr (b', db1)
      \<and> mdb_pending db' = mdb_pending db1)"
    using assms unfolding reschedule_overdue_pending_txs_with_options_def Let_def
    by (auto split: sum.splits prod.splits if_splits) (metis ready_for_signing_pending | blast)+
  then show ?thesis using redraw_rows_marks by (auto simp: marks_kept_def list.rel_refl)
qed

lemma reschedule_runs_marks:
  "reschedule_runs env start_ms now network tip excluded rids db g = Some (res, db') \<Longrightarrow> marks_kept db db'"
proof (induction rids arbitrary: db g)
  case (Cons rid rids)
  let ?x = "case excluded of Some (excluded_run_id, txid) \<Rightarrow> if rid = excluded_run_id then Some txid else None | None \<Rightarrow> None"
  obtain r where r: "reschedule_overdue_pending_txs_with_options env start_ms now db rid network tip 1 ?x g = Some r"
    using Cons.prems by (auto simp: Let_def Option.bind_eq_Some_conv)
  show ?case
  proof (cases r)
    case (Inl e)
    then show ?thesis using Cons.prems r by (auto simp: Let_def marks_kept_pending)
  next
    case (Inr p)
    obtain db1 g1 where p: "p = (db1, g1)" by fastforce
    have "reschedule_runs env start_ms now network tip excluded rids db1 g1 = Some (res, db')"
      using Cons.prems r Inr p by (simp add: Let_def)
    then show ?thesis using Cons.IH marks_kept_trans [OF reschedule_marks [OF r [unfolded Inr p]]] by blast
  qed
qed (simp add: marks_kept_pending)

lemma redraw_peers_marks:
  assumes "redraw_peers W policy network rid tip s = Some (res, s')"
  shows "marks_kept (se_db s) (se_db s') \<and> se_sent s' = se_sent s"
proof (cases "bp_reschedule_wallet_overdue policy")
  case True
  then show ?thesis using assms
    by (auto simp: redraw_peers_def Let_def reschedule_wallet_overdue_pending_txs_def
        reschedule_wallet_overdue_pending_txs_with_exclusion_def with_db_def dest!: reschedule_runs_marks)
next
  case False
  then obtain z where z: "reschedule_overdue_pending_txs_with_options (wo_sampler W) (wo_now W (se_world s))
      (wo_now W (se_world s)) (se_db s) rid network tip 0 None (wo_random W (se_world s)) = Some z"
    and s': "(res, s') = (case z of Inl e \<Rightarrow> (Inl (DrBc e), s) | Inr (db, _) \<Rightarrow> (Inr (), with_db db s))"
    using assms by (auto simp: redraw_peers_def Let_def reschedule_overdue_pending_txs_def)
  show ?thesis
  proof (cases z)
    case (Inl e)
    then show ?thesis using s' by (simp add: marks_kept_pending)
  next
    case (Inr p)
    obtain db g where p: "p = (db, g)" by fastforce
    show ?thesis using s' reschedule_marks [OF z [unfolded Inr p]] by (simp add: Inr p with_db_def)
  qed
qed

lemma redraw_after_accepted_marks:
  assumes "redraw_peers_after_accepted W policy network rid tip txid s = Some (res, s')"
  shows "marks_kept (se_db s) (se_db s') \<and> se_sent s' = se_sent s"
proof (cases "bp_reschedule_wallet_overdue policy")
  case True
  then show ?thesis using assms
    by (auto simp: redraw_peers_after_accepted_def Let_def reschedule_wallet_overdue_pending_txs_after_accepted_def
        reschedule_wallet_overdue_pending_txs_with_exclusion_def with_db_def dest!: reschedule_runs_marks)
qed (use assms in \<open>simp add: redraw_peers_after_accepted_def marks_kept_pending\<close>)

lemma mark_phase_kept [simp]: "mdb_pending (se_db (mark_phase W rid phase m s)) = mdb_pending (se_db s)"
  "se_sent (mark_phase W rid phase m s) = se_sent s"
  by (simp_all add: mark_phase_def with_db_def mark_run_phase_def)

lemma store_transaction_kept:
  "store_transaction W raw s = (res, s') \<Longrightarrow> se_db s' = se_db s \<and> se_sent s' = se_sent s"
  by (auto simp: store_transaction_def split: prod.splits)

lemma record_accepted_marks:
  assumes "record_accepted_scheduled_migration_tx W rid tx fc fz s = (res, s')"
  shows "marks_kept (se_db s) (se_db s') \<and> se_sent s' = se_sent s"
proof -
  obtain r1 s1 where st: "store_transaction W (snd tx) s = (r1, s1)" by fastforce
  obtain r2 s2 where mb: "mark_broadcasted W rid (fst tx) s1 = (r2, s2)" by fastforce
  note k = store_transaction_kept [OF st] mark_broadcasted_marks [OF mb]
  have "se_sent s' = se_sent s2 \<and> mdb_pending (se_db s') = mdb_pending (se_db s2)"
    using assms st mb by (auto simp: record_accepted_scheduled_migration_tx_def Let_def split: sum.splits prod.splits)
  then show ?thesis using k by (simp add: marks_kept_def)
qed

lemma retire_pending:
  assumes "retire_run_for_rebuild api unhex now rid m (db, w) = (res, db', w')"
  shows "mdb_pending db' = mdb_pending db"
  using assms by (auto simp: retire_run_for_rebuild_def Let_def set_note_locks_def sql_update_runs_def
      split: sum.splits prod.splits)

lemma rejected_submission_marks:
  assumes "rejected_submission W rid txid e fc fz s = (res, s')"
  shows "mdb_pending (se_db s') = mdb_pending (se_db s) \<and> se_sent s' = se_sent s"
proof (cases "broadcast_failure_requires_rebuild e")
  case True
  obtain r db w where ret: "retire_run_for_rebuild (wo_locks W) (wo_unhex W) (wo_now W (se_world s)) rid
      (rejected_message txid e) (se_db s, se_world s) = (r, db, w)" by (metis prod.exhaust)
  note retire_pending [OF this]
  then show ?thesis using assms True ret by (auto simp: rejected_submission_def Let_def split: sum.splits)
next
  case False
  then show ?thesis using assms by (auto simp: rejected_submission_def Let_def)
qed

lemma accepted_submission_marks:
  assumes "accepted_submission W policy network rid tip tb fc fz tx s = Some (res, s')"
  shows "marks_kept (se_db s) (se_db s') \<and> se_sent s' = se_sent s"
proof -
  obtain r1 s1 where rec: "record_accepted_scheduled_migration_tx W rid tx fc fz s = (r1, s1)" by fastforce
  note k = record_accepted_marks [OF rec]
  have "s' = s1 \<or> (\<exists>r2. redraw_peers_after_accepted W policy network rid tip (fst tx) s1 = Some (r2, s'))
    \<or> (\<exists>r2. redraw_peers W policy network rid tip s1 = Some (r2, s'))"
  proof (cases r1)
    case (Inl e)
    then show ?thesis using assms rec by (simp add: accepted_submission_def Let_def)
  next
    case (Inr m)
    show ?thesis
    proof (cases m)
      case None
      then show ?thesis using assms rec Inr
        by (cases "redraw_peers W policy network rid tip s1") (auto simp: accepted_submission_def Let_def)
    next
      case (Some r)
      then show ?thesis using assms rec Inr
        by (cases "redraw_peers_after_accepted W policy network rid tip (fst tx) s1") (auto simp: accepted_submission_def Let_def)
    qed
  qed
  then show ?thesis
    using k redraw_after_accepted_marks redraw_peers_marks marks_kept_trans by metis
qed

section \<open>Before the selection\<close>

lemma store_missing_kept:
  "store_missing W txs n m s = (res, s') \<Longrightarrow> se_db s' = se_db s \<and> se_sent s' = se_sent s"
proof (induction W txs n m s arbitrary: res rule: store_missing.induct)
  case (2 W txid raw rest stored m s)
  obtain r s1 where st: "store_transaction W raw s = (r, s1)" by fastforce
  then show ?case using 2 store_transaction_kept [OF st] by (cases r) auto
qed simp

lemma restamp_kept: "restamp W rid m s = (res, s') \<Longrightarrow> mdb_pending (se_db s') = mdb_pending (se_db s) \<and> se_sent s' = se_sent s"
  by (auto simp: restamp_def split: sum.splits)

lemma retry_store_kept:
  assumes "retry_store_broadcasted_migration_txs_missing_local W rid pw salt s = (res, s')"
  shows "mdb_pending (se_db s') = mdb_pending (se_db s) \<and> se_sent s' = se_sent s"
proof (cases "missing_stored W rid pw salt s")
  case (Inl e)
  then show ?thesis using assms by (simp add: retry_store_broadcasted_migration_txs_missing_local_def)
next
  case (Inr missing)
  obtain n m s1 where st: "store_missing W missing 0 None s = ((n, m), s1)" by (metis prod.exhaust)
  obtain r2 s2 where r2: "(if n > 0 then restamp W rid None s1 else (Inr (), s1)) = (r2, s2)" by fastforce
  obtain r3 s3 where r3: "(case m of None \<Rightarrow> (Inr (), s2) | Some message \<Rightarrow> restamp W rid (Some message) s2) = (r3, s3)" by fastforce
  have k2: "mdb_pending (se_db s2) = mdb_pending (se_db s1) \<and> se_sent s2 = se_sent s1"
    using r2 restamp_kept [of W rid None s1 r2 s2] by (auto split: if_splits)
  have k3: "mdb_pending (se_db s3) = mdb_pending (se_db s2) \<and> se_sent s3 = se_sent s2"
    using r3 restamp_kept [of W rid _ s2 r3 s3] by (auto split: option.splits)
  have "s' = s2 \<or> s' = s3"
    using assms Inr st r2 r3 by (auto simp: retry_store_broadcasted_migration_txs_missing_local_def split: sum.splits)
  then show ?thesis using store_missing_kept [OF st] k2 k3 by auto
qed

lemma policy_check_step:
  assumes "retry_store_then_pending_migration_policy_rebuild_message W network rid tip pw salt s = (res, s')"
  shows "rows_step (se_db s) (se_db s') \<and> se_sent s' = se_sent s"
proof -
  obtain r1 s1 where st: "retry_store_broadcasted_migration_txs_missing_local W rid pw salt s = (r1, s1)" by fastforce
  note k1 = retry_store_kept [OF st]
  show ?thesis
  proof (cases r1)
    case (Inl e)
    then show ?thesis using assms st k1
      by (auto simp: retry_store_then_pending_migration_policy_rebuild_message_def rows_step_pending)
  next
    case (Inr n)
    obtain r2 db where rc: "reconcile_run_confirmations (wo_trusted W) (wo_unhex W) (wo_chain W (se_world s1))
        (wo_now W (se_world s1)) (wo_now W (se_world s1)) (se_db s1) rid = (r2, db)" by fastforce
    have "s' = with_db db s1"
      using assms st Inr rc
      by (auto simp: retry_store_then_pending_migration_policy_rebuild_message_def
          reconcile_run_pending_confirmations_def Let_def split: sum.splits)
    then show ?thesis using k1 reconcile_rows_step [OF rc] by (simp add: with_db_def rows_step_def)
  qed
qed

text \<open>The call either sends nothing, or goes on to select a transaction in tables with the same signed bytes.\<close>

definition reaches ::
    "('w, 'g, 'n) world \<Rightarrow> broadcast_policy \<Rightarrow> wallet_network \<Rightarrow> string \<Rightarrow> byte list \<Rightarrow> string \<Rightarrow> u32 \<Rightarrow> u32 \<Rightarrow> u64 \<Rightarrow>
     'w sender \<Rightarrow> (driver_error + broadcast_advance) \<times> 'w sender \<Rightarrow> bool" where
  "reaches W policy network rid pw salt tip fc fz s out \<longleftrightarrow>
     rows_step (se_db s) (se_db (snd out)) \<and> se_sent (snd out) = se_sent s
       \<and> (\<forall>a. fst out = Inr a \<longrightarrow> ba_accepted_txids a = [])
     \<or> (\<exists>tb s1. rows_step (se_db s) (se_db s1) \<and> se_sent s1 = se_sent s
          \<and> broadcast_selected W policy network rid pw salt tip tb fc fz s1 = Some out)"

lemma unexpired_reaches:
  assumes "broadcast_unexpired W policy network rid pw salt tip tb fc fz s = Some out"
  shows "reaches W policy network rid pw salt tip fc fz s out"
proof -
  let ?c = "wo_chain W (se_world s)" and ?n = "wo_now W (se_world s)"
  obtain r1 db1 where e: "expired_unconfirmed_pending_count (wo_trusted W) (wo_unhex W) ?c ?n ?n (se_db s) rid tip = (r1, db1)"
    by fastforce
  obtain r0 where "reconcile_run_confirmations (wo_trusted W) (wo_unhex W) ?c ?n ?n (se_db s) rid = (r0, db1)"
    using e by (auto simp: expired_unconfirmed_pending_count_def split: prod.splits sum.splits)
  note step1 = reconcile_rows_step [OF this]
  show ?thesis
  proof (cases r1)
    case (Inl er)
    then show ?thesis using assms e step1 by (auto simp: broadcast_unexpired_def Let_def reaches_def with_db_def)
  next
    case (Inr n)
    show ?thesis
    proof (cases "n > 0")
      case True
      obtain r2 db2 where m: "mark_expired_pending_parts_for_resign (wo_trusted W) (wo_unhex W) ?c ?n ?n ?n db1 rid tip = (r2, db2)"
        by fastforce
      have "snd out = with_db db2 s \<and> (\<forall>a. fst out = Inr a \<longrightarrow> ba_accepted_txids a = [])"
        using assms e Inr True m by (cases r2) (auto simp: broadcast_unexpired_def Let_def without_acceptance_def map_error_def)
      then show ?thesis
        using rows_step_trans [OF step1 mark_expired_step [OF m]] by (auto simp: reaches_def with_db_def)
    next
      case False
      obtain r2 db2 where m: "mark_due_parts_with_noncanonical_broadcast_height_for_resign (wo_trusted W) (wo_unhex W)
          ?c ?n ?n ?n db1 rid tip = (r2, db2)" by fastforce
      note step2 = rows_step_trans [OF step1 mark_due_step [OF m]]
      show ?thesis
      proof (cases r2)
        case (Inl er)
        then show ?thesis using assms e Inr False m step2 by (auto simp: broadcast_unexpired_def Let_def reaches_def with_db_def)
      next
        case r2: (Inr k)
        show ?thesis
        proof (cases "k > 0")
          case True
          have "snd out = with_db db2 s \<and> (\<forall>a. fst out = Inr a \<longrightarrow> ba_accepted_txids a = [])"
            using assms e Inr False m r2 True
            by (cases "run_totals (with_db db2 s) rid") (auto simp: broadcast_unexpired_def Let_def without_acceptance_def)
          then show ?thesis using step2 by (auto simp: reaches_def with_db_def)
        next
          case k: False
          then have "broadcast_selected W policy network rid pw salt tip tb fc fz (with_db db2 s) = Some out"
            using assms e Inr False m r2 by (simp add: broadcast_unexpired_def Let_def)
          moreover have "se_sent (with_db db2 s) = se_sent s" "se_db (with_db db2 s) = db2" by (simp_all add: with_db_def)
          ultimately show ?thesis using step2 unfolding reaches_def by metis
        qed
      qed
    qed
  qed
qed

lemma broadcast_due_reaches:
  assumes "broadcast_due_scheduled_migration_txs W network rid pw salt fc fz policy s = Some out"
  shows "\<exists>tip. reaches W policy network rid pw salt tip fc fz s out
     \<and> (se_sent (snd out) \<noteq> se_sent s \<longrightarrow> wo_chain_tip W (se_world s) = Inr tip)"
proof -
  have quiet: ?thesis if "out = (res, s1)" "rows_step (se_db s) (se_db s1)" "se_sent s1 = se_sent s"
      "\<forall>a. res = Inr a \<longrightarrow> ba_accepted_txids a = []" for res s1
    using that by (auto simp: reaches_def)
  show ?thesis
  proof (cases "run_totals s rid")
    case (Inl e)
    then have "out = (Inl e, s)" using assms by (simp add: broadcast_due_scheduled_migration_txs_def)
    then show ?thesis by (rule quiet) (simp_all add: rows_step_pending)
  next
    case (Inr tb)
    show ?thesis
    proof (cases "to_total_count tb = 0")
      case True
      have "out = (Inr (without_acceptance (migration_result_from_pending_totals tb PHASE_READY_TO_MIGRATE
          (Message ''No signed migration transactions are scheduled yet.'') fc fz)), s)"
        using assms Inr True by (simp add: broadcast_due_scheduled_migration_txs_def Let_def)
      then show ?thesis by (rule quiet) (simp_all add: rows_step_pending without_acceptance_def)
    next
      case some: False
      show ?thesis
      proof (cases "wo_chain_tip W (se_world s)")
        case (Inl u)
        then have "out = (Inl DrProgress, s)"
          using assms Inr some by (simp add: broadcast_due_scheduled_migration_txs_def Let_def)
        then show ?thesis by (rule quiet) (simp_all add: rows_step_pending)
      next
        case tip: (Inr tip)
        obtain r1 s1 where pc: "retry_store_then_pending_migration_policy_rebuild_message W network rid tip pw salt s = (r1, s1)"
          by fastforce
        note k1 = policy_check_step [OF pc]
        show ?thesis
        proof (cases r1)
          case (Inl e)
          then have "out = (Inl e, s1)"
            using assms Inr some tip pc by (simp add: broadcast_due_scheduled_migration_txs_def Let_def)
          then show ?thesis by (rule quiet) (use k1 in simp_all)
        next
          case r1: (Inr m)
          show ?thesis
          proof (cases m)
            case (Some message)
            obtain r2 db w where ret: "retire_run_for_rebuild (wo_locks W) (wo_unhex W) (wo_now W (se_world s1)) rid message
                (se_db s1, se_world s1) = (r2, db, w)" by (metis prod.exhaust)
            have step: "rows_step (se_db s) db" using k1 retire_pending [OF ret] by (simp add: rows_step_def)
            have ended: "out = (rbind (map_error DrLife r2) (\<lambda>_. Inr (without_acceptance
                (migration_result_from_pending_totals tb PHASE_FAILED_TERMINAL (Message message) fc fz))),
                s1\<lparr>se_db := db, se_world := w\<rparr>)"
              using assms Inr some tip pc r1 Some ret by (simp add: broadcast_due_scheduled_migration_txs_def Let_def)
            show ?thesis by (rule quiet [OF ended]) (use k1 step in \<open>auto simp: without_acceptance_def\<close>)
          next
            case None
            then have "broadcast_unexpired W policy network rid pw salt tip tb fc fz s1 = Some out"
              using assms Inr some tip pc r1 by (simp add: broadcast_due_scheduled_migration_txs_def Let_def)
            from unexpired_reaches [OF this] have "reaches W policy network rid pw salt tip fc fz s out"
              using k1 unfolding reaches_def by (auto intro: rows_step_trans)
            then show ?thesis using tip by blast
          qed
        qed
      qed
    qed
  qed
qed

section \<open>The transaction that is sent\<close>

text \<open>A due transaction that the chain does not know, with the bytes that its row holds.\<close>

definition is_due_tx ::
    "('w, 'g, 'n) world \<Rightarrow> string \<Rightarrow> byte list \<Rightarrow> u32 \<Rightarrow> migration_db \<Rightarrow> string \<times> byte list \<Rightarrow> bool" where
  "is_due_tx W rid pw tip db tx \<longleftrightarrow>
     (\<exists>p salt. p \<in> set (due_rows db rid tip) \<and> pt_txid_hex p = fst tx
        \<and> canonical_row p \<and> decrypt_payload (wo_cipher W) (pt_encrypted_raw_tx p) pw salt = Some (snd tx))"

lemma first_due_selects:
  "first_due identity cipher pw salt ps = Inr (Some tx) \<Longrightarrow>
     \<exists>p \<in> set ps. pt_txid_hex p = fst tx \<and> canonical_row p
       \<and> decrypt_payload cipher (pt_encrypted_raw_tx p) pw salt = Some (snd tx)"
proof (induction ps)
  case (Cons p ps)
  obtain i where i: "identity (pt_txid_hex p) = Inr i" using Cons.prems by (auto simp: map_error_def split: sum.splits)
  show ?case
  proof (cases i)
    case None
    obtain x where x: "canonical_expiry (pt_scheduled_height p) = Inr x"
      using Cons.prems i None by (auto simp: map_error_def simp del: canonical_expiry_eq)
    have e: "pt_expiry_height p = x" using Cons.prems i None x by (auto simp: map_error_def split: if_splits)
    obtain raw where "decrypt_payload cipher (pt_encrypted_raw_tx p) pw salt = Some raw"
      using Cons.prems i None x e by (auto simp: map_error_def)
    moreover have "tx = (pt_txid_hex p, raw)"
      using Cons.prems i None x e calculation by (simp add: map_error_def)
    moreover have "canonical_row p" using x e by (simp add: canonical_row_def)
    ultimately show ?thesis by auto
  next
    case (Some y)
    then have "first_due identity cipher pw salt ps = Inr (Some tx)" using Cons.prems i by (simp add: map_error_def)
    then show ?thesis using Cons.IH by auto
  qed
qed simp

lemma accepted_names:
  assumes "accepted_submission W policy network rid tip tb fc fz tx s = Some (Inr (Finished a), s')"
  shows "ba_accepted_txids a = [fst tx]"
proof -
  obtain r1 s1 where rec: "record_accepted_scheduled_migration_tx W rid tx fc fz s = (r1, s1)" by fastforce
  show ?thesis
  proof (cases r1)
    case (Inl e)
    then show ?thesis using assms rec
      by (auto simp: accepted_submission_def Let_def accepted_migration_processing_failure_result_def)
  next
    case (Inr m)
    show ?thesis
    proof (cases m)
      case None
      obtain r2 s2 where "redraw_peers W policy network rid tip s1 = Some (r2, s2)"
        using assms rec Inr None by (cases "redraw_peers W policy network rid tip s1") (auto simp: accepted_submission_def Let_def)
      then show ?thesis using assms rec Inr None
        by (cases r2) (auto simp: accepted_submission_def Let_def accepted_migration_processing_failure_result_def)
    next
      case (Some r)
      obtain r2 s2 where "redraw_peers_after_accepted W policy network rid tip (fst tx) s1 = Some (r2, s2)"
        using assms rec Inr Some
        by (cases "redraw_peers_after_accepted W policy network rid tip (fst tx) s1") (auto simp: accepted_submission_def Let_def)
      then show ?thesis using assms rec Inr Some by (auto simp: accepted_submission_def Let_def)
    qed
  qed
qed

text \<open>One round of the loop.\<close>

lemma one_round:
  assumes "broadcast_loop W policy network rid tip tb fc fz txs [] s = Some (res, s')"
    and "txs = [] \<or> txs = [tx]"
  shows "se_sent s' = se_sent s \<and> (\<forall>a. res = Inr (Finished a) \<longrightarrow> False) \<and> (\<forall>a. res = Inr (Continue a) \<longrightarrow> a = [])
     \<or> se_sent s' = se_sent s @ [tx] \<and> attempt_recorded rid (fst tx) (se_db s')
       \<and> (\<forall>a. res = Inr (Finished a) \<longrightarrow> ba_accepted_txids a \<in> {[], [fst tx]})
       \<and> (\<forall>a. res = Inr (Continue a) \<longrightarrow> a = [fst tx])"
proof (cases "txs = [] \<or> is_cancelled W policy s")
  case True
  then show ?thesis using assms by (cases "txs = []") auto
next
  case False
  then have txs: "txs = [tx]" and go: "\<not> is_cancelled W policy s" using assms(2) by auto
  show ?thesis
  proof (cases "mark_pending_broadcast_attempted (se_db s) rid (fst tx)")
    case (Inl e)
    then show ?thesis using assms(1) txs go by (cases tx) auto
  next
    case (Inr db)
    note marked = attempt_is_recorded [OF Inr]
    obtain answer s1 where send: "broadcast_raw_transaction_isolated W (fst tx) (snd tx) (with_db db s) = (answer, s1)" by fastforce
    then have s1: "se_db s1 = db" "se_sent s1 = se_sent s @ [tx]"
      by (auto simp: broadcast_raw_transaction_isolated_def with_db_def split: prod.splits)
    show ?thesis
    proof (cases answer)
      case e: (Inl e)
      obtain r2 s2 where rej: "rejected_submission W rid (fst tx) e fc fz s1 = (r2, s2)" by fastforce
      note k = rejected_submission_marks [OF rej]
      have "s' = s2 \<and> res = rbind r2 (\<lambda>a. Inr (Finished a))"
        using assms(1) txs go Inr send e rej by (cases tx) auto
      moreover have "attempt_recorded rid (fst tx) (se_db s2)"
        by (rule attempt_recorded_kept [OF marked]) (simp add: marks_kept_pending k s1)
      moreover have "r2 = Inr a \<Longrightarrow> ba_accepted_txids a = []" for a
      proof -
        assume "r2 = Inr a"
        then show "ba_accepted_txids a = []"
          using rej by (auto simp: rejected_submission_def Let_def without_acceptance_def split: if_splits sum.splits prod.splits)
      qed
      ultimately show ?thesis using k s1 by (cases r2) auto
    next
      case ok: (Inr u)
      obtain r2 s2 where acc: "accepted_submission W policy network rid tip tb fc fz tx s1 = Some (r2, s2)"
        using assms(1) txs go Inr send ok by (cases tx) (auto simp: Option.bind_eq_Some_conv)
      note k = accepted_submission_marks [OF acc]
      have rec: "attempt_recorded rid (fst tx) (se_db s2)"
        by (rule attempt_recorded_kept [OF marked]) (use k s1 in simp)
      have out: "s' = s2 \<and> res = (case r2 of Inl e \<Rightarrow> Inl e | Inr (Finished a) \<Rightarrow> Inr (Finished a)
          | Inr (Continue _) \<Rightarrow> Inr (Continue [fst tx]))"
        using assms(1) txs go Inr send ok acc by (cases tx) (auto split: sum.splits step_end.splits)
      have "r2 = Inr (Finished a) \<Longrightarrow> ba_accepted_txids a = [fst tx]" for a
        using acc accepted_names by blast
      then show ?thesis using out k s1 rec by (cases r2) (auto split: step_end.splits)
    qed
  qed
qed

lemma selected_result:
  assumes "broadcast_selected W policy network rid pw salt tip tb fc fz s = Some (res, s')"
  shows "se_sent s' = se_sent s \<and> (\<forall>a. res = Inr a \<longrightarrow> ba_accepted_txids a = [])
     \<or> (\<exists>tx db. se_sent s' = se_sent s @ [tx] \<and> rows_step (se_db s) db \<and> is_due_tx W rid pw tip db tx
          \<and> attempt_recorded rid (fst tx) (se_db s')
          \<and> (\<forall>a. res = Inr a \<longrightarrow> ba_accepted_txids a \<in> {[], [fst tx]}))"
proof -
  let ?c = "wo_chain W (se_world s)" and ?n = "wo_now W (se_world s)"
  obtain r1 db where sel: "due_pending_txs (wo_trusted W) (wo_unhex W) ?c (wo_cipher W) ?n ?n (se_db s) rid tip pw salt = (r1, db)"
    by fastforce
  show ?thesis
  proof (cases "\<exists>tx. r1 = Inr (Some tx) \<and> \<not> is_cancelled W policy (with_db db s)")
    case False
    have "se_sent s' = se_sent s \<and> (\<forall>a. res = Inr a \<longrightarrow> ba_accepted_txids a = [])"
    proof (cases r1)
      case (Inl e)
      then show ?thesis using assms sel by (auto simp: broadcast_selected_def Let_def with_db_def)
    next
      case (Inr m)
      show ?thesis
      proof (cases m)
        case None
        then show ?thesis using assms sel Inr
          by (cases "stored_phase (with_db db s) rid") (auto simp: broadcast_selected_def Let_def with_db_def without_acceptance_def)
      next
        case (Some tx)
        then show ?thesis using assms sel Inr False
          by (auto simp: broadcast_selected_def Let_def with_db_def without_acceptance_def)
      qed
    qed
    then show ?thesis by blast
  next
    case True
    then obtain tx where r1: "r1 = Inr (Some tx)" and go: "\<not> is_cancelled W policy (with_db db s)" by blast
    obtain sb where sb: "decode_salt (wo_cipher W) salt = Some sb"
      using sel r1 by (cases "decode_salt (wo_cipher W) salt") (auto simp: due_pending_txs_def)
    obtain r0 where rc: "reconcile_run_confirmations (wo_trusted W) (wo_unhex W) ?c ?n ?n (se_db s) rid = (r0, db)"
      using sel r1 sb by (auto simp: due_pending_txs_def split: prod.splits sum.splits)
    have fd: "first_due (local_denomination_chain_identity (wo_unhex W) ?c) (wo_cipher W) pw sb
        (sort_key (\<lambda>p. (pt_scheduled_height p, pt_txid_hex p)) (due_rows db rid tip)) = Inr (Some tx)"
      using sel r1 sb rc by (cases r0) (auto simp: due_pending_txs_def)
    have due_tx: "is_due_tx W rid pw tip db tx"
      using first_due_selects [OF fd] by (auto simp: is_due_tx_def)
    note step = reconcile_rows_step [OF rc]
    let ?txs = "take (step_limit policy (2 ^ 64 - 1)) [tx]"
    have one: "?txs = [] \<or> ?txs = [tx]" by (cases "step_limit policy (2 ^ 64 - 1)") auto
    let ?s0 = "mark_phase W rid PHASE_BROADCASTING None (with_db db s)"
    obtain r2 s2 where loop: "broadcast_loop W policy network rid tip tb fc fz ?txs [] ?s0 = Some (r2, s2)"
      using assms sel r1 go by (auto simp: broadcast_selected_def Let_def Option.bind_eq_Some_conv)
    have sent0: "se_sent ?s0 = se_sent s" by (simp add: with_db_def)
    have out: "s' = s2 \<and> res = (case r2 of Inl e \<Rightarrow> Inl e | Inr (Finished a) \<Rightarrow> Inr a
        | Inr (Continue accepted) \<Rightarrow> after_broadcast rid tb fc fz accepted s2)"
      using assms sel r1 go loop by (auto simp: broadcast_selected_def Let_def split: sum.splits step_end.splits)
    have after: "after_broadcast rid tb fc fz acc s2 = Inr a \<Longrightarrow> ba_accepted_txids a = acc" for acc a
      by (auto simp: after_broadcast_def accepted_migration_processing_failure_result_def split: sum.splits prod.splits if_splits)
    from one_round [OF loop one] show ?thesis
    proof
      assume quiet: "se_sent s2 = se_sent ?s0 \<and> (\<forall>a. r2 = Inr (Finished a) \<longrightarrow> False) \<and> (\<forall>a. r2 = Inr (Continue a) \<longrightarrow> a = [])"
      then have "\<forall>a. res = Inr a \<longrightarrow> ba_accepted_txids a = []"
        using out after by (cases r2) (auto split: step_end.splits)
      then show ?thesis using quiet sent0 out by simp
    next
      assume sent: "se_sent s2 = se_sent ?s0 @ [tx] \<and> attempt_recorded rid (fst tx) (se_db s2)
        \<and> (\<forall>a. r2 = Inr (Finished a) \<longrightarrow> ba_accepted_txids a \<in> {[], [fst tx]})
        \<and> (\<forall>a. r2 = Inr (Continue a) \<longrightarrow> a = [fst tx])"
      have "\<forall>a. res = Inr a \<longrightarrow> ba_accepted_txids a \<in> {[], [fst tx]}"
      proof (intro allI impI)
        fix a assume a: "res = Inr a"
        show "ba_accepted_txids a \<in> {[], [fst tx]}"
        proof (cases r2)
          case (Inr x)
          show ?thesis using a out sent after Inr by (cases x) auto
        qed (use a out in simp)
      qed
      then show ?thesis
        using sent sent0 out step due_tx by (intro disjI2 exI [of _ tx] exI [of _ db] conjI) simp_all
    qed
  qed
qed

text \<open>
  C2. One call of the sender hands at most one transaction to the network, whatever the network, the
  wallet and the clock answer and however the call ends. That transaction is due at the height of the
  chain, its expiry is canonical for its height, and its bytes are those that the run had stored under
  its id. When the call ends, also with an error, every row of that transaction is marked as attempted or
  is no longer scheduled. The result names no other transaction as accepted.
\<close>

theorem sent_after_marking:
  assumes "broadcast_due_scheduled_migration_txs W network rid pw salt fc fz policy s = Some (res, s')"
  shows "se_sent s' = se_sent s \<and> (\<forall>a. res = Inr a \<longrightarrow> ba_accepted_txids a = [])
     \<or> (\<exists>tx tip db. se_sent s' = se_sent s @ [tx]
          \<and> wo_chain_tip W (se_world s) = Inr tip \<and> rows_step (se_db s) db \<and> is_due_tx W rid pw tip db tx
          \<and> attempt_recorded rid (fst tx) (se_db s')
          \<and> (\<forall>a. res = Inr a \<longrightarrow> ba_accepted_txids a \<in> {[], [fst tx]}))"
proof -
  obtain tip where r: "reaches W policy network rid pw salt tip fc fz s (res, s')"
    and tip: "se_sent s' \<noteq> se_sent s \<longrightarrow> wo_chain_tip W (se_world s) = Inr tip"
    using broadcast_due_reaches [OF assms] by auto
  from r consider "se_sent s' = se_sent s" "\<forall>a. res = Inr a \<longrightarrow> ba_accepted_txids a = []"
    | tb s1 where "rows_step (se_db s) (se_db s1)" "se_sent s1 = se_sent s"
        "broadcast_selected W policy network rid pw salt tip tb fc fz s1 = Some (res, s')"
    by (auto simp: reaches_def)
  then show ?thesis
  proof cases
    case 1
    then show ?thesis by blast
  next
    case (2 tb s1)
    from selected_result [OF 2(3)] show ?thesis
    proof
      assume "se_sent s' = se_sent s1 \<and> (\<forall>a. res = Inr a \<longrightarrow> ba_accepted_txids a = [])"
      then show ?thesis using 2(2) by simp
    next
      assume "\<exists>tx db. se_sent s' = se_sent s1 @ [tx] \<and> rows_step (se_db s1) db \<and> is_due_tx W rid pw tip db tx
          \<and> attempt_recorded rid (fst tx) (se_db s') \<and> (\<forall>a. res = Inr a \<longrightarrow> ba_accepted_txids a \<in> {[], [fst tx]})"
      then obtain tx db where "se_sent s' = se_sent s @ [tx]" "rows_step (se_db s1) db" "is_due_tx W rid pw tip db tx"
        "attempt_recorded rid (fst tx) (se_db s')" "\<forall>a. res = Inr a \<longrightarrow> ba_accepted_txids a \<in> {[], [fst tx]}"
        using 2(2) by auto
      moreover from this have "wo_chain_tip W (se_world s) = Inr tip" using tip by simp
      ultimately show ?thesis using rows_step_trans [OF 2(1)] by blast
    qed
  qed
qed

text \<open>The example transaction over a network that does not answer: it is sent, and it is marked.\<close>

definition no_locks :: "unit lock_api" where
  "no_locks = \<lparr>la_sha256 = \<lambda>bytes. bytes, la_heights = \<lambda>w. Inr None, la_spendable = \<lambda>w x h. Inr False,
     la_unspent = \<lambda>w account h. Inr [], la_lock = \<lambda>xs owner h w. Inr w, la_unlock = \<lambda>x owner w. Inr w\<rparr>"

definition silent_world :: "(unit, nat, nat) world" where
  "silent_world = \<lparr>wo_trusted = 3, wo_flavor = example_flavor, wo_unhex = example_unhex, wo_cipher = plain_cipher,
     wo_sampler = counter_sampler, wo_locks = no_locks, wo_chain = \<lambda>w. empty_wallet,
     wo_spends = \<lambda>w. \<lparr>ws_notes = None, ws_spends = None\<rparr>, wo_chain_tip = \<lambda>w. Inr 100, wo_scanned = \<lambda>w. Inr 100,
     wo_now = \<lambda>w. 5, wo_random = \<lambda>w. 0, wo_nonce = \<lambda>w. 0, wo_cancelled = \<lambda>w. False,
     wo_canonical_fee = \<lambda>network h. Inr 15000, wo_send = \<lambda>raw w. (Inl ''timeout'', w), wo_store = \<lambda>raw w. (Inr (), w),
     wo_db_error = \<lambda>call w. None\<rparr>"

definition example_fresh_part :: pending_row where
  "example_fresh_part = example_pending\<lparr>pt_status := ''scheduled'', pt_broadcast_attempted := 0\<rparr>"

definition example_fresh_db :: migration_db where
  "example_fresh_db = example_waiting_db
     \<lparr>mdb_runs := [example_waiting_run\<lparr>rr_phase := PHASE_BROADCAST_SCHEDULED\<rparr>], mdb_pending := [example_fresh_part]\<rparr>"

theorem sent_after_marking_witness:
  "\<exists>a s'. broadcast_due_scheduled_migration_txs silent_world Test ''run'' [1] ''salt'' 1 0 ONE_FOREGROUND
       \<lparr>se_db = example_fresh_db, se_world = (), se_sent = []\<rparr> = Some (Inr a, s')
     \<and> se_sent s' = [(''t'', [])] \<and> attempt_recorded ''run'' ''t'' (se_db s')"
proof -
  let ?s = "\<lparr>se_db = example_fresh_db, se_world = (), se_sent = []\<rparr>"
  have W: "wo_trusted silent_world = 3" "wo_unhex silent_world = example_unhex" "wo_cipher silent_world = plain_cipher"
    "wo_chain silent_world = (\<lambda>w. empty_wallet)" "wo_now silent_world = (\<lambda>w. 5)" "wo_chain_tip silent_world = (\<lambda>w. Inr 100)"
    "wo_spends silent_world = (\<lambda>w. \<lparr>ws_notes = None, ws_spends = None\<rparr>)"
    "wo_canonical_fee silent_world = (\<lambda>network h. Inr 15000)" "wo_send silent_world = (\<lambda>raw w. (Inl ''timeout'', w))"
    by (simp_all add: silent_world_def)
  have rows: "pending_rows example_fresh_db ''run'' = [example_fresh_part]"
    by (simp add: pending_rows_def example_fresh_db_def example_fresh_part_def example_pending_def)
  have part: "pt_txid_hex example_fresh_part = ''t''" "pt_status example_fresh_part = ''scheduled''"
    "pt_expiry_height example_fresh_part = 69120" "pt_scheduled_height example_fresh_part = 95"
    "pt_fee_zatoshi example_fresh_part = 15000" "pt_value_zatoshi example_fresh_part = 100000000"
    "pt_encrypted_raw_tx example_fresh_part = []" "pt_run_id example_fresh_part = ''run''"
    by (simp_all add: example_fresh_part_def example_pending_def)
  have follow: "reconcile_run_confirmations 3 example_unhex empty_wallet 5 5 example_fresh_db ''run'' = (Inr (), example_fresh_db)"
    by (rule follow_one_part(1) [where r = "example_waiting_run\<lparr>rr_phase := PHASE_BROADCAST_SCHEDULED\<rparr>" and p = example_fresh_part])
       (simp_all add: example_fresh_db_def example_waiting_db_def example_waiting_run_def part)
  have salt: "decode_salt plain_cipher ''salt'' = Some []" "decrypt_payload plain_cipher [] [1] [] = Some []"
    by (simp_all add: plain_cipher_def)
  have totals: "run_totals ?s ''run'' = Inr \<lparr>to_txids = [''t''], to_value_zatoshi = 100000000, to_fee_zatoshi = 15000,
      to_total_count = 1, to_broadcasted_count = 0\<rparr>"
    by (simp add: run_totals_def pending_totals_for_run_def rows add_to_totals_def part checked_add_def map_error_def)
  have missing: "missing_stored silent_world ''run'' [1] ''salt'' ?s = Inr []"
    by (simp add: missing_stored_def W broadcasted_pending_txs_missing_local_identity_def salt rows part map_error_def)
  have policy: "retry_store_then_pending_migration_policy_rebuild_message silent_world Test ''run'' 100 [1] ''salt'' ?s = (Inr None, ?s)"
    using missing
    by (simp add: retry_store_then_pending_migration_policy_rebuild_message_def
        retry_store_broadcasted_migration_txs_missing_local_def reconcile_run_pending_confirmations_def W follow with_db_def
        pending_migration_policy_rebuild_message_def checked_add_def noncanonical_unconfirmed_fee_count_def rows part
        try_u32_def scheduled_inputs_spent_by_mined_transactions_def map_error_def split: option.splits)
  have expiry: "canonical_expiry 100 = Inr 69120" "canonical_expiry 95 = Inr 69120"
    by (simp_all add: zip318_canonical_migration_expiry_height_def const_defs checked_mul_def checked_add_def)
  have expired: "expired_unconfirmed_pending_count 3 example_unhex empty_wallet 5 5 example_fresh_db ''run'' 100 =
      (Inr 0, example_fresh_db)"
    by (simp add: expired_unconfirmed_pending_count_def follow expired_unconfirmed_pending_txids_def rows part try_u32_def map_error_def)
  have none_crossed: "sql_update_pending (\<lambda>p. pt_run_id p = ''run'' \<and> pt_status p = ''scheduled'' \<and> pt_scheduled_height p \<le> 100
      \<and> pt_expiry_height p \<noteq> 69120) (set_part_status ''needs_resign'') example_fresh_db = (0, example_fresh_db)"
    by (simp add: sql_update_pending_def example_fresh_db_def part)
  have crossed: "mark_due_parts_with_noncanonical_broadcast_height_for_resign 3 example_unhex empty_wallet 5 5 5
      example_fresh_db ''run'' 100 = (Inr 0, example_fresh_db)"
    by (simp add: mark_due_parts_with_noncanonical_broadcast_height_for_resign_def expiry follow none_crossed try_u32_def
        del: canonical_expiry_eq)
  have sel: "due_pending_txs 3 example_unhex empty_wallet plain_cipher 5 5 example_fresh_db ''run'' 100 [1] ''salt'' =
      (Inr (Some (''t'', [])), example_fresh_db)"
    by (simp add: due_pending_txs_def salt follow due_rows_def rows part empty_wallet_identity expiry map_error_def
        del: canonical_expiry_eq)
  let ?marked = "mark_phase silent_world ''run'' PHASE_BROADCASTING None ?s"
  obtain db1 where att: "mark_pending_broadcast_attempted (se_db ?marked) ''run'' ''t'' = Inr db1"
    by (simp add: mark_pending_broadcast_attempted_def sql_update_pending_def mark_phase_def with_db_def mark_run_phase_def
        example_fresh_db_def part)
  have att_rows: "mdb_pending db1 = [example_fresh_part\<lparr>pt_broadcast_attempted := 1\<rparr>]"
    using att by (auto simp: mark_pending_broadcast_attempted_def sql_update_pending_def mark_phase_def with_db_def mark_run_phase_def
        example_fresh_db_def part)
  have timeout: "\<not> broadcast_failure_requires_rebuild ''timeout''" by (simp add: broadcast_failure_requires_rebuild_def)
  have "\<exists>a s'. broadcast_loop silent_world ONE_FOREGROUND Test ''run'' 100 tb 1 0 [(''t'', [])] [] ?marked = Some (Inr (Finished a), s')
      \<and> se_sent s' = [(''t'', [])]" for tb
    by (simp add: is_cancelled_def ONE_FOREGROUND_def att broadcast_raw_transaction_isolated_def W rejected_submission_def
        timeout run_totals_def pending_totals_for_run_def pending_rows_def att_rows add_to_totals_def part checked_add_def
        map_error_def with_db_def Let_def)
  then obtain a s' where loop: "broadcast_loop silent_world ONE_FOREGROUND Test ''run'' 100 \<lparr>to_txids = [''t''],
      to_value_zatoshi = 100000000, to_fee_zatoshi = 15000, to_total_count = 1, to_broadcasted_count = 0\<rparr> 1 0
      [(''t'', [])] [] ?marked = Some (Inr (Finished a), s')" and sent: "se_sent s' = [(''t'', [])]" by blast
  have one: "take (step_limit ONE_FOREGROUND (2 ^ 64 - 1)) [(''t'', [])] = [(''t'', [])]"
    by (simp add: step_limit_def ONE_FOREGROUND_def unwrap_or_def)
  have go: "\<not> is_cancelled W' ONE_FOREGROUND s0" for W' s0 by (simp add: is_cancelled_def ONE_FOREGROUND_def)
  have run: "broadcast_due_scheduled_migration_txs silent_world Test ''run'' [1] ''salt'' 1 0 ONE_FOREGROUND ?s = Some (Inr a, s')"
  proof -
    have sel': "broadcast_selected silent_world ONE_FOREGROUND Test ''run'' [1] ''salt'' 100
        \<lparr>to_txids = [''t''], to_value_zatoshi = 100000000, to_fee_zatoshi = 15000, to_total_count = 1,
          to_broadcasted_count = 0\<rparr> 1 0 ?s = Some (Inr a, s')"
      unfolding broadcast_selected_def
      by (simp only: sel Let_def W sender.simps) (simp add: go one [simplified] loop with_db_def del: broadcast_loop.simps One_nat_def)
    show ?thesis
      by (simp add: broadcast_due_scheduled_migration_txs_def totals W policy broadcast_unexpired_def expired crossed
        sel' with_db_def del: One_nat_def)
  qed
  then show ?thesis using sent_after_marking [OF run] sent by auto
qed

end
