(* ===== verification/Request_Stores.thy ===== *)
theory Request_Stores
  imports Run_Lifecycle "HOL-Library.AList"
begin

text \<open>
  The signing requests of a hardware signer (\<open>send/ironwood_migration/keystone_requests.rs\<close> and the
  request handling of \<open>send/ironwood_migration.rs\<close>): four stores in memory, one per kind of request, that
  the handlers, the proof workers and the discards share. Every access holds the mutex of its store, so
  each function here that takes a store is one atomic step.

  A hash map is the list of its entries with one entry for a key.
\<close>

section \<open>Requests\<close>

datatype request_state = Proofing | ProofReady | ProofFailed | Completing

record created_stage =
  cs_id :: string
  cs_base_pczt :: "byte list"
  cs_orchard_spend_action_indices :: "usize list"
  cs_redacted_pczt :: "byte list"
  cs_pczt_with_proofs :: "byte list option"
  cs_expected_txid_hex :: string
  cs_target_height :: u32
  cs_scheduled_height :: u32
  cs_expiry_height :: u32
  cs_fee_zatoshi :: u64
  cs_deferred :: bool
  cs_inputs :: "stage_input_ref list"
  cs_outputs :: "stage_output_ref list"

record created_message =
  cm_part_index :: u32
  cm_id :: string
  cm_base_pczt :: "byte list"
  cm_orchard_spend_action_indices :: "usize list"
  cm_pczt_with_proofs :: "byte list option"
  cm_redacted_pczt :: "byte list"
  cm_target_height :: u32
  cm_anchor_boundary_height :: "u32 option"
  cm_expiry_height :: u32
  cm_scheduled_height :: u32
  cm_fee_zatoshi :: u64
  cm_migrated_zatoshi :: u64
  cm_selected_note :: orchard_note_ref

text \<open>The fields that all requests have, and those of the two kinds that prepare a split.\<close>

record request =
  rq_account_uuid :: string
  rq_network :: wallet_network
  rq_state :: request_state
  rq_proof_error :: "string option"

record split_request = request +
  rq_preparation_timing_policy :: preparation_timing_policy
  rq_split_stages :: "created_stage list"
  rq_direct_prepared_refs :: "orchard_note_ref list"
  rq_total_migratable_zatoshi :: u64
  rq_plan :: denomination_plan

record denomination_request = split_request +
  rq_draft_run_id :: "string option"

record single_qr_request = split_request +
  rq_child_messages :: "created_message list"
  rq_approved_schedule :: "schedule_entry list"

record batch_request = request +
  rq_run_id :: string
  rq_fallback_total_count :: u32
  rq_fallback_migrated_zatoshi :: u64
  rq_recovery_old_txids :: "string list"
  rq_messages :: "created_message list"

record immediate_request = request +
  rq_message_id :: string
  rq_base_pczt :: "byte list"
  rq_pczt_with_proofs :: "byte list option"
  rq_fee_zatoshi :: u64
  rq_migrated_zatoshi :: u64
  rq_input_lock :: "(byte list \<times> output_ref list) option"

type_synonym 'r store = "(string \<times> 'r) list"

record request_stores =
  ks_immediate :: "immediate_request store"
  ks_single_qr :: "single_qr_request store"
  ks_denomination :: "denomination_request store"
  ks_batch :: "batch_request store"

datatype request_error =
  NoSignedMessages string | SignedIdEmpty | NoSignatures string | DuplicateSigned string
| NoMessages | MessageIdEmpty | EmptyPayload string | DuplicateMessageId string | DuplicatePayload
| RequestInProgress | RequestNotFound string | RequestOfOtherAccount | SignedCountMismatch nat nat
| StillProofing | ProofsFailed string | AlreadyCompleting | ProofsNotReady
| MessageCountOverflow | DifferentMessage | ResultMissing string

section \<open>Entries\<close>

definition retain :: "('r \<Rightarrow> bool) \<Rightarrow> 'r store \<Rightarrow> 'r store" where
  "retain keep store = filter (\<lambda>(_, stored). keep stored) store"

definition prune_failed :: "string \<Rightarrow> wallet_network \<Rightarrow> 'a request_scheme store \<Rightarrow> 'a request_scheme store" where
  "prune_failed account_uuid network store =
     retain (\<lambda>r. \<not> (rq_account_uuid r = account_uuid \<and> rq_network r = network \<and> rq_state r = ProofFailed)) store"

text \<open>The check that the immediate, the denomination and the single-code requests share.\<close>

definition ensure_no_live_request ::
    "string \<Rightarrow> wallet_network \<Rightarrow> 'a request_scheme store \<Rightarrow> (request_error + unit) \<times> 'a request_scheme store" where
  "ensure_no_live_request account_uuid network store =
     (let store = prune_failed account_uuid network store in
      (if list_ex (\<lambda>(_, r). rq_account_uuid r = account_uuid \<and> rq_network r = network) store
       then Inl RequestInProgress else Inr (), store))"

definition prune_failed_migration_requests ::
    "string \<Rightarrow> wallet_network \<Rightarrow> string \<Rightarrow> batch_request store \<Rightarrow> batch_request store" where
  "prune_failed_migration_requests account_uuid network run_id store =
     retain (\<lambda>r. \<not> (rq_account_uuid r = account_uuid \<and> rq_network r = network \<and> rq_run_id r = run_id
       \<and> rq_state r = ProofFailed)) store"

definition ensure_no_live_migration_request ::
    "string \<Rightarrow> wallet_network \<Rightarrow> string \<Rightarrow> batch_request store \<Rightarrow> (request_error + unit) \<times> batch_request store" where
  "ensure_no_live_migration_request account_uuid network run_id store =
     (let store = prune_failed_migration_requests account_uuid network run_id store in
      (if list_ex (\<lambda>(_, r). rq_account_uuid r = account_uuid \<and> rq_network r = network \<and> rq_run_id r = run_id) store
       then Inl RequestInProgress else Inr (), store))"

section \<open>Messages\<close>

record keystone_message =
  km_id :: string
  km_redacted_pczt :: "byte list"
  km_expected_signature_count :: u32

definition keystone_migration_message :: "string \<Rightarrow> byte list \<Rightarrow> usize \<Rightarrow> keystone_message" where
  "keystone_migration_message i redacted_pczt expected_signature_count =
     \<lparr>km_id = i, km_redacted_pczt = redacted_pczt,
      km_expected_signature_count =
        (if expected_signature_count < 2 ^ 32 then expected_signature_count else 2 ^ 32 - 1)\<rparr>"

fun check_messages :: "string set \<Rightarrow> byte list set \<Rightarrow> keystone_message list \<Rightarrow> request_error + unit" where
  "check_messages ids payloads [] = Inr ()"
| "check_messages ids payloads (m # ms) =
     (if km_id m = [] then Inl MessageIdEmpty
      else if km_redacted_pczt m = [] then Inl (EmptyPayload (km_id m))
      else if km_id m \<in> ids then Inl (DuplicateMessageId (km_id m))
      else if km_redacted_pczt m \<in> payloads then Inl DuplicatePayload
      else check_messages (insert (km_id m) ids) (insert (km_redacted_pczt m) payloads) ms)"

definition validate_keystone_migration_messages :: "keystone_message list \<Rightarrow> request_error + unit" where
  "validate_keystone_migration_messages messages =
     (if messages = [] then Inl NoMessages else check_messages {} {} messages)"

text \<open>The signatures that came back, by message.\<close>

type_synonym signed_message = "string \<times> spend_auth_signature list"

fun collect_signed ::
    "signed_message list \<Rightarrow> (string \<times> spend_auth_signature list) list \<Rightarrow>
     request_error + (string \<times> spend_auth_signature list) list" where
  "collect_signed [] by_id = Inr by_id"
| "collect_signed ((i, sigs) # ms) by_id =
     (if i = [] then Inl SignedIdEmpty
      else if sigs = [] then Inl (NoSignatures i)
      else if map_of by_id i \<noteq> None then Inl (DuplicateSigned i)
      else collect_signed ms (AList.update i sigs by_id))"

definition signed_migration_messages_by_id ::
    "string \<Rightarrow> signed_message list \<Rightarrow> request_error + (string \<times> spend_auth_signature list) list" where
  "signed_migration_messages_by_id request_id signed_messages =
     (if signed_messages = [] then Inl (NoSignedMessages request_id) else collect_signed signed_messages [])"

section \<open>Status\<close>

record proof_status =
  ps_ready_count :: u32
  ps_total_count :: u32
  ps_is_ready :: bool
  ps_is_failed :: bool
  ps_message :: "string option"

definition proof_status_from_counts :: "usize \<Rightarrow> usize \<Rightarrow> request_state \<Rightarrow> string option \<Rightarrow> proof_status" where
  "proof_status_from_counts ready_count all_count state message =
     \<lparr>ps_ready_count = ready_count mod 2 ^ 32, ps_total_count = all_count mod 2 ^ 32,
      ps_is_ready = (state = ProofReady), ps_is_failed = (state = ProofFailed), ps_message = message\<rparr>"

definition split_roots :: "created_stage list \<Rightarrow> created_stage list" where
  "split_roots stages = filter (\<lambda>s. \<not> cs_deferred s) stages"

definition split_proof_status :: "'a split_request_scheme \<Rightarrow> proof_status" where
  "split_proof_status r =
     proof_status_from_counts
       (length (filter (\<lambda>s. cs_pczt_with_proofs s \<noteq> None) (split_roots (rq_split_stages r))))
       (length (split_roots (rq_split_stages r))) (rq_state r) (rq_proof_error r)"

definition keystone_migration_proof_status :: "request_stores \<Rightarrow> string \<Rightarrow> request_error + proof_status" where
  "keystone_migration_proof_status ks request_id =
     (case map_of (ks_immediate ks) request_id of
        Some r \<Rightarrow> Inr (proof_status_from_counts (if rq_pczt_with_proofs r \<noteq> None then 1 else 0) 1
                    (rq_state r) (rq_proof_error r))
      | None \<Rightarrow>
     (case map_of (ks_single_qr ks) request_id of
        Some r \<Rightarrow> Inr (split_proof_status r)
      | None \<Rightarrow>
     (case map_of (ks_denomination ks) request_id of
        Some r \<Rightarrow> Inr (split_proof_status r)
      | None \<Rightarrow>
     (case map_of (ks_batch ks) request_id of
        Some r \<Rightarrow> Inr (proof_status_from_counts
                    (length (filter (\<lambda>m. cm_pczt_with_proofs m \<noteq> None) (rq_messages r)))
                    (length (rq_messages r)) (rq_state r) (rq_proof_error r))
      | None \<Rightarrow> Inl (RequestNotFound request_id)))))"

section \<open>Discarding\<close>

text \<open>
  The block for one store: whether the search ends here, and the store. A request that is completing is
  kept and ends the search.
\<close>

definition discard_entry :: "string \<Rightarrow> 'a request_scheme store \<Rightarrow> bool \<times> 'a request_scheme store" where
  "discard_entry request_id store =
     (case map_of store request_id of
        None \<Rightarrow> (False, store)
      | Some r \<Rightarrow> (True, if rq_state r = Completing then store else AList.delete request_id store))"

definition discard_keystone_migration_request :: "string \<Rightarrow> request_stores \<Rightarrow> request_stores" where
  "discard_keystone_migration_request request_id ks =
     (case discard_entry request_id (ks_immediate ks) of
        (True, s) \<Rightarrow> ks\<lparr>ks_immediate := s\<rparr>
      | (False, _) \<Rightarrow>
     (case discard_entry request_id (ks_single_qr ks) of
        (True, s) \<Rightarrow> ks\<lparr>ks_single_qr := s\<rparr>
      | (False, _) \<Rightarrow>
     (case discard_entry request_id (ks_denomination ks) of
        (True, s) \<Rightarrow> ks\<lparr>ks_denomination := s\<rparr>
      | (False, _) \<Rightarrow> ks\<lparr>ks_batch := snd (discard_entry request_id (ks_batch ks))\<rparr>)))"

definition of_account :: "string \<Rightarrow> wallet_network \<Rightarrow> 'a request_scheme \<Rightarrow> bool" where
  "of_account account_uuid network r \<longleftrightarrow> rq_account_uuid r = account_uuid \<and> rq_network r = network"

definition discard_keystone_migration_requests_for_account ::
    "string \<Rightarrow> wallet_network \<Rightarrow> request_stores \<Rightarrow> request_stores" where
  "discard_keystone_migration_requests_for_account account_uuid network ks =
     \<lparr>ks_immediate = retain (\<lambda>r. \<not> of_account account_uuid network r) (ks_immediate ks),
      ks_single_qr = retain (\<lambda>r. \<not> of_account account_uuid network r) (ks_single_qr ks),
      ks_denomination = retain (\<lambda>r. \<not> of_account account_uuid network r) (ks_denomination ks),
      ks_batch = retain (\<lambda>r. \<not> of_account account_uuid network r) (ks_batch ks)\<rparr>"

definition discard_keystone_migration_requests_for_run ::
    "string \<Rightarrow> wallet_network \<Rightarrow> string \<Rightarrow> request_stores \<Rightarrow> request_stores" where
  "discard_keystone_migration_requests_for_run account_uuid network run_id ks =
     ks\<lparr>ks_denomination := retain (\<lambda>r. \<not> (of_account account_uuid network r \<and> rq_draft_run_id r = Some run_id))
          (ks_denomination ks),
        ks_batch := retain (\<lambda>r. \<not> (of_account account_uuid network r \<and> rq_run_id r = run_id)) (ks_batch ks)\<rparr>"

definition discard_all_keystone_migration_requests :: "request_stores \<Rightarrow> request_stores" where
  "discard_all_keystone_migration_requests ks =
     \<lparr>ks_immediate = [], ks_single_qr = [], ks_denomination = [], ks_batch = []\<rparr>"

section \<open>Proof workers\<close>

text \<open>
  A worker holds the id of its request and the proofs it still has to make. One proof is made without
  the mutex; its result is stored in one step, which also says whether the worker goes on. \<open>prove\<close> is
  the library's prover.
\<close>

definition set_entry :: "string \<Rightarrow> ('r \<Rightarrow> 'r) \<Rightarrow> 'r store \<Rightarrow> 'r store" where
  "set_entry request_id f store =
     (case map_of store request_id of None \<Rightarrow> store | Some r \<Rightarrow> AList.update request_id (f r) store)"

definition proof_failed :: "string \<Rightarrow> 'a request_scheme \<Rightarrow> 'a request_scheme" where
  "proof_failed e r = r\<lparr>rq_proof_error := Some e, rq_state := ProofFailed\<rparr>"

fun set_first :: "('a \<Rightarrow> bool) \<Rightarrow> ('a \<Rightarrow> 'a) \<Rightarrow> 'a list \<Rightarrow> 'a list" where
  "set_first P f [] = []"
| "set_first P f (x # xs) = (if P x then f x # xs else x # set_first P f xs)"

definition store_split_proof ::
    "string \<Rightarrow> string \<Rightarrow> string + byte list \<Rightarrow> 'a split_request_scheme store \<Rightarrow> bool \<times> 'a split_request_scheme store" where
  "store_split_proof request_id i result store =
     (case map_of store request_id of
        None \<Rightarrow> (False, store)
      | Some stored \<Rightarrow>
          if rq_state stored = Completing then (False, store)
          else
            case result of
              Inl e \<Rightarrow> (False, AList.update request_id (proof_failed e stored) store)
            | Inr proofs \<Rightarrow>
                if list_ex (\<lambda>s. cs_id s = i) (rq_split_stages stored)
                then (True, AList.update request_id (stored\<lparr>rq_split_stages :=
                       set_first (\<lambda>s. cs_id s = i) (cs_pczt_with_proofs_update (\<lambda>_. Some proofs))
                         (rq_split_stages stored)\<rparr>) store)
                else (False, AList.update request_id (proof_failed (''Missing split root '' @ i) stored) store))"

text \<open>The batch worker also looks, before each proof, whether its request is still there.\<close>

definition batch_request_remains :: "string \<Rightarrow> batch_request store \<Rightarrow> bool" where
  "batch_request_remains request_id store \<longleftrightarrow> map_of store request_id \<noteq> None"

definition store_batch_proof ::
    "string \<Rightarrow> string \<Rightarrow> string + byte list \<Rightarrow> batch_request store \<Rightarrow> bool \<times> batch_request store" where
  "store_batch_proof request_id i result store =
     (case map_of store request_id of
        None \<Rightarrow> (False, store)
      | Some stored \<Rightarrow>
          if rq_state stored = Completing then (False, store)
          else
            case result of
              Inl e \<Rightarrow> (False, AList.update request_id (proof_failed e stored) store)
            | Inr proofs \<Rightarrow>
                (True, AList.update request_id (stored\<lparr>rq_messages :=
                   set_first (\<lambda>m. cm_id m = i) (cm_pczt_with_proofs_update (\<lambda>_. Some proofs))
                     (rq_messages stored)\<rparr>) store))"

definition store_immediate_proof ::
    "string \<Rightarrow> string + byte list \<Rightarrow> immediate_request store \<Rightarrow> immediate_request store" where
  "store_immediate_proof request_id result store =
     (case map_of store request_id of
        None \<Rightarrow> store
      | Some stored \<Rightarrow>
          if rq_state stored = Completing then store
          else
            AList.update request_id
              (case result of
                 Inr proofed \<Rightarrow> stored\<lparr>rq_pczt_with_proofs := Some proofed, rq_proof_error := None,
                   rq_state := ProofReady\<rparr>
               | Inl e \<Rightarrow> proof_failed e (stored\<lparr>rq_pczt_with_proofs := None\<rparr>)) store)"

text \<open>The last step of a worker that made all its proofs.\<close>

definition all_proofs_ready :: "string \<Rightarrow> 'a request_scheme store \<Rightarrow> 'a request_scheme store" where
  "all_proofs_ready request_id store =
     set_entry request_id (\<lambda>r. if rq_state r = Completing then r else r\<lparr>rq_state := ProofReady\<rparr>) store"

text \<open>The threads, when nothing comes between their steps.\<close>

fun split_proof_worker ::
    "(byte list \<Rightarrow> string + byte list) \<Rightarrow> string \<Rightarrow> (string \<times> byte list) list \<Rightarrow> 'a split_request_scheme store \<Rightarrow>
     'a split_request_scheme store" where
  "split_proof_worker prove request_id [] store = all_proofs_ready request_id store"
| "split_proof_worker prove request_id ((i, base) # todo) store =
     (case store_split_proof request_id i (prove base) store of
        (False, store) \<Rightarrow> store
      | (True, store) \<Rightarrow> split_proof_worker prove request_id todo store)"

fun batch_proof_worker ::
    "(byte list \<Rightarrow> string + byte list) \<Rightarrow> string \<Rightarrow> (string \<times> byte list) list \<Rightarrow> batch_request store \<Rightarrow>
     batch_request store" where
  "batch_proof_worker prove request_id [] store = all_proofs_ready request_id store"
| "batch_proof_worker prove request_id ((i, base) # todo) store =
     (if \<not> batch_request_remains request_id store then store
      else
        case store_batch_proof request_id i (prove base) store of
          (False, store) \<Rightarrow> store
        | (True, store) \<Rightarrow> batch_proof_worker prove request_id todo store)"

text \<open>A worker that could not be started.\<close>

definition worker_not_started :: "string \<Rightarrow> string \<Rightarrow> 'a request_scheme store \<Rightarrow> 'a request_scheme store" where
  "worker_not_started request_id message store = set_entry request_id (proof_failed message) store"

definition reset_after_failed_completion :: "string \<Rightarrow> 'a request_scheme store \<Rightarrow> 'a request_scheme store" where
  "reset_after_failed_completion request_id store =
     set_entry request_id (\<lambda>r. if rq_state r = Completing then r\<lparr>rq_state := ProofReady\<rparr> else r) store"

section \<open>Taking a request for completion\<close>

text \<open>The match on the state, once the signed messages fit.\<close>

fun completable :: "request_state \<Rightarrow> string option \<Rightarrow> request_error + unit" where
  "completable Proofing e = Inl StillProofing"
| "completable ProofFailed e =
     Inl (ProofsFailed (unwrap_or ''Vizor proof generation failed. Reject and prepare a new request.'' e))"
| "completable Completing e = Inl AlreadyCompleting"
| "completable ProofReady e = Inr ()"

definition take_request ::
    "('a request_scheme \<Rightarrow> request_error + usize) \<Rightarrow> ('a request_scheme \<Rightarrow> bool) \<Rightarrow> string \<Rightarrow> wallet_network \<Rightarrow> string \<Rightarrow> usize \<Rightarrow>
     'a request_scheme store \<Rightarrow> (request_error + 'a request_scheme) \<times> 'a request_scheme store" where
  "take_request expected proofs_missing account_uuid network request_id signed_count store =
     (case map_of store request_id of
        None \<Rightarrow> (Inl (RequestNotFound request_id), store)
      | Some stored \<Rightarrow>
          (case (if \<not> of_account account_uuid network stored then Inl RequestOfOtherAccount
                 else rbind (expected stored) (\<lambda>n.
                      if signed_count \<noteq> n then Inl (SignedCountMismatch signed_count n)
                      else rbind (completable (rq_state stored) (rq_proof_error stored)) (\<lambda>_.
                           if proofs_missing stored then Inl ProofsNotReady else Inr ()))) of
             Inl e \<Rightarrow> (Inl e, store)
           | Inr _ \<Rightarrow> (Inr stored, AList.update request_id (stored\<lparr>rq_state := Completing\<rparr>) store)))"

definition roots_missing :: "'a split_request_scheme \<Rightarrow> bool" where
  "roots_missing r \<longleftrightarrow> list_ex (\<lambda>s. \<not> cs_deferred s \<and> cs_pczt_with_proofs s = None) (rq_split_stages r)"

definition take_denomination_request ::
    "string \<Rightarrow> wallet_network \<Rightarrow> string \<Rightarrow> usize \<Rightarrow> denomination_request store \<Rightarrow>
     (request_error + denomination_request) \<times> denomination_request store" where
  "take_denomination_request account_uuid network request_id signed_count store =
     take_request (\<lambda>r. Inr (length (rq_split_stages r))) roots_missing account_uuid network request_id signed_count store"

definition take_single_qr_request ::
    "string \<Rightarrow> wallet_network \<Rightarrow> string \<Rightarrow> usize \<Rightarrow> single_qr_request store \<Rightarrow>
     (request_error + single_qr_request) \<times> single_qr_request store" where
  "take_single_qr_request account_uuid network request_id signed_count store =
     take_request (\<lambda>r. ok_or MessageCountOverflow
         (checked_add 64 (length (rq_child_messages r)) (length (rq_split_stages r))))
       roots_missing account_uuid network request_id signed_count store"

definition take_batch_request ::
    "string \<Rightarrow> wallet_network \<Rightarrow> string \<Rightarrow> usize \<Rightarrow> batch_request store \<Rightarrow>
     (request_error + batch_request) \<times> batch_request store" where
  "take_batch_request account_uuid network request_id signed_count store =
     take_request (\<lambda>r. Inr (length (rq_messages r)))
       (\<lambda>r. rq_recovery_old_txids r \<noteq> [] \<and> list_ex (\<lambda>m. cm_pczt_with_proofs m = None) (rq_messages r))
       account_uuid network request_id signed_count store"

text \<open>An immediate request is taken out of its store instead.\<close>

definition take_immediate_request ::
    "string \<Rightarrow> wallet_network \<Rightarrow> string \<Rightarrow> (string \<times> spend_auth_signature list) list \<Rightarrow> immediate_request store \<Rightarrow>
     (request_error + immediate_request) \<times> immediate_request store" where
  "take_immediate_request account_uuid network request_id signed_by_id store =
     (case map_of store request_id of
        None \<Rightarrow> (Inl (RequestNotFound request_id), store)
      | Some stored \<Rightarrow>
          (case (if \<not> of_account account_uuid network stored then Inl RequestOfOtherAccount
                 else if length signed_by_id \<noteq> 1 \<or> map_of signed_by_id (rq_message_id stored) = None
                 then Inl DifferentMessage
                 else rbind (completable (rq_state stored) (rq_proof_error stored)) (\<lambda>_.
                      if rq_pczt_with_proofs stored = None then Inl ProofsNotReady else Inr ())) of
             Inl e \<Rightarrow> (Inl e, store)
           | Inr _ \<Rightarrow> (Inr stored, AList.delete request_id store)))"

end
