(* ===== verification/Request_Completion.thy ===== *)
theory Request_Completion
  imports Request_Stores Transfer_Driver
begin

text \<open>
  What the handlers do with signing requests (\<open>send/ironwood_migration.rs\<close>,
  \<open>send/ironwood_migration/denomination_split.rs\<close>): a request is registered with its messages and its
  proof worker, and a signed request is completed into stages, signed children or transfers of its run.

  The functions of \<open>pczt.rs\<close> on a partially created transaction call its library only and are a parameter:
  the check of the signatures, and the application of signatures to a proved transaction, which gives the
  transaction id and its bytes.
\<close>

record pczt_api =
  px_preflight :: "byte list \<Rightarrow> spend_auth_signature list \<Rightarrow> string + unit"
  px_extract :: "byte list \<Rightarrow> spend_auth_signature list \<Rightarrow> string + string \<times> byte list"

datatype completion_error =
  CoRequest request_error | CoLife life_error | CoPart part_error | CoRebuild rebuild_error
| CoDriver driver_error | CoPczt string | CoMigrationRunning | CoNoActiveRun | CoOldRun | CoNotesChanged
| CoUnexpectedProofs | CoFeeOverflow | CoProofMissing | CoRecoverySize | CoUnexpectedTxid string
| CoStageIndex | CoNoRoot | CoActiveRun | CoDatabase db_call string

section \<open>One migration of an account at a time\<close>

definition migration_key :: "string \<Rightarrow> string \<Rightarrow> string" where
  "migration_key db_path account_uuid = db_path @ '':'' @ account_uuid"

text \<open>The set of the running migrations; the guard's \<open>drop\<close> takes the key out again.\<close>

definition acquire_migration :: "string \<Rightarrow> string \<Rightarrow> string set \<Rightarrow> completion_error + string set" where
  "acquire_migration db_path account_uuid active =
     (if migration_key db_path account_uuid \<in> active then Inl CoMigrationRunning
      else Inr (insert (migration_key db_path account_uuid) active))"

definition release_migration :: "string \<Rightarrow> string \<Rightarrow> string set \<Rightarrow> string set" where
  "release_migration db_path account_uuid active = active - {migration_key db_path account_uuid}"

section \<open>Registering requests\<close>

definition stage_messages :: "created_stage list \<Rightarrow> keystone_message list" where
  "stage_messages stages = map (\<lambda>s. keystone_migration_message (cs_id s) (cs_redacted_pczt s)
     (length (cs_orchard_spend_action_indices s))) stages"

definition child_messages :: "created_message list \<Rightarrow> keystone_message list" where
  "child_messages ms = map (\<lambda>m. keystone_migration_message (cm_id m) (cm_redacted_pczt m)
     (length (cm_orchard_spend_action_indices m))) ms"

definition root_proofs :: "created_stage list \<Rightarrow> (string \<times> byte list) list" where
  "root_proofs stages = map (\<lambda>s. (cs_id s, cs_base_pczt s)) (split_roots stages)"

text \<open>
  The end of a preparation that has built its stages: the entry, and the proofs its worker has to make, if
  it needs one.
\<close>

definition split_request_state :: "created_stage list \<Rightarrow> request_state" where
  "split_request_state stages = (if root_proofs stages = [] then ProofReady else Proofing)"

definition new_split_request ::
    "string \<Rightarrow> wallet_network \<Rightarrow> preparation_timing_policy \<Rightarrow> created_stage list \<Rightarrow> orchard_note_ref list \<Rightarrow>
     u64 \<Rightarrow> denomination_plan \<Rightarrow> split_request" where
  "new_split_request account_uuid network policy stages refs migratable plan =
     \<lparr>rq_account_uuid = account_uuid, rq_network = network, rq_state = split_request_state stages,
      rq_proof_error = None, rq_preparation_timing_policy = policy, rq_split_stages = stages,
      rq_direct_prepared_refs = refs, rq_total_migratable_zatoshi = migratable, rq_plan = plan\<rparr>"

definition worker_of :: "(string \<times> byte list) list \<Rightarrow> (string \<times> byte list) list option" where
  "worker_of proofs = (if proofs = [] then None else Some proofs)"

definition register_denomination_request ::
    "string \<Rightarrow> string \<Rightarrow> wallet_network \<Rightarrow> preparation_timing_policy \<Rightarrow> string option \<Rightarrow> created_stage list \<Rightarrow>
     orchard_note_ref list \<Rightarrow> u64 \<Rightarrow> denomination_plan \<Rightarrow> denomination_request store \<Rightarrow>
     completion_error + (keystone_message list \<times> (string \<times> byte list) list option) \<times> denomination_request store" where
  "register_denomination_request request_id account_uuid network policy draft_run_id stages refs migratable plan store =
     rbind (if stage_messages stages = [] then Inr ()
            else map_error CoRequest (validate_keystone_migration_messages (stage_messages stages))) (\<lambda>_.
     if root_proofs stages = [] \<and> stages \<noteq> [] then Inl CoNoRoot
     else Inr ((stage_messages stages, worker_of (root_proofs stages)),
            AList.update request_id (split_request.extend
              (new_split_request account_uuid network policy stages refs migratable plan)
              (denomination_request.fields draft_run_id)) store))"

definition register_single_qr_request ::
    "string \<Rightarrow> string \<Rightarrow> wallet_network \<Rightarrow> preparation_timing_policy \<Rightarrow> created_stage list \<Rightarrow> orchard_note_ref list \<Rightarrow>
     u64 \<Rightarrow> denomination_plan \<Rightarrow> created_message list \<Rightarrow> schedule_entry list \<Rightarrow> single_qr_request store \<Rightarrow>
     completion_error + (keystone_message list \<times> (string \<times> byte list) list option) \<times> single_qr_request store" where
  "register_single_qr_request request_id account_uuid network policy stages refs migratable plan children schedule store =
     (let messages = stage_messages stages @ child_messages children in
      rbind (map_error CoRequest (validate_keystone_migration_messages messages)) (\<lambda>_.
      if root_proofs stages = [] \<and> stages \<noteq> [] then Inl CoNoRoot
      else Inr ((messages, worker_of (root_proofs stages)),
             AList.update request_id (split_request.extend
               (new_split_request account_uuid network policy stages refs migratable plan)
               (single_qr_request.fields children schedule)) store)))"

definition register_batch_request ::
    "string \<Rightarrow> string \<Rightarrow> wallet_network \<Rightarrow> active_run \<Rightarrow> string list \<Rightarrow> created_message list \<Rightarrow> batch_request store \<Rightarrow>
     completion_error + (keystone_message list \<times> (string \<times> byte list) list option) \<times> batch_request store" where
  "register_batch_request request_id account_uuid network run recovery_old_txids created store =
     (let messages = child_messages created; initial_signing = (recovery_old_txids = []) in
      rbind (map_error CoRequest (validate_keystone_migration_messages messages)) (\<lambda>_.
      Inr ((messages, if initial_signing then None else Some (map (\<lambda>m. (cm_id m, cm_base_pczt m)) created)),
        AList.update request_id
          \<lparr>rq_account_uuid = account_uuid, rq_network = network,
           rq_state = (if initial_signing then ProofReady else Proofing), rq_proof_error = None,
           rq_run_id = ar_run_id run, rq_fallback_total_count = length (ar_target_values_zatoshi run) mod 2 ^ 32,
           rq_fallback_migrated_zatoshi = sum_list (ar_target_values_zatoshi run) mod 2 ^ 64,
           rq_recovery_old_txids = recovery_old_txids, rq_messages = created\<rparr> store)))"

section \<open>From a signed split to the stages of a run\<close>

definition prepared_refs_from_denomination_split ::
    "orchard_note_ref list \<Rightarrow> created_stage list \<Rightarrow> orchard_note_ref list" where
  "prepared_refs_from_denomination_split direct_refs stages =
     sort_key (\<lambda>n. (- int (on_value_zatoshi n), on_txid_hex n, on_output_index n))
       (direct_refs @ concat (map (\<lambda>s. map (\<lambda>out.
          \<lparr>on_txid_hex = cs_expected_txid_hex s, on_output_index = out_output_index out,
           on_value_zatoshi = out_value_zatoshi out, on_note_version = out_note_version out,
           on_nullifier_hex = None\<rparr>) (filter (\<lambda>out. out_kind out = MigrationOutput) (cs_outputs s))) stages))"

definition stage_raw_tx ::
    "pczt_api \<Rightarrow> created_stage \<Rightarrow> spend_auth_signature list \<Rightarrow> completion_error + byte list option" where
  "stage_raw_tx px s sigs =
     (if cs_deferred s then Inr None
      else
        rbind (ok_or (CoRequest ProofsNotReady) (cs_pczt_with_proofs s)) (\<lambda>proofed.
        rbind (map_error CoPczt (px_extract px proofed sigs)) (\<lambda>(txid, raw_tx).
        if txid \<noteq> cs_expected_txid_hex s then Inl (CoUnexpectedTxid (cs_id s)) else Inr (Some raw_tx))))"

definition signed_stage_insert ::
    "pczt_api \<Rightarrow> (string \<times> spend_auth_signature list) list \<Rightarrow> nat \<times> created_stage \<Rightarrow>
     completion_error + denomination_stage_insert" where
  "signed_stage_insert px signed_by_id entry =
     (let (stage_index, s) = entry in
      rbind (ok_or (CoRequest (ResultMissing (cs_id s))) (map_of signed_by_id (cs_id s))) (\<lambda>sigs.
      rbind (map_error CoPczt (px_preflight px (cs_base_pczt s) sigs)) (\<lambda>_.
      rbind (stage_raw_tx px s sigs) (\<lambda>raw_tx.
      rbind (if stage_index < 2 ^ 32 then Inr stage_index else Inl CoStageIndex) (\<lambda>index.
      Inr \<lparr>si_stage_index = index, si_base_pczt = cs_base_pczt s, si_sigs = sigs, si_raw_tx = raw_tx,
           si_expected_txid_hex = cs_expected_txid_hex s, si_target_height = cs_target_height s,
           si_scheduled_height = cs_scheduled_height s, si_expiry_height = cs_expiry_height s,
           si_fee_zatoshi = cs_fee_zatoshi s,
           si_status = (if cs_deferred s then AwaitingInputs else Pending),
           si_inputs = cs_inputs s, si_outputs = cs_outputs s\<rparr>)))))"

definition signed_denomination_stage_inserts ::
    "pczt_api \<Rightarrow> created_stage list \<Rightarrow> (string \<times> spend_auth_signature list) list \<Rightarrow>
     completion_error + denomination_stage_insert list" where
  "signed_denomination_stage_inserts px stages signed_by_id =
     collect_results (signed_stage_insert px signed_by_id) (enumerate 0 stages)"

definition signed_child ::
    "string \<Rightarrow> orchard_note_ref \<Rightarrow> u32 option \<Rightarrow> spend_auth_signature list \<Rightarrow> created_message \<Rightarrow> child_insert" where
  "signed_child account_uuid selected_note boundary sigs m =
     \<lparr>ci_message_id = cm_id m, ci_child_index = cm_part_index m, ci_base_pczt = cm_base_pczt m, ci_sigs = sigs,
      ci_target_height = cm_target_height m, ci_anchor_boundary_height = boundary,
      ci_expiry_height = cm_expiry_height m, ci_scheduled_height = cm_scheduled_height m,
      ci_value_zatoshi = cm_migrated_zatoshi m, ci_fee_zatoshi = cm_fee_zatoshi m,
      ci_selected_note = selected_note,
      ci_metadata = \<lparr>md_tx_kind = ''migration'', md_funding_account_uuid = account_uuid,
        md_selected_note = selected_note\<rparr>\<rparr>"

text \<open>A child signed together with its split: its note is only predicted, so it has no nullifier yet.\<close>

definition presigned_child ::
    "pczt_api \<Rightarrow> string \<Rightarrow> (string \<times> spend_auth_signature list) list \<Rightarrow> created_message \<Rightarrow>
     completion_error + child_insert" where
  "presigned_child px account_uuid signed_by_id m =
     rbind (ok_or (CoRequest (ResultMissing (cm_id m))) (map_of signed_by_id (cm_id m))) (\<lambda>sigs.
     rbind (map_error CoPczt (px_preflight px (cm_base_pczt m) sigs)) (\<lambda>_.
     Inr (signed_child account_uuid ((cm_selected_note m)\<lparr>on_nullifier_hex := None\<rparr>)
       (cm_anchor_boundary_height m) sigs m)))"

text \<open>The check that every requested message came back signed.\<close>

definition missing_result :: "string list \<Rightarrow> (string \<times> spend_auth_signature list) list \<Rightarrow> string option" where
  "missing_result ids signed_by_id = find (\<lambda>i. map_of signed_by_id i = None) ids"

section \<open>Completing a denomination request\<close>

text \<open>
  The closure that stores the signed split: a saved draft becomes the run, or a run is created.
\<close>

definition store_denomination_run ::
    "('w, 'g, 'n) world \<Rightarrow> pczt_api \<Rightarrow> bool \<Rightarrow> string \<Rightarrow> string \<Rightarrow> string \<Rightarrow> wallet_network \<Rightarrow> denomination_request \<Rightarrow>
     (string \<times> spend_auth_signature list) list \<Rightarrow> byte list \<Rightarrow> string \<Rightarrow> schedule_entry list \<Rightarrow> 'w sender \<Rightarrow>
     (completion_error + string) \<times> 'w sender" where
  "store_denomination_run W px fast run_id db_path account_uuid network stored signed_by_id password salt_base64
       approved_schedule s =
     (case signed_denomination_stage_inserts px (rq_split_stages stored) signed_by_id of
        Inl e \<Rightarrow> (Inl e, s)
      | Inr stages \<Rightarrow>
          let refs = prepared_refs_from_denomination_split (rq_direct_prepared_refs stored) (rq_split_stages stored);
              now = wo_now W (se_world s); n = wo_nonce W (se_world s) in
          (case rq_draft_run_id stored of
             Some draft \<Rightarrow>
               (case finalize_private_migration_draft (wo_cipher W) (wo_locks W) (wo_unhex W) password salt_base64 now
                       draft account_uuid network (rq_plan stored) refs [] stages n (se_db s, se_world s) of
                  (res, db, w) \<Rightarrow>
                    (rbind (map_error CoLife res) (\<lambda>_. Inr draft), s\<lparr>se_db := db, se_world := w\<rparr>))
           | None \<Rightarrow>
               (case create_run_with_staged_denominations_and_signed_children (wo_db_error W DeleteCreatedRun)
                       (wo_cipher W) (wo_locks W) (wo_unhex W) fast password salt_base64 now run_id db_path account_uuid network (rq_plan stored) refs []
                       stages (Some approved_schedule) (rq_preparation_timing_policy stored) n
                       (se_db s, se_world s) of
                  (res, db, w) \<Rightarrow>
                    (rbind (map_error CoLife res) (\<lambda>(run, _). Inr run), s\<lparr>se_db := db, se_world := w\<rparr>))))"

text \<open>
  The handler up to the first broadcast: the request is taken, its split is stored, and it is removed; or
  it is put back. \<open>run_id\<close> is the identifier of a run that is created.
\<close>

definition complete_denomination_request ::
    "('w, 'g, 'n) world \<Rightarrow> pczt_api \<Rightarrow> bool \<Rightarrow> string \<Rightarrow> string \<Rightarrow> string \<Rightarrow> wallet_network \<Rightarrow> string \<Rightarrow>
     signed_message list \<Rightarrow> byte list \<Rightarrow> string \<Rightarrow> schedule_entry list \<Rightarrow> request_stores \<Rightarrow> 'w sender \<Rightarrow>
     (completion_error + string \<times> denomination_request) \<times> request_stores \<times> 'w sender" where
  "complete_denomination_request W px fast run_id db_path account_uuid network request_id signed_messages password
       salt_base64 approved_schedule ks s =
     (case (if signed_messages = [] then Inr [] else signed_migration_messages_by_id request_id signed_messages) of
        Inl e \<Rightarrow> (Inl (CoRequest e), ks, s)
      | Inr signed_by_id \<Rightarrow>
          (case take_denomination_request account_uuid network request_id (length signed_by_id) (ks_denomination ks) of
             (Inl e, store) \<Rightarrow> (Inl (CoRequest e), ks\<lparr>ks_denomination := store\<rparr>, s)
           | (Inr stored, store) \<Rightarrow>
               (case missing_result (map cs_id (rq_split_stages stored)) signed_by_id of
                  Some i \<Rightarrow>
                    (Inl (CoRequest (ResultMissing i)),
                     ks\<lparr>ks_denomination := reset_after_failed_completion request_id store\<rparr>, s)
                | None \<Rightarrow>
                    (case store_denomination_run W px fast run_id db_path account_uuid network stored signed_by_id
                            password salt_base64 approved_schedule s of
                       (Inl e, s1) \<Rightarrow>
                         (Inl e, ks\<lparr>ks_denomination := reset_after_failed_completion request_id store\<rparr>, s1)
                     | (Inr run, s1) \<Rightarrow>
                         (Inr (run, stored), ks\<lparr>ks_denomination := AList.delete request_id store\<rparr>, s1)))))"

section \<open>Completing a single-code request\<close>

definition store_single_qr_run ::
    "('w, 'g, 'n) world \<Rightarrow> pczt_api \<Rightarrow> bool \<Rightarrow> string \<Rightarrow> string \<Rightarrow> string \<Rightarrow> wallet_network \<Rightarrow> single_qr_request \<Rightarrow>
     (string \<times> spend_auth_signature list) list \<Rightarrow> byte list \<Rightarrow> string \<Rightarrow> 'w sender \<Rightarrow>
     (completion_error + string) \<times> 'w sender" where
  "store_single_qr_run W px fast run_id db_path account_uuid network stored signed_by_id password salt_base64 s =
     (case rbind (signed_denomination_stage_inserts px (rq_split_stages stored) signed_by_id) (\<lambda>stages.
           rbind (collect_results (presigned_child px account_uuid signed_by_id) (rq_child_messages stored)) (\<lambda>children.
           Inr (stages, children))) of
        Inl e \<Rightarrow> (Inl e, s)
      | Inr (stages, children) \<Rightarrow>
          (case create_run_with_staged_denominations_and_signed_children (wo_db_error W DeleteCreatedRun)
                  (wo_cipher W) (wo_locks W) (wo_unhex W) fast password salt_base64 (wo_now W (se_world s)) run_id db_path account_uuid network
                  (rq_plan stored)
                  (prepared_refs_from_denomination_split (rq_direct_prepared_refs stored) (rq_split_stages stored))
                  children stages (Some (rq_approved_schedule stored)) (rq_preparation_timing_policy stored)
                  (wo_nonce W (se_world s)) (se_db s, se_world s) of
             (res, db, w) \<Rightarrow> (rbind (map_error CoLife res) (\<lambda>(run, _). Inr run), s\<lparr>se_db := db, se_world := w\<rparr>)))"

definition complete_single_qr_request ::
    "('w, 'g, 'n) world \<Rightarrow> pczt_api \<Rightarrow> bool \<Rightarrow> string \<Rightarrow> string \<Rightarrow> string \<Rightarrow> wallet_network \<Rightarrow> string \<Rightarrow>
     signed_message list \<Rightarrow> byte list \<Rightarrow> string \<Rightarrow> request_stores \<Rightarrow> 'w sender \<Rightarrow>
     (completion_error + string \<times> single_qr_request) \<times> request_stores \<times> 'w sender" where
  "complete_single_qr_request W px fast run_id db_path account_uuid network request_id signed_messages password
       salt_base64 ks s =
     (case signed_migration_messages_by_id request_id signed_messages of
        Inl e \<Rightarrow> (Inl (CoRequest e), ks, s)
      | Inr signed_by_id \<Rightarrow>
          (case migration_reserves_orchard_inputs (se_db s) account_uuid network of
             Inl e \<Rightarrow> (Inl (CoDriver (DrRun e)), ks, s)
           | Inr True \<Rightarrow> (Inl CoActiveRun, ks, s)
           | Inr False \<Rightarrow>
               (case take_single_qr_request account_uuid network request_id (length signed_by_id) (ks_single_qr ks) of
                  (Inl e, store) \<Rightarrow> (Inl (CoRequest e), ks\<lparr>ks_single_qr := store\<rparr>, s)
                | (Inr stored, store) \<Rightarrow>
                    (case missing_result (map cs_id (rq_split_stages stored) @ map cm_id (rq_child_messages stored))
                            signed_by_id of
                       Some i \<Rightarrow>
                         (Inl (CoRequest (ResultMissing i)),
                          ks\<lparr>ks_single_qr := reset_after_failed_completion request_id store\<rparr>, s)
                     | None \<Rightarrow>
                         (case store_single_qr_run W px fast run_id db_path account_uuid network stored signed_by_id
                                 password salt_base64 s of
                            (Inl e, s1) \<Rightarrow>
                              (Inl e, ks\<lparr>ks_single_qr := reset_after_failed_completion request_id store\<rparr>, s1)
                          | (Inr run, s1) \<Rightarrow>
                              (Inr (run, stored), ks\<lparr>ks_single_qr := AList.delete request_id store\<rparr>, s1))))))"

section \<open>Completing a batch\<close>

definition same_prepared_note_without_nullifier :: "orchard_note_ref \<Rightarrow> orchard_note_ref \<Rightarrow> bool" where
  "same_prepared_note_without_nullifier lhs rhs \<longleftrightarrow>
     to_ascii_lowercase (on_txid_hex lhs) = to_ascii_lowercase (on_txid_hex rhs)
     \<and> on_output_index lhs = on_output_index rhs \<and> on_value_zatoshi lhs = on_value_zatoshi rhs
     \<and> on_note_version lhs = on_note_version rhs"

fun initial_children ::
    "pczt_api \<Rightarrow> string \<Rightarrow> (string \<times> spend_auth_signature list) list \<Rightarrow> created_message list \<Rightarrow> u64 \<Rightarrow>
     completion_error + child_insert list \<times> u64" where
  "initial_children px account_uuid signed_by_id [] total_fee = Inr ([], total_fee)"
| "initial_children px account_uuid signed_by_id (m # ms) total_fee =
     rbind (ok_or (CoRequest (ResultMissing (cm_id m))) (map_of signed_by_id (cm_id m))) (\<lambda>sigs.
     rbind (map_error CoPczt (px_preflight px (cm_base_pczt m) sigs)) (\<lambda>_.
     rbind (ok_or CoFeeOverflow (checked_add 64 total_fee (cm_fee_zatoshi m))) (\<lambda>total_fee.
     rbind (initial_children px account_uuid signed_by_id ms total_fee) (\<lambda>(children, total_fee).
     Inr (signed_child account_uuid (cm_selected_note m) None sigs m # children, total_fee)))))"

definition complete_initial_batch ::
    "('w, 'g, 'n) world \<Rightarrow> pczt_api \<Rightarrow> string \<Rightarrow> batch_request \<Rightarrow> (string \<times> spend_auth_signature list) list \<Rightarrow>
     byte list \<Rightarrow> string \<Rightarrow> 'w sender \<Rightarrow> (completion_error + u64) \<times> 'w sender" where
  "complete_initial_batch W px account_uuid stored signed_by_id password salt_base64 s =
     (if list_ex (\<lambda>m. cm_pczt_with_proofs m \<noteq> None) (rq_messages stored) then (Inl CoUnexpectedProofs, s)
      else
        case initial_children px account_uuid signed_by_id (rq_messages stored) 0 of
          Inl e \<Rightarrow> (Inl e, s)
        | Inr (children, total_fee) \<Rightarrow>
            (case persist_signed_child_pczts_for_run (wo_cipher W) password salt_base64 (wo_now W (se_world s))
                    (se_db s) (rq_run_id stored) children (wo_nonce W (se_world s)) of
               Inl e \<Rightarrow> (Inl (CoPart e), s)
             | Inr (db, _) \<Rightarrow> (Inr total_fee, with_db db s)))"

fun extracted_parts ::
    "pczt_api \<Rightarrow> string \<Rightarrow> (string \<times> spend_auth_signature list) list \<Rightarrow> created_message list \<Rightarrow>
     completion_error + part_insert list" where
  "extracted_parts px account_uuid signed_by_id [] = Inr []"
| "extracted_parts px account_uuid signed_by_id (m # ms) =
     rbind (ok_or (CoRequest (ResultMissing (cm_id m))) (map_of signed_by_id (cm_id m))) (\<lambda>sigs.
     rbind (ok_or CoProofMissing (cm_pczt_with_proofs m)) (\<lambda>proofs.
     rbind (map_error CoPczt (px_extract px proofs sigs)) (\<lambda>(txid, raw_tx).
     rbind (extracted_parts px account_uuid signed_by_id ms) (\<lambda>parts.
     Inr (\<lparr>pi_part_index = cm_part_index m, pi_txid_hex = txid, pi_raw_tx = raw_tx,
           pi_target_height = cm_target_height m, pi_anchor_boundary_height = cm_anchor_boundary_height m,
           pi_expiry_height = cm_expiry_height m, pi_scheduled_height = cm_scheduled_height m,
           pi_value_zatoshi = cm_migrated_zatoshi m, pi_fee_zatoshi = cm_fee_zatoshi m,
           pi_selected_note = cm_selected_note m,
           pi_metadata = \<lparr>md_tx_kind = ''migration'', md_funding_account_uuid = account_uuid,
             md_selected_note = cm_selected_note m\<rparr>\<rparr> # parts)))))"

text \<open>
  The parts that are signed again. The source's other branch, for a request without old transactions, is
  not reached: that request was completed above.
\<close>

definition complete_recovery_batch ::
    "('w, 'g, 'n) world \<Rightarrow> pczt_api \<Rightarrow> string \<Rightarrow> batch_request \<Rightarrow> (string \<times> spend_auth_signature list) list \<Rightarrow>
     byte list \<Rightarrow> string \<Rightarrow> 'w sender \<Rightarrow> (completion_error + pending_totals) \<times> 'w sender" where
  "complete_recovery_batch W px account_uuid stored signed_by_id password salt_base64 s =
     (case extracted_parts px account_uuid signed_by_id (rq_messages stored) of
        Inl e \<Rightarrow> (Inl e, s)
      | Inr parts \<Rightarrow>
          if length (rq_recovery_old_txids stored) \<noteq> length parts then (Inl CoRecoverySize, s)
          else
            (case wo_chain_tip W (se_world s) of
               Inl _ \<Rightarrow> (Inl (CoDriver DrProgress), s)
             | Inr chain_tip_height \<Rightarrow>
                 (case replace_resigned_pending_parts (wo_cipher W) password salt_base64 (wo_now W (se_world s))
                         (wo_now W (se_world s)) (se_db s) (rq_run_id stored) chain_tip_height
                         (map (\<lambda>(old, part). \<lparr>rp_old_txid_hex = old, rp_replacement = part\<rparr>)
                           (zip (rq_recovery_old_txids stored) parts)) [] (wo_nonce W (se_world s)) of
                    Inl e \<Rightarrow> (Inl (CoRebuild e), s)
                  | Inr (db, _) \<Rightarrow>
                      (map_error CoDriver (run_totals (with_db db s) (rq_run_id stored)), with_db db s))))"

definition signed_children_message :: string where
  "signed_children_message =
     ''Migration transactions were signed and will continue when the safe anchor is ready.''"

definition signed_transfers_message :: string where
  "signed_transfers_message = ''Migration transactions were signed and scheduled for delayed broadcast.''"

definition batch_result ::
    "('w, 'g, 'n) world \<Rightarrow> pczt_api \<Rightarrow> string \<Rightarrow> batch_request \<Rightarrow> (string \<times> spend_auth_signature list) list \<Rightarrow>
     byte list \<Rightarrow> string \<Rightarrow> 'w sender \<Rightarrow> (completion_error + ironwood_result) \<times> 'w sender" where
  "batch_result W px account_uuid stored signed_by_id password salt_base64 s =
     (if rq_recovery_old_txids stored = []
      then
        (case complete_initial_batch W px account_uuid stored signed_by_id password salt_base64 s of
           (res, s1) \<Rightarrow>
             (rbind res (\<lambda>total_fee.
                Inr \<lparr>im_txids = [], im_status = PHASE_READY_TO_MIGRATE, im_broadcasted_count = 0,
                     im_total_count = rq_fallback_total_count stored, im_message = Message signed_children_message,
                     im_fee_zatoshi = total_fee, im_migrated_zatoshi = rq_fallback_migrated_zatoshi stored\<rparr>), s1))
      else
        (case complete_recovery_batch W px account_uuid stored signed_by_id password salt_base64 s of
           (res, s1) \<Rightarrow>
             (rbind res (\<lambda>totals.
                Inr (migration_result_from_pending_totals totals PHASE_BROADCAST_SCHEDULED
                  (Message signed_transfers_message) (rq_fallback_total_count stored)
                  (rq_fallback_migrated_zatoshi stored))), s1)))"

text \<open>
  The early returns on the reads of the active run and of its notes leave the request as it was taken.
\<close>

definition complete_orchard_migration_batch_pczt ::
    "('w, 'g, 'n) world \<Rightarrow> pczt_api \<Rightarrow> string \<Rightarrow> string \<Rightarrow> wallet_network \<Rightarrow> string \<Rightarrow> signed_message list \<Rightarrow>
     byte list \<Rightarrow> string \<Rightarrow> string set \<Rightarrow> request_stores \<Rightarrow> 'w sender \<Rightarrow>
     (completion_error + ironwood_result) \<times> request_stores \<times> 'w sender" where
  "complete_orchard_migration_batch_pczt W px db_path account_uuid network request_id signed_messages password
       salt_base64 active ks s =
     (case rbind (acquire_migration db_path account_uuid active) (\<lambda>_.
           map_error CoRequest (signed_migration_messages_by_id request_id signed_messages)) of
        Inl e \<Rightarrow> (Inl e, ks, s)
      | Inr signed_by_id \<Rightarrow>
          (case take_batch_request account_uuid network request_id (length signed_by_id) (ks_batch ks) of
             (Inl e, store) \<Rightarrow> (Inl (CoRequest e), ks\<lparr>ks_batch := store\<rparr>, s)
           | (Inr stored, store) \<Rightarrow>
               let failed = (\<lambda>e s. (Inl e, ks\<lparr>ks_batch := reset_after_failed_completion request_id store\<rparr>, s)) in
               (case active_migration_run (wo_db_error W ReadActiveRun (se_world s)) (se_db s) account_uuid network of
                  Inl e \<Rightarrow> (Inl (CoDatabase ReadActiveRun e), ks\<lparr>ks_batch := store\<rparr>, s)
                | Inr None \<Rightarrow> (Inl CoNoActiveRun, ks\<lparr>ks_batch := store\<rparr>, s)
                | Inr (Some run) \<Rightarrow>
                    if ar_run_id run \<noteq> rq_run_id stored then failed CoOldRun s
                    else
                      (case prepared_notes_for_run (wo_db_error W ReadPreparedNotes (se_world s)) (se_db s) (ar_run_id run) of
                         Inl e \<Rightarrow> (Inl (CoDatabase ReadPreparedNotes e), ks\<lparr>ks_batch := store\<rparr>, s)
                       | Inr current_prepared \<Rightarrow>
                           if \<not> list_all (\<lambda>m. list_ex (\<lambda>current.
                                       same_prepared_note_without_nullifier current (cm_selected_note m))
                                     current_prepared) (rq_messages stored)
                           then failed CoNotesChanged s
                           else
                             (case batch_result W px account_uuid stored signed_by_id password salt_base64 s of
                                (Inl e, s1) \<Rightarrow> failed e s1
                              | (Inr result, s1) \<Rightarrow>
                                  (Inr result, ks\<lparr>ks_batch := AList.delete request_id store\<rparr>, s1))))))"

end
