(* ===== verification/Request_Lifecycle.thy ===== *)
theory Request_Lifecycle
  imports Request_Completion Pending_Reach
begin

text \<open>
  The life of a signing request under every interleaving of the handlers, the proof workers and the
  discards: which proofs a request has in each of its states, and that none is left waiting for a worker
  that is gone.
\<close>

section \<open>One proof of a worker\<close>

text \<open>
  The two proof steps differ in where a proof goes and in whether an unknown message is an error. \<open>ids\<close>
  are the messages of a request, \<open>missing\<close> those that still need a proof.
\<close>

definition store_proof ::
    "('a request_scheme \<Rightarrow> string list) \<Rightarrow> (string \<Rightarrow> byte list \<Rightarrow> 'a request_scheme \<Rightarrow> 'a request_scheme) \<Rightarrow> bool \<Rightarrow>
     string \<Rightarrow> string \<Rightarrow> string + byte list \<Rightarrow> 'a request_scheme store \<Rightarrow> bool \<times> 'a request_scheme store" where
  "store_proof ids put strict request_id i result store =
     (case map_of store request_id of
        None \<Rightarrow> (False, store)
      | Some stored \<Rightarrow>
          if rq_state stored = Completing then (False, store)
          else
            case result of
              Inl e \<Rightarrow> (False, AList.update request_id (proof_failed e stored) store)
            | Inr proofs \<Rightarrow>
                if i \<in> set (ids stored) \<or> \<not> strict
                then (True, AList.update request_id (put i proofs stored) store)
                else (False, AList.update request_id (proof_failed (''Missing split root '' @ i) stored) store))"

definition split_ids :: "'a split_request_scheme \<Rightarrow> string list" where
  "split_ids r = map cs_id (rq_split_stages r)"

definition split_put :: "string \<Rightarrow> byte list \<Rightarrow> 'a split_request_scheme \<Rightarrow> 'a split_request_scheme" where
  "split_put i p r = r\<lparr>rq_split_stages :=
     set_first (\<lambda>s. cs_id s = i) (cs_pczt_with_proofs_update (\<lambda>_. Some p)) (rq_split_stages r)\<rparr>"

definition split_missing :: "'a split_request_scheme \<Rightarrow> string set" where
  "split_missing r = {cs_id s | s. s \<in> set (rq_split_stages r) \<and> \<not> cs_deferred s \<and> cs_pczt_with_proofs s = None}"

definition batch_ids :: "batch_request \<Rightarrow> string list" where
  "batch_ids r = map cm_id (rq_messages r)"

definition batch_put :: "string \<Rightarrow> byte list \<Rightarrow> batch_request \<Rightarrow> batch_request" where
  "batch_put i p r = r\<lparr>rq_messages :=
     set_first (\<lambda>m. cm_id m = i) (cm_pczt_with_proofs_update (\<lambda>_. Some p)) (rq_messages r)\<rparr>"

text \<open>A batch that is signed for the first time is proved later, so nothing is missing.\<close>

definition batch_missing :: "batch_request \<Rightarrow> string set" where
  "batch_missing r =
     (if rq_recovery_old_txids r = [] then {}
      else {cm_id m | m. m \<in> set (rq_messages r) \<and> cm_pczt_with_proofs m = None})"

lemma store_split_proof_eq: "store_split_proof = store_proof split_ids split_put True"
proof (intro ext)
  fix rid i result and store :: "'a split_request_scheme store"
  show "store_split_proof rid i result store = store_proof split_ids split_put True rid i result store"
    by (auto simp: store_split_proof_def store_proof_def split_ids_def split_put_def list_ex_iff split: option.split sum.split)
qed

lemma store_batch_proof_eq: "store_batch_proof = store_proof batch_ids batch_put False"
  by (intro ext) (auto simp: store_batch_proof_def store_proof_def batch_put_def split: option.split sum.split)

lemma roots_missing_iff: "roots_missing r \<longleftrightarrow> split_missing r \<noteq> {}"
  by (auto simp: roots_missing_def split_missing_def list_ex_iff)

section \<open>The steps\<close>

type_synonym workers = "string \<rightharpoonup> (string \<times> byte list) list"

text \<open>What a request is when it is registered with its worker.\<close>

definition newly_registered ::
    "('a request_scheme \<Rightarrow> string list) \<Rightarrow> ('a request_scheme \<Rightarrow> string set) \<Rightarrow> 'a request_scheme \<Rightarrow>
     (string \<times> byte list) list option \<Rightarrow> bool" where
  "newly_registered ids missing r w \<longleftrightarrow> distinct (ids r) \<and>
     (rq_state r = ProofReady \<and> w = None \<and> missing r = {}
      \<or> rq_state r = Proofing \<and> (\<exists>todo. w = Some todo \<and> missing r \<subseteq> fst ` set todo \<and> fst ` set todo \<subseteq> set (ids r)))"

inductive request_step ::
    "('a request_scheme \<Rightarrow> string list) \<Rightarrow> ('a request_scheme \<Rightarrow> string set) \<Rightarrow>
     (string \<Rightarrow> byte list \<Rightarrow> 'a request_scheme \<Rightarrow> 'a request_scheme) \<Rightarrow> bool \<Rightarrow>
     'a request_scheme store \<times> workers \<Rightarrow> 'a request_scheme store \<times> workers \<Rightarrow> bool"
  for ids missing put strict where
  Register: "map_of store rid = None \<Longrightarrow> ws rid = None \<Longrightarrow> newly_registered ids missing r w
     \<Longrightarrow> request_step ids missing put strict (store, ws) (AList.update rid r store, ws(rid := w))"
| NotStarted: "ws rid = Some todo
     \<Longrightarrow> request_step ids missing put strict (store, ws) (worker_not_started rid message store, ws(rid := None))"
| LooksFirst: "ws rid = Some todo \<Longrightarrow> map_of store rid = None
     \<Longrightarrow> request_step ids missing put strict (store, ws) (store, ws(rid := None))"
| Proof: "ws rid = Some ((i, base) # todo) \<Longrightarrow> store_proof ids put strict rid i result store = (go, store')
     \<Longrightarrow> request_step ids missing put strict (store, ws) (store', ws(rid := if go then Some todo else None))"
| AllProved: "ws rid = Some []
     \<Longrightarrow> request_step ids missing put strict (store, ws) (all_proofs_ready rid store, ws(rid := None))"
| Taken: "take_request expected proofs_missing account network rid n store = (result, store')
     \<Longrightarrow> request_step ids missing put strict (store, ws) (store', ws)"
| PutBack: "request_step ids missing put strict (store, ws) (reset_after_failed_completion rid store, ws)"
| Completed: "request_step ids missing put strict (store, ws) (AList.delete rid store, ws)"
| Discarded: "request_step ids missing put strict (store, ws) (snd (discard_entry rid store), ws)"
| Retained: "request_step ids missing put strict (store, ws) (retain P store, ws)"

text \<open>The state of a request agrees with its proofs and its worker.\<close>

definition request_ok ::
    "('a request_scheme \<Rightarrow> string list) \<Rightarrow> ('a request_scheme \<Rightarrow> string set) \<Rightarrow> 'a request_scheme \<Rightarrow>
     (string \<times> byte list) list option \<Rightarrow> bool" where
  "request_ok ids missing r w \<longleftrightarrow> distinct (ids r) \<and>
     (case rq_state r of
        Proofing \<Rightarrow> \<exists>todo. w = Some todo \<and> missing r \<subseteq> fst ` set todo \<and> fst ` set todo \<subseteq> set (ids r)
      | ProofReady \<Rightarrow> w = None \<and> missing r = {}
      | Completing \<Rightarrow> w = None \<and> missing r = {}
      | ProofFailed \<Rightarrow> w = None \<and> rq_proof_error r \<noteq> None)"

definition requests_ok ::
    "('a request_scheme \<Rightarrow> string list) \<Rightarrow> ('a request_scheme \<Rightarrow> string set) \<Rightarrow>
     'a request_scheme store \<times> workers \<Rightarrow> bool" where
  "requests_ok ids missing S \<longleftrightarrow>
     (\<forall>rid r. map_of (fst S) rid = Some r \<longrightarrow> request_ok ids missing r (snd S rid))"

lemma map_of_retain_subset:
  assumes "distinct (map fst store)" and "map_of (retain P store) k = Some r"
  shows "map_of store k = Some r"
  using map_of_SomeD [OF assms(2)] by (auto simp: retain_def intro: map_of_is_SomeI [OF assms(1)])

lemma distinct_retain: "distinct (map fst store) \<Longrightarrow> distinct (map fst (retain P store))"
  by (induction store) (auto simp: retain_def)

lemma set_entry_lookup:
  "map_of (set_entry rid f store) k = (if k = rid then map_option f (map_of store k) else map_of store k)"
  by (auto simp: set_entry_def update_conv' split: option.split)

lemma distinct_set_entry: "distinct (map fst store) \<Longrightarrow> distinct (map fst (set_entry rid f store))"
  by (auto simp: set_entry_def distinct_update split: option.split)

lemma set_entry_ok:
  assumes "requests_ok ids missing (store, ws)" and "distinct (map fst store)"
    and "\<And>r. map_of store rid = Some r \<Longrightarrow> request_ok ids missing (f r) w"
  shows "requests_ok ids missing (set_entry rid f store, ws(rid := w)) \<and> distinct (map fst (set_entry rid f store))"
proof -
  have "request_ok ids missing r ((ws(rid := w)) k)" if "map_of (set_entry rid f store) k = Some r" for k r
  proof (cases "k = rid")
    case True
    then obtain q where "map_of store rid = Some q" "r = f q" using \<open>map_of (set_entry rid f store) k = Some r\<close>
      unfolding set_entry_lookup by (auto simp del: map_of_eq_Some_iff)
    then show ?thesis using assms(3) True by simp
  next
    case False
    then have "map_of store k = Some r" using that unfolding set_entry_lookup by simp
    then show ?thesis using assms(1) False unfolding requests_ok_def by simp
  qed
  then show ?thesis using assms(2) by (simp add: requests_ok_def distinct_set_entry)
qed

lemma discard_entry_lookup: "map_of (snd (discard_entry rid store)) k = Some r \<Longrightarrow> map_of store k = Some r"
  by (auto simp: discard_entry_def delete_conv' split: option.splits if_splits)

lemma discard_entry_distinct: "distinct (map fst store) \<Longrightarrow> distinct (map fst (snd (discard_entry rid store)))"
  by (auto simp: discard_entry_def distinct_delete split: option.splits)

lemma take_request_cases:
  assumes "take_request expected pm account network rid n store = (result, store')"
  shows "store' = store \<and> (\<exists>e. result = Inl e)
     \<or> (\<exists>r. map_of store rid = Some r \<and> rq_state r = ProofReady \<and> of_account account network r
          \<and> \<not> pm r \<and> expected r = Inr n
          \<and> result = Inr r \<and> store' = AList.update rid (r\<lparr>rq_state := Completing\<rparr>) store)"
proof (cases "map_of store rid")
  case None
  then have "result = Inl (RequestNotFound rid)" "store' = store" using assms by (auto simp: take_request_def)
  then show ?thesis by blast
next
  case (Some r)
  show ?thesis
  proof (cases "of_account account network r \<and> expected r = Inr n \<and> rq_state r = ProofReady \<and> \<not> pm r")
    case True
    then show ?thesis using assms Some by (simp add: take_request_def rbind_def)
  next
    case False
    then have "\<exists>e. (if \<not> of_account account network r then Inl RequestOfOtherAccount
        else rbind (expected r) (\<lambda>n'. if n \<noteq> n' then Inl (SignedCountMismatch n n')
             else rbind (completable (rq_state r) (rq_proof_error r)) (\<lambda>_. if pm r then Inl ProofsNotReady else Inr ()))) = Inl e"
      by (cases "expected r"; cases "rq_state r") (auto simp: rbind_def)
    then show ?thesis using assms Some by (auto simp: take_request_def)
  qed
qed

section \<open>The laws of a kind of request, and its invariant\<close>

locale proof_kind =
  fixes ids :: "'a request_scheme \<Rightarrow> string list"
    and missing :: "'a request_scheme \<Rightarrow> string set"
    and put :: "string \<Rightarrow> byte list \<Rightarrow> 'a request_scheme \<Rightarrow> 'a request_scheme"
    and strict :: bool
  assumes put_ids [simp]: "ids (put i p r) = ids r"
    and put_state [simp]: "rq_state (put i p r) = rq_state r"
    and put_error [simp]: "rq_proof_error (put i p r) = rq_proof_error r"
    and put_missing: "distinct (ids r) \<Longrightarrow> i \<in> set (ids r) \<Longrightarrow> missing (put i p r) = missing r - {i}"
    and ids_state [simp]: "ids (r\<lparr>rq_state := x\<rparr>) = ids r"
    and ids_error [simp]: "ids (r\<lparr>rq_proof_error := e\<rparr>) = ids r"
    and missing_state [simp]: "missing (r\<lparr>rq_state := x\<rparr>) = missing r"
    and missing_error [simp]: "missing (r\<lparr>rq_proof_error := e\<rparr>) = missing r"
begin

lemma failed_ok: "distinct (ids r) \<Longrightarrow> request_ok ids missing (proof_failed e r) None"
  by (simp add: request_ok_def proof_failed_def)

lemma step_keeps:
  assumes "request_step ids missing put strict S S'" and "distinct (map fst (fst S))" and "requests_ok ids missing S"
  shows "requests_ok ids missing S' \<and> distinct (map fst (fst S'))"
  using assms
proof (induction rule: request_step.induct)
  case (Register store rid ws r w)
  then show ?case
    by (auto simp: requests_ok_def update_conv' distinct_update request_ok_def newly_registered_def)
next
  case (NotStarted ws rid todo store message)
  have "request_ok ids missing (proof_failed message r) None" if "map_of store rid = Some r" for r
    using NotStarted.prems(2) that unfolding requests_ok_def by (intro failed_ok) (simp add: request_ok_def)
  then show ?case unfolding worker_not_started_def fst_conv
    by (intro set_entry_ok) (use NotStarted.prems in simp_all)
next
  case (LooksFirst ws rid todo store)
  then show ?case by (auto simp: requests_ok_def)
next
  case (Proof ws rid i base todo result store go store')
  show ?case
  proof (cases "map_of store rid")
    case None
    then show ?thesis using Proof by (auto simp: store_proof_def requests_ok_def)
  next
    case (Some r)
    have ok: "request_ok ids missing r (ws rid)" using Proof.prems(2) Some by (simp add: requests_ok_def)
    have st: "rq_state r = Proofing" using ok Proof.hyps(1) by (cases "rq_state r") (auto simp: request_ok_def)
    have i: "i \<in> set (ids r)" and d: "distinct (ids r)" and m: "missing r \<subseteq> insert i (fst ` set todo)"
      and t: "fst ` set todo \<subseteq> set (ids r)"
      using ok st Proof.hyps(1) by (auto simp: request_ok_def)
    show ?thesis
    proof (cases result)
      case (Inl e)
      then have "go = False" "store' = AList.update rid (proof_failed e r) store"
        using Proof.hyps(2) Some st by (auto simp: store_proof_def)
      then show ?thesis using Proof.prems d
        by (auto simp: requests_ok_def update_conv' distinct_update failed_ok)
    next
      case (Inr p)
      then have g: "go = True" "store' = AList.update rid (put i p r) store"
        using Proof.hyps(2) Some st i by (auto simp: store_proof_def)
      have "request_ok ids missing (put i p r) (Some todo)"
        using st d t m put_missing [OF d i] by (auto simp: request_ok_def)
      then show ?thesis using Proof.prems g by (auto simp: requests_ok_def update_conv' distinct_update)
    qed
  qed
next
  case (AllProved ws rid store)
  have "request_ok ids missing (if rq_state r = Completing then r else r\<lparr>rq_state := ProofReady\<rparr>) None"
    if "map_of store rid = Some r" for r
  proof -
    have "request_ok ids missing r (ws rid)" using AllProved.prems(2) that by (simp add: requests_ok_def)
    then have "request_ok ids missing r (Some [])" using AllProved.hyps by simp
    then show ?thesis by (cases "rq_state r") (auto simp: request_ok_def)
  qed
  then show ?case unfolding all_proofs_ready_def fst_conv
    by (intro set_entry_ok) (use AllProved.prems in simp_all)
next
  case (Taken expected pm account network rid n store result store' ws)
  have "store' = store \<or> (\<exists>r. map_of store rid = Some r \<and> rq_state r = ProofReady
      \<and> store' = AList.update rid (r\<lparr>rq_state := Completing\<rparr>) store)"
    using take_request_cases [OF Taken.hyps] by blast
  then show ?case
  proof (elim disjE exE conjE)
    fix r assume r: "map_of store rid = Some r" "rq_state r = ProofReady"
      and s: "store' = AList.update rid (r\<lparr>rq_state := Completing\<rparr>) store"
    have "request_ok ids missing r (ws rid)" using Taken.prems(2) r(1) by (simp add: requests_ok_def)
    then have "request_ok ids missing (r\<lparr>rq_state := Completing\<rparr>) (ws rid)" using r(2) by (simp add: request_ok_def)
    then show ?thesis using Taken.prems s by (auto simp: requests_ok_def update_conv' distinct_update)
  qed (use Taken.prems in simp)
next
  case (PutBack store ws rid)
  have "request_ok ids missing (if rq_state r = Completing then r\<lparr>rq_state := ProofReady\<rparr> else r) (ws rid)"
    if "map_of store rid = Some r" for r
  proof -
    have "request_ok ids missing r (ws rid)" using PutBack that by (simp add: requests_ok_def)
    then show ?thesis by (cases "rq_state r") (auto simp: request_ok_def)
  qed
  then have "requests_ok ids missing (set_entry rid (\<lambda>r. if rq_state r = Completing then r\<lparr>rq_state := ProofReady\<rparr> else r) store,
      ws(rid := ws rid)) \<and> distinct (map fst (set_entry rid (\<lambda>r. if rq_state r = Completing
        then r\<lparr>rq_state := ProofReady\<rparr> else r) store))"
    by (intro set_entry_ok) (use PutBack.prems in simp_all)
  then show ?case by (simp add: reset_after_failed_completion_def)
next
  case (Completed store ws rid)
  then show ?case by (auto simp: requests_ok_def delete_conv' distinct_delete)
next
  case (Discarded store ws rid)
  have "request_ok ids missing r (ws k)" if "map_of (snd (discard_entry rid store)) k = Some r" for k r
    using Discarded.prems(2) discard_entry_lookup [OF that] unfolding requests_ok_def by simp
  then show ?case using discard_entry_distinct Discarded.prems(1) unfolding requests_ok_def by fastforce
next
  case (Retained store ws P)
  have "request_ok ids missing r (ws k)" if "map_of (retain P store) k = Some r" for k r
    using Retained.prems map_of_retain_subset [OF _ that] unfolding requests_ok_def by simp
  then show ?case using distinct_retain Retained.prems(1) unfolding requests_ok_def by fastforce
qed

lemma reachable_ok:
  assumes "(request_step ids missing put strict)\<^sup>*\<^sup>* ([], Map.empty) S"
  shows "requests_ok ids missing S \<and> distinct (map fst (fst S))"
  using assms
proof (induction rule: rtranclp_induct)
  case base
  show ?case by (simp add: requests_ok_def)
next
  case (step S S')
  then show ?case using step_keeps by blast
qed

end

section \<open>The two kinds\<close>

lemma set_first_map: "(\<And>x. g (f x) = g x) \<Longrightarrow> map g (set_first P f xs) = map g xs"
  by (induction xs) auto

lemma set_first_other: "x \<in> set (set_first P f xs) \<Longrightarrow> x \<in> set xs \<or> (\<exists>y \<in> set xs. P y \<and> x = f y)"
  by (induction xs) (auto split: if_splits)

lemma set_first_distinct:
  assumes "distinct (map g xs)" and "\<And>x. g (f x) = g x"
  shows "set (set_first (\<lambda>x. g x = i) f xs) = (\<lambda>x. if g x = i then f x else x) ` set xs"
  using assms(1)
proof (induction xs)
  case (Cons x xs)
  then show ?case
  proof (cases "g x = i")
    case True
    then have "(\<lambda>x. if g x = i then f x else x) ` set xs = set xs" using Cons.prems by (force simp: image_iff)
    then show ?thesis using True by simp
  qed (use Cons in simp)
qed simp

lemma missing_after:
  assumes "\<And>x. g (f x) = g x" and "\<And>x. \<not> P (f x)"
  shows "{g s | s. s \<in> (\<lambda>x. if g x = i then f x else x) ` X \<and> P s} = {g s | s. s \<in> X \<and> P s} - {i}" (is "?l = ?r")
proof
  show "?l \<subseteq> ?r" using assms by (auto split: if_splits)
  show "?r \<subseteq> ?l"
  proof
    fix k assume "k \<in> ?r"
    then obtain x where "x \<in> X" "P x" "k = g x" "g x \<noteq> i" by blast
    then have "x = (if g x = i then f x else x)" by simp
    then have "x \<in> (\<lambda>x. if g x = i then f x else x) ` X" using \<open>x \<in> X\<close> by (rule image_eqI)
    then show "k \<in> ?l" using \<open>P x\<close> \<open>k = g x\<close> by blast
  qed
qed

interpretation split_requests: proof_kind split_ids split_missing split_put True
proof
  fix i p and r :: "'a split_request_scheme"
  show ids: "split_ids (split_put i p r) = split_ids r" by (simp add: split_ids_def split_put_def set_first_map)
  assume "distinct (split_ids r)"
  then have set: "set (rq_split_stages (split_put i p r)) =
      (\<lambda>s. if cs_id s = i then s\<lparr>cs_pczt_with_proofs := Some p\<rparr> else s) ` set (rq_split_stages r)"
    unfolding split_put_def split_ids_def by (simp add: set_first_distinct)
  assume i: "i \<in> set (split_ids r)"
  show "split_missing (split_put i p r) = split_missing r - {i}" unfolding split_missing_def set
    by (rule missing_after) simp_all
qed (simp_all add: split_put_def split_ids_def split_missing_def)

interpretation batch_requests: proof_kind batch_ids batch_missing batch_put False
proof
  fix i p and r :: batch_request
  show ids: "batch_ids (batch_put i p r) = batch_ids r" by (simp add: batch_ids_def batch_put_def set_first_map)
  assume "distinct (batch_ids r)"
  then have set: "set (rq_messages (batch_put i p r)) =
      (\<lambda>m. if cm_id m = i then m\<lparr>cm_pczt_with_proofs := Some p\<rparr> else m) ` set (rq_messages r)"
    unfolding batch_put_def batch_ids_def by (simp add: set_first_distinct)
  have old: "rq_recovery_old_txids (batch_put i p r) = rq_recovery_old_txids r" by (simp add: batch_put_def)
  assume i: "i \<in> set (batch_ids r)"
  show "batch_missing (batch_put i p r) = batch_missing r - {i}" unfolding batch_missing_def set old
    by (subst missing_after) simp_all
qed (simp_all add: batch_put_def batch_ids_def batch_missing_def)

section \<open>The handlers are steps\<close>

lemma check_messages_distinct:
  "check_messages ids ps ms = Inr u \<Longrightarrow> distinct (map km_id ms) \<and> set (map km_id ms) \<inter> ids = {}"
  by (induction ids ps ms rule: check_messages.induct) (auto split: if_splits)

lemma validated_messages_distinct:
  "validate_keystone_migration_messages ms = Inr u \<Longrightarrow> distinct (map km_id ms)"
  by (auto simp: validate_keystone_migration_messages_def dest: check_messages_distinct split: if_splits)

lemma message_ids [simp]: "map km_id (stage_messages stages) = map cs_id stages"
    "map km_id (child_messages ms) = map cm_id ms"
  by (simp_all add: stage_messages_def child_messages_def keystone_migration_message_def comp_def)

lemma stage_messages_Nil [simp]: "stage_messages stages = [] \<longleftrightarrow> stages = []"
  by (simp add: stage_messages_def)

lemma root_proofs_ids: "fst ` set (root_proofs stages) = {cs_id s | s. s \<in> set stages \<and> \<not> cs_deferred s}"
  by (force simp: root_proofs_def split_roots_def)

lemma new_split_registered:
  assumes "distinct (map cs_id stages)" and "\<forall>s \<in> set stages. cs_pczt_with_proofs s = None"
    and r: "rq_split_stages r = stages" "rq_state r = split_request_state stages"
  shows "newly_registered split_ids split_missing r (worker_of (root_proofs stages))"
proof -
  have m: "split_missing r \<subseteq> fst ` set (root_proofs stages)" unfolding split_missing_def r root_proofs_ids by auto
  show ?thesis
  proof (cases "root_proofs stages = []")
    case True
    then show ?thesis using assms(1) m r by (simp add: newly_registered_def worker_of_def split_ids_def split_request_state_def)
  next
    case False
    then show ?thesis using assms(1) m r
      by (auto simp: newly_registered_def worker_of_def split_ids_def split_request_state_def root_proofs_ids)
  qed
qed

lemma registered_denominations:
  assumes "register_denomination_request rid account network policy draft stages refs migratable plan store = Inr ((ms, w), store')"
    and "\<forall>s \<in> set stages. cs_pczt_with_proofs s = None" and "map_of store rid = None" and "ws rid = None"
  shows "request_step split_ids split_missing split_put True (store, ws) (store', ws(rid := w))"
proof -
  let ?r = "split_request.extend (new_split_request account network policy stages refs migratable plan)
      (denomination_request.fields draft)"
  have d: "distinct (map cs_id stages)"
    using assms(1) validated_messages_distinct [of "stage_messages stages"]
    by (cases "stages = []")
      (auto simp: register_denomination_request_def rbind_eq_Inr map_error_eq_Inr simp del: map_map)
  have eq: "w = worker_of (root_proofs stages)" "store' = AList.update rid ?r store"
    using assms(1) by (auto simp: register_denomination_request_def rbind_eq_Inr split: if_splits)
  have "newly_registered split_ids split_missing ?r w"
    unfolding eq by (rule new_split_registered [OF d assms(2)])
      (simp_all add: new_split_request_def split_request.defs denomination_request.defs)
  then show ?thesis unfolding eq(2) by (intro request_step.Register assms(3) assms(4))
qed

lemma registered_single_qr:
  assumes "register_single_qr_request rid account network policy stages refs migratable plan children schedule store =
      Inr ((ms, w), store')"
    and "\<forall>s \<in> set stages. cs_pczt_with_proofs s = None" and "map_of store rid = None" and "ws rid = None"
  shows "request_step split_ids split_missing split_put True (store, ws) (store', ws(rid := w))"
proof -
  let ?r = "split_request.extend (new_split_request account network policy stages refs migratable plan)
      (single_qr_request.fields children schedule)"
  have "distinct (map km_id (stage_messages stages @ child_messages children))"
    using assms(1) validated_messages_distinct [of "stage_messages stages @ child_messages children"]
    by (auto simp: register_single_qr_request_def rbind_eq_Inr map_error_eq_Inr Let_def simp del: map_map map_append)
  then have d: "distinct (map cs_id stages)" by simp
  have eq: "w = worker_of (root_proofs stages)" "store' = AList.update rid ?r store"
    using assms(1) by (auto simp: register_single_qr_request_def rbind_eq_Inr Let_def split: if_splits)
  have "newly_registered split_ids split_missing ?r w"
    unfolding eq by (rule new_split_registered [OF d assms(2)])
      (simp_all add: new_split_request_def split_request.defs single_qr_request.defs)
  then show ?thesis unfolding eq(2) by (intro request_step.Register assms(3) assms(4))
qed

lemma registered_batch:
  assumes "register_batch_request rid account network run old created store = Inr ((ms, w), store')"
    and "map_of store rid = None" and "ws rid = None"
  shows "request_step batch_ids batch_missing batch_put False (store, ws) (store', ws(rid := w))"
proof -
  have d: "distinct (map cm_id created)"
    using assms(1) validated_messages_distinct [of "child_messages created"]
    by (auto simp: register_batch_request_def rbind_eq_Inr map_error_eq_Inr Let_def)
  let ?r = "\<lparr>rq_account_uuid = account, rq_network = network, rq_state = (if old = [] then ProofReady else Proofing),
      rq_proof_error = None, rq_run_id = ar_run_id run,
      rq_fallback_total_count = length (ar_target_values_zatoshi run) mod 2 ^ 32,
      rq_fallback_migrated_zatoshi = sum_list (ar_target_values_zatoshi run) mod 2 ^ 64,
      rq_recovery_old_txids = old, rq_messages = created\<rparr>"
  have eq: "store' = AList.update rid ?r store" "w = (if old = [] then None else Some (map (\<lambda>m. (cm_id m, cm_base_pczt m)) created))"
    using assms(1) by (auto simp: register_batch_request_def rbind_eq_Inr Let_def)
  have "newly_registered batch_ids batch_missing ?r w"
    using d by (auto simp: eq(2) newly_registered_def batch_ids_def batch_missing_def image_image)
  then show ?thesis unfolding eq(1) by (intro request_step.Register assms(2) assms(3))
qed

text \<open>One call of a handler is a few steps on its store, and leaves the other stores alone.\<close>

lemma completed_denominations_steps:
  assumes "complete_denomination_request W px fast run_id db_path account network rid answers password salt schedule ks s =
      (res, ks', s')"
  shows "(request_step split_ids split_missing split_put True)\<^sup>*\<^sup>* (ks_denomination ks, ws) (ks_denomination ks', ws)"
    and "ks' = ks\<lparr>ks_denomination := ks_denomination ks'\<rparr>"
proof -
  let ?step = "request_step split_ids split_missing split_put True"
  have "?step\<^sup>*\<^sup>* (ks_denomination ks, ws) (ks_denomination ks', ws) \<and> ks' = ks\<lparr>ks_denomination := ks_denomination ks'\<rparr>"
  proof (cases "if answers = [] then Inr [] else signed_migration_messages_by_id rid answers")
    case (Inl e)
    then show ?thesis using assms by (auto simp: complete_denomination_request_def split: if_splits)
  next
    case (Inr by_id)
    obtain r store where t: "take_denomination_request account network rid (length by_id) (ks_denomination ks) = (r, store)"
      by fastforce
    have taken: "?step (ks_denomination ks, ws) (store, ws)"
      by (rule request_step.Taken [OF t [unfolded take_denomination_request_def]])
    have put_back: "?step (store, ws) (reset_after_failed_completion rid store, ws)" by (rule request_step.PutBack)
    have out: "?step (store, ws) (AList.delete rid store, ws)" by (rule request_step.Completed)
    have "ks' = ks\<lparr>ks_denomination := store\<rparr> \<or> ks' = ks\<lparr>ks_denomination := reset_after_failed_completion rid store\<rparr>
        \<or> ks' = ks\<lparr>ks_denomination := AList.delete rid store\<rparr>"
      using assms Inr t by (auto simp: complete_denomination_request_def split: if_splits sum.splits option.splits prod.splits)
    then show ?thesis using taken put_back out by (elim disjE) (auto intro: converse_rtranclp_into_rtranclp)
  qed
  then show "?step\<^sup>*\<^sup>* (ks_denomination ks, ws) (ks_denomination ks', ws)" and "ks' = ks\<lparr>ks_denomination := ks_denomination ks'\<rparr>"
    by blast+
qed

lemma completed_single_qr_steps:
  assumes "complete_single_qr_request W px fast run_id db_path account network rid answers password salt ks s =
      (res, ks', s')"
  shows "(request_step split_ids split_missing split_put True)\<^sup>*\<^sup>* (ks_single_qr ks, ws) (ks_single_qr ks', ws)"
    and "ks' = ks\<lparr>ks_single_qr := ks_single_qr ks'\<rparr>"
proof -
  let ?step = "request_step split_ids split_missing split_put True"
  have "?step\<^sup>*\<^sup>* (ks_single_qr ks, ws) (ks_single_qr ks', ws) \<and> ks' = ks\<lparr>ks_single_qr := ks_single_qr ks'\<rparr>"
  proof (cases "\<exists>by_id. signed_migration_messages_by_id rid answers = Inr by_id
      \<and> migration_reserves_orchard_inputs (se_db s) account network = Inr False")
    case False
    then show ?thesis using assms
      by (cases "signed_migration_messages_by_id rid answers"; cases "migration_reserves_orchard_inputs (se_db s) account network")
        (auto simp: complete_single_qr_request_def split: bool.splits)
  next
    case True
    then obtain by_id where by_id: "signed_migration_messages_by_id rid answers = Inr by_id"
      and free: "migration_reserves_orchard_inputs (se_db s) account network = Inr False" by blast
    obtain r store where t: "take_single_qr_request account network rid (length by_id) (ks_single_qr ks) = (r, store)"
      by fastforce
    have taken: "?step (ks_single_qr ks, ws) (store, ws)"
      by (rule request_step.Taken [OF t [unfolded take_single_qr_request_def]])
    have put_back: "?step (store, ws) (reset_after_failed_completion rid store, ws)" by (rule request_step.PutBack)
    have out: "?step (store, ws) (AList.delete rid store, ws)" by (rule request_step.Completed)
    have "ks' = ks\<lparr>ks_single_qr := store\<rparr> \<or> ks' = ks\<lparr>ks_single_qr := reset_after_failed_completion rid store\<rparr>
        \<or> ks' = ks\<lparr>ks_single_qr := AList.delete rid store\<rparr>"
      using assms by_id free t
      by (auto simp: complete_single_qr_request_def split: if_splits sum.splits option.splits prod.splits)
    then show ?thesis using taken put_back out by (elim disjE) (auto intro: converse_rtranclp_into_rtranclp)
  qed
  then show "?step\<^sup>*\<^sup>* (ks_single_qr ks, ws) (ks_single_qr ks', ws)" and "ks' = ks\<lparr>ks_single_qr := ks_single_qr ks'\<rparr>"
    by blast+
qed

lemma completed_batch_steps:
  assumes "complete_orchard_migration_batch_pczt W px db_path account network rid answers password salt active ks s =
      (res, ks', s')"
  shows "(request_step batch_ids batch_missing batch_put False)\<^sup>*\<^sup>* (ks_batch ks, ws) (ks_batch ks', ws)"
    and "ks' = ks\<lparr>ks_batch := ks_batch ks'\<rparr>"
proof -
  let ?step = "request_step batch_ids batch_missing batch_put False"
  let ?start = "rbind (acquire_migration db_path account active) (\<lambda>_.
           map_error CoRequest (signed_migration_messages_by_id rid answers))"
  have "?step\<^sup>*\<^sup>* (ks_batch ks, ws) (ks_batch ks', ws) \<and> ks' = ks\<lparr>ks_batch := ks_batch ks'\<rparr>"
  proof (cases ?start)
    case (Inl e)
    then show ?thesis using assms by (simp add: complete_orchard_migration_batch_pczt_def)
  next
    case (Inr by_id)
    obtain r store where t: "take_batch_request account network rid (length by_id) (ks_batch ks) = (r, store)"
      by fastforce
    have taken: "?step (ks_batch ks, ws) (store, ws)"
      by (rule request_step.Taken [OF t [unfolded take_batch_request_def]])
    have put_back: "?step (store, ws) (reset_after_failed_completion rid store, ws)" by (rule request_step.PutBack)
    have out: "?step (store, ws) (AList.delete rid store, ws)" by (rule request_step.Completed)
    have "ks' = ks\<lparr>ks_batch := store\<rparr> \<or> ks' = ks\<lparr>ks_batch := reset_after_failed_completion rid store\<rparr>
        \<or> ks' = ks\<lparr>ks_batch := AList.delete rid store\<rparr>"
      using assms Inr t
      by (auto simp: complete_orchard_migration_batch_pczt_def Let_def split: if_splits sum.splits option.splits prod.splits)
    then show ?thesis using taken put_back out by (elim disjE) (auto intro: converse_rtranclp_into_rtranclp)
  qed
  then show "?step\<^sup>*\<^sup>* (ks_batch ks, ws) (ks_batch ks', ws)" and "ks' = ks\<lparr>ks_batch := ks_batch ks'\<rparr>"
    by blast+
qed

end
