(* ===== verification/Request_Properties.thy ===== *)
theory Request_Properties
  imports Request_Lifecycle Transfer_Sent Run_Creation
begin

text \<open>
  What the signing requests promise: the states under every interleaving, a worker that finishes, and the
  outcome of completing a batch.
\<close>

section \<open>Every interleaving\<close>

lemma missing_subset:
  "split_missing r \<subseteq> X \<longleftrightarrow>
     (\<forall>s \<in> set (rq_split_stages r). \<not> cs_deferred s \<and> cs_pczt_with_proofs s = None \<longrightarrow> cs_id s \<in> X)"
  "batch_missing b \<subseteq> X \<longleftrightarrow>
     (rq_recovery_old_txids b \<noteq> [] \<longrightarrow> (\<forall>m \<in> set (rq_messages b). cm_pczt_with_proofs m = None \<longrightarrow> cm_id m \<in> X))"
  "batch_missing b = {} \<longleftrightarrow>
     (rq_recovery_old_txids b \<noteq> [] \<longrightarrow> (\<forall>m \<in> set (rq_messages b). cm_pczt_with_proofs m \<noteq> None))"
  by (auto simp: split_missing_def batch_missing_def)

text \<open>
  C13. Whatever the interleaving of preparations, proof workers, completions and discards, a request that
  can be completed, or is being completed, has every proof it needs and no worker left; a request that
  still waits for proofs has a worker that holds each missing one, so none waits in vain; and a worker
  only meets its request while it waits. This holds for the requests that sign a split, where the stages
  on chain need a proof, and for a batch, where the parts that are signed again need one.
\<close>

theorem signing_requests_invariant:
  assumes "(request_step split_ids split_missing split_put True)\<^sup>*\<^sup>* ([], Map.empty) (store, ws)"
    and "map_of store rid = Some r"
    and "(request_step batch_ids batch_missing batch_put False)\<^sup>*\<^sup>* ([], Map.empty) (batches, bws)"
    and "map_of batches bid = Some b"
  shows "(rq_state r \<in> {ProofReady, Completing} \<longrightarrow> ws rid = None \<and> \<not> roots_missing r)
    \<and> (rq_state r = Proofing \<longrightarrow> (\<exists>todo. ws rid = Some todo
         \<and> (\<forall>s \<in> set (rq_split_stages r). \<not> cs_deferred s \<and> cs_pczt_with_proofs s = None \<longrightarrow> cs_id s \<in> fst ` set todo)))
    \<and> (ws rid \<noteq> None \<longrightarrow> rq_state r = Proofing)
    \<and> (rq_state b \<in> {ProofReady, Completing} \<longrightarrow> bws bid = None
         \<and> (rq_recovery_old_txids b \<noteq> [] \<longrightarrow> (\<forall>m \<in> set (rq_messages b). cm_pczt_with_proofs m \<noteq> None)))
    \<and> (rq_state b = Proofing \<longrightarrow> (\<exists>todo. bws bid = Some todo
         \<and> (rq_recovery_old_txids b \<noteq> [] \<longrightarrow>
             (\<forall>m \<in> set (rq_messages b). cm_pczt_with_proofs m = None \<longrightarrow> cm_id m \<in> fst ` set todo))))
    \<and> (bws bid \<noteq> None \<longrightarrow> rq_state b = Proofing)"
proof -
  have r: "request_ok split_ids split_missing r (ws rid)"
    using split_requests.reachable_ok [OF assms(1)] assms(2) unfolding requests_ok_def by simp
  have b: "request_ok batch_ids batch_missing b (bws bid)"
    using batch_requests.reachable_ok [OF assms(3)] assms(4) unfolding requests_ok_def by simp
  show ?thesis using r b
    by (cases "rq_state r"; cases "rq_state b")
      (simp_all add: request_ok_def roots_missing_iff missing_subset del: not_None_eq, blast+)
qed

section \<open>A worker finishes\<close>

lemma worker_proves_all:
  assumes "map_of store rid = Some r" and "rq_state r = Proofing" and "distinct (split_ids r)"
    and "fst ` set todo \<subseteq> set (split_ids r)" and "\<forall>(i, base) \<in> set todo. prove base = Inr (proof base)"
  shows "\<exists>q. map_of (split_proof_worker prove rid todo store) rid = Some q \<and> rq_state q = ProofReady
     \<and> split_missing q = split_missing r - fst ` set todo \<and> map cs_id (rq_split_stages q) = map cs_id (rq_split_stages r)
     \<and> rq_account_uuid q = rq_account_uuid r \<and> rq_network q = rq_network r"
  using assms
proof (induction todo arbitrary: store r)
  case Nil
  then show ?case
    by (auto simp: all_proofs_ready_def set_entry_def update_conv' split_missing_def simp del: map_of_eq_Some_iff)
next
  case (Cons x todo)
  obtain i base where x: "x = (i, base)" by fastforce
  let ?q = "split_put i (proof base) r"
  have p: "prove base = Inr (proof base)" and i: "i \<in> set (split_ids r)" using Cons.prems x by auto
  then have st: "store_split_proof rid i (prove base) store = (True, AList.update rid ?q store)"
    using Cons.prems(1,2) by (simp add: store_split_proof_eq store_proof_def)
  have "split_missing ?q = split_missing r - {i}" by (rule split_requests.put_missing [OF Cons.prems(3) i])
  moreover have "\<exists>q. map_of (split_proof_worker prove rid todo (AList.update rid ?q store)) rid = Some q \<and> rq_state q = ProofReady
     \<and> split_missing q = split_missing ?q - fst ` set todo \<and> map cs_id (rq_split_stages q) = map cs_id (rq_split_stages ?q)
     \<and> rq_account_uuid q = rq_account_uuid ?q \<and> rq_network q = rq_network ?q"
    using Cons.prems by (intro Cons.IH) (auto simp: update_conv')
  ultimately show ?case using st split_requests.put_ids [of i "proof base" r]
    by (force simp: x split_ids_def split_put_def)
qed

lemma worker_fails:
  assumes "map_of store rid = Some r" and "rq_state r = Proofing" and "distinct (split_ids r)"
    and "fst ` set todo \<subseteq> set (split_ids r)" and "\<not> (\<forall>(i, base) \<in> set todo. \<exists>p. prove base = Inr p)"
  shows "\<exists>q. map_of (split_proof_worker prove rid todo store) rid = Some q \<and> rq_state q = ProofFailed
     \<and> rq_proof_error q \<noteq> None \<and> rq_account_uuid q = rq_account_uuid r \<and> rq_network q = rq_network r"
  using assms
proof (induction todo arbitrary: store r)
  case Nil
  then show ?case by simp
next
  case (Cons x todo)
  obtain i base where x: "x = (i, base)" by fastforce
  show ?case
  proof (cases "prove base")
    case (Inl e)
    then have "store_split_proof rid i (prove base) store = (False, AList.update rid (proof_failed e r) store)"
      using Cons.prems(1,2) by (simp add: store_split_proof_eq store_proof_def)
    then show ?thesis by (simp add: x proof_failed_def update_conv')
  next
    case (Inr p)
    let ?q = "split_put i p r"
    have i: "i \<in> set (split_ids r)" using Cons.prems x by auto
    then have st: "store_split_proof rid i (prove base) store = (True, AList.update rid ?q store)"
      using Cons.prems(1,2) Inr by (simp add: store_split_proof_eq store_proof_def)
    have "\<exists>q. map_of (split_proof_worker prove rid todo (AList.update rid ?q store)) rid = Some q \<and> rq_state q = ProofFailed
       \<and> rq_proof_error q \<noteq> None \<and> rq_account_uuid q = rq_account_uuid ?q \<and> rq_network q = rq_network ?q"
      using Cons.prems x Inr by (intro Cons.IH) (auto simp: update_conv')
    then show ?thesis using st by (simp add: x split_put_def)
  qed
qed

lemma worker_distinct:
  "distinct (map fst store) \<Longrightarrow> distinct (map fst (split_proof_worker prove rid todo store))"
proof (induction prove rid todo store rule: split_proof_worker.induct)
  case (1 prove rid store)
  then show ?case by (simp add: all_proofs_ready_def distinct_set_entry)
next
  case (2 prove rid i base todo store)
  have "distinct (map fst (snd (store_split_proof rid i (prove base) store)))"
    using 2(2) by (auto simp: store_split_proof_def distinct_update split: option.split sum.split)
  then show ?case using 2(1) by (cases "store_split_proof rid i (prove base) store") (auto split: bool.split)
qed

lemma pruned_lookup:
  assumes "distinct (map fst store)" and "map_of store rid = Some q" and "rq_state q = ProofFailed"
    and "rq_account_uuid q = account" and "rq_network q = network"
  shows "map_of (prune_failed account network store) rid = None"
proof (rule ccontr)
  assume "map_of (prune_failed account network store) rid \<noteq> None"
  then obtain r where r: "map_of (prune_failed account network store) rid = Some r" by blast
  then have "map_of store rid = Some r" unfolding prune_failed_def by (rule map_of_retain_subset [OF assms(1)])
  moreover have "(rid, r) \<in> set (prune_failed account network store)" using r by (rule map_of_SomeD)
  ultimately show False using assms by (simp add: prune_failed_def retain_def)
qed

text \<open>
  C14. A worker that runs to its end settles its request. When every proof succeeds, the request that
  waited for it is ready, and the account can complete it with one signed message for each stage; when a
  proof fails, the request is marked with an error and the next preparation of the account removes it.
  Either way the request does not block the account for ever.
\<close>

theorem worker_settles_request:
  assumes "(request_step split_ids split_missing split_put True)\<^sup>*\<^sup>* ([], Map.empty) (store, ws)"
    and "map_of store rid = Some (r :: denomination_request)" and "rq_state r = Proofing"
  shows "\<exists>todo q. ws rid = Some todo \<and> map_of (split_proof_worker prove rid todo store) rid = Some q
     \<and> (if \<forall>(i, base) \<in> set todo. \<exists>p. prove base = Inr p
        then rq_state q = ProofReady
          \<and> fst (take_denomination_request (rq_account_uuid r) (rq_network r) rid (length (rq_split_stages r))
               (split_proof_worker prove rid todo store)) = Inr q
        else rq_state q = ProofFailed \<and> rq_proof_error q \<noteq> None
          \<and> map_of (snd (ensure_no_live_request (rq_account_uuid r) (rq_network r)
               (split_proof_worker prove rid todo store))) rid = None)"
proof -
  have reach: "requests_ok split_ids split_missing (store, ws)" "distinct (map fst store)"
    using split_requests.reachable_ok [OF assms(1)] by simp_all
  then have ok: "request_ok split_ids split_missing r (ws rid)"
    using assms(2) unfolding requests_ok_def by simp
  then obtain todo where todo: "ws rid = Some todo" "split_missing r \<subseteq> fst ` set todo" "fst ` set todo \<subseteq> set (split_ids r)"
    and d: "distinct (split_ids r)"
    using assms(3) by (auto simp: request_ok_def)
  show ?thesis
  proof (cases "\<forall>(i, base) \<in> set todo. \<exists>p. prove base = Inr p")
    case True
    then have "\<forall>(i, base) \<in> set todo. prove base = Inr (projr (prove base))" by auto
    from worker_proves_all [OF assms(2,3) d todo(3), of prove "\<lambda>b. projr (prove b)", OF this]
    obtain q where q: "map_of (split_proof_worker prove rid todo store) rid = Some q" "rq_state q = ProofReady"
      "split_missing q = split_missing r - fst ` set todo" "map cs_id (rq_split_stages q) = map cs_id (rq_split_stages r)"
      "rq_account_uuid q = rq_account_uuid r" "rq_network q = rq_network r" by blast
    have "\<not> roots_missing q" using q(3) todo(2) by (auto simp: roots_missing_iff)
    moreover have "length (rq_split_stages q) = length (rq_split_stages r)" using arg_cong [OF q(4), of length] by simp
    ultimately have "fst (take_denomination_request (rq_account_uuid r) (rq_network r) rid (length (rq_split_stages r))
               (split_proof_worker prove rid todo store)) = Inr q"
      using q(1,2,5,6) by (simp add: take_denomination_request_def take_request_def of_account_def rbind_def del: map_of_eq_Some_iff)
    then show ?thesis using todo(1) q(1,2) True by (intro exI [of _ todo] exI [of _ q]) simp
  next
    case False
    then obtain q where q: "map_of (split_proof_worker prove rid todo store) rid = Some q" "rq_state q = ProofFailed"
      "rq_proof_error q \<noteq> None" "rq_account_uuid q = rq_account_uuid r" "rq_network q = rq_network r"
      using worker_fails [OF assms(2,3) d todo(3), of prove] by blast
    have keys: "distinct (map fst (split_proof_worker prove rid todo store))" by (rule worker_distinct [OF reach(2)])
    have "map_of (snd (ensure_no_live_request (rq_account_uuid r) (rq_network r)
               (split_proof_worker prove rid todo store))) rid = None"
      using q pruned_lookup [OF keys q(1)] by (simp add: ensure_no_live_request_def Let_def)
    then show ?thesis using todo(1) q(1,2,3) False by (intro exI [of _ todo] exI [of _ q]) simp
  qed
qed

section \<open>Completing a batch\<close>

text \<open>The errors of the reads that the handler makes once it has taken the request, and what they mean.\<close>

definition read_error :: "completion_error \<Rightarrow> bool" where
  "read_error e \<longleftrightarrow> e = CoNoActiveRun \<or> (\<exists>call msg. e = CoDatabase call msg)"

definition run_not_read ::
    "('w, 'g, 'n) world \<Rightarrow> string \<Rightarrow> wallet_network \<Rightarrow> 'w sender \<Rightarrow> completion_error \<Rightarrow> bool" where
  "run_not_read W account network s e \<longleftrightarrow>
     e = CoNoActiveRun \<and> find_active_run (se_db s) account network = None
     \<or> (\<exists>call \<in> {ReadActiveRun, ReadPreparedNotes}. \<exists>msg.
          wo_db_error W call (se_world s) = Some msg \<and> e = CoDatabase call msg)"

lemma initial_children_error: "initial_children px account by_id ms fee = Inl e \<Longrightarrow> \<not> read_error e"
  by (induction ms arbitrary: fee)
    (auto simp: read_error_def rbind_def ok_or_def map_error_def split: sum.splits option.splits prod.splits)

lemma extracted_parts_error: "extracted_parts px account by_id ms = Inl e \<Longrightarrow> \<not> read_error e"
  by (induction ms) (auto simp: read_error_def rbind_def ok_or_def map_error_def split: sum.splits option.splits prod.splits)

lemma batch_result_error: "batch_result W px account r by_id password salt s = (Inl e, s') \<Longrightarrow> \<not> read_error e"
  using initial_children_error [of px account by_id "rq_messages r" 0] extracted_parts_error [of px account by_id "rq_messages r"]
  by (auto simp: batch_result_def complete_initial_batch_def complete_recovery_batch_def rbind_def map_error_def read_error_def
      split: if_splits sum.splits prod.splits)

text \<open>The three ends of a completion that has taken its request.\<close>

lemma taken_batch_ends:
  assumes "complete_orchard_migration_batch_pczt W px db_path account network rid answers password salt active ks s =
      (res, ks', s')"
    and "rbind (acquire_migration db_path account active) (\<lambda>_.
           map_error CoRequest (signed_migration_messages_by_id rid answers)) = Inr by_id"
    and "take_batch_request account network rid (length by_id) (ks_batch ks) = (Inr r, store)"
  obtains (unread) e where "res = Inl e" "read_error e" "run_not_read W account network s e" "ks_batch ks' = store" "s' = s"
    | (failed) e where "res = Inl e" "\<not> read_error e" "ks_batch ks' = reset_after_failed_completion rid store"
    | (completed) result where "res = Inr result" "ks_batch ks' = AList.delete rid store"
proof -
  let ?reset = "\<lambda>e s. (Inl e, ks\<lparr>ks_batch := reset_after_failed_completion rid store\<rparr>, s)"
  note run = assms(1) [unfolded complete_orchard_migration_batch_pczt_def assms(2,3) sum.case prod.case Let_def]
  show thesis
  proof (cases "wo_db_error W ReadActiveRun (se_world s)")
    case (Some e)
    then show thesis using run by (intro unread [of "CoDatabase ReadActiveRun e"])
        (auto simp: active_migration_run_def read_error_def run_not_read_def)
  next
    case read: None
    show thesis
    proof (cases "find_active_run (se_db s) account network")
      case None
      then show thesis using run read by (intro unread [of CoNoActiveRun])
          (auto simp: active_migration_run_def read_error_def run_not_read_def)
    next
      case (Some found)
      then have active: "active_migration_run (wo_db_error W ReadActiveRun (se_world s)) (se_db s) account network = Inr (Some found)"
        by (simp add: active_migration_run_def read)
      show thesis
      proof (cases "prepared_notes_for_run (wo_db_error W ReadPreparedNotes (se_world s)) (se_db s) (ar_run_id found)")
        case (Inl e)
        then have err: "wo_db_error W ReadPreparedNotes (se_world s) = Some e"
          by (simp add: prepared_notes_for_run_def split: option.splits)
        show thesis
        proof (cases "ar_run_id found = rq_run_id r")
          case True
          then show thesis using run active Inl err by (intro unread [of "CoDatabase ReadPreparedNotes e"])
              (auto simp: read_error_def run_not_read_def)
        next
          case False
          then show thesis using run active by (intro failed [of CoOldRun]) (auto simp: read_error_def)
        qed
      next
        case (Inr current)
        obtain br s1 where br: "batch_result W px account r by_id password salt s = (br, s1)" by fastforce
        consider "(res, ks', s') = ?reset CoOldRun s" | "(res, ks', s') = ?reset CoNotesChanged s"
          | e where "br = Inl e" "(res, ks', s') = ?reset e s1"
          | result where "br = Inr result" "(res, ks', s') = (Inr result, ks\<lparr>ks_batch := AList.delete rid store\<rparr>, s1)"
          using run active Inr br by (cases br) (auto split: if_splits)
        then show thesis
        proof cases
          case 1
          then show thesis by (intro failed [of CoOldRun]) (auto simp: read_error_def)
        next
          case 2
          then show thesis by (intro failed [of CoNotesChanged]) (auto simp: read_error_def)
        next
          case (3 e)
          then show thesis using batch_result_error [OF br [unfolded 3(1)]] by (intro failed [of e]) auto
        next
          case (4 result)
          then show thesis by (intro completed [of result]) auto
        qed
      qed
    qed
  qed
qed

lemma completing_blocks:
  assumes "map_of store rid = Some r" and "rq_state r = Completing" and "of_account account network r"
  shows "snd (discard_entry rid store) = store"
    and "fst (ensure_no_live_migration_request account network (rq_run_id r) store) = Inl RequestInProgress"
proof -
  show "snd (discard_entry rid store) = store" using assms(1,2) by (simp add: discard_entry_def del: map_of_eq_Some_iff)
  have "(rid, r) \<in> set (prune_failed_migration_requests account network (rq_run_id r) store)"
    using map_of_SomeD [OF assms(1)] assms(2) by (simp add: prune_failed_migration_requests_def retain_def)
  then have "list_ex (\<lambda>(_, q). rq_account_uuid q = account \<and> rq_network q = network \<and> rq_run_id q = rq_run_id r)
      (prune_failed_migration_requests account network (rq_run_id r) store)"
    unfolding list_ex_iff by (rule bexI [rotated]) (use assms(3) in \<open>simp add: of_account_def\<close>)
  then show "fst (ensure_no_live_migration_request account network (rq_run_id r) store) = Inl RequestInProgress"
    by (simp add: ensure_no_live_migration_request_def Let_def)
qed

text \<open>
  C15. A batch is completed at most once. When a completion succeeds, the request was ready, belonged to
  the account and is gone. When it fails, the request is as it was, so it can be tried again or rejected,
  with one exception: a completion that finds no active run, or to which the database cannot give the
  active run or its prepared notes, leaves the request marked as completing and changes nothing else. Such
  a request is not removed when the user rejects it, and it blocks a new request for its run. No other
  request is touched.
\<close>

theorem batch_completion_outcome:
  assumes "complete_orchard_migration_batch_pczt W px db_path account network rid answers password salt active ks s =
      (res, ks', s')"
    and "map_of (ks_batch ks) rid = Some r"
  shows "(case res of
       Inr result \<Rightarrow> rq_state r = ProofReady \<and> of_account account network r \<and> map_of (ks_batch ks') rid = None
     | Inl e \<Rightarrow>
         if read_error e
         then run_not_read W account network s e
           \<and> map_of (ks_batch ks') rid = Some (r\<lparr>rq_state := Completing\<rparr>) \<and> s' = s
           \<and> snd (discard_entry rid (ks_batch ks')) = ks_batch ks'
           \<and> fst (ensure_no_live_migration_request account network (rq_run_id r) (ks_batch ks')) = Inl RequestInProgress
         else map_of (ks_batch ks') rid = Some r)
     \<and> (\<forall>k. k \<noteq> rid \<longrightarrow> map_of (ks_batch ks') k = map_of (ks_batch ks) k)"
proof -
  let ?start = "rbind (acquire_migration db_path account active) (\<lambda>_.
           map_error CoRequest (signed_migration_messages_by_id rid answers))"
  show ?thesis
  proof (cases ?start)
    case (Inl e)
    then have "\<not> read_error e"
      by (auto simp: acquire_migration_def rbind_def map_error_def read_error_def split: if_splits sum.splits)
    moreover have "res = Inl e" "ks' = ks"
      using assms(1) Inl by (simp_all add: complete_orchard_migration_batch_pczt_def)
    ultimately show ?thesis using assms(2) by (simp del: map_of_eq_Some_iff)
  next
    case (Inr by_id)
    obtain t store where t: "take_batch_request account network rid (length by_id) (ks_batch ks) = (t, store)" by fastforce
    note cases = take_request_cases [OF t [unfolded take_batch_request_def]]
    show ?thesis
    proof (cases t)
      case (Inl e)
      then have "store = ks_batch ks" using cases by auto
      then have "res = Inl (CoRequest e)" "ks_batch ks' = ks_batch ks"
        using assms(1) Inr Inl t by (auto simp: complete_orchard_migration_batch_pczt_def)
      then show ?thesis using assms(2) by (simp add: read_error_def del: map_of_eq_Some_iff)
    next
      case taken: (Inr q)
      then have q: "q = r" "rq_state r = ProofReady" "of_account account network r"
        "store = AList.update rid (r\<lparr>rq_state := Completing\<rparr>) (ks_batch ks)"
        using cases assms(2) by (auto simp del: map_of_eq_Some_iff)
      from assms(1) Inr t [unfolded taken q(1)] show ?thesis
      proof (cases rule: taken_batch_ends)
        case (unread e)
        have look: "map_of store rid = Some (r\<lparr>rq_state := Completing\<rparr>)"
          "k \<noteq> rid \<Longrightarrow> map_of store k = map_of (ks_batch ks) k" for k
          by (simp_all add: q(4) update_conv')
        have "of_account account network (r\<lparr>rq_state := Completing\<rparr>)" using q(3) by (simp add: of_account_def)
        from completing_blocks [OF look(1) _ this] show ?thesis using unread look by (simp del: map_of_eq_Some_iff)
      next
        case (failed e)
        then show ?thesis
          using q(2) by (simp add: reset_after_failed_completion_def set_entry_lookup q(4) update_conv' del: map_of_eq_Some_iff)
      next
        case (completed result)
        then show ?thesis using q(2,3) by (simp add: delete_conv' q(4) update_conv')
      qed
    qed
  qed
qed

section \<open>Examples\<close>

text \<open>A split of one stage, and a batch of one part that is signed again.\<close>

definition example_created_stage :: created_stage where
  "example_created_stage =
     \<lparr>cs_id = ''denominations'', cs_base_pczt = [1], cs_orchard_spend_action_indices = [0], cs_redacted_pczt = [2],
      cs_pczt_with_proofs = None, cs_expected_txid_hex = ''t'', cs_target_height = 10, cs_scheduled_height = 12,
      cs_expiry_height = 69120, cs_fee_zatoshi = 80000, cs_deferred = False, cs_inputs = [], cs_outputs = []\<rparr>"

definition example_split_plan :: denomination_plan where
  "example_split_plan = \<lparr>dp_migration_outputs = [100000000], dp_orchard_change = None, dp_split_fee_zatoshi = 80000,
     dp_migration_fee_zatoshi = 15000, dp_total_input_zatoshi = 100095000, dp_total_migratable_zatoshi = 100000000\<rparr>"

definition example_split_request :: denomination_request where
  "example_split_request = split_request.extend
     (new_split_request ''account'' Test Immediate [example_created_stage] [] 100000000 example_split_plan)
     (denomination_request.fields None)"

definition example_resigned_message :: created_message where
  "example_resigned_message =
     \<lparr>cm_part_index = 0, cm_id = ''migration-1'', cm_base_pczt = [1], cm_orchard_spend_action_indices = [0],
      cm_pczt_with_proofs = None, cm_redacted_pczt = [2], cm_target_height = 10, cm_anchor_boundary_height = None,
      cm_expiry_height = 69120, cm_scheduled_height = 12, cm_fee_zatoshi = 15000, cm_migrated_zatoshi = 100000000,
      cm_selected_note = \<lparr>on_txid_hex = ''t'', on_output_index = 0, on_value_zatoshi = 100015000,
        on_note_version = 2, on_nullifier_hex = None\<rparr>\<rparr>"

definition example_batch_run :: active_run where
  "example_batch_run = \<lparr>ar_run_id = ''run'', ar_phase = PHASE_READY_TO_MIGRATE,
     ar_target_values_zatoshi = [100000000], ar_last_error = None\<rparr>"

definition example_batch :: batch_request where
  "example_batch = \<lparr>rq_account_uuid = ''account'', rq_network = Test, rq_state = Proofing, rq_proof_error = None,
     rq_run_id = ''run'', rq_fallback_total_count = 1, rq_fallback_migrated_zatoshi = 100000000,
     rq_recovery_old_txids = [''old''], rq_messages = [example_resigned_message]\<rparr>"

lemma example_split_registered:
  "(request_step split_ids split_missing split_put True)\<^sup>*\<^sup>* ([], Map.empty)
     ([(''split'', example_split_request)], [''split'' \<mapsto> [(''denominations'', [1])]])"
proof (rule r_into_rtranclp)
  have reg: "register_denomination_request ''split'' ''account'' Test Immediate None [example_created_stage] [] 100000000
      example_split_plan [] = Inr ((stage_messages [example_created_stage], Some [(''denominations'', [1])]),
        [(''split'', example_split_request)])"
    by (simp add: register_denomination_request_def validate_keystone_migration_messages_def stage_messages_def
        keystone_migration_message_def example_created_stage_def example_split_request_def worker_of_def root_proofs_def
        split_roots_def map_error_def rbind_def)
  show "request_step split_ids split_missing split_put True ([], Map.empty)
      ([(''split'', example_split_request)], [''split'' \<mapsto> [(''denominations'', [1])]])"
    by (rule registered_denominations [OF reg]) (simp_all add: example_created_stage_def)
qed

lemma example_batch_registered:
  "(request_step batch_ids batch_missing batch_put False)\<^sup>*\<^sup>* ([], Map.empty)
     ([(''batch'', example_batch)], [''batch'' \<mapsto> [(''migration-1'', [1])]])"
proof (rule r_into_rtranclp)
  have reg: "register_batch_request ''batch'' ''account'' Test example_batch_run [''old''] [example_resigned_message] [] =
      Inr ((child_messages [example_resigned_message], Some [(''migration-1'', [1])]), [(''batch'', example_batch)])"
    by (simp add: register_batch_request_def validate_keystone_migration_messages_def child_messages_def
        keystone_migration_message_def example_resigned_message_def example_batch_def example_batch_run_def map_error_def rbind_def)
  show "request_step batch_ids batch_missing batch_put False ([], Map.empty)
      ([(''batch'', example_batch)], [''batch'' \<mapsto> [(''migration-1'', [1])]])"
    by (rule registered_batch [OF reg]) simp_all
qed

theorem signing_requests_invariant_witness:
  "\<exists>todo. [''split'' \<mapsto> [(''denominations'', [1 :: byte])]] ''split'' = Some todo
     \<and> (\<forall>s \<in> set (rq_split_stages example_split_request). \<not> cs_deferred s \<and> cs_pczt_with_proofs s = None
          \<longrightarrow> cs_id s \<in> fst ` set todo)"
proof -
  have st: "rq_state example_split_request = Proofing"
    by (simp add: example_split_request_def new_split_request_def split_request.defs denomination_request.defs
        split_request_state_def root_proofs_def split_roots_def example_created_stage_def)
  show ?thesis
    using signing_requests_invariant [OF example_split_registered _ example_batch_registered, of "''split''" example_split_request
        "''batch''" example_batch] st by simp
qed

text \<open>A prover that fails, on the same request.\<close>

theorem worker_settles_request_witness:
  "map_of (snd (ensure_no_live_request ''account'' Test
     (split_proof_worker (\<lambda>base. Inl ''no circuit'') ''split'' [(''denominations'', [1])]
       [(''split'', example_split_request)]))) ''split'' = None"
proof -
  have r: "rq_state example_split_request = Proofing" "rq_account_uuid example_split_request = ''account''"
    "rq_network example_split_request = Test"
    by (simp_all add: example_split_request_def new_split_request_def split_request.defs denomination_request.defs
        split_request_state_def root_proofs_def split_roots_def example_created_stage_def)
  from worker_settles_request [OF example_split_registered _ r(1), of "''split''" "\<lambda>base. Inl ''no circuit''"]
  show ?thesis unfolding r by (auto simp del: split_proof_worker.simps)
qed

text \<open>A batch that is ready, when its run has ended.\<close>

definition example_ready_batch :: request_stores where
  "example_ready_batch = \<lparr>ks_immediate = [], ks_single_qr = [], ks_denomination = [],
     ks_batch = [(''batch'', example_batch\<lparr>rq_state := ProofReady, rq_recovery_old_txids := []\<rparr>)]\<rparr>"

definition example_pczt_api :: pczt_api where
  "example_pczt_api = \<lparr>px_preflight = (\<lambda>b s. Inr ()), px_extract = (\<lambda>b s. Inr (''t'', [3]))\<rparr>"

definition example_signature :: spend_auth_signature where
  "example_signature = \<lparr>sig_value_pool = Orchard, sig_action_index = 0, sig_signature = replicate 64 0\<rparr>"

theorem batch_completion_outcome_witness:
  "\<exists>res ks' s'. complete_orchard_migration_batch_pczt silent_world example_pczt_api ''db'' ''account'' Test ''batch''
       [(''migration-1'', [example_signature])] [1] ''salt'' {} example_ready_batch
       \<lparr>se_db = example_empty_db, se_world = (), se_sent = []\<rparr> = (res, ks', s')
     \<and> map_of (ks_batch ks') ''batch'' = Some (example_batch\<lparr>rq_state := Completing, rq_recovery_old_txids := []\<rparr>)
     \<and> snd (discard_entry ''batch'' (ks_batch ks')) = ks_batch ks'"
proof -
  let ?s = "\<lparr>se_db = example_empty_db, se_world = (), se_sent = []\<rparr>"
  let ?r = "example_batch\<lparr>rq_state := ProofReady, rq_recovery_old_txids := []\<rparr>"
  obtain res ks' s' where run: "complete_orchard_migration_batch_pczt silent_world example_pczt_api ''db'' ''account'' Test ''batch''
       [(''migration-1'', [example_signature])] [1] ''salt'' {} example_ready_batch ?s = (res, ks', s')"
    by (metis prod_cases3)
  have entry: "map_of (ks_batch example_ready_batch) ''batch'' = Some ?r" by (simp add: example_ready_batch_def)
  have "active_migration_run (wo_db_error silent_world ReadActiveRun ()) example_empty_db ''account'' Test = Inr None"
    by (simp add: active_migration_run_def silent_world_def find_active_run_def account_runs_def newest_def example_empty_db_def)
  then have "res = Inl CoNoActiveRun"
    using run by (auto simp: complete_orchard_migration_batch_pczt_def acquire_migration_def rbind_def
        signed_migration_messages_by_id_def map_error_def take_batch_request_def take_request_def entry of_account_def
        example_batch_def example_resigned_message_def)
  then show ?thesis using batch_completion_outcome [OF run entry] run by (auto simp: read_error_def)
qed

end
