(* ===== verification/Stop_Driver.thy ===== *)
theory Stop_Driver
  imports Request_Completion Run_Stopping Pending_Reach Stage_Properties
begin

text \<open>
  Ending a migration against a live node (\<open>send.rs\<close>): before a run is stopped, every transaction of it
  that may have been sent is looked up on the node; before a run of a lost credential is retired, every
  scheduled transaction must be absent.

  The node is the parameter \<open>node_api\<close>: opening a channel, the height of the latest block, and a
  transaction by its id.
\<close>

section \<open>The node\<close>

datatype fetch_error = FetchNotFound | FetchFailed string

record 'w node_api =
  nd_open :: "'w \<Rightarrow> (string + unit) \<times> 'w"
  nd_latest_height :: "'w \<Rightarrow> (string + nat) \<times> 'w"
  nd_transaction :: "byte list \<Rightarrow> 'w \<Rightarrow> (fetch_error + byte list) \<times> 'w"

datatype end_error =
  EnGuard completion_error | EnQuery query_error | EnDriver driver_error | EnStage stage_error | EnLife life_error
| EnEndpoint string | EnTip string | EnTipOverflow | EnTxidHex | EnTxidLength | EnStore string
| EnNonExpiring string | EnMustWait string u32 | EnFetch string string
| EnAlreadyBroadcasted string | EnSafetyOverflow | EnSafetyWait u32 | EnPresent string

definition parse_txid_hex :: "(string \<Rightarrow> byte list option) \<Rightarrow> string \<Rightarrow> end_error + byte list" where
  "parse_txid_hex unhex txid_hex =
     rbind (ok_or EnTxidHex (unhex txid_hex)) (\<lambda>bytes.
     if length bytes \<noteq> 32 then Inl EnTxidLength else Inr (rev bytes))"

definition node_tip :: "'w node_api \<Rightarrow> 'w sender \<Rightarrow> (end_error + u32) \<times> 'w sender" where
  "node_tip node s =
     (case nd_open node (se_world s) of
        (Inl e, w) \<Rightarrow> (Inl (EnEndpoint e), s\<lparr>se_world := w\<rparr>)
      | (Inr _, w) \<Rightarrow>
          (case nd_latest_height node w of
             (Inl e, w1) \<Rightarrow> (Inl (EnTip e), s\<lparr>se_world := w1\<rparr>)
           | (Inr h, w1) \<Rightarrow> (if h < 2 ^ 32 then Inr h else Inl EnTipOverflow, s\<lparr>se_world := w1\<rparr>)))"

definition fetch_transaction :: "'w node_api \<Rightarrow> byte list \<Rightarrow> 'w sender \<Rightarrow> (fetch_error + byte list) \<times> 'w sender" where
  "fetch_transaction node txid s =
     (case nd_transaction node txid (se_world s) of (answer, w) \<Rightarrow> (answer, s\<lparr>se_world := w\<rparr>))"

section \<open>Before a stop\<close>

definition migration_stop_candidate_is_expired :: "u32 \<Rightarrow> u32 \<Rightarrow> bool" where
  "migration_stop_candidate_is_expired expiry_height chain_tip_height \<longleftrightarrow>
     expiry_height > 0 \<and> chain_tip_height \<ge> expiry_height"

definition migration_stop_candidate_requires_reconciliation :: "stop_candidate \<Rightarrow> bool \<Rightarrow> u32 \<Rightarrow> bool" where
  "migration_stop_candidate_requires_reconciliation c native_attempted chain_tip_height \<longleftrightarrow>
     native_attempted \<or> (case st_attempt_state c of
       NotAttempted \<Rightarrow> False | Attempted \<Rightarrow> True | UnknownLegacy \<Rightarrow> st_broadcast_height c \<le> chain_tip_height)"

definition mark_candidate ::
    "('w, 'g, 'n) world \<Rightarrow> string \<Rightarrow> stop_candidate \<Rightarrow> 'w sender \<Rightarrow> (end_error + unit) \<times> 'w sender" where
  "mark_candidate W run_id c s =
     (case st_kind c of
        MigrationTransaction \<Rightarrow>
          (case mark_broadcasted W run_id (st_txid_hex c) s of (res, s1) \<Rightarrow> (map_error EnDriver res, s1))
      | DenominationStage \<Rightarrow>
          (case mark_denomination_stage_broadcasted (mdb_stages (se_db s)) run_id (st_txid_hex c) of
             (res, stages) \<Rightarrow> (map_error EnStage res, with_db ((se_db s)\<lparr>mdb_stages := stages\<rparr>) s)))"

fun reconcile_candidates ::
    "('w, 'g, 'n) world \<Rightarrow> 'w node_api \<Rightarrow> string \<Rightarrow> u32 \<Rightarrow> stop_candidate list \<Rightarrow> 'w sender \<Rightarrow>
     (end_error + unit) \<times> 'w sender" where
  "reconcile_candidates W node run_id chain_tip_height [] s = (Inr (), s)"
| "reconcile_candidates W node run_id chain_tip_height (c # cs) s =
     (case parse_txid_hex (wo_unhex W) (st_txid_hex c) of
        Inl e \<Rightarrow> (Inl e, s)
      | Inr txid \<Rightarrow>
          (case fetch_transaction node txid s of
             (Inr raw_tx, s1) \<Rightarrow>
               (case store_transaction W raw_tx s1 of
                  (Inl e, s2) \<Rightarrow> (Inl (EnStore e), s2)
                | (Inr _, s2) \<Rightarrow>
                    (case mark_candidate W run_id c s2 of
                       (Inl e, s3) \<Rightarrow> (Inl e, s3)
                     | (Inr _, s3) \<Rightarrow> reconcile_candidates W node run_id chain_tip_height cs s3))
           | (Inl FetchNotFound, s1) \<Rightarrow>
               if migration_stop_candidate_is_expired (st_expiry_height c) chain_tip_height
               then reconcile_candidates W node run_id chain_tip_height cs s1
               else if st_expiry_height c = 0 then (Inl (EnNonExpiring (st_txid_hex c)), s1)
               else (Inl (EnMustWait (st_txid_hex c) (st_expiry_height c)), s1)
           | (Inl (FetchFailed e), s1) \<Rightarrow> (Inl (EnFetch (st_txid_hex c) e), s1)))"

definition reconcile_scheduled_migration_txs_before_abandon ::
    "('w, 'g, 'n) world \<Rightarrow> 'w node_api \<Rightarrow> wallet_network \<Rightarrow> string \<Rightarrow> string \<Rightarrow> string list \<Rightarrow> 'w sender \<Rightarrow>
     (end_error + unit) \<times> 'w sender" where
  "reconcile_scheduled_migration_txs_before_abandon W node network account_uuid expected_run_id native_attempted_txids s =
     (case scheduled_migration_stop_candidates (wo_unhex W) (wo_chain W (se_world s)) (se_db s) account_uuid network
             expected_run_id of
        Inl e \<Rightarrow> (Inl (EnQuery e), s)
      | Inr candidates \<Rightarrow>
          let native = (\<lambda>c. to_ascii_lowercase (st_txid_hex c) \<in> to_ascii_lowercase ` set native_attempted_txids) in
          if \<not> list_ex (\<lambda>c. native c \<or> st_attempt_state c \<noteq> NotAttempted) candidates then (Inr (), s)
          else
            (case node_tip node s of
               (Inl e, s1) \<Rightarrow> (Inl e, s1)
             | (Inr chain_tip_height, s1) \<Rightarrow>
                 reconcile_candidates W node expected_run_id chain_tip_height
                   (filter (\<lambda>c. migration_stop_candidate_requires_reconciliation c (native c) chain_tip_height) candidates)
                   s1))"

definition abandon_orchard_migration ::
    "('w, 'g, 'n) world \<Rightarrow> 'w node_api \<Rightarrow> string \<Rightarrow> wallet_network \<Rightarrow> string \<Rightarrow> string \<Rightarrow> string list \<Rightarrow> string set \<Rightarrow>
     request_stores \<Rightarrow> 'w sender \<Rightarrow> (end_error + unit) \<times> request_stores \<times> 'w sender" where
  "abandon_orchard_migration W node db_path network account_uuid expected_run_id native_attempted_txids active ks s =
     (case acquire_migration db_path account_uuid active of
        Inl e \<Rightarrow> (Inl (EnGuard e), ks, s)
      | Inr _ \<Rightarrow>
          (case reconcile_scheduled_migration_txs_before_abandon W node network account_uuid expected_run_id
                  native_attempted_txids s of
             (Inl e, s1) \<Rightarrow> (Inl e, ks, s1)
           | (Inr _, s1) \<Rightarrow>
               (case abandon_run (wo_locks W) (wo_unhex W) (wo_now W (se_world s1)) account_uuid network
                       expected_run_id (se_db s1, se_world s1) of
                  (Inl e, db, w) \<Rightarrow> (Inl (EnLife e), ks, s1\<lparr>se_db := db, se_world := w\<rparr>)
                | (Inr _, db, w) \<Rightarrow>
                    (Inr (), discard_keystone_migration_requests_for_run account_uuid network expected_run_id ks,
                     s1\<lparr>se_db := db, se_world := w\<rparr>))))"

section \<open>Before a retirement\<close>

definition UNBROADCAST_MIGRATION_RECOVERY_SAFETY_BLOCKS :: u32 where
  "UNBROADCAST_MIGRATION_RECOVERY_SAFETY_BLOCKS = 10"

fun validate_unbroadcast_migration_recovery_candidates :: "recovery_candidate list \<Rightarrow> u32 \<Rightarrow> end_error + unit" where
  "validate_unbroadcast_migration_recovery_candidates [] chain_tip_height = Inr ()"
| "validate_unbroadcast_migration_recovery_candidates (c # cs) chain_tip_height =
     (if rc_status c \<noteq> ''scheduled'' then Inl (EnAlreadyBroadcasted (rc_txid_hex c))
      else
        rbind (ok_or EnSafetyOverflow
            (checked_add 32 (rc_scheduled_height c) UNBROADCAST_MIGRATION_RECOVERY_SAFETY_BLOCKS)) (\<lambda>safe_recovery_height.
        if chain_tip_height < safe_recovery_height then Inl (EnSafetyWait safe_recovery_height)
        else validate_unbroadcast_migration_recovery_candidates cs chain_tip_height))"

fun check_absent ::
    "('w, 'g, 'n) world \<Rightarrow> 'w node_api \<Rightarrow> recovery_candidate list \<Rightarrow> 'w sender \<Rightarrow> (end_error + unit) \<times> 'w sender" where
  "check_absent W node [] s = (Inr (), s)"
| "check_absent W node (c # cs) s =
     (case parse_txid_hex (wo_unhex W) (rc_txid_hex c) of
        Inl e \<Rightarrow> (Inl e, s)
      | Inr txid \<Rightarrow>
          (case fetch_transaction node txid s of
             (Inr _, s1) \<Rightarrow> (Inl (EnPresent (rc_txid_hex c)), s1)
           | (Inl FetchNotFound, s1) \<Rightarrow> check_absent W node cs s1
           | (Inl (FetchFailed e), s1) \<Rightarrow> (Inl (EnFetch (rc_txid_hex c) e), s1)))"

definition absent_message :: string where
  "absent_message = ''The previous signed migration transactions were absent after their broadcast windows. ''
     @ ''Rebuilding with a new credential.''"

definition retire_unbroadcast_orchard_migration ::
    "('w, 'g, 'n) world \<Rightarrow> 'w node_api \<Rightarrow> string \<Rightarrow> wallet_network \<Rightarrow> string \<Rightarrow> string \<Rightarrow> string set \<Rightarrow> 'w sender \<Rightarrow>
     (end_error + unit) \<times> 'w sender" where
  "retire_unbroadcast_orchard_migration W node db_path network account_uuid expected_run_id active s =
     (case acquire_migration db_path account_uuid active of
        Inl e \<Rightarrow> (Inl (EnGuard e), s)
      | Inr _ \<Rightarrow>
          (case unbroadcast_migration_recovery_candidates (se_db s) account_uuid network expected_run_id of
             Inl e \<Rightarrow> (Inl (EnQuery e), s)
           | Inr candidates \<Rightarrow>
               (case node_tip node s of
                  (Inl e, s1) \<Rightarrow> (Inl e, s1)
                | (Inr chain_tip_height, s1) \<Rightarrow>
                    (case validate_unbroadcast_migration_recovery_candidates candidates chain_tip_height of
                       Inl e \<Rightarrow> (Inl e, s1)
                     | Inr _ \<Rightarrow>
                         (case check_absent W node candidates s1 of
                            (Inl e, s2) \<Rightarrow> (Inl e, s2)
                          | (Inr _, s2) \<Rightarrow>
                              (case retire_run_for_rebuild (wo_locks W) (wo_unhex W) (wo_now W (se_world s2))
                                      expected_run_id absent_message (se_db s2, se_world s2) of
                                 (res, db, w) \<Rightarrow>
                                   (map_error EnLife res, s2\<lparr>se_db := db, se_world := w\<rparr>)))))))"

section \<open>What a reconciliation leaves behind\<close>

text \<open>The worlds that lookups on the node and stores in the wallet lead to.\<close>

definition world_call :: "('w, 'g, 'n) world \<Rightarrow> 'w node_api \<Rightarrow> 'w \<Rightarrow> 'w \<Rightarrow> bool" where
  "world_call W node w w' \<longleftrightarrow>
     (\<exists>txid answer. nd_transaction node txid w = (answer, w')) \<or> (\<exists>raw_tx answer. wo_store W raw_tx w = (answer, w'))"

text \<open>
  A transaction of the node that was handed to the wallet's store, and one that the node does not know, in
  a world that such calls lead to from a given one.
\<close>

definition fetched_and_stored :: "('w, 'g, 'n) world \<Rightarrow> 'w node_api \<Rightarrow> 'w \<Rightarrow> byte list \<Rightarrow> bool" where
  "fetched_and_stored W node w0 txid \<longleftrightarrow>
     (\<exists>w w1 raw_tx w2. (world_call W node)\<^sup>*\<^sup>* w0 w
        \<and> nd_transaction node txid w = (Inr raw_tx, w1) \<and> wo_store W raw_tx w1 = (Inr (), w2))"

definition absent_from_node :: "('w, 'g, 'n) world \<Rightarrow> 'w node_api \<Rightarrow> 'w \<Rightarrow> byte list \<Rightarrow> bool" where
  "absent_from_node W node w0 txid \<longleftrightarrow>
     (\<exists>w w1. (world_call W node)\<^sup>*\<^sup>* w0 w \<and> nd_transaction node txid w = (Inl FetchNotFound, w1))"

lemma answers_earlier:
  assumes "(world_call W node)\<^sup>*\<^sup>* w0 w"
  shows "fetched_and_stored W node w txid \<Longrightarrow> fetched_and_stored W node w0 txid"
    and "absent_from_node W node w txid \<Longrightarrow> absent_from_node W node w0 txid"
  unfolding fetched_and_stored_def absent_from_node_def by (blast intro: rtranclp_trans [OF assms])+

lemma mark_candidate_world: "mark_candidate W rid c s = (res, s') \<Longrightarrow> se_world s' = se_world s"
  by (auto simp: mark_candidate_def mark_broadcasted_def with_db_def split: stop_candidate_kind.splits sum.splits prod.splits)

text \<open>A row is as it was or is now marked as sent; nothing else of the run's work is touched.\<close>

definition only_marked :: "string \<Rightarrow> migration_db \<Rightarrow> migration_db \<Rightarrow> bool" where
  "only_marked rid db db' \<longleftrightarrow>
     (\<forall>p \<in> set (mdb_pending db). p \<in> set (mdb_pending db') \<or> set_part_status ''broadcasted'' p \<in> set (mdb_pending db'))
     \<and> (\<forall>r \<in> set (db_stages (mdb_stages db)). r \<in> set (db_stages (mdb_stages db'))
          \<or> sr_status r = ''pending'' \<and> set_status Broadcasted r \<in> set (db_stages (mdb_stages db')))
     \<and> db_ok (mdb_stages db')"

lemma set_part_status_twice [simp]: "set_part_status a (set_part_status b p) = set_part_status a p"
  by (simp add: set_part_status_def)

lemma only_marked_refl: "db_ok (mdb_stages db) \<Longrightarrow> only_marked rid db db"
  by (simp add: only_marked_def)

lemma only_marked_trans:
  assumes "only_marked rid a b" and "only_marked rid b c"
  shows "only_marked rid a c"
proof -
  have stages: "r \<in> set (db_stages (mdb_stages c)) \<or> sr_status r = ''pending'' \<and> set_status Broadcasted r \<in> set (db_stages (mdb_stages c))"
    if "r \<in> set (db_stages (mdb_stages a))" for r
  proof -
    have "r \<in> set (db_stages (mdb_stages b)) \<or> sr_status r = ''pending'' \<and> set_status Broadcasted r \<in> set (db_stages (mdb_stages b))"
      using assms(1) that by (simp add: only_marked_def)
    moreover have "set_status Broadcasted r \<in> set (db_stages (mdb_stages b)) \<Longrightarrow> set_status Broadcasted r \<in> set (db_stages (mdb_stages c))"
      using assms(2) by (auto simp: only_marked_def set_status_def)
    ultimately show ?thesis using assms(2) by (auto simp: only_marked_def)
  qed
  have parts: "p \<in> set (mdb_pending c) \<or> set_part_status ''broadcasted'' p \<in> set (mdb_pending c)" if "p \<in> set (mdb_pending a)" for p
    using assms that unfolding only_marked_def by (metis set_part_status_twice)
  show ?thesis using assms(2) stages parts by (simp add: only_marked_def)
qed

text \<open>A row that is marked stays marked.\<close>

lemma marked_stays:
  assumes "only_marked rid db db'"
  shows "set_part_status ''broadcasted'' p \<in> set (mdb_pending db) \<Longrightarrow> set_part_status ''broadcasted'' p \<in> set (mdb_pending db')"
    and "set_status Broadcasted r \<in> set (db_stages (mdb_stages db)) \<Longrightarrow> set_status Broadcasted r \<in> set (db_stages (mdb_stages db'))"
  using assms by (fastforce simp: only_marked_def set_part_status_def set_status_def)+

definition marked :: "string \<Rightarrow> stop_candidate \<Rightarrow> migration_db \<Rightarrow> migration_db \<Rightarrow> bool" where
  "marked rid c db db' \<longleftrightarrow>
     (case st_kind c of
        MigrationTransaction \<Rightarrow>
          \<forall>p \<in> set (mdb_pending db). pt_run_id p = rid \<and> pt_txid_hex p = st_txid_hex c
            \<longrightarrow> set_part_status ''broadcasted'' p \<in> set (mdb_pending db')
      | DenominationStage \<Rightarrow>
          \<forall>r \<in> set (db_stages (mdb_stages db)). sr_run_id r = rid \<and> sr_status r = ''pending''
            \<and> sr_expected_txid_hex r = to_ascii_lowercase (st_txid_hex c)
            \<longrightarrow> set_status Broadcasted r \<in> set (db_stages (mdb_stages db')))"

lemma mark_broadcasted_tables:
  assumes "mark_broadcasted W rid txid s = (Inr (), s')"
  shows "mdb_stages (se_db s') = mdb_stages (se_db s)"
    and "mdb_pending (se_db s') = map (\<lambda>p. if pt_run_id p = rid \<and> pt_txid_hex p = txid
       then set_part_status ''broadcasted'' p else p) (mdb_pending (se_db s))"
  using assms
  by (auto simp: mark_broadcasted_def mark_pending_broadcasted_def update_run_after_pending_broadcast_def rbind_eq_Inr Let_def
      sql_update_runs_def sql_update_pending_def with_db_def split: sum.splits)

lemma mark_stage_tables:
  assumes "mark_denomination_stage_broadcasted db rid t = (Inr (), db')" and "db_ok db"
  shows "db_ok db'"
    and "db_stages db' = map (\<lambda>r. if sr_run_id r = rid \<and> sr_expected_txid_hex r = to_ascii_lowercase t
       \<and> sr_status r = ''pending'' then set_status Broadcasted r else r) (db_stages db)"
proof -
  show "db_ok db'" using broadcasting.updates_by_ok [OF broadcast_db assms(2), of rid t] assms(1) by simp
  let ?P = "\<lambda>r. sr_run_id r = rid \<and> sr_expected_txid_hex r = to_ascii_lowercase t \<and> sr_status r = ''pending''"
  have upd: "sql_update_stages ?P (set_status Broadcasted) db =
     (Inr (length (filter ?P (db_stages db))), db\<lparr>db_stages := map (\<lambda>r. if ?P r then set_status Broadcasted r else r) (db_stages db)\<rparr>)"
    by (rule broadcasting.update_eq [OF assms(2)])
  show "db_stages db' = map (\<lambda>r. if ?P r then set_status Broadcasted r else r) (db_stages db)"
    using assms(1) unfolding mark_denomination_stage_broadcasted_def transition_stage_def Let_def upd
    by (auto split: sum.splits if_splits option.splits)
qed

lemma mark_candidate_result:
  assumes "mark_candidate W rid c s = (Inr (), s')" and "db_ok (mdb_stages (se_db s))"
  shows "only_marked rid (se_db s) (se_db s')" and "marked rid c (se_db s) (se_db s')"
proof -
  have "only_marked rid (se_db s) (se_db s') \<and> marked rid c (se_db s) (se_db s')"
  proof (cases "st_kind c")
    case MigrationTransaction
    then obtain s1 where "mark_broadcasted W rid (st_txid_hex c) s = (Inr (), s1)" "s' = s1"
      using assms(1) by (auto simp: mark_candidate_def map_error_eq_Inr split: prod.splits)
    note tables = mark_broadcasted_tables [OF this(1)] and s' = this(2)
    show ?thesis using assms(2) MigrationTransaction
      by (auto simp: only_marked_def marked_def s' tables image_iff intro: rev_bexI)
  next
    case DenominationStage
    then obtain stages where m: "mark_denomination_stage_broadcasted (mdb_stages (se_db s)) rid (st_txid_hex c) = (Inr (), stages)"
      and s': "s' = with_db ((se_db s)\<lparr>mdb_stages := stages\<rparr>) s"
      using assms(1) by (auto simp: mark_candidate_def map_error_eq_Inr split: prod.splits)
    note tables = mark_stage_tables [OF m assms(2)]
    have "r \<in> set (db_stages stages) \<or> sr_status r = ''pending'' \<and> set_status Broadcasted r \<in> set (db_stages stages)"
      if "r \<in> set (db_stages (mdb_stages (se_db s)))" for r
      using that unfolding tables(2) by (auto simp: image_iff)
    moreover have "set_status Broadcasted r \<in> set (db_stages stages)"
      if "r \<in> set (db_stages (mdb_stages (se_db s)))" "sr_run_id r = rid" "sr_status r = ''pending''"
        "sr_expected_txid_hex r = to_ascii_lowercase (st_txid_hex c)" for r
      using that unfolding tables(2) by (auto simp: image_iff)
    ultimately show ?thesis using DenominationStage tables(1) by (auto simp: only_marked_def marked_def s' with_db_def)
  qed
  then show "only_marked rid (se_db s) (se_db s')" and "marked rid c (se_db s) (se_db s')" by blast+
qed

text \<open>A mark for a later state is a mark for the earlier one.\<close>

lemma marked_earlier:
  assumes "only_marked rid a b" and "marked rid c b d" and "only_marked rid b d"
  shows "marked rid c a d"
proof (cases "st_kind c")
  case MigrationTransaction
  have "set_part_status ''broadcasted'' p \<in> set (mdb_pending d)"
    if p: "p \<in> set (mdb_pending a)" "pt_run_id p = rid" "pt_txid_hex p = st_txid_hex c" for p
  proof (cases "p \<in> set (mdb_pending b)")
    case True
    then show ?thesis using assms(2) p MigrationTransaction by (simp add: marked_def)
  next
    case False
    then have "set_part_status ''broadcasted'' p \<in> set (mdb_pending b)" using assms(1) p by (auto simp: only_marked_def)
    then show ?thesis by (rule marked_stays(1) [OF assms(3)])
  qed
  then show ?thesis using MigrationTransaction by (simp add: marked_def)
next
  case DenominationStage
  have "set_status Broadcasted r \<in> set (db_stages (mdb_stages d))"
    if r: "r \<in> set (db_stages (mdb_stages a))" "sr_run_id r = rid" "sr_status r = ''pending''"
      "sr_expected_txid_hex r = to_ascii_lowercase (st_txid_hex c)" for r
  proof (cases "r \<in> set (db_stages (mdb_stages b))")
    case True
    then show ?thesis using assms(2) r DenominationStage by (simp add: marked_def)
  next
    case False
    then have "set_status Broadcasted r \<in> set (db_stages (mdb_stages b))" using assms(1) r by (auto simp: only_marked_def)
    then show ?thesis by (rule marked_stays(2) [OF assms(3)])
  qed
  then show ?thesis using DenominationStage by (simp add: marked_def)
qed

lemma marked_later: "marked rid c a b \<Longrightarrow> only_marked rid b d \<Longrightarrow> marked rid c a d"
  using marked_stays by (cases "st_kind c") (simp_all add: marked_def)

lemma reconcile_candidates_result:
  assumes "reconcile_candidates W node rid tip cs s = (Inr (), s')" and "db_ok (mdb_stages (se_db s))"
  shows "only_marked rid (se_db s) (se_db s') \<and> (\<forall>c \<in> set cs. \<exists>txid. parse_txid_hex (wo_unhex W) (st_txid_hex c) = Inr txid
     \<and> (fetched_and_stored W node (se_world s) txid \<and> marked rid c (se_db s) (se_db s')
        \<or> absent_from_node W node (se_world s) txid \<and> migration_stop_candidate_is_expired (st_expiry_height c) tip))"
  using assms
proof (induction cs arbitrary: s)
  case Nil
  then show ?case by (simp add: only_marked_refl)
next
  case (Cons c cs)
  obtain txid where txid: "parse_txid_hex (wo_unhex W) (st_txid_hex c) = Inr txid"
    using Cons.prems(1) by (cases "parse_txid_hex (wo_unhex W) (st_txid_hex c)") auto
  obtain answer w where f: "nd_transaction node txid (se_world s) = (answer, w)" by fastforce
  let ?s1 = "s\<lparr>se_world := w\<rparr>"
  have fetch: "fetch_transaction node txid s = (answer, ?s1)" by (simp add: fetch_transaction_def f)
  show ?case
  proof (cases answer)
    case (Inr raw_tx)
    obtain stored w2 where st: "wo_store W raw_tx w = (stored, w2)" by fastforce
    have store: "store_transaction W raw_tx ?s1 = (stored, s\<lparr>se_world := w2\<rparr>)" by (simp add: store_transaction_def st)
    then obtain "stored = Inr ()" using Cons.prems(1) txid fetch Inr by (cases stored) auto
    then obtain s3 where m: "mark_candidate W rid c (s\<lparr>se_world := w2\<rparr>) = (Inr (), s3)"
      and rest: "reconcile_candidates W node rid tip cs s3 = (Inr (), s')"
      using Cons.prems(1) txid fetch Inr store by (auto split: prod.splits sum.splits)
    note mark = mark_candidate_result [OF m, simplified, OF Cons.prems(2)]
    have ok3: "db_ok (mdb_stages (se_db s3))" using mark(1) by (simp add: only_marked_def)
    note ih = Cons.IH [OF rest ok3]
    have "fetched_and_stored W node (se_world s) txid"
      using f st Inr \<open>stored = Inr ()\<close> rtranclp.rtrancl_refl [of "world_call W node" "se_world s"]
      unfolding fetched_and_stored_def by blast
    moreover have later: "(world_call W node)\<^sup>*\<^sup>* (se_world s) (se_world s3)"
    proof -
      have "world_call W node (se_world s) w" "world_call W node w w2" using f st unfolding world_call_def by blast+
      moreover have "se_world s3 = w2" using mark_candidate_world [OF m] by simp
      ultimately show ?thesis by (simp add: converse_rtranclp_into_rtranclp r_into_rtranclp)
    qed
    moreover have "marked rid c (se_db s) (se_db s')" by (rule marked_later [OF mark(2)]) (use ih in simp)
    moreover have "only_marked rid (se_db s) (se_db s')" by (rule only_marked_trans [OF mark(1)]) (use ih in simp)
    moreover have "\<forall>d \<in> set cs. \<exists>txid. parse_txid_hex (wo_unhex W) (st_txid_hex d) = Inr txid
       \<and> (fetched_and_stored W node (se_world s) txid \<and> marked rid d (se_db s) (se_db s')
          \<or> absent_from_node W node (se_world s) txid \<and> migration_stop_candidate_is_expired (st_expiry_height d) tip)"
      using ih marked_earlier [OF mark(1)] answers_earlier [OF later] by blast
    ultimately show ?thesis using txid by auto
  next
    case (Inl e)
    then have e: "e = FetchNotFound" "migration_stop_candidate_is_expired (st_expiry_height c) tip"
      and rest: "reconcile_candidates W node rid tip cs ?s1 = (Inr (), s')"
      using Cons.prems(1) txid fetch by (cases e; auto split: if_splits)+
    have absent: "absent_from_node W node (se_world s) txid"
      using f Inl e(1) rtranclp.rtrancl_refl [of "world_call W node" "se_world s"]
      unfolding absent_from_node_def by blast
    have "world_call W node (se_world s) w" using f unfolding world_call_def by blast
    then have "(world_call W node)\<^sup>*\<^sup>* (se_world s) (se_world ?s1)" by simp
    from answers_earlier [OF this] show ?thesis using absent Cons.IH [OF rest] Cons.prems(2) txid e(2)
      by (fastforce simp del: reconcile_candidates.simps)
  qed
qed

end
