(* ===== verification/Stop_Safe.thy ===== *)
theory Stop_Safe
  imports Stop_Driver Request_Properties
begin

text \<open>
  A stopped run accounts for every transaction of it that may have been sent.
\<close>

section \<open>The candidates\<close>

definition part_candidate :: "pending_row \<Rightarrow> attempt_state \<Rightarrow> stop_candidate" where
  "part_candidate p a = \<lparr>st_kind = MigrationTransaction, st_txid_hex = pt_txid_hex p,
     st_broadcast_height = pt_scheduled_height p, st_expiry_height = pt_expiry_height p, st_attempt_state = a\<rparr>"

lemma pending_stop_candidates_complete:
  assumes "pending_stop_candidates raw ps = Inr cs" and "p \<in> set ps"
  shows "if pt_status p = ''broadcasted'' then (\<exists>r. raw (pt_txid_hex p) = Inr (Some r)) \<or> part_candidate p Attempted \<in> set cs
     else \<exists>a. attempt_state_from_db (pt_broadcast_attempted p) = Inr a \<and> part_candidate p a \<in> set cs"
  using assms
proof (induction ps arbitrary: cs)
  case (Cons q ps)
  let ?state = "if pt_status q = ''broadcasted''
            then rbind (map_error QuRun (raw (pt_txid_hex q))) (\<lambda>stored. Inr (if stored \<noteq> None then None else Some Attempted))
            else rbind (attempt_state_from_db (pt_broadcast_attempted q)) (\<lambda>a. Inr (Some a))"
  have "pending_stop_candidates raw (q # ps) = rbind ?state (\<lambda>state. rbind (pending_stop_candidates raw ps) (\<lambda>rest.
      Inr (case state of None \<Rightarrow> rest | Some a \<Rightarrow> part_candidate q a # rest)))"
    by (simp add: part_candidate_def cong: option.case_cong)
  then have eq: "rbind ?state (\<lambda>state. rbind (pending_stop_candidates raw ps) (\<lambda>rest.
      Inr (case state of None \<Rightarrow> rest | Some a \<Rightarrow> part_candidate q a # rest))) = Inr cs"
    using Cons.prems(1) by argo
  obtain state rest where state: "?state = Inr state" and rest: "pending_stop_candidates raw ps = Inr rest"
    "cs = (case state of None \<Rightarrow> rest | Some a \<Rightarrow> part_candidate q a # rest)"
    using eq unfolding rbind_eq_Inr [where r = ?state] rbind_eq_Inr [where r = "pending_stop_candidates raw ps"] by blast
  then have sub: "set rest \<subseteq> set cs" by (cases state) auto
  show ?case
  proof (cases "p \<in> set ps")
    case True
    then show ?thesis using Cons.IH [OF rest(1)] sub by (auto split: if_splits)
  next
    case False
    then have "p = q" using Cons.prems(2) by simp
    show ?thesis
    proof (cases state)
      case None
      then show ?thesis using state unfolding \<open>p = q\<close> by (auto simp: rbind_eq_Inr map_error_eq_Inr split: if_splits)
    next
      case (Some a)
      then show ?thesis using state rest(2) unfolding \<open>p = q\<close> by (auto simp: rbind_eq_Inr map_error_eq_Inr split: if_splits)
    qed
  qed
qed simp

lemma stage_candidate_of:
  assumes "collect_results stage_stop_candidate rs = Inr cs" and "r \<in> set rs"
  shows "\<exists>c \<in> set cs. stage_stop_candidate r = Inr c"
  using assms by (induction rs arbitrary: cs) (auto simp: rbind_eq_Inr)

section \<open>What a stop keeps\<close>

lemma abandon_keeps_sent:
  assumes "abandon_run api unhex now account network rid (db, w) = (res, db', w')"
    and "p \<in> set (mdb_pending db)" and "pt_status p \<notin> {''scheduled'', ''needs_resign''}"
  shows "p \<in> set (mdb_pending db')"
proof -
  have release: "mdb_pending db2 = mdb_pending db1"
    if "release_stopped_run api unhex rid (db1, w1) = (res2, db2, w2)" for db1 w1 res2 db2 w2
    using that by (auto simp: release_stopped_run_def split: sum.splits prod.splits)
  have stop: "p \<in> set (mdb_pending db1)" if "stopped_run now rid r db = Inr db1"
      and "find (\<lambda>r. rr_run_id r = rid) (mdb_runs db) = Some r" for r db1
    using stopped_run_state(1) [OF that] assms(2,3) by (simp add: stopped_state_def)
  show ?thesis
  proof (cases "find (\<lambda>r. rr_run_id r = rid) (mdb_runs db)")
    case None
    then show ?thesis using assms by (auto simp: abandon_run_def)
  next
    case (Some q)
    show ?thesis
    proof (cases "stopped_run now rid q db")
      case (Inl e)
      then show ?thesis using assms Some release by (auto simp: abandon_run_def split: if_splits)
    next
      case (Inr db1)
      then show ?thesis using assms Some release stop [OF Inr Some] by (auto simp: abandon_run_def split: if_splits)
    qed
  qed
qed

lemma broadcasted_status [simp]: "pt_status (set_part_status x p) = x" "sr_status (set_status Broadcasted r) = ''broadcasted''"
  by (simp_all add: set_part_status_def set_status_def)

section \<open>The property\<close>

definition part_may_be_sent :: "string list \<Rightarrow> u32 \<Rightarrow> pending_row \<Rightarrow> bool" where
  "part_may_be_sent native tip p \<longleftrightarrow>
     pt_status p = ''broadcasted'' \<or> pt_broadcast_attempted p = 1
     \<or> pt_broadcast_attempted p = 2 \<and> pt_scheduled_height p \<le> tip
     \<or> to_ascii_lowercase (pt_txid_hex p) \<in> to_ascii_lowercase ` set native"

definition stage_may_be_sent :: "string list \<Rightarrow> u32 \<Rightarrow> stage_row \<Rightarrow> bool" where
  "stage_may_be_sent native tip r \<longleftrightarrow>
     sr_broadcast_attempted r = 1
     \<or> sr_broadcast_attempted r = 2 \<and> max (sr_scheduled_height r) (unwrap_or 0 (sr_broadcast_not_before_height r)) \<le> tip
     \<or> to_ascii_lowercase (sr_expected_txid_hex r) \<in> to_ascii_lowercase ` set native"

text \<open>The node does not have it, and by the height of the tip it can no longer be mined.\<close>

definition dead_on_node :: "('w, 'g, 'n) world \<Rightarrow> 'w node_api \<Rightarrow> 'w \<Rightarrow> byte list \<Rightarrow> u32 \<Rightarrow> u32 \<Rightarrow> bool" where
  "dead_on_node W node w0 txid expiry tip \<longleftrightarrow> absent_from_node W node w0 txid \<and> 0 < expiry \<and> expiry \<le> tip"

definition reconciled_with_node ::
    "('w, 'g, 'n) world \<Rightarrow> 'w node_api \<Rightarrow> 'w \<Rightarrow> u32 \<Rightarrow> string \<Rightarrow> u32 \<Rightarrow> bool \<Rightarrow> bool" where
  "reconciled_with_node W node w0 tip txid_hex expiry marked_sent \<longleftrightarrow>
     (\<exists>txid. parse_txid_hex (wo_unhex W) txid_hex = Inr txid
        \<and> (fetched_and_stored W node w0 txid \<and> marked_sent \<or> dead_on_node W node w0 txid expiry tip))"

text \<open>The rows of a run that were or may have been handed to the network, with the tip at some height.\<close>

definition possibly_sent_parts :: "string list \<Rightarrow> u32 \<Rightarrow> string \<Rightarrow> migration_db \<Rightarrow> pending_row set" where
  "possibly_sent_parts native tip rid db =
     {p \<in> set (mdb_pending db). pt_run_id p = rid \<and> pt_status p \<in> {''scheduled'', ''broadcasted''}
        \<and> part_may_be_sent native tip p}"

definition possibly_sent_stages :: "string list \<Rightarrow> u32 \<Rightarrow> string \<Rightarrow> migration_db \<Rightarrow> stage_row set" where
  "possibly_sent_stages native tip rid db =
     {r \<in> set (db_stages (mdb_stages db)). sr_run_id r = rid \<and> sr_status r = ''pending'' \<and> stage_may_be_sent native tip r}"

text \<open>A transaction that was sent and whose bytes the wallet has already.\<close>

definition held_by_wallet :: "('w, 'g, 'n) world \<Rightarrow> 'w sender \<Rightarrow> migration_db \<Rightarrow> pending_row \<Rightarrow> bool" where
  "held_by_wallet W s db' p \<longleftrightarrow> p \<in> set (mdb_pending db') \<and> pt_status p = ''broadcasted''
     \<and> (\<exists>raw. local_transaction_raw (wo_unhex W) (wo_chain W (se_world s)) (pt_txid_hex p) = Inr (Some raw))"

definition needs_node :: "string list \<Rightarrow> u32 \<Rightarrow> stop_candidate \<Rightarrow> bool" where
  "needs_node native tip c \<longleftrightarrow> migration_stop_candidate_requires_reconciliation c
     (to_ascii_lowercase (st_txid_hex c) \<in> to_ascii_lowercase ` set native) tip"

text \<open>
  Either the node is asked for its height and every candidate that needs it at that height is looked up,
  or it is not asked, and then no candidate needs it at any height.
\<close>

lemma reconciled_before_abandon:
  assumes "reconcile_scheduled_migration_txs_before_abandon W node network account rid native s = (Inr (), s')"
    and "db_ok (mdb_stages (se_db s))"
    and "scheduled_migration_stop_candidates (wo_unhex W) (wo_chain W (se_world s)) (se_db s) account network rid = Inr candidates"
  shows "only_marked rid (se_db s) (se_db s') \<and>
     ((\<exists>tip s1. node_tip node s = (Inr tip, s1) \<and> (\<forall>c \<in> set candidates. needs_node native tip c \<longrightarrow>
         reconciled_with_node W node (se_world s1) tip (st_txid_hex c) (st_expiry_height c) (marked rid c (se_db s) (se_db s'))))
      \<or> (\<forall>tip. \<forall>c \<in> set candidates. \<not> needs_node native tip c))"
proof (cases "list_ex (\<lambda>c. to_ascii_lowercase (st_txid_hex c) \<in> to_ascii_lowercase ` set native
        \<or> st_attempt_state c \<noteq> NotAttempted) candidates")
  case False
  then have "s' = s" using assms(1,3) by (auto simp: reconcile_scheduled_migration_txs_before_abandon_def Let_def)
  moreover have "\<not> needs_node native tip c" if "c \<in> set candidates" for c tip
    using False that by (auto simp: list_ex_iff needs_node_def migration_stop_candidate_requires_reconciliation_def)
  ultimately show ?thesis using only_marked_refl [OF assms(2)] by blast
next
  case True
  obtain t s1 where t: "node_tip node s = (t, s1)" by fastforce
  then obtain tip where tip: "t = Inr tip"
    and r: "reconcile_candidates W node rid tip (filter (needs_node native tip) candidates) s1 = (Inr (), s')"
    using assms(1,3) True
    by (cases t) (auto simp: reconcile_scheduled_migration_txs_before_abandon_def Let_def needs_node_def [abs_def])
  have db: "se_db s1 = se_db s"
    using t tip by (auto simp: node_tip_def split: sum.splits prod.splits if_splits)
  note res = reconcile_candidates_result [OF r, unfolded db, OF assms(2)]
  have "reconciled_with_node W node (se_world s1) tip (st_txid_hex c) (st_expiry_height c) (marked rid c (se_db s) (se_db s'))"
    if "c \<in> set candidates" "needs_node native tip c" for c
  proof -
    from that have "c \<in> set (filter (needs_node native tip) candidates)" by simp
    then show ?thesis using res
      by (fastforce simp: reconciled_with_node_def dead_on_node_def migration_stop_candidate_is_expired_def)
  qed
  then show ?thesis using res t tip by blast
qed

text \<open>Every row that may have been handed over is a candidate that needs the node, or the wallet has it.\<close>

lemma possibly_sent_candidates:
  assumes "scheduled_migration_stop_candidates (wo_unhex W) (wo_chain W (se_world s)) (se_db s) account network rid = Inr cs"
    and "\<not> is_stopped (se_db s) rid"
  shows "p \<in> possibly_sent_parts native tip rid (se_db s) \<Longrightarrow>
       (\<exists>a. part_candidate p a \<in> set cs \<and> needs_node native tip (part_candidate p a))
       \<or> pt_status p = ''broadcasted''
         \<and> (\<exists>raw. local_transaction_raw (wo_unhex W) (wo_chain W (se_world s)) (pt_txid_hex p) = Inr (Some raw))"
    and "r \<in> possibly_sent_stages native tip rid (se_db s) \<Longrightarrow>
       \<exists>c \<in> set cs. stage_stop_candidate r = Inr c \<and> needs_node native tip c"
proof -
  let ?raw = "local_transaction_raw (wo_unhex W) (wo_chain W (se_world s))"
  obtain ps ss where ps: "pending_stop_candidates ?raw (sendable_pending (se_db s) rid) = Inr ps"
    and ss: "collect_results stage_stop_candidate (pending_stages (se_db s) rid) = Inr ss" and all: "cs = ps @ ss"
    using assms by (auto simp: scheduled_migration_stop_candidates_def rbind_eq_Inr is_stopped_def ok_or_eq_Inr split: if_splits)
  {
    assume p: "p \<in> possibly_sent_parts native tip rid (se_db s)"
    then have row: "p \<in> set (sendable_pending (se_db s) rid)"
      by (simp add: possibly_sent_parts_def sendable_pending_def pending_rows_def)
    show "(\<exists>a. part_candidate p a \<in> set cs \<and> needs_node native tip (part_candidate p a))
       \<or> pt_status p = ''broadcasted'' \<and> (\<exists>raw. ?raw (pt_txid_hex p) = Inr (Some raw))"
    proof (cases "pt_status p = ''broadcasted''")
      case True
      then show ?thesis using pending_stop_candidates_complete [OF ps row]
        by (auto simp: all needs_node_def migration_stop_candidate_requires_reconciliation_def part_candidate_def)
    next
      case False
      then obtain a where a: "attempt_state_from_db (pt_broadcast_attempted p) = Inr a" "part_candidate p a \<in> set ps"
        using pending_stop_candidates_complete [OF ps row] by auto
      have "needs_node native tip (part_candidate p a)"
        using p False a(1) by (auto simp: possibly_sent_parts_def part_may_be_sent_def needs_node_def
            migration_stop_candidate_requires_reconciliation_def attempt_state_from_db_def part_candidate_def split: if_splits)
      then show ?thesis using a(2) by (auto simp: all)
    qed
  next
    assume r: "r \<in> possibly_sent_stages native tip rid (se_db s)"
    then have "r \<in> set (pending_stages (se_db s) rid)" by (simp add: possibly_sent_stages_def pending_stages_def)
    from stage_candidate_of [OF ss this] obtain c where c: "c \<in> set ss" "stage_stop_candidate r = Inr c" by blast
    then have "needs_node native tip c"
      using r by (auto simp: possibly_sent_stages_def stage_may_be_sent_def needs_node_def stage_stop_candidate_def rbind_eq_Inr
          migration_stop_candidate_requires_reconciliation_def attempt_state_from_db_def split: if_splits attempt_state.splits)
    then show "\<exists>c \<in> set cs. stage_stop_candidate r = Inr c \<and> needs_node native tip c" using c by (auto simp: all)
  }
qed

text \<open>
  C1. A migration is not stopped behind the back of a transaction that may still be mined. Take a run
  that is not stopped yet, with its stage tables in order, and a stop of it that succeeds. A scheduled
  or broadcasted transaction of the run, or a pending preparation, may have been handed to the network
  when its row says so, when the background sender reports it, or when its row predates the marks and
  the tip has reached its height. Then either the node is asked for its height, and with that height as
  the tip each of these is accounted for by the lookups and stores that follow: the node returned it, the
  wallet stored what it returned, and its row stays and is marked as broadcasted; or the node answered
  that it does not know it, and the height is not below its expiry height; or it is a broadcasted row that stays,
  whose bytes the wallet had already. Or the node is not asked, and then, whatever the tip may be, only
  transactions of this last kind may have been handed over.
\<close>

theorem stop_accounts_for_sent:
  assumes "abandon_orchard_migration W node db_path network account rid native active ks s = (Inr (), ks', s')"
    and "db_ok (mdb_stages (se_db s))" and "\<not> is_stopped (se_db s) rid"
  shows "(\<exists>tip s1. node_tip node s = (Inr tip, s1)
      \<and> (\<forall>p \<in> possibly_sent_parts native tip rid (se_db s).
           reconciled_with_node W node (se_world s1) tip (pt_txid_hex p) (pt_expiry_height p)
             (set_part_status ''broadcasted'' p \<in> set (mdb_pending (se_db s')))
           \<or> held_by_wallet W s (se_db s') p)
      \<and> (\<forall>r \<in> possibly_sent_stages native tip rid (se_db s).
           reconciled_with_node W node (se_world s1) tip (sr_expected_txid_hex r) (sr_expiry_height r)
             (set_status Broadcasted r \<in> set (db_stages (mdb_stages (se_db s'))))))
    \<or> (\<forall>tip. (\<forall>p \<in> possibly_sent_parts native tip rid (se_db s). held_by_wallet W s (se_db s') p)
         \<and> possibly_sent_stages native tip rid (se_db s) = {})"
proof -
  obtain s1 db w where rec: "reconcile_scheduled_migration_txs_before_abandon W node network account rid native s = (Inr (), s1)"
    and ab: "abandon_run (wo_locks W) (wo_unhex W) (wo_now W (se_world s1)) account network rid (se_db s1, se_world s1) = (Inr (), db, w)"
    and s': "se_db s' = db"
    using assms(1) by (auto simp: abandon_orchard_migration_def split: sum.splits prod.splits)
  obtain cs where cs: "scheduled_migration_stop_candidates (wo_unhex W) (wo_chain W (se_world s)) (se_db s) account network rid = Inr cs"
    using rec by (auto simp: reconcile_scheduled_migration_txs_before_abandon_def split: sum.splits)
  note before = reconciled_before_abandon [OF rec assms(2) cs] and sent = possibly_sent_candidates [OF cs assms(3)]
  have held: "held_by_wallet W s (se_db s') p"
    if "p \<in> possibly_sent_parts native tip rid (se_db s)" "pt_status p = ''broadcasted''"
      "\<exists>raw. local_transaction_raw (wo_unhex W) (wo_chain W (se_world s)) (pt_txid_hex p) = Inr (Some raw)" for p tip
  proof -
    have "set_part_status ''broadcasted'' p = p" using that(2) by (simp add: set_part_status_def)
    then have "p \<in> set (mdb_pending (se_db s1))" using before that(1) by (auto simp: only_marked_def possibly_sent_parts_def)
    then show ?thesis using abandon_keeps_sent [OF ab] that(2,3) s' by (simp add: held_by_wallet_def)
  qed
  show ?thesis using before
  proof (elim conjE disjE exE)
    fix tip s2 assume tip: "node_tip node s = (Inr tip, s2)" and looked: "\<forall>c \<in> set cs. needs_node native tip c \<longrightarrow>
         reconciled_with_node W node (se_world s2) tip (st_txid_hex c) (st_expiry_height c) (marked rid c (se_db s) (se_db s1))"
    have "reconciled_with_node W node (se_world s2) tip (pt_txid_hex p) (pt_expiry_height p)
             (set_part_status ''broadcasted'' p \<in> set (mdb_pending (se_db s'))) \<or> held_by_wallet W s (se_db s') p"
      if p: "p \<in> possibly_sent_parts native tip rid (se_db s)" for p
      using sent(1) [OF p]
    proof (elim disjE exE conjE)
      fix a assume c: "part_candidate p a \<in> set cs" "needs_node native tip (part_candidate p a)"
      have "set_part_status ''broadcasted'' p \<in> set (mdb_pending (se_db s'))" if "marked rid (part_candidate p a) (se_db s) (se_db s1)"
        using that p abandon_keeps_sent [OF ab, of "set_part_status ''broadcasted'' p"] s'
        by (auto simp: marked_def part_candidate_def possibly_sent_parts_def)
      then show ?thesis using looked c by (fastforce simp: reconciled_with_node_def part_candidate_def)
    qed (use held [OF p] in blast)
    moreover have "reconciled_with_node W node (se_world s2) tip (sr_expected_txid_hex r) (sr_expiry_height r)
             (set_status Broadcasted r \<in> set (db_stages (mdb_stages (se_db s'))))"
      if r: "r \<in> possibly_sent_stages native tip rid (se_db s)" for r
    proof -
      from sent(2) [OF r] obtain c where c: "c \<in> set cs" "stage_stop_candidate r = Inr c" "needs_node native tip c" by blast
      have f: "st_kind c = DenominationStage" "st_txid_hex c = sr_expected_txid_hex r" "st_expiry_height c = sr_expiry_height r"
        using c(2) by (auto simp: stage_stop_candidate_def rbind_eq_Inr)
      have "set_status Broadcasted r \<in> set (db_stages (mdb_stages (se_db s')))" if "marked rid c (se_db s) (se_db s1)"
        using that r f assms(2) abandon_keeps_submitted [OF ab, of "set_status Broadcasted r"] s'
        by (auto simp: marked_def possibly_sent_stages_def db_ok_def stages_ok_def txid_normal_def unsubmitted_def)
      then show ?thesis using looked c(1,3) f by (fastforce simp: reconciled_with_node_def)
    qed
    ultimately show ?thesis using tip by blast
  next
    assume "\<forall>tip. \<forall>c \<in> set cs. \<not> needs_node native tip c"
    then show ?thesis using sent held by blast
  qed
qed

text \<open>
  What the property leaves out: a row that waits to be signed again is never looked up on the node,
  whether it was handed over or not.
\<close>

lemma resign_rows_are_not_looked_up:
  assumes "scheduled_migration_stop_candidates (wo_unhex W) (wo_chain W (se_world s)) (se_db s) account network rid = Inr cs"
    and "\<forall>p \<in> set (pending_rows (se_db s) rid). pt_status p = ''needs_resign''" and "pending_stages (se_db s) rid = []"
  shows "reconcile_scheduled_migration_txs_before_abandon W node network account rid native s = (Inr (), s)"
proof -
  have "sendable_pending (se_db s) rid = []"
    using assms(2) by (simp add: sendable_pending_def filter_empty_conv)
  then have "cs = []"
    using assms(1,3) by (auto simp: scheduled_migration_stop_candidates_def rbind_eq_Inr ok_or_eq_Inr split: if_splits)
  then show ?thesis using assms(1) by (simp add: reconcile_scheduled_migration_txs_before_abandon_def Let_def)
qed

text \<open>A transfer was handed over and no answer came; the node has it, and the run is stopped.\<close>

definition example_node :: "unit node_api" where
  "example_node = \<lparr>nd_open = \<lambda>w. (Inr (), w), nd_latest_height = \<lambda>w. (Inr 100, w), nd_transaction = \<lambda>txid w. (Inr [1], w)\<rparr>"

definition example_sent_part :: pending_row where
  "example_sent_part = example_fresh_part\<lparr>pt_broadcast_attempted := 1\<rparr>"

definition example_sent_db :: migration_db where
  "example_sent_db = example_fresh_db\<lparr>mdb_pending := [example_sent_part]\<rparr>"

theorem stop_accounts_for_sent_witness:
  "\<exists>ks' s'. abandon_orchard_migration silent_world example_node ''db'' Test ''account'' ''run'' [] {} example_ready_batch
       \<lparr>se_db = example_sent_db, se_world = (), se_sent = []\<rparr> = (Inr (), ks', s')
     \<and> example_sent_part \<in> possibly_sent_parts [] 100 ''run'' example_sent_db
     \<and> reconciled_with_node silent_world example_node () 100 (pt_txid_hex example_sent_part) (pt_expiry_height example_sent_part)
         (set_part_status ''broadcasted'' example_sent_part \<in> set (mdb_pending (se_db s')))"
proof -
  let ?s = "\<lparr>se_db = example_sent_db, se_world = (), se_sent = []\<rparr>"
  let ?r = "example_waiting_run\<lparr>rr_phase := PHASE_BROADCAST_SCHEDULED\<rparr>"
  let ?c = "part_candidate example_sent_part Attempted"
  have W: "wo_unhex silent_world = example_unhex" "wo_chain silent_world = (\<lambda>w. empty_wallet)" "wo_now silent_world = (\<lambda>w. 5)"
    "wo_store silent_world = (\<lambda>raw w. (Inr (), w))" "wo_locks silent_world = no_locks"
    by (simp_all add: silent_world_def)
  have part: "pt_txid_hex example_sent_part = ''t''" "pt_status example_sent_part = ''scheduled''"
    "pt_run_id example_sent_part = ''run''" "pt_broadcast_attempted example_sent_part = 1"
    by (simp_all add: example_sent_part_def example_fresh_part_def example_pending_def)
  have db: "mdb_runs example_sent_db = [?r]" "mdb_notes example_sent_db = []" "mdb_pending example_sent_db = [example_sent_part]"
    "mdb_children example_sent_db = []" "mdb_stages example_sent_db = empty_db"
    by (simp_all add: example_sent_db_def example_fresh_db_def example_waiting_db_def empty_db_def)
  have run: "rr_run_id ?r = ''run''" "rr_account_uuid ?r = ''account''" "rr_network ?r = network_name Test"
    by (simp_all add: example_waiting_run_def)
  have phase: "PHASE_BROADCAST_SCHEDULED \<notin> {PHASE_ABANDONED, PHASE_COMPLETE, PHASE_FAILED_TERMINAL}"
    by (simp add: phase_defs)
  have cands: "scheduled_migration_stop_candidates example_unhex empty_wallet example_sent_db ''account'' Test ''run'' = Inr [?c]"
    using phase run by (simp add: scheduled_migration_stop_candidates_def db ok_or_def sendable_pending_def pending_rows_def part
        pending_stages_def empty_db_def attempt_state_from_db_def part_candidate_def)
  let ?q = "set_part_status ''broadcasted'' example_sent_part"
  let ?r1 = "move_run PHASE_WAITING_MIGRATION_CONFIRMATIONS 5 None ?r"
  let ?db1 = "example_sent_db\<lparr>mdb_pending := [?q], mdb_runs := [?r1]\<rparr>"
  have q: "pt_run_id ?q = ''run''" "pt_status ?q = ''broadcasted''" by (simp_all add: set_part_status_def part)
  have r1: "rr_run_id ?r1 = ''run''" "rr_account_uuid ?r1 = ''account''" "rr_network ?r1 = network_name Test"
    "rr_phase ?r1 = PHASE_WAITING_MIGRATION_CONFIRMATIONS"
    by (simp_all add: move_run_def example_waiting_run_def)
  have targets: "rr_target_values example_waiting_run = [100000000]" by (simp add: example_waiting_run_def)
  have mark: "mark_pending_broadcasted 5 example_sent_db ''run'' ''t'' = Inr ?db1"
    by (simp add: mark_pending_broadcasted_def update_run_after_pending_broadcast_def sql_update_pending_def sql_update_runs_def
        db part q run targets count_pending_with_status_def count_for_run_def try_u32_def pending_rows_def planned_part_count_with_conn_def
        run_of_def ok_or_def unpromoted_signed_child_pczt_count_with_conn_def unpromoted_signed_child_note_outpoints_with_conn_def
        next_phase_after_broadcast_def)
  have reconciled: "reconcile_scheduled_migration_txs_before_abandon silent_world example_node Test ''account'' ''run'' [] ?s =
      (Inr (), ?s\<lparr>se_db := ?db1\<rparr>)"
    by (simp add: reconcile_scheduled_migration_txs_before_abandon_def W cands Let_def part_candidate_def part
        migration_stop_candidate_requires_reconciliation_def node_tip_def example_node_def parse_txid_hex_def example_unhex_def
        example_txid_bytes_def ok_or_def fetch_transaction_def store_transaction_def mark_candidate_def mark_broadcasted_def mark
        with_db_def map_error_def)
  have phase1: "PHASE_WAITING_MIGRATION_CONFIRMATIONS \<notin> {PHASE_ABANDONED, PHASE_COMPLETE, PHASE_FAILED_TERMINAL}"
    by (simp add: phase_defs)
  have run1: "find (\<lambda>r. rr_run_id r = ''run'') (mdb_runs ?db1) = Some ?r1" using r1(1) by simp
  obtain db2 where stop: "stopped_run 5 ''run'' ?r1 ?db1 = Inr db2"
    using r1 by (simp add: stopped_run_def sql_update_runs_def)
  from stopped_run_state(1) [OF stop run1] obtain r2 where r2: "find (\<lambda>r. rr_run_id r = ''run'') (mdb_runs db2) = Some r2"
    "rr_phase r2 = PHASE_ABANDONED" and none: "wallet_lock_candidates_with_conn db2 ''run'' = []"
    by (auto simp: stopped_state_def wallet_lock_candidates_with_conn_def db empty_db_def)
  have "wallet_lock_reconciliation_snapshot db2 ''run'' = Some (True, [])"
    by (simp add: wallet_lock_reconciliation_snapshot_def r2 none migration_phase_releases_wallet_locks_def)
  then obtain db3 where "release_stopped_run no_locks example_unhex ''run'' (db2, ()) = (Inr (), db3, ())"
    by (simp add: release_stopped_run_def reconcile_wallet_locks_for_run_def reconcile_quiet apply_disposition_def
        unlock_orchard_migration_outputs_def)
  then have "abandon_run no_locks example_unhex 5 ''account'' Test ''run'' (?db1, ()) = (Inr (), db3, ())"
    using run1 r1 phase1 stop by (simp add: abandon_run_def)
  then have "\<exists>ks' s'. abandon_orchard_migration silent_world example_node ''db'' Test ''account'' ''run'' [] {} example_ready_batch ?s
      = (Inr (), ks', s')"
    using reconciled by (simp add: abandon_orchard_migration_def acquire_migration_def W)
  then obtain ks' s' where stopped: "abandon_orchard_migration silent_world example_node ''db'' Test ''account'' ''run'' [] {}
      example_ready_batch ?s = (Inr (), ks', s')" by blast
  have "\<not> is_stopped example_sent_db ''run''" using phase run by (auto simp: is_stopped_def db)
  have sent: "example_sent_part \<in> possibly_sent_parts [] tip ''run'' example_sent_db" for tip
    by (simp add: possibly_sent_parts_def part_may_be_sent_def part db(3))
  have not_held: "\<not> held_by_wallet silent_world ?s (se_db s') example_sent_part"
    by (simp add: held_by_wallet_def part)
  have tip: "node_tip example_node ?s = (Inr 100, ?s)" by (simp add: node_tip_def example_node_def)
  have "db_ok (mdb_stages (se_db ?s))" by (simp add: db)
  from stop_accounts_for_sent [OF stopped this] \<open>\<not> is_stopped example_sent_db ''run''\<close>
  have "reconciled_with_node silent_world example_node () 100 (pt_txid_hex example_sent_part) (pt_expiry_height example_sent_part)
         (set_part_status ''broadcasted'' example_sent_part \<in> set (mdb_pending (se_db s')))"
    using sent not_held by (auto simp: tip)
  then show ?thesis using stopped sent by blast
qed

end
