(* ===== verification/Spec2Isabelle.thy ===== *)
theory Spec2Isabelle
  imports Wallet_Network Timing_Policy Denominations Anchor_Policy Random_Source Schedule
    Preparation_Schedule Split_Refinement Split_Graph Split_Total Compact_Sigs Stage_Round_Trip
    Chain_Settled Run_Ready Pending_Sent Lock_Reconcile After_Sync Run_Creation Transfer_Sent
    Request_Properties Stop_Safe
begin

text \<open>
  A verification development for the pool-migration engine of the wallet, the part of the Rust core that
  moves a user's shielded balance from the Orchard pool to the Ironwood pool by a private schedule.

  \<^bold>\<open>The program.\<close> Sources are under \<open>rust/src/wallet/sync\<close>. A migration of an account is a \<^emph>\<open>run\<close>. A plan
  splits the spendable notes into canonical denominations (\<open>migration/denomination_policy.rs\<close>). Notes that
  are too large or too small are first prepared: a schedule of preparation transactions in layers
  (\<open>migration/preparation_plan.rs\<close>), refined and padded so that it looks alike for all users and translated
  to stages with inputs and outputs by index (\<open>migration/split_plan.rs\<close>). The stages are stored encrypted,
  broadcast at randomised heights (\<open>migration/stages.rs\<close>, \<open>migration/preparation_policy.rs\<close>) and followed on
  the chain, reorganisations included. When every prepared note is trusted, each denomination becomes one
  transfer with a random height from a schedule (\<open>migration/schedule.rs\<close>, \<open>migration/policy.rs\<close>) and an
  expiry height that is canonical for it. The bookkeeping of runs, children and transfers is in
  \<open>migration.rs\<close>, the locks on a run's notes in \<open>migration_wallet_ops.rs\<close>, the senders in \<open>send.rs\<close>, and the
  reading of a node's answer in \<open>broadcast.rs\<close>.

  \<^bold>\<open>Theories and sources.\<close>
  \<^item> \<open>Prelude\<close>: Rust's \<open>Result\<close> as a sum (\<open>Inl\<close> is \<open>Err\<close>), checked and saturating arithmetic at its width,
    slices, and the list lemmas the components share.
  \<^item> \<open>Wallet_Network\<close>: \<open>network.rs\<close> and the activation tables of the vendored consensus crate.
  \<^item> \<open>Timing_Policy\<close>, \<open>Denominations\<close>, \<open>Anchor_Policy\<close>: \<open>policy.rs\<close> and \<open>denomination_policy.rs\<close>.
  \<^item> \<open>Random_Source\<close>, \<open>Schedule\<close>: the rejection sampler, and planning, rebuilding, validating and
    reading back a schedule (\<open>schedule.rs\<close>).
  \<^item> \<open>Preparation_Plan\<close> models \<open>preparation_plan.rs\<close>; \<open>Preparation_Steps\<close> is its abstract specification, a
    step relation on layers and the pool of unspent notes; \<open>Preparation_Correct\<close>, \<open>Preparation_Properties\<close>,
    \<open>Preparation_Value\<close>, \<open>Preparation_Complete\<close> show that the planner moves along those steps and what
    follows for a finished plan. \<open>Preparation_Schedule\<close> models the heights of \<open>preparation_policy.rs\<close>.
  \<^item> \<open>Split_Plan\<close> models \<open>split_plan.rs\<close>; \<open>Split_Refinement\<close>, \<open>Split_Search\<close>, \<open>Split_Translation\<close>,
    \<open>Split_Properties\<close>, \<open>Split_Graph\<close>, \<open>Split_Total\<close> prove the refinement candidates, the search, the
    translation to stages, the graph of the stages, and that a planner that is asked returns.
  \<^item> \<open>Compact_Sigs\<close>: the signature blob of \<open>../keystone.rs\<close>.
  \<^item> \<open>Stage_Store\<close>, \<open>Stage_Updates\<close>, \<open>Stage_Steps\<close>: the tables and every operation of \<open>stages.rs\<close>.
    \<open>Stage_Properties\<close> has the invariant, \<open>Stage_Refinement\<close> the abstract stage machine that the store
    refines, \<open>Stage_Round_Trip\<close> that a batch is loaded as it was stored.
  \<^item> \<open>Run_Store\<close>, \<open>Catch_Up\<close>: the row types of \<open>schema.rs\<close> and the catch-up after a missed broadcast.
  \<^item> \<open>Chain_Reconcile\<close>, \<open>Chain_Properties\<close>, \<open>Chain_Outcome\<close>, \<open>Chain_Settled\<close>: the reconciliation of the
    stages with the scanned chain.
  \<^item> \<open>Run_Confirmations\<close>, \<open>Run_Completion\<close>: following the transfers; \<open>Run_Readiness\<close>, \<open>Run_Ready\<close>: when a run
    may send.
  \<^item> \<open>Pending_Parts\<close>, \<open>Pending_Broadcast\<close>, \<open>Pending_Receipt\<close>, \<open>Pending_Rebuild\<close>: the transfers of a run, from
    their insertion over selection, redraw and receipt to the recovery of what must be signed again.
    \<open>Pending_Steps\<close>, \<open>Pending_Invariant\<close>, \<open>Pending_Reach\<close>, \<open>Pending_Due\<close>, \<open>Pending_Redraw\<close>, \<open>Pending_Sent\<close>
    hold the step relation over all of them, its invariant and the properties.
  \<^item> \<open>Wallet_Locks\<close>, \<open>Lock_Settling\<close>, \<open>Lock_Reconcile\<close>: the locks on a run's outputs.
  \<^item> \<open>Run_Lifecycle\<close>, \<open>Run_Creation\<close>, \<open>Run_Stopping\<close>, \<open>After_Sync\<close>: creating, drafting, finalising, retiring
    and stopping a run, and the pass over all runs after a synchronisation. \<open>Run_Queries\<close>: what the
    senders read.
  \<^item> \<open>Broadcast_Response\<close>, \<open>Transfer_Driver\<close>, \<open>Transfer_Sent\<close>: a node's answer, the sender of due transfers
    (\<open>broadcast_due_scheduled_migration_txs\<close> of \<open>send.rs\<close> and what it calls), and what it sends.
  \<^item> \<open>Stop_Driver\<close>, \<open>Stop_Safe\<close>: stopping a run, and retiring one whose credential is lost, against a live
    node (\<open>abandon_orchard_migration\<close>, \<open>retire_unbroadcast_orchard_migration\<close> of \<open>send.rs\<close>), and that a stop
    accounts for what was sent.
  \<^item> \<open>Request_Stores\<close>, \<open>Request_Completion\<close>: the signing requests of a hardware signer
    (\<open>send/ironwood_migration.rs\<close>, \<open>keystone_requests.rs\<close> and \<open>denomination_split.rs\<close> beside it).
    \<open>Request_Lifecycle\<close> is their step relation, in which clients and proof workers interleave, over an
    interface that both kinds of request provide; \<open>Request_Properties\<close> has the properties.

  \<^bold>\<open>State.\<close> A SQL table is the list of its rows in insertion order, a row is a record with the columns the
  code reads or writes; \<open>migration_db\<close> collects the tables of the engine. An \<open>UPDATE\<close> is a map with a
  guard and the number of rows it changed, a transaction is the state it returns or, on error, the state it
  started from. The database is taken to answer, with the exception of the calls of \<open>db_call\<close>: two reads
  and a deletion whose failure leads to an outcome of its own, so they may return an error of the
  database. Every function is total and returns a sum; where the code draws random numbers until one is
  accepted the model is an option and a theorem that it returns assumes that the sampler accepts some draw.
  Integers are natural numbers with their width written out: every \<open>checked_\<close>, \<open>saturating_\<close> and
  \<open>try_from\<close> of the source is there, with the bounds \<open>2 ^ 32\<close> and \<open>2 ^ 64\<close>.

  \<^bold>\<open>Parameters.\<close> What is not in the repository is an argument: the random generator and its shuffle
  (\<open>sampler\<close>), the encryption of payloads (\<open>payload_cipher\<close>), the decoding of hexadecimal transaction ids,
  the tables of the wallet library (\<open>wallet_chain\<close>, \<open>wallet_spends\<close>, absent tables included), its lock
  operations (\<open>lock_api\<close>), the clock, the order an unstable sort leaves, and for the senders the node, the
  library's store, the chain tip and the errors of the database (\<open>world\<close>), a node that is asked (\<open>node_api\<close>), and the check and
  extraction of signed transactions (\<open>pczt_api\<close>). Hypotheses on them are named predicates (\<open>shuffles\<close>,
  \<open>always_accepts\<close>, \<open>cipher_ok\<close>, \<open>lock_laws\<close>, \<open>lock_exclusive\<close>, \<open>case_blind\<close>), and each is met by a concrete instance in a
  witness.

  \<^bold>\<open>Bounds.\<close> The reconciliation of the locks makes at most eight rounds, as the code does. The planners
  recurse on measures (the number of notes, the value left, the layers left); the propagation over the
  stages on the number of stages not reached yet. No fuel is used elsewhere.

  \<^bold>\<open>Not modelled.\<close> Building, proving and signing transactions (calls into \<open>zcash_client_backend\<close>,
  \<open>librustzcash\<close>, \<open>halo2\<close>); the column migrations and backfills of \<open>schema.rs\<close>; the status report and its
  projection of completion times; the contents of the serialised transactions; asynchronous scheduling
  (a sender is one sequential step of the world; only the signing requests interleave); the sender of the
  preparation stages, the driver of the native background sender and the sending of an immediate transfer.
  The synchronisation engine, addresses and keys, secret storage, voting, network privacy and the generated
  bridge are other subsystems, listed in the manifest.
\<close>

end
